(* ===== verification/Shield_Prelude.thy ===== *)
theory Shield_Prelude
  imports Main "HOL-Library.AList" "HOL-Library.Monad_Syntax"
begin

section \<open>Prelude: JavaScript values, errors and the shared lemma collections\<close>

text \<open>
  What every component theory uses: the exceptions of the service layer as values of one
  datatype, results as a sum type, the few operations of the JavaScript standard library the
  sources call (truthiness of strings, \<open>Array.indexOf\<close>, \<open>Set\<close> and \<open>Map\<close> with their
  insertion order, \<open>toLowerCase\<close>), and the generic lemmas about them.

  Strings are \<open>string\<close>: a list of 8-bit characters. \<open>toLowerCase\<close> is modelled on the
  ASCII letters, which is what e-mail addresses and enumeration values use.
\<close>

named_theorems grant_simps \<open>rewrite rules of the access-grant layer\<close>

type_synonym id = string
type_synonym time = int \<comment> \<open>milliseconds since the epoch, as \<open>Date.now()\<close> returns\<close>

subsection \<open>Exceptions as values\<close>

text \<open>
  The exception classes of \<^verbatim>\<open>@nestjs/common\<close> the services throw, with their message or their
  \<open>code\<close>; a plain \<open>new Error(...)\<close> is \<open>ServerError\<close>.
\<close>

datatype api_error =
    UnauthorizedException string
  | ForbiddenException string
  | BadRequestException string
  | NotFoundException string
  | ConflictException string
  | GoneException string
  | ServerError string

type_synonym 'a result = "api_error + 'a"

definition bindr :: "'e + 'a \<Rightarrow> ('a \<Rightarrow> 'e + 'b) \<Rightarrow> 'e + 'b" where
  "bindr r f = (case r of Inl e \<Rightarrow> Inl e | Inr a \<Rightarrow> f a)"

lemma bindr_simps [simp]:
  "bindr (Inl e) f = Inl e"
  "bindr (Inr a) f = f a"
  by (simp_all add: bindr_def)

lemma bindr_Inr_iff: "bindr r f = Inr b \<longleftrightarrow> (\<exists>a. r = Inr a \<and> f a = Inr b)"
  by (cases r) simp_all

lemma bindr_Inl_iff: "bindr r f = Inl e \<longleftrightarrow> r = Inl e \<or> (\<exists>a. r = Inr a \<and> f a = Inl e)"
  by (cases r) simp_all

definition is_ok :: "'e + 'a \<Rightarrow> bool" where
  "is_ok r = (case r of Inl _ \<Rightarrow> False | Inr _ \<Rightarrow> True)"

lemma is_ok_simps [simp]: "is_ok (Inl e) = False" "is_ok (Inr a) = True"
  by (simp_all add: is_ok_def)

text \<open>\<open>for (const x of xs) check(x)\<close>: the first check that throws ends the loop.\<close>

fun for_all_ok :: "('a \<Rightarrow> 'e + unit) \<Rightarrow> 'a list \<Rightarrow> 'e + unit" where
  "for_all_ok f [] = Inr ()"
| "for_all_ok f (x # xs) = bindr (f x) (\<lambda>_. for_all_ok f xs)"

lemma for_all_ok_Inr_iff: "for_all_ok f xs = Inr () \<longleftrightarrow> (\<forall>x\<in>set xs. f x = Inr ())"
  by (induction xs) (auto simp: bindr_Inr_iff)

lemma for_all_ok_Inl_ex: "for_all_ok f xs = Inl e \<Longrightarrow> \<exists>x\<in>set xs. f x = Inl e"
  by (induction xs) (auto simp: bindr_Inl_iff)

subsection \<open>Strings\<close>

text \<open>An optional string is truthy when it is present and not empty.\<close>

definition truthy :: "string option \<Rightarrow> bool" where
  "truthy s = (case s of None \<Rightarrow> False | Some x \<Rightarrow> x \<noteq> [])"

lemma truthy_simps [simp]:
  "truthy None = False"
  "truthy (Some x) = (x \<noteq> [])"
  by (simp_all add: truthy_def)

lemma truthyE: "truthy s \<Longrightarrow> (\<And>x. s = Some x \<Longrightarrow> x \<noteq> [] \<Longrightarrow> P) \<Longrightarrow> P"
  by (cases s) auto

definition lower_char :: "char \<Rightarrow> char" where
  "lower_char c =
     (let n = of_char c :: nat in if 65 \<le> n \<and> n \<le> 90 then char_of (n + 32) else c)"

definition toLowerCase :: "string \<Rightarrow> string" where
  "toLowerCase s = map lower_char s"

lemma lower_char_idem [simp]: "lower_char (lower_char c) = lower_char c"
proof -
  let ?n = "of_char c :: nat"
  show ?thesis
  proof (cases "65 \<le> ?n \<and> ?n \<le> 90")
    case True
    then have eq: "lower_char c = char_of (?n + 32)" by (simp add: lower_char_def Let_def)
    have "of_char (char_of (?n + 32) :: char) = ((?n + 32) mod 256 :: nat)"
      by (rule of_char_of)
    also have "\<dots> = ?n + 32" using True by (intro mod_less) linarith
    finally have "of_char (lower_char c) = ?n + 32" by (simp add: eq)
    with True have "\<not> (65 \<le> (of_char (lower_char c) :: nat) \<and> (of_char (lower_char c) :: nat) \<le> 90)"
      by linarith
    then show ?thesis by (simp only: lower_char_def [of "lower_char c"] Let_def if_False)
  next
    case False
    then show ?thesis by (auto simp: lower_char_def Let_def)
  qed
qed

lemma toLowerCase_idem [simp]: "toLowerCase (toLowerCase s) = toLowerCase s"
  by (simp add: toLowerCase_def)

text \<open>\<open>String.prototype.split\<close> with a one-character separator; the result is never empty.\<close>

fun split_on :: "char \<Rightarrow> string \<Rightarrow> string list" where
  "split_on c [] = [[]]"
| "split_on c (x # xs) =
     (if x = c then [] # split_on c xs
      else case split_on c xs of [] \<Rightarrow> [[x]] | y # ys \<Rightarrow> (x # y) # ys)"

lemma split_on_nonempty: "split_on c s \<noteq> []"
  by (cases s) (auto split: list.split)

lemma split_on_no_sep: "c \<notin> set a \<Longrightarrow> split_on c a = [a]"
  by (induction a) auto

lemma split_on_append_sep: "c \<notin> set a \<Longrightarrow> split_on c (a @ c # b) = a # split_on c b"
  by (induction a) auto

text \<open>\<open>Array.prototype.join\<close>.\<close>

fun join_with :: "string \<Rightarrow> string list \<Rightarrow> string" where
  "join_with sep [] = []"
| "join_with sep [x] = x"
| "join_with sep (x # xs) = x @ sep @ join_with sep xs"

text \<open>A number in a template literal: its decimal digits.\<close>

fun show_nat :: "nat \<Rightarrow> string" where
  "show_nat n =
     (if n < 10 then [char_of (n + 48)] else show_nat (n div 10) @ [char_of (n mod 10 + 48)])"

declare show_nat.simps [simp del]

definition show_int :: "int \<Rightarrow> string" where
  "show_int i = (if i < 0 then CHR ''-'' # show_nat (nat (- i)) else show_nat (nat i))"

subsection \<open>Arrays, sets and maps\<close>

text \<open>\<open>Array.prototype.indexOf\<close>: the first position, \<open>-1\<close> when there is none.\<close>

fun indexOf :: "'a list \<Rightarrow> 'a \<Rightarrow> int" where
  "indexOf [] x = -1"
| "indexOf (y # ys) x =
     (if y = x then 0 else let i = indexOf ys x in if i < 0 then -1 else i + 1)"

text \<open>\<open>Set.add\<close>: iteration is in insertion order, so a set is a list without duplicates.\<close>

definition set_add :: "'a list \<Rightarrow> 'a \<Rightarrow> 'a list" where
  "set_add s x = (if x \<in> set s then s else s @ [x])"

definition set_adds :: "'a list \<Rightarrow> 'a list \<Rightarrow> 'a list" where
  "set_adds s xs = foldl set_add s xs"

definition unique :: "'a list \<Rightarrow> 'a list" where
  \<comment> \<open>\<open>[...new Set(xs)]\<close>\<close>
  "unique xs = set_adds [] xs"

lemma set_set_add [simp]: "set (set_add s x) = insert x (set s)"
  by (auto simp: set_add_def)

lemma set_set_adds [simp]: "set (set_adds s xs) = set s \<union> set xs"
  by (induction xs arbitrary: s) (auto simp: set_adds_def)

lemma distinct_set_add [simp]: "distinct s \<Longrightarrow> distinct (set_add s x)"
  by (auto simp: set_add_def)

lemma distinct_set_adds: "distinct s \<Longrightarrow> distinct (set_adds s xs)"
  by (induction xs arbitrary: s) (simp_all add: set_adds_def)

lemma set_unique [simp]: "set (unique xs) = set xs"
  by (simp add: unique_def)

lemma distinct_unique [simp]: "distinct (unique xs)"
  by (simp add: unique_def distinct_set_adds)

text \<open>
  A \<open>Map\<close> is an association list in insertion order: \<open>AList.update\<close> is \<open>Map.set\<close> (it
  keeps the position of a key that is present and appends a new one) and \<open>map_of\<close> is \<open>Map.get\<close>.
\<close>

type_synonym ('k, 'v) jmap = "('k \<times> 'v) list"

definition jmap_push :: "('k, 'v list) jmap \<Rightarrow> 'k \<Rightarrow> 'v \<Rightarrow> ('k, 'v list) jmap" where
  \<comment> \<open>the grouping idiom \<open>const g = m.get(k) ?? []; g.push(v); m.set(k, g)\<close>\<close>
  "jmap_push m k v =
     AList.update k ((case map_of m k of None \<Rightarrow> [] | Some g \<Rightarrow> g) @ [v]) m"

definition group_by :: "('a \<Rightarrow> 'k) \<Rightarrow> 'a list \<Rightarrow> ('k, 'a list) jmap" where
  "group_by key xs = foldl (\<lambda>m x. jmap_push m (key x) x) [] xs"

lemma map_of_jmap_push:
  "map_of (jmap_push m k v) k' =
     (if k' = k then Some ((case map_of m k of None \<Rightarrow> [] | Some g \<Rightarrow> g) @ [v])
      else map_of m k')"
  by (simp add: jmap_push_def update_conv')

lemma distinct_jmap_push [simp]:
  "distinct (map fst m) \<Longrightarrow> distinct (map fst (jmap_push m k v))"
  by (simp add: jmap_push_def distinct_update)

lemma group_by_snoc:
  "group_by key (xs @ [x]) = jmap_push (group_by key xs) (key x) x"
  by (simp add: group_by_def)

lemma group_by_Nil [simp]: "group_by key [] = []"
  by (simp add: group_by_def)

lemma distinct_group_by [simp]: "distinct (map fst (group_by key xs))"
  by (induction xs rule: rev_induct) (simp_all add: group_by_snoc)

lemma map_of_group_by:
  "map_of (group_by key xs) k =
     (let g = filter (\<lambda>x. key x = k) xs in if g = [] then None else Some g)"
proof (induction xs rule: rev_induct)
  case Nil
  show ?case by simp
next
  case (snoc x xs)
  then show ?case by (auto simp: group_by_snoc map_of_jmap_push Let_def)
qed

lemma group_by_mem_iff:
  "(k, g) \<in> set (group_by key xs) \<longleftrightarrow> g = filter (\<lambda>x. key x = k) xs \<and> g \<noteq> []"
proof -
  have "(k, g) \<in> set (group_by key xs) \<longleftrightarrow> map_of (group_by key xs) k = Some g"
    by (simp add: map_of_eq_Some_iff)
  also have "\<dots> \<longleftrightarrow> g = filter (\<lambda>x. key x = k) xs \<and> g \<noteq> []"
    by (auto simp: map_of_group_by Let_def)
  finally show ?thesis .
qed

text \<open>\<open>Array.prototype.at(0)\<close>.\<close>

definition at0 :: "'a list \<Rightarrow> 'a option" where
  "at0 xs = (case xs of [] \<Rightarrow> None | x # _ \<Rightarrow> Some x)"

lemma at0_simps [simp]: "at0 [] = None" "at0 (x # xs) = Some x"
  by (simp_all add: at0_def)

lemma at0_None_iff: "at0 xs = None \<longleftrightarrow> xs = []"
  by (cases xs) simp_all

lemma at0_SomeD: "at0 xs = Some x \<Longrightarrow> x \<in> set xs"
  by (cases xs) simp_all

text \<open>\<open>Array.prototype.findIndex\<close>, \<open>-1\<close> when no element qualifies.\<close>

fun findIndex :: "('a \<Rightarrow> bool) \<Rightarrow> 'a list \<Rightarrow> int" where
  "findIndex P [] = -1"
| "findIndex P (x # xs) =
     (if P x then 0 else let i = findIndex P xs in if i < 0 then -1 else i + 1)"

lemma findIndex_range: "-1 \<le> findIndex P xs \<and> findIndex P xs < int (length xs)"
  by (induction xs) (auto simp: Let_def)

lemma findIndex_nonneg_iff: "0 \<le> findIndex P xs \<longleftrightarrow> (\<exists>x\<in>set xs. P x)"
  by (induction xs) (auto simp: Let_def)

lemma findIndex_nth: "0 \<le> findIndex P xs \<Longrightarrow> P (xs ! nat (findIndex P xs))"
  by (induction xs) (auto simp: Let_def nat_add_distrib split: if_splits)

lemma find_SomeD: "List.find P xs = Some x \<Longrightarrow> x \<in> set xs \<and> P x"
  by (induction xs) (auto split: if_splits)

lemma indexOf_ge: "-1 \<le> indexOf xs x"
  by (induction xs) (auto simp: Let_def)

lemma indexOf_nonneg_iff: "0 \<le> indexOf xs x \<longleftrightarrow> x \<in> set xs"
  by (induction xs) (auto simp: Let_def)

end
