(* ===== verification/Scopes.thy ===== *)
theory Scopes
  imports Shield_Prelude
begin

section \<open>Role scopes and capabilities\<close>

text \<open>
  The scope hierarchy of \<^verbatim>\<open>src/src/auth/utils/scope.ts\<close> and the capability names of
  \<^verbatim>\<open>src/src/auth/utils/capabilities.ts\<close>. A scope says how much data a role reaches, a
  capability which actions it allows. \<open>isScopeAtLeast\<close> compares positions in the hierarchy
  list; the theory shows that this is a total order and makes it the \<open>linorder\<close> of the scope
  type, so that the components above can use the library's lemmas on \<open>Max\<close>.
\<close>

datatype role_scope = SYSTEM | GLOBAL | CLIENT | SITE_GROUP | SITE | SELF

definition SCOPE_HIERARCHY :: "role_scope list" where
  "SCOPE_HIERARCHY = [SYSTEM, GLOBAL, CLIENT, SITE_GROUP, SITE, SELF]"

definition isScopeAtLeast :: "role_scope \<Rightarrow> role_scope \<Rightarrow> bool" where
  "isScopeAtLeast scope required =
     (indexOf SCOPE_HIERARCHY scope \<le> indexOf SCOPE_HIERARCHY required)"

definition getScopesAtLeast :: "role_scope \<Rightarrow> role_scope list" where
  "getScopesAtLeast scope = take (nat (indexOf SCOPE_HIERARCHY scope + 1)) SCOPE_HIERARCHY"

definition scopeAllowsAllClientSites :: "role_scope \<Rightarrow> bool" where
  "scopeAllowsAllClientSites scope = isScopeAtLeast scope CLIENT"

definition scopeAllowsMultipleClients :: "role_scope \<Rightarrow> bool" where
  "scopeAllowsMultipleClients scope = isScopeAtLeast scope GLOBAL"

type_synonym capability = string

definition VALID_CAPABILITIES :: "capability list" where
  "VALID_CAPABILITIES =
     [''perform-inspections'', ''submit-requests'', ''manage-assets'', ''manage-routes'',
      ''resolve-alerts'', ''view-reports'', ''manage-users'', ''configure-products'',
      ''approve-requests'', ''program-tags'', ''register-tags'']"

definition isValidCapability :: "string \<Rightarrow> bool" where
  "isValidCapability c = List.member VALID_CAPABILITIES c"

subsection \<open>The hierarchy as a total order\<close>

text \<open>
  What the code relies on when it compares scopes: a reflexive, transitive, antisymmetric and
  total relation. The clients are the fold that merges access grants and the one that picks a
  user's most permissive role.
\<close>

locale permission_order =
  fixes at_least :: "'s \<Rightarrow> 's \<Rightarrow> bool"
  assumes at_least_refl: "at_least a a"
    and at_least_trans: "at_least a b \<Longrightarrow> at_least b c \<Longrightarrow> at_least a c"
    and at_least_antisym: "at_least a b \<Longrightarrow> at_least b a \<Longrightarrow> a = b"
    and at_least_total: "at_least a b \<or> at_least b a"
begin

definition keep_most :: "('x \<Rightarrow> 's) \<Rightarrow> 'x \<Rightarrow> 'x \<Rightarrow> 'x" where
  "keep_most key best x = (if at_least (key x) (key best) then x else best)"

lemma keep_most_mem: "foldl (keep_most key) b xs \<in> insert b (set xs)"
  by (induction xs arbitrary: b) (auto simp: keep_most_def split: if_splits)

lemma keep_most_init: "at_least (key (foldl (keep_most key) b xs)) (key b)"
proof (induction xs arbitrary: b)
  case Nil
  show ?case by (simp add: at_least_refl)
next
  case (Cons x xs)
  have "at_least (key (keep_most key b x)) (key b)"
    by (simp add: keep_most_def at_least_refl)
  with Cons show ?case by (auto intro: at_least_trans)
qed

lemma keep_most_max:
  "y \<in> set xs \<Longrightarrow> at_least (key (foldl (keep_most key) b xs)) (key y)"
proof (induction xs arbitrary: b)
  case Nil
  then show ?case by simp
next
  case (Cons x xs)
  have "at_least (key (keep_most key b x)) (key x)"
    using at_least_total [of "key x" "key b"] by (auto simp: keep_most_def at_least_refl)
  with Cons show ?case
    by (auto intro: at_least_trans [OF keep_most_init])
qed

end

interpretation scope_ord: permission_order isScopeAtLeast
proof
  fix a b c
  show "isScopeAtLeast a a" by (simp add: isScopeAtLeast_def)
  show "isScopeAtLeast a b \<Longrightarrow> isScopeAtLeast b c \<Longrightarrow> isScopeAtLeast a c"
    by (simp add: isScopeAtLeast_def)
  show "isScopeAtLeast a b \<Longrightarrow> isScopeAtLeast b a \<Longrightarrow> a = b"
    by (cases a; cases b; simp add: isScopeAtLeast_def SCOPE_HIERARCHY_def)
  show "isScopeAtLeast a b \<or> isScopeAtLeast b a"
    by (auto simp: isScopeAtLeast_def)
qed

instantiation role_scope :: linorder
begin

definition less_eq_role_scope :: "role_scope \<Rightarrow> role_scope \<Rightarrow> bool" where
  "less_eq_role_scope a b = isScopeAtLeast b a"

definition less_role_scope :: "role_scope \<Rightarrow> role_scope \<Rightarrow> bool" where
  "less_role_scope a b = (isScopeAtLeast b a \<and> a \<noteq> b)"

instance
  by standard
    (auto simp: less_eq_role_scope_def less_role_scope_def scope_ord.at_least_refl
      intro: scope_ord.at_least_trans scope_ord.at_least_antisym
      dest: scope_ord.at_least_antisym
      split: if_splits, metis scope_ord.at_least_total)

end

lemma isScopeAtLeast_iff: "isScopeAtLeast a b \<longleftrightarrow> b \<le> a"
  by (simp add: less_eq_role_scope_def)

text \<open>The order of the scopes written out, from the narrowest to the widest.\<close>

fun scope_rank :: "role_scope \<Rightarrow> nat" where
  "scope_rank SELF = 0"
| "scope_rank SITE = 1"
| "scope_rank SITE_GROUP = 2"
| "scope_rank CLIENT = 3"
| "scope_rank GLOBAL = 4"
| "scope_rank SYSTEM = 5"

lemma scope_rank_le: "a \<le> b \<longleftrightarrow> scope_rank a \<le> scope_rank b"
  by (cases a; cases b) (simp_all add: less_eq_role_scope_def isScopeAtLeast_def SCOPE_HIERARCHY_def)

lemma scope_rank_less: "a < b \<longleftrightarrow> scope_rank a < scope_rank b"
  unfolding less_le_not_le scope_rank_le by linarith

lemma SELF_least [simp]: "SELF \<le> s"
  by (cases s) (simp_all add: less_eq_role_scope_def isScopeAtLeast_def SCOPE_HIERARCHY_def)

lemma scope_le_SYSTEM [simp]: "s \<le> SYSTEM"
  by (cases s) (simp_all add: less_eq_role_scope_def isScopeAtLeast_def SCOPE_HIERARCHY_def)

lemma isScopeAtLeast_SYSTEM [simp]: "isScopeAtLeast s SYSTEM \<longleftrightarrow> s = SYSTEM"
  by (cases s) (simp_all add: isScopeAtLeast_def SCOPE_HIERARCHY_def)

lemma isScopeAtLeast_GLOBAL: "isScopeAtLeast s GLOBAL \<longleftrightarrow> s = SYSTEM \<or> s = GLOBAL"
  by (cases s) (simp_all add: isScopeAtLeast_def SCOPE_HIERARCHY_def)

lemma isScopeAtLeast_CLIENT:
  "isScopeAtLeast s CLIENT \<longleftrightarrow> s = SYSTEM \<or> s = GLOBAL \<or> s = CLIENT"
  by (cases s) (simp_all add: isScopeAtLeast_def SCOPE_HIERARCHY_def)

lemma getScopesAtLeast_SYSTEM [simp]: "getScopesAtLeast SYSTEM = [SYSTEM]"
  by (simp add: getScopesAtLeast_def SCOPE_HIERARCHY_def)

text \<open>
  The list that a query uses as its \<open>in\<close> filter and the predicate used in memory agree.
\<close>

lemma getScopesAtLeast_iff: "s \<in> set (getScopesAtLeast r) \<longleftrightarrow> isScopeAtLeast s r"
  by (cases s; cases r)
    (simp_all add: getScopesAtLeast_def isScopeAtLeast_def SCOPE_HIERARCHY_def)

end
