(* ===== verification/Access_Grants.thy ===== *)
theory Access_Grants
  imports Scopes
begin

section \<open>Access grants\<close>

text \<open>
  \<^verbatim>\<open>src/src/auth/utils/access-grants.ts\<close>: the \<open>AccessGrant\<close> class, the merge of several
  grants into one (\<open>reduceAccessGrants\<close>) and the keys under which a user's grant is cached and
  invalidated. The result of a grant lookup is the tagged union \<open>TAccessGrantResult\<close>.
\<close>

record access_grant =
  ag_scope :: role_scope
  ag_capabilities :: "capability list"
  ag_clientId :: id
  ag_siteId :: id
  ag_roleId :: id

definition isSystemAdmin :: "access_grant \<Rightarrow> bool" where
  "isSystemAdmin g = (ag_scope g = SYSTEM)"

definition isGlobalAdmin :: "access_grant \<Rightarrow> bool" where
  "isGlobalAdmin g = isScopeAtLeast (ag_scope g) GLOBAL"

definition isClientAdmin :: "access_grant \<Rightarrow> bool" where
  "isClientAdmin g = isScopeAtLeast (ag_scope g) CLIENT"

definition scopeAllows :: "access_grant \<Rightarrow> role_scope \<Rightarrow> bool" where
  "scopeAllows g required = isScopeAtLeast (ag_scope g) required"

definition hasCapability :: "access_grant \<Rightarrow> capability \<Rightarrow> bool" where
  "hasCapability g c = List.member (ag_capabilities g) c"

definition hasAnyCapability :: "access_grant \<Rightarrow> capability list \<Rightarrow> bool" where
  "hasAnyCapability g cs = list_ex (\<lambda>c. List.member (ag_capabilities g) c) cs"

definition hasAllCapabilities :: "access_grant \<Rightarrow> capability list \<Rightarrow> bool" where
  "hasAllCapabilities g cs = list_all (\<lambda>c. List.member (ag_capabilities g) c) cs"

datatype deny_reason =
    no_access_grant
  | access_grant_expired
  | access_grant_request_denied
  | client_inactive
  | site_inactive

record grant_details =
  gd_requestedClientId :: "id option"
  gd_requestedSiteId :: "id option"
  gd_primaryClientId :: "id option"
  gd_primarySiteId :: "id option"
  gd_primaryRoleId :: "id option"

datatype access_grant_result =
    Grant access_grant
  | Denied deny_reason grant_details

subsection \<open>Merging grants\<close>

text \<open>
  One turn of the loop. The accumulator is the grant under construction: the scope, client,
  site and role of the most permissive grant so far (a later grant of the same scope replaces
  an earlier one, since the comparison is not strict), and the set of capabilities collected.
\<close>

definition reduce_step :: "access_grant \<Rightarrow> access_grant \<Rightarrow> access_grant" where
  "reduce_step acc g =
     (let acc' =
        (if isScopeAtLeast (ag_scope g) (ag_scope acc)
         then acc\<lparr>ag_scope := ag_scope g, ag_clientId := ag_clientId g,
                  ag_siteId := ag_siteId g, ag_roleId := ag_roleId g\<rparr>
         else acc)
      in acc'\<lparr>ag_capabilities := set_adds (ag_capabilities acc) (ag_capabilities g)\<rparr>)"

definition reduceAccessGrants :: "access_grant list \<Rightarrow> access_grant result" where
  "reduceAccessGrants gs =
     (case gs of
        [] \<Rightarrow> Inl (ServerError ''No access grants provided'')
      | g0 # _ \<Rightarrow>
          Inr (foldl reduce_step
            \<lparr>ag_scope = SELF, ag_capabilities = [], ag_clientId = ag_clientId g0,
             ag_siteId = ag_siteId g0, ag_roleId = ag_roleId g0\<rparr> gs))"

subsection \<open>Cache keys\<close>

datatype access_intent = system | elevated | user_intent

fun intent_string :: "access_intent \<Rightarrow> string" where
  "intent_string system = ''system''"
| "intent_string elevated = ''elevated''"
| "intent_string user_intent = ''user''"

record access_context =
  requestedClientId :: "id option"
  requestedSiteId :: "id option"
  accessIntent :: "access_intent option"

definition nullish_or :: "'a option \<Rightarrow> 'a \<Rightarrow> 'a" where
  \<comment> \<open>JavaScript's \<open>??\<close>\<close>
  "nullish_or x d = (case x of None \<Rightarrow> d | Some y \<Rightarrow> y)"

lemma nullish_or_simps [simp]: "nullish_or None d = d" "nullish_or (Some y) d = y"
  by (simp_all add: nullish_or_def)

definition buildAccessGrantResponseCacheKey :: "id \<Rightarrow> access_context \<Rightarrow> string" where
  "buildAccessGrantResponseCacheKey idpId ctx =
     ''access-grant:idpId:'' @ idpId
     @ ''|client:'' @ nullish_or (requestedClientId ctx) ''default''
     @ ''|site:'' @ nullish_or (requestedSiteId ctx) ''default''
     @ ''|intent:'' @ intent_string (nullish_or (accessIntent ctx) user_intent)"

definition INTENT_VARIANTS :: "access_intent list" where
  "INTENT_VARIANTS = [system, elevated, user_intent]"

definition clear_contexts :: "id \<Rightarrow> id option \<Rightarrow> id list option \<Rightarrow> access_context list" where
  "clear_contexts clientId siteId siteIds =
     (let allSiteIds =
        (if truthy siteId then [the siteId] else []) @ nullish_or siteIds []
      in [\<lparr>requestedClientId = None, requestedSiteId = None, accessIntent = None\<rparr>,
          \<lparr>requestedClientId = Some clientId, requestedSiteId = None, accessIntent = None\<rparr>]
         @ map (\<lambda>s. \<lparr>requestedClientId = Some clientId, requestedSiteId = Some s,
                      accessIntent = None\<rparr>) allSiteIds)"

definition clearAccessGrantResponseCache ::
    "id \<Rightarrow> id \<Rightarrow> id option \<Rightarrow> id list option \<Rightarrow> (string list \<Rightarrow> 'r) \<Rightarrow> 'r" where
  "clearAccessGrantResponseCache idpId clientId siteId siteIds deleteFn =
     deleteFn (concat (map (\<lambda>ctx. map (\<lambda>intent.
         buildAccessGrantResponseCacheKey idpId (ctx\<lparr>accessIntent := Some intent\<rparr>))
       INTENT_VARIANTS) (clear_contexts clientId siteId siteIds)))"

subsection \<open>What merging keeps\<close>

text \<open>The loop splits into the choice of the most permissive grant and the union of capabilities.\<close>

lemma foldl_reduce_step:
  "foldl reduce_step acc gs =
     (let b = foldl (scope_ord.keep_most ag_scope) acc gs
      in acc\<lparr>ag_scope := ag_scope b, ag_clientId := ag_clientId b, ag_siteId := ag_siteId b,
             ag_roleId := ag_roleId b,
             ag_capabilities := set_adds (ag_capabilities acc) (concat (map ag_capabilities gs))\<rparr>)"
proof (induction gs rule: rev_induct)
  case Nil
  show ?case by (simp add: set_adds_def)
next
  case (snoc g gs)
  then show ?case
    by (simp add: reduce_step_def Let_def scope_ord.keep_most_def set_adds_def)
qed

lemma keep_most_scope:
  "scope_ord.keep_most ag_scope b x = (if ag_scope b \<le> ag_scope x then x else b)"
  by (simp only: scope_ord.keep_most_def isScopeAtLeast_iff)

text \<open>The last of the most permissive grants wins.\<close>

lemma keep_most_last:
  assumes "gs \<noteq> []" and "\<And>g. g \<in> set gs \<Longrightarrow> ag_scope acc \<le> ag_scope g"
  shows "\<exists>pre g post. gs = pre @ g # post \<and> foldl (scope_ord.keep_most ag_scope) acc gs = g
           \<and> (\<forall>h\<in>set pre. ag_scope h \<le> ag_scope g) \<and> (\<forall>h\<in>set post. ag_scope h < ag_scope g)"
  using assms
proof (induction gs rule: rev_induct)
  case Nil
  then show ?case by simp
next
  case (snoc x xs)
  have step: "foldl (scope_ord.keep_most ag_scope) acc (xs @ [x]) =
      (let b = foldl (scope_ord.keep_most ag_scope) acc xs
       in if ag_scope b \<le> ag_scope x then x else b)"
    by (simp only: foldl_append foldl_Cons foldl_Nil keep_most_scope Let_def)
  have acc: "ag_scope acc \<le> ag_scope x" using snoc.prems by simp
  show ?case
  proof (cases "xs = []")
    case True
    have "xs @ [x] = [] @ x # []" by (simp add: True)
    moreover have "foldl (scope_ord.keep_most ag_scope) acc (xs @ [x]) = x"
      unfolding step by (simp only: True foldl_Nil Let_def acc if_True)
    ultimately show ?thesis by fastforce
  next
    case False
    have "\<And>g. g \<in> set xs \<Longrightarrow> ag_scope acc \<le> ag_scope g" using snoc.prems by simp
    from snoc.IH [OF False this] obtain pre g post where xs: "xs = pre @ g # post"
      and f: "foldl (scope_ord.keep_most ag_scope) acc xs = g"
      and pre: "\<forall>h\<in>set pre. ag_scope h \<le> ag_scope g"
      and post: "\<forall>h\<in>set post. ag_scope h < ag_scope g"
      by blast
    show ?thesis
    proof (cases "ag_scope g \<le> ag_scope x")
      case True
      have "\<forall>h\<in>set xs. ag_scope h \<le> ag_scope x"
        using pre post xs True by fastforce
      moreover have "foldl (scope_ord.keep_most ag_scope) acc (xs @ [x]) = x"
        by (simp only: step f Let_def True if_True)
      ultimately show ?thesis by fastforce
    next
      case False
      have "foldl (scope_ord.keep_most ag_scope) acc (xs @ [x]) = g"
        by (simp only: step f Let_def False if_False)
      moreover have "xs @ [x] = pre @ g # (post @ [x])" by (simp add: xs)
      moreover have "\<forall>h\<in>set (post @ [x]). ag_scope h < ag_scope g" using post False by auto
      ultimately show ?thesis using pre by blast
    qed
  qed
qed

lemma reduceAccessGrants_Inl_iff [simp]:
  "reduceAccessGrants gs = Inl e \<longleftrightarrow> gs = [] \<and> e = ServerError ''No access grants provided''"
  by (cases gs) (auto simp: reduceAccessGrants_def)

lemma reduceAccessGrants_chosen:
  assumes "reduceAccessGrants gs = Inr r"
  shows "\<exists>pre g post. gs = pre @ g # post
           \<and> (\<forall>h\<in>set pre. ag_scope h \<le> ag_scope g) \<and> (\<forall>h\<in>set post. ag_scope h < ag_scope g)
           \<and> ag_scope r = ag_scope g \<and> ag_clientId r = ag_clientId g
           \<and> ag_siteId r = ag_siteId g \<and> ag_roleId r = ag_roleId g"
proof -
  from assms obtain g0 gs' where gs: "gs = g0 # gs'" by (cases gs) (simp_all add: reduceAccessGrants_def)
  define acc where "acc = \<lparr>ag_scope = SELF, ag_capabilities = [], ag_clientId = ag_clientId g0,
               ag_siteId = ag_siteId g0, ag_roleId = ag_roleId g0\<rparr>"
  have "gs \<noteq> []" "\<And>g. g \<in> set gs \<Longrightarrow> ag_scope acc \<le> ag_scope g"
    by (simp_all add: gs acc_def)
  from keep_most_last [OF this] obtain pre g post where split: "gs = pre @ g # post"
    "\<forall>h\<in>set pre. ag_scope h \<le> ag_scope g" "\<forall>h\<in>set post. ag_scope h < ag_scope g"
    and fold: "foldl (scope_ord.keep_most ag_scope) acc gs = g"
    by blast
  have "r = foldl reduce_step acc gs"
    using assms by (simp add: reduceAccessGrants_def gs acc_def)
  then have "ag_scope r = ag_scope g \<and> ag_clientId r = ag_clientId g
             \<and> ag_siteId r = ag_siteId g \<and> ag_roleId r = ag_roleId g"
    by (simp only: foldl_reduce_step fold Let_def) simp
  with split show ?thesis by blast
qed

lemma reduceAccessGrants_capabilities:
  assumes "reduceAccessGrants gs = Inr r"
  shows "set (ag_capabilities r) = (\<Union>g\<in>set gs. set (ag_capabilities g))"
    and "distinct (ag_capabilities r)"
proof -
  from assms have caps: "ag_capabilities r = set_adds [] (concat (map ag_capabilities gs))"
    by (cases gs)
      (simp_all add: reduceAccessGrants_def foldl_reduce_step Let_def del: foldl_Cons,
        (drule sym, simp)?)
  show "set (ag_capabilities r) = (\<Union>g\<in>set gs. set (ag_capabilities g))"
    by (simp add: caps)
  show "distinct (ag_capabilities r)"
    by (simp add: caps distinct_set_adds)
qed

lemma reduceAccessGrants_scope:
  assumes "reduceAccessGrants gs = Inr r"
  shows "ag_scope r = Max (ag_scope ` set gs)"
proof -
  from reduceAccessGrants_chosen [OF assms] obtain pre g post where
    "gs = pre @ g # post" "\<forall>h\<in>set pre. ag_scope h \<le> ag_scope g"
    "\<forall>h\<in>set post. ag_scope h < ag_scope g" "ag_scope r = ag_scope g"
    by blast
  then show ?thesis
    by (intro Max_eqI [symmetric]) (auto intro: less_imp_le)
qed

lemma reduceAccessGrants_total: "gs \<noteq> [] \<Longrightarrow> \<exists>r. reduceAccessGrants gs = Inr r"
  by (cases "reduceAccessGrants gs") auto

lemma reduceAccessGrants_from:
  assumes "reduceAccessGrants gs = Inr r"
  shows "\<exists>g\<in>set gs. ag_clientId r = ag_clientId g \<and> ag_siteId r = ag_siteId g
           \<and> ag_roleId r = ag_roleId g \<and> ag_scope r = ag_scope g"
  using reduceAccessGrants_chosen [OF assms] by fastforce

subsection \<open>Cache keys identify the context\<close>

lemma sep_append_eq:
  "c \<notin> set a \<Longrightarrow> c \<notin> set a' \<Longrightarrow> a @ c # x = a' @ c # x' \<longleftrightarrow> a = a' \<and> x = x'"
proof (induction a arbitrary: a')
  case Nil
  then show ?case by (cases a') auto
next
  case (Cons y ys)
  then show ?case by (cases a') auto
qed

lemma intent_string_inj [simp]: "intent_string i = intent_string j \<longleftrightarrow> i = j"
  by (cases i; cases j) simp_all

definition plain_id :: "string \<Rightarrow> bool" where
  \<comment> \<open>an identifier that cannot be confused with the key's own syntax\<close>
  "plain_id s \<longleftrightarrow> CHR ''|'' \<notin> set s \<and> s \<noteq> ''default''"

lemma nullish_default_inj:
  "pred_option plain_id a \<Longrightarrow> pred_option plain_id b \<Longrightarrow>
   nullish_or a ''default'' = nullish_or b ''default'' \<longleftrightarrow> a = b"
  by (cases a; cases b) (auto simp: plain_id_def)

lemma plain_nullish_no_bar: "pred_option plain_id a \<Longrightarrow> CHR ''|'' \<notin> set (nullish_or a ''default'')"
  by (cases a) (auto simp: plain_id_def)

definition plain_context :: "access_context \<Rightarrow> bool" where
  "plain_context ctx \<longleftrightarrow>
     pred_option plain_id (requestedClientId ctx) \<and> pred_option plain_id (requestedSiteId ctx)"

lemma cache_key_eq_iff:
  assumes "CHR ''|'' \<notin> set u" "CHR ''|'' \<notin> set v" "plain_context c" "plain_context d"
  shows "buildAccessGrantResponseCacheKey u c = buildAccessGrantResponseCacheKey v d \<longleftrightarrow>
     u = v \<and> requestedClientId c = requestedClientId d \<and> requestedSiteId c = requestedSiteId d
     \<and> nullish_or (accessIntent c) user_intent = nullish_or (accessIntent d) user_intent"
  using assms
  by (simp add: buildAccessGrantResponseCacheKey_def plain_context_def sep_append_eq
      plain_nullish_no_bar nullish_default_inj)

text \<open>The keys that are deleted: every intent of the default, client and client-and-site contexts.\<close>

lemma clear_keys_eq:
  "clearAccessGrantResponseCache idpId clientId siteId siteIds (\<lambda>ks. ks) =
     concat (map (\<lambda>ctx. map (\<lambda>i. buildAccessGrantResponseCacheKey idpId (ctx\<lparr>accessIntent := Some i\<rparr>))
       INTENT_VARIANTS) (clear_contexts clientId siteId siteIds))"
  by (simp add: clearAccessGrantResponseCache_def)

lemma mem_INTENT_VARIANTS [simp]: "i \<in> set INTENT_VARIANTS"
  by (cases i) (simp_all add: INTENT_VARIANTS_def)

lemma mem_clear_contexts:
  "ctx \<in> set (clear_contexts clientId siteId siteIds) \<longleftrightarrow>
     accessIntent ctx = None
     \<and> (requestedClientId ctx = None \<and> requestedSiteId ctx = None
        \<or> requestedClientId ctx = Some clientId
          \<and> (requestedSiteId ctx = None
             \<or> (truthy siteId \<and> requestedSiteId ctx = siteId)
             \<or> (\<exists>s\<in>set (nullish_or siteIds []). requestedSiteId ctx = Some s)))"
  by (cases ctx) (auto simp: clear_contexts_def Let_def truthy_def split: option.splits)

lemma clear_keys_memI:
  assumes "ctx\<lparr>accessIntent := None\<rparr> \<in> set (clear_contexts clientId siteId siteIds)"
  shows "buildAccessGrantResponseCacheKey u ctx
           \<in> set (clearAccessGrantResponseCache u clientId siteId siteIds (\<lambda>ks. ks))"
proof -
  let ?i = "nullish_or (accessIntent ctx) user_intent"
  have "buildAccessGrantResponseCacheKey u ctx
        = buildAccessGrantResponseCacheKey u (ctx\<lparr>accessIntent := Some ?i\<rparr>)"
    by (simp add: buildAccessGrantResponseCacheKey_def)
  with assms show ?thesis
    by (auto simp: clear_keys_eq intro!: bexI [of _ "ctx\<lparr>accessIntent := None\<rparr>"] image_eqI [of _ _ ?i])
qed

lemma clear_keys_mem_iff:
  assumes "CHR ''|'' \<notin> set u" "CHR ''|'' \<notin> set v" "plain_context ctx" "plain_id clientId"
    and "pred_option plain_id siteId" "list_all plain_id (nullish_or siteIds [])"
  shows "buildAccessGrantResponseCacheKey v ctx
           \<in> set (clearAccessGrantResponseCache u clientId siteId siteIds (\<lambda>ks. ks)) \<longleftrightarrow>
         u = v \<and> ctx\<lparr>accessIntent := None\<rparr> \<in> set (clear_contexts clientId siteId siteIds)"
  (is "?L \<longleftrightarrow> ?R")
proof
  assume ?L
  then obtain c i where c: "c \<in> set (clear_contexts clientId siteId siteIds)"
    and eq: "buildAccessGrantResponseCacheKey v ctx
             = buildAccessGrantResponseCacheKey u (c\<lparr>accessIntent := Some i\<rparr>)"
    by (auto simp: clear_keys_eq)
  from c assms have "plain_context (c\<lparr>accessIntent := Some i\<rparr>)"
    by (auto simp: mem_clear_contexts plain_context_def list_all_iff)
  with eq assms have "u = v \<and> requestedClientId ctx = requestedClientId c
                      \<and> requestedSiteId ctx = requestedSiteId c"
    by (auto simp: cache_key_eq_iff)
  with c show ?R by (auto simp: mem_clear_contexts)
next
  assume ?R
  then show ?L using clear_keys_memI by blast
qed

subsection \<open>Properties\<close>

text \<open>
  Merging a non-empty list of grants always succeeds; the result has the scope, client, site
  and role of the most permissive grant (the last one of those with the greatest scope) and exactly
  the union of all capabilities, without duplicates.
\<close>

theorem reduceAccessGrants_correct:
  assumes "gs \<noteq> []"
  shows "\<exists>r pre g post. reduceAccessGrants gs = Inr r \<and> gs = pre @ g # post
     \<and> (\<forall>h\<in>set pre. ag_scope h \<le> ag_scope g) \<and> (\<forall>h\<in>set post. ag_scope h < ag_scope g)
     \<and> ag_scope r = ag_scope g \<and> ag_clientId r = ag_clientId g
     \<and> ag_siteId r = ag_siteId g \<and> ag_roleId r = ag_roleId g
     \<and> set (ag_capabilities r) = (\<Union>h\<in>set gs. set (ag_capabilities h)) \<and> distinct (ag_capabilities r)"
proof -
  from reduceAccessGrants_total [OF assms] obtain r where r: "reduceAccessGrants gs = Inr r" by blast
  from reduceAccessGrants_chosen [OF r] reduceAccessGrants_capabilities [OF r] r show ?thesis by blast
qed

definition sample_grant :: "role_scope \<Rightarrow> id \<Rightarrow> capability list \<Rightarrow> access_grant" where
  "sample_grant sc s caps = \<lparr>ag_scope = sc, ag_capabilities = caps, ag_clientId = ''c'', ag_siteId = s,
     ag_roleId = ''r''\<rparr>"

theorem reduceAccessGrants_correct_witness:
  "\<exists>r. reduceAccessGrants [sample_grant SITE ''s1'' [''a'', ''b''], sample_grant CLIENT ''s2'' [''b''],
         sample_grant SELF ''s3'' [''d'']] = Inr r
     \<and> ag_siteId r = ''s2'' \<and> set (ag_capabilities r) = {''a'', ''b'', ''d''} \<and> distinct (ag_capabilities r)"
proof -
  let ?gs = "[sample_grant SITE ''s1'' [''a'', ''b''], sample_grant CLIENT ''s2'' [''b''], sample_grant SELF ''s3'' [''d'']]"
  from reduceAccessGrants_correct [of ?gs] obtain r where "reduceAccessGrants ?gs = Inr r"
    "set (ag_capabilities r) = (\<Union>h\<in>set ?gs. set (ag_capabilities h))" "distinct (ag_capabilities r)" by blast
  moreover from this(1) have "ag_siteId r = ''s2''"
    by (auto simp: reduceAccessGrants_def reduce_step_def sample_grant_def isScopeAtLeast_def
        SCOPE_HIERARCHY_def Let_def)
  moreover have "(\<Union>h\<in>set ?gs. set (ag_capabilities h)) = {''a'', ''b'', ''d''}"
    by (auto simp: sample_grant_def)
  ultimately show ?thesis by auto
qed

text \<open>
  The cache key of a grant lookup identifies the user, the requested client and site and the
  effective intent, for identifiers that contain no bar and are not the word \<open>default\<close>: two different
  requests never share an entry.
\<close>

theorem cache_key_identifies_context:
  assumes "CHR ''|'' \<notin> set u" "CHR ''|'' \<notin> set v" "plain_context c" "plain_context d"
    and "buildAccessGrantResponseCacheKey u c = buildAccessGrantResponseCacheKey v d"
  shows "u = v \<and> requestedClientId c = requestedClientId d \<and> requestedSiteId c = requestedSiteId d
     \<and> nullish_or (accessIntent c) user_intent = nullish_or (accessIntent d) user_intent"
  using assms cache_key_eq_iff by blast

theorem cache_key_identifies_context_witness:
  "let c = \<lparr>requestedClientId = Some ''c1'', requestedSiteId = None, accessIntent = None\<rparr>;
       d = \<lparr>requestedClientId = Some ''c1'', requestedSiteId = None, accessIntent = Some user_intent\<rparr>
   in buildAccessGrantResponseCacheKey ''u'' c = buildAccessGrantResponseCacheKey ''u'' d
      \<and> requestedClientId c = requestedClientId d"
proof -
  let ?c = "\<lparr>requestedClientId = Some ''c1'', requestedSiteId = None, accessIntent = None\<rparr>"
  let ?d = "\<lparr>requestedClientId = Some ''c1'', requestedSiteId = None, accessIntent = Some user_intent\<rparr>"
  have k: "buildAccessGrantResponseCacheKey ''u'' ?c = buildAccessGrantResponseCacheKey ''u'' ?d"
    by (simp add: buildAccessGrantResponseCacheKey_def)
  have "requestedClientId ?c = requestedClientId ?d"
    using cache_key_identifies_context [OF _ _ _ _ k] by (simp add: plain_context_def plain_id_def)
  with k show ?thesis by simp
qed

text \<open>
  No call that clears a user's cached grants ever clears the entry of a request that names a
  site but no client: that entry is served until its time to live ends.
\<close>

theorem site_only_entry_never_cleared:
  assumes "CHR ''|'' \<notin> set u" "CHR ''|'' \<notin> set v" "plain_id s" "plain_id clientId"
    and "pred_option plain_id siteId" "list_all plain_id (nullish_or siteIds [])"
  shows "buildAccessGrantResponseCacheKey v \<lparr>requestedClientId = None, requestedSiteId = Some s, accessIntent = i\<rparr>
     \<notin> set (clearAccessGrantResponseCache u clientId siteId siteIds (\<lambda>ks. ks))"
proof -
  have "plain_context \<lparr>requestedClientId = None, requestedSiteId = Some s, accessIntent = i\<rparr>"
    using assms(3) by (simp add: plain_context_def)
  from clear_keys_mem_iff [OF assms(1,2) this assms(4,5,6)] show ?thesis
    by (simp add: mem_clear_contexts)
qed

theorem site_only_entry_never_cleared_witness:
  "buildAccessGrantResponseCacheKey ''u'' \<lparr>requestedClientId = None, requestedSiteId = Some ''s1'', accessIntent = None\<rparr>
     \<notin> set (clearAccessGrantResponseCache ''u'' ''c1'' (Some ''s1'') None (\<lambda>ks. ks))"
  by (rule site_only_entry_never_cleared) (simp_all add: plain_id_def)

end
