(* ===== verification/Tenant_Db.thy ===== *)
theory Tenant_Db
  imports Access_Grants
begin

section \<open>The tenant tables\<close>

text \<open>
  The rows of \<^verbatim>\<open>src/prisma/schema.prisma\<close> the authentication and client components read and
  write, with the columns those components use. A table is a list of rows in the order the database
  returns them where the code gives no \<open>orderBy\<close>; every theorem holds for any such order. A query
  is its \<open>where\<close> clause as a filter, an \<open>orderBy\<close> is a stable sort, a relation in a \<open>select\<close> or
  \<open>include\<close> is a lookup by identifier.
\<close>

datatype client_status = LEGACY | PENDING_CLIENT | ACTIVE | INACTIVE

record client_row =
  cl_id :: id
  cl_externalId :: id
  cl_name :: string
  cl_status :: client_status

record site_row =
  st_id :: id
  st_externalId :: id
  st_name :: string
  st_active :: bool
  st_primary :: bool
  st_parentSiteId :: "id option"
  st_clientId :: id
  st_createdOn :: time

record role_row =
  ro_id :: id
  ro_name :: string
  ro_description :: "string option"
  ro_isSystem :: bool
  ro_clientAssignable :: bool
  ro_notificationGroups :: "string list"
  ro_scope :: role_scope
  ro_capabilities :: "capability list"

record person_row =
  pe_id :: id
  pe_firstName :: string
  pe_lastName :: string
  pe_email :: string
  pe_username :: "string option"
  pe_idpId :: "id option"
  pe_phoneNumber :: "string option"
  pe_position :: "string option"
  pe_active :: bool

record access_row =
  pca_id :: id
  pca_createdOn :: time
  pca_isPrimary :: bool
  pca_personId :: id
  pca_clientId :: id
  pca_siteId :: id
  pca_roleId :: id

datatype invitation_status = PENDING | ACCEPTED | EXPIRED | REVOKED

record invitation_row =
  in_id :: id
  in_code :: string
  in_clientId :: id
  in_createdById :: id
  in_email :: string
  in_roleId :: id
  in_siteId :: id
  in_groupId :: "id option"
  in_status :: invitation_status
  in_expiresOn :: time
  in_acceptedById :: "id option"
  in_acceptedOn :: "time option"
  in_createdOn :: time

record tenant_db =
  db_clients :: "client_row list"
  db_sites :: "site_row list"
  db_roles :: "role_row list"
  db_persons :: "person_row list"
  db_accesses :: "access_row list"
  db_invitations :: "invitation_row list"

definition find_by :: "('r \<Rightarrow> 'k) \<Rightarrow> 'k \<Rightarrow> 'r list \<Rightarrow> 'r option" where
  "find_by key k rows = List.find (\<lambda>r. key r = k) rows"

lemma find_by_SomeD: "find_by key k rows = Some r \<Longrightarrow> r \<in> set rows \<and> key r = k"
  by (auto simp: find_by_def find_Some_iff)

lemma find_by_None_iff: "find_by key k rows = None \<longleftrightarrow> k \<notin> key ` set rows"
  by (auto simp: find_by_def find_None_iff)

text \<open>\<open>orderBy: [{isPrimary: 'desc'}, {createdOn: 'asc'}]\<close> and \<open>orderBy: {createdOn: 'asc'}\<close>.\<close>

definition order_asc :: "('r \<Rightarrow> time) \<Rightarrow> 'r list \<Rightarrow> 'r list" where
  "order_asc key rows = sort_key key rows"

definition order_flag_first :: "('r \<Rightarrow> bool) \<Rightarrow> ('r \<Rightarrow> time) \<Rightarrow> 'r list \<Rightarrow> 'r list" where
  "order_flag_first flag key rows = sort_key (\<lambda>r. if flag r then 0 else (1 :: nat)) (sort_key key rows)"

lemma set_order_asc [simp]: "set (order_asc key rows) = set rows"
  by (simp add: order_asc_def)

lemma set_order_flag_first [simp]: "set (order_flag_first flag key rows) = set rows"
  by (simp add: order_flag_first_def)

lemma order_flag_first_Nil_iff [simp]: "order_flag_first flag key rows = [] \<longleftrightarrow> rows = []"
  by (metis set_empty set_order_flag_first)

subsection \<open>Well-formed tables\<close>

text \<open>
  The constraints the schema declares: primary keys, the unique columns \<open>Person.idpId\<close> and
  \<open>Invitation.code\<close>, the unique tuple of \<open>PersonClientAccess\<close> and the foreign keys of the access
  and invitation rows.
\<close>

definition access_key :: "access_row \<Rightarrow> id \<times> id \<times> id \<times> id" where
  "access_key a = (pca_personId a, pca_clientId a, pca_siteId a, pca_roleId a)"

definition db_wf :: "tenant_db \<Rightarrow> bool" where
  "db_wf db \<longleftrightarrow>
     distinct (map cl_id (db_clients db)) \<and> distinct (map st_id (db_sites db))
     \<and> distinct (map ro_id (db_roles db)) \<and> distinct (map pe_id (db_persons db))
     \<and> distinct (map in_id (db_invitations db)) \<and> distinct (map in_code (db_invitations db))
     \<and> distinct (map access_key (db_accesses db))
     \<and> list_all (\<lambda>a. pca_clientId a \<in> cl_id ` set (db_clients db)
          \<and> pca_siteId a \<in> st_id ` set (db_sites db)
          \<and> pca_roleId a \<in> ro_id ` set (db_roles db)) (db_accesses db)"

text \<open>\<open>personClientAccess.upsert\<close> on the unique tuple.\<close>

definition upsert_access ::
    "(access_row \<Rightarrow> access_row) \<Rightarrow> access_row \<Rightarrow> access_row list \<Rightarrow> access_row list" where
  "upsert_access update create rows =
     (if access_key create \<in> access_key ` set rows
      then map (\<lambda>a. if access_key a = access_key create then update a else a) rows
      else rows @ [create])"

lemma access_keys_upsert:
  assumes "\<And>a. access_key (update a) = access_key a"
  shows "access_key ` set (upsert_access update create rows)
           = insert (access_key create) (access_key ` set rows)"
proof -
  let ?f = "\<lambda>a. if access_key a = access_key create then update a else a"
  have "\<And>a. access_key (?f a) = access_key a" using assms by simp
  then have eq: "access_key ` ?f ` set rows = access_key ` set rows" by (simp only: image_image)
  show ?thesis
  proof (cases "access_key create \<in> access_key ` set rows")
    case True
    then show ?thesis unfolding upsert_access_def by (simp only: if_True set_map eq insert_absorb)
  next
    case False
    then show ?thesis by (simp add: upsert_access_def)
  qed
qed

lemma distinct_upsert_access:
  assumes "\<And>a. access_key (update a) = access_key a" "distinct (map access_key rows)"
  shows "distinct (map access_key (upsert_access update create rows))"
proof -
  let ?f = "\<lambda>a. if access_key a = access_key create then update a else a"
  have eq: "map access_key (map ?f rows) = map access_key rows"
    using assms(1) by simp
  show ?thesis
  proof (cases "access_key create \<in> access_key ` set rows")
    case True
    then show ?thesis unfolding upsert_access_def by (simp only: if_True eq assms(2))
  next
    case False
    then show ?thesis using assms(2) by (simp add: upsert_access_def)
  qed
qed

lemma access_key_update [simp]: "access_key (a\<lparr>pca_isPrimary := b\<rparr>) = access_key a"
  by (simp add: access_key_def)

lemma mem_upsert_access:
  "a \<in> set (upsert_access update create rows) \<longleftrightarrow>
     (if access_key create \<in> access_key ` set rows
      then (a \<in> set rows \<and> access_key a \<noteq> access_key create)
           \<or> (\<exists>b\<in>set rows. access_key b = access_key create \<and> a = update b)
      else a \<in> set rows \<or> a = create)"
  by (auto simp: upsert_access_def)

text \<open>The primary rows of a person.\<close>

definition primaries_at :: "id \<Rightarrow> id \<times> id \<Rightarrow> access_row list \<Rightarrow> bool" where
  "primaries_at p cs rows \<longleftrightarrow>
     (\<forall>a\<in>set rows. pca_personId a = p \<and> pca_isPrimary a \<longrightarrow> (pca_clientId a, pca_siteId a) = cs)"

definition primary_consistent :: "id \<Rightarrow> access_row list \<Rightarrow> bool" where
  \<comment> \<open>a person's primary rows all belong to one client and site\<close>
  "primary_consistent p rows \<longleftrightarrow> (\<exists>cs. primaries_at p cs rows)"

lemma primary_consistent_cong:
  assumes "\<And>a. pca_personId a = p \<Longrightarrow> a \<in> set xs \<longleftrightarrow> a \<in> set ys"
  shows "primary_consistent p xs \<longleftrightarrow> primary_consistent p ys"
proof -
  have "primaries_at p cs xs = primaries_at p cs ys" for cs
    unfolding primaries_at_def by (meson assms)
  then show ?thesis by (simp add: primary_consistent_def)
qed

end
