(* ===== verification/Request_Context.thy ===== *)
theory Request_Context
  imports Tenant_Db
begin

section \<open>Requests, users and the request-local store\<close>

text \<open>
  The request headers the API reads (\<^verbatim>\<open>src/src/common/utils.ts\<close>), the user built from a token
  (\<^verbatim>\<open>src/src/auth/user.schema.ts\<close>) and the request-local store \<open>ApiClsService\<close> with its
  \<open>require...\<close> accessors (\<^verbatim>\<open>src/src/auth/api-cls.service.ts\<close>).
\<close>

datatype header_value = Absent | Single string | Multi "string list"

record request =
  hdr_authorization :: "string option"
  hdr_access_intent :: header_value
  hdr_view_context :: header_value
  hdr_client_id :: header_value
  hdr_site_id :: header_value
  hdr_user_agent :: "string option"
  req_ip :: "string option"

fun firstOf :: "header_value \<Rightarrow> string option" where
  "firstOf Absent = None"
| "firstOf (Single s) = Some s"
| "firstOf (Multi ss) = at0 ss"

text \<open>\<open>!!request.headers[...]\<close>: an array is truthy even when it is empty.\<close>

fun header_present :: "header_value \<Rightarrow> bool" where
  "header_present Absent = False"
| "header_present (Single s) = (s \<noteq> [])"
| "header_present (Multi ss) = True"

definition parse_intent :: "string \<Rightarrow> access_intent option" where
  "parse_intent s =
     (if s = ''system'' then Some system
      else if s = ''elevated'' then Some elevated
      else if s = ''user'' then Some user_intent else None)"

definition getAccessIntent :: "request \<Rightarrow> access_intent" where
  "getAccessIntent req =
     (let intent = firstOf (hdr_access_intent req)
      in if \<not> truthy intent \<and> firstOf (hdr_view_context req) = Some ''admin'' then system
         else if truthy intent \<and> parse_intent (the intent) \<noteq> None then the (parse_intent (the intent))
         else user_intent)"

text \<open>
  \<open>phoneNumber\<close> distinguishes \<open>undefined\<close> (unknown, \<open>None\<close>) from \<open>null\<close> (known to be
  empty, \<open>Some None\<close>).
\<close>

record stateless_user =
  u_idpId :: id
  u_email :: string
  u_username :: string
  u_name :: "string option"
  u_givenName :: "string option"
  u_familyName :: "string option"
  u_picture :: "string option"
  u_phoneNumber :: "string option option"

text \<open>
  The token payload as the schema sees it: a field is \<open>None\<close> when it is missing (or not of the
  declared type, in which case \<open>parse\<close> throws for the required ones).
\<close>

record token_payload =
  tp_sub :: "string option"
  tp_email :: "string option"
  tp_preferred_username :: "string option"
  tp_name :: "string option"
  tp_given_name :: "string option"
  tp_family_name :: "string option"
  tp_picture :: "string option"
  tp_phoneNumber :: "string list option"

definition buildUserFromToken :: "token_payload \<Rightarrow> stateless_user option" where
  "buildUserFromToken p =
     (case (tp_sub p, tp_email p, tp_preferred_username p) of
        (Some sub, Some email, Some username) \<Rightarrow>
          Some \<lparr>u_idpId = sub, u_email = email, u_username = username, u_name = tp_name p,
                u_givenName = tp_given_name p, u_familyName = tp_family_name p,
                u_picture = tp_picture p, u_phoneNumber = map_option at0 (tp_phoneNumber p)\<rparr>
      | _ \<Rightarrow> None)"

datatype cls_mode = cron | request_mode

record cls_store =
  cls_isPublic :: bool
  cls_skipAccessGrantValidation :: bool
  cls_user :: "stateless_user option"
  cls_person :: "person_row option"
  cls_accessGrant :: "access_grant option"
  cls_accessIntent :: "access_intent option"
  cls_useragent :: "string option"
  cls_ipv4 :: "string option"
  cls_ipv6 :: "string option"
  cls_mode :: "cls_mode option"

definition cls_empty :: cls_store where
  "cls_empty = \<lparr>cls_isPublic = False, cls_skipAccessGrantValidation = False, cls_user = None,
     cls_person = None, cls_accessGrant = None, cls_accessIntent = None, cls_useragent = None,
     cls_ipv4 = None, cls_ipv6 = None, cls_mode = None\<rparr>"

definition requireAccessGrant :: "cls_store \<Rightarrow> access_grant result" where
  "requireAccessGrant cls =
     (case cls_accessGrant cls of
        None \<Rightarrow> Inl (ServerError ''Access grant was required but not found in CLS context.'')
      | Some g \<Rightarrow> Inr g)"

definition requireUser :: "cls_store \<Rightarrow> stateless_user result" where
  "requireUser cls =
     (case cls_user cls of
        None \<Rightarrow> Inl (ServerError ''User was required but not found in CLS context.'')
      | Some u \<Rightarrow> Inr u)"

definition requirePerson :: "cls_store \<Rightarrow> person_row result" where
  "requirePerson cls =
     (case cls_person cls of
        None \<Rightarrow> Inl (ServerError ''Person was required but not found in CLS context.'')
      | Some p \<Rightarrow> Inr p)"

definition cls_intent :: "cls_store \<Rightarrow> access_intent" where
  \<comment> \<open>the getter \<open>accessIntent\<close>\<close>
  "cls_intent cls = nullish_or (cls_accessIntent cls) user_intent"

lemma requireAccessGrant_Inr_iff [simp]:
  "requireAccessGrant cls = Inr g \<longleftrightarrow> cls_accessGrant cls = Some g"
  by (simp add: requireAccessGrant_def split: option.splits)

lemma requireUser_Inr_iff [simp]: "requireUser cls = Inr u \<longleftrightarrow> cls_user cls = Some u"
  by (simp add: requireUser_def split: option.splits)

lemma requirePerson_Inr_iff [simp]: "requirePerson cls = Inr p \<longleftrightarrow> cls_person cls = Some p"
  by (simp add: requirePerson_def split: option.splits)

lemma getAccessIntent_user_default:
  "hdr_access_intent req = Absent \<Longrightarrow> firstOf (hdr_view_context req) \<noteq> Some ''admin'' \<Longrightarrow>
   getAccessIntent req = user_intent"
  by (simp add: getAccessIntent_def)

end
