(* ===== verification/Sample_Data.thy ===== *)
theory Sample_Data
  imports Request_Context
begin

section \<open>Sample rows\<close>

text \<open>
  Concrete rows, users and stores on which the witnesses of the other theories evaluate the
  definitions: one client with two sites, a role, an inviter and an invitee.
\<close>

definition ex_row :: "id \<Rightarrow> id option \<Rightarrow> id \<Rightarrow> invitation_status \<Rightarrow> invitation_row" where
  "ex_row i g s stat = \<lparr>in_id = i, in_code = ''code-'' @ i, in_clientId = ''c1'', in_createdById = ''p0'',
     in_email = ''ann@x.io'', in_roleId = ''r1'', in_siteId = s, in_groupId = g, in_status = stat,
     in_expiresOn = 100, in_acceptedById = None, in_acceptedOn = None, in_createdOn = 1\<rparr>"

lemma ex_row_status [simp]: "in_status (ex_row i g s stat) = stat"
  by (simp add: ex_row_def)

definition ex_person :: "id \<Rightarrow> string \<Rightarrow> person_row" where
  "ex_person i email = \<lparr>pe_id = i, pe_firstName = ''A'', pe_lastName = ''B'', pe_email = email,
     pe_username = None, pe_idpId = Some (''idp-'' @ i), pe_phoneNumber = None, pe_position = None,
     pe_active = True\<rparr>"

definition ex_site :: "id \<Rightarrow> id option \<Rightarrow> site_row" where
  "ex_site i parent = \<lparr>st_id = i, st_externalId = i, st_name = i, st_active = True, st_primary = False,
     st_parentSiteId = parent, st_clientId = ''c1'', st_createdOn = 0\<rparr>"

definition ex_role :: "id \<Rightarrow> role_scope \<Rightarrow> role_row" where
  "ex_role i sc = \<lparr>ro_id = i, ro_name = i, ro_description = None, ro_isSystem = False,
     ro_clientAssignable = True, ro_notificationGroups = [], ro_scope = sc,
     ro_capabilities = [''view-assets'']\<rparr>"

definition ex_db :: "invitation_row list \<Rightarrow> tenant_db" where
  "ex_db rows = \<lparr>db_clients = [\<lparr>cl_id = ''c1'', cl_externalId = ''x1'', cl_name = ''Client'', cl_status = ACTIVE\<rparr>],
     db_sites = [ex_site ''s1'' None, ex_site ''s2'' None], db_roles = [ex_role ''r1'' SITE],
     db_persons = [ex_person ''p0'' ''boss@x.io'', ex_person ''p1'' ''Ann@X.io''],
     db_accesses = [], db_invitations = rows\<rparr>"

definition ex_user :: "id \<Rightarrow> stateless_user" where
  "ex_user i = \<lparr>u_idpId = i, u_email = ''ann@x.io'', u_username = ''ann'', u_name = None,
     u_givenName = None, u_familyName = None, u_picture = None, u_phoneNumber = None\<rparr>"

definition ex_grant :: "role_scope \<Rightarrow> access_grant" where
  "ex_grant sc = \<lparr>ag_scope = sc, ag_capabilities = [], ag_clientId = ''c1'', ag_siteId = ''s1'',
     ag_roleId = ''r1''\<rparr>"

definition ex_cls :: "role_scope \<Rightarrow> cls_store" where
  "ex_cls sc = cls_empty\<lparr>cls_user := Some (ex_user ''idp-p1''),
     cls_person := Some (ex_person ''p1'' ''Ann@X.io''), cls_accessGrant := Some (ex_grant sc)\<rparr>"

end
