(* ===== verification/Memory_Cache.thy ===== *)
theory Memory_Cache
  imports Shield_Prelude
begin

section \<open>The memory cache and its request coalescing\<close>

text \<open>
  \<^verbatim>\<open>src/src/cache/memory-cache.service.ts\<close>. The store behind the service is the package
  \<^verbatim>\<open>cache-manager\<close>: its operations are a parameter (\<open>cache_ops\<close>) and what the code relies on
  are the laws of the locale \<open>cache_store\<close>. A value of type \<open>'v\<close> is one that is neither \<open>null\<close>
  nor \<open>undefined\<close>, so \<open>isNil(cached)\<close> is the test against \<open>None\<close>.

  Two models of \<open>getOrSet\<close>. The function \<open>getOrSet\<close> is one call that runs with no other call in
  between, in state-passing style; the components above use it. The step relation \<open>gstep\<close> is the
  asynchronous method with every \<open>await\<close> as a point where other calls, writes and evictions may
  happen; over it the coalescing promise is an invariant of all reachable states.
\<close>

record ('c, 'v) cache_ops =
  co_get :: "'c \<Rightarrow> string \<Rightarrow> 'v option"
  co_set :: "'c \<Rightarrow> string \<Rightarrow> 'v \<Rightarrow> nat option \<Rightarrow> 'c"
  co_del :: "'c \<Rightarrow> string \<Rightarrow> 'c"
  co_mdel :: "'c \<Rightarrow> string list \<Rightarrow> 'c"
  co_clear :: "'c \<Rightarrow> 'c"

definition cache_get :: "('c, 'v) cache_ops \<Rightarrow> 'c \<Rightarrow> string \<Rightarrow> 'v option" where
  "cache_get ops c key = co_get ops c key"

definition cache_set :: "('c, 'v) cache_ops \<Rightarrow> 'c \<Rightarrow> string \<Rightarrow> 'v \<Rightarrow> nat option \<Rightarrow> 'c" where
  "cache_set ops c key v ttlMs = co_set ops c key v ttlMs"

definition cache_del :: "('c, 'v) cache_ops \<Rightarrow> 'c \<Rightarrow> string \<Rightarrow> 'c" where
  "cache_del ops c key = co_del ops c key"

definition cache_mdel :: "('c, 'v) cache_ops \<Rightarrow> 'c \<Rightarrow> string list \<Rightarrow> 'c" where
  "cache_mdel ops c keys = co_mdel ops c keys"

definition cache_clear :: "('c, 'v) cache_ops \<Rightarrow> 'c \<Rightarrow> 'c" where
  "cache_clear ops c = co_clear ops c"

text \<open>
  One uninterrupted call. The factory may change the rest of the state (a database write) and may
  throw; a throw leaves the cache as it was. The second read of the cache inside the promise finds
  what the first one found, since nothing ran in between.
\<close>

definition getOrSet ::
    "('c, 'v) cache_ops \<Rightarrow> string \<Rightarrow> ('s \<Rightarrow> 'v result \<times> 's) \<Rightarrow> nat option
     \<Rightarrow> 'c \<Rightarrow> 's \<Rightarrow> 'v result \<times> 'c \<times> 's" where
  "getOrSet ops key factory ttlMs c s =
     (case co_get ops c key of
        Some cached \<Rightarrow> (Inr cached, c, s)
      | None \<Rightarrow>
          (case co_get ops c key of
             Some rechecked \<Rightarrow> (Inr rechecked, c, s)
           | None \<Rightarrow>
               (case factory s of
                  (Inl e, s') \<Rightarrow> (Inl e, c, s')
                | (Inr v, s') \<Rightarrow> (Inr v, co_set ops c key v ttlMs, s'))))"

definition wrap ::
    "('c, 'v) cache_ops \<Rightarrow> ('a \<Rightarrow> string) \<Rightarrow> ('a \<Rightarrow> 's \<Rightarrow> 'v result \<times> 's) \<Rightarrow> nat option
     \<Rightarrow> 'a \<Rightarrow> 'c \<Rightarrow> 's \<Rightarrow> 'v result \<times> 'c \<times> 's" where
  "wrap ops keyGenerator fn ttlMs args c s = getOrSet ops (keyGenerator args) (fn args) ttlMs c s"

subsection \<open>The asynchronous method\<close>

text \<open>
  A flight is one run of the inner \<open>async\<close> function: it holds the result of the second cache read,
  runs the factory, stores the value, or is settled. A caller has read the cache, waits for a
  flight, or has returned. \<open>inFlight\<close> is the service's map from keys to promises.
\<close>

datatype 'v flight_phase =
    Rechecking "'v option"
  | Running
  | Storing 'v
  | Settled "'v result"

datatype 'v caller_phase =
    Read "'v option"
  | Awaiting nat
  | Returned "'v result"

record 'v gos_state =
  gs_cache :: "string \<rightharpoonup> 'v"
  gs_inFlight :: "string \<rightharpoonup> nat"
  gs_flights :: "nat \<rightharpoonup> string \<times> 'v flight_phase"
  gs_callers :: "nat \<rightharpoonup> string \<times> 'v caller_phase"
  gs_next :: nat

definition gos_init :: "'v gos_state" where
  "gos_init = \<lparr>gs_cache = Map.empty, gs_inFlight = Map.empty, gs_flights = Map.empty,
               gs_callers = Map.empty, gs_next = 0\<rparr>"

definition settle :: "'v gos_state \<Rightarrow> nat \<Rightarrow> string \<Rightarrow> 'v result \<Rightarrow> 'v gos_state" where
  \<comment> \<open>the \<open>finally\<close> block and the end of the promise\<close>
  "settle s f k r = s\<lparr>gs_flights := (gs_flights s)(f \<mapsto> (k, Settled r)),
                      gs_inFlight := (gs_inFlight s)(k := None)\<rparr>"

inductive gstep :: "'v gos_state \<Rightarrow> 'v gos_state \<Rightarrow> bool" where
  call: "gs_callers s i = None \<Longrightarrow>
    gstep s (s\<lparr>gs_callers := (gs_callers s)(i \<mapsto> (k, Read (gs_cache s k)))\<rparr>)"
| resume_hit: "gs_callers s i = Some (k, Read (Some v)) \<Longrightarrow>
    gstep s (s\<lparr>gs_callers := (gs_callers s)(i \<mapsto> (k, Returned (Inr v)))\<rparr>)"
| resume_join: "gs_callers s i = Some (k, Read None) \<Longrightarrow> gs_inFlight s k = Some f \<Longrightarrow>
    gstep s (s\<lparr>gs_callers := (gs_callers s)(i \<mapsto> (k, Awaiting f))\<rparr>)"
| resume_start: "gs_callers s i = Some (k, Read None) \<Longrightarrow> gs_inFlight s k = None \<Longrightarrow> f = gs_next s \<Longrightarrow>
    gstep s (s\<lparr>gs_callers := (gs_callers s)(i \<mapsto> (k, Awaiting f)),
               gs_flights := (gs_flights s)(f \<mapsto> (k, Rechecking (gs_cache s k))),
               gs_inFlight := (gs_inFlight s)(k \<mapsto> f),
               gs_next := Suc f\<rparr>)"
| recheck_hit: "gs_flights s f = Some (k, Rechecking (Some v)) \<Longrightarrow>
    gstep s (settle s f k (Inr v))"
| recheck_miss: "gs_flights s f = Some (k, Rechecking None) \<Longrightarrow>
    gstep s (s\<lparr>gs_flights := (gs_flights s)(f \<mapsto> (k, Running))\<rparr>)"
| factory_ok: "gs_flights s f = Some (k, Running) \<Longrightarrow>
    gstep s (s\<lparr>gs_flights := (gs_flights s)(f \<mapsto> (k, Storing v)),
               gs_cache := (gs_cache s)(k \<mapsto> v)\<rparr>)"
| factory_throws: "gs_flights s f = Some (k, Running) \<Longrightarrow>
    gstep s (settle s f k (Inl e))"
| stored: "gs_flights s f = Some (k, Storing v) \<Longrightarrow>
    gstep s (settle s f k (Inr v))"
| deliver: "gs_callers s i = Some (k, Awaiting f) \<Longrightarrow> gs_flights s f = Some (k', Settled r) \<Longrightarrow>
    gstep s (s\<lparr>gs_callers := (gs_callers s)(i \<mapsto> (k, Returned r))\<rparr>)"
| evict: "gstep s (s\<lparr>gs_cache := (gs_cache s)(k := None)\<rparr>)"
| put: "gstep s (s\<lparr>gs_cache := (gs_cache s)(k \<mapsto> v)\<rparr>)"

inductive greach :: "'v gos_state \<Rightarrow> bool" where
  start: "greach gos_init"
| step: "greach s \<Longrightarrow> gstep s t \<Longrightarrow> greach t"

fun unsettled :: "'v flight_phase \<Rightarrow> bool" where
  "unsettled (Settled r) = False"
| "unsettled _ = True"

subsection \<open>The laws of the store\<close>

locale cache_store =
  fixes ops :: "('c, 'v) cache_ops"
  assumes get_set: "co_get ops (co_set ops c k v t) k' = (if k' = k then Some v else co_get ops c k')"
    and get_del: "co_get ops (co_del ops c k) k' = (if k' = k then None else co_get ops c k')"
    and get_mdel: "co_get ops (co_mdel ops c ks) k' = (if k' \<in> set ks then None else co_get ops c k')"
    and get_clear: "co_get ops (co_clear ops c) k' = None"
begin

lemma getOrSet_hit: "co_get ops c k = Some v \<Longrightarrow> getOrSet ops k f t c s = (Inr v, c, s)"
  by (simp add: getOrSet_def)

lemma getOrSet_miss:
  "co_get ops c k = None \<Longrightarrow> f s = (Inr v, s') \<Longrightarrow>
   getOrSet ops k f t c s = (Inr v, co_set ops c k v t, s')"
  by (simp add: getOrSet_def)

lemma getOrSet_throw:
  "co_get ops c k = None \<Longrightarrow> f s = (Inl e, s') \<Longrightarrow> getOrSet ops k f t c s = (Inl e, c, s')"
  by (simp add: getOrSet_def)

lemma getOrSet_then_hit:
  "getOrSet ops k f t c s = (Inr v, c', s') \<Longrightarrow> getOrSet ops k f' t' c' s'' = (Inr v, c', s'')"
  by (auto simp: getOrSet_def get_set split: option.splits prod.splits sum.splits)

lemma getOrSet_other:
  "getOrSet ops k f t c s = (r, c', s') \<Longrightarrow> k' \<noteq> k \<Longrightarrow> co_get ops c' k' = co_get ops c k'"
  by (auto simp: getOrSet_def get_set split: option.splits prod.splits sum.splits)

lemma getOrSet_after_mdel:
  "k \<in> set ks \<Longrightarrow> f s = (Inr v, s') \<Longrightarrow>
   getOrSet ops k f t (co_mdel ops c ks) s = (Inr v, co_set ops (co_mdel ops c ks) k v t, s')"
  by (simp add: getOrSet_def get_mdel)

end

text \<open>
  The laws are satisfiable: the documented behaviour of an in-memory store whose entries have not
  reached their time to live, as a finite map.
\<close>

definition mem_ops :: "(string \<rightharpoonup> 'v, 'v) cache_ops" where
  "mem_ops = \<lparr>co_get = (\<lambda>c k. c k), co_set = (\<lambda>c k v t. c(k \<mapsto> v)), co_del = (\<lambda>c k. c(k := None)),
              co_mdel = (\<lambda>c ks k. if k \<in> set ks then None else c k), co_clear = (\<lambda>c. Map.empty)\<rparr>"

interpretation mem: cache_store mem_ops
  by unfold_locales (auto simp: mem_ops_def)

lemma cache_store_mem_ops: "cache_store mem_ops"
  by (rule mem.cache_store_axioms)

subsection \<open>The invariant of the asynchronous method\<close>

definition gos_inv :: "'v gos_state \<Rightarrow> bool" where
  "gos_inv s \<longleftrightarrow>
     (\<forall>k f. gs_inFlight s k = Some f \<longleftrightarrow>
        (\<exists>p. gs_flights s f = Some (k, p) \<and> unsettled p))
     \<and> (\<forall>f. gs_flights s f \<noteq> None \<longrightarrow> f < gs_next s)
     \<and> (\<forall>i k f. gs_callers s i = Some (k, Awaiting f) \<longrightarrow> (\<exists>p. gs_flights s f = Some (k, p)))"

lemma gos_inv_init: "gos_inv gos_init"
  by (simp add: gos_inv_def gos_init_def)

lemma gos_invD:
  assumes "gos_inv s"
  shows "gs_inFlight s k = Some f \<longleftrightarrow> (\<exists>p. gs_flights s f = Some (k, p) \<and> unsettled p)"
    and "gs_flights s f = Some kp \<Longrightarrow> f < gs_next s"
    and "gs_callers s i = Some (k, Awaiting f) \<Longrightarrow> \<exists>p. gs_flights s f = Some (k, p)"
  using assms by (auto simp: gos_inv_def)

lemma gos_invI:
  assumes "\<And>k f. gs_inFlight s k = Some f \<longleftrightarrow> (\<exists>p. gs_flights s f = Some (k, p) \<and> unsettled p)"
    and "\<And>f kp. gs_flights s f = Some kp \<Longrightarrow> f < gs_next s"
    and "\<And>i k f. gs_callers s i = Some (k, Awaiting f) \<Longrightarrow> \<exists>p. gs_flights s f = Some (k, p)"
  shows "gos_inv s"
  unfolding gos_inv_def
proof (intro conjI allI impI)
  fix f assume "gs_flights s f \<noteq> None"
  then show "f < gs_next s" using assms(2) by (cases "gs_flights s f") auto
qed (rule assms(1), rule assms(3))

lemma settle_inv:
  assumes inv: "gos_inv s" and f: "gs_flights s f = Some (k, p)" and p: "unsettled p"
  shows "gos_inv (settle s f k r)"
proof -
  have infl: "gs_inFlight s k = Some f" using gos_invD(1) [OF inv] f p by blast
  show ?thesis
  proof (rule gos_invI)
    fix k' f'
    show "gs_inFlight (settle s f k r) k' = Some f' \<longleftrightarrow>
        (\<exists>p. gs_flights (settle s f k r) f' = Some (k', p) \<and> unsettled p)"
      using gos_invD(1) [OF inv, of k' f'] infl f by (auto simp: settle_def)
  next
    fix f' kp assume "gs_flights (settle s f k r) f' = Some kp"
    then show "f' < gs_next (settle s f k r)"
      using gos_invD(2) [OF inv] f by (auto simp: settle_def split: if_splits)
  next
    fix i k' f' assume "gs_callers (settle s f k r) i = Some (k', Awaiting f')"
    then show "\<exists>p. gs_flights (settle s f k r) f' = Some (k', p)"
      using gos_invD(3) [OF inv] f by (fastforce simp: settle_def)
  qed
qed

lemma advance_inv:
  assumes inv: "gos_inv s" and f: "gs_flights s f = Some (k, p)" and p: "unsettled p" "unsettled p'"
  shows "gos_inv (s\<lparr>gs_flights := (gs_flights s)(f \<mapsto> (k, p'))\<rparr>)"
proof (rule gos_invI)
  fix k' f'
  show "gs_inFlight (s\<lparr>gs_flights := (gs_flights s)(f \<mapsto> (k, p'))\<rparr>) k' = Some f' \<longleftrightarrow>
      (\<exists>p. gs_flights (s\<lparr>gs_flights := (gs_flights s)(f \<mapsto> (k, p'))\<rparr>) f' = Some (k', p) \<and> unsettled p)"
    using gos_invD(1) [OF inv, of k' f'] f p by auto
next
  fix f' kp assume "gs_flights (s\<lparr>gs_flights := (gs_flights s)(f \<mapsto> (k, p'))\<rparr>) f' = Some kp"
  then show "f' < gs_next (s\<lparr>gs_flights := (gs_flights s)(f \<mapsto> (k, p'))\<rparr>)"
    using gos_invD(2) [OF inv] f by (auto split: if_splits)
next
  fix i k' f' assume "gs_callers (s\<lparr>gs_flights := (gs_flights s)(f \<mapsto> (k, p'))\<rparr>) i = Some (k', Awaiting f')"
  then show "\<exists>p. gs_flights (s\<lparr>gs_flights := (gs_flights s)(f \<mapsto> (k, p'))\<rparr>) f' = Some (k', p)"
    using gos_invD(3) [OF inv] f by fastforce
qed

lemma gos_inv_cache: "gos_inv (s\<lparr>gs_cache := c\<rparr>) = gos_inv s"
  by (simp add: gos_inv_def)

lemma caller_inv:
  assumes inv: "gos_inv s" and p: "\<And>f. p = Awaiting f \<Longrightarrow> \<exists>q. gs_flights s f = Some (k, q)"
  shows "gos_inv (s\<lparr>gs_callers := (gs_callers s)(i \<mapsto> (k, p))\<rparr>)"
  using inv p unfolding gos_inv_def by auto

lemma start_inv:
  assumes inv: "gos_inv s" and free: "gs_inFlight s k = None"
  shows "gos_inv (s\<lparr>gs_callers := (gs_callers s)(i \<mapsto> (k, Awaiting (gs_next s))),
               gs_flights := (gs_flights s)(gs_next s \<mapsto> (k, Rechecking (gs_cache s k))),
               gs_inFlight := (gs_inFlight s)(k \<mapsto> gs_next s),
               gs_next := Suc (gs_next s)\<rparr>)" (is "gos_inv ?t")
proof -
  have fresh: "gs_flights s (gs_next s) = None"
    using gos_invD(2) [OF inv, of "gs_next s"] by (cases "gs_flights s (gs_next s)") auto
  show ?thesis
  proof (rule gos_invI)
    fix k' f'
    show "gs_inFlight ?t k' = Some f' \<longleftrightarrow> (\<exists>p. gs_flights ?t f' = Some (k', p) \<and> unsettled p)"
      using gos_invD(1) [OF inv, of k' f'] free fresh by auto
  next
    fix f' kp assume "gs_flights ?t f' = Some kp"
    then show "f' < gs_next ?t"
      using gos_invD(2) [OF inv, of f' kp] by (auto split: if_splits)
  next
    fix j k' f' assume "gs_callers ?t j = Some (k', Awaiting f')"
    then show "\<exists>p. gs_flights ?t f' = Some (k', p)"
      using gos_invD(3) [OF inv, of j k' f'] fresh by (auto split: if_splits)
  qed
qed

lemma gstep_inv: "gstep s t \<Longrightarrow> gos_inv s \<Longrightarrow> gos_inv t"
proof (induction rule: gstep.induct)
  case (resume_join s i k f)
  then show ?case using gos_invD(1) by (intro caller_inv) fastforce+
next
  case (factory_ok s f k v)
  then have "gos_inv (s\<lparr>gs_flights := (gs_flights s)(f \<mapsto> (k, Storing v))\<rparr>)"
    by (auto intro: advance_inv)
  then show ?case by (simp add: gos_inv_def)
qed (auto intro: caller_inv settle_inv advance_inv start_inv simp: gos_inv_cache)

lemma greach_inv: "greach s \<Longrightarrow> gos_inv s"
  by (induction rule: greach.induct) (auto intro: gos_inv_init gstep_inv)

subsection \<open>Properties\<close>

lemma caller_kept_settle: "gs_callers (settle s f k r) = gs_callers s"
  by (simp add: settle_def)

lemma flight_can_settle:
  assumes "gs_flights s f = Some (k, p)"
  shows "\<exists>t r. gstep\<^sup>*\<^sup>* s t \<and> gs_flights t f = Some (k, Settled r) \<and> gs_callers t = gs_callers s"
proof -
  have run: "\<exists>t r. gstep\<^sup>*\<^sup>* s t \<and> gs_flights t f = Some (k, Settled r) \<and> gs_callers t = gs_callers s"
    if "gs_flights s f = Some (k, Running)" for s :: "'a gos_state"
  proof -
    have "gstep s (settle s f k (Inl undefined))" by (rule gstep.factory_throws [OF that])
    moreover have "gs_flights (settle s f k (Inl undefined)) f = Some (k, Settled (Inl undefined))"
      by (simp add: settle_def)
    ultimately show ?thesis by (meson caller_kept_settle r_into_rtranclp)
  qed
  show ?thesis
  proof (cases p)
    case (Settled r)
    with assms show ?thesis by blast
  next
    case (Storing v)
    with assms have "gstep s (settle s f k (Inr v))" by (auto intro: gstep.stored)
    moreover have "gs_flights (settle s f k (Inr v)) f = Some (k, Settled (Inr v))" by (simp add: settle_def)
    ultimately show ?thesis by (meson caller_kept_settle r_into_rtranclp)
  next
    case Running
    with assms run show ?thesis by blast
  next
    case (Rechecking o')
    show ?thesis
    proof (cases o')
      case (Some v)
      with Rechecking assms have "gstep s (settle s f k (Inr v))" by (auto intro: gstep.recheck_hit)
      moreover have "gs_flights (settle s f k (Inr v)) f = Some (k, Settled (Inr v))" by (simp add: settle_def)
      ultimately show ?thesis by (meson caller_kept_settle r_into_rtranclp)
    next
      case None
      let ?t = "s\<lparr>gs_flights := (gs_flights s)(f \<mapsto> (k, Running))\<rparr>"
      from None Rechecking assms have st: "gstep s ?t" by (auto intro: gstep.recheck_miss)
      have "gs_flights ?t f = Some (k, Running)" "gs_callers ?t = gs_callers s" by simp_all
      with run [of ?t] st show ?thesis by (metis converse_rtranclp_into_rtranclp)
    qed
  qed
qed

text \<open>
  C6: whatever the interleaving of calls, writes and evictions, at most one computation per key is
  under way, the in-flight map names exactly the computations that have not settled (no stale entry
  is left behind, also after an error), and every waiting caller waits for a computation of its own
  key.
\<close>

theorem getOrSet_single_flight:
  assumes "greach s"
  shows "(\<forall>k f p f' p'. gs_flights s f = Some (k, p) \<and> unsettled p
            \<and> gs_flights s f' = Some (k, p') \<and> unsettled p' \<longrightarrow> f = f')
     \<and> (\<forall>k f. gs_inFlight s k = Some f \<longleftrightarrow> (\<exists>p. gs_flights s f = Some (k, p) \<and> unsettled p))
     \<and> (\<forall>i k f. gs_callers s i = Some (k, Awaiting f) \<longrightarrow> (\<exists>p. gs_flights s f = Some (k, p)))"
proof -
  note D = gos_invD [OF greach_inv [OF assms]]
  have "f = f'" if "gs_flights s f = Some (k, p)" "unsettled p" "gs_flights s f' = Some (k, p')" "unsettled p'"
    for k f p f' p'
    using D(1) [of k f] D(1) [of k f'] that by auto
  then show ?thesis using D(1,3) by blast
qed

lemma two_callers_reach:
  "\<exists>s :: nat gos_state. greach s \<and> gs_callers s 0 = Some (''k'', Awaiting 0) \<and> gs_callers s 1 = Some (''k'', Awaiting 0)
     \<and> gs_inFlight s ''k'' = Some 0"
proof -
  define s1 :: "nat gos_state" where "s1 = gos_init\<lparr>gs_callers := [0 \<mapsto> (''k'', Read None)]\<rparr>"
  define s2 where "s2 = s1\<lparr>gs_callers := (gs_callers s1)(1 \<mapsto> (''k'', Read None))\<rparr>"
  define s3 where "s3 = s2\<lparr>gs_callers := (gs_callers s2)(0 \<mapsto> (''k'', Awaiting 0)),
      gs_flights := [0 \<mapsto> (''k'', Rechecking None)], gs_inFlight := [''k'' \<mapsto> 0], gs_next := Suc 0\<rparr>"
  define s4 where "s4 = s3\<lparr>gs_callers := (gs_callers s3)(1 \<mapsto> (''k'', Awaiting 0))\<rparr>"
  have "gstep gos_init s1"
    using gstep.call [of gos_init 0 "''k''"] by (simp add: s1_def gos_init_def)
  moreover have "gstep s1 s2"
    using gstep.call [of s1 1 "''k''"] by (simp add: s2_def s1_def gos_init_def)
  moreover have "gstep s2 s3"
    using gstep.resume_start [of s2 0 "''k''" 0] by (simp add: s3_def s2_def s1_def gos_init_def)
  moreover have "gstep s3 s4"
    using gstep.resume_join [of s3 1 "''k''" 0] by (simp add: s4_def s3_def s2_def s1_def gos_init_def)
  ultimately have "greach s4" by (meson greach.intros)
  moreover have "gs_callers s4 0 = Some (''k'', Awaiting 0)" "gs_callers s4 1 = Some (''k'', Awaiting 0)"
    "gs_inFlight s4 ''k'' = Some 0"
    by (simp_all add: s4_def s3_def s2_def)
  ultimately show ?thesis by blast
qed

theorem getOrSet_single_flight_witness:
  "\<exists>s :: nat gos_state. greach s \<and> gs_callers s 0 = Some (''k'', Awaiting 0)
     \<and> gs_callers s 1 = Some (''k'', Awaiting 0) \<and> (\<exists>p. gs_flights s 0 = Some (''k'', p))"
proof -
  obtain s :: "nat gos_state" where "greach s" "gs_callers s 0 = Some (''k'', Awaiting 0)"
    "gs_callers s 1 = Some (''k'', Awaiting 0)" using two_callers_reach by blast
  with getOrSet_single_flight [of s] show ?thesis by blast
qed

text \<open>
  No caller waits for ever: from every reachable state a caller that waits for a computation can
  still receive its result.
\<close>

theorem getOrSet_waiter_can_return:
  assumes "greach s" and "gs_callers s i = Some (k, Awaiting f)"
  shows "\<exists>t r. gstep\<^sup>*\<^sup>* s t \<and> gs_callers t i = Some (k, Returned r)"
proof -
  from gos_invD(3) [OF greach_inv [OF assms(1)] assms(2)] obtain p where "gs_flights s f = Some (k, p)" by blast
  from flight_can_settle [OF this] obtain t r where t: "gstep\<^sup>*\<^sup>* s t"
    "gs_flights t f = Some (k, Settled r)" "gs_callers t = gs_callers s" by blast
  let ?u = "t\<lparr>gs_callers := (gs_callers t)(i \<mapsto> (k, Returned r))\<rparr>"
  have "gs_callers t i = Some (k, Awaiting f)" using t(3) assms(2) by simp
  then have "gstep t ?u" using t(2) by (rule gstep.deliver)
  with t(1) have "gstep\<^sup>*\<^sup>* s ?u" by (rule rtranclp.rtrancl_into_rtrancl)
  moreover have "gs_callers ?u i = Some (k, Returned r)" by simp
  ultimately show ?thesis by blast
qed

theorem getOrSet_waiter_can_return_witness:
  "\<exists>s t :: nat gos_state. gs_callers s 1 = Some (''k'', Awaiting 0)
     \<and> (\<exists>r. gstep\<^sup>*\<^sup>* s t \<and> gs_callers t 1 = Some (''k'', Returned r))"
proof -
  obtain s :: "nat gos_state" where s: "greach s" "gs_callers s 1 = Some (''k'', Awaiting 0)"
    using two_callers_reach by blast
  from getOrSet_waiter_can_return [OF this] s(2) show ?thesis by blast
qed

text \<open>
  With a store that obeys the laws, a computed value is returned by every later lookup of the
  key without running the factory again, an error is not cached, and no other key is affected.
\<close>

theorem getOrSet_memoizes:
  fixes s s' :: 's
  assumes "cache_store ops" and "getOrSet ops k f t c s = (r, c', s')"
  shows "(case r of Inr v \<Rightarrow> \<forall>f' t' (s'' :: 's). getOrSet ops k f' t' c' s'' = (Inr v, c', s'') | Inl e \<Rightarrow> c' = c)
     \<and> (\<forall>k'. k' \<noteq> k \<longrightarrow> co_get ops c' k' = co_get ops c k')"
proof -
  have "c' = c" if "r = Inl e" for e
    using assms(2) that by (auto simp: getOrSet_def split: option.splits prod.splits sum.splits)
  moreover have "getOrSet ops k f' t' c' s'' = (Inr v, c', s'')" if "r = Inr v" for v f' t' and s'' :: 's
    using cache_store.getOrSet_then_hit [OF assms(1)] assms(2) that by metis
  ultimately show ?thesis
    using cache_store.getOrSet_other [OF assms] by (auto split: sum.split)
qed

theorem getOrSet_memoizes_witness:
  "getOrSet mem_ops ''k'' (\<lambda>n. (Inr 9, n)) None
     (fst (snd (getOrSet mem_ops ''k'' (\<lambda>n. (Inr (7::nat), Suc n)) None Map.empty 0))) 5
   = (Inr 7, [''k'' \<mapsto> 7], 5 :: nat)"
proof -
  have g: "getOrSet mem_ops ''k'' (\<lambda>n. (Inr (7::nat), Suc n)) None Map.empty 0 = (Inr 7, [''k'' \<mapsto> 7], 1)"
    by (simp add: getOrSet_def mem_ops_def)
  from getOrSet_memoizes [OF cache_store_mem_ops g] show ?thesis by (simp add: g)
qed

end
