(* ===== verification/Site_Visibility.thy ===== *)
theory Site_Visibility
  imports Access_Grants
begin

section \<open>Site visibility\<close>

text \<open>
  \<^verbatim>\<open>src/src/auth/utils/site-visibility.ts\<close>: the site tree of a client and the sites, and through
  them the assets, a member may see. \<open>getDescendants\<close> is a recursion over the child map with no
  guard against a cycle; the model carries the depth of the call stack as fuel, and \<open>None\<close> is the
  \<open>RangeError\<close> of an exhausted stack. The lemmas say when it returns (exactly when no cycle is
  reachable, and then a depth of one more than the number of sites is enough) and what it returns.
\<close>

record site_node =
  sn_id :: id
  sn_parentSiteId :: "id option"

record site_hierarchy =
  allSiteIds :: "id list"
  descendantsBySiteId :: "(id, id list) jmap"

definition childrenMap :: "site_node list \<Rightarrow> (id, id list) jmap" where
  "childrenMap sites =
     foldl (\<lambda>m site. if truthy (sn_parentSiteId site)
                     then jmap_push m (the (sn_parentSiteId site)) (sn_id site) else m) [] sites"

primrec getDescendants :: "nat \<Rightarrow> (id, id list) jmap \<Rightarrow> id \<Rightarrow> id list option" where
  "getDescendants 0 m siteId = None"
| "getDescendants (Suc depth) m siteId =
     map_option concat
       (those (map (\<lambda>childId. map_option (\<lambda>ds. childId # ds) (getDescendants depth m childId))
          (nullish_or (map_of m siteId) [])))"

definition buildSiteHierarchy :: "nat \<Rightarrow> site_node list \<Rightarrow> site_hierarchy option" where
  "buildSiteHierarchy depth sites =
     map_option (\<lambda>dss. \<lparr>allSiteIds = map sn_id sites,
         descendantsBySiteId = foldl (\<lambda>m (k, ds). AList.update k ds m) [] dss\<rparr>)
       (those (map (\<lambda>site. map_option (Pair (sn_id site))
          (getDescendants depth (childrenMap sites) (sn_id site))) sites))"

text \<open>\<open>None\<close> stands for \<open>null\<close>: every site of the client, so the caller does not filter.\<close>

definition getVisibleSiteIds :: "access_grant \<Rightarrow> site_hierarchy \<Rightarrow> id list option" where
  "getVisibleSiteIds g h =
     (if scopeAllowsAllClientSites (ag_scope g) then None
      else case ag_scope g of
          SITE_GROUP \<Rightarrow>
            Some (ag_siteId g # nullish_or (map_of (descendantsBySiteId h) (ag_siteId g)) [])
        | SITE \<Rightarrow> Some [ag_siteId g]
        | SELF \<Rightarrow> Some []
        | _ \<Rightarrow> Some [])"

definition filterAssetsByVisibleSites :: "('a \<Rightarrow> id) \<Rightarrow> 'a list \<Rightarrow> id list option \<Rightarrow> 'a list" where
  "filterAssetsByVisibleSites siteOf assets visible =
     (case visible of
        None \<Rightarrow> assets
      | Some ids \<Rightarrow>
          if ids = [] then []
          else filter (\<lambda>a. siteOf a \<in> set (unique ids)) assets)"

text \<open>The shape of a person's access rows with their role (\<open>TPersonWithClientAccess\<close>).\<close>

record role_data =
  rd_id :: id
  rd_scope :: role_scope
  rd_capabilities :: "capability list"

record client_access_row =
  ca_clientId :: id
  ca_siteId :: id
  ca_role :: role_data

definition clientAccessGrants :: "client_access_row list \<Rightarrow> id \<Rightarrow> access_grant list" where
  "clientAccessGrants accesses clientId =
     map (\<lambda>ca. \<lparr>ag_scope = rd_scope (ca_role ca), ag_capabilities = rd_capabilities (ca_role ca),
                ag_clientId = ca_clientId ca, ag_siteId = ca_siteId ca,
                ag_roleId = rd_id (ca_role ca)\<rparr>)
       (filter (\<lambda>ca. ca_clientId ca = clientId) accesses)"

definition getVisibleSiteIdsForMember ::
    "client_access_row list \<Rightarrow> id \<Rightarrow> site_hierarchy \<Rightarrow> id list option result" where
  "getVisibleSiteIdsForMember accesses clientId h =
     (let grants = clientAccessGrants accesses clientId
      in if grants = [] then Inr (Some [])
         else bindr (reduceAccessGrants grants) (\<lambda>g. Inr (getVisibleSiteIds g h)))"

definition getVisibleAssetsForMember ::
    "('a \<Rightarrow> id) \<Rightarrow> client_access_row list \<Rightarrow> id \<Rightarrow> 'a list \<Rightarrow> site_hierarchy \<Rightarrow> 'a list result" where
  "getVisibleAssetsForMember siteOf accesses clientId assets h =
     (let grants = clientAccessGrants accesses clientId
      in if grants = [] then Inr []
         else bindr (reduceAccessGrants grants) (\<lambda>g.
                Inr (filterAssetsByVisibleSites siteOf assets (getVisibleSiteIds g h))))"

definition isSingleSiteUser :: "client_access_row list \<Rightarrow> id \<Rightarrow> bool result" where
  "isSingleSiteUser accesses clientId =
     (let grants = clientAccessGrants accesses clientId
      in if grants = [] then Inr True
         else bindr (reduceAccessGrants grants) (\<lambda>g.
                Inr (ag_scope g = SITE \<or> ag_scope g = SELF)))"

subsection \<open>The child map\<close>

definition is_child :: "site_node list \<Rightarrow> id \<Rightarrow> id \<Rightarrow> bool" where
  "is_child sites p c \<longleftrightarrow> (\<exists>s\<in>set sites. sn_id s = c \<and> sn_parentSiteId s = Some p \<and> p \<noteq> [])"

abbreviation child_rel :: "site_node list \<Rightarrow> (id \<times> id) set" where
  "child_rel sites \<equiv> {(p, c). is_child sites p c}"

lemma childrenMap_snoc:
  "childrenMap (sites @ [s]) =
     (if truthy (sn_parentSiteId s)
      then jmap_push (childrenMap sites) (the (sn_parentSiteId s)) (sn_id s)
      else childrenMap sites)"
  by (simp add: childrenMap_def)

lemma set_childrenMap: "set (nullish_or (map_of (childrenMap sites) p) []) = {c. is_child sites p c}"
proof (induction sites rule: rev_induct)
  case Nil
  show ?case by (simp add: childrenMap_def is_child_def)
next
  case (snoc s sites)
  then show ?case
    by (auto simp: childrenMap_snoc map_of_jmap_push is_child_def nullish_or_def truthy_def
        split: option.splits if_splits)
qed

lemma those_eq_Some_iff: "those xs = Some ys \<longleftrightarrow> xs = map Some ys"
proof (induction xs arbitrary: ys)
  case Nil
  show ?case by auto
next
  case (Cons x xs)
  show ?case by (cases x; cases ys) (auto simp: Cons.IH)
qed

lemma those_None_iff: "those xs = None \<longleftrightarrow> None \<in> set xs"
  by (induction xs) (auto split: option.splits)

lemma those_mapD: "those (map f xs) = Some ys \<Longrightarrow> (\<forall>x\<in>set xs. f x \<noteq> None) \<and> ys = map (\<lambda>x. the (f x)) xs"
  by (induction xs arbitrary: ys) (auto split: option.splits)

subsection \<open>What the recursion computes and when it returns\<close>

lemma getDescendants_step:
  "getDescendants (Suc d) (childrenMap sites) s \<noteq> None \<longleftrightarrow>
     (\<forall>c. is_child sites s c \<longrightarrow> getDescendants d (childrenMap sites) c \<noteq> None)"
  using set_childrenMap [of sites s] by (auto simp: those_None_iff)

lemma getDescendants_set:
  "getDescendants d (childrenMap sites) s = Some ds \<Longrightarrow> set ds = {c. (s, c) \<in> (child_rel sites)\<^sup>+}"
proof (induction d arbitrary: s ds)
  case 0
  then show ?case by simp
next
  case (Suc d)
  let ?m = "childrenMap sites"
  let ?cs = "nullish_or (map_of ?m s) []"
  let ?f = "\<lambda>c. map_option (\<lambda>ds. c # ds) (getDescendants d ?m c)"
  from Suc.prems obtain dss where those: "those (map ?f ?cs) = Some dss" and ds: "ds = concat dss"
    by auto
  note D = those_mapD [OF those]
  have each: "set (the (?f c)) = insert c {x. (c, x) \<in> (child_rel sites)\<^sup>+}" if "c \<in> set ?cs" for c
  proof -
    from D that obtain es where "getDescendants d ?m c = Some es" by fastforce
    with Suc.IH show ?thesis by auto
  qed
  have "set ds = (\<Union>c\<in>set ?cs. insert c {x. (c, x) \<in> (child_rel sites)\<^sup>+})"
    using each D by (simp add: ds)
  also have "\<dots> = {c. (s, c) \<in> (child_rel sites)\<^sup>+}"
    unfolding set_childrenMap by (auto elim: converse_tranclE intro: trancl_into_trancl2)
  finally show ?case .
qed

lemma trancl_child_in: "(s, c) \<in> (child_rel sites)\<^sup>+ \<Longrightarrow> c \<in> sn_id ` set sites"
  by (erule trancl.cases) (auto simp: is_child_def)

lemma finite_descendants: "finite {c. (s, c) \<in> (child_rel sites)\<^sup>+}"
  by (rule finite_subset [of _ "sn_id ` set sites"]) (auto dest: trancl_child_in)

lemma card_descendants: "card {c. (s, c) \<in> (child_rel sites)\<^sup>+} \<le> length sites"
proof -
  have "card {c. (s, c) \<in> (child_rel sites)\<^sup>+} \<le> card (sn_id ` set sites)"
    by (rule card_mono) (auto dest: trancl_child_in)
  also have "\<dots> \<le> length sites"
    by (metis card_image_le card_length finite_set le_trans)
  finally show ?thesis .
qed

definition reaches_cycle :: "site_node list \<Rightarrow> id \<Rightarrow> bool" where
  "reaches_cycle sites s \<longleftrightarrow> (\<exists>c. (s, c) \<in> (child_rel sites)\<^sup>* \<and> (c, c) \<in> (child_rel sites)\<^sup>+)"

lemma getDescendants_returns:
  assumes "\<not> reaches_cycle sites s" and "card {c. (s, c) \<in> (child_rel sites)\<^sup>+} < d"
  shows "getDescendants d (childrenMap sites) s \<noteq> None"
  using assms
proof (induction d arbitrary: s)
  case 0
  then show ?case by simp
next
  case (Suc d)
  have "getDescendants d (childrenMap sites) c \<noteq> None" if c: "is_child sites s c" for c
  proof (rule Suc.IH)
    show nc: "\<not> reaches_cycle sites c"
      using Suc.prems(1) c unfolding reaches_cycle_def
      by (blast intro: converse_rtrancl_into_rtrancl)
    have sub: "{x. (c, x) \<in> (child_rel sites)\<^sup>+} \<subseteq> {x. (s, x) \<in> (child_rel sites)\<^sup>+}"
      using c by (auto intro: trancl_into_trancl2)
    have "c \<in> {x. (s, x) \<in> (child_rel sites)\<^sup>+}" using c by auto
    moreover have "c \<notin> {x. (c, x) \<in> (child_rel sites)\<^sup>+}"
      using nc by (auto simp: reaches_cycle_def)
    ultimately have "{x. (c, x) \<in> (child_rel sites)\<^sup>+} \<subset> {x. (s, x) \<in> (child_rel sites)\<^sup>+}"
      using sub by blast
    then have "card {x. (c, x) \<in> (child_rel sites)\<^sup>+} < card {x. (s, x) \<in> (child_rel sites)\<^sup>+}"
      by (rule psubset_card_mono [OF finite_descendants])
    then show "card {x. (c, x) \<in> (child_rel sites)\<^sup>+} < d"
      using Suc.prems(2) by linarith
  qed
  then show ?case unfolding getDescendants_step by blast
qed

lemma reaches_cycle_step: "reaches_cycle sites s \<Longrightarrow> \<exists>c. is_child sites s c \<and> reaches_cycle sites c"
proof -
  assume "reaches_cycle sites s"
  then obtain c where "(s, c) \<in> (child_rel sites)\<^sup>*" and cyc: "(c, c) \<in> (child_rel sites)\<^sup>+"
    by (auto simp: reaches_cycle_def)
  then have "(s, c) \<in> (child_rel sites)\<^sup>+" by (rule rtrancl_trancl_trancl)
  from tranclD [OF this] obtain x where "is_child sites s x" "(x, c) \<in> (child_rel sites)\<^sup>*"
    by auto
  with cyc show ?thesis by (auto simp: reaches_cycle_def)
qed

lemma getDescendants_cycle: "reaches_cycle sites s \<Longrightarrow> getDescendants d (childrenMap sites) s = None"
proof (induction d arbitrary: s)
  case 0
  show ?case by simp
next
  case (Suc d)
  from reaches_cycle_step [OF Suc.prems] obtain c where "is_child sites s c" "reaches_cycle sites c"
    by blast
  with Suc.IH getDescendants_step [of d sites s] show ?case by blast
qed

subsection \<open>The hierarchy map\<close>

lemma map_of_foldl_update:
  "map_of (foldl (\<lambda>m (k, v). AList.update k v m) m0 kvs) k =
     (case map_of (rev kvs) k of None \<Rightarrow> map_of m0 k | Some v \<Rightarrow> Some v)"
  by (induction kvs arbitrary: m0)
    (auto simp: update_conv' map_add_def split: option.splits)

lemma buildSiteHierarchy_SomeD:
  assumes h: "buildSiteHierarchy d sites = Some h"
  shows "map_of (descendantsBySiteId h) k =
     (if k \<in> sn_id ` set sites then getDescendants d (childrenMap sites) k else None)"
proof -
  let ?g = "\<lambda>s. map_option (Pair (sn_id s)) (getDescendants d (childrenMap sites) (sn_id s))"
  from h obtain dss where those: "those (map ?g sites) = Some dss"
    and hd: "descendantsBySiteId h = foldl (\<lambda>m (k, ds). AList.update k ds m) [] dss"
    by (auto simp: buildSiteHierarchy_def)
  note D = those_mapD [OF those]
  have "map_of (descendantsBySiteId h) k = map_of (rev dss) k"
    by (simp add: hd map_of_foldl_update split: option.splits)
  also have "\<dots> = (if k \<in> sn_id ` set sites then getDescendants d (childrenMap sites) k else None)"
  proof (cases "map_of (rev dss) k")
    case None
    then have "k \<notin> fst ` set dss" by (simp add: map_of_eq_None_iff)
    moreover have "fst ` set dss = sn_id ` set sites"
      using D by (force simp: image_iff)
    ultimately show ?thesis using None by simp
  next
    case (Some ds)
    then have "(k, ds) \<in> set dss" by (metis map_of_SomeD set_rev)
    with D obtain s where "s \<in> set sites" "?g s = Some (k, ds)" by force
    with Some show ?thesis by auto
  qed
  finally show ?thesis .
qed

lemma buildSiteHierarchy_returns_iff:
  "buildSiteHierarchy d sites \<noteq> None \<longleftrightarrow>
     (\<forall>s\<in>set sites. getDescendants d (childrenMap sites) (sn_id s) \<noteq> None)"
  by (auto simp: buildSiteHierarchy_def those_None_iff)

subsection \<open>Visibility\<close>

lemma filterAssets_set:
  "set (filterAssetsByVisibleSites siteOf assets (Some ids)) = {a \<in> set assets. siteOf a \<in> set ids}"
  by (auto simp: filterAssetsByVisibleSites_def)

lemma getVisibleAssetsForMember_eq:
  "getVisibleAssetsForMember siteOf accesses clientId assets h =
     bindr (getVisibleSiteIdsForMember accesses clientId h)
       (\<lambda>ids. Inr (filterAssetsByVisibleSites siteOf assets ids))"
  by (simp add: getVisibleAssetsForMember_def getVisibleSiteIdsForMember_def Let_def
      filterAssetsByVisibleSites_def bindr_def split: sum.split)

lemma clientAccessGrants_client: "g \<in> set (clientAccessGrants accesses c) \<Longrightarrow> ag_clientId g = c"
  by (auto simp: clientAccessGrants_def)

lemma getVisibleSiteIdsForMember_total: "\<exists>v. getVisibleSiteIdsForMember accesses clientId h = Inr v"
  using reduceAccessGrants_total [of "clientAccessGrants accesses clientId"]
  by (auto simp: getVisibleSiteIdsForMember_def Let_def)

subsection \<open>Properties\<close>

text \<open>
  C8: when no site of the list is on or above a cycle of parent links, the construction returns
  (a call depth of one more than the number of sites is enough), lists every site, and gives for each
  site exactly its descendants in the parent relation.
\<close>

theorem buildSiteHierarchy_correct:
  assumes "\<And>s. s \<in> set sites \<Longrightarrow> \<not> reaches_cycle sites (sn_id s)"
  shows "\<exists>h. buildSiteHierarchy (length sites + 1) sites = Some h \<and> allSiteIds h = map sn_id sites
     \<and> (\<forall>s\<in>set sites. \<exists>ds. map_of (descendantsBySiteId h) (sn_id s) = Some ds
          \<and> set ds = {c. (sn_id s, c) \<in> (child_rel sites)\<^sup>+})"
proof -
  have ret: "getDescendants (length sites + 1) (childrenMap sites) (sn_id s) \<noteq> None" if "s \<in> set sites" for s
    using card_descendants [of "sn_id s" sites] by (intro getDescendants_returns [OF assms [OF that]]) simp
  then obtain h where h: "buildSiteHierarchy (length sites + 1) sites = Some h"
    using buildSiteHierarchy_returns_iff [of "length sites + 1" sites] by blast
  moreover from h have "allSiteIds h = map sn_id sites" by (auto simp: buildSiteHierarchy_def)
  moreover have "\<exists>ds. map_of (descendantsBySiteId h) (sn_id s) = Some ds
      \<and> set ds = {c. (sn_id s, c) \<in> (child_rel sites)\<^sup>+}" if s: "s \<in> set sites" for s
  proof -
    from ret [OF s] obtain ds where ds: "getDescendants (length sites + 1) (childrenMap sites) (sn_id s) = Some ds"
      by auto
    with buildSiteHierarchy_SomeD [OF h, of "sn_id s"] s getDescendants_set [OF ds] show ?thesis by auto
  qed
  ultimately show ?thesis by blast
qed

definition chain3 :: "site_node list" where
  "chain3 = [\<lparr>sn_id = ''a'', sn_parentSiteId = None\<rparr>, \<lparr>sn_id = ''b'', sn_parentSiteId = Some ''a''\<rparr>]"

lemma chain3_child: "is_child chain3 p c \<longleftrightarrow> p = ''a'' \<and> c = ''b''"
  by (auto simp: is_child_def chain3_def)

lemma chain3_acyclic: "\<not> reaches_cycle chain3 s"
proof -
  have "(p, c) \<in> (child_rel chain3)\<^sup>+ \<Longrightarrow> p = ''a'' \<and> c = ''b''" for p c
    by (induction rule: trancl.induct) (auto simp: chain3_child)
  then show ?thesis by (fastforce simp: reaches_cycle_def)
qed

theorem buildSiteHierarchy_correct_witness:
  "\<exists>h. buildSiteHierarchy 3 chain3 = Some h \<and> allSiteIds h = [''a'', ''b'']"
  using buildSiteHierarchy_correct [of chain3] chain3_acyclic by (auto simp: chain3_def numeral_3_eq_3)

text \<open>
  C40: the construction returns for some call depth exactly when no site reaches a cycle; a cycle of
  parent links makes it overflow at every depth.
\<close>

theorem buildSiteHierarchy_returns_iff_acyclic:
  "(\<exists>d. buildSiteHierarchy d sites \<noteq> None) = (\<not> (\<exists>s\<in>set sites. reaches_cycle sites (sn_id s)))"
proof
  assume "\<exists>d. buildSiteHierarchy d sites \<noteq> None"
  then obtain d where "buildSiteHierarchy d sites \<noteq> None" by blast
  then show "\<not> (\<exists>s\<in>set sites. reaches_cycle sites (sn_id s))"
    using getDescendants_cycle unfolding buildSiteHierarchy_returns_iff by blast
next
  assume "\<not> (\<exists>s\<in>set sites. reaches_cycle sites (sn_id s))"
  then have "getDescendants (Suc (length sites)) (childrenMap sites) (sn_id s) \<noteq> None" if "s \<in> set sites" for s
    using that card_descendants [of "sn_id s" sites] by (intro getDescendants_returns) auto
  then show "\<exists>d. buildSiteHierarchy d sites \<noteq> None"
    unfolding buildSiteHierarchy_returns_iff by blast
qed

lemma visible_filter:
  assumes "buildSiteHierarchy d sites = Some h"
  shows "filterAssetsByVisibleSites siteOf assets (getVisibleSiteIds g h) = filter (\<lambda>a.
     case ag_scope g of
        SYSTEM \<Rightarrow> True | GLOBAL \<Rightarrow> True | CLIENT \<Rightarrow> True
      | SITE_GROUP \<Rightarrow> siteOf a = ag_siteId g \<or> ag_siteId g \<in> sn_id ` set sites \<and> (ag_siteId g, siteOf a) \<in> (child_rel sites)\<^sup>+
      | SITE \<Rightarrow> siteOf a = ag_siteId g
      | SELF \<Rightarrow> False) assets"
proof -
  have desc: "set (nullish_or (map_of (descendantsBySiteId h) k) []) =
      {c. k \<in> sn_id ` set sites \<and> (k, c) \<in> (child_rel sites)\<^sup>+}" for k
  proof (cases "k \<in> sn_id ` set sites")
    case True
    then obtain ds where "getDescendants d (childrenMap sites) k = Some ds"
      using assms buildSiteHierarchy_returns_iff [of d sites] by fastforce
    with buildSiteHierarchy_SomeD [OF assms, of k] getDescendants_set [OF this] True show ?thesis by simp
  next
    case False
    with buildSiteHierarchy_SomeD [OF assms, of k] show ?thesis by simp
  qed
  show ?thesis
    by (cases "ag_scope g")
      (simp_all add: getVisibleSiteIds_def scopeAllowsAllClientSites_def filterAssetsByVisibleSites_def desc isScopeAtLeast_CLIENT)
qed

lemma visible_assets_meaning:
  assumes "buildSiteHierarchy d sites = Some h"
  shows "\<exists>as. getVisibleAssetsForMember siteOf accesses clientId assets h = Inr as
     \<and> (if clientAccessGrants accesses clientId = [] then as = []
        else \<exists>g. reduceAccessGrants (clientAccessGrants accesses clientId) = Inr g
          \<and> set as = {a \<in> set assets.
               CLIENT \<le> ag_scope g
               \<or> ag_scope g = SITE \<and> siteOf a = ag_siteId g
               \<or> ag_scope g = SITE_GROUP \<and> (siteOf a = ag_siteId g
                   \<or> ag_siteId g \<in> sn_id ` set sites \<and> (ag_siteId g, siteOf a) \<in> (child_rel sites)\<^sup>+)})"
proof (cases "clientAccessGrants accesses clientId = []")
  case True
  then show ?thesis by (simp add: getVisibleAssetsForMember_def)
next
  case False
  then obtain g where g: "reduceAccessGrants (clientAccessGrants accesses clientId) = Inr g"
    using reduceAccessGrants_total by blast
  have "set (filterAssetsByVisibleSites siteOf assets (getVisibleSiteIds g h)) =
      {a \<in> set assets. CLIENT \<le> ag_scope g \<or> ag_scope g = SITE \<and> siteOf a = ag_siteId g
               \<or> ag_scope g = SITE_GROUP \<and> (siteOf a = ag_siteId g
                   \<or> ag_siteId g \<in> sn_id ` set sites \<and> (ag_siteId g, siteOf a) \<in> (child_rel sites)\<^sup>+)}"
    unfolding visible_filter [OF assms] by (cases "ag_scope g") (auto simp: scope_rank_le)
  with False g show ?thesis by (simp add: getVisibleAssetsForMember_def)
qed

lemma filter_split:
  "filter P xs = us @ x # vs \<Longrightarrow> \<exists>pre post. xs = pre @ x # post \<and> filter P pre = us \<and> P x \<and> filter P post = vs"
proof (induction xs arbitrary: us)
  case (Cons y ys)
  show ?case
  proof (cases "P y \<and> us = []")
    case True
    then show ?thesis using Cons.prems by (intro exI [of _ "[]"] exI [of _ ys]) auto
  next
    case False
    then have "filter P ys = (if P y then tl us else us) @ x # vs" using Cons.prems by (cases us) auto
    from Cons.IH [OF this] obtain pre post where "ys = pre @ x # post" "filter P pre = (if P y then tl us else us)" "P x" "filter P post = vs" by blast
    then show ?thesis using False Cons.prems by (intro exI [of _ "y # pre"] exI [of _ post]) (cases us; auto)
  qed
qed simp

lemma map_split: "map f xs = us @ y # vs \<Longrightarrow> \<exists>as r bs. xs = as @ r # bs \<and> us = map f as \<and> y = f r \<and> vs = map f bs"
  by (auto simp: map_eq_append_conv map_eq_Cons_conv)

definition row_grant :: "client_access_row \<Rightarrow> access_grant" where
  "row_grant ca = \<lparr>ag_scope = rd_scope (ca_role ca), ag_capabilities = rd_capabilities (ca_role ca),
     ag_clientId = ca_clientId ca, ag_siteId = ca_siteId ca, ag_roleId = rd_id (ca_role ca)\<rparr>"

definition row_scope :: "client_access_row \<Rightarrow> role_scope" where
  "row_scope r = rd_scope (ca_role r)"

definition row_shows :: "site_node list \<Rightarrow> client_access_row \<Rightarrow> id \<Rightarrow> bool" where
  \<comment> \<open>the sites an access row lets its owner look at\<close>
  "row_shows sites r site =
     (case row_scope r of
        SYSTEM \<Rightarrow> True | GLOBAL \<Rightarrow> True | CLIENT \<Rightarrow> True
      | SITE_GROUP \<Rightarrow> site = ca_siteId r \<or> ca_siteId r \<in> sn_id ` set sites \<and> (ca_siteId r, site) \<in> (child_rel sites)\<^sup>+
      | SITE \<Rightarrow> site = ca_siteId r
      | SELF \<Rightarrow> False)"

definition widest_row :: "id \<Rightarrow> client_access_row list \<Rightarrow> client_access_row \<Rightarrow> bool" where
  \<comment> \<open>the most permissive row in a client, the last one of those with the widest scope\<close>
  "widest_row clientId accesses r \<longleftrightarrow> (\<exists>pre post. accesses = pre @ r # post \<and> ca_clientId r = clientId
     \<and> (\<forall>x\<in>set pre. ca_clientId x = clientId \<longrightarrow> scope_rank (row_scope x) \<le> scope_rank (row_scope r))
     \<and> (\<forall>x\<in>set post. ca_clientId x = clientId \<longrightarrow> scope_rank (row_scope x) < scope_rank (row_scope r)))"

lemma widest_row_in: "widest_row clientId accesses r \<Longrightarrow> r \<in> set accesses \<and> ca_clientId r = clientId"
  by (auto simp: widest_row_def)

lemma widest_row_unique:
  assumes "widest_row c as r" and "widest_row c as r'"
  shows "r = r'"
proof -
  from assms obtain pre post pre' post' where as: "as = pre @ r # post" "as = pre' @ r' # post'"
    and own: "ca_clientId r = c" "ca_clientId r' = c"
    and max: "\<forall>x\<in>set pre. ca_clientId x = c \<longrightarrow> scope_rank (row_scope x) \<le> scope_rank (row_scope r)"
      "\<forall>x\<in>set post. ca_clientId x = c \<longrightarrow> scope_rank (row_scope x) < scope_rank (row_scope r)"
      "\<forall>x\<in>set pre'. ca_clientId x = c \<longrightarrow> scope_rank (row_scope x) \<le> scope_rank (row_scope r')"
      "\<forall>x\<in>set post'. ca_clientId x = c \<longrightarrow> scope_rank (row_scope x) < scope_rank (row_scope r')"
    unfolding widest_row_def by blast
  from as have "pre @ r # post = pre' @ r' # post'" by simp
  then consider "r = r'" | "r \<in> set pre'" "r' \<in> set post" | "r' \<in> set pre" "r \<in> set post'"
    by (auto simp: append_eq_append_conv2 append_eq_Cons_conv Cons_eq_append_conv)
  then show ?thesis
  proof cases
    case 2
    then show ?thesis using own max(2,3) by fastforce
  next
    case 3
    then show ?thesis using own max(1,4) by fastforce
  qed
qed

lemma chosen_row:
  assumes "reduceAccessGrants (clientAccessGrants accesses clientId) = Inr g"
  shows "\<exists>r. widest_row clientId accesses r \<and> ag_scope g = row_scope r \<and> ag_siteId g = ca_siteId r"
proof -
  from reduceAccessGrants_chosen [OF assms] obtain us h vs where split: "clientAccessGrants accesses clientId = us @ h # vs"
    and us: "\<forall>x\<in>set us. ag_scope x \<le> ag_scope h" and vs: "\<forall>x\<in>set vs. ag_scope x < ag_scope h"
    and g: "ag_scope g = ag_scope h" "ag_siteId g = ag_siteId h" by blast
  from map_split [OF split [unfolded clientAccessGrants_def]] obtain as r bs
    where rows: "filter (\<lambda>ca. ca_clientId ca = clientId) accesses = as @ r # bs"
      and images: "us = map row_grant as" "h = row_grant r" "vs = map row_grant bs"
    unfolding row_grant_def by blast
  from filter_split [OF rows] obtain pre post where "accesses = pre @ r # post" "ca_clientId r = clientId"
    "filter (\<lambda>ca. ca_clientId ca = clientId) pre = as" "filter (\<lambda>ca. ca_clientId ca = clientId) post = bs" by blast
  moreover have "ag_scope (row_grant x) = row_scope x" "ag_siteId (row_grant x) = ca_siteId x" for x
    by (simp_all add: row_grant_def row_scope_def)
  ultimately show ?thesis
    using us vs g unfolding images scope_rank_le scope_rank_less widest_row_def
    by (intro exI [of _ r] conjI exI [of _ pre] exI [of _ post]) auto
qed

lemma visible_by_row:
  assumes "buildSiteHierarchy d sites = Some h"
  shows "getVisibleAssetsForMember siteOf accesses clientId assets h =
     Inr (filter (\<lambda>a. \<exists>r. widest_row clientId accesses r \<and> row_shows sites r (siteOf a)) assets)"
proof (cases "clientAccessGrants accesses clientId = []")
  case True
  then have "\<not> widest_row clientId accesses r" for r
    using widest_row_in [of clientId accesses r] by (auto simp: clientAccessGrants_def filter_empty_conv)
  then show ?thesis using True by (simp add: getVisibleAssetsForMember_def)
next
  case False
  then obtain g where g: "reduceAccessGrants (clientAccessGrants accesses clientId) = Inr g" using reduceAccessGrants_total by blast
  from chosen_row [OF g] obtain r where r: "widest_row clientId accesses r" "ag_scope g = row_scope r" "ag_siteId g = ca_siteId r" by blast
  have "(\<exists>r. widest_row clientId accesses r \<and> row_shows sites r s) \<longleftrightarrow> row_shows sites r s" for s
    using r(1) widest_row_unique by blast
  moreover have "getVisibleAssetsForMember siteOf accesses clientId assets h = Inr (filter (\<lambda>a. row_shows sites r (siteOf a)) assets)"
    using False unfolding row_shows_def r(2,3) [symmetric] visible_filter [OF assms, symmetric] by (simp add: getVisibleAssetsForMember_def g)
  ultimately show ?thesis by simp
qed

lemma widest_row_exists:
  assumes "r0 \<in> set accesses" and "ca_clientId r0 = clientId"
  shows "\<exists>r. widest_row clientId accesses r"
proof -
  have "clientAccessGrants accesses clientId \<noteq> []" using assms by (auto simp: clientAccessGrants_def filter_empty_conv)
  then show ?thesis using reduceAccessGrants_total chosen_row by blast
qed

text \<open>
  C7: once the site hierarchy is built (it is unless the parents of the sites have a cycle), a member with at
  least one access row in the client sees, of the client's assets and in their order, all of them
  at CLIENT scope or above, those of its site and the site's descendants at SITE_GROUP scope, those
  of its site at SITE scope and none at SELF scope, where scope and site are those of its most
  permissive access row in that client, the last one when several have the widest scope; a member with
  no access row in the client sees none.
\<close>

theorem getVisibleAssetsForMember_correct:
  assumes "buildSiteHierarchy d sites = Some h"
  shows "if \<forall>r\<in>set accesses. ca_clientId r \<noteq> clientId
     then getVisibleAssetsForMember siteOf accesses clientId assets h = Inr []
     else \<exists>pre r post. accesses = pre @ r # post \<and> ca_clientId r = clientId
       \<and> (\<forall>x\<in>set pre. ca_clientId x = clientId \<longrightarrow> scope_rank (row_scope x) \<le> scope_rank (row_scope r))
       \<and> (\<forall>x\<in>set post. ca_clientId x = clientId \<longrightarrow> scope_rank (row_scope x) < scope_rank (row_scope r))
       \<and> getVisibleAssetsForMember siteOf accesses clientId assets h = Inr (filter (\<lambda>a. row_shows sites r (siteOf a)) assets)"
proof (cases "\<forall>r\<in>set accesses. ca_clientId r \<noteq> clientId")
  case True
  then have "\<not> widest_row clientId accesses r" for r using widest_row_in by blast
  then show ?thesis using True by (simp add: visible_by_row [OF assms])
next
  case False
  then obtain r where r: "widest_row clientId accesses r" using widest_row_exists by blast
  then have "(\<exists>r. widest_row clientId accesses r \<and> row_shows sites r s) \<longleftrightarrow> row_shows sites r s" for s
    using widest_row_unique by blast
  then have "getVisibleAssetsForMember siteOf accesses clientId assets h = Inr (filter (\<lambda>a. row_shows sites r (siteOf a)) assets)"
    by (simp add: visible_by_row [OF assms])
  then show ?thesis using False r unfolding widest_row_def by (simp only: if_False) blast
qed

definition ex_access_data :: "id \<Rightarrow> id \<Rightarrow> role_scope \<Rightarrow> client_access_row" where
  "ex_access_data c s sc = \<lparr>ca_clientId = c, ca_siteId = s, ca_role = \<lparr>rd_id = ''r'', rd_scope = sc, rd_capabilities = []\<rparr>\<rparr>"

theorem getVisibleAssetsForMember_correct_witness:
  "\<exists>h. buildSiteHierarchy 3 chain3 = Some h
     \<and> getVisibleAssetsForMember snd [ex_access_data ''c'' ''z'' SITE, ex_access_data ''c'' ''a'' SITE_GROUP, ex_access_data ''d'' ''z'' SYSTEM]
          ''c'' [(1::nat, ''a''), (2, ''b''), (3, ''z'')] h = Inr [(1, ''a''), (2, ''b'')]"
proof -
  let ?rows = "[ex_access_data ''c'' ''z'' SITE, ex_access_data ''c'' ''a'' SITE_GROUP, ex_access_data ''d'' ''z'' SYSTEM]"
  let ?assets = "[(1::nat, ''a''), (2, ''b''), (3, ''z'')]"
  obtain h where h: "buildSiteHierarchy 3 chain3 = Some h"
    by (simp add: buildSiteHierarchy_def chain3_def childrenMap_def jmap_push_def numeral_3_eq_3)
  from getVisibleAssetsForMember_correct [OF h, of ?rows "''c''" snd ?assets]
  obtain pre r post where rows: "?rows = pre @ r # post" "ca_clientId r = ''c''"
    and max: "\<forall>x\<in>set pre. ca_clientId x = ''c'' \<longrightarrow> scope_rank (row_scope x) \<le> scope_rank (row_scope r)"
      "\<forall>x\<in>set post. ca_clientId x = ''c'' \<longrightarrow> scope_rank (row_scope x) < scope_rank (row_scope r)"
    and shown: "getVisibleAssetsForMember snd ?rows ''c'' ?assets h = Inr (filter (\<lambda>a. row_shows chain3 r (snd a)) ?assets)"
    by (auto simp: ex_access_data_def split: if_splits)
  have "r = ex_access_data ''c'' ''a'' SITE_GROUP"
    using rows max by (auto simp: Cons_eq_append_conv ex_access_data_def row_scope_def)
  moreover have "(''a'', x) \<in> (child_rel chain3)\<^sup>+ \<longleftrightarrow> x = ''b''" for x
    by (auto simp: chain3_child dest!: tranclD2)
  ultimately show ?thesis using h shown by (auto simp: row_shows_def row_scope_def ex_access_data_def chain3_def)
qed


end
