(* ===== verification/Rls.thy ===== *)
theory Rls
  imports Sample_Data Memory_Cache Site_Visibility
begin

section \<open>Row-level security\<close>

text \<open>
  \<^verbatim>\<open>src/src/prisma/prisma.service.ts\<close> decides, per request, whether a query bypasses row-level
  security and which session settings it carries; the policies themselves are SQL functions of
  \<^verbatim>\<open>src/prisma/migrations\<close>. A query through \<open>build()\<close> sees the rows the policies of its session
  admit, a query through \<open>bypassRLS()\<close> sees every row.
\<close>

record rls_context =
  rls_personId :: id
  rls_clientId :: id
  rls_siteId :: id
  rls_allowedSiteIds :: "id list"
  rls_scope :: role_scope

text \<open>What the statements of \<open>buildRLSContextStatements\<close> leave in the transaction's settings.\<close>

datatype rls_session = Bypass | Tenant rls_context

definition buildRLSContextStatements :: "bool \<Rightarrow> rls_context option \<Rightarrow> rls_session result" where
  "buildRLSContextStatements shouldBypassRLS ctx =
     (if shouldBypassRLS then Inr Bypass
      else case ctx of
          None \<Rightarrow> Inl (ServerError ''RLS context is required when RLS is not bypassed'')
        | Some c \<Rightarrow> Inr (Tenant c))"

definition subsites :: "tenant_db \<Rightarrow> id \<Rightarrow> site_row list" where
  "subsites db s = filter (\<lambda>t. st_parentSiteId t = Some s) (db_sites db)"

definition allowedSiteIds_of :: "tenant_db \<Rightarrow> id \<Rightarrow> id list" where
  "allowedSiteIds_of db siteId =
     (case find_by st_id siteId (db_sites db) of
        None \<Rightarrow> [siteId]
      | Some site \<Rightarrow>
          st_id site
          # concat (map (\<lambda>s1. st_id s1
              # concat (map (\<lambda>s2. st_id s2 # map st_id (subsites db (st_id s2)))
                  (subsites db (st_id s1))))
              (subsites db (st_id site))))"

definition allowed_site_ids_key :: "id \<Rightarrow> string" where
  "allowed_site_ids_key siteId = ''allowed-site-ids:siteId='' @ siteId"

definition getAllowedSiteIdsForSite ::
    "('c, id list) cache_ops \<Rightarrow> tenant_db \<Rightarrow> id \<Rightarrow> 'c \<Rightarrow> id list result \<times> 'c" where
  "getAllowedSiteIdsForSite ops db siteId c =
     (let (r, c', _) = getOrSet ops (allowed_site_ids_key siteId)
        (\<lambda>s. (Inr (allowedSiteIds_of db siteId), s)) (Some 3600000) c ()
      in (r, c'))"

record build_options =
  shouldBypassRLSAsSystemAdmin :: bool
  opt_rlsContext :: "rls_context option"

definition no_options :: build_options where
  "no_options = \<lparr>shouldBypassRLSAsSystemAdmin = False, opt_rlsContext = None\<rparr>"

definition bypassRLS_decision :: "cls_store \<Rightarrow> build_options \<Rightarrow> bool" where
  "bypassRLS_decision cls options =
     (let isSystemAdmin =
        (case cls_accessGrant cls of None \<Rightarrow> False | Some g \<Rightarrow> ag_scope g = SYSTEM);
        shouldBypassRLS =
          (cls_mode cls = Some cron \<or> shouldBypassRLSAsSystemAdmin options
           \<or> cls_intent cls = system);
        canBypassRLS = (cls_mode cls = Some cron \<or> isSystemAdmin)
      in shouldBypassRLS \<and> canBypassRLS)"

definition build_rls_context ::
    "('c, id list) cache_ops \<Rightarrow> tenant_db \<Rightarrow> cls_store \<Rightarrow> build_options \<Rightarrow> 'c
     \<Rightarrow> rls_context option result \<times> 'c" where
  "build_rls_context ops db cls options c =
     (case (cls_accessGrant cls, cls_person cls) of
        (Some g, Some p) \<Rightarrow>
          (let (r, c') = getAllowedSiteIdsForSite ops db (ag_siteId g) c
           in (bindr r (\<lambda>sites. Inr (Some \<lparr>rls_personId = pe_id p, rls_clientId = ag_clientId g,
                 rls_siteId = ag_siteId g, rls_allowedSiteIds = sites, rls_scope = ag_scope g\<rparr>)), c'))
      | _ \<Rightarrow> (Inr (opt_rlsContext options), c))"

text \<open>
  \<open>build()\<close>: the settings every query of the extended client runs under. The error of a missing
  context is raised when a query is made; here it is the result of \<open>rls_build\<close>.
\<close>

definition rls_build ::
    "('c, id list) cache_ops \<Rightarrow> tenant_db \<Rightarrow> cls_store \<Rightarrow> build_options \<Rightarrow> 'c
     \<Rightarrow> rls_session result \<times> 'c" where
  "rls_build ops db cls options c =
     (let (ctx, c') = build_rls_context ops db cls options c
      in (bindr ctx (\<lambda>x. buildRLSContextStatements (bypassRLS_decision cls options) x), c'))"

subsection \<open>The policies\<close>

definition validate_client :: "rls_context \<Rightarrow> id \<Rightarrow> bool" where
  "validate_client ctx client_id = (client_id = rls_clientId ctx)"

definition validate_site :: "rls_context \<Rightarrow> id \<Rightarrow> bool" where
  "validate_site ctx site_id =
     (if rls_scope ctx = SYSTEM \<or> rls_scope ctx = GLOBAL \<or> rls_scope ctx = CLIENT then True
      else if rls_scope ctx = SITE_GROUP
        then site_id = rls_siteId ctx \<or> site_id \<in> set (rls_allowedSiteIds ctx)
      else site_id = rls_siteId ctx)"

definition client_visible :: "rls_session \<Rightarrow> client_row \<Rightarrow> bool" where
  "client_visible s r =
     (case s of Bypass \<Rightarrow> True | Tenant ctx \<Rightarrow> validate_client ctx (cl_id r))"

definition site_visible :: "rls_session \<Rightarrow> site_row \<Rightarrow> bool" where
  "site_visible s r =
     (case s of Bypass \<Rightarrow> True
      | Tenant ctx \<Rightarrow> validate_client ctx (st_clientId r) \<and> validate_site ctx (st_id r))"

definition access_visible :: "rls_session \<Rightarrow> access_row \<Rightarrow> bool" where
  "access_visible s r =
     (case s of Bypass \<Rightarrow> True | Tenant ctx \<Rightarrow> validate_client ctx (pca_clientId r))"

definition invitation_visible :: "rls_session \<Rightarrow> invitation_row \<Rightarrow> bool" where
  "invitation_visible s r =
     (case s of Bypass \<Rightarrow> True | Tenant ctx \<Rightarrow> validate_client ctx (in_clientId r))"

definition person_visible :: "tenant_db \<Rightarrow> rls_session \<Rightarrow> person_row \<Rightarrow> bool" where
  "person_visible db s r =
     (case s of Bypass \<Rightarrow> True
      | Tenant ctx \<Rightarrow>
          list_ex (\<lambda>a. pca_personId a = pe_id r \<and> validate_client ctx (pca_clientId a))
            (filter (access_visible s) (db_accesses db)))"

subsection \<open>Who bypasses, and what a tenant session sees\<close>

lemma bypassRLS_decision_iff:
  "bypassRLS_decision cls options \<longleftrightarrow>
     cls_mode cls = Some cron
     \<or> (\<exists>g. cls_accessGrant cls = Some g \<and> ag_scope g = SYSTEM)
       \<and> (shouldBypassRLSAsSystemAdmin options \<or> cls_intent cls = system)"
  by (auto simp: bypassRLS_decision_def Let_def split: option.splits)

lemma getAllowed_result:
  assumes "co_get ops c (allowed_site_ids_key s) = None"
  shows "fst (getAllowedSiteIdsForSite ops db s c) = Inr (allowedSiteIds_of db s)"
  by (simp add: getAllowedSiteIdsForSite_def getOrSet_def assms)

lemma rls_build_tenant:
  assumes "cls_mode cls \<noteq> Some cron" and "cls_accessGrant cls = Some g" and "ag_scope g \<noteq> SYSTEM"
    and "cls_person cls = Some p" and "fst (rls_build ops db cls options c) = Inr s"
  shows "\<exists>sites. s = Tenant \<lparr>rls_personId = pe_id p, rls_clientId = ag_clientId g,
           rls_siteId = ag_siteId g, rls_allowedSiteIds = sites, rls_scope = ag_scope g\<rparr>
         \<and> fst (getAllowedSiteIdsForSite ops db (ag_siteId g) c) = Inr sites"
proof -
  have nb: "\<not> bypassRLS_decision cls options" using assms(1-3) by (simp add: bypassRLS_decision_iff)
  obtain r c' where r: "getAllowedSiteIdsForSite ops db (ag_siteId g) c = (r, c')" by fastforce
  from assms(5) show ?thesis
    by (auto simp: rls_build_def build_rls_context_def assms(2,4) r nb buildRLSContextStatements_def
        bindr_Inr_iff)
qed

lemma mem_allowedSiteIds:
  "x \<in> set (allowedSiteIds_of db s) \<longleftrightarrow>
     x = s \<or> (s \<in> st_id ` set (db_sites db)
       \<and> (\<exists>t1\<in>set (subsites db s). x = st_id t1
            \<or> (\<exists>t2\<in>set (subsites db (st_id t1)). x = st_id t2
                \<or> (\<exists>t3\<in>set (subsites db (st_id t2)). x = st_id t3))))"
proof (cases "find_by st_id s (db_sites db)")
  case None
  then have "s \<notin> st_id ` set (db_sites db)" by (simp add: find_by_None_iff)
  with None show ?thesis by (simp add: allowedSiteIds_of_def)
next
  case (Some site)
  with find_by_SomeD [OF this] show ?thesis by (auto simp: allowedSiteIds_of_def image_iff)
qed

subsection \<open>Tables behind row-level security\<close>

text \<open>
  The contract of a table with a tenant policy: a bypassing session sees every row, a tenant session
  only rows of its client. What a service reads through such a table is proved once.
\<close>

locale tenant_table =
  fixes visible :: "rls_session \<Rightarrow> 'r \<Rightarrow> bool" and owner :: "'r \<Rightarrow> id"
  assumes bypass_all: "visible Bypass r"
    and tenant_own: "visible (Tenant ctx) r \<Longrightarrow> owner r = rls_clientId ctx"
begin

lemma filter_bypass: "filter (visible Bypass) rows = rows"
  by (simp add: bypass_all)

lemma find_own:
  "find_by key k (filter (visible (Tenant ctx)) rows) = Some r \<Longrightarrow>
   r \<in> set rows \<and> key r = k \<and> owner r = rls_clientId ctx"
  using find_by_SomeD tenant_own by fastforce

lemma built_session_own:
  assumes "cls_mode cls \<noteq> Some cron" and "cls_accessGrant cls = Some g" and "ag_scope g \<noteq> SYSTEM"
    and "cls_person cls = Some p" and "fst (rls_build ops db cls options c) = Inr s" and "visible s r"
  shows "owner r = ag_clientId g"
  using rls_build_tenant [OF assms(1-5)] assms(6) tenant_own by fastforce

end

interpretation client_table: tenant_table client_visible cl_id
  by unfold_locales (simp_all add: client_visible_def validate_client_def)

interpretation site_table: tenant_table site_visible st_clientId
  by unfold_locales (simp_all add: site_visible_def validate_client_def)

interpretation access_table: tenant_table access_visible pca_clientId
  by unfold_locales (simp_all add: access_visible_def validate_client_def)

interpretation invitation_table: tenant_table invitation_visible in_clientId
  by unfold_locales (simp_all add: invitation_visible_def validate_client_def)

subsection \<open>Properties\<close>

lemma build_rls_context_ok: "\<exists>x. fst (build_rls_context ops db cls options c) = Inr x"
  by (auto simp: build_rls_context_def getAllowedSiteIdsForSite_def getOrSet_def Let_def
      split: option.splits)

lemma build_rls_context_None:
  "fst (build_rls_context ops db cls options c) = Inr None \<longleftrightarrow>
     (cls_accessGrant cls = None \<or> cls_person cls = None) \<and> opt_rlsContext options = None"
  by (auto simp: build_rls_context_def getAllowedSiteIdsForSite_def getOrSet_def Let_def
      split: option.splits)

text \<open>
  Queries of a request bypass row-level security exactly in a cron job, or when the request's
  grant has SYSTEM scope and the caller either has the system intent or the code asked for it; a
  request that may not bypass and has no grant or no person, and is given no explicit context, gets
  an error instead of a session.
\<close>

theorem rls_build_bypass_iff:
  "(fst (rls_build ops db cls options c) = Inr Bypass) =
     (cls_mode cls = Some cron
      \<or> (\<exists>g. cls_accessGrant cls = Some g \<and> ag_scope g = SYSTEM)
        \<and> (shouldBypassRLSAsSystemAdmin options \<or> cls_intent cls = system))
   \<and> (\<not> is_ok (fst (rls_build ops db cls options c))) =
     (\<not> bypassRLS_decision cls options \<and> opt_rlsContext options = None
      \<and> (cls_accessGrant cls = None \<or> cls_person cls = None))"
proof -
  obtain x c' where x: "build_rls_context ops db cls options c = (Inr x, c')"
    using build_rls_context_ok by (metis prod.collapse)
  have N: "x = None \<longleftrightarrow> (cls_accessGrant cls = None \<or> cls_person cls = None) \<and> opt_rlsContext options = None"
    using build_rls_context_None [of ops db cls options c] x by simp
  have "fst (rls_build ops db cls options c) = Inr Bypass \<longleftrightarrow> bypassRLS_decision cls options"
    by (auto simp: rls_build_def x buildRLSContextStatements_def split: option.splits)
  moreover have "\<not> is_ok (fst (rls_build ops db cls options c)) \<longleftrightarrow> \<not> bypassRLS_decision cls options \<and> x = None"
    by (auto simp: rls_build_def x buildRLSContextStatements_def split: option.splits)
  ultimately show ?thesis unfolding bypassRLS_decision_iff [symmetric] N by auto
qed



text \<open>The parent relation over the whole site table.\<close>

definition all_site_nodes :: "tenant_db \<Rightarrow> site_node list" where
  "all_site_nodes db = map (\<lambda>s. \<lparr>sn_id = st_id s, sn_parentSiteId = st_parentSiteId s\<rparr>) (db_sites db)"

lemma is_child_subsites:
  "p \<noteq> [] \<Longrightarrow> is_child (all_site_nodes db) p x \<longleftrightarrow> (\<exists>t\<in>set (subsites db p). st_id t = x)"
  by (auto simp: is_child_def all_site_nodes_def subsites_def)

text \<open>
  The site identifiers a SITE_GROUP session is allowed are, for a site of the table, exactly the
  site and its descendants down to the third level.
\<close>

theorem allowed_sites_three_levels:
  assumes "s \<in> st_id ` set (db_sites db)" and "[] \<notin> st_id ` set (db_sites db)"
  shows "(x \<in> set (allowedSiteIds_of db s)) = (\<exists>n\<le>3. (s, x) \<in> child_rel (all_site_nodes db) ^^ n)"
proof -
  let ?R = "child_rel (all_site_nodes db)"
  have ne: "st_id t \<noteq> []" if "t \<in> set (subsites db p)" for t p
    using that assms(2) by (force simp: subsites_def)
  have s: "s \<noteq> []" using assms by metis
  have step: "(\<exists>t\<in>set (subsites db p). P (st_id t)) \<longleftrightarrow> (\<exists>a. (p, a) \<in> ?R \<and> a \<noteq> [] \<and> P a)"
    if "p \<noteq> []" for p P
    using is_child_subsites [OF that] ne by fastforce
  have nonempty: "(p, a) \<in> ?R \<Longrightarrow> a \<noteq> []" for p a
    using assms(2) by (force simp: is_child_def all_site_nodes_def)
  have "(\<exists>n\<le>3. (s, x) \<in> ?R ^^ n) \<longleftrightarrow>
      (\<exists>n\<in>{0, Suc 0, Suc (Suc 0), Suc (Suc (Suc 0))}. (s, x) \<in> ?R ^^ n)"
    unfolding Bex_def by (rule ex_cong1, rule conj_cong [OF _ refl]) (simp, presburger)
  also have "\<dots> \<longleftrightarrow> s = x \<or> (\<exists>a. (s, a) \<in> ?R \<and> (x = a \<or> (\<exists>b. (a, b) \<in> ?R \<and> (x = b \<or> (b, x) \<in> ?R))))"
    by (simp add: relcomp_unfold) blast
  also have "\<dots> \<longleftrightarrow> x = s \<or> (\<exists>a. (s, a) \<in> ?R \<and> a \<noteq> [] \<and> (x = a \<or> (\<exists>b. (a, b) \<in> ?R \<and> b \<noteq> [] \<and>
      (x = b \<or> (\<exists>c. (b, c) \<in> ?R \<and> c \<noteq> [] \<and> x = c)))))"
    using nonempty by blast
  also have "\<dots> \<longleftrightarrow> x \<in> set (allowedSiteIds_of db s)"
    unfolding mem_allowedSiteIds using assms(1) s
    by (simp add: step [where P = "\<lambda>a. x = a"]
        step [where P = "\<lambda>b. x = b \<or> (\<exists>t3\<in>set (subsites db b). x = st_id t3)"]
        step [where P = "\<lambda>a. x = a \<or> (\<exists>t2\<in>set (subsites db a). x = st_id t2
          \<or> (\<exists>t3\<in>set (subsites db (st_id t2)). x = st_id t3))"] cong: conj_cong)
  finally show ?thesis by simp
qed

definition ex_chain :: tenant_db where
  \<comment> \<open>five sites, each the parent of the next\<close>
  "ex_chain = (ex_db [])\<lparr>db_sites := [ex_site ''a'' None, ex_site ''b'' (Some ''a''), ex_site ''c'' (Some ''b''),
     ex_site ''d'' (Some ''c''), ex_site ''e'' (Some ''d'')]\<rparr>"

theorem allowed_sites_three_levels_witness:
  "''d'' \<in> set (allowedSiteIds_of ex_chain ''a'')
   \<and> (\<exists>n\<le>3. (''a'', ''d'') \<in> child_rel (all_site_nodes ex_chain) ^^ n)"
proof -
  have "''d'' \<in> set (allowedSiteIds_of ex_chain ''a'')"
    by (simp add: allowedSiteIds_of_def ex_chain_def ex_db_def ex_site_def find_by_def subsites_def)
  then show ?thesis
    using allowed_sites_three_levels [of "''a''" ex_chain "''d''"]
    by (simp add: ex_chain_def ex_db_def ex_site_def)
qed

text \<open>
  The two notions of the sites below a site differ: in a chain of five sites the member view of
  the hierarchy shows a SITE_GROUP member of the first site the fifth one, the row-level-security
  session does not allow it.
\<close>

theorem site_group_depth_gap:
  "\<exists>h. buildSiteHierarchy 6 (all_site_nodes ex_chain) = Some h
     \<and> getVisibleSiteIds (ex_grant SITE_GROUP\<lparr>ag_siteId := ''a''\<rparr>) h = Some [''a'', ''b'', ''c'', ''d'', ''e'']
     \<and> allowedSiteIds_of ex_chain ''a'' = [''a'', ''b'', ''c'', ''d'']"
  by (simp add: buildSiteHierarchy_def all_site_nodes_def ex_chain_def ex_db_def ex_site_def childrenMap_def
      jmap_push_def eval_nat_numeral getVisibleSiteIds_def scopeAllowsAllClientSites_def isScopeAtLeast_def
      SCOPE_HIERARCHY_def ex_grant_def allowedSiteIds_of_def find_by_def subsites_def)

end
