(* ===== verification/Auth_Service.thy ===== *)
theory Auth_Service
  imports Rls
begin

section \<open>Authentication and the resolution of access grants\<close>

text \<open>
  \<^verbatim>\<open>src/src/auth/auth.service.ts\<close>. From a request's token and headers to the user and the one
  access grant the request runs with. The verification of a JWT against the identity provider's
  keys, HMAC-SHA256 and the JSON and base64url codecs are external: parameters of the definitions.
\<close>

subsection \<open>Tokens in requests\<close>

datatype jwt_outcome = Verified token_payload | Expired_token | Invalid_token

datatype jwt_validation = Valid_user stateless_user | Not_valid string

definition validateJwtToken :: "(string \<Rightarrow> jwt_outcome) \<Rightarrow> string option \<Rightarrow> jwt_validation" where
  \<comment> \<open>\<open>verify\<close>: decode, key lookup and \<open>verifyAsync\<close> with issuer and audience\<close>
  "validateJwtToken verify token =
     (if \<not> truthy token then Not_valid ''Authentication token is required.''
      else case verify (the token) of
          Verified payload \<Rightarrow>
            (case buildUserFromToken payload of
               Some user \<Rightarrow> Valid_user user
             | None \<Rightarrow> Not_valid ''Authentication token validation failed.'')
        | Invalid_token \<Rightarrow> Not_valid ''Authentication token validation failed.''
        | Expired_token \<Rightarrow> Not_valid ''Authentication token expired.'')"

definition extractTokenFromRequest :: "request \<Rightarrow> string option" where
  "extractTokenFromRequest req =
     (let parts = (case hdr_authorization req of None \<Rightarrow> [] | Some h \<Rightarrow> split_on (CHR '' '') h)
      in if at0 parts = Some ''Bearer'' then at0 (tl parts) else None)"

definition extractOrganizationContextFromRequest :: "request \<Rightarrow> access_context" where
  "extractOrganizationContextFromRequest req =
     \<lparr>requestedClientId = firstOf (hdr_client_id req), requestedSiteId = firstOf (hdr_site_id req),
      accessIntent = Some (getAccessIntent req)\<rparr>"

subsection \<open>Access records\<close>

text \<open>A row of \<open>PersonClientAccess\<close> with the selected columns of its client, site and role.\<close>

record access_record =
  ar_id :: id
  ar_isPrimary :: bool
  ar_clientId :: id
  ar_clientStatus :: client_status
  ar_siteId :: id
  ar_siteActive :: bool
  ar_role :: role_data

definition role_data_of :: "role_row \<Rightarrow> role_data" where
  "role_data_of r = \<lparr>rd_id = ro_id r, rd_scope = ro_scope r, rd_capabilities = ro_capabilities r\<rparr>"

definition join_access :: "tenant_db \<Rightarrow> access_row \<Rightarrow> access_record option" where
  "join_access db a =
     (case (find_by cl_id (pca_clientId a) (db_clients db), find_by st_id (pca_siteId a) (db_sites db),
            find_by ro_id (pca_roleId a) (db_roles db)) of
        (Some c, Some s, Some r) \<Rightarrow>
          Some \<lparr>ar_id = pca_id a, ar_isPrimary = pca_isPrimary a, ar_clientId = cl_id c,
                ar_clientStatus = cl_status c, ar_siteId = st_id s, ar_siteActive = st_active s,
                ar_role = role_data_of r\<rparr>
      | _ \<Rightarrow> None)"

definition person_has_idp :: "tenant_db \<Rightarrow> id \<Rightarrow> id \<Rightarrow> bool" where
  "person_has_idp db idpId personId =
     list_ex (\<lambda>p. pe_id p = personId \<and> pe_idpId p = Some idpId) (db_persons db)"

definition access_records :: "tenant_db \<Rightarrow> id \<Rightarrow> access_record list" where
  "access_records db idpId =
     List.map_filter (join_access db)
       (order_flag_first pca_isPrimary pca_createdOn
         (filter (\<lambda>a. person_has_idp db idpId (pca_personId a)) (db_accesses db)))"

definition record_grant :: "access_record \<Rightarrow> access_grant" where
  "record_grant r =
     \<lparr>ag_scope = rd_scope (ar_role r), ag_capabilities = rd_capabilities (ar_role r),
      ag_clientId = ar_clientId r, ag_siteId = ar_siteId r, ag_roleId = rd_id (ar_role r)\<rparr>"

subsection \<open>System administrators\<close>

definition pick_more_permissive :: "role_row \<Rightarrow> role_row \<Rightarrow> role_row" where
  "pick_more_permissive mostPermissive current =
     (if ro_scope current \<noteq> ro_scope mostPermissive
         \<and> isScopeAtLeast (ro_scope current) (ro_scope mostPermissive) then current
      else if ro_scope current = ro_scope mostPermissive
         \<and> length (ro_capabilities mostPermissive) < length (ro_capabilities current) then current
      else mostPermissive)"

definition user_roles_in :: "tenant_db \<Rightarrow> id \<Rightarrow> role_scope list \<Rightarrow> role_row list" where
  "user_roles_in db idpId allowedScopes =
     List.map_filter (\<lambda>rid. find_by ro_id rid (db_roles db))
       (unique (map pca_roleId
         (filter (\<lambda>a. person_has_idp db idpId (pca_personId a)
              \<and> (case find_by ro_id (pca_roleId a) (db_roles db) of
                   None \<Rightarrow> False | Some r \<Rightarrow> ro_scope r \<in> set allowedScopes))
            (db_accesses db))))"

definition getMostPermissiveRole :: "tenant_db \<Rightarrow> stateless_user \<Rightarrow> role_scope \<Rightarrow> role_row option" where
  "getMostPermissiveRole db user scopeAtLeast =
     (case user_roles_in db (u_idpId user) (getScopesAtLeast scopeAtLeast) of
        [] \<Rightarrow> None
      | r # rs \<Rightarrow> Some (foldl pick_more_permissive r (r # rs)))"

definition first_site_of_client :: "tenant_db \<Rightarrow> id \<Rightarrow> id option" where
  "first_site_of_client db clientId =
     map_option st_id (at0 (order_flag_first st_primary st_createdOn
       (filter (\<lambda>s. st_clientId s = clientId) (db_sites db))))"

definition getSystemAdminAccessGrant ::
    "tenant_db \<Rightarrow> stateless_user \<Rightarrow> id \<Rightarrow> id option \<Rightarrow> access_grant option" where
  "getSystemAdminAccessGrant db user clientId siteId =
     (case getMostPermissiveRole db user SYSTEM of
        None \<Rightarrow> None
      | Some role \<Rightarrow>
          (let siteId' = (if truthy siteId then siteId else first_site_of_client db clientId)
           in if truthy siteId'
              then Some \<lparr>ag_scope = ro_scope role, ag_capabilities = ro_capabilities role,
                         ag_clientId = clientId, ag_siteId = the siteId', ag_roleId = ro_id role\<rparr>
              else None))"

definition userIsDefaultSystemAdmin :: "string list \<Rightarrow> stateless_user \<Rightarrow> bool" where
  "userIsDefaultSystemAdmin systemAdminEmails user =
     List.member systemAdminEmails (toLowerCase (u_email user))"

subsection \<open>From records to a grant\<close>

definition denied_details :: "access_context \<Rightarrow> grant_details" where
  "denied_details ctx =
     \<lparr>gd_requestedClientId = requestedClientId ctx, gd_requestedSiteId = requestedSiteId ctx,
      gd_primaryClientId = None, gd_primarySiteId = None, gd_primaryRoleId = None\<rparr>"

definition validateAndBuildAccessGrantResult ::
    "access_record list \<Rightarrow> access_context \<Rightarrow> access_grant_result result" where
  "validateAndBuildAccessGrantResult records ctx =
     bindr (reduceAccessGrants (map record_grant records)) (\<lambda>grant.
       if scopeAllows grant GLOBAL then Inr (Grant grant)
       else case at0 (filter (\<lambda>r. ar_clientId r = ag_clientId grant \<and> ar_siteId r = ag_siteId grant)
                        records) of
           None \<Rightarrow> Inl (ServerError ''An error occurred while authenticating your request. Please contact support.'')
         | Some r \<Rightarrow>
             if ar_clientStatus r \<noteq> ACTIVE then Inr (Denied client_inactive (denied_details ctx))
             else if scopeAllows grant CLIENT then Inr (Grant grant)
             else if \<not> ar_siteActive r then Inr (Denied site_inactive (denied_details ctx))
             else Inr (Grant grant))"

definition bootstrap_grant :: "id \<Rightarrow> id \<Rightarrow> access_grant" where
  "bootstrap_grant clientId siteId =
     \<lparr>ag_scope = SYSTEM, ag_capabilities = VALID_CAPABILITIES, ag_clientId = clientId,
      ag_siteId = siteId, ag_roleId = ''ephemeral-system-admin''\<rparr>"

definition getAccessGrantForUserFromDatabase ::
    "string list \<Rightarrow> tenant_db \<Rightarrow> stateless_user \<Rightarrow> access_context \<Rightarrow> access_grant_result result" where
  "getAccessGrantForUserFromDatabase systemAdminEmails db user ctx =
     (let intent = nullish_or (accessIntent ctx) user_intent;
          ephemeral =
            (if truthy (requestedClientId ctx) \<and> intent \<noteq> user_intent
             then getSystemAdminAccessGrant db user (the (requestedClientId ctx)) (requestedSiteId ctx)
             else None)
      in case ephemeral of
          Some grant \<Rightarrow> Inr (Grant grant)
        | None \<Rightarrow>
            (let records = access_records db (u_idpId user)
             in if truthy (requestedClientId ctx) then
                  (let requested = filter (\<lambda>r. ar_clientId r = the (requestedClientId ctx)
                         \<and> (\<not> truthy (requestedSiteId ctx)
                             \<or> ar_siteId r = the (requestedSiteId ctx))) records
                   in if requested = [] then
                        (let primary = List.find ar_isPrimary records
                         in if userIsDefaultSystemAdmin systemAdminEmails user
                            then Inr (Grant (bootstrap_grant (the (requestedClientId ctx))
                                   (nullish_or (requestedSiteId ctx) [])))
                            else Inr (Denied access_grant_request_denied
                              \<lparr>gd_requestedClientId = requestedClientId ctx,
                               gd_requestedSiteId = requestedSiteId ctx,
                               gd_primaryClientId = map_option ar_clientId primary,
                               gd_primarySiteId = map_option ar_siteId primary,
                               gd_primaryRoleId = map_option (\<lambda>r. rd_id (ar_role r)) primary\<rparr>))
                      else validateAndBuildAccessGrantResult requested ctx)
                else
                  (let primaries = filter ar_isPrimary records
                   in if primaries \<noteq> [] then validateAndBuildAccessGrantResult primaries ctx
                      else if records \<noteq> []
                        then validateAndBuildAccessGrantResult (take 1 records) ctx
                      else if intent \<noteq> user_intent
                              \<and> userIsDefaultSystemAdmin systemAdminEmails user
                        then Inr (Grant (bootstrap_grant [] []))
                      else Inr (Denied no_access_grant
                             \<lparr>gd_requestedClientId = None, gd_requestedSiteId = None,
                              gd_primaryClientId = None, gd_primarySiteId = None,
                              gd_primaryRoleId = None\<rparr>))))"

definition getAccessGrantForUser ::
    "('c, access_grant_result) cache_ops \<Rightarrow> string list \<Rightarrow> tenant_db \<Rightarrow> stateless_user
     \<Rightarrow> access_context \<Rightarrow> 'c \<Rightarrow> access_grant_result result \<times> 'c" where
  "getAccessGrantForUser ops systemAdminEmails db user ctx c =
     (let (r, c', _) = getOrSet ops (buildAccessGrantResponseCacheKey (u_idpId user) ctx)
        (\<lambda>s. (getAccessGrantForUserFromDatabase systemAdminEmails db user ctx, s))
        (Some (5 * 60 * 1000)) c ()
      in (r, c'))"

subsection \<open>Lemmas on records and roles\<close>

lemma mem_map_filter: "y \<in> set (List.map_filter f xs) \<longleftrightarrow> (\<exists>x\<in>set xs. f x = Some y)"
  by (induction xs) (auto simp: List.map_filter_simps split: option.splits)

text \<open>The user's own rows behind a record, spelled out over the tables.\<close>

definition own_access :: "tenant_db \<Rightarrow> id \<Rightarrow> access_record \<Rightarrow> bool" where
  "own_access db idpId r \<longleftrightarrow>
     (\<exists>a\<in>set (db_accesses db). person_has_idp db idpId (pca_personId a) \<and> join_access db a = Some r)"

lemma mem_access_records: "r \<in> set (access_records db idpId) \<longleftrightarrow> own_access db idpId r"
  by (auto simp: access_records_def mem_map_filter own_access_def)

lemma record_grant_simps [simp]:
  "ag_scope (record_grant r) = rd_scope (ar_role r)"
  "ag_capabilities (record_grant r) = rd_capabilities (ar_role r)"
  "ag_clientId (record_grant r) = ar_clientId r"
  "ag_siteId (record_grant r) = ar_siteId r"
  "ag_roleId (record_grant r) = rd_id (ar_role r)"
  by (simp_all add: record_grant_def)

lemma pick_more_permissive_cases: "pick_more_permissive a b \<in> {a, b}"
  by (simp add: pick_more_permissive_def)

text \<open>More permissive: a greater scope, or the same scope and at least as many capabilities.\<close>

definition role_rank_le :: "role_row \<Rightarrow> role_row \<Rightarrow> bool" where
  "role_rank_le a b \<longleftrightarrow>
     ro_scope a < ro_scope b
     \<or> ro_scope a = ro_scope b \<and> length (ro_capabilities a) \<le> length (ro_capabilities b)"

lemma role_rank_le_trans: "role_rank_le a b \<Longrightarrow> role_rank_le b c \<Longrightarrow> role_rank_le a c"
  by (auto simp: role_rank_le_def)

lemma pick_more_permissive_ge: "role_rank_le a (pick_more_permissive a b)" "role_rank_le b (pick_more_permissive a b)"
  by (auto simp: role_rank_le_def pick_more_permissive_def isScopeAtLeast_iff)

lemma foldl_pick:
  "foldl pick_more_permissive b rs \<in> insert b (set rs)
   \<and> role_rank_le b (foldl pick_more_permissive b rs)
   \<and> (\<forall>r\<in>set rs. role_rank_le r (foldl pick_more_permissive b rs))"
proof (induction rs arbitrary: b)
  case Nil
  show ?case by (simp add: role_rank_le_def)
next
  case (Cons x rs)
  have "foldl pick_more_permissive b (x # rs) = foldl pick_more_permissive (pick_more_permissive b x) rs"
    by simp
  with Cons.IH [of "pick_more_permissive b x"] pick_more_permissive_cases [of b x]
    pick_more_permissive_ge(1) [of b x] pick_more_permissive_ge(2) [of x b] show ?case
    by (auto intro: role_rank_le_trans)
qed

lemma mem_user_roles_in:
  "r \<in> set (user_roles_in db idpId scopes) \<longleftrightarrow>
     (\<exists>a\<in>set (db_accesses db). person_has_idp db idpId (pca_personId a)
        \<and> find_by ro_id (pca_roleId a) (db_roles db) = Some r \<and> ro_scope r \<in> set scopes)"
  by (auto simp: user_roles_in_def mem_map_filter split: option.splits)

lemma getMostPermissiveRole_SomeD:
  assumes "getMostPermissiveRole db user s = Some role"
  shows "role \<in> set (user_roles_in db (u_idpId user) (getScopesAtLeast s))"
    and "\<And>r. r \<in> set (user_roles_in db (u_idpId user) (getScopesAtLeast s)) \<Longrightarrow> role_rank_le r role"
proof -
  from assms obtain r rs where rs: "user_roles_in db (u_idpId user) (getScopesAtLeast s) = r # rs"
    and role: "role = foldl pick_more_permissive r (r # rs)"
    by (auto simp: getMostPermissiveRole_def split: list.splits)
  show "role \<in> set (user_roles_in db (u_idpId user) (getScopesAtLeast s))"
    using foldl_pick [of r "r # rs"] rs role by auto
  show "\<And>r. r \<in> set (user_roles_in db (u_idpId user) (getScopesAtLeast s)) \<Longrightarrow> role_rank_le r role"
    using foldl_pick [of r "r # rs"] rs role by auto
qed

lemma getMostPermissiveRole_None_iff:
  "getMostPermissiveRole db user s = None \<longleftrightarrow> user_roles_in db (u_idpId user) (getScopesAtLeast s) = []"
  by (simp add: getMostPermissiveRole_def split: list.splits)

definition has_system_role :: "tenant_db \<Rightarrow> id \<Rightarrow> role_row \<Rightarrow> bool" where
  "has_system_role db idpId role \<longleftrightarrow>
     (\<exists>a\<in>set (db_accesses db). person_has_idp db idpId (pca_personId a)
        \<and> find_by ro_id (pca_roleId a) (db_roles db) = Some role \<and> ro_scope role = SYSTEM)"

lemma getSystemAdminAccessGrant_SomeD:
  assumes "getSystemAdminAccessGrant db user clientId siteId = Some g"
  shows "\<exists>role. has_system_role db (u_idpId user) role \<and> ag_scope g = SYSTEM
           \<and> ag_capabilities g = ro_capabilities role \<and> ag_roleId g = ro_id role
           \<and> ag_clientId g = clientId"
proof -
  from assms obtain role where r: "getMostPermissiveRole db user SYSTEM = Some role"
    and g: "ag_scope g = ro_scope role" "ag_capabilities g = ro_capabilities role"
      "ag_roleId g = ro_id role" "ag_clientId g = clientId"
    by (auto simp: getSystemAdminAccessGrant_def Let_def split: option.splits if_splits)
  from getMostPermissiveRole_SomeD(1) [OF r] have "has_system_role db (u_idpId user) role"
    by (auto simp: mem_user_roles_in has_system_role_def)
  with g show ?thesis by (auto simp: has_system_role_def)
qed

subsection \<open>Validation of the merged grant\<close>

definition activation_ok :: "access_grant \<Rightarrow> access_record \<Rightarrow> bool" where
  "activation_ok g r \<longleftrightarrow>
     (GLOBAL \<le> ag_scope g \<or> ar_clientStatus r = ACTIVE)
     \<and> (CLIENT \<le> ag_scope g \<or> ar_siteActive r)"

lemma validate_total: "records \<noteq> [] \<Longrightarrow> \<exists>r. validateAndBuildAccessGrantResult records ctx = Inr r"
proof -
  assume "records \<noteq> []"
  then obtain g where g: "reduceAccessGrants (map record_grant records) = Inr g"
    using reduceAccessGrants_total by blast
  from reduceAccessGrants_from [OF g] obtain r where "r \<in> set records"
    "ag_clientId g = ar_clientId r" "ag_siteId g = ar_siteId r" by auto
  then have "at0 (filter (\<lambda>r. ar_clientId r = ag_clientId g \<and> ar_siteId r = ag_siteId g) records) \<noteq> None"
    by (auto simp: at0_None_iff filter_empty_conv)
  then show ?thesis
    by (auto simp: validateAndBuildAccessGrantResult_def g)
qed

lemma validate_Grant:
  assumes "validateAndBuildAccessGrantResult records ctx = Inr (Grant g)"
  shows "reduceAccessGrants (map record_grant records) = Inr g"
    and "\<exists>r\<in>set records. ar_clientId r = ag_clientId g \<and> ar_siteId r = ag_siteId g \<and> activation_ok g r"
proof -
  from assms show red: "reduceAccessGrants (map record_grant records) = Inr g"
    by (auto simp: validateAndBuildAccessGrantResult_def bindr_Inr_iff split: if_splits option.splits)
  show "\<exists>r\<in>set records. ar_clientId r = ag_clientId g \<and> ar_siteId r = ag_siteId g \<and> activation_ok g r"
  proof (cases "scopeAllows g GLOBAL")
    case True
    then have "GLOBAL \<le> ag_scope g" by (simp add: scopeAllows_def isScopeAtLeast_iff)
    moreover have "CLIENT \<le> GLOBAL" by (simp add: less_eq_role_scope_def isScopeAtLeast_GLOBAL isScopeAtLeast_CLIENT)
    ultimately show ?thesis
      using reduceAccessGrants_from [OF red] by (auto simp: activation_ok_def)
  next
    case False
    with assms red obtain r where
      "at0 (filter (\<lambda>r. ar_clientId r = ag_clientId g \<and> ar_siteId r = ag_siteId g) records) = Some r"
      and "ar_clientStatus r = ACTIVE" and "scopeAllows g CLIENT \<or> ar_siteActive r"
      by (auto simp: validateAndBuildAccessGrantResult_def split: if_splits option.splits)
    then show ?thesis
      by (auto dest!: at0_SomeD simp: activation_ok_def scopeAllows_def isScopeAtLeast_iff)
  qed
qed

text \<open>A grant that comes from the user's own access records.\<close>

definition record_grant_of :: "tenant_db \<Rightarrow> id \<Rightarrow> access_grant \<Rightarrow> bool" where
  "record_grant_of db idpId g \<longleftrightarrow>
     (\<exists>r. own_access db idpId r \<and> ar_clientId r = ag_clientId g \<and> ar_siteId r = ag_siteId g
        \<and> rd_id (ar_role r) = ag_roleId g \<and> rd_scope (ar_role r) = ag_scope g)
     \<and> (\<exists>r. own_access db idpId r \<and> ar_clientId r = ag_clientId g \<and> ar_siteId r = ag_siteId g
        \<and> activation_ok g r)
     \<and> (\<forall>c\<in>set (ag_capabilities g). \<exists>r. own_access db idpId r \<and> c \<in> set (rd_capabilities (ar_role r)))"

lemma validate_record_grant_of:
  assumes "validateAndBuildAccessGrantResult records ctx = Inr (Grant g)"
    and "\<And>r. r \<in> set records \<Longrightarrow> own_access db idpId r"
  shows "record_grant_of db idpId g"
proof -
  note red = validate_Grant(1) [OF assms(1)]
  have "\<exists>r\<in>set records. ar_clientId r = ag_clientId g \<and> ar_siteId r = ag_siteId g
      \<and> rd_id (ar_role r) = ag_roleId g \<and> rd_scope (ar_role r) = ag_scope g"
    using reduceAccessGrants_from [OF red] by auto
  moreover have "\<forall>c\<in>set (ag_capabilities g). \<exists>r\<in>set records. c \<in> set (rd_capabilities (ar_role r))"
    using reduceAccessGrants_capabilities(1) [OF red] by auto
  ultimately show ?thesis
    using validate_Grant(2) [OF assms(1)] assms(2) unfolding record_grant_of_def by blast
qed

lemma truthy_Some_the: "truthy x \<Longrightarrow> x = Some (the x)"
  by (cases x) simp_all

lemma take1_subset: "x \<in> set (take 1 xs) \<Longrightarrow> x \<in> set xs"
  by (rule in_set_takeD)

lemma getAccessGrant_cases:
  assumes "getAccessGrantForUserFromDatabase emails db user ctx = Inr (Grant g)"
  shows "record_grant_of db (u_idpId user) g
     \<or> nullish_or (accessIntent ctx) user_intent \<noteq> user_intent \<and> truthy (requestedClientId ctx)
       \<and> getSystemAdminAccessGrant db user (the (requestedClientId ctx)) (requestedSiteId ctx) = Some g
     \<or> userIsDefaultSystemAdmin emails user
       \<and> g = bootstrap_grant (ag_clientId g) (ag_siteId g)
       \<and> (if truthy (requestedClientId ctx)
          then requestedClientId ctx = Some (ag_clientId g)
            \<and> filter (\<lambda>r. ar_clientId r = the (requestedClientId ctx)
                 \<and> (\<not> truthy (requestedSiteId ctx) \<or> ar_siteId r = the (requestedSiteId ctx))) (access_records db (u_idpId user)) = []
          else nullish_or (accessIntent ctx) user_intent \<noteq> user_intent)"
  using assms unfolding getAccessGrantForUserFromDatabase_def Let_def
  by (auto split: option.splits if_splits
      elim!: validate_record_grant_of [where db = db and idpId = "u_idpId user", THEN disjI1]
        validate_record_grant_of
      simp: mem_access_records [symmetric] bootstrap_grant_def dest: in_set_takeD intro: truthy_Some_the)

text \<open>For a client where the user has no access row, a configured administrator gets every capability with the user intent too.\<close>

lemma bootstrap_ignores_intent:
  assumes "userIsDefaultSystemAdmin emails user" and "requestedClientId ctx = Some c" and "c \<noteq> []"
    and "nullish_or (accessIntent ctx) user_intent = user_intent"
    and "\<And>r. own_access db (u_idpId user) r \<Longrightarrow> ar_clientId r \<noteq> c"
  shows "getAccessGrantForUserFromDatabase emails db user ctx = Inr (Grant (bootstrap_grant c (nullish_or (requestedSiteId ctx) [])))"
  using assms by (simp add: getAccessGrantForUserFromDatabase_def filter_empty_conv mem_access_records)

lemma getAccessGrant_client:
  assumes "getAccessGrantForUserFromDatabase emails db user ctx = Inr (Grant g)"
    and "requestedClientId ctx = Some c" and "c \<noteq> []"
  shows "ag_clientId g = c"
  using assms unfolding getAccessGrantForUserFromDatabase_def Let_def
  by (auto split: option.splits if_splits dest!: validate_Grant(2) getSystemAdminAccessGrant_SomeD
      simp: bootstrap_grant_def)

lemma getAccessGrant_total: "\<exists>r. getAccessGrantForUserFromDatabase emails db user ctx = Inr r"
proof -
  let ?rs = "access_records db (u_idpId user)"
  have "take 1 ?rs \<noteq> []" if "?rs \<noteq> []" using that by simp
  then show ?thesis
    unfolding getAccessGrantForUserFromDatabase_def Let_def
    using validate_total by (auto split: option.splits)
qed

subsection \<open>Properties\<close>

text \<open>
  C2: no privilege escalation. A grant the resolution returns is either the merge of the user's own
  access rows (its client, site, role and scope are those of one such row, every capability comes
  from one of them, and the client and site pass the activation checks), or the user holds a SYSTEM
  role and asked for a client with a non-user intent, in which case the grant has exactly that role's
  capabilities on that client, or the user's e-mail is configured as a system administrator. The last
  case needs a non-user intent when no client is asked for; when one is asked for, it needs that the user
  has no access row there, whatever the intent. In two points this is not what
  \<^verbatim>\<open>docs/access-intent.md\<close> says: the elevated intent adds no capabilities to those of the role, and
  the user intent does not keep a configured administrator from the full capabilities on a client.
\<close>

theorem grant_no_privilege_escalation:
  assumes "getAccessGrantForUserFromDatabase emails db user ctx = Inr (Grant g)"
  shows "record_grant_of db (u_idpId user) g
     \<or> nullish_or (accessIntent ctx) user_intent \<noteq> user_intent
       \<and> requestedClientId ctx = Some (ag_clientId g)
       \<and> (\<exists>role. has_system_role db (u_idpId user) role \<and> ag_scope g = SYSTEM
            \<and> ag_capabilities g = ro_capabilities role \<and> ag_roleId g = ro_id role)
     \<or> userIsDefaultSystemAdmin emails user \<and> g = bootstrap_grant (ag_clientId g) (ag_siteId g)
       \<and> (if truthy (requestedClientId ctx)
          then requestedClientId ctx = Some (ag_clientId g)
            \<and> \<not> (\<exists>r. own_access db (u_idpId user) r \<and> ar_clientId r = ag_clientId g
                   \<and> (truthy (requestedSiteId ctx) \<longrightarrow> requestedSiteId ctx = Some (ar_siteId r)))
          else nullish_or (accessIntent ctx) user_intent \<noteq> user_intent)"
proof -
  have "requestedClientId ctx = Some (ag_clientId g)
      \<and> (\<exists>role. has_system_role db (u_idpId user) role \<and> ag_scope g = SYSTEM
            \<and> ag_capabilities g = ro_capabilities role \<and> ag_roleId g = ro_id role)"
    if "truthy (requestedClientId ctx)"
      "getSystemAdminAccessGrant db user (the (requestedClientId ctx)) (requestedSiteId ctx) = Some g"
    using getSystemAdminAccessGrant_SomeD [OF that(2)] that(1) by (auto elim!: truthyE)
  moreover have "\<not> (\<exists>r. own_access db (u_idpId user) r \<and> ar_clientId r = ag_clientId g
        \<and> (truthy (requestedSiteId ctx) \<longrightarrow> requestedSiteId ctx = Some (ar_siteId r)))"
    if "requestedClientId ctx = Some (ag_clientId g)"
      "filter (\<lambda>r. ar_clientId r = the (requestedClientId ctx)
         \<and> (\<not> truthy (requestedSiteId ctx) \<or> ar_siteId r = the (requestedSiteId ctx))) (access_records db (u_idpId user)) = []"
    using that by (auto simp: filter_empty_conv mem_access_records)
  ultimately show ?thesis using getAccessGrant_cases [OF assms] by (auto split: if_splits)
qed

text \<open>Data for the witnesses: Ann with a CLIENT role, Sue with a SYSTEM role, both at site s1.\<close>

definition ex_access :: "id \<Rightarrow> id \<Rightarrow> access_row" where
  "ex_access p r = \<lparr>pca_id = p @ r, pca_createdOn = 1, pca_isPrimary = True, pca_personId = p,
     pca_clientId = ''c1'', pca_siteId = ''s1'', pca_roleId = r\<rparr>"

definition ex_auth_db :: tenant_db where
  "ex_auth_db = (ex_db [])\<lparr>db_roles := [ex_role ''r1'' CLIENT, ex_role ''r2'' SYSTEM],
     db_accesses := [ex_access ''p1'' ''r1'', ex_access ''p0'' ''r2'']\<rparr>"

definition no_context :: access_context where
  "no_context = \<lparr>requestedClientId = None, requestedSiteId = None, accessIntent = None\<rparr>"

definition ex_ann_grant :: access_grant where
  "ex_ann_grant = \<lparr>ag_scope = CLIENT, ag_capabilities = [''view-assets''], ag_clientId = ''c1'',
     ag_siteId = ''s1'', ag_roleId = ''r1''\<rparr>"

lemmas ex_auth_simps = ex_auth_db_def ex_db_def ex_role_def ex_site_def ex_person_def ex_access_def
  ex_user_def no_context_def access_records_def join_access_def person_has_idp_def find_by_def
  role_data_of_def order_flag_first_def

lemma ex_ann_records:
  "access_records ex_auth_db ''idp-p1'' = [\<lparr>ar_id = ''p1r1'', ar_isPrimary = True, ar_clientId = ''c1'',
     ar_clientStatus = ACTIVE, ar_siteId = ''s1'', ar_siteActive = True,
     ar_role = \<lparr>rd_id = ''r1'', rd_scope = CLIENT, rd_capabilities = [''view-assets'']\<rparr>\<rparr>]"
  by (simp add: ex_auth_simps List.map_filter_simps)

lemma ex_ann_lookup_intent:
  "getAccessGrantForUserFromDatabase [] ex_auth_db (ex_user ''idp-p1'') (no_context\<lparr>accessIntent := i\<rparr>) =
     Inr (Grant ex_ann_grant)"
proof -
  have "u_idpId (ex_user ''idp-p1'') = ''idp-p1''" by (simp add: ex_user_def)
  then show ?thesis
    by (simp add: getAccessGrantForUserFromDatabase_def ex_ann_records no_context_def
        validateAndBuildAccessGrantResult_def reduceAccessGrants_def reduce_step_def record_grant_def Let_def
        isScopeAtLeast_def SCOPE_HIERARCHY_def set_adds_def set_add_def scopeAllows_def ex_ann_grant_def)
qed

lemma ex_ann_lookup:
  "getAccessGrantForUserFromDatabase [] ex_auth_db (ex_user ''idp-p1'') no_context = Inr (Grant ex_ann_grant)"
  using ex_ann_lookup_intent [of None] by (simp add: no_context_def)

theorem grant_no_privilege_escalation_witness:
  "getAccessGrantForUserFromDatabase [] ex_auth_db (ex_user ''idp-p1'') no_context = Inr (Grant ex_ann_grant)
   \<and> record_grant_of ex_auth_db ''idp-p1'' ex_ann_grant"
  using grant_no_privilege_escalation [OF ex_ann_lookup] ex_ann_lookup
  by (simp add: no_context_def ex_user_def userIsDefaultSystemAdmin_def)

text \<open>
  Resolving a grant never throws: it yields a grant or a reason for denial for any tables, user
  and context; and when the request names a client, a grant is always for that client.
\<close>

theorem grant_resolution_total:
  "(\<exists>g. getAccessGrantForUserFromDatabase emails db user ctx = Inr (Grant g)
        \<and> (truthy (requestedClientId ctx) = False \<or> requestedClientId ctx = Some (ag_clientId g)))
   \<or> (\<exists>reason d. getAccessGrantForUserFromDatabase emails db user ctx = Inr (Denied reason d))"
proof -
  obtain r where r: "getAccessGrantForUserFromDatabase emails db user ctx = Inr r"
    using getAccessGrant_total by blast
  show ?thesis
  proof (cases r)
    case (Grant g)
    with r getAccessGrant_client [of emails db user ctx g] show ?thesis
      by (cases "requestedClientId ctx") (auto simp: truthy_def)
  next
    case (Denied reason d)
    with r show ?thesis by blast
  qed
qed

text \<open>
  The configured-administrator fallback does not depend on the intent: a user listed in the
  configuration who asks for a client in which it has no access row receives the full SYSTEM grant on
  that client, also with the plain user intent.
\<close>

theorem bootstrap_grant_in_user_intent:
  assumes "userIsDefaultSystemAdmin emails user" and "requestedClientId ctx = Some cid" and "cid \<noteq> []"
    and "accessIntent ctx = Some user_intent"
    and "\<And>r. r \<in> set (access_records db (u_idpId user)) \<Longrightarrow> ar_clientId r \<noteq> cid"
  shows "getAccessGrantForUserFromDatabase emails db user ctx =
     Inr (Grant (bootstrap_grant cid (nullish_or (requestedSiteId ctx) [])))"
proof -
  have "filter (\<lambda>r. ar_clientId r = cid \<and> P r) (access_records db (u_idpId user)) = []" for P
    using assms(5) by (auto simp: filter_empty_conv)
  with assms(1-4) show ?thesis by (simp add: getAccessGrantForUserFromDatabase_def Let_def)
qed

theorem bootstrap_grant_in_user_intent_witness:
  "getAccessGrantForUserFromDatabase [''ann@x.io''] ex_auth_db (ex_user ''nobody'')
     \<lparr>requestedClientId = Some ''c9'', requestedSiteId = None, accessIntent = Some user_intent\<rparr>
   = Inr (Grant (bootstrap_grant ''c9'' []))"
proof -
  let ?ctx = "\<lparr>requestedClientId = Some ''c9'', requestedSiteId = None, accessIntent = Some user_intent\<rparr>"
  have "access_records ex_auth_db (u_idpId (ex_user ''nobody'')) = []" by (simp add: ex_auth_simps List.map_filter_simps)
  moreover have "toLowerCase ''ann@x.io'' = ''ann@x.io''" by code_simp
  then have "userIsDefaultSystemAdmin [''ann@x.io''] (ex_user ''nobody'')"
    by (simp add: userIsDefaultSystemAdmin_def ex_user_def)
  ultimately show ?thesis
    using bootstrap_grant_in_user_intent [of "[''ann@x.io'']" "ex_user ''nobody''" ?ctx "''c9''" ex_auth_db] by simp
qed

text \<open>
  After a user's cached grants are cleared for a client and some of its sites, that user's next
  lookup in the default context, for the client or for one of those sites reads the tables, whatever
  the intent; every other lookup (other users, other clients, other sites) answers as before.
\<close>

theorem clear_then_lookup:
  assumes "cache_store ops"
    and "CHR ''|'' \<notin> set u" "CHR ''|'' \<notin> set (u_idpId user)" "plain_context ctx" "plain_id clientId"
    and "pred_option plain_id siteId" "list_all plain_id (nullish_or siteIds [])"
  shows "fst (getAccessGrantForUser ops emails db user ctx
            (clearAccessGrantResponseCache u clientId siteId siteIds (cache_mdel ops c))) =
     (if u = u_idpId user \<and> ctx\<lparr>accessIntent := None\<rparr> \<in> set (clear_contexts clientId siteId siteIds)
      then getAccessGrantForUserFromDatabase emails db user ctx
      else fst (getAccessGrantForUser ops emails db user ctx c))"
proof -
  let ?ks = "clearAccessGrantResponseCache u clientId siteId siteIds (\<lambda>ks. ks)"
  have c: "clearAccessGrantResponseCache u clientId siteId siteIds (cache_mdel ops c) = co_mdel ops c ?ks"
    by (simp add: clearAccessGrantResponseCache_def cache_mdel_def)
  have "fst (getAccessGrantForUser ops emails db user ctx c') =
      (case co_get ops c' (buildAccessGrantResponseCacheKey (u_idpId user) ctx) of
         Some r \<Rightarrow> Inr r | None \<Rightarrow> getAccessGrantForUserFromDatabase emails db user ctx)" for c'
    using getAccessGrant_total [of emails db user ctx]
    by (auto simp: getAccessGrantForUser_def getOrSet_def Let_def split: option.splits)
  then show ?thesis
    by (simp add: c cache_store.get_mdel [OF assms(1)] clear_keys_mem_iff [OF assms(2-7)])
qed

theorem clear_then_lookup_witness:
  "fst (getAccessGrantForUser mem_ops [] ex_auth_db (ex_user ''idp-p1'') no_context
     (clearAccessGrantResponseCache ''idp-p1'' ''c1'' (Some ''s1'') None
        (cache_mdel mem_ops (\<lambda>k. Some (Denied no_access_grant (denied_details no_context))))))
   = Inr (Grant ex_ann_grant)"
  using clear_then_lookup [OF cache_store_mem_ops, of "''idp-p1''" "ex_user ''idp-p1''" no_context "''c1''"
      "Some ''s1''" None "[]" ex_auth_db] ex_ann_lookup
  by (simp add: plain_id_def plain_context_def no_context_def ex_user_def mem_clear_contexts)

end
