(* ===== verification/Auth_Tokens.thy ===== *)
theory Auth_Tokens
  imports Auth_Service
begin

section \<open>Signatures, custom tokens and the person record\<close>

text \<open>
  The second half of \<^verbatim>\<open>src/src/auth/auth.service.ts\<close>: signing keys, truncated HMAC signatures,
  custom tokens (an invitation-free way to authorise a public page) and the upsert of the person
  behind a verified user. External: the HMAC in base64url (\<open>hmac secret data\<close>), the encoding of an
  object as base64url JSON and its decoding (\<open>None\<close> where decoding throws), and the generation of
  secrets and identifiers.
\<close>

record signing_key =
  sk_keyId :: string
  sk_keySecret :: string
  sk_expiredOn :: "time option"

definition signing_key_cache_key :: "string \<Rightarrow> string" where
  "signing_key_cache_key keyId = ''signing-key:'' @ keyId"

text \<open>Find the key or create it with a new secret; the result is cached with no time to live.\<close>

definition getSigningKey ::
    "('c, signing_key) cache_ops \<Rightarrow> string \<Rightarrow> string \<Rightarrow> 'c \<Rightarrow> signing_key list
     \<Rightarrow> signing_key result \<times> 'c \<times> signing_key list" where
  "getSigningKey ops newSecret keyId c keys =
     getOrSet ops (signing_key_cache_key keyId)
       (\<lambda>ks. case find_by sk_keyId keyId ks of
           Some k \<Rightarrow> (Inr k, ks)
         | None \<Rightarrow>
             (let k = \<lparr>sk_keyId = keyId, sk_keySecret = newSecret, sk_expiredOn = None\<rparr>
              in (Inr k, ks @ [k])))
       None c keys"

definition normalize_ms :: "int \<Rightarrow> time" where
  "normalize_ms timestamp = (if timestamp < 1000000000000 then timestamp * 1000 else timestamp)"

text \<open>
  \<open>generateSignature\<close> once its key is fetched: the expiry check and the truncated digest.
\<close>

definition sign_with ::
    "(string \<Rightarrow> string \<Rightarrow> string) \<Rightarrow> signing_key \<Rightarrow> string \<Rightarrow> int \<Rightarrow> bool \<Rightarrow> nat \<Rightarrow> string result" where
  "sign_with hmac key signatureData timestamp ignoreExpiredKey sigLength =
     (if \<not> ignoreExpiredKey
         \<and> (case sk_expiredOn key of None \<Rightarrow> False | Some e \<Rightarrow> e < normalize_ms timestamp)
      then Inl (ServerError ''SigningKeyExpiredError'')
      else Inr (take sigLength
        (hmac (sk_keySecret key) (signatureData @ ''.'' @ show_int timestamp))))"

definition DEFAULT_SIG_LENGTH :: nat where
  "DEFAULT_SIG_LENGTH = 16"

definition generateSignature ::
    "('c, signing_key) cache_ops \<Rightarrow> (string \<Rightarrow> string \<Rightarrow> string) \<Rightarrow> string \<Rightarrow> string \<Rightarrow> string option
     \<Rightarrow> string \<Rightarrow> int \<Rightarrow> bool \<Rightarrow> nat option \<Rightarrow> 'c \<Rightarrow> signing_key list
     \<Rightarrow> string result \<times> 'c \<times> signing_key list" where
  "generateSignature ops hmac newSecret defaultKeyId keyId signatureData timestamp
     ignoreExpiredKey sigLength c keys =
     (let (k, c', keys') = getSigningKey ops newSecret (nullish_or keyId defaultKeyId) c keys
      in (bindr k (\<lambda>key. sign_with hmac key signatureData timestamp ignoreExpiredKey
             (nullish_or sigLength DEFAULT_SIG_LENGTH)), c', keys'))"

text \<open>
  The head of a token is the object \<open>{iat, exp}\<close>; an object of another shape has no head
  (\<open>'exp' in x && 'iat' in x\<close> fails). \<open>'p\<close> is the type of payloads.
\<close>

datatype 'p token_part = Head int int | Body 'p

fun head_fields :: "'p token_part \<Rightarrow> (int \<times> int) option" where
  "head_fields (Head iat exp) = Some (iat, exp)"
| "head_fields (Body p) = None"

definition generateCustomToken ::
    "('c, signing_key) cache_ops \<Rightarrow> (string \<Rightarrow> string \<Rightarrow> string) \<Rightarrow> ('p token_part \<Rightarrow> string)
     \<Rightarrow> string \<Rightarrow> string \<Rightarrow> time \<Rightarrow> 'p token_part \<Rightarrow> int \<Rightarrow> 'c \<Rightarrow> signing_key list
     \<Rightarrow> string result \<times> 'c \<times> signing_key list" where
  "generateCustomToken ops hmac encode newSecret defaultKeyId now payload expiresInSeconds c keys =
     (let nowSeconds = now div 1000;
          head = encode (Head nowSeconds (nowSeconds + expiresInSeconds));
          encodedPayload = encode payload;
          (sig, c', keys') = generateSignature ops hmac newSecret defaultKeyId None
            (head @ ''.'' @ encodedPayload) nowSeconds False None c keys
      in (bindr sig (\<lambda>s. Inr (head @ ''.'' @ encodedPayload @ ''.'' @ s)), c', keys'))"

datatype 'p token_validation = Token_valid "'p token_part" | Token_invalid string

definition validateCustomToken ::
    "('c, signing_key) cache_ops \<Rightarrow> (string \<Rightarrow> string \<Rightarrow> string) \<Rightarrow> (string \<Rightarrow> 'p token_part option)
     \<Rightarrow> string \<Rightarrow> string \<Rightarrow> time \<Rightarrow> string \<Rightarrow> 'c \<Rightarrow> signing_key list
     \<Rightarrow> 'p token_validation result \<times> 'c \<times> signing_key list" where
  "validateCustomToken ops hmac decode newSecret defaultKeyId now token c keys =
     (let parts = split_on (CHR ''.'') token;
          head = hd parts;
          payload = at0 (tl parts);
          signature = at0 (tl (tl parts))
      in case Option.bind (decode head) head_fields of
          None \<Rightarrow> (Inr (Token_invalid ''Invalid token''), c, keys)
        | Some (iat, exp) \<Rightarrow>
            if exp * 1000 < now then (Inr (Token_invalid ''Token expired''), c, keys)
            else
              (let (challenge, c', keys') = generateSignature ops hmac newSecret defaultKeyId None
                     (head @ ''.'' @ nullish_or payload ''undefined'') iat False None c keys
               in (bindr challenge (\<lambda>ch.
                     if signature \<noteq> Some ch then Inr (Token_invalid ''Invalid token'')
                     else case Option.bind payload decode of
                         None \<Rightarrow> Inr (Token_invalid ''Invalid token'')
                       | Some p \<Rightarrow> Inr (Token_valid p)), c', keys')))"

subsection \<open>The person behind a user\<close>

definition person_cache_key :: "id \<Rightarrow> string" where
  "person_cache_key idpId = ''person:idpId='' @ idpId"

definition apply_person_input :: "stateless_user \<Rightarrow> person_row \<Rightarrow> person_row" where
  \<comment> \<open>an \<open>update\<close> with \<open>personInput\<close>: an undefined phone number leaves the column as it is\<close>
  "apply_person_input u p =
     p\<lparr>pe_idpId := Some (u_idpId u), pe_firstName := nullish_or (u_givenName u) [],
       pe_lastName := nullish_or (u_familyName u) [], pe_email := u_email u,
       pe_username := Some (u_username u),
       pe_phoneNumber := nullish_or (u_phoneNumber u) (pe_phoneNumber p)\<rparr>"

definition new_person :: "id \<Rightarrow> stateless_user \<Rightarrow> person_row" where
  "new_person newId u =
     apply_person_input u \<lparr>pe_id = newId, pe_firstName = [], pe_lastName = [], pe_email = [],
       pe_username = None, pe_idpId = None, pe_phoneNumber = None, pe_position = None,
       pe_active = True\<rparr>"

definition upsert_person :: "id \<Rightarrow> stateless_user \<Rightarrow> person_row list \<Rightarrow> person_row result \<times> person_row list" where
  "upsert_person newId u rows =
     (case find_by pe_idpId (Some (u_idpId u)) rows of
        Some p \<Rightarrow> (Inr (apply_person_input u p),
          map (\<lambda>q. if pe_idpId q = Some (u_idpId u) then apply_person_input u q else q) rows)
      | None \<Rightarrow> (Inr (new_person newId u), rows @ [new_person newId u]))"

definition person_outdated :: "stateless_user \<Rightarrow> person_row \<Rightarrow> bool" where
  "person_outdated u p =
     (nullish_or (u_givenName u) [] \<noteq> pe_firstName p \<or> nullish_or (u_familyName u) [] \<noteq> pe_lastName p
      \<or> u_email u \<noteq> pe_email p \<or> Some (u_username u) \<noteq> pe_username p
      \<or> (u_phoneNumber u \<noteq> None \<and> the (u_phoneNumber u) \<noteq> pe_phoneNumber p))"

definition savePersonFromUserData ::
    "('c, person_row) cache_ops \<Rightarrow> id \<Rightarrow> stateless_user \<Rightarrow> 'c \<Rightarrow> person_row list
     \<Rightarrow> person_row result \<times> 'c \<times> person_row list" where
  "savePersonFromUserData ops newId u c rows =
     (let (r, c', rows') = getOrSet ops (person_cache_key (u_idpId u)) (upsert_person newId u)
            (Some 3600000) c rows
      in case r of
          Inl e \<Rightarrow> (Inl e, c', rows')
        | Inr p \<Rightarrow>
            if person_outdated u p then
              (case find_by pe_id (pe_id p) rows' of
                 None \<Rightarrow> (Inl (ServerError ''P2025''), c', rows')
               | Some q \<Rightarrow>
                   (let q' = apply_person_input u q;
                        rows'' = map (\<lambda>x. if pe_id x = pe_id p then apply_person_input u x else x) rows'
                    in (Inr q', co_set ops c' (person_cache_key (u_idpId u)) q' (Some 3600000), rows'')))
            else (Inr p, c', rows'))"

subsection \<open>Lemmas\<close>

lemma sign_with_Inr_iff:
  "sign_with hmac key d ts ig n = Inr s \<longleftrightarrow>
     (ig \<or> (\<forall>e. sk_expiredOn key = Some e \<longrightarrow> normalize_ms ts \<le> e))
     \<and> s = take n (hmac (sk_keySecret key) (d @ ''.'' @ show_int ts))"
  by (auto simp: sign_with_def split: option.splits)

lemma getSigningKey_Inr: "\<exists>k. fst (getSigningKey ops sec kid c keys) = Inr k"
  by (auto simp: getSigningKey_def getOrSet_def Let_def split: option.splits)

lemma split_token:
  assumes "CHR ''.'' \<notin> set h" "CHR ''.'' \<notin> set p" "CHR ''.'' \<notin> set s"
  shows "split_on (CHR ''.'') (h @ ''.'' @ p @ ''.'' @ s) = [h, p, s]"
  using assms by (simp add: split_on_append_sep split_on_no_sep)

lemma apply_person_input_current: "\<not> person_outdated u (apply_person_input u p)"
  by (auto simp: person_outdated_def apply_person_input_def nullish_or_def split: option.splits)

lemma apply_person_input_idem: "apply_person_input u (apply_person_input u p) = apply_person_input u p"
  by (auto simp: apply_person_input_def nullish_or_def split: option.splits)

lemma upsert_person_ok: "\<exists>p. fst (upsert_person newId u rows) = Inr p \<and> \<not> person_outdated u p"
  by (auto simp: upsert_person_def new_person_def apply_person_input_current split: option.splits)

subsection \<open>Properties\<close>

lemma getSigningKey_again:
  assumes "cache_store ops" and "getSigningKey ops sec kid c keys = (Inr k, c', keys')"
  shows "getSigningKey ops sec' kid c' keys'' = (Inr k, c', keys'')"
  unfolding getSigningKey_def
  by (rule cache_store.getOrSet_then_hit [OF assms(1) assms(2) [unfolded getSigningKey_def]])

lemma generateSignature_again:
  assumes "cache_store ops" and "generateSignature ops hmac sec dk kid d ts ig n c keys = (Inr s, c', keys')"
  shows "generateSignature ops hmac sec' dk kid d ts ig n c' keys' = (Inr s, c', keys')"
proof -
  obtain k c1 keys1 where k: "getSigningKey ops sec (nullish_or kid dk) c keys = (k, c1, keys1)"
    by (metis prod_cases3)
  with assms(2) obtain k' where k': "k = Inr k'" "c' = c1" "keys' = keys1"
    "sign_with hmac k' d ts ig (nullish_or n DEFAULT_SIG_LENGTH) = Inr s"
    by (auto simp: generateSignature_def bindr_Inr_iff)
  from getSigningKey_again [OF assms(1) k [unfolded k'(1)]] k'
  show ?thesis by (simp add: generateSignature_def)
qed

text \<open>
  A custom token round-trips: a token that was issued is accepted by the validation, with its own
  payload, by any later call up to the end of its life. Relied on of the external functions: the
  decoder inverts the encoder, and the encodings and the digest contain no dot.
\<close>

theorem custom_token_roundtrip:
  assumes "cache_store ops" and "\<And>x. decode (encode x) = Some x"
    and "\<And>x. CHR ''.'' \<notin> set (encode x)" and "\<And>k d. CHR ''.'' \<notin> set (hmac k d)"
    and "generateCustomToken ops hmac encode sec dk now payload secs c keys = (Inr token, c', keys')"
    and "now' \<le> (now div 1000 + secs) * 1000"
  shows "validateCustomToken ops hmac decode sec' dk now' token c' keys' = (Inr (Token_valid payload), c', keys')"
proof -
  let ?h = "encode (Head (now div 1000) (now div 1000 + secs))"
  let ?p = "encode payload"
  from assms(5) obtain s where sig: "generateSignature ops hmac sec dk None (?h @ ''.'' @ ?p) (now div 1000) False None c keys
      = (Inr s, c', keys')" and tok: "token = ?h @ ''.'' @ ?p @ ''.'' @ s"
    unfolding generateCustomToken_def Let_def case_prod_unfold
    by (cases "generateSignature ops hmac sec dk None (?h @ ''.'' @ ?p) (now div 1000) False None c keys")
      (auto simp: bindr_Inr_iff)
  from sig obtain k where "s = take DEFAULT_SIG_LENGTH (hmac k ((?h @ ''.'' @ ?p) @ ''.'' @ show_int (now div 1000)))"
    by (auto simp: generateSignature_def case_prod_unfold Let_def bindr_Inr_iff sign_with_Inr_iff)
  then have "CHR ''.'' \<notin> set s" using assms(4) in_set_takeD by fast
  then have "split_on (CHR ''.'') token = [?h, ?p, s]" unfolding tok by (intro split_token assms(3))
  then show ?thesis
    using generateSignature_again [OF assms(1) sig, of sec'] assms(6)
    by (simp add: validateCustomToken_def assms(2))
qed

text \<open>A codec and a digest that satisfy the hypotheses: unary numbers, one payload, a constant digest.\<close>

definition unary :: "int \<Rightarrow> string" where
  "unary i = (if i < 0 then CHR ''n'' else CHR ''p'') # replicate (nat \<bar>i\<bar>) (CHR ''1'')"

definition of_unary :: "string \<Rightarrow> int \<times> string" where
  "of_unary s =
     (let n = int (length (takeWhile (\<lambda>c. c = CHR ''1'') (tl s)))
      in (if hd s = CHR ''n'' then - n else n, dropWhile (\<lambda>c. c = CHR ''1'') (tl s)))"

fun sample_encode :: "unit token_part \<Rightarrow> string" where
  "sample_encode (Body u) = ''b''"
| "sample_encode (Head i e) = ''h'' @ unary i @ unary e"

definition sample_decode :: "string \<Rightarrow> unit token_part option" where
  "sample_decode s =
     (case s of [] \<Rightarrow> None
      | t # r \<Rightarrow> if t = CHR ''b'' then Some (Body ())
                else (let (i, r') = of_unary r; (e, _) = of_unary r' in Some (Head i e)))"

lemma ones_prefix:
  assumes "r = [] \<or> hd r \<noteq> CHR ''1''"
  shows "takeWhile (\<lambda>c. c = CHR ''1'') (replicate n (CHR ''1'') @ r) = replicate n (CHR ''1'')"
    and "dropWhile (\<lambda>c. c = CHR ''1'') (replicate n (CHR ''1'') @ r) = r"
  using assms by (induction n) (cases r; simp)+

lemma of_unary_unary: "r = [] \<or> hd r \<noteq> CHR ''1'' \<Longrightarrow> of_unary (unary i @ r) = (i, r)"
  by (simp add: of_unary_def unary_def ones_prefix)

lemma sample_codec: "sample_decode (sample_encode x) = Some x"
proof (cases x)
  case (Head i e)
  have "of_unary (unary i @ unary e) = (i, unary e)" by (rule of_unary_unary) (simp add: unary_def)
  moreover have "of_unary (unary e) = (e, [])" using of_unary_unary [of "[]" e] by simp
  ultimately show ?thesis by (simp add: Head sample_decode_def)
next
  case (Body u)
  then show ?thesis by (simp add: sample_decode_def)
qed

lemma sample_encode_no_dot: "CHR ''.'' \<notin> set (sample_encode x)"
  by (cases x) (auto simp: unary_def)

theorem custom_token_roundtrip_witness:
  "let (t, c', keys') = generateCustomToken mem_ops (\<lambda>k d. ''digest'') sample_encode ''secret'' ''default''
         2000 (Body ()) 60 Map.empty []
   in \<exists>token. t = Inr token
      \<and> fst (validateCustomToken mem_ops (\<lambda>k d. ''digest'') sample_decode ''other'' ''default'' 3000 token c' keys')
          = Inr (Token_valid (Body ()))"
proof -
  obtain token c' keys' where g: "generateCustomToken mem_ops (\<lambda>k d. ''digest'') sample_encode ''secret'' ''default''
         2000 (Body ()) 60 Map.empty [] = (Inr token, c', keys')"
    by (simp add: generateCustomToken_def generateSignature_def getSigningKey_def getOrSet_def mem_ops_def
        sign_with_def Let_def find_by_def)
  have "validateCustomToken mem_ops (\<lambda>k d. ''digest'') sample_decode ''other'' ''default'' 3000 token c' keys'
      = (Inr (Token_valid (Body ())), c', keys')"
    by (rule custom_token_roundtrip [OF cache_store_mem_ops sample_codec sample_encode_no_dot _ g]) simp_all
  with g show ?thesis by simp
qed

text \<open>
  Authenticity. A token is accepted only before its expiry and only when its third part is the
  truncated digest, under the signing key in use, of its first two parts and its issue time; the
  payload returned is the decoding of its second part.
\<close>

theorem custom_token_authentic:
  assumes "validateCustomToken ops hmac decode sec dk now token c keys = (Inr (Token_valid x), c', keys')"
  shows "\<exists>head body rest iat exp key c'' keys''. split_on (CHR ''.'') token = head # body #
         take DEFAULT_SIG_LENGTH (hmac (sk_keySecret key) ((head @ ''.'' @ body) @ ''.'' @ show_int iat)) # rest
     \<and> decode head = Some (Head iat exp) \<and> now \<le> exp * 1000 \<and> decode body = Some x
     \<and> getSigningKey ops sec dk c keys = (Inr key, c'', keys'')
     \<and> (\<forall>e. sk_expiredOn key = Some e \<longrightarrow> normalize_ms iat \<le> e)"
proof -
  obtain h parts where parts: "split_on (CHR ''.'') token = h # parts"
    using split_on_nonempty by (cases "split_on (CHR ''.'') token") auto
  from assms obtain iat exp where hd: "decode h = Some (Head iat exp)" and live: "\<not> exp * 1000 < now"
    by (auto simp: validateCustomToken_def parts Let_def bind_eq_Some_conv elim!: head_fields.elims
        split: option.splits if_splits)
  obtain ch c1 keys1 where g: "generateSignature ops hmac sec dk None (h @ ''.'' @ nullish_or (at0 parts) ''undefined'')
      iat False None c keys = (ch, c1, keys1)" by (metis prod_cases3)
  from assms hd live g obtain s body where ch: "ch = Inr s" and sig: "at0 (tl parts) = Some s"
    and body: "at0 parts = Some body" "decode body = Some x"
    by (auto simp: validateCustomToken_def parts Let_def bindr_Inr_iff bind_eq_Some_conv
        split: option.splits if_splits)
  from sig body obtain rest where p: "parts = body # s # rest"
    by (cases parts; cases "tl parts") auto
  obtain k c2 keys2 where k: "getSigningKey ops sec dk c keys = (k, c2, keys2)" by (metis prod_cases3)
  with g ch body(1) obtain key where key: "k = Inr key"
    and s: "sign_with hmac key (h @ ''.'' @ body) iat False DEFAULT_SIG_LENGTH = Inr s"
    by (auto simp: generateSignature_def bindr_Inr_iff)
  from s have s': "s = take DEFAULT_SIG_LENGTH (hmac (sk_keySecret key) ((h @ ''.'' @ body) @ ''.'' @ show_int iat))"
    and e: "\<forall>e. sk_expiredOn key = Some e \<longrightarrow> normalize_ms iat \<le> e"
    by (auto simp: sign_with_Inr_iff)
  have "split_on (CHR ''.'') token = h # body #
      take DEFAULT_SIG_LENGTH (hmac (sk_keySecret key) ((h @ ''.'' @ body) @ ''.'' @ show_int iat)) # rest"
    by (simp add: parts p s')
  moreover have "now \<le> exp * 1000" using live by simp
  ultimately show ?thesis using hd body(2) k [unfolded key] e by blast
qed

theorem custom_token_authentic_witness:
  "\<exists>token c keys c' keys' key.
     validateCustomToken mem_ops (\<lambda>k d. ''digest'') sample_decode ''other'' ''default'' 3000 token c keys
       = (Inr (Token_valid (Body ())), c', keys')
     \<and> (\<exists>c'' keys''. getSigningKey mem_ops ''other'' ''default'' c keys = (Inr key, c'', keys''))"
proof -
  let ?token = "sample_encode (Head 2 62) @ ''.'' @ sample_encode (Body ()) @ ''.digest''"
  have "split_on (CHR ''.'') ?token = [sample_encode (Head 2 62), sample_encode (Body ()), ''digest'']"
    using split_token [OF sample_encode_no_dot sample_encode_no_dot, of "''digest''" "Head 2 62" "Body ()"] by simp
  then have "fst (validateCustomToken mem_ops (\<lambda>k d. ''digest'') sample_decode ''other'' ''default'' 3000 ?token Map.empty [])
      = Inr (Token_valid (Body ()))"
    by (simp del: sample_encode.simps add: validateCustomToken_def sample_codec generateSignature_def
        getSigningKey_def getOrSet_def mem_ops_def sign_with_def find_by_def Let_def DEFAULT_SIG_LENGTH_def)
  then obtain c' keys' where v: "validateCustomToken mem_ops (\<lambda>k d. ''digest'') sample_decode ''other'' ''default''
      3000 ?token Map.empty [] = (Inr (Token_valid (Body ())), c', keys')"
    by (metis prod.collapse)
  from custom_token_authentic [OF v] v show ?thesis by blast
qed

text \<open>
  The person attached to a request carries the user's current name, e-mail, user name and known
  phone number, even when a stale copy of the row was cached or stored.
\<close>

theorem savePersonFromUserData_current:
  assumes "savePersonFromUserData ops newId u c rows = (Inr p, c', rows')"
  shows "\<not> person_outdated u p"
proof -
  obtain r c1 rows1 where g: "getOrSet ops (person_cache_key (u_idpId u)) (upsert_person newId u) (Some 3600000) c rows
      = (r, c1, rows1)" by (metis prod_cases3)
  with assms show ?thesis
    by (auto simp: savePersonFromUserData_def apply_person_input_current Let_def
        split: sum.splits if_splits option.splits)
qed

theorem savePersonFromUserData_current_witness:
  "\<exists>p. fst (savePersonFromUserData mem_ops ''new'' (ex_user ''idp-p1'') Map.empty [ex_person ''p1'' ''Ann@X.io'']) = Inr p
     \<and> \<not> person_outdated (ex_user ''idp-p1'') p"
proof -
  obtain p c' rows' where s: "savePersonFromUserData mem_ops ''new'' (ex_user ''idp-p1'') Map.empty
      [ex_person ''p1'' ''Ann@X.io''] = (Inr p, c', rows')"
    by (simp add: savePersonFromUserData_def getOrSet_def mem_ops_def upsert_person_def find_by_def
        ex_person_def ex_user_def person_outdated_def apply_person_input_def)
  from savePersonFromUserData_current [OF s] s show ?thesis by simp
qed

end
