(* ===== verification/Request_Guards.thy ===== *)
theory Request_Guards
  imports Auth_Tokens
begin

section \<open>The two global guards\<close>

text \<open>
  \<^verbatim>\<open>src/src/auth/auth.guard.ts\<close>, \<^verbatim>\<open>src/src/auth/policies.guard.ts\<close> and the policy decorators of
  \<^verbatim>\<open>src/src/auth/utils/policies.ts\<close>. Both guards are registered as global guards, in this order, by
  \<^verbatim>\<open>src/src/auth/auth.module.ts\<close>: a request reaches its handler only when \<open>AuthGuard\<close> and then
  \<open>PoliciesGuard\<close> let it pass. The metadata the framework's \<open>Reflector\<close> resolves for a route is
  the record \<open>endpoint\<close>; a policy handler is a function of its context that may throw.
\<close>

record policy_context =
  pc_request :: request
  pc_user :: stateless_user
  pc_accessGrant :: access_grant

record public_policy_context =
  ppc_request :: request
  ppc_user :: "stateless_user option"
  ppc_accessGrant :: "access_grant option"

type_synonym policy = "policy_context \<Rightarrow> bool result"
type_synonym public_policy = "public_policy_context \<Rightarrow> bool result"

record endpoint =
  ep_isPublic :: "bool option"
  ep_skipAccessGrantValidation :: "bool option"
  ep_policies :: "policy list option"
  ep_publicPolicies :: "public_policy list option"

subsection \<open>Decorators\<close>

definition CheckIsAuthenticated :: policy where
  "CheckIsAuthenticated ctx = Inr True" \<comment> \<open>the context always holds a user\<close>

definition CheckCapability :: "capability \<Rightarrow> policy" where
  "CheckCapability c ctx = Inr (hasCapability (pc_accessGrant ctx) c)"

definition CheckAnyCapability :: "capability list \<Rightarrow> policy" where
  "CheckAnyCapability cs ctx = Inr (hasAnyCapability (pc_accessGrant ctx) cs)"

definition CheckAllCapabilities :: "capability list \<Rightarrow> policy" where
  "CheckAllCapabilities cs ctx = Inr (hasAllCapabilities (pc_accessGrant ctx) cs)"

definition CheckScope :: "role_scope \<Rightarrow> policy" where
  "CheckScope s ctx = Inr (scopeAllows (pc_accessGrant ctx) s)"

definition CheckSystemAdmin :: policy where
  "CheckSystemAdmin ctx = Inr (isSystemAdmin (pc_accessGrant ctx))"

definition CheckGlobalAdmin :: policy where
  "CheckGlobalAdmin ctx = Inr (isGlobalAdmin (pc_accessGrant ctx))"

definition CheckClientAdmin :: policy where
  "CheckClientAdmin ctx = Inr (isClientAdmin (pc_accessGrant ctx))"

definition getPolicyHandlers :: "endpoint \<Rightarrow> policy list \<times> public_policy list" where
  "getPolicyHandlers ep = (nullish_or (ep_policies ep) [], nullish_or (ep_publicPolicies ep) [])"

subsection \<open>AuthGuard\<close>

definition allowPublic :: "endpoint \<Rightarrow> bool" where
  "allowPublic ep = (nullish_or (ep_isPublic ep) False \<or> 0 < length (snd (getPolicyHandlers ep)))"

definition skipAccessGrantValidation :: "endpoint \<Rightarrow> bool" where
  "skipAccessGrantValidation ep = nullish_or (ep_skipAccessGrantValidation ep) False"

text \<open>The collaborators of the guard that are not its own code, and the state it changes.\<close>

record ('cg, 'cp) auth_env =
  env_verify :: "string \<Rightarrow> jwt_outcome"
  env_systemAdminEmails :: "string list"
  env_isIPv4 :: "string \<Rightarrow> bool"
  env_isIPv6 :: "string \<Rightarrow> bool"
  env_newId :: id
  env_grantCache :: "('cg, access_grant_result) cache_ops"
  env_personCache :: "('cp, person_row) cache_ops"

record ('cg, 'cp) auth_state =
  as_db :: tenant_db
  as_grantCache :: 'cg
  as_personCache :: 'cp

definition reason_code :: "deny_reason \<Rightarrow> string" where
  "reason_code r =
     (case r of no_access_grant \<Rightarrow> ''NO_ACCESS_GRANT''
      | access_grant_expired \<Rightarrow> ''ACCESS_GRANT_EXPIRED''
      | access_grant_request_denied \<Rightarrow> ''ACCESS_GRANT_REQUEST_DENIED''
      | client_inactive \<Rightarrow> ''CLIENT_INACTIVE''
      | site_inactive \<Rightarrow> ''SITE_INACTIVE'')"

definition setClsContextFromRequest ::
    "('cg, 'cp) auth_env \<Rightarrow> request \<Rightarrow> stateless_user option \<Rightarrow> access_grant option \<Rightarrow> bool \<Rightarrow> bool
     \<Rightarrow> cls_store \<Rightarrow> ('cg, 'cp) auth_state \<Rightarrow> unit result \<times> cls_store \<times> ('cg, 'cp) auth_state" where
  "setClsContextFromRequest env req user grant isPublic skip cls st =
     (let cls1 = cls\<lparr>cls_isPublic := isPublic, cls_skipAccessGrantValidation := skip,
                     cls_accessIntent := Some (getAccessIntent req),
                     cls_useragent := hdr_user_agent req\<rparr>;
          cls2 = (if truthy (req_ip req) \<and> env_isIPv4 env (the (req_ip req))
                  then cls1\<lparr>cls_ipv4 := req_ip req\<rparr> else cls1);
          cls3 = (if truthy (req_ip req) \<and> env_isIPv6 env (the (req_ip req))
                  then cls2\<lparr>cls_ipv6 := req_ip req\<rparr> else cls2);
          withGrant = (\<lambda>c. case grant of None \<Rightarrow> c | Some g \<Rightarrow> c\<lparr>cls_accessGrant := Some g\<rparr>)
      in case user of
          None \<Rightarrow> (Inr (), withGrant cls3, st)
        | Some u \<Rightarrow>
            (let (r, pc, rows) = savePersonFromUserData (env_personCache env) (env_newId env) u
                   (as_personCache st) (db_persons (as_db st));
                 st' = st\<lparr>as_personCache := pc, as_db := (as_db st)\<lparr>db_persons := rows\<rparr>\<rparr>
             in case r of
                 Inl e \<Rightarrow> (Inl e, cls3\<lparr>cls_user := Some u\<rparr>, st')
               | Inr p \<Rightarrow> (Inr (), withGrant (cls3\<lparr>cls_user := Some u, cls_person := Some p\<rparr>), st')))"

definition check_intent :: "request \<Rightarrow> access_grant option \<Rightarrow> unit result" where
  "check_intent req grant =
     (case grant of
        None \<Rightarrow> Inr ()
      | Some g \<Rightarrow>
          if getAccessIntent req = user_intent then Inr ()
          else if ag_scope g \<noteq> SYSTEM
            then Inl (ForbiddenException (''The '' @ [CHR 0x27] @ intent_string (getAccessIntent req) @ [CHR 0x27]
                  @ '' access intent requires SYSTEM scope.''))
          else if getAccessIntent req = elevated \<and> \<not> header_present (hdr_client_id req)
            then Inl (BadRequestException ''The 'elevated' access intent requires the x-client-id header.'')
          else Inr ())"

definition auth_canActivate ::
    "('cg, 'cp) auth_env \<Rightarrow> endpoint \<Rightarrow> request \<Rightarrow> cls_store \<Rightarrow> ('cg, 'cp) auth_state
     \<Rightarrow> bool result \<times> cls_store \<times> ('cg, 'cp) auth_state" where
  "auth_canActivate env ep req cls st =
     (let proceed = (\<lambda>user grant st'.
            let (r, cls', st'') = setClsContextFromRequest env req user grant (allowPublic ep)
                   (skipAccessGrantValidation ep) cls st'
            in (bindr r (\<lambda>_. Inr True), cls', st''))
      in case validateJwtToken (env_verify env) (extractTokenFromRequest req) of
          Not_valid reason \<Rightarrow>
            if allowPublic ep then proceed None None st
            else (Inl (UnauthorizedException reason), cls, st)
        | Valid_user user \<Rightarrow>
            (let (r, gc) = getAccessGrantForUser (env_grantCache env) (env_systemAdminEmails env)
                   (as_db st) user (extractOrganizationContextFromRequest req) (as_grantCache st);
                 st1 = st\<lparr>as_grantCache := gc\<rparr>
             in case r of
                 Inl e \<Rightarrow> (Inl e, cls, st1)
               | Inr (Denied reason details) \<Rightarrow>
                   if \<not> allowPublic ep \<and> \<not> skipAccessGrantValidation ep
                   then (Inl (ForbiddenException (reason_code reason)), cls, st1)
                   else proceed (Some user) None st1
               | Inr (Grant g) \<Rightarrow>
                   (case check_intent req (Some g) of
                      Inl e \<Rightarrow> (Inl e, cls, st1)
                    | Inr _ \<Rightarrow> proceed (Some user) (Some g) st1)))"

subsection \<open>PoliciesGuard\<close>

fun execAllPolicyHandlers :: "('ctx \<Rightarrow> bool result) list \<Rightarrow> 'ctx \<Rightarrow> bool result" where
  "execAllPolicyHandlers [] ctx = Inr True"
| "execAllPolicyHandlers (h # hs) ctx =
     bindr (h ctx) (\<lambda>b. bindr (execAllPolicyHandlers hs ctx) (\<lambda>bs. Inr (b \<and> bs)))"

definition policies_canActivate :: "endpoint \<Rightarrow> request \<Rightarrow> cls_store \<Rightarrow> bool result" where
  "policies_canActivate ep req cls =
     (let (policyHandlers, publicPolicyHandlers) = getPolicyHandlers ep
      in if cls_isPublic cls then Inr True
         else if 0 < length publicPolicyHandlers then
           execAllPolicyHandlers publicPolicyHandlers
             \<lparr>ppc_request = req, ppc_user = cls_user cls, ppc_accessGrant = cls_accessGrant cls\<rparr>
         else case cls_user cls of
             None \<Rightarrow> Inr False
           | Some user \<Rightarrow>
               if length policyHandlers = 0 then Inr False
               else case cls_accessGrant cls of
                   None \<Rightarrow>
                     if cls_skipAccessGrantValidation cls then Inr True
                     else Inl (ForbiddenException ''Forbidden'')
                 | Some g \<Rightarrow>
                     execAllPolicyHandlers policyHandlers
                       \<lparr>pc_request = req, pc_user = user, pc_accessGrant = g\<rparr>)"

text \<open>
  The two guards in sequence on a fresh request-local store: \<open>Inr cls\<close> when the handler runs. A
  guard that returns \<open>false\<close> makes the framework answer with \<open>ForbiddenException\<close>.
\<close>

definition admit ::
    "('cg, 'cp) auth_env \<Rightarrow> endpoint \<Rightarrow> request \<Rightarrow> ('cg, 'cp) auth_state
     \<Rightarrow> cls_store result \<times> ('cg, 'cp) auth_state" where
  "admit env ep req st =
     (let (r, cls, st') = auth_canActivate env ep req cls_empty st
      in (bindr r (\<lambda>a. bindr (policies_canActivate ep req cls) (\<lambda>b.
            if a \<and> b then Inr cls else Inl (ForbiddenException ''Forbidden resource''))), st'))"

subsection \<open>The machine-to-machine controller's policy\<close>

text \<open>
  \<^verbatim>\<open>src/src/m2m/m2m.controller.ts\<close>: the handler passed to \<open>CheckPublicPolicies\<close> on the class, which
  requires an API key. The \<open>x-api-key\<close> header is read by \<open>apiKeyOf\<close>.
\<close>

definition m2m_policy :: "(request \<Rightarrow> header_value) \<Rightarrow> string list \<Rightarrow> public_policy" where
  "m2m_policy apiKeyOf m2mApiKeys ctx =
     (let apiKey = firstOf (apiKeyOf (ppc_request ctx))
      in if \<not> truthy apiKey then Inr False else Inr (List.member m2mApiKeys (the apiKey)))"

definition m2m_endpoint :: "(request \<Rightarrow> header_value) \<Rightarrow> string list \<Rightarrow> endpoint" where
  "m2m_endpoint apiKeyOf m2mApiKeys =
     \<lparr>ep_isPublic = None, ep_skipAccessGrantValidation = None, ep_policies = None,
      ep_publicPolicies = Some [m2m_policy apiKeyOf m2mApiKeys]\<rparr>"

subsection \<open>Lemmas\<close>

lemma execAllPolicyHandlers_True_iff:
  "execAllPolicyHandlers hs ctx = Inr True \<longleftrightarrow> (\<forall>h\<in>set hs. h ctx = Inr True)"
  by (induction hs) (auto simp: bindr_Inr_iff)

lemma setCls_fields:
  assumes "setClsContextFromRequest env req user grant isPublic skip cls st = (r, cls', st')"
    and "r = Inr ()" and "cls_accessGrant cls = None"
  shows "cls_isPublic cls' = isPublic" "cls_skipAccessGrantValidation cls' = skip"
    and "cls_accessGrant cls' = grant" "cls_accessIntent cls' = Some (getAccessIntent req)"
    and "cls_mode cls' = cls_mode cls"
    and "user \<noteq> None \<Longrightarrow> cls_user cls' = user"
    and "user = None \<Longrightarrow> cls_user cls' = cls_user cls"
    and "user \<noteq> None \<Longrightarrow> cls_person cls' \<noteq> None"
  using assms
  by (auto simp: setClsContextFromRequest_def Let_def split: option.splits if_splits sum.splits prod.splits)

lemma auth_canActivate_public_of_NotValid:
  assumes "validateJwtToken (env_verify env) (extractTokenFromRequest req) = Not_valid reason"
    and "allowPublic ep"
  shows "\<exists>cls'. auth_canActivate env ep req cls st = (Inr True, cls', st) \<and> cls_isPublic cls'"
  using assms by (auto simp: auth_canActivate_def setClsContextFromRequest_def Let_def)

text \<open>What a request that passes \<open>AuthGuard\<close> on a non-public route carries.\<close>

lemma auth_canActivate_private:
  assumes "auth_canActivate env ep req cls_empty st = (Inr a, cls, st')" and "\<not> allowPublic ep"
  shows "\<exists>user. validateJwtToken (env_verify env) (extractTokenFromRequest req) = Valid_user user
     \<and> cls_user cls = Some user \<and> \<not> cls_isPublic cls
     \<and> cls_skipAccessGrantValidation cls = skipAccessGrantValidation ep
     \<and> cls_accessIntent cls = Some (getAccessIntent req) \<and> cls_mode cls = None
     \<and> (cls_accessGrant cls = None \<longrightarrow> skipAccessGrantValidation ep)
     \<and> (\<forall>g. cls_accessGrant cls = Some g \<longrightarrow>
          fst (getAccessGrantForUser (env_grantCache env) (env_systemAdminEmails env) (as_db st) user
             (extractOrganizationContextFromRequest req) (as_grantCache st)) = Inr (Grant g)
          \<and> check_intent req (Some g) = Inr ())"
proof (cases "validateJwtToken (env_verify env) (extractTokenFromRequest req)")
  case (Not_valid reason)
  with assms show ?thesis by (simp add: auth_canActivate_def Let_def)
next
  case (Valid_user user)
  obtain r gc where g: "getAccessGrantForUser (env_grantCache env) (env_systemAdminEmails env) (as_db st) user
             (extractOrganizationContextFromRequest req) (as_grantCache st) = (r, gc)"
    by fastforce
  let ?set = "\<lambda>grant. setClsContextFromRequest env req (Some user) grant (allowPublic ep)
      (skipAccessGrantValidation ep) cls_empty (st\<lparr>as_grantCache := gc\<rparr>)"
  have empty: "cls_accessGrant cls_empty = None" "cls_mode cls_empty = None" by (simp_all add: cls_empty_def)
  from assms Valid_user g consider
    (denied) reason d where "r = Inr (Denied reason d)" "skipAccessGrantValidation ep"
      "\<exists>st''. ?set None = (Inr (), cls, st'')"
  | (granted) gr where "r = Inr (Grant gr)" "check_intent req (Some gr) = Inr ()"
      "\<exists>st''. ?set (Some gr) = (Inr (), cls, st'')"
    by (auto simp: auth_canActivate_def Let_def bindr_Inr_iff
        split: sum.splits access_grant_result.splits if_splits prod.splits)
  then show ?thesis
  proof cases
    case denied
    then obtain st'' where s: "?set None = (Inr (), cls, st'')" by blast
    from setCls_fields [OF s refl empty(1)] denied assms(2) Valid_user show ?thesis
      by (auto simp: empty(2))
  next
    case granted
    then obtain st'' where s: "?set (Some gr) = (Inr (), cls, st'')" by blast
    from setCls_fields [OF s refl empty(1)] granted assms(2) Valid_user g show ?thesis
      by (auto simp: empty(2))
  qed
qed

lemma admit_InrE:
  assumes "fst (admit env ep req st) = Inr cls"
  obtains st' where "auth_canActivate env ep req cls_empty st = (Inr True, cls, st')"
    and "policies_canActivate ep req cls = Inr True"
proof -
  obtain r c st' where a: "auth_canActivate env ep req cls_empty st = (r, c, st')"
    by (metis prod_cases3)
  with assms have "r = Inr True \<and> c = cls \<and> policies_canActivate ep req cls = Inr True"
    by (auto simp: admit_def bindr_Inr_iff split: if_splits)
  with a that show thesis by blast
qed

subsection \<open>Properties\<close>


text \<open>Data for the witnesses: a route with one capability policy and Ann's request.\<close>

definition ex_request :: request where
  "ex_request = \<lparr>hdr_authorization = Some ''Bearer tok'', hdr_access_intent = Absent, hdr_view_context = Absent,
     hdr_client_id = Absent, hdr_site_id = Absent, hdr_user_agent = None, req_ip = None\<rparr>"

definition ex_payload :: token_payload where
  "ex_payload = \<lparr>tp_sub = Some ''idp-p1'', tp_email = Some ''ann@x.io'', tp_preferred_username = Some ''ann'',
     tp_name = None, tp_given_name = None, tp_family_name = None, tp_picture = None, tp_phoneNumber = None\<rparr>"

definition ex_auth_env :: "(string \<rightharpoonup> access_grant_result, string \<rightharpoonup> person_row) auth_env" where
  "ex_auth_env = \<lparr>env_verify = (\<lambda>t. if t = ''tok'' then Verified ex_payload else Invalid_token),
     env_systemAdminEmails = [], env_isIPv4 = (\<lambda>_. False), env_isIPv6 = (\<lambda>_. False), env_newId = ''new'',
     env_grantCache = mem_ops, env_personCache = mem_ops\<rparr>"

definition ex_auth_state :: "(string \<rightharpoonup> access_grant_result, string \<rightharpoonup> person_row) auth_state" where
  "ex_auth_state = \<lparr>as_db = ex_auth_db, as_grantCache = Map.empty, as_personCache = Map.empty\<rparr>"

definition ex_endpoint :: endpoint where
  "ex_endpoint = \<lparr>ep_isPublic = None, ep_skipAccessGrantValidation = None,
     ep_policies = Some [CheckCapability ''view-assets''], ep_publicPolicies = None\<rparr>"

lemma ex_request_user:
  "validateJwtToken (env_verify ex_auth_env) (extractTokenFromRequest ex_request) = Valid_user (ex_user ''idp-p1'')"
  by (simp add: validateJwtToken_def extractTokenFromRequest_def ex_request_def ex_auth_env_def ex_payload_def
      buildUserFromToken_def ex_user_def)

lemma ex_request_context:
  "extractOrganizationContextFromRequest ex_request = no_context\<lparr>accessIntent := Some user_intent\<rparr>"
  "getAccessIntent ex_request = user_intent"
  by (simp_all add: extractOrganizationContextFromRequest_def getAccessIntent_def ex_request_def no_context_def)

lemma ex_auth_env_simps:
  "env_grantCache ex_auth_env = mem_ops" "env_personCache ex_auth_env = mem_ops"
  "env_systemAdminEmails ex_auth_env = []" "env_newId ex_auth_env = ''new''" "req_ip ex_request = None"
  "as_db ex_auth_state = ex_auth_db" "as_grantCache ex_auth_state = Map.empty" "as_personCache ex_auth_state = Map.empty"
  by (simp_all add: ex_auth_env_def ex_auth_state_def ex_request_def)

lemma ex_admitted: "\<exists>cls. fst (admit ex_auth_env ex_endpoint ex_request ex_auth_state) = Inr cls"
proof -
  let ?ctx = "no_context\<lparr>accessIntent := Some user_intent\<rparr>"
  have grant: "fst (getAccessGrantForUser mem_ops [] ex_auth_db (ex_user ''idp-p1'') ?ctx Map.empty) = Inr (Grant ex_ann_grant)"
    unfolding getAccessGrantForUser_def getOrSet_def ex_ann_lookup_intent by (simp add: mem_ops_def)
  have person: "\<exists>p c rows. savePersonFromUserData mem_ops ''new'' (ex_user ''idp-p1'') Map.empty (db_persons ex_auth_db)
      = (Inr p, c, rows)"
    by (simp add: savePersonFromUserData_def getOrSet_def mem_ops_def upsert_person_def find_by_def ex_auth_db_def
        ex_db_def ex_person_def ex_user_def person_outdated_def apply_person_input_def)
  have route: "\<not> allowPublic ex_endpoint" "\<not> skipAccessGrantValidation ex_endpoint"
    "getPolicyHandlers ex_endpoint = ([CheckCapability ''view-assets''], [])"
    by (simp_all add: allowPublic_def getPolicyHandlers_def ex_endpoint_def skipAccessGrantValidation_def)
  have pol: "CheckCapability ''view-assets'' \<lparr>pc_request = ex_request, pc_user = u, pc_accessGrant = ex_ann_grant\<rparr> = Inr True" for u
    by (simp add: CheckCapability_def hasCapability_def ex_ann_grant_def)
  obtain gc where "getAccessGrantForUser mem_ops [] ex_auth_db (ex_user ''idp-p1'') ?ctx Map.empty = (Inr (Grant ex_ann_grant), gc)"
    using grant by (metis prod.collapse)
  with person show ?thesis
    by (auto simp: admit_def auth_canActivate_def ex_request_user ex_request_context ex_auth_env_simps route
        setClsContextFromRequest_def check_intent_def policies_canActivate_def pol Let_def)
qed


text \<open>
  The public policies of a route are never evaluated. A request with no valid token reaches the
  handler of any route that has public policies, whatever the policies would answer; in particular
  the machine-to-machine routes do so without an API key.
\<close>

theorem public_policies_never_evaluated:
  assumes "validateJwtToken (env_verify env) (extractTokenFromRequest req) = Not_valid reason"
    and "nullish_or (ep_publicPolicies ep) [] \<noteq> []"
  shows "is_ok (fst (admit env ep req st)) \<and> is_ok (fst (admit env (m2m_endpoint apiKeyOf keys) req st))"
proof -
  have adm: "is_ok (fst (admit env e req st))" if "nullish_or (ep_publicPolicies e) [] \<noteq> []" for e
  proof -
    from that have "allowPublic e" by (simp add: allowPublic_def getPolicyHandlers_def)
    from auth_canActivate_public_of_NotValid [OF assms(1) this, where cls = cls_empty and st = st]
    show ?thesis by (auto simp: admit_def policies_canActivate_def case_prod_unfold Let_def)
  qed
  from adm [OF assms(2)] adm [of "m2m_endpoint apiKeyOf keys"] show ?thesis by (simp add: m2m_endpoint_def)
qed

theorem public_policies_never_evaluated_witness:
  "is_ok (fst (admit ex_auth_env (m2m_endpoint (\<lambda>_. Absent) [''key'']) (ex_request\<lparr>hdr_authorization := None\<rparr>) ex_auth_state))"
proof -
  have "validateJwtToken (env_verify ex_auth_env) (extractTokenFromRequest (ex_request\<lparr>hdr_authorization := None\<rparr>))
      = Not_valid ''Authentication token is required.''"
    by (simp add: validateJwtToken_def extractTokenFromRequest_def ex_request_def)
  from public_policies_never_evaluated [OF this, of "m2m_endpoint (\<lambda>_. Absent) [''key'']" ex_auth_state]
  show ?thesis by (simp add: m2m_endpoint_def)
qed

end
