(* ===== verification/Invitations.thy ===== *)
theory Invitations
  imports Rls Sample_Data
begin

section \<open>Invitations\<close>

text \<open>
  \<^verbatim>\<open>src/src/clients/invitations/invitations.service.ts\<close> and its request schema. The state is the
  tenant tables and the queue of outgoing e-mails. A method takes the session its \<open>prisma.build()\<close>
  yields (\<open>Rls.rls_build\<close> gives it), the clock, and the supplies of random identifiers
  (\<open>nanoid\<close>, database ids) as functions of the position of the call. Whether the mail queue
  accepts a job is a parameter. Expiry dates add calendar days in the server's time zone, the
  parameter \<open>addDays\<close>.
\<close>

subsection \<open>The request schema\<close>

record invite_entry =
  ie_email :: string
  ie_siteId :: id
  ie_roleId :: id

datatype raw_entry = Flat string id id | Nested string "(id \<times> id) list"

fun flatten_entry :: "raw_entry \<Rightarrow> invite_entry list" where
  "flatten_entry (Flat email s r) =
     [\<lparr>ie_email = toLowerCase email, ie_siteId = s, ie_roleId = r\<rparr>]"
| "flatten_entry (Nested email assignments) =
     map (\<lambda>(s, r). \<lparr>ie_email = toLowerCase email, ie_siteId = s, ie_roleId = r\<rparr>) assignments"

definition entry_key :: "char \<Rightarrow> string \<Rightarrow> id \<Rightarrow> id \<Rightarrow> string" where
  "entry_key c email s r = email @ [c] @ s @ [c] @ r"

definition parse_invitations :: "raw_entry list \<Rightarrow> invite_entry list result" where
  "parse_invitations raw =
     (if raw = [] \<or> 100 < length raw
         \<or> list_ex (\<lambda>e. case e of Flat _ _ _ \<Rightarrow> False
              | Nested _ as \<Rightarrow> as = [] \<or> 100 < length as) raw
      then Inl (BadRequestException ''Validation failed'')
      else
        (let flat = concat (map flatten_entry raw);
             keys = map (\<lambda>i. entry_key (CHR '':'') (ie_email i) (ie_siteId i) (ie_roleId i)) flat
         in if length (unique keys) \<noteq> length keys
            then Inl (BadRequestException ''Duplicate invitation entries are not allowed'')
            else if 500 < length flat
            then Inl (BadRequestException ''Too many invitations (max 500 after flattening assignments)'')
            else Inr flat))"

subsection \<open>Invitation e-mails\<close>

record invitation_full =
  if_row :: invitation_row
  if_clientName :: string
  if_inviterFirstName :: string
  if_inviterLastName :: string
  if_roleName :: string
  if_roleScope :: role_scope
  if_siteName :: string

definition include_relations :: "tenant_db \<Rightarrow> invitation_row \<Rightarrow> invitation_full option" where
  \<comment> \<open>the row with \<open>invitationInclude\<close>\<close>
  "include_relations db iv =
     (case (find_by cl_id (in_clientId iv) (db_clients db), find_by pe_id (in_createdById iv) (db_persons db),
            find_by ro_id (in_roleId iv) (db_roles db), find_by st_id (in_siteId iv) (db_sites db)) of
        (Some c, Some p, Some r, Some s) \<Rightarrow>
          Some \<lparr>if_row = iv, if_clientName = cl_name c, if_inviterFirstName = pe_firstName p,
                if_inviterLastName = pe_lastName p, if_roleName = ro_name r, if_roleScope = ro_scope r,
                if_siteName = st_name s\<rparr>
      | _ \<Rightarrow> None)"

definition isClientOrGreater :: "role_scope \<Rightarrow> bool" where
  "isClientOrGreater s = (s = CLIENT \<or> s = GLOBAL \<or> s = SYSTEM)"

type_synonym assignment = "string option \<times> string"

definition assignment_of :: "invitation_full \<Rightarrow> assignment" where
  "assignment_of i =
     (if isClientOrGreater (if_roleScope i) then None else Some (if_siteName i), if_roleName i)"

datatype email_body = One_assignment assignment | Assignments "assignment list"

record invitation_email =
  em_to :: "string list"
  em_clientName :: string
  em_inviterFirstName :: string
  em_inviterLastName :: string
  em_inviteeEmail :: string
  em_inviteUrl :: string
  em_expiresOn :: time
  em_body :: email_body

definition getInviteUrl :: "string \<Rightarrow> string \<Rightarrow> string" where
  "getInviteUrl frontendUrl code = frontendUrl @ ''/accept-invite/'' @ code"

definition buildInvitationEmailBase :: "string \<Rightarrow> invitation_full \<Rightarrow> email_body \<Rightarrow> invitation_email" where
  "buildInvitationEmailBase frontendUrl i body =
     \<lparr>em_to = [in_email (if_row i)], em_clientName = if_clientName i,
      em_inviterFirstName = if_inviterFirstName i, em_inviterLastName = if_inviterLastName i,
      em_inviteeEmail = in_email (if_row i), em_inviteUrl = getInviteUrl frontendUrl (in_code (if_row i)),
      em_expiresOn = in_expiresOn (if_row i), em_body = body\<rparr>"

definition buildInvitationEmailData :: "string \<Rightarrow> invitation_full \<Rightarrow> invitation_email" where
  "buildInvitationEmailData frontendUrl i =
     buildInvitationEmailBase frontendUrl i (One_assignment (assignment_of i))"

definition buildGroupedInvitationEmailData :: "string \<Rightarrow> invitation_full list \<Rightarrow> invitation_email result" where
  "buildGroupedInvitationEmailData frontendUrl is =
     (case is of
        [] \<Rightarrow> Inl (ServerError ''buildGroupedInvitationEmailData requires at least one invitation'')
      | i # _ \<Rightarrow> Inr (buildInvitationEmailBase frontendUrl i (Assignments (map assignment_of is))))"

fun split_groups ::
    "invitation_full list \<Rightarrow> (id, invitation_full list) jmap \<times> invitation_full list
     \<Rightarrow> (id, invitation_full list) jmap \<times> invitation_full list" where
  "split_groups [] acc = acc"
| "split_groups (i # is) (grouped, ungrouped) =
     (if truthy (in_groupId (if_row i))
      then split_groups is (jmap_push grouped (the (in_groupId (if_row i))) i, ungrouped)
      else split_groups is (grouped, ungrouped @ [i]))"

fun collect :: "'a result list \<Rightarrow> 'a list result" where
  "collect [] = Inr []"
| "collect (x # xs) = bindr x (\<lambda>a. bindr (collect xs) (\<lambda>as. Inr (a # as)))"

definition buildInvitationEmails :: "string \<Rightarrow> invitation_full list \<Rightarrow> invitation_email list result" where
  "buildInvitationEmails frontendUrl is =
     (let (grouped, ungrouped) = split_groups is ([], [])
      in bindr (collect (map (\<lambda>(_, g). buildGroupedInvitationEmailData frontendUrl g) grouped)) (\<lambda>ges.
           Inr (map (buildInvitationEmailData frontendUrl) ungrouped @ ges)))"

subsection \<open>Creating\<close>

record inv_state =
  is_db :: tenant_db
  is_outbox :: "invitation_email list"

definition set_invitations :: "inv_state \<Rightarrow> invitation_row list \<Rightarrow> inv_state" where
  "set_invitations st rows = st\<lparr>is_db := (is_db st)\<lparr>db_invitations := rows\<rparr>\<rparr>"

record invite_env =
  ve_frontendUrl :: string
  ve_now :: time
  ve_addDays :: "time \<Rightarrow> int \<Rightarrow> time"
  ve_nanoid :: "nat \<Rightarrow> string"
  ve_newId :: "nat \<Rightarrow> id"
  ve_queueOk :: bool

record create_dto =
  cd_clientId :: "id option"
  cd_expiresInDays :: "int option"
  cd_invitations :: "invite_entry list"

definition check_site :: "site_row list \<Rightarrow> id \<Rightarrow> id \<Rightarrow> unit result" where
  "check_site sites targetClientId siteId =
     (case find_by st_id siteId sites of
        None \<Rightarrow> Inl (NotFoundException (''Site with ID '' @ siteId @ '' not found''))
      | Some site \<Rightarrow>
          if st_clientId site \<noteq> targetClientId
          then Inl (BadRequestException (''Site '' @ siteId @ '' does not belong to client '' @ targetClientId))
          else Inr ())"

definition check_role :: "role_row list \<Rightarrow> id \<Rightarrow> unit result" where
  "check_role roles roleId =
     (case find_by ro_id roleId roles of
        None \<Rightarrow> Inl (NotFoundException (''Role with ID '' @ roleId @ '' not found''))
      | Some _ \<Rightarrow> Inr ())"

definition pending_conflicts :: "invitation_row list \<Rightarrow> id \<Rightarrow> invite_entry list \<Rightarrow> invite_entry list" where
  "pending_conflicts rows targetClientId entries =
     (let existing = filter (\<lambda>e. in_clientId e = targetClientId \<and> in_status e = PENDING
            \<and> in_email e \<in> ie_email ` set entries \<and> in_siteId e \<in> ie_siteId ` set entries
            \<and> in_roleId e \<in> ie_roleId ` set entries) rows;
          keys = map (\<lambda>e. entry_key (CHR ''|'') (in_email e) (in_siteId e) (in_roleId e)) existing
      in filter (\<lambda>i. entry_key (CHR ''|'') (ie_email i) (ie_siteId i) (ie_roleId i) \<in> set keys) entries)"

definition group_key :: "id \<Rightarrow> string \<Rightarrow> string" where
  "group_key targetClientId email = email @ ''|'' @ targetClientId"

text \<open>Group identifiers, drawn in the order of first occurrence for the keys that occur twice or more.\<close>

definition group_ids :: "(nat \<Rightarrow> string) \<Rightarrow> id \<Rightarrow> invite_entry list \<Rightarrow> (string, string) jmap" where
  "group_ids nanoid targetClientId entries =
     (let counts = group_by (\<lambda>i. group_key targetClientId (ie_email i)) entries;
          shared = map fst (filter (\<lambda>(_, g). 1 < length g) counts)
      in zip shared (map nanoid [0 ..< length shared]))"

definition create_rows :: "invite_env \<Rightarrow> id \<Rightarrow> id \<Rightarrow> time \<Rightarrow> invite_entry list \<Rightarrow> invitation_row list" where
  "create_rows env personId targetClientId expiresOn entries =
     (let gids = group_ids (ve_nanoid env) targetClientId entries
      in map (\<lambda>(j, i).
           \<lparr>in_id = ve_newId env j, in_code = ve_nanoid env (length gids + j),
            in_clientId = targetClientId, in_createdById = personId, in_email = ie_email i,
            in_roleId = ie_roleId i, in_siteId = ie_siteId i,
            in_groupId = map_of gids (group_key targetClientId (ie_email i)), in_status = PENDING,
            in_expiresOn = expiresOn, in_acceptedById = None, in_acceptedOn = None,
            in_createdOn = ve_now env\<rparr>) (enumerate 0 entries))"

text \<open>
  \<open>createManyAndReturn\<close> fails as a whole when an identifier or a code is taken (the unique columns
  of the table).
\<close>

definition insert_invitations :: "invitation_row list \<Rightarrow> invitation_row list \<Rightarrow> invitation_row list result" where
  "insert_invitations rows new =
     (if distinct (map in_id (rows @ new)) \<and> distinct (map in_code (rows @ new))
      then Inr (rows @ new) else Inl (ConflictException ''P2002''))"

definition target_client :: "create_dto \<Rightarrow> access_grant \<Rightarrow> id" where
  "target_client dto grant =
     (if truthy (cd_clientId dto) then the (cd_clientId dto) else ag_clientId grant)"

definition bulk_sites :: "rls_session \<Rightarrow> create_dto \<Rightarrow> tenant_db \<Rightarrow> site_row list" where
  "bulk_sites sess dto db =
     filter (\<lambda>s. site_visible sess s \<and> st_id s \<in> set (unique (map ie_siteId (cd_invitations dto))))
       (db_sites db)"

definition bulk_roles :: "access_grant \<Rightarrow> create_dto \<Rightarrow> tenant_db \<Rightarrow> role_row list" where
  "bulk_roles grant dto db =
     filter (\<lambda>r. ro_id r \<in> set (unique (map ie_roleId (cd_invitations dto)))
        \<and> (scopeAllows grant SYSTEM \<or> ro_clientAssignable r)) (db_roles db)"

definition insert_bulk ::
    "invite_env \<Rightarrow> cls_store \<Rightarrow> rls_session result \<Rightarrow> create_dto \<Rightarrow> tenant_db
     \<Rightarrow> (invitation_row list \<times> invitation_row list) result" where
  \<comment> \<open>everything up to and including the insertion: the new rows and the table with them\<close>
  "insert_bulk env cls session dto db =
     bindr (requirePerson cls) (\<lambda>person.
     bindr (requireAccessGrant cls) (\<lambda>grant.
     bindr session (\<lambda>sess.
       let target = target_client dto grant; entries = cd_invitations dto
       in bindr (for_all_ok (check_site (bulk_sites sess dto db) target) (unique (map ie_siteId entries))) (\<lambda>_.
          bindr (for_all_ok (check_role (bulk_roles grant dto db)) (unique (map ie_roleId entries))) (\<lambda>_.
            if pending_conflicts (db_invitations db) target entries \<noteq> []
            then Inl (ConflictException ''INVITATION_ALREADY_PENDING'')
            else
              let expiresOn = ve_addDays env (ve_now env) (nullish_or (cd_expiresInDays dto) 7);
                  new = create_rows env (pe_id person) target expiresOn entries
              in bindr (insert_invitations (db_invitations db) new) (\<lambda>rows. Inr (new, rows)))))))"

definition createBulk ::
    "invite_env \<Rightarrow> cls_store \<Rightarrow> rls_session result \<Rightarrow> create_dto \<Rightarrow> inv_state
     \<Rightarrow> invitation_row list result \<times> inv_state" where
  "createBulk env cls session dto st =
     (case insert_bulk env cls session dto (is_db st) of
        Inl e \<Rightarrow> (Inl e, st)
      | Inr (new, rows) \<Rightarrow>
          (let st1 = set_invitations st rows;
               returned = order_asc in_createdOn (filter (\<lambda>r. in_id r \<in> in_id ` set new) rows)
           in case buildInvitationEmails (ve_frontendUrl env)
                     (List.map_filter (include_relations (is_db st1)) returned) of
               Inl e \<Rightarrow> (Inl e, st1)
             | Inr jobs \<Rightarrow>
                 (Inr returned,
                  if ve_queueOk env then st1\<lparr>is_outbox := is_outbox st1 @ jobs\<rparr> else st1)))"

subsection \<open>Resending and reading\<close>

definition visible_invitation :: "rls_session result \<Rightarrow> tenant_db \<Rightarrow> id \<Rightarrow> invitation_row result" where
  \<comment> \<open>\<open>findUniqueOrThrow\<close> under row-level security with \<open>as404OrThrow\<close>\<close>
  "visible_invitation session db i =
     bindr session (\<lambda>sess.
       case find_by in_id i (filter (invitation_visible sess) (db_invitations db)) of
         None \<Rightarrow> Inl (NotFoundException ''Not Found'')
       | Some iv \<Rightarrow> Inr iv)"

definition findOne :: "invite_env \<Rightarrow> rls_session result \<Rightarrow> id \<Rightarrow> tenant_db \<Rightarrow> (invitation_row \<times> string) result" where
  "findOne env session i db =
     bindr (visible_invitation session db i) (\<lambda>iv.
       Inr (iv, getInviteUrl (ve_frontendUrl env) (in_code iv)))"

definition pending_siblings :: "invitation_row list \<Rightarrow> id \<Rightarrow> invitation_row list" where
  "pending_siblings rows groupId =
     order_asc in_createdOn
       (filter (\<lambda>r. in_groupId r = Some groupId \<and> in_status r = PENDING) rows)"

fun status_string :: "invitation_status \<Rightarrow> string" where
  "status_string PENDING = ''PENDING''"
| "status_string ACCEPTED = ''ACCEPTED''"
| "status_string EXPIRED = ''EXPIRED''"
| "status_string REVOKED = ''REVOKED''"

definition resend ::
    "invite_env \<Rightarrow> rls_session result \<Rightarrow> id \<Rightarrow> inv_state \<Rightarrow> invitation_row result \<times> inv_state" where
  "resend env session i st =
     (let db = is_db st;
          job = bindr (visible_invitation session db i) (\<lambda>iv.
            if in_status iv \<noteq> PENDING
            then Inl (BadRequestException
                (''Cannot resend invitation with status '' @ status_string (in_status iv)))
            else if in_expiresOn iv < ve_now env then Inl (GoneException ''INVITATION_EXPIRED'')
            else
              let full = List.map_filter (include_relations db);
                  alone = (case include_relations db iv of
                      None \<Rightarrow> Inl (ServerError ''missing relation'')
                    | Some f \<Rightarrow> Inr (buildInvitationEmailData (ve_frontendUrl env) f));
                  email =
                    (if truthy (in_groupId iv) then
                       (case full (filter (\<lambda>r. ve_now env < in_expiresOn r)
                                (pending_siblings (db_invitations db) (the (in_groupId iv)))) of
                          [] \<Rightarrow> alone
                        | s # ss \<Rightarrow> buildGroupedInvitationEmailData (ve_frontendUrl env) (s # ss))
                     else alone)
              in bindr email (\<lambda>e. Inr (iv, e)))
      in case job of
          Inl e \<Rightarrow> (Inl e, st)
        | Inr (iv, e) \<Rightarrow>
            if ve_queueOk env then (Inr iv, st\<lparr>is_outbox := is_outbox st @ [e]\<rparr>)
            else (Inl (ServerError ''queue''), st))"

record code_info =
  ci_clientId :: id
  ci_clientName :: "string option"
  ci_expiresOn :: time
  ci_email :: string
  ci_assignments :: "assignment list"

definition validateCode :: "time \<Rightarrow> string \<Rightarrow> tenant_db \<Rightarrow> code_info result" where
  "validateCode now code db =
     (case find_by in_code code (db_invitations db) of
        None \<Rightarrow> Inl (GoneException ''INVITATION_INVALID'')
      | Some iv \<Rightarrow>
          if in_status iv \<noteq> PENDING then Inl (GoneException ''INVITATION_INVALID'')
          else if in_expiresOn iv < now then Inl (GoneException ''INVITATION_INVALID'')
          else
            let full = List.map_filter (include_relations db);
                assignments =
                  (if truthy (in_groupId iv)
                   then full (filter (\<lambda>r. now < in_expiresOn r)
                          (pending_siblings (db_invitations db) (the (in_groupId iv))))
                   else []);
                shown = (if 0 < length assignments then assignments else full [iv])
            in Inr \<lparr>ci_clientId = in_clientId iv,
                    ci_clientName = map_option cl_name (find_by cl_id (in_clientId iv) (db_clients db)),
                    ci_expiresOn = in_expiresOn iv,
                    ci_email = in_email iv, ci_assignments = map assignment_of shown\<rparr>)"

subsection \<open>Accepting\<close>

definition access_of :: "time \<Rightarrow> id \<Rightarrow> id \<Rightarrow> invitation_row \<Rightarrow> bool \<Rightarrow> access_row" where
  "access_of now newId personId iv primary =
     \<lparr>pca_id = newId, pca_createdOn = now, pca_isPrimary = primary, pca_personId = personId,
      pca_clientId = in_clientId iv, pca_siteId = in_siteId iv, pca_roleId = in_roleId iv\<rparr>"

definition primary_for :: "access_row option \<Rightarrow> int \<Rightarrow> int \<Rightarrow> invitation_row \<Rightarrow> bool" where
  "primary_for existing clickedIndex i iv =
     (i = clickedIndex
      \<and> (case existing of
           None \<Rightarrow> True
         | Some e \<Rightarrow> pca_clientId e = in_clientId iv \<and> pca_siteId e = in_siteId iv))"

definition upserted :: "(access_row \<Rightarrow> access_row) \<Rightarrow> access_row \<Rightarrow> access_row list \<Rightarrow> access_row" where
  \<comment> \<open>the row an \<open>upsert\<close> returns\<close>
  "upserted update create rows =
     (case find_by access_key (access_key create) rows of None \<Rightarrow> create | Some a \<Rightarrow> update a)"

fun upsert_all ::
    "invite_env \<Rightarrow> id \<Rightarrow> access_row option \<Rightarrow> int \<Rightarrow> int \<Rightarrow> invitation_row list \<Rightarrow> access_row list
     \<Rightarrow> access_row list \<times> access_row list" where
  "upsert_all env personId existing clickedIndex i [] rows = ([], rows)"
| "upsert_all env personId existing clickedIndex i (iv # ivs) rows =
     (let primary = primary_for existing clickedIndex i iv;
          update = (\<lambda>a. a\<lparr>pca_isPrimary := primary\<rparr>);
          create = access_of (ve_now env) (ve_newId env (nat i)) personId iv primary;
          (records, rows') = upsert_all env personId existing clickedIndex (i + 1) ivs
            (upsert_access update create rows)
      in (upserted update create rows # records, rows'))"

definition mark_accepted :: "time \<Rightarrow> id \<Rightarrow> id list \<Rightarrow> invitation_row list \<Rightarrow> invitation_row list" where
  "mark_accepted now personId ids rows =
     map (\<lambda>r. if in_id r \<in> set ids
              then r\<lparr>in_status := ACCEPTED, in_acceptedById := Some personId, in_acceptedOn := Some now\<rparr>
              else r) rows"

definition check_acceptable :: "time \<Rightarrow> person_row \<Rightarrow> string \<Rightarrow> tenant_db \<Rightarrow> invitation_row result" where
  "check_acceptable now person code db =
     (case find_by in_code code (db_invitations db) of
        None \<Rightarrow> Inl (NotFoundException ''Invitation not found'')
      | Some iv \<Rightarrow>
          if in_status iv = REVOKED \<or> in_status iv = EXPIRED
          then Inl (GoneException ''INVITATION_EXPIRED'')
          else if in_status iv = ACCEPTED then Inl (GoneException ''INVITATION_ALREADY_ACCEPTED'')
          else if in_expiresOn iv < now then Inl (GoneException ''INVITATION_EXPIRED'')
          else if toLowerCase (pe_email person) \<noteq> toLowerCase (in_email iv)
          then Inl (ForbiddenException
              (''This invitation is restricted to a different email address. You are signed in with ''
               @ pe_email person))
          else Inr iv)"

definition invitations_to_accept :: "invitation_row list \<Rightarrow> invitation_row \<Rightarrow> invitation_row list" where
  "invitations_to_accept rows iv =
     (if truthy (in_groupId iv) then pending_siblings rows (the (in_groupId iv)) else [iv])"

definition accept_db :: "invite_env \<Rightarrow> person_row \<Rightarrow> string \<Rightarrow> tenant_db \<Rightarrow> (access_row list \<times> tenant_db) result" where
  \<comment> \<open>the transaction\<close>
  "accept_db env person code db =
     bindr (check_acceptable (ve_now env) person code db) (\<lambda>iv.
       let toAccept = invitations_to_accept (db_invitations db) iv;
           existing = List.find (\<lambda>a. pca_personId a = pe_id person \<and> pca_isPrimary a) (db_accesses db);
           clickedIndex = max 0 (findIndex (\<lambda>i. in_code i = code) toAccept);
           (records, accesses) =
             upsert_all env (pe_id person) existing clickedIndex 0 toAccept (db_accesses db)
       in Inr (records, db\<lparr>db_accesses := accesses,
            db_invitations := mark_accepted (ve_now env) (pe_id person) (map in_id toAccept)
              (db_invitations db)\<rparr>))"

definition invitations_accept ::
    "('c, access_grant_result) cache_ops \<Rightarrow> invite_env \<Rightarrow> cls_store \<Rightarrow> string \<Rightarrow> 'c \<Rightarrow> inv_state
     \<Rightarrow> access_row list result \<times> 'c \<times> inv_state" where
  "invitations_accept ops env cls code c st =
     (case bindr (requireUser cls) (\<lambda>user. bindr (requirePerson cls) (\<lambda>person.
             bindr (accept_db env person code (is_db st)) (\<lambda>r. Inr (user, r)))) of
        Inl e \<Rightarrow> (Inl e, c, st)
      | Inr (user, records, db') \<Rightarrow>
          (Inr records,
           foldl (\<lambda>c' a. clearAccessGrantResponseCache (u_idpId user) (pca_clientId a)
               (Some (pca_siteId a)) None (cache_mdel ops c')) c records,
           st\<lparr>is_db := db'\<rparr>))"

subsection \<open>Revoking, renewing, expiring\<close>

definition revoke ::
    "rls_session result \<Rightarrow> id \<Rightarrow> inv_state \<Rightarrow> (id option \<times> id list) result \<times> inv_state" where
  "revoke session i st =
     (let rows = db_invitations (is_db st)
      in case bindr session (\<lambda>sess. bindr (visible_invitation session (is_db st) i) (\<lambda>iv. Inr (sess, iv))) of
          Inl e \<Rightarrow> (Inl e, st)
        | Inr (sess, iv) \<Rightarrow>
            if in_status iv = ACCEPTED
            then (Inl (BadRequestException ''This invitation is already accepted and cannot be revoked.''), st)
            else if truthy (in_groupId iv) then
              (let hit = (\<lambda>r. invitation_visible sess r \<and> in_groupId r = in_groupId iv \<and> in_status r = PENDING)
               in (Inr (in_groupId iv, map in_id (filter hit rows)),
                   set_invitations st (map (\<lambda>r. if hit r then r\<lparr>in_status := REVOKED\<rparr> else r) rows)))
            else (Inr (None, [i]),
                  set_invitations st (map (\<lambda>r. if in_id r = i then r\<lparr>in_status := REVOKED\<rparr> else r) rows)))"

definition renew ::
    "invite_env \<Rightarrow> cls_store \<Rightarrow> rls_session result \<Rightarrow> id \<Rightarrow> int option \<Rightarrow> inv_state
     \<Rightarrow> invitation_row list result \<times> inv_state" where
  "renew env cls session i expiresInDays st =
     (let rows = db_invitations (is_db st)
      in case visible_invitation session (is_db st) i of
          Inl e \<Rightarrow> (Inl e, st)
        | Inr original \<Rightarrow>
            if in_status original \<noteq> PENDING then
              (Inl (BadRequestException
                 (if in_status original = ACCEPTED
                  then ''This invitation has already been accepted and cannot be renewed.''
                  else ''This invitation has been revoked. Create a new invitation instead.'')), st)
            else
              (let toReplace = invitations_to_accept rows original
               in if toReplace = []
                  then (Inl (BadRequestException ''No renewable invitations found for this group.''), st)
                  else createBulk env cls session
                    \<lparr>cd_clientId = Some (in_clientId original), cd_expiresInDays = expiresInDays,
                     cd_invitations = map (\<lambda>r. \<lparr>ie_email = in_email r, ie_siteId = in_siteId r,
                       ie_roleId = in_roleId r\<rparr>) toReplace\<rparr>
                    (set_invitations st
                      (map (\<lambda>r. if in_id r \<in> in_id ` set toReplace then r\<lparr>in_status := REVOKED\<rparr> else r) rows))))"

definition expireStale :: "time \<Rightarrow> rls_session result \<Rightarrow> inv_state \<Rightarrow> nat result \<times> inv_state" where
  "expireStale now session st =
     (case session of
        Inl e \<Rightarrow> (Inl e, st)
      | Inr sess \<Rightarrow>
          (let rows = db_invitations (is_db st);
               hit = (\<lambda>r. invitation_visible sess r \<and> in_status r = PENDING \<and> in_expiresOn r < now)
           in (Inr (length (filter hit rows)),
               set_invitations st (map (\<lambda>r. if hit r then r\<lparr>in_status := REVOKED\<rparr> else r) rows))))"

subsection \<open>The access rows after an acceptance\<close>

lemma access_key_of [simp]:
  "access_key (access_of now n p iv b) = (p, in_clientId iv, in_siteId iv, in_roleId iv)"
  by (simp add: access_key_def access_of_def)

lemma snd_upsert_all_Cons:
  "snd (upsert_all env p e ci i (iv # ivs) rows) =
     snd (upsert_all env p e ci (i + 1) ivs
       (upsert_access (\<lambda>a. a\<lparr>pca_isPrimary := primary_for e ci i iv\<rparr>)
         (access_of (ve_now env) (ve_newId env (nat i)) p iv (primary_for e ci i iv)) rows))"
  by (simp add: Let_def split: prod.splits)

lemma upsert_all_keys:
  "access_key ` set (snd (upsert_all env p e ci i ivs rows)) =
     access_key ` set rows \<union> (\<lambda>iv. (p, in_clientId iv, in_siteId iv, in_roleId iv)) ` set ivs"
proof (induction ivs arbitrary: i rows)
  case Nil
  show ?case by simp
next
  case (Cons iv ivs)
  show ?case
    unfolding snd_upsert_all_Cons Cons.IH by (subst access_keys_upsert) auto
qed

lemma upsert_all_distinct:
  "distinct (map access_key rows) \<Longrightarrow>
   distinct (map access_key (snd (upsert_all env p e ci i ivs rows)))"
proof (induction ivs arbitrary: i rows)
  case Nil
  then show ?case by simp
next
  case (Cons iv ivs)
  show ?case
    unfolding snd_upsert_all_Cons
    by (rule Cons.IH, rule distinct_upsert_access [OF _ Cons.prems]) simp
qed

text \<open>Frame: rows of other people are untouched.\<close>

lemma upsert_access_other:
  assumes "pca_personId a \<noteq> p"
  shows "a \<in> set (upsert_access (\<lambda>a. a\<lparr>pca_isPrimary := b\<rparr>) (access_of now n p iv b) rows) \<longleftrightarrow> a \<in> set rows"
  using assms by (auto simp: mem_upsert_access access_key_def access_of_def)

lemma upsert_all_other:
  "pca_personId a \<noteq> p \<Longrightarrow> a \<in> set (snd (upsert_all env p e ci i ivs rows)) \<longleftrightarrow> a \<in> set rows"
proof (induction ivs arbitrary: i rows)
  case Nil
  then show ?case by simp
next
  case (Cons iv ivs)
  then show ?case unfolding snd_upsert_all_Cons by (simp add: upsert_access_other)
qed

lemma upsert_access_primaries:
  assumes "primaries_at p cs rows" and "b \<Longrightarrow> (in_clientId iv, in_siteId iv) = cs"
  shows "primaries_at p cs (upsert_access (\<lambda>a. a\<lparr>pca_isPrimary := b\<rparr>) (access_of now n p iv b) rows)"
  unfolding primaries_at_def
proof (intro ballI impI, elim conjE)
  fix a
  let ?new = "access_of now n p iv b"
  assume mem: "a \<in> set (upsert_access (\<lambda>a. a\<lparr>pca_isPrimary := b\<rparr>) ?new rows)"
    and p: "pca_personId a = p" and prim: "pca_isPrimary a"
  from mem consider "a \<in> set rows" | "access_key a = access_key ?new" "pca_isPrimary a = b"
    unfolding mem_upsert_access by (auto simp: access_of_def split: if_splits)
  then show "(pca_clientId a, pca_siteId a) = cs"
  proof cases
    case 1
    with assms(1) p prim show ?thesis by (simp add: primaries_at_def)
  next
    case 2
    with assms(2) prim show ?thesis by (simp add: access_key_def access_of_def)
  qed
qed

lemma upsert_all_primaries:
  assumes "primaries_at p cs rows"
    and "\<And>j. j < length ivs \<Longrightarrow> primary_for e ci (i + int j) (ivs ! j) \<Longrightarrow>
           (in_clientId (ivs ! j), in_siteId (ivs ! j)) = cs"
  shows "primaries_at p cs (snd (upsert_all env p e ci i ivs rows))"
  using assms
proof (induction ivs arbitrary: i rows)
  case Nil
  then show ?case by simp
next
  case (Cons iv ivs)
  have "primaries_at p cs (upsert_access (\<lambda>a. a\<lparr>pca_isPrimary := primary_for e ci i iv\<rparr>)
      (access_of (ve_now env) (ve_newId env (nat i)) p iv (primary_for e ci i iv)) rows)"
    using Cons.prems(2) [of 0] by (intro upsert_access_primaries [OF Cons.prems(1)]) simp
  moreover have "(in_clientId (ivs ! j), in_siteId (ivs ! j)) = cs"
    if "j < length ivs" "primary_for e ci (i + 1 + int j) (ivs ! j)" for j
    using Cons.prems(2) [of "Suc j"] that by (simp add: algebra_simps)
  ultimately show ?case unfolding snd_upsert_all_Cons by (rule Cons.IH)
qed

lemma accept_dbE:
  assumes "accept_db env person code db = Inr (records, db')"
  obtains iv where "check_acceptable (ve_now env) person code db = Inr iv"
    and "records = fst (upsert_all env (pe_id person)
        (List.find (\<lambda>a. pca_personId a = pe_id person \<and> pca_isPrimary a) (db_accesses db))
        (max 0 (findIndex (\<lambda>i. in_code i = code) (invitations_to_accept (db_invitations db) iv))) 0
        (invitations_to_accept (db_invitations db) iv) (db_accesses db))"
    and "db_accesses db' = snd (upsert_all env (pe_id person)
        (List.find (\<lambda>a. pca_personId a = pe_id person \<and> pca_isPrimary a) (db_accesses db))
        (max 0 (findIndex (\<lambda>i. in_code i = code) (invitations_to_accept (db_invitations db) iv))) 0
        (invitations_to_accept (db_invitations db) iv) (db_accesses db))"
    and "db_invitations db' = mark_accepted (ve_now env) (pe_id person)
        (map in_id (invitations_to_accept (db_invitations db) iv)) (db_invitations db)"
  using assms unfolding accept_db_def bindr_Inr_iff Let_def case_prod_unfold
    sum.inject prod.inject
  by clarify (rule that, assumption, simp_all)

lemma check_acceptable_Inr:
  "check_acceptable now person code db = Inr iv \<longleftrightarrow>
     find_by in_code code (db_invitations db) = Some iv \<and> in_status iv = PENDING
     \<and> now \<le> in_expiresOn iv \<and> toLowerCase (pe_email person) = toLowerCase (in_email iv)"
  by (cases "find_by in_code code (db_invitations db)"; cases "case find_by in_code code (db_invitations db) of Some i \<Rightarrow> in_status i")
    (auto simp: check_acceptable_def)

lemma mem_pending_siblings:
  "r \<in> set (pending_siblings rows g) \<longleftrightarrow> r \<in> set rows \<and> in_groupId r = Some g \<and> in_status r = PENDING"
  by (auto simp: pending_siblings_def)

lemma to_accept_pending:
  "iv \<in> set rows \<Longrightarrow> in_status iv = PENDING \<Longrightarrow> r \<in> set (invitations_to_accept rows iv) \<Longrightarrow>
   r \<in> set rows \<and> in_status r = PENDING"
  by (auto simp: invitations_to_accept_def mem_pending_siblings split: if_splits)

lemma to_accept_self:
  "iv \<in> set rows \<Longrightarrow> in_status iv = PENDING \<Longrightarrow> iv \<in> set (invitations_to_accept rows iv)"
  by (auto simp: invitations_to_accept_def mem_pending_siblings elim: truthyE)

lemma accept_db_primaries:
  assumes acc: "accept_db env person code db = Inr (records, db')"
    and cons: "primary_consistent (pe_id person) (db_accesses db)"
  shows "primary_consistent (pe_id person) (db_accesses db')"
proof -
  from acc obtain iv where a: "db_accesses db' = snd (upsert_all env (pe_id person)
        (List.find (\<lambda>a. pca_personId a = pe_id person \<and> pca_isPrimary a) (db_accesses db))
        (max 0 (findIndex (\<lambda>i. in_code i = code) (invitations_to_accept (db_invitations db) iv))) 0
        (invitations_to_accept (db_invitations db) iv) (db_accesses db))"
    by (rule accept_dbE)
  define e where "e = List.find (\<lambda>a. pca_personId a = pe_id person \<and> pca_isPrimary a) (db_accesses db)"
  define toA where "toA = invitations_to_accept (db_invitations db) iv"
  define ci where "ci = max 0 (findIndex (\<lambda>i. in_code i = code) toA)"
  show ?thesis
  proof (cases e)
    case None
    then have none: "\<And>cs. primaries_at (pe_id person) cs (db_accesses db)"
      by (auto simp: e_def primaries_at_def find_None_iff)
    let ?cs = "(in_clientId (toA ! nat ci), in_siteId (toA ! nat ci))"
    have "(in_clientId (toA ! j), in_siteId (toA ! j)) = ?cs"
      if "primary_for e ci (0 + int j) (toA ! j)" for j
      using that by (auto simp: primary_for_def)
    with none have "primaries_at (pe_id person) ?cs (db_accesses db')"
      unfolding a e_def [symmetric] toA_def [symmetric] ci_def [symmetric]
      by (intro upsert_all_primaries) auto
    then show ?thesis by (auto simp: primary_consistent_def)
  next
    case (Some x)
    then have x: "x \<in> set (db_accesses db)" "pca_personId x = pe_id person" "pca_isPrimary x"
      by (auto simp: e_def find_Some_iff)
    let ?cs = "(pca_clientId x, pca_siteId x)"
    from cons x have "primaries_at (pe_id person) ?cs (db_accesses db)"
      by (auto simp: primary_consistent_def primaries_at_def)
    moreover have "(in_clientId (toA ! j), in_siteId (toA ! j)) = ?cs"
      if "primary_for e ci (0 + int j) (toA ! j)" for j
      using that Some by (auto simp: primary_for_def)
    ultimately have "primaries_at (pe_id person) ?cs (db_accesses db')"
      unfolding a e_def [symmetric] toA_def [symmetric] ci_def [symmetric]
      by (intro upsert_all_primaries) auto
    then show ?thesis by (auto simp: primary_consistent_def)
  qed
qed

subsection \<open>The life cycle of an invitation\<close>

text \<open>
  One call of a service method moves the invitation table; \<open>inv_reach\<close> is any sequence of calls,
  by any callers, failing calls included. The contract is \<open>evolves\<close>: rows are never deleted, only
  the status and the acceptance columns of a row change, along the arrows of \<open>moves\<close>, an
  accepted row never changes again, and identifiers stay unique.
\<close>

inductive inv_call :: "('c, access_grant_result) cache_ops \<Rightarrow> inv_state \<Rightarrow> inv_state \<Rightarrow> bool" for ops where
  create: "inv_call ops st (snd (createBulk env cls session dto st))"
| resend: "inv_call ops st (snd (resend env session i st))"
| accept: "inv_call ops st (snd (snd (invitations_accept ops env cls code c st)))"
| revoke: "inv_call ops st (snd (revoke session i st))"
| renew: "inv_call ops st (snd (renew env cls session i days st))"
| expire: "inv_call ops st (snd (expireStale now session st))"

inductive inv_reach :: "('c, access_grant_result) cache_ops \<Rightarrow> inv_state \<Rightarrow> inv_state \<Rightarrow> bool" for ops where
  refl: "inv_reach ops st st"
| step: "inv_reach ops st st' \<Longrightarrow> inv_call ops st' st'' \<Longrightarrow> inv_reach ops st st''"

fun moves :: "invitation_status \<Rightarrow> invitation_status \<Rightarrow> bool" where
  "moves PENDING s = (s \<noteq> EXPIRED)"
| "moves EXPIRED s = (s = EXPIRED \<or> s = REVOKED)"
| "moves ACCEPTED s = (s = ACCEPTED)"
| "moves REVOKED s = (s = REVOKED)"

definition frozen :: "invitation_row \<Rightarrow> invitation_row" where
  \<comment> \<open>the columns no method updates\<close>
  "frozen r = r\<lparr>in_status := PENDING, in_acceptedById := None, in_acceptedOn := None\<rparr>"

definition row_evolves :: "invitation_row \<Rightarrow> invitation_row \<Rightarrow> bool" where
  "row_evolves r r' \<longleftrightarrow> frozen r' = frozen r \<and> moves (in_status r) (in_status r')
     \<and> (in_status r = ACCEPTED \<longrightarrow> r' = r)"

definition evolves :: "invitation_row list \<Rightarrow> invitation_row list \<Rightarrow> bool" where
  "evolves rows rows' \<longleftrightarrow>
     (\<exists>old new. rows' = old @ new \<and> list_all2 row_evolves rows old)"

lemma moves_refl [simp]: "moves s s"
  by (cases s) simp_all

lemma moves_trans: "moves a b \<Longrightarrow> moves b c \<Longrightarrow> moves a c"
  by (cases a; cases b; cases c) simp_all

lemma row_evolves_refl [simp]: "row_evolves r r"
  by (simp add: row_evolves_def)

lemma row_evolves_trans: "row_evolves a b \<Longrightarrow> row_evolves b c \<Longrightarrow> row_evolves a c"
  by (auto simp: row_evolves_def intro: moves_trans)

lemma frozen_eqD:
  assumes "frozen r' = frozen r"
  shows "in_id r' = in_id r" "in_code r' = in_code r" "in_email r' = in_email r"
    "in_clientId r' = in_clientId r" "in_siteId r' = in_siteId r" "in_roleId r' = in_roleId r"
  using arg_cong [OF assms, of in_id] arg_cong [OF assms, of in_code] arg_cong [OF assms, of in_email]
    arg_cong [OF assms, of in_clientId] arg_cong [OF assms, of in_siteId] arg_cong [OF assms, of in_roleId]
  by (simp_all add: frozen_def)

lemma evolves_refl [simp]: "evolves rows rows"
  unfolding evolves_def by (rule exI [of _ rows], rule exI [of _ "[]"]) (simp add: list.rel_refl)

lemma evolves_map: "(\<And>r. r \<in> set rows \<Longrightarrow> row_evolves r (f r)) \<Longrightarrow> evolves rows (map f rows)"
  unfolding evolves_def
  by (rule exI [of _ "map f rows"], rule exI [of _ "[]"]) (simp add: list.rel_map list.rel_refl_strong)

lemma evolves_append [simp]: "evolves rows (rows @ new)"
  by (auto simp: evolves_def intro!: list.rel_refl)

lemma evolves_trans:
  assumes "evolves a b" "evolves b c"
  shows "evolves a c"
proof -
  from assms(1) obtain b1 b2 where b: "b = b1 @ b2" and ab: "list_all2 row_evolves a b1"
    by (auto simp: evolves_def)
  from assms(2) obtain c1 c2 where c: "c = c1 @ c2" and bc: "list_all2 row_evolves (b1 @ b2) c1"
    by (auto simp: evolves_def b)
  then obtain d1 d2 where d: "c1 = d1 @ d2" and bd: "list_all2 row_evolves b1 d1"
    by (auto simp: list_all2_append1)
  have "list_all2 row_evolves a d1"
    by (rule list_all2_trans [OF row_evolves_trans ab bd])
  then show ?thesis by (auto simp: evolves_def c d)
qed

lemma evolvesD:
  assumes "evolves rows rows'" "r \<in> set rows"
  shows "\<exists>r'\<in>set rows'. row_evolves r r'"
proof -
  from assms(1) obtain old new where "rows' = old @ new" "list_all2 row_evolves rows old"
    by (auto simp: evolves_def)
  with assms(2) show ?thesis by (fastforce simp: list_all2_conv_all_nth in_set_conv_nth)
qed

lemma row_evolves_accept:
  "in_status r = PENDING \<Longrightarrow>
   row_evolves r (r\<lparr>in_status := ACCEPTED, in_acceptedById := p, in_acceptedOn := t\<rparr>)"
  by (simp add: row_evolves_def frozen_def)

lemma row_evolves_revoke: "in_status r \<noteq> ACCEPTED \<Longrightarrow> row_evolves r (r\<lparr>in_status := REVOKED\<rparr>)"
  by (cases "in_status r") (simp_all add: row_evolves_def frozen_def)

lemma same_id_same_row:
  "distinct (map in_id rows) \<Longrightarrow> r \<in> set rows \<Longrightarrow> r' \<in> set rows \<Longrightarrow> in_id r = in_id r' \<Longrightarrow> r = r'"
  by (metis distinct_map inj_onD)

definition inv_rows :: "inv_state \<Rightarrow> invitation_row list" where
  "inv_rows st = db_invitations (is_db st)"

definition good_move :: "inv_state \<Rightarrow> inv_state \<Rightarrow> bool" where
  \<comment> \<open>what every call keeps\<close>
  "good_move st st' \<longleftrightarrow>
     (distinct (map in_id (inv_rows st)) \<longrightarrow>
        distinct (map in_id (inv_rows st')) \<and> evolves (inv_rows st) (inv_rows st'))"

lemma good_move_refl [simp]: "good_move st st"
  by (simp add: good_move_def)

lemma good_move_trans: "good_move a b \<Longrightarrow> good_move b c \<Longrightarrow> good_move a c"
  by (auto simp: good_move_def intro: evolves_trans)

lemma inv_rows_set [simp]:
  "inv_rows (set_invitations st rows) = rows"
  "inv_rows (st\<lparr>is_outbox := o'\<rparr>) = inv_rows st"
  by (simp_all add: inv_rows_def set_invitations_def)

lemma good_move_map:
  assumes "inv_rows st' = map f (inv_rows st)"
    and "\<And>r. in_id (f r) = in_id r"
    and "\<And>r. distinct (map in_id (inv_rows st)) \<Longrightarrow> r \<in> set (inv_rows st) \<Longrightarrow> row_evolves r (f r)"
  shows "good_move st st'"
proof -
  have "map in_id (inv_rows st') = map in_id (inv_rows st)" using assms(1,2) by simp
  then show ?thesis
    unfolding good_move_def using assms(3) by (metis assms(1) evolves_map)
qed

lemma good_move_append:
  assumes "insert_invitations (inv_rows st) new = Inr (inv_rows st')"
  shows "good_move st st'"
proof -
  from assms have "inv_rows st' = inv_rows st @ new" "distinct (map in_id (inv_rows st @ new))"
    by (auto simp: insert_invitations_def split: if_splits)
  then show ?thesis by (simp add: good_move_def)
qed

lemma visible_invitation_Inr:
  "visible_invitation session db i = Inr iv \<longleftrightarrow>
     (\<exists>sess. session = Inr sess \<and> find_by in_id i (filter (invitation_visible sess) (db_invitations db)) = Some iv)"
  by (cases session) (simp_all add: visible_invitation_def split: option.split)

lemma visible_invitation_InrD:
  assumes "visible_invitation session db i = Inr iv"
  obtains sess where "session = Inr sess" "invitation_visible sess iv" "iv \<in> set (db_invitations db)" "in_id iv = i"
  using assms find_by_SomeD by (fastforce simp: visible_invitation_Inr)

lemma insert_bulkE:
  assumes "insert_bulk env cls session dto db = Inr (new, rows)"
  obtains person grant sess where "requirePerson cls = Inr person" "requireAccessGrant cls = Inr grant"
    "session = Inr sess"
    "for_all_ok (check_site (bulk_sites sess dto db) (target_client dto grant))
       (unique (map ie_siteId (cd_invitations dto))) = Inr ()"
    "for_all_ok (check_role (bulk_roles grant dto db)) (unique (map ie_roleId (cd_invitations dto))) = Inr ()"
    "pending_conflicts (db_invitations db) (target_client dto grant) (cd_invitations dto) = []"
    "new = create_rows env (pe_id person) (target_client dto grant)
       (ve_addDays env (ve_now env) (nullish_or (cd_expiresInDays dto) 7)) (cd_invitations dto)"
    "insert_invitations (db_invitations db) new = Inr rows"
  using assms unfolding insert_bulk_def bindr_Inr_iff Let_def
  by (auto split: if_splits simp: bindr_Inr_iff intro: that)

lemma createBulk_rows:
  "inv_rows (snd (createBulk env cls session dto st)) =
     (case insert_bulk env cls session dto (is_db st) of Inl _ \<Rightarrow> inv_rows st | Inr (_, rows) \<Rightarrow> rows)"
  by (auto simp: createBulk_def Let_def split: sum.splits)

lemma good_createBulk: "good_move st (snd (createBulk env cls session dto st))"
proof (cases "insert_bulk env cls session dto (is_db st)")
  case (Inl e)
  then show ?thesis by (simp add: createBulk_def)
next
  case (Inr r)
  obtain new rows where r: "r = (new, rows)" by (cases r)
  from Inr r have "insert_invitations (inv_rows st) new = Inr rows"
    by (auto simp: inv_rows_def elim: insert_bulkE)
  then show ?thesis
    by (intro good_move_append [where new = new]) (simp add: createBulk_rows Inr r)
qed

lemma good_resend: "good_move st (snd (resend env session i st))"
  by (auto simp: resend_def Let_def good_move_def split: sum.splits)

lemma mark_accepted_evolves:
  assumes "distinct (map in_id rows)" "set as \<subseteq> set rows" "\<And>a. a \<in> set as \<Longrightarrow> in_status a = PENDING"
  shows "evolves rows (mark_accepted now p (map in_id as) rows)"
  unfolding mark_accepted_def
proof (rule evolves_map)
  fix r assume r: "r \<in> set rows"
  show "row_evolves r (if in_id r \<in> set (map in_id as)
      then r\<lparr>in_status := ACCEPTED, in_acceptedById := Some p, in_acceptedOn := Some now\<rparr> else r)"
  proof (cases "in_id r \<in> in_id ` set as")
    case True
    with assms r have "r \<in> set as" by (metis image_iff same_id_same_row subset_iff)
    with assms(3) True show ?thesis by (simp add: row_evolves_accept)
  next
    case False
    then show ?thesis by simp
  qed
qed

lemma map_id_mark_accepted [simp]: "map in_id (mark_accepted now p ids rows) = map in_id rows"
  by (simp add: mark_accepted_def)

lemma accept_db_move:
  assumes "accept_db env person code db = Inr (records, db')" "distinct (map in_id (db_invitations db))"
  shows "distinct (map in_id (db_invitations db')) \<and> evolves (db_invitations db) (db_invitations db')"
proof -
  from assms(1) obtain iv where iv: "check_acceptable (ve_now env) person code db = Inr iv"
    and db': "db_invitations db' = mark_accepted (ve_now env) (pe_id person)
        (map in_id (invitations_to_accept (db_invitations db) iv)) (db_invitations db)"
    by (rule accept_dbE)
  from iv have "iv \<in> set (db_invitations db)" "in_status iv = PENDING"
    by (auto simp: check_acceptable_Inr dest: find_by_SomeD)
  from to_accept_pending [OF this] assms(2) show ?thesis
    unfolding db' by (auto intro!: mark_accepted_evolves)
qed

lemma good_accept: "good_move st (snd (snd (invitations_accept ops env cls code c st)))"
proof -
  let ?r = "bindr (requireUser cls) (\<lambda>user. bindr (requirePerson cls) (\<lambda>person.
             bindr (accept_db env person code (is_db st)) (\<lambda>r. Inr (user, r))))"
  show ?thesis
  proof (cases ?r)
    case (Inl e)
    then show ?thesis by (simp add: invitations_accept_def)
  next
    case (Inr t)
    then obtain user records db' where t: "t = (user, records, db')" by (cases t) auto
    with Inr obtain person where "accept_db env person code (is_db st) = Inr (records, db')"
      by (auto simp: bindr_Inr_iff)
    from accept_db_move [OF this] Inr t show ?thesis
      by (simp add: invitations_accept_def good_move_def inv_rows_def)
  qed
qed

text \<open>Revocation of a selection of rows, the update \<open>revoke\<close>, \<open>renew\<close> and \<open>expireStale\<close> share.\<close>

lemma good_revoke_map:
  assumes "\<And>r. distinct (map in_id (inv_rows st)) \<Longrightarrow> r \<in> set (inv_rows st) \<Longrightarrow> hit r \<Longrightarrow> in_status r \<noteq> ACCEPTED"
  shows "good_move st (set_invitations st
     (map (\<lambda>r. if hit r then r\<lparr>in_status := REVOKED\<rparr> else r) (inv_rows st)))"
  by (rule good_move_map [where f = "\<lambda>r. if hit r then r\<lparr>in_status := REVOKED\<rparr> else r"])
    (use assms in \<open>auto simp: row_evolves_revoke\<close>)

lemma good_expire: "good_move st (snd (expireStale now session st))"
  by (cases session)
    (auto simp: expireStale_def Let_def inv_rows_def [symmetric] intro!: good_revoke_map)

lemma good_revoke: "good_move st (snd (revoke session i st))"
proof (cases "visible_invitation session (is_db st) i")
  case (Inl e)
  then show ?thesis by (cases session) (simp_all add: revoke_def Let_def)
next
  case (Inr iv)
  then obtain sess where sess: "session = Inr sess" and mem: "iv \<in> set (inv_rows st)" and i: "in_id iv = i"
    by (auto simp: inv_rows_def elim: visible_invitation_InrD)
  have single: "good_move st (set_invitations st
      (map (\<lambda>r. if in_id r = i then r\<lparr>in_status := REVOKED\<rparr> else r) (inv_rows st)))"
    if "in_status iv \<noteq> ACCEPTED"
    by (rule good_revoke_map) (use that mem i in \<open>metis same_id_same_row\<close>)
  show ?thesis
    using single Inr
    by (auto simp: revoke_def Let_def sess inv_rows_def [symmetric] intro!: good_revoke_map)
qed

lemma good_renew: "good_move st (snd (renew env cls session i days st))"
proof (cases "visible_invitation session (is_db st) i")
  case (Inl e)
  then show ?thesis by (simp add: renew_def Let_def)
next
  case (Inr iv)
  then have mem: "iv \<in> set (inv_rows st)"
    by (auto simp: inv_rows_def elim: visible_invitation_InrD)
  let ?t = "invitations_to_accept (inv_rows st) iv"
  have rev: "good_move st (set_invitations st
      (map (\<lambda>r. if in_id r \<in> in_id ` set ?t then r\<lparr>in_status := REVOKED\<rparr> else r) (inv_rows st)))"
    if pend: "in_status iv = PENDING"
  proof (rule good_revoke_map)
    fix r assume "distinct (map in_id (inv_rows st))" "r \<in> set (inv_rows st)" "in_id r \<in> in_id ` set ?t"
    with to_accept_pending [OF mem pend] have "in_status r = PENDING" by (metis imageE same_id_same_row)
    then show "in_status r \<noteq> ACCEPTED" by simp
  qed
  show ?thesis
    using Inr good_move_trans [OF rev good_createBulk]
    by (auto simp: renew_def Let_def inv_rows_def [symmetric])
qed

lemma inv_call_good: "inv_call ops st st' \<Longrightarrow> good_move st st'"
  by (induction rule: inv_call.induct)
    (simp_all add: good_createBulk good_resend good_accept good_revoke good_renew good_expire)

lemma inv_reach_good: "inv_reach ops st st' \<Longrightarrow> good_move st st'"
  by (induction rule: inv_reach.induct) (auto intro: good_move_trans inv_call_good)

subsection \<open>New rows\<close>

lemma length_create_rows [simp]: "length (create_rows env p t x es) = length es"
  by (simp add: create_rows_def Let_def)

lemma nth_create_rows:
  "j < length es \<Longrightarrow>
   create_rows env p t x es ! j =
     \<lparr>in_id = ve_newId env j,
      in_code = ve_nanoid env (length (group_ids (ve_nanoid env) t es) + j),
      in_clientId = t, in_createdById = p, in_email = ie_email (es ! j), in_roleId = ie_roleId (es ! j),
      in_siteId = ie_siteId (es ! j),
      in_groupId = map_of (group_ids (ve_nanoid env) t es) (group_key t (ie_email (es ! j))),
      in_status = PENDING, in_expiresOn = x, in_acceptedById = None, in_acceptedOn = None,
      in_createdOn = ve_now env\<rparr>"
  by (simp add: create_rows_def Let_def nth_enumerate_eq)

definition row_of :: "id \<Rightarrow> id \<Rightarrow> time \<Rightarrow> invite_entry \<Rightarrow> invitation_row \<Rightarrow> bool" where
  \<comment> \<open>a pending row made by person \<open>p\<close> for client \<open>t\<close> out of an entry\<close>
  "row_of p t x e r \<longleftrightarrow>
     in_clientId r = t \<and> in_createdById r = p \<and> in_email r = ie_email e \<and> in_roleId r = ie_roleId e
     \<and> in_siteId r = ie_siteId e \<and> in_status r = PENDING \<and> in_expiresOn r = x \<and> in_acceptedById r = None"

lemma create_rows_of: "list_all2 (row_of p t x) es (create_rows env p t x es)"
  by (simp add: list_all2_conv_all_nth nth_create_rows row_of_def)

definition pending_key :: "invitation_row \<Rightarrow> id \<times> string \<times> id \<times> id" where
  "pending_key r = (in_clientId r, in_email r, in_siteId r, in_roleId r)"

definition no_dup_pending :: "invitation_row list \<Rightarrow> bool" where
  "no_dup_pending rows \<longleftrightarrow> distinct (map pending_key (filter (\<lambda>r. in_status r = PENDING) rows))"

lemma create_rows_pending: "filter (\<lambda>r. in_status r = PENDING) (create_rows env p t x es) = create_rows env p t x es"
  by (simp add: filter_id_conv all_set_conv_all_nth nth_create_rows)

lemma create_rows_keys:
  "map pending_key (create_rows env p t x es) = map (\<lambda>e. (t, ie_email e, ie_siteId e, ie_roleId e)) es"
  by (rule nth_equalityI) (simp_all add: nth_create_rows pending_key_def)

lemma no_conflict_disjoint:
  assumes "pending_conflicts rows t es = []" "r \<in> set rows" "in_status r = PENDING" "e \<in> set es"
  shows "pending_key r \<noteq> (t, ie_email e, ie_siteId e, ie_roleId e)"
proof
  assume k: "pending_key r = (t, ie_email e, ie_siteId e, ie_roleId e)"
  then have "r \<in> set (filter (\<lambda>e. in_clientId e = t \<and> in_status e = PENDING
            \<and> in_email e \<in> ie_email ` set es \<and> in_siteId e \<in> ie_siteId ` set es
            \<and> in_roleId e \<in> ie_roleId ` set es) rows)"
    using assms(2-4) by (auto simp: pending_key_def)
  moreover have "entry_key (CHR ''|'') (ie_email e) (ie_siteId e) (ie_roleId e) =
      entry_key (CHR ''|'') (in_email r) (in_siteId r) (in_roleId r)"
    using k by (simp add: pending_key_def)
  ultimately have "e \<in> set (pending_conflicts rows t es)"
    using assms(4) by (auto simp: pending_conflicts_def Let_def)
  with assms(1) show False by simp
qed

lemma unique_length_distinct: "length (unique xs) = length xs \<longleftrightarrow> distinct xs"
proof -
  have "length (unique xs) = card (set xs)" using distinct_card [OF distinct_unique, of xs] by simp
  then show ?thesis by (metis card_distinct distinct_card)
qed

lemma parse_invitations_distinct:
  assumes "parse_invitations raw = Inr es"
  shows "distinct (map (\<lambda>e. (ie_email e, ie_siteId e, ie_roleId e)) es)"
proof -
  let ?key = "\<lambda>i. entry_key (CHR '':'') (ie_email i) (ie_siteId i) (ie_roleId i)"
  from assms have "length (unique (map ?key es)) = length (map ?key es)"
    by (auto simp: parse_invitations_def Let_def split: if_splits)
  then have "distinct (map ?key es)" by (simp only: unique_length_distinct)
  moreover have "map ?key es =
      map (\<lambda>(m, s, r). entry_key (CHR '':'') m s r) (map (\<lambda>e. (ie_email e, ie_siteId e, ie_roleId e)) es)"
    by simp
  ultimately have "distinct (map (\<lambda>(m, s, r). entry_key (CHR '':'') m s r)
      (map (\<lambda>e. (ie_email e, ie_siteId e, ie_roleId e)) es))" by (simp only:)
  then show ?thesis by (rule distinct_map [THEN iffD1, THEN conjunct1])
qed

lemma flatten_entry_email: "e \<in> set (flatten_entry raw) \<Longrightarrow> toLowerCase (ie_email e) = ie_email e"
  by (cases raw) auto

lemma parse_invitations_email:
  "parse_invitations raw = Inr es \<Longrightarrow> e \<in> set es \<Longrightarrow> toLowerCase (ie_email e) = ie_email e"
  by (auto simp: parse_invitations_def Let_def flatten_entry_email split: if_splits)

lemma insert_bulk_no_dup:
  assumes "insert_bulk env cls session dto db = Inr (new, rows)"
    and "parse_invitations raw = Inr (cd_invitations dto)" and "no_dup_pending (db_invitations db)"
  shows "no_dup_pending rows"
proof -
  from assms(1) obtain p t x where
    conf: "pending_conflicts (db_invitations db) t (cd_invitations dto) = []"
    and new: "new = create_rows env p t x (cd_invitations dto)"
    and rows: "insert_invitations (db_invitations db) new = Inr rows"
    by (rule insert_bulkE)
  have rows': "rows = db_invitations db @ new" using rows by (simp add: insert_invitations_def split: if_splits)
  let ?es = "cd_invitations dto"
  have "distinct (map (\<lambda>e. (t, ie_email e, ie_siteId e, ie_roleId e)) ?es)"
    using parse_invitations_distinct [OF assms(2)] by (auto simp: distinct_map inj_on_def)
  moreover have "pending_key ` set (filter (\<lambda>r. in_status r = PENDING) (db_invitations db))
      \<inter> (\<lambda>e. (t, ie_email e, ie_siteId e, ie_roleId e)) ` set ?es = {}"
    using no_conflict_disjoint [OF conf] by fastforce
  ultimately show ?thesis
    using assms(3) unfolding no_dup_pending_def rows' new
    by (simp add: create_rows_pending create_rows_keys)
qed

lemma insert_bulk_tenant:
  assumes "insert_bulk env cls (Inr (Tenant ctx)) dto db = Inr (new, rows)" and "r \<in> set new"
  shows "in_clientId r = rls_clientId ctx \<and> in_status r = PENDING
     \<and> (\<exists>p. cls_person cls = Some p \<and> in_createdById r = pe_id p)
     \<and> (\<exists>s\<in>set (db_sites db). st_id s = in_siteId r \<and> st_clientId s = rls_clientId ctx \<and> validate_site ctx (st_id s))
     \<and> (\<exists>g. cls_accessGrant cls = Some g
          \<and> (\<exists>q\<in>set (db_roles db). ro_id q = in_roleId r \<and> (ag_scope g = SYSTEM \<or> ro_clientAssignable q)))"
proof -
  from assms(1) obtain person grant x where
    pg: "cls_person cls = Some person" "cls_accessGrant cls = Some grant"
    and sites: "for_all_ok (check_site (bulk_sites (Tenant ctx) dto db) (target_client dto grant))
       (unique (map ie_siteId (cd_invitations dto))) = Inr ()"
    and roles: "for_all_ok (check_role (bulk_roles grant dto db))
       (unique (map ie_roleId (cd_invitations dto))) = Inr ()"
    and new: "new = create_rows env (pe_id person) (target_client dto grant) x (cd_invitations dto)"
    by (rule insert_bulkE) auto
  from assms(2) obtain e where e: "e \<in> set (cd_invitations dto)"
    and row: "row_of (pe_id person) (target_client dto grant) x e r"
    using create_rows_of [of "pe_id person" "target_client dto grant" x "cd_invitations dto" env]
    unfolding new by (metis in_set_conv_nth list_all2_conv_all_nth)
  from sites e have "check_site (bulk_sites (Tenant ctx) dto db) (target_client dto grant) (ie_siteId e) = Inr ()"
    by (auto simp: for_all_ok_Inr_iff)
  then obtain s where "find_by st_id (ie_siteId e) (bulk_sites (Tenant ctx) dto db) = Some s"
    and own: "st_clientId s = target_client dto grant"
    by (auto simp: check_site_def split: option.splits if_splits)
  then have s: "s \<in> set (db_sites db)" "st_id s = ie_siteId e" "st_clientId s = rls_clientId ctx"
    "validate_site ctx (st_id s)"
    by (auto dest!: find_by_SomeD simp: bulk_sites_def site_visible_def validate_client_def)
  from roles e have "check_role (bulk_roles grant dto db) (ie_roleId e) = Inr ()"
    by (auto simp: for_all_ok_Inr_iff)
  then obtain q where "find_by ro_id (ie_roleId e) (bulk_roles grant dto db) = Some q"
    by (auto simp: check_role_def split: option.splits)
  then have q: "q \<in> set (db_roles db)" "ro_id q = ie_roleId e" "ag_scope grant = SYSTEM \<or> ro_clientAssignable q"
    by (auto dest!: find_by_SomeD simp: bulk_roles_def scopeAllows_def)
  from pg own row s q show ?thesis by (auto simp: row_of_def)
qed

subsection \<open>Accepting, as one call\<close>

definition may_accept :: "time \<Rightarrow> person_row \<Rightarrow> string \<Rightarrow> tenant_db \<Rightarrow> invitation_row \<Rightarrow> bool" where
  "may_accept now person code db iv \<longleftrightarrow>
     find_by in_code code (db_invitations db) = Some iv \<and> in_status iv = PENDING
     \<and> now \<le> in_expiresOn iv \<and> toLowerCase (pe_email person) = toLowerCase (in_email iv)"

lemma accept_db_ok_iff:
  "is_ok (accept_db env person code db) \<longleftrightarrow> (\<exists>iv. may_accept (ve_now env) person code db iv)"
  by (cases "check_acceptable (ve_now env) person code db")
    (auto simp: accept_db_def may_accept_def check_acceptable_Inr [symmetric] Let_def case_prod_unfold)

lemma validateCode_ok_iff:
  "is_ok (validateCode now code db) \<longleftrightarrow>
     (\<exists>iv. find_by in_code code (db_invitations db) = Some iv \<and> in_status iv = PENDING \<and> now \<le> in_expiresOn iv)"
proof (cases "find_by in_code code (db_invitations db)")
  case None
  then show ?thesis by (simp add: validateCode_def)
next
  case (Some iv)
  then show ?thesis by (simp add: validateCode_def Let_def not_less)
qed

lemma invitations_acceptE:
  assumes "invitations_accept ops env cls code c st = (Inr records, c', st')"
  obtains user person db' where "cls_user cls = Some user" "cls_person cls = Some person"
    "accept_db env person code (is_db st) = Inr (records, db')" "st' = st\<lparr>is_db := db'\<rparr>"
    "c' = foldl (\<lambda>c' a. clearAccessGrantResponseCache (u_idpId user) (pca_clientId a)
               (Some (pca_siteId a)) None (cache_mdel ops c')) c records"
  using assms unfolding invitations_accept_def
  by (auto split: sum.splits simp: bindr_Inr_iff intro: that)

lemma invitations_accept_fail:
  "fst (invitations_accept ops env cls code c st) = Inl e \<Longrightarrow> snd (invitations_accept ops env cls code c st) = (c, st)"
  by (auto simp: invitations_accept_def split: sum.splits)

lemma accept_db_frame:
  "accept_db env person code db = Inr (records, db') \<Longrightarrow> pca_personId a \<noteq> pe_id person \<Longrightarrow>
   a \<in> set (db_accesses db') \<longleftrightarrow> a \<in> set (db_accesses db)"
  by (erule accept_dbE) (simp add: upsert_all_other)

lemma createBulk_prefix: "\<exists>new. inv_rows (snd (createBulk env cls session dto st)) = inv_rows st @ new"
proof (cases "insert_bulk env cls session dto (is_db st)")
  case (Inl e)
  then show ?thesis by (simp add: createBulk_rows)
next
  case (Inr nr)
  obtain new rows where nr: "nr = (new, rows)" by (cases nr)
  then have "rows = inv_rows st @ new"
    using Inr by (auto elim!: insert_bulkE simp: insert_invitations_def inv_rows_def split: if_splits)
  then show ?thesis by (simp add: createBulk_rows Inr nr)
qed

subsection \<open>Properties\<close>

text \<open>
  C4: in any sequence of calls of the invitation service (failing ones included) no invitation
  is deleted, its identifier, code, e-mail, client, site, role, group and expiry never change, its
  status only moves from PENDING to ACCEPTED or REVOKED or from EXPIRED to REVOKED, an accepted
  invitation is never touched again, and identifiers stay unique.
\<close>

theorem invitation_lifecycle:
  assumes "inv_reach ops st st'" and "distinct (map in_id (inv_rows st))"
  shows "distinct (map in_id (inv_rows st'))
     \<and> (\<forall>r\<in>set (inv_rows st). \<exists>r'\<in>set (inv_rows st'). frozen r' = frozen r
          \<and> moves (in_status r) (in_status r') \<and> (in_status r = ACCEPTED \<longrightarrow> r' = r))"
proof -
  from inv_reach_good [OF assms(1)] assms(2)
  have "distinct (map in_id (inv_rows st'))" "evolves (inv_rows st) (inv_rows st')"
    by (simp_all add: good_move_def)
  with evolvesD show ?thesis by (fastforce simp: row_evolves_def)
qed

text \<open>Data for the witnesses.\<close>

definition ex_state :: "invitation_row list \<Rightarrow> inv_state" where
  "ex_state rows = \<lparr>is_db = ex_db rows, is_outbox = []\<rparr>"

definition ex_env :: invite_env where
  "ex_env = \<lparr>ve_frontendUrl = ''https://app'', ve_now = 50, ve_addDays = (\<lambda>t d. t + d),
     ve_nanoid = (\<lambda>n. ''nano'' @ show_nat n), ve_newId = (\<lambda>n. ''new'' @ show_nat n), ve_queueOk = True\<rparr>"

theorem invitation_lifecycle_witness:
  "let st = ex_state [ex_row ''i1'' None ''s1'' PENDING, ex_row ''i2'' None ''s2'' ACCEPTED];
       st' = snd (revoke (Inr Bypass) ''i1'' st)
   in map in_status (inv_rows st') = [REVOKED, ACCEPTED] \<and> distinct (map in_id (inv_rows st'))
      \<and> (\<forall>r\<in>set (inv_rows st). \<exists>r'\<in>set (inv_rows st'). frozen r' = frozen r
          \<and> moves (in_status r) (in_status r') \<and> (in_status r = ACCEPTED \<longrightarrow> r' = r))"
proof -
  let ?st = "ex_state [ex_row ''i1'' None ''s1'' PENDING, ex_row ''i2'' None ''s2'' ACCEPTED]"
  have "inv_reach mem_ops ?st (snd (revoke (Inr Bypass) ''i1'' ?st))"
    by (rule inv_reach.step [OF inv_reach.refl inv_call.revoke])
  from invitation_lifecycle [OF this] show ?thesis
    by (simp add: ex_state_def ex_db_def ex_row_def inv_rows_def revoke_def visible_invitation_def
        invitation_visible_def find_by_def set_invitations_def)
qed

text \<open>
  Accepting succeeds exactly for a signed-in person whose e-mail equals the invitation's up to
  case, while the invitation is pending and not past its expiry; every other attempt leaves the
  tables, the queue and the cache as they were.
\<close>

theorem accept_succeeds_iff:
  "is_ok (fst (invitations_accept ops env cls code c st)) =
     (cls_user cls \<noteq> None
      \<and> (\<exists>person iv. cls_person cls = Some person
           \<and> find_by in_code code (db_invitations (is_db st)) = Some iv
           \<and> in_status iv = PENDING \<and> ve_now env \<le> in_expiresOn iv
           \<and> toLowerCase (pe_email person) = toLowerCase (in_email iv)))
   \<and> (is_ok (fst (invitations_accept ops env cls code c st))
      \<or> snd (invitations_accept ops env cls code c st) = (c, st))"
proof -
  have "is_ok (fst (invitations_accept ops env cls code c st)) \<longleftrightarrow>
      cls_user cls \<noteq> None \<and> (\<exists>person. cls_person cls = Some person
        \<and> is_ok (accept_db env person code (is_db st)))"
    by (cases "cls_user cls"; cases "cls_person cls";
        cases "accept_db env (the (cls_person cls)) code (is_db st)")
      (simp_all add: invitations_accept_def requireUser_def requirePerson_def case_prod_unfold)
  moreover have "is_ok (fst (invitations_accept ops env cls code c st))
      \<or> snd (invitations_accept ops env cls code c st) = (c, st)"
    using invitations_accept_fail by (cases "fst (invitations_accept ops env cls code c st)") auto
  ultimately show ?thesis by (simp add: accept_db_ok_iff may_accept_def)
qed

text \<open>
  C9: an acceptance gives the person exactly the (client, site, role) triples of the clicked
  invitation, which was pending and not expired, and, when it belongs to a group, of the group's other
  pending invitations; it marks exactly those invitations accepted by that person and changes no other
  person's access.
\<close>

theorem accept_effect:
  assumes "invitations_accept ops env cls code c st = (Inr records, c', st')"
    and "cls_person cls = Some person"
    and "find_by in_code code (db_invitations (is_db st)) = Some iv"
  shows "let accepted = {v \<in> set (db_invitations (is_db st)).
             v = iv \<or> in_status v = PENDING \<and> (\<exists>g. g \<noteq> [] \<and> in_groupId iv = Some g \<and> in_groupId v = Some g)} in
     in_status iv = PENDING \<and> ve_now env \<le> in_expiresOn iv
     \<and> access_key ` set (db_accesses (is_db st')) = access_key ` set (db_accesses (is_db st))
         \<union> (\<lambda>v. (pe_id person, in_clientId v, in_siteId v, in_roleId v)) ` accepted
     \<and> db_invitations (is_db st') =
         map (\<lambda>r. if in_id r \<in> in_id ` accepted
                  then r\<lparr>in_status := ACCEPTED, in_acceptedById := Some (pe_id person),
                         in_acceptedOn := Some (ve_now env)\<rparr> else r) (db_invitations (is_db st))
     \<and> (\<forall>a. pca_personId a \<noteq> pe_id person \<longrightarrow>
          a \<in> set (db_accesses (is_db st')) \<longleftrightarrow> a \<in> set (db_accesses (is_db st)))"
proof -
  from assms(1,2) obtain db' where acc: "accept_db env person code (is_db st) = Inr (records, db')"
    and st': "is_db st' = db'" by (auto elim: invitations_acceptE)
  from acc obtain iv' where iv': "check_acceptable (ve_now env) person code (is_db st) = Inr iv'"
    and acs: "db_accesses db' = snd (upsert_all env (pe_id person)
        (List.find (\<lambda>a. pca_personId a = pe_id person \<and> pca_isPrimary a) (db_accesses (is_db st)))
        (max 0 (findIndex (\<lambda>i. in_code i = code) (invitations_to_accept (db_invitations (is_db st)) iv'))) 0
        (invitations_to_accept (db_invitations (is_db st)) iv') (db_accesses (is_db st)))"
    and ivs: "db_invitations db' = mark_accepted (ve_now env) (pe_id person)
        (map in_id (invitations_to_accept (db_invitations (is_db st)) iv')) (db_invitations (is_db st))"
    by (rule accept_dbE)
  from iv' assms(3) have eq: "iv' = iv" and pend: "iv \<in> set (db_invitations (is_db st))" "in_status iv = PENDING"
    and time: "ve_now env \<le> in_expiresOn iv"
    by (auto simp: check_acceptable_Inr dest: find_by_SomeD)
  have set: "{v \<in> set (db_invitations (is_db st)). v = iv \<or> in_status v = PENDING
      \<and> (\<exists>g. g \<noteq> [] \<and> in_groupId iv = Some g \<and> in_groupId v = Some g)} = set (invitations_to_accept (db_invitations (is_db st)) iv)"
    using pend by (auto simp: invitations_to_accept_def mem_pending_siblings elim: truthyE)
  show ?thesis
    unfolding Let_def set
    using accept_db_frame [OF acc] pend(2) time
    by (simp add: st' acs ivs mark_accepted_def upsert_all_keys eq)
qed

definition ex_group :: inv_state where
  "ex_group = ex_state [ex_row ''i1'' (Some ''g'') ''s1'' PENDING, ex_row ''i2'' (Some ''g'') ''s2'' PENDING,
     ex_row ''i3'' None ''s2'' REVOKED]"

lemmas ex_simps = ex_user_def ex_grant_def ex_cls_def ex_person_def ex_row_def ex_site_def ex_role_def
  ex_db_def ex_state_def ex_env_def ex_group_def cls_empty_def

lemma ex_group_find:
  "find_by in_code ''code-i1'' (db_invitations (is_db ex_group)) = Some (ex_row ''i1'' (Some ''g'') ''s1'' PENDING)"
  by (simp add: ex_simps find_by_def)

lemma ex_group_to_accept:
  "invitations_to_accept (db_invitations (is_db ex_group)) (ex_row ''i1'' (Some ''g'') ''s1'' PENDING) =
     [ex_row ''i1'' (Some ''g'') ''s1'' PENDING, ex_row ''i2'' (Some ''g'') ''s2'' PENDING]"
  by (simp add: ex_simps invitations_to_accept_def pending_siblings_def order_asc_def)

lemma ex_group_accepted:
  "{v \<in> set (db_invitations (is_db ex_group)). v = ex_row ''i1'' (Some ''g'') ''s1'' PENDING \<or> in_status v = PENDING
      \<and> (\<exists>g. g \<noteq> [] \<and> in_groupId (ex_row ''i1'' (Some ''g'') ''s1'' PENDING) = Some g \<and> in_groupId v = Some g)}
   = {ex_row ''i1'' (Some ''g'') ''s1'' PENDING, ex_row ''i2'' (Some ''g'') ''s2'' PENDING}"
  by (auto simp: ex_simps)

lemma ex_accept:
  "\<exists>records c' st'. invitations_accept ops ex_env (ex_cls SITE) ''code-i1'' c ex_group
     = (Inr records, c', st') \<and> map pca_siteId records = [''s1'', ''s2'']"
proof -
  let ?p = "ex_person ''p1'' ''Ann@X.io''"
  have "toLowerCase ''Ann@X.io'' = ''ann@x.io''" "toLowerCase ''ann@x.io'' = ''ann@x.io''"
    by (code_simp, code_simp)
  then have "is_ok (accept_db ex_env ?p ''code-i1'' (is_db ex_group))"
    unfolding accept_db_ok_iff may_accept_def ex_group_find by (simp add: ex_simps)
  then obtain records db' where r: "accept_db ex_env ?p ''code-i1'' (is_db ex_group) = Inr (records, db')"
    by (auto simp: is_ok_def split: sum.splits)
  then have "map pca_siteId records = [''s1'', ''s2'']"
  proof (rule accept_dbE)
    fix iv
    assume chk: "check_acceptable (ve_now ex_env) ?p ''code-i1'' (is_db ex_group) = Inr iv"
      and rec: "records = fst (upsert_all ex_env (pe_id ?p)
        (List.find (\<lambda>a. pca_personId a = pe_id ?p \<and> pca_isPrimary a) (db_accesses (is_db ex_group)))
        (max 0 (findIndex (\<lambda>i. in_code i = ''code-i1'') (invitations_to_accept (db_invitations (is_db ex_group)) iv))) 0
        (invitations_to_accept (db_invitations (is_db ex_group)) iv) (db_accesses (is_db ex_group)))"
    from chk have "iv = ex_row ''i1'' (Some ''g'') ''s1'' PENDING"
      unfolding check_acceptable_Inr ex_group_find by simp
    with rec show ?thesis
      by (simp add: ex_group_to_accept case_prod_unfold Let_def upserted_def)
        (simp add: ex_simps find_by_def access_of_def upsert_access_def access_key_def)
  qed
  with r show ?thesis
    by (simp add: invitations_accept_def requireUser_def requirePerson_def ex_cls_def case_prod_unfold)
qed

theorem accept_effect_witness:
  "let r = invitations_accept mem_ops ex_env (ex_cls SITE) ''code-i1'' Map.empty ex_group;
       db' = is_db (snd (snd r))
   in is_ok (fst r)
     \<and> access_key ` set (db_accesses db') = {(''p1'', ''c1'', ''s1'', ''r1''), (''p1'', ''c1'', ''s2'', ''r1'')}
     \<and> map in_status (db_invitations db') = [ACCEPTED, ACCEPTED, REVOKED]"
proof -
  obtain records c' st' where acc: "invitations_accept mem_ops ex_env (ex_cls SITE) ''code-i1'' Map.empty ex_group
     = (Inr records, c', st')" using ex_accept [of mem_ops Map.empty] by blast
  have "cls_person (ex_cls SITE) = Some (ex_person ''p1'' ''Ann@X.io'')" by (simp add: ex_cls_def)
  note accept_effect [OF acc this ex_group_find, unfolded Let_def ex_group_accepted]
  then have "access_key ` set (db_accesses (is_db st')) = {(''p1'', ''c1'', ''s1'', ''r1''), (''p1'', ''c1'', ''s2'', ''r1'')}"
    and "map in_status (db_invitations (is_db st')) = [ACCEPTED, ACCEPTED, REVOKED]"
    by (simp_all add: ex_simps)
  then show ?thesis unfolding acc Let_def fst_conv snd_conv is_ok_simps by (intro conjI TrueI)
qed

text \<open>
  Accepting keeps every person's primary access rows within one client and site.
\<close>

theorem accept_keeps_primary_consistent:
  assumes "invitations_accept ops env cls code c st = (r, c', st')"
    and "primary_consistent p (db_accesses (is_db st))"
  shows "primary_consistent p (db_accesses (is_db st'))"
proof (cases r)
  case (Inl e)
  with assms invitations_accept_fail [of ops env cls code c st e] show ?thesis by auto
next
  case (Inr records)
  with assms(1) obtain person db' where acc: "accept_db env person code (is_db st) = Inr (records, db')"
    and st': "is_db st' = db'" by (auto elim: invitations_acceptE)
  show ?thesis
  proof (cases "p = pe_id person")
    case True
    with accept_db_primaries [OF acc] assms(2) st' show ?thesis by simp
  next
    case False
    then have "\<And>a. pca_personId a = p \<Longrightarrow> a \<in> set (db_accesses db') \<longleftrightarrow> a \<in> set (db_accesses (is_db st))"
      by (simp add: accept_db_frame [OF acc])
    from primary_consistent_cong [OF this] assms(2) show ?thesis by (simp add: st')
  qed
qed

theorem accept_keeps_primary_consistent_witness:
  "primary_consistent ''p1'' (db_accesses (is_db (snd (snd
     (invitations_accept mem_ops ex_env (ex_cls SITE) ''code-i1'' Map.empty ex_group)))))"
proof -
  obtain records c' st' where acc: "invitations_accept mem_ops ex_env (ex_cls SITE) ''code-i1'' Map.empty ex_group
     = (Inr records, c', st')" using ex_accept [of mem_ops Map.empty] by blast
  have "primary_consistent ''p1'' (db_accesses (is_db ex_group))"
    by (simp add: ex_simps primary_consistent_def primaries_at_def)
  from accept_keeps_primary_consistent [OF acc this] show ?thesis by (simp add: acc)
qed

text \<open>
  The public check of a code and the acceptance agree: for the person the invitation is
  addressed to, the code validates exactly when accepting it succeeds.
\<close>

theorem validateCode_agrees_with_accept:
  assumes "find_by in_code code (db_invitations db) = Some iv"
    and "toLowerCase (pe_email person) = toLowerCase (in_email iv)"
  shows "is_ok (validateCode (ve_now env) code db) = is_ok (accept_db env person code db)"
  unfolding validateCode_ok_iff accept_db_ok_iff may_accept_def by (metis assms option.inject)

theorem validateCode_agrees_with_accept_witness:
  "is_ok (validateCode 50 ''code-i1'' (is_db ex_group))
   \<and> is_ok (accept_db ex_env (ex_person ''p1'' ''ann@x.io'') ''code-i1'' (is_db ex_group))"
proof -
  have "is_ok (validateCode (ve_now ex_env) ''code-i1'' (is_db ex_group))"
    unfolding validateCode_ok_iff ex_group_find by (simp add: ex_simps)
  moreover have "toLowerCase (pe_email (ex_person ''p1'' ''ann@x.io'')) =
      toLowerCase (in_email (ex_row ''i1'' (Some ''g'') ''s1'' PENDING))"
    by (simp add: ex_person_def ex_row_def)
  note validateCode_agrees_with_accept [OF ex_group_find this, of ex_env]
  ultimately show ?thesis by (simp add: ex_env_def)
qed

text \<open>
  C10: a caller confined to a tenant (row-level security on) only ever creates pending invitations
  of its own client, in its own name, to sites of that client inside its site scope, and with roles
  that are client-assignable unless its grant is SYSTEM; existing invitations are not changed.
\<close>

theorem createBulk_tenant_isolation:
  assumes "createBulk env cls (Inr (Tenant ctx)) dto st = (res, st')"
  shows "\<exists>new. inv_rows st' = inv_rows st @ new
     \<and> (\<forall>r\<in>set new. in_clientId r = rls_clientId ctx \<and> in_status r = PENDING
         \<and> (\<exists>p. cls_person cls = Some p \<and> in_createdById r = pe_id p)
         \<and> (\<exists>s\<in>set (db_sites (is_db st)). st_id s = in_siteId r \<and> st_clientId s = rls_clientId ctx
              \<and> validate_site ctx (st_id s))
         \<and> (\<exists>g. cls_accessGrant cls = Some g
              \<and> (\<exists>q\<in>set (db_roles (is_db st)). ro_id q = in_roleId r
                   \<and> (ag_scope g = SYSTEM \<or> ro_clientAssignable q))))"
proof (cases "insert_bulk env cls (Inr (Tenant ctx)) dto (is_db st)")
  case (Inl e)
  with assms show ?thesis by (auto simp: createBulk_def)
next
  case (Inr nr)
  obtain new rows where nr: "nr = (new, rows)" by (cases nr)
  note ins = Inr [unfolded nr]
  have "inv_rows st' = rows" using createBulk_rows [of env cls "Inr (Tenant ctx)" dto st] assms ins by simp
  moreover have "rows = inv_rows st @ new"
    using ins by (auto elim!: insert_bulkE simp: insert_invitations_def inv_rows_def split: if_splits)
  ultimately show ?thesis using insert_bulk_tenant [OF ins] by blast
qed

definition ex_dto :: create_dto where
  "ex_dto = \<lparr>cd_clientId = None, cd_expiresInDays = None,
     cd_invitations = [\<lparr>ie_email = ''bob@x.io'', ie_siteId = ''s1'', ie_roleId = ''r1''\<rparr>]\<rparr>"

definition ex_ctx :: rls_context where
  "ex_ctx = \<lparr>rls_personId = ''p1'', rls_clientId = ''c1'', rls_siteId = ''s1'', rls_allowedSiteIds = [''s1''],
     rls_scope = CLIENT\<rparr>"

lemma ex_createBulk_rows:
  "map (\<lambda>r. (in_email r, in_clientId r, in_siteId r, in_status r))
     (inv_rows (snd (createBulk ex_env (ex_cls CLIENT) (Inr (Tenant ex_ctx)) ex_dto (ex_state [])))) =
     [(''bob@x.io'', ''c1'', ''s1'', PENDING)]"
  by (simp add: createBulk_rows insert_bulk_def requirePerson_def requireAccessGrant_def ex_simps ex_dto_def
      ex_ctx_def target_client_def bulk_sites_def bulk_roles_def unique_def set_adds_def set_add_def
      site_visible_def validate_client_def validate_site_def check_site_def check_role_def find_by_def
      pending_conflicts_def Let_def insert_invitations_def create_rows_def group_ids_def group_by_def)

theorem createBulk_tenant_isolation_witness:
  "\<exists>new. inv_rows (snd (createBulk ex_env (ex_cls CLIENT) (Inr (Tenant ex_ctx)) ex_dto (ex_state []))) = new
     \<and> map in_email new = [''bob@x.io''] \<and> (\<forall>r\<in>set new. in_clientId r = ''c1'' \<and> in_status r = PENDING)"
proof -
  obtain res st' where c: "createBulk ex_env (ex_cls CLIENT) (Inr (Tenant ex_ctx)) ex_dto (ex_state []) = (res, st')"
    by fastforce
  from createBulk_tenant_isolation [OF this] have "\<forall>r\<in>set (inv_rows st'). in_clientId r = ''c1'' \<and> in_status r = PENDING"
    by (auto simp: ex_state_def ex_db_def inv_rows_def ex_ctx_def)
  moreover have "map in_email (inv_rows st') = [''bob@x.io'']"
    using arg_cong [OF ex_createBulk_rows, of "map fst"] by (simp add: c comp_def)
  ultimately show ?thesis by (simp add: c)
qed

text \<open>
  With a request body that passed the schema, creation never leaves two pending invitations for
  the same client, e-mail, site and role.
\<close>

theorem createBulk_no_duplicate_pending:
  assumes "parse_invitations raw = Inr (cd_invitations dto)" and "no_dup_pending (inv_rows st)"
  shows "no_dup_pending (inv_rows (snd (createBulk env cls session dto st)))"
  using insert_bulk_no_dup [OF _ assms(1)] assms(2)
  unfolding createBulk_rows by (auto simp: inv_rows_def split: sum.split)

theorem createBulk_no_duplicate_pending_witness:
  "no_dup_pending (inv_rows (snd (createBulk ex_env (ex_cls CLIENT) (Inr (Tenant ex_ctx)) ex_dto (ex_state []))))"
proof (rule createBulk_no_duplicate_pending [where raw = "[Flat ''bob@x.io'' ''s1'' ''r1'']"])
  have "toLowerCase ''bob@x.io'' = ''bob@x.io''" by code_simp
  then show "parse_invitations [Flat ''bob@x.io'' ''s1'' ''r1''] = Inr (cd_invitations ex_dto)"
    by (simp add: parse_invitations_def Let_def ex_dto_def unique_def set_adds_def set_add_def)
  show "no_dup_pending (inv_rows (ex_state []))"
    by (simp add: no_dup_pending_def ex_state_def ex_db_def inv_rows_def)
qed

text \<open>
  Renewing is not atomic: when it fails after the original was found pending, the original
  invitation has nevertheless been revoked.
\<close>

theorem renew_failure_revokes:
  assumes "fst (renew env cls session i days st) = Inl e"
    and "visible_invitation session (is_db st) i = Inr original" and "in_status original = PENDING"
  shows "\<exists>r\<in>set (inv_rows (snd (renew env cls session i days st))). in_id r = i \<and> in_status r = REVOKED"
proof -
  let ?t = "invitations_to_accept (inv_rows st) original"
  let ?f = "\<lambda>r. if in_id r \<in> in_id ` set ?t then r\<lparr>in_status := REVOKED\<rparr> else r"
  from assms(2) have o: "original \<in> set (inv_rows st)" "in_id original = i"
    by (auto simp: inv_rows_def elim: visible_invitation_InrD)
  have t: "original \<in> set ?t" using to_accept_self [OF o(1) assms(3)] .
  then have "?t \<noteq> []" by auto
  then obtain dto where "renew env cls session i days st =
      createBulk env cls session dto (set_invitations st (map ?f (inv_rows st)))"
    using assms(2,3) by (auto simp: renew_def Let_def inv_rows_def [symmetric])
  then obtain new where rows: "inv_rows (snd (renew env cls session i days st)) = map ?f (inv_rows st) @ new"
    using createBulk_prefix [of env cls session dto "set_invitations st (map ?f (inv_rows st))"] by auto
  have "?f original \<in> set (inv_rows (snd (renew env cls session i days st)))"
    unfolding rows set_append set_map using o(1) by (intro UnI1 imageI)
  moreover have "in_id (?f original) = i \<and> in_status (?f original) = REVOKED" using o t by auto
  ultimately show ?thesis by (rule bexI [rotated])
qed

theorem renew_failure_revokes_witness:
  "let st' = snd (renew ex_env cls_empty (Inr Bypass) ''i1'' None ex_group)
   in \<exists>r\<in>set (inv_rows st'). in_id r = ''i1'' \<and> in_status r = REVOKED"
proof -
  have v: "visible_invitation (Inr Bypass) (is_db ex_group) ''i1'' = Inr (ex_row ''i1'' (Some ''g'') ''s1'' PENDING)"
    by (simp add: visible_invitation_def invitation_visible_def find_by_def ex_simps)
  have "fst (renew ex_env cls_empty (Inr Bypass) ''i1'' None ex_group) =
      Inl (ServerError ''Person was required but not found in CLS context.'')"
    by (simp add: renew_def v ex_group_to_accept)
      (simp add: ex_row_def createBulk_def insert_bulk_def requirePerson_def cls_empty_def)
  from renew_failure_revokes [OF this v] show ?thesis by (simp add: ex_row_def)
qed

end
