(* ===== verification/Members.thy ===== *)
theory Members
  imports Invitations Auth_Service
begin

section \<open>Members of a client\<close>

text \<open>
  \<^verbatim>\<open>src/src/clients/members/members.service.ts\<close>: the people who have access rows in the caller's
  client. Every query goes through \<open>prisma.build()\<close>, so it sees and touches only the rows the session
  shows; an insert must satisfy the policy of its table (the policies have no separate check
  expression) and the foreign keys, whose checks the database makes outside row-level security.
  Database errors are \<open>P2002\<close> (unique tuple) and \<open>P2003\<close> (foreign key). The call that makes the
  identity provider send a mail is the parameter \<open>resetMail\<close>.
\<close>

definition set_accesses :: "tenant_db \<Rightarrow> access_row list \<Rightarrow> tenant_db" where
  "set_accesses db rows = db\<lparr>db_accesses := rows\<rparr>"

definition visible_person :: "rls_session \<Rightarrow> tenant_db \<Rightarrow> id \<Rightarrow> person_row result" where
  "visible_person sess db i =
     (case find_by pe_id i (filter (person_visible db sess) (db_persons db)) of
        None \<Rightarrow> Inl (NotFoundException ''Not Found'') | Some p \<Rightarrow> Inr p)"

definition member_invite ::
    "invite_env \<Rightarrow> cls_store \<Rightarrow> rls_session result \<Rightarrow> string \<Rightarrow> (id \<times> id) list \<Rightarrow> int option \<Rightarrow> inv_state
     \<Rightarrow> invitation_row list result \<times> inv_state" where
  "member_invite env cls session email assignments days st =
     createBulk env cls session
       \<lparr>cd_clientId = None, cd_expiresInDays = days,
        cd_invitations = map (\<lambda>(s, r). \<lparr>ie_email = email, ie_siteId = s, ie_roleId = r\<rparr>) assignments\<rparr> st"

definition member_findOne ::
    "cls_store \<Rightarrow> rls_session result \<Rightarrow> id \<Rightarrow> tenant_db \<Rightarrow> (person_row \<times> access_row list) result" where
  "member_findOne cls session i db =
     bindr (requireAccessGrant cls) (\<lambda>g. bindr session (\<lambda>sess. bindr (visible_person sess db i) (\<lambda>p.
       Inr (p, filter (\<lambda>a. access_visible sess a \<and> pca_personId a = pe_id p \<and> pca_clientId a = ag_clientId g)
              (db_accesses db)))))"

definition sendResetPasswordEmail ::
    "(id \<Rightarrow> unit result) \<Rightarrow> cls_store \<Rightarrow> rls_session result \<Rightarrow> id \<Rightarrow> tenant_db \<Rightarrow> unit result" where
  "sendResetPasswordEmail resetMail cls session i db =
     bindr (requireAccessGrant cls) (\<lambda>g. bindr session (\<lambda>sess. bindr (visible_person sess db i) (\<lambda>p.
       if \<not> list_ex (\<lambda>a. access_visible sess a \<and> pca_personId a = i \<and> pca_clientId a = ag_clientId g) (db_accesses db)
       then Inl (NotFoundException ''Not Found'')
       else if \<not> truthy (pe_idpId p)
       then Inl (NotFoundException ''Member does not have an identity provider account'')
       else resetMail (the (pe_idpId p)))))"

definition clear_member_cache ::
    "('c, access_grant_result) cache_ops \<Rightarrow> person_row \<Rightarrow> id \<Rightarrow> id option \<Rightarrow> id list option \<Rightarrow> 'c \<Rightarrow> 'c" where
  "clear_member_cache ops p clientId siteId siteIds c =
     (if truthy (pe_idpId p)
      then clearAccessGrantResponseCache (the (pe_idpId p)) clientId siteId siteIds (cache_mdel ops c) else c)"

subsection \<open>Adding a role\<close>

definition insert_access :: "rls_session \<Rightarrow> tenant_db \<Rightarrow> access_row \<Rightarrow> tenant_db result" where
  "insert_access sess db row =
     (if \<not> access_visible sess row then Inl (ServerError ''row-level security'')
      else if access_key row \<in> access_key ` set (db_accesses db) \<or> pca_id row \<in> pca_id ` set (db_accesses db)
      then Inl (ConflictException ''P2002'')
      else if pca_clientId row \<notin> cl_id ` set (db_clients db) \<or> pca_siteId row \<notin> st_id ` set (db_sites db)
           \<or> pca_roleId row \<notin> ro_id ` set (db_roles db)
      then Inl (ServerError ''P2003'')
      else Inr (set_accesses db (db_accesses db @ [row])))"

definition addRole ::
    "('c, access_grant_result) cache_ops \<Rightarrow> time \<Rightarrow> id \<Rightarrow> cls_store \<Rightarrow> rls_session result \<Rightarrow> id \<Rightarrow> id \<Rightarrow> id
     \<Rightarrow> 'c \<Rightarrow> tenant_db \<Rightarrow> access_row result \<times> 'c \<times> tenant_db" where
  "addRole ops now newId cls session i roleId siteId c db =
     (case bindr (requireAccessGrant cls) (\<lambda>g. bindr session (\<lambda>sess. bindr (visible_person sess db i) (\<lambda>p.
         let hasPrimary = list_ex (\<lambda>a. access_visible sess a \<and> pca_personId a = i
               \<and> pca_clientId a = ag_clientId g \<and> pca_siteId a = siteId \<and> pca_isPrimary a) (db_accesses db);
             row = \<lparr>pca_id = newId, pca_createdOn = now, pca_isPrimary = hasPrimary, pca_personId = i,
                    pca_clientId = ag_clientId g, pca_siteId = siteId, pca_roleId = roleId\<rparr>
         in bindr (insert_access sess db row) (\<lambda>db'. Inr (p, row, db'))))) of
        Inl e \<Rightarrow> (Inl e, c, db)
      | Inr (p, row, db') \<Rightarrow>
          (Inr row, clear_member_cache ops p (pca_clientId row) (Some (pca_siteId row)) None c, db'))"

subsection \<open>Removing a role or a member\<close>

definition promote :: "rls_session \<Rightarrow> id \<Rightarrow> access_row list \<Rightarrow> access_row list" where
  \<comment> \<open>the oldest visible row decides the client and site whose visible rows become primary\<close>
  "promote sess i rows =
     (case order_asc pca_createdOn (filter (\<lambda>a. access_visible sess a \<and> pca_personId a = i) rows) of
        [] \<Rightarrow> rows
      | oldest # _ \<Rightarrow>
          map (\<lambda>a. if access_visible sess a \<and> pca_personId a = i \<and> pca_clientId a = pca_clientId oldest
                      \<and> pca_siteId a = pca_siteId oldest
                   then a\<lparr>pca_isPrimary := True\<rparr> else a) rows)"

definition removeRole_tx ::
    "access_grant \<Rightarrow> rls_session \<Rightarrow> id \<Rightarrow> id \<Rightarrow> id \<Rightarrow> access_row list \<Rightarrow> (access_row \<times> access_row list) result" where
  "removeRole_tx g sess i roleId siteId rows =
     (let vis = filter (access_visible sess) rows
      in case List.find (\<lambda>a. pca_personId a = i \<and> pca_clientId a = ag_clientId g
                \<and> pca_roleId a = roleId \<and> pca_siteId a = siteId) vis of
          None \<Rightarrow> Inl (NotFoundException ''Member does not have this role/site combination'')
        | Some access \<Rightarrow>
            if length (filter (\<lambda>a. pca_personId a = i \<and> pca_clientId a = ag_clientId g) vis) \<le> 1
            then Inl (BadRequestException ''Cannot remove the last role. A member must have at least one role to remain a member of the organization.'')
            else
              (let rows1 = filter (\<lambda>a. pca_id a \<noteq> pca_id access) rows
               in Inr (access,
                    if pca_isPrimary access
                       \<and> List.find (\<lambda>a. pca_personId a = i \<and> pca_isPrimary a) (filter (access_visible sess) rows1) = None
                    then promote sess i rows1 else rows1)))"

definition removeRole ::
    "('c, access_grant_result) cache_ops \<Rightarrow> cls_store \<Rightarrow> rls_session result \<Rightarrow> id \<Rightarrow> id \<Rightarrow> id
     \<Rightarrow> 'c \<Rightarrow> tenant_db \<Rightarrow> unit result \<times> 'c \<times> tenant_db" where
  "removeRole ops cls session i roleId siteId c db =
     (case bindr (requireAccessGrant cls) (\<lambda>g. bindr session (\<lambda>sess. bindr (visible_person sess db i) (\<lambda>p.
         bindr (removeRole_tx g sess i roleId siteId (db_accesses db)) (\<lambda>r. Inr (p, r))))) of
        Inl e \<Rightarrow> (Inl e, c, db)
      | Inr (p, access, rows) \<Rightarrow>
          (Inr (), clear_member_cache ops p (pca_clientId access) (Some (pca_siteId access)) None c,
           set_accesses db rows))"

definition remove_tx :: "access_grant \<Rightarrow> rls_session \<Rightarrow> id \<Rightarrow> access_row list \<Rightarrow> access_row list" where
  "remove_tx g sess i rows =
     (let hadPrimaryAccess = list_ex (\<lambda>a. access_visible sess a \<and> pca_personId a = i \<and> pca_isPrimary a) rows;
          rows1 = filter (\<lambda>a. \<not> (access_visible sess a \<and> pca_personId a = i \<and> pca_clientId a = ag_clientId g)) rows
      in if hadPrimaryAccess then promote sess i rows1 else rows1)"

definition member_remove ::
    "('c, access_grant_result) cache_ops \<Rightarrow> cls_store \<Rightarrow> rls_session result \<Rightarrow> id
     \<Rightarrow> 'c \<Rightarrow> tenant_db \<Rightarrow> unit result \<times> 'c \<times> tenant_db" where
  "member_remove ops cls session i c db =
     (case bindr (requireAccessGrant cls) (\<lambda>g. bindr session (\<lambda>sess. bindr (visible_person sess db i) (\<lambda>p.
         Inr (g, sess, p)))) of
        Inl e \<Rightarrow> (Inl e, c, db)
      | Inr (g, sess, p) \<Rightarrow>
          (let siteIds = map pca_siteId (filter (\<lambda>a. access_visible sess a \<and> pca_personId a = i
                 \<and> pca_clientId a = ag_clientId g) (db_accesses db))
           in (Inr (), clear_member_cache ops p (ag_clientId g) None (Some siteIds) c,
               set_accesses db (remove_tx g sess i (db_accesses db)))))"

subsection \<open>Lemmas\<close>

lemma access_visible_primary [simp]: "access_visible sess (a\<lparr>pca_isPrimary := b\<rparr>) = access_visible sess a"
  by (simp add: access_visible_def split: rls_session.splits)

text \<open>A promotion only sets primary flags.\<close>

lemma promote_cases:
  obtains "promote sess i rows = rows"
    "\<not> (\<exists>a\<in>set rows. access_visible sess a \<and> pca_personId a = i)"
  | old where "old \<in> set rows" "access_visible sess old" "pca_personId old = i"
    "promote sess i rows = map (\<lambda>a. if access_visible sess a \<and> pca_personId a = i
        \<and> pca_clientId a = pca_clientId old \<and> pca_siteId a = pca_siteId old
        then a\<lparr>pca_isPrimary := True\<rparr> else a) rows"
proof (cases "order_asc pca_createdOn (filter (\<lambda>a. access_visible sess a \<and> pca_personId a = i) rows)")
  case Nil
  then have "filter (\<lambda>a. access_visible sess a \<and> pca_personId a = i) rows = []"
    by (metis set_empty set_order_asc)
  with Nil show ?thesis by (intro that(1)) (auto simp: promote_def filter_empty_conv)
next
  case (Cons old rest)
  then have "old \<in> set (filter (\<lambda>a. access_visible sess a \<and> pca_personId a = i) rows)"
    by (metis list.set_intros(1) set_order_asc)
  with Cons show ?thesis by (intro that(2) [of old]) (auto simp: promote_def)
qed

lemma map_if_primary:
  "map access_key (map (\<lambda>a. if P a then a\<lparr>pca_isPrimary := True\<rparr> else a) rows) = map access_key rows"
  by simp

lemma promote_keys: "map access_key (promote sess i rows) = map access_key rows"
  by (rule promote_cases [of sess i rows]) (simp_all only: map_if_primary)

lemma promote_other:
  assumes "pca_personId a \<noteq> i"
  shows "a \<in> set (promote sess i rows) \<longleftrightarrow> a \<in> set rows"
proof (rule promote_cases [of sess i rows])
  fix old
  assume p: "promote sess i rows = map (\<lambda>a. if access_visible sess a \<and> pca_personId a = i
        \<and> pca_clientId a = pca_clientId old \<and> pca_siteId a = pca_siteId old
        then a\<lparr>pca_isPrimary := True\<rparr> else a) rows"
  show ?thesis unfolding p set_map image_iff using assms by (auto split: if_splits)
qed simp

lemma promote_primary:
  assumes "b \<in> set rows" "access_visible sess b" "pca_personId b = i"
  shows "\<exists>a\<in>set (promote sess i rows). access_visible sess a \<and> pca_personId a = i \<and> pca_isPrimary a"
proof (rule promote_cases [of sess i rows])
  fix old
  assume old: "old \<in> set rows" "access_visible sess old" "pca_personId old = i"
    and p: "promote sess i rows = map (\<lambda>a. if access_visible sess a \<and> pca_personId a = i
        \<and> pca_clientId a = pca_clientId old \<and> pca_siteId a = pca_siteId old
        then a\<lparr>pca_isPrimary := True\<rparr> else a) rows"
  have "old\<lparr>pca_isPrimary := True\<rparr> \<in> set (promote sess i rows)"
    unfolding p set_map image_iff using old by (intro bexI [of _ old]) simp_all
  moreover have "access_visible sess (old\<lparr>pca_isPrimary := True\<rparr>)" "pca_personId (old\<lparr>pca_isPrimary := True\<rparr>) = i"
    "pca_isPrimary (old\<lparr>pca_isPrimary := True\<rparr>)" using old by simp_all
  ultimately show ?thesis by blast
qed (use assms in blast)

lemma removeRole_txE:
  assumes "removeRole_tx g sess i roleId siteId rows = Inr (access, rows')"
  obtains "access \<in> set rows" "access_visible sess access" "pca_personId access = i"
    "pca_clientId access = ag_clientId g" "pca_roleId access = roleId" "pca_siteId access = siteId"
    "1 < length (filter (\<lambda>a. pca_personId a = i \<and> pca_clientId a = ag_clientId g) (filter (access_visible sess) rows))"
    "rows' = (let rows1 = filter (\<lambda>a. pca_id a \<noteq> pca_id access) rows in
       if pca_isPrimary access
          \<and> \<not> (\<exists>a\<in>set rows1. access_visible sess a \<and> pca_personId a = i \<and> pca_isPrimary a)
       then promote sess i rows1 else rows1)"
proof -
  let ?P = "\<lambda>a. pca_personId a = i \<and> pca_clientId a = ag_clientId g \<and> pca_roleId a = roleId \<and> pca_siteId a = siteId"
  let ?vis = "filter (access_visible sess) rows"
  let ?n = "length (filter (\<lambda>a. pca_personId a = i \<and> pca_clientId a = ag_clientId g) ?vis)"
  from assms obtain a where f: "List.find ?P ?vis = Some a" and n: "\<not> ?n \<le> 1"
    and r: "access = a" "rows' = (let rows1 = filter (\<lambda>a. pca_id a \<noteq> pca_id access) rows in
       if pca_isPrimary access
          \<and> List.find (\<lambda>a. pca_personId a = i \<and> pca_isPrimary a) (filter (access_visible sess) rows1) = None
       then promote sess i rows1 else rows1)"
    unfolding removeRole_tx_def Let_def by (auto split: option.splits if_splits)
  from find_SomeD [OF f] have "a \<in> set ?vis \<and> ?P a" by simp
  with r n show thesis
    by (intro that) (auto simp: find_None_iff Let_def)
qed

lemma removeRoleE:
  assumes "removeRole ops cls session i roleId siteId c db = (Inr u, c', db')"
  obtains g sess p access rows where "cls_accessGrant cls = Some g" "session = Inr sess"
    "visible_person sess db i = Inr p"
    "removeRole_tx g sess i roleId siteId (db_accesses db) = Inr (access, rows)"
    "db' = set_accesses db rows"
    "c' = clear_member_cache ops p (pca_clientId access) (Some (pca_siteId access)) None c"
  using assms unfolding removeRole_def
  by (auto split: sum.splits simp: bindr_Inr_iff intro: that)

lemma two_in_filter:
  assumes "distinct (map f xs)" and "1 < length (filter P xs)"
  shows "\<exists>b\<in>set xs. P b \<and> f b \<noteq> f a"
proof (rule ccontr)
  assume no: "\<not> ?thesis"
  have "distinct (map f (filter P xs))" using assms(1) by (rule distinct_map_filter)
  moreover have "set (map f (filter P xs)) \<subseteq> {f a}" using no by auto
  ultimately have "length (map f (filter P xs)) \<le> 1"
    by (metis card_mono distinct_card finite.emptyI finite_insert is_singletonI is_singleton_altdef)
  with assms(2) show False by simp
qed

lemma removeRole_tx_keeps:
  assumes tx: "removeRole_tx g sess i roleId siteId rows = Inr (access, rows')"
    and dist: "distinct (map pca_id rows)"
  shows "\<exists>a\<in>set rows'. access_visible sess a \<and> pca_personId a = i \<and> pca_clientId a = ag_clientId g"
    and "b \<in> set rows \<Longrightarrow> access_visible sess b \<Longrightarrow> pca_personId b = i \<Longrightarrow> pca_isPrimary b \<Longrightarrow>
         \<exists>a\<in>set rows'. access_visible sess a \<and> pca_personId a = i \<and> pca_isPrimary a"
    and "map access_key rows' = map access_key (filter (\<lambda>a. pca_id a \<noteq> pca_id access) rows)"
    and "pca_personId d \<noteq> i \<Longrightarrow> d \<in> set rows' \<longleftrightarrow> d \<in> set rows"
proof -
  let ?rows1 = "filter (\<lambda>a. pca_id a \<noteq> pca_id access) rows"
  from tx obtain acc: "access \<in> set rows" "access_visible sess access" "pca_personId access = i"
      "pca_clientId access = ag_clientId g"
    and two: "1 < length (filter (\<lambda>a. pca_personId a = i \<and> pca_clientId a = ag_clientId g) (filter (access_visible sess) rows))"
    and rows': "rows' = ?rows1 \<or> rows' = promote sess i ?rows1"
    and prom: "pca_isPrimary access \<Longrightarrow>
        \<not> (\<exists>a\<in>set ?rows1. access_visible sess a \<and> pca_personId a = i \<and> pca_isPrimary a) \<Longrightarrow>
        rows' = promote sess i ?rows1"
    by (elim removeRole_txE) (auto simp: Let_def split: if_splits)
  have "distinct (map pca_id (filter (access_visible sess) rows))" using dist by (rule distinct_map_filter)
  from two_in_filter [OF this two, of access] obtain k where
    k: "k \<in> set ?rows1" "access_visible sess k" "pca_personId k = i" "pca_clientId k = ag_clientId g" by auto
  show keys: "map access_key rows' = map access_key ?rows1" using rows' by (auto simp: promote_keys)
  show oth: "pca_personId d \<noteq> i \<Longrightarrow> d \<in> set rows' \<longleftrightarrow> d \<in> set rows"
    using rows' acc dist by (auto simp: promote_other) (metis distinct_map inj_onD)+
  show "\<exists>a\<in>set rows'. access_visible sess a \<and> pca_personId a = i \<and> pca_clientId a = ag_clientId g"
  proof -
    have "access_key k \<in> set (map access_key rows')" unfolding keys using k(1) by simp
    then obtain a where a: "a \<in> set rows'" "access_key a = access_key k" by auto
    with k have "access_visible sess a" "pca_personId a = i" "pca_clientId a = ag_clientId g"
      by (auto simp: access_key_def access_visible_def split: rls_session.splits)
    with a(1) show ?thesis by blast
  qed
  show "\<exists>a\<in>set rows'. access_visible sess a \<and> pca_personId a = i \<and> pca_isPrimary a"
    if b: "b \<in> set rows" "access_visible sess b" "pca_personId b = i" "pca_isPrimary b"
  proof (cases "\<exists>a\<in>set ?rows1. access_visible sess a \<and> pca_personId a = i \<and> pca_isPrimary a")
    case False
    with b have "b = access" using acc(1) dist by (auto simp: distinct_map dest: inj_onD)
    with b False prom have "rows' = promote sess i ?rows1" by simp
    with promote_primary [OF k(1-3)] show ?thesis by simp
  next
    case True
    then obtain a where a: "a \<in> set ?rows1" "access_visible sess a" "pca_personId a = i" "pca_isPrimary a" by blast
    from rows' show ?thesis
    proof
      assume "rows' = ?rows1" with a show ?thesis by blast
    next
      assume "rows' = promote sess i ?rows1" with promote_primary [OF a(1-3)] show ?thesis by simp
    qed
  qed
qed

lemma member_removeE:
  assumes "member_remove ops cls session i c db = (Inr u, c', db')"
  obtains g sess p where "cls_accessGrant cls = Some g" "session = Inr sess" "visible_person sess db i = Inr p"
    "db' = set_accesses db (remove_tx g sess i (db_accesses db))"
  using assms unfolding member_remove_def Let_def
  by (auto split: sum.splits simp: bindr_Inr_iff intro: that)

lemma addRole_accepts:
  assumes "cls_accessGrant cls = Some g" "visible_person (Tenant ctx) db i = Inr p" "rls_clientId ctx = ag_clientId g"
    and "ag_clientId g \<in> cl_id ` set (db_clients db)" "siteId \<in> st_id ` set (db_sites db)"
      "roleId \<in> ro_id ` set (db_roles db)"
    and "(i, ag_clientId g, siteId, roleId) \<notin> access_key ` set (db_accesses db)"
      "newId \<notin> pca_id ` set (db_accesses db)"
  shows "\<exists>row c' db'. addRole ops now newId cls (Inr (Tenant ctx)) i roleId siteId c db = (Inr row, c', db')
     \<and> access_key row = (i, ag_clientId g, siteId, roleId) \<and> db' = set_accesses db (db_accesses db @ [row])"
  using assms
  by (simp add: addRole_def requireAccessGrant_def insert_access_def access_visible_def validate_client_def
      access_key_def Let_def)

lemma set_accesses_fields [simp]:
  "db_accesses (set_accesses db rows) = rows" "db_persons (set_accesses db rows) = db_persons db"
  "db_roles (set_accesses db rows) = db_roles db" "db_sites (set_accesses db rows) = db_sites db"
  by (simp_all add: set_accesses_def)

lemma system_role_grant:
  assumes "has_system_role db (u_idpId user) role"
  shows "\<exists>g. getAccessGrantForUserFromDatabase emails db user
      \<lparr>requestedClientId = Some (a # cid), requestedSiteId = Some (b # sid), accessIntent = Some system\<rparr> = Inr (Grant g)
     \<and> ag_scope g = SYSTEM"
proof -
  from assms have "user_roles_in db (u_idpId user) (getScopesAtLeast SYSTEM) \<noteq> []"
    by (metis empty_iff getScopesAtLeast_SYSTEM has_system_role_def list.set(1) list.set_intros(1) mem_user_roles_in)
  then obtain r where r: "getMostPermissiveRole db user SYSTEM = Some r"
    by (cases "getMostPermissiveRole db user SYSTEM") (auto simp: getMostPermissiveRole_None_iff)
  then have "ro_scope r = SYSTEM"
    using getMostPermissiveRole_SomeD(1) [OF r] by (auto simp: mem_user_roles_in)
  with r show ?thesis
    by (simp add: getAccessGrantForUserFromDatabase_def getSystemAdminAccessGrant_def)
qed

subsection \<open>Properties\<close>

text \<open>
  Removing a role deletes exactly the row of that role and site, leaves the person a member of
  the client, leaves the person a primary row wherever the session showed one before, and changes no
  other person's rows.
\<close>

theorem removeRole_correct:
  assumes "removeRole ops cls (Inr sess) i roleId siteId c db = (Inr u, c', db')"
    and "cls_accessGrant cls = Some g" and "distinct (map pca_id (db_accesses db))"
  shows "(\<exists>access\<in>set (db_accesses db). access_key access = (i, ag_clientId g, siteId, roleId)
         \<and> map access_key (db_accesses db') = map access_key (filter (\<lambda>a. pca_id a \<noteq> pca_id access) (db_accesses db)))
     \<and> (\<exists>a\<in>set (db_accesses db'). pca_personId a = i \<and> pca_clientId a = ag_clientId g)
     \<and> ((\<exists>b\<in>set (db_accesses db). access_visible sess b \<and> pca_personId b = i \<and> pca_isPrimary b) \<longrightarrow>
         (\<exists>a\<in>set (db_accesses db'). pca_personId a = i \<and> pca_isPrimary a))
     \<and> (\<forall>d. pca_personId d \<noteq> i \<longrightarrow> d \<in> set (db_accesses db') \<longleftrightarrow> d \<in> set (db_accesses db))"
proof -
  from assms(1,2) obtain access rows where
    tx: "removeRole_tx g sess i roleId siteId (db_accesses db) = Inr (access, rows)"
    and db': "db_accesses db' = rows"
    by (elim removeRoleE) simp
  note K = removeRole_tx_keeps [OF tx assms(3)]
  have "access \<in> set (db_accesses db) \<and> access_key access = (i, ag_clientId g, siteId, roleId)"
    using tx by (auto elim: removeRole_txE simp: access_key_def)
  then show ?thesis using K(1,2,3,4) unfolding db' by blast
qed

definition ex_member :: "id \<Rightarrow> time \<Rightarrow> bool \<Rightarrow> id \<Rightarrow> id \<Rightarrow> id \<Rightarrow> access_row" where
  "ex_member n t prim cl s r = \<lparr>pca_id = n, pca_createdOn = t, pca_isPrimary = prim, pca_personId = ''p1'',
     pca_clientId = cl, pca_siteId = s, pca_roleId = r\<rparr>"

definition ex_members :: tenant_db where
  "ex_members = (ex_db [])\<lparr>db_accesses := [ex_member ''a1'' 1 True ''c1'' ''s1'' ''r1'', ex_member ''a2'' 2 False ''c1'' ''s2'' ''r1'']\<rparr>"

lemma ex_visible_p1:
  "visible_person sess db ''p1'' = Inr (ex_person ''p1'' ''Ann@X.io'')"
  if "db_persons db = [ex_person ''p0'' ''boss@x.io'', ex_person ''p1'' ''Ann@X.io'']"
    "person_visible db sess (ex_person ''p1'' ''Ann@X.io'')"
  using that by (auto simp: visible_person_def find_by_def ex_person_def)

theorem removeRole_correct_witness:
  "let db' = snd (snd (removeRole mem_ops (ex_cls CLIENT) (Inr (Tenant ex_ctx)) ''p1'' ''r1'' ''s1'' Map.empty ex_members))
   in map access_key (db_accesses db') = [(''p1'', ''c1'', ''s2'', ''r1'')]
      \<and> (\<exists>a\<in>set (db_accesses db'). pca_personId a = ''p1'' \<and> pca_isPrimary a)"
proof -
  let ?s = "Tenant ex_ctx"
  have "person_visible ex_members ?s (ex_person ''p1'' ''Ann@X.io'')"
    by (simp add: person_visible_def ex_members_def ex_member_def ex_person_def validate_client_def ex_ctx_def access_visible_def)
  then have v: "visible_person ?s ex_members ''p1'' = Inr (ex_person ''p1'' ''Ann@X.io'')"
    by (intro ex_visible_p1) (simp add: ex_members_def ex_db_def)
  obtain rows where tx: "removeRole_tx (ex_grant CLIENT) ?s ''p1'' ''r1'' ''s1'' (db_accesses ex_members)
      = Inr (ex_member ''a1'' 1 True ''c1'' ''s1'' ''r1'', rows)"
    by (simp add: removeRole_tx_def ex_members_def ex_member_def ex_grant_def access_visible_def validate_client_def ex_ctx_def)
  obtain c' db' where r: "removeRole mem_ops (ex_cls CLIENT) (Inr ?s) ''p1'' ''r1'' ''s1'' Map.empty ex_members = (Inr (), c', db')"
    using v tx by (simp add: removeRole_def requireAccessGrant_def ex_cls_def)
  have "distinct (map pca_id (db_accesses ex_members))" by (simp add: ex_members_def ex_member_def)
  moreover have "cls_accessGrant (ex_cls CLIENT) = Some (ex_grant CLIENT)" by (simp add: ex_cls_def)
  ultimately have "\<exists>access\<in>set (db_accesses ex_members). access_key access = (''p1'', ''c1'', ''s1'', ''r1'')
         \<and> map access_key (db_accesses db') = map access_key (filter (\<lambda>a. pca_id a \<noteq> pca_id access) (db_accesses ex_members))"
    and "\<exists>a\<in>set (db_accesses db'). pca_personId a = ''p1'' \<and> pca_isPrimary a"
    using removeRole_correct [OF r] by (simp_all add: ex_members_def ex_member_def ex_grant_def access_visible_def
        validate_client_def ex_ctx_def)
  then show ?thesis unfolding r Let_def snd_conv by (auto simp: ex_members_def ex_member_def access_key_def)
qed

text \<open>
  Adding a role checks neither whether clients may assign the role nor its scope: a tenant
  session may add any existing role, at any existing site, to any member it sees, and when the role
  has SYSTEM scope that member's next request with the system intent is granted SYSTEM scope on
  whatever client it names.
\<close>

theorem addRole_allows_escalation:
  assumes "cls_accessGrant cls = Some g" "visible_person (Tenant ctx) db i = Inr p" "rls_clientId ctx = ag_clientId g"
    and "ag_clientId g \<in> cl_id ` set (db_clients db)" "siteId \<in> st_id ` set (db_sites db)"
    and "find_by ro_id roleId (db_roles db) = Some role" "ro_scope role = SYSTEM"
    and "(i, ag_clientId g, siteId, roleId) \<notin> access_key ` set (db_accesses db)"
      "newId \<notin> pca_id ` set (db_accesses db)"
    and "pe_idpId p = Some (u_idpId user)"
  shows "\<exists>row c' db' g'. addRole ops now newId cls (Inr (Tenant ctx)) i roleId siteId c db = (Inr row, c', db')
     \<and> getAccessGrantForUserFromDatabase emails db' user
          \<lparr>requestedClientId = Some (x # cid), requestedSiteId = Some (y # sid), accessIntent = Some system\<rparr> = Inr (Grant g')
     \<and> ag_scope g' = SYSTEM"
proof -
  have "roleId \<in> ro_id ` set (db_roles db)" using find_by_SomeD [OF assms(6)] by auto
  from addRole_accepts [OF assms(1-5) this assms(8,9), where ops = ops and now = now and c = c] obtain row c' db' where
    add: "addRole ops now newId cls (Inr (Tenant ctx)) i roleId siteId c db = (Inr row, c', db')"
    and row: "access_key row = (i, ag_clientId g, siteId, roleId)" and db': "db' = set_accesses db (db_accesses db @ [row])"
    by (elim exE conjE) (rule that)
  from assms(2) have "p \<in> set (db_persons db)" "pe_id p = i"
    by (auto simp: visible_person_def dest!: find_by_SomeD split: option.splits)
  then have "person_has_idp db' (u_idpId user) (pca_personId row)"
    using row assms(10) by (auto simp: person_has_idp_def list_ex_iff db' access_key_def)
  then have "has_system_role db' (u_idpId user) role"
    using row assms(6,7) by (auto simp: has_system_role_def db' access_key_def)
  from system_role_grant [OF this] show ?thesis unfolding add by simp
qed

theorem addRole_allows_escalation_witness:
  "let db = ex_members\<lparr>db_roles := [ex_role ''r1'' CLIENT, ex_role ''r9'' SYSTEM]\<rparr>
   in \<exists>row c' db' g'. addRole mem_ops 9 ''new'' (ex_cls CLIENT) (Inr (Tenant ex_ctx)) ''p1'' ''r9'' ''s2'' Map.empty db
          = (Inr row, c', db')
     \<and> getAccessGrantForUserFromDatabase [] db' (ex_user ''idp-p1'')
          \<lparr>requestedClientId = Some ''c7'', requestedSiteId = Some ''s7'', accessIntent = Some system\<rparr> = Inr (Grant g')
     \<and> ag_scope g' = SYSTEM"
proof -
  let ?db = "ex_members\<lparr>db_roles := [ex_role ''r1'' CLIENT, ex_role ''r9'' SYSTEM]\<rparr>"
  have "person_visible ?db (Tenant ex_ctx) (ex_person ''p1'' ''Ann@X.io'')"
    by (simp add: person_visible_def ex_members_def ex_member_def ex_person_def validate_client_def ex_ctx_def access_visible_def)
  then have v: "visible_person (Tenant ex_ctx) ?db ''p1'' = Inr (ex_person ''p1'' ''Ann@X.io'')"
    by (intro ex_visible_p1) (simp add: ex_members_def ex_db_def)
  have g: "cls_accessGrant (ex_cls CLIENT) = Some (ex_grant CLIENT)" "rls_clientId ex_ctx = ag_clientId (ex_grant CLIENT)"
    by (simp_all add: ex_cls_def ex_ctx_def ex_grant_def)
  have t: "ag_clientId (ex_grant CLIENT) \<in> cl_id ` set (db_clients ?db)" "''s2'' \<in> st_id ` set (db_sites ?db)"
    "find_by ro_id ''r9'' (db_roles ?db) = Some (ex_role ''r9'' SYSTEM)" "ro_scope (ex_role ''r9'' SYSTEM) = SYSTEM"
    "(''p1'', ag_clientId (ex_grant CLIENT), ''s2'', ''r9'') \<notin> access_key ` set (db_accesses ?db)"
    "''new'' \<notin> pca_id ` set (db_accesses ?db)"
    "pe_idpId (ex_person ''p1'' ''Ann@X.io'') = Some (u_idpId (ex_user ''idp-p1''))"
    by (simp_all add: ex_members_def ex_member_def ex_db_def ex_site_def ex_role_def ex_grant_def ex_person_def
        ex_user_def find_by_def access_key_def)
  show ?thesis
    unfolding Let_def by (rule addRole_allows_escalation [OF g(1) v g(2) t])
qed

text \<open>
  Removing a member under a tenant session deletes exactly the member's rows in that client and
  changes nothing else: no row of another client is promoted to primary, even when the deleted ones
  were the member's primary rows.
\<close>

theorem member_remove_tenant_never_promotes:
  assumes "member_remove ops cls (Inr (Tenant ctx)) i c db = (Inr u, c', db')"
    and "cls_accessGrant cls = Some g" and "rls_clientId ctx = ag_clientId g"
  shows "db_accesses db' = filter (\<lambda>a. \<not> (pca_personId a = i \<and> pca_clientId a = ag_clientId g)) (db_accesses db)"
proof -
  let ?rows1 = "filter (\<lambda>a. \<not> (access_visible (Tenant ctx) a \<and> pca_personId a = i \<and> pca_clientId a = ag_clientId g)) (db_accesses db)"
  have eq: "?rows1 = filter (\<lambda>a. \<not> (pca_personId a = i \<and> pca_clientId a = ag_clientId g)) (db_accesses db)"
    by (rule filter_cong) (auto simp: access_visible_def validate_client_def assms(3))
  have "promote (Tenant ctx) i ?rows1 = ?rows1"
    by (rule promote_cases [of "Tenant ctx" i ?rows1]) (auto simp: access_visible_def validate_client_def assms(3))
  with assms(1,2) eq show ?thesis
    by (elim member_removeE) (auto simp: remove_tx_def Let_def)
qed

theorem member_remove_tenant_never_promotes_witness:
  "let db = ex_members\<lparr>db_accesses := [ex_member ''a1'' 1 True ''c1'' ''s1'' ''r1'', ex_member ''a2'' 2 False ''c2'' ''s9'' ''r1'']\<rparr>
   in db_accesses (snd (snd (member_remove mem_ops (ex_cls CLIENT) (Inr (Tenant ex_ctx)) ''p1'' Map.empty db)))
      = [ex_member ''a2'' 2 False ''c2'' ''s9'' ''r1'']"
proof -
  let ?db = "ex_members\<lparr>db_accesses := [ex_member ''a1'' 1 True ''c1'' ''s1'' ''r1'', ex_member ''a2'' 2 False ''c2'' ''s9'' ''r1'']\<rparr>"
  have "person_visible ?db (Tenant ex_ctx) (ex_person ''p1'' ''Ann@X.io'')"
    by (simp add: person_visible_def ex_member_def ex_person_def validate_client_def ex_ctx_def access_visible_def)
  then have v: "visible_person (Tenant ex_ctx) ?db ''p1'' = Inr (ex_person ''p1'' ''Ann@X.io'')"
    by (intro ex_visible_p1) (simp add: ex_members_def ex_db_def)
  have g: "cls_accessGrant (ex_cls CLIENT) = Some (ex_grant CLIENT)" "rls_clientId ex_ctx = ag_clientId (ex_grant CLIENT)"
    by (simp_all add: ex_cls_def ex_ctx_def ex_grant_def)
  obtain c' db' where r: "member_remove mem_ops (ex_cls CLIENT) (Inr (Tenant ex_ctx)) ''p1'' Map.empty ?db = (Inr (), c', db')"
    using v g by (simp add: member_remove_def requireAccessGrant_def)
  from member_remove_tenant_never_promotes [OF r g] show ?thesis
    unfolding r Let_def snd_conv by (simp add: ex_member_def ex_grant_def)
qed

text \<open>
  Removing a member in a session that bypasses row-level security can leave two primary sites:
  the code looks at the primary flags of all clients, so a person whose primary rows are elsewhere
  gets a second set of primary rows.
\<close>

theorem member_remove_bypass_breaks_primary:
  "let db = ex_members\<lparr>db_accesses := [ex_member ''a1'' 2 True ''c2'' ''s1'' ''r1'', ex_member ''a2'' 1 False ''c2'' ''s2'' ''r1'',
              ex_member ''a3'' 3 False ''c1'' ''s9'' ''r1'']\<rparr>;
       db' = snd (snd (member_remove mem_ops (ex_cls SYSTEM) (Inr Bypass) ''p1'' Map.empty db))
   in primary_consistent ''p1'' (db_accesses db) \<and> \<not> primary_consistent ''p1'' (db_accesses db')"
proof -
  let ?db = "ex_members\<lparr>db_accesses := [ex_member ''a1'' 2 True ''c2'' ''s1'' ''r1'', ex_member ''a2'' 1 False ''c2'' ''s2'' ''r1'',
              ex_member ''a3'' 3 False ''c1'' ''s9'' ''r1'']\<rparr>"
  have v: "visible_person Bypass ?db ''p1'' = Inr (ex_person ''p1'' ''Ann@X.io'')"
    by (intro ex_visible_p1) (simp_all add: ex_members_def ex_db_def person_visible_def)
  have g: "cls_accessGrant (ex_cls SYSTEM) = Some (ex_grant SYSTEM)" by (simp add: ex_cls_def)
  have "db_accesses (snd (snd (member_remove mem_ops (ex_cls SYSTEM) (Inr Bypass) ''p1'' Map.empty ?db))) =
      remove_tx (ex_grant SYSTEM) Bypass ''p1'' (db_accesses ?db)"
    using v g by (simp add: member_remove_def requireAccessGrant_def)
  also have "\<dots> = [ex_member ''a1'' 2 True ''c2'' ''s1'' ''r1'', ex_member ''a2'' 1 True ''c2'' ''s2'' ''r1'']"
    by (simp add: remove_tx_def promote_def ex_member_def ex_grant_def access_visible_def order_asc_def)
  finally show ?thesis
    unfolding Let_def by (auto simp: primary_consistent_def primaries_at_def ex_member_def)
qed

end
