(* ===== verification/Role_Admin.thy ===== *)
theory Role_Admin
  imports Sample_Data Memory_Cache
begin

section \<open>Administration of roles\<close>

text \<open>
  \<^verbatim>\<open>src/src/admin/roles/roles.service.ts\<close> with the request schemas of its \<open>dto\<close> directory and
  \<open>databaseRoleToRole\<close>. The state is the role table of the tenant tables and the cache of role data.
  Time stamps and the duplicate \<open>groupId\<close> of the answer are left out. Identifiers of new rows are
  arguments; the unique columns \<open>id\<close> and \<open>name\<close> of the table make an insert or an update fail with
  the database error \<open>P2002\<close>.
\<close>

definition NotificationGroupIds :: "string list" where
  "NotificationGroupIds =
     [''inspection_reminder'', ''inspection_due_soon_alert_level_1'', ''inspection_due_soon_alert_level_2'',
      ''inspection_due_soon_alert_level_3'', ''inspection_due_soon_alert_level_4'',
      ''monthly_compliance_report'', ''monthly_consumables_report'', ''inspection_alert_triggered'']"

definition databaseRoleToRole :: "role_row \<Rightarrow> role_row" where
  "databaseRoleToRole r =
     r\<lparr>ro_capabilities := filter isValidCapability (ro_capabilities r),
       ro_notificationGroups := filter (List.member NotificationGroupIds) (ro_notificationGroups r)\<rparr>"

record create_role_dto =
  cr_name :: string
  cr_description :: "string option"
  cr_scope :: role_scope
  cr_capabilities :: "string list"
  cr_notificationGroups :: "string list option"
  cr_clientAssignable :: bool

record update_role_dto =
  ur_name :: "string option"
  ur_description :: "string option"
  ur_scope :: "role_scope option"
  ur_capabilities :: "string list option"
  ur_notificationGroups :: "string list option"
  ur_clientAssignable :: "bool option"

text \<open>
  The update schema is \<open>CreateRoleSchema.partial()\<close> with \<open>clientAssignable\<close> redefined. A default
  inside an optional field still applies to a missing key (the note the schema itself links to), so a
  body without \<open>scope\<close> or \<open>capabilities\<close> is completed with the defaults of the create schema.
\<close>

definition parse_update_role :: "update_role_dto \<Rightarrow> update_role_dto" where
  "parse_update_role body =
     body\<lparr>ur_scope := Some (nullish_or (ur_scope body) SITE),
          ur_capabilities := Some (nullish_or (ur_capabilities body) [])\<rparr>"

definition set_roles :: "tenant_db \<Rightarrow> role_row list \<Rightarrow> tenant_db" where
  "set_roles db rows = db\<lparr>db_roles := rows\<rparr>"

definition write_roles :: "tenant_db \<Rightarrow> role_row list \<Rightarrow> tenant_db result" where
  \<comment> \<open>the unique columns of the table\<close>
  "write_roles db rows =
     (if distinct (map ro_id rows) \<and> distinct (map ro_name rows)
      then Inr (set_roles db rows) else Inl (ConflictException ''P2002''))"

definition role_not_found :: "id \<Rightarrow> api_error" where
  "role_not_found i = NotFoundException (''Role '' @ i @ '' not found'')"

definition role_name_taken :: "string \<Rightarrow> api_error" where
  "role_name_taken n = BadRequestException (''Role with name '' @ [CHR 0x22] @ n @ [CHR 0x22] @ '' already exists'')"

definition client_assignable_error :: api_error where
  "client_assignable_error =
     BadRequestException ''Client-assignable roles cannot have GLOBAL or SYSTEM scope.''"

definition check_capabilities :: "string list \<Rightarrow> unit result" where
  "check_capabilities cs =
     (let invalidCapabilities = filter (\<lambda>c. \<not> isValidCapability c) cs
      in if 0 < length invalidCapabilities
         then Inl (BadRequestException (''Invalid capabilities: '' @ join_with '', '' invalidCapabilities))
         else Inr ())"

definition createRole :: "id \<Rightarrow> create_role_dto \<Rightarrow> tenant_db \<Rightarrow> role_row result \<times> tenant_db" where
  "createRole newId dto db =
     (if find_by ro_name (cr_name dto) (db_roles db) \<noteq> None
      then (Inl (role_name_taken (cr_name dto)), db)
      else if cr_clientAssignable dto \<and> isScopeAtLeast (cr_scope dto) GLOBAL
      then (Inl client_assignable_error, db)
      else
        (let role = \<lparr>ro_id = newId, ro_name = cr_name dto, ro_description = cr_description dto,
                     ro_isSystem = False, ro_clientAssignable = cr_clientAssignable dto,
                     ro_notificationGroups = nullish_or (cr_notificationGroups dto) [],
                     ro_scope = cr_scope dto, ro_capabilities = cr_capabilities dto\<rparr>
         in case bindr (check_capabilities (cr_capabilities dto)) (\<lambda>_. write_roles db (db_roles db @ [role])) of
             Inl e \<Rightarrow> (Inl e, db)
           | Inr db' \<Rightarrow> (Inr (databaseRoleToRole role), db')))"

definition getRoles :: "(role_row list \<Rightarrow> role_row list) \<Rightarrow> cls_store \<Rightarrow> tenant_db \<Rightarrow> role_row list result" where
  \<comment> \<open>\<open>ordered\<close> is the database's \<open>ORDER BY isSystem DESC, name ASC\<close> under its collation\<close>
  "getRoles ordered cls db =
     bindr (requireAccessGrant cls) (\<lambda>g.
       Inr (map databaseRoleToRole (ordered
         (filter (\<lambda>r. isSystemAdmin g \<or> ro_clientAssignable r) (db_roles db)))))"

definition getRole :: "cls_store \<Rightarrow> id \<Rightarrow> tenant_db \<Rightarrow> role_row result" where
  "getRole cls i db =
     bindr (requireAccessGrant cls) (\<lambda>g.
       case find_by ro_id i (db_roles db) of
         None \<Rightarrow> Inl (role_not_found i)
       | Some r \<Rightarrow>
           if \<not> ro_clientAssignable r \<and> \<not> isSystemAdmin g then Inl (role_not_found i)
           else Inr (databaseRoleToRole r))"

definition role_cache_keys :: "id \<Rightarrow> string list" where
  "role_cache_keys roleId = [''role-capabilities:'' @ roleId, ''role-scope:'' @ roleId]"

definition invalidateRoleCache :: "('c, 'v) cache_ops \<Rightarrow> id \<Rightarrow> 'c \<Rightarrow> 'c" where
  "invalidateRoleCache ops roleId c = cache_mdel ops c (role_cache_keys roleId)"

definition update_row :: "id \<Rightarrow> (role_row \<Rightarrow> role_row) \<Rightarrow> role_row list \<Rightarrow> role_row list" where
  "update_row i f rows = map (\<lambda>r. if ro_id r = i then f r else r) rows"

definition apply_role_dto :: "update_role_dto \<Rightarrow> role_row \<Rightarrow> role_row" where
  \<comment> \<open>\<open>prisma.role.update\<close>: an undefined field leaves its column\<close>
  "apply_role_dto dto r =
     r\<lparr>ro_name := nullish_or (ur_name dto) (ro_name r),
       ro_description := (case ur_description dto of None \<Rightarrow> ro_description r | Some d \<Rightarrow> Some d),
       ro_clientAssignable := nullish_or (ur_clientAssignable dto) (ro_clientAssignable r),
       ro_notificationGroups := nullish_or (ur_notificationGroups dto) (ro_notificationGroups r),
       ro_scope := nullish_or (ur_scope dto) (ro_scope r),
       ro_capabilities := nullish_or (ur_capabilities dto) (ro_capabilities r)\<rparr>"

definition check_update :: "id \<Rightarrow> update_role_dto \<Rightarrow> role_row list \<Rightarrow> role_row result" where
  "check_update roleId dto rows =
     (case find_by ro_id roleId rows of
        None \<Rightarrow> Inl (role_not_found roleId)
      | Some existing \<Rightarrow>
          if ro_isSystem existing \<and> ur_scope dto \<noteq> None \<and> ur_scope dto \<noteq> Some (ro_scope existing)
          then Inl (BadRequestException ''Cannot change the scope of a system role'')
          else if nullish_or (ur_clientAssignable dto) (ro_clientAssignable existing)
               \<and> isScopeAtLeast (nullish_or (ur_scope dto) (ro_scope existing)) GLOBAL
          then Inl client_assignable_error
          else bindr (check_capabilities (nullish_or (ur_capabilities dto) [])) (\<lambda>_.
            if truthy (ur_name dto) \<and> ur_name dto \<noteq> Some (ro_name existing)
               \<and> List.find (\<lambda>r. ro_name r = the (ur_name dto) \<and> ro_id r \<noteq> roleId) rows \<noteq> None
            then Inl (role_name_taken (the (ur_name dto)))
            else Inr existing))"

definition commit_role ::
    "('c, 'v) cache_ops \<Rightarrow> id \<Rightarrow> role_row result \<Rightarrow> (role_row \<Rightarrow> role_row) \<Rightarrow> 'c \<Rightarrow> tenant_db
     \<Rightarrow> role_row result \<times> 'c \<times> tenant_db" where
  \<comment> \<open>after the checks: update the row, clear its cached data, answer with the row\<close>
  "commit_role ops roleId checked f c db =
     (case bindr checked (\<lambda>role. bindr (write_roles db (update_row roleId f (db_roles db)))
             (\<lambda>db'. Inr (role, db'))) of
        Inl e \<Rightarrow> (Inl e, c, db)
      | Inr (role, db') \<Rightarrow> (Inr (databaseRoleToRole (f role)), invalidateRoleCache ops roleId c, db'))"

definition updateRole ::
    "('c, 'v) cache_ops \<Rightarrow> id \<Rightarrow> update_role_dto \<Rightarrow> 'c \<Rightarrow> tenant_db \<Rightarrow> role_row result \<times> 'c \<times> tenant_db" where
  "updateRole ops roleId dto c db =
     commit_role ops roleId (check_update roleId dto (db_roles db)) (apply_role_dto dto) c db"

definition updateNotificationGroups ::
    "('c, 'v) cache_ops \<Rightarrow> id \<Rightarrow> string list \<Rightarrow> 'c \<Rightarrow> tenant_db \<Rightarrow> role_row result \<times> 'c \<times> tenant_db" where
  "updateNotificationGroups ops roleId groups c db =
     updateRole ops roleId \<lparr>ur_name = None, ur_description = None, ur_scope = None, ur_capabilities = None,
       ur_notificationGroups = Some groups, ur_clientAssignable = None\<rparr> c db"

definition deleteRole ::
    "('c, 'v) cache_ops \<Rightarrow> id \<Rightarrow> 'c \<Rightarrow> tenant_db \<Rightarrow> unit result \<times> 'c \<times> tenant_db" where
  "deleteRole ops roleId c db =
     (case find_by ro_id roleId (db_roles db) of
        None \<Rightarrow> (Inl (role_not_found roleId), c, db)
      | Some existing \<Rightarrow>
          if ro_isSystem existing then (Inl (BadRequestException ''Cannot delete a system role''), c, db)
          else if 0 < length (filter (\<lambda>a. pca_roleId a = roleId) (db_accesses db))
          then (Inl (BadRequestException (''Cannot delete role that is assigned to ''
                  @ show_nat (length (filter (\<lambda>a. pca_roleId a = roleId) (db_accesses db)))
                  @ '' person(s). Remove assignments first.'')), c, db)
          else if list_ex (\<lambda>i. in_roleId i = roleId) (db_invitations db)
          then (Inl (ServerError ''P2003''), c, db) \<comment> \<open>the foreign key of \<open>Invitation.role\<close>\<close>
          else (Inr (), invalidateRoleCache ops roleId c,
                set_roles db (filter (\<lambda>r. ro_id r \<noteq> roleId) (db_roles db))))"

definition lookup_role :: "id \<Rightarrow> tenant_db \<Rightarrow> role_row result" where
  "lookup_role roleId db =
     (case find_by ro_id roleId (db_roles db) of None \<Rightarrow> Inl (role_not_found roleId) | Some r \<Rightarrow> Inr r)"

definition addCapabilities ::
    "('c, 'v) cache_ops \<Rightarrow> id \<Rightarrow> string list \<Rightarrow> 'c \<Rightarrow> tenant_db \<Rightarrow> role_row result \<times> 'c \<times> tenant_db" where
  "addCapabilities ops roleId cs c db =
     commit_role ops roleId
       (bindr (lookup_role roleId db) (\<lambda>r. bindr (check_capabilities cs) (\<lambda>_. Inr r)))
       (\<lambda>r. r\<lparr>ro_capabilities := unique (ro_capabilities r @ cs)\<rparr>) c db"

definition removeCapabilities ::
    "('c, 'v) cache_ops \<Rightarrow> id \<Rightarrow> string list \<Rightarrow> 'c \<Rightarrow> tenant_db \<Rightarrow> role_row result \<times> 'c \<times> tenant_db" where
  "removeCapabilities ops roleId cs c db =
     commit_role ops roleId (lookup_role roleId db)
       (\<lambda>r. r\<lparr>ro_capabilities := filter (\<lambda>x. \<not> List.member cs x) (ro_capabilities r)\<rparr>) c db"

definition setScope ::
    "('c, 'v) cache_ops \<Rightarrow> id \<Rightarrow> role_scope \<Rightarrow> 'c \<Rightarrow> tenant_db \<Rightarrow> role_row result \<times> 'c \<times> tenant_db" where
  "setScope ops roleId sc c db =
     commit_role ops roleId
       (bindr (lookup_role roleId db) (\<lambda>r.
          if ro_isSystem r then Inl (BadRequestException ''Cannot change the scope of a system role'')
          else if ro_clientAssignable r \<and> isScopeAtLeast sc GLOBAL then Inl client_assignable_error
          else Inr r))
       (\<lambda>r. r\<lparr>ro_scope := sc\<rparr>) c db"

definition getRoleCapabilities ::
    "('c, string list) cache_ops \<Rightarrow> id \<Rightarrow> 'c \<Rightarrow> tenant_db \<Rightarrow> string list result \<times> 'c" where
  "getRoleCapabilities ops roleId c db =
     (let (r, c', _) = getOrSet ops (''role-capabilities:'' @ roleId)
        (\<lambda>d. (Inr (case find_by ro_id roleId (db_roles d) of
                None \<Rightarrow> [] | Some role \<Rightarrow> filter isValidCapability (ro_capabilities role)), d))
        (Some 300000) c db
      in (r, c'))"

text \<open>A role that does not exist yields \<open>null\<close>, which the cache treats as absent.\<close>

definition getRoleScope ::
    "('c, role_scope) cache_ops \<Rightarrow> id \<Rightarrow> 'c \<Rightarrow> tenant_db \<Rightarrow> role_scope option \<times> 'c" where
  "getRoleScope ops roleId c db =
     (case find_by ro_id roleId (db_roles db) of
        None \<Rightarrow> (co_get ops c (''role-scope:'' @ roleId), c)
      | Some role \<Rightarrow>
          (let (r, c', _) = getOrSet ops (''role-scope:'' @ roleId) (\<lambda>d. (Inr (ro_scope role), d)) (Some 300000) c db
           in (case r of Inl _ \<Rightarrow> None | Inr s \<Rightarrow> Some s, c')))"

subsection \<open>The contract of the role table\<close>

definition role_ok :: "role_row \<Rightarrow> bool" where
  \<comment> \<open>what a client may assign is below GLOBAL, and every capability is a known one\<close>
  "role_ok r \<longleftrightarrow>
     (ro_clientAssignable r \<longrightarrow> \<not> isScopeAtLeast (ro_scope r) GLOBAL)
     \<and> list_all isValidCapability (ro_capabilities r)"

definition roles_inv :: "tenant_db \<Rightarrow> bool" where
  "roles_inv db \<longleftrightarrow>
     distinct (map ro_id (db_roles db)) \<and> distinct (map ro_name (db_roles db))
     \<and> list_all role_ok (db_roles db)
     \<and> list_all (\<lambda>a. pca_roleId a \<in> ro_id ` set (db_roles db)) (db_accesses db)"

definition system_kept :: "tenant_db \<Rightarrow> tenant_db \<Rightarrow> bool" where
  "system_kept db db' \<longleftrightarrow>
     (\<forall>r\<in>set (db_roles db). ro_isSystem r \<longrightarrow>
        (\<exists>r'\<in>set (db_roles db'). ro_id r' = ro_id r \<and> ro_isSystem r' \<and> ro_scope r' = ro_scope r))"

definition role_move :: "tenant_db \<Rightarrow> tenant_db \<Rightarrow> bool" where
  "role_move db db' \<longleftrightarrow> (roles_inv db \<longrightarrow> roles_inv db' \<and> system_kept db db')"

inductive role_call :: "('c, 'v) cache_ops \<Rightarrow> 'c \<times> tenant_db \<Rightarrow> 'c \<times> tenant_db \<Rightarrow> bool" for ops where
  create: "role_call ops (c, db) (c, snd (createRole newId dto db))"
| update: "role_call ops (c, db) (snd (updateRole ops i udto c db))"
| groups: "role_call ops (c, db) (snd (updateNotificationGroups ops i gs c db))"
| delete: "role_call ops (c, db) (snd (deleteRole ops i c db))"
| add: "role_call ops (c, db) (snd (addCapabilities ops i cs c db))"
| remove: "role_call ops (c, db) (snd (removeCapabilities ops i cs c db))"
| scope: "role_call ops (c, db) (snd (setScope ops i sc c db))"

inductive role_reach :: "('c, 'v) cache_ops \<Rightarrow> 'c \<times> tenant_db \<Rightarrow> 'c \<times> tenant_db \<Rightarrow> bool" for ops where
  refl: "role_reach ops s s"
| step: "role_reach ops s t \<Longrightarrow> role_call ops t u \<Longrightarrow> role_reach ops s u"

lemma system_kept_refl [simp]: "system_kept db db"
  by (auto simp: system_kept_def)

lemma system_kept_trans:
  assumes "system_kept a b" "system_kept b c"
  shows "system_kept a c"
  unfolding system_kept_def
proof (intro ballI impI)
  fix r assume r: "r \<in> set (db_roles a)" "ro_isSystem r"
  with assms(1) obtain r' where r': "r' \<in> set (db_roles b)" "ro_id r' = ro_id r" "ro_isSystem r'" "ro_scope r' = ro_scope r"
    by (auto simp: system_kept_def)
  with assms(2) show "\<exists>r'\<in>set (db_roles c). ro_id r' = ro_id r \<and> ro_isSystem r' \<and> ro_scope r' = ro_scope r"
    by (fastforce simp: system_kept_def)
qed

lemma role_move_refl [simp]: "role_move db db"
  by (simp add: role_move_def)

lemma role_move_trans: "role_move a b \<Longrightarrow> role_move b c \<Longrightarrow> role_move a c"
  by (auto simp: role_move_def intro: system_kept_trans)

lemma write_roles_Inr:
  "write_roles db rows = Inr db' \<longleftrightarrow>
     distinct (map ro_id rows) \<and> distinct (map ro_name rows) \<and> db' = set_roles db rows"
  by (auto simp: write_roles_def)

lemma set_roles_fields [simp]:
  "db_roles (set_roles db rows) = rows" "db_accesses (set_roles db rows) = db_accesses db"
  by (simp_all add: set_roles_def)

lemma check_capabilities_Inr [simp]: "check_capabilities cs = Inr u \<longleftrightarrow> list_all isValidCapability cs"
  by (auto simp: check_capabilities_def Let_def filter_empty_conv list_all_iff)

lemma lookup_role_Inr: "lookup_role i db = Inr r \<Longrightarrow> r \<in> set (db_roles db) \<and> ro_id r = i"
  by (auto simp: lookup_role_def dest: find_by_SomeD split: option.splits)

text \<open>Every operation that edits one role goes through this lemma.\<close>

lemma commit_role_move:
  assumes "\<And>role. checked = Inr role \<Longrightarrow> role \<in> set (db_roles db) \<and> ro_id role = i"
    and "\<And>role. checked = Inr role \<Longrightarrow> role_ok role \<Longrightarrow>
           role_ok (f role) \<and> (ro_isSystem role \<longrightarrow> ro_isSystem (f role) \<and> ro_scope (f role) = ro_scope role)"
    and "\<And>r. ro_id (f r) = ro_id r"
  shows "role_move db (snd (snd (commit_role ops i checked f c db)))"
proof (cases "bindr checked (\<lambda>role. bindr (write_roles db (update_row i f (db_roles db))) (\<lambda>db'. Inr (role, db')))")
  case (Inl e)
  then show ?thesis by (simp add: commit_role_def)
next
  case (Inr p)
  obtain role db' where p: "p = (role, db')" by (cases p)
  with Inr have role: "checked = Inr role" and w: "write_roles db (update_row i f (db_roles db)) = Inr db'"
    by (auto simp: bindr_Inr_iff)
  note m = assms(1) [OF role]
  show ?thesis
    unfolding role_move_def
  proof (intro impI)
    assume rinv: "roles_inv db"
    have "map ro_id (update_row i f (db_roles db)) = map ro_id (db_roles db)"
      by (simp add: update_row_def assms(3))
    then have ids: "ro_id ` set (update_row i f (db_roles db)) = ro_id ` set (db_roles db)"
      by (metis list.set_map)
    have one: "r = role" if "r \<in> set (db_roles db)" "ro_id r = i" for r
      using rinv m that by (metis distinct_map inj_onD roles_inv_def)
    have okrole: "role_ok role" using rinv m by (auto simp: roles_inv_def list_all_iff)
    have rows: "list_all role_ok (update_row i f (db_roles db))"
      using rinv one assms(2) [OF role okrole] by (auto simp: update_row_def roles_inv_def list_all_iff)
    have "system_kept db (set_roles db (update_row i f (db_roles db)))"
      unfolding system_kept_def
    proof (intro ballI impI)
      fix r assume r: "r \<in> set (db_roles db)" "ro_isSystem r"
      let ?r' = "if ro_id r = i then f r else r"
      have "?r' \<in> set (update_row i f (db_roles db))" using r(1) by (auto simp: update_row_def)
      moreover have "ro_id ?r' = ro_id r" by (simp add: assms(3))
      moreover have "ro_isSystem ?r' \<and> ro_scope ?r' = ro_scope r"
        using r one assms(2) [OF role okrole] by auto
      ultimately show "\<exists>r'\<in>set (db_roles (set_roles db (update_row i f (db_roles db)))).
          ro_id r' = ro_id r \<and> ro_isSystem r' \<and> ro_scope r' = ro_scope r"
        unfolding set_roles_fields by blast
    qed
    moreover have "roles_inv (set_roles db (update_row i f (db_roles db)))"
      using rinv w rows ids by (simp add: roles_inv_def write_roles_Inr)
    ultimately show "roles_inv (snd (snd (commit_role ops i checked f c db)))
        \<and> system_kept db (snd (snd (commit_role ops i checked f c db)))"
      using w [unfolded write_roles_Inr] by (simp add: commit_role_def role w)
  qed
qed

lemma check_update_Inr:
  assumes "check_update i dto rows = Inr role"
  shows "role \<in> set rows" "ro_id role = i"
    and "ro_isSystem role \<Longrightarrow> nullish_or (ur_scope dto) (ro_scope role) = ro_scope role"
    and "nullish_or (ur_clientAssignable dto) (ro_clientAssignable role) \<Longrightarrow>
         \<not> isScopeAtLeast (nullish_or (ur_scope dto) (ro_scope role)) GLOBAL"
    and "list_all isValidCapability (nullish_or (ur_capabilities dto) [])"
  using assms
  by (auto simp: check_update_def bindr_Inr_iff dest: find_by_SomeD split: option.splits if_splits)

lemma updateRole_move: "role_move db (snd (snd (updateRole ops i dto c db)))"
  unfolding updateRole_def
proof (rule commit_role_move)
  fix role assume chk: "check_update i dto (db_roles db) = Inr role"
  note D = check_update_Inr [OF chk]
  show "role \<in> set (db_roles db) \<and> ro_id role = i" using D(1,2) by blast
  show "role_ok role \<Longrightarrow> role_ok (apply_role_dto dto role)
      \<and> (ro_isSystem role \<longrightarrow> ro_isSystem (apply_role_dto dto role) \<and> ro_scope (apply_role_dto dto role) = ro_scope role)"
    using D(3,4,5) by (cases "ur_capabilities dto") (auto simp: role_ok_def apply_role_dto_def)
qed (simp add: apply_role_dto_def)

lemma createRole_move: "role_move db (snd (createRole newId dto db))"
proof (cases "createRole newId dto db")
  case (Pair res db')
  show ?thesis
  proof (cases res)
    case (Inl e)
    with Pair have "db' = db" by (auto simp: createRole_def Let_def split: if_splits sum.splits)
    with Pair show ?thesis by simp
  next
    case (Inr role')
    with Pair obtain role where db': "write_roles db (db_roles db @ [role]) = Inr db'"
      and ok: "role_ok role"
      by (auto simp: createRole_def Let_def bindr_Inr_iff role_ok_def split: if_splits sum.splits)
    then have "roles_inv db \<longrightarrow> roles_inv db' \<and> system_kept db db'"
      by (auto simp: write_roles_Inr roles_inv_def system_kept_def list_all_iff)
    with Pair show ?thesis by (simp add: role_move_def)
  qed
qed

lemma deleteRole_move: "role_move db (snd (snd (deleteRole ops i c db)))"
proof (cases "fst (deleteRole ops i c db)")
  case (Inl e)
  then have "snd (snd (deleteRole ops i c db)) = db"
    by (auto simp: deleteRole_def split: option.splits if_splits)
  then show ?thesis by simp
next
  case (Inr u)
  then obtain r where r: "find_by ro_id i (db_roles db) = Some r" "\<not> ro_isSystem r"
    and free: "filter (\<lambda>a. pca_roleId a = i) (db_accesses db) = []"
    and db': "snd (snd (deleteRole ops i c db)) = set_roles db (filter (\<lambda>r. ro_id r \<noteq> i) (db_roles db))"
    by (auto simp: deleteRole_def split: option.splits if_splits)
  show ?thesis
    unfolding role_move_def db'
  proof (intro impI conjI)
    assume rinv: "roles_inv db"
    have one: "q = r" if "q \<in> set (db_roles db)" "ro_id q = i" for q
      using rinv find_by_SomeD [OF r(1)] that by (metis distinct_map inj_onD roles_inv_def)
    have keep: "ro_id ` {x \<in> set (db_roles db). ro_id x \<noteq> i} = ro_id ` set (db_roles db) - {i}" by auto
    show "roles_inv (set_roles db (filter (\<lambda>r. ro_id r \<noteq> i) (db_roles db)))"
      using rinv free keep
      by (auto simp: roles_inv_def list_all_iff filter_empty_conv distinct_map_filter)
    show "system_kept db (set_roles db (filter (\<lambda>r. ro_id r \<noteq> i) (db_roles db)))"
      using one r(2) by (auto simp: system_kept_def)
  qed
qed

lemma addCapabilities_move: "role_move db (snd (snd (addCapabilities ops i cs c db)))"
  unfolding addCapabilities_def
  by (rule commit_role_move)
    (auto simp: bindr_Inr_iff role_ok_def list_all_iff dest: lookup_role_Inr)

lemma removeCapabilities_move: "role_move db (snd (snd (removeCapabilities ops i cs c db)))"
  unfolding removeCapabilities_def
  by (rule commit_role_move) (auto simp: role_ok_def list_all_iff dest: lookup_role_Inr)

lemma setScope_move: "role_move db (snd (snd (setScope ops i sc c db)))"
  unfolding setScope_def
  by (rule commit_role_move)
    (auto simp: bindr_Inr_iff role_ok_def dest: lookup_role_Inr split: if_splits)

lemmas role_moves = createRole_move updateRole_move deleteRole_move addCapabilities_move
  removeCapabilities_move setScope_move

lemma role_call_move: "role_call ops s t \<Longrightarrow> role_move (snd s) (snd t)"
  by (induction rule: role_call.induct) (simp_all add: role_moves updateNotificationGroups_def)

lemma role_reach_move: "role_reach ops s t \<Longrightarrow> role_move (snd s) (snd t)"
  by (induction rule: role_reach.induct) (auto intro: role_move_trans role_call_move)

subsection \<open>Properties\<close>

text \<open>
  In any sequence of role operations, failing ones included, role identifiers and names stay
  unique, a role clients may assign never has GLOBAL or SYSTEM scope, every role holds known
  capabilities only, no role that is assigned to someone disappears, and a system role is never
  deleted and keeps its scope.
\<close>

theorem role_table_invariant:
  assumes "role_reach ops (c, db) (c', db')" and "roles_inv db"
  shows "roles_inv db' \<and> system_kept db db'"
  using role_reach_move [OF assms(1)] assms(2) by (simp add: role_move_def)

definition ex_roles :: tenant_db where
  "ex_roles = (ex_db [])\<lparr>db_roles := [(ex_role ''r1'' SYSTEM)\<lparr>ro_isSystem := True, ro_clientAssignable := False,
      ro_capabilities := [''manage-users'']\<rparr>, (ex_role ''r2'' CLIENT)\<lparr>ro_capabilities := []\<rparr>]\<rparr>"

lemma ex_roles_inv: "roles_inv ex_roles"
  by (simp add: ex_roles_def roles_inv_def role_ok_def ex_db_def ex_role_def isValidCapability_def
      VALID_CAPABILITIES_def isScopeAtLeast_def SCOPE_HIERARCHY_def)

theorem role_table_invariant_witness:
  "let db' = snd (snd (setScope (mem_ops :: (_, nat) cache_ops) ''r2'' SITE Map.empty ex_roles))
   in map ro_scope (db_roles db') = [SYSTEM, SITE] \<and> roles_inv db' \<and> system_kept ex_roles db'"
proof -
  obtain r c' db' where s: "setScope (mem_ops :: (_, nat) cache_ops) ''r2'' SITE Map.empty ex_roles = (r, c', db')"
    by (metis prod_cases3)
  then have "role_reach (mem_ops :: (_, nat) cache_ops) (Map.empty, ex_roles) (c', db')"
    by (metis role_call.scope role_reach.intros snd_conv)
  from role_table_invariant [OF this ex_roles_inv] have "roles_inv db' \<and> system_kept ex_roles db'" .
  moreover have "map ro_scope (db_roles (snd (snd (setScope (mem_ops :: (_, nat) cache_ops) ''r2'' SITE Map.empty ex_roles)))) = [SYSTEM, SITE]"
    by (simp add: setScope_def commit_role_def lookup_role_def find_by_def ex_roles_def ex_db_def ex_role_def
        write_roles_def update_row_def isScopeAtLeast_def SCOPE_HIERARCHY_def set_roles_def)
  ultimately show ?thesis by (simp add: s)
qed

text \<open>
  An update request that leaves out the scope or the capabilities does not leave them alone: the
  schema completes the body with the creation defaults, so a role that is not a system role ends up
  with SITE scope and no capabilities when only, say, its description is edited.
\<close>

theorem partial_update_resets_role:
  assumes "ur_scope body = None" "ur_capabilities body = None"
    and "fst (updateRole ops i (parse_update_role body) c db) = Inr role"
  shows "ro_scope role = SITE \<and> ro_capabilities role = []"
proof -
  from assms(3) obtain r where "role = databaseRoleToRole (apply_role_dto (parse_update_role body) r)"
    by (auto simp: updateRole_def commit_role_def split: sum.splits)
  with assms(1,2) show ?thesis
    by (simp add: databaseRoleToRole_def apply_role_dto_def parse_update_role_def)
qed

theorem partial_update_resets_role_witness:
  "\<exists>role. fst (updateRole (mem_ops :: (_, nat) cache_ops) ''r2'' (parse_update_role
       \<lparr>ur_name = None, ur_description = Some ''d'', ur_scope = None, ur_capabilities = None,
        ur_notificationGroups = None, ur_clientAssignable = None\<rparr>) Map.empty ex_roles) = Inr role
     \<and> ro_scope role = SITE"
proof -
  let ?b = "\<lparr>ur_name = None, ur_description = Some ''d'', ur_scope = None, ur_capabilities = None,
        ur_notificationGroups = None, ur_clientAssignable = None\<rparr>"
  obtain role where "fst (updateRole (mem_ops :: (_, nat) cache_ops) ''r2'' (parse_update_role ?b) Map.empty ex_roles) = Inr role"
    by (simp add: updateRole_def commit_role_def check_update_def find_by_def ex_roles_def ex_db_def ex_role_def
        write_roles_def update_row_def isScopeAtLeast_def SCOPE_HIERARCHY_def parse_update_role_def
        apply_role_dto_def check_capabilities_def)
  with partial_update_resets_role [OF _ _ this] show ?thesis by auto
qed

end
