(* ===== verification/Identity_Sync.thy ===== *)
theory Identity_Sync
  imports Sample_Data
begin

section \<open>Synchronisation with the identity provider\<close>

text \<open>
  \<^verbatim>\<open>src/src/auth/keycloak/keycloak-access-sync.service.ts\<close> (the start-up job that turns the groups
  and attributes of the identity provider's users into access rows) and
  \<^verbatim>\<open>src/src/auth/keycloak/keycloak-webhook.controller.ts\<close> (user events). The provider's answers are
  parameters: its role groups, the pages of users, the groups of a user, the verification of a
  signature and the parsing of an event's representation. Calls that may throw return a result.
\<close>

subsection \<open>Users and groups of the provider\<close>

record kc_group =
  kg_id :: "id option"
  kg_shieldRoleIds :: "string list option" \<comment> \<open>the attribute \<open>shield_role_id\<close>\<close>

record kc_user =
  ku_id :: "id option"
  ku_email :: "string option"
  ku_firstName :: "string option"
  ku_lastName :: "string option"
  ku_clientIds :: "string list option" \<comment> \<open>the attribute \<open>client_id\<close>\<close>
  ku_siteIds :: "string list option"

definition first_attr :: "string list option \<Rightarrow> string option" where
  \<comment> \<open>\<open>attributes?.key?.[0]\<close>\<close>
  "first_attr a = (case a of None \<Rightarrow> None | Some xs \<Rightarrow> at0 xs)"

definition add_role_group :: "role_row list \<Rightarrow> (id, id) jmap \<Rightarrow> kc_group \<Rightarrow> (id, id) jmap" where
  "add_role_group dbRoles m g =
     (let shieldRoleId = first_attr (kg_shieldRoleIds g)
      in if \<not> truthy shieldRoleId \<or> \<not> truthy (kg_id g) then m
         else case find_by ro_id (the shieldRoleId) dbRoles of
             None \<Rightarrow> m
           | Some r \<Rightarrow> AList.update (the (kg_id g)) (ro_id r) m)"

definition build_roleMap :: "role_row list \<Rightarrow> kc_group list \<Rightarrow> (id, id) jmap" where
  "build_roleMap dbRoles subgroups = foldl (add_role_group dbRoles) [] subgroups"

definition external_map :: "('r \<Rightarrow> id) \<Rightarrow> ('r \<Rightarrow> id) \<Rightarrow> 'r list \<Rightarrow> (id, id) jmap" where
  \<comment> \<open>\<open>new Map(rows.map(r => [r.externalId, r.id]))\<close>\<close>
  "external_map ext key rows = foldl (\<lambda>m r. AList.update (ext r) (key r) m) [] rows"

subsection \<open>One user\<close>

record sync_env =
  sy_now :: time
  sy_newId :: "nat \<Rightarrow> id" \<comment> \<open>identifiers of new rows, by the number of rows already stored\<close>
  sy_listUserGroups :: "id \<Rightarrow> id option list result"

definition or_default :: "string option \<Rightarrow> string \<Rightarrow> string" where
  \<comment> \<open>JavaScript's \<open>||\<close> on an optional string\<close>
  "or_default x d = (if truthy x then the x else d)"

definition sync_person :: "id \<Rightarrow> kc_user \<Rightarrow> id \<Rightarrow> person_row list \<Rightarrow> person_row \<times> person_row list" where
  "sync_person newId user idpId rows =
     (case find_by pe_idpId (Some idpId) rows of
        Some p \<Rightarrow>
          (let upd = (\<lambda>q. q\<lparr>pe_firstName := nullish_or (ku_firstName user) (pe_firstName q),
                           pe_lastName := nullish_or (ku_lastName user) (pe_lastName q),
                           pe_email := nullish_or (ku_email user) (pe_email q)\<rparr>)
           in (upd p, map (\<lambda>q. if pe_idpId q = Some idpId then upd q else q) rows))
      | None \<Rightarrow>
          (let p = \<lparr>pe_id = newId, pe_firstName = or_default (ku_firstName user) ''Unknown'',
                    pe_lastName = or_default (ku_lastName user) ''Unknown'',
                    pe_email = or_default (ku_email user) [], pe_username = None, pe_idpId = Some idpId,
                    pe_phoneNumber = None, pe_position = None, pe_active = True\<rparr>
           in (p, rows @ [p])))"

definition sync_row :: "sync_env \<Rightarrow> id \<Rightarrow> id \<Rightarrow> id \<Rightarrow> bool \<Rightarrow> nat \<Rightarrow> id \<Rightarrow> access_row" where
  "sync_row env personId clientId siteId isFirstAccess n roleId =
     \<lparr>pca_id = sy_newId env n, pca_createdOn = sy_now env, pca_isPrimary = isFirstAccess,
      pca_personId = personId, pca_clientId = clientId, pca_siteId = siteId, pca_roleId = roleId\<rparr>"

definition sync_roles ::
    "sync_env \<Rightarrow> id \<Rightarrow> id \<Rightarrow> id \<Rightarrow> bool \<Rightarrow> id list \<Rightarrow> access_row list \<Rightarrow> access_row list" where
  "sync_roles env personId clientId siteId isFirstAccess roleIds rows =
     foldl (\<lambda>rs r. upsert_access (\<lambda>a. a) (sync_row env personId clientId siteId isFirstAccess (length rs) r) rs)
       rows roleIds"

definition matching_roles :: "(id, id) jmap \<Rightarrow> id option list \<Rightarrow> id list" where
  "matching_roles roleMap groups =
     map (\<lambda>g. the (map_of roleMap (the g))) (filter (\<lambda>g. truthy g \<and> map_of roleMap (the g) \<noteq> None) groups)"

definition sync_write :: "sync_env \<Rightarrow> kc_user \<Rightarrow> id \<Rightarrow> id \<Rightarrow> id list \<Rightarrow> tenant_db \<Rightarrow> tenant_db" where
  \<comment> \<open>the transaction\<close>
  "sync_write env user clientId siteId roleIds db =
     (let (person, persons) = sync_person (sy_newId env (length (db_persons db))) user (the (ku_id user)) (db_persons db);
          isFirstAccess = (filter (\<lambda>a. pca_personId a = pe_id person) (db_accesses db) = [])
      in db\<lparr>db_persons := persons,
            db_accesses := sync_roles env (pe_id person) clientId siteId isFirstAccess roleIds (db_accesses db)\<rparr>)"

definition syncUser ::
    "sync_env \<Rightarrow> (id, id) jmap \<Rightarrow> (id, id) jmap \<Rightarrow> (id, id) jmap \<Rightarrow> kc_user \<Rightarrow> tenant_db \<Rightarrow> bool result \<times> tenant_db" where
  "syncUser env roleMap clientMap siteMap user db =
     (if \<not> truthy (ku_id user) then (Inr False, db)
      else
        (let clientExternalId = first_attr (ku_clientIds user); siteExternalId = first_attr (ku_siteIds user)
         in if \<not> truthy clientExternalId \<or> \<not> truthy siteExternalId then (Inr False, db)
            else if \<not> truthy (map_of clientMap (the clientExternalId)) then (Inr False, db)
            else if \<not> truthy (map_of siteMap (the siteExternalId)) then (Inr False, db)
            else
              (case sy_listUserGroups env (the (ku_id user)) of
                 Inl e \<Rightarrow> (Inl e, db)
               | Inr groups \<Rightarrow>
                   if length (matching_roles roleMap groups) = 0 then (Inr False, db)
                   else (Inr True, sync_write env user (the (map_of clientMap (the clientExternalId)))
                          (the (map_of siteMap (the siteExternalId))) (matching_roles roleMap groups) db))))"

subsection \<open>All users\<close>

text \<open>An exception in one user is logged and the loop goes on, so the result of a user is only counted.\<close>

fun sync_users ::
    "sync_env \<Rightarrow> (id, id) jmap \<Rightarrow> (id, id) jmap \<Rightarrow> (id, id) jmap \<Rightarrow> kc_user list \<Rightarrow> nat \<times> tenant_db \<Rightarrow> nat \<times> tenant_db" where
  "sync_users env roleMap clientMap siteMap [] st = st"
| "sync_users env roleMap clientMap siteMap (u # us) (n, db) =
     (let (r, db') = syncUser env roleMap clientMap siteMap u db
      in sync_users env roleMap clientMap siteMap us (if r = Inr True then n + 1 else n, db'))"

text \<open>
  \<open>while (true)\<close>: a page is fetched at each offset; the count the provider reports with the page
  decides whether to go on. \<open>None\<close> is a run that does not end; a page that cannot be fetched ends the
  run with the error.
\<close>

partial_function (option) sync_loop ::
    "sync_env \<Rightarrow> (id, id) jmap \<Rightarrow> (id, id) jmap \<Rightarrow> (id, id) jmap \<Rightarrow> (nat \<Rightarrow> (kc_user list \<times> nat) result)
     \<Rightarrow> nat \<Rightarrow> nat \<times> tenant_db \<Rightarrow> (unit result \<times> nat \<times> tenant_db) option" where
  "sync_loop env roleMap clientMap siteMap page offset st =
     (case page offset of
        Inl e \<Rightarrow> Some (Inl e, st)
      | Inr (results, count) \<Rightarrow>
          (let st' = sync_users env roleMap clientMap siteMap results st
           in if count \<le> offset + 100 then Some (Inr (), st')
              else sync_loop env roleMap clientMap siteMap page (offset + 100) st'))"

definition runSync ::
    "sync_env \<Rightarrow> kc_group list result \<Rightarrow> (nat \<Rightarrow> (kc_user list \<times> nat) result) \<Rightarrow> tenant_db
     \<Rightarrow> (unit result \<times> nat \<times> tenant_db) option" where
  "runSync env subgroups page db =
     (case subgroups of
        Inl e \<Rightarrow> Some (Inl e, 0, db)
      | Inr gs \<Rightarrow>
          (let roleMap = build_roleMap (db_roles db) gs
           in if length roleMap = 0 then Some (Inr (), 0, db)
              else sync_loop env roleMap (external_map cl_externalId cl_id (db_clients db))
                     (external_map st_externalId st_id (db_sites db)) page 0 (0, db)))"

definition handleSync ::
    "bool \<Rightarrow> sync_env \<Rightarrow> kc_group list result \<Rightarrow> (nat \<Rightarrow> (kc_user list \<times> nat) result) \<Rightarrow> tenant_db \<Rightarrow> tenant_db option" where
  "handleSync enabled env subgroups page db =
     (if \<not> enabled then Some db else map_option (\<lambda>(_, _, db'). db') (runSync env subgroups page db))"

subsection \<open>User events\<close>

record kc_representation =
  kr_firstName :: "string option"
  kr_lastName :: "string option"
  kr_email :: "string option"
  kr_username :: "string option"
  kr_phoneNumbers :: "string list option"
  kr_positions :: "string list option"
  kr_enabled :: "bool option"

record kc_event =
  ke_type :: string
  ke_resourceId :: "string option"
  ke_representation :: "string option"

definition apply_representation :: "kc_representation \<Rightarrow> person_row \<Rightarrow> person_row" where
  "apply_representation rep p =
     p\<lparr>pe_firstName := the (kr_firstName rep), pe_lastName := the (kr_lastName rep), pe_email := the (kr_email rep),
       pe_username := (if truthy (kr_username rep) then kr_username rep else pe_username p),
       pe_phoneNumber := (if truthy (first_attr (kr_phoneNumbers rep)) then first_attr (kr_phoneNumbers rep) else pe_phoneNumber p),
       pe_position := (if truthy (first_attr (kr_positions rep)) then first_attr (kr_positions rep) else pe_position p),
       pe_active := nullish_or (kr_enabled rep) (pe_active p)\<rparr>"

definition event_upsert :: "id \<Rightarrow> id option \<Rightarrow> kc_representation \<Rightarrow> person_row list \<Rightarrow> person_row list" where
  "event_upsert newId idpId rep rows =
     (if find_by pe_idpId idpId rows \<noteq> None
      then map (\<lambda>p. if pe_idpId p = idpId then apply_representation rep p else p) rows
      else rows @ [apply_representation rep
        \<lparr>pe_id = newId, pe_firstName = [], pe_lastName = [], pe_email = [], pe_username = None,
         pe_idpId = idpId, pe_phoneNumber = None, pe_position = None, pe_active = True\<rparr>])"

definition handleUserEvent ::
    "(string \<Rightarrow> kc_representation option) \<Rightarrow> id \<Rightarrow> kc_event \<Rightarrow> person_row list \<Rightarrow> person_row list" where
  "handleUserEvent parse newId event rows =
     (if \<not> truthy (ke_representation event) \<or> \<not> truthy (ke_resourceId event) then rows
      else case parse (the (ke_representation event)) of
          None \<Rightarrow> rows
        | Some rep \<Rightarrow>
            if \<not> truthy (kr_firstName rep) \<or> \<not> truthy (kr_lastName rep) \<or> \<not> truthy (kr_email rep) then rows
            else
              event_upsert newId (ke_resourceId event) rep rows)"

definition verifyWebhookSignature :: "(string \<Rightarrow> string \<Rightarrow> string) \<Rightarrow> string option \<Rightarrow> string \<Rightarrow> string \<Rightarrow> bool" where
  \<comment> \<open>\<open>hmac secret body\<close> is the hexadecimal HMAC; \<open>timingSafeEqual\<close> throws on different lengths, which
      the handler turns into \<open>false\<close>, and compares otherwise\<close>
  "verifyWebhookSignature hmac secret rawBody signature =
     (if \<not> truthy secret then False
      else let expected = hmac (the secret) rawBody
        in if length signature \<noteq> length expected then False else signature = expected)"

definition handleEvent ::
    "(string \<Rightarrow> string \<Rightarrow> string) \<Rightarrow> string option \<Rightarrow> (string \<Rightarrow> kc_representation option) \<Rightarrow> id
     \<Rightarrow> string option \<Rightarrow> string option \<Rightarrow> kc_event \<Rightarrow> person_row list \<Rightarrow> bool result \<times> person_row list" where
  \<comment> \<open>\<open>rawBody\<close>, signature header, event; \<open>Inr True\<close> is the answer \<open>received: true\<close>\<close>
  "handleEvent hmac secret parse newId rawBody signature event rows =
     (if \<not> verifyWebhookSignature hmac secret (nullish_or rawBody []) (nullish_or signature [])
      then (Inl (UnauthorizedException ''Invalid signature''), rows)
      else if ke_type event = ''admin.USER-CREATE'' \<or> ke_type event = ''admin.USER-UPDATE''
      then (Inr True, handleUserEvent parse newId event rows)
      else (Inr True, rows))"

subsection \<open>What a run may change\<close>

lemma upsert_access_id:
  "upsert_access (\<lambda>a. a) row rows = (if access_key row \<in> access_key ` set rows then rows else rows @ [row])"
  by (simp add: upsert_access_def)

lemma sync_roles_Cons:
  "sync_roles env p cl s b (r # rs) rows =
     sync_roles env p cl s b rs (upsert_access (\<lambda>a. a) (sync_row env p cl s b (length rows) r) rows)"
  by (simp add: sync_roles_def)

lemma sync_roles_appends:
  "\<exists>new. sync_roles env p cl s b rs rows = rows @ new
     \<and> (\<forall>a\<in>set new. pca_personId a = p \<and> pca_clientId a = cl \<and> pca_siteId a = s \<and> pca_isPrimary a = b
          \<and> pca_roleId a \<in> set rs)"
proof (induction rs arbitrary: rows)
  case Nil
  show ?case by (simp add: sync_roles_def)
next
  case (Cons r rs)
  let ?row = "sync_row env p cl s b (length rows) r"
  let ?rows = "upsert_access (\<lambda>a. a) ?row rows"
  from Cons.IH [of ?rows] obtain new where new: "sync_roles env p cl s b rs ?rows = ?rows @ new"
    "\<forall>a\<in>set new. pca_personId a = p \<and> pca_clientId a = cl \<and> pca_siteId a = s \<and> pca_isPrimary a = b \<and> pca_roleId a \<in> set rs"
    by blast
  have row: "pca_personId ?row = p \<and> pca_clientId ?row = cl \<and> pca_siteId ?row = s \<and> pca_isPrimary ?row = b \<and> pca_roleId ?row = r"
    by (simp add: sync_row_def)
  show ?case
  proof (cases "access_key ?row \<in> access_key ` set rows")
    case True
    with new show ?thesis unfolding sync_roles_Cons upsert_access_id by auto
  next
    case False
    then have "sync_roles env p cl s b (r # rs) rows = rows @ (?row # new)"
      using new(1) by (simp add: sync_roles_Cons upsert_access_id)
    moreover have "\<forall>a\<in>set (?row # new). pca_personId a = p \<and> pca_clientId a = cl \<and> pca_siteId a = s
        \<and> pca_isPrimary a = b \<and> pca_roleId a \<in> set (r # rs)"
      using new(2) row by simp
    ultimately show ?thesis by blast
  qed
qed

lemma sync_roles_keys:
  "access_key ` set (sync_roles env p cl s b rs rows) = access_key ` set rows \<union> (\<lambda>r. (p, cl, s, r)) ` set rs"
proof (induction rs arbitrary: rows)
  case Nil
  show ?case by (simp add: sync_roles_def)
next
  case (Cons r rs)
  show ?case
    unfolding sync_roles_Cons Cons.IH
    by (subst access_keys_upsert) (auto simp: sync_row_def access_key_def)
qed

lemma sync_roles_distinct:
  "distinct (map access_key rows) \<Longrightarrow> distinct (map access_key (sync_roles env p cl s b rs rows))"
proof (induction rs arbitrary: rows)
  case Nil
  then show ?case by (simp add: sync_roles_def)
next
  case (Cons r rs)
  show ?case
    unfolding sync_roles_Cons by (rule Cons.IH, rule distinct_upsert_access [OF refl Cons.prems])
qed

definition sync_move :: "id set \<Rightarrow> tenant_db \<Rightarrow> tenant_db \<Rightarrow> bool" where
  "sync_move roleIds db db' \<longleftrightarrow>
     (\<exists>new. db_accesses db' = db_accesses db @ new \<and> (\<forall>a\<in>set new. pca_roleId a \<in> roleIds))
     \<and> (\<forall>p. primary_consistent p (db_accesses db) \<longrightarrow> primary_consistent p (db_accesses db'))
     \<and> (distinct (map access_key (db_accesses db)) \<longrightarrow> distinct (map access_key (db_accesses db')))
     \<and> db_clients db' = db_clients db \<and> db_sites db' = db_sites db \<and> db_roles db' = db_roles db
     \<and> db_invitations db' = db_invitations db"

lemma sync_move_refl [simp]: "sync_move R db db"
  by (simp add: sync_move_def)

lemma sync_move_trans: "sync_move R a b \<Longrightarrow> sync_move R b c \<Longrightarrow> sync_move R a c"
  unfolding sync_move_def by fastforce

lemma sync_move_mono: "sync_move R db db' \<Longrightarrow> R \<subseteq> S \<Longrightarrow> sync_move S db db'"
  unfolding sync_move_def by fast

lemma sync_roles_primary:
  assumes "primary_consistent q rows"
  shows "primary_consistent q (sync_roles env p cl s (filter (\<lambda>a. pca_personId a = p) rows = []) rs rows)"
proof -
  let ?b = "filter (\<lambda>a. pca_personId a = p) rows = []"
  obtain new where new: "sync_roles env p cl s ?b rs rows = rows @ new"
    "\<forall>a\<in>set new. pca_personId a = p \<and> pca_clientId a = cl \<and> pca_siteId a = s \<and> pca_isPrimary a = ?b
       \<and> pca_roleId a \<in> set rs"
    using sync_roles_appends [of env p cl s ?b rs rows] by (elim exE conjE) (rule that)
  show ?thesis
  proof (cases "q = p \<and> ?b")
    case True
    then have "\<forall>a\<in>set rows. pca_personId a \<noteq> q" by (auto simp: filter_empty_conv)
    with new(2) True have "primaries_at q (cl, s) (rows @ new)" by (auto simp: primaries_at_def)
    then show ?thesis unfolding new(1) primary_consistent_def by blast
  next
    case False
    from assms obtain cs where "primaries_at q cs rows" by (auto simp: primary_consistent_def)
    with new(2) False have "primaries_at q cs (rows @ new)" by (auto simp: primaries_at_def)
    then show ?thesis unfolding new(1) primary_consistent_def by blast
  qed
qed

lemma matching_roles_subset: "set (matching_roles roleMap groups) \<subseteq> snd ` set roleMap"
proof
  fix r
  assume "r \<in> set (matching_roles roleMap groups)"
  then obtain k where "map_of roleMap k = Some r" by (auto simp: matching_roles_def)
  then show "r \<in> snd ` set roleMap" by (force dest: map_of_SomeD)
qed

lemma sync_write_move:
  assumes "set rs \<subseteq> R"
  shows "sync_move R db (sync_write env user cl s rs db)"
proof -
  obtain person persons where sp: "sync_person (sy_newId env (length (db_persons db))) user (the (ku_id user)) (db_persons db)
      = (person, persons)" by fastforce
  let ?p = "pe_id person"
  let ?b = "filter (\<lambda>a. pca_personId a = ?p) (db_accesses db) = []"
  have w: "sync_write env user cl s rs db =
      db\<lparr>db_persons := persons, db_accesses := sync_roles env ?p cl s ?b rs (db_accesses db)\<rparr>"
    by (simp add: sync_write_def sp)
  obtain new where new: "sync_roles env ?p cl s ?b rs (db_accesses db) = db_accesses db @ new"
    "\<forall>a\<in>set new. pca_personId a = ?p \<and> pca_clientId a = cl \<and> pca_siteId a = s \<and> pca_isPrimary a = ?b
       \<and> pca_roleId a \<in> set rs"
    using sync_roles_appends [of env ?p cl s ?b rs "db_accesses db"] by (elim exE conjE) (rule that)
  from new assms have "\<exists>new. sync_roles env ?p cl s ?b rs (db_accesses db) = db_accesses db @ new
      \<and> (\<forall>a\<in>set new. pca_roleId a \<in> R)" by blast
  then show ?thesis
    unfolding w by (simp add: sync_move_def sync_roles_primary sync_roles_distinct)
qed

lemma syncUser_move: "sync_move (snd ` set roleMap) db (snd (syncUser env roleMap clientMap siteMap user db))"
  by (simp add: syncUser_def Let_def sync_write_move matching_roles_subset split: sum.split)

lemma sync_users_move: "sync_move (snd ` set roleMap) (snd st) (snd (sync_users env roleMap clientMap siteMap us st))"
proof (induction us arbitrary: st)
  case Nil
  show ?case by simp
next
  case (Cons u us)
  obtain n db where st: "st = (n, db)" by (cases st)
  let ?db = "snd (syncUser env roleMap clientMap siteMap u db)"
  have "sync_move (snd ` set roleMap) db ?db" by (rule syncUser_move)
  moreover obtain m where "sync_users env roleMap clientMap siteMap (u # us) st =
      sync_users env roleMap clientMap siteMap us (m, ?db)"
    unfolding st by (simp add: case_prod_unfold Let_def)
  ultimately show ?case using Cons.IH [of "(m, ?db)"] by (simp add: st sync_move_trans)
qed

lemma sync_loop_returns:
  assumes "\<And>off us n. page off = Inr (us, n) \<Longrightarrow> n \<le> N"
  shows "\<exists>r n db'. sync_loop env roleMap clientMap siteMap page offset st = Some (r, n, db')
     \<and> sync_move (snd ` set roleMap) (snd st) db'"
proof (induction "N - offset" arbitrary: offset st rule: less_induct)
  case less
  show ?case
  proof (cases "page offset")
    case (Inl e)
    then show ?thesis by (cases st) (simp add: sync_loop.simps)
  next
    case (Inr p)
    obtain us n where p: "p = (us, n)" by (cases p)
    let ?st = "sync_users env roleMap clientMap siteMap us st"
    have mv: "sync_move (snd ` set roleMap) (snd st) (snd ?st)" by (rule sync_users_move)
    show ?thesis
    proof (cases "n \<le> offset + 100")
      case True
      with mv Inr p show ?thesis by (cases ?st) (simp add: sync_loop.simps)
    next
      case False
      have "n \<le> N" using assms Inr p by blast
      with False have "N - (offset + 100) < N - offset" by linarith
      from less [OF this, of ?st] obtain r m db' where
        "sync_loop env roleMap clientMap siteMap page (offset + 100) ?st = Some (r, m, db')"
        "sync_move (snd ` set roleMap) (snd ?st) db'" by blast
      with mv Inr p False show ?thesis
        by (subst sync_loop.simps) (auto intro: sync_move_trans)
    qed
  qed
qed

lemma snd_AList_update: "snd ` set (AList.update k v m) \<subseteq> insert v (snd ` set m)"
  by (induction m) auto

lemma add_role_group_roles:
  "snd ` set m \<subseteq> ro_id ` set rows \<Longrightarrow> snd ` set (add_role_group rows m g) \<subseteq> ro_id ` set rows"
proof -
  assume m: "snd ` set m \<subseteq> ro_id ` set rows"
  have "snd ` set (AList.update k (ro_id r) m) \<subseteq> ro_id ` set rows" if "find_by ro_id i rows = Some r" for k r i
    using snd_AList_update [of k "ro_id r" m] m find_by_SomeD [OF that] by auto
  with m show ?thesis by (simp add: add_role_group_def Let_def split: option.split)
qed

lemma build_roleMap_roles: "snd ` set (build_roleMap rows gs) \<subseteq> ro_id ` set rows"
  by (induction gs rule: rev_induct) (simp_all add: build_roleMap_def add_role_group_roles)

subsection \<open>Properties\<close>

text \<open>
  As long as the provider's user count stays bounded the synchronisation ends; it never removes
  or changes an access row, every row it adds is for an existing role, it keeps the unique tuple of
  the access table and keeps every person's primary rows within one client and site, and it touches
  no client, site, role or invitation.
\<close>

theorem runSync_safe:
  assumes "\<And>off us n. page off = Inr (us, n) \<Longrightarrow> n \<le> N"
  shows "\<exists>r n db'. runSync env subgroups page db = Some (r, n, db')
     \<and> sync_move (ro_id ` set (db_roles db)) db db'"
proof (cases subgroups)
  case (Inl e)
  then show ?thesis by (simp add: runSync_def)
next
  case (Inr gs)
  let ?m = "build_roleMap (db_roles db) gs"
  let ?loop = "sync_loop env ?m (external_map cl_externalId cl_id (db_clients db))
      (external_map st_externalId st_id (db_sites db)) page 0 (0, db)"
  have "\<exists>r n db'. ?loop = Some (r, n, db') \<and> sync_move (snd ` set ?m) (snd (0 :: nat, db)) db'"
    by (rule sync_loop_returns [where N = N]) (rule assms)
  then obtain r n db' where l: "?loop = Some (r, n, db')"
    and mv: "sync_move (snd ` set ?m) (snd (0 :: nat, db)) db'"
    by (elim exE conjE) (rule that)
  have "sync_move (ro_id ` set (db_roles db)) db db'"
    using sync_move_mono [OF mv build_roleMap_roles] by simp
  then show ?thesis using l Inr by (cases "?m = []") (auto simp: runSync_def)
qed

text \<open>A provider with one user in one role group, and a run over its two pages.\<close>

definition ex_kc_user :: kc_user where
  "ex_kc_user = \<lparr>ku_id = Some ''kc9'', ku_email = Some ''n@x'', ku_firstName = Some ''Nina'', ku_lastName = None,
     ku_clientIds = Some [''x1''], ku_siteIds = Some [''s1'']\<rparr>"

definition ex_kc_page :: "nat \<Rightarrow> (kc_user list \<times> nat) result" where
  "ex_kc_page off = (if off = 0 then Inr ([ex_kc_user], 150) else Inr ([], 150))"

definition ex_sync_env :: sync_env where
  "ex_sync_env = \<lparr>sy_now = 7, sy_newId = (\<lambda>n. ''new''), sy_listUserGroups = (\<lambda>u. Inr [None, Some ''g1''])\<rparr>"

definition ex_kc_groups :: "kc_group list" where
  "ex_kc_groups = [\<lparr>kg_id = Some ''g1'', kg_shieldRoleIds = Some [''r1'']\<rparr>]"

theorem runSync_safe_witness:
  "\<exists>r n db'. runSync ex_sync_env (Inr ex_kc_groups) ex_kc_page (ex_db []) = Some (r, n, db')
     \<and> sync_move {''r1''} (ex_db []) db'"
proof -
  have b: "n \<le> 150" if "ex_kc_page off = Inr (us, n)" for off us n
    using that by (auto simp: ex_kc_page_def split: if_splits)
  have r: "ro_id ` set (db_roles (ex_db [])) = {''r1''}" by (simp add: ex_db_def ex_role_def)
  show ?thesis unfolding r [symmetric] by (rule runSync_safe [where N = 150]) (rule b)
qed

subsection \<open>User events touch one person\<close>

definition is_person_event :: "(string \<Rightarrow> kc_representation option) \<Rightarrow> kc_event \<Rightarrow> kc_representation \<Rightarrow> bool" where
  \<comment> \<open>a create or update event that carries everything a person needs\<close>
  "is_person_event parse event rep \<longleftrightarrow>
     ke_type event \<in> {''admin.USER-CREATE'', ''admin.USER-UPDATE''}
     \<and> truthy (ke_representation event) \<and> truthy (ke_resourceId event)
     \<and> parse (the (ke_representation event)) = Some rep
     \<and> truthy (kr_firstName rep) \<and> truthy (kr_lastName rep) \<and> truthy (kr_email rep)"

definition idp_unique :: "person_row list \<Rightarrow> bool" where
  \<comment> \<open>\<open>Person.idpId\<close> is unique where it is not null\<close>
  "idp_unique rows \<longleftrightarrow> (\<forall>i. length (filter (\<lambda>p. pe_idpId p = Some i) rows) \<le> 1)"

lemma apply_representation_ids [simp]:
  "pe_id (apply_representation rep p) = pe_id p" "pe_idpId (apply_representation rep p) = pe_idpId p"
  by (simp_all add: apply_representation_def)

lemma filter_map_same:
  "(\<And>x. P (f x) = P x) \<Longrightarrow> filter P (map f xs) = map f (filter P xs)"
  by (simp add: filter_map comp_def)

lemma event_upsert_idp:
  "filter (\<lambda>p. pe_idpId p = k) (event_upsert newId idpId rep rows) =
     (if k \<noteq> idpId then filter (\<lambda>p. pe_idpId p = k) rows
      else if find_by pe_idpId idpId rows \<noteq> None
      then map (apply_representation rep) (filter (\<lambda>p. pe_idpId p = k) rows)
      else [last (event_upsert newId idpId rep rows)])"
proof -
  have m: "filter (\<lambda>p. pe_idpId p = k) (map (\<lambda>p. if pe_idpId p = idpId then apply_representation rep p else p) rows)
      = map (\<lambda>p. if pe_idpId p = idpId then apply_representation rep p else p) (filter (\<lambda>p. pe_idpId p = k) rows)"
    by (rule filter_map_same) simp
  have n: "find_by pe_idpId idpId rows = None \<Longrightarrow> filter (\<lambda>p. pe_idpId p = idpId) rows = []"
    by (auto simp: find_by_None_iff filter_empty_conv)
  have "map (\<lambda>p. if pe_idpId p = idpId then apply_representation rep p else p) (filter (\<lambda>p. pe_idpId p = k) rows)
      = map (if k = idpId then apply_representation rep else id) (filter (\<lambda>p. pe_idpId p = k) rows)"
    by (rule map_cong [OF refl]) auto
  with m n show ?thesis by (cases "k = idpId") (simp_all add: event_upsert_def)
qed

lemma event_upsert_one:
  assumes "idp_unique rows" and "truthy idpId"
  shows "\<exists>p q. filter (\<lambda>q. pe_idpId q = idpId) (event_upsert newId idpId rep rows) = [p]
     \<and> p = apply_representation rep q"
proof (cases "find_by pe_idpId idpId rows")
  case None
  then show ?thesis by (simp add: event_upsert_idp) (auto simp: event_upsert_def)
next
  case (Some q)
  obtain i where i: "idpId = Some i" using assms(2) by (cases idpId) auto
  have "filter (\<lambda>p. pe_idpId p = idpId) rows \<noteq> []"
    using find_by_SomeD [OF Some] by (auto simp: filter_empty_conv)
  moreover have "length (filter (\<lambda>p. pe_idpId p = idpId) rows) \<le> 1"
    using assms(1) by (simp add: idp_unique_def i)
  ultimately obtain x where "filter (\<lambda>p. pe_idpId p = idpId) rows = [x]"
    by (cases "filter (\<lambda>p. pe_idpId p = idpId) rows") auto
  with Some show ?thesis by (auto simp: event_upsert_idp)
qed

lemma event_upsert_unique: "idp_unique rows \<Longrightarrow> idp_unique (event_upsert newId idpId rep rows)"
  by (auto simp: idp_unique_def event_upsert_idp)

lemma event_upsert_ids: "take (length rows) (map pe_id (event_upsert newId idpId rep rows)) = map pe_id rows"
  by (simp add: event_upsert_def)

lemma event_upsert_frame:
  assumes "pe_idpId p \<noteq> idpId"
  shows "p \<in> set (event_upsert newId idpId rep rows) \<longleftrightarrow> p \<in> set rows"
proof -
  have "p \<in> set xs \<longleftrightarrow> p \<in> set (filter (\<lambda>q. pe_idpId q = pe_idpId p) xs)" for xs by simp
  then show ?thesis using assms by (metis event_upsert_idp)
qed

lemma handleEvent_outcome:
  "handleEvent hmac secret parse newId body sig event rows =
     (if \<not> truthy secret \<or> nullish_or sig [] \<noteq> hmac (the secret) (nullish_or body [])
      then (Inl (UnauthorizedException ''Invalid signature''), rows)
      else (Inr True, if \<exists>rep. is_person_event parse event rep
        then event_upsert newId (ke_resourceId event) (the (parse (the (ke_representation event)))) rows
        else rows))"
  by (auto simp: handleEvent_def verifyWebhookSignature_def handleUserEvent_def is_person_event_def Let_def
      split: option.splits)

text \<open>
  A user event with a wrong signature, or any event while no secret is configured, is refused and
  changes no person; an accepted event keeps the identifiers of the stored persons and the uniqueness
  of identity-provider ids, touches no person but the one with the event's resource id, and after a
  complete create or update event exactly one person carries that id, with the event's names and
  address.
\<close>

theorem handleEvent_correct:
  assumes "idp_unique rows"
    and "handleEvent hmac secret parse newId body sig event rows = (r, rows')"
  shows "(\<not> truthy secret \<or> nullish_or sig [] \<noteq> hmac (the secret) (nullish_or body []) \<longrightarrow>
        r = Inl (UnauthorizedException ''Invalid signature'') \<and> rows' = rows)
     \<and> take (length rows) (map pe_id rows') = map pe_id rows
     \<and> idp_unique rows'
     \<and> (\<forall>p. pe_idpId p \<noteq> ke_resourceId event \<longrightarrow> (p \<in> set rows' \<longleftrightarrow> p \<in> set rows))
     \<and> (\<forall>rep. r = Inr True \<and> is_person_event parse event rep \<longrightarrow>
          (\<exists>p. filter (\<lambda>q. pe_idpId q = ke_resourceId event) rows' = [p]
             \<and> Some (pe_firstName p) = kr_firstName rep \<and> Some (pe_lastName p) = kr_lastName rep
             \<and> Some (pe_email p) = kr_email rep))"
proof -
  have one: "\<exists>p. filter (\<lambda>q. pe_idpId q = ke_resourceId event)
        (event_upsert newId (ke_resourceId event) rep rows) = [p]
      \<and> Some (pe_firstName p) = kr_firstName rep \<and> Some (pe_lastName p) = kr_lastName rep
      \<and> Some (pe_email p) = kr_email rep" if e: "is_person_event parse event rep" for rep
  proof -
    have t: "truthy (ke_resourceId event)" "truthy (kr_firstName rep)" "truthy (kr_lastName rep)" "truthy (kr_email rep)"
      using e by (simp_all add: is_person_event_def)
    obtain q where q: "filter (\<lambda>q. pe_idpId q = ke_resourceId event)
        (event_upsert newId (ke_resourceId event) rep rows) = [apply_representation rep q]"
      using event_upsert_one [OF assms(1) t(1), of newId rep] by (elim exE conjE) (rule that, simp)
    have "Some (the x) = x" if "truthy x" for x using that by (cases x) simp_all
    with q t show ?thesis by (simp add: apply_representation_def)
  qed
  have p: "is_person_event parse event rep \<Longrightarrow> parse (the (ke_representation event)) = Some rep" for rep
    by (simp add: is_person_event_def)
  show ?thesis
  proof (cases "(\<not> truthy secret \<or> nullish_or sig [] \<noteq> hmac (the secret) (nullish_or body []))
      \<or> \<not> (\<exists>rep. is_person_event parse event rep)")
    case True
    with assms show ?thesis by (auto simp: handleEvent_outcome split: if_splits)
  next
    case False
    then obtain rep where rep: "is_person_event parse event rep" by blast
    from False assms(2) rep have r: "r = Inr True" "rows' = event_upsert newId (ke_resourceId event) rep rows"
      by (auto simp: handleEvent_outcome p)
    have u: "rep' = rep" if "is_person_event parse event rep'" for rep' using p [OF that] p [OF rep] by simp
    show ?thesis
      using False one [OF rep] event_upsert_unique [OF assms(1)]
      by (simp add: r event_upsert_ids event_upsert_frame) (blast dest: u)
  qed
qed

definition ex_kc_event :: kc_event where
  "ex_kc_event = \<lparr>ke_type = ''admin.USER-UPDATE'', ke_resourceId = Some ''idp-p1'', ke_representation = Some ''{}''\<rparr>"

definition ex_representation :: kc_representation where
  "ex_representation = \<lparr>kr_firstName = Some ''Ann'', kr_lastName = Some ''Smith'', kr_email = Some ''ann@y'',
     kr_username = None, kr_phoneNumbers = Some [''555''], kr_positions = None, kr_enabled = Some False\<rparr>"

theorem handleEvent_correct_witness:
  "idp_unique [ex_person ''p1'' ''Ann@X.io'']
   \<and> is_person_event (\<lambda>s. Some ex_representation) ex_kc_event ex_representation
   \<and> (\<exists>p. filter (\<lambda>q. pe_idpId q = Some ''idp-p1'') (snd (handleEvent (\<lambda>k b. ''mac'') (Some ''k'')
        (\<lambda>s. Some ex_representation) ''new'' None (Some ''mac'') ex_kc_event [ex_person ''p1'' ''Ann@X.io''])) = [p]
      \<and> Some (pe_firstName p) = Some ''Ann'')"
proof -
  let ?h = "handleEvent (\<lambda>k b. ''mac'') (Some ''k'') (\<lambda>s. Some ex_representation) ''new'' None (Some ''mac'')
    ex_kc_event [ex_person ''p1'' ''Ann@X.io'']"
  have u: "idp_unique [ex_person ''p1'' ''Ann@X.io'']" by (simp add: idp_unique_def)
  have e: "is_person_event (\<lambda>s. Some ex_representation) ex_kc_event ex_representation"
    by (simp add: is_person_event_def ex_representation_def ex_kc_event_def)
  have r: "fst ?h = Inr True" by (simp add: handleEvent_outcome)
  from handleEvent_correct [OF u prod.collapse [of ?h, symmetric]] r e
  have "\<exists>p. filter (\<lambda>q. pe_idpId q = ke_resourceId ex_kc_event) (snd ?h) = [p]
      \<and> Some (pe_firstName p) = kr_firstName ex_representation" by blast
  with u e show ?thesis by (simp add: ex_kc_event_def ex_representation_def)
qed

end
