(* ===== verification/Keycloak_Groups.thy ===== *)
theory Keycloak_Groups
  imports Shield_Prelude
begin

section \<open>Group membership at the identity provider\<close>

text \<open>
  The transactional group operations of \<^verbatim>\<open>src/src/auth/keycloak/keycloak.service.ts\<close>. The provider's
  requests may be refused: \<open>ok i\<close> tells whether the \<open>i\<close>-th request of a batch is fulfilled, for any
  \<open>ok\<close>, and a refused request changes nothing. The state is the set of groups of the user. The requests
  of a batch run concurrently; each sets the membership in its own group to the same value, so the
  set they leave does not depend on their order (\<open>allSettled_mem\<close> below).
\<close>

record group_error =
  ge_message :: string
  ge_failures :: "id list"
  ge_rollbackFailures :: "id list"
  ge_userId :: id
  ge_groupIds :: "id list"

definition addToGroup :: "id \<Rightarrow> id set \<Rightarrow> id set" where
  "addToGroup groupId groups = insert groupId groups"

definition delFromGroup :: "id \<Rightarrow> id set \<Rightarrow> id set" where
  "delFromGroup groupId groups = groups - {groupId}"

definition allSettled :: "(id \<Rightarrow> id set \<Rightarrow> id set) \<Rightarrow> (nat \<Rightarrow> bool) \<Rightarrow> id list \<Rightarrow> id set \<Rightarrow> id set" where
  \<comment> \<open>\<open>Promise.allSettled(groupIds.map(request))\<close>\<close>
  "allSettled request ok groupIds groups =
     foldl (\<lambda>gs (i, g). if ok i then request g gs else gs) groups (enumerate 0 groupIds)"

definition fulfilled :: "(nat \<Rightarrow> bool) \<Rightarrow> id list \<Rightarrow> id list" where
  "fulfilled ok groupIds = map snd (filter (\<lambda>(i, g). ok i) (enumerate 0 groupIds))"

definition rejected :: "(nat \<Rightarrow> bool) \<Rightarrow> id list \<Rightarrow> id list" where
  "rejected ok groupIds = map snd (filter (\<lambda>(i, g). \<not> ok i) (enumerate 0 groupIds))"

definition transaction_message :: "string \<Rightarrow> id list \<Rightarrow> id list \<Rightarrow> id list \<Rightarrow> string" where
  "transaction_message what failures rollbackFailures successes =
     join_with [char_of (10 :: nat)]
       [''Transaction failed: '' @ show_nat (length failures) @ '' operations failed while '' @ what @ '' groups.'',
        ''Failed operations: '' @ join_with '', '' failures,
        if length rollbackFailures > 0
        then ''CRITICAL: Rollback failed for '' @ show_nat (length rollbackFailures) @ '' groups: ''
             @ join_with '', '' rollbackFailures @ ''. Manual intervention required!''
        else ''Successfully rolled back '' @ show_nat (length successes) @ '' operations.'']"

definition addUserToGroupsTransactional ::
    "id \<Rightarrow> id list \<Rightarrow> (nat \<Rightarrow> bool) \<Rightarrow> (nat \<Rightarrow> bool) \<Rightarrow> id set \<Rightarrow> (group_error + unit) \<times> id set" where
  "addUserToGroupsTransactional userId groupIds ok rollbackOk groups =
     (if length groupIds = 0 then (Inr (), groups)
      else
        (let groups1 = allSettled addToGroup ok groupIds groups;
             successes = fulfilled ok groupIds;
             failures = rejected ok groupIds
         in if length failures = 0 then (Inr (), groups1)
            else
              (let groups2 = allSettled delFromGroup rollbackOk successes groups1;
                   rollbackFailures = rejected rollbackOk successes
               in (Inl \<lparr>ge_message = transaction_message (''adding user '' @ userId @ '' to'') failures rollbackFailures successes,
                       ge_failures = failures, ge_rollbackFailures = rollbackFailures,
                       ge_userId = userId, ge_groupIds = groupIds\<rparr>, groups2))))"

definition removeUserFromGroupsTransactional ::
    "id \<Rightarrow> id list \<Rightarrow> (nat \<Rightarrow> bool) \<Rightarrow> (nat \<Rightarrow> bool) \<Rightarrow> id set \<Rightarrow> (group_error + unit) \<times> id set" where
  "removeUserFromGroupsTransactional userId groupIds ok rollbackOk groups =
     (if length groupIds = 0 then (Inr (), groups)
      else
        (let groups1 = allSettled delFromGroup ok groupIds groups;
             successes = fulfilled ok groupIds;
             failures = rejected ok groupIds
         in if length failures = 0 then (Inr (), groups1)
            else
              (let groups2 = allSettled addToGroup rollbackOk successes groups1;
                   rollbackFailures = rejected rollbackOk successes
               in (Inl \<lparr>ge_message = transaction_message (''removing user '' @ userId @ '' from'') failures rollbackFailures successes,
                       ge_failures = failures, ge_rollbackFailures = rollbackFailures,
                       ge_userId = userId, ge_groupIds = groupIds\<rparr>, groups2))))"

subsection \<open>Settled batches\<close>

lemma rejected_Nil_iff: "rejected ok gs = [] \<longleftrightarrow> (\<forall>i<length gs. ok i)"
  by (auto simp: rejected_def filter_empty_conv in_set_enumerate_eq set_zip enumerate_eq_zip)

lemma fulfilled_all: "(\<forall>i<length gs. ok i) \<Longrightarrow> fulfilled ok gs = gs"
proof -
  assume "\<forall>i<length gs. ok i"
  then have "filter (\<lambda>(i, g). ok i) (enumerate 0 gs) = enumerate 0 gs"
    by (intro filter_True) (auto simp: in_set_enumerate_eq)
  then show ?thesis by (simp add: fulfilled_def)
qed

lemma fulfilled_subset: "set (fulfilled ok gs) \<subseteq> set gs"
  by (auto simp: fulfilled_def in_set_enumerate_eq)

lemma allSettled_snoc:
  "allSettled request ok (gs @ [g]) S = (if ok (length gs) then request g (allSettled request ok gs S) else allSettled request ok gs S)"
  by (simp add: allSettled_def enumerate_append_eq)

lemma fulfilled_snoc: "fulfilled ok (gs @ [g]) = fulfilled ok gs @ (if ok (length gs) then [g] else [])"
  by (simp add: fulfilled_def enumerate_append_eq)

text \<open>
  A request and the request that undoes it: after the first the user is in the group exactly when
  \<open>value\<close> says so, after the second exactly when it does not, and no other group is affected.
\<close>

locale reversible_request =
  fixes act undo :: "id \<Rightarrow> id set \<Rightarrow> id set" and "value" :: bool
  assumes act_mem: "h \<in> act g S \<longleftrightarrow> (if h = g then value else h \<in> S)"
    and undo_mem: "h \<in> undo g S \<longleftrightarrow> (if h = g then \<not> value else h \<in> S)"
begin

lemma allSettled_mem: "h \<in> allSettled act ok gs S \<longleftrightarrow> (if h \<in> set (fulfilled ok gs) then value else h \<in> S)"
proof (induction gs rule: rev_induct)
  case Nil
  show ?case by (simp add: allSettled_def fulfilled_def)
next
  case (snoc g gs)
  then show ?case by (auto simp: allSettled_snoc fulfilled_snoc act_mem)
qed

lemma allSettled_all: "(\<forall>i<length gs. ok i) \<Longrightarrow> h \<in> allSettled act ok gs S \<longleftrightarrow> (if h \<in> set gs then value else h \<in> S)"
  by (simp add: allSettled_mem fulfilled_all)

end

interpretation add: reversible_request addToGroup delFromGroup True
  by unfold_locales (auto simp: addToGroup_def delFromGroup_def)

interpretation del: reversible_request delFromGroup addToGroup False
  by unfold_locales (auto simp: addToGroup_def delFromGroup_def)

context reversible_request
begin

lemma rolled_back:
  assumes undo: "reversible_request undo act (\<not> value)"
    and "rejected rollbackOk (fulfilled ok gs) = []"
  shows "h \<in> allSettled undo rollbackOk (fulfilled ok gs) (allSettled act ok gs S) \<longleftrightarrow>
     (if h \<in> set (fulfilled ok gs) then \<not> value else h \<in> S)"
  using assms(2) by (simp add: rejected_Nil_iff reversible_request.allSettled_all [OF undo] allSettled_mem)

end

lemmas rolled_back_add = add.rolled_back [simplified, OF del.reversible_request_axioms]
lemmas rolled_back_del = del.rolled_back [simplified, OF add.reversible_request_axioms]

subsection \<open>Properties\<close>

text \<open>
  Adding a user to groups, or removing the user from them, succeeds exactly when every request is
  fulfilled, and then the user is in all of the groups, respectively in none of them; otherwise the
  error lists the refused requests, and when no undo request was refused the membership is the
  original one, provided the user was in none of the groups before the addition, respectively in all
  of them before the removal.
\<close>

theorem groups_transaction_atomic:
  "(case addUserToGroupsTransactional u gs ok rollbackOk S of
      (Inr _, S') \<Rightarrow> (\<forall>i<length gs. ok i) \<and> S' = S \<union> set gs
    | (Inl e, S') \<Rightarrow> (\<exists>i<length gs. \<not> ok i) \<and> ge_failures e = rejected ok gs
        \<and> (ge_rollbackFailures e = [] \<and> set gs \<inter> S = {} \<longrightarrow> S' = S))
   \<and> (case removeUserFromGroupsTransactional u gs ok rollbackOk S of
      (Inr _, S') \<Rightarrow> (\<forall>i<length gs. ok i) \<and> S' = S - set gs
    | (Inl e, S') \<Rightarrow> (\<exists>i<length gs. \<not> ok i) \<and> ge_failures e = rejected ok gs
        \<and> (ge_rollbackFailures e = [] \<and> set gs \<subseteq> S \<longrightarrow> S' = S))"
proof -
  have d: "set (fulfilled ok gs) \<inter> S = {}" if "set gs \<inter> S = {}"
    using that fulfilled_subset [of ok gs] by blast
  have f: "set (fulfilled ok gs) \<subseteq> S" if "set gs \<subseteq> S" using that fulfilled_subset [of ok gs] by blast
  have a: "allSettled addToGroup ok gs S = S \<union> set gs" "allSettled delFromGroup ok gs S = S - set gs"
    if "\<forall>i<length gs. ok i" using that by (auto simp: add.allSettled_all del.allSettled_all split: if_splits)
  have b: "allSettled delFromGroup rollbackOk (fulfilled ok gs) (allSettled addToGroup ok gs S) = S"
    if "rejected rollbackOk (fulfilled ok gs) = []" "set gs \<inter> S = {}"
    using d [OF that(2)] by (auto simp: rolled_back_add [OF that(1)] split: if_splits)
  have c: "allSettled addToGroup rollbackOk (fulfilled ok gs) (allSettled delFromGroup ok gs S) = S"
    if "rejected rollbackOk (fulfilled ok gs) = []" "set gs \<subseteq> S"
    using f [OF that(2)] by (auto simp: rolled_back_del [OF that(1)] split: if_splits)
  show ?thesis
  proof (cases "rejected ok gs = []")
    case True
    then have "\<forall>i<length gs. ok i" by (simp add: rejected_Nil_iff)
    with True a show ?thesis
      by (simp add: addUserToGroupsTransactional_def removeUserFromGroupsTransactional_def Let_def)
  next
    case False
    then have "\<exists>i<length gs. \<not> ok i" "gs \<noteq> []" by (auto simp: rejected_Nil_iff)
    with False b c show ?thesis
      by (simp add: addUserToGroupsTransactional_def removeUserFromGroupsTransactional_def Let_def)
  qed
qed

theorem groups_transaction_atomic_witness:
  "snd (addUserToGroupsTransactional ''u'' [''g1'', ''g2''] (\<lambda>i. i = 0) (\<lambda>i. True) {''g3''}) = {''g3''}"
  using groups_transaction_atomic [where u = "''u''" and gs = "[''g1'', ''g2'']" and ok = "\<lambda>i. i = 0"
    and rollbackOk = "\<lambda>i. True" and S = "{''g3''}"]
  by (simp add: addUserToGroupsTransactional_def fulfilled_def rejected_def Let_def)

text \<open>
  Both are atomic only under those provisos: after a failed addition the user has lost a membership
  held before, and after a failed removal has gained one that was never there.
\<close>

lemma rollback_changes_membership:
  "snd (addUserToGroupsTransactional ''u'' [''admins'', ''gone''] (\<lambda>i. i = 0) (\<lambda>i. True) {''admins''}) = {}
   \<and> snd (removeUserFromGroupsTransactional ''u'' [''admins'', ''gone''] (\<lambda>i. i = 0) (\<lambda>i. True) {}) = {''admins''}"
  by (simp add: addUserToGroupsTransactional_def removeUserFromGroupsTransactional_def Let_def allSettled_def
      fulfilled_def rejected_def addToGroup_def delFromGroup_def)

end
