(* ===== verification/Asset_Db.thy ===== *)
theory Asset_Db
  imports Complex_Main Rls
begin

section \<open>Assets and tags\<close>

text \<open>
  The rows of \<^verbatim>\<open>src/prisma/schema.prisma\<close> the asset components share, with the columns those
  components use, and the policies of \<^verbatim>\<open>src/prisma/migrations\<close> on them. A JSON column is a value of
  type \<open>json\<close>; an object keeps its keys in order. A null column never satisfies a policy of its client.
\<close>

datatype json = JNull | JBool bool | JNum rat | JStr string | JArr "json list" | JObj "(string \<times> json) list"

record tag_row =
  tg_id :: id
  tg_externalId :: id
  tg_serialNumber :: string
  tg_siteId :: "id option"
  tg_clientId :: "id option"

record asset_row =
  as_id :: id
  as_createdOn :: time
  as_setupOn :: "time option"
  as_configured :: bool
  as_active :: bool
  as_name :: string
  as_productId :: id
  as_tagId :: "id option"
  as_serialNumber :: string
  as_inspectionCycle :: "int option"
  as_metadata :: "json option"
  as_siteId :: id
  as_clientId :: id

definition validate_client_opt :: "rls_context \<Rightarrow> id option \<Rightarrow> bool" where
  "validate_client_opt ctx c = (case c of None \<Rightarrow> False | Some i \<Rightarrow> validate_client ctx i)"

definition validate_site_opt :: "rls_context \<Rightarrow> id option \<Rightarrow> bool" where
  \<comment> \<open>the first branch of \<open>validate_site\<close> does not look at its argument\<close>
  "validate_site_opt ctx s =
     (case s of None \<Rightarrow> rls_scope ctx \<in> {SYSTEM, GLOBAL, CLIENT} | Some i \<Rightarrow> validate_site ctx i)"

definition tag_visible :: "rls_session \<Rightarrow> tag_row \<Rightarrow> bool" where
  "tag_visible s r =
     (case s of Bypass \<Rightarrow> True
      | Tenant ctx \<Rightarrow> validate_client_opt ctx (tg_clientId r) \<and> validate_site_opt ctx (tg_siteId r))"

definition asset_visible :: "rls_session \<Rightarrow> asset_row \<Rightarrow> bool" where
  "asset_visible s r =
     (case s of Bypass \<Rightarrow> True
      | Tenant ctx \<Rightarrow> validate_client ctx (as_clientId r) \<and> validate_site ctx (as_siteId r))"

interpretation asset_table: tenant_table asset_visible as_clientId
  by unfold_locales (auto simp: asset_visible_def validate_client_def)

lemma tag_visible_tenant:
  "tag_visible (Tenant ctx) r \<Longrightarrow> tg_clientId r = Some (rls_clientId ctx)"
  by (auto simp: tag_visible_def validate_client_opt_def validate_client_def split: option.splits)

lemma tag_visible_bypass [simp]: "tag_visible Bypass r"
  by (simp add: tag_visible_def)

end
