(* ===== verification/Js_Text.thy ===== *)
theory Js_Text
  imports Shield_Prelude
begin

section \<open>Decimal numbers in strings\<close>

text \<open>
  What the services use of JavaScript's number parsing and printing: \<open>parseInt\<close>, \<open>String(n)\<close>,
  \<open>padStart\<close> and the split of a serial number into a prefix and its final digits. A number is an
  integer, or \<open>None\<close> for \<open>NaN\<close>; the numbers of the program (milliseconds, serial numbers) are taken
  to be within the exact range of a double.
\<close>

definition is_digit :: "char \<Rightarrow> bool" where
  "is_digit c = (48 \<le> (of_char c :: nat) \<and> (of_char c :: nat) \<le> 57)"

definition digit_val :: "char \<Rightarrow> nat" where
  "digit_val c = of_char c - 48"

definition hex_val :: "char \<Rightarrow> nat option" where
  "hex_val c =
     (let n = of_char c :: nat
      in if 48 \<le> n \<and> n \<le> 57 then Some (n - 48)
         else if 97 \<le> n \<and> n \<le> 102 then Some (n - 87)
         else if 65 \<le> n \<and> n \<le> 70 then Some (n - 55) else None)"

definition dec_value :: "string \<Rightarrow> nat" where
  "dec_value ds = foldl (\<lambda>v c. 10 * v + digit_val c) 0 ds"

definition hex_value :: "string \<Rightarrow> nat" where
  "hex_value ds = foldl (\<lambda>v c. 16 * v + the (hex_val c)) 0 ds"

definition is_space :: "char \<Rightarrow> bool" where
  "is_space c = ((of_char c :: nat) \<in> {9, 10, 11, 12, 13, 32, 160})"

definition parse_unsigned :: "string \<Rightarrow> nat option" where
  "parse_unsigned s =
     (if take 2 s \<in> {''0x'', ''0X''}
      then (case takeWhile (\<lambda>c. hex_val c \<noteq> None) (drop 2 s) of [] \<Rightarrow> None | ds \<Rightarrow> Some (hex_value ds))
      else (case takeWhile is_digit s of [] \<Rightarrow> None | ds \<Rightarrow> Some (dec_value ds)))"

definition parseInt :: "string \<Rightarrow> int option" where
  "parseInt s =
     (let t = dropWhile is_space s
      in if take 1 t = ''-'' then map_option (\<lambda>n. - int n) (parse_unsigned (drop 1 t))
         else if take 1 t = ''+'' then map_option int (parse_unsigned (drop 1 t))
         else map_option int (parse_unsigned t))"

definition show_num :: "int option \<Rightarrow> string" where
  \<comment> \<open>a number in a template literal\<close>
  "show_num n = (case n of None \<Rightarrow> ''NaN'' | Some i \<Rightarrow> show_int i)"

definition padStart :: "nat \<Rightarrow> char \<Rightarrow> string \<Rightarrow> string" where
  "padStart n c s = replicate (n - length s) c @ s"

definition trailing_digits :: "string \<Rightarrow> string" where
  "trailing_digits s = rev (takeWhile is_digit (rev s))"

definition before_digits :: "string \<Rightarrow> string" where
  "before_digits s = rev (dropWhile is_digit (rev s))"

subsection \<open>Printed numbers\<close>

lemma digit_char:
  assumes "n < 10"
  shows "is_digit (char_of (n + 48))" and "digit_val (char_of (n + 48)) = n"
proof -
  have "(of_char (char_of (n + 48) :: char) :: nat) = (n + 48) mod 256" by (rule of_char_of)
  also have "\<dots> = n + 48" using assms by simp
  finally have e: "(of_char (char_of (n + 48) :: char) :: nat) = n + 48" .
  show "is_digit (char_of (n + 48))" "digit_val (char_of (n + 48)) = n"
    using assms by (simp_all add: is_digit_def digit_val_def e)
qed

lemma show_nat_digits: "list_all is_digit (show_nat n)"
proof (induction n rule: show_nat.induct)
  case (1 n)
  show ?case
  proof (cases "n < 10")
    case True
    then show ?thesis by (subst show_nat.simps) (simp add: digit_char)
  next
    case False
    with 1 show ?thesis by (subst show_nat.simps) (simp add: digit_char)
  qed
qed

lemma show_nat_nonempty: "show_nat n \<noteq> []"
  by (subst show_nat.simps) simp

lemma dec_value_snoc: "dec_value (ds @ [c]) = 10 * dec_value ds + digit_val c"
  by (simp add: dec_value_def)

lemma dec_value_show_nat: "dec_value (show_nat n) = n"
proof (induction n rule: show_nat.induct)
  case (1 n)
  show ?case
  proof (cases "n < 10")
    case True
    then have "dec_value (show_nat n) = digit_val (char_of (n + 48))"
      by (subst show_nat.simps) (simp add: dec_value_def)
    with True show ?thesis by (simp add: digit_char)
  next
    case False
    then have "dec_value (show_nat n) = dec_value (show_nat (n div 10) @ [char_of (n mod 10 + 48)])"
      by (subst show_nat.simps) simp
    also have "\<dots> = 10 * (n div 10) + n mod 10" using 1 False by (simp add: dec_value_snoc digit_char)
    finally show ?thesis by simp
  qed
qed

lemma dec_value_zeros: "dec_value (replicate k (CHR ''0'') @ ds) = dec_value ds"
proof -
  have "foldl (\<lambda>v c. 10 * v + digit_val c) 0 (replicate k (CHR ''0'')) = 0"
    by (induction k) (simp_all add: digit_val_def)
  then show ?thesis by (simp add: dec_value_def)
qed

lemma is_digit_not: "\<not> is_digit (CHR ''.'')" "\<not> is_digit (CHR ''-'')" "\<not> is_digit (CHR ''+'')"
    "\<not> is_digit (CHR ''x'')" "\<not> is_digit (CHR ''X'')" "is_digit (CHR ''0'')"
  by (simp_all add: is_digit_def)

lemma digit_val_le: "is_digit c \<Longrightarrow> digit_val c \<le> 9"
  unfolding is_digit_def digit_val_def by linarith

lemma digits_no: "list_all is_digit ds \<Longrightarrow> \<not> is_digit c \<Longrightarrow> c \<notin> set ds"
  by (auto simp: list_all_iff)

lemma show_int_no_dot: "CHR ''.'' \<notin> set (show_int i)"
  using digits_no [OF show_nat_digits is_digit_not(1)] by (simp add: show_int_def)

lemma digit_not_space: "is_digit c \<Longrightarrow> \<not> is_space c"
  by (auto simp: is_digit_def is_space_def)

lemma take2_digits: "list_all is_digit s \<Longrightarrow> take 2 s \<noteq> ''0x'' \<and> take 2 s \<noteq> ''0X''"
  using is_digit_not by (cases s rule: list.exhaust; cases "tl s") auto

lemma parse_unsigned_digits:
  "list_all is_digit s \<Longrightarrow> s \<noteq> [] \<Longrightarrow> parse_unsigned s = Some (dec_value s)"
proof -
  assume d: "list_all is_digit s" and n: "s \<noteq> []"
  have "takeWhile is_digit s = s" using d by (simp add: list_all_iff)
  moreover have "take 2 s \<notin> {''0x'', ''0X''}" using take2_digits [OF d] by simp
  ultimately have "parse_unsigned s = (case s of [] \<Rightarrow> None | ds \<Rightarrow> Some (dec_value ds))"
    unfolding parse_unsigned_def by (simp only: if_False)
  with n show ?thesis by (cases s) simp_all
qed

lemma parseInt_digits: "list_all is_digit s \<Longrightarrow> s \<noteq> [] \<Longrightarrow> parseInt s = Some (int (dec_value s))"
proof -
  assume d: "list_all is_digit s" and n: "s \<noteq> []"
  then obtain c cs where s: "s = c # cs" and c: "is_digit c" by (cases s) auto
  from c have "\<not> is_space c" "c \<noteq> CHR ''-''" "c \<noteq> CHR ''+''" using digit_not_space is_digit_not by auto
  then show ?thesis using parse_unsigned_digits [OF d n] by (simp add: parseInt_def s Let_def)
qed

lemma parseInt_show_int: "parseInt (show_int i) = Some i"
proof (cases "i < 0")
  case True
  then have "show_int i = CHR ''-'' # show_nat (nat (- i))" by (simp add: show_int_def)
  moreover have "\<not> is_space (CHR ''-'')" by (simp add: is_space_def)
  ultimately show ?thesis using True
    by (simp add: parseInt_def Let_def parse_unsigned_digits show_nat_digits show_nat_nonempty dec_value_show_nat)
next
  case False
  then show ?thesis
    by (simp add: show_int_def parseInt_digits show_nat_digits show_nat_nonempty dec_value_show_nat)
qed

lemma show_int_inj: "show_int i = show_int j \<longleftrightarrow> i = j"
  by (metis option.inject parseInt_show_int)

subsection \<open>Prefix and final digits\<close>

lemma before_trailing: "before_digits s @ trailing_digits s = s"
proof -
  have "before_digits s @ trailing_digits s = rev (takeWhile is_digit (rev s) @ dropWhile is_digit (rev s))"
    unfolding before_digits_def trailing_digits_def rev_append ..
  also have "\<dots> = s" unfolding takeWhile_dropWhile_id by simp
  finally show ?thesis .
qed

lemma trailing_digits_digits: "list_all is_digit (trailing_digits s)"
  by (auto simp: trailing_digits_def list_all_iff dest: set_takeWhileD)

lemma split_digits_append:
  assumes "list_all is_digit ds"
  shows "trailing_digits (before_digits s @ ds) = ds" and "before_digits (before_digits s @ ds) = before_digits s"
proof -
  let ?p = "dropWhile is_digit (rev s)"
  have r: "rev (before_digits s @ ds) = rev ds @ ?p" by (simp add: before_digits_def)
  have a: "\<forall>c\<in>set (rev ds). is_digit c" using assms by (simp add: list_all_iff)
  have h: "takeWhile is_digit ?p = []" "dropWhile is_digit ?p = ?p"
    by (metis hd_dropWhile takeWhile_eq_Nil_iff) (simp add: dropWhile_idem)
  have t: "takeWhile is_digit (rev ds @ ?p) = rev ds"
    using takeWhile_append2 [of "rev ds" is_digit ?p] a h(1) by simp
  have d: "dropWhile is_digit (rev ds @ ?p) = ?p"
    using dropWhile_append2 [of "rev ds" is_digit ?p] a h(2) by simp
  show "trailing_digits (before_digits s @ ds) = ds" unfolding trailing_digits_def r t by simp
  show "before_digits (before_digits s @ ds) = before_digits s"
    unfolding before_digits_def [of "before_digits s @ ds"] r d by (simp add: before_digits_def)
qed

lemma padStart_digits: "list_all is_digit s \<Longrightarrow> list_all is_digit (padStart n (CHR ''0'') s)"
  by (auto simp: padStart_def list_all_iff is_digit_not)

lemma dec_value_pad: "dec_value (padStart n (CHR ''0'') s) = dec_value s"
  by (simp add: padStart_def dec_value_zeros)

text \<open>Digit strings of one length are equal when their values are, so padding a value reproduces it.\<close>

lemma dec_value_less: "list_all is_digit ds \<Longrightarrow> dec_value ds < 10 ^ length ds"
proof (induction ds rule: rev_induct)
  case Nil
  show ?case by (simp add: dec_value_def)
next
  case (snoc c ds)
  have "digit_val c \<le> 9" using snoc.prems by (simp add: digit_val_le)
  with snoc show ?case by (simp add: dec_value_snoc)
qed

lemma digit_val_inj: "is_digit a \<Longrightarrow> is_digit b \<Longrightarrow> digit_val a = digit_val b \<Longrightarrow> a = b"
proof -
  assume "is_digit a" "is_digit b" "digit_val a = digit_val b"
  then have "(of_char a :: nat) = of_char b" unfolding is_digit_def digit_val_def by linarith
  then show "a = b" by simp
qed

lemma dec_value_inj:
  assumes "length a = length b" "list_all is_digit a" "list_all is_digit b" "dec_value a = dec_value b"
  shows "a = b"
  using assms
proof (induction a arbitrary: b rule: rev_induct)
  case Nil
  then show ?case by simp
next
  case (snoc x xs)
  from snoc.prems(1) obtain ys y where b: "b = ys @ [y]" by (cases b rule: rev_cases) auto
  have d: "digit_val x \<le> 9" "digit_val y \<le> 9" using snoc.prems by (simp_all add: b digit_val_le)
  have e: "10 * dec_value xs + digit_val x = 10 * dec_value ys + digit_val y"
    using snoc.prems(4) by (simp add: b dec_value_snoc)
  with d have "dec_value xs = dec_value ys" "digit_val x = digit_val y" by presburger+
  then show ?case using snoc b digit_val_inj by auto
qed

lemma length_show_nat: "0 < k \<Longrightarrow> n < 10 ^ k \<Longrightarrow> length (show_nat n) \<le> k"
proof (induction k arbitrary: n)
  case 0
  then show ?case by simp
next
  case (Suc k)
  show ?case
  proof (cases "n < 10")
    case True
    then show ?thesis by (subst show_nat.simps) simp
  next
    case False
    then have "0 < k" using Suc.prems by (cases k) simp_all
    moreover have "n div 10 < 10 ^ k" using Suc.prems by (simp add: less_mult_imp_div_less mult.commute)
    ultimately show ?thesis using Suc.IH False by (subst show_nat.simps) simp
  qed
qed

lemma pad_dec_value:
  assumes "list_all is_digit ds" "ds \<noteq> []"
  shows "padStart (length ds) (CHR ''0'') (show_nat (dec_value ds)) = ds"
proof (rule dec_value_inj)
  have "length (show_nat (dec_value ds)) \<le> length ds"
    using assms dec_value_less by (intro length_show_nat) auto
  then show "length (padStart (length ds) (CHR ''0'') (show_nat (dec_value ds))) = length ds"
    by (simp add: padStart_def)
qed (use assms in \<open>simp_all add: padStart_digits show_nat_digits dec_value_pad dec_value_show_nat\<close>)

end
