(* ===== verification/Tag_Tokens.thy ===== *)
theory Tag_Tokens
  imports Auth_Tokens Js_Text
begin

section \<open>Signed tag addresses and inspection tokens\<close>

text \<open>
  The signing half of \<^verbatim>\<open>src/src/assets/tags/tags.service.ts\<close>: the signed address programmed into a
  tag, its validation, the inspection token a validated scan yields, and the generation of addresses
  for a range of serial numbers. The request schema is \<^verbatim>\<open>dto/bulk-generate-signed-tag-url.dto.ts\<close>.
  The base64url codec and the HMAC are external, as for the custom tokens. A signed address is the
  record of its query parameters; their encoding in a URL is left to the platform.
\<close>

record sign_env =
  se_hmac :: "string \<Rightarrow> string \<Rightarrow> string"
  se_encode :: "string \<Rightarrow> string" \<comment> \<open>\<open>Buffer.from(s).toString('base64url')\<close>\<close>
  se_decode :: "string \<Rightarrow> string"
  se_newSecret :: string
  se_defaultKeyId :: string

definition SIG_LENGTH :: nat where
  "SIG_LENGTH = 16"

text \<open>
  The private \<open>generateSignature\<close>. It returns the promise from inside the \<open>try\<close> block without
  awaiting it, so an expired key is not turned into a bad request. A timestamp may be \<open>NaN\<close>, which is
  after no date and is printed as such.
\<close>

definition tags_generateSignature ::
    "('c, signing_key) cache_ops \<Rightarrow> sign_env \<Rightarrow> string \<Rightarrow> int option \<Rightarrow> string option
     \<Rightarrow> 'c \<Rightarrow> signing_key list \<Rightarrow> string result \<times> 'c \<times> signing_key list" where
  "tags_generateSignature ops env signatureData timestamp keyId c keys =
     (case timestamp of
        Some t \<Rightarrow> generateSignature ops (se_hmac env) (se_newSecret env) (se_defaultKeyId env) keyId
          signatureData t False (Some SIG_LENGTH) c keys
      | None \<Rightarrow>
          (let (k, c', keys') = getSigningKey ops (se_newSecret env) (nullish_or keyId (se_defaultKeyId env)) c keys
           in (bindr k (\<lambda>key. Inr (take SIG_LENGTH
                (se_hmac env (sk_keySecret key) (signatureData @ ''.'' @ show_num None)))), c', keys')))"

definition safeEqualStrings :: "string \<Rightarrow> string \<Rightarrow> bool" where
  "safeEqualStrings a b = (if length a \<noteq> length b then False else a = b)"

subsection \<open>Inspection tokens\<close>

definition generateInspectionToken ::
    "('c, signing_key) cache_ops \<Rightarrow> sign_env \<Rightarrow> time \<Rightarrow> string \<Rightarrow> id
     \<Rightarrow> 'c \<Rightarrow> signing_key list \<Rightarrow> string result \<times> 'c \<times> signing_key list" where
  "generateInspectionToken ops env now serialNumber externalId c keys =
     (let expiresOn = now + 3600000;
          keyId = se_defaultKeyId env;
          (sig, c', keys') = tags_generateSignature ops env
            (serialNumber @ ''.'' @ externalId @ ''.'' @ show_int expiresOn) (Some now) (Some keyId) c keys
      in (bindr sig (\<lambda>s. Inr (se_encode env
            (serialNumber @ ''.'' @ externalId @ ''.'' @ show_int expiresOn @ ''.'' @ show_int now
             @ ''.'' @ keyId @ ''.'' @ s))), c', keys'))"

record inspection_token =
  it_serialNumber :: string
  it_tagExternalId :: "string option"
  it_expiresOn :: "int option"
  it_timestamp :: "int option"
  it_keyId :: "string option"
  it_signature :: "string option"

definition nth_part :: "string list \<Rightarrow> nat \<Rightarrow> string option" where
  \<comment> \<open>array destructuring: a missing element is \<open>undefined\<close>\<close>
  "nth_part parts i = (if i < length parts then Some (parts ! i) else None)"

definition parseInt_opt :: "string option \<Rightarrow> int option" where
  \<comment> \<open>\<open>parseInt(undefined)\<close> is \<open>NaN\<close>\<close>
  "parseInt_opt s = Option.bind s parseInt"

definition parseInspectionToken :: "sign_env \<Rightarrow> string \<Rightarrow> inspection_token" where
  "parseInspectionToken env token =
     (let parts = split_on (CHR ''.'') (se_decode env token)
      in \<lparr>it_serialNumber = hd parts, it_tagExternalId = nth_part parts 1,
          it_expiresOn = parseInt_opt (nth_part parts 2), it_timestamp = parseInt_opt (nth_part parts 3),
          it_keyId = nth_part parts 4, it_signature = nth_part parts 5\<rparr>)"

record token_check =
  tc_isValid :: bool
  tc_reason :: "string option"
  tc_tagExternalId :: "string option"
  tc_expiresOn :: "int option"
  tc_serialNumber :: string

text \<open>
  \<open>isAfter\<close> with an invalid date is false. A token without a signature part makes the comparison throw
  a \<open>TypeError\<close>.
\<close>

definition validateInspectionToken ::
    "('c, signing_key) cache_ops \<Rightarrow> sign_env \<Rightarrow> time \<Rightarrow> string
     \<Rightarrow> 'c \<Rightarrow> signing_key list \<Rightarrow> token_check result \<times> 'c \<times> signing_key list" where
  "validateInspectionToken ops env now token c keys =
     (let it = parseInspectionToken env token;
          isExpired = (case it_expiresOn it of None \<Rightarrow> False | Some e \<Rightarrow> e < now);
          answer = (\<lambda>v r. \<lparr>tc_isValid = v, tc_reason = r, tc_tagExternalId = it_tagExternalId it,
                           tc_expiresOn = it_expiresOn it, tc_serialNumber = it_serialNumber it\<rparr>)
      in if isExpired then (Inr (answer False (Some ''Inspection token has expired'')), c, keys)
         else
           (let (sig, c', keys') = tags_generateSignature ops env
                  (it_serialNumber it @ ''.'' @ nullish_or (it_tagExternalId it) ''undefined'' @ ''.''
                   @ show_num (it_expiresOn it)) (it_timestamp it) (it_keyId it) c keys
            in (bindr sig (\<lambda>validSignature.
                  case it_signature it of
                    None \<Rightarrow> Inl (ServerError ''TypeError'')
                  | Some s \<Rightarrow>
                      if \<not> safeEqualStrings validSignature s
                      then Inr (answer False (Some ''Invalid inspection token signature''))
                      else Inr (answer True None)), c', keys')))"

subsection \<open>Signed tag addresses\<close>

record signed_url =
  su_sn :: string
  su_id :: id
  su_t :: int
  su_sig :: string
  su_kid :: string

definition generateTagUrlSignature ::
    "('c, signing_key) cache_ops \<Rightarrow> sign_env \<Rightarrow> string \<Rightarrow> id \<Rightarrow> int \<Rightarrow> string
     \<Rightarrow> 'c \<Rightarrow> signing_key list \<Rightarrow> string result \<times> 'c \<times> signing_key list" where
  "generateTagUrlSignature ops env serialNumber i timestamp keyId c keys =
     tags_generateSignature ops env (serialNumber @ ''.'' @ i) (Some timestamp) (Some keyId) c keys"

definition generateSignedUrl ::
    "('c, signing_key) cache_ops \<Rightarrow> sign_env \<Rightarrow> time \<Rightarrow> id \<Rightarrow> string \<Rightarrow> string \<Rightarrow> id option
     \<Rightarrow> 'c \<Rightarrow> signing_key list \<Rightarrow> signed_url result \<times> 'c \<times> signing_key list" where
  "generateSignedUrl ops env now newId keyId serialNumber externalId c keys =
     (let i = nullish_or externalId newId;
          (sig, c', keys') = generateTagUrlSignature ops env serialNumber i now keyId c keys
      in (bindr sig (\<lambda>s. Inr \<lparr>su_sn = serialNumber, su_id = i, su_t = now, su_sig = s, su_kid = keyId\<rparr>), c', keys'))"

definition generateSignedUrlSingle ::
    "('c, signing_key) cache_ops \<Rightarrow> sign_env \<Rightarrow> time \<Rightarrow> id \<Rightarrow> string option \<Rightarrow> string \<Rightarrow> id option
     \<Rightarrow> 'c \<Rightarrow> signing_key list \<Rightarrow> signed_url result \<times> 'c \<times> signing_key list" where
  "generateSignedUrlSingle ops env now newId keyId serialNumber externalId c keys =
     generateSignedUrl ops env now newId (nullish_or keyId (se_defaultKeyId env)) serialNumber externalId c keys"

record url_check =
  uc_isValid :: bool
  uc_url :: signed_url
  uc_inspectionToken :: "string option"

definition validateTagSignature ::
    "('c, signing_key) cache_ops \<Rightarrow> sign_env \<Rightarrow> time \<Rightarrow> signed_url
     \<Rightarrow> 'c \<Rightarrow> signing_key list \<Rightarrow> url_check result \<times> 'c \<times> signing_key list" where
  "validateTagSignature ops env now u c keys =
     (let (sig, c', keys') = generateTagUrlSignature ops env (su_sn u) (su_id u) (su_t u) (su_kid u) c keys
      in case sig of
          Inl e \<Rightarrow> (Inl e, c', keys')
        | Inr s \<Rightarrow>
            if safeEqualStrings s (su_sig u) then
              (let (tok, c'', keys'') = generateInspectionToken ops env now (su_sn u) (su_id u) c' keys'
               in (bindr tok (\<lambda>t. Inr \<lparr>uc_isValid = True, uc_url = u, uc_inspectionToken = Some t\<rparr>), c'', keys''))
            else (Inr \<lparr>uc_isValid = False, uc_url = u, uc_inspectionToken = None\<rparr>, c', keys'))"

subsection \<open>Ranges of serial numbers\<close>

datatype bulk_method = sequential | manual

record bulk_dto =
  bd_method :: bulk_method
  bd_serialNumbers :: "string list option"
  bd_rangeStart :: "string option"
  bd_rangeEnd :: "string option"
  bd_keyId :: "string option"

definition serial_char :: "char \<Rightarrow> bool" where
  "serial_char c =
     (let n = of_char c :: nat
      in is_digit c \<or> 65 \<le> n \<and> n \<le> 90 \<or> 97 \<le> n \<and> n \<le> 122 \<or> c = CHR ''_'' \<or> c = CHR ''-'')"

definition serial_ok :: "string \<Rightarrow> bool" where
  "serial_ok s \<longleftrightarrow> list_all serial_char s \<and> trailing_digits s \<noteq> []"

definition bulk_dto_ok :: "bulk_dto \<Rightarrow> bool" where
  "bulk_dto_ok dto \<longleftrightarrow>
     (case bd_serialNumbers dto of None \<Rightarrow> True | Some xs \<Rightarrow> list_all serial_ok xs)
     \<and> (case bd_rangeStart dto of None \<Rightarrow> True | Some s \<Rightarrow> serial_ok s)
     \<and> (case bd_rangeEnd dto of None \<Rightarrow> True | Some s \<Rightarrow> serial_ok s)
     \<and> (case bd_method dto of
          manual \<Rightarrow> bd_serialNumbers dto \<noteq> None
        | sequential \<Rightarrow>
            (case (bd_rangeStart dto, bd_rangeEnd dto) of
               (Some s, Some e) \<Rightarrow>
                 before_digits s = before_digits e
                 \<and> dec_value (trailing_digits s) \<le> dec_value (trailing_digits e)
                 \<and> dec_value (trailing_digits e) - dec_value (trailing_digits s) + 1 \<le> 100000
             | _ \<Rightarrow> False))"

definition parseSerialNumber :: "string \<Rightarrow> string \<times> string" where
  \<comment> \<open>the match of \<open>/^(.*?)(\d+)$/\<close>: the dot does not match a line end\<close>
  "parseSerialNumber serial =
     (if trailing_digits serial = [] \<or> list_ex (\<lambda>c. (of_char c :: nat) \<in> {10, 13}) (before_digits serial)
      then ([], serial) else (before_digits serial, trailing_digits serial))"

definition serialNumberCount :: "bulk_dto \<Rightarrow> nat" where
  \<comment> \<open>a count that is \<open>NaN\<close> runs no iteration\<close>
  "serialNumberCount dto =
     (case bd_method dto of
        sequential \<Rightarrow>
          (case (parseInt (snd (parseSerialNumber (nullish_or (bd_rangeStart dto) ''0''))),
                 parseInt (snd (parseSerialNumber (nullish_or (bd_rangeEnd dto) ''0'')))) of
             (Some s, Some e) \<Rightarrow> nat (e - s + 1)
           | _ \<Rightarrow> 0)
      | manual \<Rightarrow> length (nullish_or (bd_serialNumbers dto) []))"

definition getSerialNumber :: "bulk_dto \<Rightarrow> nat \<Rightarrow> string option" where
  "getSerialNumber dto idx =
     (case bd_method dto of
        sequential \<Rightarrow>
          (let (prefix, numeric) = parseSerialNumber (nullish_or (bd_rangeStart dto) ''0'')
           in Some (prefix @ padStart (length numeric) (CHR ''0'')
                (show_num (map_option (\<lambda>n. n + int idx) (parseInt numeric)))))
      | manual \<Rightarrow> Option.bind (bd_serialNumbers dto) (\<lambda>xs. nth_part xs idx))"

definition bulk_serials :: "bulk_dto \<Rightarrow> string list" where
  \<comment> \<open>the serial numbers of the loop's iterations that are not skipped\<close>
  "bulk_serials dto =
     map the (filter truthy (map (getSerialNumber dto) [0..<serialNumberCount dto]))"

fun sign_serials ::
    "('c, signing_key) cache_ops \<Rightarrow> sign_env \<Rightarrow> (nat \<Rightarrow> time) \<Rightarrow> (nat \<Rightarrow> id) \<Rightarrow> string \<Rightarrow> nat \<Rightarrow> string list
     \<Rightarrow> 'c \<Rightarrow> signing_key list \<Rightarrow> signed_url list \<times> api_error option \<times> 'c \<times> signing_key list" where
  \<comment> \<open>the yielded addresses; an exception ends the generator\<close>
  "sign_serials ops env now newId keyId i [] c keys = ([], None, c, keys)"
| "sign_serials ops env now newId keyId i (sn # sns) c keys =
     (let (r, c', keys') = generateSignedUrl ops env (now i) (newId i) keyId sn None c keys
      in case r of
          Inl e \<Rightarrow> ([], Some e, c', keys')
        | Inr u \<Rightarrow>
            (let (us, e, c'', keys'') = sign_serials ops env now newId keyId (Suc i) sns c' keys'
             in (u # us, e, c'', keys'')))"

definition generateSignedUrlBulk ::
    "('c, signing_key) cache_ops \<Rightarrow> sign_env \<Rightarrow> (nat \<Rightarrow> time) \<Rightarrow> (nat \<Rightarrow> id) \<Rightarrow> bulk_dto
     \<Rightarrow> 'c \<Rightarrow> signing_key list \<Rightarrow> signed_url list \<times> api_error option \<times> 'c \<times> signing_key list" where
  "generateSignedUrlBulk ops env now newId dto c keys =
     sign_serials ops env now newId (nullish_or (bd_keyId dto) (se_defaultKeyId env)) 0 (bulk_serials dto) c keys"

subsection \<open>Signatures repeat\<close>

lemma tags_generateSignature_again:
  assumes "cache_store ops" and "tags_generateSignature ops env d (Some t) kid c keys = (Inr s, c', keys')"
  shows "tags_generateSignature ops env d (Some t) kid c' keys' = (Inr s, c', keys')"
  using assms(2) generateSignature_again [OF assms(1)] by (simp add: tags_generateSignature_def)

lemma tags_generateSignature_digest:
  assumes "tags_generateSignature ops env d t kid c keys = (Inr s, c', keys')"
  shows "\<exists>key. getSigningKey ops (se_newSecret env) (nullish_or kid (se_defaultKeyId env)) c keys = (Inr key, c', keys')
     \<and> s = take SIG_LENGTH (se_hmac env (sk_keySecret key) (d @ ''.'' @ show_num t))"
  using assms
  by (cases "getSigningKey ops (se_newSecret env) (nullish_or kid (se_defaultKeyId env)) c keys"; cases t)
    (auto simp: tags_generateSignature_def generateSignature_def bindr_Inr_iff sign_with_Inr_iff show_num_def)

lemma safeEqualStrings_iff [simp]: "safeEqualStrings a b \<longleftrightarrow> a = b"
  by (auto simp: safeEqualStrings_def)

text \<open>The six parts of a token come back from its text when none of them contains a dot.\<close>

lemma split_six:
  assumes "CHR ''.'' \<notin> set a" "CHR ''.'' \<notin> set b" "CHR ''.'' \<notin> set e" "CHR ''.'' \<notin> set f"
    "CHR ''.'' \<notin> set g" "CHR ''.'' \<notin> set h"
  shows "split_on (CHR ''.'') (a @ ''.'' @ b @ ''.'' @ e @ ''.'' @ f @ ''.'' @ g @ ''.'' @ h) = [a, b, e, f, g, h]"
  using assms by (simp add: split_on_append_sep split_on_no_sep)

lemma token_validates:
  assumes "cache_store ops" and codec: "\<And>x. se_decode env (se_encode env x) = x"
    and dots: "\<And>k d. CHR ''.'' \<notin> set (se_hmac env k d)" "CHR ''.'' \<notin> set sn" "CHR ''.'' \<notin> set ext" "CHR ''.'' \<notin> set kid"
    and sig: "tags_generateSignature ops env (sn @ ''.'' @ ext @ ''.'' @ show_int exp) (Some ts) (Some kid) c keys
      = (Inr s, c', keys')"
    and "now \<le> exp"
  shows "validateInspectionToken ops env now
      (se_encode env (sn @ ''.'' @ ext @ ''.'' @ show_int exp @ ''.'' @ show_int ts @ ''.'' @ kid @ ''.'' @ s)) c' keys'
    = (Inr \<lparr>tc_isValid = True, tc_reason = None, tc_tagExternalId = Some ext, tc_expiresOn = Some exp,
         tc_serialNumber = sn\<rparr>, c', keys')"
proof -
  from tags_generateSignature_digest [OF sig] obtain key :: signing_key where
    "s = take SIG_LENGTH (se_hmac env (sk_keySecret key) ((sn @ ''.'' @ ext @ ''.'' @ show_int exp) @ ''.'' @ show_num (Some ts)))"
    by (elim exE conjE) (rule that)
  then have "CHR ''.'' \<notin> set s" using dots(1) in_set_takeD by fast
  with dots have parts: "split_on (CHR ''.'') (sn @ ''.'' @ ext @ ''.'' @ show_int exp @ ''.'' @ show_int ts @ ''.'' @ kid @ ''.'' @ s)
      = [sn, ext, show_int exp, show_int ts, kid, s]"
    by (intro split_six show_int_no_dot)
  have it: "parseInspectionToken env
      (se_encode env (sn @ ''.'' @ ext @ ''.'' @ show_int exp @ ''.'' @ show_int ts @ ''.'' @ kid @ ''.'' @ s)) =
      \<lparr>it_serialNumber = sn, it_tagExternalId = Some ext, it_expiresOn = Some exp, it_timestamp = Some ts,
       it_keyId = Some kid, it_signature = Some s\<rparr>"
    unfolding parseInspectionToken_def codec parts Let_def
    by (simp add: nth_part_def parseInt_opt_def parseInt_show_int)
  show ?thesis
    using assms(8) tags_generateSignature_again [OF assms(1) sig]
    unfolding validateInspectionToken_def it Let_def by (simp add: show_num_def)
qed

subsection \<open>Properties\<close>

text \<open>
  C15: a scan works end to end: the address generated for a tag is accepted by the validation, and the
  inspection token this yields is accepted for one hour, for exactly that tag and serial number.
  Relied on: the codec inverts itself, digests contain no dot; the serial number, the tag's id and
  the key's id contain no dot either.
\<close>

theorem tag_scan_roundtrip:
  assumes "cache_store ops" and "\<And>x. se_decode env (se_encode env x) = x"
    and "\<And>k d. CHR ''.'' \<notin> set (se_hmac env k d)"
    and "CHR ''.'' \<notin> set sn" "CHR ''.'' \<notin> set (su_id u)" "CHR ''.'' \<notin> set (se_defaultKeyId env)"
    and "generateSignedUrl ops env now newId kid sn ext c keys = (Inr u, c1, keys1)"
    and "validateTagSignature ops env now1 u c1 keys1 = (Inr r, c2, keys2)"
    and "now2 \<le> now1 + 3600000"
  shows "uc_isValid r \<and> (\<exists>tok. uc_inspectionToken r = Some tok
     \<and> validateInspectionToken ops env now2 tok c2 keys2 =
        (Inr \<lparr>tc_isValid = True, tc_reason = None, tc_tagExternalId = Some (nullish_or ext newId),
           tc_expiresOn = Some (now1 + 3600000), tc_serialNumber = sn\<rparr>, c2, keys2))"
proof -
  let ?i = "nullish_or ext newId"
  obtain s where sig: "tags_generateSignature ops env (sn @ ''.'' @ ?i) (Some now) (Some kid) c keys = (Inr s, c1, keys1)"
    and u: "u = \<lparr>su_sn = sn, su_id = ?i, su_t = now, su_sig = s, su_kid = kid\<rparr>"
    using assms(7) unfolding generateSignedUrl_def generateTagUrlSignature_def Let_def
    by (cases "tags_generateSignature ops env (sn @ ''.'' @ ?i) (Some now) (Some kid) c keys")
      (auto simp: bindr_Inr_iff)
  have again: "generateTagUrlSignature ops env sn ?i now kid c1 keys1 = (Inr s, c1, keys1)"
    using tags_generateSignature_again [OF assms(1) sig] by (simp add: generateTagUrlSignature_def)
  obtain tok where tok: "generateInspectionToken ops env now1 sn ?i c1 keys1 = (Inr tok, c2, keys2)"
    and r: "r = \<lparr>uc_isValid = True, uc_url = u, uc_inspectionToken = Some tok\<rparr>"
    using assms(8) unfolding validateTagSignature_def u
    by (cases "generateInspectionToken ops env now1 sn ?i c1 keys1") (auto simp: again bindr_Inr_iff)
  obtain s' where sig': "tags_generateSignature ops env (sn @ ''.'' @ ?i @ ''.'' @ show_int (now1 + 3600000)) (Some now1)
      (Some (se_defaultKeyId env)) c1 keys1 = (Inr s', c2, keys2)"
    and t: "tok = se_encode env (sn @ ''.'' @ ?i @ ''.'' @ show_int (now1 + 3600000) @ ''.'' @ show_int now1 @ ''.''
      @ se_defaultKeyId env @ ''.'' @ s')"
    using tok unfolding generateInspectionToken_def Let_def
    by (cases "tags_generateSignature ops env (sn @ ''.'' @ ?i @ ''.'' @ show_int (now1 + 3600000)) (Some now1)
      (Some (se_defaultKeyId env)) c1 keys1") (auto simp: bindr_Inr_iff)
  have "CHR ''.'' \<notin> set ?i" using assms(5) u by simp
  from token_validates [OF assms(1-4) this assms(6) sig' assms(9)] show ?thesis
    unfolding r t [symmetric] by simp
qed


text \<open>
  An address signed for a chosen tag id doubles as an inspection token: when the id is another
  tag's id followed by a dot and a number, the signature of the address is also the signature of an
  inspection token for that other tag which lasts until that number, however late. (Both sign the
  same text with the same key; the schema of the signing request does not restrict the id.)
\<close>

theorem signed_address_is_token:
  assumes "cache_store ops" and "\<And>x. se_decode env (se_encode env x) = x"
    and "\<And>k d. CHR ''.'' \<notin> set (se_hmac env k d)"
    and "CHR ''.'' \<notin> set sn" "CHR ''.'' \<notin> set victim" "CHR ''.'' \<notin> set kid"
    and "generateSignedUrlSingle ops env now newId (Some kid) sn (Some (victim @ ''.'' @ show_int exp)) c keys = (Inr u, c', keys')"
    and "now' \<le> exp"
  shows "validateInspectionToken ops env now'
      (se_encode env (sn @ ''.'' @ victim @ ''.'' @ show_int exp @ ''.'' @ show_int now @ ''.'' @ kid @ ''.'' @ su_sig u)) c' keys'
    = (Inr \<lparr>tc_isValid = True, tc_reason = None, tc_tagExternalId = Some victim, tc_expiresOn = Some exp,
         tc_serialNumber = sn\<rparr>, c', keys')"
proof -
  obtain s where sig: "tags_generateSignature ops env (sn @ ''.'' @ victim @ ''.'' @ show_int exp) (Some now) (Some kid) c keys
      = (Inr s, c', keys')" and u: "su_sig u = s"
    using assms(7) unfolding generateSignedUrlSingle_def generateSignedUrl_def generateTagUrlSignature_def Let_def
    by (cases "tags_generateSignature ops env (sn @ ''.'' @ victim @ ''.'' @ show_int exp) (Some now) (Some kid) c keys")
      (auto simp: bindr_Inr_iff)
  from token_validates [OF assms(1-6) sig assms(8)] show ?thesis by (simp add: u)
qed

text \<open>Concrete values for the hypotheses: an identity codec, a constant digest, one stored key.\<close>

definition ex_sign_env :: sign_env where
  "ex_sign_env = \<lparr>se_hmac = (\<lambda>k d. ''digest-digest-digest''), se_encode = (\<lambda>x. x), se_decode = (\<lambda>x. x),
     se_newSecret = ''secret'', se_defaultKeyId = ''k1''\<rparr>"

lemmas ex_sign_simps = ex_sign_env_def tags_generateSignature_def generateSignature_def getSigningKey_def getOrSet_def
  mem_ops_def sign_with_def find_by_def Let_def SIG_LENGTH_def signing_key_cache_key_def

theorem tag_scan_roundtrip_witness:
  "\<exists>tok c keys. validateInspectionToken mem_ops ex_sign_env 3600005 tok c keys =
     (Inr \<lparr>tc_isValid = True, tc_reason = None, tc_tagExternalId = Some ''tag1'',
        tc_expiresOn = Some 3600007, tc_serialNumber = ''SN-001''\<rparr>, c, keys)"
proof -
  have e: "se_decode ex_sign_env (se_encode ex_sign_env x) = x" for x by (simp add: ex_sign_env_def)
  have h: "CHR ''.'' \<notin> set (se_hmac ex_sign_env k d)" for k d by (simp add: ex_sign_env_def)
  obtain u c1 keys1 where g: "generateSignedUrl mem_ops ex_sign_env 5 ''new'' ''k1'' ''SN-001'' (Some ''tag1'') Map.empty []
      = (Inr u, c1, keys1)" and i: "su_id u = ''tag1''"
    by (simp add: generateSignedUrl_def generateTagUrlSignature_def ex_sign_simps)
  obtain r c2 keys2 where v: "validateTagSignature mem_ops ex_sign_env 7 u c1 keys1 = (Inr r, c2, keys2)"
    using g unfolding generateSignedUrl_def generateTagUrlSignature_def validateTagSignature_def generateInspectionToken_def
    by (auto simp: ex_sign_simps)
  have d: "CHR ''.'' \<notin> set ''SN-001''" "CHR ''.'' \<notin> set (su_id u)" "CHR ''.'' \<notin> set (se_defaultKeyId ex_sign_env)"
    by (simp_all add: i) (simp add: ex_sign_env_def)
  have "(3600005 :: int) \<le> 7 + 3600000" by simp
  from tag_scan_roundtrip [OF cache_store_mem_ops e h d g v this] show ?thesis by auto
qed


theorem signed_address_is_token_witness:
  "\<exists>c keys. validateInspectionToken mem_ops ex_sign_env 80
       ''SN1.tag1.90.5.k1.digest-digest-di'' c keys =
     (Inr \<lparr>tc_isValid = True, tc_reason = None, tc_tagExternalId = Some ''tag1'', tc_expiresOn = Some 90,
        tc_serialNumber = ''SN1''\<rparr>, c, keys)"
proof -
  have e: "se_decode ex_sign_env (se_encode ex_sign_env x) = x" for x by (simp add: ex_sign_env_def)
  have h: "CHR ''.'' \<notin> set (se_hmac ex_sign_env k d)" for k d by (simp add: ex_sign_env_def)
  have n: "show_int 90 = ''90''" "show_int 5 = ''5''" by code_simp+
  obtain u c' keys' where g: "generateSignedUrlSingle mem_ops ex_sign_env 5 ''new'' (Some ''k1'') ''SN1''
      (Some (''tag1'' @ ''.'' @ show_int 90)) Map.empty [] = (Inr u, c', keys')" and s: "su_sig u = ''digest-digest-di''"
    by (simp add: generateSignedUrlSingle_def generateSignedUrl_def generateTagUrlSignature_def ex_sign_simps)
  have d: "CHR ''.'' \<notin> set ''SN1''" "CHR ''.'' \<notin> set ''tag1''" "CHR ''.'' \<notin> set ''k1''" by simp_all
  have "(80 :: int) \<le> 90" by simp
  note w = signed_address_is_token [OF cache_store_mem_ops e h d g this]
  have tok: "se_encode ex_sign_env (''SN1'' @ ''.'' @ ''tag1'' @ ''.'' @ show_int 90 @ ''.'' @ show_int 5 @ ''.''
      @ ''k1'' @ ''.'' @ su_sig u) = ''SN1.tag1.90.5.k1.digest-digest-di''"
    unfolding n s by (simp add: ex_sign_env_def)
  from w [unfolded tok] show ?thesis by (intro exI)
qed

subsection \<open>Ranges\<close>

lemma serial_ok_parse:
  assumes "serial_ok s"
  shows "parseSerialNumber s = (before_digits s, trailing_digits s)"
proof -
  have "\<not> list_ex (\<lambda>c. (of_char c :: nat) \<in> {10, 13}) (before_digits s)"
  proof
    assume "list_ex (\<lambda>c. (of_char c :: nat) \<in> {10, 13}) (before_digits s)"
    then obtain c where c: "c \<in> set (before_digits s)" "(of_char c :: nat) = 10 \<or> (of_char c :: nat) = 13"
      by (auto simp: list_ex_iff)
    have "c \<in> set s" using c(1) before_trailing [of s] by (metis Un_iff set_append)
    with assms have "serial_char c" by (auto simp: serial_ok_def list_all_iff)
    moreover have "c \<noteq> CHR ''_''" "c \<noteq> CHR ''-''" using c(2) by auto
    ultimately show False using c(2) by (auto simp: serial_char_def is_digit_def Let_def)
  qed
  with assms show ?thesis by (simp add: parseSerialNumber_def serial_ok_def)
qed

definition serial_at :: "string \<Rightarrow> nat \<Rightarrow> string" where
  \<comment> \<open>the serial number with a given value in the format of a given one\<close>
  "serial_at s n = before_digits s @ padStart (length (trailing_digits s)) (CHR ''0'') (show_nat n)"

lemma serial_at_split:
  "before_digits (serial_at s n) = before_digits s" "dec_value (trailing_digits (serial_at s n)) = n"
proof -
  have d: "list_all is_digit (padStart (length (trailing_digits s)) (CHR ''0'') (show_nat n))"
    by (intro padStart_digits show_nat_digits)
  show "before_digits (serial_at s n) = before_digits s"
    unfolding serial_at_def by (rule split_digits_append(2) [OF d])
  show "dec_value (trailing_digits (serial_at s n)) = n"
    unfolding serial_at_def split_digits_append(1) [OF d] by (simp add: dec_value_pad dec_value_show_nat)
qed

lemma serial_at_own:
  assumes "trailing_digits e \<noteq> []" "before_digits s = before_digits e"
    "length (trailing_digits s) = length (trailing_digits e)"
  shows "serial_at s (dec_value (trailing_digits e)) = e"
  unfolding serial_at_def assms(2,3) pad_dec_value [OF trailing_digits_digits assms(1)] by (rule before_trailing)

lemma sequential_serials:
  assumes "bulk_dto_ok dto" "bd_method dto = sequential" "bd_rangeStart dto = Some s" "bd_rangeEnd dto = Some e"
  shows "bulk_serials dto = map (serial_at s) [dec_value (trailing_digits s)..<Suc (dec_value (trailing_digits e))]"
proof -
  let ?a = "dec_value (trailing_digits s)" and ?b = "dec_value (trailing_digits e)"
  have ok: "serial_ok s" "serial_ok e" "?a \<le> ?b" using assms by (simp_all add: bulk_dto_ok_def)
  have p: "parseInt (trailing_digits s) = Some (int ?a)" "parseInt (trailing_digits e) = Some (int ?b)"
    using ok by (simp_all add: parseInt_digits trailing_digits_digits serial_ok_def)
  have "serialNumberCount dto = nat (int ?b - int ?a + 1)"
    using assms ok by (simp add: serialNumberCount_def serial_ok_parse p)
  then have n: "serialNumberCount dto = Suc ?b - ?a" using ok(3) by linarith
  have g: "getSerialNumber dto i = Some (serial_at s (?a + i))" for i
  proof -
    have "show_int (int ?a + int i) = show_nat (?a + i)" by (simp add: show_int_def nat_add_distrib)
    then show ?thesis
      using assms ok by (simp add: getSerialNumber_def serial_ok_parse p show_num_def serial_at_def)
  qed
  have ne: "serial_at s k \<noteq> []" for k by (simp add: serial_at_def padStart_def show_nat_nonempty)
  have "bulk_serials dto = map (\<lambda>i. serial_at s (?a + i)) [0..<Suc ?b - ?a]"
    unfolding bulk_serials_def n by (simp add: g ne filter_map comp_def)
  also have "\<dots> = map (serial_at s) (map (\<lambda>i. ?a + i) [0..<Suc ?b - ?a])" by (simp add: comp_def)
  also have "map (\<lambda>i. ?a + i) [0..<Suc ?b - ?a] = [?a..<Suc ?b]"
    by (rule nth_equalityI) (simp_all del: upt_Suc)
  finally show ?thesis .
qed

text \<open>
  A range request that the schema accepts yields at least one and at most 100,000 serial numbers:
  one for each number of the range, in order and without repetition, all with the prefix of the
  range; the first is the start of the range itself, and the last its end when both are written with
  the same number of digits.
\<close>

theorem bulk_serials_correct:
  assumes "bulk_dto_ok dto" "bd_method dto = sequential" "bd_rangeStart dto = Some s" "bd_rangeEnd dto = Some e"
  shows "1 \<le> length (bulk_serials dto) \<and> length (bulk_serials dto) \<le> 100000
     \<and> distinct (bulk_serials dto)
     \<and> map (\<lambda>x. dec_value (trailing_digits x)) (bulk_serials dto)
         = [dec_value (trailing_digits s)..<Suc (dec_value (trailing_digits e))]
     \<and> list_all (\<lambda>x. before_digits x = before_digits s) (bulk_serials dto)
     \<and> hd (bulk_serials dto) = s
     \<and> (length (trailing_digits s) = length (trailing_digits e) \<longrightarrow> last (bulk_serials dto) = e)"
proof -
  let ?a = "dec_value (trailing_digits s)" and ?b = "dec_value (trailing_digits e)"
  have ok: "trailing_digits s \<noteq> []" "trailing_digits e \<noteq> []" "?a \<le> ?b" "?b - ?a + 1 \<le> 100000"
    "before_digits s = before_digits e"
    using assms by (simp_all add: bulk_dto_ok_def serial_ok_def)
  note l = sequential_serials [OF assms]
  have v: "map (\<lambda>x. dec_value (trailing_digits x)) (bulk_serials dto) = [?a..<Suc ?b]"
    unfolding l by (simp add: serial_at_split comp_def del: upt_Suc)
  have "distinct (map (\<lambda>x. dec_value (trailing_digits x)) (bulk_serials dto))" unfolding v by simp
  then have "distinct (bulk_serials dto)" by (simp add: distinct_map)
  moreover have "1 \<le> length (bulk_serials dto)" "length (bulk_serials dto) \<le> 100000"
    unfolding l using ok by (simp_all del: upt_Suc)
  moreover have "hd (bulk_serials dto) = serial_at s ?a" "last (bulk_serials dto) = serial_at s ?b"
    unfolding l using ok(3) by (simp_all add: hd_map last_map del: upt_Suc)
  moreover have "list_all (\<lambda>x. before_digits x = before_digits s) (bulk_serials dto)"
    unfolding l by (simp add: list_all_iff serial_at_split del: upt_Suc)
  ultimately show ?thesis using v serial_at_own ok by simp
qed

definition ex_range :: bulk_dto where
  "ex_range = \<lparr>bd_method = sequential, bd_serialNumbers = None, bd_rangeStart = Some ''FE-098'',
     bd_rangeEnd = Some ''FE-101'', bd_keyId = None\<rparr>"

theorem bulk_serials_correct_witness:
  "hd (bulk_serials ex_range) = ''FE-098'' \<and> last (bulk_serials ex_range) = ''FE-101''
   \<and> length (bulk_serials ex_range) = 4"
proof -
  have n: "dec_value (trailing_digits ''FE-098'') = 98" "dec_value (trailing_digits ''FE-101'') = 101" by code_simp+
  have "serial_ok ''FE-098''" "serial_ok ''FE-101''" "before_digits ''FE-098'' = before_digits ''FE-101''" by code_simp+
  then have ok: "bulk_dto_ok ex_range" by (simp add: bulk_dto_ok_def ex_range_def n)
  have a: "bd_method ex_range = sequential" "bd_rangeStart ex_range = Some ''FE-098''" "bd_rangeEnd ex_range = Some ''FE-101''"
    by (simp_all add: ex_range_def)
  have l: "length (trailing_digits ''FE-098'') = length (trailing_digits ''FE-101'')" by code_simp
  have m: "map (\<lambda>x. dec_value (trailing_digits x)) (bulk_serials ex_range) = [98..<Suc 101]"
    using bulk_serials_correct [OF ok a] by (simp only: n)
  have "length (bulk_serials ex_range) = length (map (\<lambda>x. dec_value (trailing_digits x)) (bulk_serials ex_range))" by simp
  also have "\<dots> = 4" unfolding m by simp
  finally show ?thesis using bulk_serials_correct [OF ok a] l by simp
qed

end
