(* ===== verification/Tags.thy ===== *)
theory Tags
  imports Asset_Db Tag_Tokens
begin

section \<open>Access to tags and their registration\<close>

text \<open>
  The rest of \<^verbatim>\<open>src/src/assets/tags/tags.service.ts\<close>. The look-ups of a scanned tag bypass row-level
  security and check the user's access rows themselves; the registration of a tag mixes bypassing
  queries with queries of the caller's session. The state is the tag table with the asset table, whose
  column \<open>tagId\<close> is the relation \<open>asset\<close> of a tag. Database errors: \<open>P2025\<close> for a row that is not
  found (or not visible), \<open>P2002\<close> for a unique column.
\<close>

record tag_db =
  td_tags :: "tag_row list"
  td_assets :: "asset_row list"

subsection \<open>Access to a tag's client and site\<close>

record access_info =
  ai_clientId :: id
  ai_clientName :: string
  ai_siteId :: id
  ai_siteName :: string
  ai_roleId :: id
  ai_roleName :: string
  ai_scope :: role_scope

definition access_info_of :: "tenant_db \<Rightarrow> access_row \<Rightarrow> access_info option" where
  "access_info_of db a =
     (case (find_by cl_id (pca_clientId a) (db_clients db), find_by st_id (pca_siteId a) (db_sites db),
            find_by ro_id (pca_roleId a) (db_roles db)) of
        (Some c, Some s, Some r) \<Rightarrow>
          Some \<lparr>ai_clientId = cl_id c, ai_clientName = cl_name c, ai_siteId = st_id s, ai_siteName = st_name s,
                ai_roleId = ro_id r, ai_roleName = ro_name r, ai_scope = ro_scope r\<rparr>
      | _ \<Rightarrow> None)"

definition client_accesses :: "tenant_db \<Rightarrow> id \<Rightarrow> id \<Rightarrow> access_info list" where
  "client_accesses db idpId clientId =
     List.map_filter (access_info_of db)
       (filter (\<lambda>a. person_has_idp db idpId (pca_personId a) \<and> pca_clientId a = clientId) (db_accesses db))"

fun resolve_loop ::
    "('c, id list) cache_ops \<Rightarrow> tenant_db \<Rightarrow> id \<Rightarrow> access_info list \<Rightarrow> 'c \<Rightarrow> access_info option result \<times> 'c" where
  "resolve_loop ops db tagSiteId [] c = (Inr None, c)"
| "resolve_loop ops db tagSiteId (r # rs) c =
     (if isScopeAtLeast (ai_scope r) CLIENT then (Inr (Some r), c)
      else if ai_siteId r = tagSiteId then (Inr (Some r), c)
      else if isScopeAtLeast (ai_scope r) SITE_GROUP then
        (let (allowed, c') = getAllowedSiteIdsForSite ops db (ai_siteId r) c
         in case allowed of
             Inl e \<Rightarrow> (Inl e, c')
           | Inr sites \<Rightarrow>
               if List.member sites tagSiteId then (Inr (Some r), c') else resolve_loop ops db tagSiteId rs c')
      else resolve_loop ops db tagSiteId rs c)"

definition resolveAccessForClient ::
    "('c, id list) cache_ops \<Rightarrow> tenant_db \<Rightarrow> cls_store \<Rightarrow> id \<Rightarrow> id option \<Rightarrow> 'c \<Rightarrow> access_info option result \<times> 'c" where
  "resolveAccessForClient ops db cls tagClientId tagSiteId c =
     (case cls_user cls of
        None \<Rightarrow> (Inr None, c)
      | Some user \<Rightarrow>
          (let accessRecords = client_accesses db (u_idpId user) tagClientId
           in case accessRecords of
               [] \<Rightarrow> (Inr None, c)
             | first # _ \<Rightarrow>
                 if \<not> truthy tagSiteId then (Inr (Some first), c)
                 else resolve_loop ops db (the tagSiteId) accessRecords c))"

definition tag_access_denied :: api_error where
  "tag_access_denied = ForbiddenException
     ''You do not have access to the organization or site to which this tag is registered.''"

definition with_access ::
    "('c, id list) cache_ops \<Rightarrow> tenant_db \<Rightarrow> cls_store \<Rightarrow> tag_row \<Rightarrow> 'c \<Rightarrow> (tag_row \<times> access_info option) result \<times> 'c" where
  \<comment> \<open>the tail the three look-ups share, for a tag with a client\<close>
  "with_access ops db cls tag c =
     (let (r, c') = resolveAccessForClient ops db cls (the (tg_clientId tag)) (tg_siteId tag) c
      in (bindr r (\<lambda>a. case a of None \<Rightarrow> Inl tag_access_denied | Some i \<Rightarrow> Inr (tag, Some i)), c'))"

definition findOneForInspection ::
    "('c, id list) cache_ops \<Rightarrow> tenant_db \<Rightarrow> cls_store \<Rightarrow> id \<Rightarrow> tag_row list \<Rightarrow> 'c
     \<Rightarrow> (tag_row \<times> access_info option) result \<times> 'c" where
  "findOneForInspection ops db cls externalId tags c =
     (case find_by tg_externalId externalId tags of
        None \<Rightarrow> (Inl (NotFoundException ''Not Found''), c)
      | Some tag \<Rightarrow>
          if \<not> truthy (tg_clientId tag) then (Inr (tag, None), c) else with_access ops db cls tag c)"

definition findOneForAssetSetup ::
    "('c, id list) cache_ops \<Rightarrow> tenant_db \<Rightarrow> cls_store \<Rightarrow> id \<Rightarrow> tag_row list \<Rightarrow> 'c
     \<Rightarrow> (tag_row \<times> access_info option) result \<times> 'c" where
  "findOneForAssetSetup ops db cls externalId tags c =
     (case find_by tg_externalId externalId tags of
        None \<Rightarrow> (Inl (NotFoundException ''Not Found''), c)
      | Some tag \<Rightarrow>
          if \<not> truthy (tg_clientId tag) then (Inr (tag, None), c) else with_access ops db cls tag c)"

text \<open>A query by an undefined key is refused by the database client.\<close>

definition undefined_key :: api_error where
  "undefined_key = ServerError ''PrismaClientValidationError''"

definition checkRegistration ::
    "('k, signing_key) cache_ops \<Rightarrow> ('c, id list) cache_ops \<Rightarrow> sign_env \<Rightarrow> time \<Rightarrow> tenant_db \<Rightarrow> cls_store \<Rightarrow> string
     \<Rightarrow> tag_row list \<Rightarrow> 'k \<Rightarrow> signing_key list \<Rightarrow> 'c \<Rightarrow> (tag_row option \<times> access_info option) result" where
  "checkRegistration kops ops env now db cls token tags kc keys c =
     bindr (fst (validateInspectionToken kops env now token kc keys)) (\<lambda>v.
       case tc_tagExternalId v of
         None \<Rightarrow> Inl undefined_key
       | Some ext \<Rightarrow>
           (case find_by tg_externalId ext tags of
              None \<Rightarrow> Inr (None, None)
            | Some tag \<Rightarrow>
                if tg_clientId tag = None then Inr (Some tag, None)
                else bindr (fst (with_access ops db cls tag c)) (\<lambda>(t, a). Inr (Some t, a))))"

subsection \<open>Registration\<close>

record register_dto =
  rt_assetId :: id
  rt_siteId :: "id option"
  rt_clientId :: "id option"

definition connect_asset :: "rls_session \<Rightarrow> id \<Rightarrow> id \<Rightarrow> asset_row list \<Rightarrow> asset_row list result" where
  \<comment> \<open>\<open>asset: {connect: {id}}\<close>: the asset the tag had before is released\<close>
  "connect_asset sess tagId assetId assets =
     (case find_by as_id assetId (filter (asset_visible sess) assets) of
        None \<Rightarrow> Inl (ServerError ''P2025'')
      | Some _ \<Rightarrow>
          if list_ex (\<lambda>a. as_tagId a = Some tagId \<and> as_id a \<noteq> assetId \<and> \<not> asset_visible sess a) assets
          then Inl (ConflictException ''P2002'')
          else Inr (map (\<lambda>a. if as_id a = assetId then a\<lparr>as_tagId := Some tagId\<rparr>
                             else if as_tagId a = Some tagId then a\<lparr>as_tagId := None\<rparr> else a) assets))"

definition replace_tag :: "tag_row \<Rightarrow> tag_row list \<Rightarrow> tag_row list" where
  "replace_tag t tags = map (\<lambda>x. if tg_id x = tg_id t then t else x) tags"

definition connect_site :: "rls_session \<Rightarrow> tenant_db \<Rightarrow> id option \<Rightarrow> tag_row \<Rightarrow> tag_row result" where
  "connect_site sess tdb siteId tag =
     (case siteId of
        None \<Rightarrow> Inr tag
      | Some s \<Rightarrow>
          (case find_by st_id s (filter (site_visible sess) (db_sites tdb)) of
             None \<Rightarrow> Inl (ServerError ''P2025'')
           | Some _ \<Rightarrow> Inr (tag\<lparr>tg_siteId := Some s\<rparr>)))"

definition connect_client :: "tenant_db \<Rightarrow> id \<Rightarrow> tag_row \<Rightarrow> tag_row result" where
  "connect_client tdb clientId tag =
     (case find_by cl_id clientId (db_clients tdb) of
        None \<Rightarrow> Inl (ServerError ''P2025'') | Some _ \<Rightarrow> Inr (tag\<lparr>tg_clientId := Some clientId\<rparr>))"

definition session_update_tag :: "rls_session \<Rightarrow> tenant_db \<Rightarrow> register_dto \<Rightarrow> tag_row \<Rightarrow> tag_db \<Rightarrow> (tag_row \<times> tag_db) result" where
  \<comment> \<open>\<open>prisma.tag.update({where: {id}, data: dto})\<close> in the caller's session\<close>
  "session_update_tag sess tdb dto tag db =
     (if \<not> tag_visible sess tag then Inl (ServerError ''P2025'')
      else bindr (connect_site sess tdb (rt_siteId dto) tag) (\<lambda>tag'.
        if \<not> tag_visible sess tag' then Inl (ServerError ''row-level security'')
        else bindr (connect_asset sess (tg_id tag) (rt_assetId dto) (td_assets db)) (\<lambda>assets.
          Inr (tag', \<lparr>td_tags = replace_tag tag' (td_tags db), td_assets = assets\<rparr>))))"

definition create_tag :: "rls_session \<Rightarrow> tag_row \<Rightarrow> id \<Rightarrow> tag_db \<Rightarrow> (tag_row \<times> tag_db) result" where
  "create_tag sess tag assetId db =
     (if \<not> tag_visible sess tag then Inl (ServerError ''row-level security'')
      else bindr (connect_asset sess (tg_id tag) assetId (td_assets db)) (\<lambda>assets.
        Inr (tag, \<lparr>td_tags = td_tags db @ [tag], td_assets = assets\<rparr>)))"

definition admin_upsert_tag ::
    "tenant_db \<Rightarrow> id \<Rightarrow> id \<Rightarrow> string \<Rightarrow> register_dto \<Rightarrow> id \<Rightarrow> tag_db \<Rightarrow> (tag_row \<times> tag_db) result" where
  "admin_upsert_tag tdb newId ext serialNumber dto clientId db =
     (case find_by tg_externalId ext (td_tags db) of
        Some tag \<Rightarrow>
          bindr (connect_client tdb clientId tag) (\<lambda>tag'. session_update_tag Bypass tdb dto tag' db)
      | None \<Rightarrow>
          bindr (connect_client tdb clientId
            \<lparr>tg_id = newId, tg_externalId = ext, tg_serialNumber = serialNumber, tg_siteId = None, tg_clientId = None\<rparr>)
            (\<lambda>tag. bindr (connect_site Bypass tdb (rt_siteId dto) tag) (\<lambda>tag'.
              create_tag Bypass tag' (rt_assetId dto) db)))"

text \<open>
  \<open>ctx\<close> is the context of \<open>build()\<close> (\<open>$rlsContext\<close>), \<open>session\<close> the settings its queries run under. The
  claim of an unassigned tag is a query of its own: it stays when the update after it fails.
\<close>

definition claim_tag :: "rls_context \<Rightarrow> tag_row \<Rightarrow> tag_row" where
  "claim_tag ctx tag =
     (if tg_clientId tag = None \<or> tg_siteId tag = None
      then tag\<lparr>tg_clientId := Some (rls_clientId ctx), tg_siteId := Some (rls_siteId ctx)\<rparr> else tag)"

definition registerTag ::
    "sign_env \<Rightarrow> id \<Rightarrow> tenant_db \<Rightarrow> cls_store \<Rightarrow> rls_session result \<Rightarrow> rls_context option \<Rightarrow> string \<Rightarrow> register_dto
     \<Rightarrow> tag_db \<Rightarrow> tag_row result \<times> tag_db" where
  "registerTag env newId tdb cls session ctx token dto db =
     (case requireAccessGrant cls of
        Inl e \<Rightarrow> (Inl e, db)
      | Inr grant \<Rightarrow>
          (let actingAsSystemAdmin = (isSystemAdmin grant \<and> cls_intent cls = system);
               it = parseInspectionToken env token;
               finish = (\<lambda>db0 r. case r of Inl e \<Rightarrow> (Inl e, db0) | Inr (t, db') \<Rightarrow> (Inr t, db'))
           in case it_tagExternalId it of
               None \<Rightarrow> (Inl undefined_key, db)
             | Some ext \<Rightarrow>
                 if actingAsSystemAdmin \<and> rt_clientId dto \<noteq> None
                 then finish db (admin_upsert_tag tdb newId ext (it_serialNumber it) dto (the (rt_clientId dto)) db)
                 else
                   (case ctx of
                      None \<Rightarrow> (Inl (ForbiddenException ''Unable to find a valid user account for your user. Please contact your administrator to ensure your account is properly configured.''), db)
                    | Some person \<Rightarrow>
                        (case find_by tg_externalId ext (td_tags db) of
                           Some tag \<Rightarrow>
                             (let tag0 = claim_tag person tag;
                                  db0 = db\<lparr>td_tags := replace_tag tag0 (td_tags db)\<rparr>
                              in finish db0 (bindr session (\<lambda>sess. session_update_tag sess tdb dto tag0 db0)))
                         | None \<Rightarrow>
                             finish db (bindr session (\<lambda>sess. create_tag sess
                               \<lparr>tg_id = newId, tg_externalId = ext, tg_serialNumber = it_serialNumber it,
                                tg_siteId = Some (nullish_or (rt_siteId dto) (rls_siteId person)),
                                tg_clientId = Some (rls_clientId person)\<rparr> (rt_assetId dto) db))))))"

subsection \<open>Who may see a registered tag\<close>

definition allowed_cache_ok :: "('c, id list) cache_ops \<Rightarrow> tenant_db \<Rightarrow> 'c \<Rightarrow> bool" where
  \<comment> \<open>the cached site lists are those of the tables\<close>
  "allowed_cache_ok ops db c \<longleftrightarrow>
     (\<forall>s sites. co_get ops c (allowed_site_ids_key s) = Some sites \<longrightarrow> sites = allowedSiteIds_of db s)"

lemma getAllowed_ok:
  assumes "cache_store ops" and "allowed_cache_ok ops db c"
  shows "\<exists>c'. getAllowedSiteIdsForSite ops db s c = (Inr (allowedSiteIds_of db s), c') \<and> allowed_cache_ok ops db c'"
proof (cases "co_get ops c (allowed_site_ids_key s)")
  case None
  have k: "allowed_site_ids_key x = allowed_site_ids_key s \<longleftrightarrow> x = s" for x by (simp add: allowed_site_ids_key_def)
  from None assms show ?thesis
    by (auto simp: getAllowedSiteIdsForSite_def getOrSet_def allowed_cache_ok_def cache_store.get_set k)
next
  case (Some sites)
  with assms(2) have "sites = allowedSiteIds_of db s" by (auto simp: allowed_cache_ok_def)
  with Some assms(2) show ?thesis by (simp add: getAllowedSiteIdsForSite_def getOrSet_def)
qed

definition reaches_site :: "tenant_db \<Rightarrow> id \<Rightarrow> access_info \<Rightarrow> bool" where
  "reaches_site db s r \<longleftrightarrow>
     isScopeAtLeast (ai_scope r) CLIENT \<or> ai_siteId r = s
     \<or> isScopeAtLeast (ai_scope r) SITE_GROUP \<and> s \<in> set (allowedSiteIds_of db (ai_siteId r))"

lemma resolve_loop_correct:
  assumes "cache_store ops" and "allowed_cache_ok ops db c"
  shows "fst (resolve_loop ops db s rs c) = Inr (List.find (reaches_site db s) rs)"
  using assms(2)
proof (induction rs arbitrary: c)
  case Nil
  then show ?case by simp
next
  case (Cons r rs)
  obtain c' where g: "getAllowedSiteIdsForSite ops db (ai_siteId r) c = (Inr (allowedSiteIds_of db (ai_siteId r)), c')"
    and ok: "allowed_cache_ok ops db c'" using getAllowed_ok [OF assms(1) Cons.prems, of "ai_siteId r"] by (elim exE conjE) (rule that)
  from Cons.IH [OF ok] Cons.IH [OF Cons.prems] show ?case
    by (simp add: g reaches_site_def)
qed

lemma resolveAccess_correct:
  assumes "cache_store ops" and "allowed_cache_ok ops db c"
  shows "fst (resolveAccessForClient ops db cls cl s c) =
     Inr (case cls_user cls of None \<Rightarrow> None
          | Some u \<Rightarrow> List.find (\<lambda>r. \<not> truthy s \<or> reaches_site db (the s) r) (client_accesses db (u_idpId u) cl))"
proof (cases "cls_user cls")
  case None
  then show ?thesis by (simp add: resolveAccessForClient_def)
next
  case (Some u)
  show ?thesis
  proof (cases "client_accesses db (u_idpId u) cl")
    case Nil
    with Some show ?thesis by (simp add: resolveAccessForClient_def)
  next
    case (Cons r rs)
    with Some show ?thesis
      using resolve_loop_correct [OF assms, of "the s" "r # rs"]
      by (simp add: resolveAccessForClient_def del: resolve_loop.simps)
  qed
qed

lemma access_info_client: "access_info_of db a = Some r \<Longrightarrow> ai_clientId r = pca_clientId a"
  by (auto simp: access_info_of_def dest: find_by_SomeD split: option.splits)

lemma client_accesses_own: "r \<in> set (client_accesses db i cl) \<Longrightarrow> ai_clientId r = cl"
  by (auto simp: client_accesses_def mem_map_filter dest: access_info_client)

text \<open>
  A scanned tag that is registered to a client is shown exactly to the users with an access row in
  that client that reaches the tag's site: a client-wide scope, the site itself, or a group scope over
  one of the sites above it; a tag without a site needs any row of the client. The context reported
  with the tag is one of these rows. (For a cache of site lists that agrees with the tables.)
\<close>

theorem tag_lookup_access:
  assumes "cache_store ops" and "allowed_cache_ok ops db c"
    and "find_by tg_externalId ext tags = Some tag" and "tg_clientId tag = Some cl" and "cl \<noteq> []"
    and "cls_user cls = Some u"
  shows "fst (findOneForInspection ops db cls ext tags c) =
     (case List.find (\<lambda>r. \<not> truthy (tg_siteId tag) \<or> reaches_site db (the (tg_siteId tag)) r)
             (client_accesses db (u_idpId u) cl) of
        None \<Rightarrow> Inl tag_access_denied | Some r \<Rightarrow> Inr (tag, Some r))
     \<and> fst (findOneForAssetSetup ops db cls ext tags c) = fst (findOneForInspection ops db cls ext tags c)
     \<and> (\<forall>r. fst (findOneForInspection ops db cls ext tags c) = Inr (tag, Some r) \<longrightarrow> ai_clientId r = cl)"
proof -
  let ?f = "List.find (\<lambda>r. \<not> truthy (tg_siteId tag) \<or> reaches_site db (the (tg_siteId tag)) r)
             (client_accesses db (u_idpId u) cl)"
  have w: "fst (with_access ops db cls tag c) = (case ?f of None \<Rightarrow> Inl tag_access_denied | Some r \<Rightarrow> Inr (tag, Some r))"
    using resolveAccess_correct [OF assms(1,2), of cls cl "tg_siteId tag"] assms(4,6)
    by (cases "resolveAccessForClient ops db cls cl (tg_siteId tag) c") (simp add: with_access_def)
  have "ai_clientId r = cl" if "?f = Some r" for r
    using find_SomeD [OF that] client_accesses_own by blast
  with w assms(3-5) show ?thesis
    by (auto simp: findOneForInspection_def findOneForAssetSetup_def split: option.splits)
qed

subsection \<open>Registration and tenants\<close>

lemma replace_tag_other: "tg_id t \<noteq> tg_id u \<Longrightarrow> t \<in> set (replace_tag u tags) \<longleftrightarrow> t \<in> set tags"
  by (auto simp: replace_tag_def)

lemma session_update_frame:
  assumes "session_update_tag sess tdb dto tag db = Inr (t, db')"
  shows "tag_visible sess tag \<and> tag_visible sess t \<and> tg_id t = tg_id tag \<and> td_tags db' = replace_tag t (td_tags db)"
  using assms
  by (auto simp: session_update_tag_def connect_site_def bindr_Inr_iff split: if_splits option.splits)

definition foreign_tag :: "rls_context \<Rightarrow> tag_row \<Rightarrow> bool" where
  \<comment> \<open>a tag that is registered to another client, with a site\<close>
  "foreign_tag ctx t \<longleftrightarrow> (\<exists>c. tg_clientId t = Some c \<and> c \<noteq> rls_clientId ctx) \<and> tg_siteId t \<noteq> None"

lemma foreign_tag_claim: "foreign_tag ctx t \<Longrightarrow> claim_tag ctx t = t"
  by (auto simp: foreign_tag_def claim_tag_def)

lemma foreign_tag_invisible: "foreign_tag ctx t \<Longrightarrow> \<not> tag_visible (Tenant ctx) t"
  using tag_visible_tenant [of ctx t] by (auto simp: foreign_tag_def)

lemma replace_tag_self: "distinct (map tg_id tags) \<Longrightarrow> t \<in> set tags \<Longrightarrow> replace_tag t tags = tags"
  by (auto simp: replace_tag_def intro!: map_idI dest: eq_key_imp_eq_value inj_onD simp: distinct_map)

lemma claim_tag_id [simp]: "tg_id (claim_tag ctx t) = tg_id t"
  by (simp add: claim_tag_def)

lemma mem_replace_tag: "t0 \<in> set tags \<Longrightarrow> tg_id t0 = tg_id t \<Longrightarrow> t \<in> set (replace_tag t tags)"
  by (force simp: replace_tag_def)

text \<open>What a caller who does not act as system administrator does to the tables, case by case.\<close>

lemma registerTag_tenant:
  assumes "cls_accessGrant cls = Some g" and "\<not> (isSystemAdmin g \<and> cls_intent cls = system)"
    and "it_tagExternalId (parseInspectionToken env token) = Some ext"
  shows "registerTag env newId tdb cls (Inr sess) (Some ctx) token dto db =
     (case find_by tg_externalId ext (td_tags db) of
        Some tag \<Rightarrow>
          (let tag0 = claim_tag ctx tag; db0 = db\<lparr>td_tags := replace_tag tag0 (td_tags db)\<rparr>
           in case session_update_tag sess tdb dto tag0 db0 of Inl e \<Rightarrow> (Inl e, db0) | Inr (t, db') \<Rightarrow> (Inr t, db'))
      | None \<Rightarrow>
          (case create_tag sess \<lparr>tg_id = newId, tg_externalId = ext,
               tg_serialNumber = it_serialNumber (parseInspectionToken env token),
               tg_siteId = Some (nullish_or (rt_siteId dto) (rls_siteId ctx)),
               tg_clientId = Some (rls_clientId ctx)\<rparr> (rt_assetId dto) db of
             Inl e \<Rightarrow> (Inl e, db) | Inr (t, db') \<Rightarrow> (Inr t, db')))"
proof -
  have ra: "requireAccessGrant cls = Inr g" using assms(1) by simp
  show ?thesis
    unfolding registerTag_def ra Let_def by (simp add: assms(3) split: option.split) (use assms(2) in blast)
qed

text \<open>
  C17: registering a tag respects the other tenants: a caller in a tenant session leaves every tag that
  is registered to another client and site as it was; naming such a tag fails and changes nothing;
  and a registration that succeeds puts a tag of the caller's own client into the table.
\<close>

theorem registerTag_isolation:
  assumes "cls_accessGrant cls = Some g" and "\<not> (isSystemAdmin g \<and> cls_intent cls = system)"
    and "it_tagExternalId (parseInspectionToken env token) = Some ext"
    and "distinct (map tg_id (td_tags db))"
    and "registerTag env newId tdb cls (Inr (Tenant ctx)) (Some ctx) token dto db = (r, db')"
  shows "(\<forall>t\<in>set (td_tags db). foreign_tag ctx t \<longrightarrow> t \<in> set (td_tags db'))
     \<and> (\<forall>t. find_by tg_externalId ext (td_tags db) = Some t \<and> foreign_tag ctx t \<longrightarrow>
          r = Inl (ServerError ''P2025'') \<and> db' = db)
     \<and> (\<forall>t. r = Inr t \<longrightarrow> t \<in> set (td_tags db') \<and> tg_clientId t = Some (rls_clientId ctx))"
proof (cases "find_by tg_externalId ext (td_tags db)")
  case None
  with assms(5) show ?thesis
    unfolding registerTag_tenant [OF assms(1-3)]
    by (auto simp: create_tag_def bindr_Inr_iff split: sum.splits if_splits)
next
  case (Some tag)
  let ?t0 = "claim_tag ctx tag" and ?db0 = "db\<lparr>td_tags := replace_tag (claim_tag ctx tag) (td_tags db)\<rparr>"
  have tag: "tag \<in> set (td_tags db)" using find_by_SomeD [OF Some] by simp
  have same: "t = tag" if "t \<in> set (td_tags db)" "tg_id t = tg_id tag" for t
    using assms(4) tag that by (auto simp: distinct_map dest: inj_onD)
  show ?thesis
  proof (cases "session_update_tag (Tenant ctx) tdb dto ?t0 ?db0")
    case (Inl e)
    then have r: "r = Inl e" "db' = ?db0" using assms(5) Some unfolding registerTag_tenant [OF assms(1-3)] by simp_all
    have f: "db' = db \<and> e = ServerError ''P2025''" if "foreign_tag ctx tag"
      using r Inl that foreign_tag_claim [OF that] foreign_tag_invisible [OF that] replace_tag_self [OF assms(4) tag]
      by (simp add: session_update_tag_def)
    have "t \<in> set (td_tags db')" if "t \<in> set (td_tags db)" "foreign_tag ctx t" for t
      using that f same [OF that(1)] replace_tag_other [of t ?t0 "td_tags db"] r by (cases "tg_id t = tg_id tag") auto
    with r f Some show ?thesis by auto
  next
    case (Inr p)
    obtain t db1 where p: "p = (t, db1)" by (cases p)
    from Inr p have r: "r = Inr t" "db' = db1" using assms(5) Some unfolding registerTag_tenant [OF assms(1-3)] by simp_all
    from session_update_frame [OF Inr [unfolded p]] have u: "tag_visible (Tenant ctx) ?t0" "tag_visible (Tenant ctx) t"
      "tg_id t = tg_id tag" "td_tags db1 = replace_tag t (td_tags ?db0)" by simp_all
    have nf: "\<not> foreign_tag ctx tag" using u(1) foreign_tag_claim foreign_tag_invisible by metis
    have "t' \<in> set (td_tags db1)" if "t' \<in> set (td_tags db)" "foreign_tag ctx t'" for t'
    proof -
      have "tg_id t' \<noteq> tg_id tag" using same [OF that(1)] that(2) nf by blast
      then show ?thesis using that(1) u(3,4) replace_tag_other [of t' t] replace_tag_other [of t' ?t0] by simp
    qed
    moreover have "t \<in> set (td_tags db1)"
      using mem_replace_tag [of ?t0 "td_tags ?db0" t] mem_replace_tag [OF tag, of ?t0] u(3,4) by simp
    ultimately show ?thesis using r Some nf tag_visible_tenant [OF u(2)] by auto
  qed
qed

text \<open>
  But a tag that another client owns without a site is taken over: registering it moves it to the
  caller's client, and does so even when the registration itself then fails.
\<close>

theorem registerTag_takeover:
  assumes "cls_accessGrant cls = Some g" and "\<not> (isSystemAdmin g \<and> cls_intent cls = system)"
    and "it_tagExternalId (parseInspectionToken env token) = Some ext"
    and "find_by tg_externalId ext (td_tags db) = Some tag" and "tg_clientId tag = Some owner" and "tg_siteId tag = None"
  shows "\<exists>t\<in>set (td_tags (snd (registerTag env newId tdb cls (Inr (Tenant ctx)) (Some ctx) token dto db))).
     tg_id t = tg_id tag \<and> tg_clientId t = Some (rls_clientId ctx)"
proof -
  let ?t0 = "claim_tag ctx tag" and ?db0 = "db\<lparr>td_tags := replace_tag (claim_tag ctx tag) (td_tags db)\<rparr>"
  have tag: "tag \<in> set (td_tags db)" using find_by_SomeD [OF assms(4)] by simp
  have t0: "?t0 \<in> set (td_tags ?db0)" using mem_replace_tag [OF tag, of ?t0] by simp
  have c0: "tg_clientId ?t0 = Some (rls_clientId ctx)" using assms(6) by (simp add: claim_tag_def)
  show ?thesis
  proof (cases "session_update_tag (Tenant ctx) tdb dto ?t0 ?db0")
    case (Inl e)
    with t0 c0 show ?thesis
      unfolding registerTag_tenant [OF assms(1-3)] by (intro bexI [of _ ?t0]) (simp_all add: assms(4) Let_def)
  next
    case (Inr p)
    obtain t db1 where p: "p = (t, db1)" by (cases p)
    from session_update_frame [OF Inr [unfolded p]] have u: "tag_visible (Tenant ctx) t" "tg_id t = tg_id tag"
      "td_tags db1 = replace_tag t (td_tags ?db0)" by simp_all
    have "t \<in> set (td_tags db1)" using mem_replace_tag [OF t0, of t] u(2,3) by simp
    with u tag_visible_tenant [OF u(1)] Inr p show ?thesis
      unfolding registerTag_tenant [OF assms(1-3)] by (intro bexI [of _ t]) (simp_all add: assms(4) Let_def)
  qed
qed

subsection \<open>Concrete registrations\<close>

definition ex_ctx :: rls_context where
  "ex_ctx = \<lparr>rls_personId = ''p1'', rls_clientId = ''c1'', rls_siteId = ''s1'', rls_allowedSiteIds = [''s1''], rls_scope = SITE\<rparr>"

definition ex_tag :: "id \<Rightarrow> id option \<Rightarrow> id option \<Rightarrow> tag_row" where
  "ex_tag i cl s = \<lparr>tg_id = i, tg_externalId = ''x-'' @ i, tg_serialNumber = ''SN'', tg_siteId = s, tg_clientId = cl\<rparr>"

definition ex_asset :: "id \<Rightarrow> asset_row" where
  "ex_asset i = \<lparr>as_id = i, as_createdOn = 0, as_setupOn = None, as_configured = False, as_active = True,
     as_name = ''Extinguisher'', as_productId = ''pr1'', as_tagId = None, as_serialNumber = ''A1'',
     as_inspectionCycle = None, as_metadata = None, as_siteId = ''s1'', as_clientId = ''c1''\<rparr>"

definition ex_tag_db :: tag_db where
  "ex_tag_db = \<lparr>td_tags = [ex_tag ''t1'' (Some ''c2'') (Some ''s9''), ex_tag ''t2'' (Some ''c2'') None],
     td_assets = [ex_asset ''a1'']\<rparr>"

definition ex_register :: register_dto where
  "ex_register = \<lparr>rt_assetId = ''a1'', rt_siteId = None, rt_clientId = None\<rparr>"

lemma ex_tokens:
  "it_tagExternalId (parseInspectionToken ex_sign_env ''SN.x-t1'') = Some ''x-t1''"
  "it_tagExternalId (parseInspectionToken ex_sign_env ''SN.x-t2'') = Some ''x-t2''"
  "it_tagExternalId (parseInspectionToken ex_sign_env ''SN.x-t3'') = Some ''x-t3''"
  "it_serialNumber (parseInspectionToken ex_sign_env ''SN.x-t3'') = ''SN''"
  by code_simp+

lemma ex_grant_cls:
  "cls_accessGrant (ex_cls SITE) = Some (ex_grant SITE)" "\<not> (isSystemAdmin (ex_grant SITE) \<and> cls_intent (ex_cls SITE) = system)"
  by (simp_all add: ex_cls_def ex_grant_def isSystemAdmin_def)

lemma ex_tag_find:
  "find_by tg_externalId ''x-t1'' (td_tags ex_tag_db) = Some (ex_tag ''t1'' (Some ''c2'') (Some ''s9''))"
  "find_by tg_externalId ''x-t2'' (td_tags ex_tag_db) = Some (ex_tag ''t2'' (Some ''c2'') None)"
  "find_by tg_externalId ''x-t3'' (td_tags ex_tag_db) = None"
  by (simp_all add: ex_tag_db_def ex_tag_def find_by_def)

theorem registerTag_isolation_witness:
  "foreign_tag ex_ctx (ex_tag ''t1'' (Some ''c2'') (Some ''s9''))
   \<and> registerTag ex_sign_env ''new'' (ex_db []) (ex_cls SITE) (Inr (Tenant ex_ctx)) (Some ex_ctx) ''SN.x-t1'' ex_register ex_tag_db
     = (Inl (ServerError ''P2025''), ex_tag_db)"
proof -
  have f: "foreign_tag ex_ctx (ex_tag ''t1'' (Some ''c2'') (Some ''s9''))" by (simp add: foreign_tag_def ex_ctx_def ex_tag_def)
  have d: "distinct (map tg_id (td_tags ex_tag_db))" by (simp add: ex_tag_db_def ex_tag_def)
  from registerTag_isolation [OF ex_grant_cls ex_tokens(1) d prod.collapse [symmetric]] f ex_tag_find(1)
  show ?thesis by (metis prod.collapse)
qed

theorem registerTag_takeover_witness:
  "\<exists>t\<in>set (td_tags (snd (registerTag ex_sign_env ''new'' (ex_db []) (ex_cls SITE) (Inr (Tenant ex_ctx)) (Some ex_ctx)
       ''SN.x-t2'' ex_register ex_tag_db))). tg_id t = ''t2'' \<and> tg_clientId t = Some ''c1''"
  using registerTag_takeover [OF ex_grant_cls ex_tokens(2) ex_tag_find(2), where ctx = ex_ctx and newId = "''new''"
      and tdb = "ex_db []" and dto = ex_register and owner = "''c2''"]
  by (simp add: ex_tag_def ex_ctx_def)

text \<open>
  Neither the registration of a tag nor the check of its registration looks at the signature or
  the expiry of the inspection token: a token of only a serial number and a tag id registers the tag,
  and an expired token still opens the registration check.
\<close>

theorem unverified_tokens_accepted:
  "fst (registerTag ex_sign_env ''new'' (ex_db []) (ex_cls SITE) (Inr (Tenant ex_ctx)) (Some ex_ctx) ''SN.x-t3'' ex_register ex_tag_db)
     = Inr \<lparr>tg_id = ''new'', tg_externalId = ''x-t3'', tg_serialNumber = ''SN'', tg_siteId = Some ''s1'', tg_clientId = Some ''c1''\<rparr>
   \<and> checkRegistration mem_ops mem_ops ex_sign_env 50 (ex_db []) (ex_cls SITE) ''SN.x-t4.9.2.k1.forged''
       [ex_tag ''t4'' None None] Map.empty [] Map.empty = Inr (Some (ex_tag ''t4'' None None), None)"
proof
  show "fst (registerTag ex_sign_env ''new'' (ex_db []) (ex_cls SITE) (Inr (Tenant ex_ctx)) (Some ex_ctx) ''SN.x-t3'' ex_register ex_tag_db)
     = Inr \<lparr>tg_id = ''new'', tg_externalId = ''x-t3'', tg_serialNumber = ''SN'', tg_siteId = Some ''s1'', tg_clientId = Some ''c1''\<rparr>"
    unfolding registerTag_tenant [OF ex_grant_cls ex_tokens(3)] ex_tag_find option.case
    by (simp add: ex_tokens create_tag_def connect_asset_def find_by_def ex_register_def ex_ctx_def tag_visible_def
        validate_client_opt_def validate_site_opt_def validate_client_def validate_site_def asset_visible_def
        ex_tag_db_def ex_asset_def)
  have it: "parseInspectionToken ex_sign_env ''SN.x-t4.9.2.k1.forged'' =
      \<lparr>it_serialNumber = ''SN'', it_tagExternalId = Some ''x-t4'', it_expiresOn = Some 9, it_timestamp = Some 2,
       it_keyId = Some ''k1'', it_signature = Some ''forged''\<rparr>" by code_simp
  show "checkRegistration mem_ops mem_ops ex_sign_env 50 (ex_db []) (ex_cls SITE) ''SN.x-t4.9.2.k1.forged''
       [ex_tag ''t4'' None None] Map.empty [] Map.empty = Inr (Some (ex_tag ''t4'' None None), None)"
    unfolding checkRegistration_def validateInspectionToken_def it by (simp add: find_by_def ex_tag_def)
qed

theorem tag_lookup_access_witness:
  "fst (findOneForInspection mem_ops (ex_db []) (ex_cls SITE) ''x-t1'' (td_tags ex_tag_db) Map.empty) = Inl tag_access_denied"
proof -
  have ok: "allowed_cache_ok mem_ops (ex_db []) Map.empty" by (simp add: allowed_cache_ok_def mem_ops_def)
  have t: "tg_clientId (ex_tag ''t1'' (Some ''c2'') (Some ''s9'')) = Some ''c2''" by (simp add: ex_tag_def)
  have u: "cls_user (ex_cls SITE) = Some (ex_user ''idp-p1'')" by (simp add: ex_cls_def)
  have "client_accesses (ex_db []) (u_idpId (ex_user ''idp-p1'')) ''c2'' = []"
    by (simp add: client_accesses_def ex_db_def List.map_filter_simps)
  with tag_lookup_access [OF cache_store_mem_ops ok ex_tag_find(1) t _ u] show ?thesis by simp
qed

end
