(* ===== verification/Js_Values.thy ===== *)
theory Js_Values
  imports Asset_Db Js_Text
begin

section \<open>Conversions of JavaScript values\<close>

text \<open>
  \<open>String(v)\<close>, \<open>Number(v)\<close> and the comparison operators, as the alert rules apply them to a JSON
  value. Numbers are exact: a finite number is the rational its decimal text denotes, so the rounding
  of a double and the overflow of a literal beyond its range are not modelled, and a number is printed
  in positional notation with at most 20 fractional digits, as JavaScript does from \<open>1e-6\<close> up to
  \<open>1e21\<close>.
\<close>

datatype js_num = NaN | NegInf | Num rat | PosInf

fun num_less :: "js_num \<Rightarrow> js_num \<Rightarrow> bool" where
  "num_less NaN _ = False"
| "num_less _ NaN = False"
| "num_less (Num a) (Num b) = (a < b)"
| "num_less NegInf b = (b \<noteq> NegInf)"
| "num_less _ NegInf = False"
| "num_less a PosInf = (a \<noteq> PosInf)"
| "num_less PosInf _ = False"

definition num_eq :: "js_num \<Rightarrow> js_num \<Rightarrow> bool" where
  \<comment> \<open>\<open>===\<close> on numbers\<close>
  "num_eq a b = (a \<noteq> NaN \<and> a = b)"

fun str_less :: "string \<Rightarrow> string \<Rightarrow> bool" where
  "str_less _ [] = False"
| "str_less [] (_ # _) = True"
| "str_less (a # as) (b # bs) =
     ((of_char a :: nat) < of_char b \<or> a = b \<and> str_less as bs)"

subsection \<open>Strings to numbers\<close>

definition trim :: "string \<Rightarrow> string" where
  "trim s = rev (dropWhile is_space (rev (dropWhile is_space s)))"

definition all_digits :: "string \<Rightarrow> bool" where
  "all_digits s = (s \<noteq> [] \<and> list_all is_digit s)"

definition split_at :: "(char \<Rightarrow> bool) \<Rightarrow> string \<Rightarrow> string \<times> string option" where
  \<comment> \<open>the text before the first such character, and the text behind it\<close>
  "split_at P s =
     (case dropWhile (\<lambda>c. \<not> P c) s of [] \<Rightarrow> (s, None) | _ # r \<Rightarrow> (takeWhile (\<lambda>c. \<not> P c) s, Some r))"

definition signed :: "string \<Rightarrow> bool \<times> string" where
  "signed s = (if take 1 s = ''-'' then (True, drop 1 s) else if take 1 s = ''+'' then (False, drop 1 s) else (False, s))"

definition mantissa :: "string \<Rightarrow> rat option" where
  "mantissa s =
     (let (ip, fp) = split_at (\<lambda>c. c = CHR ''.'') s; f = (case fp of None \<Rightarrow> [] | Some f \<Rightarrow> f)
      in if list_all is_digit ip \<and> list_all is_digit f \<and> (ip \<noteq> [] \<or> f \<noteq> [])
         then Some (of_nat (dec_value (ip @ f)) / 10 ^ length f) else None)"

definition decimal :: "string \<Rightarrow> rat option" where
  "decimal s =
     (let (m, e) = split_at (\<lambda>c. c = CHR ''e'' \<or> c = CHR ''E'') s
      in case mantissa m of None \<Rightarrow> None
        | Some q \<Rightarrow>
            (case e of None \<Rightarrow> Some q
             | Some x \<Rightarrow>
                 (let (neg, d) = signed x
                  in if \<not> all_digits d then None
                     else Some (if neg then q / 10 ^ dec_value d else q * 10 ^ dec_value d))))"

definition radix_val :: "nat \<Rightarrow> string \<Rightarrow> js_num" where
  "radix_val r ds =
     (if ds \<noteq> [] \<and> list_all (\<lambda>c. case hex_val c of None \<Rightarrow> False | Some v \<Rightarrow> v < r) ds
      then Num (of_nat (foldl (\<lambda>v c. r * v + the (hex_val c)) 0 ds)) else NaN)"

definition string_to_number :: "string \<Rightarrow> js_num" where
  "string_to_number s =
     (let t = trim s; (neg, u) = signed t
      in if t = [] then Num 0
         else if take 2 t \<in> {''0x'', ''0X''} then radix_val 16 (drop 2 t)
         else if take 2 t \<in> {''0o'', ''0O''} then radix_val 8 (drop 2 t)
         else if take 2 t \<in> {''0b'', ''0B''} then radix_val 2 (drop 2 t)
         else if u = ''Infinity'' then (if neg then NegInf else PosInf)
         else case decimal u of None \<Rightarrow> NaN | Some q \<Rightarrow> Num (if neg then - q else q))"

subsection \<open>Numbers to strings\<close>

fun fraction_digits :: "nat \<Rightarrow> rat \<Rightarrow> string" where
  "fraction_digits 0 q = []"
| "fraction_digits (Suc k) q =
     (if q = 0 then []
      else (let d = \<lfloor>10 * q\<rfloor> in char_of (nat d + 48) # fraction_digits k (10 * q - of_int d)))"

definition rat_string :: "rat \<Rightarrow> string" where
  "rat_string q =
     (let a = \<bar>q\<bar>; i = \<lfloor>a\<rfloor>; f = fraction_digits 20 (a - of_int i)
      in (if q < 0 then ''-'' else []) @ show_int i @ (if f = [] then [] else CHR ''.'' # f))"

definition num_string :: "js_num \<Rightarrow> string" where
  "num_string n =
     (case n of NaN \<Rightarrow> ''NaN'' | NegInf \<Rightarrow> ''-Infinity'' | PosInf \<Rightarrow> ''Infinity'' | Num q \<Rightarrow> rat_string q)"

subsection \<open>JSON values\<close>

fun js_string :: "json \<Rightarrow> string" where
  \<comment> \<open>\<open>String(v)\<close>; in an array \<open>null\<close> is printed as nothing\<close>
  "js_string JNull = ''null''"
| "js_string (JBool b) = (if b then ''true'' else ''false'')"
| "js_string (JNum q) = rat_string q"
| "js_string (JStr s) = s"
| "js_string (JArr vs) = join_with '','' (map (\<lambda>v. if v = JNull then [] else js_string v) vs)"
| "js_string (JObj _) = ''[object Object]''"

definition js_number :: "json \<Rightarrow> js_num" where
  "js_number v =
     (case v of
        JNull \<Rightarrow> Num 0
      | JBool b \<Rightarrow> Num (if b then 1 else 0)
      | JNum q \<Rightarrow> Num q
      | JStr s \<Rightarrow> string_to_number s
      | JArr _ \<Rightarrow> string_to_number (js_string v)
      | JObj _ \<Rightarrow> NaN)"

subsection \<open>Lemmas\<close>

lemma num_less_irrefl [simp]: "\<not> num_less a a"
  by (cases a) simp_all

lemma num_less_asym: "num_less a b \<Longrightarrow> \<not> num_less b a"
  by (cases a; cases b) simp_all

lemma num_trichotomy: "a \<noteq> NaN \<Longrightarrow> b \<noteq> NaN \<Longrightarrow> num_less a b \<or> a = b \<or> num_less b a"
  by (cases a; cases b) auto

lemma str_less_irrefl [simp]: "\<not> str_less s s"
  by (induction s) simp_all

lemma str_less_asym: "str_less s t \<Longrightarrow> \<not> str_less t s"
  by (induction s t rule: str_less.induct) auto

lemma str_trichotomy: "str_less s t \<or> s = t \<or> str_less t s"
proof (induction s t rule: str_less.induct)
  case (3 a as b bs)
  consider "(of_char a :: nat) < of_char b" | "(of_char b :: nat) < of_char a" | "(of_char a :: nat) = of_char b"
    by linarith
  then show ?case using 3 by cases (auto simp: of_char_eq_iff)
next
  case (1 s)
  then show ?case by (cases s) simp_all
qed simp

end
