(* ===== verification/Alert_Rules.thy ===== *)
theory Alert_Rules
  imports Js_Values
begin

section \<open>Alert rules\<close>

text \<open>
  \<^verbatim>\<open>src/src/common/alert-utils.ts\<close>, with the schema of a stored rule in
  \<^verbatim>\<open>src/src/products/asset-questions/dto/create-asset-question.dto.ts\<close>. The functions of the
  \<^verbatim>\<open>date-fns\<close> package are the fields of a record; a date is \<open>None\<close> when it is invalid.
  \<open>format\<close> throws on an invalid date, so a test is a result.
\<close>

type_synonym js_date = "time option"

record date_fns =
  parseISO :: "string \<Rightarrow> js_date"
  isSameDay :: "js_date \<Rightarrow> js_date \<Rightarrow> bool"
  isAfter :: "js_date \<Rightarrow> js_date \<Rightarrow> bool"
  isBefore :: "js_date \<Rightarrow> js_date \<Rightarrow> bool"
  format_PP :: "js_date \<Rightarrow> string result"
  differenceInDays :: "js_date \<Rightarrow> js_date \<Rightarrow> int option"
  date_string :: "js_date \<Rightarrow> string"
  date_now :: time

datatype value_type = BINARY | INDETERMINATE_BINARY | TEXT | TEXTAREA | DATE | NUMBER | SELECT | IMAGE

datatype str_or_num = SN_Str string | SN_Num rat

record rule_clause =
  rc_empty :: bool
  rc_notEmpty :: bool
  rc_equals :: "string option"
  rc_not :: "string option"
  rc_contains :: "string option"
  rc_notContains :: "string option"
  rc_startsWith :: "string option"
  rc_endsWith :: "string option"
  rc_gt :: "str_or_num option"
  rc_gte :: "str_or_num option"
  rc_lt :: "str_or_num option"
  rc_lte :: "str_or_num option"
  rc_beforeDaysPast :: "rat option"
  rc_afterDaysPast :: "rat option"
  rc_beforeDaysFuture :: "rat option"
  rc_afterDaysFuture :: "rat option"

datatype clause = Clause_Str string | Clause_Obj rule_clause

datatype alert_rule =
  Rule (rule_value: "clause option") (rule_AND: "alert_rule list option") (rule_OR: "alert_rule list option")

subsection \<open>The schema of a stored rule\<close>

text \<open>
  \<open>safeParse\<close> on the JSON column: \<open>None\<close> when it fails. Keys that the schema does not have are
  dropped; an entry of \<open>AND\<close> or \<open>OR\<close> is parsed with the base schema, which only has \<open>value\<close>.
\<close>

definition opt_field :: "(json \<Rightarrow> 'a option) \<Rightarrow> (string \<times> json) list \<Rightarrow> string \<Rightarrow> 'a option option" where
  \<comment> \<open>an optional key of a schema: \<open>None\<close> is a failure\<close>
  "opt_field p ob k = (case map_of ob k of None \<Rightarrow> Some None | Some v \<Rightarrow> map_option Some (p v))"

definition as_string :: "json \<Rightarrow> string option" where
  "as_string v = (case v of JStr s \<Rightarrow> Some s | _ \<Rightarrow> None)"

definition as_number :: "json \<Rightarrow> rat option" where
  "as_number v = (case v of JNum q \<Rightarrow> Some q | _ \<Rightarrow> None)"

definition as_str_or_num :: "json \<Rightarrow> str_or_num option" where
  "as_str_or_num v = (case v of JStr s \<Rightarrow> Some (SN_Str s) | JNum q \<Rightarrow> Some (SN_Num q) | _ \<Rightarrow> None)"

definition as_true :: "json \<Rightarrow> unit option" where
  "as_true v = (if v = JBool True then Some () else None)"

definition RuleClauseObjectSchema :: "(string \<times> json) list \<Rightarrow> rule_clause option" where
  "RuleClauseObjectSchema ob =
     do {
       empty \<leftarrow> opt_field as_true ob ''empty'';
       notEmpty \<leftarrow> opt_field as_true ob ''notEmpty'';
       equals \<leftarrow> opt_field as_string ob ''equals'';
       not \<leftarrow> opt_field as_string ob ''not'';
       contains \<leftarrow> opt_field as_string ob ''contains'';
       notContains \<leftarrow> opt_field as_string ob ''notContains'';
       startsWith \<leftarrow> opt_field as_string ob ''startsWith'';
       endsWith \<leftarrow> opt_field as_string ob ''endsWith'';
       gt \<leftarrow> opt_field as_str_or_num ob ''gt'';
       gte \<leftarrow> opt_field as_str_or_num ob ''gte'';
       lt \<leftarrow> opt_field as_str_or_num ob ''lt'';
       lte \<leftarrow> opt_field as_str_or_num ob ''lte'';
       beforeDaysPast \<leftarrow> opt_field as_number ob ''beforeDaysPast'';
       afterDaysPast \<leftarrow> opt_field as_number ob ''afterDaysPast'';
       beforeDaysFuture \<leftarrow> opt_field as_number ob ''beforeDaysFuture'';
       afterDaysFuture \<leftarrow> opt_field as_number ob ''afterDaysFuture'';
       Some \<lparr>rc_empty = (empty \<noteq> None), rc_notEmpty = (notEmpty \<noteq> None), rc_equals = equals, rc_not = not,
         rc_contains = contains, rc_notContains = notContains, rc_startsWith = startsWith, rc_endsWith = endsWith,
         rc_gt = gt, rc_gte = gte, rc_lt = lt, rc_lte = lte, rc_beforeDaysPast = beforeDaysPast,
         rc_afterDaysPast = afterDaysPast, rc_beforeDaysFuture = beforeDaysFuture, rc_afterDaysFuture = afterDaysFuture\<rparr>
     }"

definition RuleClauseSchema :: "json \<Rightarrow> clause option" where
  "RuleClauseSchema v =
     (case v of JStr s \<Rightarrow> Some (Clause_Str s)
      | JObj ob \<Rightarrow> map_option Clause_Obj (RuleClauseObjectSchema ob)
      | _ \<Rightarrow> None)"

definition BaseRuleSchema :: "json \<Rightarrow> alert_rule option" where
  "BaseRuleSchema v =
     (case v of JObj ob \<Rightarrow> map_option (\<lambda>c. Rule c None None) (opt_field RuleClauseSchema ob ''value'') | _ \<Rightarrow> None)"

definition as_array :: "(json \<Rightarrow> 'a option) \<Rightarrow> json \<Rightarrow> 'a list option" where
  "as_array p v = (case v of JArr vs \<Rightarrow> those (map p vs) | _ \<Rightarrow> None)"

definition CreateAssetAlertCriterionRuleSchema :: "json \<Rightarrow> alert_rule option" where
  "CreateAssetAlertCriterionRuleSchema v =
     (case v of
        JObj ob \<Rightarrow>
          do {
            val \<leftarrow> opt_field RuleClauseSchema ob ''value'';
            ands \<leftarrow> opt_field (as_array BaseRuleSchema) ob ''AND'';
            ors \<leftarrow> opt_field (as_array BaseRuleSchema) ob ''OR'';
            Some (Rule val ands ors)
          }
      | _ \<Rightarrow> None)"

subsection \<open>Testing a value\<close>

datatype scalar = S_Str string | S_Num js_num

definition scalar_eq :: "scalar \<Rightarrow> scalar \<Rightarrow> bool" where
  "scalar_eq a b =
     (case (a, b) of (S_Str s, S_Str t) \<Rightarrow> s = t | (S_Num m, S_Num n) \<Rightarrow> num_eq m n | _ \<Rightarrow> False)"

definition scalar_less :: "scalar \<Rightarrow> scalar \<Rightarrow> bool" where
  \<comment> \<open>both sides have one type wherever it is used\<close>
  "scalar_less a b =
     (case (a, b) of (S_Str s, S_Str t) \<Rightarrow> str_less s t | (S_Num m, S_Num n) \<Rightarrow> num_less m n | _ \<Rightarrow> False)"

definition scalar_string :: "scalar \<Rightarrow> string" where
  "scalar_string a = (case a of S_Str s \<Rightarrow> s | S_Num n \<Rightarrow> num_string n)"

record compare_ops =
  op_string :: "(string \<Rightarrow> string \<Rightarrow> string option result) option"
  op_stringOrNumber :: "(scalar \<Rightarrow> scalar \<Rightarrow> string option result) option"
  op_date :: "(js_date \<Rightarrow> js_date \<Rightarrow> string option result) option"

definition no_ops :: compare_ops where
  "no_ops = \<lparr>op_string = None, op_stringOrNumber = None, op_date = None\<rparr>"

definition clause_string :: "str_or_num \<Rightarrow> string" where
  "clause_string c = (case c of SN_Str s \<Rightarrow> s | SN_Num q \<Rightarrow> rat_string q)"

definition clause_number :: "str_or_num \<Rightarrow> js_num" where
  "clause_number c = (case c of SN_Str s \<Rightarrow> string_to_number s | SN_Num q \<Rightarrow> Num q)"

definition compare :: "date_fns \<Rightarrow> json \<Rightarrow> value_type \<Rightarrow> str_or_num \<Rightarrow> compare_ops \<Rightarrow> string option result" where
  "compare df value valueType cl ops =
     (if valueType = DATE
      then (case op_date ops of None \<Rightarrow> Inr None
            | Some f \<Rightarrow> f (parseISO df (clause_string cl)) (parseISO df (js_string value)))
      else if valueType = NUMBER
      then (case op_stringOrNumber ops of None \<Rightarrow> Inr None
            | Some f \<Rightarrow> f (S_Num (clause_number cl)) (S_Num (js_number value)))
      else (let t = toLowerCase (clause_string cl); v = toLowerCase (js_string value)
            in case op_string ops of Some f \<Rightarrow> f t v
               | None \<Rightarrow> (case op_stringOrNumber ops of None \<Rightarrow> Inr None | Some f \<Rightarrow> f (S_Str t) (S_Str v))))"

definition explain :: "bool \<Rightarrow> string \<Rightarrow> string option" where
  "explain result message = (if result then Some message else None)"

definition on_scalars :: "(scalar \<Rightarrow> scalar \<Rightarrow> bool) \<Rightarrow> string \<Rightarrow> scalar \<Rightarrow> scalar \<Rightarrow> string option result" where
  "on_scalars p text t v = Inr (explain (p t v) (text @ scalar_string t))"

definition on_dates ::
    "date_fns \<Rightarrow> (js_date \<Rightarrow> js_date \<Rightarrow> bool) \<Rightarrow> string \<Rightarrow> js_date \<Rightarrow> js_date \<Rightarrow> string option result" where
  \<comment> \<open>the message is built before \<open>explain\<close> is called\<close>
  "on_dates df p text t v = bindr (format_PP df t) (\<lambda>d. Inr (explain (p t v) (text @ d)))"

definition on_strings :: "(string \<Rightarrow> string \<Rightarrow> bool) \<Rightarrow> string \<Rightarrow> compare_ops" where
  "on_strings p text = no_ops\<lparr>op_string := Some (\<lambda>t v. Inr (explain (p t v) (text @ t)))\<rparr>"

definition str_includes :: "string \<Rightarrow> string \<Rightarrow> bool" where
  \<comment> \<open>\<open>v.includes(t)\<close>\<close>
  "str_includes v t = list_ex (\<lambda>i. take (length t) (drop i v) = t) [0..<Suc (length v)]"

definition startsWith_str :: "string \<Rightarrow> string \<Rightarrow> bool" where
  "startsWith_str v t = (take (length t) v = t)"

definition endsWith_str :: "string \<Rightarrow> string \<Rightarrow> bool" where
  "endsWith_str v t = (length t \<le> length v \<and> drop (length v - length t) v = t)"

definition days_test :: "(rat \<Rightarrow> rat \<Rightarrow> bool) \<Rightarrow> int option \<Rightarrow> rat \<Rightarrow> string \<Rightarrow> string option result" where
  \<comment> \<open>every comparison with \<open>NaN\<close> is false\<close>
  "days_test p d n text = Inr (explain (case d of None \<Rightarrow> False | Some i \<Rightarrow> p (of_int i) n) text)"

definition is_empty_value :: "json \<Rightarrow> bool" where
  "is_empty_value v = (v = JNull \<or> v = JStr [])"

definition scalar_ge :: "scalar \<Rightarrow> scalar \<Rightarrow> bool" where
  "scalar_ge t v = (scalar_less v t \<or> scalar_eq t v)"

definition when_set :: "'a option \<Rightarrow> ('a \<Rightarrow> 'b) \<Rightarrow> 'b \<Rightarrow> 'b" where
  \<comment> \<open>\<open>if (x !== undefined) return f(x);\<close> and the rest\<close>
  "when_set x f rest = (case x of None \<Rightarrow> rest | Some a \<Rightarrow> f a)"

definition testAlertRuleClause :: "date_fns \<Rightarrow> json \<Rightarrow> value_type \<Rightarrow> clause \<Rightarrow> string option result" where
  "testAlertRuleClause df value valueType cl =
     (let cmp = compare df value valueType; now = Some (date_now df); date = parseISO df (js_string value)
      in case cl of
        Clause_Str s \<Rightarrow>
          cmp (SN_Str s) (no_ops\<lparr>op_stringOrNumber := Some (on_scalars scalar_eq ''value is ''),
            op_date := Some (\<lambda>t v. Inr (explain (isSameDay df t v) (''value is '' @ date_string df t)))\<rparr>)
      | Clause_Obj c \<Rightarrow>
          (when_set (rc_contains c) (\<lambda>t. cmp (SN_Str t) (on_strings (\<lambda>t v. str_includes v t) ''value contains '')) (
           if rc_empty c then Inr (explain (is_empty_value value) ''value is empty'') else
           when_set (rc_endsWith c) (\<lambda>t. cmp (SN_Str t) (on_strings (\<lambda>t v. endsWith_str v t) ''value ends with '')) (
           when_set (rc_equals c) (\<lambda>t. cmp (SN_Str t) (no_ops\<lparr>op_stringOrNumber := Some (on_scalars scalar_eq ''value is ''),
             op_date := Some (on_dates df (isSameDay df) ''value is on '')\<rparr>)) (
           when_set (rc_gt c) (\<lambda>t. cmp t (no_ops\<lparr>op_stringOrNumber := Some (on_scalars (\<lambda>t v. scalar_less v t) ''value is more than ''),
             op_date := Some (on_dates df (\<lambda>t v. isAfter df v t) ''value is after '')\<rparr>)) (
           when_set (rc_gte c) (\<lambda>t. cmp t (no_ops\<lparr>op_stringOrNumber := Some (on_scalars scalar_ge ''value is more than or equal to ''),
             op_date := Some (on_dates df (\<lambda>t v. isSameDay df t v \<or> isAfter df v t) ''value is on or after '')\<rparr>)) (
           when_set (rc_lt c) (\<lambda>t. cmp t (no_ops\<lparr>op_stringOrNumber := Some (on_scalars scalar_less ''value is less than ''),
             op_date := Some (on_dates df (\<lambda>t v. isBefore df v t) ''value is before '')\<rparr>)) (
           when_set (rc_lte c) (\<lambda>t. cmp t (no_ops\<lparr>op_stringOrNumber := Some (on_scalars (\<lambda>t v. scalar_ge v t) ''value is less than or equal to ''),
             op_date := Some (on_dates df (\<lambda>t v. isSameDay df t v \<or> isBefore df v t) ''value is on or before '')\<rparr>)) (
           when_set (rc_not c) (\<lambda>t. cmp (SN_Str t) (no_ops\<lparr>op_stringOrNumber := Some (on_scalars (\<lambda>t v. \<not> scalar_eq t v) ''value is not ''),
             op_date := Some (on_dates df (\<lambda>t v. \<not> isSameDay df t v) ''value is not on '')\<rparr>)) (
           when_set (rc_notContains c) (\<lambda>t. cmp (SN_Str t) (on_strings (\<lambda>t v. \<not> str_includes v t) ''value doees not contain '')) (
           if rc_notEmpty c then Inr (explain (\<not> is_empty_value value) ''value is not empty'') else
           when_set (rc_startsWith c) (\<lambda>t. cmp (SN_Str t) (on_strings (\<lambda>t v. startsWith_str v t) ''value starts with '')) (
           when_set (rc_beforeDaysPast c) (\<lambda>n. days_test (>) (differenceInDays df now date) n
             (''value is more than '' @ rat_string n @ '' days in the past'')) (
           when_set (rc_afterDaysPast c) (\<lambda>n. days_test (<) (differenceInDays df now date) n
             (''value is less than '' @ rat_string n @ '' days in the past'')) (
           when_set (rc_beforeDaysFuture c) (\<lambda>n. days_test (<) (differenceInDays df date now) n
             (''value is less than '' @ rat_string n @ '' days in the future'')) (
           when_set (rc_afterDaysFuture c) (\<lambda>n. days_test (>) (differenceInDays df date now) n
             (''value is more than '' @ rat_string n @ '' days in the future'')) (Inr None))))))))))))))))"

definition clause_truthy :: "clause option \<Rightarrow> bool" where
  "clause_truthy c = (case c of None \<Rightarrow> False | Some (Clause_Str s) \<Rightarrow> s \<noteq> [] | Some (Clause_Obj _) \<Rightarrow> True)"

fun sequence :: "'a result list \<Rightarrow> 'a list result" where
  "sequence [] = Inr []"
| "sequence (r # rs) = bindr r (\<lambda>x. bindr (sequence rs) (\<lambda>xs. Inr (x # xs)))"

function testAlertRule :: "date_fns \<Rightarrow> json \<Rightarrow> value_type \<Rightarrow> alert_rule \<Rightarrow> string option result" where
  "testAlertRule df value valueType (Rule val ands ors) =
     (if clause_truthy val then testAlertRuleClause df value valueType (the val)
      else case ands of
        Some rs \<Rightarrow>
          bindr (sequence (map (testAlertRule df value valueType) rs)) (\<lambda>results.
            Inr (if list_all truthy results then Some (join_with '', '' (map the results)) else None))
      | None \<Rightarrow>
          (case ors of
             Some rs \<Rightarrow>
               bindr (sequence (map (testAlertRule df value valueType) rs)) (\<lambda>results.
                 Inr (case List.find truthy results of None \<Rightarrow> None | Some r \<Rightarrow> r))
           | None \<Rightarrow> Inr None))"
  by pat_completeness auto

termination
  by (relation "measure (\<lambda>(_, _, _, r). size r)")
    (auto dest: size_list_estimation' [where f = size, OF _ order_refl] simp: less_Suc_eq_le intro: le_SucI trans_le_add1)

subsection \<open>Messages\<close>

text \<open>A test that succeeds explains itself: its message is never the empty string.\<close>

definition explained :: "string option result \<Rightarrow> bool" where
  "explained r = (case r of Inr (Some m) \<Rightarrow> m \<noteq> [] | _ \<Rightarrow> True)"

lemma explained_explain [simp]: "m \<noteq> [] \<Longrightarrow> explained (Inr (explain b m))"
  by (simp add: explained_def explain_def)

lemma explained_None [simp]: "explained (Inr None)"
  by (simp add: explained_def)

lemma explained_when_set [simp]: "(\<And>t. explained (f t)) \<Longrightarrow> explained k \<Longrightarrow> explained (when_set x f k)"
  by (cases x) (simp_all add: when_set_def)

lemma explained_days [simp]: "m \<noteq> [] \<Longrightarrow> explained (days_test p d n m)"
  by (simp add: days_test_def)

lemma explained_scalars [simp]: "m \<noteq> [] \<Longrightarrow> explained (on_scalars p m t v)"
  by (simp add: on_scalars_def)

lemma explained_dates [simp]: "m \<noteq> [] \<Longrightarrow> explained (on_dates df p m t v)"
  by (cases "format_PP df t") (simp_all add: on_dates_def, simp add: explained_def)

lemma explained_compare:
  assumes "\<And>f t v. op_string ops = Some f \<Longrightarrow> explained (f t v)"
    and "\<And>f t v. op_stringOrNumber ops = Some f \<Longrightarrow> explained (f t v)"
    and "\<And>f t v. op_date ops = Some f \<Longrightarrow> explained (f t v)"
  shows "explained (compare df value valueType cl ops)"
  unfolding compare_def Let_def using assms by (auto split: option.split)

lemma explained_if: "explained a \<Longrightarrow> explained b \<Longrightarrow> explained (if c then a else b)"
  by simp

lemma explained_clause: "explained (testAlertRuleClause df value valueType cl)"
  unfolding testAlertRuleClause_def Let_def
  by (cases cl)
    (auto intro!: explained_if explained_when_set explained_compare simp: no_ops_def on_strings_def)

subsection \<open>What a rule means\<close>

text \<open>
  The reference: a rule with a clause stands for the clause, a rule with \<open>AND\<close> for the conjunction
  of its entries, a rule with \<open>OR\<close> for the disjunction, and a rule without any of them for nothing.
\<close>

fun rule_holds :: "(clause \<Rightarrow> bool) \<Rightarrow> alert_rule \<Rightarrow> bool" where
  "rule_holds holds (Rule val ands ors) =
     (if clause_truthy val then holds (the val)
      else case ands of Some rs \<Rightarrow> list_all (rule_holds holds) rs
           | None \<Rightarrow> (case ors of Some rs \<Rightarrow> list_ex (rule_holds holds) rs | None \<Rightarrow> False))"

definition fires :: "'a option result \<Rightarrow> bool" where
  "fires r = (case r of Inr (Some _) \<Rightarrow> True | _ \<Rightarrow> False)"

lemma sequence_Inr_iff: "sequence rs = Inr xs \<longleftrightarrow> rs = map Inr xs"
  by (induction rs arbitrary: xs) (auto simp: bindr_Inr_iff Cons_eq_map_conv)

lemma sequence_Inl_ex: "sequence rs = Inl e \<Longrightarrow> Inl e \<in> set rs"
  by (induction rs) (auto simp: bindr_Inl_iff)

lemma base_rule_shape: "BaseRuleSchema v = Some r \<Longrightarrow> \<exists>c. r = Rule c None None"
  by (auto simp: BaseRuleSchema_def split: json.splits)

lemma those_all: "those xs = Some ys \<Longrightarrow> xs = map Some ys"
  by (induction xs arbitrary: ys) (auto split: option.splits)

lemma as_array_base:
  assumes "as_array BaseRuleSchema v = Some rs" and "r \<in> set rs"
  shows "\<exists>c. r = Rule c None None"
proof -
  obtain vs where "map BaseRuleSchema vs = map Some rs"
    using assms(1) by (auto simp: as_array_def split: json.splits dest: those_all)
  then have "Some r \<in> set (map BaseRuleSchema vs)" using assms(2) by simp
  then obtain x where "BaseRuleSchema x = Some r" by auto
  then show ?thesis by (rule base_rule_shape)
qed

lemma flat_rule:
  assumes "testAlertRule df v vt (Rule c None None) = Inr res"
  shows "truthy res \<longleftrightarrow> rule_holds (\<lambda>c. fires (testAlertRuleClause df v vt c)) (Rule c None None)"
    and "res = None \<or> truthy res"
  using assms explained_clause [of df v vt "the c"]
  by (auto simp: fires_def explained_def truthy_def split: if_splits option.splits)

lemma flat_rules:
  assumes "\<And>r. r \<in> set rs \<Longrightarrow> \<exists>c. r = Rule c None None" and "map (testAlertRule df v vt) rs = map Inr xs"
  shows "map truthy xs = map (rule_holds (\<lambda>c. fires (testAlertRuleClause df v vt c))) rs"
  using assms
proof (induction rs arbitrary: xs)
  case (Cons r rs)
  then obtain c where r: "r = Rule c None None" by auto
  from Cons.prems(2) obtain x ys where xs: "xs = x # ys" and h: "testAlertRule df v vt r = Inr x"
    and t: "map (testAlertRule df v vt) rs = map Inr ys"
    by (cases xs) auto
  have "map truthy ys = map (rule_holds (\<lambda>c. fires (testAlertRuleClause df v vt c))) rs"
    by (rule Cons.IH [OF _ t]) (use Cons.prems(1) in auto)
  with flat_rule(1) [OF h [unfolded r]] show ?case by (simp only: xs r list.map)
qed simp

lemma list_all_via_map: "map f xs = map g ys \<Longrightarrow> list_all f xs = list_all g ys"
  by (metis (no_types) list_all_iff list.set_map image_iff)

lemma list_ex_via_map: "map f xs = map g ys \<Longrightarrow> list_ex f xs = list_ex g ys"
  by (metis (no_types) list_ex_iff list.set_map image_iff)

lemma find_truthy: "(case List.find truthy xs of None \<Rightarrow> None | Some r \<Rightarrow> r) \<noteq> None \<longleftrightarrow> list_ex truthy xs"
  by (induction xs) (auto elim: truthyE)

lemma schema_entries:
  assumes "CreateAssetAlertCriterionRuleSchema j = Some (Rule c ands ors)"
  shows "ands = Some rs \<Longrightarrow> r \<in> set rs \<Longrightarrow> \<exists>c. r = Rule c None None"
    and "ors = Some rs \<Longrightarrow> r \<in> set rs \<Longrightarrow> \<exists>c. r = Rule c None None"
  using assms as_array_base
  by (auto simp: CreateAssetAlertCriterionRuleSchema_def opt_field_def
        split: json.splits option.splits bind_splits)

text \<open>
  C14: a stored rule that passes the schema is evaluated as the formula it stands for. Whenever the
  evaluation does not throw, it returns a message exactly when the clause holds, all entries of
  \<open>AND\<close> hold or one entry of \<open>OR\<close> holds, where an entry holds when its clause returns a message.
\<close>

theorem testAlertRule_meaning:
  assumes "CreateAssetAlertCriterionRuleSchema j = Some r" and "testAlertRule df v vt r = Inr res"
  shows "res \<noteq> None \<longleftrightarrow> rule_holds (\<lambda>c. fires (testAlertRuleClause df v vt c)) r"
proof -
  obtain c ands ors where r: "r = Rule c ands ors" by (cases r)
  note entries = schema_entries [OF assms(1) [unfolded r]]
  consider (val) "clause_truthy c" | (ands) rs where "\<not> clause_truthy c" "ands = Some rs"
    | (ors) rs where "\<not> clause_truthy c" "ands = None" "ors = Some rs" | (none) "\<not> clause_truthy c" "ands = None" "ors = None"
    by (cases "clause_truthy c"; cases ands; cases ors) auto
  then show ?thesis
  proof cases
    case val
    with assms(2) show ?thesis by (auto simp: r fires_def split: option.split)
  next
    case ands
    with assms(2) obtain xs where xs: "map (testAlertRule df v vt) rs = map Inr xs"
      and res: "res = (if list_all truthy xs then Some (join_with '', '' (map the xs)) else None)"
      by (auto simp: r bindr_Inr_iff sequence_Inr_iff)
    from flat_rules [OF entries(1) [OF ands(2)] xs] ands res show ?thesis
      by (simp add: r list_all_via_map [OF flat_rules [OF entries(1) [OF ands(2)] xs]])
  next
    case ors
    with assms(2) obtain xs where xs: "map (testAlertRule df v vt) rs = map Inr xs"
      and res: "res = (case List.find truthy xs of None \<Rightarrow> None | Some r \<Rightarrow> r)"
      by (auto simp: r bindr_Inr_iff sequence_Inr_iff)
    from ors show ?thesis
      unfolding res find_truthy by (simp add: r list_ex_via_map [OF flat_rules [OF entries(2) [OF ors(3)] xs]])
  next
    case none
    with assms(2) show ?thesis by (simp add: r)
  qed
qed

definition ex_df :: date_fns where
  \<comment> \<open>a date is written as its number of milliseconds\<close>
  "ex_df = \<lparr>parseISO = parseInt, isSameDay = (\<lambda>a b. a \<noteq> None \<and> b \<noteq> None \<and> the a div 86400000 = the b div 86400000),
     isAfter = (\<lambda>a b. a \<noteq> None \<and> b \<noteq> None \<and> the b < the a), isBefore = (\<lambda>a b. a \<noteq> None \<and> b \<noteq> None \<and> the a < the b),
     format_PP = (\<lambda>d. case d of None \<Rightarrow> Inl (ServerError ''RangeError'') | Some t \<Rightarrow> Inr (show_int t)),
     differenceInDays = (\<lambda>a b. case (a, b) of (Some x, Some y) \<Rightarrow> Some ((x - y) div 86400000) | _ \<Rightarrow> None),
     date_string = (\<lambda>d. case d of None \<Rightarrow> ''Invalid Date'' | Some t \<Rightarrow> show_int t), date_now = 0\<rparr>"

definition ex_rule_json :: json where
  "ex_rule_json = JObj [(''OR'', JArr [JObj [(''value'', JObj [(''contains'', JStr ''leak'')])], JObj [(''value'', JStr ''Bad'')]])]"

definition no_clause :: rule_clause where
  "no_clause = \<lparr>rc_empty = False, rc_notEmpty = False, rc_equals = None, rc_not = None, rc_contains = None,
     rc_notContains = None, rc_startsWith = None, rc_endsWith = None, rc_gt = None, rc_gte = None, rc_lt = None, rc_lte = None,
     rc_beforeDaysPast = None, rc_afterDaysPast = None, rc_beforeDaysFuture = None, rc_afterDaysFuture = None\<rparr>"

theorem testAlertRule_meaning_witness:
  "rule_holds (\<lambda>c. fires (testAlertRuleClause ex_df (JStr ''BAD'') SELECT c))
     (Rule None None (Some [Rule (Some (Clause_Obj (no_clause\<lparr>rc_contains := Some ''leak''\<rparr>))) None None, Rule (Some (Clause_Str ''Bad'')) None None]))"
proof -
  let ?r = "Rule None None (Some [Rule (Some (Clause_Obj (no_clause\<lparr>rc_contains := Some ''leak''\<rparr>))) None None,
    Rule (Some (Clause_Str ''Bad'')) None None])"
  have p: "CreateAssetAlertCriterionRuleSchema ex_rule_json = Some ?r" by code_simp
  have t: "testAlertRule ex_df (JStr ''BAD'') SELECT ?r = Inr (Some ''value is bad'')" by code_simp
  from testAlertRule_meaning [OF p t] show ?thesis by simp
qed

text \<open>
  On a number (and, the same way, on a string) the four order clauses compare the wrong way
  round: \<open>gt\<close> fires when the answer is below the bound, with the message that it is above, and
  \<open>gte\<close>, \<open>lt\<close> and \<open>lte\<close> likewise. Date answers are compared as the messages say.
\<close>

theorem order_clauses_inverted:
  "testAlertRuleClause df (JNum v) NUMBER (Clause_Obj (no_clause\<lparr>rc_gt := Some (SN_Num t)\<rparr>))
     = Inr (explain (v < t) (''value is more than '' @ rat_string t))
   \<and> testAlertRuleClause df (JNum v) NUMBER (Clause_Obj (no_clause\<lparr>rc_gte := Some (SN_Num t)\<rparr>))
     = Inr (explain (v \<le> t) (''value is more than or equal to '' @ rat_string t))
   \<and> testAlertRuleClause df (JNum v) NUMBER (Clause_Obj (no_clause\<lparr>rc_lt := Some (SN_Num t)\<rparr>))
     = Inr (explain (t < v) (''value is less than '' @ rat_string t))
   \<and> testAlertRuleClause df (JNum v) NUMBER (Clause_Obj (no_clause\<lparr>rc_lte := Some (SN_Num t)\<rparr>))
     = Inr (explain (t \<le> v) (''value is less than or equal to '' @ rat_string t))"
  by (simp add: testAlertRuleClause_def Let_def no_clause_def when_set_def compare_def no_ops_def on_scalars_def
      scalar_less_def scalar_ge_def scalar_eq_def num_eq_def clause_number_def js_number_def scalar_string_def
      num_string_def explain_def order_le_less eq_commute)

text \<open>
  The type of a rule is recursive, its schema is not: the entries of \<open>AND\<close> and \<open>OR\<close> are parsed with
  the base schema, so a nested \<open>AND\<close> or \<open>OR\<close> passes the validation, is dropped, and never fires.
\<close>

lemma nested_entry_never_fires:
  assumes "map_of ob ''value'' = None"
  shows "BaseRuleSchema (JObj ob) = Some (Rule None None None)"
    and "testAlertRule df v vt (Rule None None None) = Inr None"
  using assms by (simp_all add: BaseRuleSchema_def opt_field_def clause_truthy_def)

text \<open>A rule with an empty \<open>AND\<close> fires on every answer, with an empty message.\<close>

lemma empty_AND_fires:
  "CreateAssetAlertCriterionRuleSchema (JObj [(''AND'', JArr [])]) = Some (Rule None (Some []) None)
   \<and> testAlertRule df v vt (Rule None (Some []) None) = Inr (Some [])"
  by (simp add: CreateAssetAlertCriterionRuleSchema_def opt_field_def as_array_def clause_truthy_def)

text \<open>A bound that is not a date makes the test of a date answer throw, whatever the answer is.\<close>

lemma bad_date_bound_throws:
  assumes "format_PP df (parseISO df t) = Inl e"
  shows "testAlertRuleClause df v DATE (Clause_Obj (no_clause\<lparr>rc_gt := Some (SN_Str t)\<rparr>)) = Inl e"
  using assms
  by (simp add: testAlertRuleClause_def Let_def no_clause_def when_set_def compare_def no_ops_def on_dates_def clause_string_def)

end
