(* ===== verification/Asset_Answers.thy ===== *)
theory Asset_Answers
  imports Alert_Rules
begin

section \<open>Answers to asset questions and what they trigger\<close>

text \<open>
  The parts of \<^verbatim>\<open>src/src/assets/assets/assets.service.ts\<close> that act on question responses:
  alerts, consumables and metadata, with the configuration and set-up of an asset, and
  \<open>handleConsumableConfig\<close> of \<^verbatim>\<open>src/src/assets/consumables/consumables.service.ts\<close>. The state holds
  the tables these operations read and write, with the columns they use. New rows take their tenant
  from the session's settings where the schema has such a default. \<open>new Date(value)\<close> is a parameter,
  \<open>None\<close> for an invalid date, which the database client refuses.
\<close>

datatype question_type = CONFIGURATION | SETUP_AND_INSPECTION | SETUP | INSPECTION

datatype alert_level = CRITICAL | URGENT | WARNING | INFO | AUDIT

record consumable_config =
  cc_productId :: id

record question_row =
  qu_id :: id
  qu_type :: question_type
  qu_valueType :: value_type
  qu_consumableConfig :: "consumable_config option"
  qu_metadataConfig :: "json option"
  qu_clientId :: "id option"
  qu_active :: bool
  qu_parentQuestionId :: "id option"
  qu_order :: "int option"
  qu_createdOn :: time
  qu_selectOptions :: "json option"
  qu_productCategoryId :: "id option"
  qu_productId :: "id option"

record criterion_row =
  cr_id :: id
  cr_questionId :: id
  cr_rule :: json
  cr_alertLevel :: alert_level
  cr_autoResolve :: bool

record response_row =
  re_id :: id
  re_value :: json
  re_originalPrompt :: string
  re_questionId :: id
  re_assetId :: "id option"
  re_inspectionId :: "id option"
  re_responderId :: id
  re_siteId :: id
  re_clientId :: id

datatype inspection_status = INSPECTION_PENDING | INSPECTION_COMPLETE

record inspection_row =
  is_id :: id
  is_createdOn :: time
  is_modifiedOn :: time
  is_assetId :: id
  is_inspectorId :: id
  is_status :: inspection_status
  is_comments :: "string option"
  is_siteId :: id
  is_clientId :: id

record alert_row =
  al_id :: id
  al_createdOn :: time
  al_modifiedOn :: time
  al_alertLevel :: alert_level
  al_message :: string
  al_resolved :: bool
  al_resolvedOn :: "time option"
  al_resolutionNote :: "string option"
  al_assetId :: id
  al_inspectionId :: id
  al_responseId :: id
  al_criterionId :: id
  al_siteId :: id
  al_clientId :: id

record consumable_row =
  co_id :: id
  co_assetId :: "id option"
  co_productId :: id
  co_expiresOn :: "time option"
  co_siteId :: id
  co_clientId :: id

record asset_db =
  ad_assets :: "asset_row list"
  ad_questions :: "question_row list"
  ad_criteria :: "criterion_row list"
  ad_responses :: "response_row list"
  ad_inspections :: "inspection_row list"
  ad_alerts :: "alert_row list"
  ad_consumables :: "consumable_row list"

subsection \<open>Policies\<close>

definition restrict_self :: "rls_context \<Rightarrow> bool" where
  "restrict_self ctx = (rls_scope ctx = SELF)"

definition is_owner :: "rls_context \<Rightarrow> id \<Rightarrow> bool" where
  "is_owner ctx personId = (personId = rls_personId ctx)"

definition question_visible :: "rls_session \<Rightarrow> question_row \<Rightarrow> bool" where
  "question_visible s q =
     (case s of Bypass \<Rightarrow> True | Tenant ctx \<Rightarrow> qu_clientId q = None \<or> validate_client_opt ctx (qu_clientId q))"

definition response_visible :: "rls_session \<Rightarrow> response_row \<Rightarrow> bool" where
  "response_visible s r =
     (case s of Bypass \<Rightarrow> True
      | Tenant ctx \<Rightarrow> validate_client ctx (re_clientId r) \<and> validate_site ctx (re_siteId r)
          \<and> (\<not> restrict_self ctx \<or> is_owner ctx (re_responderId r)))"

definition inspection_visible :: "rls_session \<Rightarrow> inspection_row \<Rightarrow> bool" where
  "inspection_visible s r =
     (case s of Bypass \<Rightarrow> True
      | Tenant ctx \<Rightarrow> validate_client ctx (is_clientId r) \<and> validate_site ctx (is_siteId r)
          \<and> (\<not> restrict_self ctx \<or> is_owner ctx (is_inspectorId r)))"

definition alert_visible :: "rls_session \<Rightarrow> alert_row \<Rightarrow> bool" where
  "alert_visible s r =
     (case s of Bypass \<Rightarrow> True
      | Tenant ctx \<Rightarrow> validate_client ctx (al_clientId r) \<and> validate_site ctx (al_siteId r))"

definition consumable_visible :: "rls_session \<Rightarrow> consumable_row \<Rightarrow> bool" where
  "consumable_visible s r =
     (case s of Bypass \<Rightarrow> True
      | Tenant ctx \<Rightarrow> validate_client ctx (co_clientId r) \<and> validate_site ctx (co_siteId r))"

interpretation response_table: tenant_table response_visible re_clientId
  by unfold_locales (auto simp: response_visible_def validate_client_def)

interpretation inspection_table: tenant_table inspection_visible is_clientId
  by unfold_locales (auto simp: inspection_visible_def validate_client_def)

interpretation alert_table: tenant_table alert_visible al_clientId
  by unfold_locales (auto simp: alert_visible_def validate_client_def)

interpretation consumable_table: tenant_table consumable_visible co_clientId
  by unfold_locales (auto simp: consumable_visible_def validate_client_def)

definition as404OrThrow :: "'a result \<Rightarrow> 'a result" where
  "as404OrThrow r =
     (case r of Inl e \<Rightarrow> Inl (if e = ServerError ''P2025'' then NotFoundException ''Not Found'' else e) | Inr x \<Rightarrow> Inr x)"

definition rls_violation :: api_error where
  "rls_violation = ServerError ''row-level security''"

definition no_setting :: api_error where
  \<comment> \<open>a column default reads a setting that a bypassing session does not have\<close>
  "no_setting = ServerError ''unrecognized configuration parameter''"

subsection \<open>Alerts\<close>

definition is_inspection_question :: "question_row \<Rightarrow> bool" where
  "is_inspection_question q = (qu_type q = SETUP_AND_INSPECTION \<or> qu_type q = INSPECTION)"

definition is_setup_question :: "question_row \<Rightarrow> bool" where
  "is_setup_question q = (qu_type q = SETUP_AND_INSPECTION \<or> qu_type q = SETUP)"

definition test_criterion :: "date_fns \<Rightarrow> question_row \<Rightarrow> response_row \<Rightarrow> criterion_row \<Rightarrow> string option result" where
  "test_criterion df question response criterion =
     (case CreateAssetAlertCriterionRuleSchema (cr_rule criterion) of
        None \<Rightarrow> Inr None
      | Some rule \<Rightarrow> testAlertRule df (re_value response) (qu_valueType question) rule)"

definition alert_input ::
    "time \<Rightarrow> inspection_row \<Rightarrow> response_row \<Rightarrow> criterion_row \<Rightarrow> string \<Rightarrow> alert_row" where
  \<comment> \<open>without its identifier\<close>
  "alert_input now inspection response criterion message =
     \<lparr>al_id = [], al_createdOn = is_createdOn inspection, al_modifiedOn = is_modifiedOn inspection,
      al_alertLevel = cr_alertLevel criterion, al_message = message, al_resolved = cr_autoResolve criterion,
      al_resolvedOn = (if cr_autoResolve criterion then Some now else None),
      al_resolutionNote = (if cr_autoResolve criterion then Some ''Auto-resolved by system.'' else None),
      al_assetId = is_assetId inspection, al_inspectionId = is_id inspection, al_responseId = re_id response,
      al_criterionId = cr_id criterion, al_siteId = is_siteId inspection, al_clientId = is_clientId inspection\<rparr>"

definition alert_inputs ::
    "date_fns \<Rightarrow> criterion_row list \<Rightarrow> inspection_row \<Rightarrow> response_row \<times> question_row \<Rightarrow> alert_row list result" where
  "alert_inputs df criteria inspection rq =
     (let crs = filter (\<lambda>c. cr_questionId c = qu_id (snd rq)) criteria
      in bindr (sequence (map (test_criterion df (snd rq) (fst rq)) crs)) (\<lambda>results.
           Inr (List.map_filter (\<lambda>(c, m). map_option (alert_input (date_now df) inspection (fst rq) c) m) (zip crs results))))"

definition with_ids :: "(nat \<Rightarrow> id) \<Rightarrow> alert_row list \<Rightarrow> alert_row list" where
  "with_ids newId inputs = map (\<lambda>(i, a). a\<lparr>al_id := newId i\<rparr>) (enumerate 0 inputs)"

definition handleAlertTriggers ::
    "date_fns \<Rightarrow> rls_session \<Rightarrow> (nat \<Rightarrow> id) \<Rightarrow> bool \<Rightarrow> inspection_row \<Rightarrow> (response_row \<times> question_row) list
     \<Rightarrow> asset_db \<Rightarrow> (id list \<times> asset_db) result" where
  \<comment> \<open>with the identifiers of the alerts whose e-mail is queued\<close>
  "handleAlertTriggers df sess newId skipNotifications inspection responses db =
     (if is_status inspection \<noteq> INSPECTION_COMPLETE then Inr ([], db)
      else bindr (sequence (map (alert_inputs df (ad_criteria db) inspection)
             (filter (\<lambda>rq. is_inspection_question (snd rq)) responses))) (\<lambda>inputss.
        let createInputs = concat inputss
        in if createInputs = [] then Inr ([], db)
           else if \<not> list_all (alert_visible sess) createInputs then Inl rls_violation
           else (let rows = with_ids newId createInputs
                 in Inr (if skipNotifications then [] else map al_id rows, db\<lparr>ad_alerts := ad_alerts db @ rows\<rparr>))))"

subsection \<open>Consumables\<close>

definition mapResponseToConsumable :: "(json \<Rightarrow> js_date) \<Rightarrow> json \<Rightarrow> js_date" where
  \<comment> \<open>\<open>EXPIRATION_DATE\<close> is the only mapping type\<close>
  "mapResponseToConsumable newDate value = newDate value"

definition find_consumable :: "rls_session \<Rightarrow> asset_db \<Rightarrow> id \<Rightarrow> id \<Rightarrow> consumable_row option" where
  "find_consumable sess db assetId productId =
     List.find (\<lambda>c. co_assetId c = Some assetId \<and> co_productId c = productId)
       (filter (consumable_visible sess) (ad_consumables db))"

definition write_consumable ::
    "(json \<Rightarrow> js_date) \<Rightarrow> rls_session \<Rightarrow> id \<Rightarrow> id \<Rightarrow> consumable_row option \<Rightarrow> json \<Rightarrow> id \<Rightarrow> asset_db \<Rightarrow> asset_db result" where
  "write_consumable newDate sess newId assetId existingConsumable value productId db =
     (case mapResponseToConsumable newDate value of
        None \<Rightarrow> Inl (ServerError ''PrismaClientValidationError'')
      | Some expiresOn \<Rightarrow>
          (case existingConsumable of
             Some c \<Rightarrow>
               Inr (db\<lparr>ad_consumables := map (\<lambda>x. if co_id x = co_id c then x\<lparr>co_expiresOn := Some expiresOn\<rparr> else x)
                 (ad_consumables db)\<rparr>)
           | None \<Rightarrow>
               (case sess of
                  Bypass \<Rightarrow> Inl no_setting
                | Tenant ctx \<Rightarrow>
                    Inr (db\<lparr>ad_consumables := ad_consumables db @
                      [\<lparr>co_id = newId, co_assetId = Some assetId, co_productId = productId, co_expiresOn = Some expiresOn,
                        co_siteId = rls_siteId ctx, co_clientId = rls_clientId ctx\<rparr>]\<rparr>))))"

fun write_consumables ::
    "(json \<Rightarrow> js_date) \<Rightarrow> rls_session \<Rightarrow> (nat \<Rightarrow> id) \<Rightarrow> nat \<Rightarrow> id \<Rightarrow> (consumable_row option \<times> json \<times> id) list
     \<Rightarrow> asset_db \<Rightarrow> asset_db result" where
  "write_consumables newDate sess newId n assetId [] db = Inr db"
| "write_consumables newDate sess newId n assetId ((existing, value, productId) # ws) db =
     bindr (write_consumable newDate sess (newId n) assetId existing value productId db)
       (write_consumables newDate sess newId (Suc n) assetId ws)"

definition handleConsumableConfigs ::
    "(json \<Rightarrow> js_date) \<Rightarrow> rls_session \<Rightarrow> (nat \<Rightarrow> id) \<Rightarrow> id \<Rightarrow> (response_row \<times> question_row) list \<Rightarrow> asset_db \<Rightarrow> asset_db result" where
  \<comment> \<open>the calls run under \<open>Promise.all\<close>: every call has sent its query before the first one writes\<close>
  "handleConsumableConfigs newDate sess newId assetId responses db =
     write_consumables newDate sess newId 0 assetId
       (List.map_filter (\<lambda>(r, q). map_option (\<lambda>c. (find_consumable sess db assetId (cc_productId c), re_value r, cc_productId c))
          (qu_consumableConfig q))
         (filter (\<lambda>rq. is_setup_question (snd rq)) responses)) db"

subsection \<open>Metadata\<close>

datatype metadata_config = Static string string | Dynamic string \<comment> \<open>key, and the value of a static one\<close>

definition parse_metadata_entry :: "json \<Rightarrow> metadata_config option" where
  "parse_metadata_entry v =
     (case v of
        JObj ob \<Rightarrow>
          (case (map_of ob ''key'', map_of ob ''type'', opt_field as_string ob ''value'') of
             (Some (JStr key), Some (JStr type), Some value) \<Rightarrow>
               if key = [] then None
               else if type = ''DYNAMIC'' then Some (Dynamic key)
               else if type = ''STATIC'' \<and> truthy value then Some (Static key (the value))
               else None
           | _ \<Rightarrow> None)
      | _ \<Rightarrow> None)"

definition CreateSetAssetMetadataConfigSchema :: "json \<Rightarrow> metadata_config list option" where
  "CreateSetAssetMetadataConfigSchema metadata = as_array parse_metadata_entry metadata"

definition string_record :: "(string \<times> json) list \<Rightarrow> bool" where
  "string_record ob = list_all (\<lambda>(k, v). case v of JStr _ \<Rightarrow> True | _ \<Rightarrow> False) ob"

definition existing_metadata :: "json option \<Rightarrow> (string, json) jmap" where
  \<comment> \<open>\<open>CreateAssetSchema.shape.metadata.safeParse(asset.metadata).data ?? {}\<close>\<close>
  "existing_metadata m = (case m of Some (JObj ob) \<Rightarrow> if string_record ob then ob else [] | _ \<Rightarrow> [])"

definition metadata_entries :: "json \<times> question_row \<Rightarrow> (string \<times> json) list" where
  "metadata_entries vq =
     (case Option.bind (qu_metadataConfig (snd vq)) CreateSetAssetMetadataConfigSchema of
        None \<Rightarrow> []
      | Some configs \<Rightarrow> map (\<lambda>c. case c of Static k s \<Rightarrow> (k, JStr s) | Dynamic k \<Rightarrow> (k, fst vq)) configs)"

definition assign :: "(string, json) jmap \<Rightarrow> (string \<times> json) list \<Rightarrow> (string, json) jmap" where
  \<comment> \<open>\<open>Object.fromEntries\<close> and the object spread\<close>
  "assign ob entries = foldl (\<lambda>m (k, v). AList.update k v m) ob entries"

definition handleSetMetadataFromConfigs ::
    "asset_row \<Rightarrow> (json \<times> question_row) list \<Rightarrow> asset_db \<Rightarrow> asset_db" where
  "handleSetMetadataFromConfigs asset responses db =
     (let newMetadata = assign [] (concat (map metadata_entries responses))
      in if newMetadata = [] then db
         else (let mergedMetadata = assign (existing_metadata (as_metadata asset)) newMetadata
               in db\<lparr>ad_assets := map (\<lambda>a. if as_id a = as_id asset then a\<lparr>as_metadata := Some (JObj mergedMetadata)\<rparr> else a)
                    (ad_assets db)\<rparr>))"

subsection \<open>Configuration and set-up\<close>

record answer_dto =
  an_value :: json
  an_originalPrompt :: string
  an_questionId :: id

definition visible_question :: "rls_session \<Rightarrow> asset_db \<Rightarrow> id \<Rightarrow> question_row option" where
  "visible_question sess db i = find_by qu_id i (filter (question_visible sess) (ad_questions db))"

definition configure :: "rls_session \<Rightarrow> id \<Rightarrow> (json \<times> id) list \<Rightarrow> asset_db \<Rightarrow> asset_db result" where
  "configure sess i responses db =
     (case find_by as_id i (filter (asset_visible sess) (ad_assets db)) of
        None \<Rightarrow> Inl (ServerError ''P2025'')
      | Some asset \<Rightarrow>
          (let db1 = handleSetMetadataFromConfigs asset
                 (List.map_filter (\<lambda>(v, q). map_option (\<lambda>x. (v, x)) (visible_question sess db q)) responses) db
           in Inr (db1\<lparr>ad_assets := map (\<lambda>a. if as_id a = i then a\<lparr>as_configured := True\<rparr> else a) (ad_assets db1)\<rparr>)))"

definition new_responses ::
    "rls_context \<Rightarrow> (nat \<Rightarrow> id) \<Rightarrow> id option \<Rightarrow> id option \<Rightarrow> answer_dto list \<Rightarrow> response_row list" where
  "new_responses ctx newId assetId inspectionId answers =
     map (\<lambda>(i, a). \<lparr>re_id = newId i, re_value = an_value a, re_originalPrompt = an_originalPrompt a,
        re_questionId = an_questionId a, re_assetId = assetId, re_inspectionId = inspectionId,
        re_responderId = rls_personId ctx, re_siteId = rls_siteId ctx, re_clientId = rls_clientId ctx\<rparr>) (enumerate 0 answers)"

definition include_question :: "rls_session \<Rightarrow> asset_db \<Rightarrow> response_row \<Rightarrow> (response_row \<times> question_row) result" where
  \<comment> \<open>a required relation whose row is not visible makes the query fail\<close>
  "include_question sess db r =
     (case visible_question sess db (re_questionId r) of
        None \<Rightarrow> Inl (ServerError ''Inconsistent query result'') | Some q \<Rightarrow> Inr (r, q))"

definition create_responses ::
    "rls_session \<Rightarrow> (nat \<Rightarrow> id) \<Rightarrow> id option \<Rightarrow> id option \<Rightarrow> answer_dto list \<Rightarrow> asset_db \<Rightarrow> asset_db result" where
  "create_responses sess newId assetId inspectionId answers db =
     (if answers = [] then Inr db
      else case sess of
        Bypass \<Rightarrow> Inl no_setting
      | Tenant ctx \<Rightarrow>
          if \<not> list_all (\<lambda>a. an_questionId a \<in> qu_id ` set (ad_questions db)) answers then Inl (ServerError ''P2003'')
          else Inr (db\<lparr>ad_responses := ad_responses db @ new_responses ctx newId assetId inspectionId answers\<rparr>))"

definition setup_asset ::
    "(json \<Rightarrow> js_date) \<Rightarrow> rls_session \<Rightarrow> time \<Rightarrow> (nat \<Rightarrow> id) \<Rightarrow> (nat \<Rightarrow> id) \<Rightarrow> id \<Rightarrow> answer_dto list \<Rightarrow> asset_db \<Rightarrow> asset_db result" where
  "setup_asset newDate sess now newId newConsumableId i answers db =
     as404OrThrow
       (case List.find (\<lambda>a. as_id a = i \<and> as_setupOn a = None) (filter (asset_visible sess) (ad_assets db)) of
          None \<Rightarrow> Inl (ServerError ''P2025'')
        | Some asset \<Rightarrow>
            bindr (create_responses sess newId (Some i) None answers
              (db\<lparr>ad_assets := map (\<lambda>a. if as_id a = i then a\<lparr>as_setupOn := Some now\<rparr> else a) (ad_assets db)\<rparr>)) (\<lambda>db1.
            bindr (sequence (map (include_question sess db1)
                (filter (\<lambda>r. re_assetId r = Some i \<and> response_visible sess r) (ad_responses db1)))) (\<lambda>responses.
            bindr (handleConsumableConfigs newDate sess newConsumableId i responses db1) (\<lambda>db2.
            Inr (handleSetMetadataFromConfigs asset (map (\<lambda>(r, q). (re_value r, q)) responses) db2)))))"

definition updateSetup ::
    "rls_session \<Rightarrow> (nat \<Rightarrow> id) \<Rightarrow> id \<Rightarrow> (id \<times> answer_dto) list \<Rightarrow> answer_dto list \<Rightarrow> asset_db \<Rightarrow> asset_db result" where
  \<comment> \<open>a response is writable by its responder while its inspection is not complete; one without an inspection is not\<close>
  "updateSetup sess newId i updates answers db =
     as404OrThrow
       (case List.find (\<lambda>a. as_id a = i \<and> as_setupOn a \<noteq> None) (filter (asset_visible sess) (ad_assets db)) of
          None \<Rightarrow> Inl (ServerError ''P2025'')
        | Some _ \<Rightarrow>
            (let writable = (\<lambda>r. case sess of Bypass \<Rightarrow> True
                   | Tenant ctx \<Rightarrow> response_visible sess r \<and> is_owner ctx (re_responderId r)
                       \<and> list_ex (\<lambda>n. re_inspectionId r = Some (is_id n) \<and> inspection_visible sess n
                            \<and> is_status n \<noteq> INSPECTION_COMPLETE) (ad_inspections db));
                 upd = (\<lambda>r. case map_of (rev updates) (re_id r) of None \<Rightarrow> r
                   | Some d \<Rightarrow> if re_assetId r = Some i \<and> writable r
                       then r\<lparr>re_value := an_value d, re_originalPrompt := an_originalPrompt d, re_questionId := an_questionId d\<rparr> else r);
                 responses = map upd (ad_responses db)
             in if \<not> list_all (\<lambda>r. re_questionId r \<in> qu_id ` set (ad_questions db)) responses then Inl (ServerError ''P2003'')
                else create_responses sess newId (Some i) None answers (db\<lparr>ad_responses := responses\<rparr>)))"

subsection \<open>Alerts: what is created\<close>

definition expected_alerts ::
    "date_fns \<Rightarrow> criterion_row list \<Rightarrow> (response_row \<times> question_row) list \<Rightarrow> (response_row \<times> criterion_row \<times> string) list" where
  \<comment> \<open>every criterion of an inspection question whose rule is valid and fires on the answer\<close>
  "expected_alerts df criteria responses =
     concat (map (\<lambda>(r, q). List.map_filter (\<lambda>c. case test_criterion df q r c of Inr (Some m) \<Rightarrow> Some (r, c, m) | _ \<Rightarrow> None)
       (filter (\<lambda>c. cr_questionId c = qu_id q) criteria))
       (filter (\<lambda>(r, q). is_inspection_question q) responses))"

lemma map_filter_zip:
  assumes "map f xs = map Inr ys"
  shows "List.map_filter (\<lambda>(x, m). map_option (g x) m) (zip xs ys)
     = map (\<lambda>(x, m). g x m) (List.map_filter (\<lambda>x. case f x of Inr (Some m) \<Rightarrow> Some (x, m) | _ \<Rightarrow> None) xs)"
  using assms
proof (induction xs arbitrary: ys)
  case (Cons x xs)
  from Cons.prems obtain y zs where ys: "ys = y # zs" and x: "f x = Inr y" and t: "map f xs = map Inr zs"
    by (cases ys) auto
  from Cons.IH [OF t] show ?case by (cases y) (simp_all add: ys x map_filter_simps)
qed (simp add: map_filter_simps)

lemma alert_inputs_Inr:
  assumes "alert_inputs df criteria inspection (r, q) = Inr xs"
  shows "xs = map (\<lambda>(r, c, m). alert_input (date_now df) inspection r c m)
     (List.map_filter (\<lambda>c. case test_criterion df q r c of Inr (Some m) \<Rightarrow> Some (r, c, m) | _ \<Rightarrow> None)
       (filter (\<lambda>c. cr_questionId c = qu_id q) criteria))"
proof -
  let ?crs = "filter (\<lambda>c. cr_questionId c = qu_id q) criteria"
  obtain ms where ms: "map (test_criterion df q r) ?crs = map Inr ms"
    and xs: "xs = List.map_filter (\<lambda>(c, m). map_option (alert_input (date_now df) inspection r c) m) (zip ?crs ms)"
    using assms by (auto simp: alert_inputs_def Let_def bindr_Inr_iff sequence_Inr_iff)
  have "map (\<lambda>(c, m). g c m) (List.map_filter (\<lambda>c. case test_criterion df q r c of Inr (Some m) \<Rightarrow> Some (c, m) | _ \<Rightarrow> None) cs)
     = map (\<lambda>(r, c, m). g c m) (List.map_filter (\<lambda>c. case test_criterion df q r c of Inr (Some m) \<Rightarrow> Some (r, c, m) | _ \<Rightarrow> None) cs)"
    for cs and g :: "criterion_row \<Rightarrow> string \<Rightarrow> alert_row"
    by (induction cs) (auto simp: map_filter_simps split: sum.split option.split)
  note this [of "alert_input (date_now df) inspection r"]
  moreover have "map (\<lambda>(r', c, m). alert_input (date_now df) inspection r c m) (List.map_filter (\<lambda>c. case test_criterion df q r c of Inr (Some m) \<Rightarrow> Some (r, c, m) | _ \<Rightarrow> None) cs)
     = map (\<lambda>(r, c, m). alert_input (date_now df) inspection r c m) (List.map_filter (\<lambda>c. case test_criterion df q r c of Inr (Some m) \<Rightarrow> Some (r, c, m) | _ \<Rightarrow> None) cs)" for cs
    by (induction cs) (auto simp: map_filter_simps split: sum.split option.split)
  ultimately show ?thesis unfolding xs map_filter_zip [OF ms] by simp
qed

lemma inputs_expected:
  assumes "map (alert_inputs df criteria inspection) (filter (\<lambda>rq. is_inspection_question (snd rq)) responses) = map Inr xss"
  shows "concat xss = map (\<lambda>(r, c, m). alert_input (date_now df) inspection r c m) (expected_alerts df criteria responses)"
  using assms
proof (induction responses arbitrary: xss)
  case (Cons rq rs)
  obtain r q where rq: "rq = (r, q)" by (cases rq)
  show ?case
  proof (cases "is_inspection_question q")
    case True
    with Cons.prems obtain xs yss where xss: "xss = xs # yss" and h: "alert_inputs df criteria inspection (r, q) = Inr xs"
      and t: "map (alert_inputs df criteria inspection) (filter (\<lambda>rq. is_inspection_question (snd rq)) rs) = map Inr yss"
      by (cases xss) (auto simp: rq)
    show ?thesis
      unfolding xss concat.simps Cons.IH [OF t] alert_inputs_Inr [OF h]
      by (simp add: expected_alerts_def rq True)
  next
    case False
    with Cons.prems Cons.IH show ?thesis by (simp add: expected_alerts_def rq)
  qed
qed (simp add: expected_alerts_def)

lemma map_enumerate_snd:
  assumes "\<And>i a. f (g i a) = h a"
  shows "map (\<lambda>p. f (case p of (i, a) \<Rightarrow> g i a)) (enumerate n xs) = map h xs"
  by (induction xs arbitrary: n) (simp_all add: assms)

lemma with_ids_map:
  assumes "\<And>a i. f (a\<lparr>al_id := i\<rparr>) = f a"
  shows "map f (with_ids newId xs) = map f xs"
  unfolding with_ids_def map_map comp_def by (rule map_enumerate_snd) (rule assms)

lemma with_ids_nil [simp]: "with_ids newId [] = []"
  by (simp add: with_ids_def)

text \<open>
  C13: the alerts of a completed inspection. When \<open>handleAlertTriggers\<close> succeeds, it appends one alert
  for every answer to an inspection question and every criterion of that question whose rule is valid
  and fires, in the order of answers and criteria, with the rule's message; every alert belongs to the
  asset, client and site of the inspection and is resolved from the start exactly when its criterion
  says so. The e-mails queued are those of the new alerts, and no other table changes. An inspection
  that is not complete triggers nothing.
\<close>

theorem handleAlertTriggers_correct:
  assumes "handleAlertTriggers df sess newId skip inspection responses db = Inr (queued, db')"
  shows "\<exists>new. db' = db\<lparr>ad_alerts := ad_alerts db @ new\<rparr>
     \<and> map (\<lambda>a. (al_responseId a, al_criterionId a, al_message a)) new
       = (if is_status inspection = INSPECTION_COMPLETE
          then map (\<lambda>(r, c, m). (re_id r, cr_id c, m)) (expected_alerts df (ad_criteria db) responses) else [])
     \<and> map (\<lambda>a. (al_resolved a, al_resolvedOn a \<noteq> None)) new
       = (if is_status inspection = INSPECTION_COMPLETE
          then map (\<lambda>(r, c, m). (cr_autoResolve c, cr_autoResolve c)) (expected_alerts df (ad_criteria db) responses) else [])
     \<and> (\<forall>a\<in>set new. al_assetId a = is_assetId inspection \<and> al_inspectionId a = is_id inspection
          \<and> al_siteId a = is_siteId inspection \<and> al_clientId a = is_clientId inspection)
     \<and> queued = (if skip then [] else map al_id new)"
proof (cases "is_status inspection = INSPECTION_COMPLETE")
  case True
  let ?E = "expected_alerts df (ad_criteria db) responses"
  let ?in = "map (\<lambda>(r, c, m). alert_input (date_now df) inspection r c m) ?E"
  obtain xss where xss: "map (alert_inputs df (ad_criteria db) inspection) (filter (\<lambda>rq. is_inspection_question (snd rq)) responses) = map Inr xss"
    and res: "(if concat xss = [] then Inr ([], db)
           else if \<not> list_all (alert_visible sess) (concat xss) then Inl rls_violation
           else let rows = with_ids newId (concat xss)
                in Inr (if skip then [] else map al_id rows, db\<lparr>ad_alerts := ad_alerts db @ rows\<rparr>)) = (Inr (queued, db') :: (id list \<times> asset_db) result)"
    using assms True by (auto simp: handleAlertTriggers_def bindr_Inr_iff sequence_Inr_iff Let_def)
  note res = res [unfolded inputs_expected [OF xss]]
  let ?new = "with_ids newId ?in"
  have db': "db' = db\<lparr>ad_alerts := ad_alerts db @ ?new\<rparr>" and q: "queued = (if skip then [] else map al_id ?new)"
    using res by (auto simp: Let_def split: if_splits)
  have "map (\<lambda>a. (al_responseId a, al_criterionId a, al_message a)) ?new = map (\<lambda>(r, c, m). (re_id r, cr_id c, m)) ?E"
    by (subst with_ids_map) (auto simp: alert_input_def)
  moreover have "map (\<lambda>a. (al_resolved a, al_resolvedOn a \<noteq> None)) ?new = map (\<lambda>(r, c, m). (cr_autoResolve c, cr_autoResolve c)) ?E"
    by (subst with_ids_map) (auto simp: alert_input_def split: if_splits)
  moreover have "al_assetId a = is_assetId inspection \<and> al_inspectionId a = is_id inspection
      \<and> al_siteId a = is_siteId inspection \<and> al_clientId a = is_clientId inspection" if "a \<in> set ?new" for a
  proof -
    let ?f = "\<lambda>a. (al_assetId a, al_inspectionId a, al_siteId a, al_clientId a)"
    have "?f a \<in> set (map ?f ?new)" using that by simp
    also have "map ?f ?new = map ?f ?in" by (rule with_ids_map) simp
    finally show ?thesis by (auto simp: alert_input_def)
  qed
  ultimately show ?thesis using True db' q by (intro exI [of _ ?new]) simp
next
  case False
  with assms show ?thesis by (intro exI [of _ "[]"]) (simp add: handleAlertTriggers_def)
qed

subsection \<open>Metadata: what is kept\<close>

lemma map_of_assign: "map_of (assign ob entries) k = (case map_of (rev entries) k of None \<Rightarrow> map_of ob k | Some v \<Rightarrow> Some v)"
proof (induction entries arbitrary: ob)
  case (Cons e es)
  obtain k' v where e: "e = (k', v)" by (cases e)
  have "map_of (assign ob (e # es)) k = map_of (assign (AList.update k' v ob) es) k" by (simp add: assign_def e)
  then show ?case unfolding Cons.IH by (auto simp: e update_conv' map_add_def split: option.split)
qed (simp add: assign_def)

lemma distinct_assign: "distinct (map fst ob) \<Longrightarrow> distinct (map fst (assign ob entries))"
  by (induction entries arbitrary: ob) (auto simp: assign_def distinct_update split: prod.splits)

lemma map_of_rev_distinct: "distinct (map fst xs) \<Longrightarrow> map_of (rev xs) = map_of xs"
  by (subst map_of_inject_set) (simp_all add: rev_map [symmetric])

definition asset_metadata :: "asset_db \<Rightarrow> id \<Rightarrow> string \<Rightarrow> json option" where
  "asset_metadata db i k =
     (case find_by as_id i (ad_assets db) of
        Some a \<Rightarrow> (case as_metadata a of Some (JObj ob) \<Rightarrow> map_of ob k | _ \<Rightarrow> None) | None \<Rightarrow> None)"

lemma find_by_map_same:
  assumes "find_by key i xs = Some a" and "\<And>x. key (f x) = key x"
  shows "find_by key i (map f xs) = Some (f a)"
  using assms(1) by (induction xs) (auto simp: find_by_def assms(2) split: if_splits)

text \<open>
  The answers with a metadata configuration set the asset's metadata key by key. Afterwards a key
  that some configuration names has the value of the last such configuration (its static text, or the
  answer itself), and every other key keeps the value it had, provided the stored metadata was a
  record of strings as the schema of an asset asks.
\<close>

theorem set_metadata_keys:
  assumes "find_by as_id (as_id asset) (ad_assets db) = Some asset" and "as_metadata asset = Some (JObj ob)" and "string_record ob"
  shows "asset_metadata (handleSetMetadataFromConfigs asset responses db) (as_id asset) k
     = (case map_of (rev (concat (map metadata_entries responses))) k of Some v \<Rightarrow> Some v | None \<Rightarrow> asset_metadata db (as_id asset) k)"
proof -
  let ?raw = "concat (map metadata_entries responses)"
  let ?new = "assign [] ?raw"
  have new: "map_of ?new k = map_of (rev ?raw) k" by (simp add: map_of_assign split: option.split)
  have old: "asset_metadata db (as_id asset) k = map_of ob k" using assms(1,2) by (simp add: asset_metadata_def)
  show ?thesis
  proof (cases "?new = []")
    case True
    with new have "map_of (rev ?raw) k = None" by simp
    with True show ?thesis by (simp add: handleSetMetadataFromConfigs_def)
  next
    case False
    let ?upd = "\<lambda>a. if as_id a = as_id asset then a\<lparr>as_metadata := Some (JObj (assign ob ?new))\<rparr> else a"
    have "find_by as_id (as_id asset) (map ?upd (ad_assets db)) = Some (?upd asset)"
      by (rule find_by_map_same [OF assms(1)]) simp
    moreover have "handleSetMetadataFromConfigs asset responses db = db\<lparr>ad_assets := map ?upd (ad_assets db)\<rparr>"
      using False assms(2,3) by (simp add: handleSetMetadataFromConfigs_def Let_def existing_metadata_def)
    moreover have "map_of (rev ?new) k = map_of ?new k" by (simp add: map_of_rev_distinct distinct_assign)
    ultimately show ?thesis unfolding old using new by (simp add: asset_metadata_def map_of_assign [of ob])
  qed
qed

definition ex_question :: question_row where
  "ex_question = \<lparr>qu_id = ''q1'', qu_type = SETUP_AND_INSPECTION, qu_valueType = NUMBER, qu_consumableConfig = None,
     qu_metadataConfig = Some (JArr [JObj [(''key'', JStr ''size''), (''type'', JStr ''DYNAMIC'')]]), qu_clientId = None, qu_active = True, qu_parentQuestionId = None, qu_order = None, qu_createdOn = 0,
     qu_selectOptions = None, qu_productCategoryId = None, qu_productId = None\<rparr>"

definition ex_answer_asset :: asset_row where
  "ex_answer_asset = \<lparr>as_id = ''a1'', as_createdOn = 0, as_setupOn = None, as_configured = False, as_active = True, as_name = ''A'',
     as_productId = ''p1'', as_tagId = None, as_serialNumber = ''S1'', as_inspectionCycle = None,
     as_metadata = Some (JObj [(''type'', JStr ''AED'')]), as_siteId = ''s1'', as_clientId = ''c1''\<rparr>"

definition ex_criterion :: criterion_row where
  "ex_criterion = \<lparr>cr_id = ''k1'', cr_questionId = ''q1'', cr_rule = JObj [(''value'', JStr ''5'')], cr_alertLevel = URGENT, cr_autoResolve = False\<rparr>"

definition ex_asset_db :: asset_db where
  "ex_asset_db = \<lparr>ad_assets = [ex_answer_asset], ad_questions = [ex_question], ad_criteria = [ex_criterion], ad_responses = [],
     ad_inspections = [], ad_alerts = [], ad_consumables = []\<rparr>"

theorem set_metadata_keys_witness:
  "asset_metadata (handleSetMetadataFromConfigs ex_answer_asset [(JNum 5, ex_question)] ex_asset_db) ''a1'' ''type'' = Some (JStr ''AED'')"
proof -
  have f: "find_by as_id (as_id ex_answer_asset) (ad_assets ex_asset_db) = Some ex_answer_asset" by code_simp
  have m: "as_metadata ex_answer_asset = Some (JObj [(''type'', JStr ''AED'')])" by (simp add: ex_answer_asset_def)
  have r: "string_record [(''type'', JStr ''AED'')]" by (simp add: string_record_def)
  have n: "map_of (rev (concat (map metadata_entries [(JNum 5, ex_question)]))) ''type'' = None" by code_simp
  have o: "asset_metadata ex_asset_db ''a1'' ''type'' = Some (JStr ''AED'')" by code_simp
  have i: "as_id ex_answer_asset = ''a1''" by (simp add: ex_answer_asset_def)
  show ?thesis using set_metadata_keys [OF f m r, of "[(JNum 5, ex_question)]" "''type''"] unfolding n o i by simp
qed

text \<open>
  An answer that is not a string destroys metadata later. Once a dynamic configuration has stored
  a number or a list of images, the stored metadata no longer is a record of strings, and the next
  answer that sets any key drops every key it does not set itself.
\<close>

theorem metadata_erased:
  assumes "find_by as_id (as_id asset) (ad_assets db) = Some asset" and "as_metadata asset = Some (JObj ob)"
    and "\<not> string_record ob" and "map_of (concat (map metadata_entries responses)) k = None"
    and "concat (map metadata_entries responses) \<noteq> []"
  shows "asset_metadata (handleSetMetadataFromConfigs asset responses db) (as_id asset) k = None"
proof -
  let ?raw = "concat (map metadata_entries responses)"
  let ?new = "assign [] ?raw"
  have n: "map_of ?new k = None"
    using assms(4) by (simp add: map_of_assign map_of_eq_None_iff split: option.split)
  obtain k' v where "(k', v) \<in> set ?raw" using assms(5) by (cases ?raw) force+
  then have "map_of ?new k' \<noteq> None" by (auto simp: map_of_assign map_of_eq_None_iff rev_image_eqI split: option.split)
  then have ne: "?new \<noteq> []" by auto
  let ?upd = "\<lambda>a. if as_id a = as_id asset then a\<lparr>as_metadata := Some (JObj (assign [] ?new))\<rparr> else a"
  have "find_by as_id (as_id asset) (map ?upd (ad_assets db)) = Some (?upd asset)"
    by (rule find_by_map_same [OF assms(1)]) simp
  moreover have "handleSetMetadataFromConfigs asset responses db = db\<lparr>ad_assets := map ?upd (ad_assets db)\<rparr>"
    using ne assms(2,3) by (simp add: handleSetMetadataFromConfigs_def Let_def existing_metadata_def)
  moreover have "map_of (assign [] ?new) k = None"
    using n by (simp add: map_of_assign [of "[]" ?new] map_of_rev_distinct distinct_assign)
  ultimately show ?thesis by (simp add: asset_metadata_def)
qed

definition ex_number_asset :: asset_row where
  "ex_number_asset = ex_answer_asset\<lparr>as_metadata := Some (JObj [(''type'', JStr ''AED''), (''year'', JNum 2020)])\<rparr>"

theorem metadata_erased_witness:
  "asset_metadata (ex_asset_db\<lparr>ad_assets := [ex_number_asset]\<rparr>) ''a1'' ''type'' = Some (JStr ''AED'')
   \<and> asset_metadata (handleSetMetadataFromConfigs ex_number_asset [(JStr ''L'', ex_question)] (ex_asset_db\<lparr>ad_assets := [ex_number_asset]\<rparr>)) ''a1'' ''type'' = None"
proof -
  let ?db = "ex_asset_db\<lparr>ad_assets := [ex_number_asset]\<rparr>"
  have f: "find_by as_id (as_id ex_number_asset) (ad_assets ?db) = Some ex_number_asset" by (simp add: find_by_def)
  have m: "as_metadata ex_number_asset = Some (JObj [(''type'', JStr ''AED''), (''year'', JNum 2020)])" by (simp add: ex_number_asset_def)
  have r: "\<not> string_record [(''type'', JStr ''AED''), (''year'', JNum 2020)]" by (simp add: string_record_def)
  have n: "map_of (concat (map metadata_entries [(JStr ''L'', ex_question)])) ''type'' = None"
    and c: "concat (map metadata_entries [(JStr ''L'', ex_question)]) \<noteq> []" by code_simp+
  have i: "as_id ex_number_asset = ''a1''" by (simp add: ex_number_asset_def ex_answer_asset_def)
  have "asset_metadata ?db ''a1'' ''type'' = Some (JStr ''AED'')"
    using f m i by (simp add: asset_metadata_def)
  with metadata_erased [OF f m r n c] i show ?thesis by simp
qed

definition ex_inspection :: inspection_row where
  "ex_inspection = \<lparr>is_id = ''i1'', is_createdOn = 7, is_modifiedOn = 7, is_assetId = ''a1'', is_inspectorId = ''u1'',
     is_status = INSPECTION_COMPLETE, is_comments = None, is_siteId = ''s1'', is_clientId = ''c1''\<rparr>"

definition ex_response :: response_row where
  "ex_response = \<lparr>re_id = ''r1'', re_value = JNum 5, re_originalPrompt = ''P'', re_questionId = ''q1'', re_assetId = None,
     re_inspectionId = Some ''i1'', re_responderId = ''u1'', re_siteId = ''s1'', re_clientId = ''c1''\<rparr>"

definition ex_alert :: alert_row where
  "ex_alert = (alert_input 0 ex_inspection ex_response ex_criterion ''value is 5'')\<lparr>al_id := ''n''\<rparr>"

lemma ex_triggers:
  "handleAlertTriggers ex_df Bypass (\<lambda>_. ''n'') False ex_inspection [(ex_response, ex_question)] ex_asset_db
     = Inr ([''n''], ex_asset_db\<lparr>ad_alerts := [ex_alert]\<rparr>)"
  by code_simp

theorem handleAlertTriggers_correct_witness:
  "map (\<lambda>(r, c, m). (re_id r, cr_id c, m)) (expected_alerts ex_df [ex_criterion] [(ex_response, ex_question)])
     = [(''r1'', ''k1'', ''value is 5'')]"
proof -
  have e: "ad_alerts ex_asset_db = []" "ad_criteria ex_asset_db = [ex_criterion]" by (simp_all add: ex_asset_db_def)
  have s: "is_status ex_inspection = INSPECTION_COMPLETE" by (simp add: ex_inspection_def)
  obtain new where "ex_asset_db\<lparr>ad_alerts := [ex_alert]\<rparr> = ex_asset_db\<lparr>ad_alerts := ad_alerts ex_asset_db @ new\<rparr>"
    and m: "map (\<lambda>a. (al_responseId a, al_criterionId a, al_message a)) new
       = map (\<lambda>(r, c, m). (re_id r, cr_id c, m)) (expected_alerts ex_df (ad_criteria ex_asset_db) [(ex_response, ex_question)])"
    using handleAlertTriggers_correct [OF ex_triggers] unfolding s by auto
  then have "[ex_alert] = new" unfolding e by (metis (no_types) append_Nil asset_db.select_convs(6) asset_db.update_convs(6) asset_db.surjective)
  with m show ?thesis unfolding e by (auto simp: ex_alert_def alert_input_def ex_response_def ex_criterion_def)
qed

subsection \<open>Set-up\<close>

lemma as404_Inr [simp]: "as404OrThrow r = Inr x \<longleftrightarrow> r = Inr x"
  by (cases r) (simp_all add: as404OrThrow_def)

lemma create_responses_assets: "create_responses sess newId a n answers db = Inr db' \<Longrightarrow> ad_assets db' = ad_assets db"
  by (auto simp: create_responses_def split: if_splits rls_session.splits)

lemma write_consumables_assets:
  "write_consumables newDate sess newId n a ws db = Inr db' \<Longrightarrow> ad_assets db' = ad_assets db"
proof (induction ws arbitrary: n db)
  case (Cons w ws)
  obtain e v p where w: "w = (e, v, p)" by (cases w)
  from Cons.prems obtain db1 where 1: "write_consumable newDate sess (newId n) a e v p db = Inr db1"
    and 2: "write_consumables newDate sess newId (Suc n) a ws db1 = Inr db'"
    by (auto simp: w bindr_Inr_iff)
  from 1 have "ad_assets db1 = ad_assets db"
    by (auto simp: write_consumable_def split: option.splits rls_session.splits)
  with Cons.IH [OF 2] show ?case by simp
qed simp

lemma handleSetMetadata_setupOn:
  "map (\<lambda>a. (as_id a, as_setupOn a, as_clientId a, as_siteId a)) (ad_assets (handleSetMetadataFromConfigs asset rs db))
     = map (\<lambda>a. (as_id a, as_setupOn a, as_clientId a, as_siteId a)) (ad_assets db)"
  by (simp add: handleSetMetadataFromConfigs_def Let_def)

text \<open>
  An asset is set up once. A set-up succeeds only on an asset the session sees and that was not set
  up before; it leaves that asset with a set-up time and no other asset changes its own; and any
  further set-up of it, by whomever and with whatever answers, is answered with \<open>404\<close>.
\<close>

theorem setup_once:
  assumes "setup_asset newDate sess now newId newC i answers db = Inr db'"
  shows "(\<exists>a\<in>set (ad_assets db). as_id a = i \<and> asset_visible sess a \<and> as_setupOn a = None)
     \<and> map (\<lambda>a. (as_id a, as_setupOn a)) (ad_assets db')
       = map (\<lambda>a. (as_id a, if as_id a = i then Some now else as_setupOn a)) (ad_assets db)
     \<and> (\<forall>sess' now' n c answers'. setup_asset newDate sess' now' n c i answers' db' = Inl (NotFoundException ''Not Found''))"
proof -
  let ?db0 = "db\<lparr>ad_assets := map (\<lambda>a. if as_id a = i then a\<lparr>as_setupOn := Some now\<rparr> else a) (ad_assets db)\<rparr>"
  obtain asset db1 rs db2 where f: "List.find (\<lambda>a. as_id a = i \<and> as_setupOn a = None) (filter (asset_visible sess) (ad_assets db)) = Some asset"
    and 1: "create_responses sess newId (Some i) None answers ?db0 = Inr db1"
    and 2: "handleConsumableConfigs newDate sess newC i rs db1 = Inr db2"
    and db': "db' = handleSetMetadataFromConfigs asset (map (\<lambda>(r, q). (re_value r, q)) rs) db2"
    using assms by (auto simp: setup_asset_def bindr_Inr_iff split: option.splits)
  have a: "ad_assets db2 = ad_assets ?db0"
    using create_responses_assets [OF 1] write_consumables_assets [OF 2 [unfolded handleConsumableConfigs_def]] by simp
  have k: "map (\<lambda>a. (as_id a, as_setupOn a)) (ad_assets db') = map (\<lambda>a. (as_id a, as_setupOn a)) (ad_assets ?db0)"
    using arg_cong [OF handleSetMetadata_setupOn [of asset "map (\<lambda>(r, q). (re_value r, q)) rs" db2], of "map (\<lambda>(i, s, _, _). (i, s))"]
    by (simp add: db' a comp_def case_prod_beta)
  then have m: "map (\<lambda>a. (as_id a, as_setupOn a)) (ad_assets db')
      = map (\<lambda>a. (as_id a, if as_id a = i then Some now else as_setupOn a)) (ad_assets db)"
    by (simp add: comp_def if_distrib cong: if_cong)
  have none: "as_setupOn b \<noteq> None" if "b \<in> set (ad_assets db')" "as_id b = i" for b
  proof -
    have "(as_id b, as_setupOn b) \<in> set (map (\<lambda>a. (as_id a, as_setupOn a)) (ad_assets db'))" using that by auto
    then show ?thesis using that unfolding m by auto
  qed
  have "setup_asset newDate sess' now' n c i answers' db' = Inl (NotFoundException ''Not Found'')" for sess' now' n c answers'
  proof -
    have "List.find (\<lambda>a. as_id a = i \<and> as_setupOn a = None) (filter (asset_visible sess') (ad_assets db')) = None"
      using none by (auto simp: find_None_iff)
    then show ?thesis by (simp add: setup_asset_def as404OrThrow_def)
  qed
  moreover have "\<exists>a\<in>set (ad_assets db). as_id a = i \<and> asset_visible sess a \<and> as_setupOn a = None"
    using find_SomeD [OF f] by auto
  ultimately show ?thesis using m by blast
qed

definition ex_tenant :: rls_session where
  "ex_tenant = Tenant \<lparr>rls_personId = ''u1'', rls_clientId = ''c1'', rls_siteId = ''s1'', rls_allowedSiteIds = [''s1''], rls_scope = CLIENT\<rparr>"

theorem setup_once_witness:
  "\<exists>db'. setup_asset (\<lambda>_. None) ex_tenant 9 (\<lambda>_. ''n'') (\<lambda>_. ''m'') ''a1'' [\<lparr>an_value = JNum 5, an_originalPrompt = ''P'', an_questionId = ''q1''\<rparr>] ex_asset_db = Inr db'
     \<and> setup_asset (\<lambda>_. None) Bypass 10 (\<lambda>_. ''n'') (\<lambda>_. ''m'') ''a1'' [] db' = Inl (NotFoundException ''Not Found'')"
proof -
  let ?r = "setup_asset (\<lambda>_. None) ex_tenant 9 (\<lambda>_. ''n'') (\<lambda>_. ''m'') ''a1'' [\<lparr>an_value = JNum 5, an_originalPrompt = ''P'', an_questionId = ''q1''\<rparr>] ex_asset_db"
  have "is_ok ?r" by code_simp
  then obtain db' where r: "?r = Inr db'" by (cases ?r) simp_all
  from setup_once [OF r] r show ?thesis by blast
qed

text \<open>
  In a tenant's session \<open>updateSetup\<close> cannot change an answer given at set-up. The update policy of
  a response asks for an inspection that is not complete, and a set-up response has no inspection; the
  nested \<open>updateMany\<close> then matches no row, and the request succeeds without an error.
\<close>

theorem updateSetup_keeps_answers:
  assumes "updateSetup (Tenant ctx) newId i updates answers db = Inr db'" and "r \<in> set (ad_responses db)" and "re_inspectionId r = None"
  shows "r \<in> set (ad_responses db')"
proof -
  obtain f where f: "f r = r" and "create_responses (Tenant ctx) newId (Some i) None answers (db\<lparr>ad_responses := map f (ad_responses db)\<rparr>) = Inr db'"
  proof -
    let ?w = "\<lambda>r. response_visible (Tenant ctx) r \<and> is_owner ctx (re_responderId r)
       \<and> list_ex (\<lambda>n. re_inspectionId r = Some (is_id n) \<and> inspection_visible (Tenant ctx) n \<and> is_status n \<noteq> INSPECTION_COMPLETE) (ad_inspections db)"
    let ?f = "\<lambda>r. case map_of (rev updates) (re_id r) of None \<Rightarrow> r
       | Some d \<Rightarrow> if re_assetId r = Some i \<and> ?w r
           then r\<lparr>re_value := an_value d, re_originalPrompt := an_originalPrompt d, re_questionId := an_questionId d\<rparr> else r"
    have "\<not> ?w r" using assms(3) by (simp add: list_ex_iff)
    then have "?f r = r" by (auto split: option.split)
    moreover from assms(1) have "create_responses (Tenant ctx) newId (Some i) None answers (db\<lparr>ad_responses := map ?f (ad_responses db)\<rparr>) = Inr db'"
      by (simp add: updateSetup_def Let_def split: option.splits if_splits)
    ultimately show thesis by (rule that)
  qed
  then have "\<exists>new. ad_responses db' = map f (ad_responses db) @ new"
    by (auto simp: create_responses_def split: if_splits)
  moreover have "r \<in> f ` set (ad_responses db)" using f assms(2) by (metis imageI)
  ultimately show ?thesis by auto
qed

definition ex_setup_response :: response_row where
  "ex_setup_response = ex_response\<lparr>re_assetId := Some ''a1'', re_inspectionId := None\<rparr>"

theorem updateSetup_keeps_answers_witness:
  "\<exists>db'. updateSetup ex_tenant (\<lambda>_. ''n'') ''a1'' [(''r1'', \<lparr>an_value = JNum 6, an_originalPrompt = ''P'', an_questionId = ''q1''\<rparr>)] []
       (ex_asset_db\<lparr>ad_assets := [ex_answer_asset\<lparr>as_setupOn := Some 9\<rparr>], ad_responses := [ex_setup_response]\<rparr>) = Inr db'
     \<and> ex_setup_response \<in> set (ad_responses db')"
proof -
  let ?r = "updateSetup ex_tenant (\<lambda>_. ''n'') ''a1'' [(''r1'', \<lparr>an_value = JNum 6, an_originalPrompt = ''P'', an_questionId = ''q1''\<rparr>)] []
       (ex_asset_db\<lparr>ad_assets := [ex_answer_asset\<lparr>as_setupOn := Some 9\<rparr>], ad_responses := [ex_setup_response]\<rparr>)"
  have "is_ok ?r" by code_simp
  then obtain db' where r: "?r = Inr db'" by (cases ?r) simp_all
  have n: "re_inspectionId ex_setup_response = None" by (simp add: ex_setup_response_def)
  from updateSetup_keeps_answers [OF r [unfolded ex_tenant_def] _ n] r show ?thesis by simp
qed

text \<open>
  Two set-up questions with the same consumable product create two consumables: both calls look for an
  existing one before either has created it.
\<close>

lemma consumables_duplicated:
  assumes "find_consumable (Tenant ctx) db a p = None" and "newDate v = Some t" and "newDate w = Some u"
    and "is_setup_question q" "is_setup_question q'" "qu_consumableConfig q = Some \<lparr>cc_productId = p\<rparr>" "qu_consumableConfig q' = Some \<lparr>cc_productId = p\<rparr>"
  shows "\<exists>c d. handleConsumableConfigs newDate (Tenant ctx) newId a [(r\<lparr>re_value := v\<rparr>, q), (r'\<lparr>re_value := w\<rparr>, q')] db
       = Inr (db\<lparr>ad_consumables := ad_consumables db @ [c, d]\<rparr>)
     \<and> co_productId c = p \<and> co_productId d = p \<and> co_assetId c = Some a \<and> co_assetId d = Some a"
  using assms
  by (auto simp: handleConsumableConfigs_def map_filter_simps write_consumable_def mapResponseToConsumable_def
      simp del: ex_simps intro!: exI conjI arg_cong [where f = "\<lambda>x. ad_consumables_update (\<lambda>_. x) db"])

end
