(* ===== verification/Inspection_Routes.thy ===== *)
theory Inspection_Routes
  imports Asset_Db "HOL-Library.Multiset"
begin

section \<open>Inspection routes\<close>

text \<open>
  \<^verbatim>\<open>src/src/assets/inspection-routes/inspection-routes.service.ts\<close>. A route is an ordered list of
  points, one per asset; its sessions and the completed points are in the tables of the state as well,
  since the deletion of a route or point reaches them. The policies cover routes and sessions; points
  have none. Columns with a default take the client and site of the session's settings, which a
  bypassing session does not have. Orders are integers.
\<close>

record route_row =
  ir_id :: id
  ir_name :: string
  ir_description :: "string option"
  ir_siteId :: id
  ir_clientId :: id

record point_row =
  ip_id :: id
  ip_order :: int
  ip_routeId :: id
  ip_assetId :: id

datatype session_status = SESSION_PENDING | SESSION_COMPLETE | SESSION_EXPIRED | SESSION_CANCELLED

record session_row =
  ss_id :: id
  ss_createdOn :: time
  ss_status :: session_status
  ss_routeId :: id
  ss_lastInspectorId :: id
  ss_siteId :: id
  ss_clientId :: id

record completed_row =
  cp_id :: id
  cp_createdOn :: time
  cp_sessionId :: id
  cp_pointId :: id
  cp_inspectionId :: id

record route_db =
  rb_routes :: "route_row list"
  rb_points :: "point_row list"
  rb_sessions :: "session_row list"
  rb_completed :: "completed_row list"

definition route_visible :: "rls_session \<Rightarrow> route_row \<Rightarrow> bool" where
  "route_visible s r =
     (case s of Bypass \<Rightarrow> True
      | Tenant ctx \<Rightarrow> validate_client ctx (ir_clientId r) \<and> validate_site ctx (ir_siteId r))"

definition session_visible :: "rls_session \<Rightarrow> session_row \<Rightarrow> bool" where
  "session_visible s r =
     (case s of Bypass \<Rightarrow> True
      | Tenant ctx \<Rightarrow> validate_client ctx (ss_clientId r) \<and> validate_site ctx (ss_siteId r))"

interpretation route_table: tenant_table route_visible ir_clientId
  by unfold_locales (auto simp: route_visible_def validate_client_def)

interpretation session_table: tenant_table session_visible ss_clientId
  by unfold_locales (auto simp: session_visible_def validate_client_def)

definition find_route :: "rls_session \<Rightarrow> route_db \<Rightarrow> id \<Rightarrow> route_row result" where
  "find_route sess db i =
     (case find_by ir_id i (filter (route_visible sess) (rb_routes db)) of
        None \<Rightarrow> Inl (ServerError ''P2025'') | Some r \<Rightarrow> Inr r)"

subsection \<open>Routes\<close>

definition route_create ::
    "rls_session \<Rightarrow> tenant_db \<Rightarrow> id \<Rightarrow> string \<Rightarrow> string option \<Rightarrow> id option \<Rightarrow> route_db \<Rightarrow> (route_row \<times> route_db) result" where
  "route_create sess tdb newId name description siteId db =
     (case sess of
        Bypass \<Rightarrow> Inl (ServerError ''unrecognized configuration parameter'')
      | Tenant ctx \<Rightarrow>
          (let r = \<lparr>ir_id = newId, ir_name = name, ir_description = description,
                    ir_siteId = nullish_or siteId (rls_siteId ctx), ir_clientId = rls_clientId ctx\<rparr>
           in if \<not> route_visible sess r then Inl (ServerError ''row-level security'')
              else if ir_siteId r \<notin> st_id ` set (db_sites tdb) then Inl (ServerError ''P2003'')
              else Inr (r, db\<lparr>rb_routes := rb_routes db @ [r]\<rparr>)))"

definition route_update ::
    "rls_session \<Rightarrow> tenant_db \<Rightarrow> id \<Rightarrow> string option \<Rightarrow> string option \<Rightarrow> id option \<Rightarrow> route_db \<Rightarrow> (route_row \<times> route_db) result" where
  "route_update sess tdb i name description siteId db =
     bindr (find_route sess db i) (\<lambda>r.
       let r' = r\<lparr>ir_name := nullish_or name (ir_name r),
                  ir_description := (case description of None \<Rightarrow> ir_description r | Some d \<Rightarrow> Some d),
                  ir_siteId := nullish_or siteId (ir_siteId r)\<rparr>
       in if \<not> route_visible sess r' then Inl (ServerError ''row-level security'')
          else if ir_siteId r' \<notin> st_id ` set (db_sites tdb) then Inl (ServerError ''P2003'')
          else Inr (r', db\<lparr>rb_routes := map (\<lambda>x. if ir_id x = i then r' else x) (rb_routes db)\<rparr>))"

definition drop_points :: "(point_row \<Rightarrow> bool) \<Rightarrow> route_db \<Rightarrow> route_db" where
  \<comment> \<open>deletion with the cascade to the completed points\<close>
  "drop_points P db =
     (let gone = map ip_id (filter P (rb_points db))
      in db\<lparr>rb_points := filter (\<lambda>p. \<not> P p) (rb_points db),
            rb_completed := filter (\<lambda>c. \<not> List.member gone (cp_pointId c)) (rb_completed db)\<rparr>)"

definition route_remove :: "rls_session \<Rightarrow> id \<Rightarrow> route_db \<Rightarrow> (route_row \<times> route_db) result" where
  "route_remove sess i db =
     bindr (find_route sess db i) (\<lambda>r.
       if list_ex (\<lambda>s. ss_routeId s = i) (rb_sessions db) then Inl (ServerError ''P2003'')
       else Inr (r, (drop_points (\<lambda>p. ip_routeId p = i) db)\<lparr>rb_routes := filter (\<lambda>x. ir_id x \<noteq> i) (rb_routes db)\<rparr>))"

definition findAllForAssetId :: "rls_session \<Rightarrow> id \<Rightarrow> route_db \<Rightarrow> (route_row \<times> point_row list) list" where
  "findAllForAssetId sess assetId db =
     map (\<lambda>r. (r, filter (\<lambda>p. ip_routeId p = ir_id r) (rb_points db)))
       (filter (\<lambda>r. list_ex (\<lambda>p. ip_routeId p = ir_id r \<and> ip_assetId p = assetId) (rb_points db))
         (filter (route_visible sess) (rb_routes db)))"

definition ordered_points :: "id \<Rightarrow> route_db \<Rightarrow> point_row list" where
  "ordered_points routeId db = order_asc ip_order (filter (\<lambda>p. ip_routeId p = routeId) (rb_points db))"

subsection \<open>Points\<close>

definition createPoint ::
    "rls_session \<Rightarrow> asset_row list \<Rightarrow> id \<Rightarrow> id \<Rightarrow> int \<Rightarrow> id \<Rightarrow> route_db \<Rightarrow> (route_row \<times> route_db) result" where
  "createPoint sess assets newId routeId order assetId db =
     bindr (find_route sess db routeId) (\<lambda>r.
       if assetId \<notin> as_id ` set assets then Inl (ServerError ''P2003'')
       else Inr (r, db\<lparr>rb_points := rb_points db @
         [\<lparr>ip_id = newId, ip_order = order, ip_routeId = routeId, ip_assetId = assetId\<rparr>]\<rparr>))"

definition findOnePoint :: "id \<Rightarrow> id \<Rightarrow> route_db \<Rightarrow> point_row option" where
  "findOnePoint routeId i db = List.find (\<lambda>p. ip_id p = i \<and> ip_routeId p = routeId) (rb_points db)"

definition updatePoint ::
    "rls_session \<Rightarrow> asset_row list \<Rightarrow> id \<Rightarrow> id \<Rightarrow> int option \<Rightarrow> id option \<Rightarrow> route_db \<Rightarrow> (route_row \<times> route_db) result" where
  "updatePoint sess assets routeId i order assetId db =
     bindr (find_route sess db routeId) (\<lambda>r.
       if findOnePoint routeId i db = None then Inl (ServerError ''P2025'')
       else if assetId \<noteq> None \<and> the assetId \<notin> as_id ` set assets then Inl (ServerError ''P2003'')
       else Inr (r, db\<lparr>rb_points := map (\<lambda>p. if ip_id p = i
           then p\<lparr>ip_order := nullish_or order (ip_order p), ip_assetId := nullish_or assetId (ip_assetId p)\<rparr> else p)
           (rb_points db)\<rparr>))"

definition removePoint :: "rls_session \<Rightarrow> id \<Rightarrow> id \<Rightarrow> route_db \<Rightarrow> (route_row \<times> route_db) result" where
  "removePoint sess routeId i db =
     bindr (find_route sess db routeId) (\<lambda>r.
       if findOnePoint routeId i db = None then Inl (ServerError ''P2025'')
       else Inr (r, drop_points (\<lambda>p. ip_id p = i) db))"

subsection \<open>Reordering\<close>

text \<open>
  \<open>splice(i, 1)\<close> with a negative index counts from the end: an index of \<open>-1\<close>, for a point that was
  not found, takes out the last point. Out of an empty array it takes nothing, and the access to the
  missing point's order throws.
\<close>

definition take_out :: "int \<Rightarrow> 'a list \<Rightarrow> ('a \<times> 'a list) option" where
  "take_out i xs =
     (let k = (if i < 0 then nat (max (int (length xs) + i) 0) else nat i)
      in if k < length xs then Some (xs ! k, take k xs @ drop (Suc k) xs) else None)"

definition put_in :: "nat \<Rightarrow> 'a \<Rightarrow> 'a list \<Rightarrow> 'a list" where
  "put_in i x xs = take i xs @ x # drop i xs"

definition newIndex :: "int \<Rightarrow> point_row \<Rightarrow> point_row list \<Rightarrow> nat" where
  "newIndex order pointToMove allPoints =
     (let moveForward = (ip_order pointToMove < order)
      in length (filter (\<lambda>p. moveForward \<and> ip_order p = order \<or> ip_order p < order) allPoints))"

definition pointsToUpdate :: "point_row list \<Rightarrow> (id \<times> int) list" where
  "pointsToUpdate allPoints =
     map (\<lambda>(idx, p). (ip_id p, int idx))
       (filter (\<lambda>(idx, p). ip_order p \<noteq> int idx) (enumerate 0 allPoints))"

definition update_order :: "id \<Rightarrow> point_row list \<Rightarrow> id \<times> int \<Rightarrow> point_row list" where
  "update_order routeId points u =
     map (\<lambda>p. if ip_id p = fst u \<and> ip_routeId p = routeId then p\<lparr>ip_order := snd u\<rparr> else p) points"

definition reorderPoints :: "rls_session \<Rightarrow> id \<Rightarrow> id \<Rightarrow> int \<Rightarrow> route_db \<Rightarrow> (route_row \<times> route_db) result" where
  "reorderPoints sess routeId pointId order db =
     (let allPoints = ordered_points routeId db
      in case take_out (findIndex (\<lambda>p. ip_id p = pointId) allPoints) allPoints of
          None \<Rightarrow> Inl (ServerError ''TypeError'')
        | Some (pointToMove, rest) \<Rightarrow>
            (let allPoints' = put_in (newIndex order pointToMove rest) pointToMove rest
             in bindr (find_route sess db routeId) (\<lambda>r.
               Inr (r, db\<lparr>rb_points := foldl (update_order routeId) (rb_points db) (pointsToUpdate allPoints')\<rparr>))))"

subsection \<open>Lemmas\<close>

lemma update_order_all:
  assumes "distinct (map fst us)"
  shows "foldl (update_order routeId) pts us =
     map (\<lambda>p. if ip_routeId p = routeId then case map_of us (ip_id p) of None \<Rightarrow> p | Some o' \<Rightarrow> p\<lparr>ip_order := o'\<rparr> else p) pts"
  using assms
proof (induction us arbitrary: pts)
  case Nil
  show ?case by (simp add: map_idI)
next
  case (Cons u us)
  obtain i o' where u: "u = (i, o')" by (cases u)
  have "i \<notin> set (map fst us)" using Cons.prems by (simp add: u)
  then have n: "map_of us i = None" by (simp add: map_of_eq_None_iff)
  have d: "distinct (map fst us)" using Cons.prems by simp
  show ?case
    unfolding foldl_Cons Cons.IH [OF d] unfolding update_order_def u map_map comp_def
    by (rule map_cong [OF refl]) (auto simp: n split: option.splits)
qed

lemma distinct_pointsToUpdate: "distinct (map ip_id ps) \<Longrightarrow> distinct (map fst (pointsToUpdate ps))"
proof -
  assume d: "distinct (map ip_id ps)"
  have "map (\<lambda>x. ip_id (snd x)) (enumerate 0 ps) = map ip_id (map snd (enumerate 0 ps))" unfolding map_map comp_def ..
  then have e: "distinct (map (\<lambda>x. ip_id (snd x)) (enumerate 0 ps))" using d by simp
  have "map fst (pointsToUpdate ps) = map (\<lambda>x. ip_id (snd x)) (filter (\<lambda>(idx, p). ip_order p \<noteq> int idx) (enumerate 0 ps))"
    unfolding pointsToUpdate_def map_map comp_def case_prod_unfold by simp
  then show ?thesis using distinct_map_filter [OF e] by simp
qed

lemma mem_pointsToUpdate:
  "(i, o') \<in> set (pointsToUpdate ps) \<longleftrightarrow> (\<exists>k<length ps. i = ip_id (ps ! k) \<and> o' = int k \<and> ip_order (ps ! k) \<noteq> int k)"
  by (force simp: pointsToUpdate_def in_set_enumerate_eq image_iff)

lemma map_of_pointsToUpdate:
  assumes "distinct (map ip_id ps)" and "k < length ps"
  shows "(case map_of (pointsToUpdate ps) (ip_id (ps ! k)) of None \<Rightarrow> ps ! k | Some o' \<Rightarrow> (ps ! k)\<lparr>ip_order := o'\<rparr>)
     = (ps ! k)\<lparr>ip_order := int k\<rparr>"
proof -
  have same: "j = k" if "j < length ps" "ip_id (ps ! j) = ip_id (ps ! k)" for j
    using assms that nth_eq_iff_index_eq [of "map ip_id ps" j k] by simp
  have iff: "map_of (pointsToUpdate ps) (ip_id (ps ! k)) = Some o' \<longleftrightarrow> o' = int k \<and> ip_order (ps ! k) \<noteq> int k" for o'
    unfolding map_of_eq_Some_iff [OF distinct_pointsToUpdate [OF assms(1)]] mem_pointsToUpdate
    using assms(2) by (auto dest: same)
  show ?thesis
  proof (cases "map_of (pointsToUpdate ps) (ip_id (ps ! k))")
    case None
    then have "ip_order (ps ! k) = int k" using iff by auto
    with None show ?thesis by simp
  next
    case (Some o')
    moreover from this have "o' = int k" using iff by blast
    ultimately show ?thesis by simp
  qed
qed

text \<open>Taking an element out and putting it in again somewhere only changes its place.\<close>

lemma take_out_Some:
  assumes "0 \<le> i" "nat i < length xs"
  shows "take_out i xs = Some (xs ! nat i, take (nat i) xs @ drop (Suc (nat i)) xs)"
  using assms by (simp add: take_out_def Let_def)

lemma mset_put_in: "mset (put_in j x xs) = add_mset x (mset xs)"
  unfolding put_in_def by (metis append_take_drop_id mset_append mset.simps(2) union_mset_add_mset_right)

lemma mset_take_out: "k < length xs \<Longrightarrow> add_mset (xs ! k) (mset (take k xs @ drop (Suc k) xs)) = mset xs"
  by (metis Cons_nth_drop_Suc append_take_drop_id mset.simps(2) mset_append union_mset_add_mset_right)

lemma put_in_nth: "j \<le> length xs \<Longrightarrow> put_in j x xs ! j = x"
  by (simp add: put_in_def nth_append)

lemma length_put_in: "length (put_in j x xs) = Suc (length xs)"
  by (simp add: put_in_def)

lemma filter_put_in: "\<not> P x \<Longrightarrow> filter P (put_in j x xs) = filter P xs"
  unfolding put_in_def by (metis append_take_drop_id filter.simps(2) filter_append)

lemma filter_take_out: "k < length xs \<Longrightarrow> \<not> P (xs ! k) \<Longrightarrow> filter P (take k xs @ drop (Suc k) xs) = filter P xs"
  by (metis Cons_nth_drop_Suc append_take_drop_id filter.simps(2) filter_append)

lemma distinct_map_mset:
  assumes "mset xs = mset ys" and "distinct (map f ys)"
  shows "distinct (map f xs)"
  using assms mset_eq_imp_distinct_iff [of "map f xs" "map f ys"] by simp

text \<open>The route's points after the update are the new list with the positions as orders.\<close>

lemma ordered_after_update:
  assumes "distinct (map ip_id (rb_points db))" and "mset ps = mset (filter (\<lambda>p. ip_routeId p = routeId) (rb_points db))"
  shows "ordered_points routeId (db\<lparr>rb_points := foldl (update_order routeId) (rb_points db) (pointsToUpdate ps)\<rparr>)
     = map (\<lambda>k. (ps ! k)\<lparr>ip_order := int k\<rparr>) [0..<length ps]"
proof -
  let ?F = "filter (\<lambda>p. ip_routeId p = routeId) (rb_points db)"
  let ?u = "\<lambda>p. if ip_routeId p = routeId then case map_of (pointsToUpdate ps) (ip_id p) of None \<Rightarrow> p | Some o' \<Rightarrow> p\<lparr>ip_order := o'\<rparr> else p"
  let ?N = "map (\<lambda>k. (ps ! k)\<lparr>ip_order := int k\<rparr>) [0..<length ps]"
  have dp: "distinct (map ip_id ps)" by (rule distinct_map_mset [OF assms(2) distinct_map_filter [OF assms(1)]])
  have r: "ip_routeId (ps ! k) = routeId" if "k < length ps" for k
  proof -
    have "set ps = set ?F" using assms(2) by (rule mset_eq_setD)
    with nth_mem [OF that] show ?thesis by auto
  qed
  have "map ?u ps = map ?u (map ((!) ps) [0..<length ps])" unfolding map_nth ..
  also have "\<dots> = map (\<lambda>k. ?u (ps ! k)) [0..<length ps]" unfolding map_map comp_def ..
  also have "\<dots> = ?N" by (rule map_cong [OF refl]) (simp add: r map_of_pointsToUpdate [OF dp])
  finally have N: "map ?u ps = ?N" .
  have ur: "ip_routeId (?u p) = ip_routeId p" for p by (simp split: option.split)
  have f: "filter (\<lambda>p. ip_routeId p = routeId) (map ?u (rb_points db)) = map ?u ?F"
    unfolding filter_map comp_def ur ..
  have op: "ordered_points routeId (db\<lparr>rb_points := foldl (update_order routeId) (rb_points db) (pointsToUpdate ps)\<rparr>)
      = sort_key ip_order (map ?u ?F)"
    unfolding update_order_all [OF distinct_pointsToUpdate [OF dp]] ordered_points_def order_asc_def by (simp add: f)
  have m: "mset (sort_key ip_order (map ?u ?F)) = mset ?N" unfolding N [symmetric] by (simp add: assms(2))
  have on: "map ip_order ?N = map int [0..<length ps]" by simp
  have dn: "distinct (map ip_order ?N)" unfolding on by (simp add: distinct_map)
  have sn: "sorted (map ip_order ?N)" unfolding on by (auto simp: sorted_iff_nth_mono)
  show ?thesis
    unfolding op
  proof (rule map_sorted_distinct_set_unique [where f = ip_order])
    show "set (sort_key ip_order (map ?u ?F)) = set ?N" by (rule mset_eq_setD [OF m])
    show "distinct (map ip_order (sort_key ip_order (map ?u ?F)))"
      by (rule distinct_map_mset [OF m dn])
    show "sorted (map ip_order (sort_key ip_order (map ?u ?F)))" by (rule sorted_sort_key)
    have "inj_on ip_order (set ?N)" using dn by (simp only: distinct_map)
    then show "inj_on ip_order (set (sort_key ip_order (map ?u ?F)) \<union> set ?N)"
      unfolding mset_eq_setD [OF m] Un_absorb .
  qed (rule sn dn)+
qed

lemma reorder_result:
  assumes "reorderPoints sess routeId pointId order db = Inr (r, db')"
    and "p \<in> set (ordered_points routeId db)" and "ip_id p = pointId"
  shows "\<exists>k<length (ordered_points routeId db).
     let old = ordered_points routeId db; rest = take k old @ drop (Suc k) old; L = put_in (newIndex order (old ! k) rest) (old ! k) rest
     in ip_id (old ! k) = pointId
       \<and> db' = db\<lparr>rb_points := foldl (update_order routeId) (rb_points db) (pointsToUpdate L)\<rparr>"
proof -
  let ?old = "ordered_points routeId db" and ?i = "findIndex (\<lambda>p. ip_id p = pointId) (ordered_points routeId db)"
  have i: "0 \<le> ?i" using assms(2,3) by (auto simp: findIndex_nonneg_iff)
  have k: "nat ?i < length ?old" using findIndex_range [of "\<lambda>p. ip_id p = pointId" ?old] i by linarith
  have p: "ip_id (?old ! nat ?i) = pointId" using findIndex_nth [OF i] .
  from assms(1) k p show ?thesis
    unfolding reorderPoints_def Let_def take_out_Some [OF i k]
    by (intro exI [of _ "nat ?i"]) (simp add: bindr_Inr_iff Let_def)
qed

lemma filter_others:
  assumes "distinct (map f xs)" and k: "k < length xs" and "f (xs ! k) = a"
  shows "filter (\<lambda>q. f q \<noteq> a) xs = take k xs @ drop (Suc k) xs"
proof -
  let ?rest = "take k xs @ drop (Suc k) xs"
  have "mset (map f xs) = mset (a # map f ?rest)"
    using arg_cong [OF mset_take_out [OF k], of "image_mset f"] by (simp add: assms(3))
  then have "distinct (a # map f ?rest)" using assms(1) mset_eq_imp_distinct_iff by blast
  then have "\<forall>q\<in>set ?rest. f q \<noteq> a" by (auto simp: image_iff)
  then have "filter (\<lambda>q. f q \<noteq> a) ?rest = ?rest" by (simp only: filter_id_conv)
  moreover have "filter (\<lambda>q. f q \<noteq> a) ?rest = filter (\<lambda>q. f q \<noteq> a) xs"
    by (rule filter_take_out [OF k]) (simp add: assms(3))
  ultimately show ?thesis by simp
qed

lemma update_order_others:
  "filter (\<lambda>q. ip_routeId q \<noteq> routeId) (foldl (update_order routeId) pts us) = filter (\<lambda>q. ip_routeId q \<noteq> routeId) pts"
proof (induction us arbitrary: pts)
  case (Cons u us)
  have "filter (\<lambda>q. ip_routeId q \<noteq> routeId) (update_order routeId pts u) = filter (\<lambda>q. ip_routeId q \<noteq> routeId) pts"
    by (induction pts) (simp_all add: update_order_def)
  with Cons show ?case by simp
qed simp

lemma newIndex_le: "newIndex order x xs \<le> length xs"
  by (simp add: newIndex_def Let_def)

text \<open>
  Moving a point of a route leaves a well-ordered route: its points carry the orders 0, 1, 2 and so
  on, none is lost or added, the others keep their relative order, and the moved point stands behind
  exactly those of the others whose order was below the requested one (or equal to it, when the point
  moves up). Points of other routes, the routes and the sessions are not touched.
\<close>

theorem reorderPoints_correct:
  assumes "distinct (map ip_id (rb_points db))"
    and "p \<in> set (rb_points db)" "ip_routeId p = routeId"
    and "reorderPoints sess routeId (ip_id p) order db = Inr (r, db')"
  shows "let old = ordered_points routeId db; new = ordered_points routeId db';
             others = filter (\<lambda>q. ip_id q \<noteq> ip_id p) old;
             pos = length (filter (\<lambda>q. ip_order q < order \<or> ip_order p < order \<and> ip_order q = order) others)
     in map ip_order new = map int [0..<length old]
       \<and> mset (map ip_id new) = mset (map ip_id old)
       \<and> filter (\<lambda>i. i \<noteq> ip_id p) (map ip_id new) = filter (\<lambda>i. i \<noteq> ip_id p) (map ip_id old)
       \<and> map ip_id new ! pos = ip_id p
       \<and> filter (\<lambda>q. ip_routeId q \<noteq> routeId) (rb_points db') = filter (\<lambda>q. ip_routeId q \<noteq> routeId) (rb_points db)
       \<and> rb_routes db' = rb_routes db \<and> rb_sessions db' = rb_sessions db \<and> rb_completed db' = rb_completed db"
proof -
  let ?old = "ordered_points routeId db"
  have mo: "mset ?old = mset (filter (\<lambda>q. ip_routeId q = routeId) (rb_points db))" by (simp add: ordered_points_def order_asc_def)
  have dold: "distinct (map ip_id ?old)" by (rule distinct_map_mset [OF mo distinct_map_filter [OF assms(1)]])
  have pin: "p \<in> set ?old" using assms(2,3) mset_eq_setD [OF mo] by auto
  obtain k where k: "k < length ?old" and pk: "ip_id (?old ! k) = ip_id p"
    and db': "db' = db\<lparr>rb_points := foldl (update_order routeId) (rb_points db) (pointsToUpdate
        (put_in (newIndex order (?old ! k) (take k ?old @ drop (Suc k) ?old)) (?old ! k) (take k ?old @ drop (Suc k) ?old)))\<rparr>"
    using reorder_result [OF assms(4) pin refl] unfolding Let_def by (elim exE conjE) (rule that)
  let ?rest = "take k ?old @ drop (Suc k) ?old"
  let ?L = "put_in (newIndex order (?old ! k) ?rest) (?old ! k) ?rest"
  have pe: "?old ! k = p"
    using dold pin pk nth_mem [OF k] by (auto simp: distinct_map dest: inj_onD)
  have mL: "mset ?L = mset ?old" unfolding mset_put_in mset_take_out [OF k] ..
  have len: "length ?L = length ?old" using mL by (rule mset_eq_length)
  have others: "filter (\<lambda>q. ip_id q \<noteq> ip_id p) ?old = ?rest" by (rule filter_others [OF dold k pk])
  have pos: "length (filter (\<lambda>q. ip_order q < order \<or> ip_order p < order \<and> ip_order q = order) ?rest) = newIndex order (?old ! k) ?rest"
    unfolding newIndex_def Let_def pe by (rule arg_cong [where f = length], rule filter_cong) auto
  have new: "ordered_points routeId db' = map (\<lambda>j. (?L ! j)\<lparr>ip_order := int j\<rparr>) [0..<length ?L]"
    unfolding db' by (rule ordered_after_update [OF assms(1)]) (simp only: mL mo)
  have ids: "map ip_id (ordered_points routeId db') = map ip_id ?L"
    unfolding new map_map comp_def by (rule nth_equalityI) simp_all
  have "map ip_order (ordered_points routeId db') = map int [0..<length ?old]"
    unfolding new map_map comp_def len by simp
  moreover have "mset (map ip_id (ordered_points routeId db')) = mset (map ip_id ?old)" unfolding ids using mL by (metis mset_map)
  moreover have "filter (\<lambda>i. i \<noteq> ip_id p) (map ip_id (ordered_points routeId db')) = filter (\<lambda>i. i \<noteq> ip_id p) (map ip_id ?old)"
    unfolding ids filter_map comp_def
    using filter_put_in [of "\<lambda>q. ip_id q \<noteq> ip_id p" "?old ! k" "newIndex order (?old ! k) ?rest" ?rest]
      filter_take_out [OF k, of "\<lambda>q. ip_id q \<noteq> ip_id p"] by (simp only: pk not_not simp_thms)
  moreover have "map ip_id (ordered_points routeId db') ! newIndex order (?old ! k) ?rest = ip_id p"
    unfolding ids using put_in_nth [OF newIndex_le, of order "?old ! k" ?rest "?old ! k"] newIndex_le [of order "?old ! k" ?rest]
    by (simp only: nth_map length_put_in less_Suc_eq_le pk)
  moreover have "filter (\<lambda>q. ip_routeId q \<noteq> routeId) (rb_points db') = filter (\<lambda>q. ip_routeId q \<noteq> routeId) (rb_points db)"
    by (simp add: db' update_order_others)
  ultimately show ?thesis unfolding Let_def others pos by (simp add: db')
qed

definition ex_route_db :: route_db where
  "ex_route_db = \<lparr>rb_routes = [\<lparr>ir_id = ''r1'', ir_name = ''R'', ir_description = None, ir_siteId = ''s1'', ir_clientId = ''c1''\<rparr>],
     rb_points = [\<lparr>ip_id = ''p3'', ip_order = 7, ip_routeId = ''r1'', ip_assetId = ''a3''\<rparr>,
       \<lparr>ip_id = ''p1'', ip_order = 0, ip_routeId = ''r1'', ip_assetId = ''a1''\<rparr>,
       \<lparr>ip_id = ''q1'', ip_order = 4, ip_routeId = ''r2'', ip_assetId = ''a1''\<rparr>,
       \<lparr>ip_id = ''p2'', ip_order = 2, ip_routeId = ''r1'', ip_assetId = ''a2''\<rparr>],
     rb_sessions = [], rb_completed = []\<rparr>"

lemma ex_reorder:
  "reorderPoints Bypass ''r1'' ''p1'' 2 ex_route_db = Inr (hd (rb_routes ex_route_db),
     ex_route_db\<lparr>rb_points := [\<lparr>ip_id = ''p3'', ip_order = 2, ip_routeId = ''r1'', ip_assetId = ''a3''\<rparr>,
       \<lparr>ip_id = ''p1'', ip_order = 1, ip_routeId = ''r1'', ip_assetId = ''a1''\<rparr>,
       \<lparr>ip_id = ''q1'', ip_order = 4, ip_routeId = ''r2'', ip_assetId = ''a1''\<rparr>,
       \<lparr>ip_id = ''p2'', ip_order = 0, ip_routeId = ''r1'', ip_assetId = ''a2''\<rparr>]\<rparr>)"
  by code_simp

theorem reorderPoints_correct_witness:
  "let db' = ex_route_db\<lparr>rb_points := [\<lparr>ip_id = ''p3'', ip_order = 2, ip_routeId = ''r1'', ip_assetId = ''a3''\<rparr>,
       \<lparr>ip_id = ''p1'', ip_order = 1, ip_routeId = ''r1'', ip_assetId = ''a1''\<rparr>,
       \<lparr>ip_id = ''q1'', ip_order = 4, ip_routeId = ''r2'', ip_assetId = ''a1''\<rparr>,
       \<lparr>ip_id = ''p2'', ip_order = 0, ip_routeId = ''r1'', ip_assetId = ''a2''\<rparr>]\<rparr>
   in map ip_order (ordered_points ''r1'' db') = map int [0..<length (ordered_points ''r1'' ex_route_db)]
      \<and> map ip_id (ordered_points ''r1'' db') ! 1 = ''p1''"
proof -
  let ?p = "\<lparr>ip_id = ''p1'', ip_order = 0, ip_routeId = ''r1'', ip_assetId = ''a1''\<rparr>"
  have d: "distinct (map ip_id (rb_points ex_route_db))" by code_simp
  have m: "?p \<in> set (rb_points ex_route_db)" by (simp add: ex_route_db_def)
  have r: "reorderPoints Bypass ''r1'' (ip_id ?p) 2 ex_route_db = Inr (hd (rb_routes ex_route_db),
     ex_route_db\<lparr>rb_points := [\<lparr>ip_id = ''p3'', ip_order = 2, ip_routeId = ''r1'', ip_assetId = ''a3''\<rparr>,
       \<lparr>ip_id = ''p1'', ip_order = 1, ip_routeId = ''r1'', ip_assetId = ''a1''\<rparr>,
       \<lparr>ip_id = ''q1'', ip_order = 4, ip_routeId = ''r2'', ip_assetId = ''a1''\<rparr>,
       \<lparr>ip_id = ''p2'', ip_order = 0, ip_routeId = ''r1'', ip_assetId = ''a2''\<rparr>]\<rparr>)"
    using ex_reorder by simp
  have "length (filter (\<lambda>q. ip_order q < 2 \<or> ip_order ?p < 2 \<and> ip_order q = 2)
      (filter (\<lambda>q. ip_id q \<noteq> ip_id ?p) (ordered_points ''r1'' ex_route_db))) = 1"
    by code_simp
  with reorderPoints_correct [OF d m _ r] show ?thesis unfolding Let_def by simp
qed

text \<open>
  A point id that the route does not have is not an error: the search returns \<open>-1\<close>, and the point
  with the highest order is moved in its place.
\<close>

lemma reorder_unknown_point:
  assumes "\<forall>p\<in>set (ordered_points routeId db). ip_id p \<noteq> pointId" and "ordered_points routeId db \<noteq> []"
    and "distinct (map ip_id (ordered_points routeId db))"
  shows "reorderPoints sess routeId pointId order db
     = reorderPoints sess routeId (ip_id (last (ordered_points routeId db))) order db"
proof -
  let ?old = "ordered_points routeId db"
  let ?l = "findIndex (\<lambda>p. ip_id p = ip_id (last ?old)) ?old"
  have "findIndex (\<lambda>p. ip_id p = pointId) ?old = -1"
    using assms(1) findIndex_nonneg_iff [of "\<lambda>p. ip_id p = pointId" ?old] findIndex_range [of "\<lambda>p. ip_id p = pointId" ?old]
    by auto
  moreover have l: "0 \<le> ?l" using last_in_set [OF assms(2)] by (auto simp: findIndex_nonneg_iff)
  moreover have "nat ?l < length ?old" using findIndex_range [of "\<lambda>p. ip_id p = ip_id (last ?old)" ?old] l by linarith
  moreover have "nat ?l = length ?old - 1"
    using findIndex_nth [OF l] assms(2) nth_eq_iff_index_eq [OF assms(3), of "nat ?l" "length ?old - 1"] calculation(3)
    by (simp add: last_conv_nth)
  moreover have "nat (max (int (length ?old) - 1) 0) = length ?old - 1" by linarith
  ultimately have "take_out (findIndex (\<lambda>p. ip_id p = pointId) ?old) ?old = take_out ?l ?old"
    unfolding take_out_def Let_def by simp
  then show ?thesis unfolding reorderPoints_def Let_def by simp
qed

end
