(* ===== verification/Inspections.thy ===== *)
theory Inspections
  imports Asset_Answers Inspection_Routes Tag_Tokens
begin

section \<open>Inspections and inspection sessions\<close>

text \<open>
  \<^verbatim>\<open>src/src/assets/inspections/inspections.service.ts\<close>. The state is the asset tables with the route
  tables. A query that includes a required relation fails when the related row is not visible. The
  \<open>subDays\<close> of \<^verbatim>\<open>date-fns\<close> is a parameter. Whether the session's person, client and site are
  those of a \<open>Tenant\<close> session or the session bypasses is the \<open>rls_session\<close>; \<open>ctx\<close> is \<open>$rlsContext()\<close>.
\<close>

record insp_state =
  it_assets :: asset_db
  it_routes :: route_db

record create_inspection_dto =
  ci_assetId :: id
  ci_status :: inspection_status
  ci_comments :: "string option"
  ci_responses :: "answer_dto list"

record insp_ids =
  \<comment> \<open>the identifiers the database generates\<close>
  ni_inspection :: id
  ni_session :: id
  ni_completed :: id
  ni_response :: "nat \<Rightarrow> id"
  ni_alert :: "nat \<Rightarrow> id"

definition inconsistent :: api_error where
  "inconsistent = ServerError ''Inconsistent query result''"

subsection \<open>Recording an inspection\<close>

definition find_session :: "rls_session \<Rightarrow> id \<Rightarrow> route_db \<Rightarrow> session_row result" where
  "find_session sess i db =
     (case find_by ss_id i (filter (session_visible sess) (rb_sessions db)) of
        None \<Rightarrow> Inl (ServerError ''P2025'') | Some s \<Rightarrow> Inr s)"

definition session_with_points :: "rls_session \<Rightarrow> id \<Rightarrow> id \<Rightarrow> route_db \<Rightarrow> (session_row \<times> point_row list) result" where
  "session_with_points sess i assetId db =
     as404OrThrow (bindr (find_session sess i db) (\<lambda>s.
       case find_by ir_id (ss_routeId s) (filter (route_visible sess) (rb_routes db)) of
         None \<Rightarrow> Inl inconsistent
       | Some r \<Rightarrow> Inr (s, filter (\<lambda>p. ip_routeId p = ir_id r \<and> ip_assetId p = assetId) (rb_points db))))"

definition take_ownership :: "rls_context option \<Rightarrow> session_row \<Rightarrow> route_db \<Rightarrow> route_db" where
  "take_ownership ctx s db =
     (case ctx of
        None \<Rightarrow> db
      | Some c \<Rightarrow>
          if rls_personId c \<noteq> ss_lastInspectorId s
          then db\<lparr>rb_sessions := map (\<lambda>x. if ss_id x = ss_id s then x\<lparr>ss_lastInspectorId := rls_personId c\<rparr> else x) (rb_sessions db)\<rparr>
          else db)"

definition route_point :: "id \<Rightarrow> string option \<Rightarrow> point_row list \<Rightarrow> route_db \<Rightarrow> point_row option" where
  "route_point assetId routeId sessionPoints db =
     (case List.find (\<lambda>p. ip_assetId p = assetId) sessionPoints of
        Some p \<Rightarrow> Some p
      | None \<Rightarrow>
          if truthy routeId
          then List.find (\<lambda>p. ip_assetId p = assetId \<and> ip_routeId p = the routeId) (rb_points db)
          else None)"

definition complete_point ::
    "rls_session \<Rightarrow> rls_context \<Rightarrow> insp_ids \<Rightarrow> time \<Rightarrow> string option \<Rightarrow> id \<Rightarrow> point_row \<Rightarrow> route_db \<Rightarrow> (session_row \<times> route_db) result" where
  "complete_point sess ctx ids now sessionId inspectionId p db =
     (let add = (\<lambda>s d. Inr (s, d\<lparr>rb_completed := rb_completed d @
            [\<lparr>cp_id = ni_completed ids, cp_createdOn = now, cp_sessionId = ss_id s, cp_pointId = ip_id p, cp_inspectionId = inspectionId\<rparr>]\<rparr>))
      in if truthy sessionId
         then bindr (find_session sess (the sessionId) db) (\<lambda>s. add s db)
         else bindr (find_route sess db (ip_routeId p)) (\<lambda>_.
           let s = \<lparr>ss_id = ni_session ids, ss_createdOn = now, ss_status = SESSION_PENDING, ss_routeId = ip_routeId p,
                    ss_lastInspectorId = rls_personId ctx, ss_siteId = rls_siteId ctx, ss_clientId = rls_clientId ctx\<rparr>
           in add s (db\<lparr>rb_sessions := rb_sessions db @ [s]\<rparr>)))"

definition inspection_transaction ::
    "date_fns \<Rightarrow> rls_session \<Rightarrow> insp_ids \<Rightarrow> create_inspection_dto \<Rightarrow> string option \<Rightarrow> asset_row \<Rightarrow> point_row option
     \<Rightarrow> insp_state \<Rightarrow> (inspection_row \<times> session_row option \<times> id list \<times> insp_state) result" where
  "inspection_transaction df sess ids dto sessionId asset point st =
     (case sess of
        Bypass \<Rightarrow> Inl no_setting
      | Tenant ctx \<Rightarrow>
          (let now = date_now df;
               row = \<lparr>is_id = ni_inspection ids, is_createdOn = now, is_modifiedOn = now, is_assetId = ci_assetId dto,
                      is_inspectorId = rls_personId ctx, is_status = ci_status dto, is_comments = ci_comments dto,
                      is_siteId = as_siteId asset, is_clientId = rls_clientId ctx\<rparr>
           in if \<not> (validate_client ctx (is_clientId row) \<and> validate_site ctx (is_siteId row)) then Inl rls_violation
              else
                bindr (case point of None \<Rightarrow> Inr (None, it_routes st)
                       | Some p \<Rightarrow> bindr (complete_point sess ctx ids now sessionId (is_id row) p (it_routes st)) (\<lambda>(s, d). Inr (Some s, d)))
                  (\<lambda>(session, routes).
                bindr (create_responses sess (ni_response ids) None (Some (is_id row)) (ci_responses dto)
                   ((it_assets st)\<lparr>ad_inspections := ad_inspections (it_assets st) @ [row]\<rparr>)) (\<lambda>db1.
                bindr (sequence (map (include_question sess db1) (filter (\<lambda>r. re_inspectionId r = Some (is_id row) \<and> response_visible sess r) (ad_responses db1))))
                  (\<lambda>responses.
                bindr (handleAlertTriggers df sess (ni_alert ids) False row responses db1) (\<lambda>(queued, db2).
                Inr (row, session, queued,
                  \<lparr>it_assets = handleSetMetadataFromConfigs asset (map (\<lambda>(r, q). (re_value r, q)) responses) db2, it_routes = routes\<rparr>)))))))"

definition claim_session :: "rls_context option \<Rightarrow> (session_row \<times> point_row list) option \<Rightarrow> insp_state \<Rightarrow> insp_state" where
  "claim_session ctx s st =
     (case s of None \<Rightarrow> st | Some (row, _) \<Rightarrow> st\<lparr>it_routes := take_ownership ctx row (it_routes st)\<rparr>)"

definition inspections_create ::
    "('k, signing_key) cache_ops \<Rightarrow> sign_env \<Rightarrow> date_fns \<Rightarrow> rls_session \<Rightarrow> rls_context option \<Rightarrow> insp_ids \<Rightarrow> create_inspection_dto
     \<Rightarrow> string option \<Rightarrow> string option \<Rightarrow> string option \<Rightarrow> 'k \<Rightarrow> signing_key list \<Rightarrow> insp_state
     \<Rightarrow> (inspection_row \<times> session_row option \<times> id list) result \<times> insp_state" where
  "inspections_create kops env df sess ctx ids dto inspectionToken sessionId routeId kc keys st =
     (case fst (validateInspectionToken kops env (date_now df) (nullish_or inspectionToken []) kc keys) of
        Inl e \<Rightarrow> (Inl e, st)
      | Inr check \<Rightarrow>
          if \<not> tc_isValid check then (Inl (BadRequestException (nullish_or (tc_reason check) ''Invalid tag'')), st)
          else
            (let assetId = ci_assetId dto;
                 session = (if truthy sessionId
                   then bindr (session_with_points sess (the sessionId) assetId (it_routes st)) (\<lambda>sp. Inr (Some sp)) else Inr None);
                 asset = (case find_by as_id assetId (filter (asset_visible sess) (ad_assets (it_assets st))) of
                   None \<Rightarrow> Inl (NotFoundException ''Not Found'') | Some a \<Rightarrow> Inr a)
             in case bindr session (\<lambda>s. bindr asset (\<lambda>a. Inr (s, a))) of
                 Inl e \<Rightarrow> (Inl e, st)
               | Inr (s, a) \<Rightarrow>
                   (let st1 = claim_session ctx s st;
                        point = route_point assetId routeId (case s of None \<Rightarrow> [] | Some (_, ps) \<Rightarrow> ps) (it_routes st1)
                    in case inspection_transaction df sess ids dto sessionId a point st1 of
                        Inl e \<Rightarrow> (Inl e, st1)
                      | Inr (i, s', queued, st2) \<Rightarrow> (Inr (i, s', queued), st2))))"

subsection \<open>Sessions\<close>

record client_settings =
  cs_defaultInspectionCycle :: int

definition included_session :: "rls_session \<Rightarrow> tenant_db \<Rightarrow> id \<Rightarrow> route_db \<Rightarrow> session_row result" where
  \<comment> \<open>\<open>handleGetSession\<close>: the session with its client, last inspector and route\<close>
  "included_session sess tdb i db =
     bindr (find_session sess i db) (\<lambda>s.
       if list_ex (\<lambda>c. cl_id c = ss_clientId s \<and> client_visible sess c) (db_clients tdb)
          \<and> list_ex (\<lambda>p. pe_id p = ss_lastInspectorId s \<and> person_visible tdb sess p) (db_persons tdb)
          \<and> list_ex (\<lambda>r. ir_id r = ss_routeId s \<and> route_visible sess r) (rb_routes db)
       then Inr s else Inl inconsistent)"

definition set_status :: "id \<Rightarrow> session_status \<Rightarrow> route_db \<Rightarrow> route_db" where
  "set_status i status db = db\<lparr>rb_sessions := map (\<lambda>s. if ss_id s = i then s\<lparr>ss_status := status\<rparr> else s) (rb_sessions db)\<rparr>"

definition session_complete :: "route_db \<Rightarrow> session_row \<Rightarrow> bool" where
  "session_complete db s =
     (let completedRoutePointIds = map cp_pointId (filter (\<lambda>c. cp_sessionId c = ss_id s) (rb_completed db))
      in list_all (\<lambda>p. List.member completedRoutePointIds (ip_id p)) (filter (\<lambda>p. ip_routeId p = ss_routeId s) (rb_points db)))"

definition session_assets :: "rls_session \<Rightarrow> route_db \<Rightarrow> asset_row list \<Rightarrow> session_row \<Rightarrow> asset_row list" where
  "session_assets sess db assets s =
     filter (\<lambda>a. asset_visible sess a \<and> as_inspectionCycle a \<noteq> None
         \<and> list_ex (\<lambda>p. ip_assetId p = as_id a
             \<and> list_ex (\<lambda>c. cp_pointId c = ip_id p \<and> cp_sessionId c = ss_id s) (rb_completed db)) (rb_points db)) assets"

definition inspection_date :: "route_db \<Rightarrow> asset_row \<Rightarrow> time option" where
  \<comment> \<open>the first completion of the asset's first point, of whatever session\<close>
  "inspection_date db a =
     Option.bind (at0 (filter (\<lambda>p. ip_assetId p = as_id a) (rb_points db))) (\<lambda>p.
       map_option cp_createdOn (at0 (filter (\<lambda>c. cp_pointId c = ip_id p) (rb_completed db))))"

definition shouldExpire ::
    "(time \<Rightarrow> int \<Rightarrow> time) \<Rightarrow> time \<Rightarrow> client_settings \<Rightarrow> rls_session \<Rightarrow> route_db \<Rightarrow> asset_row list \<Rightarrow> session_row \<Rightarrow> bool" where
  "shouldExpire subDays now settings sess db assets s =
     list_ex (\<lambda>a.
       let inspectionCycle = nullish_or (as_inspectionCycle a) (cs_defaultInspectionCycle settings)
       in case inspection_date db a of None \<Rightarrow> False | Some d \<Rightarrow> d < subDays now inspectionCycle)
       (session_assets sess db assets s)"

definition findInspectionSession ::
    "(time \<Rightarrow> int \<Rightarrow> time) \<Rightarrow> time \<Rightarrow> client_settings \<Rightarrow> rls_session \<Rightarrow> tenant_db \<Rightarrow> asset_row list \<Rightarrow> id \<Rightarrow> route_db
     \<Rightarrow> session_row result \<times> route_db" where
  "findInspectionSession subDays now settings sess tdb assets i db =
     (case as404OrThrow (included_session sess tdb i db) of
        Inl e \<Rightarrow> (Inl e, db)
      | Inr s \<Rightarrow>
          if ss_status s \<noteq> SESSION_PENDING then (Inr s, db)
          else if session_complete db s
          then (let db' = set_status (ss_id s) SESSION_COMPLETE db in (included_session sess tdb (ss_id s) db', db'))
          else if \<not> shouldExpire subDays now settings sess db assets s then (Inr s, db)
          else (let db' = set_status (ss_id s) SESSION_EXPIRED db in (included_session sess tdb (ss_id s) db', db')))"

fun find_all_sessions ::
    "(id \<Rightarrow> route_db \<Rightarrow> session_row result \<times> route_db) \<Rightarrow> id list \<Rightarrow> route_db \<Rightarrow> session_row list result \<times> route_db" where
  \<comment> \<open>a rejected promise of \<open>Promise.all\<close> does not stop the others\<close>
  "find_all_sessions lookup [] db = (Inr [], db)"
| "find_all_sessions lookup (i # is) db =
     (let (r, db') = lookup i db; (rs, db'') = find_all_sessions lookup is db'
      in (bindr r (\<lambda>s. bindr rs (\<lambda>ss. Inr (s # ss))), db''))"

definition findActiveInspectionSessionsForAsset ::
    "(time \<Rightarrow> int \<Rightarrow> time) \<Rightarrow> time \<Rightarrow> client_settings \<Rightarrow> rls_session \<Rightarrow> tenant_db \<Rightarrow> asset_row list \<Rightarrow> id \<Rightarrow> route_db
     \<Rightarrow> session_row list result \<times> route_db" where
  "findActiveInspectionSessionsForAsset subDays now settings sess tdb assets assetId db =
     (let result = filter (\<lambda>s. session_visible sess s
            \<and> list_ex (\<lambda>r. ir_id r = ss_routeId s \<and> route_visible sess r) (rb_routes db)
            \<and> list_ex (\<lambda>p. ip_routeId p = ss_routeId s \<and> ip_assetId p = assetId) (rb_points db)
            \<and> (ss_status s = SESSION_PENDING \<or> ss_status s = SESSION_EXPIRED)) (rb_sessions db);
          (sessions, db') = find_all_sessions (findInspectionSession subDays now settings sess tdb assets) (map ss_id result) db
      in (bindr sessions (\<lambda>ss. Inr (filter (\<lambda>s. ss_status s = SESSION_PENDING \<or> ss_status s = SESSION_EXPIRED) ss)), db'))"

definition cancelInspectionSession :: "rls_session \<Rightarrow> id \<Rightarrow> route_db \<Rightarrow> route_db result" where
  "cancelInspectionSession sess i db =
     bindr (find_session sess i db) (\<lambda>s. Inr (set_status i SESSION_CANCELLED db))"

subsection \<open>Changing an inspection\<close>

definition inspection_updatable :: "rls_session \<Rightarrow> inspection_row \<Rightarrow> bool" where
  \<comment> \<open>the \<open>USING\<close> clause of the update policy\<close>
  "inspection_updatable sess i =
     (case sess of Bypass \<Rightarrow> True
      | Tenant ctx \<Rightarrow> validate_client ctx (is_clientId i) \<and> validate_site ctx (is_siteId i)
          \<and> is_owner ctx (is_inspectorId i) \<and> is_status i \<noteq> INSPECTION_COMPLETE)"

definition inspections_update ::
    "rls_session \<Rightarrow> time \<Rightarrow> id \<Rightarrow> asset_db \<Rightarrow> (inspection_row \<times> asset_db) result" where
  \<comment> \<open>the only update the schema has is the status \<open>COMPLETE\<close>\<close>
  "inspections_update sess now i db =
     as404OrThrow
       (case find_by is_id i (filter (\<lambda>r. inspection_visible sess r \<and> inspection_updatable sess r) (ad_inspections db)) of
          None \<Rightarrow> Inl (ServerError ''P2025'')
        | Some r \<Rightarrow>
            (let r' = r\<lparr>is_status := INSPECTION_COMPLETE, is_modifiedOn := now\<rparr>
             in Inr (r', db\<lparr>ad_inspections := map (\<lambda>x. if is_id x = i then r' else x) (ad_inspections db)\<rparr>)))"

subsection \<open>The life of a session\<close>

fun status_rank :: "session_status \<Rightarrow> nat" where
  "status_rank SESSION_PENDING = 0"
| "status_rank SESSION_COMPLETE = 1"
| "status_rank SESSION_EXPIRED = 1"
| "status_rank SESSION_CANCELLED = 2"

definition same_session :: "session_row \<Rightarrow> session_row \<Rightarrow> bool" where
  \<comment> \<open>the same session later: only its last inspector and its status may differ, and the status only moves on\<close>
  "same_session s t \<longleftrightarrow>
     ss_id t = ss_id s \<and> ss_routeId t = ss_routeId s \<and> ss_createdOn t = ss_createdOn s
     \<and> ss_siteId t = ss_siteId s \<and> ss_clientId t = ss_clientId s
     \<and> (ss_status t = ss_status s \<or> status_rank (ss_status s) < status_rank (ss_status t))"

definition sessions_move_on :: "route_db \<Rightarrow> route_db \<Rightarrow> bool" where
  "sessions_move_on db db' \<longleftrightarrow>
     (\<exists>old new. rb_sessions db' = old @ new \<and> list_all2 same_session (rb_sessions db) old)"

lemma same_session_refl [simp]: "same_session s s"
  by (simp add: same_session_def)

lemma same_session_trans: "same_session s t \<Longrightarrow> same_session t u \<Longrightarrow> same_session s u"
  by (auto simp: same_session_def)

lemma list_all2_same_refl [simp]: "list_all2 same_session xs xs"
  by (simp add: list_all2_refl)

lemma move_on_refl: "rb_sessions db' = rb_sessions db \<Longrightarrow> sessions_move_on db db'"
  unfolding sessions_move_on_def by (intro exI [of _ "rb_sessions db"] exI [of _ "[]"]) simp

lemma move_on_trans: "sessions_move_on a b \<Longrightarrow> sessions_move_on b c \<Longrightarrow> sessions_move_on a c"
proof -
  assume "sessions_move_on a b" "sessions_move_on b c"
  then obtain o1 n1 o2 n2 where b: "rb_sessions b = o1 @ n1" "list_all2 same_session (rb_sessions a) o1"
    and c: "rb_sessions c = o2 @ n2" "list_all2 same_session (o1 @ n1) o2"
    unfolding sessions_move_on_def by metis
  from c(2) obtain p q where "o2 = p @ q" "list_all2 same_session o1 p" by (auto simp: list_all2_append1)
  with b c(1) list_all2_trans [of same_session same_session same_session, OF same_session_trans] show ?thesis
    unfolding sessions_move_on_def by (intro exI [of _ p] exI [of _ "q @ n2"]) auto
qed

lemma move_on_map:
  assumes "\<And>s. s \<in> set (rb_sessions db) \<Longrightarrow> same_session s (f s)"
  shows "sessions_move_on db (db\<lparr>rb_sessions := map f (rb_sessions db)\<rparr>)"
  unfolding sessions_move_on_def
  by (intro exI [of _ "map f (rb_sessions db)"] exI [of _ "[]"]) (simp add: list_all2_conv_all_nth assms)

lemma move_on_ids:
  assumes "sessions_move_on db db'"
  shows "\<exists>new. map ss_id (rb_sessions db') = map ss_id (rb_sessions db) @ new"
proof -
  from assms obtain old new where s: "rb_sessions db' = old @ new" "list_all2 same_session (rb_sessions db) old"
    unfolding sessions_move_on_def by blast
  from s(2) have "map ss_id old = map ss_id (rb_sessions db)" by induction (simp_all add: same_session_def)
  with s(1) show ?thesis by simp
qed

lemma find_session_D:
  assumes "find_session sess i db = Inr s"
  shows "s \<in> set (rb_sessions db)" "ss_id s = i" "session_visible sess s"
  using assms by (auto simp: find_session_def dest: find_by_SomeD split: option.splits)

lemma included_session_D:
  assumes "included_session sess tdb i db = Inr s"
  shows "find_session sess i db = Inr s"
  using assms by (auto simp: included_session_def bindr_Inr_iff split: if_splits)

lemma unique_session:
  assumes "distinct (map ss_id (rb_sessions db))" "s \<in> set (rb_sessions db)" "t \<in> set (rb_sessions db)" "ss_id s = ss_id t"
  shows "s = t"
  using assms by (meson inj_onD distinct_map)

lemma set_status_moves_on:
  assumes "distinct (map ss_id (rb_sessions db))" and "s \<in> set (rb_sessions db)" and "status_rank (ss_status s) < status_rank v"
  shows "sessions_move_on db (set_status (ss_id s) v db)"
  unfolding set_status_def
proof (rule move_on_map)
  fix t assume "t \<in> set (rb_sessions db)"
  then have "ss_id t = ss_id s \<Longrightarrow> t = s" using unique_session [OF assms(1) _ assms(2)] by blast
  then show "same_session t (if ss_id t = ss_id s then t\<lparr>ss_status := v\<rparr> else t)"
    using assms(3) by (auto simp: same_session_def)
qed

lemma cancel_moves_on:
  assumes "distinct (map ss_id (rb_sessions db))" and "cancelInspectionSession sess i db = Inr db'"
  shows "sessions_move_on db db'"
proof -
  from assms(2) obtain s where s: "find_session sess i db = Inr s" and db': "db' = set_status (ss_id s) SESSION_CANCELLED db"
    by (auto simp: cancelInspectionSession_def bindr_Inr_iff dest: find_session_D(2))
  show ?thesis
  proof (cases "ss_status s = SESSION_CANCELLED")
    case True
    have "s\<lparr>ss_status := ss_status s\<rparr> = s" by simp
    with True have "s\<lparr>ss_status := SESSION_CANCELLED\<rparr> = s" by simp
    then have "map (\<lambda>x. if ss_id x = ss_id s then x\<lparr>ss_status := SESSION_CANCELLED\<rparr> else x) (rb_sessions db) = rb_sessions db"
      using unique_session [OF assms(1) _ find_session_D(1) [OF s]] by (intro map_idI) auto
    then have "set_status (ss_id s) SESSION_CANCELLED db = db" by (simp add: set_status_def)
    then show ?thesis by (simp add: db' move_on_refl)
  next
    case False
    then have "status_rank (ss_status s) < status_rank SESSION_CANCELLED" by (cases "ss_status s") simp_all
    with set_status_moves_on [OF assms(1) find_session_D(1) [OF s]] show ?thesis by (simp add: db')
  qed
qed

lemma findInspectionSession_db:
  "snd (findInspectionSession subDays now settings sess tdb assets i db) = db
   \<or> (\<exists>s v. find_session sess i db = Inr s \<and> ss_status s = SESSION_PENDING \<and> (v = SESSION_COMPLETE \<or> v = SESSION_EXPIRED)
        \<and> snd (findInspectionSession subDays now settings sess tdb assets i db) = set_status i v db)"
proof (cases "included_session sess tdb i db")
  case (Inr s)
  from included_session_D [OF Inr] find_session_D(2) [OF included_session_D [OF Inr]] show ?thesis
    by (auto simp: findInspectionSession_def Inr as404OrThrow_def Let_def)
qed (simp add: findInspectionSession_def as404OrThrow_def)

lemma find_moves_on:
  assumes "distinct (map ss_id (rb_sessions db))"
  shows "sessions_move_on db (snd (findInspectionSession subDays now settings sess tdb assets i db))"
proof (cases "snd (findInspectionSession subDays now settings sess tdb assets i db) = db")
  case False
  then obtain s v where s: "find_session sess i db = Inr s" and v: "ss_status s = SESSION_PENDING" "v = SESSION_COMPLETE \<or> v = SESSION_EXPIRED"
    and e: "snd (findInspectionSession subDays now settings sess tdb assets i db) = set_status i v db"
    using findInspectionSession_db [of subDays now settings sess tdb assets i db] by blast
  from v have "status_rank (ss_status s) < status_rank v" by auto
  from set_status_moves_on [OF assms find_session_D(1) [OF s] this] find_session_D(2) [OF s] show ?thesis unfolding e by simp
qed (simp add: move_on_refl)

lemma move_on_distinct:
  assumes "sessions_move_on db db'" and "length (rb_sessions db') = length (rb_sessions db)" and "distinct (map ss_id (rb_sessions db))"
  shows "distinct (map ss_id (rb_sessions db'))"
proof -
  from move_on_ids [OF assms(1)] obtain new where n: "map ss_id (rb_sessions db') = map ss_id (rb_sessions db) @ new" by blast
  from arg_cong [OF n, of length] assms(2) have "new = []" by simp
  with n assms(3) show ?thesis by simp
qed

lemma find_length: "length (rb_sessions (snd (findInspectionSession subDays now settings sess tdb assets i db))) = length (rb_sessions db)"
  using findInspectionSession_db [of subDays now settings sess tdb assets i db] by (auto simp: set_status_def)

lemma find_all_moves_on:
  assumes "distinct (map ss_id (rb_sessions db))"
  shows "sessions_move_on db (snd (find_all_sessions (findInspectionSession subDays now settings sess tdb assets) is db))
     \<and> length (rb_sessions (snd (find_all_sessions (findInspectionSession subDays now settings sess tdb assets) is db))) = length (rb_sessions db)"
  using assms
proof (induction "is" arbitrary: db)
  case (Cons i "is")
  let ?db = "snd (findInspectionSession subDays now settings sess tdb assets i db)"
  have 1: "sessions_move_on db ?db" by (rule find_moves_on [OF Cons.prems])
  have d: "distinct (map ss_id (rb_sessions ?db))" by (rule move_on_distinct [OF 1 find_length Cons.prems])
  have "snd (find_all_sessions (findInspectionSession subDays now settings sess tdb assets) (i # is) db)
      = snd (find_all_sessions (findInspectionSession subDays now settings sess tdb assets) is ?db)"
    by (simp add: case_prod_beta)
  with Cons.IH [OF d] move_on_trans [OF 1] find_length show ?case by metis
qed (simp add: move_on_refl)

lemma findActive_moves_on:
  assumes "distinct (map ss_id (rb_sessions db))"
  shows "sessions_move_on db (snd (findActiveInspectionSessionsForAsset subDays now settings sess tdb assets a db))"
    and "length (rb_sessions (snd (findActiveInspectionSessionsForAsset subDays now settings sess tdb assets a db))) = length (rb_sessions db)"
  using find_all_moves_on [OF assms] unfolding findActiveInspectionSessionsForAsset_def Let_def by (auto simp: case_prod_beta)

lemma take_ownership_moves_on: "sessions_move_on db (take_ownership ctx s db)"
  unfolding take_ownership_def
  by (cases ctx) (auto simp: same_session_def intro!: move_on_refl move_on_map)

definition grown :: "id \<Rightarrow> route_db \<Rightarrow> route_db \<Rightarrow> bool" where
  \<comment> \<open>at most one new session, with that identifier, and the others moved on\<close>
  "grown i db db' \<longleftrightarrow>
     (\<exists>old new. rb_sessions db' = old @ new \<and> list_all2 same_session (rb_sessions db) old \<and> map ss_id new \<in> {[], [i]})"

lemma grown_moves_on: "grown i db db' \<Longrightarrow> sessions_move_on db db'"
  by (auto simp: grown_def sessions_move_on_def)

lemma grown_refl: "rb_sessions db' = rb_sessions db \<Longrightarrow> grown i db db'"
  unfolding grown_def by (intro exI [of _ "rb_sessions db"] exI [of _ "[]"]) simp

lemma grown_new: "rb_sessions db' = rb_sessions db @ [s] \<Longrightarrow> ss_id s = i \<Longrightarrow> grown i db db'"
  unfolding grown_def by (intro exI [of _ "rb_sessions db"] exI [of _ "[s]"]) simp

lemma grown_distinct:
  assumes "grown i db db'" and "distinct (map ss_id (rb_sessions db))" and "i \<notin> ss_id ` set (rb_sessions db)"
  shows "distinct (map ss_id (rb_sessions db'))"
proof -
  obtain old new where s: "rb_sessions db' = old @ new" "list_all2 same_session (rb_sessions db) old" "map ss_id new \<in> {[], [i]}"
    using assms(1) unfolding grown_def by (elim exE conjE) (rule that)
  from s(2) have "map ss_id old = map ss_id (rb_sessions db)" by induction (simp_all add: same_session_def)
  with s(1) have m: "map ss_id (rb_sessions db') = map ss_id (rb_sessions db) @ map ss_id new" by simp
  from s(3) consider "map ss_id new = []" | "map ss_id new = [i]" by blast
  then show ?thesis unfolding m using assms(2,3) by cases simp_all
qed

lemma complete_point_grown:
  assumes "complete_point sess ctx ids now sid i p db = Inr (s, db')"
  shows "grown (ni_session ids) db db'"
proof (cases "truthy sid")
  case True
  with assms have "rb_sessions db' = rb_sessions db" by (auto simp: complete_point_def Let_def bindr_Inr_iff)
  then show ?thesis by (rule grown_refl)
next
  case False
  with assms have "rb_sessions db' = rb_sessions db @ [s]" "ss_id s = ni_session ids"
    by (auto simp: complete_point_def Let_def bindr_Inr_iff)
  then show ?thesis by (rule grown_new)
qed

lemma transaction_grown:
  assumes "inspection_transaction df sess ids dto sid a point st = Inr (i, s, q, st')"
  shows "grown (ni_session ids) (it_routes st) (it_routes st')"
proof -
  obtain ctx where sess: "sess = Tenant ctx" using assms by (auto simp: inspection_transaction_def split: rls_session.splits)
  show ?thesis
  proof (cases point)
    case None
    with assms have "it_routes st' = it_routes st"
      by (auto simp: inspection_transaction_def sess Let_def bindr_Inr_iff split: if_splits)
    then show ?thesis by (simp add: grown_refl)
  next
    case (Some p)
    with assms obtain s' where "complete_point sess ctx ids (date_now df) sid (ni_inspection ids) p (it_routes st) = Inr (s', it_routes st')"
      by (auto simp: inspection_transaction_def sess Let_def bindr_Inr_iff split: if_splits)
    then show ?thesis by (rule complete_point_grown)
  qed
qed

lemma create_cases:
  obtains (early) e where "inspections_create kops env df sess ctx ids dto tok sid rid kc keys st = (Inl e, st)"
  | (run) check s a where "fst (validateInspectionToken kops env (date_now df) (nullish_or tok []) kc keys) = Inr check"
      and "tc_isValid check" and "find_by as_id (ci_assetId dto) (filter (asset_visible sess) (ad_assets (it_assets st))) = Some a"
      and "s = None \<and> \<not> truthy sid \<or> (\<exists>sp. s = Some sp \<and> truthy sid \<and> session_with_points sess (the sid) (ci_assetId dto) (it_routes st) = Inr sp)"
      and "inspections_create kops env df sess ctx ids dto tok sid rid kc keys st =
        (case inspection_transaction df sess ids dto sid a
            (route_point (ci_assetId dto) rid (case s of None \<Rightarrow> [] | Some (_, ps) \<Rightarrow> ps) (it_routes (claim_session ctx s st))) (claim_session ctx s st) of
           Inl e \<Rightarrow> (Inl e, claim_session ctx s st) | Inr (i, s', q, st2) \<Rightarrow> (Inr (i, s', q), st2))"
proof -
  let ?v = "fst (validateInspectionToken kops env (date_now df) (nullish_or tok []) kc keys)"
  let ?f = "find_by as_id (ci_assetId dto) (filter (asset_visible sess) (ad_assets (it_assets st)))"
  let ?s = "if truthy sid then bindr (session_with_points sess (the sid) (ci_assetId dto) (it_routes st)) (\<lambda>sp. Inr (Some sp)) else Inr None"
  show thesis
  proof (cases "\<exists>check s a. ?v = Inr check \<and> tc_isValid check \<and> ?s = Inr s \<and> ?f = Some a")
    case True
    then obtain check s a where h: "?v = Inr check" "tc_isValid check" "?s = Inr s" "?f = Some a" by blast
    have "s = None \<and> \<not> truthy sid \<or> (\<exists>sp. s = Some sp \<and> truthy sid \<and> session_with_points sess (the sid) (ci_assetId dto) (it_routes st) = Inr sp)"
      using h(3) by (auto simp: bindr_Inr_iff split: if_splits)
    then show thesis by (rule run [OF h(1,2,4)]) (simp add: inspections_create_def h Let_def)
  next
    case False
    then have "\<exists>e. inspections_create kops env df sess ctx ids dto tok sid rid kc keys st = (Inl e, st)"
      by (cases ?v; cases ?s; cases ?f) (auto simp: inspections_create_def Let_def)
    then show thesis using early by blast
  qed
qed

lemma claim_assets [simp]: "it_assets (claim_session ctx s st) = it_assets st"
  by (simp add: claim_session_def split: option.split prod.split)

lemma claim_moves_on: "sessions_move_on (it_routes st) (it_routes (claim_session ctx s st))"
  using take_ownership_moves_on by (auto simp: claim_session_def move_on_refl split: option.split)

lemma take_ownership_ids: "map ss_id (rb_sessions (take_ownership ctx s db)) = map ss_id (rb_sessions db)"
  by (auto simp: take_ownership_def split: option.split)

lemma claim_ids: "map ss_id (rb_sessions (it_routes (claim_session ctx s st))) = map ss_id (rb_sessions (it_routes st))"
  by (auto simp: claim_session_def take_ownership_ids split: option.split)

lemma create_keeps:
  assumes "distinct (map ss_id (rb_sessions (it_routes st)))" and "ni_session ids \<notin> ss_id ` set (rb_sessions (it_routes st))"
    and st'_def: "st' = snd (inspections_create kops env df sess ctx ids dto tok sid rid kc keys st)"
  shows "sessions_move_on (it_routes st) (it_routes st') \<and> distinct (map ss_id (rb_sessions (it_routes st')))"
proof (cases rule: create_cases [of kops env df sess ctx ids dto tok sid rid kc keys st])
  case (early e)
  then show ?thesis using assms(1) by (simp add: st'_def move_on_refl)
next
  case (run check s a)
  let ?st1 = "claim_session ctx s st"
  have d: "distinct (map ss_id (rb_sessions (it_routes ?st1)))" "ni_session ids \<notin> ss_id ` set (rb_sessions (it_routes ?st1))"
    using assms(1,2) unfolding claim_ids set_map [symmetric] by blast+
  show ?thesis
  proof (cases "inspection_transaction df sess ids dto sid a
            (route_point (ci_assetId dto) rid (case s of None \<Rightarrow> [] | Some (_, ps) \<Rightarrow> ps) (it_routes ?st1)) ?st1")
    case (Inl e)
    with run(5) have "st' = ?st1" by (simp add: st'_def)
    with d(1) claim_moves_on show ?thesis by simp
  next
    case (Inr r)
    obtain i s' q st2 where r: "r = (i, s', q, st2)" by (cases r)
    with run(5) Inr have e: "st' = st2" by (simp add: st'_def)
    have "grown (ni_session ids) (it_routes ?st1) (it_routes st2)" by (rule transaction_grown [OF Inr [unfolded r]])
    then show ?thesis
      using move_on_trans [OF claim_moves_on grown_moves_on] grown_distinct d unfolding e by blast
  qed
qed

text \<open>Everything the service does to sessions, in any order.\<close>

inductive insp_step :: "insp_state \<Rightarrow> insp_state \<Rightarrow> bool" where
  create: "ni_session ids \<notin> ss_id ` set (rb_sessions (it_routes st)) \<Longrightarrow>
     insp_step st (snd (inspections_create (kops :: ((string \<Rightarrow> signing_key option), signing_key) cache_ops) env df sess ctx ids dto tok sid rid kc keys st))"
| find_one: "insp_step st (st\<lparr>it_routes := snd (findInspectionSession subDays now settings sess tdb (ad_assets (it_assets st)) i (it_routes st))\<rparr>)"
| find_active: "insp_step st (st\<lparr>it_routes := snd (findActiveInspectionSessionsForAsset subDays now settings sess tdb (ad_assets (it_assets st)) a (it_routes st))\<rparr>)"
| cancel: "cancelInspectionSession sess i (it_routes st) = Inr db' \<Longrightarrow> insp_step st (st\<lparr>it_routes := db'\<rparr>)"

lemma step_keeps:
  assumes "insp_step st st'" and d: "distinct (map ss_id (rb_sessions (it_routes st)))"
  shows "sessions_move_on (it_routes st) (it_routes st') \<and> distinct (map ss_id (rb_sessions (it_routes st')))"
  using assms(1)
proof cases
  case (create ids kops env df sess ctx dto tok sid rid kc keys)
  with create_keeps [OF d create(2) refl] show ?thesis by simp
next
  case (find_one subDays now settings sess tdb i)
  with find_moves_on [OF d] move_on_distinct [OF find_moves_on [OF d] find_length d] show ?thesis by simp
next
  case (find_active subDays now settings sess tdb a)
  with findActive_moves_on [OF d] move_on_distinct [OF findActive_moves_on [OF d] d] show ?thesis by simp
next
  case (cancel sess i db')
  have "length (rb_sessions db') = length (rb_sessions (it_routes st))"
    using cancel(2) by (auto simp: cancelInspectionSession_def bindr_Inr_iff set_status_def)
  with cancel cancel_moves_on [OF d cancel(2)] move_on_distinct [OF cancel_moves_on [OF d cancel(2)] _ d] show ?thesis by simp
qed

text \<open>
  C12: a session never goes back. Whatever inspections are recorded, sessions are looked up or
  cancelled, in any order and by any users, a session keeps its identity, route, site and client, and
  its status is the one it had or a later one in the order pending, then complete or expired, then
  cancelled: a finished or cancelled session never becomes pending again, a complete one never
  expires, and a cancelled one stays cancelled.
\<close>

theorem sessions_never_go_back:
  assumes "insp_step\<^sup>*\<^sup>* st st'" and "distinct (map ss_id (rb_sessions (it_routes st)))" and "s \<in> set (rb_sessions (it_routes st))"
  shows "\<exists>t\<in>set (rb_sessions (it_routes st')). same_session s t"
proof -
  have "sessions_move_on (it_routes st) (it_routes st') \<and> distinct (map ss_id (rb_sessions (it_routes st')))"
    using assms(1)
  proof induction
    case (step y z)
    with step_keeps [OF step(2)] show ?case by (blast intro: move_on_trans)
  qed (simp add: assms(2) move_on_refl)
  then obtain old new where "rb_sessions (it_routes st') = old @ new" "list_all2 same_session (rb_sessions (it_routes st)) old"
    unfolding sessions_move_on_def by blast
  moreover from assms(3) obtain k where "k < length (rb_sessions (it_routes st))" "s = rb_sessions (it_routes st) ! k"
    by (auto simp: in_set_conv_nth)
  ultimately have "same_session s (old ! k)" "old ! k \<in> set (rb_sessions (it_routes st'))"
    by (auto simp: list_all2_conv_all_nth)
  then show ?thesis by blast
qed

definition ex_session :: "id \<Rightarrow> session_row" where
  "ex_session i = \<lparr>ss_id = i, ss_createdOn = 0, ss_status = SESSION_PENDING, ss_routeId = ''r1'', ss_lastInspectorId = ''u1'',
     ss_siteId = ''s1'', ss_clientId = ''c1''\<rparr>"

definition ex_routes :: route_db where
  "ex_routes = \<lparr>rb_routes = [\<lparr>ir_id = ''r1'', ir_name = ''R'', ir_description = None, ir_siteId = ''s1'', ir_clientId = ''c1''\<rparr>,
       \<lparr>ir_id = ''r2'', ir_name = ''R2'', ir_description = None, ir_siteId = ''s1'', ir_clientId = ''c1''\<rparr>],
     rb_points = [\<lparr>ip_id = ''p1'', ip_order = 0, ip_routeId = ''r1'', ip_assetId = ''a1''\<rparr>,
       \<lparr>ip_id = ''p2'', ip_order = 1, ip_routeId = ''r1'', ip_assetId = ''a2''\<rparr>,
       \<lparr>ip_id = ''p3'', ip_order = 0, ip_routeId = ''r2'', ip_assetId = ''a3''\<rparr>],
     rb_sessions = [ex_session ''x1''], rb_completed = []\<rparr>"

definition ex_insp_tdb :: tenant_db where
  "ex_insp_tdb = \<lparr>db_clients = [\<lparr>cl_id = ''c1'', cl_externalId = ''e'', cl_name = ''C'', cl_status = ACTIVE\<rparr>], db_sites = [], db_roles = [],
      db_persons = [\<lparr>pe_id = ''u1'', pe_firstName = [], pe_lastName = [], pe_email = [], pe_username = None, pe_idpId = None,
        pe_phoneNumber = None, pe_position = None, pe_active = True\<rparr>], db_accesses = [], db_invitations = []\<rparr>"

definition ex_completed :: "id \<Rightarrow> time \<Rightarrow> id \<Rightarrow> id \<Rightarrow> completed_row" where
  "ex_completed i t s p = \<lparr>cp_id = i, cp_createdOn = t, cp_sessionId = s, cp_pointId = p, cp_inspectionId = ''i'' @ i\<rparr>"

theorem sessions_never_go_back_witness:
  "\<exists>st'. insp_step\<^sup>*\<^sup>* \<lparr>it_assets = ex_asset_db, it_routes = ex_routes\<rparr> st'
     \<and> (\<exists>t\<in>set (rb_sessions (it_routes st')). same_session (ex_session ''x1'') t \<and> ss_status t = SESSION_CANCELLED)"
proof -
  let ?st = "\<lparr>it_assets = ex_asset_db, it_routes = ex_routes\<rparr>"
  have c: "cancelInspectionSession Bypass ''x1'' ex_routes = Inr (set_status ''x1'' SESSION_CANCELLED ex_routes)" by code_simp
  have "insp_step ?st (?st\<lparr>it_routes := set_status ''x1'' SESSION_CANCELLED ex_routes\<rparr>)" by (rule insp_step.cancel [where sess = Bypass and i = "''x1''"]) (simp add: c)
  then have r: "insp_step\<^sup>*\<^sup>* ?st \<lparr>it_assets = ex_asset_db, it_routes = set_status ''x1'' SESSION_CANCELLED ex_routes\<rparr>" by simp
  have d: "distinct (map ss_id (rb_sessions (it_routes ?st)))" "ex_session ''x1'' \<in> set (rb_sessions (it_routes ?st))"
    by (simp_all add: ex_routes_def)
  have "t \<in> set (rb_sessions (set_status ''x1'' SESSION_CANCELLED ex_routes)) \<longrightarrow> ss_status t = SESSION_CANCELLED" for t
    by (simp add: set_status_def ex_routes_def ex_session_def)
  with sessions_never_go_back [OF r d] r show ?thesis by (intro exI conjI) auto
qed

subsection \<open>Looking a session up\<close>

lemma set_status_find:
  assumes "find_by ss_id i (filter (session_visible sess) (rb_sessions db)) = Some s"
  shows "find_by ss_id i (filter (session_visible sess) (rb_sessions (set_status i v db))) = Some (s\<lparr>ss_status := v\<rparr>)"
proof -
  have v: "session_visible sess (t\<lparr>ss_status := v\<rparr>) = session_visible sess t" for t :: session_row
    by (simp add: session_visible_def split: rls_session.split)
  have f: "filter (session_visible sess) (rb_sessions (set_status i v db))
      = map (\<lambda>t. if ss_id t = i then t\<lparr>ss_status := v\<rparr> else t) (filter (session_visible sess) (rb_sessions db))"
    unfolding set_status_def by (induction "rb_sessions db") (simp_all add: v filter_map comp_def if_distrib cong: if_cong)
  have "find_by ss_id i (map (\<lambda>t. if ss_id t = i then t\<lparr>ss_status := v\<rparr> else t) (filter (session_visible sess) (rb_sessions db)))
      = Some (if ss_id s = i then s\<lparr>ss_status := v\<rparr> else s)"
    by (rule find_by_map_same [OF assms]) simp
  with find_by_SomeD [OF assms] show ?thesis unfolding f by simp
qed

lemma included_after_status:
  assumes "included_session sess tdb i db = Inr s"
  shows "included_session sess tdb i (set_status i v db) = Inr (s\<lparr>ss_status := v\<rparr>)"
proof -
  have "find_by ss_id i (filter (session_visible sess) (rb_sessions db)) = Some s"
    using included_session_D [OF assms] by (auto simp: find_session_def split: option.splits)
  from set_status_find [OF this] assms show ?thesis
    by (auto simp: included_session_def find_session_def bindr_Inr_iff set_status_def split: option.splits if_splits)
qed

text \<open>
  What a look-up of a session answers and stores. A session that is not pending is returned as it
  is; a pending one is returned complete when every point of its route has a completion in it, expired
  when it is not complete and one of its assets' dates is too old, and pending otherwise. The stored
  row gets exactly the returned status, and nothing else in the tables changes.
\<close>

theorem findInspectionSession_correct:
  assumes "included_session sess tdb i db = Inr s"
  shows "let v = (if ss_status s \<noteq> SESSION_PENDING then ss_status s
                  else if \<forall>p\<in>set (rb_points db). ip_routeId p = ss_routeId s
                          \<longrightarrow> (\<exists>c\<in>set (rb_completed db). cp_sessionId c = i \<and> cp_pointId c = ip_id p) then SESSION_COMPLETE
                  else if shouldExpire subDays now settings sess db assets s then SESSION_EXPIRED else SESSION_PENDING)
     in findInspectionSession subDays now settings sess tdb assets i db
        = (Inr (s\<lparr>ss_status := v\<rparr>), if v = ss_status s then db else set_status i v db)"
proof -
  have i: "ss_id s = i" using find_session_D(2) [OF included_session_D [OF assms]] .
  have c: "session_complete db s \<longleftrightarrow> (\<forall>p\<in>set (rb_points db). ip_routeId p = ss_routeId s
                          \<longrightarrow> (\<exists>c\<in>set (rb_completed db). cp_sessionId c = i \<and> cp_pointId c = ip_id p))"
    by (simp add: session_complete_def list_all_iff Let_def i image_iff) metis
  have same: "s\<lparr>ss_status := ss_status s\<rparr> = s" by simp
  show ?thesis
    unfolding Let_def c [symmetric]
    using same included_after_status [OF assms]
    by (auto simp: findInspectionSession_def assms as404OrThrow_def i Let_def)
qed

theorem findInspectionSession_correct_witness:
  "fst (findInspectionSession (\<lambda>t n. t - n) 5 \<lparr>cs_defaultInspectionCycle = 3\<rparr> Bypass
     ex_insp_tdb
     [] ''x1'' (ex_routes\<lparr>rb_completed := [ex_completed ''k1'' 1 ''x1'' ''p1'', ex_completed ''k2'' 2 ''x1'' ''p2'']\<rparr>))
   = Inr ((ex_session ''x1'')\<lparr>ss_status := SESSION_COMPLETE\<rparr>)"
proof -
  let ?db = "ex_routes\<lparr>rb_completed := [ex_completed ''k1'' 1 ''x1'' ''p1'', ex_completed ''k2'' 2 ''x1'' ''p2'']\<rparr>"
  have i: "included_session Bypass ex_insp_tdb ''x1'' ?db = Inr (ex_session ''x1'')" by code_simp
  have c: "\<forall>p\<in>set (rb_points ?db). ip_routeId p = ss_routeId (ex_session ''x1'')
      \<longrightarrow> (\<exists>c\<in>set (rb_completed ?db). cp_sessionId c = ''x1'' \<and> cp_pointId c = ip_id p)"
    by (simp add: ex_routes_def ex_session_def ex_completed_def)
  have p: "ss_status (ex_session ''x1'') = SESSION_PENDING" by (simp add: ex_session_def)
  show ?thesis
    using findInspectionSession_correct [OF i, of "\<lambda>t n. t - n" 5 "\<lparr>cs_defaultInspectionCycle = 3\<rparr>" "[]"]
    unfolding Let_def p if_P [OF c] by simp
qed

text \<open>
  A session is expired by completions of other sessions. The date compared is the first completion
  of the asset's first route point, in whatever session, so as soon as an asset with an inspection
  cycle was inspected once before, long ago, the next session of the route expires on its first
  look-up although every inspection in it is recent.
\<close>

theorem old_session_expires_new:
  assumes "included_session sess tdb i db = Inr s" and "ss_status s = SESSION_PENDING" and "\<not> session_complete db s"
    and "a \<in> set assets" and "asset_visible sess a" and "as_inspectionCycle a = Some cycle"
    and "filter (\<lambda>p. ip_assetId p = as_id a) (rb_points db) = [p]"
    and "filter (\<lambda>c. cp_pointId c = ip_id p) (rb_completed db) = [old, recent]"
    and "cp_sessionId old \<noteq> i" and "cp_sessionId recent = i" and "cp_createdOn old < subDays now cycle"
  shows "fst (findInspectionSession subDays now settings sess tdb assets i db) = Inr (s\<lparr>ss_status := SESSION_EXPIRED\<rparr>)"
proof -
  have i: "ss_id s = i" using find_session_D(2) [OF included_session_D [OF assms(1)]] .
  have p: "p \<in> set (rb_points db)" "ip_assetId p = as_id a" using arg_cong [OF assms(7), of set] by auto
  have r: "recent \<in> set (rb_completed db)" "cp_pointId recent = ip_id p" using arg_cong [OF assms(8), of set] by auto
  have "a \<in> set (session_assets sess db assets s)"
    using assms(4-6,10) p r i by (auto simp: session_assets_def list_ex_iff)
  moreover have "inspection_date db a = Some (cp_createdOn old)" by (simp add: inspection_date_def assms(7,8))
  ultimately have "shouldExpire subDays now settings sess db assets s"
    using assms(6,11) by (auto simp: shouldExpire_def list_ex_iff intro!: bexI [of _ a])
  with assms(1-3) included_after_status [OF assms(1)] i show ?thesis
    by (simp add: findInspectionSession_def as404OrThrow_def Let_def)
qed

theorem old_session_expires_new_witness:
  "fst (findInspectionSession (\<lambda>t n. t - n) 50 \<lparr>cs_defaultInspectionCycle = 3\<rparr> Bypass ex_insp_tdb
     [ex_answer_asset\<lparr>as_inspectionCycle := Some 30\<rparr>] ''x1'' (ex_routes\<lparr>rb_completed := [ex_completed ''k1'' 1 ''x0'' ''p1'', ex_completed ''k2'' 49 ''x1'' ''p1'']\<rparr>))
   = Inr ((ex_session ''x1'')\<lparr>ss_status := SESSION_EXPIRED\<rparr>)"
proof -
  let ?db = "ex_routes\<lparr>rb_completed := [ex_completed ''k1'' 1 ''x0'' ''p1'', ex_completed ''k2'' 49 ''x1'' ''p1'']\<rparr>"
  let ?a = "ex_answer_asset\<lparr>as_inspectionCycle := Some 30\<rparr>"
  have i: "included_session Bypass ex_insp_tdb ''x1'' ?db = Inr (ex_session ''x1'')" by code_simp
  have p: "ss_status (ex_session ''x1'') = SESSION_PENDING" by (simp add: ex_session_def)
  have c: "\<not> session_complete ?db (ex_session ''x1'')" by code_simp
  show ?thesis
    by (rule old_session_expires_new [OF i p c, where a = ?a and cycle = 30
          and p = "\<lparr>ip_id = ''p1'', ip_order = 0, ip_routeId = ''r1'', ip_assetId = ''a1''\<rparr>"
          and old = "ex_completed ''k1'' 1 ''x0'' ''p1''" and recent = "ex_completed ''k2'' 49 ''x1'' ''p1''"])
      (simp_all add: asset_visible_def ex_routes_def ex_answer_asset_def ex_completed_def)
qed

subsection \<open>Recording an inspection\<close>

lemma create_responses_frame:
  assumes "create_responses sess newId a n answers db = Inr db'"
  shows "ad_inspections db' = ad_inspections db" "ad_alerts db' = ad_alerts db"
  using assms by (auto simp: create_responses_def split: if_splits rls_session.splits)

lemma handleAlert_frame:
  assumes "handleAlertTriggers df sess newId skip inspection responses db = Inr (queued, db')"
  shows "ad_inspections db' = ad_inspections db" "ad_assets db' = ad_assets db"
  using assms by (auto simp: handleAlertTriggers_def bindr_Inr_iff Let_def split: if_splits)

lemma handleSetMetadata_frame: "ad_inspections (handleSetMetadataFromConfigs a rs db) = ad_inspections db"
  by (simp add: handleSetMetadataFromConfigs_def Let_def)

lemma transaction_result:
  assumes "inspection_transaction df sess ids dto sid a point st = Inr (i, s, q, st')"
  shows "\<exists>ctx. sess = Tenant ctx \<and> is_id i = ni_inspection ids \<and> is_assetId i = ci_assetId dto \<and> is_inspectorId i = rls_personId ctx
     \<and> is_status i = ci_status dto \<and> is_siteId i = as_siteId a \<and> is_clientId i = rls_clientId ctx
     \<and> ad_inspections (it_assets st') = ad_inspections (it_assets st) @ [i]
     \<and> (case point of None \<Rightarrow> s = None \<and> it_routes st' = it_routes st
        | Some p \<Rightarrow> \<exists>r. s = Some r \<and> complete_point sess ctx ids (date_now df) sid (is_id i) p (it_routes st) = Inr (r, it_routes st'))"
proof -
  obtain ctx where sess: "sess = Tenant ctx" using assms by (auto simp: inspection_transaction_def split: rls_session.splits)
  from assms show ?thesis
    unfolding inspection_transaction_def sess Let_def
    by (auto simp: bindr_Inr_iff handleSetMetadata_frame dest!: create_responses_frame(1) handleAlert_frame(1)
        split: if_splits option.splits)
qed

lemma complete_point_row:
  assumes "complete_point sess ctx ids now sid i p db = Inr (s, db')"
  shows "rb_completed db' = rb_completed db @ [\<lparr>cp_id = ni_completed ids, cp_createdOn = now, cp_sessionId = ss_id s, cp_pointId = ip_id p, cp_inspectionId = i\<rparr>]"
    and "s \<in> set (rb_sessions db')" and "rb_points db' = rb_points db"
  using assms by (auto simp: complete_point_def Let_def bindr_Inr_iff dest: find_session_D split: if_splits)

lemma route_point_asset:
  assumes "route_point assetId rid ps db = Some p" and "\<forall>p\<in>set ps. p \<in> set (rb_points db)"
  shows "ip_assetId p = assetId \<and> p \<in> set (rb_points db)"
  using assms by (auto simp: route_point_def dest!: find_SomeD split: option.splits if_splits)

lemma session_points_sub:
  "session_with_points sess i a db = Inr (s, ps) \<Longrightarrow> \<forall>p\<in>set ps. p \<in> set (rb_points db)"
  by (auto simp: session_with_points_def bindr_Inr_iff split: option.splits)

lemma claim_routes: "rb_points (it_routes (claim_session ctx s st)) = rb_points (it_routes st)"
    "rb_completed (it_routes (claim_session ctx s st)) = rb_completed (it_routes st)"
    "rb_routes (it_routes (claim_session ctx s st)) = rb_routes (it_routes st)"
  by (auto simp: claim_session_def take_ownership_def split: option.split)

lemma run_points:
  assumes "s = None \<and> \<not> truthy sid \<or> (\<exists>sp. s = Some sp \<and> truthy sid \<and> session_with_points sess (the sid) a (it_routes st) = Inr sp)"
  shows "\<forall>p\<in>set (case s of None \<Rightarrow> [] | Some (_, ps) \<Rightarrow> ps). p \<in> set (rb_points (it_routes (claim_session ctx s st)))"
  using assms session_points_sub unfolding claim_routes by fastforce

definition completed_by :: "id \<Rightarrow> id \<Rightarrow> insp_state \<Rightarrow> session_row option \<Rightarrow> insp_state \<Rightarrow> bool" where
  \<comment> \<open>the completion that an inspection of an asset adds, in the session it reports\<close>
  "completed_by assetId inspectionId st s st' \<longleftrightarrow>
     (case s of None \<Rightarrow> rb_completed (it_routes st') = rb_completed (it_routes st)
      | Some row \<Rightarrow> row \<in> set (rb_sessions (it_routes st'))
          \<and> (\<exists>p\<in>set (rb_points (it_routes st)). \<exists>k t. ip_assetId p = assetId
               \<and> rb_completed (it_routes st') = rb_completed (it_routes st) @
                 [\<lparr>cp_id = k, cp_createdOn = t, cp_sessionId = ss_id row, cp_pointId = ip_id p, cp_inspectionId = inspectionId\<rparr>]))"

lemma completion:
  assumes "\<And>p. point = Some p \<Longrightarrow> ip_assetId p = assetId \<and> p \<in> set (rb_points (it_routes st))"
    and "case point of None \<Rightarrow> s = None \<and> it_routes st2 = it_routes (claim_session ctx sp st)
        | Some p \<Rightarrow> \<exists>r. s = Some r \<and> complete_point sess c ids now sid i p (it_routes (claim_session ctx sp st)) = Inr (r, it_routes st2)"
  shows "completed_by assetId i st s st2"
proof (cases point)
  case None
  with assms(2) show ?thesis by (simp add: completed_by_def claim_routes)
next
  case (Some p)
  with assms(2) obtain row where s: "s = Some row"
    and c: "complete_point sess c ids now sid i p (it_routes (claim_session ctx sp st)) = Inr (row, it_routes st2)" by auto
  show ?thesis unfolding completed_by_def s option.case complete_point_row(1) [OF c] claim_routes
    using complete_point_row(2) [OF c] assms(1) [OF Some] by blast
qed

text \<open>
  C11: what a recorded inspection is. When the request succeeds, the token passed the signature and
  expiry checks; one inspection was added, of an asset the caller sees, under the site of that asset,
  the caller's client and the caller as inspector; and at most one route point was completed by it, a
  point of that same asset, in the session that is reported. When it fails, no inspection, answer,
  alert or completion is stored, whatever step failed.
\<close>

theorem inspections_create_correct:
  assumes "inspections_create kops env df sess ctx ids dto tok sid rid kc keys st = (r, st')"
  shows "case r of
     Inl e \<Rightarrow> it_assets st' = it_assets st \<and> rb_completed (it_routes st') = rb_completed (it_routes st)
   | Inr (i, s, q) \<Rightarrow>
       (\<exists>check c a. fst (validateInspectionToken kops env (date_now df) (nullish_or tok []) kc keys) = Inr check \<and> tc_isValid check
         \<and> sess = Tenant c \<and> a \<in> set (ad_assets (it_assets st)) \<and> as_id a = ci_assetId dto \<and> asset_visible sess a
         \<and> is_assetId i = as_id a \<and> is_siteId i = as_siteId a \<and> is_clientId i = rls_clientId c \<and> is_inspectorId i = rls_personId c
         \<and> ad_inspections (it_assets st') = ad_inspections (it_assets st) @ [i]
         \<and> completed_by (as_id a) (is_id i) st s st')"
proof (cases rule: create_cases [of kops env df sess ctx ids dto tok sid rid kc keys st])
  case (early e)
  with assms have "r = Inl e" "st' = st" by simp_all
  then show ?thesis by simp
next
  case (run check sp a)
  let ?st1 = "claim_session ctx sp st"
  let ?p = "route_point (ci_assetId dto) rid (case sp of None \<Rightarrow> [] | Some (_, ps) \<Rightarrow> ps) (it_routes ?st1)"
  show ?thesis
  proof (cases "inspection_transaction df sess ids dto sid a ?p ?st1")
    case (Inl e)
    with run(5) assms have "r = Inl e" "st' = ?st1" by simp_all
    then show ?thesis by (simp add: claim_routes)
  next
    case (Inr x)
    obtain i s q st2 where x: "x = (i, s, q, st2)" by (cases x)
    with run(5) Inr assms have r: "r = Inr (i, s, q)" "st' = st2" by simp_all
    obtain c where t: "sess = Tenant c" "is_id i = ni_inspection ids" "is_assetId i = ci_assetId dto" "is_inspectorId i = rls_personId c"
        "is_siteId i = as_siteId a" "is_clientId i = rls_clientId c"
        "ad_inspections (it_assets st2) = ad_inspections (it_assets st) @ [i]"
      and pt: "case ?p of None \<Rightarrow> s = None \<and> it_routes st2 = it_routes ?st1
        | Some p \<Rightarrow> \<exists>r. s = Some r \<and> complete_point sess c ids (date_now df) sid (is_id i) p (it_routes ?st1) = Inr (r, it_routes st2)"
      using transaction_result [OF Inr [unfolded x]] by auto
    have a: "a \<in> set (ad_assets (it_assets st))" "as_id a = ci_assetId dto" "asset_visible sess a"
      using find_by_SomeD [OF run(3)] by auto
    have "completed_by (as_id a) (is_id i) st s st2"
      by (rule completion [OF _ pt]) (use route_point_asset [OF _ run_points [OF run(4)]] a(2) in \<open>auto simp: claim_routes\<close>)
    with run(1,2) t a show ?thesis unfolding r sum.case prod.case by metis
  qed
qed

text \<open>
  A valid token opens every asset. The request carries the token of a scanned tag, and the code only
  asks whether it is valid: nothing compares its tag with the tag of the asset. Two valid tokens, of
  whatever tags, have the same effect for every asset.
\<close>

theorem token_not_bound_to_asset:
  assumes "fst (validateInspectionToken kops env (date_now df) tok kc keys) = Inr check" "tc_isValid check"
    and "fst (validateInspectionToken kops env (date_now df) tok' kc keys) = Inr check'" "tc_isValid check'"
  shows "inspections_create kops env df sess ctx ids dto (Some tok) sid rid kc keys st
     = inspections_create kops env df sess ctx ids dto (Some tok') sid rid kc keys st"
  using assms by (simp add: inspections_create_def)

definition ex_ids :: insp_ids where
  "ex_ids = \<lparr>ni_inspection = ''i9'', ni_session = ''x9'', ni_completed = ''k9'', ni_response = (\<lambda>_. ''n''), ni_alert = (\<lambda>_. ''m'')\<rparr>"

definition ex_create :: create_inspection_dto where
  "ex_create = \<lparr>ci_assetId = ''a1'', ci_status = INSPECTION_COMPLETE, ci_comments = None,
     ci_responses = [\<lparr>an_value = JNum 5, an_originalPrompt = ''P'', an_questionId = ''q1''\<rparr>]\<rparr>"

lemma ex_token_valid:
  "\<exists>check. fst (validateInspectionToken mem_ops ex_sign_env (date_now ex_df) ''SN1.tag1.9.2.k1.digest-digest-di'' Map.empty []) = Inr check
     \<and> tc_isValid check \<and> tc_tagExternalId check = Some ''tag1''"
  "\<exists>check. fst (validateInspectionToken mem_ops ex_sign_env (date_now ex_df) ''SN2.tag2.9.2.k1.digest-digest-di'' Map.empty []) = Inr check
     \<and> tc_isValid check \<and> tc_tagExternalId check = Some ''tag2''"
proof -
  have it: "parseInspectionToken ex_sign_env ''SN1.tag1.9.2.k1.digest-digest-di'' =
      \<lparr>it_serialNumber = ''SN1'', it_tagExternalId = Some ''tag1'', it_expiresOn = Some 9, it_timestamp = Some 2,
       it_keyId = Some ''k1'', it_signature = Some ''digest-digest-di''\<rparr>"
    "parseInspectionToken ex_sign_env ''SN2.tag2.9.2.k1.digest-digest-di'' =
      \<lparr>it_serialNumber = ''SN2'', it_tagExternalId = Some ''tag2'', it_expiresOn = Some 9, it_timestamp = Some 2,
       it_keyId = Some ''k1'', it_signature = Some ''digest-digest-di''\<rparr>"
    by code_simp+
  have n: "date_now ex_df = 0" by (simp add: ex_df_def)
  show "\<exists>check. fst (validateInspectionToken mem_ops ex_sign_env (date_now ex_df) ''SN1.tag1.9.2.k1.digest-digest-di'' Map.empty []) = Inr check
     \<and> tc_isValid check \<and> tc_tagExternalId check = Some ''tag1''"
    unfolding validateInspectionToken_def it n by (simp add: ex_sign_simps normalize_ms_def)
  show "\<exists>check. fst (validateInspectionToken mem_ops ex_sign_env (date_now ex_df) ''SN2.tag2.9.2.k1.digest-digest-di'' Map.empty []) = Inr check
     \<and> tc_isValid check \<and> tc_tagExternalId check = Some ''tag2''"
    unfolding validateInspectionToken_def it n by (simp add: ex_sign_simps normalize_ms_def)
qed

lemma ex_run:
  "\<exists>i s q st'. inspections_create mem_ops ex_sign_env ex_df ex_tenant None ex_ids ex_create (Some ''SN1.tag1.9.2.k1.digest-digest-di'')
       (Some ''x1'') None Map.empty [] \<lparr>it_assets = ex_asset_db, it_routes = ex_routes\<rparr> = (Inr (i, s, q), st')"
proof -
  let ?st = "\<lparr>it_assets = ex_asset_db, it_routes = ex_routes\<rparr>"
  let ?ps = "[\<lparr>ip_id = ''p1'', ip_order = 0, ip_routeId = ''r1'', ip_assetId = ''a1''\<rparr>]"
  obtain check where v: "fst (validateInspectionToken mem_ops ex_sign_env (date_now ex_df) ''SN1.tag1.9.2.k1.digest-digest-di'' Map.empty []) = Inr check" "tc_isValid check"
    using ex_token_valid(1) by blast
  have s: "session_with_points ex_tenant ''x1'' ''a1'' ex_routes = Inr (ex_session ''x1'', ?ps)" by code_simp
  have f: "find_by as_id ''a1'' (filter (asset_visible ex_tenant) (ad_assets ex_asset_db)) = Some ex_answer_asset" by code_simp
  have a: "ci_assetId ex_create = ''a1''" by (simp add: ex_create_def)
  have t: "is_ok (inspection_transaction ex_df ex_tenant ex_ids ex_create (Some ''x1'') ex_answer_asset
      (route_point ''a1'' None ?ps ex_routes) ?st)" by code_simp
  then obtain r where "inspection_transaction ex_df ex_tenant ex_ids ex_create (Some ''x1'') ex_answer_asset (route_point ''a1'' None ?ps ex_routes) ?st = Inr r"
    by (auto simp: is_ok_def split: sum.splits)
  with v s f a show ?thesis
    by (cases r) (simp add: inspections_create_def Let_def claim_session_def take_ownership_def)
qed

theorem inspections_create_correct_witness:
  "\<exists>i s q st'. inspections_create mem_ops ex_sign_env ex_df ex_tenant None ex_ids ex_create (Some ''SN1.tag1.9.2.k1.digest-digest-di'')
       (Some ''x1'') None Map.empty [] \<lparr>it_assets = ex_asset_db, it_routes = ex_routes\<rparr> = (Inr (i, s, q), st')
     \<and> ad_inspections (it_assets st') = [i] \<and> is_clientId i = ''c1''"
proof -
  obtain i s q st' where r: "inspections_create mem_ops ex_sign_env ex_df ex_tenant None ex_ids ex_create (Some ''SN1.tag1.9.2.k1.digest-digest-di'')
       (Some ''x1'') None Map.empty [] \<lparr>it_assets = ex_asset_db, it_routes = ex_routes\<rparr> = (Inr (i, s, q), st')"
    using ex_run by blast
  have e: "ad_inspections ex_asset_db = []" by (simp add: ex_asset_db_def)
  from inspections_create_correct [OF r] e have "ad_inspections (it_assets st') = [i] \<and> is_clientId i = ''c1''"
    by (auto simp: ex_tenant_def)
  with r show ?thesis by blast
qed

theorem token_not_bound_to_asset_witness:
  "\<exists>i s q st'. inspections_create mem_ops ex_sign_env ex_df ex_tenant None ex_ids ex_create (Some ''SN2.tag2.9.2.k1.digest-digest-di'')
       (Some ''x1'') None Map.empty [] \<lparr>it_assets = ex_asset_db, it_routes = ex_routes\<rparr> = (Inr (i, s, q), st')"
proof -
  obtain c where c: "fst (validateInspectionToken mem_ops ex_sign_env (date_now ex_df) ''SN1.tag1.9.2.k1.digest-digest-di'' Map.empty []) = Inr c" "tc_isValid c"
    using ex_token_valid(1) by blast
  obtain d where d: "fst (validateInspectionToken mem_ops ex_sign_env (date_now ex_df) ''SN2.tag2.9.2.k1.digest-digest-di'' Map.empty []) = Inr d" "tc_isValid d"
    using ex_token_valid(2) by blast
  show ?thesis unfolding token_not_bound_to_asset [OF d c] by (rule ex_run)
qed

text \<open>
  A session can hold completions of another route: when the asset is not on the session's route, the
  point of the route named in the request is completed in the session all the same.
\<close>

lemma foreign_point_completed:
  "\<exists>i q st' p. inspection_transaction ex_df ex_tenant ex_ids (ex_create\<lparr>ci_assetId := ''a3''\<rparr>) (Some ''x1'') ex_answer_asset
      (route_point ''a3'' (Some ''r2'') [] ex_routes) \<lparr>it_assets = ex_asset_db, it_routes = ex_routes\<rparr> = Inr (i, Some (ex_session ''x1''), q, st')
    \<and> p \<in> set (rb_points ex_routes) \<and> ip_routeId p \<noteq> ss_routeId (ex_session ''x1'')
    \<and> map (\<lambda>c. (cp_sessionId c, cp_pointId c)) (rb_completed (it_routes st')) = [(''x1'', ip_id p)]"
proof -
  let ?t = "inspection_transaction ex_df ex_tenant ex_ids (ex_create\<lparr>ci_assetId := ''a3''\<rparr>) (Some ''x1'') ex_answer_asset
      (route_point ''a3'' (Some ''r2'') [] ex_routes) \<lparr>it_assets = ex_asset_db, it_routes = ex_routes\<rparr>"
  have "case ?t of Inl _ \<Rightarrow> False | Inr (i, s, q, st') \<Rightarrow> s = Some (ex_session ''x1'')
      \<and> map (\<lambda>c. (cp_sessionId c, cp_pointId c)) (rb_completed (it_routes st')) = [(''x1'', ''p3'')]" by code_simp
  then show ?thesis
    by (intro exI [of _ "fst (projr ?t)"] exI [of _ "fst (snd (snd (projr ?t)))"] exI [of _ "snd (snd (snd (projr ?t)))"]
        exI [of _ "\<lparr>ip_id = ''p3'', ip_order = 0, ip_routeId = ''r2'', ip_assetId = ''a3''\<rparr>"])
      (auto simp: ex_routes_def ex_session_def split: sum.splits)
qed

text \<open>
  A completed inspection is final. In a tenant's session an update of a completed inspection, or of
  somebody else's, is answered with \<open>404\<close>; and whatever update succeeds leaves every completed
  inspection and every inspection of another person as it was.
\<close>

theorem completed_inspection_final:
  assumes "distinct (map is_id (ad_inspections db))" and "r \<in> set (ad_inspections db)"
    and "is_status r = INSPECTION_COMPLETE \<or> is_inspectorId r \<noteq> rls_personId ctx"
  shows "inspections_update (Tenant ctx) now (is_id r) db = Inl (NotFoundException ''Not Found'')
     \<and> (\<forall>i n db'. inspections_update (Tenant ctx) now i db = Inr (n, db') \<longrightarrow> r \<in> set (ad_inspections db'))"
proof -
  let ?ok = "\<lambda>r. inspection_visible (Tenant ctx) r \<and> inspection_updatable (Tenant ctx) r"
  have no: "\<not> ?ok r" using assms(3) by (auto simp: inspection_updatable_def is_owner_def)
  have uniq: "x = r" if "x \<in> set (ad_inspections db)" "is_id x = is_id r" for x
    using assms(1,2) that by (meson distinct_map inj_onD)
  have "find_by is_id (is_id r) (filter ?ok (ad_inspections db)) = None"
    using no uniq by (auto simp: find_by_None_iff)
  then have 1: "inspections_update (Tenant ctx) now (is_id r) db = Inl (NotFoundException ''Not Found'')"
    by (simp add: inspections_update_def as404OrThrow_def)
  have "r \<in> set (ad_inspections db')" if "inspections_update (Tenant ctx) now i db = Inr (n, db')" for i n db'
  proof -
    have "is_id r \<noteq> i" using that 1 by auto
    with assms(2) that show ?thesis by (auto simp: inspections_update_def Let_def image_iff split: option.splits)
  qed
  with 1 show ?thesis by blast
qed

theorem completed_inspection_final_witness:
  "inspections_update ex_tenant 9 ''i1'' (ex_asset_db\<lparr>ad_inspections := [ex_inspection]\<rparr>)
     = Inl (NotFoundException ''Not Found'')"
  using completed_inspection_final [of "ex_asset_db\<lparr>ad_inspections := [ex_inspection]\<rparr>" ex_inspection
      "\<lparr>rls_personId = ''u1'', rls_clientId = ''c1'', rls_siteId = ''s1'', rls_allowedSiteIds = [''s1''], rls_scope = CLIENT\<rparr>" 9]
  by (simp add: ex_inspection_def ex_tenant_def)

text \<open>
  Alerts are only triggered when an inspection is created complete: completing a pending one later adds
  none, whatever its answers are.
\<close>

lemma late_completion_no_alerts:
  "inspections_update sess now i db = Inr (n, db') \<Longrightarrow> is_status n = INSPECTION_COMPLETE \<and> ad_alerts db' = ad_alerts db"
  by (auto simp: inspections_update_def Let_def split: option.splits)

end
