(* ===== verification/Client_Access.thy ===== *)
theory Client_Access
  imports Auth_Service
begin

section \<open>The caller's own access\<close>

text \<open>
  \<^verbatim>\<open>src/src/clients/client-access/client-access.service.ts\<close>: the list of organizations and sites a
  user can switch between, one entry per client and site with the roles there merged.
  \<open>SYSTEM_ADMIN_EMAILS\<close> is the configured list.
\<close>

record my_access =
  ma_clientId :: id
  ma_clientName :: string
  ma_siteId :: id
  ma_siteName :: string
  ma_roleId :: id
  ma_roleName :: "string option"
  ma_scope :: role_scope
  ma_capabilities :: "capability list"

record access_join =
  aj_client :: client_row
  aj_site :: site_row
  aj_role :: role_row

definition join_own_access :: "tenant_db \<Rightarrow> access_row \<Rightarrow> access_join option" where
  "join_own_access db a =
     (case (find_by cl_id (pca_clientId a) (db_clients db), find_by st_id (pca_siteId a) (db_sites db),
            find_by ro_id (pca_roleId a) (db_roles db)) of
        (Some c, Some s, Some r) \<Rightarrow> Some \<lparr>aj_client = c, aj_site = s, aj_role = r\<rparr>
      | _ \<Rightarrow> None)"

definition own_accesses :: "tenant_db \<Rightarrow> stateless_user \<Rightarrow> access_join list" where
  "own_accesses db user =
     List.map_filter (join_own_access db)
       (order_asc pca_createdOn (filter (\<lambda>a. person_has_idp db (u_idpId user) (pca_personId a)) (db_accesses db)))"

definition group_key :: "access_join \<Rightarrow> string" where
  "group_key a = cl_id (aj_client a) @ '':'' @ st_id (aj_site a)"

definition access_grant_of :: "access_join \<Rightarrow> access_grant" where
  "access_grant_of a =
     \<lparr>ag_scope = ro_scope (aj_role a), ag_capabilities = ro_capabilities (aj_role a),
      ag_clientId = cl_id (aj_client a), ag_siteId = st_id (aj_site a), ag_roleId = ro_id (aj_role a)\<rparr>"

definition merge_group :: "access_join list \<Rightarrow> my_access result" where
  "merge_group rows =
     bindr (reduceAccessGrants (map access_grant_of rows)) (\<lambda>merged.
       let first = hd rows
       in Inr \<lparr>ma_clientId = cl_id (aj_client first), ma_clientName = cl_name (aj_client first),
               ma_siteId = st_id (aj_site first), ma_siteName = st_name (aj_site first),
               ma_roleId = ro_id (aj_role first), ma_roleName = Some (ro_name (aj_role first)),
               ma_scope = ag_scope merged, ma_capabilities = ag_capabilities merged\<rparr>)"

fun map_results :: "('a \<Rightarrow> 'b result) \<Rightarrow> 'a list \<Rightarrow> 'b list result" where
  \<comment> \<open>\<open>xs.map(f)\<close>: the first exception leaves the loop\<close>
  "map_results f [] = Inr []"
| "map_results f (x # xs) = bindr (f x) (\<lambda>y. bindr (map_results f xs) (\<lambda>ys. Inr (y # ys)))"

definition bootstrap_access :: my_access where
  "bootstrap_access =
     \<lparr>ma_clientId = ''unknown'', ma_clientName = ''System Administration'', ma_siteId = ''unknown'', ma_siteName = ''System'',
      ma_roleId = ''system-admin'', ma_roleName = None, ma_scope = SYSTEM, ma_capabilities = VALID_CAPABILITIES\<rparr>"

definition getMyClientAccess :: "string list \<Rightarrow> tenant_db \<Rightarrow> cls_store \<Rightarrow> my_access list result" where
  "getMyClientAccess systemAdminEmails db cls =
     (case cls_user cls of
        None \<Rightarrow> Inr []
      | Some user \<Rightarrow>
          (let accesses = own_accesses db user
           in if accesses = []
              then Inr (if List.member systemAdminEmails (toLowerCase (u_email user)) then [bootstrap_access] else [])
              else map_results merge_group (map snd (group_by group_key accesses))))"

subsection \<open>What the list holds\<close>

lemma map_results_total:
  assumes "\<And>x. x \<in> set xs \<Longrightarrow> \<exists>y. f x = Inr y"
  shows "\<exists>ys. map_results f xs = Inr ys \<and> list_all2 (\<lambda>x y. f x = Inr y) xs ys"
  using assms
proof (induction xs)
  case (Cons x xs)
  then obtain ys y where "map_results f xs = Inr ys" "list_all2 (\<lambda>x y. f x = Inr y) xs ys" "f x = Inr y" by fastforce
  then show ?case by (intro exI [of _ "y # ys"]) simp
qed simp

lemma merge_group_Inr:
  assumes "rows \<noteq> []"
  shows "\<exists>m. merge_group rows = Inr m \<and> ma_clientId m = cl_id (aj_client (hd rows)) \<and> ma_siteId m = st_id (aj_site (hd rows))
     \<and> ma_scope m = Max ((\<lambda>a. ro_scope (aj_role a)) ` set rows)
     \<and> set (ma_capabilities m) = (\<Union>a\<in>set rows. set (ro_capabilities (aj_role a))) \<and> distinct (ma_capabilities m)"
proof -
  obtain r where r: "reduceAccessGrants (map access_grant_of rows) = Inr r"
    using reduceAccessGrants_total [of "map access_grant_of rows"] assms by auto
  have "(\<lambda>g. ag_scope g) ` set (map access_grant_of rows) = (\<lambda>a. ro_scope (aj_role a)) ` set rows"
    by (simp add: access_grant_of_def image_image)
  with r reduceAccessGrants_scope [OF r] reduceAccessGrants_capabilities [OF r] show ?thesis
    by (simp add: merge_group_def Let_def access_grant_of_def)
qed

definition no_colon :: "string \<Rightarrow> bool" where
  "no_colon s = (CHR '':'' \<notin> set s)"

lemma group_key_inj:
  assumes "no_colon (cl_id (aj_client a))" "no_colon (cl_id (aj_client b))"
  shows "group_key a = group_key b \<longleftrightarrow> cl_id (aj_client a) = cl_id (aj_client b) \<and> st_id (aj_site a) = st_id (aj_site b)"
  using sep_append_eq [of "CHR '':''" "cl_id (aj_client a)" "cl_id (aj_client b)"] assms by (simp add: group_key_def no_colon_def)

lemma own_access_client: "a \<in> set (own_accesses db u) \<Longrightarrow> aj_client a \<in> set (db_clients db)"
proof -
  assume "a \<in> set (own_accesses db u)"
  then obtain x where "join_own_access db x = Some a" by (auto simp: own_accesses_def mem_map_filter)
  then have "find_by cl_id (pca_clientId x) (db_clients db) = Some (aj_client a)"
    by (auto simp: join_own_access_def split: option.splits)
  then show ?thesis using find_by_SomeD by fast
qed

definition place :: "access_join \<Rightarrow> id \<times> id" where
  "place a = (cl_id (aj_client a), st_id (aj_site a))"

lemma group_entry:
  assumes inj: "\<And>a b. a \<in> set A \<Longrightarrow> b \<in> set A \<Longrightarrow> group_key a = group_key b \<longleftrightarrow> place a = place b"
    and "(k, g) \<in> set (group_by group_key A)" and "merge_group g = Inr m"
  shows "g = filter (\<lambda>a. place a = (ma_clientId m, ma_siteId m)) A" and "g \<noteq> []"
    and "\<exists>a\<in>set A. place a = (ma_clientId m, ma_siteId m) \<and> group_key a = k"
proof -
  have g: "g = filter (\<lambda>a. group_key a = k) A" "g \<noteq> []" using assms(2) unfolding group_by_mem_iff by blast+
  have h: "hd g \<in> set A" "group_key (hd g) = k" using hd_in_set [OF g(2)] unfolding g(1) by auto
  have at: "(ma_clientId m, ma_siteId m) = place (hd g)" using merge_group_Inr [OF g(2)] assms(3) by (auto simp: place_def)
  show "g \<noteq> []" by (rule g(2))
  show "\<exists>a\<in>set A. place a = (ma_clientId m, ma_siteId m) \<and> group_key a = k" using h at by metis
  have "filter (\<lambda>a. group_key a = k) A = filter (\<lambda>a. place a = place (hd g)) A"
    by (rule filter_cong [OF refl]) (use inj h in metis)
  then show "g = filter (\<lambda>a. place a = (ma_clientId m, ma_siteId m)) A" unfolding at using g(1) by simp
qed

lemma distinct_via_keys:
  assumes "list_all2 P xs ys" and "distinct (map fst xs)"
    and "\<And>x y. x \<in> set xs \<Longrightarrow> P x y \<Longrightarrow> key (f y) = fst x"
  shows "distinct (map f ys)"
proof -
  have "map (key \<circ> f) ys = map fst xs" using assms(1,3)
  proof (induction)
    case (Cons x xs y ys)
    then show ?case by simp
  qed simp
  with assms(2) have "distinct (map key (map f ys))" by simp
  then show ?thesis by (simp only: distinct_map [of key])
qed

text \<open>
  The list of a user's access holds one entry for every client and site in which the user has an
  access row, and no other; the entry's scope is the widest of the user's roles there and its
  capabilities are those of all these roles together, without duplicates. (For client identifiers
  without a colon, as generated ones are.)
\<close>

theorem getMyClientAccess_correct:
  assumes "cls_user cls = Some user" and "own_accesses db user \<noteq> []" and "\<forall>c\<in>set (db_clients db). no_colon (cl_id c)"
  shows "\<exists>entries. getMyClientAccess emails db cls = Inr entries
     \<and> distinct (map (\<lambda>m. (ma_clientId m, ma_siteId m)) entries)
     \<and> (\<lambda>m. (ma_clientId m, ma_siteId m)) ` set entries = place ` set (own_accesses db user)
     \<and> (\<forall>m\<in>set entries. let here = filter (\<lambda>a. place a = (ma_clientId m, ma_siteId m)) (own_accesses db user)
          in ma_scope m = Max ((\<lambda>a. ro_scope (aj_role a)) ` set here)
             \<and> set (ma_capabilities m) = (\<Union>a\<in>set here. set (ro_capabilities (aj_role a))) \<and> distinct (ma_capabilities m))"
proof -
  let ?A = "own_accesses db user" and ?at = "\<lambda>m. (ma_clientId m, ma_siteId m)"
  let ?G = "group_by group_key ?A"
  have inj: "group_key a = group_key b \<longleftrightarrow> place a = place b" if "a \<in> set ?A" "b \<in> set ?A" for a b
    using that assms(3) own_access_client by (simp add: group_key_inj place_def)
  have tot: "\<exists>y. merge_group g = Inr y" if "g \<in> set (map snd ?G)" for g
  proof -
    from that obtain k where "(k, g) \<in> set ?G" by auto
    then have "g \<noteq> []" unfolding group_by_mem_iff by blast
    with merge_group_Inr show ?thesis by blast
  qed
  obtain entries where e: "map_results merge_group (map snd ?G) = Inr entries"
    and "list_all2 (\<lambda>g m. merge_group g = Inr m) (map snd ?G) entries"
    using map_results_total [of "map snd ?G" merge_group] tot by blast
  then have all: "list_all2 (\<lambda>kg m. merge_group (snd kg) = Inr m) ?G entries" by (simp add: list_all2_map1)
  have entry: "g = filter (\<lambda>a. place a = ?at m) ?A" "g \<noteq> []" "\<exists>a\<in>set ?A. place a = ?at m \<and> group_key a = k"
    if "(k, g) \<in> set ?G" "merge_group g = Inr m" for k g m
    using group_entry [of ?A k g m] inj that by blast+
  have mem: "\<exists>k g. (k, g) \<in> set ?G \<and> merge_group g = Inr m" if "m \<in> set entries" for m
    using all that by (auto simp: list_all2_conv_all_nth in_set_conv_nth) (metis nth_mem prod.collapse)
  have "distinct (map ?at entries)"
  proof (rule distinct_via_keys [OF all, where key = "\<lambda>(c, s). c @ '':'' @ s"])
    fix kg m assume "kg \<in> set ?G" "merge_group (snd kg) = Inr m"
    with entry(3) [of "fst kg" "snd kg" m] show "(case ?at m of (c, s) \<Rightarrow> c @ '':'' @ s) = fst kg"
      by (auto simp: place_def group_key_def)
  qed simp
  moreover have "?at ` set entries = place ` set ?A"
  proof (intro equalityI subsetI)
    fix x assume "x \<in> ?at ` set entries"
    then show "x \<in> place ` set ?A" using mem entry(3) by (metis (no_types, lifting) image_iff)
  next
    fix x assume "x \<in> place ` set ?A"
    then obtain a where a: "a \<in> set ?A" "x = place a" by blast
    let ?g = "filter (\<lambda>b. group_key b = group_key a) ?A"
    have "a \<in> set ?g" using a by simp
    then have kg: "(group_key a, ?g) \<in> set ?G" unfolding group_by_mem_iff by (metis list.set(1) empty_iff)
    then obtain m where m: "m \<in> set entries" "merge_group ?g = Inr m"
      using all by (auto simp: list_all2_conv_all_nth in_set_conv_nth) (metis nth_mem snd_conv)
    from entry(1) [OF kg m(2)] \<open>a \<in> set ?g\<close> have "place a = ?at m" by (metis (mono_tags, lifting) filter_set mem_Collect_eq set_filter)
    with a m(1) show "x \<in> ?at ` set entries" by blast
  qed
  moreover have "let here = filter (\<lambda>a. place a = ?at m) ?A
          in ma_scope m = Max ((\<lambda>a. ro_scope (aj_role a)) ` set here)
             \<and> set (ma_capabilities m) = (\<Union>a\<in>set here. set (ro_capabilities (aj_role a))) \<and> distinct (ma_capabilities m)"
    if "m \<in> set entries" for m
  proof -
    from mem [OF that] obtain k g where g: "(k, g) \<in> set ?G" "merge_group g = Inr m" by blast
    from merge_group_Inr [OF entry(2) [OF g]] g(2) show ?thesis unfolding Let_def entry(1) [OF g, symmetric] by auto
  qed
  ultimately show ?thesis using assms(1,2) e by (auto simp: getMyClientAccess_def Let_def)
qed

definition ex_access_db :: tenant_db where
  "ex_access_db = (ex_db [])\<lparr>db_roles := [ex_role ''r1'' SITE, (ex_role ''r2'' CLIENT)\<lparr>ro_capabilities := [''manage-users'']\<rparr>],
     db_accesses := [\<lparr>pca_id = ''x1'', pca_createdOn = 2, pca_isPrimary = True, pca_personId = ''p1'', pca_clientId = ''c1'', pca_siteId = ''s1'', pca_roleId = ''r1''\<rparr>,
       \<lparr>pca_id = ''x2'', pca_createdOn = 1, pca_isPrimary = False, pca_personId = ''p1'', pca_clientId = ''c1'', pca_siteId = ''s1'', pca_roleId = ''r2''\<rparr>]\<rparr>"

theorem getMyClientAccess_correct_witness:
  "\<exists>entries. getMyClientAccess [] ex_access_db (ex_cls SITE) = Inr entries \<and> distinct (map (\<lambda>m. (ma_clientId m, ma_siteId m)) entries)
     \<and> (\<lambda>m. (ma_clientId m, ma_siteId m)) ` set entries = {(''c1'', ''s1'')}"
proof -
  have u: "cls_user (ex_cls SITE) = Some (ex_user ''idp-p1'')" by (simp add: ex_cls_def)
  have n: "own_accesses ex_access_db (ex_user ''idp-p1'') \<noteq> []" by code_simp
  have c: "\<forall>c\<in>set (db_clients ex_access_db). no_colon (cl_id c)" by (simp add: ex_access_db_def ex_db_def no_colon_def)
  have "remdups (map place (own_accesses ex_access_db (ex_user ''idp-p1''))) = [(''c1'', ''s1'')]" by code_simp
  then have "place ` set (own_accesses ex_access_db (ex_user ''idp-p1'')) = {(''c1'', ''s1'')}"
    by (metis list.set(1,2) set_map set_remdups)
  with getMyClientAccess_correct [OF u n c, of "[]"] show ?thesis by (metis (no_types, lifting))
qed

end
