(* ===== verification/Asset_Questions.thy ===== *)
theory Asset_Questions
  imports Asset_Answers
begin

section \<open>Which questions an asset is asked\<close>

text \<open>
  \<^verbatim>\<open>src/src/products/asset-questions/asset-questions.service.ts\<close> and
  \<^verbatim>\<open>src/src/common/address-utils.ts\<close>: the query that matches the conditions of the questions with an
  asset, the check of an asset's configuration, and the migration of the old columns to conditions.
  A condition's value is a list of strings, as its schema demands. The query is modelled by its joined
  rows: filtered by the \<open>WHERE\<close> clause, grouped by question and counted. Every table of the query is
  behind its row-level security policy. Own keys of a metadata object are its keys.
\<close>

datatype condition_type = REGION | MANUFACTURER | PRODUCT_CATEGORY | PRODUCT | METADATA

record condition_row =
  cd_id :: id
  cd_questionId :: id
  cd_type :: condition_type
  cd_value :: "string list"
  cd_clientId :: "id option"

record customization_row =
  cz_id :: id
  cz_questionId :: id
  cz_enabled :: bool
  cz_clientId :: id
  cz_siteId :: "id option"

record product_row =
  pr_id :: id
  pr_categoryId :: id
  pr_manufacturerId :: id
  pr_metadata :: "json option"
  pr_clientId :: "id option"

record question_db =
  qd_questions :: "question_row list"
  qd_conditions :: "condition_row list"
  qd_customizations :: "customization_row list"

record asset_props =
  \<comment> \<open>the partial asset of the queries: what is known of it\<close>
  ap_product :: "product_row option"
  ap_state :: "string option"
  ap_metadata :: "json option"

definition condition_visible :: "rls_session \<Rightarrow> condition_row \<Rightarrow> bool" where
  "condition_visible s c =
     (case s of Bypass \<Rightarrow> True | Tenant ctx \<Rightarrow> cd_clientId c = None \<or> validate_client_opt ctx (cd_clientId c))"

definition customization_visible :: "rls_session \<Rightarrow> customization_row \<Rightarrow> bool" where
  \<comment> \<open>\<open>AND\<close> binds tighter than \<open>OR\<close>\<close>
  "customization_visible s z =
     (case s of Bypass \<Rightarrow> True
      | Tenant ctx \<Rightarrow> validate_client ctx (cz_clientId z) \<and> cz_siteId z = None \<or> validate_site_opt ctx (cz_siteId z))"

subsection \<open>States\<close>

definition STATE_ABBREVIATIONS :: "(string \<times> string) list" where
  "STATE_ABBREVIATIONS =
   [(''Alabama'', ''AL''), (''Alaska'', ''AK''), (''Arizona'', ''AZ''), (''Arkansas'', ''AR''),
    (''California'', ''CA''), (''Colorado'', ''CO''), (''Connecticut'', ''CT''), (''Delaware'', ''DE''),
    (''Florida'', ''FL''), (''Georgia'', ''GA''), (''Hawaii'', ''HI''), (''Idaho'', ''ID''),
    (''Illinois'', ''IL''), (''Indiana'', ''IN''), (''Iowa'', ''IA''), (''Kansas'', ''KS''),
    (''Kentucky'', ''KY''), (''Louisiana'', ''LA''), (''Maine'', ''ME''), (''Maryland'', ''MD''),
    (''Massachusetts'', ''MA''), (''Michigan'', ''MI''), (''Minnesota'', ''MN''), (''Mississippi'', ''MS''),
    (''Missouri'', ''MO''), (''Montana'', ''MT''), (''Nebraska'', ''NE''), (''Nevada'', ''NV''),
    (''New Hampshire'', ''NH''), (''New Jersey'', ''NJ''), (''New Mexico'', ''NM''), (''New York'', ''NY''),
    (''North Carolina'', ''NC''), (''North Dakota'', ''ND''), (''Ohio'', ''OH''), (''Oklahoma'', ''OK''),
    (''Oregon'', ''OR''), (''Pennsylvania'', ''PA''), (''Rhode Island'', ''RI''), (''South Carolina'', ''SC''),
    (''South Dakota'', ''SD''), (''Tennessee'', ''TN''), (''Texas'', ''TX''), (''Utah'', ''UT''),
    (''Vermont'', ''VT''), (''Virginia'', ''VA''), (''Washington'', ''WA''), (''West Virginia'', ''WV''),
    (''Wisconsin'', ''WI''), (''Wyoming'', ''WY'')]"

definition upper_char :: "char \<Rightarrow> char" where
  "upper_char c = (let n = of_char c :: nat in if 97 \<le> n \<and> n \<le> 122 then char_of (n - 32) else c)"

definition toUpperCase :: "string \<Rightarrow> string" where
  "toUpperCase s = map upper_char s"

definition normalizeState :: "string \<Rightarrow> string" where
  "normalizeState state = nullish_or (map_of STATE_ABBREVIATIONS state) (toUpperCase state)"

subsection \<open>The query\<close>

definition getValidatedMetadata :: "json option \<Rightarrow> (string \<times> json) list option" where
  "getValidatedMetadata m = (case m of Some (JObj ob) \<Rightarrow> Some ob | _ \<Rightarrow> None)"

definition key_pairs :: "asset_props \<Rightarrow> string list" where
  "key_pairs asset =
     unique (map (\<lambda>(k, v). k @ '':'' @ js_string v)
       (nullish_or (getValidatedMetadata (ap_metadata asset)) []
        @ nullish_or (getValidatedMetadata (Option.bind (ap_product asset) pr_metadata)) []))"

definition orWhereClauses :: "asset_props \<Rightarrow> (condition_row \<Rightarrow> bool) list" where
  "orWhereClauses asset =
     (case ap_product asset of
        None \<Rightarrow> []
      | Some p \<Rightarrow>
          [(\<lambda>c. cd_type c = PRODUCT_CATEGORY \<and> List.member (cd_value c) (pr_categoryId p)),
           (\<lambda>c. cd_type c = MANUFACTURER \<and> List.member (cd_value c) (pr_manufacturerId p)),
           (\<lambda>c. cd_type c = PRODUCT \<and> List.member (cd_value c) (pr_id p))])
     @ (if truthy (ap_state asset)
        then [\<lambda>c. cd_type c = REGION \<and> List.member (cd_value c) (normalizeState (the (ap_state asset)))] else [])
     @ (if key_pairs asset \<noteq> []
        then [\<lambda>c. cd_type c = METADATA \<and> list_ex (List.member (key_pairs asset)) (cd_value c)] else [])"

definition type_clause :: "question_type option \<Rightarrow> question_row \<Rightarrow> bool" where
  "type_clause type q =
     (case type of
        None \<Rightarrow> True
      | Some t \<Rightarrow>
          if t = SETUP_AND_INSPECTION then True
          else List.member (if t = SETUP then [SETUP, SETUP_AND_INSPECTION]
                            else if t = INSPECTION then [INSPECTION, SETUP_AND_INSPECTION] else [t]) (qu_type q))"

definition left_join :: "'b list \<Rightarrow> 'b option list" where
  \<comment> \<open>the partners of a row in a left join\<close>
  "left_join xs = (if xs = [] then [None] else map Some xs)"

definition question_rows ::
    "rls_session \<Rightarrow> bool \<Rightarrow> question_db \<Rightarrow> (question_row \<times> condition_row option \<times> customization_row option) list" where
  "question_rows sess isClientUserRequest db =
     concat (map (\<lambda>q. concat (map (\<lambda>c. map (\<lambda>z. (q, c, z))
         (if isClientUserRequest
          then left_join (filter (\<lambda>z. customization_visible sess z \<and> cz_questionId z = qu_id q) (qd_customizations db)) else [None]))
       (left_join (filter (\<lambda>c. condition_visible sess c \<and> cd_questionId c = qu_id q) (qd_conditions db)))))
       (filter (question_visible sess) (qd_questions db)))"

definition where_clause ::
    "bool \<Rightarrow> question_type option \<Rightarrow> asset_props \<Rightarrow> question_row \<times> condition_row option \<times> customization_row option \<Rightarrow> bool" where
  "where_clause isClientUserRequest type asset r =
     (case r of (q, c, z) \<Rightarrow>
        qu_active q \<and> qu_parentQuestionId q = None
        \<and> (\<not> isClientUserRequest \<or> z = None \<or> cz_enabled (the z))
        \<and> type_clause type q
        \<and> (case c of None \<Rightarrow> False | Some cd \<Rightarrow> list_ex (\<lambda>f. f cd) (orWhereClauses asset)))"

definition findQuestionIdsByAsset ::
    "rls_session \<Rightarrow> access_intent \<Rightarrow> asset_props \<Rightarrow> question_type option \<Rightarrow> question_db \<Rightarrow> id list" where
  "findQuestionIdsByAsset sess intent asset type db =
     (let isClientUserRequest = (intent \<noteq> system)
      in if orWhereClauses asset = [] then []
         else map fst (filter (\<lambda>(i, rows). length rows = length (filter (\<lambda>c. condition_visible sess c \<and> cd_questionId c = i) (qd_conditions db)))
           (group_by (\<lambda>r. qu_id (fst r)) (filter (where_clause isClientUserRequest type asset) (question_rows sess isClientUserRequest db)))))"

definition order_questions :: "question_row list \<Rightarrow> question_row list" where
  \<comment> \<open>\<open>orderBy: [{order: 'asc'}, {createdOn: 'asc'}]\<close>, nulls last\<close>
  "order_questions qs =
     (let byTime = sort_key qu_createdOn qs
      in sort_key (\<lambda>q. the (qu_order q)) (filter (\<lambda>q. qu_order q \<noteq> None) byTime) @ filter (\<lambda>q. qu_order q = None) byTime)"

definition findByAsset ::
    "rls_session \<Rightarrow> access_intent \<Rightarrow> asset_props \<Rightarrow> question_type option \<Rightarrow> question_db \<Rightarrow> question_row list" where
  "findByAsset sess intent asset type db =
     (let questionIds = findQuestionIdsByAsset sess intent asset type db
      in order_questions (filter (\<lambda>q. question_visible sess q \<and> List.member questionIds (qu_id q)) (qd_questions db)))"

subsection \<open>The configuration check\<close>

record audit_entry =
  ae_key :: string
  ae_staticValue :: "string option"
  ae_assetValue :: "json option"
  ae_isMet :: bool
  ae_question :: question_row

definition parse_select_options :: "json \<Rightarrow> string list option" where
  \<comment> \<open>the values of the options, when the column has the form of the schema\<close>
  "parse_select_options v =
     as_array (\<lambda>e. case e of
        JObj ob \<Rightarrow>
          do {
            value \<leftarrow> Option.bind (map_of ob ''value'') as_string;
            _ \<leftarrow> opt_field as_number ob ''order'';
            _ \<leftarrow> opt_field as_string ob ''label'';
            Some value
          }
      | _ \<Rightarrow> None) v"

definition js_truthy :: "json option \<Rightarrow> bool" where
  "js_truthy v =
     (case v of None \<Rightarrow> False | Some JNull \<Rightarrow> False | Some (JBool b) \<Rightarrow> b | Some (JNum q) \<Rightarrow> q \<noteq> 0
      | Some (JStr s) \<Rightarrow> s \<noteq> [] | _ \<Rightarrow> True)"

definition audit_config :: "(string \<times> json) list \<Rightarrow> question_row \<Rightarrow> metadata_config \<Rightarrow> audit_entry" where
  "audit_config assetMetadata question cfg =
     (case cfg of
        Static k v \<Rightarrow>
          \<lparr>ae_key = k, ae_staticValue = Some v, ae_assetValue = map_of assetMetadata k,
           ae_isMet = (map_of assetMetadata k = Some (JStr v)), ae_question = question\<rparr>
      | Dynamic k \<Rightarrow>
          (let value = map_of assetMetadata k;
               parsedSelectOptions = (if qu_valueType question = SELECT then Option.bind (qu_selectOptions question) parse_select_options else None)
           in \<lparr>ae_key = k, ae_staticValue = None, ae_assetValue = value,
               ae_isMet = (js_truthy value \<and> (case parsedSelectOptions of None \<Rightarrow> True | Some os \<Rightarrow> list_ex (\<lambda>o'. value = Some (JStr o')) os)),
               ae_question = question\<rparr>))"

definition metadata_audit :: "json option \<Rightarrow> question_row list \<Rightarrow> audit_entry list" where
  "metadata_audit metadata questions =
     (let assetMetadata = nullish_or (getValidatedMetadata metadata) []
      in concat (map (\<lambda>q. case Option.bind (qu_metadataConfig q) CreateSetAssetMetadataConfigSchema of
           None \<Rightarrow> [] | Some configs \<Rightarrow> map (audit_config assetMetadata q) configs) questions))"

definition checkAssetConfiguration ::
    "rls_session \<Rightarrow> access_intent \<Rightarrow> asset_props \<Rightarrow> question_db \<Rightarrow> audit_entry list \<times> bool" where
  "checkAssetConfiguration sess intent asset db =
     (let questionIds = findQuestionIdsByAsset sess intent asset (Some CONFIGURATION) db;
          questions = filter (\<lambda>q. question_visible sess q \<and> List.member questionIds (qu_id q)) (qd_questions db);
          audit = metadata_audit (ap_metadata asset) questions
      in (audit, list_all ae_isMet audit))"

subsection \<open>The migration of the old columns\<close>

text \<open>
  \<open>migrateQuestionsToConditions\<close>: one pass per column. \<open>owner\<close> gives the client of the referenced
  category or product, \<open>None\<close> when there is no such row. The trigger of
  \<^verbatim>\<open>20251007222520_default_client_id_for_asset_question_conditions\<close> gives every new condition the client of
  its question, whatever client the statement names.
\<close>

definition set_question_condition_client_id :: "question_row list \<Rightarrow> condition_row \<Rightarrow> condition_row" where
  "set_question_condition_client_id qs c = c\<lparr>cd_clientId := Option.bind (find_by qu_id (cd_questionId c) qs) qu_clientId\<rparr>"

lemma trigger_columns [simp]:
  "cd_id (set_question_condition_client_id qs c) = cd_id c"
  "cd_questionId (set_question_condition_client_id qs c) = cd_questionId c"
  "cd_type (set_question_condition_client_id qs c) = cd_type c"
  "cd_value (set_question_condition_client_id qs c) = cd_value c"
  "cd_clientId (set_question_condition_client_id qs c) = Option.bind (find_by qu_id (cd_questionId c) qs) qu_clientId"
  by (simp_all add: set_question_condition_client_id_def)

definition has_condition :: "question_db \<Rightarrow> id \<Rightarrow> condition_type \<Rightarrow> string \<Rightarrow> bool" where
  "has_condition db questionId ctype v =
     list_ex (\<lambda>c. cd_questionId c = questionId \<and> cd_type c = ctype \<and> List.member (cd_value c) v) (qd_conditions db)"

definition migrate_one ::
    "(question_row \<Rightarrow> id option) \<Rightarrow> condition_type \<Rightarrow> (id \<Rightarrow> id option option) \<Rightarrow> (nat \<Rightarrow> id)
     \<Rightarrow> nat \<times> question_db \<Rightarrow> question_row \<Rightarrow> nat \<times> question_db" where
  "migrate_one column ctype owner newId st q =
     (case column q of
        None \<Rightarrow> st
      | Some v \<Rightarrow>
          (case owner v of
             None \<Rightarrow> st
           | Some clientId \<Rightarrow>
               if has_condition (snd st) (qu_id q) ctype v then st
               else (Suc (fst st), (snd st)\<lparr>qd_conditions := qd_conditions (snd st) @
                   [set_question_condition_client_id (qd_questions (snd st))
                     \<lparr>cd_id = newId (fst st), cd_questionId = qu_id q, cd_type = ctype, cd_value = [v], cd_clientId = clientId\<rparr>]\<rparr>)))"

definition migrate_column ::
    "(question_row \<Rightarrow> id option) \<Rightarrow> condition_type \<Rightarrow> (id \<Rightarrow> id option option) \<Rightarrow> (nat \<Rightarrow> id) \<Rightarrow> question_row list
     \<Rightarrow> nat \<times> question_db \<Rightarrow> nat \<times> question_db" where
  "migrate_column column ctype owner newId qs st = foldl (migrate_one column ctype owner newId) st qs"

definition clear_column ::
    "(question_row \<Rightarrow> id option) \<Rightarrow> (question_row \<Rightarrow> question_row) \<Rightarrow> condition_type \<Rightarrow> question_db \<Rightarrow> nat \<times> question_db" where
  "clear_column column clear ctype db =
     (let hit = (\<lambda>q. column q \<noteq> None \<and> list_ex (\<lambda>c. cd_questionId c = qu_id q \<and> cd_type c = ctype) (qd_conditions db))
      in (length (filter hit (qd_questions db)), db\<lparr>qd_questions := map (\<lambda>q. if hit q then clear q else q) (qd_questions db)\<rparr>))"

definition migrateQuestionsToConditions ::
    "(id \<Rightarrow> id option option) \<Rightarrow> (id \<Rightarrow> id option option) \<Rightarrow> (nat \<Rightarrow> id) \<Rightarrow> question_db \<Rightarrow> (nat \<times> nat \<times> nat \<times> nat) \<times> question_db" where
  "migrateQuestionsToConditions categoryOwner productOwner newId db =
     (let (a, db1) = migrate_column qu_productCategoryId PRODUCT_CATEGORY categoryOwner newId
            (filter (\<lambda>q. qu_productCategoryId q \<noteq> None) (qd_questions db)) (0, db);
          (b, db2) = migrate_column qu_productId PRODUCT productOwner (\<lambda>n. newId (a + n))
            (filter (\<lambda>q. qu_productId q \<noteq> None) (qd_questions db1)) (0, db1);
          (c, db3) = clear_column qu_productCategoryId (\<lambda>q. q\<lparr>qu_productCategoryId := None\<rparr>) PRODUCT_CATEGORY db2;
          (d, db4) = clear_column qu_productId (\<lambda>q. q\<lparr>qu_productId := None\<rparr>) PRODUCT db3
      in ((a, b, c, d), db4))"

subsection \<open>What the query returns\<close>

definition condition_met :: "asset_props \<Rightarrow> condition_row \<Rightarrow> bool" where
  \<comment> \<open>one of the values of the condition is a value of the asset\<close>
  "condition_met asset c =
     (case cd_type c of
        PRODUCT_CATEGORY \<Rightarrow> (case ap_product asset of None \<Rightarrow> False | Some p \<Rightarrow> pr_categoryId p \<in> set (cd_value c))
      | MANUFACTURER \<Rightarrow> (case ap_product asset of None \<Rightarrow> False | Some p \<Rightarrow> pr_manufacturerId p \<in> set (cd_value c))
      | PRODUCT \<Rightarrow> (case ap_product asset of None \<Rightarrow> False | Some p \<Rightarrow> pr_id p \<in> set (cd_value c))
      | REGION \<Rightarrow> truthy (ap_state asset) \<and> normalizeState (the (ap_state asset)) \<in> set (cd_value c)
      | METADATA \<Rightarrow> set (key_pairs asset) \<inter> set (cd_value c) \<noteq> {})"

lemma or_clauses_condition: "list_ex (\<lambda>f. f c) (orWhereClauses asset) \<longleftrightarrow> condition_met asset c"
proof -
  have "list_ex (List.member (key_pairs asset)) vs \<longleftrightarrow> set (key_pairs asset) \<inter> set vs \<noteq> {}" for vs
    by (auto simp: list_ex_iff)
  then show ?thesis
    by (cases "cd_type c"; cases "ap_product asset") (simp_all add: orWhereClauses_def condition_met_def)
qed

definition conditions_of :: "rls_session \<Rightarrow> question_db \<Rightarrow> id \<Rightarrow> condition_row list" where
  "conditions_of sess db i = filter (\<lambda>c. condition_visible sess c \<and> cd_questionId c = i) (qd_conditions db)"

definition customizations_of :: "rls_session \<Rightarrow> question_db \<Rightarrow> id \<Rightarrow> customization_row list" where
  "customizations_of sess db i = filter (\<lambda>z. customization_visible sess z \<and> cz_questionId z = i) (qd_customizations db)"

definition rows_of ::
    "rls_session \<Rightarrow> bool \<Rightarrow> question_db \<Rightarrow> question_row \<Rightarrow> (question_row \<times> condition_row option \<times> customization_row option) list" where
  "rows_of sess u db q =
     concat (map (\<lambda>c. map (\<lambda>z. (q, c, z)) (if u then left_join (customizations_of sess db (qu_id q)) else [None]))
       (left_join (conditions_of sess db (qu_id q))))"

lemma question_rows_alt: "question_rows sess u db = concat (map (rows_of sess u db) (filter (question_visible sess) (qd_questions db)))"
  unfolding question_rows_def rows_of_def [abs_def] conditions_of_def customizations_of_def ..

lemma rows_of_fst: "r \<in> set (rows_of sess u db q) \<Longrightarrow> fst r = q"
  by (auto simp: rows_of_def)

lemma filter_concat_unique:
  assumes "distinct (map key qs)" and "q \<in> set qs" and "\<And>q r. r \<in> set (f q) \<Longrightarrow> fst r = q"
  shows "filter (\<lambda>r. key (fst r) = key q) (concat (map f qs)) = f q"
  using assms(1,2)
proof (induction qs)
  case (Cons x xs)
  have self: "filter (\<lambda>r. key (fst r) = key q) (f y) = (if key y = key q then f y else [])" for y
    using assms(3) by (auto simp: filter_id_conv filter_empty_conv)
  have none: "filter (\<lambda>r. key (fst r) = key q) (concat (map f xs)) = []" if "key q \<notin> key ` set xs"
    using that assms(3) by (fastforce simp: filter_empty_conv image_iff)
  show ?case
  proof (cases "x = q")
    case True
    with Cons.prems none show ?thesis by (simp add: self)
  next
    case False
    with Cons.prems have q: "q \<in> set xs" and "key x \<noteq> key q" by auto
    with Cons.IH Cons.prems(1) show ?thesis by (simp add: self)
  qed
qed simp

text \<open>The column \<open>assetQuestionId\<close> of a customization is unique, so the join adds at most one row to each condition.\<close>

lemma one_customization:
  assumes "distinct (map cz_questionId (qd_customizations db))"
  shows "\<exists>z. (if u then left_join (customizations_of sess db i) else [None]) = [z]
     \<and> (u \<longrightarrow> (z = None \<or> cz_enabled (the z)) = (\<forall>z\<in>set (customizations_of sess db i). cz_enabled z))"
proof (cases u)
  case True
  have "length (customizations_of sess db i) \<le> 1"
    using assms unfolding customizations_of_def
  proof (induction "qd_customizations db" arbitrary: db)
    case (Cons z zs)
    have d: "distinct (map cz_questionId zs)" and n: "cz_questionId z \<notin> cz_questionId ` set zs"
      using Cons.prems Cons.hyps(2) [symmetric] by auto
    from Cons.hyps(1) [of "db\<lparr>qd_customizations := zs\<rparr>"] d
    have IH: "length (filter (\<lambda>z. customization_visible sess z \<and> cz_questionId z = i) zs) \<le> 1" by simp
    have "filter (\<lambda>z. customization_visible sess z \<and> cz_questionId z = i) zs = []" if "cz_questionId z = i"
      using n that by (auto simp: filter_empty_conv image_iff)
    with IH show ?case unfolding Cons.hyps(2) [symmetric] by auto
  qed simp
  then consider "customizations_of sess db i = []" | z where "customizations_of sess db i = [z]"
    by (cases "customizations_of sess db i") (auto simp: Suc_le_eq)
  then show ?thesis using True by cases (simp_all add: left_join_def)
qed simp

lemma length_filter_all: "length (filter P xs) = length xs \<longleftrightarrow> (\<forall>x\<in>set xs. P x)"
  using length_filter_less [of _ xs P] by fastforce

lemma count_rows:
  assumes "distinct (map cz_questionId (qd_customizations db))"
    and C_def: "C = conditions_of sess db (qu_id q)"
  shows "filter (where_clause u type asset) (rows_of sess u db q) \<noteq> []
       \<and> length (filter (where_clause u type asset) (rows_of sess u db q)) = length C
     \<longleftrightarrow> qu_active q \<and> qu_parentQuestionId q = None \<and> type_clause type q
       \<and> (u \<longrightarrow> (\<forall>z\<in>set (customizations_of sess db (qu_id q)). cz_enabled z))
       \<and> C \<noteq> [] \<and> (\<forall>c\<in>set C. condition_met asset c)"
proof -
  obtain z where z: "(if u then left_join (customizations_of sess db (qu_id q)) else [None]) = [z]"
    and e: "u \<longrightarrow> (z = None \<or> cz_enabled (the z)) = (\<forall>z\<in>set (customizations_of sess db (qu_id q)). cz_enabled z)"
    using one_customization [OF assms(1), of u sess "qu_id q"] by blast
  have rows: "rows_of sess u db q = map (\<lambda>c. (q, c, z)) (left_join C)"
    unfolding rows_of_def C_def z by (induction "left_join (conditions_of sess db (qu_id q))") simp_all
  let ?base = "qu_active q \<and> qu_parentQuestionId q = None \<and> type_clause type q \<and> (\<not> u \<or> z = None \<or> cz_enabled (the z))"
  have w: "where_clause u type asset (q, c, z) \<longleftrightarrow> ?base \<and> (case c of None \<Rightarrow> False | Some d \<Rightarrow> condition_met asset d)" for c
    by (auto simp: where_clause_def or_clauses_condition split: option.split)
  have len: "length (filter (where_clause u type asset) (rows_of sess u db q)) = (if ?base then length (filter (condition_met asset) C) else 0)"
  proof (cases "C = []")
    case True
    then show ?thesis unfolding rows by (simp add: left_join_def w)
  next
    case False
    then have "rows_of sess u db q = map (\<lambda>d. (q, Some d, z)) C" unfolding rows by (simp add: left_join_def)
    then show ?thesis by (cases ?base) (auto simp: filter_map comp_def w filter_empty_conv)
  qed
  have "filter (where_clause u type asset) (rows_of sess u db q) \<noteq> []
       \<and> length (filter (where_clause u type asset) (rows_of sess u db q)) = length C
     \<longleftrightarrow> 0 < length C \<and> length (filter (where_clause u type asset) (rows_of sess u db q)) = length C"
    by (metis length_greater_0_conv)
  also have "\<dots> \<longleftrightarrow> ?base \<and> C \<noteq> [] \<and> length (filter (condition_met asset) C) = length C"
    unfolding len by auto
  finally show ?thesis unfolding length_filter_all using e by blast
qed

lemma question_groups:
  assumes "distinct (map qu_id (qd_questions db))"
  shows "(i, g) \<in> set (group_by (\<lambda>r. qu_id (fst r)) (filter (where_clause u type asset) (question_rows sess u db)))
      \<longleftrightarrow> (\<exists>q\<in>set (filter (question_visible sess) (qd_questions db)).
            qu_id q = i \<and> g = filter (where_clause u type asset) (rows_of sess u db q) \<and> g \<noteq> [])"
proof -
  let ?u = u and ?vis = "filter (question_visible sess) (qd_questions db)"
  let ?W = "where_clause ?u type asset"
  let ?rows = "filter ?W (question_rows sess ?u db)"
  have dv: "distinct (map qu_id ?vis)" by (rule distinct_map_filter [OF assms])
  have rows: "filter (\<lambda>r. qu_id (fst r) = qu_id q) ?rows = filter ?W (rows_of sess ?u db q)" if "q \<in> set ?vis" for q
  proof -
    have "filter (\<lambda>r. qu_id (fst r) = qu_id q) ?rows = filter ?W (filter (\<lambda>r. qu_id (fst r) = qu_id q) (question_rows sess ?u db))"
      unfolding filter_filter by (rule filter_cong [OF refl]) auto
    also have "filter (\<lambda>r. qu_id (fst r) = qu_id q) (question_rows sess ?u db) = rows_of sess ?u db q"
      unfolding question_rows_alt by (rule filter_concat_unique [OF dv that]) (rule rows_of_fst)
    finally show ?thesis .
  qed
  have ex: "\<exists>q\<in>set ?vis. qu_id q = i" if "filter (\<lambda>r. qu_id (fst r) = i) ?rows \<noteq> []"
    using that by (auto simp: filter_empty_conv question_rows_alt dest: rows_of_fst)
  show ?thesis unfolding group_by_mem_iff
  proof
    assume g: "g = filter (\<lambda>r. qu_id (fst r) = i) ?rows \<and> g \<noteq> []"
    then obtain q where q: "q \<in> set ?vis" "qu_id q = i" using ex by blast
    from g have "g = filter ?W (rows_of sess ?u db q)" using rows [OF q(1)] unfolding q(2) by (elim conjE) (rule trans)
    with q g show "\<exists>q\<in>set ?vis. qu_id q = i \<and> g = filter ?W (rows_of sess ?u db q) \<and> g \<noteq> []" by (elim conjE) (intro bexI conjI)
  next
    assume "\<exists>q\<in>set ?vis. qu_id q = i \<and> g = filter ?W (rows_of sess ?u db q) \<and> g \<noteq> []"
    then obtain q where q: "q \<in> set ?vis" "qu_id q = i" "g = filter ?W (rows_of sess ?u db q)" "g \<noteq> []" by blast
    show "g = filter (\<lambda>r. qu_id (fst r) = i) ?rows \<and> g \<noteq> []"
      using rows [OF q(1)] q(4) unfolding q(2) q(3) by (intro conjI) (rule sym)
  qed
qed

lemma question_ids_iff:
  assumes "distinct (map qu_id (qd_questions db))" and "distinct (map cz_questionId (qd_customizations db))"
  shows "i \<in> set (findQuestionIdsByAsset sess intent asset type db) \<longleftrightarrow>
     (\<exists>q\<in>set (qd_questions db). qu_id q = i \<and> question_visible sess q \<and> qu_active q \<and> qu_parentQuestionId q = None
        \<and> type_clause type q \<and> (intent \<noteq> system \<longrightarrow> (\<forall>z\<in>set (customizations_of sess db i). cz_enabled z))
        \<and> conditions_of sess db i \<noteq> [] \<and> (\<forall>c\<in>set (conditions_of sess db i). condition_met asset c))"
    (is "?in \<longleftrightarrow> (\<exists>q\<in>_. ?ok q)")
proof -
  let ?u = "intent \<noteq> system" and ?vis = "filter (question_visible sess) (qd_questions db)"
  let ?W = "where_clause ?u type asset"
  let ?rows = "filter ?W (question_rows sess ?u db)"
  note grp = question_groups [OF assms(1)]
  have "i \<in> set (map fst (filter (\<lambda>(i, rows). length rows = length (conditions_of sess db i)) (group_by (\<lambda>r. qu_id (fst r)) ?rows)))
      \<longleftrightarrow> (\<exists>g. (i, g) \<in> set (group_by (\<lambda>r. qu_id (fst r)) ?rows) \<and> length g = length (conditions_of sess db i))"
    by force
  also have "\<dots> \<longleftrightarrow> (\<exists>q\<in>set ?vis. qu_id q = i \<and> filter ?W (rows_of sess ?u db q) \<noteq> []
            \<and> length (filter ?W (rows_of sess ?u db q)) = length (conditions_of sess db (qu_id q)))"
    unfolding grp by blast
  also have "\<dots> \<longleftrightarrow> (\<exists>q\<in>set (qd_questions db). ?ok q)"
    unfolding count_rows [OF assms(2) refl] by (simp only: set_filter) blast
  finally have mem: "i \<in> set (map fst (filter (\<lambda>(i, rows). length rows = length (conditions_of sess db i)) (group_by (\<lambda>r. qu_id (fst r)) ?rows)))
      \<longleftrightarrow> (\<exists>q\<in>set (qd_questions db). ?ok q)" .
  show ?thesis
  proof (cases "orWhereClauses asset = []")
    case True
    have "\<not> condition_met asset c" for c using or_clauses_condition [of c asset] True by simp
    with True show ?thesis
      by (auto simp: findQuestionIdsByAsset_def neq_Nil_conv)
  next
    case False
    show ?thesis
      using mem unfolding findQuestionIdsByAsset_def Let_def conditions_of_def [symmetric] if_not_P [OF False] .
  qed
qed

text \<open>
  C18: the query by counting returns exactly the questions all of whose conditions are met. A question is
  asked of an asset if and only if the caller sees it, it is active and not a variant, it has the
  requested type, no customization the caller sees disables it (for requests that are not the system's),
  it has at least one condition, and the asset meets every one of them, that is one of the values of
  each. (For unique question identifiers and the unique column of the customizations. The requested type is \<open>type_clause\<close>:
  for set-up and for inspection the questions of that type and those of both, for another type exactly that, and for
  \<open>SETUP_AND_INSPECTION\<close>, as for no type at all, questions of every type, because the query then has no condition on the column. Conditions and customizations are the rows that the policies show to the
  session; a condition it does not see does not count.)
\<close>

theorem findQuestionIdsByAsset_correct:
  assumes "distinct (map qu_id (qd_questions db))" and "distinct (map cz_questionId (qd_customizations db))"
  shows "i \<in> set (findQuestionIdsByAsset sess intent asset type db) \<longleftrightarrow>
     (\<exists>q\<in>set (qd_questions db). qu_id q = i \<and> question_visible sess q \<and> qu_active q \<and> qu_parentQuestionId q = None
        \<and> type_clause type q \<and> (intent \<noteq> system \<longrightarrow> (\<forall>z\<in>set (customizations_of sess db i). cz_enabled z))
        \<and> conditions_of sess db i \<noteq> [] \<and> (\<forall>c\<in>set (conditions_of sess db i). condition_met asset c))"
  by (rule question_ids_iff [OF assms])

definition ex_ctx_client :: rls_context where
  "ex_ctx_client = \<lparr>rls_personId = ''u1'', rls_clientId = ''c1'', rls_siteId = ''s1'', rls_allowedSiteIds = [], rls_scope = CLIENT\<rparr>"

definition ex_props :: asset_props where
  "ex_props = \<lparr>ap_product = Some \<lparr>pr_id = ''p1'', pr_categoryId = ''g1'', pr_manufacturerId = ''m1'', pr_metadata = None, pr_clientId = None\<rparr>,
     ap_state = Some ''Ohio'', ap_metadata = None\<rparr>"

definition ex_question_db :: "customization_row list \<Rightarrow> question_db" where
  "ex_question_db zs = \<lparr>qd_questions = [ex_question],
     qd_conditions = [\<lparr>cd_id = ''d1'', cd_questionId = ''q1'', cd_type = PRODUCT_CATEGORY, cd_value = [''g0'', ''g1''], cd_clientId = None\<rparr>,
       \<lparr>cd_id = ''d2'', cd_questionId = ''q1'', cd_type = REGION, cd_value = [''OH''], cd_clientId = None\<rparr>],
     qd_customizations = zs\<rparr>"

theorem findQuestionIdsByAsset_correct_witness:
  "''q1'' \<in> set (findQuestionIdsByAsset (Tenant ex_ctx_client) user_intent ex_props (Some SETUP) (ex_question_db []))"
proof -
  have d: "distinct (map qu_id (qd_questions (ex_question_db [])))" "distinct (map cz_questionId (qd_customizations (ex_question_db [])))"
    by (simp_all add: ex_question_db_def)
  have c: "conditions_of (Tenant ex_ctx_client) (ex_question_db []) ''q1'' = qd_conditions (ex_question_db [])" by code_simp
  have n: "normalizeState ''Ohio'' = ''OH''" by code_simp
  have q: "question_visible (Tenant ex_ctx_client) ex_question" "type_clause (Some SETUP) ex_question" by code_simp+
  show ?thesis
    unfolding findQuestionIdsByAsset_correct [OF d] c customizations_of_def
    using q n by (auto simp: ex_question_db_def ex_question_def condition_met_def ex_props_def)
qed

text \<open>
  The policy of the question customizations leaks across clients. Its condition is the disjunction
  of the client check (for rows without a site) and the site check alone, and the site check accepts
  everything for a client-wide scope: such a session sees the customizations of all clients, and a
  question that any other client has disabled is not asked in its own organization either.
\<close>

theorem customization_leak:
  assumes "rls_scope ctx = CLIENT" and "distinct (map qu_id (qd_questions db))" and "distinct (map cz_questionId (qd_customizations db))"
    and "z \<in> set (qd_customizations db)" and "\<not> cz_enabled z" and "cz_clientId z \<noteq> rls_clientId ctx" and "intent \<noteq> system"
  shows "cz_questionId z \<notin> set (findQuestionIdsByAsset (Tenant ctx) intent asset type db)"
proof -
  have "customization_visible (Tenant ctx) z"
    using assms(1) by (auto simp: customization_visible_def validate_site_opt_def validate_site_def split: option.split)
  then have "z \<in> set (customizations_of (Tenant ctx) db (cz_questionId z))" using assms(4) by (simp add: customizations_of_def)
  then show ?thesis using assms(5,7) unfolding question_ids_iff [OF assms(2,3)] by blast
qed

theorem customization_leak_witness:
  "''q1'' \<notin> set (findQuestionIdsByAsset (Tenant ex_ctx_client) user_intent ex_props (Some SETUP)
     (ex_question_db [\<lparr>cz_id = ''z1'', cz_questionId = ''q1'', cz_enabled = False, cz_clientId = ''c2'', cz_siteId = None\<rparr>]))"
  using customization_leak [of ex_ctx_client "ex_question_db [\<lparr>cz_id = ''z1'', cz_questionId = ''q1'', cz_enabled = False, cz_clientId = ''c2'', cz_siteId = None\<rparr>]"
      "\<lparr>cz_id = ''z1'', cz_questionId = ''q1'', cz_enabled = False, cz_clientId = ''c2'', cz_siteId = None\<rparr>" user_intent ex_props "Some SETUP"]
  by (simp add: ex_ctx_client_def ex_question_db_def)

subsection \<open>Configuring an asset meets its configuration\<close>

definition configs_of :: "question_row \<Rightarrow> metadata_config list" where
  "configs_of q = nullish_or (Option.bind (qu_metadataConfig q) CreateSetAssetMetadataConfigSchema) []"

definition acceptable_answer :: "json \<Rightarrow> question_row \<Rightarrow> bool" where
  \<comment> \<open>a text that is not empty and, for a choice with valid options, one of them\<close>
  "acceptable_answer v q \<longleftrightarrow>
     (\<exists>s. v = JStr s \<and> s \<noteq> []
        \<and> (qu_valueType q = SELECT \<longrightarrow> (\<forall>os. Option.bind (qu_selectOptions q) parse_select_options = Some os \<longrightarrow> s \<in> set os)))"

lemma metadata_entries_alt:
  "metadata_entries (v, q) = map (\<lambda>c. case c of Static k s \<Rightarrow> (k, JStr s) | Dynamic k \<Rightarrow> (k, v)) (configs_of q)"
  unfolding metadata_entries_def configs_of_def fst_conv snd_conv by (simp split: option.split)

lemma audit_config_met:
  assumes "acceptable_answer v q" and "map_of ob (fst e) = Some (snd e)" and "e = (case c of Static k s \<Rightarrow> (k, JStr s) | Dynamic k \<Rightarrow> (k, v))"
  shows "ae_isMet (audit_config ob q c)"
  using assms by (cases c) (auto simp: audit_config_def acceptable_answer_def js_truthy_def list_ex_iff Let_def split: option.split)

lemma metadata_audit_configs:
  "metadata_audit m qs = concat (map (\<lambda>q. map (audit_config (nullish_or (getValidatedMetadata m) []) q) (configs_of q)) qs)"
  unfolding metadata_audit_def Let_def
  by (rule arg_cong [where f = concat], rule map_cong [OF refl]) (simp add: configs_of_def split: option.split)

lemma written_metadata:
  assumes "find_by as_id (as_id asset) (ad_assets db) = Some asset" and "concat (map metadata_entries answers) \<noteq> []"
  shows "find_by as_id (as_id asset) (ad_assets (handleSetMetadataFromConfigs asset answers db))
    = Some (asset\<lparr>as_metadata := Some (JObj (assign (existing_metadata (as_metadata asset)) (assign [] (concat (map metadata_entries answers)))))\<rparr>)"
proof -
  let ?raw = "concat (map metadata_entries answers)" and ?ob = "existing_metadata (as_metadata asset)"
  obtain k v where "(k, v) \<in> set ?raw" using assms(2) by (cases ?raw) force+
  then have "map_of (assign [] ?raw) k \<noteq> None" by (auto simp: map_of_assign map_of_eq_None_iff rev_image_eqI split: option.split)
  then have ne: "assign [] ?raw \<noteq> []" by auto
  let ?upd = "\<lambda>a. if as_id a = as_id asset then a\<lparr>as_metadata := Some (JObj (assign ?ob (assign [] ?raw)))\<rparr> else a"
  have "find_by as_id (as_id asset) (map ?upd (ad_assets db)) = Some (?upd asset)" by (rule find_by_map_same [OF assms(1)]) simp
  then show ?thesis using ne by (simp add: handleSetMetadataFromConfigs_def Let_def)
qed

lemma written_entry:
  assumes "distinct (map fst raw)" and "e \<in> set raw"
  shows "map_of (assign ob (assign [] raw)) (fst e) = Some (snd e)"
proof -
  have "map_of raw (fst e) = Some (snd e)" using assms by (simp add: map_of_eq_Some_iff)
  then have "map_of (assign [] raw) (fst e) = Some (snd e)" unfolding map_of_assign map_of_rev_distinct [OF assms(1)] by (simp only: option.case)
  moreover have "distinct (map fst (assign [] raw))" by (simp add: distinct_assign)
  ultimately show ?thesis unfolding map_of_assign [of ob] by (simp only: map_of_rev_distinct option.case)
qed

lemma answered_audit_met:
  assumes "\<forall>(v, q)\<in>set answers. acceptable_answer v q" and "distinct (map fst (concat (map metadata_entries answers)))"
    and "q \<in> snd ` set answers" and "c \<in> set (configs_of q)"
  shows "ae_isMet (audit_config (assign ob (assign [] (concat (map metadata_entries answers)))) q c)"
proof -
  from assms(3) obtain v where v: "(v, q) \<in> set answers" by auto
  let ?e = "case c of Static k s \<Rightarrow> (k, JStr s) | Dynamic k \<Rightarrow> (k, v)"
  have "?e \<in> set (concat (map metadata_entries answers))" using v assms(4) by (auto simp: metadata_entries_alt intro!: bexI [of _ "(v, q)"])
  from audit_config_met [OF _ written_entry [OF assms(2) this] refl] v assms(1) show ?thesis by auto
qed

text \<open>
  C19: answering the configuration questions of an asset satisfies its configuration check, whatever metadata the asset
  has before, none included. When each question gets a text that is not empty and one of its options, and no two configurations
  name the same key, then the answers are written to the metadata, and with the metadata written a check finds
  everything met if the questions that apply to the asset then are among those answered.
\<close>

theorem configuration_met_after_answers:
  assumes "find_by as_id (as_id asset) (ad_assets db) = Some asset"
    and "\<forall>(v, q)\<in>set answers. acceptable_answer v q"
    and "distinct (map fst (concat (map metadata_entries answers)))"
  shows "\<exists>asset'. find_by as_id (as_id asset) (ad_assets (handleSetMetadataFromConfigs asset answers db)) = Some asset'
     \<and> list_all ae_isMet (metadata_audit (as_metadata asset') (map snd answers))
     \<and> (\<forall>sess intent props qdb. ap_metadata props = as_metadata asset'
          \<and> set (filter (\<lambda>q. question_visible sess q \<and> qu_id q \<in> set (findQuestionIdsByAsset sess intent props (Some CONFIGURATION) qdb)) (qd_questions qdb)) \<subseteq> snd ` set answers
          \<longrightarrow> snd (checkAssetConfiguration sess intent props qdb))"
proof -
  obtain asset' where found: "find_by as_id (as_id asset) (ad_assets (handleSetMetadataFromConfigs asset answers db)) = Some asset'"
    and met: "\<And>q c. q \<in> snd ` set answers \<Longrightarrow> c \<in> set (configs_of q)
      \<Longrightarrow> ae_isMet (audit_config (nullish_or (getValidatedMetadata (as_metadata asset')) []) q c)"
  proof (cases "concat (map metadata_entries answers) = []")
    case True
    then have "configs_of q = []" if "q \<in> snd ` set answers" for q
      using that by (force simp: metadata_entries_alt)
    moreover have "handleSetMetadataFromConfigs asset answers db = db"
      unfolding handleSetMetadataFromConfigs_def Let_def True by (simp add: assign_def)
    ultimately show ?thesis using assms(1) by (intro that) simp_all
  next
    case False
    then show ?thesis
      by (intro that [OF written_metadata [OF assms(1) False]])
        (simp add: getValidatedMetadata_def nullish_or_def answered_audit_met [OF assms(2,3)])
  qed
  have all: "list_all ae_isMet (metadata_audit (as_metadata asset') qs)" if "set qs \<subseteq> snd ` set answers" for qs
    using that met unfolding metadata_audit_configs by (auto simp: list_all_iff)
  show ?thesis
    by (intro exI [of _ asset'] conjI found allI impI all) (auto simp: checkAssetConfiguration_def Let_def intro!: all)
qed

definition ex_fresh_asset :: asset_row where
  "ex_fresh_asset = ex_answer_asset\<lparr>as_metadata := None\<rparr>"

theorem configuration_met_after_answers_witness:
  "as_metadata ex_fresh_asset = None
   \<and> list_all ae_isMet (metadata_audit (Some (JObj [(''size'', JStr ''L'')])) [ex_question])
   \<and> \<not> list_all ae_isMet (metadata_audit None [ex_question])"
proof -
  let ?db = "ex_asset_db\<lparr>ad_assets := [ex_fresh_asset]\<rparr>"
  have f: "find_by as_id (as_id ex_fresh_asset) (ad_assets ?db) = Some ex_fresh_asset" by code_simp
  have a: "\<forall>(v, q)\<in>set [(JStr ''L'', ex_question)]. acceptable_answer v q" by (simp add: acceptable_answer_def ex_question_def)
  have d: "distinct (map fst (concat (map metadata_entries [(JStr ''L'', ex_question)])))" by code_simp
  have g: "find_by as_id (as_id ex_fresh_asset) (ad_assets (handleSetMetadataFromConfigs ex_fresh_asset [(JStr ''L'', ex_question)] ?db))
      = Some (ex_fresh_asset\<lparr>as_metadata := Some (JObj [(''size'', JStr ''L'')])\<rparr>)" by code_simp
  from configuration_met_after_answers [OF f a d] g
  have "list_all ae_isMet (metadata_audit (Some (JObj [(''size'', JStr ''L'')])) [ex_question])" by auto
  moreover have "as_metadata ex_fresh_asset = None" by (simp add: ex_fresh_asset_def)
  moreover have "\<not> list_all ae_isMet (metadata_audit None [ex_question])" by code_simp
  ultimately show ?thesis by blast
qed

subsection \<open>The migration\<close>

definition extends :: "question_db \<Rightarrow> question_db \<Rightarrow> bool" where
  "extends db db' \<longleftrightarrow> qd_questions db' = qd_questions db \<and> (\<exists>new. qd_conditions db' = qd_conditions db @ new)
     \<and> qd_customizations db' = qd_customizations db"

lemma extends_refl [simp]: "extends db db"
  by (simp add: extends_def)

lemma extends_trans: "extends a b \<Longrightarrow> extends b c \<Longrightarrow> extends a c"
  by (auto simp: extends_def)

lemma migrate_one_extends: "extends (snd st) (snd (migrate_one column ctype owner newId st q))"
  by (auto simp: migrate_one_def extends_def split: option.split)

lemma migrate_column_extends: "extends (snd st) (snd (migrate_column column ctype owner newId qs st))"
  unfolding migrate_column_def
proof (induction qs arbitrary: st)
  case (Cons q qs)
  show ?case unfolding foldl_Cons by (rule extends_trans [OF migrate_one_extends Cons.IH])
qed simp

lemma has_condition_extends: "has_condition db i ctype v \<Longrightarrow> extends db db' \<Longrightarrow> has_condition db' i ctype v"
  by (auto simp: has_condition_def extends_def list_ex_iff)

lemma migrate_one_adds:
  "column q = Some v \<Longrightarrow> owner v \<noteq> None \<Longrightarrow> has_condition (snd (migrate_one column ctype owner newId st q)) (qu_id q) ctype v"
  by (auto simp: migrate_one_def has_condition_def list_ex_iff split: option.split)

lemma migrate_column_adds:
  assumes "q \<in> set qs" and "column q = Some v" and "owner v \<noteq> None"
  shows "has_condition (snd (migrate_column column ctype owner newId qs st)) (qu_id q) ctype v"
  using assms(1)
proof (induction qs arbitrary: st)
  case (Cons x xs)
  have step: "migrate_column column ctype owner newId (x # xs) st = migrate_column column ctype owner newId xs (migrate_one column ctype owner newId st x)"
    by (simp add: migrate_column_def)
  show ?case
  proof (cases "q = x")
    case True
    have "has_condition (snd (migrate_one column ctype owner newId st q)) (qu_id q) ctype v"
      by (rule migrate_one_adds) (rule assms)+
    from has_condition_extends [OF this migrate_column_extends] show ?thesis unfolding step unfolding True [symmetric] .
  next
    case False
    with Cons show ?thesis unfolding step by simp
  qed
qed simp

lemma has_condition_some: "has_condition db i ctype v \<Longrightarrow> list_ex (\<lambda>c. cd_questionId c = i \<and> cd_type c = ctype) (qd_conditions db)"
  by (auto simp: has_condition_def list_ex_iff)

lemma migrate_none: "(\<And>q. q \<in> set qs \<Longrightarrow> column q = None) \<Longrightarrow> migrate_column column ctype owner newId qs (n, db) = (n, db)"
  unfolding migrate_column_def by (induction qs) (simp_all add: migrate_one_def)

lemma clear_none: "(\<And>q. q \<in> set (qd_questions db) \<Longrightarrow> column q = None) \<Longrightarrow> clear_column column clear ctype db = (0, db)"
  by (auto simp: clear_column_def Let_def filter_empty_conv intro!: question_db.equality map_idI)

lemma clear_column_none:
  assumes "\<And>q. q \<in> set (qd_questions db) \<Longrightarrow> column q \<noteq> None \<Longrightarrow> list_ex (\<lambda>c. cd_questionId c = qu_id q \<and> cd_type c = ctype) (qd_conditions db)"
    and "\<And>q. column (clear q) = None" and "q \<in> set (qd_questions (snd (clear_column column clear ctype db)))"
  shows "column q = None"
proof -
  from assms(3) obtain x where x: "x \<in> set (qd_questions db)"
    and q: "q = (if column x \<noteq> None \<and> list_ex (\<lambda>c. cd_questionId c = qu_id x \<and> cd_type c = ctype) (qd_conditions db) then clear x else x)"
    by (auto simp: clear_column_def Let_def)
  show ?thesis
  proof (cases "column x = None")
    case False
    with assms(1) [OF x] assms(2) show ?thesis unfolding q by (simp del: not_None_eq)
  qed (simp add: q)
qed

lemma clear_column_frame: "qd_conditions (snd (clear_column column clear ctype db)) = qd_conditions db"
  by (simp add: clear_column_def Let_def)

lemma migrate_column_Nil [simp]: "migrate_column column ctype owner newId [] st = st"
  by (simp add: migrate_column_def)

lemma columns_cleared:
  assumes "\<And>q v. q \<in> set (qd_questions db) \<Longrightarrow> qu_productCategoryId q = Some v \<Longrightarrow> has_condition db (qu_id q) PRODUCT_CATEGORY v"
    and "\<And>q v. q \<in> set (qd_questions db) \<Longrightarrow> qu_productId q = Some v \<Longrightarrow> has_condition db (qu_id q) PRODUCT v"
    and "db1 = snd (clear_column qu_productCategoryId (\<lambda>q. q\<lparr>qu_productCategoryId := None\<rparr>) PRODUCT_CATEGORY db)"
    and "db2 = snd (clear_column qu_productId (\<lambda>q. q\<lparr>qu_productId := None\<rparr>) PRODUCT db1)"
    and "q \<in> set (qd_questions db2)"
  shows "qu_productCategoryId q = None \<and> qu_productId q = None"
proof
  have n1: "qu_productCategoryId x = None" if "x \<in> set (qd_questions db1)" for x
  proof (rule clear_column_none [OF _ _ that [unfolded assms(3)]])
    fix y assume "y \<in> set (qd_questions db)" "qu_productCategoryId y \<noteq> None"
    then show "list_ex (\<lambda>c. cd_questionId c = qu_id y \<and> cd_type c = PRODUCT_CATEGORY) (qd_conditions db)"
      using assms(1) has_condition_some by blast
  qed simp
  from assms(5) obtain x where "x \<in> set (qd_questions db1)" "qu_productCategoryId x = qu_productCategoryId q"
    by (auto simp: assms(4) clear_column_def Let_def split: if_splits)
  with n1 show "qu_productCategoryId q = None" by metis
  show "qu_productId q = None"
  proof (rule clear_column_none [OF _ _ assms(5) [unfolded assms(4)]])
    fix y assume y: "y \<in> set (qd_questions db1)" "qu_productId y \<noteq> None"
    then obtain z where "z \<in> set (qd_questions db)" "qu_id z = qu_id y" "qu_productId z = qu_productId y"
      by (auto simp: assms(3) clear_column_def Let_def split: if_splits)
    with y(2) assms(2) show "list_ex (\<lambda>c. cd_questionId c = qu_id y \<and> cd_type c = PRODUCT) (qd_conditions db1)"
      unfolding assms(3) clear_column_frame by (metis has_condition_some option.exhaust)
  qed simp
qed

text \<open>
  The client of the category or product that the code writes into a migrated condition is not the one stored: the
  trigger replaces it by the client of the question.
\<close>

lemma migrated_condition_owner:
  "qd_conditions (snd (migrate_one column ctype owner newId st q))
     = qd_conditions (snd (migrate_one column ctype (\<lambda>v. map_option (\<lambda>_. other) (owner v)) newId st q))"
  by (auto simp: migrate_one_def set_question_condition_client_id_def split: option.split)

text \<open>
  The migration loses nothing and is idempotent. When every referenced category and product
  exists, then afterwards no question has a value in the two old columns; every question that had a
  category or product has a condition of that kind with that value; no condition is removed; and a
  second run creates and clears nothing and leaves the tables as they are.
\<close>

theorem migration_idempotent:
  assumes "\<forall>q\<in>set (qd_questions db). pred_option (\<lambda>v. categoryOwner v \<noteq> None) (qu_productCategoryId q)
       \<and> pred_option (\<lambda>v. productOwner v \<noteq> None) (qu_productId q)"
    and "migrateQuestionsToConditions categoryOwner productOwner newId db = (counts, db')"
  shows "(\<forall>q\<in>set (qd_questions db'). qu_productCategoryId q = None \<and> qu_productId q = None)
     \<and> (\<forall>q\<in>set (qd_questions db). pred_option (has_condition db' (qu_id q) PRODUCT_CATEGORY) (qu_productCategoryId q)
          \<and> pred_option (has_condition db' (qu_id q) PRODUCT) (qu_productId q))
     \<and> (\<exists>new. qd_conditions db' = qd_conditions db @ new)
     \<and> migrateQuestionsToConditions categoryOwner productOwner newId db' = ((0, 0, 0, 0), db')"
proof -
  obtain a db1 where 1: "migrate_column qu_productCategoryId PRODUCT_CATEGORY categoryOwner newId
      (filter (\<lambda>q. qu_productCategoryId q \<noteq> None) (qd_questions db)) (0, db) = (a, db1)" by fastforce
  obtain b db2 where 2: "migrate_column qu_productId PRODUCT productOwner (\<lambda>n. newId (a + n))
      (filter (\<lambda>q. qu_productId q \<noteq> None) (qd_questions db1)) (0, db1) = (b, db2)" by fastforce
  let ?c1 = "clear_column qu_productCategoryId (\<lambda>q. q\<lparr>qu_productCategoryId := None\<rparr>) PRODUCT_CATEGORY"
  let ?c2 = "clear_column qu_productId (\<lambda>q. q\<lparr>qu_productId := None\<rparr>) PRODUCT"
  have db': "db' = snd (?c2 (snd (?c1 db2)))"
    using assms(2) unfolding migrateQuestionsToConditions_def Let_def 1 prod.case 2 by (auto simp: case_prod_beta)
  have e1: "extends db db1" and e2: "extends db1 db2"
    using migrate_column_extends [of "(0, db)"] migrate_column_extends [of "(0, db1)"] 1 2 by (metis snd_conv)+
  have qs: "qd_questions db1 = qd_questions db" "qd_questions db2 = qd_questions db" using e1 e2 by (simp_all add: extends_def)
  have h1: "has_condition db2 (qu_id q) PRODUCT_CATEGORY v" if "q \<in> set (qd_questions db)" "qu_productCategoryId q = Some v" for q v
  proof -
    have "categoryOwner v \<noteq> None" using assms(1) that by auto
    with that have "has_condition (snd (a, db1)) (qu_id q) PRODUCT_CATEGORY v"
      unfolding 1 [symmetric] by (intro migrate_column_adds) simp_all
    with has_condition_extends [OF _ e2] show ?thesis by simp
  qed
  have h2: "has_condition db2 (qu_id q) PRODUCT v" if "q \<in> set (qd_questions db)" "qu_productId q = Some v" for q v
  proof -
    have "productOwner v \<noteq> None" using assms(1) that by auto
    with that have "has_condition (snd (b, db2)) (qu_id q) PRODUCT v"
      unfolding 2 [symmetric] by (intro migrate_column_adds) (simp_all add: qs)
    then show ?thesis by simp
  qed
  have conds: "qd_conditions db' = qd_conditions db2" by (simp add: db' clear_column_frame)
  have old: "qu_productCategoryId q = None \<and> qu_productId q = None" if "q \<in> set (qd_questions db')" for q
    by (rule columns_cleared [OF _ _ refl db' that]) (use h1 h2 qs in auto)
  have "migrateQuestionsToConditions categoryOwner productOwner newId db' = ((0, 0, 0, 0), db')"
    unfolding migrateQuestionsToConditions_def using old by (simp add: migrate_none clear_none)
  moreover have "has_condition db' i ctype v = has_condition db2 i ctype v" for i ctype v by (simp add: has_condition_def conds)
  moreover have "\<exists>new. qd_conditions db' = qd_conditions db @ new" using extends_trans [OF e1 e2] by (simp add: conds extends_def)
  ultimately show ?thesis using old h1 h2 by (auto simp: option.pred_set)
qed

theorem migration_idempotent_witness:
  "\<exists>counts db'. migrateQuestionsToConditions (\<lambda>_. Some None) (\<lambda>_. Some None) (\<lambda>_. ''n'')
       (ex_question_db []\<lparr>qd_questions := [ex_question\<lparr>qu_productId := Some ''p7''\<rparr>]\<rparr>) = (counts, db')
     \<and> has_condition db' ''q1'' PRODUCT ''p7''
     \<and> migrateQuestionsToConditions (\<lambda>_. Some None) (\<lambda>_. Some None) (\<lambda>_. ''n'') db' = ((0, 0, 0, 0), db')"
proof -
  let ?q = "ex_question\<lparr>qu_productId := Some ''p7''\<rparr>"
  let ?db = "ex_question_db []\<lparr>qd_questions := [?q]\<rparr>"
  obtain counts db' where m: "migrateQuestionsToConditions (\<lambda>_. Some None) (\<lambda>_. Some None) (\<lambda>_. ''n'') ?db = (counts, db')"
    by fastforce
  have o: "\<forall>q\<in>set (qd_questions ?db). pred_option (\<lambda>v. Some None \<noteq> (None :: id option option)) (qu_productCategoryId q)
       \<and> pred_option (\<lambda>v. Some None \<noteq> (None :: id option option)) (qu_productId q)" by (simp add: option.pred_set)
  have q: "qu_id ?q = ''q1''" "qu_productId ?q = Some ''p7''" by (simp_all add: ex_question_def)
  from migration_idempotent [OF o m] q have "has_condition db' ''q1'' PRODUCT ''p7''"
      "migrateQuestionsToConditions (\<lambda>_. Some None) (\<lambda>_. Some None) (\<lambda>_. ''n'') db' = ((0, 0, 0, 0), db')" by auto
  with m show ?thesis by blast
qed

end
