(* ===== verification/Notifications.thy ===== *)
theory Notifications
  imports Asset_Questions Role_Admin "HOL-Library.Multiset"
begin

section \<open>Reminders, reports and alert e-mails\<close>

text \<open>
  \<^verbatim>\<open>src/src/notifications/processors/client-notifications.processor.ts\<close>,
  \<^verbatim>\<open>notification-types.ts\<close>, \<^verbatim>\<open>notifications.scheduler.ts\<close> and the batching of
  \<^verbatim>\<open>notifications.service.ts\<close>: which e-mail jobs a run puts into the queue. The functions of
  date-fns are the fields of \<open>date_env\<close>, with one reading of the clock per job. A number that is not an
  integer is a rational: the fractions of the configuration are taken as the decimals they are written
  as. The stack the site tree needs is \<open>depth\<close>, as in the theory of the site visibility. Columns that are
  only shown in the text of an e-mail (prompt, placement, image addresses) are left out.
\<close>

record date_env =
  addDays :: "time \<Rightarrow> int \<Rightarrow> time"
  addMilliseconds :: "time \<Rightarrow> rat \<Rightarrow> time"
  isToday :: "time \<Rightarrow> bool"
  isBefore :: "time \<Rightarrow> time \<Rightarrow> bool"
  differenceInDays :: "time \<Rightarrow> time \<Rightarrow> int"
  toISOString :: "time \<Rightarrow> string"
  nowDate :: time
  frontendUrl :: string

subsection \<open>The notification groups\<close>

record threshold_config =
  pctThreshold :: rat
  daysThreshold :: rat

record notification_group =
  ng_id :: string
  ng_config :: "threshold_config option"

definition NotificationGroups :: "notification_group list" where
  "NotificationGroups =
    [\<lparr>ng_id = ''inspection_reminder'', ng_config = Some \<lparr>pctThreshold = 85 / 100, daysThreshold = 25\<rparr>\<rparr>,
     \<lparr>ng_id = ''inspection_due_soon_alert_level_1'', ng_config = Some \<lparr>pctThreshold = 50 / 100, daysThreshold = 14\<rparr>\<rparr>,
     \<lparr>ng_id = ''inspection_due_soon_alert_level_2'', ng_config = Some \<lparr>pctThreshold = 35 / 100, daysThreshold = 10\<rparr>\<rparr>,
     \<lparr>ng_id = ''inspection_due_soon_alert_level_3'', ng_config = Some \<lparr>pctThreshold = 25 / 100, daysThreshold = 7\<rparr>\<rparr>,
     \<lparr>ng_id = ''inspection_due_soon_alert_level_4'', ng_config = Some \<lparr>pctThreshold = 15 / 100, daysThreshold = 3\<rparr>\<rparr>,
     \<lparr>ng_id = ''monthly_compliance_report'', ng_config = None\<rparr>,
     \<lparr>ng_id = ''monthly_consumables_report'', ng_config = None\<rparr>,
     \<lparr>ng_id = ''inspection_alert_triggered'', ng_config = None\<rparr>]"

definition isInspectionReminderNotificationGroup :: "notification_group \<Rightarrow> bool" where
  "isInspectionReminderNotificationGroup g = (ng_config g \<noteq> None)"

definition ng_pct :: "notification_group \<Rightarrow> rat" where
  "ng_pct g = pctThreshold (the (ng_config g))"

definition REMINDER_GROUPS :: "notification_group list" where
  "REMINDER_GROUPS = filter isInspectionReminderNotificationGroup NotificationGroups"

definition REMINDER_GROUPS_THRESHOLD_ASC :: "notification_group list" where
  "REMINDER_GROUPS_THRESHOLD_ASC = sort_key ng_pct REMINDER_GROUPS"

definition MINIMUM_INSPECTION_CYCLE :: int where
  \<comment> \<open>the reduction starts from infinity: \<open>None\<close>\<close>
  "MINIMUM_INSPECTION_CYCLE =
     (case foldl (\<lambda>m g. Some (case m of None \<Rightarrow> ng_pct g | Some x \<Rightarrow> min x (ng_pct g))) None REMINDER_GROUPS of
        None \<Rightarrow> 0 | Some p \<Rightarrow> ceiling (1 / p))"

definition thresholdDays :: "int \<Rightarrow> threshold_config \<Rightarrow> rat" where
  "thresholdDays inspectionCycle c = min (of_int inspectionCycle * pctThreshold c) (daysThreshold c)"

definition isThresholdMetToday :: "date_env \<Rightarrow> int \<Rightarrow> time \<Rightarrow> threshold_config \<Rightarrow> bool" where
  "isThresholdMetToday env inspectionCycle lastInspectedOn c =
     (let thresholdDate = addMilliseconds env lastInspectedOn ((of_int inspectionCycle - thresholdDays inspectionCycle c) * 24 * 60 * 60 * 1000)
      in isToday env thresholdDate)"

subsection \<open>The rows of a job\<close>

record client_full = client_row +
  cf_demoMode :: bool
  cf_defaultInspectionCycle :: int

record category_row =
  ct_id :: id
  ct_name :: string
  ct_shortName :: "string option"
  ct_icon :: "string option"
  ct_color :: "string option"

record catalog_product = product_row +
  cp_name :: string

record mail_db =
  md_tenant :: tenant_db
  md_clients :: "client_full list"
  md_assets :: asset_db
  md_products :: "catalog_product list"
  md_categories :: "category_row list"

record asset_view =
  av_asset :: asset_row
  av_site :: site_row
  av_lastInspection :: "time option"
  av_product :: catalog_product
  av_category :: category_row
  av_openAlerts :: nat

record member =
  mb_person :: person_row
  mb_accesses :: "(access_row \<times> role_row) list"

definition access_data :: "access_row \<times> role_row \<Rightarrow> client_access_row" where
  "access_data ar =
     \<lparr>ca_clientId = pca_clientId (fst ar), ca_siteId = pca_siteId (fst ar),
      ca_role = \<lparr>rd_id = ro_id (snd ar), rd_scope = ro_scope (snd ar), rd_capabilities = ro_capabilities (snd ar)\<rparr>\<rparr>"

definition member_accesses :: "member \<Rightarrow> client_access_row list" where
  "member_accesses m = map access_data (mb_accesses m)"

definition joined_accesses :: "tenant_db \<Rightarrow> id \<Rightarrow> person_row \<Rightarrow> (access_row \<times> role_row) list" where
  "joined_accesses db clientId p =
     List.map_filter (\<lambda>a. map_option (Pair a) (find_by ro_id (pca_roleId a) (db_roles db)))
       (filter (\<lambda>a. pca_personId a = pe_id p \<and> pca_clientId a = clientId) (db_accesses db))"

definition in_group :: "string \<Rightarrow> member \<Rightarrow> bool" where
  "in_group g m = list_ex (\<lambda>ar. List.member (ro_notificationGroups (snd ar)) g) (mb_accesses m)"

definition getMembersByNotificationGroups :: "tenant_db \<Rightarrow> id \<Rightarrow> string list \<Rightarrow> (string, member list) jmap" where
  "getMembersByNotificationGroups db clientId ids =
     (let people = filter (\<lambda>m. list_ex (\<lambda>i. in_group i m) ids)
            (map (\<lambda>p. \<lparr>mb_person = p, mb_accesses = joined_accesses db clientId p\<rparr>) (db_persons db));
          grouped = foldl (\<lambda>g i. AList.update i [] g) [] ids
      in foldl (\<lambda>grouped person. foldl (\<lambda>g i. if in_group i person then jmap_push g i person else g) grouped ids) grouped people)"

definition getSiteHierarchy :: "nat \<Rightarrow> tenant_db \<Rightarrow> id \<Rightarrow> site_hierarchy result" where
  "getSiteHierarchy depth db clientId =
     (case buildSiteHierarchy depth
         (map (\<lambda>s. \<lparr>sn_id = st_id s, sn_parentSiteId = st_parentSiteId s\<rparr>) (filter (\<lambda>s. st_clientId s = clientId) (db_sites db))) of
        None \<Rightarrow> Inl (ServerError ''RangeError'') | Some h \<Rightarrow> Inr h)"

definition asset_view_of :: "mail_db \<Rightarrow> asset_row \<Rightarrow> asset_view option" where
  \<comment> \<open>an asset with the relations the query includes\<close>
  "asset_view_of db a = do {
     s \<leftarrow> find_by st_id (as_siteId a) (db_sites (md_tenant db));
     p \<leftarrow> find_by pr_id (as_productId a) (md_products db);
     c \<leftarrow> find_by ct_id (pr_categoryId p) (md_categories db);
     Some \<lparr>av_asset = a, av_site = s,
       av_lastInspection = map_option is_createdOn
         (at0 (rev (sort_key is_createdOn (filter (\<lambda>i. is_assetId i = as_id a) (ad_inspections (md_assets db)))))),
       av_product = p, av_category = c,
       av_openAlerts = length (filter (\<lambda>l. al_assetId l = as_id a \<and> \<not> al_resolved l) (ad_alerts (md_assets db)))\<rparr>
   }"

definition asset_views :: "mail_db \<Rightarrow> id \<Rightarrow> asset_view list" where
  "asset_views db clientId = List.map_filter (asset_view_of db) (filter (\<lambda>a. as_clientId a = clientId) (ad_assets (md_assets db)))"

definition av_siteId :: "asset_view \<Rightarrow> id" where
  "av_siteId v = as_siteId (av_asset v)"

definition lastInspectedOn :: "asset_view \<Rightarrow> time" where
  "lastInspectedOn v = nullish_or (av_lastInspection v) (as_createdOn (av_asset v))"

definition inspectionCycle :: "client_full \<Rightarrow> asset_view \<Rightarrow> int" where
  "inspectionCycle client v = nullish_or (as_inspectionCycle (av_asset v)) (cf_defaultInspectionCycle client)"

subsection \<open>The e-mail jobs\<close>

record due_asset =
  du_assetId :: id
  du_assetName :: string
  du_category :: category_row
  du_product :: string
  du_dueDate :: time

record report_row =
  rr_categoryId :: id
  rr_categoryName :: string
  rr_categoryIcon :: "string option"
  rr_categoryColor :: "string option"
  rr_assetCount :: nat
  rr_pctCompliant :: rat
  rr_unresolvedAlertsCount :: nat

record consumable_item =
  ci_siteName :: string
  ci_item :: string
  ci_assetName :: string
  ci_category :: string
  ci_categoryColor :: "string option"
  ci_categoryIcon :: "string option"
  ci_expiryDate :: string

datatype mail_props =
    Reminder bool "(id \<times> string \<times> due_asset list) list" \<comment> \<open>\<open>singleSite\<close>, \<open>assetsDueForInspectionBySite\<close>\<close>
  | Compliance bool "(id \<times> string \<times> report_row list) list" \<comment> \<open>\<open>singleSite\<close>, \<open>reportRowsBySite\<close>\<close>
  | Consumables "consumable_item list" "consumable_item list" "consumable_item list" \<comment> \<open>\<open>thirtyDays\<close>, \<open>sixtyDays\<close>, \<open>ninetyDays\<close>\<close>
  | AlertTriggered string alert_row json asset_row category_row string \<comment> \<open>site, alert, answer, asset, category, inspector\<close>

record email_job =
  ej_templateName :: string
  ej_to :: "string list"
  ej_recipientFirstName :: string
  ej_clientName :: string
  ej_frontendUrl :: string
  ej_props :: mail_props

definition email :: "date_env \<Rightarrow> string \<Rightarrow> client_full \<Rightarrow> member \<Rightarrow> mail_props \<Rightarrow> email_job" where
  "email env template client m props =
     \<lparr>ej_templateName = template, ej_to = [pe_email (mb_person m)], ej_recipientFirstName = pe_firstName (mb_person m),
      ej_clientName = cl_name client, ej_frontendUrl = frontendUrl env, ej_props = props\<rparr>"

text \<open>A loop that pushes the jobs of each round; an exception ends it.\<close>

primrec push_all :: "('a \<Rightarrow> 'b list result) \<Rightarrow> 'a list \<Rightarrow> 'b list result" where
  "push_all f [] = Inr []"
| "push_all f (x # xs) = bindr (f x) (\<lambda>ys. bindr (push_all f xs) (\<lambda>zs. Inr (ys @ zs)))"

subsection \<open>Inspection reminders\<close>

definition reminder_group :: "date_env \<Rightarrow> client_full \<Rightarrow> asset_view \<Rightarrow> notification_group option" where
  \<comment> \<open>the inner loop, which stops at the first group\<close>
  "reminder_group env client v =
     List.find (\<lambda>g. isThresholdMetToday env (inspectionCycle client v) (lastInspectedOn v) (the (ng_config g)))
       REMINDER_GROUPS_THRESHOLD_ASC"

definition reminder_buckets :: "date_env \<Rightarrow> client_full \<Rightarrow> asset_view list \<Rightarrow> (string, asset_view list) jmap" where
  "reminder_buckets env client assets =
     foldl (\<lambda>m v. case reminder_group env client v of None \<Rightarrow> m | Some g \<Rightarrow> jmap_push m (ng_id g) v)
       (map (\<lambda>g. (ng_id g, [])) REMINDER_GROUPS) assets"

definition due_asset :: "date_env \<Rightarrow> client_full \<Rightarrow> asset_view \<Rightarrow> due_asset" where
  "due_asset env client v =
     \<lparr>du_assetId = as_id (av_asset v), du_assetName = as_name (av_asset v), du_category = av_category v,
      du_product = cp_name (av_product v), du_dueDate = addDays env (lastInspectedOn v) (inspectionCycle client v)\<rparr>"

definition by_site :: "(asset_view list \<Rightarrow> 'b) \<Rightarrow> asset_view list \<Rightarrow> (id \<times> string \<times> 'b) list" where
  "by_site f assets =
     map (\<lambda>(k, siteAssets). (nullish_or (map_option (\<lambda>v. st_id (av_site v)) (at0 siteAssets)) ''unknown'',
         nullish_or (map_option (\<lambda>v. st_name (av_site v)) (at0 siteAssets)) ''Unknown'', f siteAssets))
       (group_by (\<lambda>v. st_id (av_site v)) assets)"

definition reminder_job ::
    "date_env \<Rightarrow> client_full \<Rightarrow> site_hierarchy \<Rightarrow> string \<Rightarrow> asset_view list \<Rightarrow> member \<Rightarrow> email_job list result" where
  "reminder_job env client h groupId bucketAssets m =
     bindr (getVisibleAssetsForMember av_siteId (member_accesses m) (cl_id client) bucketAssets h) (\<lambda>visibleAssets.
       if visibleAssets = [] then Inr []
       else bindr (isSingleSiteUser (member_accesses m) (cl_id client)) (\<lambda>single.
         Inr [email env groupId client m (Reminder single (by_site (map (due_asset env client)) visibleAssets))]))"

definition processClientInspectionReminders :: "date_env \<Rightarrow> nat \<Rightarrow> id \<Rightarrow> mail_db \<Rightarrow> email_job list result" where
  "processClientInspectionReminders env depth clientId db =
     (case find_by cl_id clientId (md_clients db) of
        None \<Rightarrow> Inr []
      | Some client \<Rightarrow>
          if cf_demoMode client then Inr []
          else
            let members = getMembersByNotificationGroups (md_tenant db) clientId (map ng_id REMINDER_GROUPS)
            in bindr (getSiteHierarchy depth (md_tenant db) clientId) (\<lambda>h.
                 push_all (\<lambda>(groupId, bucketAssets).
                     if bucketAssets = [] then Inr []
                     else push_all (reminder_job env client h groupId bucketAssets) (nullish_or (map_of members groupId) []))
                   (reminder_buckets env client (asset_views db clientId))))"

subsection \<open>Monthly reports\<close>

definition is_compliant :: "date_env \<Rightarrow> client_full \<Rightarrow> asset_view \<Rightarrow> bool" where
  "is_compliant env client v = isBefore env (nowDate env) (addDays env (lastInspectedOn v) (inspectionCycle client v))"

definition report_row :: "date_env \<Rightarrow> client_full \<Rightarrow> asset_view list \<Rightarrow> report_row" where
  "report_row env client categoryAssets =
     (let category = map_option av_category (at0 categoryAssets)
      in \<lparr>rr_categoryId = nullish_or (map_option ct_id category) ''unknown'',
          rr_categoryName = nullish_or (Option.bind category ct_shortName) (nullish_or (map_option ct_name category) ''Unknown''),
          rr_categoryIcon = Option.bind category ct_icon,
          rr_categoryColor = Option.bind category ct_color,
          rr_assetCount = length categoryAssets,
          rr_pctCompliant = of_nat (length (filter (is_compliant env client) categoryAssets)) / of_nat (length categoryAssets),
          rr_unresolvedAlertsCount = foldl (\<lambda>acc v. acc + av_openAlerts v) 0 categoryAssets\<rparr>)"

definition report_rows :: "date_env \<Rightarrow> client_full \<Rightarrow> asset_view list \<Rightarrow> report_row list" where
  "report_rows env client siteAssets =
     map (\<lambda>(k, categoryAssets). report_row env client categoryAssets) (group_by (\<lambda>v. ct_id (av_category v)) siteAssets)"

definition compliance_job ::
    "date_env \<Rightarrow> client_full \<Rightarrow> site_hierarchy \<Rightarrow> asset_view list \<Rightarrow> member \<Rightarrow> email_job list result" where
  "compliance_job env client h assets m =
     bindr (getVisibleAssetsForMember av_siteId (member_accesses m) (cl_id client) assets h) (\<lambda>visibleAssets.
       if visibleAssets = [] then Inr []
       else bindr (isSingleSiteUser (member_accesses m) (cl_id client)) (\<lambda>single.
         Inr [email env ''monthly_compliance_report'' client m (Compliance single (by_site (report_rows env client) visibleAssets))]))"

record consumable_view =
  cv_consumable :: consumable_row
  cv_expiresOn :: time
  cv_assetName :: "string option"
  cv_product :: catalog_product
  cv_category :: category_row
  cv_site :: site_row

definition expiring_consumables :: "date_env \<Rightarrow> mail_db \<Rightarrow> id \<Rightarrow> consumable_view list" where
  "expiring_consumables env db clientId =
     List.map_filter (\<lambda>c. do {
         expiresOn \<leftarrow> co_expiresOn c;
         s \<leftarrow> find_by st_id (co_siteId c) (db_sites (md_tenant db));
         p \<leftarrow> find_by pr_id (co_productId c) (md_products db);
         k \<leftarrow> find_by ct_id (pr_categoryId p) (md_categories db);
         if nowDate env \<le> expiresOn \<and> expiresOn \<le> addDays env (nowDate env) 90
         then Some \<lparr>cv_consumable = c, cv_expiresOn = expiresOn,
           cv_assetName = map_option as_name (Option.bind (co_assetId c) (\<lambda>i. find_by as_id i (ad_assets (md_assets db)))),
           cv_product = p, cv_category = k, cv_site = s\<rparr>
         else None
       }) (filter (\<lambda>c. co_clientId c = clientId) (ad_consumables (md_assets db)))"

definition cv_siteId :: "consumable_view \<Rightarrow> id" where
  "cv_siteId c = co_siteId (cv_consumable c)"

definition expiration_bucket :: "date_env \<Rightarrow> consumable_view \<Rightarrow> string" where
  "expiration_bucket env c =
     (let daysUntilExpiration = differenceInDays env (cv_expiresOn c) (nowDate env)
      in if daysUntilExpiration \<le> 30 then ''30-days'' else if daysUntilExpiration \<le> 60 then ''60-days'' else ''90-days'')"

definition mapToConsumableItem :: "date_env \<Rightarrow> consumable_view \<Rightarrow> consumable_item" where
  "mapToConsumableItem env c =
     \<lparr>ci_siteName = st_name (cv_site c), ci_item = cp_name (cv_product c), ci_assetName = nullish_or (cv_assetName c) ''Unknown'',
      ci_category = nullish_or (ct_shortName (cv_category c)) (ct_name (cv_category c)),
      ci_categoryColor = ct_color (cv_category c), ci_categoryIcon = ct_icon (cv_category c),
      ci_expiryDate = toISOString env (cv_expiresOn c)\<rparr>"

definition consumables_job ::
    "date_env \<Rightarrow> client_full \<Rightarrow> site_hierarchy \<Rightarrow> consumable_view list \<Rightarrow> member \<Rightarrow> email_job list result" where
  "consumables_job env client h consumables m =
     bindr (getVisibleSiteIdsForMember (member_accesses m) (cl_id client) h) (\<lambda>visibleSiteIds.
       let visible = filterAssetsByVisibleSites cv_siteId consumables visibleSiteIds;
           buckets = group_by (expiration_bucket env) visible;
           items = (\<lambda>k. map (mapToConsumableItem env) (nullish_or (map_of buckets k) []))
       in if visible = [] then Inr []
          else Inr [email env ''monthly_consumables_report'' client m (Consumables (items ''30-days'') (items ''60-days'') (items ''90-days''))])"

definition processClientMonthlyInspectionReports :: "date_env \<Rightarrow> nat \<Rightarrow> id \<Rightarrow> mail_db \<Rightarrow> email_job list result" where
  "processClientMonthlyInspectionReports env depth clientId db =
     (case find_by cl_id clientId (md_clients db) of
        None \<Rightarrow> Inr []
      | Some client \<Rightarrow>
          if cf_demoMode client then Inr []
          else
            let members = getMembersByNotificationGroups (md_tenant db) clientId [''monthly_compliance_report'', ''monthly_consumables_report'']
            in bindr (getSiteHierarchy depth (md_tenant db) clientId) (\<lambda>h.
                 bindr (push_all (compliance_job env client h (asset_views db clientId)) (nullish_or (map_of members ''monthly_compliance_report'') [])) (\<lambda>js1.
                 bindr (push_all (consumables_job env client h (expiring_consumables env db clientId)) (nullish_or (map_of members ''monthly_consumables_report'') [])) (\<lambda>js2.
                   Inr (js1 @ js2)))))"

subsection \<open>Alerts\<close>

definition alert_props :: "mail_db \<Rightarrow> alert_row \<Rightarrow> (client_full \<times> mail_props) option" where
  \<comment> \<open>the required relations of an alert; \<open>None\<close> cannot occur under the foreign keys\<close>
  "alert_props db l = do {
     client \<leftarrow> find_by cl_id (al_clientId l) (md_clients db);
     s \<leftarrow> find_by st_id (al_siteId l) (db_sites (md_tenant db));
     a \<leftarrow> find_by as_id (al_assetId l) (ad_assets (md_assets db));
     p \<leftarrow> find_by pr_id (as_productId a) (md_products db);
     c \<leftarrow> find_by ct_id (pr_categoryId p) (md_categories db);
     r \<leftarrow> find_by re_id (al_responseId l) (ad_responses (md_assets db));
     u \<leftarrow> find_by pe_id (re_responderId r) (db_persons (md_tenant db));
     Some (client, AlertTriggered (st_name s) l (re_value r) a c (pe_firstName u @ '' '' @ pe_lastName u))
   }"

definition alert_job ::
    "date_env \<Rightarrow> client_full \<Rightarrow> mail_props \<Rightarrow> alert_row \<Rightarrow> site_hierarchy \<Rightarrow> member \<Rightarrow> email_job list result" where
  "alert_job env client props l h m =
     bindr (getVisibleSiteIdsForMember (member_accesses m) (al_clientId l) h) (\<lambda>visibleSiteIds.
       if visibleSiteIds \<noteq> None \<and> \<not> List.member (the visibleSiteIds) (al_siteId l) then Inr []
       else Inr [email env ''inspection_alert_triggered'' client m props])"

definition sendInspectionAlertTriggeredEmail :: "date_env \<Rightarrow> nat \<Rightarrow> id \<Rightarrow> mail_db \<Rightarrow> email_job list result" where
  "sendInspectionAlertTriggeredEmail env depth alertId db =
     (case find_by al_id alertId (ad_alerts (md_assets db)) of
        None \<Rightarrow> Inr []
      | Some l \<Rightarrow>
          (case alert_props db l of
             None \<Rightarrow> Inl (ServerError ''relation'')
           | Some (client, props) \<Rightarrow>
               let members = getMembersByNotificationGroups (md_tenant db) (al_clientId l) [''inspection_alert_triggered'']
               in bindr (getSiteHierarchy depth (md_tenant db) (al_clientId l)) (\<lambda>h.
                    push_all (alert_job env client props l h) (nullish_or (map_of members ''inspection_alert_triggered'') []))))"

subsection \<open>Who is addressed\<close>

text \<open>
  Every job of this component is a loop over members that either skips a member or pushes one e-mail.
  The locale states that contract, and what such a loop puts into the queue.
\<close>

locale audience =
  fixes job :: "member \<Rightarrow> email_job list result" and addressed :: "member \<Rightarrow> bool" and mail :: "member \<Rightarrow> email_job"
  assumes one_mail: "job m = Inr (if addressed m then [mail m] else [])"
begin

lemma loop: "push_all job ms = Inr (map mail (filter addressed ms))"
  by (induction ms) (simp_all add: one_mail)

end

definition sees :: "site_hierarchy \<Rightarrow> id \<Rightarrow> member \<Rightarrow> id \<Rightarrow> bool" where
  \<comment> \<open>the site is visible to the member of the client\<close>
  "sees h clientId m siteId =
     (case getVisibleSiteIdsForMember (member_accesses m) clientId h of
        Inl _ \<Rightarrow> False | Inr None \<Rightarrow> True | Inr (Some ids) \<Rightarrow> siteId \<in> set ids)"

definition single_site :: "id \<Rightarrow> member \<Rightarrow> bool" where
  "single_site clientId m = (case isSingleSiteUser (member_accesses m) clientId of Inl _ \<Rightarrow> False | Inr b \<Rightarrow> b)"

lemma filter_visible:
  "filterAssetsByVisibleSites siteOf xs v = filter (\<lambda>x. case v of None \<Rightarrow> True | Some ids \<Rightarrow> siteOf x \<in> set ids) xs"
  by (auto simp: filterAssetsByVisibleSites_def split: option.split)

lemma sees_ids:
  "getVisibleSiteIdsForMember (member_accesses m) clientId h = Inr v \<Longrightarrow>
     sees h clientId m = (\<lambda>s. case v of None \<Rightarrow> True | Some ids \<Rightarrow> s \<in> set ids)"
  by (simp add: sees_def fun_eq_iff)

lemma visible_assets:
  "getVisibleAssetsForMember siteOf (member_accesses m) clientId xs h = Inr (filter (\<lambda>x. sees h clientId m (siteOf x)) xs)"
proof -
  obtain v where v: "getVisibleSiteIdsForMember (member_accesses m) clientId h = Inr v"
    using getVisibleSiteIdsForMember_total by blast
  show ?thesis by (simp add: getVisibleAssetsForMember_eq v sees_ids [OF v] filter_visible)
qed

lemma single_site_ok: "isSingleSiteUser (member_accesses m) clientId = Inr (single_site clientId m)"
  using reduceAccessGrants_total [of "clientAccessGrants (member_accesses m) clientId"]
  by (auto simp: single_site_def isSingleSiteUser_def Let_def)

abbreviation visible_to :: "site_hierarchy \<Rightarrow> id \<Rightarrow> ('a \<Rightarrow> id) \<Rightarrow> 'a list \<Rightarrow> member \<Rightarrow> 'a list" where
  "visible_to h clientId siteOf xs m \<equiv> filter (\<lambda>x. sees h clientId m (siteOf x)) xs"

interpretation reminder: audience "reminder_job env client h g bucket"
    "\<lambda>m. visible_to h (cl_id client) av_siteId bucket m \<noteq> []"
    "\<lambda>m. email env g client m (Reminder (single_site (cl_id client) m)
       (by_site (map (due_asset env client)) (visible_to h (cl_id client) av_siteId bucket m)))"
  for env client h g bucket
  by unfold_locales (simp add: reminder_job_def visible_assets single_site_ok)

interpretation compliance: audience "compliance_job env client h assets"
    "\<lambda>m. visible_to h (cl_id client) av_siteId assets m \<noteq> []"
    "\<lambda>m. email env ''monthly_compliance_report'' client m (Compliance (single_site (cl_id client) m)
       (by_site (report_rows env client) (visible_to h (cl_id client) av_siteId assets m)))"
  for env client h assets
  by unfold_locales (simp add: compliance_job_def visible_assets single_site_ok)

definition bucket_items :: "date_env \<Rightarrow> consumable_view list \<Rightarrow> string \<Rightarrow> consumable_item list" where
  "bucket_items env cs k = map (mapToConsumableItem env) (filter (\<lambda>c. expiration_bucket env c = k) cs)"

lemma bucket_items_alt:
  "map (mapToConsumableItem env) (nullish_or (map_of (group_by (expiration_bucket env) cs) k) []) = bucket_items env cs k"
  by (simp add: map_of_group_by bucket_items_def Let_def)

interpretation consumables: audience "consumables_job env client h cs"
    "\<lambda>m. visible_to h (cl_id client) cv_siteId cs m \<noteq> []"
    "\<lambda>m. email env ''monthly_consumables_report'' client m
       (Consumables (bucket_items env (visible_to h (cl_id client) cv_siteId cs m) ''30-days'')
          (bucket_items env (visible_to h (cl_id client) cv_siteId cs m) ''60-days'')
          (bucket_items env (visible_to h (cl_id client) cv_siteId cs m) ''90-days''))"
  for env client h cs
proof unfold_locales
  fix m
  obtain v where v: "getVisibleSiteIdsForMember (member_accesses m) (cl_id client) h = Inr v"
    using getVisibleSiteIdsForMember_total by blast
  show "consumables_job env client h cs m = Inr (if visible_to h (cl_id client) cv_siteId cs m \<noteq> []
     then [email env ''monthly_consumables_report'' client m
       (Consumables (bucket_items env (visible_to h (cl_id client) cv_siteId cs m) ''30-days'')
          (bucket_items env (visible_to h (cl_id client) cv_siteId cs m) ''60-days'')
          (bucket_items env (visible_to h (cl_id client) cv_siteId cs m) ''90-days''))] else [])"
    by (simp add: consumables_job_def Let_def v sees_ids [OF v] filter_visible bucket_items_alt)
qed

interpretation alert: audience "alert_job env client props l h"
    "\<lambda>m. sees h (al_clientId l) m (al_siteId l)" "\<lambda>m. email env ''inspection_alert_triggered'' client m props"
  for env client props l h
proof unfold_locales
  fix m
  obtain v where v: "getVisibleSiteIdsForMember (member_accesses m) (al_clientId l) h = Inr v"
    using getVisibleSiteIdsForMember_total by blast
  show "alert_job env client props l h m = Inr (if sees h (al_clientId l) m (al_siteId l) then [email env ''inspection_alert_triggered'' client m props] else [])"
    by (cases v) (simp_all add: alert_job_def v sees_ids [OF v])
qed

subsection \<open>Members by group\<close>

definition members :: "tenant_db \<Rightarrow> id \<Rightarrow> member list" where
  "members db clientId = map (\<lambda>p. \<lparr>mb_person = p, mb_accesses = joined_accesses db clientId p\<rparr>) (db_persons db)"

lemma push_groups:
  "distinct ids \<Longrightarrow> map_of (foldl (\<lambda>g i. if P i then jmap_push g i x else g) m ids) k =
     (if k \<in> set ids \<and> P k then Some (nullish_or (map_of m k) [] @ [x]) else map_of m k)"
  by (induction ids arbitrary: m) (auto simp: map_of_jmap_push nullish_or_def)

lemma push_people:
  assumes "distinct ids" and "k \<in> set ids" and "map_of m k = Some ys"
  shows "map_of (foldl (\<lambda>grouped x. foldl (\<lambda>g i. if P i x then jmap_push g i x else g) grouped ids) m xs) k = Some (ys @ filter (P k) xs)"
  using assms(3) by (induction xs arbitrary: m ys) (simp_all add: push_groups [OF assms(1)] assms(2))

lemma empty_groups: "k \<in> set ids \<or> map_of m k = Some [] \<Longrightarrow> map_of (foldl (\<lambda>g i. AList.update i [] g) m ids) k = Some []"
  by (induction ids arbitrary: m) (auto simp: update_conv')

lemma members_of_group:
  assumes "distinct ids" and "i \<in> set ids"
  shows "nullish_or (map_of (getMembersByNotificationGroups db clientId ids) i) [] = filter (in_group i) (members db clientId)"
proof -
  have "filter (in_group i) (filter (\<lambda>m. list_ex (\<lambda>i. in_group i m) ids) ms) = filter (in_group i) ms" for ms
    using assms(2) by (auto simp: list_ex_iff intro: filter_cong)
  then show ?thesis
    by (simp add: getMembersByNotificationGroups_def Let_def push_people [OF assms empty_groups] assms(2) members_def)
qed

subsection \<open>Thresholds\<close>

lemma reminder_groups:
  "REMINDER_GROUPS = take 5 NotificationGroups"
  by (simp add: REMINDER_GROUPS_def NotificationGroups_def isInspectionReminderNotificationGroup_def)

lemma reminder_groups_asc: "REMINDER_GROUPS_THRESHOLD_ASC = rev REMINDER_GROUPS"
  by (simp add: REMINDER_GROUPS_THRESHOLD_ASC_def reminder_groups NotificationGroups_def ng_pct_def)

lemma reminder_ids_distinct: "distinct (map ng_id REMINDER_GROUPS)"
  by (simp add: reminder_groups NotificationGroups_def)

lemma minimum_cycle: "MINIMUM_INSPECTION_CYCLE = 7"
  by (simp add: MINIMUM_INSPECTION_CYCLE_def reminder_groups NotificationGroups_def ng_pct_def min_def ceiling_eq_iff)

lemma all_reminder_groups:
  "(\<forall>g\<in>set REMINDER_GROUPS. P (the (ng_config g))) \<longleftrightarrow>
     P \<lparr>pctThreshold = 85 / 100, daysThreshold = 25\<rparr> \<and> P \<lparr>pctThreshold = 50 / 100, daysThreshold = 14\<rparr>
     \<and> P \<lparr>pctThreshold = 35 / 100, daysThreshold = 10\<rparr> \<and> P \<lparr>pctThreshold = 25 / 100, daysThreshold = 7\<rparr>
     \<and> P \<lparr>pctThreshold = 15 / 100, daysThreshold = 3\<rparr>"
  by (simp add: reminder_groups NotificationGroups_def)

text \<open>
  C22: the minimum inspection cycle is the exact bound it is described as: a cycle is at least that long
  if and only if every reminder comes a full day or more before the inspection is due. And then every
  reminder comes after the last inspection, so all of them fall inside the cycle, and a group with a
  smaller fraction comes strictly closer to the due date. For every cycle a reminder comes at the later of its two
  dates, the one its fraction of the cycle gives and the one its number of days gives; \<^verbatim>\<open>docs/notifications.md\<close>
  says that the one reached first triggers it.
\<close>

theorem reminder_thresholds:
  "(MINIMUM_INSPECTION_CYCLE \<le> c \<longleftrightarrow> (\<forall>g\<in>set REMINDER_GROUPS. 1 \<le> thresholdDays c (the (ng_config g))))
   \<and> (MINIMUM_INSPECTION_CYCLE \<le> c \<longrightarrow>
       (\<forall>g\<in>set REMINDER_GROUPS. thresholdDays c (the (ng_config g)) < of_int c)
       \<and> (\<forall>g\<in>set REMINDER_GROUPS. \<forall>g'\<in>set REMINDER_GROUPS. ng_pct g < ng_pct g'
            \<longrightarrow> thresholdDays c (the (ng_config g)) < thresholdDays c (the (ng_config g'))))
   \<and> (\<forall>g\<in>set REMINDER_GROUPS. of_int c - thresholdDays c (the (ng_config g))
        = max (of_int c - of_int c * ng_pct g) (of_int c - daysThreshold (the (ng_config g))))"
proof -
  have "1 \<le> thresholdDays c \<lparr>pctThreshold = 15 / 100, daysThreshold = 3\<rparr> \<longleftrightarrow> (20 :: rat) / 3 \<le> of_int c"
    by (simp add: thresholdDays_def field_simps)
  also have "\<dots> \<longleftrightarrow> 7 \<le> c" by (simp add: field_simps) linarith
  finally have level4: "1 \<le> thresholdDays c \<lparr>pctThreshold = 15 / 100, daysThreshold = 3\<rparr> \<longleftrightarrow> 7 \<le> c" .
  have q: "7 \<le> (of_int c :: rat)" if "7 \<le> c" using that by simp
  have mono: "(\<forall>g\<in>set REMINDER_GROUPS. \<forall>g'\<in>set REMINDER_GROUPS. ng_pct g < ng_pct g'
            \<longrightarrow> thresholdDays c (the (ng_config g)) < thresholdDays c (the (ng_config g')))" if "7 \<le> c"
    using q [OF that] by (simp add: reminder_groups NotificationGroups_def ng_pct_def thresholdDays_def min_def)
  have day: "(\<forall>g\<in>set REMINDER_GROUPS. 1 \<le> thresholdDays c (the (ng_config g))) \<longleftrightarrow> 7 \<le> c"
  proof
    assume "\<forall>g\<in>set REMINDER_GROUPS. 1 \<le> thresholdDays c (the (ng_config g))"
    then show "7 \<le> c" using level4 by (simp only: all_reminder_groups [of "\<lambda>x. 1 \<le> thresholdDays c x"])
  next
    assume "7 \<le> c"
    then show "\<forall>g\<in>set REMINDER_GROUPS. 1 \<le> thresholdDays c (the (ng_config g))"
      using q unfolding all_reminder_groups [of "\<lambda>x. 1 \<le> thresholdDays c x"] by (simp add: thresholdDays_def)
  qed
  have inside: "\<forall>g\<in>set REMINDER_GROUPS. thresholdDays c (the (ng_config g)) < of_int c" if "7 \<le> c"
    using q [OF that] unfolding all_reminder_groups [of "\<lambda>x. thresholdDays c x < of_int c"] by (simp add: thresholdDays_def min_less_iff_disj)
  have later: "of_int c - thresholdDays c (the (ng_config g)) = max (of_int c - of_int c * ng_pct g) (of_int c - daysThreshold (the (ng_config g)))" for g
    by (simp add: thresholdDays_def ng_pct_def)
  show ?thesis unfolding minimum_cycle day using mono inside later by blast
qed

theorem reminder_thresholds_witness:
  "list_all (\<lambda>g. 1 \<le> thresholdDays 7 (the (ng_config g)) \<and> thresholdDays 7 (the (ng_config g)) < 7) REMINDER_GROUPS"
proof -
  have "MINIMUM_INSPECTION_CYCLE \<le> 7" by (simp add: minimum_cycle)
  then show ?thesis using reminder_thresholds [of 7] by (simp add: list_all_iff)
qed

subsection \<open>Reminders\<close>

lemma find_first_asc:
  assumes "sorted (map f xs)" and "distinct (map f xs)"
  shows "List.find P xs = Some x \<longleftrightarrow> x \<in> set xs \<and> P x \<and> (\<forall>y\<in>set xs. f y < f x \<longrightarrow> \<not> P y)"
  using assms
proof (induction xs)
  case Nil
  show ?case by simp
next
  case (Cons a xs)
  then have above: "f a < f y" if "y \<in> set xs" for y using that by (force simp: order_less_le)
  show ?case
  proof (cases "P a")
    case True
    then show ?thesis using above by (auto dest: order_less_asym)
  next
    case False
    then show ?thesis using Cons by auto
  qed
qed

lemma reminder_pct_sorted:
  "sorted (map ng_pct REMINDER_GROUPS_THRESHOLD_ASC)" "distinct (map ng_pct REMINDER_GROUPS_THRESHOLD_ASC)"
  by (simp_all add: reminder_groups_asc reminder_groups NotificationGroups_def ng_pct_def)

lemma reminder_group_iff:
  "reminder_group env client v = Some g \<longleftrightarrow> g \<in> set REMINDER_GROUPS
     \<and> isThresholdMetToday env (inspectionCycle client v) (lastInspectedOn v) (the (ng_config g))
     \<and> (\<forall>g'\<in>set REMINDER_GROUPS. ng_pct g' < ng_pct g \<longrightarrow>
          \<not> isThresholdMetToday env (inspectionCycle client v) (lastInspectedOn v) (the (ng_config g')))"
  unfolding reminder_group_def find_first_asc [OF reminder_pct_sorted] by (simp add: reminder_groups_asc)

lemma map_fst_jmap_push: "k \<in> fst ` set m \<Longrightarrow> map fst (jmap_push m k v) = map fst m"
  by (simp add: jmap_push_def update_keys)

lemma reminder_buckets_alt:
  assumes "fst ` set m = ng_id ` set REMINDER_GROUPS"
  shows "map fst (foldl (\<lambda>m v. case reminder_group env client v of None \<Rightarrow> m | Some g \<Rightarrow> jmap_push m (ng_id g) v) m vs) = map fst m
    \<and> (k \<in> ng_id ` set REMINDER_GROUPS \<longrightarrow>
       map_of (foldl (\<lambda>m v. case reminder_group env client v of None \<Rightarrow> m | Some g \<Rightarrow> jmap_push m (ng_id g) v) m vs) k
         = Some (the (map_of m k) @ filter (\<lambda>v. map_option ng_id (reminder_group env client v) = Some k) vs))"
  using assms
proof (induction vs arbitrary: m)
  case Nil
  have "map_of m k \<noteq> None" if "k \<in> ng_id ` set REMINDER_GROUPS" using that Nil by (simp add: map_of_eq_None_iff)
  then show ?case by auto
next
  case (Cons v vs)
  show ?case
  proof (cases "reminder_group env client v")
    case None
    then show ?thesis using Cons by simp
  next
    case (Some g)
    then have g: "ng_id g \<in> fst ` set m" using Cons.prems by (auto simp: reminder_group_iff)
    then obtain old where old: "map_of m (ng_id g) = Some old" by (metis map_of_eq_None_iff not_None_eq)
    have "fst ` set (jmap_push m (ng_id g) v) = ng_id ` set REMINDER_GROUPS"
      using map_fst_jmap_push [OF g, of v] Cons.prems by (metis set_map)
    from Cons.IH [OF this] show ?thesis using old by (auto simp: Some map_fst_jmap_push [OF g] map_of_jmap_push)
  qed
qed

lemma reminder_buckets_eq:
  "reminder_buckets env client vs =
     map (\<lambda>g. (ng_id g, filter (\<lambda>v. reminder_group env client v = Some g) vs)) REMINDER_GROUPS"
proof -
  let ?m = "map (\<lambda>g. (ng_id g, [] :: asset_view list)) REMINDER_GROUPS"
  let ?b = "reminder_buckets env client vs"
  have "fst ` set ?m = ng_id ` set REMINDER_GROUPS" by (simp add: image_image)
  note alt = reminder_buckets_alt [OF this, of env client vs, folded reminder_buckets_def]
  have keys: "map fst ?b = map ng_id REMINDER_GROUPS" using alt by (simp add: comp_def)
  have val: "map_of ?b (ng_id g) = Some (filter (\<lambda>v. reminder_group env client v = Some g) vs)" if g: "g \<in> set REMINDER_GROUPS" for g
  proof -
    have same: "map_option ng_id (reminder_group env client v) = Some (ng_id g) \<longleftrightarrow> reminder_group env client v = Some g" for v
      using g reminder_ids_distinct by (auto simp: reminder_group_iff distinct_map inj_on_def)
    have "map_of ?m (ng_id g) = Some []" using g by (auto simp: map_of_eq_Some_iff reminder_ids_distinct comp_def)
    then show ?thesis using alt [of "ng_id g"] g unfolding same by simp
  qed
  have eq: "?b ! i = (ng_id (REMINDER_GROUPS ! i), filter (\<lambda>v. reminder_group env client v = Some (REMINDER_GROUPS ! i)) vs)"
    if i: "i < length REMINDER_GROUPS" for i
  proof -
    have i': "i < length ?b" using arg_cong [OF keys, of length] i by simp
    have f: "fst (?b ! i) = ng_id (REMINDER_GROUPS ! i)" using keys i i' by (metis nth_map)
    have "map_of ?b (fst (?b ! i)) = Some (snd (?b ! i))"
      using i' keys reminder_ids_distinct by (simp add: map_of_eq_Some_iff)
    with val [of "REMINDER_GROUPS ! i"] i f show ?thesis by (metis nth_mem option.inject prod.collapse)
  qed
  show ?thesis using arg_cong [OF keys, of length] eq by (intro nth_equalityI) auto
qed

lemma push_all_map:
  assumes "\<And>x. x \<in> set xs \<Longrightarrow> f x = Inr (g x)"
  shows "push_all f xs = Inr (concat (map g xs))"
  using assms by (induction xs) simp_all

definition mail_assets :: "mail_props \<Rightarrow> id set" where
  \<comment> \<open>the assets a reminder lists\<close>
  "mail_assets p = (case p of Reminder _ sites \<Rightarrow> du_assetId ` (\<Union>(_, _, ds)\<in>set sites. set ds) | _ \<Rightarrow> {})"

lemma by_site_all: "(\<Union>(_, _, ds)\<in>set (by_site (map f) vs). set ds) = f ` set vs"
proof -
  have "(\<Union>(_, _, ds)\<in>set (by_site (map f) vs). set ds) = f ` (\<Union>kg\<in>set (group_by (\<lambda>v. st_id (av_site v)) vs). set (snd kg))"
    by (simp add: by_site_def case_prod_beta image_UN)
  also have "(\<Union>kg\<in>set (group_by (\<lambda>v. st_id (av_site v)) vs). set (snd kg)) = set vs"
  proof (intro equalityI subsetI)
    fix v
    assume v: "v \<in> set vs"
    then have "(st_id (av_site v), filter (\<lambda>x. st_id (av_site x) = st_id (av_site v)) vs) \<in> set (group_by (\<lambda>v. st_id (av_site v)) vs)"
      unfolding group_by_mem_iff by (auto simp: filter_empty_conv)
    then show "v \<in> (\<Union>kg\<in>set (group_by (\<lambda>v. st_id (av_site v)) vs). set (snd kg))" using v by (intro UN_I) auto
  qed (auto simp: group_by_mem_iff)
  finally show ?thesis .
qed

lemma mail_assets_reminder: "mail_assets (Reminder b (by_site (map (due_asset env client)) vs)) = (\<lambda>v. as_id (av_asset v)) ` set vs"
  unfolding mail_assets_def by (simp only: mail_props.case by_site_all image_image due_asset_def due_asset.simps)

definition reminder_mail :: "date_env \<Rightarrow> client_full \<Rightarrow> site_hierarchy \<Rightarrow> asset_view list \<Rightarrow> string \<Rightarrow> member \<Rightarrow> email_job" where
  "reminder_mail env client h bucket g m = email env g client m (Reminder (single_site (cl_id client) m)
       (by_site (map (due_asset env client)) (visible_to h (cl_id client) av_siteId bucket m)))"

lemma reminder_jobs:
  assumes "find_by cl_id clientId (md_clients db) = Some client" and "\<not> cf_demoMode client"
    and "getSiteHierarchy depth (md_tenant db) clientId = Inr h"
    and B_def: "B = (\<lambda>g. filter (\<lambda>v. reminder_group env client v = Some g) (asset_views db clientId))"
  shows "processClientInspectionReminders env depth clientId db =
     Inr (concat (map (\<lambda>g. map (reminder_mail env client h (B g) (ng_id g))
       (filter (\<lambda>m. in_group (ng_id g) m \<and> visible_to h clientId av_siteId (B g) m \<noteq> []) (members (md_tenant db) clientId))) REMINDER_GROUPS))"
proof -
  have id: "cl_id client = clientId" using find_by_SomeD [OF assms(1)] by simp
  have ms: "nullish_or (map_of (getMembersByNotificationGroups (md_tenant db) clientId (map ng_id REMINDER_GROUPS)) (ng_id g)) []
      = filter (in_group (ng_id g)) (members (md_tenant db) clientId)" if "g \<in> set REMINDER_GROUPS" for g
    using that by (intro members_of_group [OF reminder_ids_distinct]) simp
  have each: "(if B g = [] then Inr [] else push_all (reminder_job env client h (ng_id g) (B g)) (filter (in_group (ng_id g)) (members (md_tenant db) clientId)))
      = Inr (map (reminder_mail env client h (B g) (ng_id g))
          (filter (\<lambda>m. in_group (ng_id g) m \<and> visible_to h clientId av_siteId (B g) m \<noteq> []) (members (md_tenant db) clientId)))" for g
    by (cases "B g = []") (simp_all add: reminder.loop id reminder_mail_def [abs_def] conj_commute)
  have push_map: "push_all f (map k xs) = push_all (\<lambda>x. f (k x)) xs"
    for f :: "string \<times> asset_view list \<Rightarrow> email_job list result" and k and xs :: "notification_group list"
    by (induction xs) simp_all
  show ?thesis
    unfolding processClientInspectionReminders_def assms(1) option.case Let_def assms(3) bindr_simps if_not_P [OF assms(2)]
      reminder_buckets_eq push_map
  proof (rule push_all_map)
    fix g
    assume "g \<in> set REMINDER_GROUPS"
    from each [of g] ms [OF this] show "(case (ng_id g, filter (\<lambda>v. reminder_group env client v = Some g) (asset_views db clientId)) of (groupId, bucketAssets) \<Rightarrow>
        if bucketAssets = [] then Inr [] else push_all (reminder_job env client h groupId bucketAssets)
          (nullish_or (map_of (getMembersByNotificationGroups (md_tenant db) clientId (map ng_id REMINDER_GROUPS)) groupId) []))
      = Inr (map (reminder_mail env client h (B g) (ng_id g))
          (filter (\<lambda>m. in_group (ng_id g) m \<and> visible_to h clientId av_siteId (B g) m \<noteq> []) (members (md_tenant db) clientId)))"
      unfolding B_def prod.case by (simp only:)
  qed
qed

lemma mem_reminder_jobs:
  assumes "processClientInspectionReminders env depth clientId db = Inr jobs"
    and "find_by cl_id clientId (md_clients db) = Some client" and "\<not> cf_demoMode client"
    and "getSiteHierarchy depth (md_tenant db) clientId = Inr h"
  shows "(\<exists>j\<in>set jobs. ej_templateName j = t \<and> ej_to j = [e] \<and> a \<in> mail_assets (ej_props j)) \<longleftrightarrow>
     (\<exists>g\<in>set REMINDER_GROUPS. \<exists>m\<in>set (members (md_tenant db) clientId). \<exists>v\<in>set (asset_views db clientId).
        ng_id g = t \<and> pe_email (mb_person m) = e \<and> as_id (av_asset v) = a \<and> in_group t m \<and> sees h clientId m (av_siteId v)
        \<and> reminder_group env client v = Some g)"
proof -
  define B where "B = (\<lambda>g. filter (\<lambda>v. reminder_group env client v = Some g) (asset_views db clientId))"
  have id: "cl_id client = clientId" using find_by_SomeD [OF assms(2)] by simp
  have jobs: "set jobs = (\<Union>g\<in>set REMINDER_GROUPS. reminder_mail env client h (B g) (ng_id g) `
       {m \<in> set (members (md_tenant db) clientId). in_group (ng_id g) m \<and> visible_to h clientId av_siteId (B g) m \<noteq> []})"
    by (simp only: sum.inject(2) [THEN iffD1, OF trans [OF assms(1) [symmetric] reminder_jobs [OF assms(2-4) B_def]]]
        set_concat set_map set_filter image_image)
  have one: "ej_templateName (reminder_mail env client h b t' m) = t'" "ej_to (reminder_mail env client h b t' m) = [pe_email (mb_person m)]"
    "mail_assets (ej_props (reminder_mail env client h b t' m)) = (\<lambda>v. as_id (av_asset v)) ` set (visible_to h clientId av_siteId b m)" for b t' m
    by (simp_all add: reminder_mail_def email_def mail_assets_reminder id)
  have "(\<exists>j\<in>set jobs. ej_templateName j = t \<and> ej_to j = [e] \<and> a \<in> mail_assets (ej_props j)) \<longleftrightarrow>
     (\<exists>g\<in>set REMINDER_GROUPS. \<exists>m\<in>set (members (md_tenant db) clientId). in_group (ng_id g) m
        \<and> visible_to h clientId av_siteId (B g) m \<noteq> [] \<and> ng_id g = t \<and> pe_email (mb_person m) = e
        \<and> a \<in> (\<lambda>v. as_id (av_asset v)) ` set (visible_to h clientId av_siteId (B g) m))"
    unfolding jobs UN_simps bex_UN bex_simps one by (simp only: mem_Collect_eq Bex_def conj_assoc list.inject simp_thms) blast
  also have "\<dots> \<longleftrightarrow> (\<exists>g\<in>set REMINDER_GROUPS. \<exists>m\<in>set (members (md_tenant db) clientId). \<exists>v\<in>set (asset_views db clientId).
        ng_id g = t \<and> pe_email (mb_person m) = e \<and> as_id (av_asset v) = a \<and> in_group t m \<and> sees h clientId m (av_siteId v)
        \<and> reminder_group env client v = Some g)"
    by (intro bex_cong HOL.refl) (auto simp: B_def filter_empty_conv)
  finally show ?thesis .
qed

lemma mem_map_filter': "x \<in> set (List.map_filter f xs) \<longleftrightarrow> (\<exists>y\<in>set xs. f y = Some x)"
  by (force simp: List.map_filter_def)

lemma asset_view_of_asset: "asset_view_of db a = Some v \<Longrightarrow> av_asset v = a"
  by (auto simp: asset_view_of_def split: Option.bind_splits)

lemma asset_view_inj:
  assumes "distinct (map as_id (ad_assets (md_assets db)))" and "v \<in> set (asset_views db clientId)" and "v' \<in> set (asset_views db clientId)"
    and "as_id (av_asset v) = as_id (av_asset v')"
  shows "v = v'"
proof -
  have view: "av_asset u \<in> set (ad_assets (md_assets db)) \<and> asset_view_of db (av_asset u) = Some u"
    if "u \<in> set (asset_views db clientId)" for u
  proof -
    from that obtain a where a: "a \<in> set (ad_assets (md_assets db))" "asset_view_of db a = Some u"
      unfolding asset_views_def mem_map_filter' by auto
    then show ?thesis using asset_view_of_asset [OF a(2)] by simp
  qed
  then have "av_asset v = av_asset v'" using assms(1,4) view [OF assms(2)] view [OF assms(3)] unfolding distinct_map inj_on_def by blast
  then show ?thesis using view [OF assms(2)] view [OF assms(3)] by (metis option.inject)
qed

text \<open>
  C20: the daily run for a client that exists and is not a demo client lists an asset in an e-mail of a
  reminder group to an address if and only if that address is the one of a member who has a role with that
  group in the client and sees the asset's site, and the group is the most urgent one whose threshold the
  asset meets today, a threshold being the later of its two dates. So an asset is announced under one group only.
  Assumed is that the site hierarchy can be built, which fails on a cycle of parents, and that assets have different identifiers.
\<close>

theorem reminders_correct:
  assumes "find_by cl_id clientId (md_clients db) = Some client" and "\<not> cf_demoMode client"
    and "getSiteHierarchy depth (md_tenant db) clientId = Inr h" and "distinct (map as_id (ad_assets (md_assets db)))"
  shows "\<exists>jobs. processClientInspectionReminders env depth clientId db = Inr jobs
    \<and> (\<forall>t e a. (\<exists>j\<in>set jobs. ej_templateName j = t \<and> ej_to j = [e] \<and> a \<in> mail_assets (ej_props j)) \<longleftrightarrow>
        (\<exists>g\<in>set REMINDER_GROUPS. \<exists>m\<in>set (members (md_tenant db) clientId). \<exists>v\<in>set (asset_views db clientId).
          ng_id g = t \<and> pe_email (mb_person m) = e \<and> as_id (av_asset v) = a \<and> in_group t m \<and> sees h clientId m (av_siteId v)
          \<and> isThresholdMetToday env (inspectionCycle client v) (lastInspectedOn v) (the (ng_config g))
          \<and> (\<forall>g'\<in>set REMINDER_GROUPS. ng_pct g' < ng_pct g \<longrightarrow>
               \<not> isThresholdMetToday env (inspectionCycle client v) (lastInspectedOn v) (the (ng_config g')))))
    \<and> (\<forall>j\<in>set jobs. \<forall>j'\<in>set jobs. mail_assets (ej_props j) \<inter> mail_assets (ej_props j') \<noteq> {} \<longrightarrow> ej_templateName j = ej_templateName j')"
proof -
  obtain jobs where jobs: "processClientInspectionReminders env depth clientId db = Inr jobs"
    using reminder_jobs [OF assms(1-3) HOL.refl] by blast
  note mem = mem_reminder_jobs [OF jobs assms(1-3)]
  have to: "\<exists>e. ej_to j = [e]" if "j \<in> set jobs" for j
    using that jobs reminder_jobs [OF assms(1-3) HOL.refl, of env] by (auto simp: reminder_mail_def email_def)
  have "ej_templateName j = ej_templateName j'"
    if j: "j \<in> set jobs" "j' \<in> set jobs" and a: "a \<in> mail_assets (ej_props j)" "a \<in> mail_assets (ej_props j')" for j j' a
  proof -
    from to [OF j(1)] j(1) a(1) mem [of "ej_templateName j" _ a] obtain g v where
      "v \<in> set (asset_views db clientId)" "as_id (av_asset v) = a" "reminder_group env client v = Some g" "ng_id g = ej_templateName j"
      by blast
    moreover from to [OF j(2)] j(2) a(2) mem [of "ej_templateName j'" _ a] obtain g' v' where
      "v' \<in> set (asset_views db clientId)" "as_id (av_asset v') = a" "reminder_group env client v' = Some g'" "ng_id g' = ej_templateName j'"
      by blast
    ultimately show ?thesis using asset_view_inj [OF assms(4)] by (metis option.inject)
  qed
  moreover have "(\<exists>j\<in>set jobs. ej_templateName j = t \<and> ej_to j = [e] \<and> a \<in> mail_assets (ej_props j)) \<longleftrightarrow>
        (\<exists>g\<in>set REMINDER_GROUPS. \<exists>m\<in>set (members (md_tenant db) clientId). \<exists>v\<in>set (asset_views db clientId).
          ng_id g = t \<and> pe_email (mb_person m) = e \<and> as_id (av_asset v) = a \<and> in_group t m \<and> sees h clientId m (av_siteId v)
          \<and> isThresholdMetToday env (inspectionCycle client v) (lastInspectedOn v) (the (ng_config g))
          \<and> (\<forall>g'\<in>set REMINDER_GROUPS. ng_pct g' < ng_pct g \<longrightarrow>
               \<not> isThresholdMetToday env (inspectionCycle client v) (lastInspectedOn v) (the (ng_config g'))))" for t e a
    unfolding mem reminder_group_iff by (intro bex_cong HOL.refl) simp
  ultimately show ?thesis using jobs by (intro exI [of _ jobs]) auto
qed

definition ex_dates :: date_env where
  "ex_dates = \<lparr>addDays = \<lambda>t n. t + n * 86400000, addMilliseconds = \<lambda>t q. t + floor q,
     isToday = \<lambda>t. t div 86400000 = 23, isBefore = \<lambda>a b. a < b, differenceInDays = \<lambda>a b. (a - b) div 86400000,
     toISOString = show_int, nowDate = 23 * 86400000 + 1, frontendUrl = ''https://x.io''\<rparr>"

definition ex_mail_tenant :: tenant_db where
  "ex_mail_tenant = (ex_db [])\<lparr>
     db_roles := [(ex_role ''r1'' SITE)\<lparr>ro_notificationGroups := [''inspection_due_soon_alert_level_3'', ''monthly_compliance_report'', ''inspection_alert_triggered'']\<rparr>],
     db_accesses := [\<lparr>pca_id = ''x1'', pca_createdOn = 0, pca_isPrimary = True, pca_personId = ''p1'', pca_clientId = ''c1'', pca_siteId = ''s1'', pca_roleId = ''r1''\<rparr>]\<rparr>"

definition ex_client :: client_full where
  "ex_client = \<lparr>cl_id = ''c1'', cl_externalId = ''x1'', cl_name = ''Client'', cl_status = ACTIVE, cf_demoMode = False, cf_defaultInspectionCycle = 30\<rparr>"

definition ex_mail_db :: mail_db where
  "ex_mail_db = \<lparr>md_tenant = ex_mail_tenant, md_clients = [ex_client],
     md_assets = ex_asset_db\<lparr>ad_alerts := [ex_alert], ad_responses := [ex_response\<lparr>re_responderId := ''p0''\<rparr>]\<rparr>,
     md_products = [\<lparr>pr_id = ''p1'', pr_categoryId = ''g1'', pr_manufacturerId = ''m1'', pr_metadata = None, pr_clientId = None, cp_name = ''Extinguisher''\<rparr>],
     md_categories = [\<lparr>ct_id = ''g1'', ct_name = ''Fire'', ct_shortName = None, ct_icon = None, ct_color = None\<rparr>]\<rparr>"

definition ex_hierarchy :: site_hierarchy where
  "ex_hierarchy = \<lparr>allSiteIds = [''s1'', ''s2''], descendantsBySiteId = [(''s1'', []), (''s2'', [])]\<rparr>"

lemma ex_mail_hierarchy: "getSiteHierarchy 3 (md_tenant ex_mail_db) ''c1'' = Inr ex_hierarchy"
  by code_simp

lemma ex_mail_client: "find_by cl_id ''c1'' (md_clients ex_mail_db) = Some ex_client" "\<not> cf_demoMode ex_client"
  by code_simp+

definition ex_member :: member where
  "ex_member = members ex_mail_tenant ''c1'' ! 1"

theorem reminders_correct_witness:
  "\<exists>jobs. processClientInspectionReminders ex_dates 3 ''c1'' ex_mail_db = Inr jobs
     \<and> (\<exists>j\<in>set jobs. ej_templateName j = ''inspection_due_soon_alert_level_3'' \<and> ej_to j = [''Ann@X.io''] \<and> ''a1'' \<in> mail_assets (ej_props j))"
proof -
  let ?t = "''inspection_due_soon_alert_level_3''"
  let ?g = "REMINDER_GROUPS ! 3"
  let ?v = "hd (asset_views ex_mail_db ''c1'')"
  have d: "distinct (map as_id (ad_assets (md_assets ex_mail_db)))" by code_simp
  have len: "3 < length REMINDER_GROUPS" "1 < length (members ex_mail_tenant ''c1'')" "0 < length (asset_views ex_mail_db ''c1'')"
    by code_simp+
  have g: "?g \<in> set REMINDER_GROUPS" using len(1) by (rule nth_mem)
  have mem: "ex_member \<in> set (members (md_tenant ex_mail_db) ''c1'')"
    using nth_mem [OF len(2)] by (simp add: ex_member_def ex_mail_db_def)
  have v: "?v \<in> set (asset_views ex_mail_db ''c1'')" using len(3) by (intro hd_in_set) simp
  have m: "ng_id ?g = ?t" "pe_email (mb_person ex_member) = ''Ann@X.io''" "as_id (av_asset ?v) = ''a1''" "in_group ?t ex_member"
    "sees ex_hierarchy ''c1'' ex_member (av_siteId ?v)"
    "isThresholdMetToday ex_dates (inspectionCycle ex_client ?v) (lastInspectedOn ?v) (the (ng_config ?g))"
    "list_all (\<lambda>g'. ng_pct g' < ng_pct ?g \<longrightarrow> \<not> isThresholdMetToday ex_dates (inspectionCycle ex_client ?v) (lastInspectedOn ?v) (the (ng_config g'))) REMINDER_GROUPS"
    by code_simp+
  show ?thesis
    using reminders_correct [OF ex_mail_client ex_mail_hierarchy d, of ex_dates] g mem v m unfolding list_all_iff by blast
qed

subsection \<open>Alerts\<close>

definition site_nodes :: "tenant_db \<Rightarrow> id \<Rightarrow> site_node list" where
  "site_nodes db clientId = map (\<lambda>s. \<lparr>sn_id = st_id s, sn_parentSiteId = st_parentSiteId s\<rparr>) (filter (\<lambda>s. st_clientId s = clientId) (db_sites db))"

definition reaches_site :: "site_node list \<Rightarrow> access_grant \<Rightarrow> id \<Rightarrow> bool" where
  \<comment> \<open>the sites a grant is for, by its scope\<close>
  "reaches_site sites g s \<longleftrightarrow> CLIENT \<le> ag_scope g \<or> ag_scope g = SITE \<and> s = ag_siteId g
     \<or> ag_scope g = SITE_GROUP \<and> (s = ag_siteId g \<or> ag_siteId g \<in> sn_id ` set sites \<and> (ag_siteId g, s) \<in> (child_rel sites)\<^sup>+)"

lemma sees_meaning:
  assumes "getSiteHierarchy depth db clientId = Inr h"
  shows "sees h clientId m s \<longleftrightarrow>
     (\<exists>g. reduceAccessGrants (clientAccessGrants (member_accesses m) clientId) = Inr g \<and> reaches_site (site_nodes db clientId) g s)"
proof -
  have h: "buildSiteHierarchy depth (site_nodes db clientId) = Some h"
    using assms by (auto simp: getSiteHierarchy_def site_nodes_def split: option.splits)
  let ?grants = "clientAccessGrants (member_accesses m) clientId"
  have one: "set (filter (\<lambda>x. sees h clientId m x) [s]) = (if sees h clientId m s then {s} else {})" by simp
  from visible_assets_meaning [OF h, of "\<lambda>x. x" "member_accesses m" clientId "[s]", unfolded visible_assets]
  have vis: "if ?grants = [] then filter (\<lambda>x. sees h clientId m x) [s] = []
      else \<exists>g. reduceAccessGrants ?grants = Inr g \<and> set (filter (\<lambda>x. sees h clientId m x) [s]) = {x \<in> {s}. reaches_site (site_nodes db clientId) g x}"
    by (simp only: reaches_site_def list.set sum.inject ex_simps simp_thms)
  show ?thesis
  proof (cases "?grants = []")
    case True
    then have "\<not> sees h clientId m s" using vis by (simp split: if_splits)
    then show ?thesis using True by (auto simp: reduceAccessGrants_def)
  next
    case False
    then obtain g where g: "reduceAccessGrants ?grants = Inr g"
      and eq: "set (filter (\<lambda>x. sees h clientId m x) [s]) = {x \<in> {s}. reaches_site (site_nodes db clientId) g x}"
      using vis by (simp only: if_False) blast
    from eq have "sees h clientId m s \<longleftrightarrow> reaches_site (site_nodes db clientId) g s" unfolding one by (auto split: if_splits)
    then show ?thesis using g by simp
  qed
qed

definition has_group_role :: "tenant_db \<Rightarrow> id \<Rightarrow> person_row \<Rightarrow> string \<Rightarrow> bool" where
  "has_group_role db clientId p g \<longleftrightarrow>
     (\<exists>a\<in>set (db_accesses db). pca_personId a = pe_id p \<and> pca_clientId a = clientId
        \<and> (\<exists>r. find_by ro_id (pca_roleId a) (db_roles db) = Some r \<and> g \<in> set (ro_notificationGroups r)))"

lemma in_group_iff: "in_group g \<lparr>mb_person = p, mb_accesses = joined_accesses db clientId p\<rparr> \<longleftrightarrow> has_group_role db clientId p g"
proof -
  have "ar \<in> set (joined_accesses db clientId p) \<longleftrightarrow> fst ar \<in> set (db_accesses db) \<and> pca_personId (fst ar) = pe_id p
      \<and> pca_clientId (fst ar) = clientId \<and> find_by ro_id (pca_roleId (fst ar)) (db_roles db) = Some (snd ar)" for ar
    by (cases ar) (auto simp: joined_accesses_def mem_map_filter')
  then show ?thesis by (auto simp: in_group_def has_group_role_def list_ex_iff Bex_def)
qed

definition member_grant :: "tenant_db \<Rightarrow> id \<Rightarrow> person_row \<Rightarrow> access_grant result" where
  \<comment> \<open>the one grant the access rows of a person in a client amount to\<close>
  "member_grant db clientId p = reduceAccessGrants (clientAccessGrants (map access_data (joined_accesses db clientId p)) clientId)"

text \<open>
  The e-mail about an alert goes to exactly the people with a role in the alert's client that has the
  group of the alerts, and whose grant in that client reaches the alert's site; nobody without an access
  record in that client is told.
\<close>

theorem alert_recipients:
  assumes "find_by al_id alertId (ad_alerts (md_assets db)) = Some l" and "alert_props db l = Some (client, props)"
    and "getSiteHierarchy depth (md_tenant db) (al_clientId l) = Inr h"
  shows "\<exists>jobs. sendInspectionAlertTriggeredEmail env depth alertId db = Inr jobs
     \<and> (\<forall>j\<in>set jobs. ej_templateName j = ''inspection_alert_triggered'' \<and> ej_props j = props)
     \<and> (\<forall>e. [e] \<in> ej_to ` set jobs \<longleftrightarrow>
          (\<exists>p\<in>set (db_persons (md_tenant db)). pe_email p = e \<and> has_group_role (md_tenant db) (al_clientId l) p ''inspection_alert_triggered''
             \<and> (\<exists>g. member_grant (md_tenant db) (al_clientId l) p = Inr g \<and> reaches_site (site_nodes (md_tenant db) (al_clientId l)) g (al_siteId l))))"
proof -
  let ?T = "md_tenant db" and ?c = "al_clientId l" and ?g = "''inspection_alert_triggered''"
  let ?M = "\<lambda>p. \<lparr>mb_person = p, mb_accesses = joined_accesses ?T ?c p\<rparr>"
  let ?jobs = "map (\<lambda>m. email env ?g client m props) (filter (\<lambda>m. sees h ?c m (al_siteId l)) (filter (in_group ?g) (members ?T ?c)))"
  have ms: "nullish_or (map_of (getMembersByNotificationGroups ?T ?c [?g]) ?g) [] = filter (in_group ?g) (members ?T ?c)"
    by (rule members_of_group) simp_all
  have jobs: "sendInspectionAlertTriggeredEmail env depth alertId db = Inr ?jobs"
    unfolding sendInspectionAlertTriggeredEmail_def assms option.case prod.case Let_def bindr_simps ms alert.loop ..
  have "[e] \<in> ej_to ` set ?jobs \<longleftrightarrow> (\<exists>p\<in>set (db_persons ?T). pe_email p = e \<and> has_group_role ?T ?c p ?g
      \<and> (\<exists>g. member_grant ?T ?c p = Inr g \<and> reaches_site (site_nodes ?T ?c) g (al_siteId l)))" for e
  proof -
    have "[e] \<in> ej_to ` set ?jobs \<longleftrightarrow> (\<exists>p\<in>set (db_persons ?T). in_group ?g (?M p) \<and> sees h ?c (?M p) (al_siteId l) \<and> pe_email p = e)"
      by (auto simp: email_def members_def image_iff)
    then show ?thesis unfolding in_group_iff sees_meaning [OF assms(3)] member_grant_def member_accesses_def by auto
  qed
  moreover have "\<forall>j\<in>set ?jobs. ej_templateName j = ?g \<and> ej_props j = props" by (auto simp: email_def)
  ultimately show ?thesis using jobs by (intro exI [of _ ?jobs]) blast
qed

theorem alert_recipients_witness:
  "\<exists>jobs. sendInspectionAlertTriggeredEmail ex_dates 3 ''n'' ex_mail_db = Inr jobs \<and> [''Ann@X.io''] \<in> ej_to ` set jobs \<and> [''boss@x.io''] \<notin> ej_to ` set jobs"
proof -
  let ?T = "md_tenant ex_mail_db" and ?g = "''inspection_alert_triggered''"
  have l: "find_by al_id ''n'' (ad_alerts (md_assets ex_mail_db)) = Some ex_alert" by code_simp
  obtain client props where p: "alert_props ex_mail_db ex_alert = Some (client, props)"
  proof -
    have "alert_props ex_mail_db ex_alert \<noteq> None" by code_simp
    then show thesis using that by fastforce
  qed
  have c: "al_clientId ex_alert = ''c1''" "al_siteId ex_alert = ''s1''" by code_simp+
  have h: "getSiteHierarchy 3 ?T (al_clientId ex_alert) = Inr ex_hierarchy" unfolding c by (rule ex_mail_hierarchy)
  let ?ann = "ex_person ''p1'' ''Ann@X.io''" and ?boss = "ex_person ''p0'' ''boss@x.io''"
  have persons: "db_persons ?T = [?boss, ?ann]" by code_simp
  have e: "pe_email ?ann = ''Ann@X.io''" "pe_email ?boss = ''boss@x.io''" by code_simp+
  have "in_group ?g \<lparr>mb_person = ?ann, mb_accesses = joined_accesses ?T ''c1'' ?ann\<rparr>"
    "\<not> in_group ?g \<lparr>mb_person = ?boss, mb_accesses = joined_accesses ?T ''c1'' ?boss\<rparr>" by code_simp+
  note role = this [unfolded in_group_iff]
  obtain gr where gr: "member_grant ?T ''c1'' ?ann = Inr gr" "ag_scope gr = SITE" "ag_siteId gr = ''s1''"
  proof -
    have "map_sum (\<lambda>e. ()) (\<lambda>g. (ag_scope g, ag_siteId g)) (member_grant ?T ''c1'' ?ann) = Inr (SITE, ''s1'')" by code_simp
    then show thesis using that by (cases "member_grant ?T ''c1'' ?ann") auto
  qed
  then have site: "reaches_site (site_nodes ?T ''c1'') gr ''s1''" by (simp add: reaches_site_def)
  show ?thesis using alert_recipients [OF l p h, of ex_dates] role gr(1) site e unfolding c persons by auto
qed

end
