(* ===== verification/Monthly_Reports.thy ===== *)
theory Monthly_Reports
  imports Notifications
begin

section \<open>The totals of the monthly reports, and the delivery queue\<close>

text \<open>
  What the monthly reports of \<^verbatim>\<open>client-notifications.processor.ts\<close> add up to, the runs of
  \<^verbatim>\<open>notifications.scheduler.ts\<close>, and the batches of \<^verbatim>\<open>notifications.service.ts\<close>. The mail
  service of the third party is the parameter \<open>send\<close>: a batch gives its data and an error, if any.
\<close>

subsection \<open>The scheduler and the queue of a client\<close>

datatype client_job =
    PROCESS_CLIENT_INSPECTION_REMINDERS id
  | PROCESS_CLIENT_MONTHLY_INSPECTION_REPORTS id
  | SEND_INSPECTION_ALERT_TRIGGERED_EMAIL id
  | OtherJob string

definition active_clients :: "mail_db \<Rightarrow> id list" where
  "active_clients db = map cl_id (filter (\<lambda>c. cl_status c = ACTIVE) (md_clients db))"

definition handleDailyInspectionReminders :: "mail_db \<Rightarrow> client_job list \<Rightarrow> client_job list" where
  "handleDailyInspectionReminders db queue = foldl (\<lambda>q c. q @ [PROCESS_CLIENT_INSPECTION_REMINDERS c]) queue (active_clients db)"

definition handleMonthlyInspectionReports :: "mail_db \<Rightarrow> client_job list \<Rightarrow> client_job list" where
  "handleMonthlyInspectionReports db queue = foldl (\<lambda>q c. q @ [PROCESS_CLIENT_MONTHLY_INSPECTION_REPORTS c]) queue (active_clients db)"

definition queueInspectionAlertTriggeredEmail :: "id \<Rightarrow> client_job list \<Rightarrow> client_job list" where
  "queueInspectionAlertTriggeredEmail alertId queue = queue @ [SEND_INSPECTION_ALERT_TRIGGERED_EMAIL alertId]"

definition process_client_job :: "date_env \<Rightarrow> nat \<Rightarrow> mail_db \<Rightarrow> client_job \<Rightarrow> email_job list result" where
  "process_client_job env depth db job =
     (case job of
        PROCESS_CLIENT_INSPECTION_REMINDERS c \<Rightarrow> processClientInspectionReminders env depth c db
      | PROCESS_CLIENT_MONTHLY_INSPECTION_REPORTS c \<Rightarrow> processClientMonthlyInspectionReports env depth c db
      | SEND_INSPECTION_ALERT_TRIGGERED_EMAIL a \<Rightarrow> sendInspectionAlertTriggeredEmail env depth a db
      | OtherJob _ \<Rightarrow> Inr [])"

subsection \<open>Batches\<close>

definition chunkArray :: "'a list \<Rightarrow> nat \<Rightarrow> 'a list list" where
  \<comment> \<open>a slice from every index that is a multiple of the size\<close>
  "chunkArray arr batchSize =
     foldl (\<lambda>acc i. if i mod batchSize = 0 then acc @ [take batchSize (drop i arr)] else acc) [] [0..<length arr]"

definition sendEmails :: "('m list \<Rightarrow> 'd list \<times> string option) \<Rightarrow> 'm list \<Rightarrow> 'd list result" where
  "sendEmails send options =
     (let results = map send (chunkArray options 100)
      in case List.find (\<lambda>r. snd r \<noteq> None) results of
           Some r \<Rightarrow> Inl (ServerError (the (snd r)))
         | None \<Rightarrow> Inr (concat (map fst results)))"

subsection \<open>Totals\<close>

lemma mset_update_push:
  "distinct (map fst m) \<Longrightarrow> mset (concat (map snd (AList.update k ((case map_of m k of None \<Rightarrow> [] | Some g \<Rightarrow> g) @ [v]) m))) = add_mset v (mset (concat (map snd m)))"
proof (induction m)
  case Nil
  show ?case by simp
next
  case (Cons a m)
  obtain k' g where a: "a = (k', g)" by (cases a)
  show ?case
  proof (cases "k' = k")
    case True
    then show ?thesis by (simp add: a)
  next
    case False
    then show ?thesis using Cons by (simp add: a)
  qed
qed

lemma mset_group_by: "mset (concat (map snd (group_by key xs))) = mset xs"
proof (induction xs rule: rev_induct)
  case Nil
  show ?case by simp
next
  case (snoc x xs)
  then show ?case by (simp add: group_by_snoc jmap_push_def mset_update_push)
qed

lemma sum_list_mset: "mset xs = mset ys \<Longrightarrow> sum_list (map f xs) = (sum_list (map f ys) :: 'a :: comm_monoid_add)"
  by (metis mset_map sum_mset_sum_list)

lemma sum_concat: "sum_list (map f (concat xss)) = sum_list (map (\<lambda>xs. sum_list (map f xs)) xss)"
  for f :: "'b \<Rightarrow> 'a :: comm_monoid_add"
  by (induction xss) simp_all

lemma sum_group_by: "sum_list (map (\<lambda>kg. sum_list (map f (snd kg))) (group_by key xs)) = (sum_list (map f xs) :: 'a :: comm_monoid_add)"
proof -
  have "sum_list (map (\<lambda>kg. sum_list (map f (snd kg))) (group_by key xs)) = sum_list (map f (concat (map snd (group_by key xs))))"
    by (simp add: sum_concat comp_def)
  also have "\<dots> = sum_list (map f xs)" by (rule sum_list_mset [OF mset_group_by])
  finally show ?thesis .
qed

definition all_rows :: "(id \<times> string \<times> report_row list) list \<Rightarrow> report_row list" where
  "all_rows sites = concat (map (\<lambda>t. snd (snd t)) sites)"

lemma sum_rows:
  assumes "\<And>vs. vs \<noteq> [] \<Longrightarrow> F (report_row env client vs) = sum_list (map f vs)"
  shows "sum_list (map F (all_rows (by_site (report_rows env client) vs))) = (sum_list (map f vs) :: 'a :: comm_monoid_add)"
proof -
  have rows: "sum_list (map F (report_rows env client ws)) = sum_list (map f ws)" for ws
  proof -
    have "sum_list (map F (report_rows env client ws)) = sum_list (map (\<lambda>kg. sum_list (map f (snd kg))) (group_by (\<lambda>v. ct_id (av_category v)) ws))"
      unfolding report_rows_def map_map
      by (intro arg_cong [of _ _ sum_list] map_cong HOL.refl) (auto simp: group_by_mem_iff intro!: assms)
    then show ?thesis by (simp only: sum_group_by)
  qed
  have "sum_list (map F (all_rows (by_site (report_rows env client) vs))) = sum_list (map (\<lambda>kg. sum_list (map f (snd kg))) (group_by (\<lambda>v. st_id (av_site v)) vs))"
    unfolding all_rows_def by_site_def sum_concat map_map comp_def case_prod_beta snd_conv rows ..
  then show ?thesis by (simp only: sum_group_by)
qed

lemma foldl_sum: "foldl (\<lambda>acc v. acc + f v) a vs = a + (sum_list (map f vs) :: nat)"
  by (induction vs arbitrary: a) simp_all

lemma row_from:
  assumes "r \<in> set (all_rows (by_site (report_rows env client) vs))"
  shows "\<exists>ws. ws \<noteq> [] \<and> r = report_row env client ws"
proof -
  from assms obtain ws where "r \<in> set (report_rows env client ws)" by (auto simp: all_rows_def by_site_def)
  then obtain kg where kg: "kg \<in> set (group_by (\<lambda>v. ct_id (av_category v)) ws)" and r: "r = report_row env client (snd kg)"
    unfolding report_rows_def set_map case_prod_beta by (elim imageE) (rule that)
  from kg have "(fst kg, snd kg) \<in> set (group_by (\<lambda>v. ct_id (av_category v)) ws)" by simp
  then have "snd kg \<noteq> []" unfolding group_by_mem_iff by (rule conjunct2)
  with r show ?thesis by blast
qed

lemma report_row_fields [simp]:
  "rr_assetCount (report_row env client vs) = length vs"
  "rr_pctCompliant (report_row env client vs) = of_nat (length (filter (is_compliant env client) vs)) / of_nat (length vs)"
  "rr_unresolvedAlertsCount (report_row env client vs) = sum_list (map av_openAlerts vs)"
  by (simp_all add: report_row_def Let_def foldl_sum)

lemma length_sum: "length (filter P xs) = sum_list (map (\<lambda>x. if P x then 1 else 0) xs)"
  by (induction xs) simp_all

lemma sum_list_of_nat_if: "of_nat (sum_list (map (\<lambda>x. if P x then 1 else 0) xs)) = sum_list (map (\<lambda>x. if P x then 1 else (0 :: rat)) xs)"
  by (induction xs) simp_all

lemma report_totals:
  assumes "rows = all_rows (by_site (report_rows env client) vs)"
  shows "sum_list (map rr_assetCount rows) = length vs"
    "sum_list (map rr_unresolvedAlertsCount rows) = sum_list (map av_openAlerts vs)"
    "sum_list (map (\<lambda>r. rr_pctCompliant r * of_nat (rr_assetCount r)) rows) = of_nat (length (filter (is_compliant env client) vs))"
    "r \<in> set rows \<Longrightarrow> 0 < rr_assetCount r \<and> 0 \<le> rr_pctCompliant r \<and> rr_pctCompliant r \<le> 1"
proof -
  show "sum_list (map rr_assetCount rows) = length vs"
    unfolding assms by (subst sum_rows [where f = "\<lambda>_. 1"]) (simp_all add: sum_list_triv)
  show "sum_list (map rr_unresolvedAlertsCount rows) = sum_list (map av_openAlerts vs)"
    unfolding assms by (rule sum_rows) simp
  have "sum_list (map (\<lambda>r. rr_pctCompliant r * of_nat (rr_assetCount r)) rows) = sum_list (map (\<lambda>v. if is_compliant env client v then 1 else (0 :: rat)) vs)"
    unfolding assms by (rule sum_rows) (simp add: length_sum sum_list_of_nat_if)
  then show "sum_list (map (\<lambda>r. rr_pctCompliant r * of_nat (rr_assetCount r)) rows) = of_nat (length (filter (is_compliant env client) vs))"
    by (simp add: length_sum sum_list_of_nat_if)
  show "0 < rr_assetCount r \<and> 0 \<le> rr_pctCompliant r \<and> rr_pctCompliant r \<le> 1" if rows: "r \<in> set rows"
  proof -
    obtain ws where "ws \<noteq> []" "r = report_row env client ws"
      using row_from [OF rows [unfolded assms]] by (elim exE conjE) (rule that)
    moreover from this have "length (filter (is_compliant env client) ws) \<le> length ws" "0 < length ws" by simp_all
    ultimately show ?thesis by (simp only: report_row_fields divide_le_eq_1 of_nat_0_less_iff of_nat_le_iff divide_nonneg_nonneg of_nat_0_le_iff) simp
  qed
qed

subsection \<open>The reports\<close>

lemma monthly_jobs:
  assumes "find_by cl_id clientId (md_clients db) = Some client" and "\<not> cf_demoMode client"
    and "getSiteHierarchy depth (md_tenant db) clientId = Inr h"
  shows "processClientMonthlyInspectionReports env depth clientId db = Inr
     (map (\<lambda>m. email env ''monthly_compliance_report'' client m (Compliance (single_site clientId m)
         (by_site (report_rows env client) (visible_to h clientId av_siteId (asset_views db clientId) m))))
       (filter (\<lambda>m. visible_to h clientId av_siteId (asset_views db clientId) m \<noteq> []) (filter (in_group ''monthly_compliance_report'') (members (md_tenant db) clientId)))
      @ map (\<lambda>m. email env ''monthly_consumables_report'' client m
         (let cs = visible_to h clientId cv_siteId (expiring_consumables env db clientId) m
          in Consumables (bucket_items env cs ''30-days'') (bucket_items env cs ''60-days'') (bucket_items env cs ''90-days'')))
       (filter (\<lambda>m. visible_to h clientId cv_siteId (expiring_consumables env db clientId) m \<noteq> []) (filter (in_group ''monthly_consumables_report'') (members (md_tenant db) clientId))))"
proof -
  have id: "cl_id client = clientId" using find_by_SomeD [OF assms(1)] by simp
  have ms: "nullish_or (map_of (getMembersByNotificationGroups (md_tenant db) clientId [''monthly_compliance_report'', ''monthly_consumables_report'']) t) []
      = filter (in_group t) (members (md_tenant db) clientId)" if "t \<in> {''monthly_compliance_report'', ''monthly_consumables_report''}" for t
    using that by (intro members_of_group) auto
  note ms1 = ms [OF insertI1] and ms2 = ms [OF insertI2 [OF singletonI]]
  show ?thesis
    unfolding processClientMonthlyInspectionReports_def assms(1) option.case if_not_P [OF assms(2)] Let_def assms(3) bindr_simps
      ms1 ms2 compliance.loop consumables.loop id ..
qed

lemma buckets_partition:
  "mset (bucket_items env cs ''30-days'' @ bucket_items env cs ''60-days'' @ bucket_items env cs ''90-days'') = image_mset (mapToConsumableItem env) (mset cs)"
proof (induction cs)
  case Nil
  show ?case by (simp add: bucket_items_def)
next
  case (Cons c cs)
  then show ?case by (auto simp: bucket_items_def expiration_bucket_def Let_def)
qed

subsection \<open>What a report must say\<close>

text \<open>
  A reference for the contents of the reports over the rows of the tables: who gets one, the assets
  and consumables a person sees, when an inspection is due, and the row of each site and category.
\<close>

definition person_rows :: "tenant_db \<Rightarrow> id \<Rightarrow> person_row \<Rightarrow> client_access_row list" where
  \<comment> \<open>the access rows of a person in a client, with their roles\<close>
  "person_rows db clientId p =
     concat (map (\<lambda>a. case find_by ro_id (pca_roleId a) (db_roles db) of
           None \<Rightarrow> []
         | Some r \<Rightarrow> [\<lparr>ca_clientId = pca_clientId a, ca_siteId = pca_siteId a,
             ca_role = \<lparr>rd_id = ro_id r, rd_scope = ro_scope r, rd_capabilities = ro_capabilities r\<rparr>\<rparr>])
       (filter (\<lambda>a. pca_personId a = pe_id p \<and> pca_clientId a = clientId) (db_accesses db)))"

definition person_sees :: "tenant_db \<Rightarrow> id \<Rightarrow> person_row \<Rightarrow> id \<Rightarrow> bool" where
  \<comment> \<open>by the most permissive of the access rows\<close>
  "person_sees db clientId p siteId \<longleftrightarrow> (\<exists>r. widest_row clientId (person_rows db clientId p) r \<and> row_shows (site_nodes db clientId) r siteId)"

definition seen_assets :: "mail_db \<Rightarrow> id \<Rightarrow> person_row \<Rightarrow> asset_row list" where
  "seen_assets db clientId p = filter (\<lambda>a. as_clientId a = clientId \<and> person_sees (md_tenant db) clientId p (as_siteId a)) (ad_assets (md_assets db))"

definition inspected_last :: "mail_db \<Rightarrow> asset_row \<Rightarrow> time" where
  \<comment> \<open>the date of the latest inspection, or of the creation of an asset that has none\<close>
  "inspected_last db a =
     (let ts = is_createdOn ` {i \<in> set (ad_inspections (md_assets db)). is_assetId i = as_id a}
      in if ts = {} then as_createdOn a else Max ts)"

definition on_time :: "date_env \<Rightarrow> client_full \<Rightarrow> mail_db \<Rightarrow> asset_row \<Rightarrow> bool" where
  \<comment> \<open>now is before the last inspection plus the cycle of the asset, or else of the client, in days\<close>
  "on_time env client db a = isBefore env (nowDate env)
     (addDays env (inspected_last db a) (case as_inspectionCycle a of Some n \<Rightarrow> n | None \<Rightarrow> cf_defaultInspectionCycle client))"

definition open_alerts :: "mail_db \<Rightarrow> asset_row \<Rightarrow> nat" where
  "open_alerts db a = length (filter (\<lambda>l. al_assetId l = as_id a \<and> \<not> al_resolved l) (ad_alerts (md_assets db)))"

definition category_of :: "mail_db \<Rightarrow> asset_row \<Rightarrow> id" where
  "category_of db a = (case find_by pr_id (as_productId a) (md_products db) of None \<Rightarrow> [] | Some p \<Rightarrow> pr_categoryId p)"

definition compliance_exact :: "date_env \<Rightarrow> client_full \<Rightarrow> mail_db \<Rightarrow> asset_row list \<Rightarrow> (id \<times> string \<times> report_row list) list \<Rightarrow> bool" where
  \<comment> \<open>one entry per site of the assets, with one row per category of its assets there, which says how many they are, how many are on time and how many alerts are open\<close>
  "compliance_exact env client db assets sites \<longleftrightarrow>
     distinct (map fst sites) \<and> fst ` set sites = as_siteId ` set assets
     \<and> (\<forall>(siteId, siteName, rows)\<in>set sites.
          (\<exists>s\<in>set (db_sites (md_tenant db)). st_id s = siteId \<and> st_name s = siteName)
          \<and> distinct (map rr_categoryId rows) \<and> rr_categoryId ` set rows = category_of db ` {a \<in> set assets. as_siteId a = siteId}
          \<and> (\<forall>r\<in>set rows. let xs = filter (\<lambda>a. as_siteId a = siteId \<and> category_of db a = rr_categoryId r) assets
               in rr_assetCount r = length xs \<and> rr_unresolvedAlertsCount r = sum_list (map (open_alerts db) xs)
                \<and> rr_pctCompliant r = of_nat (length (filter (on_time env client db) xs)) / of_nat (length xs)))"

definition adds_up :: "date_env \<Rightarrow> client_full \<Rightarrow> mail_db \<Rightarrow> asset_row list \<Rightarrow> (id \<times> string \<times> report_row list) list \<Rightarrow> bool" where
  "adds_up env client db assets sites \<longleftrightarrow>
     sum_list (map rr_assetCount (all_rows sites)) = length assets
     \<and> sum_list (map rr_unresolvedAlertsCount (all_rows sites)) = sum_list (map (open_alerts db) assets)
     \<and> sum_list (map (\<lambda>r. rr_pctCompliant r * of_nat (rr_assetCount r)) (all_rows sites)) = of_nat (length (filter (on_time env client db) assets))
     \<and> (\<forall>r\<in>set (all_rows sites). 0 < rr_assetCount r \<and> 0 \<le> rr_pctCompliant r \<and> rr_pctCompliant r \<le> 1)"

definition days_left :: "date_env \<Rightarrow> consumable_row \<Rightarrow> int" where
  "days_left env c = differenceInDays env (the (co_expiresOn c)) (nowDate env)"

definition seen_expiring :: "date_env \<Rightarrow> mail_db \<Rightarrow> id \<Rightarrow> person_row \<Rightarrow> consumable_row list" where
  \<comment> \<open>the consumables a person sees that expire from now to in 90 days\<close>
  "seen_expiring env db clientId p = filter (\<lambda>c. co_clientId c = clientId \<and> person_sees (md_tenant db) clientId p (co_siteId c)
     \<and> (\<exists>t. co_expiresOn c = Some t \<and> nowDate env \<le> t \<and> t \<le> addDays env (nowDate env) 90)) (ad_consumables (md_assets db))"

definition item_of :: "date_env \<Rightarrow> mail_db \<Rightarrow> consumable_row \<Rightarrow> consumable_item \<Rightarrow> bool" where
  \<comment> \<open>the line of a consumable: the names of its site, its product and its asset, its category and its date\<close>
  "item_of env db c i \<longleftrightarrow>
     (\<exists>s\<in>set (db_sites (md_tenant db)). \<exists>p\<in>set (md_products db). \<exists>k\<in>set (md_categories db). \<exists>t.
        st_id s = co_siteId c \<and> pr_id p = co_productId c \<and> ct_id k = pr_categoryId p \<and> co_expiresOn c = Some t
        \<and> ci_siteName i = st_name s \<and> ci_item i = cp_name p \<and> ci_category i = (case ct_shortName k of Some n \<Rightarrow> n | None \<Rightarrow> ct_name k)
        \<and> ci_categoryColor i = ct_color k \<and> ci_categoryIcon i = ct_icon k \<and> ci_expiryDate i = toISOString env t)
     \<and> (if \<exists>a\<in>set (ad_assets (md_assets db)). co_assetId c = Some (as_id a)
        then \<exists>a\<in>set (ad_assets (md_assets db)). co_assetId c = Some (as_id a) \<and> ci_assetName i = as_name a
        else ci_assetName i = ''Unknown'')"

definition relations_exist :: "mail_db \<Rightarrow> id \<Rightarrow> bool" where
  \<comment> \<open>the foreign keys\<close>
  "relations_exist db clientId \<longleftrightarrow>
     (\<forall>a\<in>set (ad_assets (md_assets db)). as_clientId a = clientId \<longrightarrow>
        as_siteId a \<in> st_id ` set (db_sites (md_tenant db)) \<and> as_productId a \<in> pr_id ` set (md_products db))
     \<and> (\<forall>c\<in>set (ad_consumables (md_assets db)). co_clientId c = clientId \<longrightarrow>
        co_siteId c \<in> st_id ` set (db_sites (md_tenant db)) \<and> co_productId c \<in> pr_id ` set (md_products db))
     \<and> (\<forall>p\<in>set (md_products db). pr_categoryId p \<in> ct_id ` set (md_categories db))"

subsection \<open>The reports say it\<close>

abbreviation member_of :: "tenant_db \<Rightarrow> id \<Rightarrow> person_row \<Rightarrow> member" where
  "member_of db clientId p \<equiv> \<lparr>mb_person = p, mb_accesses = joined_accesses db clientId p\<rparr>"

lemma member_rows: "member_accesses (member_of db clientId p) = person_rows db clientId p"
proof -
  have "map access_data (List.map_filter (\<lambda>a. map_option (Pair a) (find_by ro_id (pca_roleId a) (db_roles db))) as)
      = concat (map (\<lambda>a. case find_by ro_id (pca_roleId a) (db_roles db) of
           None \<Rightarrow> []
         | Some r \<Rightarrow> [\<lparr>ca_clientId = pca_clientId a, ca_siteId = pca_siteId a,
             ca_role = \<lparr>rd_id = ro_id r, rd_scope = ro_scope r, rd_capabilities = ro_capabilities r\<rparr>\<rparr>]) as)" for as
    by (induction as) (auto simp: List.map_filter_simps access_data_def split: option.split)
  then show ?thesis by (simp add: member_accesses_def joined_accesses_def person_rows_def)
qed

lemma sees_person:
  assumes "getSiteHierarchy depth db clientId = Inr h"
  shows "sees h clientId (member_of db clientId p) s \<longleftrightarrow> person_sees db clientId p s"
proof -
  have h: "buildSiteHierarchy depth (site_nodes db clientId) = Some h"
    using assms by (auto simp: getSiteHierarchy_def site_nodes_def split: option.splits)
  have "filter (\<lambda>x. sees h clientId (member_of db clientId p) x) [s] = filter (\<lambda>x. person_sees db clientId p x) [s]"
    using visible_by_row [OF h, of "\<lambda>x. x" "person_rows db clientId p" clientId "[s]"] visible_assets [of "\<lambda>x. x" "member_of db clientId p" clientId "[s]" h]
    unfolding member_rows person_sees_def by simp
  then show ?thesis by (simp split: if_splits)
qed

lemma find_by_total: "k \<in> key ` set rows \<Longrightarrow> \<exists>r\<in>set rows. find_by key k rows = Some r \<and> key r = k"
  using find_by_None_iff find_by_SomeD by (metis option.exhaust)

lemma latest_of:
  "map_option f (at0 (rev (sort_key f xs))) = (if xs = [] then None else Some (Max (f ` set xs)))"
  for f :: "'a \<Rightarrow> 'b :: linorder"
proof (cases "xs = []")
  case False
  then have ne: "sort_key f xs \<noteq> []" by (metis set_empty set_sort)
  then obtain ys y where ys: "sort_key f xs = ys @ [y]" by (metis rev_exhaust)
  have "sorted (map f (ys @ [y]))" using sorted_sort_key [of f xs] by (simp only: ys)
  then have "\<forall>z\<in>set xs. f z \<le> f y" using set_sort [of f xs] unfolding ys by (auto simp: sorted_append)
  moreover have "y \<in> set xs" using set_sort [of f xs] unfolding ys by auto
  ultimately have "Max (f ` set xs) = f y" by (intro Max_eqI) auto
  then show ?thesis using False ys by simp
qed simp

definition view_of :: "mail_db \<Rightarrow> asset_row \<Rightarrow> asset_view" where
  "view_of db a = the (asset_view_of db a)"

lemma view_exists:
  assumes "relations_exist db clientId" and "a \<in> set (ad_assets (md_assets db))" and "as_clientId a = clientId"
  shows "asset_view_of db a = Some (view_of db a)"
proof -
  have r: "as_siteId a \<in> st_id ` set (db_sites (md_tenant db))" "as_productId a \<in> pr_id ` set (md_products db)"
    "\<And>p. p \<in> set (md_products db) \<Longrightarrow> pr_categoryId p \<in> ct_id ` set (md_categories db)" using assms by (simp_all add: relations_exist_def)
  from find_by_total [OF r(1)] obtain s where s: "find_by st_id (as_siteId a) (db_sites (md_tenant db)) = Some s" by blast
  from find_by_total [OF r(2)] obtain p where p: "p \<in> set (md_products db)" "find_by pr_id (as_productId a) (md_products db) = Some p" by blast
  from find_by_total [OF r(3) [OF p(1)]] obtain c where "find_by ct_id (pr_categoryId p) (md_categories db) = Some c" by blast
  then show ?thesis using s p(2) by (simp add: view_of_def asset_view_of_def)
qed

lemma view_facts:
  assumes "asset_view_of db a = Some v"
  shows "av_asset v = a" "st_id (av_site v) = as_siteId a" "av_site v \<in> set (db_sites (md_tenant db))" "ct_id (av_category v) = category_of db a"
    "is_compliant env client v \<longleftrightarrow> on_time env client db a" "av_openAlerts v = open_alerts db a"
proof -
  from assms obtain s p c where s: "find_by st_id (as_siteId a) (db_sites (md_tenant db)) = Some s" and p: "find_by pr_id (as_productId a) (md_products db) = Some p"
    and c: "find_by ct_id (pr_categoryId p) (md_categories db) = Some c"
    and v: "v = \<lparr>av_asset = a, av_site = s, av_lastInspection = map_option is_createdOn
         (at0 (rev (sort_key is_createdOn (filter (\<lambda>i. is_assetId i = as_id a) (ad_inspections (md_assets db)))))),
       av_product = p, av_category = c, av_openAlerts = open_alerts db a\<rparr>"
    by (auto simp: asset_view_of_def open_alerts_def split: Option.bind_splits)
  show "av_asset v = a" "av_openAlerts v = open_alerts db a" by (simp_all add: v)
  show "st_id (av_site v) = as_siteId a" "av_site v \<in> set (db_sites (md_tenant db))" using find_by_SomeD [OF s] by (simp_all add: v)
  show "ct_id (av_category v) = category_of db a" using find_by_SomeD [OF c] by (simp add: v category_of_def p)
  have "lastInspectedOn v = inspected_last db a"
    unfolding lastInspectedOn_def inspected_last_def v asset_view.simps latest_of by (auto simp: nullish_or_def filter_empty_conv)
  moreover have "inspectionCycle client v = (case as_inspectionCycle a of Some n \<Rightarrow> n | None \<Rightarrow> cf_defaultInspectionCycle client)"
    by (simp add: inspectionCycle_def v nullish_or_def split: option.split)
  ultimately show "is_compliant env client v \<longleftrightarrow> on_time env client db a" by (simp add: is_compliant_def on_time_def)
qed

lemma keys_group_by: "fst ` set (group_by key xs) = key ` set xs"
proof (intro equalityI subsetI)
  fix k assume "k \<in> fst ` set (group_by key xs)"
  then obtain g where "(k, g) \<in> set (group_by key xs)" by auto
  then show "k \<in> key ` set xs" unfolding group_by_mem_iff by (auto simp: filter_empty_conv)
next
  fix k assume "k \<in> key ` set xs"
  then have "(k, filter (\<lambda>x. key x = k) xs) \<in> set (group_by key xs)" unfolding group_by_mem_iff by (auto simp: filter_empty_conv)
  then show "k \<in> fst ` set (group_by key xs)" by force
qed

lemma group_head:
  assumes "(k, g) \<in> set (group_by key xs)"
  shows "at0 g = Some (hd g)" "key (hd g) = k" "hd g \<in> set xs" "g = filter (\<lambda>x. key x = k) xs"
proof -
  from assms have g: "g = filter (\<lambda>x. key x = k) xs" "g \<noteq> []" unfolding group_by_mem_iff by blast+
  show "g = filter (\<lambda>x. key x = k) xs" by (rule g(1))
  show "at0 g = Some (hd g)" using g(2) by (cases g) simp_all
  have "hd g \<in> set g" using g(2) by simp
  then show "key (hd g) = k" "hd g \<in> set xs" unfolding g(1) by simp_all
qed

lemma by_site_eq: "by_site f vs = map (\<lambda>(k, ws). (k, st_name (av_site (hd ws)), f ws)) (group_by (\<lambda>v. st_id (av_site v)) vs)"
  unfolding by_site_def by (intro map_cong HOL.refl) (auto simp: nullish_or_def group_head(1) group_head(2) [of _ _ "\<lambda>v. st_id (av_site v)"])

lemma report_row_category: "(c, us) \<in> set (group_by (\<lambda>v. ct_id (av_category v)) ws) \<Longrightarrow> rr_categoryId (report_row env client us) = c"
  using group_head(1,2) [of c us "\<lambda>v. ct_id (av_category v)" ws] by (simp add: report_row_def Let_def nullish_or_def)

lemma report_rows_ids: "map rr_categoryId (report_rows env client ws) = map fst (group_by (\<lambda>v. ct_id (av_category v)) ws)"
  unfolding report_rows_def map_map by (intro map_cong HOL.refl) (auto simp: report_row_category)

lemma map_filter_length: "(\<And>x. x \<in> set xs \<Longrightarrow> P (f x) \<longleftrightarrow> Q x) \<Longrightarrow> filter P (map f xs) = map f (filter Q xs)"
  unfolding filter_map comp_def by (intro arg_cong [of _ _ "map f"] filter_cong) auto

lemma compliance_exact_report:
  assumes V: "\<And>a. a \<in> set assets \<Longrightarrow> asset_view_of db a = Some (view_of db a)"
  shows "compliance_exact env client db assets (by_site (report_rows env client) (map (view_of db) assets))"
proof -
  let ?vs = "map (view_of db) assets" and ?site = "\<lambda>v. st_id (av_site v)" and ?cat = "\<lambda>v. ct_id (av_category v)"
  note f = view_facts [OF V]
  have at: "filter (\<lambda>v. ?site v = k) ?vs = map (view_of db) (filter (\<lambda>a. as_siteId a = k) assets)" for k
    by (rule map_filter_length) (simp add: f)
  have "distinct (map fst (by_site (report_rows env client) ?vs))" by (simp add: by_site_eq comp_def case_prod_beta)
  moreover have "fst ` set (by_site (report_rows env client) ?vs) = as_siteId ` set assets"
  proof -
    have "fst ` set (by_site (report_rows env client) ?vs) = fst ` set (group_by ?site ?vs)" by (simp add: by_site_eq image_image case_prod_beta)
    also have "\<dots> = as_siteId ` set assets" unfolding keys_group_by by (auto simp: f image_iff)
    finally show ?thesis .
  qed
  moreover have "(\<exists>s\<in>set (db_sites (md_tenant db)). st_id s = k \<and> st_name s = n) \<and> distinct (map rr_categoryId rows)
      \<and> rr_categoryId ` set rows = category_of db ` {a \<in> set assets. as_siteId a = k}
      \<and> (\<forall>r\<in>set rows. let xs = filter (\<lambda>a. as_siteId a = k \<and> category_of db a = rr_categoryId r) assets
               in rr_assetCount r = length xs \<and> rr_unresolvedAlertsCount r = sum_list (map (open_alerts db) xs)
                \<and> rr_pctCompliant r = of_nat (length (filter (on_time env client db) xs)) / of_nat (length xs))"
    if entry: "(k, n, rows) \<in> set (by_site (report_rows env client) ?vs)" for k n rows
  proof (intro conjI ballI)
    from entry obtain ws where ws: "(k, ws) \<in> set (group_by ?site ?vs)" and n: "n = st_name (av_site (hd ws))" and rows: "rows = report_rows env client ws"
      by (auto simp: by_site_eq)
    note hd = group_head [OF ws]
    have ws_eq: "ws = map (view_of db) (filter (\<lambda>a. as_siteId a = k) assets)" using hd(4) unfolding at .
    show "\<exists>s\<in>set (db_sites (md_tenant db)). st_id s = k \<and> st_name s = n"
      using hd(2,3) f(3) unfolding n by auto
    have ids: "map rr_categoryId rows = map fst (group_by ?cat ws)" unfolding rows by (rule report_rows_ids)
    then show "distinct (map rr_categoryId rows)" by simp
    have "rr_categoryId ` set rows = ?cat ` set ws" using arg_cong [OF ids, of set] by (simp add: keys_group_by)
    then show "rr_categoryId ` set rows = category_of db ` {a \<in> set assets. as_siteId a = k}"
      unfolding ws_eq by (auto simp: f image_iff)
    fix r assume "r \<in> set rows"
    then obtain c us where us: "(c, us) \<in> set (group_by ?cat ws)" and r: "r = report_row env client us" by (auto simp: rows report_rows_def)
    have c: "rr_categoryId r = c" unfolding r by (rule report_row_category [OF us])
    let ?xs = "filter (\<lambda>a. as_siteId a = k \<and> category_of db a = c) assets"
    have "us = filter (\<lambda>v. ?cat v = c) (map (view_of db) (filter (\<lambda>a. as_siteId a = k) assets))" using group_head(4) [OF us] unfolding ws_eq .
    also have "\<dots> = map (view_of db) (filter (\<lambda>a. category_of db a = c) (filter (\<lambda>a. as_siteId a = k) assets))"
      by (rule map_filter_length) (simp add: f)
    also have "filter (\<lambda>a. category_of db a = c) (filter (\<lambda>a. as_siteId a = k) assets) = ?xs" unfolding filter_filter ..
    finally have us_eq: "us = map (view_of db) ?xs" .
    have "filter (is_compliant env client) us = map (view_of db) (filter (on_time env client db) ?xs)"
      unfolding us_eq by (rule map_filter_length) (simp add: f)
    moreover have "map av_openAlerts us = map (open_alerts db) ?xs" unfolding us_eq map_map by (intro map_cong HOL.refl) (simp add: f)
    ultimately show "let xs = filter (\<lambda>a. as_siteId a = k \<and> category_of db a = rr_categoryId r) assets
      in rr_assetCount r = length xs \<and> rr_unresolvedAlertsCount r = sum_list (map (open_alerts db) xs)
        \<and> rr_pctCompliant r = of_nat (length (filter (on_time env client db) xs)) / of_nat (length xs)"
      unfolding Let_def c unfolding r report_row_fields by (simp add: us_eq del: map_map map_eq_conv)
  qed
  ultimately show ?thesis unfolding compliance_exact_def by blast
qed

lemma adds_up_report:
  assumes V: "\<And>a. a \<in> set assets \<Longrightarrow> asset_view_of db a = Some (view_of db a)"
  shows "adds_up env client db assets (by_site (report_rows env client) (map (view_of db) assets))"
proof -
  note f = view_facts [OF V]
  have "filter (is_compliant env client) (map (view_of db) assets) = map (view_of db) (filter (on_time env client db) assets)"
    by (rule map_filter_length) (simp add: f)
  moreover have "map av_openAlerts (map (view_of db) assets) = map (open_alerts db) assets" unfolding map_map by (intro map_cong HOL.refl) (simp add: f)
  moreover note report_totals [OF HOL.refl, where env = env and client = client and vs = "map (view_of db) assets"]
  ultimately show ?thesis unfolding adds_up_def length_map by (metis length_map)
qed

definition expiring_view :: "date_env \<Rightarrow> mail_db \<Rightarrow> consumable_row \<Rightarrow> consumable_view option" where
  "expiring_view env db c = do {
     expiresOn \<leftarrow> co_expiresOn c;
     s \<leftarrow> find_by st_id (co_siteId c) (db_sites (md_tenant db));
     p \<leftarrow> find_by pr_id (co_productId c) (md_products db);
     k \<leftarrow> find_by ct_id (pr_categoryId p) (md_categories db);
     if nowDate env \<le> expiresOn \<and> expiresOn \<le> addDays env (nowDate env) 90
     then Some \<lparr>cv_consumable = c, cv_expiresOn = expiresOn,
       cv_assetName = map_option as_name (Option.bind (co_assetId c) (\<lambda>i. find_by as_id i (ad_assets (md_assets db)))),
       cv_product = p, cv_category = k, cv_site = s\<rparr>
     else None
   }"

lemma filter_of_map_filter: "filter P (List.map_filter f xs) = map (\<lambda>x. the (f x)) (filter (\<lambda>x. \<exists>y. f x = Some y \<and> P y) xs)"
  by (induction xs) (auto simp: List.map_filter_simps split: option.split)

lemma map_filter_all: "(\<And>x. x \<in> set xs \<Longrightarrow> f x = Some (g x)) \<Longrightarrow> List.map_filter f xs = map g xs"
  by (induction xs) (simp_all add: List.map_filter_simps)

lemma expiring_view_iff:
  assumes "relations_exist db clientId" and "c \<in> set (ad_consumables (md_assets db))" and "co_clientId c = clientId"
  shows "(\<exists>v. expiring_view env db c = Some v) \<longleftrightarrow> (\<exists>t. co_expiresOn c = Some t \<and> nowDate env \<le> t \<and> t \<le> addDays env (nowDate env) 90)"
proof -
  have r: "co_siteId c \<in> st_id ` set (db_sites (md_tenant db))" "co_productId c \<in> pr_id ` set (md_products db)"
    "\<And>p. p \<in> set (md_products db) \<Longrightarrow> pr_categoryId p \<in> ct_id ` set (md_categories db)" using assms by (simp_all add: relations_exist_def)
  from find_by_total [OF r(1)] obtain s where s: "find_by st_id (co_siteId c) (db_sites (md_tenant db)) = Some s" by blast
  from find_by_total [OF r(2)] obtain p where p: "p \<in> set (md_products db)" "find_by pr_id (co_productId c) (md_products db) = Some p" by blast
  from find_by_total [OF r(3) [OF p(1)]] obtain k where "find_by ct_id (pr_categoryId p) (md_categories db) = Some k" by blast
  then show ?thesis using s p(2) by (cases "co_expiresOn c") (simp_all add: expiring_view_def)
qed

lemma expiring_view_facts:
  assumes "expiring_view env db c = Some v"
  shows "cv_siteId v = co_siteId c" "differenceInDays env (cv_expiresOn v) (nowDate env) = days_left env c" "item_of env db c (mapToConsumableItem env v)"
proof -
  from assms obtain t s p k where t: "co_expiresOn c = Some t" and s: "find_by st_id (co_siteId c) (db_sites (md_tenant db)) = Some s"
    and p: "find_by pr_id (co_productId c) (md_products db) = Some p" and k: "find_by ct_id (pr_categoryId p) (md_categories db) = Some k"
    and v: "v = \<lparr>cv_consumable = c, cv_expiresOn = t,
       cv_assetName = map_option as_name (Option.bind (co_assetId c) (\<lambda>i. find_by as_id i (ad_assets (md_assets db)))),
       cv_product = p, cv_category = k, cv_site = s\<rparr>"
    by (auto simp: expiring_view_def split: Option.bind_splits if_splits)
  show "cv_siteId v = co_siteId c" "differenceInDays env (cv_expiresOn v) (nowDate env) = days_left env c" by (simp_all add: v cv_siteId_def days_left_def t)
  let ?i = "mapToConsumableItem env v"
  have "s \<in> set (db_sites (md_tenant db)) \<and> p \<in> set (md_products db) \<and> k \<in> set (md_categories db)
      \<and> st_id s = co_siteId c \<and> pr_id p = co_productId c \<and> ct_id k = pr_categoryId p"
    using find_by_SomeD [OF s] find_by_SomeD [OF p] find_by_SomeD [OF k] by simp
  moreover have "ci_siteName ?i = st_name s \<and> ci_item ?i = cp_name p \<and> ci_category ?i = (case ct_shortName k of Some n \<Rightarrow> n | None \<Rightarrow> ct_name k)
      \<and> ci_categoryColor ?i = ct_color k \<and> ci_categoryIcon ?i = ct_icon k \<and> ci_expiryDate ?i = toISOString env t"
    by (simp add: mapToConsumableItem_def v nullish_or_def split: option.split)
  moreover have "if \<exists>a\<in>set (ad_assets (md_assets db)). co_assetId c = Some (as_id a)
      then \<exists>a\<in>set (ad_assets (md_assets db)). co_assetId c = Some (as_id a) \<and> ci_assetName ?i = as_name a else ci_assetName ?i = ''Unknown''"
  proof (cases "Option.bind (co_assetId c) (\<lambda>i. find_by as_id i (ad_assets (md_assets db)))")
    case None
    then have "\<not> (\<exists>a\<in>set (ad_assets (md_assets db)). co_assetId c = Some (as_id a))" by (auto simp: find_by_None_iff split: Option.bind_splits)
    then show ?thesis using None by (simp add: mapToConsumableItem_def v nullish_or_def)
  next
    case (Some a)
    then have "a \<in> set (ad_assets (md_assets db)) \<and> co_assetId c = Some (as_id a)" by (auto dest: find_by_SomeD split: Option.bind_splits)
    then show ?thesis using Some by (auto simp: mapToConsumableItem_def v nullish_or_def)
  qed
  ultimately show "item_of env db c ?i" unfolding item_of_def using t by blast
qed

lemma list_all2_map_self: "(\<And>x. x \<in> set xs \<Longrightarrow> P x (g x)) \<Longrightarrow> list_all2 P xs (map g xs)"
  by (induction xs) simp_all

lemma visible_consumables:
  assumes "getSiteHierarchy depth (md_tenant db) clientId = Inr h" and "relations_exist db clientId"
  shows "visible_to h clientId cv_siteId (expiring_consumables env db clientId) (member_of (md_tenant db) clientId p)
    = map (\<lambda>c. the (expiring_view env db c)) (seen_expiring env db clientId p)"
proof -
  have "expiring_consumables env db clientId = List.map_filter (expiring_view env db) (filter (\<lambda>c. co_clientId c = clientId) (ad_consumables (md_assets db)))"
    unfolding expiring_consumables_def expiring_view_def [abs_def] ..
  moreover have "filter (\<lambda>c. \<exists>v. expiring_view env db c = Some v \<and> person_sees (md_tenant db) clientId p (cv_siteId v)) (filter (\<lambda>c. co_clientId c = clientId) (ad_consumables (md_assets db)))
      = seen_expiring env db clientId p"
    unfolding seen_expiring_def filter_filter
    by (rule filter_cong [OF HOL.refl]) (use expiring_view_iff [OF assms(2)] expiring_view_facts(1) in fastforce)
  ultimately show ?thesis by (simp only: filter_of_map_filter sees_person [OF assms(1)])
qed

lemma seen_expiring_view:
  assumes "relations_exist db clientId" and "c \<in> set (seen_expiring env db clientId p)"
  shows "expiring_view env db c = Some (the (expiring_view env db c))"
proof -
  have "\<exists>v. expiring_view env db c = Some v" using assms(2) by (subst expiring_view_iff [OF assms(1)]) (auto simp: seen_expiring_def)
  then show ?thesis by auto
qed

lemma bucket_lists:
  assumes "relations_exist db clientId" and "\<And>c. Q c \<longleftrightarrow> (days_left env c \<le> 30 \<and> k = ''30-days'' \<or> 30 < days_left env c \<and> days_left env c \<le> 60 \<and> k = ''60-days'' \<or> 60 < days_left env c \<and> k = ''90-days'')"
  shows "list_all2 (item_of env db) (filter Q (seen_expiring env db clientId p)) (bucket_items env (map (\<lambda>c. the (expiring_view env db c)) (seen_expiring env db clientId p)) k)"
proof -
  note v = expiring_view_facts [OF seen_expiring_view [OF assms(1)]]
  have item: "item_of env db c (mapToConsumableItem env (the (expiring_view env db c)))" if "c \<in> set (seen_expiring env db clientId p)" for c
    using v(3) that by blast
  have "filter (\<lambda>v. expiration_bucket env v = k) (map (\<lambda>c. the (expiring_view env db c)) (seen_expiring env db clientId p))
      = map (\<lambda>c. the (expiring_view env db c)) (filter Q (seen_expiring env db clientId p))"
    by (rule map_filter_length) (auto simp: expiration_bucket_def v(2) assms(2) Let_def)
  then show ?thesis unfolding bucket_items_def by (simp only: map_map comp_def) (rule list_all2_map_self, rule item, simp)
qed

lemma visible_assets_of:
  assumes "getSiteHierarchy depth (md_tenant db) clientId = Inr h" and "relations_exist db clientId"
  shows "visible_to h clientId av_siteId (asset_views db clientId) (member_of (md_tenant db) clientId p) = map (view_of db) (seen_assets db clientId p)"
proof -
  have own: "asset_view_of db a = Some (view_of db a)" if "a \<in> set (filter (\<lambda>a. as_clientId a = clientId) (ad_assets (md_assets db)))" for a
    using view_exists [OF assms(2), of a] that by simp
  have "asset_views db clientId = map (view_of db) (filter (\<lambda>a. as_clientId a = clientId) (ad_assets (md_assets db)))"
    unfolding asset_views_def by (rule map_filter_all) (rule own)
  moreover have "filter (\<lambda>v. person_sees (md_tenant db) clientId p (av_siteId v)) (map (view_of db) (filter (\<lambda>a. as_clientId a = clientId) (ad_assets (md_assets db))))
      = map (view_of db) (filter (\<lambda>a. person_sees (md_tenant db) clientId p (as_siteId a)) (filter (\<lambda>a. as_clientId a = clientId) (ad_assets (md_assets db))))"
    by (rule map_filter_length) (simp add: av_siteId_def view_facts(1) [OF own])
  ultimately show ?thesis by (simp only: sees_person [OF assms(1)] seen_assets_def filter_filter)
qed

lemma seen_assets_view:
  assumes "relations_exist db clientId" and "a \<in> set (seen_assets db clientId p)"
  shows "asset_view_of db a = Some (view_of db a)"
  using view_exists [OF assms(1), of a] assms(2) by (simp add: seen_assets_def)

lemma addressed_members:
  "map f (filter P (filter (in_group g) (members db clientId)))
     = map (\<lambda>p. f (member_of db clientId p)) (filter (\<lambda>p. has_group_role db clientId p g \<and> P (member_of db clientId p)) (db_persons db))"
proof -
  have "filter P (filter (in_group g) (map (member_of db clientId) ps)) = map (member_of db clientId) (filter (\<lambda>p. has_group_role db clientId p g \<and> P (member_of db clientId p)) ps)" for ps
    by (induction ps) (simp_all add: in_group_iff)
  then show ?thesis by (simp add: members_def)
qed

definition compliance_mail :: "date_env \<Rightarrow> client_full \<Rightarrow> mail_db \<Rightarrow> id \<Rightarrow> person_row \<Rightarrow> email_job \<Rightarrow> bool" where
  "compliance_mail env client db clientId p j \<longleftrightarrow>
     ej_templateName j = ''monthly_compliance_report'' \<and> ej_to j = [pe_email p]
     \<and> (\<exists>single sites. ej_props j = Compliance single sites
          \<and> compliance_exact env client db (seen_assets db clientId p) sites \<and> adds_up env client db (seen_assets db clientId p) sites)"

definition consumables_mail :: "date_env \<Rightarrow> mail_db \<Rightarrow> id \<Rightarrow> person_row \<Rightarrow> email_job \<Rightarrow> bool" where
  "consumables_mail env db clientId p j \<longleftrightarrow>
     ej_templateName j = ''monthly_consumables_report'' \<and> ej_to j = [pe_email p]
     \<and> (\<exists>thirty sixty ninety. ej_props j = Consumables thirty sixty ninety
          \<and> list_all2 (item_of env db) (filter (\<lambda>c. days_left env c \<le> 30) (seen_expiring env db clientId p)) thirty
          \<and> list_all2 (item_of env db) (filter (\<lambda>c. 30 < days_left env c \<and> days_left env c \<le> 60) (seen_expiring env db clientId p)) sixty
          \<and> list_all2 (item_of env db) (filter (\<lambda>c. 60 < days_left env c) (seen_expiring env db clientId p)) ninety)"

text \<open>
  C21: the monthly run for a client that exists and is not a demo client mails exactly the reports that are due, and they are complete
  and add up. There is one compliance report for every person who has a role with its group in the client and sees at least
  one of its assets, by the most permissive of the access rows, and no other. It has one entry per site of the assets the person sees, with one row per category there, which
  gives the number of those assets, the share of them whose next inspection is not yet due and the number of their open alerts;
  so over the whole report the counts add up to the number of assets seen, the shares weighted by them to the number of
  those on time, the alerts to all open alerts, and no row is empty or has a share outside 0 to 1. There is one
  consumables report for every person who has a role with its group and sees a consumable that expires from now to in 90
  days; it lists each of these once, under 30, 60 or 90 days by the whole days left. Assumed are that the site hierarchy can be built, which fails on a cycle of
  parents, and that the rows which the assets, the consumables and the products refer to exist, as the foreign keys demand.
\<close>

theorem monthly_reports_add_up:
  assumes "find_by cl_id clientId (md_clients db) = Some client" and "\<not> cf_demoMode client"
    and "getSiteHierarchy depth (md_tenant db) clientId = Inr h" and "relations_exist db clientId"
  shows "\<exists>compliance consumables. processClientMonthlyInspectionReports env depth clientId db = Inr (compliance @ consumables)
     \<and> list_all2 (compliance_mail env client db clientId)
         (filter (\<lambda>p. has_group_role (md_tenant db) clientId p ''monthly_compliance_report'' \<and> seen_assets db clientId p \<noteq> []) (db_persons (md_tenant db))) compliance
     \<and> list_all2 (consumables_mail env db clientId)
         (filter (\<lambda>p. has_group_role (md_tenant db) clientId p ''monthly_consumables_report'' \<and> seen_expiring env db clientId p \<noteq> []) (db_persons (md_tenant db))) consumables"
proof -
  let ?V = "\<lambda>p. map (view_of db) (seen_assets db clientId p)"
  let ?W = "\<lambda>p. map (\<lambda>c. the (expiring_view env db c)) (seen_expiring env db clientId p)"
  let ?m = "member_of (md_tenant db) clientId"
  have one: "compliance_mail env client db clientId p (email env ''monthly_compliance_report'' client (?m p) (Compliance b (by_site (report_rows env client) (?V p))))" for p b
    using compliance_exact_report [OF seen_assets_view [OF assms(4)]] adds_up_report [OF seen_assets_view [OF assms(4)]]
    by (auto simp: compliance_mail_def email_def)
  have two: "consumables_mail env db clientId p (email env ''monthly_consumables_report'' client (?m p)
      (Consumables (bucket_items env (?W p) ''30-days'') (bucket_items env (?W p) ''60-days'') (bucket_items env (?W p) ''90-days'')))" for p
    unfolding consumables_mail_def by (auto simp: email_def intro!: bucket_lists [OF assms(4)])
  show ?thesis
    unfolding monthly_jobs [OF assms(1-3)] addressed_members Let_def visible_assets_of [OF assms(3,4)] visible_consumables [OF assms(3,4)] map_is_Nil_conv
    by (rule exI, rule exI, rule conjI [OF HOL.refl], rule conjI; rule list_all2_map_self; (rule one | rule two))
qed

text \<open>The example of the reminders: one person has the compliance group and sees the one asset; nothing expires.\<close>

theorem monthly_reports_add_up_witness:
  "\<exists>j. processClientMonthlyInspectionReports ex_dates 3 ''c1'' ex_mail_db = Inr [j] \<and> ej_to j = [''Ann@X.io'']
     \<and> (\<exists>single sites. ej_props j = Compliance single sites \<and> sum_list (map rr_assetCount (all_rows sites)) = 1)"
proof -
  let ?T = "md_tenant ex_mail_db"
  have r: "relations_exist ex_mail_db ''c1''"
    unfolding relations_exist_def by code_simp
  have people: "map pe_email (filter (\<lambda>p. in_group ''monthly_compliance_report'' (member_of ?T ''c1'' p)) (db_persons ?T)) = [''Ann@X.io'']"
    "filter (\<lambda>p. in_group ''monthly_consumables_report'' (member_of ?T ''c1'' p)) (db_persons ?T) = []" by code_simp+
  from people(1) obtain ann where ann: "filter (\<lambda>p. in_group ''monthly_compliance_report'' (member_of ?T ''c1'' p)) (db_persons ?T) = [ann]" "pe_email ann = ''Ann@X.io''"
    by (auto simp: map_eq_Cons_conv)
  have v: "list_all (\<lambda>p. length (visible_to ex_hierarchy ''c1'' av_siteId (asset_views ex_mail_db ''c1'') (member_of ?T ''c1'' p)) = 1)
      (filter (\<lambda>p. in_group ''monthly_compliance_report'' (member_of ?T ''c1'' p)) (db_persons ?T))" by code_simp
  have seen: "length (seen_assets ex_mail_db ''c1'' ann) = 1"
    using v unfolding ann(1) visible_assets_of [OF ex_mail_hierarchy r] by simp
  have "filter (\<lambda>p. has_group_role ?T ''c1'' p ''monthly_compliance_report'' \<and> seen_assets ex_mail_db ''c1'' p \<noteq> []) (db_persons ?T)
      = filter (\<lambda>p. seen_assets ex_mail_db ''c1'' p \<noteq> []) [ann]"
    unfolding ann(1) [symmetric] in_group_iff filter_filter by (simp add: conj_commute)
  moreover have "seen_assets ex_mail_db ''c1'' ann \<noteq> []" using seen by auto
  ultimately have one: "filter (\<lambda>p. has_group_role ?T ''c1'' p ''monthly_compliance_report'' \<and> seen_assets ex_mail_db ''c1'' p \<noteq> []) (db_persons ?T) = [ann]" by simp
  have none: "filter (\<lambda>p. has_group_role ?T ''c1'' p ''monthly_consumables_report'' \<and> seen_expiring ex_dates ex_mail_db ''c1'' p \<noteq> []) (db_persons ?T) = []"
    using people(2) unfolding in_group_iff filter_empty_conv by blast
  from monthly_reports_add_up [OF ex_mail_client ex_mail_hierarchy r, of ex_dates] seen ann(2) show ?thesis
    unfolding one none by (auto simp: list_all2_Cons1 compliance_mail_def adds_up_def)
qed

subsection \<open>Batches of the mail service\<close>

lemma chunkArray_alt: "chunkArray arr n = map (\<lambda>i. take n (drop i arr)) (filter (\<lambda>i. i mod n = 0) [0..<length arr])"
proof -
  have "foldl (\<lambda>acc i. if P i then acc @ [f i] else acc) a xs = a @ map f (filter P xs)" for P and f :: "nat \<Rightarrow> 'a list" and a xs
    by (induction xs arbitrary: a) simp_all
  then show ?thesis by (simp add: chunkArray_def)
qed

lemma chunkArray_step:
  assumes "0 < n" and "arr \<noteq> []"
  shows "chunkArray arr n = take n arr # chunkArray (drop n arr) n"
proof -
  let ?k = "min n (length arr)"
  have "[0..<length arr] = [0..<?k] @ [?k..<length arr]" using upt_add_eq_append [of 0 ?k "length arr - ?k"] by simp
  moreover have "filter (\<lambda>i. i mod n = 0) [0..<?k] = [0]"
  proof -
    have "[0..<?k] = 0 # [1..<?k]" using assms by (simp add: upt_conv_Cons)
    moreover have "filter (\<lambda>i. i mod n = 0) [1..<?k] = []" by (auto simp: filter_empty_conv)
    ultimately show ?thesis by simp
  qed
  moreover have "filter (\<lambda>i. i mod n = 0) [?k..<length arr] = map (\<lambda>i. i + n) (filter (\<lambda>i. i mod n = 0) [0..<length arr - n])"
  proof (cases "n \<le> length arr")
    case True
    then have "[?k..<length arr] = map (\<lambda>i. i + n) [0..<length arr - n]" by (simp add: map_add_upt)
    then show ?thesis by (simp add: filter_map comp_def)
  next
    case False
    then show ?thesis by simp
  qed
  ultimately show ?thesis unfolding chunkArray_alt by (simp add: comp_def add.commute)
qed

lemma chunkArray_correct:
  assumes "0 < n"
  shows "concat (chunkArray arr n) = arr \<and> (\<forall>b\<in>set (chunkArray arr n). b \<noteq> [] \<and> length b \<le> n)"
proof (induction arr rule: length_induct)
  case (1 arr)
  show ?case
  proof (cases "arr = []")
    case True
    then show ?thesis by (simp add: chunkArray_def)
  next
    case False
    have "length (drop n arr) < length arr" using False assms by simp
    with 1 have "concat (chunkArray (drop n arr) n) = drop n arr \<and> (\<forall>b\<in>set (chunkArray (drop n arr) n). b \<noteq> [] \<and> length b \<le> n)" by blast
    then show ?thesis unfolding chunkArray_step [OF assms False] using False assms by simp
  qed
qed

text \<open>
  No e-mail is lost, sent twice or sent in a batch above the limit of the mail service. For a service
  that accepts every batch of at most 100 messages and answers a batch with one item per message, sending
  any number of e-mails succeeds and returns the items of all of them in their order.
\<close>

theorem sendEmails_complete:
  assumes "\<And>batch. batch \<noteq> [] \<Longrightarrow> length batch \<le> 100 \<Longrightarrow> send batch = (map item batch, None)"
  shows "sendEmails send options = Inr (map item options)"
proof -
  note chunks = chunkArray_correct [of 100 options, simplified]
  then have each: "send b = (map item b, None)" if "b \<in> set (chunkArray options 100)" for b using that assms by blast
  then have "List.find (\<lambda>r. snd r \<noteq> None) (map send (chunkArray options 100)) = None" by (auto simp: find_None_iff)
  moreover have "concat (map fst (map send (chunkArray options 100))) = map item (concat (chunkArray options 100))"
    unfolding map_concat map_map by (intro arg_cong [of _ _ concat] map_cong) (simp_all add: each)
  ultimately show ?thesis using chunks by (simp add: sendEmails_def)
qed

theorem sendEmails_complete_witness:
  "sendEmails (\<lambda>b. if length b \<le> 100 then (map (\<lambda>x. x + 1) b, None) else ([], Some ''too many'')) [0..<250] = Inr [1..<251]"
proof -
  have "map (\<lambda>x. x + 1) [0..<250] = [1..<251 :: nat]" by (simp only: Suc_eq_plus1 [symmetric] map_Suc_upt) simp
  then show ?thesis by (subst sendEmails_complete [of _ "\<lambda>x. x + 1"]) simp_all
qed

end
