(* ===== verification/Clients.thy ===== *)
theory Clients
  imports Monthly_Reports Request_Context
begin

section \<open>Clients and demo clients\<close>

text \<open>
  \<^verbatim>\<open>src/src/clients/clients/clients.service.ts\<close>: creating a client with its first site, the caller's
  organization, the copy of a demo client and the removal of a demo client's inspections. The state is the
  one of the mail jobs with the tags, the conditions and customizations of the questions, and the state of
  each site's address. Addresses and telephone numbers are not modelled. A deletion takes the answers
  and alerts of an inspection with it, as the foreign keys say. Generated identifiers are functions of the
  position of the row; the rounds of a \<open>Promise.all\<close> run one after the other.
\<close>

record demo_db = mail_db +
  dm_tags :: "tag_row list"
  dm_conditions :: "condition_row list"
  dm_customizations :: "customization_row list"
  dm_states :: "(id \<times> string) list" \<comment> \<open>the state of a site's address\<close>

record new_ids =
  ni_client :: id
  ni_external :: "nat \<Rightarrow> id" \<comment> \<open>the external identifiers of the client and its sites\<close>
  ni_site :: "nat \<Rightarrow> id"
  ni_asset :: "nat \<Rightarrow> id"
  ni_tag :: "nat \<Rightarrow> id"
  ni_tagExternal :: "nat \<Rightarrow> id"
  ni_person :: "nat \<Rightarrow> id"
  ni_access :: "nat \<Rightarrow> nat \<Rightarrow> id" \<comment> \<open>of the member and its access\<close>

subsection \<open>Creating a client\<close>

record create_client_dto =
  cc_externalId :: "id option"
  cc_name :: string
  cc_status :: "client_status option"
  cc_defaultInspectionCycle :: "int option"
  cc_demoMode :: "bool option"

definition CreateClientSchema :: "create_client_dto \<Rightarrow> bool" where
  "CreateClientSchema dto = (case cc_defaultInspectionCycle dto of None \<Rightarrow> True | Some c \<Rightarrow> MINIMUM_INSPECTION_CYCLE \<le> c)"

definition add_client :: "client_full \<Rightarrow> 'z mail_db_scheme \<Rightarrow> 'z mail_db_scheme" where
  \<comment> \<open>the table of clients, in both of its views\<close>
  "add_client c db = db\<lparr>md_clients := md_clients db @ [c],
     md_tenant := (md_tenant db)\<lparr>db_clients := db_clients (md_tenant db) @ [client_row.truncate c]\<rparr>\<rparr>"

definition add_sites :: "site_row list \<Rightarrow> 'z mail_db_scheme \<Rightarrow> 'z mail_db_scheme" where
  "add_sites ss db = db\<lparr>md_tenant := (md_tenant db)\<lparr>db_sites := db_sites (md_tenant db) @ ss\<rparr>\<rparr>"

definition create_client :: "rls_session \<Rightarrow> time \<Rightarrow> new_ids \<Rightarrow> create_client_dto \<Rightarrow> 'z mail_db_scheme \<Rightarrow> (client_full \<times> 'z mail_db_scheme) result" where
  "create_client sess now ids dto db =
     (let client = \<lparr>cl_id = ni_client ids, cl_externalId = nullish_or (cc_externalId dto) (ni_external ids 0), cl_name = cc_name dto,
            cl_status = nullish_or (cc_status dto) PENDING_CLIENT, cf_demoMode = nullish_or (cc_demoMode dto) False,
            cf_defaultInspectionCycle = nullish_or (cc_defaultInspectionCycle dto) 30\<rparr>;
          hq = \<lparr>st_id = ni_site ids 0, st_externalId = ni_external ids 1, st_name = ''HQ'', st_active = True, st_primary = True,
            st_parentSiteId = None, st_clientId = cl_id client, st_createdOn = now\<rparr>
      in if \<not> CreateClientSchema dto then Inl (BadRequestException ''Validation failed'')
         else if \<not> client_visible sess (client_row.truncate client) then Inl rls_violation
         else if cl_externalId client \<in> cl_externalId ` set (md_clients db) then Inl (ServerError ''P2002'')
         else if \<not> site_visible sess hq then Inl rls_violation
         else Inr (client, add_sites [hq] (add_client client db)))"

subsection \<open>The caller's organization\<close>

definition findUserOrganization :: "rls_session \<Rightarrow> tenant_db \<Rightarrow> (site_row \<times> client_row) result" where
  "findUserOrganization sess db =
     (case sess of
        Bypass \<Rightarrow> Inl (NotFoundException ''Cannot find your organization, because no user information was found.'')
      | Tenant ctx \<Rightarrow>
          (case find_by st_id (rls_siteId ctx) (filter (site_visible sess) (db_sites db)) of
             None \<Rightarrow> Inl (NotFoundException ''Cannot find details on your organization.'')
           | Some s \<Rightarrow>
               (case find_by cl_id (st_clientId s) (filter (client_visible sess) (db_clients db)) of
                  None \<Rightarrow> Inl (ServerError ''relation'') \<comment> \<open>the relation is required\<close>
                | Some c \<Rightarrow> Inr (s, c))))"

subsection \<open>Demo clients\<close>

definition find_client :: "rls_session \<Rightarrow> id \<Rightarrow> 'z mail_db_scheme \<Rightarrow> client_full result" where
  "find_client sess i db =
     as404OrThrow (case find_by cl_id i (filter (\<lambda>c. client_visible sess (client_row.truncate c)) (md_clients db)) of
        None \<Rightarrow> Inl (ServerError ''P2025'') | Some c \<Rightarrow> Inr c)"

definition not_demo :: api_error where
  "not_demo = BadRequestException ''Client must be in demo mode to perform this action.''"

definition find_demo_client :: "rls_session \<Rightarrow> id \<Rightarrow> 'z mail_db_scheme \<Rightarrow> client_full result" where
  "find_demo_client sess i db = bindr (find_client sess i db) (\<lambda>c. if cf_demoMode c then Inr c else Inl not_demo)"

definition duplicate_sites ::
    "time \<Rightarrow> new_ids \<Rightarrow> id \<Rightarrow> site_row list \<Rightarrow> site_row list \<Rightarrow> (id, id) jmap \<times> site_row list" where
  \<comment> \<open>the first round: the copies without parents, and the map of their identifiers\<close>
  "duplicate_sites now ids clientId sites table =
     foldl (\<lambda>(m, rows) (n, s).
        let copy = \<lparr>st_id = ni_site ids n, st_externalId = ni_external ids (Suc n), st_name = st_name s, st_active = True,
              st_primary = st_primary s, st_parentSiteId = None, st_clientId = clientId, st_createdOn = now\<rparr>
        in (AList.update (st_id s) (st_id copy) m, rows @ [copy])) ([], table) (enumerate 0 sites)"

definition set_parent :: "id \<Rightarrow> id \<Rightarrow> site_row list \<Rightarrow> site_row list" where
  "set_parent i parent rows = map (\<lambda>s. if st_id s = i then s\<lparr>st_parentSiteId := Some parent\<rparr> else s) rows"

definition duplicate_parents :: "(id, id) jmap \<Rightarrow> site_row list \<Rightarrow> site_row list \<Rightarrow> site_row list" where
  \<comment> \<open>the second round: the parents of the copies\<close>
  "duplicate_parents m sites rows =
     foldl (\<lambda>rows s.
        case (map_of m (st_id s), st_parentSiteId s) of
          (Some copy, Some parent) \<Rightarrow> (case map_of m parent of None \<Rightarrow> rows | Some p \<Rightarrow> set_parent copy p rows)
        | _ \<Rightarrow> rows) rows sites"

definition duplicate_asset ::
    "time \<Rightarrow> new_ids \<Rightarrow> id \<Rightarrow> (id, id) jmap \<Rightarrow> tag_row list \<Rightarrow> nat \<Rightarrow> asset_row \<Rightarrow> (asset_row \<times> tag_row option) option" where
  "duplicate_asset now ids clientId m tags n a =
     (case map_of m (as_siteId a) of
        None \<Rightarrow> None
      | Some siteId \<Rightarrow>
          (let tag = map_option (\<lambda>t. \<lparr>tg_id = ni_tag ids n, tg_externalId = ni_tagExternal ids n, tg_serialNumber = tg_serialNumber t,
                 tg_siteId = Some siteId, tg_clientId = Some clientId\<rparr>) (Option.bind (as_tagId a) (\<lambda>i. find_by tg_id i tags))
           in Some (\<lparr>as_id = ni_asset ids n, as_createdOn = now, as_setupOn = None, as_configured = False, as_active = as_active a,
                as_name = as_name a, as_productId = as_productId a, as_tagId = map_option tg_id tag, as_serialNumber = as_serialNumber a,
                as_inspectionCycle = as_inspectionCycle a, as_metadata = None, as_siteId = siteId, as_clientId = clientId\<rparr>, tag)))"

definition js_or :: "string option \<Rightarrow> string \<Rightarrow> string" where
  \<comment> \<open>\<open>x || d\<close>\<close>
  "js_or x d = (if truthy x then the x else d)"

definition duplicate_member ::
    "time \<Rightarrow> new_ids \<Rightarrow> id \<Rightarrow> string \<Rightarrow> (id, id) jmap \<Rightarrow> nat \<Rightarrow> person_row \<Rightarrow> access_row list \<Rightarrow> person_row \<times> access_row list" where
  "duplicate_member now ids clientId emailDomain m n p accesses =
     (\<lparr>pe_id = ni_person ids n, pe_firstName = pe_firstName p, pe_lastName = pe_lastName p,
       pe_email = hd (split_on CHR ''@'' (pe_email p)) @ ''@'' @ emailDomain, pe_username = None, pe_idpId = None,
       pe_phoneNumber = pe_phoneNumber p, pe_position = pe_position p, pe_active = True\<rparr>,
      map (\<lambda>(k, a). \<lparr>pca_id = ni_access ids n k, pca_createdOn = now, pca_isPrimary = pca_isPrimary a, pca_personId = ni_person ids n,
         pca_clientId = clientId, pca_siteId = js_or (map_of m (pca_siteId a)) (pca_siteId a), pca_roleId = pca_roleId a\<rparr>) (enumerate 0 accesses))"

definition accesses_in :: "tenant_db \<Rightarrow> id \<Rightarrow> person_row \<Rightarrow> access_row list" where
  "accesses_in db clientId p = filter (\<lambda>a. pca_personId a = pe_id p \<and> pca_clientId a = clientId) (db_accesses db)"

definition source_members :: "tenant_db \<Rightarrow> id \<Rightarrow> (person_row \<times> access_row list) list" where
  "source_members db clientId = map (\<lambda>p. (p, accesses_in db clientId p)) (filter (\<lambda>p. accesses_in db clientId p \<noteq> []) (db_persons db))"

definition duplicateDemo ::
    "rls_session \<Rightarrow> time \<Rightarrow> new_ids \<Rightarrow> id \<Rightarrow> string \<Rightarrow> string \<Rightarrow> demo_db \<Rightarrow> (client_full \<times> demo_db) result" where
  "duplicateDemo sess now ids i name emailDomain db =
     bindr (find_demo_client sess i db) (\<lambda>existing.
       let copy = existing\<lparr>cl_id := ni_client ids, cl_externalId := ni_external ids 0, cl_name := name, cf_demoMode := True\<rparr>;
           sites = filter (\<lambda>s. st_clientId s = i \<and> site_visible sess s) (db_sites (md_tenant db));
           assets = filter (\<lambda>a. as_clientId a = i \<and> asset_visible sess a) (ad_assets (md_assets db))
       in if \<not> client_visible sess (client_row.truncate copy) then Inl rls_violation
          else
            \<comment> \<open>only a session that bypasses row-level security comes here\<close>
            let db1 = add_client copy db;
                (m, rows) = duplicate_sites now ids (cl_id copy) sites (db_sites (md_tenant db1));
                db2 = db1\<lparr>md_tenant := (md_tenant db1)\<lparr>db_sites := duplicate_parents m sites rows\<rparr>\<rparr>;
                copies = List.map_filter (\<lambda>(n, a). duplicate_asset now ids (cl_id copy) m (dm_tags db) n a) (enumerate 0 assets);
                db3 = db2\<lparr>md_assets := (md_assets db2)\<lparr>ad_assets := ad_assets (md_assets db2) @ map fst copies\<rparr>,
                    dm_tags := dm_tags db2 @ List.map_filter snd copies\<rparr>;
                people = map (\<lambda>(n, p, as). duplicate_member now ids (cl_id copy) emailDomain m n p as) (enumerate 0 (source_members (md_tenant db3) i));
                db4 = db3\<lparr>md_tenant := (md_tenant db3)\<lparr>db_persons := db_persons (md_tenant db3) @ map fst people,
                    db_accesses := db_accesses (md_tenant db3) @ concat (map snd people)\<rparr>\<rparr>
            in Inr (copy, db4))"

subsection \<open>Removing the inspections of a demo client\<close>

definition inspection_deletable :: "rls_session \<Rightarrow> 'z mail_db_scheme \<Rightarrow> inspection_row \<Rightarrow> bool" where
  "inspection_deletable sess db n =
     (inspection_visible sess n
      \<and> (sess = Bypass \<or> is_status n \<noteq> INSPECTION_COMPLETE
         \<or> list_ex (\<lambda>c. cl_id c = is_clientId n \<and> client_visible sess (client_row.truncate c) \<and> cf_demoMode c) (md_clients db)))"

definition delete_inspections :: "(inspection_row \<Rightarrow> bool) \<Rightarrow> asset_db \<Rightarrow> asset_db" where
  \<comment> \<open>with the rows that reference them\<close>
  "delete_inspections gone a =
     (let goneIds = map is_id (filter gone (ad_inspections a))
      in a\<lparr>ad_inspections := filter (\<lambda>n. \<not> gone n) (ad_inspections a),
           ad_responses := filter (\<lambda>r. case re_inspectionId r of None \<Rightarrow> True | Some i \<Rightarrow> i \<notin> set goneIds) (ad_responses a),
           ad_alerts := filter (\<lambda>l. al_inspectionId l \<notin> set goneIds) (ad_alerts a)\<rparr>)"

definition demo_target :: "cls_store \<Rightarrow> id option \<Rightarrow> id result" where
  "demo_target cls clientId =
     (if truthy clientId then Inr (the clientId) else bindr (requireAccessGrant cls) (\<lambda>g. Inr (ag_clientId g)))"

definition clearInspectionsForDemoClient ::
    "cls_store \<Rightarrow> rls_session \<Rightarrow> id option \<Rightarrow> time \<Rightarrow> time option \<Rightarrow> 'z mail_db_scheme \<Rightarrow> 'z mail_db_scheme result" where
  "clearInspectionsForDemoClient cls sess clientId startDate endDate db =
     bindr (demo_target cls clientId) (\<lambda>i.
     bindr (find_demo_client sess i db) (\<lambda>client.
       let hit = (\<lambda>n. inspection_deletable sess db n \<and> is_clientId n = cl_id client \<and> startDate \<le> is_createdOn n
             \<and> (case endDate of None \<Rightarrow> True | Some e \<Rightarrow> is_createdOn n \<le> e))
       in Inr (db\<lparr>md_assets := delete_inspections hit (md_assets db)\<rparr>)))"

subsection \<open>A cache of children by parent\<close>

record 'u parent_child_map =
  parentToChildIds :: "(id, id list) jmap"
  childById :: "(id, 'u) jmap"

definition pcm_new :: "'u parent_child_map" where
  "pcm_new = \<lparr>parentToChildIds = [], childById = []\<rparr>"

definition getChildren :: "'u parent_child_map \<Rightarrow> id \<Rightarrow> 'u list option" where
  "getChildren m parent = map_option (List.map_filter (map_of (childById m))) (map_of (parentToChildIds m) parent)"

definition addChildren :: "('u \<Rightarrow> id) \<Rightarrow> id \<Rightarrow> 'u list \<Rightarrow> 'u parent_child_map \<Rightarrow> 'u parent_child_map" where
  "addChildren idOf parent children m =
     m\<lparr>parentToChildIds := AList.update parent (map idOf children) (parentToChildIds m),
       childById := foldl (\<lambda>c child. AList.update (idOf child) child c) (childById m) children\<rparr>"

subsection \<open>The cache refines a map\<close>

text \<open>
  What the generator of demo inspections relies on: a store that answers a look-up with the list that was
  added last for that parent. The locale states the contract of one addition, and what a run of additions
  then amounts to.
\<close>

locale children_cache =
  fixes empty :: 's and get :: "'s \<Rightarrow> id \<Rightarrow> 'u list option" and add :: "id \<Rightarrow> 'u list \<Rightarrow> 's \<Rightarrow> 's"
    and inv :: "'s \<Rightarrow> bool" and ok :: "'u list \<Rightarrow> bool"
  assumes inv_empty: "inv empty" and get_empty: "get empty = Map.empty"
    and inv_add: "inv s \<Longrightarrow> ok cs \<Longrightarrow> inv (add p cs s)"
    and get_add: "inv s \<Longrightarrow> ok cs \<Longrightarrow> get (add p cs s) = (get s)(p \<mapsto> cs)"
begin

lemma run_from:
  "inv s \<Longrightarrow> list_all (\<lambda>pc. ok (snd pc)) calls \<Longrightarrow>
     get (foldl (\<lambda>s pc. add (fst pc) (snd pc) s) s calls) = foldl (\<lambda>M pc. M(fst pc \<mapsto> snd pc)) (get s) calls"
  by (induction calls arbitrary: s) (simp_all add: inv_add get_add)

lemma run:
  "list_all (\<lambda>pc. ok (snd pc)) calls \<Longrightarrow>
     get (foldl (\<lambda>s pc. add (fst pc) (snd pc) s) empty calls) = foldl (\<lambda>M pc. M(fst pc \<mapsto> snd pc)) Map.empty calls"
  using run_from [OF inv_empty] by (simp add: get_empty)

end

definition pcm_inv :: "(id \<Rightarrow> 'u) \<Rightarrow> 'u parent_child_map \<Rightarrow> bool" where
  \<comment> \<open>every listed child is stored, and every stored child is the row of its identifier\<close>
  "pcm_inv val m \<longleftrightarrow>
     (\<forall>p ids i. map_of (parentToChildIds m) p = Some ids \<and> i \<in> set ids \<longrightarrow> map_of (childById m) i = Some (val i))
     \<and> (\<forall>i c. map_of (childById m) i = Some c \<longrightarrow> c = val i)"

lemma pcm_inv_listed: "pcm_inv val m \<Longrightarrow> map_of (parentToChildIds m) p = Some ids \<Longrightarrow> i \<in> set ids \<Longrightarrow> map_of (childById m) i = Some (val i)"
  unfolding pcm_inv_def by blast

lemma pcm_inv_stored: "pcm_inv val m \<Longrightarrow> map_of (childById m) i = Some c \<Longrightarrow> c = val i"
  unfolding pcm_inv_def by blast

lemma addChildren_fields:
  "map_of (parentToChildIds (addChildren idOf p cs m)) = (map_of (parentToChildIds m))(p \<mapsto> map idOf cs)"
  "childById (addChildren idOf p cs m) = foldl (\<lambda>m c. AList.update (idOf c) c m) (childById m) cs"
  by (simp_all add: addChildren_def update_conv')

lemma store_children:
  assumes "\<And>c. c \<in> set cs \<Longrightarrow> val (idOf c) = c"
  shows "map_of (foldl (\<lambda>m c. AList.update (idOf c) c m) m cs) i = (if i \<in> idOf ` set cs then Some (val i) else map_of m i)"
  using assms by (induction cs arbitrary: m) (auto simp: update_conv')

lemma map_filter_stored:
  "(\<And>i. i \<in> set ids \<Longrightarrow> f i = Some (val i)) \<Longrightarrow> List.map_filter f ids = map val ids"
  by (induction ids) (simp_all add: List.map_filter_simps)

lemma addChildren_inv:
  assumes "pcm_inv val m" and "\<And>c. c \<in> set cs \<Longrightarrow> val (idOf c) = c"
  shows "pcm_inv val (addChildren idOf p cs m)"
  unfolding pcm_inv_def
proof (intro conjI allI impI)
  fix q ids i
  assume a: "map_of (parentToChildIds (addChildren idOf p cs m)) q = Some ids \<and> i \<in> set ids"
  show "map_of (childById (addChildren idOf p cs m)) i = Some (val i)"
  proof (cases "i \<in> idOf ` set cs")
    case True
    then show ?thesis by (simp add: addChildren_fields store_children [of cs val, OF assms(2)])
  next
    case False
    then have "map_of (parentToChildIds m) q = Some ids" using a by (auto simp: addChildren_fields split: if_splits)
    from pcm_inv_listed [OF assms(1) this] a False show ?thesis by (simp add: addChildren_fields store_children [of cs val, OF assms(2)])
  qed
next
  fix i c
  assume a: "map_of (childById (addChildren idOf p cs m)) i = Some c"
  then show "c = val i"
    using pcm_inv_stored [OF assms(1), of i c] by (cases "i \<in> idOf ` set cs") (simp_all add: addChildren_fields store_children [of cs val, OF assms(2)])
qed

lemma addChildren_get:
  assumes "pcm_inv val m" and "\<And>c. c \<in> set cs \<Longrightarrow> val (idOf c) = c"
  shows "getChildren (addChildren idOf p cs m) = (getChildren m)(p \<mapsto> cs)"
proof
  fix q
  note stored = store_children [of cs val, OF assms(2)]
  show "getChildren (addChildren idOf p cs m) q = ((getChildren m)(p \<mapsto> cs)) q"
  proof (cases "q = p")
    case True
    have "List.map_filter (map_of (childById (addChildren idOf p cs m))) (map idOf cs) = map val (map idOf cs)"
      by (rule map_filter_stored) (simp add: addChildren_def stored)
    also have "\<dots> = cs" unfolding map_map by (rule map_idI) (simp add: assms(2))
    finally show ?thesis using True by (simp add: getChildren_def addChildren_def update_conv')
  next
    case False
    have "List.map_filter (map_of (childById (addChildren idOf p cs m))) ids = List.map_filter (map_of (childById m)) ids"
      if "map_of (parentToChildIds m) q = Some ids" for ids
    proof -
      have old: "map_of (childById m) i = Some (val i)" if "i \<in> set ids" for i
        using pcm_inv_listed [OF assms(1) \<open>map_of (parentToChildIds m) q = Some ids\<close> that] .
      then have "map_of (childById (addChildren idOf p cs m)) i = Some (val i)" if "i \<in> set ids" for i
        using that by (simp add: addChildren_def stored)
      with old show ?thesis by (simp add: map_filter_stored)
    qed
    then show ?thesis using False by (cases "map_of (parentToChildIds m) q") (simp_all add: getChildren_def addChildren_def update_conv')
  qed
qed

interpretation question_cache: children_cache pcm_new getChildren "addChildren idOf" "pcm_inv val" "\<lambda>cs. list_all (\<lambda>c. val (idOf c) = c) cs"
  for idOf val
proof unfold_locales
  show "pcm_inv val pcm_new" by (simp add: pcm_inv_def pcm_new_def)
  show "getChildren pcm_new = Map.empty" by (simp add: getChildren_def pcm_new_def fun_eq_iff)
qed (simp_all add: addChildren_inv addChildren_get list_all_iff)

text \<open>
  C29: the cache of questions by asset refines a plain map. It stores identifiers by parent and rows by
  identifier; as long as an identifier always stands for the same row, looking up a parent after any
  sequence of additions gives exactly the list that was added for it last, and nothing for a parent that
  was never added.
\<close>

theorem question_cache_refines_map:
  assumes "\<And>p cs c. (p, cs) \<in> set calls \<Longrightarrow> c \<in> set cs \<Longrightarrow> val (idOf c) = c"
  shows "getChildren (foldl (\<lambda>m pc. addChildren idOf (fst pc) (snd pc) m) pcm_new calls) = foldl (\<lambda>M pc. M(fst pc \<mapsto> snd pc)) Map.empty calls"
  using assms by (intro question_cache.run [where val = val]) (fastforce simp: list_all_iff)

theorem question_cache_refines_map_witness:
  "getChildren (foldl (\<lambda>m pc. addChildren fst (fst pc) (snd pc) m) pcm_new
     [(''a1'', [(''q1'', 1 :: nat), (''q2'', 2)]), (''a2'', [(''q2'', 2)]), (''a1'', [(''q2'', 2)])]) ''a1'' = Some [(''q2'', 2)]"
  by (subst question_cache_refines_map [where val = "\<lambda>i. (i, if i = ''q1'' then 1 else 2)"]) auto

subsection \<open>Removing inspections\<close>

lemma find_demo_client_Inr:
  assumes "find_demo_client sess i db = Inr c"
  shows "c \<in> set (md_clients db) \<and> cl_id c = i \<and> cf_demoMode c \<and> client_visible sess (client_row.truncate c)"
proof -
  from assms have c: "find_by cl_id i (filter (\<lambda>c. client_visible sess (client_row.truncate c)) (md_clients db)) = Some c" "cf_demoMode c"
    by (auto simp: find_demo_client_def find_client_def bindr_Inr_iff as404OrThrow_def split: if_splits sum.splits option.splits)
  from find_by_SomeD [OF c(1)] c(2) show ?thesis by auto
qed

text \<open>
  Clearing removes demo data only. When it succeeds, there is a client in demo mode that the session
  sees, and an inspection is gone if and only if it is one of that client, created in the given span, and
  the session may delete it; the answers and alerts that are gone are exactly those of such inspections;
  assets, questions and every other table are as before. In a tenant session the client is the session's.
\<close>

theorem clear_only_demo:
  assumes "clearInspectionsForDemoClient cls sess clientId startDate endDate db = Inr db'"
  shows "\<exists>c\<in>set (md_clients db). cf_demoMode c \<and> (\<forall>ctx. sess = Tenant ctx \<longrightarrow> cl_id c = rls_clientId ctx)
     \<and> (\<forall>n\<in>set (ad_inspections (md_assets db)). n \<notin> set (ad_inspections (md_assets db')) \<longleftrightarrow>
          is_clientId n = cl_id c \<and> startDate \<le> is_createdOn n \<and> (\<forall>e. endDate = Some e \<longrightarrow> is_createdOn n \<le> e) \<and> inspection_visible sess n)
     \<and> (\<forall>r\<in>set (ad_responses (md_assets db)). r \<notin> set (ad_responses (md_assets db')) \<longleftrightarrow>
          (\<exists>n\<in>set (ad_inspections (md_assets db)). n \<notin> set (ad_inspections (md_assets db')) \<and> re_inspectionId r = Some (is_id n)))
     \<and> (\<forall>l\<in>set (ad_alerts (md_assets db)). l \<notin> set (ad_alerts (md_assets db')) \<longleftrightarrow>
          (\<exists>n\<in>set (ad_inspections (md_assets db)). n \<notin> set (ad_inspections (md_assets db')) \<and> al_inspectionId l = is_id n))
     \<and> db' = db\<lparr>md_assets := (md_assets db)\<lparr>ad_inspections := ad_inspections (md_assets db'), ad_responses := ad_responses (md_assets db'),
           ad_alerts := ad_alerts (md_assets db')\<rparr>\<rparr>"
proof -
  from assms obtain i c where c: "find_demo_client sess i db = Inr c"
    and db': "db' = db\<lparr>md_assets := delete_inspections (\<lambda>n. inspection_deletable sess db n \<and> is_clientId n = cl_id c \<and> startDate \<le> is_createdOn n
       \<and> (case endDate of None \<Rightarrow> True | Some e \<Rightarrow> is_createdOn n \<le> e)) (md_assets db)\<rparr>" (is "_ = db\<lparr>md_assets := delete_inspections ?hit _\<rparr>")
    by (auto simp: clearInspectionsForDemoClient_def bindr_Inr_iff Let_def)
  note cl = find_demo_client_Inr [OF c]
  have hit: "?hit n \<longleftrightarrow> is_clientId n = cl_id c \<and> startDate \<le> is_createdOn n \<and> (\<forall>e. endDate = Some e \<longrightarrow> is_createdOn n \<le> e) \<and> inspection_visible sess n" for n
    using cl by (auto simp: inspection_deletable_def list_ex_iff split: option.splits)
  have ins: "ad_inspections (md_assets db') = filter (\<lambda>n. \<not> ?hit n) (ad_inspections (md_assets db))"
    by (simp add: db' delete_inspections_def Let_def)
  have gone: "n \<notin> set (ad_inspections (md_assets db')) \<longleftrightarrow> ?hit n" if "n \<in> set (ad_inspections (md_assets db))" for n
    using that unfolding ins by (simp only: set_filter mem_Collect_eq) blast
  have res: "ad_responses (md_assets db') = filter (\<lambda>r. \<not> (\<exists>n\<in>set (ad_inspections (md_assets db)). ?hit n \<and> re_inspectionId r = Some (is_id n))) (ad_responses (md_assets db))"
    unfolding db' delete_inspections_def Let_def by (auto intro!: filter_cong split: option.splits)
  have als: "ad_alerts (md_assets db') = filter (\<lambda>l. \<not> (\<exists>n\<in>set (ad_inspections (md_assets db)). ?hit n \<and> al_inspectionId l = is_id n)) (ad_alerts (md_assets db))"
    unfolding db' delete_inspections_def Let_def by (auto intro!: filter_cong)
  show ?thesis
  proof (intro bexI [of _ c] conjI ballI allI impI)
    show "cf_demoMode c" "c \<in> set (md_clients db)" using cl by simp_all
    show "cl_id c = rls_clientId ctx" if "sess = Tenant ctx" for ctx
      using cl that by (auto simp: client_visible_def validate_client_def client_row.defs)
    show "db' = db\<lparr>md_assets := (md_assets db)\<lparr>ad_inspections := ad_inspections (md_assets db'), ad_responses := ad_responses (md_assets db'),
           ad_alerts := ad_alerts (md_assets db')\<rparr>\<rparr>"
      by (simp add: db' delete_inspections_def Let_def)
  qed (use gone hit in \<open>simp add: ins\<close>, use gone in \<open>auto simp: res\<close>, use gone in \<open>auto simp: als\<close>)
qed

definition ex_demo_db :: demo_db where
  "ex_demo_db = mail_db.extend (ex_mail_db\<lparr>md_clients := [ex_client\<lparr>cf_demoMode := True\<rparr>],
       md_assets := (md_assets ex_mail_db)\<lparr>ad_inspections := [ex_inspection]\<rparr>\<rparr>)
     (demo_db.fields [] [] [] [])"

definition ex_clear_cls :: cls_store where
  "ex_clear_cls = cls_empty\<lparr>cls_accessGrant := Some (ex_grant CLIENT)\<rparr>"

theorem clear_only_demo_witness:
  "\<exists>db'. clearInspectionsForDemoClient ex_clear_cls Bypass None 0 None ex_demo_db = Inr db'
     \<and> ex_inspection \<notin> set (ad_inspections (md_assets db')) \<and> ad_assets (md_assets db') = ad_assets (md_assets ex_demo_db)"
proof -
  obtain db' where db': "clearInspectionsForDemoClient ex_clear_cls Bypass None 0 None ex_demo_db = Inr db'"
  proof -
    have "is_ok (clearInspectionsForDemoClient ex_clear_cls Bypass None 0 None ex_demo_db)" by code_simp
    then show thesis using that by (auto simp: is_ok_def split: sum.splits)
  qed
  have ins: "ex_inspection \<in> set (ad_inspections (md_assets ex_demo_db))" and cl: "md_clients ex_demo_db = [ex_client\<lparr>cf_demoMode := True\<rparr>]"
    by (simp_all add: ex_demo_db_def mail_db.defs)
  from clear_only_demo [OF db'] obtain c where c: "c \<in> set (md_clients ex_demo_db)"
    and gone: "\<forall>n\<in>set (ad_inspections (md_assets ex_demo_db)). n \<notin> set (ad_inspections (md_assets db')) \<longleftrightarrow>
          is_clientId n = cl_id c \<and> 0 \<le> is_createdOn n \<and> (\<forall>e. None = Some e \<longrightarrow> is_createdOn n \<le> e) \<and> inspection_visible Bypass n"
    and frame: "db' = ex_demo_db\<lparr>md_assets := (md_assets ex_demo_db)\<lparr>ad_inspections := ad_inspections (md_assets db'), ad_responses := ad_responses (md_assets db'),
           ad_alerts := ad_alerts (md_assets db')\<rparr>\<rparr>" by blast
  have "ex_inspection \<notin> set (ad_inspections (md_assets db'))"
    using gone ins c by (simp add: cl ex_client_def ex_inspection_def inspection_visible_def)
  moreover have "ad_assets (md_assets db') = ad_assets (md_assets ex_demo_db)" by (subst frame) simp
  ultimately show ?thesis using db' by blast
qed

subsection \<open>The copy of a demo client\<close>

lemma enumerate_snoc: "enumerate n (xs @ [x]) = enumerate n xs @ [(n + length xs, x)]"
  by (simp add: enumerate_append_eq)

definition site_copy :: "time \<Rightarrow> new_ids \<Rightarrow> id \<Rightarrow> nat \<Rightarrow> site_row \<Rightarrow> site_row" where
  "site_copy now ids clientId n s = \<lparr>st_id = ni_site ids n, st_externalId = ni_external ids (Suc n), st_name = st_name s, st_active = True,
     st_primary = st_primary s, st_parentSiteId = None, st_clientId = clientId, st_createdOn = now\<rparr>"

lemma duplicate_sites_eq:
  "duplicate_sites now ids clientId sites table =
     (foldl (\<lambda>m (n, s). AList.update (st_id s) (ni_site ids n) m) [] (enumerate 0 sites),
      table @ map (\<lambda>(n, s). site_copy now ids clientId n s) (enumerate 0 sites))"
  unfolding duplicate_sites_def by (induction sites rule: rev_induct) (simp_all add: enumerate_snoc site_copy_def Let_def)

lemma site_map:
  assumes "distinct (map st_id sites)" and "n < length sites"
  shows "map_of (foldl (\<lambda>m (n, s). AList.update (st_id s) (ni_site ids n) m) [] (enumerate 0 sites)) (st_id (sites ! n)) = Some (ni_site ids n)"
  using assms
proof (induction sites rule: rev_induct)
  case Nil
  then show ?case by simp
next
  case (snoc s sites)
  show ?case
  proof (cases "n = length sites")
    case True
    then show ?thesis by (simp add: enumerate_snoc update_conv')
  next
    case False
    then have n: "n < length sites" using snoc.prems by simp
    then have "st_id (sites ! n) \<noteq> st_id s" using snoc.prems(1) imageI [OF nth_mem [OF n], of st_id] by (metis (no_types, lifting) distinct_append map_append list.set_map disjoint_iff list.simps(15) list.simps(9) insertI1)
    then show ?thesis using snoc n by (simp add: enumerate_snoc update_conv' nth_append)
  qed
qed

lemma site_map_dom:
  "dom (map_of (foldl (\<lambda>m (n, s). AList.update (st_id s) (ni_site ids n) m) [] (enumerate 0 sites))) = st_id ` set sites"
proof (induction sites rule: rev_induct)
  case Nil
  show ?case by simp
next
  case (snoc x xs)
  have "dom (f(k \<mapsto> v)) = insert k (dom f)" for f :: "id \<Rightarrow> id option" and k v by simp
  then show ?case unfolding enumerate_snoc foldl_append by (simp only: foldl.simps prod.case update_conv snoc.IH) simp
qed

text \<open>What the second round writes, per row.\<close>

lemma set_parents:
  assumes "distinct (map fst ps)"
  shows "foldl (\<lambda>rows (i, p). set_parent i p rows) rows ps =
     map (\<lambda>r. case map_of ps (st_id r) of None \<Rightarrow> r | Some p \<Rightarrow> r\<lparr>st_parentSiteId := Some p\<rparr>) rows"
  using assms
proof (induction ps arbitrary: rows)
  case Nil
  show ?case by simp
next
  case (Cons a ps)
  obtain i p where a: "a = (i, p)" by (cases a)
  then have "map_of ps i = None" using Cons.prems by (simp add: map_of_eq_None_iff)
  then show ?case using Cons by (auto simp: a set_parent_def)
qed

definition parent_pairs :: "(id, id) jmap \<Rightarrow> site_row list \<Rightarrow> (id \<times> id) list" where
  "parent_pairs m sites = List.map_filter (\<lambda>s. case (map_of m (st_id s), Option.bind (st_parentSiteId s) (map_of m)) of
     (Some copy, Some p) \<Rightarrow> Some (copy, p) | _ \<Rightarrow> None) sites"

lemma duplicate_parents_eq: "duplicate_parents m sites rows = foldl (\<lambda>rows (i, p). set_parent i p rows) rows (parent_pairs m sites)"
  unfolding duplicate_parents_def parent_pairs_def
  by (induction sites arbitrary: rows) (auto simp: List.map_filter_simps split: option.splits)

abbreviation site_ids :: "new_ids \<Rightarrow> site_row list \<Rightarrow> id \<Rightarrow> id option" where
  "site_ids ids sites \<equiv> map_of (foldl (\<lambda>m (n, s). AList.update (st_id s) (ni_site ids n) m) [] (enumerate 0 sites))"

lemma site_ids_iff:
  assumes "distinct (map st_id sites)" and "inj (ni_site ids)" and "s \<in> set sites" and "n < length sites"
  shows "site_ids ids sites (st_id s) = Some (ni_site ids n) \<longleftrightarrow> s = sites ! n"
proof -
  from assms(3) obtain k where k: "k < length sites" "s = sites ! k" by (auto simp: in_set_conv_nth)
  from site_map [OF assms(1) k(1), of ids] k(2) have "site_ids ids sites (st_id s) = Some (ni_site ids k)" by simp
  then have "site_ids ids sites (st_id s) = Some (ni_site ids n) \<longleftrightarrow> k = n" using assms(2) by (simp add: inj_eq)
  also have "\<dots> \<longleftrightarrow> s = sites ! n" using k assms(1,4) by (auto simp: distinct_map nth_eq_iff_index_eq)
  finally show ?thesis .
qed

lemma site_ids_Some:
  assumes "distinct (map st_id sites)" and "site_ids ids sites i = Some j"
  shows "\<exists>n<length sites. i = st_id (sites ! n) \<and> j = ni_site ids n"
proof -
  from assms(2) have "i \<in> st_id ` set sites" unfolding site_map_dom [of ids sites, symmetric] by auto
  then obtain n where n: "n < length sites" "i = st_id (sites ! n)" by (auto simp: in_set_conv_nth)
  with site_map [OF assms(1) n(1), of ids] assms(2) show ?thesis by auto
qed

lemma mem_parent_pairs:
  "(i, p) \<in> set (parent_pairs m sites) \<longleftrightarrow> (\<exists>s\<in>set sites. map_of m (st_id s) = Some i \<and> Option.bind (st_parentSiteId s) (map_of m) = Some p)"
  unfolding parent_pairs_def mem_map_filter' by (intro bex_cong HOL.refl) (auto split: option.splits)

lemma distinct_parent_pairs:
  assumes "distinct (map st_id sites)" and "inj (ni_site ids)" and "\<And>s. s \<in> set ss \<Longrightarrow> s \<in> set sites" and "distinct ss"
    and m: "map_of m = site_ids ids sites"
  shows "distinct (map fst (parent_pairs m ss))"
  using assms(3,4)
proof (induction ss)
  case Nil
  show ?case by (simp add: parent_pairs_def List.map_filter_simps)
next
  case (Cons s ss)
  then have IH: "distinct (map fst (parent_pairs m ss))" by simp
  show ?case
  proof (cases "\<exists>i p. map_of m (st_id s) = Some i \<and> Option.bind (st_parentSiteId s) (map_of m) = Some p")
    case False
    then have "parent_pairs m (s # ss) = parent_pairs m ss" by (auto simp: parent_pairs_def List.map_filter_simps split: option.splits)
    with IH show ?thesis by simp
  next
    case True
    then obtain i p where i: "map_of m (st_id s) = Some i" "Option.bind (st_parentSiteId s) (map_of m) = Some p" by blast
    then have eq: "parent_pairs m (s # ss) = (i, p) # parent_pairs m ss" by (simp add: parent_pairs_def List.map_filter_simps)
    obtain n where n: "n < length sites" "i = ni_site ids n" using site_ids_Some [OF assms(1)] i(1) m by metis
    have "i \<notin> fst ` set (parent_pairs m ss)"
    proof
      assume "i \<in> fst ` set (parent_pairs m ss)"
      then obtain q where "(i, q) \<in> set (parent_pairs m ss)" by auto
      then obtain t where t: "t \<in> set ss" "map_of m (st_id t) = Some i" by (auto simp: mem_parent_pairs)
      have "s \<in> set sites" "t \<in> set sites" using Cons.prems t by auto
      then have "s = sites ! n" "t = sites ! n" using i(1) t(2) n unfolding m by (auto simp: site_ids_iff [OF assms(1,2)])
      then show False using Cons.prems(2) t(1) by simp
    qed
    with IH show ?thesis by (simp add: eq)
  qed
qed

lemma duplicated_sites:
  assumes "distinct (map st_id sites)" and "inj (ni_site ids)" and "\<forall>r\<in>set table. \<forall>n. st_id r \<noteq> ni_site ids n"
    and dup: "duplicate_sites now ids clientId sites table = (m, rows)"
  shows "map_of m = site_ids ids sites"
    and "duplicate_parents m sites rows = table @ map (\<lambda>(n, s). (site_copy now ids clientId n s)\<lparr>st_parentSiteId := Option.bind (st_parentSiteId s) (site_ids ids sites)\<rparr>) (enumerate 0 sites)"
proof -
  from dup show m: "map_of m = site_ids ids sites" unfolding duplicate_sites_eq by auto
  have rows: "rows = table @ map (\<lambda>(n, s). site_copy now ids clientId n s) (enumerate 0 sites)" using dup unfolding duplicate_sites_eq by auto
  have "distinct sites" using assms(1) by (simp add: distinct_map)
  then have d: "distinct (map fst (parent_pairs m sites))" using distinct_parent_pairs [OF assms(1,2) _ _ m] by blast
  let ?upd = "\<lambda>r :: site_row. case map_of (parent_pairs m sites) (st_id r) of None \<Rightarrow> r | Some p \<Rightarrow> r\<lparr>st_parentSiteId := Some p\<rparr>"
  have old: "?upd r = r" if "r \<in> set table" for r
  proof -
    have "st_id r \<notin> fst ` set (parent_pairs m sites)"
    proof
      assume "st_id r \<in> fst ` set (parent_pairs m sites)"
      then obtain q where "(st_id r, q) \<in> set (parent_pairs m sites)" by auto
      then obtain s :: site_row where "map_of m (st_id s) = Some (st_id r)" unfolding mem_parent_pairs by (elim bexE conjE) (rule that)
      with site_ids_Some [OF assms(1)] assms(3) that m show False by metis
    qed
    then have "map_of (parent_pairs m sites) (st_id r) = None" by (rule map_of_eq_None_iff [THEN iffD2])
    then show ?thesis by simp
  qed
  have new: "?upd (site_copy now ids clientId n s) = (site_copy now ids clientId n s)\<lparr>st_parentSiteId := Option.bind (st_parentSiteId s) (site_ids ids sites)\<rparr>"
    if "(n, s) \<in> set (enumerate 0 sites)" for n s
  proof -
    from that have n: "n < length sites" "s = sites ! n" by (auto simp: in_set_enumerate_eq)
    have "map_of (parent_pairs m sites) (ni_site ids n) = Some p \<longleftrightarrow> Option.bind (st_parentSiteId s) (site_ids ids sites) = Some p" for p
    proof -
      have "map_of (parent_pairs m sites) (ni_site ids n) = Some p \<longleftrightarrow> (ni_site ids n, p) \<in> set (parent_pairs m sites)"
        by (rule map_of_eq_Some_iff [OF d])
      also have "\<dots> \<longleftrightarrow> Option.bind (st_parentSiteId s) (site_ids ids sites) = Some p"
        unfolding mem_parent_pairs m using n site_ids_iff [OF assms(1,2) _ n(1)] nth_mem [OF n(1)] by auto
      finally show ?thesis .
    qed
    then have "map_of (parent_pairs m sites) (ni_site ids n) = Option.bind (st_parentSiteId s) (site_ids ids sites)"
      by (metis not_Some_eq)
    then show ?thesis by (simp add: site_copy_def split: option.split)
  qed
  have "map ?upd table = table" by (rule map_idI) (rule old)
  moreover have "map ?upd (map (\<lambda>(n, s). site_copy now ids clientId n s) (enumerate 0 sites)) =
      map (\<lambda>(n, s). (site_copy now ids clientId n s)\<lparr>st_parentSiteId := Option.bind (st_parentSiteId s) (site_ids ids sites)\<rparr>) (enumerate 0 sites)"
    unfolding map_map by (intro map_cong HOL.refl) (auto simp: new)
  ultimately show "duplicate_parents m sites rows = table @ map (\<lambda>(n, s). (site_copy now ids clientId n s)\<lparr>st_parentSiteId := Option.bind (st_parentSiteId s) (site_ids ids sites)\<rparr>) (enumerate 0 sites)"
    unfolding duplicate_parents_eq set_parents [OF d] rows map_append by (simp only:)
qed

lemma find_demo_client_bypass:
  "find_by cl_id i (md_clients db) = Some c \<Longrightarrow> cf_demoMode c \<Longrightarrow> find_demo_client Bypass i db = Inr c"
  by (simp add: find_demo_client_def find_client_def client_visible_def as404OrThrow_def)

definition copies_site :: "(id \<Rightarrow> id) \<Rightarrow> id \<Rightarrow> id set \<Rightarrow> site_row \<Rightarrow> site_row \<Rightarrow> bool" where
  \<comment> \<open>a copy of the site in the new client, below the copy of its parent\<close>
  "copies_site f clientId own s c \<longleftrightarrow> st_id c = f (st_id s) \<and> st_name c = st_name s \<and> st_primary c = st_primary s \<and> st_clientId c = clientId \<and> st_active c
     \<and> st_parentSiteId c = (case st_parentSiteId s of None \<Rightarrow> None | Some p \<Rightarrow> if p \<in> own then Some (f p) else None)"

definition copies_asset :: "(id \<Rightarrow> id) \<Rightarrow> id \<Rightarrow> tag_row list \<Rightarrow> asset_row \<Rightarrow> asset_row \<times> tag_row option \<Rightarrow> bool" where
  \<comment> \<open>a copy on the copied site, not set up, with a tag of its own that has the serial number of the original one\<close>
  "copies_asset f clientId tags a ct \<longleftrightarrow> (case ct of (c, tag) \<Rightarrow>
     as_siteId c = f (as_siteId a) \<and> as_clientId c = clientId \<and> as_name c = as_name a \<and> as_productId c = as_productId a
     \<and> as_serialNumber c = as_serialNumber a \<and> as_inspectionCycle c = as_inspectionCycle a \<and> as_active c = as_active a
     \<and> as_setupOn c = None \<and> \<not> as_configured c \<and> as_metadata c = None \<and> as_tagId c = map_option tg_id tag
     \<and> rel_option (\<lambda>t t'. tg_serialNumber t' = tg_serialNumber t \<and> tg_siteId t' = Some (as_siteId c) \<and> tg_clientId t' = Some clientId)
         (Option.bind (as_tagId a) (\<lambda>i. find_by tg_id i tags)) tag)"

definition copies_access :: "(id \<Rightarrow> id) \<Rightarrow> id \<Rightarrow> id set \<Rightarrow> id \<Rightarrow> access_row \<Rightarrow> access_row \<Rightarrow> bool" where
  \<comment> \<open>the access of the new person in the new client\<close>
  "copies_access f clientId own person a c \<longleftrightarrow> pca_personId c = person \<and> pca_clientId c = clientId \<and> pca_roleId c = pca_roleId a
     \<and> pca_isPrimary c = pca_isPrimary a \<and> pca_siteId c = (if pca_siteId a \<in> own then f (pca_siteId a) else pca_siteId a)"

definition copies_member :: "(id \<Rightarrow> id) \<Rightarrow> id \<Rightarrow> id set \<Rightarrow> string \<Rightarrow> person_row \<times> access_row list \<Rightarrow> person_row \<times> access_row list \<Rightarrow> bool" where
  \<comment> \<open>a new person with the address in the given domain, who cannot sign in yet, and the copies of the accesses\<close>
  "copies_member f clientId own domain m m' \<longleftrightarrow>
     pe_firstName (fst m') = pe_firstName (fst m) \<and> pe_lastName (fst m') = pe_lastName (fst m) \<and> pe_phoneNumber (fst m') = pe_phoneNumber (fst m)
     \<and> pe_position (fst m') = pe_position (fst m) \<and> pe_email (fst m') = takeWhile (\<lambda>c. c \<noteq> CHR ''@'') (pe_email (fst m)) @ ''@'' @ domain
     \<and> pe_idpId (fst m') = None \<and> pe_active (fst m') \<and> list_all2 (copies_access f clientId own (pe_id (fst m'))) (snd m) (snd m')"

lemma copied_sites:
  assumes "distinct (map st_id sites)" and "\<And>s. s \<in> set sites \<Longrightarrow> site_ids ids sites (st_id s) = Some (f (st_id s))"
  shows "list_all2 (copies_site f clientId (st_id ` set sites)) sites
     (map (\<lambda>(n, s). (site_copy now ids clientId n s)\<lparr>st_parentSiteId := Option.bind (st_parentSiteId s) (site_ids ids sites)\<rparr>) (enumerate 0 sites))"
proof (rule list_all2_all_nthI)
  fix n
  assume n: "n < length sites"
  have id: "ni_site ids n = f (st_id (sites ! n))" using site_map [OF assms(1) n, of ids] assms(2) [OF nth_mem [OF n]] by simp
  have parent: "site_ids ids sites p = (if p \<in> st_id ` set sites then Some (f p) else None)" for p
  proof (cases "p \<in> st_id ` set sites")
    case True
    then show ?thesis using assms(2) by auto
  next
    case False
    then have "p \<notin> dom (site_ids ids sites)" unfolding site_map_dom .
    then show ?thesis using False by auto
  qed
  show "copies_site f clientId (st_id ` set sites) (sites ! n)
     (map (\<lambda>(n, s). (site_copy now ids clientId n s)\<lparr>st_parentSiteId := Option.bind (st_parentSiteId s) (site_ids ids sites)\<rparr>) (enumerate 0 sites) ! n)"
    using n by (cases "st_parentSiteId (sites ! n)") (simp_all add: nth_enumerate_eq copies_site_def site_copy_def id parent)
qed simp

lemma copied_assets:
  assumes "\<And>i. map_of m i = (if i \<in> own then Some (f i) else None)"
  shows "list_all2 (copies_asset f clientId tags) (filter (\<lambda>a. as_siteId a \<in> own) assets)
     (List.map_filter (\<lambda>(n, a). duplicate_asset now ids clientId m tags n a) (enumerate k assets))"
proof (induction assets arbitrary: k)
  case (Cons a as)
  show ?case
  proof (cases "as_siteId a \<in> own")
    case True
    have "copies_asset f clientId tags a (the (duplicate_asset now ids clientId m tags k a))" "duplicate_asset now ids clientId m tags k a \<noteq> None"
      using True by (cases "Option.bind (as_tagId a) (\<lambda>i. find_by tg_id i tags)"; simp add: duplicate_asset_def Let_def assms copies_asset_def)+
    then show ?thesis using Cons True by (auto simp: List.map_filter_simps)
  next
    case False
    then show ?thesis using Cons by (simp add: List.map_filter_simps duplicate_asset_def assms)
  qed
qed (simp add: List.map_filter_simps)

lemma copied_accesses:
  assumes "\<And>i. map_of m i = (if i \<in> own then Some (f i) else None)" and "\<And>i. i \<in> own \<Longrightarrow> f i \<noteq> []"
  shows "list_all2 (copies_access f clientId own (ni_person ids n)) accesses (snd (duplicate_member now ids clientId domain m n p accesses))"
proof -
  have "copies_access f clientId own y a \<lparr>pca_id = x, pca_createdOn = now, pca_isPrimary = pca_isPrimary a, pca_personId = y,
         pca_clientId = clientId, pca_siteId = js_or (map_of m (pca_siteId a)) (pca_siteId a), pca_roleId = pca_roleId a\<rparr>" for a x y
    using assms by (simp add: copies_access_def js_or_def)
  then show ?thesis unfolding duplicate_member_def snd_conv list_all2_map2
    by (auto simp: list_all2_conv_all_nth nth_enumerate_eq)
qed

lemma hd_split_on: "hd (split_on c s) = takeWhile (\<lambda>x. x \<noteq> c) s"
proof (induction s)
  case (Cons x s)
  then show ?case using split_on_nonempty [of c s] by (cases "split_on c s") auto
qed simp

lemma copied_member:
  assumes "\<And>i. map_of m i = (if i \<in> own then Some (f i) else None)" and "\<And>i. i \<in> own \<Longrightarrow> f i \<noteq> []"
  shows "copies_member f clientId own domain (p, as) (duplicate_member now ids clientId domain m n p as)"
    and "pe_id (fst (duplicate_member now ids clientId domain m n p as)) = ni_person ids n"
proof -
  show id: "pe_id (fst (duplicate_member now ids clientId domain m n p as)) = ni_person ids n" by (simp add: duplicate_member_def)
  show "copies_member f clientId own domain (p, as) (duplicate_member now ids clientId domain m n p as)"
    unfolding copies_member_def id snd_conv using copied_accesses [OF assms] by (simp add: duplicate_member_def hd_split_on)
qed

lemma dom_split: "dom g = A \<Longrightarrow> g x = (if x \<in> A then Some (the (g x)) else None)"
  by auto

lemma concat_all2: "list_all2 (list_all2 P) xss yss \<Longrightarrow> list_all2 P (concat xss) (concat yss)"
  by (induction rule: list_all2_induct) (simp_all add: list_all2_appendI)

lemma site_renaming:
  assumes "distinct (map st_id S)" and "inj (ni_site ids)" and "\<And>n. ni_site ids n \<noteq> []" and own_def: "own = st_id ` set S"
  obtains f where "\<And>x. site_ids ids S x = (if x \<in> own then Some (f x) else None)" and "inj_on f own" and "\<And>x. x \<in> own \<Longrightarrow> f x \<noteq> []"
proof -
  define f where "f = (\<lambda>x. the (site_ids ids S x))"
  have f: "site_ids ids S x = (if x \<in> own then Some (f x) else None)" for x
    unfolding f_def own_def by (rule dom_split [OF site_map_dom])
  have new: "\<exists>n. x = st_id (S ! n) \<and> f x = ni_site ids n" if "x \<in> own" for x
    using site_ids_Some [OF assms(1), of ids x "f x"] that f by auto
  show thesis
  proof (rule that [OF f])
    show "inj_on f own"
    proof (rule inj_onI)
      fix x y assume "x \<in> own" "y \<in> own" and eq: "f x = f y"
      then obtain n k where n: "x = st_id (S ! n)" "f x = ni_site ids n" and k: "y = st_id (S ! k)" "f y = ni_site ids k" using new by blast
      have "n = k" using eq n(2) k(2) assms(2) by (simp add: inj_eq)
      then show "x = y" using n(1) k(1) by simp
    qed
    show "f x \<noteq> []" if x: "x \<in> own" for x
    proof -
      from new [OF x] obtain n where "f x = ni_site ids n" by blast
      then show ?thesis using assms(3) by simp
    qed
  qed
qed

lemma copied_people:
  assumes mf: "\<And>x. map_of m x = (if x \<in> own then Some (f x) else None)" and ne: "\<And>x. x \<in> own \<Longrightarrow> f x \<noteq> []"
    and "inj (ni_person ids)" and fresh: "\<forall>p\<in>set persons. \<forall>n. pe_id p \<noteq> ni_person ids n"
    and people: "people = map (\<lambda>(n, p, as). duplicate_member now ids clientId domain m n p as) (enumerate 0 source)"
  shows "list_all2 (copies_member f clientId own domain) source people"
    and "distinct (map (pe_id \<circ> fst) people)" and "(pe_id \<circ> fst) ` set people \<inter> pe_id ` set persons = {}"
proof -
  have one: "copies_member f clientId own domain q (duplicate_member now ids clientId domain m n (fst q) (snd q))" for q n
    by (cases q) (simp add: copied_member(1) [OF mf ne])
  show "list_all2 (copies_member f clientId own domain) source people"
    unfolding people by (rule list_all2_all_nthI) (simp_all add: nth_enumerate_eq case_prod_beta one)
  have pid: "map (pe_id \<circ> fst) people = map (ni_person ids) [0..<length source]"
    unfolding people by (rule nth_equalityI) (auto simp: nth_enumerate_eq case_prod_beta copied_member(2) [OF mf ne])
  show "distinct (map (pe_id \<circ> fst) people)" unfolding pid using inj_on_subset [OF assms(3) subset_UNIV] by (simp add: distinct_map)
  have "(pe_id \<circ> fst) ` set people = ni_person ids ` {0..<length source}"
    using arg_cong [OF pid, of set] by (simp only: set_map set_upt)
  then show "(pe_id \<circ> fst) ` set people \<inter> pe_id ` set persons = {}" using fresh by (force simp del: image_comp comp_apply)
qed

lemma source_members_eq:
  "source_members t i = map (\<lambda>p. (p, filter (\<lambda>a. pca_personId a = pe_id p \<and> pca_clientId a = i) (db_accesses t)))
      (filter (\<lambda>p. list_ex (\<lambda>a. pca_personId a = pe_id p \<and> pca_clientId a = i) (db_accesses t)) (db_persons t))"
  by (simp add: source_members_def accesses_in_def filter_empty_conv list_ex_iff)

lemma duplicateDemo_tenant_fails:
  "rls_clientId ctx \<noteq> ni_client ids \<Longrightarrow> \<exists>e. duplicateDemo (Tenant ctx) now ids i name domain db = Inl e"
  by (cases "find_demo_client (Tenant ctx) i db")
    (auto simp: duplicateDemo_def Let_def client_visible_def validate_client_def client_row.truncate_def)

lemma duplicateDemo_run:
  assumes "find_by cl_id i (md_clients db) = Some c" and "cf_demoMode c"
    and S: "S = filter (\<lambda>s. st_clientId s = i) (db_sites (md_tenant db))"
    and dup: "duplicate_sites now ids (ni_client ids) S (db_sites (md_tenant db)) = (m, rows)"
    and copies: "copies = List.map_filter (\<lambda>(n, a). duplicate_asset now ids (ni_client ids) m (dm_tags db) n a) (enumerate 0 (filter (\<lambda>a. as_clientId a = i) (ad_assets (md_assets db))))"
    and people: "people = map (\<lambda>(n, p, as). duplicate_member now ids (ni_client ids) domain m n p as) (enumerate 0 (source_members (md_tenant db) i))"
    and copy: "copy = c\<lparr>cl_id := ni_client ids, cl_externalId := ni_external ids 0, cl_name := name, cf_demoMode := True\<rparr>"
  shows "duplicateDemo Bypass now ids i name domain db = Inr (copy,
         db\<lparr>md_clients := md_clients db @ [copy],
            md_tenant := (md_tenant db)\<lparr>db_clients := db_clients (md_tenant db) @ [client_row.truncate copy], db_sites := duplicate_parents m S rows,
              db_persons := db_persons (md_tenant db) @ map fst people, db_accesses := db_accesses (md_tenant db) @ concat (map snd people)\<rparr>,
            md_assets := (md_assets db)\<lparr>ad_assets := ad_assets (md_assets db) @ map fst copies\<rparr>,
            dm_tags := dm_tags db @ List.map_filter snd copies\<rparr>)"
proof -
  have mem: "source_members (t\<lparr>db_clients := x, db_sites := y\<rparr>) i = source_members t i" for t :: tenant_db and x y
    by (simp add: source_members_def accesses_in_def)
  have vis: "filter (\<lambda>s. st_clientId s = i \<and> site_visible Bypass s) (db_sites (md_tenant db)) = S"
    "filter (\<lambda>a. as_clientId a = i \<and> asset_visible Bypass a) (ad_assets (md_assets db)) = filter (\<lambda>a. as_clientId a = i) (ad_assets (md_assets db))"
    by (simp_all add: S site_visible_def asset_visible_def)
  have vis': "client_visible Bypass r" for r by (simp add: client_visible_def)
  have id: "cl_id copy = ni_client ids" by (simp add: copy)
  show ?thesis
    unfolding duplicateDemo_def find_demo_client_bypass [OF assms(1,2)] bindr_simps Let_def vis copy [symmetric] id copies people
    by (simp add: vis' add_client_def dup mem)
qed

text \<open>
  C27: the copy of a demo client is faithful. In a session that bypasses row-level security, and with fresh identifiers, the
  operation succeeds for every client in demo mode, and it appends rows to six tables and changes nothing else. There is an
  injective renaming of the client's sites such that the new sites are the old ones, renamed, with the same tree of parents and
  all active; the new assets are the assets on those sites, moved to the renamed sites and not yet set up, each with a new tag
  of the old one's serial number if it has one; and for every person with access to the client there is a new one with
  the same name and a new address, who has the copies of those accesses and no others: in the new client, with the same
  role and the renamed site. An access whose site is not one of the client's keeps that site, so the copy then points into
  another client. A session that does not bypass fails.
\<close>

theorem duplicateDemo_correct:
  assumes "find_by cl_id i (md_clients db) = Some c" and "cf_demoMode c"
    and "distinct (map st_id (db_sites (md_tenant db)))" and "inj (ni_site ids)"
    and "\<forall>r\<in>set (db_sites (md_tenant db)). \<forall>n. st_id r \<noteq> ni_site ids n" and "\<And>n. ni_site ids n \<noteq> []"
    and "inj (ni_person ids)" and "\<forall>p\<in>set (db_persons (md_tenant db)). \<forall>n. pe_id p \<noteq> ni_person ids n"
    and S_def: "S = filter (\<lambda>s. st_clientId s = i) (db_sites (md_tenant db))" and own_def: "own = st_id ` set S"
  shows "(\<exists>copy f sites copies people. duplicateDemo Bypass now ids i name domain db = Inr (copy,
         db\<lparr>md_clients := md_clients db @ [copy],
            md_tenant := (md_tenant db)\<lparr>db_clients := db_clients (md_tenant db) @ [client_row.truncate copy], db_sites := db_sites (md_tenant db) @ sites,
              db_persons := db_persons (md_tenant db) @ map fst people, db_accesses := db_accesses (md_tenant db) @ concat (map snd people)\<rparr>,
            md_assets := (md_assets db)\<lparr>ad_assets := ad_assets (md_assets db) @ map fst copies\<rparr>,
            dm_tags := dm_tags db @ List.map_filter snd copies\<rparr>)
       \<and> cl_id copy = ni_client ids \<and> cl_name copy = name \<and> cl_status copy = cl_status c
       \<and> cf_demoMode copy \<and> cf_defaultInspectionCycle copy = cf_defaultInspectionCycle c
       \<and> inj_on f own \<and> list_all2 (copies_site f (ni_client ids) own) S sites
       \<and> list_all2 (copies_asset f (ni_client ids) (dm_tags db)) (filter (\<lambda>a. as_clientId a = i \<and> as_siteId a \<in> own) (ad_assets (md_assets db))) copies
       \<and> list_all2 (copies_member f (ni_client ids) own domain)
           (map (\<lambda>p. (p, filter (\<lambda>a. pca_personId a = pe_id p \<and> pca_clientId a = i) (db_accesses (md_tenant db))))
             (filter (\<lambda>p. list_ex (\<lambda>a. pca_personId a = pe_id p \<and> pca_clientId a = i) (db_accesses (md_tenant db))) (db_persons (md_tenant db)))) people
       \<and> distinct (map (pe_id \<circ> fst) people) \<and> (pe_id \<circ> fst) ` set people \<inter> pe_id ` set (db_persons (md_tenant db)) = {})
     \<and> (\<forall>ctx. rls_clientId ctx \<noteq> ni_client ids \<longrightarrow> (\<exists>e. duplicateDemo (Tenant ctx) now ids i name domain db = Inl e))"
proof -
  let ?T = "db_sites (md_tenant db)"
  have dS: "distinct (map st_id S)" using assms(3) unfolding S_def by (rule distinct_map_filter)
  obtain m rows where dup: "duplicate_sites now ids (ni_client ids) S ?T = (m, rows)" by fastforce
  note two = duplicated_sites [OF dS assms(4,5) dup]
  obtain f where f: "\<And>x. site_ids ids S x = (if x \<in> own then Some (f x) else None)" and inj: "inj_on f own" and ne: "\<And>x. x \<in> own \<Longrightarrow> f x \<noteq> []"
    using site_renaming [OF dS assms(4,6) own_def] by metis
  have mf: "map_of m x = (if x \<in> own then Some (f x) else None)" for x using f [of x] by (simp only: two(1))
  define copies where "copies = List.map_filter (\<lambda>(n, a). duplicate_asset now ids (ni_client ids) m (dm_tags db) n a) (enumerate 0 (filter (\<lambda>a. as_clientId a = i) (ad_assets (md_assets db))))"
  define people where "people = map (\<lambda>(n, p, as). duplicate_member now ids (ni_client ids) domain m n p as) (enumerate 0 (source_members (md_tenant db) i))"
  define copy where "copy = c\<lparr>cl_id := ni_client ids, cl_externalId := ni_external ids 0, cl_name := name, cf_demoMode := True\<rparr>"
  note run = duplicateDemo_run [OF assms(1,2) S_def dup copies_def people_def copy_def, unfolded two(2)]
  have id: "cl_id copy = ni_client ids" "cl_name copy = name" "cl_status copy = cl_status c" "cf_demoMode copy"
    "cf_defaultInspectionCycle copy = cf_defaultInspectionCycle c" by (simp_all add: copy_def)
  have A: "list_all2 (copies_asset f (ni_client ids) (dm_tags db)) (filter (\<lambda>a. as_clientId a = i \<and> as_siteId a \<in> own) (ad_assets (md_assets db))) copies"
    using copied_assets [OF mf, of "ni_client ids" "dm_tags db" "filter (\<lambda>a. as_clientId a = i) (ad_assets (md_assets db))"] unfolding filter_filter copies_def by simp
  note P = copied_people [OF mf ne assms(7,8) people_def]
  have L: "list_all2 (copies_site f (ni_client ids) own) S
      (map (\<lambda>(n, s). (site_copy now ids (ni_client ids) n s)\<lparr>st_parentSiteId := Option.bind (st_parentSiteId s) (site_ids ids S)\<rparr>) (enumerate 0 S))"
    unfolding own_def by (rule copied_sites [OF dS]) (simp add: f own_def)
  show ?thesis
    by (rule conjI, intro exI conjI)
      (rule run, rule id(1), rule id(2), rule id(3), rule id(4), rule id(5), rule inj, rule L, rule A, rule P(1) [unfolded source_members_eq], assumption,
        rule P(2), assumption, rule P(3), assumption, use duplicateDemo_tenant_fails in blast)
qed

definition ex_new_ids :: new_ids where
  "ex_new_ids = \<lparr>ni_client = ''c9'', ni_external = \<lambda>n. replicate (n + 3) CHR ''e'', ni_site = \<lambda>n. replicate (n + 3) CHR ''s'',
     ni_asset = \<lambda>n. replicate (n + 3) CHR ''a'', ni_tag = \<lambda>n. replicate (n + 3) CHR ''t'', ni_tagExternal = \<lambda>n. replicate (n + 3) CHR ''u'',
     ni_person = \<lambda>n. replicate (n + 3) CHR ''p'', ni_access = \<lambda>n k. replicate (n + 3) CHR ''p'' @ replicate (k + 3) CHR ''x''\<rparr>"

theorem duplicateDemo_correct_witness:
  "\<exists>copy db' f sites people. duplicateDemo Bypass 5 ex_new_ids ''c1'' ''Copy'' ''y.io'' ex_demo_db = Inr (copy, db')
     \<and> db_sites (md_tenant db') = db_sites (md_tenant ex_demo_db) @ sites \<and> length sites = 2 \<and> people \<noteq> []
     \<and> db_persons (md_tenant db') = db_persons (md_tenant ex_demo_db) @ map fst (people :: (person_row \<times> access_row list) list)
     \<and> list_all2 (copies_site f ''c9'' {''s1'', ''s2''}) (db_sites (md_tenant ex_demo_db)) sites"
proof -
  let ?t = "md_tenant ex_demo_db"
  let ?source = "map (\<lambda>p. (p, filter (\<lambda>a. pca_personId a = pe_id p \<and> pca_clientId a = ''c1'') (db_accesses ?t)))
      (filter (\<lambda>p. list_ex (\<lambda>a. pca_personId a = pe_id p \<and> pca_clientId a = ''c1'') (db_accesses ?t)) (db_persons ?t))"
  have c: "find_by cl_id ''c1'' (md_clients ex_demo_db) = Some (ex_client\<lparr>cf_demoMode := True\<rparr>)" "cf_demoMode (ex_client\<lparr>cf_demoMode := True\<rparr>)"
    by code_simp+
  have sites: "db_sites ?t = [ex_site ''s1'' None, ex_site ''s2'' None]" and source: "?source \<noteq> []" by code_simp+
  have d: "distinct (map st_id (db_sites ?t))" by code_simp
  have inj: "inj (ni_site ex_new_ids)" "inj (ni_person ex_new_ids)" by (auto simp: inj_def ex_new_ids_def dest: arg_cong [where f = length])
  have short: "list_all (\<lambda>r. length (st_id r) < 3) (db_sites ?t)" "list_all (\<lambda>p. length (pe_id p) < 3) (db_persons ?t)" by code_simp+
  have long: "3 \<le> length (ni_site ex_new_ids n)" "3 \<le> length (ni_person ex_new_ids n)" for n by (simp_all add: ex_new_ids_def)
  have fresh: "\<forall>r\<in>set (db_sites ?t). \<forall>n. st_id r \<noteq> ni_site ex_new_ids n"
    using short(1) long(1) by (metis list_all_iff leD)
  have fresh': "\<forall>p\<in>set (db_persons ?t). \<forall>n. pe_id p \<noteq> ni_person ex_new_ids n"
    using short(2) long(2) by (metis list_all_iff leD)
  have ne: "ni_site ex_new_ids n \<noteq> []" for n by (simp add: ex_new_ids_def)
  have S: "filter (\<lambda>s. st_clientId s = ''c1'') (db_sites ?t) = db_sites ?t"
    and own: "{''s1'', ''s2''} = st_id ` set (db_sites ?t)" and id: "ni_client ex_new_ids = ''c9''" and two: "length (db_sites ?t) = 2"
    by (simp_all add: sites ex_site_def ex_new_ids_def)
  note main = duplicateDemo_correct [OF c d inj(1) fresh ne inj(2) fresh' S [symmetric] own, where now = 5 and name = "''Copy''" and domain = "''y.io''", THEN conjunct1, unfolded id]
  from main show ?thesis
  proof (elim exE conjE, goal_cases)
    case (1 copy f st copies people)
    have "length st = 2" using list_all2_lengthD [OF 1(8)] two by (rule trans [OF sym])
    moreover have "people \<noteq> []" using source unfolding length_0_conv [symmetric] list_all2_lengthD [OF 1(10)] .
    ultimately show ?case by (intro exI conjI) (rule 1(1), simp, assumption, assumption, simp, rule 1(8))
  qed
qed

subsection \<open>New clients\<close>

text \<open>
  A new client is created only in a session that bypasses row-level security (for an identifier that is
  not the session's own client). It has exactly one site, a primary one without a parent, its external
  identifier was not taken, both views of the client table grow by the same row, and its inspection cycle
  is long enough for every reminder to come a full day or more before an inspection is due.
\<close>

theorem create_client_correct:
  assumes "create_client sess now ids dto db = Inr (client, db')" and "ni_client ids \<notin> st_clientId ` set (db_sites (md_tenant db))"
    and "\<And>ctx. sess = Tenant ctx \<Longrightarrow> rls_clientId ctx \<noteq> ni_client ids"
  shows "sess = Bypass \<and> MINIMUM_INSPECTION_CYCLE \<le> cf_defaultInspectionCycle client
     \<and> (\<exists>hq. filter (\<lambda>s. st_clientId s = cl_id client) (db_sites (md_tenant db')) = [hq] \<and> st_primary hq \<and> st_parentSiteId hq = None \<and> st_active hq)
     \<and> cl_externalId client \<notin> cl_externalId ` set (md_clients db)
     \<and> md_clients db' = md_clients db @ [client] \<and> db_clients (md_tenant db') = db_clients (md_tenant db) @ [client_row.truncate client]"
proof -
  from assms(1) have ok: "CreateClientSchema dto" and vis: "client_visible sess (client_row.truncate client)"
    and ext: "cl_externalId client \<notin> cl_externalId ` set (md_clients db)" and id: "cl_id client = ni_client ids"
    and cycle: "cf_defaultInspectionCycle client = nullish_or (cc_defaultInspectionCycle dto) 30"
    and db': "\<exists>hq. db' = add_sites [hq] (add_client client db) \<and> st_primary hq \<and> st_parentSiteId hq = None \<and> st_active hq \<and> st_clientId hq = cl_id client"
    by (auto simp: create_client_def Let_def split: if_splits)
  have none: "filter (\<lambda>s. st_clientId s = ni_client ids) (db_sites (md_tenant db)) = []"
    using assms(2) unfolding filter_empty_conv by (metis imageI)
  have "sess = Bypass" using vis assms(3) by (cases sess) (auto simp: client_visible_def validate_client_def id client_row.defs)
  moreover have "MINIMUM_INSPECTION_CYCLE \<le> cf_defaultInspectionCycle client"
    using ok unfolding cycle CreateClientSchema_def by (cases "cc_defaultInspectionCycle dto") (simp_all add: minimum_cycle)
  moreover from db' obtain hq where "db' = add_sites [hq] (add_client client db)" "st_primary hq" "st_parentSiteId hq = None" "st_active hq" "st_clientId hq = cl_id client"
    by blast
  moreover from this(1,5) have "filter (\<lambda>s. st_clientId s = cl_id client) (db_sites (md_tenant db')) = [hq]"
    using none by (simp add: add_sites_def add_client_def id)
  ultimately show ?thesis using ext by (auto simp: add_sites_def add_client_def)
qed

definition ex_create_client :: create_client_dto where
  "ex_create_client = \<lparr>cc_externalId = None, cc_name = ''New'', cc_status = None, cc_defaultInspectionCycle = Some 7, cc_demoMode = None\<rparr>"

theorem create_client_correct_witness:
  "\<exists>client db'. create_client Bypass 5 ex_new_ids ex_create_client ex_demo_db = Inr (client, db') \<and> 7 \<le> cf_defaultInspectionCycle client
     \<and> (\<exists>hq. filter (\<lambda>s. st_clientId s = cl_id client) (db_sites (md_tenant db')) = [hq])"
proof -
  obtain client db' where r: "create_client Bypass 5 ex_new_ids ex_create_client ex_demo_db = Inr (client, db')"
  proof -
    have "is_ok (create_client Bypass 5 ex_new_ids ex_create_client ex_demo_db)" by code_simp
    then show thesis using that by (auto simp: is_ok_def split: sum.splits)
  qed
  have f: "ni_client ex_new_ids \<notin> st_clientId ` set (db_sites (md_tenant ex_demo_db))" by code_simp
  from create_client_correct [OF r f] r show ?thesis by (auto simp: minimum_cycle)
qed

end
