(* ===== verification/Demo_Data.thy ===== *)
theory Demo_Data
  imports Clients
begin

section \<open>Generated data of demo clients\<close>

text \<open>
  The generator of \<^verbatim>\<open>src/src/clients/clients/clients.service.ts\<close>: random answers, random inspections, the
  renewal of assets whose inspection is overdue, and a year of inspections for a demo client. The calls of
  \<open>Math.random()\<close> read the sequence \<open>de_random\<close>, and the state counts them; \<open>de_shuffle\<close> is the sort with a
  random comparison. Functions of dates are parameters; one reading of the clock is used per call. The
  coordinates of an inspection are drawn and not kept. \<open>undefined\<close> is \<open>None\<close>: as an answer it makes the
  client library refuse the statement before it reaches the database.
\<close>

record demo_env =
  de_random :: "nat \<Rightarrow> rat"
  de_shuffle :: "nat \<Rightarrow> asset_row list \<Rightarrow> asset_row list"
  de_now :: time
  de_subMonths :: "time \<Rightarrow> nat \<Rightarrow> time"
  de_subDays :: "time \<Rightarrow> int \<Rightarrow> time"
  de_isBefore :: "time \<Rightarrow> time \<Rightarrow> bool"
  de_getMonth :: "time \<Rightarrow> nat"
  de_daysInMonth :: "time \<Rightarrow> nat"
  de_dateAt :: "time \<Rightarrow> nat \<Rightarrow> nat \<Rightarrow> nat \<Rightarrow> nat \<Rightarrow> time" \<comment> \<open>day, hour, minute and second in the month of a date\<close>
  de_toISOString :: "time \<Rightarrow> string"
  de_prompt :: "id \<Rightarrow> string" \<comment> \<open>the prompt column of a question\<close>
  de_alerts :: date_fns

record demo_ids =
  di_inspection :: "nat \<Rightarrow> id"
  di_response :: "nat \<Rightarrow> nat \<Rightarrow> id"
  di_alert :: "nat \<Rightarrow> nat \<Rightarrow> id"
  di_setup :: "id \<Rightarrow> nat \<Rightarrow> id"

subsection \<open>Random answers\<close>

definition random_below :: "demo_env \<Rightarrow> nat \<Rightarrow> nat \<Rightarrow> nat" where
  \<comment> \<open>\<open>Math.floor(Math.random() * k)\<close>\<close>
  "random_below env n k = nat (floor (de_random env n * of_nat k))"

definition pick :: "demo_env \<Rightarrow> nat \<Rightarrow> 'a list \<Rightarrow> 'a option" where
  "pick env n xs = (let k = random_below env n (length xs) in if k < length xs then Some (xs ! k) else None)"

definition inspection_comments :: "string list" where
  "inspection_comments =
    [''Regular inspection completed. All components functioning properly.'',
     ''Inspection complete. Equipment in good working order.'',
     ''Checked all safety features. No issues found.'',
     ''Routine inspection performed. Asset operating within normal parameters.'',
     ''Visual inspection completed. No maintenance required at this time.'']"

definition option_values :: "json list \<Rightarrow> json list" where
  "option_values os = List.map_filter (\<lambda>e. case e of JObj ob \<Rightarrow> map_of ob ''value'' | _ \<Rightarrow> None) os"

definition generateQuestionResponse :: "demo_env \<Rightarrow> question_row \<Rightarrow> string \<Rightarrow> bool \<Rightarrow> nat \<Rightarrow> json option \<times> nat" where
  "generateQuestionResponse env q serial isSetup n =
     (case qu_valueType q of
        BINARY \<Rightarrow> (Some (JStr (if 1 / 10 < de_random env n then ''Yes'' else ''No'')), Suc n)
      | INDETERMINATE_BINARY \<Rightarrow>
          (Some (JStr (if de_random env n < 8 / 10 then ''Yes'' else if de_random env n < 95 / 100 then ''No'' else ''N/A'')), Suc n)
      | TEXT \<Rightarrow>
          if isSetup then (Some (JStr (''Serial: '' @ js_or (Some serial) ''N/A'')), n)
          else (Some (JStr (''Inspected - '' @ (if 1 / 2 < de_random env n then ''OK'' else ''Minor wear noted''))), Suc n)
      | TEXTAREA \<Rightarrow>
          if isSetup then (Some (JStr ''Asset installed and configured according to manufacturer specifications.''), n)
          else (map_option JStr (pick env n inspection_comments), Suc n)
      | NUMBER \<Rightarrow> (Some (JNum (of_nat (random_below env n 100))), Suc n)
      | DATE \<Rightarrow> (Some (JStr (de_toISOString env (de_now env))), n)
      | SELECT \<Rightarrow> (case qu_selectOptions q of Some (JArr os) \<Rightarrow> (pick env n (option_values os), Suc n) | _ \<Rightarrow> (None, n))
      | IMAGE \<Rightarrow> (Some (JStr ''https://placehold.co/600x400''), n))"

primrec generate_answers :: "demo_env \<Rightarrow> string \<Rightarrow> bool \<Rightarrow> question_row list \<Rightarrow> nat \<Rightarrow> (question_row \<times> json option) list \<times> nat" where
  "generate_answers env serial isSetup [] n = ([], n)"
| "generate_answers env serial isSetup (q # qs) n =
     (let (v, n1) = generateQuestionResponse env q serial isSetup n; (rest, n2) = generate_answers env serial isSetup qs n1
      in ((q, v) # rest, n2))"

subsection \<open>Random inspections\<close>

definition getValidDemoInspectors :: "rls_session \<Rightarrow> client_full \<Rightarrow> tenant_db \<Rightarrow> person_row list" where
  "getValidDemoInspectors sess client db =
     (if \<not> cf_demoMode client then []
      else filter (\<lambda>p. person_visible db sess p \<and> list_ex (\<lambda>a. access_visible sess a \<and> pca_personId a = pe_id p \<and> pca_clientId a = cl_id client
             \<and> (case find_by ro_id (pca_roleId a) (db_roles db) of None \<Rightarrow> False | Some r \<Rightarrow> List.member (ro_capabilities r) ''perform-inspections''))
           (db_accesses db)) (db_persons db))"

record demo_inspection =
  dn_row :: inspection_row
  dn_answers :: "(question_row \<times> json option) list"

definition questions_of :: "demo_db \<Rightarrow> question_db" where
  "questions_of db = \<lparr>qd_questions = ad_questions (md_assets db), qd_conditions = dm_conditions db, qd_customizations = dm_customizations db\<rparr>"

definition inspection_time :: "demo_env \<Rightarrow> time \<Rightarrow> nat \<Rightarrow> time" where
  \<comment> \<open>the draws from \<open>n\<close> on give the day, hour, minute and second\<close>
  "inspection_time env currentDate n =
     (let daysInMonth = de_daysInMonth env currentDate; randomDay = min daysInMonth (1 + random_below env n daysInMonth)
      in min (de_now env) (de_dateAt env currentDate randomDay (8 + random_below env (n + 1) 10) (random_below env (n + 2) 60) (random_below env (n + 3) 60)))"

definition generateRandomDemoInspection ::
    "demo_env \<Rightarrow> rls_session \<Rightarrow> access_intent \<Rightarrow> question_db \<Rightarrow> id \<Rightarrow> id \<Rightarrow> string \<Rightarrow> asset_props \<Rightarrow> person_row list \<Rightarrow> id \<Rightarrow> time
     \<Rightarrow> question_row parent_child_map \<Rightarrow> nat \<Rightarrow> demo_inspection option \<times> question_row parent_child_map \<times> nat" where
  "generateRandomDemoInspection env sess intent qdb assetId siteId serial props inspectors clientId currentDate cache n =
     (case pick env n inspectors of
        None \<Rightarrow> (None, cache, Suc n)
      | Some inspector \<Rightarrow>
          (let inspectionTime = inspection_time env currentDate (n + 3);
               cached = getChildren cache assetId;
               questions = (case cached of Some qs \<Rightarrow> qs | None \<Rightarrow> findByAsset sess intent props (Some INSPECTION) qdb);
               cache' = (case cached of Some _ \<Rightarrow> cache | None \<Rightarrow> addChildren qu_id assetId questions cache);
               (answers, n1) = generate_answers env serial False questions (n + 7)
           in (Some \<lparr>dn_row = \<lparr>is_id = [], is_createdOn = inspectionTime, is_modifiedOn = inspectionTime, is_assetId = assetId,
                  is_inspectorId = pe_id inspector, is_status = INSPECTION_COMPLETE,
                  is_comments = (if 7 / 10 < de_random env (n1 + 1) then Some ''Regular inspection completed'' else None),
                  is_siteId = siteId, is_clientId = clientId\<rparr>, dn_answers = answers\<rparr>,
               cache', n1 + 2)))"

definition demo_client_visible :: "rls_session \<Rightarrow> 'z mail_db_scheme \<Rightarrow> id \<Rightarrow> bool" where
  "demo_client_visible sess db i = list_ex (\<lambda>c. cl_id c = i \<and> client_visible sess (client_row.truncate c) \<and> cf_demoMode c) (md_clients db)"

definition insertable :: "rls_session \<Rightarrow> 'z mail_db_scheme \<Rightarrow> id \<Rightarrow> id \<Rightarrow> id \<Rightarrow> bool" where
  \<comment> \<open>the insert policies of inspections and answers: client, site and person of the row\<close>
  "insertable sess db clientId siteId personId =
     (case sess of Bypass \<Rightarrow> True
      | Tenant ctx \<Rightarrow> validate_client ctx clientId \<and> validate_site ctx siteId \<and> (is_owner ctx personId \<or> demo_client_visible sess db clientId))"

definition answer_rows :: "demo_env \<Rightarrow> (nat \<Rightarrow> id) \<Rightarrow> id option \<Rightarrow> id option \<Rightarrow> id \<Rightarrow> id \<Rightarrow> id \<Rightarrow> (question_row \<times> json option) list \<Rightarrow> response_row list" where
  "answer_rows env newId assetId inspectionId responder siteId clientId answers =
     map (\<lambda>(i, q, v). \<lparr>re_id = newId i, re_value = the v, re_originalPrompt = de_prompt env (qu_id q), re_questionId = qu_id q,
        re_assetId = assetId, re_inspectionId = inspectionId, re_responderId = responder, re_siteId = siteId, re_clientId = clientId\<rparr>) (enumerate 0 answers)"

definition createInspection ::
    "demo_env \<Rightarrow> rls_session \<Rightarrow> demo_ids \<Rightarrow> nat \<Rightarrow> demo_inspection \<Rightarrow> 'z mail_db_scheme \<Rightarrow> id result \<times> 'z mail_db_scheme" where
  \<comment> \<open>an exception of the alerts leaves the inspection in the transaction\<close>
  "createInspection env sess ids k d db =
     (let row = (dn_row d)\<lparr>is_id := di_inspection ids k\<rparr>;
          rows = answer_rows env (di_response ids k) None (Some (is_id row)) (is_inspectorId row) (is_siteId row) (is_clientId row) (dn_answers d);
          a = md_assets db;
          a1 = a\<lparr>ad_inspections := ad_inspections a @ [row], ad_responses := ad_responses a @ rows\<rparr>
      in if list_ex (\<lambda>qv. snd qv = None) (dn_answers d) then (Inl (ServerError ''Argument `value` is missing''), db)
         else if \<not> insertable sess db (is_clientId row) (is_siteId row) (is_inspectorId row) then (Inl rls_violation, db)
         else case handleAlertTriggers (de_alerts env) sess (di_alert ids k) True row (zip rows (map fst (dn_answers d))) a1 of
                Inl e \<Rightarrow> (Inl e, db\<lparr>md_assets := a1\<rparr>)
              | Inr (_, a2) \<Rightarrow> (Inr (is_id row), db\<lparr>md_assets := a2\<rparr>))"

subsection \<open>Renewal\<close>

definition no_props :: asset_props where
  \<comment> \<open>an asset given by its identifier, site and serial number only\<close>
  "no_props = \<lparr>ap_product = None, ap_state = None, ap_metadata = None\<rparr>"

definition latest_inspection :: "rls_session \<Rightarrow> asset_db \<Rightarrow> id \<Rightarrow> time option" where
  "latest_inspection sess a i =
     map_option is_createdOn (at0 (rev (sort_key is_createdOn (filter (\<lambda>n. inspection_visible sess n \<and> is_assetId n = i) (ad_inspections a)))))"

definition getAssetsToRenewForDemoClient :: "rls_session \<Rightarrow> time \<Rightarrow> id \<Rightarrow> 'z mail_db_scheme \<Rightarrow> asset_row list" where
  "getAssetsToRenewForDemoClient sess now clientId db =
     filter (\<lambda>a. asset_visible sess a \<and> as_active a \<and> as_clientId a = clientId \<and> as_tagId a = None
        \<and> (case find_by cl_id (as_clientId a) (filter (\<lambda>c. client_visible sess (client_row.truncate c)) (md_clients db)) of
             None \<Rightarrow> False
           | Some c \<Rightarrow> cf_demoMode c
               \<and> (case latest_inspection sess (md_assets db) (as_id a) of
                    None \<Rightarrow> True
                  | Some t \<Rightarrow> t < now - 86400000 * nullish_or (as_inspectionCycle a) (cf_defaultInspectionCycle c))))
       (ad_assets (md_assets db))"

record renewal =
  rn_db :: demo_db
  rn_succeeded :: "id list"
  rn_failed :: "id list"
  rn_draws :: nat
  rn_count :: nat

definition renew_asset ::
    "demo_env \<Rightarrow> rls_session \<Rightarrow> access_intent \<Rightarrow> demo_ids \<Rightarrow> person_row list \<Rightarrow> id \<Rightarrow> renewal \<Rightarrow> asset_row \<Rightarrow> renewal" where
  "renew_asset env sess intent ids inspectors clientId st a =
     (let (d, _, n) = generateRandomDemoInspection env sess intent (questions_of (rn_db st)) (as_id a) (as_siteId a) (as_serialNumber a)
            no_props inspectors clientId (de_now env) pcm_new (rn_draws st)
      in case d of
           None \<Rightarrow> st\<lparr>rn_draws := n\<rparr>
         | Some data \<Rightarrow>
             (let (r, db') = createInspection env sess ids (rn_count st) data (rn_db st);
                  st' = st\<lparr>rn_db := db', rn_draws := n, rn_count := Suc (rn_count st)\<rparr>
              in case r of
                   Inr _ \<Rightarrow> st'\<lparr>rn_succeeded := rn_succeeded st @ [as_id a]\<rparr>
                 | Inl _ \<Rightarrow> st'\<lparr>rn_failed := rn_failed st @ [as_id a]\<rparr>))"

definition renewNoncompliantDemoAssets ::
    "demo_env \<Rightarrow> rls_session \<Rightarrow> access_intent \<Rightarrow> demo_ids \<Rightarrow> id option \<Rightarrow> demo_db \<Rightarrow> ((id list \<times> id list) option \<times> demo_db) result" where
  "renewNoncompliantDemoAssets env sess intent ids clientId db =
     (case (case clientId of Some i \<Rightarrow> Some i | None \<Rightarrow> (case sess of Bypass \<Rightarrow> None | Tenant ctx \<Rightarrow> Some (rls_clientId ctx))) of
        None \<Rightarrow> Inl (BadRequestException ''Client ID is required'')
      | Some i \<Rightarrow>
          if i = [] then Inl (BadRequestException ''Client ID is required'')
          else (case List.find (\<lambda>c. cl_id c = i \<and> cf_demoMode c) (filter (\<lambda>c. client_visible sess (client_row.truncate c)) (md_clients db)) of
             None \<Rightarrow> Inr (None, db)
           | Some client \<Rightarrow>
               (let inspectors = getValidDemoInspectors sess client (md_tenant db);
                    st = foldl (renew_asset env sess intent ids inspectors (cl_id client)) \<lparr>rn_db = db, rn_succeeded = [], rn_failed = [], rn_draws = 0, rn_count = 0\<rparr>
                      (getAssetsToRenewForDemoClient sess (de_now env) (cl_id client) db)
                in Inr (Some (rn_succeeded st, rn_failed st), rn_db st))))"

subsection \<open>A year of inspections\<close>

definition asset_props_of :: "demo_db \<Rightarrow> asset_row \<Rightarrow> asset_props" where
  "asset_props_of db a =
     \<lparr>ap_product = map_option product_row.truncate (find_by pr_id (as_productId a) (md_products db)),
      ap_state = map_of (dm_states db) (as_siteId a), ap_metadata = as_metadata a\<rparr>"

definition generated_entries :: "question_row \<times> json option \<Rightarrow> (string \<times> json option) list" where
  "generated_entries qv =
     (case Option.bind (qu_metadataConfig (fst qv)) CreateSetAssetMetadataConfigSchema of
        None \<Rightarrow> []
      | Some configs \<Rightarrow> map (\<lambda>c. case c of Static k s \<Rightarrow> (k, Some (JStr s)) | Dynamic k \<Rightarrow> (k, snd qv)) configs)"

definition set_generated_metadata :: "asset_row \<Rightarrow> (question_row \<times> json option) list \<Rightarrow> asset_db \<Rightarrow> asset_db" where
  \<comment> \<open>\<open>handleSetMetadataFromConfigs\<close> with answers that may be undefined: such a key is not stored\<close>
  "set_generated_metadata asset answers a =
     (let newMetadata = foldl (\<lambda>m (k, v). AList.update k v m) [] (concat (map generated_entries answers));
          merged = foldl (\<lambda>m (k, v). AList.update k v m) (map (\<lambda>(k, v). (k, Some v)) (existing_metadata (as_metadata asset))) newMetadata
      in if newMetadata = [] then a
         else a\<lparr>ad_assets := map (\<lambda>x. if as_id x = as_id asset
              then x\<lparr>as_metadata := Some (JObj (List.map_filter (\<lambda>(k, v). map_option (Pair k) v) merged))\<rparr> else x) (ad_assets a)\<rparr>)"

definition configure_demo_asset :: "demo_env \<Rightarrow> asset_db \<times> nat \<Rightarrow> asset_row \<times> audit_entry list \<times> bool \<Rightarrow> asset_db \<times> nat" where
  "configure_demo_asset env st r =
     (case r of (asset, checkResults, isConfigurationMet) \<Rightarrow>
        if isConfigurationMet then st
        else (let (answers, n) = generate_answers env (as_serialNumber asset) True (map ae_question checkResults) (snd st)
              in (set_generated_metadata asset answers (fst st), n)))"

definition setup_demo_asset ::
    "demo_env \<Rightarrow> rls_session \<Rightarrow> access_intent \<Rightarrow> demo_ids \<Rightarrow> demo_db \<Rightarrow> client_full \<Rightarrow> person_row list \<Rightarrow> asset_db \<times> nat \<Rightarrow> asset_row \<Rightarrow> (asset_db \<times> nat) result" where
  \<comment> \<open>the questions come from the rows before the transaction; the asset is as it was read\<close>
  "setup_demo_asset env sess intent ids db client inspectors st asset =
     (let questions = findByAsset sess intent (asset_props_of db asset) (Some SETUP) (questions_of db);
          (answers, n) = generate_answers env (as_serialNumber asset) True questions (snd st);
          responder = js_or (map_option pe_id (at0 inspectors)) [];
          rows = answer_rows env (di_setup ids (as_id asset)) (Some (as_id asset)) None responder (as_siteId asset) (cl_id client) answers;
          a = fst st
      in if list_ex (\<lambda>qv. snd qv = None) answers then Inl (ServerError ''Argument `value` is missing'')
         else if rows \<noteq> [] \<and> \<not> insertable sess db (cl_id client) (as_siteId asset) responder then Inl rls_violation
         else Inr (a\<lparr>ad_assets := map (\<lambda>x. if as_id x = as_id asset then x\<lparr>as_setupOn := Some (de_now env)\<rparr> else x) (ad_assets a),
                ad_responses := ad_responses a @ rows\<rparr>, n))"

primrec fold_result :: "('s \<Rightarrow> 'a \<Rightarrow> 's result) \<Rightarrow> 's \<Rightarrow> 'a list \<Rightarrow> 's result" where
  "fold_result f s [] = Inr s"
| "fold_result f s (x # xs) = bindr (f s x) (\<lambda>s'. fold_result f s' xs)"

record generation =
  gn_db :: demo_db
  gn_assets :: "asset_row list" \<comment> \<open>the objects in memory, whose \<open>createdOn\<close> changes\<close>
  gn_cache :: "question_row parent_child_map"
  gn_draws :: nat
  gn_count :: nat
  gn_created :: "id list"

definition backdate :: "demo_env \<Rightarrow> id \<Rightarrow> time \<Rightarrow> generation \<Rightarrow> generation" where
  \<comment> \<open>\<open>onCheckAssetCreatedOn\<close>\<close>
  "backdate env i t st =
     (case find_by as_id i (gn_assets st) of
        None \<Rightarrow> st
      | Some asset \<Rightarrow>
          if de_isBefore env t (as_createdOn asset)
          then (let newCreatedOn = de_subDays env t 1;
                    move = map (\<lambda>x. if as_id x = i then x\<lparr>as_createdOn := newCreatedOn\<rparr> else x);
                    a = md_assets (gn_db st)
                in st\<lparr>gn_db := (gn_db st)\<lparr>md_assets := a\<lparr>ad_assets := move (ad_assets a)\<rparr>\<rparr>, gn_assets := move (gn_assets st)\<rparr>)
          else st)"

definition inspect_demo_asset ::
    "demo_env \<Rightarrow> rls_session \<Rightarrow> access_intent \<Rightarrow> demo_ids \<Rightarrow> demo_db \<Rightarrow> client_full \<Rightarrow> person_row list \<Rightarrow> time \<Rightarrow> generation \<Rightarrow> asset_row \<Rightarrow> generation" where
  "inspect_demo_asset env sess intent ids db0 client inspectors currentDate st asset =
     (let (d, cache, n) = generateRandomDemoInspection env sess intent (questions_of db0) (as_id asset) (as_siteId asset) (as_serialNumber asset)
            (asset_props_of db0 asset) inspectors (cl_id client) currentDate (gn_cache st) (gn_draws st);
          st1 = st\<lparr>gn_cache := cache, gn_draws := n\<rparr>
      in case d of
           None \<Rightarrow> st1
         | Some data \<Rightarrow>
             (let st2 = backdate env (as_id asset) (is_createdOn (dn_row data)) st1;
                  (r, db') = createInspection env sess ids (gn_count st2) data (gn_db st2);
                  st3 = st2\<lparr>gn_db := db', gn_count := Suc (gn_count st2)\<rparr>
              in case r of Inr i \<Rightarrow> st3\<lparr>gn_created := gn_created st3 @ [i]\<rparr> | Inl _ \<Rightarrow> st3))"

definition base_compliance :: "demo_env \<Rightarrow> nat \<Rightarrow> nat \<Rightarrow> time \<Rightarrow> rat" where
  "base_compliance env monthsBack i currentDate =
     (let score = 1 / 2 + 1 / 2 * (of_nat i / of_nat monthsBack); month = de_getMonth env currentDate
      in if month = 11 \<or> month = 0 then score * (6 / 10) else if month = 6 then score * (8 / 10) else score)"

definition generate_month ::
    "demo_env \<Rightarrow> rls_session \<Rightarrow> access_intent \<Rightarrow> demo_ids \<Rightarrow> demo_db \<Rightarrow> client_full \<Rightarrow> person_row list \<Rightarrow> nat \<Rightarrow> generation \<Rightarrow> nat \<Rightarrow> generation" where
  "generate_month env sess intent ids db0 client inspectors monthsBack st i =
     (let currentDate = min (de_subMonths env (de_now env) (monthsBack - i)) (de_now env);
          len = length (gn_assets st);
          (count, n) = (if i = monthsBack then (len, gn_draws st)
             else (nat (floor (of_nat len * base_compliance env monthsBack i currentDate * (8 / 10 + de_random env (gn_draws st) * (4 / 10)))), Suc (gn_draws st)));
          assetsToInspect = take count (de_shuffle env i (gn_assets st))
      in foldl (inspect_demo_asset env sess intent ids db0 client inspectors currentDate) (st\<lparr>gn_draws := n\<rparr>) assetsToInspect)"

definition demo_assets :: "rls_session \<Rightarrow> id \<Rightarrow> demo_db \<Rightarrow> asset_row list" where
  "demo_assets sess clientId db =
     concat (map (\<lambda>s. filter (\<lambda>a. asset_visible sess a \<and> as_siteId a = st_id s) (ad_assets (md_assets db)))
       (filter (\<lambda>s. site_visible sess s \<and> st_clientId s = clientId) (db_sites (md_tenant db))))"

definition reset_demo_inspections :: "demo_env \<Rightarrow> rls_session \<Rightarrow> client_full \<Rightarrow> nat \<Rightarrow> bool \<Rightarrow> demo_db \<Rightarrow> asset_db \<Rightarrow> asset_db" where
  "reset_demo_inspections env sess client monthsBack resetInspections db a =
     (let startDate = de_subMonths env (de_now env) monthsBack;
          hit = (\<lambda>r. inspection_deletable sess db r \<and> is_clientId r = cl_id client \<and> startDate \<le> is_createdOn r)
      in if resetInspections then delete_inspections hit a else a)"

definition generateInspectionsForDemoClient ::
    "demo_env \<Rightarrow> cls_store \<Rightarrow> rls_session \<Rightarrow> access_intent \<Rightarrow> demo_ids \<Rightarrow> id option \<Rightarrow> nat \<Rightarrow> bool \<Rightarrow> demo_db \<Rightarrow> ((nat \<times> nat \<times> nat) \<times> demo_db) result" where
  "generateInspectionsForDemoClient env cls sess intent ids clientId monthsBack resetInspections db =
     bindr (demo_target cls clientId) (\<lambda>i.
     bindr (find_demo_client sess i db) (\<lambda>client.
       let inspectors = getValidDemoInspectors sess client (md_tenant db);
           allAssets = demo_assets sess i db;
           results = map (\<lambda>a. (a, checkAssetConfiguration sess intent (asset_props_of db a) (questions_of db))) allAssets
       in if inspectors = [] then Inl (BadRequestException ''No valid inspectors found for this client.'')
          else if allAssets = [] then Inl (BadRequestException ''No assets found for this client.'')
          else
            bindr (fold_result (setup_demo_asset env sess intent ids db client inspectors)
                (foldl (configure_demo_asset env) (md_assets db, 0) results) (filter (\<lambda>a. as_setupOn a = None) allAssets)) (\<lambda>(a, n).
              let a1 = reset_demo_inspections env sess client monthsBack resetInspections db a;
                  st = foldl (generate_month env sess intent ids db client inspectors monthsBack)
                    \<lparr>gn_db = db\<lparr>md_assets := a1\<rparr>, gn_assets = allAssets, gn_cache = pcm_new, gn_draws = n, gn_count = 0, gn_created = []\<rparr>
                    [1..<Suc monthsBack]
              in Inr ((length (gn_created st), length allAssets, length inspectors), gn_db st))))"

subsection \<open>What the renewal does\<close>

lemma no_props_no_questions: "findByAsset sess intent no_props t qdb = []"
proof -
  have "orWhereClauses no_props = []"
    by (simp add: orWhereClauses_def no_props_def key_pairs_def getValidatedMetadata_def unique_def set_adds_def)
  then have "findQuestionIdsByAsset sess intent no_props t qdb = []" by (simp add: findQuestionIdsByAsset_def)
  then show ?thesis by (simp add: findByAsset_def order_questions_def)
qed

lemma pcm_new_get [simp]: "getChildren pcm_new i = None"
  by (simp add: getChildren_def pcm_new_def)

lemma renewal_inspection:
  assumes "generateRandomDemoInspection env sess intent qdb i s serial no_props inspectors c t pcm_new n = (Some d, rest)"
  shows "dn_answers d = [] \<and> is_createdOn (dn_row d) \<le> de_now env \<and> is_status (dn_row d) = INSPECTION_COMPLETE \<and> is_assetId (dn_row d) = i
     \<and> is_siteId (dn_row d) = s \<and> is_clientId (dn_row d) = c \<and> is_inspectorId (dn_row d) \<in> pe_id ` set inspectors"
proof (cases "pick env n inspectors")
  case None
  then show ?thesis using assms by (simp add: generateRandomDemoInspection_def)
next
  case (Some p)
  then have "p \<in> set inspectors" by (auto simp: pick_def Let_def split: if_splits)
  then show ?thesis using assms Some
    by (auto simp: generateRandomDemoInspection_def Let_def no_props_no_questions inspection_time_def)
qed

lemma empty_inspection:
  assumes "dn_answers d = []" and "insertable sess db (is_clientId (dn_row d)) (is_siteId (dn_row d)) (is_inspectorId (dn_row d))"
  shows "createInspection env sess ids k d db = (Inr (di_inspection ids k),
     db\<lparr>md_assets := (md_assets db)\<lparr>ad_inspections := ad_inspections (md_assets db) @ [(dn_row d)\<lparr>is_id := di_inspection ids k\<rparr>]\<rparr>\<rparr>)"
  using assms by (simp add: createInspection_def Let_def answer_rows_def handleAlertTriggers_def)

definition renewed :: "demo_env \<Rightarrow> person_row list \<Rightarrow> id \<Rightarrow> demo_db \<Rightarrow> renewal \<Rightarrow> bool" where
  "renewed env inspectors clientId db st \<longleftrightarrow> rn_failed st = [] \<and>
     (\<exists>rows. rn_db st = db\<lparr>md_assets := (md_assets db)\<lparr>ad_inspections := ad_inspections (md_assets db) @ rows\<rparr>\<rparr> \<and> map is_assetId rows = rn_succeeded st
        \<and> (\<forall>r\<in>set rows. is_status r = INSPECTION_COMPLETE \<and> is_createdOn r \<le> de_now env \<and> is_clientId r = clientId \<and> is_inspectorId r \<in> pe_id ` set inspectors))"

lemma renew_asset_renewed:
  assumes st: "renewed env inspectors clientId db st"
    and ins: "\<And>p. insertable sess db clientId (as_siteId a) p"
  shows "renewed env inspectors clientId db (renew_asset env sess intent ids inspectors clientId st a)"
proof -
  obtain d cache n where gen: "generateRandomDemoInspection env sess intent (questions_of (rn_db st)) (as_id a) (as_siteId a) (as_serialNumber a)
      no_props inspectors clientId (de_now env) pcm_new (rn_draws st) = (d, cache, n)" by (rule prod_cases3)
  from st obtain rows where db: "rn_db st = db\<lparr>md_assets := (md_assets db)\<lparr>ad_inspections := ad_inspections (md_assets db) @ rows\<rparr>\<rparr>"
    and rows: "map is_assetId rows = rn_succeeded st" "rn_failed st = []"
      "\<forall>r\<in>set rows. is_status r = INSPECTION_COMPLETE \<and> is_createdOn r \<le> de_now env \<and> is_clientId r = clientId \<and> is_inspectorId r \<in> pe_id ` set inspectors"
    unfolding renewed_def by blast
  show ?thesis
  proof (cases d)
    case None
    then show ?thesis using st gen by (simp add: renew_asset_def renewed_def)
  next
    case (Some x)
    note x = renewal_inspection [OF gen [unfolded Some]]
    have "insertable sess (rn_db st) clientId (as_siteId a) p" for p
      using ins [of p] unfolding db by (simp add: insertable_def demo_client_visible_def split: rls_session.splits)
    then have c: "createInspection env sess ids (rn_count st) x (rn_db st) = (Inr (di_inspection ids (rn_count st)),
        (rn_db st)\<lparr>md_assets := (md_assets (rn_db st))\<lparr>ad_inspections := ad_inspections (md_assets (rn_db st)) @ [(dn_row x)\<lparr>is_id := di_inspection ids (rn_count st)\<rparr>]\<rparr>\<rparr>)"
      using x by (intro empty_inspection) simp_all
    show ?thesis unfolding renewed_def renew_asset_def gen Some Let_def prod.case option.case c sum.case
      using rows x by (auto simp: db intro!: exI [of _ "rows @ [(dn_row x)\<lparr>is_id := di_inspection ids (rn_count st)\<rparr>]"])
  qed
qed

lemma renew_fold:
  assumes "renewed env inspectors clientId db st" and "\<And>a p. a \<in> set as \<Longrightarrow> insertable sess db clientId (as_siteId a) p"
  shows "renewed env inspectors clientId db (foldl (renew_asset env sess intent ids inspectors clientId) st as)"
  using assms by (induction as arbitrary: st) (simp_all add: renew_asset_renewed)

text \<open>
  Renewing the overdue assets of a demo client never fails for an asset, but the inspections it makes are
  empty: every one is complete, by a person who may inspect, dated now or earlier, and has no answer and no
  alert, although the generator means to answer the questions of the asset. (The asset is handed over
  without its product, site and metadata, so no question matches.)
\<close>

theorem renewed_inspections_are_empty:
  assumes "renewNoncompliantDemoAssets env sess intent ids clientId db = Inr (Some (succeeded, failed), db')"
  shows "\<exists>client\<in>set (md_clients db). cf_demoMode client \<and> failed = [] \<and>
     (\<exists>rows. db' = db\<lparr>md_assets := (md_assets db)\<lparr>ad_inspections := ad_inspections (md_assets db) @ rows\<rparr>\<rparr> \<and> map is_assetId rows = succeeded
        \<and> (\<forall>r\<in>set rows. is_status r = INSPECTION_COMPLETE \<and> is_createdOn r \<le> de_now env \<and> is_clientId r = cl_id client
             \<and> is_inspectorId r \<in> pe_id ` set (getValidDemoInspectors sess client (md_tenant db))))"
proof -
  from assms obtain i client where f: "List.find (\<lambda>c. cl_id c = i \<and> cf_demoMode c) (filter (\<lambda>c. client_visible sess (client_row.truncate c)) (md_clients db)) = Some client"
    and st: "(succeeded, failed, db') = (let st = foldl (renew_asset env sess intent ids (getValidDemoInspectors sess client (md_tenant db)) (cl_id client))
       \<lparr>rn_db = db, rn_succeeded = [], rn_failed = [], rn_draws = 0, rn_count = 0\<rparr> (getAssetsToRenewForDemoClient sess (de_now env) (cl_id client) db)
       in (rn_succeeded st, rn_failed st, rn_db st))"
    by (auto simp: renewNoncompliantDemoAssets_def Let_def split: option.splits if_splits rls_session.splits)
  from find_SomeD [OF f] have c: "client \<in> set (md_clients db)" "client_visible sess (client_row.truncate client)" "cf_demoMode client" by auto
  have ins: "insertable sess db (cl_id client) (as_siteId a) p" if "a \<in> set (getAssetsToRenewForDemoClient sess (de_now env) (cl_id client) db)" for a p
  proof -
    from that have "asset_visible sess a" "as_clientId a = cl_id client" by (auto simp: getAssetsToRenewForDemoClient_def)
    moreover have "demo_client_visible sess db (cl_id client)" using c by (auto simp: demo_client_visible_def list_ex_iff)
    ultimately show ?thesis by (auto simp: insertable_def asset_visible_def split: rls_session.splits)
  qed
  have "renewed env (getValidDemoInspectors sess client (md_tenant db)) (cl_id client) db
      (foldl (renew_asset env sess intent ids (getValidDemoInspectors sess client (md_tenant db)) (cl_id client))
       \<lparr>rn_db = db, rn_succeeded = [], rn_failed = [], rn_draws = 0, rn_count = 0\<rparr> (getAssetsToRenewForDemoClient sess (de_now env) (cl_id client) db))"
    by (rule renew_fold [OF _ ins]) (simp add: renewed_def)
  then show ?thesis using c st unfolding renewed_def Let_def by auto
qed

definition ex_demo_env :: demo_env where
  "ex_demo_env = \<lparr>de_random = \<lambda>_. 1 / 2, de_shuffle = \<lambda>_ xs. rev xs, de_now = 100 * 86400000, de_subMonths = \<lambda>t n. t - int n * 2592000000,
     de_subDays = \<lambda>t n. t - n * 86400000, de_isBefore = \<lambda>a b. a < b, de_getMonth = \<lambda>t. nat (t div 2592000000) mod 12,
     de_daysInMonth = \<lambda>_. 30, de_dateAt = \<lambda>t d h m s. t div 2592000000 * 2592000000 + int d * 86400000 + int h * 3600000 + int m * 60000 + int s * 1000,
     de_toISOString = show_int, de_prompt = \<lambda>i. i, de_alerts = ex_df\<rparr>"

definition ex_demo_ids :: demo_ids where
  "ex_demo_ids = \<lparr>di_inspection = \<lambda>k. replicate (k + 3) CHR ''i'', di_response = \<lambda>k n. replicate (k + 3) CHR ''r'' @ replicate (n + 1) CHR ''n'',
     di_alert = \<lambda>k n. replicate (k + 3) CHR ''l'' @ replicate (n + 1) CHR ''n'', di_setup = \<lambda>i n. i @ replicate (n + 1) CHR ''s''\<rparr>"

definition ex_renew_db :: demo_db where
  "ex_renew_db = ex_demo_db\<lparr>md_tenant := (md_tenant ex_demo_db)\<lparr>db_roles := [(ex_role ''r1'' SITE)\<lparr>ro_capabilities := [''perform-inspections'']\<rparr>]\<rparr>\<rparr>"

theorem renewed_inspections_are_empty_witness:
  "\<exists>db'. renewNoncompliantDemoAssets ex_demo_env Bypass system ex_demo_ids (Some ''c1'') ex_renew_db = Inr (Some ([''a1''], []), db')
     \<and> (\<exists>rows. ad_inspections (md_assets db') = ad_inspections (md_assets ex_renew_db) @ rows \<and> map is_assetId rows = [''a1''])
     \<and> ad_responses (md_assets db') = ad_responses (md_assets ex_renew_db)"
proof -
  let ?r = "renewNoncompliantDemoAssets ex_demo_env Bypass system ex_demo_ids (Some ''c1'') ex_renew_db"
  obtain db' where r: "?r = Inr (Some ([''a1''], []), db')"
  proof -
    have "map_sum (\<lambda>e. ()) fst ?r = Inr (Some ([''a1''], []))" by code_simp
    then show thesis using that by (cases ?r) auto
  qed
  from renewed_inspections_are_empty [OF r] obtain rows where
    "db' = ex_renew_db\<lparr>md_assets := (md_assets ex_renew_db)\<lparr>ad_inspections := ad_inspections (md_assets ex_renew_db) @ rows\<rparr>\<rparr>" "map is_assetId rows = [''a1'']"
    by (elim bexE exE conjE) (rule that)
  then show ?thesis using r by simp
qed

subsection \<open>What the generator does\<close>

text \<open>The columns of an asset a generated inspection relies on.\<close>

definition place :: "asset_row \<Rightarrow> id \<times> id" where
  "place a = (as_id a, as_siteId a)"

definition after_creation :: "demo_env \<Rightarrow> id \<Rightarrow> asset_row list \<Rightarrow> inspection_row \<Rightarrow> bool" where
  "after_creation env clientId assets n \<longleftrightarrow> is_createdOn n \<le> de_now env \<and> is_clientId n = clientId
     \<and> (\<exists>a\<in>set assets. place a = (is_assetId n, is_siteId n) \<and> as_createdOn a \<le> is_createdOn n)"

definition gen_inv :: "demo_env \<Rightarrow> id \<Rightarrow> inspection_row list \<Rightarrow> (id \<times> id) list \<Rightarrow> id list \<Rightarrow> generation \<Rightarrow> bool" where
  "gen_inv env clientId old places setup st \<longleftrightarrow>
     (let a = md_assets (gn_db st)
      in map place (gn_assets st) = places
         \<and> (\<forall>x\<in>set (gn_assets st). \<exists>y\<in>set (ad_assets a). place y = place x \<and> as_createdOn y = as_createdOn x)
         \<and> (\<forall>n\<in>set (ad_inspections a). n \<in> set old \<or> after_creation env clientId (ad_assets a) n)
         \<and> distinct (map as_id (ad_assets a))
         \<and> (\<forall>i\<in>set setup. \<exists>y\<in>set (ad_assets a). as_id y = i \<and> as_setupOn y \<noteq> None))"

lemma place_move [simp]: "place (x\<lparr>as_createdOn := t\<rparr>) = place x"
  by (simp add: place_def)

lemma createInspection_frame:
  assumes "createInspection env sess ids k d db = (r, db')"
  shows "ad_assets (md_assets db') = ad_assets (md_assets db)"
    and "set (ad_inspections (md_assets db')) \<subseteq> insert ((dn_row d)\<lparr>is_id := di_inspection ids k\<rparr>) (set (ad_inspections (md_assets db)))"
proof -
  have frame: "ad_assets b = ad_assets a \<and> ad_inspections b = ad_inspections a"
    if "handleAlertTriggers df s newId skip n rs a = Inr (q, b)" for df s newId skip n rs a q b
    using that by (auto simp: handleAlertTriggers_def bindr_Inr_iff Let_def split: if_splits)
  show "ad_assets (md_assets db') = ad_assets (md_assets db)"
    using assms by (auto simp: createInspection_def Let_def split: if_splits sum.splits dest!: frame)
  show "set (ad_inspections (md_assets db')) \<subseteq> insert ((dn_row d)\<lparr>is_id := di_inspection ids k\<rparr>) (set (ad_inspections (md_assets db)))"
    using assms by (auto simp: createInspection_def Let_def split: if_splits sum.splits dest!: frame)
qed

lemma generated_row:
  assumes "generateRandomDemoInspection env sess intent qdb i s serial props inspectors c t cache n = (Some d, rest)"
  shows "is_createdOn (dn_row d) \<le> de_now env \<and> is_assetId (dn_row d) = i \<and> is_siteId (dn_row d) = s \<and> is_clientId (dn_row d) = c"
proof (cases "pick env n inspectors")
  case None
  then show ?thesis using assms by (simp add: generateRandomDemoInspection_def)
next
  case (Some p)
  then show ?thesis using assms
    by (auto simp: generateRandomDemoInspection_def Let_def inspection_time_def split: prod.splits)
qed

lemma after_creation_mono:
  assumes "after_creation env c assets n" and "\<And>a. a \<in> set assets \<Longrightarrow> \<exists>b\<in>set assets'. place b = place a \<and> as_createdOn b \<le> as_createdOn a"
  shows "after_creation env c assets' n"
proof -
  from assms(1) obtain a where a: "a \<in> set assets" "place a = (is_assetId n, is_siteId n)" "as_createdOn a \<le> is_createdOn n"
    unfolding after_creation_def by blast
  from assms(2) [OF a(1)] obtain b where "b \<in> set assets'" "place b = place a" "as_createdOn b \<le> as_createdOn a" by blast
  with a assms(1) show ?thesis unfolding after_creation_def by (metis order_trans)
qed

definition move_to :: "id \<Rightarrow> time \<Rightarrow> asset_row \<Rightarrow> asset_row" where
  "move_to i t x = (if as_id x = i then x\<lparr>as_createdOn := t\<rparr> else x)"

lemma move_to_fields [simp]:
  "place (move_to i t x) = place x" "as_id (move_to i t x) = as_id x" "as_setupOn (move_to i t x) = as_setupOn x"
  "as_createdOn (move_to i t x) = (if as_id x = i then t else as_createdOn x)"
  by (simp_all add: move_to_def)

lemma same_place: "distinct (map as_id as) \<Longrightarrow> x \<in> set as \<Longrightarrow> y \<in> set as \<Longrightarrow> as_id x = as_id y \<Longrightarrow> x = y"
  by (auto simp: distinct_map inj_on_def)

lemma backdate_moved:
  assumes inv: "gen_inv env clientId old places setup st" and a: "a \<in> set (gn_assets st)" "as_id a = i" and t: "t \<le> as_createdOn a"
    and st': "st' = st\<lparr>gn_db := (gn_db st)\<lparr>md_assets := (md_assets (gn_db st))\<lparr>ad_assets := map (move_to i t) (ad_assets (md_assets (gn_db st)))\<rparr>\<rparr>,
       gn_assets := map (move_to i t) (gn_assets st)\<rparr>"
  shows "gen_inv env clientId old places setup st'"
proof -
  let ?T = "ad_assets (md_assets (gn_db st))"
  note I = inv [unfolded gen_inv_def Let_def]
  obtain y where y: "y \<in> set ?T" "place y = place a" "as_createdOn y = as_createdOn a" using I a(1) by blast
  have low: "t \<le> as_createdOn x" if "x \<in> set ?T" "as_id x = i" for x
    using same_place [of ?T x y] I that y a(2) t by (simp add: place_def)
  have agree: "\<exists>y\<in>set (map (move_to i t) ?T). place y = place x \<and> as_createdOn y = as_createdOn x" if x: "x \<in> set (map (move_to i t) (gn_assets st))" for x
  proof -
    from x obtain x0 where x0: "x0 \<in> set (gn_assets st)" "x = move_to i t x0" by auto
    with I obtain y0 where y0: "y0 \<in> set ?T" "place y0 = place x0" "as_createdOn y0 = as_createdOn x0" by blast
    then have "as_id y0 = as_id x0" by (simp add: place_def)
    with x0 y0 show ?thesis by (intro bexI [of _ "move_to i t y0"]) simp_all
  qed
  have "after_creation env clientId (map (move_to i t) ?T) n" if "after_creation env clientId ?T n" for n
    using that by (rule after_creation_mono) (force intro: bexI [of _ "move_to i t _"] dest: low)
  then show ?thesis using I agree unfolding st' gen_inv_def Let_def
    by (auto simp: comp_def)
qed

lemma backdate_inv:
  assumes inv: "gen_inv env clientId old places setup st" and laws: "\<And>a b. de_isBefore env a b \<longleftrightarrow> a < b" "\<And>t. de_subDays env t 1 \<le> t"
    and p: "(i, s) \<in> set places"
  shows "gen_inv env clientId old places setup (backdate env i t st)
     \<and> (\<exists>a\<in>set (ad_assets (md_assets (gn_db (backdate env i t st)))). place a = (i, s) \<and> as_createdOn a \<le> t)"
proof -
  let ?T = "ad_assets (md_assets (gn_db st))"
  note I = inv [unfolded gen_inv_def Let_def]
  from I p obtain x where x: "x \<in> set (gn_assets st)" "place x = (i, s)" by (metis imageE set_map)
  then obtain a where f: "find_by as_id i (gn_assets st) = Some a"
    using find_by_None_iff [of as_id i "gn_assets st"] by (cases "find_by as_id i (gn_assets st)") (auto simp: place_def)
  note a = find_by_SomeD [OF f]
  obtain y where y: "y \<in> set ?T" "place y = (i, s)" using I x by force
  obtain y' where y': "y' \<in> set ?T" "place y' = place a" "as_createdOn y' = as_createdOn a" using I a by blast
  have "y' = y" using same_place [of ?T y' y] I y y' a by (simp add: place_def)
  then have cy: "as_createdOn y = as_createdOn a" using y' by simp
  show ?thesis
  proof (cases "t < as_createdOn a")
    case False
    then show ?thesis using inv y cy by (auto simp: backdate_def f laws)
  next
    case True
    let ?c = "de_subDays env t 1"
    have le: "?c \<le> as_createdOn a" using laws(2) [of t] True by simp
    have eq: "backdate env i t st = st\<lparr>gn_db := (gn_db st)\<lparr>md_assets := (md_assets (gn_db st))\<lparr>ad_assets := map (move_to i ?c) ?T\<rparr>\<rparr>,
       gn_assets := map (move_to i ?c) (gn_assets st)\<rparr>"
      using True by (simp add: backdate_def f laws Let_def move_to_def [abs_def])
    have "as_id y = i" using y(2) by (simp add: place_def)
    then have "place (move_to i ?c y) = (i, s) \<and> as_createdOn (move_to i ?c y) \<le> t" using y laws(2) [of t] by simp
    then show ?thesis using backdate_moved [OF inv _ _ le eq] a y(1) by (auto simp: eq)
  qed
qed

lemma gen_inv_same:
  "gen_inv env clientId old places setup st \<Longrightarrow> gn_db st' = gn_db st \<Longrightarrow> gn_assets st' = gn_assets st \<Longrightarrow> gen_inv env clientId old places setup st'"
  by (simp add: gen_inv_def)

lemma gen_inv_created:
  assumes inv: "gen_inv env clientId old places setup st" and c: "createInspection env sess ids k d (gn_db st) = (r, db')"
    and row: "after_creation env clientId (ad_assets (md_assets (gn_db st))) ((dn_row d)\<lparr>is_id := di_inspection ids k\<rparr>)"
    and st': "gn_db st' = db'" "gn_assets st' = gn_assets st"
  shows "gen_inv env clientId old places setup st'"
proof -
  note I = inv [unfolded gen_inv_def Let_def]
  have "n \<in> set old \<or> after_creation env clientId (ad_assets (md_assets (gn_db st))) n" if "n \<in> set (ad_inspections (md_assets db'))" for n
    using createInspection_frame(2) [OF c] that I row by blast
  then show ?thesis using I unfolding gen_inv_def Let_def st' createInspection_frame(1) [OF c] by blast
qed

text \<open>What is assumed of the functions of dates, and of the sort with a random comparison.\<close>

definition date_laws :: "demo_env \<Rightarrow> bool" where
  "date_laws env \<longleftrightarrow> (\<forall>a b. de_isBefore env a b \<longleftrightarrow> a < b) \<and> (\<forall>t. de_subDays env t 1 \<le> t) \<and> (\<forall>i xs. set (de_shuffle env i xs) \<subseteq> set xs)"

lemma inspect_inv:
  assumes laws: "date_laws env" and inv: "gen_inv env (cl_id client) old places setup st" and p: "place asset \<in> set places"
  shows "gen_inv env (cl_id client) old places setup (inspect_demo_asset env sess intent ids db0 client inspectors t st asset)"
proof -
  obtain d cache n where gen: "generateRandomDemoInspection env sess intent (questions_of db0) (as_id asset) (as_siteId asset) (as_serialNumber asset)
      (asset_props_of db0 asset) inspectors (cl_id client) t (gn_cache st) (gn_draws st) = (d, cache, n)" by (rule prod_cases3)
  define st1 where "st1 = st\<lparr>gn_cache := cache, gn_draws := n\<rparr>"
  have inv1: "gen_inv env (cl_id client) old places setup st1" by (rule gen_inv_same [OF inv]) (simp_all add: st1_def)
  show ?thesis
  proof (cases d)
    case None
    then show ?thesis using inv1 by (simp add: inspect_demo_asset_def gen st1_def)
  next
    case (Some x)
    note x = generated_row [OF gen [unfolded Some]]
    define st2 where "st2 = backdate env (as_id asset) (is_createdOn (dn_row x)) st1"
    have p': "(as_id asset, as_siteId asset) \<in> set places" using p by (simp add: place_def)
    have before: "\<And>a b. de_isBefore env a b \<longleftrightarrow> a < b" and day_before: "\<And>t. de_subDays env t 1 \<le> t" using laws by (simp_all add: date_laws_def)
    from backdate_inv [OF inv1 before day_before p', of "is_createdOn (dn_row x)"]
    have inv2: "gen_inv env (cl_id client) old places setup st2"
      and row: "\<exists>a\<in>set (ad_assets (md_assets (gn_db st2))). place a = (as_id asset, as_siteId asset) \<and> as_createdOn a \<le> is_createdOn (dn_row x)"
      unfolding st2_def by blast+
    obtain r db' where c: "createInspection env sess ids (gn_count st2) x (gn_db st2) = (r, db')" by (rule prod.exhaust)
    have ok: "after_creation env (cl_id client) (ad_assets (md_assets (gn_db st2))) ((dn_row x)\<lparr>is_id := di_inspection ids (gn_count st2)\<rparr>)"
      using x row by (simp add: after_creation_def)
    have eq: "inspect_demo_asset env sess intent ids db0 client inspectors t st asset =
        (case r of Inr i \<Rightarrow> st2\<lparr>gn_db := db', gn_count := Suc (gn_count st2), gn_created := gn_created st2 @ [i]\<rparr>
         | Inl _ \<Rightarrow> st2\<lparr>gn_db := db', gn_count := Suc (gn_count st2)\<rparr>)"
      unfolding inspect_demo_asset_def gen Some Let_def prod.case option.case st1_def [symmetric] st2_def [symmetric] c
      by (simp split: sum.split)
    show ?thesis unfolding eq by (rule gen_inv_created [OF inv2 c ok]) (simp_all split: sum.split)
  qed
qed

lemma inspect_all_inv:
  assumes laws: "date_laws env" and "gen_inv env (cl_id client) old places setup st" and "\<And>a. a \<in> set as \<Longrightarrow> place a \<in> set places"
  shows "gen_inv env (cl_id client) old places setup (foldl (inspect_demo_asset env sess intent ids db0 client inspectors t) st as)"
  using assms(2-) by (induction as arbitrary: st) (simp_all add: inspect_inv [OF laws])

lemma month_inv:
  assumes laws: "date_laws env" and inv: "gen_inv env (cl_id client) old places setup st"
  shows "gen_inv env (cl_id client) old places setup (generate_month env sess intent ids db0 client inspectors monthsBack st i)"
proof -
  have places: "map place (gn_assets st) = places" using inv by (simp add: gen_inv_def Let_def)
  have mem: "place a \<in> set places" if a: "a \<in> set (take k (de_shuffle env i (gn_assets st)))" for a k
  proof -
    have "set (de_shuffle env i (gn_assets st)) \<subseteq> set (gn_assets st)" using laws unfolding date_laws_def by blast
    then have "a \<in> set (gn_assets st)" using in_set_takeD [OF a] by blast
    then show ?thesis using places by force
  qed
  have start: "gen_inv env (cl_id client) old places setup (st\<lparr>gn_draws := n\<rparr>)" for n by (rule gen_inv_same [OF inv]) simp_all
  show ?thesis unfolding generate_month_def Let_def case_prod_beta by (rule inspect_all_inv [OF laws start mem])
qed

lemma months_inv:
  assumes laws: "date_laws env"
  shows "gen_inv env (cl_id client) old places setup st \<Longrightarrow>
     gen_inv env (cl_id client) old places setup (foldl (generate_month env sess intent ids db0 client inspectors monthsBack) st is)"
  by (induction "is" arbitrary: st) (simp_all add: month_inv [OF laws])

subsubsection \<open>Configuration and set-up\<close>

definition kept :: "asset_row \<Rightarrow> asset_row \<Rightarrow> bool" where
  \<comment> \<open>the place, the creation date and a set-up date\<close>
  "kept x y \<longleftrightarrow> place y = place x \<and> as_createdOn y = as_createdOn x \<and> (as_setupOn x \<noteq> None \<longrightarrow> as_setupOn y \<noteq> None)"

definition same_rows :: "asset_db \<Rightarrow> asset_db \<Rightarrow> bool" where
  "same_rows a b \<longleftrightarrow> ad_inspections b = ad_inspections a \<and> list_all2 kept (ad_assets a) (ad_assets b)"

lemma kept_trans: "kept x y \<Longrightarrow> kept y z \<Longrightarrow> kept x z"
  by (auto simp: kept_def)

lemma same_rows_refl [simp]: "same_rows a a"
  by (simp add: same_rows_def list_all2_same kept_def)

lemma same_rows_trans: "same_rows a b \<Longrightarrow> same_rows b c \<Longrightarrow> same_rows a c"
  unfolding same_rows_def by (elim conjE, intro conjI, simp) (rule list_all2_trans [of kept kept kept, OF kept_trans])

lemma same_rows_map:
  assumes "\<And>x. kept x (f x)"
  shows "same_rows a (a\<lparr>ad_assets := map f (ad_assets a)\<rparr>)" "same_rows a (a\<lparr>ad_assets := map f (ad_assets a), ad_responses := rs\<rparr>)"
  using assms by (simp_all add: same_rows_def list_all2_map2 list_all2_same)

lemma same_rows_mem:
  assumes "same_rows a b" and "x \<in> set (ad_assets a)"
  shows "\<exists>y\<in>set (ad_assets b). kept x y"
proof -
  from assms(2) obtain k where "k < length (ad_assets a)" "x = ad_assets a ! k" by (auto simp: in_set_conv_nth)
  with assms(1) show ?thesis by (intro bexI [of _ "ad_assets b ! k"]) (auto simp: same_rows_def list_all2_conv_all_nth)
qed

lemma same_rows_ids: "same_rows a b \<Longrightarrow> map as_id (ad_assets b) = map as_id (ad_assets a)"
  unfolding same_rows_def by (auto simp: list_all2_conv_all_nth kept_def place_def intro!: nth_equalityI)

lemma configure_same: "same_rows a (fst (foldl (configure_demo_asset env) (a, n) rs))"
proof -
  have step: "same_rows (fst st) (fst (configure_demo_asset env st r))" for st r
    unfolding configure_demo_asset_def set_generated_metadata_def Let_def case_prod_beta
    by (auto intro!: same_rows_map(1) simp: kept_def place_def)
  have "same_rows (fst st) (fst (foldl (configure_demo_asset env) st rs))" for st
    by (induction rs arbitrary: st) (simp, simp only: foldl.simps, blast intro: same_rows_trans step)
  from this [of "(a, n)"] show ?thesis by simp
qed

lemma setup_same:
  assumes "setup_demo_asset env sess intent ids db client inspectors st asset = Inr st'"
  shows "same_rows (fst st) (fst st') \<and> (as_id asset \<in> as_id ` set (ad_assets (fst st)) \<longrightarrow> (\<exists>y\<in>set (ad_assets (fst st')). as_id y = as_id asset \<and> as_setupOn y \<noteq> None))"
proof -
  from assms obtain rs n where st': "st' = ((fst st)\<lparr>ad_assets := map (\<lambda>x. if as_id x = as_id asset then x\<lparr>as_setupOn := Some (de_now env)\<rparr> else x) (ad_assets (fst st)),
      ad_responses := rs\<rparr>, n)"
    by (auto simp: setup_demo_asset_def Let_def case_prod_beta split: if_splits)
  have "same_rows (fst st) (fst st')" unfolding st' fst_conv by (rule same_rows_map(2)) (simp add: kept_def place_def)
  moreover have "\<exists>y\<in>set (ad_assets (fst st')). as_id y = as_id asset \<and> as_setupOn y \<noteq> None" if "as_id asset \<in> as_id ` set (ad_assets (fst st))"
  proof -
    from that obtain x where "x \<in> set (ad_assets (fst st))" "as_id x = as_id asset" by auto
    then show ?thesis by (intro bexI [of _ "x\<lparr>as_setupOn := Some (de_now env)\<rparr>"]) (auto simp: st' image_iff intro!: bexI [of _ x])
  qed
  ultimately show ?thesis by blast
qed

lemma setup_all:
  assumes "fold_result (setup_demo_asset env sess intent ids db client inspectors) st xs = Inr st'"
    and "\<And>x. x \<in> set xs \<Longrightarrow> as_id x \<in> as_id ` set (ad_assets (fst st))"
  shows "same_rows (fst st) (fst st') \<and> (\<forall>x\<in>set xs. \<exists>y\<in>set (ad_assets (fst st')). as_id y = as_id x \<and> as_setupOn y \<noteq> None)"
  using assms
proof (induction xs arbitrary: st)
  case Nil
  then show ?case by simp
next
  case (Cons x xs)
  then obtain st1 where st1: "setup_demo_asset env sess intent ids db client inspectors st x = Inr st1"
    and rest: "fold_result (setup_demo_asset env sess intent ids db client inspectors) st1 xs = Inr st'" by (auto simp: bindr_Inr_iff)
  note one = setup_same [OF st1]
  have ids: "as_id ` set (ad_assets (fst st1)) = as_id ` set (ad_assets (fst st))" using same_rows_ids one by (metis set_map)
  have IH: "same_rows (fst st1) (fst st') \<and> (\<forall>x\<in>set xs. \<exists>y\<in>set (ad_assets (fst st')). as_id y = as_id x \<and> as_setupOn y \<noteq> None)"
    by (rule Cons.IH [OF rest]) (simp add: ids Cons.prems)
  have "\<exists>y\<in>set (ad_assets (fst st')). as_id y = as_id x \<and> as_setupOn y \<noteq> None"
  proof -
    from one Cons.prems(2) [of x] obtain y where "y \<in> set (ad_assets (fst st1))" "as_id y = as_id x" "as_setupOn y \<noteq> None" by auto
    with same_rows_mem [of "fst st1" "fst st'" y] IH show ?thesis by (auto simp: kept_def place_def)
  qed
  then show ?case using IH one same_rows_trans by auto
qed

lemma generation_start_inv:
  assumes rows: "same_rows (md_assets db) a" and d: "distinct (map as_id (ad_assets (md_assets db)))" and mem: "set xs \<subseteq> set (ad_assets (md_assets db))"
    and ready: "\<forall>x\<in>set xs. as_setupOn x = None \<longrightarrow> (\<exists>y\<in>set (ad_assets a). as_id y = as_id x \<and> as_setupOn y \<noteq> None)"
    and db: "md_assets (gn_db st) = reset_demo_inspections env sess client monthsBack reset db a" and xs: "gn_assets st = xs"
  shows "gen_inv env clientId (ad_inspections (md_assets db)) (map place xs) (map as_id xs) st"
proof -
  have assets: "ad_assets (md_assets (gn_db st)) = ad_assets a" by (simp add: db reset_demo_inspections_def delete_inspections_def Let_def)
  have old: "set (ad_inspections (md_assets (gn_db st))) \<subseteq> set (ad_inspections (md_assets db))"
    using rows by (auto simp: db same_rows_def reset_demo_inspections_def delete_inspections_def Let_def)
  have agree: "\<exists>y\<in>set (ad_assets a). kept x y" if "x \<in> set xs" for x
    using same_rows_mem [OF rows, of x] that mem by blast
  have "\<exists>y\<in>set (ad_assets a). as_id y = as_id x \<and> as_setupOn y \<noteq> None" if x: "x \<in> set xs" for x
  proof (cases "as_setupOn x")
    case None
    then show ?thesis using ready x by blast
  next
    case (Some t)
    then show ?thesis using agree [OF x] by (auto simp: kept_def place_def)
  qed
  moreover have "\<exists>y\<in>set (ad_assets a). place y = place x \<and> as_createdOn y = as_createdOn x" if "x \<in> set xs" for x
    using agree [OF that] unfolding kept_def by blast
  ultimately show ?thesis using old d unfolding gen_inv_def Let_def assets xs same_rows_ids [OF rows] by auto
qed

text \<open>
  A year of inspections for a demo client: the operation runs only on a client in demo mode; every
  inspection it adds belongs to that client, is dated now or earlier, names the site of an asset of the
  table, and is not older than that asset (whose creation date is moved back where needed); afterwards
  every asset of the client is set up. Assumed are the order of dates, that a day earlier is not later,
  that the random sort adds nothing, and that identifiers of assets are distinct.
\<close>

theorem demo_inspections_plausible:
  assumes "generateInspectionsForDemoClient env cls sess intent ids clientId monthsBack resetInspections db = Inr ((created, assets, inspectors), db')"
    and laws: "date_laws env" and d: "distinct (map as_id (ad_assets (md_assets db)))"
  shows "\<exists>client\<in>set (md_clients db). cf_demoMode client \<and> assets = length (demo_assets sess (cl_id client) db)
     \<and> (\<forall>n\<in>set (ad_inspections (md_assets db')). n \<in> set (ad_inspections (md_assets db)) \<or>
          is_clientId n = cl_id client \<and> is_createdOn n \<le> de_now env
          \<and> (\<exists>a\<in>set (ad_assets (md_assets db')). as_id a = is_assetId n \<and> as_siteId a = is_siteId n \<and> as_createdOn a \<le> is_createdOn n))
     \<and> (\<forall>x\<in>set (demo_assets sess (cl_id client) db). \<exists>y\<in>set (ad_assets (md_assets db')). as_id y = as_id x \<and> as_setupOn y \<noteq> None)"
proof -
  from assms(1) obtain i client st where i: "find_demo_client sess i db = Inr client"
    and run: "fold_result (setup_demo_asset env sess intent ids db client (getValidDemoInspectors sess client (md_tenant db)))
        (foldl (configure_demo_asset env) (md_assets db, 0) (map (\<lambda>a. (a, checkAssetConfiguration sess intent (asset_props_of db a) (questions_of db))) (demo_assets sess i db)))
        (filter (\<lambda>a. as_setupOn a = None) (demo_assets sess i db)) = Inr st" (is "fold_result ?setup ?st0 ?todo = _")
    and n: "assets = length (demo_assets sess i db)"
    and db': "db' = gn_db (foldl (generate_month env sess intent ids db client (getValidDemoInspectors sess client (md_tenant db)) monthsBack)
        \<lparr>gn_db = db\<lparr>md_assets := reset_demo_inspections env sess client monthsBack resetInspections db (fst st)\<rparr>,
         gn_assets = demo_assets sess i db, gn_cache = pcm_new, gn_draws = snd st, gn_count = 0, gn_created = []\<rparr> [1..<Suc monthsBack])" (is "_ = gn_db (foldl ?month ?g0 _)")
    unfolding generateInspectionsForDemoClient_def
    by (auto simp: bindr_Inr_iff Let_def simp del: upt_Suc split: if_splits)
  note cl = find_demo_client_Inr [OF i]
  let ?xs = "demo_assets sess i db"
  have mem: "set ?xs \<subseteq> set (ad_assets (md_assets db))" by (auto simp: demo_assets_def)
  have rows0: "same_rows (md_assets db) (fst ?st0)" by (rule configure_same)
  have "as_id x \<in> as_id ` set (ad_assets (fst ?st0))" if "x \<in> set ?todo" for x
    using same_rows_ids [OF rows0] that mem by (metis (no_types, lifting) filter_is_subset image_eqI set_map subsetD)
  note su = setup_all [OF run this]
  have rows: "same_rows (md_assets db) (fst st)" using same_rows_trans [OF rows0] su by blast
  have "gen_inv env (cl_id client) (ad_inspections (md_assets db)) (map place ?xs) (map as_id ?xs) ?g0"
    by (rule generation_start_inv [OF rows d mem]) (use su in auto)
  from months_inv [OF laws this]
  have inv: "gen_inv env (cl_id client) (ad_inspections (md_assets db)) (map place ?xs) (map as_id ?xs) (foldl ?month ?g0 [1..<Suc monthsBack])" .
  have new: "n \<in> set (ad_inspections (md_assets db)) \<or> after_creation env (cl_id client) (ad_assets (md_assets db')) n"
    if "n \<in> set (ad_inspections (md_assets db'))" for n
    using inv that unfolding db' gen_inv_def Let_def by blast
  have ready: "\<exists>y\<in>set (ad_assets (md_assets db')). as_id y = as_id x \<and> as_setupOn y \<noteq> None" if "x \<in> set ?xs" for x
    using inv that unfolding db' gen_inv_def Let_def by simp
  have "is_clientId n = cl_id client \<and> is_createdOn n \<le> de_now env
      \<and> (\<exists>a\<in>set (ad_assets (md_assets db')). as_id a = is_assetId n \<and> as_siteId a = is_siteId n \<and> as_createdOn a \<le> is_createdOn n)"
    if "after_creation env (cl_id client) (ad_assets (md_assets db')) n" for n
    using that by (auto simp: after_creation_def place_def)
  with new ready cl n show ?thesis by (intro bexI [of _ client]) auto
qed

theorem demo_inspections_plausible_witness:
  "\<exists>db'. generateInspectionsForDemoClient ex_demo_env ex_clear_cls Bypass system ex_demo_ids (Some ''c1'') 2 True ex_renew_db = Inr ((1, 1, 1), db')
     \<and> (\<exists>y\<in>set (ad_assets (md_assets db')). as_id y = ''a1'' \<and> as_setupOn y \<noteq> None)"
proof -
  let ?r = "generateInspectionsForDemoClient ex_demo_env ex_clear_cls Bypass system ex_demo_ids (Some ''c1'') 2 True ex_renew_db"
  obtain db' where r: "?r = Inr ((1, 1, 1), db')"
  proof -
    have "map_sum (\<lambda>e. ()) fst ?r = Inr (1, 1, 1)" by code_simp
    then show thesis using that by (cases ?r) auto
  qed
  have laws: "date_laws ex_demo_env" by (simp add: date_laws_def ex_demo_env_def)
  have d: "distinct (map as_id (ad_assets (md_assets ex_renew_db)))" by code_simp
  from demo_inspections_plausible [OF r laws d] obtain c where "c \<in> set (md_clients ex_renew_db)"
    and ready: "\<forall>x\<in>set (demo_assets Bypass (cl_id c) ex_renew_db). \<exists>y\<in>set (ad_assets (md_assets db')). as_id y = as_id x \<and> as_setupOn y \<noteq> None" by blast
  moreover have "list_all (\<lambda>c. list_ex (\<lambda>x. as_id x = ''a1'') (demo_assets Bypass (cl_id c) ex_renew_db)) (md_clients ex_renew_db)" by code_simp
  ultimately obtain x where "x \<in> set (demo_assets Bypass (cl_id c) ex_renew_db)" "as_id x = ''a1''" unfolding list_all_iff list_ex_iff by blast
  with ready r show ?thesis by metis
qed

end
