(* ===== verification/Users.thy ===== *)
theory Users
  imports Members "HOL-Library.Multiset"
begin

section \<open>Administration of users\<close>

text \<open>
  \<^verbatim>\<open>src/src/clients/users/users.service.ts\<close>: the operations a system administrator has on every person,
  outside row-level security. The identity provider is a parameter: \<open>kcUpdate\<close>, \<open>kcReset\<close> and
  \<open>kcResetEmail\<close> act on its state \<open>'k\<close> and may fail. A transaction that throws leaves the tables as they
  were. \<open>crypto.randomInt\<close> is the parameter \<open>rnd\<close>: \<open>rnd k n\<close> is the draw number \<open>k\<close>, below \<open>n\<close>.
\<close>

datatype kc_outcome = KcDone | KcNetworkError nat | KcFailure string

record idp_user =
  iu_enabled :: bool
  iu_firstName :: string
  iu_lastName :: string
  iu_email :: string
  iu_username :: string
  iu_attributes :: "(string, string list) jmap"

type_synonym user_access = "access_row \<times> client_row option \<times> site_row option \<times> role_row option"

definition user_accesses :: "tenant_db \<Rightarrow> id \<Rightarrow> user_access list" where
  "user_accesses db i =
     map (\<lambda>a. (a, find_by cl_id (pca_clientId a) (db_clients db), find_by st_id (pca_siteId a) (db_sites db), find_by ro_id (pca_roleId a) (db_roles db)))
       (filter (\<lambda>a. pca_personId a = i) (db_accesses db))"

definition find_user :: "tenant_db \<Rightarrow> id \<Rightarrow> person_row result" where
  "find_user db i = (case find_by pe_id i (db_persons db) of None \<Rightarrow> Inl (NotFoundException ''Not Found'') | Some p \<Rightarrow> Inr p)"

definition user_findOne :: "id \<Rightarrow> tenant_db \<Rightarrow> (person_row \<times> user_access list) result" where
  "user_findOne i db = bindr (find_user db i) (\<lambda>p. Inr (p, user_accesses db i))"

subsection \<open>Profile and password\<close>

record update_user_dto =
  uu_active :: "bool option"
  uu_firstName :: "string option"
  uu_lastName :: "string option"
  uu_email :: "string option"
  uu_phoneNumber :: "string option option" \<comment> \<open>absent, null or a number\<close>

definition patch_person :: "update_user_dto \<Rightarrow> person_row \<Rightarrow> person_row" where
  "patch_person dto p = p\<lparr>pe_firstName := nullish_or (uu_firstName dto) (pe_firstName p), pe_lastName := nullish_or (uu_lastName dto) (pe_lastName p),
     pe_email := nullish_or (uu_email dto) (pe_email p), pe_phoneNumber := nullish_or (uu_phoneNumber dto) (pe_phoneNumber p),
     pe_active := nullish_or (uu_active dto) (pe_active p)\<rparr>"

definition mergeAttributes :: "(string, string list) jmap \<Rightarrow> (string \<times> string list option) list \<Rightarrow> (string, string list) jmap" where
  "mergeAttributes attributes toAdd =
     foldl (\<lambda>acc (key, attr). case attr of None \<Rightarrow> acc | Some v \<Rightarrow> AList.update key v acc) attributes toAdd"

definition idp_profile :: "string \<Rightarrow> update_user_dto \<Rightarrow> person_row \<Rightarrow> idp_user" where
  "idp_profile now dto p =
     \<lparr>iu_enabled = nullish_or (uu_active dto) (pe_active p), iu_firstName = nullish_or (uu_firstName dto) (pe_firstName p),
      iu_lastName = nullish_or (uu_lastName dto) (pe_lastName p), iu_email = nullish_or (uu_email dto) (pe_email p),
      iu_username = (if pe_username p = Some (pe_email p) then nullish_or (uu_email dto) (pe_email p) else nullish_or (pe_username p) (pe_email p)),
      iu_attributes = mergeAttributes []
        [(''phone_number'', map_option (\<lambda>n. [n]) (nullish_or (Option.bind (uu_phoneNumber dto) (map_option Some)) (pe_phoneNumber p))),
         (''user_updated_at'', Some [now])]\<rparr>"

definition idp_conflict :: api_error where
  "idp_conflict = ConflictException ''Email or username already exists in identity provider''"

definition user_update ::
    "(id \<Rightarrow> idp_user \<Rightarrow> 'k \<Rightarrow> kc_outcome \<times> 'k) \<Rightarrow> string \<Rightarrow> id \<Rightarrow> update_user_dto \<Rightarrow> 'k \<Rightarrow> tenant_db
     \<Rightarrow> (person_row \<times> user_access list) result \<times> 'k \<times> tenant_db" where
  "user_update kcUpdate now i dto k db =
     (case find_user db i of
        Inl e \<Rightarrow> (Inl e, k, db)
      | Inr person \<Rightarrow>
          (let db1 = db\<lparr>db_persons := map (\<lambda>x. if pe_id x = i then patch_person dto x else x) (db_persons db)\<rparr>;
               updated = (patch_person dto person, user_accesses db1 i)
           in if truthy (pe_idpId person)
              then (case kcUpdate (the (pe_idpId person)) (idp_profile now dto person) k of
                      (KcDone, k') \<Rightarrow> (Inr updated, k', db1)
                    | (KcNetworkError s, k') \<Rightarrow> (Inl (if s = 409 then idp_conflict else ServerError ''NetworkError''), k', db)
                    | (KcFailure m, k') \<Rightarrow> (Inl (ServerError m), k', db))
              else (Inr updated, k, db1)))"

definition no_account :: api_error where
  "no_account = BadRequestException ''User has no identity provider account''"

record password_mail =
  pm_to :: "string list"
  pm_firstName :: string
  pm_password :: string

definition user_resetPassword ::
    "(id \<Rightarrow> string \<Rightarrow> 'k \<Rightarrow> unit result \<times> 'k) \<Rightarrow> id \<Rightarrow> string \<Rightarrow> bool \<Rightarrow> tenant_db \<Rightarrow> 'k \<times> password_mail list
     \<Rightarrow> unit result \<times> 'k \<times> password_mail list" where
  "user_resetPassword kcReset i password sendEmail db s =
     (case find_user db i of
        Inl e \<Rightarrow> (Inl e, s)
      | Inr person \<Rightarrow>
          if \<not> truthy (pe_idpId person) then (Inl no_account, s)
          else (case kcReset (the (pe_idpId person)) password (fst s) of
                  (Inl e, k') \<Rightarrow> (Inl e, k', snd s)
                | (Inr u, k') \<Rightarrow>
                    (Inr (), k', if sendEmail then snd s @ [\<lparr>pm_to = [pe_email person], pm_firstName = pe_firstName person, pm_password = password\<rparr>] else snd s)))"

definition user_sendResetPasswordEmail :: "(id \<Rightarrow> string \<Rightarrow> unit result) \<Rightarrow> id \<Rightarrow> string \<Rightarrow> tenant_db \<Rightarrow> unit result" where
  "user_sendResetPasswordEmail kcResetEmail i appClientId db =
     bindr (find_user db i) (\<lambda>person. if truthy (pe_idpId person) then kcResetEmail (the (pe_idpId person)) appClientId else Inl no_account)"

subsection \<open>Roles\<close>

record user_role_dto =
  ur_clientId :: id
  ur_siteId :: id
  ur_roleId :: id

definition primary_flag :: "id \<Rightarrow> user_role_dto \<Rightarrow> access_row list \<Rightarrow> bool" where
  "primary_flag i dto rows =
     (case List.find (\<lambda>a. pca_personId a = i \<and> pca_isPrimary a) rows of
        None \<Rightarrow> True
      | Some a \<Rightarrow> pca_clientId a = ur_clientId dto \<and> pca_siteId a = ur_siteId dto)"

definition user_addRole ::
    "('c, access_grant_result) cache_ops \<Rightarrow> time \<Rightarrow> id \<Rightarrow> id \<Rightarrow> user_role_dto \<Rightarrow> 'c \<Rightarrow> tenant_db \<Rightarrow> unit result \<times> 'c \<times> tenant_db" where
  "user_addRole ops now newId i dto c db =
     (case bindr (find_user db i) (\<lambda>person.
        if \<not> list_ex (\<lambda>s. st_id s = ur_siteId dto \<and> st_clientId s = ur_clientId dto) (db_sites db)
        then Inl (NotFoundException (''Site with ID '' @ ur_siteId dto @ '' not found for client '' @ ur_clientId dto))
        else if find_by ro_id (ur_roleId dto) (db_roles db) = None
        then Inl (NotFoundException (''Role with ID '' @ ur_roleId dto @ '' not found''))
        else if ur_clientId dto \<notin> cl_id ` set (db_clients db) then Inl (ServerError ''P2003'')
        else (let flag = primary_flag i dto (db_accesses db);
                  row = \<lparr>pca_id = newId, pca_createdOn = now, pca_isPrimary = flag, pca_personId = pe_id person,
                         pca_clientId = ur_clientId dto, pca_siteId = ur_siteId dto, pca_roleId = ur_roleId dto\<rparr>
              in if access_key row \<notin> access_key ` set (db_accesses db) \<and> newId \<in> pca_id ` set (db_accesses db)
                 then Inl (ConflictException ''P2002'')
                 else Inr (person, upsert_access (\<lambda>a. a\<lparr>pca_isPrimary := flag\<rparr>) row (db_accesses db)))) of
        Inl e \<Rightarrow> (Inl e, c, db)
      | Inr (person, rows) \<Rightarrow>
          (Inr (), clear_member_cache ops person (ur_clientId dto) (Some (ur_siteId dto)) None c, set_accesses db rows))"

definition user_removeRole_tx :: "id \<Rightarrow> user_role_dto \<Rightarrow> access_row list \<Rightarrow> access_row list result" where
  "user_removeRole_tx i dto rows =
     (case List.find (\<lambda>a. pca_personId a = i \<and> pca_clientId a = ur_clientId dto \<and> pca_roleId a = ur_roleId dto \<and> pca_siteId a = ur_siteId dto) rows of
        None \<Rightarrow> Inl (NotFoundException ''User does not have this client/site/role combination'')
      | Some access \<Rightarrow>
          (let rows1 = filter (\<lambda>a. pca_id a \<noteq> pca_id access) rows
           in Inr (if pca_isPrimary access \<and> List.find (\<lambda>a. pca_personId a = i \<and> pca_isPrimary a) rows1 = None
                   then promote Bypass i rows1 else rows1)))"

definition user_removeRole ::
    "('c, access_grant_result) cache_ops \<Rightarrow> id \<Rightarrow> user_role_dto \<Rightarrow> 'c \<Rightarrow> tenant_db \<Rightarrow> unit result \<times> 'c \<times> tenant_db" where
  "user_removeRole ops i dto c db =
     (case bindr (find_user db i) (\<lambda>person. bindr (user_removeRole_tx i dto (db_accesses db)) (\<lambda>rows. Inr (person, rows))) of
        Inl e \<Rightarrow> (Inl e, c, db)
      | Inr (person, rows) \<Rightarrow>
          (Inr (), clear_member_cache ops person (ur_clientId dto) (Some (ur_siteId dto)) None c, set_accesses db rows))"

subsection \<open>Random passwords\<close>

definition uppercaseChars :: string where "uppercaseChars = ''ABCDEFGHIJKLMNOPQRSTUVWXYZ''"

definition lowercaseChars :: string where "lowercaseChars = ''abcdefghijklmnopqrstuvwxyz''"

definition numberChars :: string where "numberChars = ''0123456789''"

definition specialChars :: string where "specialChars = ''!@#$%^&*()''"

definition allChars :: string where
  "allChars = uppercaseChars @ lowercaseChars @ numberChars @ specialChars"

definition charAt :: "string \<Rightarrow> nat \<Rightarrow> string" where
  "charAt s k = (if k < length s then [s ! k] else [])"

definition random_char :: "(nat \<Rightarrow> nat \<Rightarrow> nat) \<Rightarrow> nat \<Rightarrow> string \<Rightarrow> string" where
  "random_char rnd k s = charAt s (rnd k (length s))"

definition swap_at :: "nat \<Rightarrow> nat \<Rightarrow> 'a list \<Rightarrow> 'a list" where
  "swap_at i j xs = xs[i := xs ! j, j := xs ! i]"

fun fisher_yates :: "(nat \<Rightarrow> nat \<Rightarrow> nat) \<Rightarrow> nat \<Rightarrow> nat \<Rightarrow> 'a list \<Rightarrow> 'a list" where
  "fisher_yates rnd k 0 xs = xs"
| "fisher_yates rnd k (Suc i) xs = fisher_yates rnd (Suc k) i (swap_at (Suc i) (rnd k (Suc i + 1)) xs)"

definition generatePassword :: "(nat \<Rightarrow> nat \<Rightarrow> nat) \<Rightarrow> nat \<Rightarrow> string" where
  "generatePassword rnd len =
     (let first = random_char rnd 0 uppercaseChars @ random_char rnd 1 lowercaseChars @ random_char rnd 2 numberChars @ random_char rnd 3 specialChars;
          chars = first @ concat (map (\<lambda>i. random_char rnd i allChars) [4..<len])
      in fisher_yates rnd (max 4 len) (length chars - 1) chars)"

subsection \<open>The password generator\<close>

definition rnd_ok :: "(nat \<Rightarrow> nat \<Rightarrow> nat) \<Rightarrow> bool" where
  \<comment> \<open>\<open>randomInt(n)\<close> is an integer below \<open>n\<close>\<close>
  "rnd_ok rnd \<longleftrightarrow> (\<forall>k n. 0 < n \<longrightarrow> rnd k n < n)"

lemma length_swap_at [simp]: "length (swap_at i j xs) = length xs"
  by (simp add: swap_at_def)

lemma mset_swap_at [simp]: "i < length xs \<Longrightarrow> j < length xs \<Longrightarrow> mset (swap_at i j xs) = mset xs"
  unfolding swap_at_def by (rule mset_swap)

lemma nth_swap_at: "i < length xs \<Longrightarrow> j < length xs \<Longrightarrow> swap_at i j xs ! m = (if m = i then xs ! j else if m = j then xs ! i else xs ! m)"
  by (cases "m = j") (auto simp: swap_at_def)

lemma draw_below: "rnd_ok rnd \<Longrightarrow> Suc i < length xs \<Longrightarrow> rnd k (Suc i + 1) < length xs"
  unfolding rnd_ok_def by (metis Suc_eq_plus1 Suc_lessI less_trans not_less_eq zero_less_Suc)

lemma fisher_yates_length [simp]: "length (fisher_yates rnd k i xs) = length xs"
  by (induction rnd k i xs rule: fisher_yates.induct) simp_all

lemma fisher_yates_mset:
  assumes "rnd_ok rnd"
  shows "i < length xs \<Longrightarrow> mset (fisher_yates rnd k i xs) = mset xs"
proof (induction i arbitrary: k xs)
  case (Suc i)
  then show ?case using draw_below [OF assms, of i xs k] by simp
qed simp

lemma fisher_yates_above:
  assumes "rnd_ok rnd"
  shows "i < length xs \<Longrightarrow> i < m \<Longrightarrow> fisher_yates rnd k i xs ! m = xs ! m"
proof (induction i arbitrary: k xs)
  case (Suc i)
  have "rnd k (Suc i + 1) \<noteq> m" using assms Suc.prems(2) unfolding rnd_ok_def by (metis add_is_0 less_irrefl less_trans_Suc not_less_eq old.nat.distinct(2) Suc_eq_plus1 zero_less_Suc)
  then show ?case using Suc draw_below [OF assms, of i xs k] by (simp add: nth_swap_at)
qed simp

lemma fisher_yates_at:
  assumes "rnd_ok rnd" and "Suc i < length xs"
  shows "fisher_yates rnd k (Suc i) xs ! Suc i = xs ! rnd k (Suc i + 1)"
  using fisher_yates_above [OF assms(1), of i "swap_at (Suc i) (rnd k (Suc i + 1)) xs" "Suc i" "Suc k"] assms draw_below [OF assms, of k]
  by (simp add: nth_swap_at)

lemma fisher_yates_cong:
  "(\<And>m. k \<le> m \<Longrightarrow> rnd m = rnd' m) \<Longrightarrow> fisher_yates rnd k i xs = fisher_yates rnd' k i xs"
  by (induction i arbitrary: k xs) simp_all

lemma mset_take_eq:
  assumes "mset ys = mset xs" and "drop n ys = drop n xs"
  shows "mset (take n ys) = mset (take n xs)"
  using assms by (metis add_right_imp_eq append_take_drop_id mset_append)

lemma fisher_yates_reaches:
  assumes "mset ys = mset xs" and "drop (Suc i) ys = drop (Suc i) xs" and "i < length xs"
  shows "\<exists>rnd. rnd_ok rnd \<and> fisher_yates rnd k i xs = ys"
  using assms
proof (induction i arbitrary: k xs)
  case 0
  then obtain x t where x: "xs = x # t" by (cases xs) auto
  moreover from 0 x obtain y where "ys = y # t" by (cases ys) auto
  ultimately have "ys = xs" using 0(1) by simp
  moreover have "rnd_ok (\<lambda>k n. 0)" by (simp add: rnd_ok_def)
  ultimately show ?case by (intro exI [of _ "\<lambda>k n. 0"]) simp
next
  case (Suc i)
  have len: "length ys = length xs" using Suc.prems(1) by (metis size_mset)
  have "ys ! Suc i \<in> set (take (Suc (Suc i)) ys)" using Suc.prems(3) len by (auto simp: in_set_conv_nth)
  then have "ys ! Suc i \<in> set (take (Suc (Suc i)) xs)" using mset_take_eq [OF Suc.prems(1,2)] by (metis set_mset_mset)
  then obtain j where j: "j < Suc (Suc i)" "j < length xs" "xs ! j = ys ! Suc i" by (auto simp: in_set_conv_nth)
  let ?xs = "swap_at (Suc i) j xs"
  have "drop (Suc i) ys = drop (Suc i) ?xs"
  proof (rule nth_equalityI)
    fix m assume m: "m < length (drop (Suc i) ys)"
    show "drop (Suc i) ys ! m = drop (Suc i) ?xs ! m"
    proof (cases m)
      case 0
      then show ?thesis using Suc.prems(3) j len by (simp add: nth_swap_at)
    next
      case (Suc m')
      then have "ys ! (Suc i + m) = drop (Suc (Suc i)) ys ! m'" "xs ! (Suc i + m) = drop (Suc (Suc i)) xs ! m'"
        using m len by simp_all
      then show ?thesis using Suc Suc.prems(2,3) j m len by (simp add: nth_swap_at)
    qed
  qed (use len in simp)
  then obtain r where r: "rnd_ok r" "fisher_yates r (Suc k) i ?xs = ys"
    using Suc.IH [of ?xs "Suc k"] Suc.prems j by auto
  let ?r = "r(k := \<lambda>n. if n = Suc i + 1 then j else 0)"
  have "fisher_yates ?r (Suc k) i ?xs = ys" using r(2) fisher_yates_cong [of "Suc k" ?r r i ?xs] by simp
  moreover have "rnd_ok ?r" using r(1) j by (auto simp: rnd_ok_def)
  ultimately show ?case by (intro exI [of _ ?r]) (simp del: fun_upd_apply add: fun_upd_same)
qed

lemma fisher_yates_unique:
  assumes "distinct xs" and "i < length xs" and ok: "rnd_ok r" "rnd_ok r'" and "fisher_yates r k i xs = fisher_yates r' k i xs" and "m < i"
  shows "r (k + m) (Suc (i - m)) = r' (k + m) (Suc (i - m))"
  using assms(1,2,5,6)
proof (induction i arbitrary: k xs m)
  case (Suc i)
  have "xs ! r k (Suc i + 1) = xs ! r' k (Suc i + 1)"
    using Suc.prems(3) fisher_yates_at [OF ok(1) Suc.prems(2), of k] fisher_yates_at [OF ok(2) Suc.prems(2), of k] by simp
  then have top: "r k (Suc i + 1) = r' k (Suc i + 1)"
    using draw_below [OF ok(1) Suc.prems(2), of k] draw_below [OF ok(2) Suc.prems(2), of k] Suc.prems(1) by (simp add: nth_eq_iff_index_eq)
  let ?xs = "swap_at (Suc i) (r k (Suc i + 1)) xs"
  show ?case
  proof (cases m)
    case 0
    then show ?thesis using top by simp
  next
    case (Suc m')
    have "mset ?xs = mset xs" using Suc.prems(2) draw_below [OF ok(1) Suc.prems(2), of k] by simp
    then have "distinct ?xs" using Suc.prems(1) by (metis distinct_count_atmost_1 set_mset_mset)
    then have "r (Suc k + m') (Suc (i - m')) = r' (Suc k + m') (Suc (i - m'))"
      using Suc.IH [of ?xs "Suc k" m'] Suc.prems top Suc by simp
    then show ?thesis using Suc by simp
  qed
qed simp

text \<open>
  The shuffle at the end of the password generator is unbiased: every order of distinct elements comes from
  exactly one sequence of draws, so with uniform draws every order is equally likely.
\<close>

theorem shuffle_unbiased:
  assumes "distinct xs" and "xs \<noteq> []" and "mset ys = mset xs"
  shows "(\<exists>rnd. rnd_ok rnd \<and> fisher_yates rnd k (length xs - 1) xs = ys)
     \<and> (\<forall>r r' m. rnd_ok r \<and> rnd_ok r' \<and> fisher_yates r k (length xs - 1) xs = ys \<and> fisher_yates r' k (length xs - 1) xs = ys \<and> m < length xs - 1
          \<longrightarrow> r (k + m) (length xs - m) = r' (k + m) (length xs - m))"
proof -
  have len: "length ys = length xs" using assms(3) by (metis size_mset)
  have "\<exists>rnd. rnd_ok rnd \<and> fisher_yates rnd k (length xs - 1) xs = ys"
    by (rule fisher_yates_reaches) (use assms len in simp_all)
  moreover have "r (k + m) (length xs - m) = r' (k + m) (length xs - m)"
    if "rnd_ok r" "rnd_ok r'" "fisher_yates r k (length xs - 1) xs = ys" "fisher_yates r' k (length xs - 1) xs = ys" "m < length xs - 1" for r r' m
    using fisher_yates_unique [OF assms(1) _ that(1,2), of "length xs - 1" k m] that assms(2) by (simp add: Suc_diff_Suc)
  ultimately show ?thesis by blast
qed

theorem shuffle_unbiased_witness:
  "(\<exists>rnd. rnd_ok rnd \<and> fisher_yates rnd 0 2 [1 :: nat, 2, 3] = [3, 1, 2])"
proof -
  have "distinct [1 :: nat, 2, 3]" "[1 :: nat, 2, 3] \<noteq> []" "mset [3, 1, 2 :: nat] = mset [1, 2, 3]" by simp_all
  from shuffle_unbiased [OF this, of 0] show ?thesis by (simp add: numeral_2_eq_2)
qed

lemma random_char_ok:
  assumes "rnd_ok rnd" and "s \<noteq> []"
  shows "\<exists>c\<in>set s. random_char rnd k s = [c]"
proof -
  have "rnd k (length s) < length s" using assms by (simp add: rnd_ok_def)
  then show ?thesis by (auto simp: random_char_def charAt_def)
qed

lemma random_chars:
  assumes "rnd_ok rnd"
  shows "length (concat (map (\<lambda>i. random_char rnd i allChars) is)) = length is \<and> set (concat (map (\<lambda>i. random_char rnd i allChars) is)) \<subseteq> set allChars"
proof (induction "is")
  case (Cons i "is")
  obtain c where "c \<in> set allChars" "random_char rnd i allChars = [c]"
    using random_char_ok [OF assms, of allChars i] by (auto simp: allChars_def uppercaseChars_def)
  with Cons show ?case by simp
qed simp

text \<open>
  A generated password has the requested length, at least four, uses only the letters, digits and special
  characters of the four sets, and has at least one of each.
\<close>

theorem generatePassword_correct:
  assumes "rnd_ok rnd"
  shows "length (generatePassword rnd len) = max 4 len \<and> set (generatePassword rnd len) \<subseteq> set allChars
     \<and> (\<forall>cs\<in>{uppercaseChars, lowercaseChars, numberChars, specialChars}. \<exists>c\<in>set cs. c \<in> set (generatePassword rnd len))"
proof -
  have ne: "uppercaseChars \<noteq> []" "lowercaseChars \<noteq> []" "numberChars \<noteq> []" "specialChars \<noteq> []"
    by (simp_all add: uppercaseChars_def lowercaseChars_def numberChars_def specialChars_def)
  obtain a where a: "a \<in> set uppercaseChars" "random_char rnd 0 uppercaseChars = [a]" using random_char_ok [OF assms ne(1)] by blast
  obtain b where b: "b \<in> set lowercaseChars" "random_char rnd 1 lowercaseChars = [b]" using random_char_ok [OF assms ne(2)] by blast
  obtain c where c: "c \<in> set numberChars" "random_char rnd 2 numberChars = [c]" using random_char_ok [OF assms ne(3)] by blast
  obtain d where d: "d \<in> set specialChars" "random_char rnd 3 specialChars = [d]" using random_char_ok [OF assms ne(4)] by blast
  define rest where "rest = concat (map (\<lambda>i. random_char rnd i allChars) [4..<len])"
  have rest: "length rest = len - 4" "set rest \<subseteq> set allChars" using random_chars [OF assms, of "[4..<len]"] by (simp_all add: rest_def)
  let ?chars = "[a, b, c, d] @ rest"
  have eq: "generatePassword rnd len = fisher_yates rnd (max 4 len) (length ?chars - 1) ?chars"
    unfolding generatePassword_def a(2) b(2) c(2) d(2) rest_def [symmetric] Let_def by simp
  have "mset (generatePassword rnd len) = mset ?chars" unfolding eq by (rule fisher_yates_mset [OF assms]) simp
  then have set: "set (generatePassword rnd len) = set ?chars" by (metis set_mset_mset)
  have "length (generatePassword rnd len) = max 4 len" by (simp add: eq rest(1))
  moreover have "set ?chars \<subseteq> set allChars" using a b c d rest(2) by (auto simp: allChars_def)
  ultimately show ?thesis unfolding set using a(1) b(1) c(1) d(1) by auto
qed

theorem generatePassword_correct_witness:
  "rnd_ok (\<lambda>k n. k mod n) \<and> length (generatePassword (\<lambda>k n. k mod n) 12) = 12"
proof -
  have ok: "rnd_ok (\<lambda>k n. k mod n)" by (simp add: rnd_ok_def)
  with generatePassword_correct [OF ok, of 12] show ?thesis by simp
qed

subsection \<open>Roles and the primary site\<close>

inductive user_step :: "('c, access_grant_result) cache_ops \<Rightarrow> tenant_db \<Rightarrow> tenant_db \<Rightarrow> bool" for ops where
  add_role: "user_addRole ops now newId i dto c db = (r, c', db') \<Longrightarrow> user_step ops db db'"
| remove_role: "user_removeRole ops i dto c db = (r, c', db') \<Longrightarrow> user_step ops db db'"

definition one_primary :: "access_row list \<Rightarrow> bool" where
  \<comment> \<open>a person with access has a primary row, and all primary rows are at one site\<close>
  "one_primary rows \<longleftrightarrow> (\<forall>p. primary_consistent p rows
     \<and> ((\<exists>a\<in>set rows. pca_personId a = p) \<longrightarrow> (\<exists>a\<in>set rows. pca_personId a = p \<and> pca_isPrimary a)))"

lemma one_primary_other:
  assumes "\<And>a. pca_personId a \<noteq> i \<Longrightarrow> a \<in> set rows' \<longleftrightarrow> a \<in> set rows" and "one_primary rows"
    and "primary_consistent i rows'" and "(\<exists>a\<in>set rows'. pca_personId a = i) \<longrightarrow> (\<exists>a\<in>set rows'. pca_personId a = i \<and> pca_isPrimary a)"
  shows "one_primary rows'"
  unfolding one_primary_def
proof (intro allI)
  fix p
  show "primary_consistent p rows' \<and> ((\<exists>a\<in>set rows'. pca_personId a = p) \<longrightarrow> (\<exists>a\<in>set rows'. pca_personId a = p \<and> pca_isPrimary a))"
  proof (cases "p = i")
    case False
    then have same: "a \<in> set rows' \<longleftrightarrow> a \<in> set rows" if "pca_personId a = p" for a using assms(1) that by blast
    have "primary_consistent p rows' = primary_consistent p rows" by (rule primary_consistent_cong) (rule same)
    then show ?thesis using assms(2) same unfolding one_primary_def by blast
  qed (use assms(3,4) in blast)
qed

lemma add_one_primary:
  fixes row :: access_row
  assumes inv: "one_primary rows" and row: "pca_personId row = i" "pca_clientId row = ur_clientId dto" "pca_siteId row = ur_siteId dto" "pca_isPrimary row = flag"
    and flag: "flag = primary_flag i dto rows"
  shows "one_primary (upsert_access (\<lambda>a. a\<lparr>pca_isPrimary := flag\<rparr>) row rows)" (is "one_primary ?rows'")
proof (rule one_primary_other [OF _ inv])
  let ?cs = "(ur_clientId dto, ur_siteId dto)"
  have key: "pca_personId a = i \<and> (pca_clientId a, pca_siteId a) = ?cs" if "access_key a = access_key row" for a
    using that row by (simp add: access_key_def)
  show "a \<in> set ?rows' \<longleftrightarrow> a \<in> set rows" if "pca_personId a \<noteq> i" for a
    using that key row(1) unfolding mem_upsert_access by auto
  have new: "a \<in> set rows \<or> pca_personId a = i \<and> (pca_clientId a, pca_siteId a) = ?cs \<and> pca_isPrimary a = flag" if "a \<in> set ?rows'" for a
    using that key row unfolding mem_upsert_access by (auto split: if_splits)
  have there: "\<exists>a\<in>set ?rows'. pca_personId a = i \<and> pca_isPrimary a = flag"
  proof (cases "access_key row \<in> access_key ` set rows")
    case True
    then obtain b where b: "b \<in> set rows" "access_key b = access_key row" by (metis imageE)
    then have "b\<lparr>pca_isPrimary := flag\<rparr> \<in> set ?rows'" using True unfolding mem_upsert_access by auto
    moreover have "pca_personId (b\<lparr>pca_isPrimary := flag\<rparr>) = i" using key [OF b(2)] by simp
    ultimately show ?thesis by (intro bexI [of _ "b\<lparr>pca_isPrimary := flag\<rparr>"]) simp_all
  next
    case False
    then have "row \<in> set ?rows'" unfolding mem_upsert_access by simp
    then show ?thesis using row by blast
  qed
  have stay: "a \<in> set ?rows' \<or> access_key a = access_key row" if "a \<in> set rows" for a
    using that unfolding mem_upsert_access by auto
  show "primary_consistent i ?rows'"
  proof (cases "List.find (\<lambda>a. pca_personId a = i \<and> pca_isPrimary a) rows")
    case None
    then have "primaries_at i ?cs ?rows'" using new unfolding find_None_iff primaries_at_def by blast
    then show ?thesis unfolding primary_consistent_def by blast
  next
    case (Some b)
    note b = find_SomeD [OF Some]
    obtain cs where cs: "primaries_at i cs rows" using inv unfolding one_primary_def primary_consistent_def by blast
    then have "(pca_clientId b, pca_siteId b) = cs" using b by (simp add: primaries_at_def)
    then have "flag \<longleftrightarrow> cs = ?cs" by (auto simp: flag primary_flag_def Some)
    then have "primaries_at i cs ?rows'" using cs new unfolding primaries_at_def by metis
    then show ?thesis unfolding primary_consistent_def by blast
  qed
  show "(\<exists>a\<in>set ?rows'. pca_personId a = i) \<longrightarrow> (\<exists>a\<in>set ?rows'. pca_personId a = i \<and> pca_isPrimary a)"
  proof (cases flag)
    case True
    then show ?thesis using there by blast
  next
    case False
    then obtain b where b: "List.find (\<lambda>a. pca_personId a = i \<and> pca_isPrimary a) rows = Some b" "\<not> (pca_clientId b = ur_clientId dto \<and> pca_siteId b = ur_siteId dto)"
      unfolding flag primary_flag_def by (auto split: option.splits)
    then show ?thesis using find_SomeD [OF b(1)] stay [of b] key [of b] by auto
  qed
qed

lemma promoted_consistent:
  assumes "\<not> (\<exists>a\<in>set rows. pca_personId a = i \<and> pca_isPrimary a)"
  shows "primary_consistent i (promote Bypass i rows)"
proof (rule promote_cases [of Bypass i rows])
  assume "promote Bypass i rows = rows"
  then show ?thesis using assms unfolding primary_consistent_def primaries_at_def by auto
next
  fix old
  assume p: "promote Bypass i rows = map (\<lambda>a. if access_visible Bypass a \<and> pca_personId a = i
        \<and> pca_clientId a = pca_clientId old \<and> pca_siteId a = pca_siteId old
        then a\<lparr>pca_isPrimary := True\<rparr> else a) rows"
  have "primaries_at i (pca_clientId old, pca_siteId old) (promote Bypass i rows)"
    unfolding p primaries_at_def set_map using assms by fastforce
  then show ?thesis unfolding primary_consistent_def by blast
qed

lemma user_removeRole_txE:
  assumes "user_removeRole_tx i dto rows = Inr rows'"
  obtains access where "access \<in> set rows" "access_key access = (i, ur_clientId dto, ur_siteId dto, ur_roleId dto)"
    "rows' = (let rows1 = filter (\<lambda>a. pca_id a \<noteq> pca_id access) rows in
       if pca_isPrimary access \<and> \<not> (\<exists>a\<in>set rows1. pca_personId a = i \<and> pca_isPrimary a) then promote Bypass i rows1 else rows1)"
proof -
  let ?P = "\<lambda>a. pca_personId a = i \<and> pca_clientId a = ur_clientId dto \<and> pca_roleId a = ur_roleId dto \<and> pca_siteId a = ur_siteId dto"
  from assms obtain a where f: "List.find ?P rows = Some a"
    and r: "rows' = (let rows1 = filter (\<lambda>x. pca_id x \<noteq> pca_id a) rows in
       if pca_isPrimary a \<and> List.find (\<lambda>x. pca_personId x = i \<and> pca_isPrimary x) rows1 = None then promote Bypass i rows1 else rows1)"
    unfolding user_removeRole_tx_def Let_def by (auto split: option.splits)
  show thesis
    by (rule that [of a]) (use find_SomeD [OF f] r in \<open>auto simp: access_key_def find_None_iff Let_def\<close>)
qed

lemma remove_one_primary:
  assumes tx: "user_removeRole_tx i dto rows = Inr rows'" and inv: "one_primary rows" and d: "distinct (map pca_id rows)"
  shows "one_primary rows'"
proof -
  from tx obtain access where acc: "access \<in> set rows" "pca_personId access = i"
    and rows': "rows' = (let rows1 = filter (\<lambda>a. pca_id a \<noteq> pca_id access) rows in
       if pca_isPrimary access \<and> \<not> (\<exists>a\<in>set rows1. pca_personId a = i \<and> pca_isPrimary a) then promote Bypass i rows1 else rows1)"
    by (elim user_removeRole_txE) (auto simp: access_key_def)
  let ?rows1 = "filter (\<lambda>a. pca_id a \<noteq> pca_id access) rows"
  have same: "a = access" if "a \<in> set rows" "pca_id a = pca_id access" for a using d acc(1) that by (auto simp: distinct_map dest: inj_onD)
  show ?thesis
  proof (rule one_primary_other [OF _ inv])
    show "a \<in> set rows' \<longleftrightarrow> a \<in> set rows" if "pca_personId a \<noteq> i" for a
      using that same acc by (auto simp: rows' Let_def promote_other)
    obtain cs where "primaries_at i cs rows" using inv unfolding one_primary_def primary_consistent_def by blast
    then have sub: "primary_consistent i ?rows1" unfolding primary_consistent_def primaries_at_def by auto
    show "primary_consistent i rows'" using sub promoted_consistent [of ?rows1 i] unfolding rows' Let_def by presburger
    show "(\<exists>a\<in>set rows'. pca_personId a = i) \<longrightarrow> (\<exists>a\<in>set rows'. pca_personId a = i \<and> pca_isPrimary a)"
    proof (cases "\<exists>a\<in>set ?rows1. pca_personId a = i \<and> pca_isPrimary a")
      case True
      then show ?thesis unfolding rows' Let_def by auto
    next
      case False
      from inv acc obtain b where "b \<in> set rows" "pca_personId b = i" "pca_isPrimary b" unfolding one_primary_def by blast
      then have prim: "pca_isPrimary access" using False same by auto
      have "\<exists>a\<in>set (promote Bypass i ?rows1). pca_personId a = i \<and> pca_isPrimary a" if k: "k \<in> set ?rows1" "pca_personId k = i" for k
        using promote_primary [OF k(1) _ k(2), of Bypass] by (auto simp: access_visible_def)
      moreover have "\<exists>k\<in>set ?rows1. pca_personId k = i" if "a \<in> set (promote Bypass i ?rows1)" "pca_personId a = i" for a
      proof -
        have "access_key ` set (promote Bypass i ?rows1) = access_key ` set ?rows1" unfolding set_map [symmetric] promote_keys ..
        with that(1) have "access_key a \<in> access_key ` set ?rows1" by blast
        then obtain k where "k \<in> set ?rows1" "access_key a = access_key k" by (elim imageE)
        then show ?thesis using that(2) by (intro bexI [of _ k]) (simp_all only: access_key_def prod.inject)
      qed
      moreover have "rows' = promote Bypass i ?rows1" unfolding rows' Let_def using False prim by presburger
      ultimately show ?thesis by blast
    qed
  qed
qed

definition access_table_ok :: "tenant_db \<Rightarrow> bool" where
  "access_table_ok db \<longleftrightarrow> db_wf db \<and> distinct (map pca_id (db_accesses db)) \<and> one_primary (db_accesses db)"

lemma find_userD: "find_user db i = Inr p \<Longrightarrow> p \<in> set (db_persons db) \<and> pe_id p = i"
  by (auto simp: find_user_def dest!: find_by_SomeD split: option.splits)

lemma user_addRoleE:
  assumes "user_addRole ops now newId i dto c db = (r, c', db')"
  obtains (error) e where "r = Inl e" "c' = c" "db' = db"
  | (success) person flag row where "r = Inr ()" "find_user db i = Inr person" "flag = primary_flag i dto (db_accesses db)"
    "row = \<lparr>pca_id = newId, pca_createdOn = now, pca_isPrimary = flag, pca_personId = pe_id person,
                         pca_clientId = ur_clientId dto, pca_siteId = ur_siteId dto, pca_roleId = ur_roleId dto\<rparr>"
    "access_key row \<in> access_key ` set (db_accesses db) \<or> newId \<notin> pca_id ` set (db_accesses db)"
    "ur_clientId dto \<in> cl_id ` set (db_clients db)" "\<exists>s\<in>set (db_sites db). st_id s = ur_siteId dto \<and> st_clientId s = ur_clientId dto"
    "ur_roleId dto \<in> ro_id ` set (db_roles db)"
    "db' = set_accesses db (upsert_access (\<lambda>a. a\<lparr>pca_isPrimary := flag\<rparr>) row (db_accesses db))"
    "c' = clear_member_cache ops person (ur_clientId dto) (Some (ur_siteId dto)) None c"
proof (cases r)
  case (Inl e)
  then show ?thesis using assms error by (auto simp: user_addRole_def split: sum.splits)
next
  case (Inr u)
  let ?flag = "primary_flag i dto (db_accesses db)"
  let ?row = "\<lambda>person. \<lparr>pca_id = newId, pca_createdOn = now, pca_isPrimary = ?flag, pca_personId = pe_id person,
                         pca_clientId = ur_clientId dto, pca_siteId = ur_siteId dto, pca_roleId = ur_roleId dto\<rparr>"
  from Inr assms obtain person where p: "find_user db i = Inr person"
    and ok: "list_ex (\<lambda>s. st_id s = ur_siteId dto \<and> st_clientId s = ur_clientId dto) (db_sites db)" "find_by ro_id (ur_roleId dto) (db_roles db) \<noteq> None"
      "ur_clientId dto \<in> cl_id ` set (db_clients db)" "\<not> (access_key (?row person) \<notin> access_key ` set (db_accesses db) \<and> newId \<in> pca_id ` set (db_accesses db))"
    and res: "db' = set_accesses db (upsert_access (\<lambda>a. a\<lparr>pca_isPrimary := ?flag\<rparr>) (?row person) (db_accesses db))"
      "c' = clear_member_cache ops person (ur_clientId dto) (Some (ur_siteId dto)) None c"
    unfolding user_addRole_def Let_def by (auto simp: bindr_Inr_iff split: sum.splits if_splits)
  have role: "ur_roleId dto \<in> ro_id ` set (db_roles db)" using ok(2) unfolding find_by_None_iff by blast
  show ?thesis
    by (rule success [OF _ p HOL.refl HOL.refl _ ok(3) _ role res]) (use Inr ok in \<open>auto simp: list_ex_iff\<close>)
qed

lemma upsert_ids:
  assumes "distinct (map pca_id rows)" and "access_key row \<in> access_key ` set rows \<or> pca_id row \<notin> pca_id ` set rows"
  shows "distinct (map pca_id (upsert_access (\<lambda>a. a\<lparr>pca_isPrimary := flag\<rparr>) row rows))"
proof -
  have eq: "map pca_id (map (\<lambda>a. if access_key a = access_key row then a\<lparr>pca_isPrimary := flag\<rparr> else a) rows) = map pca_id rows" by simp
  show ?thesis
  proof (cases "access_key row \<in> access_key ` set rows")
    case True
    then show ?thesis unfolding upsert_access_def by (simp only: if_True eq assms(1))
  next
    case False
    then show ?thesis using assms by (simp add: upsert_access_def)
  qed
qed

definition access_refs :: "tenant_db \<Rightarrow> access_row \<Rightarrow> bool" where
  "access_refs db a \<longleftrightarrow> pca_clientId a \<in> cl_id ` set (db_clients db) \<and> pca_siteId a \<in> st_id ` set (db_sites db) \<and> pca_roleId a \<in> ro_id ` set (db_roles db)"

lemma db_wf_set_accesses:
  assumes "db_wf db" and "distinct (map access_key rows)" and "\<And>a. a \<in> set rows \<Longrightarrow> access_refs db a"
  shows "db_wf (set_accesses db rows)"
  using assms by (auto simp: db_wf_def set_accesses_def list_all_iff access_refs_def)

lemma access_refs_key: "access_key a = access_key b \<Longrightarrow> access_refs db a = access_refs db b"
  by (simp add: access_key_def access_refs_def)

lemma refs_of_wf: "db_wf db \<Longrightarrow> a \<in> set (db_accesses db) \<Longrightarrow> access_refs db a"
  by (auto simp: db_wf_def list_all_iff access_refs_def)

lemma add_keeps_table:
  assumes "user_addRole ops now newId i dto c db = (r, c', db')" and ok: "access_table_ok db"
  shows "access_table_ok db'"
  using assms(1)
proof (cases rule: user_addRoleE)
  case (error e)
  then show ?thesis using ok by simp
next
  case (success person flag row)
  let ?rows = "upsert_access (\<lambda>a. a\<lparr>pca_isPrimary := flag\<rparr>) row (db_accesses db)"
  have p: "pe_id person = i" using find_userD success(2) by blast
  have new: "access_refs db row" using success(4,6,7,8) unfolding access_refs_def by force
  have "access_refs db a" if "a \<in> set ?rows" for a
  proof -
    from that consider "a \<in> set (db_accesses db)" | "a = row" | b where "b \<in> set (db_accesses db)" "a = b\<lparr>pca_isPrimary := flag\<rparr>"
      unfolding mem_upsert_access by (auto split: if_splits)
    then show ?thesis using refs_of_wf new access_refs_key [OF access_key_update] ok unfolding access_table_ok_def by cases blast+
  qed
  then have "db_wf db'" unfolding success(9)
    by (intro db_wf_set_accesses distinct_upsert_access) (use ok in \<open>auto simp: access_table_ok_def db_wf_def\<close>)
  moreover have "one_primary ?rows" by (rule add_one_primary [OF _ _ _ _ _ success(3)]) (use ok p in \<open>simp_all add: access_table_ok_def success(4)\<close>)
  moreover have "distinct (map pca_id ?rows)" by (rule upsert_ids) (use ok success(4,5) in \<open>simp_all add: access_table_ok_def\<close>)
  ultimately show ?thesis by (simp add: access_table_ok_def success(9))
qed

lemma promote_ids: "map pca_id (promote sess i rows) = map pca_id rows"
  by (rule promote_cases [of sess i rows]) simp_all

lemma remove_keeps_table:
  assumes "user_removeRole ops i dto c db = (r, c', db')" and ok: "access_table_ok db"
  shows "access_table_ok db'"
proof (cases r)
  case (Inl e)
  then show ?thesis using assms by (auto simp: user_removeRole_def split: sum.splits)
next
  case (Inr u)
  with assms(1) obtain rows where tx: "user_removeRole_tx i dto (db_accesses db) = Inr rows" and db': "db' = set_accesses db rows"
    by (auto simp: user_removeRole_def bindr_Inr_iff split: sum.splits)
  obtain access where "access \<in> set (db_accesses db)" "access_key access = (i, ur_clientId dto, ur_siteId dto, ur_roleId dto)" and r: "rows = (let rows1 = filter (\<lambda>a. pca_id a \<noteq> pca_id access) (db_accesses db) in
       if pca_isPrimary access \<and> \<not> (\<exists>a\<in>set rows1. pca_personId a = i \<and> pca_isPrimary a) then promote Bypass i rows1 else rows1)"
    by (rule user_removeRole_txE [OF tx])
  from r have "rows = filter (\<lambda>a. pca_id a \<noteq> pca_id access) (db_accesses db) \<or> rows = promote Bypass i (filter (\<lambda>a. pca_id a \<noteq> pca_id access) (db_accesses db))"
    unfolding Let_def by presburger
  then have keys: "map access_key rows = map access_key (filter (\<lambda>a. pca_id a \<noteq> pca_id access) (db_accesses db))"
    and ids: "map pca_id rows = map pca_id (filter (\<lambda>a. pca_id a \<noteq> pca_id access) (db_accesses db))"
    by (auto simp: promote_keys promote_ids)
  have "access_refs db a" if a: "a \<in> set rows" for a
  proof -
    have "access_key a \<in> set (map access_key rows)" using a by simp
    then obtain b where "b \<in> set (db_accesses db)" "access_key a = access_key b" unfolding keys by auto
    then show ?thesis using ok refs_of_wf access_refs_key unfolding access_table_ok_def by metis
  qed
  moreover have "distinct (map access_key rows)" "distinct (map pca_id rows)"
    unfolding keys ids using ok by (auto simp: access_table_ok_def db_wf_def intro: distinct_map_filter)
  moreover have "one_primary rows" using remove_one_primary [OF tx] ok by (simp add: access_table_ok_def)
  ultimately show ?thesis using db_wf_set_accesses ok by (simp add: access_table_ok_def db')
qed

lemma user_step_keeps_table: "user_step ops db db' \<Longrightarrow> access_table_ok db \<Longrightarrow> access_table_ok db'"
  by (induction rule: user_step.induct) (erule add_keeps_table remove_keeps_table, assumption)+

lemma add_step: "user_step ops db (snd (snd (user_addRole ops now newId i dto c db)))"
proof -
  obtain r c' db' where e: "user_addRole ops now newId i dto c db = (r, c', db')" by (rule prod_cases3)
  show ?thesis using user_step.add_role [OF e] by (simp add: e)
qed

lemma remove_step: "user_step ops db (snd (snd (user_removeRole ops i dto c db)))"
proof -
  obtain r c' db' where e: "user_removeRole ops i dto c db = (r, c', db')" by (rule prod_cases3)
  show ?thesis using user_step.remove_role [OF e] by (simp add: e)
qed

text \<open>
  The table of access records stays well formed under the administration of roles: after any sequence of
  added and removed roles, whether the calls succeed or fail, keys and identifiers are unique, every
  record refers to an existing client, site and role, every person with access has a primary record, and
  the primary records of a person are all at one site of one client.
\<close>

theorem user_roles_keep_tables:
  assumes "(user_step ops)\<^sup>*\<^sup>* db db'" and "db_wf db" and "distinct (map pca_id (db_accesses db))" and "one_primary (db_accesses db)"
  shows "db_wf db' \<and> distinct (map pca_id (db_accesses db')) \<and> one_primary (db_accesses db')"
proof -
  from assms(1) have "access_table_ok db \<Longrightarrow> access_table_ok db'" by (induction rule: rtranclp_induct) (blast intro: user_step_keeps_table)+
  then show ?thesis using assms(2-4) unfolding access_table_ok_def by blast
qed

theorem user_roles_keep_tables_witness:
  "let db1 = snd (snd (user_addRole mem_ops 5 ''n1'' ''p1'' \<lparr>ur_clientId = ''c1'', ur_siteId = ''s2'', ur_roleId = ''r1''\<rparr> Map.empty (ex_db [])));
       db2 = snd (snd (user_addRole mem_ops 6 ''n2'' ''p1'' \<lparr>ur_clientId = ''c1'', ur_siteId = ''s1'', ur_roleId = ''r1''\<rparr> Map.empty db1));
       db3 = snd (snd (user_removeRole mem_ops ''p1'' \<lparr>ur_clientId = ''c1'', ur_siteId = ''s2'', ur_roleId = ''r1''\<rparr> Map.empty db2))
   in db_wf db3 \<and> one_primary (db_accesses db3) \<and> map pca_isPrimary (db_accesses db2) = [True, False] \<and> map pca_isPrimary (db_accesses db3) = [True]"
proof -
  let ?d1 = "\<lparr>ur_clientId = ''c1'', ur_siteId = ''s2'', ur_roleId = ''r1''\<rparr>" and ?d2 = "\<lparr>ur_clientId = ''c1'', ur_siteId = ''s1'', ur_roleId = ''r1''\<rparr>"
  define db1 where "db1 = snd (snd (user_addRole mem_ops 5 ''n1'' ''p1'' ?d1 Map.empty (ex_db [])))"
  define db2 where "db2 = snd (snd (user_addRole mem_ops 6 ''n2'' ''p1'' ?d2 Map.empty db1))"
  define db3 where "db3 = snd (snd (user_removeRole mem_ops ''p1'' ?d1 Map.empty db2))"
  have "user_step mem_ops (ex_db []) db1" unfolding db1_def by (rule add_step)
  moreover have "user_step mem_ops db1 db2" unfolding db2_def by (rule add_step)
  moreover have "user_step mem_ops db2 db3" unfolding db3_def by (rule remove_step)
  ultimately have run: "(user_step mem_ops)\<^sup>*\<^sup>* (ex_db []) db3" by (meson converse_rtranclp_into_rtranclp rtranclp.rtrancl_refl)
  have wf: "db_wf (ex_db [])" "distinct (map pca_id (db_accesses (ex_db [])))" "one_primary (db_accesses (ex_db []))"
    by (auto simp: db_wf_def ex_db_def ex_site_def ex_role_def ex_person_def one_primary_def primary_consistent_def primaries_at_def)
  have r1: "db_accesses db1 = [\<lparr>pca_id = ''n1'', pca_createdOn = 5, pca_isPrimary = True, pca_personId = ''p1'', pca_clientId = ''c1'', pca_siteId = ''s2'', pca_roleId = ''r1''\<rparr>]"
    and s1: "db1 = set_accesses (ex_db []) (db_accesses db1)"
    by (simp_all add: db1_def user_addRole_def find_user_def ex_db_def ex_site_def ex_role_def ex_person_def find_by_def primary_flag_def upsert_access_def set_accesses_def)
  have r2: "db_accesses db2 = db_accesses db1 @ [\<lparr>pca_id = ''n2'', pca_createdOn = 6, pca_isPrimary = False, pca_personId = ''p1'', pca_clientId = ''c1'', pca_siteId = ''s1'', pca_roleId = ''r1''\<rparr>]"
    and s2: "db2 = set_accesses (ex_db []) (db_accesses db2)"
    unfolding db2_def by (subst s1, simp add: user_addRole_def find_user_def ex_db_def ex_site_def ex_role_def ex_person_def find_by_def primary_flag_def upsert_access_def set_accesses_def r1 access_key_def)+
  have "map pca_isPrimary (db_accesses db3) = [True]"
    unfolding db3_def by (subst s2, simp add: user_removeRole_def find_user_def ex_db_def ex_person_def find_by_def user_removeRole_tx_def promote_def order_asc_def set_accesses_def r1 r2 access_visible_def)
  then show ?thesis using user_roles_keep_tables [OF run wf] r1 r2
    unfolding Let_def db1_def [symmetric] db2_def [symmetric] db3_def [symmetric] by simp
qed

subsection \<open>Updating a profile\<close>

lemma mergeAttributes_get:
  "map_of (mergeAttributes [] [(''phone_number'', x), (''user_updated_at'', y)]) ''phone_number'' = x"
  by (cases x; cases y) (simp_all add: mergeAttributes_def update_conv')

text \<open>
  C32: an update of a user is all or nothing and keeps both sides together: when it fails no row has changed,
  and the failure is that there is no such person, a conflict in the identity provider, or another error
  of it (which one is not said); when it succeeds only the row of that person has changed, by the fields the request names, each
  replaced by the value of the request (\<open>patch_person\<close>), and
  an identity provider account has been given the names, the address and the state of the new row, and
  its telephone number, unless the request clears the number.
\<close>

theorem user_update_correct:
  assumes "user_update kcUpdate now i dto k db = (r, k', db')" and "distinct (map pe_id (db_persons db))"
  shows "case r of
       Inl e \<Rightarrow> db' = db \<and> (e = NotFoundException ''Not Found'' \<and> i \<notin> pe_id ` set (db_persons db)
          \<or> (\<exists>p\<in>set (db_persons db). pe_id p = i \<and> fst (kcUpdate (the (pe_idpId p)) (idp_profile now dto p) k) \<noteq> KcDone))
     | Inr (p', as) \<Rightarrow> (\<exists>p\<in>set (db_persons db). pe_id p = i \<and> p' = patch_person dto p \<and> as = user_accesses db i
          \<and> db' = db\<lparr>db_persons := map (\<lambda>x. if x = p then p' else x) (db_persons db)\<rparr>
          \<and> (truthy (pe_idpId p) \<longrightarrow> (\<exists>profile. kcUpdate (the (pe_idpId p)) profile k = (KcDone, k')
                \<and> iu_enabled profile = pe_active p' \<and> iu_firstName profile = pe_firstName p' \<and> iu_lastName profile = pe_lastName p'
                \<and> iu_email profile = pe_email p'
                \<and> (uu_phoneNumber dto \<noteq> Some None \<longrightarrow> map_of (iu_attributes profile) ''phone_number'' = map_option (\<lambda>n. [n]) (pe_phoneNumber p')))))"
proof (cases "find_user db i")
  case (Inl e)
  then have "e = NotFoundException ''Not Found'' \<and> i \<notin> pe_id ` set (db_persons db)"
    unfolding find_user_def by (auto simp: find_by_None_iff split: option.splits)
  then show ?thesis using assms(1) Inl by (auto simp: user_update_def)
next
  case (Inr p)
  note p = find_userD [OF Inr]
  have same: "x = p" if "x \<in> set (db_persons db)" "pe_id x = i" for x using assms(2) p that by (auto simp: distinct_map dest: inj_onD)
  have rows: "map (\<lambda>x. if pe_id x = i then patch_person dto x else x) (db_persons db) = map (\<lambda>x. if x = p then patch_person dto p else x) (db_persons db)"
    using same p by (intro map_cong HOL.refl) metis
  have acc: "user_accesses (db\<lparr>db_persons := ps\<rparr>) i = user_accesses db i" for ps by (simp add: user_accesses_def)
  have phone: "map_of (iu_attributes (idp_profile now dto p)) ''phone_number'' = map_option (\<lambda>n. [n]) (pe_phoneNumber (patch_person dto p))"
    if "uu_phoneNumber dto \<noteq> Some None"
    using that by (cases "uu_phoneNumber dto") (auto simp: idp_profile_def mergeAttributes_get patch_person_def)
  let ?kc = "kcUpdate (the (pe_idpId p)) (idp_profile now dto p) k"
  show ?thesis
  proof (cases "truthy (pe_idpId p) \<and> fst ?kc \<noteq> KcDone")
    case True
    then have "(\<exists>e. r = Inl e) \<and> db' = db" using assms(1) Inr
      by (cases ?kc) (auto simp: user_update_def Let_def split: kc_outcome.splits)
    then show ?thesis using True p by auto
  next
    case False
    then have "r = Inr (patch_person dto p, user_accesses db i)
        \<and> db' = db\<lparr>db_persons := map (\<lambda>x. if x = p then patch_person dto p else x) (db_persons db)\<rparr>
        \<and> (truthy (pe_idpId p) \<longrightarrow> ?kc = (KcDone, k'))"
    proof (cases "truthy (pe_idpId p)")
      case True
      then obtain k1 where "?kc = (KcDone, k1)" using False by (cases ?kc) auto
      then show ?thesis using assms(1) Inr True by (simp add: user_update_def Let_def rows acc)
    next
      case False
      then show ?thesis using assms(1) Inr by (simp add: user_update_def Let_def rows acc)
    qed
    then show ?thesis using p phone
      by (auto intro!: bexI [of _ p] exI [of _ "idp_profile now dto p"] simp: idp_profile_def patch_person_def)
  qed
qed

theorem user_update_correct_witness:
  "\<exists>k' db'. user_update (\<lambda>i u (k :: nat). (KcDone, k + 1)) ''now'' ''p1'' \<lparr>uu_active = Some False, uu_firstName = None, uu_lastName = None, uu_email = None, uu_phoneNumber = None\<rparr> 0 (ex_db [])
        = (Inr ((ex_person ''p1'' ''Ann@X.io'')\<lparr>pe_active := False\<rparr>, []), k', db')
     \<and> db_accesses db' = []"
proof -
  let ?dto = "\<lparr>uu_active = Some False, uu_firstName = None, uu_lastName = None, uu_email = None, uu_phoneNumber = None\<rparr>"
  let ?p = "(ex_person ''p1'' ''Ann@X.io'')\<lparr>pe_active := False\<rparr>"
  obtain k' db' where u: "user_update (\<lambda>i u (k :: nat). (KcDone, k + 1)) ''now'' ''p1'' ?dto 0 (ex_db []) = (Inr (?p, []), k', db')"
    by (simp add: user_update_def find_user_def ex_db_def ex_person_def find_by_def user_accesses_def patch_person_def)
  have "distinct (map pe_id (db_persons (ex_db [])))" by (simp add: ex_db_def ex_person_def)
  from user_update_correct [OF u this] have "db_accesses db' = []" by (auto simp: ex_db_def)
  then show ?thesis using u by blast
qed

text \<open>
  Clearing a telephone number does not reach the identity provider: the row has no number afterwards, and
  the account is given the old one.
\<close>

theorem cleared_phone_stays_in_idp:
  assumes "uu_phoneNumber dto = Some None" and "pe_phoneNumber p = Some n"
  shows "pe_phoneNumber (patch_person dto p) = None \<and> map_of (iu_attributes (idp_profile now dto p)) ''phone_number'' = Some [n]"
  using assms by (simp add: patch_person_def idp_profile_def mergeAttributes_get)

text \<open>
  After the address of a user whose user name is the address has been changed, the next update without an
  address sends the old address as the user name, unless the stored user name has been changed by then.
\<close>

theorem username_falls_back:
  assumes "pe_username p = Some (pe_email p)" and "uu_email dto = Some e" and "e \<noteq> pe_email p"
  shows "iu_username (idp_profile now dto p) = e \<and> iu_username (idp_profile now' dto' (patch_person dto p)) = pe_email p"
  using assms by (simp add: idp_profile_def patch_person_def)

end
