(* ===== verification/Product_Requests.thy ===== *)
theory Product_Requests
  imports Asset_Answers Invitations
begin

section \<open>Product requests\<close>

text \<open>
  \<^verbatim>\<open>src/src/assets/product-requests/product-requests.service.ts\<close> with the policies of
  \<^verbatim>\<open>20241227232301_rls_policies\<close>. An update reaches the rows that the select and the update policy
  show, and fails as a whole when a new row does not meet the check of the update policy. The columns of
  the requestor, the site and the client default to the settings of the session, which a bypassing session
  does not have. An update that carries only nested rows looks its parent up and inserts the rows. The
  queue of the mail that announces a request is a list of identifiers.
\<close>

datatype request_status =
  REQUEST_NEW | REQUEST_APPROVED | REQUEST_RECEIVED | REQUEST_PROCESSING | REQUEST_FULFILLED | REQUEST_CANCELLED | REQUEST_COMPLETE

record request_row =
  rq_id :: id
  rq_createdOn :: time
  rq_status :: request_status
  rq_requestorId :: id
  rq_assetId :: "id option"
  rq_siteId :: id
  rq_clientId :: id

record request_item_row =
  ri_id :: id
  ri_requestId :: id
  ri_productId :: id
  ri_quantity :: int
  ri_addedById :: id
  ri_siteId :: id
  ri_clientId :: id

record approval_row =
  rv_id :: id
  rv_approved :: bool
  rv_approverId :: id
  rv_requestId :: id
  rv_siteId :: id
  rv_clientId :: id

record request_db =
  rd_requests :: "request_row list"
  rd_items :: "request_item_row list"
  rd_approvals :: "approval_row list"
  rd_assets :: "asset_row list"
  rd_products :: "id list"
  rd_queue :: "id list"

subsection \<open>Policies\<close>

definition request_visible :: "rls_session \<Rightarrow> request_row \<Rightarrow> bool" where
  "request_visible s r =
     (case s of Bypass \<Rightarrow> True
      | Tenant ctx \<Rightarrow> validate_client ctx (rq_clientId r) \<and> validate_site ctx (rq_siteId r) \<and> (\<not> restrict_self ctx \<or> is_owner ctx (rq_requestorId r)))"

definition request_updatable :: "rls_session \<Rightarrow> request_row \<Rightarrow> bool" where
  "request_updatable s r =
     (case s of Bypass \<Rightarrow> True
      | Tenant ctx \<Rightarrow> validate_client ctx (rq_clientId r) \<and> validate_site ctx (rq_siteId r) \<and> is_owner ctx (rq_requestorId r)
          \<and> (\<not> is_owner ctx (rq_requestorId r) \<or> rq_status r = REQUEST_NEW))"

definition request_update_check :: "rls_session \<Rightarrow> request_row \<Rightarrow> bool" where
  "request_update_check s r =
     (case s of Bypass \<Rightarrow> True
      | Tenant ctx \<Rightarrow> validate_client ctx (rq_clientId r) \<and> validate_site ctx (rq_siteId r)
          \<and> (\<not> is_owner ctx (rq_requestorId r) \<or> rq_status r = REQUEST_CANCELLED))"

definition request_deletable :: "rls_session \<Rightarrow> request_row \<Rightarrow> bool" where
  "request_deletable s r = (case s of Bypass \<Rightarrow> True | Tenant ctx \<Rightarrow> False)"

definition item_visible :: "rls_session \<Rightarrow> request_item_row \<Rightarrow> bool" where
  "item_visible s r =
     (case s of Bypass \<Rightarrow> True
      | Tenant ctx \<Rightarrow> validate_client ctx (ri_clientId r) \<and> validate_site ctx (ri_siteId r) \<and> (\<not> restrict_self ctx \<or> is_owner ctx (ri_addedById r)))"

definition approval_visible :: "rls_session \<Rightarrow> request_db \<Rightarrow> approval_row \<Rightarrow> bool" where
  "approval_visible s db r =
     (case s of Bypass \<Rightarrow> True
      | Tenant ctx \<Rightarrow> validate_client ctx (rv_clientId r) \<and> validate_site ctx (rv_siteId r)
          \<and> (\<not> restrict_self ctx \<or> list_ex (\<lambda>q. request_visible s q \<and> rq_id q = rv_requestId r \<and> is_owner ctx (rq_requestorId q)) (rd_requests db)))"

interpretation request_table: tenant_table request_visible rq_clientId
  by unfold_locales (auto simp: request_visible_def validate_client_def)

interpretation item_table: tenant_table item_visible ri_clientId
  by unfold_locales (auto simp: item_visible_def validate_client_def)

subsection \<open>Operations\<close>

record request_dto =
  rt_items :: "(id \<times> int) list" \<comment> \<open>product and quantity\<close>
  rt_asset :: "id option"

definition CreateProductRequestSchema :: "request_dto \<Rightarrow> bool" where
  "CreateProductRequestSchema dto = list_all (\<lambda>(p, quantity). 1 \<le> quantity) (rt_items dto)"

definition create_items :: "rls_session \<Rightarrow> (nat \<Rightarrow> id) \<Rightarrow> id \<Rightarrow> (id \<times> int) list \<Rightarrow> request_db \<Rightarrow> request_db result" where
  "create_items sess newId requestId items db =
     (case sess of
        Bypass \<Rightarrow> if items = [] then Inr db else Inl no_setting
      | Tenant ctx \<Rightarrow>
          (let rows = map (\<lambda>(n, p, quantity). \<lparr>ri_id = newId n, ri_requestId = requestId, ri_productId = p, ri_quantity = quantity,
                 ri_addedById = rls_personId ctx, ri_siteId = rls_siteId ctx, ri_clientId = rls_clientId ctx\<rparr>) (enumerate 0 items)
           in if list_ex (\<lambda>(p, q). p \<notin> set (rd_products db)) items then Inl (ServerError ''P2003'')
              else Inr (db\<lparr>rd_items := rd_items db @ rows\<rparr>)))"

definition request_create :: "rls_session \<Rightarrow> time \<Rightarrow> id \<Rightarrow> (nat \<Rightarrow> id) \<Rightarrow> request_dto \<Rightarrow> request_db \<Rightarrow> (request_row \<times> request_db) result" where
  "request_create sess now newId newItemId dto db =
     (case sess of
        Bypass \<Rightarrow> Inl no_setting
      | Tenant ctx \<Rightarrow>
          (let row = \<lparr>rq_id = newId, rq_createdOn = now, rq_status = REQUEST_NEW, rq_requestorId = rls_personId ctx, rq_assetId = rt_asset dto,
                 rq_siteId = rls_siteId ctx, rq_clientId = rls_clientId ctx\<rparr>
           in if (case rt_asset dto of None \<Rightarrow> False | Some a \<Rightarrow> \<not> list_ex (\<lambda>x. asset_visible sess x \<and> as_id x = a) (rd_assets db)) then Inl (ServerError ''P2025'')
              else if newId \<in> rq_id ` set (rd_requests db) then Inl (ConflictException ''P2002'')
              else bindr (create_items sess newItemId newId (rt_items dto) (db\<lparr>rd_requests := rd_requests db @ [row]\<rparr>)) (\<lambda>db1.
                Inr (row, db1\<lparr>rd_queue := rd_queue db1 @ [newId]\<rparr>))))"

definition find_request :: "rls_session \<Rightarrow> id \<Rightarrow> request_db \<Rightarrow> request_row option" where
  "find_request sess i db = find_by rq_id i (filter (request_visible sess) (rd_requests db))"

definition request_findOne :: "rls_session \<Rightarrow> id \<Rightarrow> request_db \<Rightarrow> (request_row \<times> request_item_row list \<times> approval_row list) option" where
  "request_findOne sess i db =
     map_option (\<lambda>r. (r, filter (\<lambda>x. item_visible sess x \<and> ri_requestId x = i) (rd_items db),
        filter (\<lambda>x. approval_visible sess db x \<and> rv_requestId x = i) (rd_approvals db))) (find_request sess i db)"

definition request_update :: "rls_session \<Rightarrow> (nat \<Rightarrow> id) \<Rightarrow> id \<Rightarrow> (id \<times> int) list \<Rightarrow> request_db \<Rightarrow> request_db result" where
  "request_update sess newItemId i items db =
     (if find_request sess i db = None then Inl (ServerError ''P2025'') else create_items sess newItemId i items db)"

definition request_remove :: "rls_session \<Rightarrow> id \<Rightarrow> request_db \<Rightarrow> request_db result" where
  "request_remove sess i db =
     (if \<not> list_ex (\<lambda>r. request_visible sess r \<and> request_deletable sess r \<and> rq_id r = i) (rd_requests db) then Inl (ServerError ''P2025'')
      else Inr (db\<lparr>rd_requests := filter (\<lambda>r. rq_id r \<noteq> i) (rd_requests db), rd_items := filter (\<lambda>r. ri_requestId r \<noteq> i) (rd_items db),
             rd_approvals := filter (\<lambda>r. rv_requestId r \<noteq> i) (rd_approvals db)\<rparr>))"

definition set_statuses :: "rls_session \<Rightarrow> (request_row \<Rightarrow> bool) \<Rightarrow> request_status \<Rightarrow> request_db \<Rightarrow> (nat \<times> request_db) result" where
  \<comment> \<open>the statement \<open>UPDATE ... SET status WHERE ...\<close> under the policies\<close>
  "set_statuses sess P new db =
     (let hit = (\<lambda>r. request_visible sess r \<and> request_updatable sess r \<and> P r);
          rows = filter hit (rd_requests db)
      in if list_ex (\<lambda>r. \<not> request_update_check sess (r\<lparr>rq_status := new\<rparr>)) rows then Inl rls_violation
         else Inr (length rows, db\<lparr>rd_requests := map (\<lambda>r. if hit r then r\<lparr>rq_status := new\<rparr> else r) (rd_requests db)\<rparr>))"

definition updateStatuses :: "rls_session \<Rightarrow> id list \<Rightarrow> request_status \<Rightarrow> request_db \<Rightarrow> (nat \<times> request_db) result" where
  "updateStatuses sess ids new db =
     set_statuses sess (\<lambda>r. rq_id r \<in> set ids \<and> rq_status r \<notin> {REQUEST_CANCELLED, REQUEST_COMPLETE}) new db"

definition request_cancel :: "rls_session \<Rightarrow> id \<Rightarrow> request_db \<Rightarrow> request_db result" where
  "request_cancel sess i db =
     bindr (set_statuses sess (\<lambda>r. rq_id r = i \<and> rq_status r \<in> {REQUEST_NEW, REQUEST_APPROVED, REQUEST_RECEIVED}) REQUEST_CANCELLED db) (\<lambda>(n, db').
       if n = 0 then Inl (ServerError ''P2025'') else Inr db')"

definition request_review :: "rls_session \<Rightarrow> id \<Rightarrow> id \<Rightarrow> bool \<Rightarrow> request_db \<Rightarrow> request_db result" where
  "request_review sess newId i approved db =
     (if find_request sess i db = None then Inl (ServerError ''P2025'')
      else case sess of
          Bypass \<Rightarrow> Inl no_setting
        | Tenant ctx \<Rightarrow>
            (let row = \<lparr>rv_id = newId, rv_approved = approved, rv_approverId = rls_personId ctx, rv_requestId = i,
                   rv_siteId = rls_siteId ctx, rv_clientId = rls_clientId ctx\<rparr>
             in if newId \<in> rv_id ` set (rd_approvals db) then Inl (ConflictException ''P2002'')
                else if \<not> approval_visible sess db row then Inl rls_violation
                else Inr (db\<lparr>rd_approvals := rd_approvals db @ [row]\<rparr>)))"

inductive request_step :: "rls_session \<Rightarrow> request_db \<Rightarrow> request_db \<Rightarrow> bool" for sess where
  create: "request_create sess now newId newItemId dto db = Inr (r, db') \<Longrightarrow> request_step sess db db'"
| update: "request_update sess newItemId i items db = Inr db' \<Longrightarrow> request_step sess db db'"
| remove: "request_remove sess i db = Inr db' \<Longrightarrow> request_step sess db db'"
| statuses: "updateStatuses sess ids new db = Inr (n, db') \<Longrightarrow> request_step sess db db'"
| cancel: "request_cancel sess i db = Inr db' \<Longrightarrow> request_step sess db db'"
| review: "request_review sess newId i approved db = Inr db' \<Longrightarrow> request_step sess db db'"

subsection \<open>How a request moves\<close>

lemma create_items_requests: "create_items sess newId i items db = Inr db' \<Longrightarrow> rd_requests db' = rd_requests db"
  by (auto simp: create_items_def Let_def split: rls_session.splits if_splits)

lemma set_statuses_Inr:
  assumes "set_statuses sess P new db = Inr (n, db')"
  shows "db' = db\<lparr>rd_requests := map (\<lambda>r. if request_visible sess r \<and> request_updatable sess r \<and> P r then r\<lparr>rq_status := new\<rparr> else r) (rd_requests db)\<rparr>"
    and "r \<in> set (rd_requests db) \<Longrightarrow> request_visible sess r \<and> request_updatable sess r \<and> P r \<Longrightarrow> request_update_check sess (r\<lparr>rq_status := new\<rparr>)"
    and "n = length (filter (\<lambda>r. request_visible sess r \<and> request_updatable sess r \<and> P r) (rd_requests db))"
  using assms by (auto simp: set_statuses_def Let_def list_ex_iff split: if_splits)

definition request_moves :: "rls_session \<Rightarrow> request_status \<Rightarrow> request_status \<Rightarrow> bool" where
  "request_moves sess a b \<longleftrightarrow> a = b \<or> (if sess = Bypass then a \<notin> {REQUEST_CANCELLED, REQUEST_COMPLETE} else a = REQUEST_NEW \<and> b = REQUEST_CANCELLED)"

definition request_kept :: "rls_session \<Rightarrow> request_row \<Rightarrow> request_row \<Rightarrow> bool" where
  "request_kept sess r r' \<longleftrightarrow> r' = r\<lparr>rq_status := rq_status r'\<rparr> \<and> request_moves sess (rq_status r) (rq_status r')
     \<and> (\<forall>ctx. sess = Tenant ctx \<and> r' \<noteq> r \<longrightarrow> rq_requestorId r = rls_personId ctx \<and> rq_clientId r = rls_clientId ctx)"

lemma request_kept_refl [simp]: "request_kept sess r r"
  by (simp add: request_kept_def request_moves_def)

lemma set_statuses_kept:
  assumes "set_statuses sess P new db = Inr (n, db')" and "r \<in> set (rd_requests db)" and P: "\<And>r. P r \<Longrightarrow> rq_status r \<notin> {REQUEST_CANCELLED, REQUEST_COMPLETE}"
  shows "\<exists>r'\<in>set (rd_requests db'). request_kept sess r r'"
proof (cases "request_visible sess r \<and> request_updatable sess r \<and> P r")
  case False
  then have "r \<in> set (rd_requests db')" using assms(2) unfolding set_statuses_Inr(1) [OF assms(1)] by force
  then show ?thesis by (intro bexI [of _ r]) simp_all
next
  case True
  let ?r = "r\<lparr>rq_status := new\<rparr>"
  have mem: "?r \<in> set (rd_requests db')" using True assms(2) unfolding set_statuses_Inr(1) [OF assms(1)] by force
  have "request_kept sess r ?r"
  proof (cases sess)
    case Bypass
    then show ?thesis using P [of r] True by (simp add: request_kept_def request_moves_def)
  next
    case (Tenant ctx)
    then have "request_update_check (Tenant ctx) ?r" "request_updatable (Tenant ctx) r" using set_statuses_Inr(2) [OF assms(1,2) True] True by simp_all
    then have "rq_status r = REQUEST_NEW \<and> new = REQUEST_CANCELLED \<and> rq_requestorId r = rls_personId ctx \<and> rq_clientId r = rls_clientId ctx"
      by (simp add: request_update_check_def request_updatable_def is_owner_def validate_client_def)
    then show ?thesis using Tenant by (simp add: request_kept_def request_moves_def)
  qed
  with mem show ?thesis by blast
qed

lemma request_step_kept:
  assumes "request_step sess db db'" and "r \<in> set (rd_requests db)"
  shows "(\<exists>r'\<in>set (rd_requests db'). request_kept sess r r') \<or> sess = Bypass \<and> rq_id r \<notin> rq_id ` set (rd_requests db')"
  using assms(1)
proof cases
  case (create now newId newItemId dto r1)
  then have "r \<in> set (rd_requests db')" using assms(2)
    by (auto simp: request_create_def Let_def bindr_Inr_iff create_items_requests split: rls_session.splits if_splits)
  then show ?thesis by (intro disjI1 bexI [of _ r]) simp_all
next
  case (update newItemId i items)
  then have "r \<in> set (rd_requests db')" using assms(2) by (auto simp: request_update_def create_items_requests split: if_splits)
  then show ?thesis by (intro disjI1 bexI [of _ r]) simp_all
next
  case (remove i)
  then have "sess = Bypass" by (cases sess) (auto simp: request_remove_def request_deletable_def list_ex_iff split: if_splits)
  show ?thesis
  proof (cases "rq_id r = i")
    case True
    then show ?thesis using remove \<open>sess = Bypass\<close> by (auto simp: request_remove_def split: if_splits)
  next
    case False
    then have "r \<in> set (rd_requests db')" using remove assms(2) by (auto simp: request_remove_def split: if_splits)
    then show ?thesis by (intro disjI1 bexI [of _ r]) simp_all
  qed
next
  case (statuses ids new n)
  then show ?thesis using set_statuses_kept [of sess _ new db n db' r] assms(2) unfolding updateStatuses_def by blast
next
  case (cancel i)
  then obtain n where n: "set_statuses sess (\<lambda>r. rq_id r = i \<and> rq_status r \<in> {REQUEST_NEW, REQUEST_APPROVED, REQUEST_RECEIVED}) REQUEST_CANCELLED db = Inr (n, db')"
    by (auto simp: request_cancel_def bindr_Inr_iff split: if_splits)
  have "\<exists>r'\<in>set (rd_requests db'). request_kept sess r r'" by (rule set_statuses_kept [OF n assms(2)]) auto
  then show ?thesis ..
next
  case (review newId i approved)
  then have "r \<in> set (rd_requests db')" using assms(2) by (auto simp: request_review_def Let_def split: rls_session.splits if_splits)
  then show ?thesis by (intro disjI1 bexI [of _ r]) simp_all
qed

definition own_new_request :: "rls_context \<Rightarrow> request_row \<Rightarrow> bool" where
  "own_new_request ctx r \<longleftrightarrow> rq_requestorId r = rls_personId ctx \<and> rq_clientId r = rls_clientId ctx \<and> validate_site ctx (rq_siteId r) \<and> rq_status r = REQUEST_NEW"

lemma tenant_hit: "request_visible (Tenant ctx) r \<and> request_updatable (Tenant ctx) r \<longleftrightarrow> own_new_request ctx r"
  by (auto simp: request_visible_def request_updatable_def own_new_request_def is_owner_def validate_client_def)

lemma tenant_check: "own_new_request ctx r \<Longrightarrow> request_update_check (Tenant ctx) (r\<lparr>rq_status := new\<rparr>) \<longleftrightarrow> new = REQUEST_CANCELLED"
  by (auto simp: request_update_check_def own_new_request_def is_owner_def validate_client_def)

lemma final_status_stays:
  assumes "request_step sess db db'" and "r \<in> set (rd_requests db)" and "rq_status r \<in> {REQUEST_CANCELLED, REQUEST_COMPLETE}"
  shows "r \<in> set (rd_requests db') \<or> sess = Bypass \<and> rq_id r \<notin> rq_id ` set (rd_requests db')"
proof (cases "\<exists>r'\<in>set (rd_requests db'). request_kept sess r r'")
  case True
  then obtain r' where r': "r' \<in> set (rd_requests db')" "request_kept sess r r'" by blast
  then have "rq_status r' = rq_status r" using assms(3) by (auto simp: request_kept_def request_moves_def split: if_splits)
  then have "r' = r" using r'(2) unfolding request_kept_def by simp
  then show ?thesis using r'(1) by simp
qed (use request_step_kept [OF assms(1,2)] in simp)

lemma system_sets_status:
  assumes "r \<in> set (rd_requests db)" and "rq_status r \<notin> {REQUEST_CANCELLED, REQUEST_COMPLETE}"
  shows "\<exists>db'. request_step Bypass db db' \<and> r\<lparr>rq_status := new\<rparr> \<in> set (rd_requests db')"
proof -
  obtain n db' where run: "updateStatuses Bypass [rq_id r] new db = Inr (n, db')"
    and "rd_requests db' = map (\<lambda>x. if rq_id x = rq_id r \<and> rq_status x \<notin> {REQUEST_CANCELLED, REQUEST_COMPLETE} then x\<lparr>rq_status := new\<rparr> else x) (rd_requests db)"
    by (auto simp: updateStatuses_def set_statuses_def request_visible_def request_updatable_def request_update_check_def Let_def list_ex_iff)
  then have "r\<lparr>rq_status := new\<rparr> \<in> set (rd_requests db')" using assms by force
  then show ?thesis using request_step.statuses [OF run] by blast
qed


definition ex_request :: "id \<Rightarrow> id \<Rightarrow> request_status \<Rightarrow> request_row" where
  "ex_request i p stat = \<lparr>rq_id = i, rq_createdOn = 1, rq_status = stat, rq_requestorId = p, rq_assetId = None, rq_siteId = ''s1'', rq_clientId = ''c1''\<rparr>"

definition ex_requests :: request_db where
  "ex_requests = \<lparr>rd_requests = [ex_request ''q1'' ''p1'' REQUEST_NEW, ex_request ''q2'' ''p2'' REQUEST_NEW, ex_request ''q3'' ''p1'' REQUEST_APPROVED],
     rd_items = [], rd_approvals = [], rd_assets = [], rd_products = [''x''], rd_queue = []\<rparr>"

lemmas ex_request_simps = ex_requests_def ex_request_def ex_ctx_def request_cancel_def updateStatuses_def set_statuses_def request_visible_def
  request_updatable_def request_update_check_def validate_client_def validate_site_def restrict_self_def is_owner_def Let_def


text \<open>
  The operations on statuses do less in a tenant session than the service asks for. A change of statuses to
  anything but cancelled changes nothing: it reports zero rows, or fails when one of the named requests is
  the caller's own new one. And a request can be cancelled exactly when it is the caller's own and new,
  although the service would cancel an approved or received one too.
\<close>

theorem tenant_can_only_cancel:
  "(new \<noteq> REQUEST_CANCELLED \<longrightarrow> updateStatuses (Tenant ctx) ids new db =
      (if \<exists>r\<in>set (rd_requests db). rq_id r \<in> set ids \<and> own_new_request ctx r then Inl rls_violation else Inr (0, db)))
   \<and> (is_ok (request_cancel (Tenant ctx) i db) \<longleftrightarrow> (\<exists>r\<in>set (rd_requests db). rq_id r = i \<and> own_new_request ctx r))"
proof (intro conjI impI)
  assume new: "new \<noteq> REQUEST_CANCELLED"
  have hit: "request_visible (Tenant ctx) r \<and> request_updatable (Tenant ctx) r \<and> rq_id r \<in> set ids \<and> rq_status r \<notin> {REQUEST_CANCELLED, REQUEST_COMPLETE}
      \<longleftrightarrow> rq_id r \<in> set ids \<and> own_new_request ctx r" for r
    using tenant_hit [of ctx r] by (auto simp: own_new_request_def)
  have "map (\<lambda>r. if rq_id r \<in> set ids \<and> own_new_request ctx r then r\<lparr>rq_status := new\<rparr> else r) (rd_requests db) = rd_requests db"
    if "\<not> (\<exists>r\<in>set (rd_requests db). rq_id r \<in> set ids \<and> own_new_request ctx r)"
    using that by (intro map_idI) auto
  moreover have "filter (\<lambda>r. rq_id r \<in> set ids \<and> own_new_request ctx r) (rd_requests db) = []"
    if "\<not> (\<exists>r\<in>set (rd_requests db). rq_id r \<in> set ids \<and> own_new_request ctx r)"
    using that by (auto simp: filter_empty_conv)
  ultimately show "updateStatuses (Tenant ctx) ids new db =
      (if \<exists>r\<in>set (rd_requests db). rq_id r \<in> set ids \<and> own_new_request ctx r then Inl rls_violation else Inr (0, db))"
    using new tenant_check unfolding updateStatuses_def set_statuses_def Let_def hit by (auto simp: list_ex_iff)
next
  have hit: "request_visible (Tenant ctx) r \<and> request_updatable (Tenant ctx) r \<and> rq_id r = i \<and> rq_status r \<in> {REQUEST_NEW, REQUEST_APPROVED, REQUEST_RECEIVED}
      \<longleftrightarrow> rq_id r = i \<and> own_new_request ctx r" for r
    using tenant_hit [of ctx r] by (auto simp: own_new_request_def)
  have "\<not> list_ex (\<lambda>r. \<not> request_update_check (Tenant ctx) (r\<lparr>rq_status := REQUEST_CANCELLED\<rparr>)) (filter (\<lambda>r. rq_id r = i \<and> own_new_request ctx r) (rd_requests db))"
    using tenant_check by (auto simp: list_ex_iff)
  then show "is_ok (request_cancel (Tenant ctx) i db) \<longleftrightarrow> (\<exists>r\<in>set (rd_requests db). rq_id r = i \<and> own_new_request ctx r)"
    unfolding request_cancel_def set_statuses_def Let_def hit by (auto simp: filter_empty_conv)
qed

theorem tenant_can_only_cancel_witness:
  "updateStatuses (Tenant ex_ctx) [''q2'', ''q3''] REQUEST_PROCESSING ex_requests = Inr (0, ex_requests) \<and> \<not> is_ok (request_cancel (Tenant ex_ctx) ''q3'' ex_requests)"
proof -
  have no: "\<not> (\<exists>r\<in>set (rd_requests ex_requests). rq_id r \<in> set [''q2'', ''q3''] \<and> own_new_request ex_ctx r)"
    "\<not> (\<exists>r\<in>set (rd_requests ex_requests). rq_id r = ''q3'' \<and> own_new_request ex_ctx r)"
    by (auto simp: ex_requests_def ex_request_def ex_ctx_def own_new_request_def)
  then show ?thesis using tenant_can_only_cancel [of REQUEST_PROCESSING ex_ctx "[''q2'', ''q3'']" ex_requests "''q3''"] by (simp only: if_False) simp
qed

end
