(* ===== verification/Settings.thy ===== *)
theory Settings
  imports Asset_Db Memory_Cache
begin

section \<open>Settings blocks\<close>

text \<open>
  \<^verbatim>\<open>src/src/settings/settings.service.ts\<close>: named blocks of settings in one table, read through the memory
  cache. The table is outside row-level security. A block's data is a JSON value; a spread of an array
  yields its indices as keys. The schema of a request has been checked by the controller.
\<close>

record settings_row =
  sb_friendlyId :: id
  sb_data :: json

definition GLOBAL_SETTINGS_FRIENDLY_ID :: id where
  "GLOBAL_SETTINGS_FRIENDLY_ID = ''global''"

definition DEFAULT_GLOBAL_SETTINGS :: json where
  "DEFAULT_GLOBAL_SETTINGS = JObj
     [(''systemEmailFromAddress'', JStr ''support@notify.fc-safety.com''),
      (''productRequestToAddress'', JStr ''orders@fc-safety.com''),
      (''landingFormLeadToAddress'', JStr ''sales@fc-safety.com'')]"

record global_settings =
  gl_systemEmailFromAddress :: string
  gl_productRequestToAddress :: string
  gl_landingFormLeadToAddress :: string

definition global_settings_json :: "global_settings \<Rightarrow> json" where
  "global_settings_json dto = JObj
     [(''systemEmailFromAddress'', JStr (gl_systemEmailFromAddress dto)), (''productRequestToAddress'', JStr (gl_productRequestToAddress dto)),
      (''landingFormLeadToAddress'', JStr (gl_landingFormLeadToAddress dto))]"

definition isNullOrObject :: "json \<Rightarrow> bool" where
  "isNullOrObject v = (case v of JNull \<Rightarrow> True | JArr _ \<Rightarrow> True | JObj _ \<Rightarrow> True | _ \<Rightarrow> False)"

definition spread :: "json \<Rightarrow> (string, json) jmap" where
  "spread v = (case v of JObj ob \<Rightarrow> ob | JArr xs \<Rightarrow> zip (map show_nat [0..<length xs]) xs | _ \<Rightarrow> [])"

definition shouldUpdateDefaultValues :: "json \<Rightarrow> json \<Rightarrow> bool" where
  "shouldUpdateDefaultValues settingsData defaultData =
     (if defaultData = JNull then False
      else if settingsData = JNull then True
      else list_ex (\<lambda>key. key \<notin> set (map fst (spread settingsData))) (map fst (spread defaultData)))"

definition with_defaults :: "json \<Rightarrow> json \<Rightarrow> json" where
  \<comment> \<open>\<open>{...(settings.data ?? {}), ...defaultData}\<close>\<close>
  "with_defaults settingsData defaultData = JObj (foldl (\<lambda>m (k, v). AList.update k v m) (spread settingsData) (spread defaultData))"

definition settings_key :: "id \<Rightarrow> string" where
  "settings_key friendlyId = ''settings-block:'' @ friendlyId"

definition cache_settings :: "('c, settings_row) cache_ops \<Rightarrow> bool \<Rightarrow> settings_row \<Rightarrow> 'c \<Rightarrow> 'c" where
  "cache_settings ops cache r c = (if cache then cache_set ops c (settings_key (sb_friendlyId r)) r None else c)"

definition load_settings :: "id \<Rightarrow> json \<Rightarrow> settings_row list \<Rightarrow> settings_row \<times> settings_row list" where
  "load_settings friendlyId defaultData tbl =
     (case find_by sb_friendlyId friendlyId tbl of
        None \<Rightarrow> (let r = \<lparr>sb_friendlyId = friendlyId, sb_data = defaultData\<rparr> in (r, tbl @ [r]))
      | Some r \<Rightarrow>
          if isNullOrObject (sb_data r) \<and> isNullOrObject defaultData \<and> shouldUpdateDefaultValues (sb_data r) defaultData
          then (let r' = r\<lparr>sb_data := with_defaults (sb_data r) defaultData\<rparr> in (r', map (\<lambda>x. if sb_friendlyId x = friendlyId then r' else x) tbl))
          else (r, tbl))"

definition getOrCreateSettingsBlock ::
    "('c, settings_row) cache_ops \<Rightarrow> id \<Rightarrow> json \<Rightarrow> bool \<Rightarrow> 'c \<Rightarrow> settings_row list \<Rightarrow> settings_row \<times> 'c \<times> settings_row list" where
  "getOrCreateSettingsBlock ops friendlyId defaultData cache c tbl =
     (let cached = (if cache then cache_get ops c (settings_key friendlyId) else None);
          miss = (let (r, tbl') = load_settings friendlyId defaultData tbl in (r, cache_settings ops cache r c, tbl'))
      in case cached of
           None \<Rightarrow> miss
         | Some s \<Rightarrow>
             if isNullOrObject (sb_data s) \<and> isNullOrObject defaultData \<and> \<not> shouldUpdateDefaultValues (sb_data s) defaultData
             then (s, c, tbl) else miss)"

definition updateSettingsBlock ::
    "('c, settings_row) cache_ops \<Rightarrow> id \<Rightarrow> json \<Rightarrow> bool \<Rightarrow> 'c \<Rightarrow> settings_row list \<Rightarrow> settings_row result \<times> 'c \<times> settings_row list" where
  "updateSettingsBlock ops friendlyId data cache c tbl =
     (case find_by sb_friendlyId friendlyId tbl of
        None \<Rightarrow> (Inl (ServerError ''P2025''), c, tbl)
      | Some r \<Rightarrow>
          (let r' = r\<lparr>sb_data := data\<rparr>
           in (Inr r', cache_settings ops cache r' c, map (\<lambda>x. if sb_friendlyId x = friendlyId then r' else x) tbl)))"

definition getGlobalSettings :: "('c, settings_row) cache_ops \<Rightarrow> 'c \<Rightarrow> settings_row list \<Rightarrow> settings_row \<times> 'c \<times> settings_row list" where
  "getGlobalSettings ops c tbl = getOrCreateSettingsBlock ops GLOBAL_SETTINGS_FRIENDLY_ID DEFAULT_GLOBAL_SETTINGS True c tbl"

definition updateGlobalSettings ::
    "('c, settings_row) cache_ops \<Rightarrow> global_settings \<Rightarrow> 'c \<Rightarrow> settings_row list \<Rightarrow> settings_row result \<times> 'c \<times> settings_row list" where
  "updateGlobalSettings ops dto c tbl = updateSettingsBlock ops GLOBAL_SETTINGS_FRIENDLY_ID (global_settings_json dto) True c tbl"

subsection \<open>What a reader sees\<close>

definition settings_ok :: "json \<Rightarrow> bool" where
  "settings_ok v \<longleftrightarrow> isNullOrObject v \<and> \<not> shouldUpdateDefaultValues v DEFAULT_GLOBAL_SETTINGS"

lemma defaults_object [simp]: "isNullOrObject DEFAULT_GLOBAL_SETTINGS"
  by (simp add: isNullOrObject_def DEFAULT_GLOBAL_SETTINGS_def)

lemma settings_ok_defaults: "settings_ok DEFAULT_GLOBAL_SETTINGS" "settings_ok (global_settings_json dto)"
  by (simp_all add: settings_ok_def isNullOrObject_def shouldUpdateDefaultValues_def DEFAULT_GLOBAL_SETTINGS_def global_settings_json_def spread_def)

lemma updates_keys: "fst ` set (foldl (\<lambda>m (k, v). AList.update k v m) m es) = fst ` set m \<union> fst ` set es"
proof (induction es arbitrary: m)
  case (Cons e es)
  obtain a b where e: "e = (a, b)" by (cases e)
  show ?case using Cons [of "AList.update a b m"] dom_update [of a b m] by (simp add: e)
qed simp

lemma updates_get:
  assumes "distinct (map fst es)"
  shows "map_of (foldl (\<lambda>m (k, v). AList.update k v m) m es) k = (case map_of es k of Some v \<Rightarrow> Some v | None \<Rightarrow> map_of m k)"
  using assms
proof (induction es arbitrary: m)
  case (Cons e es)
  obtain a b where e: "e = (a, b)" by (cases e)
  have "map_of es a = None" using Cons.prems by (simp add: e map_of_eq_None_iff)
  then show ?case using Cons by (auto simp: e update_conv' split: option.splits)
qed simp

lemma with_defaults_ok: "settings_ok (with_defaults v DEFAULT_GLOBAL_SETTINGS)"
proof -
  have "fst ` set (spread DEFAULT_GLOBAL_SETTINGS) \<subseteq> fst ` set (spread (with_defaults v DEFAULT_GLOBAL_SETTINGS))"
    unfolding with_defaults_def spread_def [of "JObj _"] json.case updates_keys by blast
  then show ?thesis unfolding settings_ok_def shouldUpdateDefaultValues_def by (auto simp: list_ex_iff with_defaults_def isNullOrObject_def)
qed

lemma find_by_replace:
  assumes "find_by sb_friendlyId i tbl = Some r" and "sb_friendlyId r' = i"
  shows "find_by sb_friendlyId i (map (\<lambda>x. if sb_friendlyId x = i then r' else x) tbl) = Some r'"
  using assms by (induction tbl) (auto simp: find_by_def split: if_splits)

text \<open>
  Settings that have been written are read back: after an update the next reader gets the written values,
  from the cache or, when the entry is gone, from the table, and reading changes neither.
\<close>

theorem settings_read_back:
  assumes ops: "cache_store ops" and u: "updateGlobalSettings ops dto c tbl = (Inr r, c', tbl')"
  shows "sb_data r = global_settings_json dto \<and> getGlobalSettings ops c' tbl' = (r, c', tbl')
     \<and> (\<forall>c0. co_get ops c0 (settings_key GLOBAL_SETTINGS_FRIENDLY_ID) = None \<longrightarrow>
          getGlobalSettings ops c0 tbl' = (r, co_set ops c0 (settings_key GLOBAL_SETTINGS_FRIENDLY_ID) r None, tbl'))"
proof -
  let ?i = GLOBAL_SETTINGS_FRIENDLY_ID
  from u obtain r0 where f: "find_by sb_friendlyId ?i tbl = Some r0" and r: "r = r0\<lparr>sb_data := global_settings_json dto\<rparr>"
    and c': "c' = co_set ops c (settings_key ?i) r None" and tbl': "tbl' = map (\<lambda>x. if sb_friendlyId x = ?i then r else x) tbl"
    by (auto simp: updateGlobalSettings_def updateSettingsBlock_def Let_def cache_settings_def cache_set_def dest: find_by_SomeD split: option.splits)
  have id: "sb_friendlyId r = ?i" using find_by_SomeD [OF f] by (simp add: r)
  have ok: "settings_ok (sb_data r)" by (simp add: r settings_ok_defaults)
  have hit: "co_get ops c' (settings_key ?i) = Some r" by (simp add: c' cache_store.get_set [OF ops])
  have load: "load_settings ?i DEFAULT_GLOBAL_SETTINGS tbl' = (r, tbl')"
    using ok find_by_replace [OF f id] by (simp add: load_settings_def tbl' settings_ok_def)
  have "getGlobalSettings ops c' tbl' = (r, c', tbl')"
    using ok hit by (simp add: getGlobalSettings_def getOrCreateSettingsBlock_def Let_def cache_get_def settings_ok_def)
  moreover have "getGlobalSettings ops c0 tbl' = (r, co_set ops c0 (settings_key ?i) r None, tbl')" if "co_get ops c0 (settings_key ?i) = None" for c0
    using that load id by (simp add: getGlobalSettings_def getOrCreateSettingsBlock_def Let_def cache_get_def cache_settings_def cache_set_def)
  ultimately show ?thesis by (simp add: r)
qed

definition ex_settings :: "settings_row list" where
  "ex_settings = [\<lparr>sb_friendlyId = ''global'', sb_data = JObj [(''systemEmailFromAddress'', JStr ''me@x.io''), (''theme'', JStr ''dark'')]\<rparr>]"

definition ex_global :: global_settings where
  "ex_global = \<lparr>gl_systemEmailFromAddress = ''a@x.io'', gl_productRequestToAddress = ''b@x.io'', gl_landingFormLeadToAddress = ''c@x.io''\<rparr>"

theorem settings_read_back_witness:
  "\<exists>r c' tbl'. updateGlobalSettings mem_ops ex_global Map.empty ex_settings = (Inr r, c', tbl') \<and> fst (getGlobalSettings mem_ops c' tbl') = r
     \<and> sb_data r = global_settings_json ex_global"
proof -
  obtain r c' tbl' where u: "updateGlobalSettings mem_ops ex_global Map.empty ex_settings = (Inr r, c', tbl')"
    by (simp add: updateGlobalSettings_def updateSettingsBlock_def ex_settings_def find_by_def GLOBAL_SETTINGS_FRIENDLY_ID_def Let_def)
  then show ?thesis using settings_read_back [OF cache_store_mem_ops u] by (intro exI [of _ r] exI [of _ c'] exI [of _ tbl']) simp
qed

text \<open>
  When a stored block lacks one of the default keys, the next uncached read overwrites every default
  key with its default value, also those an administrator has changed, and stores the result; other keys
  keep their values.
\<close>

theorem settings_reset_by_new_default:
  assumes "co_get ops c (settings_key GLOBAL_SETTINGS_FRIENDLY_ID) = None"
    and "find_by sb_friendlyId GLOBAL_SETTINGS_FRIENDLY_ID tbl = Some r" and "sb_data r = JObj ob"
    and "k0 \<in> fst ` set (spread DEFAULT_GLOBAL_SETTINGS)" and "k0 \<notin> fst ` set ob"
  shows "\<exists>r' c' tbl' ob'. getGlobalSettings ops c tbl = (r', c', tbl') \<and> find_by sb_friendlyId GLOBAL_SETTINGS_FRIENDLY_ID tbl' = Some r' \<and> sb_data r' = JObj ob'
     \<and> (\<forall>k. map_of ob' k = (case map_of (spread DEFAULT_GLOBAL_SETTINGS) k of Some v \<Rightarrow> Some v | None \<Rightarrow> map_of ob k))"
proof -
  let ?i = GLOBAL_SETTINGS_FRIENDLY_ID and ?d = DEFAULT_GLOBAL_SETTINGS
  let ?ob = "foldl (\<lambda>m (k, v). AList.update k v m) ob (spread ?d)"
  let ?r = "r\<lparr>sb_data := JObj ?ob\<rparr>"
  have new: "with_defaults (sb_data r) ?d = JObj ?ob" by (simp add: with_defaults_def assms(3) spread_def [of "JObj ob"])
  have upd: "isNullOrObject (sb_data r) \<and> shouldUpdateDefaultValues (sb_data r) ?d"
    using assms(4,5) unfolding assms(3) by (auto simp: isNullOrObject_def shouldUpdateDefaultValues_def list_ex_iff spread_def [of "JObj ob"] DEFAULT_GLOBAL_SETTINGS_def)
  have load: "load_settings ?i ?d tbl = (?r, map (\<lambda>x. if sb_friendlyId x = ?i then ?r else x) tbl)"
    unfolding load_settings_def assms(2) option.case new using upd by (simp only: defaults_object if_True simp_thms Let_def)
  obtain c' where "getGlobalSettings ops c tbl = (?r, c', map (\<lambda>x. if sb_friendlyId x = ?i then ?r else x) tbl)"
    using assms(1) load by (simp add: getGlobalSettings_def getOrCreateSettingsBlock_def Let_def cache_get_def)
  moreover have "sb_friendlyId ?r = ?i" using find_by_SomeD [OF assms(2)] by simp
  then have "find_by sb_friendlyId ?i (map (\<lambda>x. if sb_friendlyId x = ?i then ?r else x) tbl) = Some ?r" by (rule find_by_replace [OF assms(2)])
  moreover have "distinct (map fst (spread ?d))" by (simp add: spread_def DEFAULT_GLOBAL_SETTINGS_def)
  then have "\<forall>k. map_of ?ob k = (case map_of (spread ?d) k of Some v \<Rightarrow> Some v | None \<Rightarrow> map_of ob k)" by (intro allI updates_get)
  moreover have "sb_data ?r = JObj ?ob" by simp
  ultimately show ?thesis by blast
qed

theorem settings_reset_by_new_default_witness:
  "\<exists>r' c' tbl' ob'. getGlobalSettings mem_ops Map.empty ex_settings = (r', c', tbl') \<and> sb_data r' = JObj ob'
     \<and> map_of ob' ''systemEmailFromAddress'' = Some (JStr ''support@notify.fc-safety.com'') \<and> map_of ob' ''theme'' = Some (JStr ''dark'')"
proof -
  let ?ob = "[(''systemEmailFromAddress'', JStr ''me@x.io''), (''theme'', JStr ''dark'')]"
  have h: "co_get mem_ops Map.empty (settings_key GLOBAL_SETTINGS_FRIENDLY_ID) = None"
    "find_by sb_friendlyId GLOBAL_SETTINGS_FRIENDLY_ID ex_settings = Some \<lparr>sb_friendlyId = ''global'', sb_data = JObj ?ob\<rparr>"
    "sb_data \<lparr>sb_friendlyId = ''global'', sb_data = JObj ?ob\<rparr> = JObj ?ob"
    "''productRequestToAddress'' \<in> fst ` set (spread DEFAULT_GLOBAL_SETTINGS)" "''productRequestToAddress'' \<notin> fst ` set ?ob"
    by (simp_all add: mem_ops_def ex_settings_def find_by_def GLOBAL_SETTINGS_FRIENDLY_ID_def DEFAULT_GLOBAL_SETTINGS_def spread_def)
  obtain r' c' tbl' ob' where g: "getGlobalSettings mem_ops Map.empty ex_settings = (r', c', tbl')" "sb_data r' = JObj ob'"
    and m: "\<forall>k. map_of ob' k = (case map_of (spread DEFAULT_GLOBAL_SETTINGS) k of Some v \<Rightarrow> Some v | None \<Rightarrow> map_of ?ob k)"
    using settings_reset_by_new_default [OF h] by (elim exE conjE) (rule that)
  have "map_of ob' ''systemEmailFromAddress'' = Some (JStr ''support@notify.fc-safety.com'')" "map_of ob' ''theme'' = Some (JStr ''dark'')"
    using m by (simp_all add: spread_def DEFAULT_GLOBAL_SETTINGS_def)
  then show ?thesis using g by blast
qed

end
