(* ===== verification/Sites.thy ===== *)
theory Sites
  imports Notifications
begin

section \<open>Sites of a client\<close>

text \<open>
  \<^verbatim>\<open>src/src/clients/sites/sites.service.ts\<close>: the sites a session may see, and the cached state of a site.
  A relation is connected to a row that the session shows. A write must leave a row the session shows.
  Deleting a site takes its access records and invitations with it and fails while it has subsites or is
  referenced by a table that restricts the deletion, which is the parameter \<open>inUse\<close>. Addresses, telephone
  numbers and requests that name subsites are not modelled.
\<close>

definition buildSiteStatusCacheKey :: "id \<Rightarrow> string" where
  "buildSiteStatusCacheKey siteExternalId = ''siteStatus:externalId='' @ siteExternalId"

definition SITE_STATUS_CACHE_TTL_MS :: nat where
  "SITE_STATUS_CACHE_TTL_MS = 60 * 60 * 1000"

definition invalidateSiteStatusCache :: "('c, bool) cache_ops \<Rightarrow> id \<Rightarrow> 'c \<Rightarrow> 'c" where
  "invalidateSiteStatusCache ops siteId c = cache_del ops c (buildSiteStatusCacheKey siteId)"

definition getSiteStatus :: "('c, bool) cache_ops \<Rightarrow> id \<Rightarrow> 'c \<Rightarrow> tenant_db \<Rightarrow> bool option \<times> 'c" where
  "getSiteStatus ops siteId c db =
     (case cache_get ops c (buildSiteStatusCacheKey siteId) of
        Some b \<Rightarrow> (Some b, c)
      | None \<Rightarrow>
          (case find_by st_id siteId (db_sites db) of
             None \<Rightarrow> (None, c)
           | Some s \<Rightarrow> (Some (st_active s), cache_set ops c (buildSiteStatusCacheKey siteId) (st_active s) (Some SITE_STATUS_CACHE_TTL_MS))))"

definition connect_site :: "rls_session \<Rightarrow> tenant_db \<Rightarrow> id \<Rightarrow> bool" where
  "connect_site sess db i = list_ex (\<lambda>s. site_visible sess s \<and> st_id s = i) (db_sites db)"

definition connect_client :: "rls_session \<Rightarrow> tenant_db \<Rightarrow> id \<Rightarrow> bool" where
  "connect_client sess db i = list_ex (\<lambda>c. client_visible sess c \<and> cl_id c = i) (db_clients db)"

record create_site_dto =
  sd_externalId :: "id option"
  sd_name :: string
  sd_clientId :: id
  sd_parentSiteId :: "id option"
  sd_primary :: "bool option"

definition site_create :: "rls_session \<Rightarrow> time \<Rightarrow> id \<Rightarrow> id \<Rightarrow> create_site_dto \<Rightarrow> tenant_db \<Rightarrow> (site_row \<times> tenant_db) result" where
  "site_create sess now newId newExternalId dto db =
     (let row = \<lparr>st_id = newId, st_externalId = nullish_or (sd_externalId dto) newExternalId, st_name = sd_name dto, st_active = True,
            st_primary = nullish_or (sd_primary dto) False, st_parentSiteId = sd_parentSiteId dto, st_clientId = sd_clientId dto, st_createdOn = now\<rparr>
      in if \<not> connect_client sess db (sd_clientId dto) \<or> (case sd_parentSiteId dto of None \<Rightarrow> False | Some p \<Rightarrow> \<not> connect_site sess db p) then Inl (ServerError ''P2025'')
         else if st_externalId row \<in> st_externalId ` set (db_sites db) \<or> newId \<in> st_id ` set (db_sites db) then Inl (ServerError ''P2002'')
         else if \<not> site_visible sess row then Inl rls_violation
         else Inr (row, db\<lparr>db_sites := db_sites db @ [row]\<rparr>))"

definition site_findOne :: "rls_session \<Rightarrow> id \<Rightarrow> tenant_db \<Rightarrow> (site_row \<times> site_row list \<times> site_row option) result" where
  \<comment> \<open>with its subsites and its parent\<close>
  "site_findOne sess i db =
     (case find_by st_id i (filter (site_visible sess) (db_sites db)) of
        None \<Rightarrow> as404OrThrow (Inl (ServerError ''P2025''))
      | Some s \<Rightarrow> Inr (s, filter (\<lambda>x. site_visible sess x \<and> st_parentSiteId x = Some i) (db_sites db),
          Option.bind (st_parentSiteId s) (\<lambda>p. find_by st_id p (filter (site_visible sess) (db_sites db)))))"

record update_site_dto =
  su_active :: "bool option"
  su_externalId :: "id option"
  su_name :: "string option"
  su_clientId :: "id option"
  su_parentSite :: "id option option" \<comment> \<open>disconnect or connect\<close>
  su_primary :: "bool option"

definition patch_site :: "update_site_dto \<Rightarrow> site_row \<Rightarrow> site_row" where
  "patch_site dto s = s\<lparr>st_active := nullish_or (su_active dto) (st_active s), st_externalId := nullish_or (su_externalId dto) (st_externalId s),
     st_name := nullish_or (su_name dto) (st_name s), st_clientId := nullish_or (su_clientId dto) (st_clientId s),
     st_parentSiteId := nullish_or (su_parentSite dto) (st_parentSiteId s), st_primary := nullish_or (su_primary dto) (st_primary s)\<rparr>"

definition site_update_tx :: "rls_session \<Rightarrow> id \<Rightarrow> update_site_dto \<Rightarrow> tenant_db \<Rightarrow> (site_row \<times> tenant_db) result" where
  "site_update_tx sess i dto db =
     (case find_by st_id i (filter (site_visible sess) (db_sites db)) of
        None \<Rightarrow> Inl (ServerError ''P2025'')
      | Some s \<Rightarrow>
          (let row = patch_site dto s
           in if (case su_clientId dto of None \<Rightarrow> False | Some c \<Rightarrow> \<not> connect_client sess db c) then Inl (ServerError ''P2025'')
              else if (case su_parentSite dto of Some (Some p) \<Rightarrow> \<not> connect_site sess db p | _ \<Rightarrow> False) then Inl (ServerError ''P2025'')
              else if list_ex (\<lambda>x. st_id x \<noteq> i \<and> st_externalId x = st_externalId row) (db_sites db) then Inl (ServerError ''P2002'')
              else if \<not> site_visible sess row then Inl rls_violation
              else Inr (row, db\<lparr>db_sites := map (\<lambda>x. if st_id x = i then row else x) (db_sites db)\<rparr>)))"

definition site_update ::
    "('c, bool) cache_ops \<Rightarrow> rls_session \<Rightarrow> id \<Rightarrow> update_site_dto \<Rightarrow> 'c \<Rightarrow> tenant_db \<Rightarrow> site_row result \<times> 'c \<times> tenant_db" where
  "site_update ops sess i dto c db =
     (case as404OrThrow (site_update_tx sess i dto db) of
        Inl e \<Rightarrow> (Inl e, c, db)
      | Inr (row, db') \<Rightarrow> (Inr row, invalidateSiteStatusCache ops (st_externalId row) c, db'))"

definition site_remove ::
    "('c, bool) cache_ops \<Rightarrow> rls_session \<Rightarrow> (id \<Rightarrow> bool) \<Rightarrow> id \<Rightarrow> 'c \<Rightarrow> tenant_db \<Rightarrow> site_row result \<times> 'c \<times> tenant_db" where
  "site_remove ops sess inUse i c db =
     (case find_by st_id i (filter (site_visible sess) (db_sites db)) of
        None \<Rightarrow> (Inl (ServerError ''P2025''), c, db)
      | Some s \<Rightarrow>
          if inUse i \<or> list_ex (\<lambda>x. st_id x \<noteq> i \<and> st_parentSiteId x = Some i) (db_sites db) then (Inl (ServerError ''P2003''), c, db)
          else (Inr s, invalidateSiteStatusCache ops (st_externalId s) c,
                db\<lparr>db_sites := filter (\<lambda>x. st_id x \<noteq> i) (db_sites db), db_accesses := filter (\<lambda>a. pca_siteId a \<noteq> i) (db_accesses db),
                   db_invitations := filter (\<lambda>v. in_siteId v \<noteq> i) (db_invitations db)\<rparr>))"

subsection \<open>The cached state of a site\<close>

lemma status_key_inj [simp]: "buildSiteStatusCacheKey a = buildSiteStatusCacheKey b \<longleftrightarrow> a = b"
  by (simp add: buildSiteStatusCacheKey_def)

lemma cached_status:
  assumes "cache_store ops" and "getSiteStatus ops i c db = (Some b, c')"
  shows "co_get ops c' (buildSiteStatusCacheKey i) = Some b"
  using assms(2) by (auto simp: getSiteStatus_def cache_get_def cache_set_def cache_store.get_set [OF assms(1)] split: option.splits)

text \<open>
  The state of a site is cached under its identifier and invalidated under its external identifier: when
  the two differ, neither an update nor a deletion of the site changes what a reader is told, until the hour
  of the entry is over.
\<close>

theorem site_status_stale:
  assumes ops: "cache_store ops" and read: "getSiteStatus ops i c db = (Some b, c1)"
    and change: "site_update ops sess i dto c1 db1 = (Inr s, c2, db2) \<or> site_remove ops sess inUse i c1 db1 = (Inr s, c2, db2)"
    and ext: "st_externalId s \<noteq> i"
  shows "getSiteStatus ops i c2 db2 = (Some b, c2)"
proof -
  have "c2 = invalidateSiteStatusCache ops (st_externalId s) c1"
    using change by (auto simp: site_update_def site_remove_def split: option.splits sum.splits if_splits)
  then have "co_get ops c2 (buildSiteStatusCacheKey i) = Some b"
    using cached_status [OF ops read] ext by (simp add: invalidateSiteStatusCache_def cache_del_def cache_store.get_del [OF ops])
  then show ?thesis by (simp add: getSiteStatus_def cache_get_def)
qed

definition no_site_change :: update_site_dto where
  "no_site_change = \<lparr>su_active = None, su_externalId = None, su_name = None, su_clientId = None, su_parentSite = None, su_primary = None\<rparr>"

definition ex_sites :: tenant_db where
  "ex_sites = (ex_db [])\<lparr>db_sites := [(ex_site ''s1'' None)\<lparr>st_externalId := ''x1''\<rparr>, ex_site ''s2'' None]\<rparr>"

lemmas ex_sites_simps = ex_sites_def ex_db_def ex_site_def ex_ctx_client_def find_by_def site_visible_def client_visible_def validate_client_def validate_site_def
  as404OrThrow_def patch_site_def no_site_change_def connect_site_def Let_def

theorem site_status_stale_witness:
  "let c1 = snd (getSiteStatus mem_ops ''s1'' Map.empty ex_sites);
       (r, c2, db2) = site_update mem_ops (Tenant ex_ctx_client) ''s1'' (no_site_change\<lparr>su_active := Some False\<rparr>) c1 ex_sites
   in is_ok r \<and> fst (getSiteStatus mem_ops ''s1'' c2 db2) = Some True \<and> fst (getSiteStatus mem_ops ''s1'' Map.empty db2) = Some False"
proof -
  let ?s = "((ex_site ''s1'' None)\<lparr>st_externalId := ''x1''\<rparr>)\<lparr>st_active := False\<rparr>"
  obtain c1 where read: "getSiteStatus mem_ops ''s1'' Map.empty ex_sites = (Some True, c1)"
    by (simp add: getSiteStatus_def cache_get_def mem_ops_def ex_sites_simps)
  obtain c2 db2 where u: "site_update mem_ops (Tenant ex_ctx_client) ''s1'' (no_site_change\<lparr>su_active := Some False\<rparr>) c1 ex_sites = (Inr ?s, c2, db2)"
    by (simp add: site_update_def site_update_tx_def ex_sites_simps)
  then have db2: "db_sites db2 = [?s, ex_site ''s2'' None]"
    by (auto simp: site_update_def site_update_tx_def ex_sites_simps)
  have "getSiteStatus mem_ops ''s1'' c2 db2 = (Some True, c2)"
    by (rule site_status_stale [OF cache_store_mem_ops read disjI1 [OF u]]) simp
  moreover have "fst (getSiteStatus mem_ops ''s1'' Map.empty db2) = Some False"
    by (simp add: getSiteStatus_def cache_get_def mem_ops_def find_by_def db2 ex_site_def)
  ultimately show ?thesis by (simp add: read u)
qed

subsection \<open>Isolation\<close>

lemma site_update_txE:
  assumes "site_update_tx sess i dto db = Inr (row, db')"
  obtains s where "s \<in> set (db_sites db)" "st_id s = i" "site_visible sess s" "row = patch_site dto s" "site_visible sess row"
    "db' = db\<lparr>db_sites := map (\<lambda>x. if st_id x = i then row else x) (db_sites db)\<rparr>"
proof -
  from assms obtain s where f: "find_by st_id i (filter (site_visible sess) (db_sites db)) = Some s" and r: "row = patch_site dto s" "site_visible sess row"
    "db' = db\<lparr>db_sites := map (\<lambda>x. if st_id x = i then row else x) (db_sites db)\<rparr>"
    by (auto simp: site_update_tx_def Let_def split: option.splits if_splits)
  show thesis using that [OF _ _ _ r] find_by_SomeD [OF f] by auto
qed

lemma self_parent_no_hierarchy:
  assumes "\<lparr>sn_id = i, sn_parentSiteId = Some i\<rparr> \<in> set nodes" and "i \<noteq> []"
  shows "buildSiteHierarchy d nodes = None"
proof -
  have "is_child nodes i i" using assms unfolding is_child_def by (intro bexI [OF _ assms(1)]) simp
  then have "reaches_cycle nodes i" unfolding reaches_cycle_def by blast
  then have "getDescendants d (childrenMap nodes) i = None" by (rule getDescendants_cycle)
  then have "\<not> (\<forall>s\<in>set nodes. getDescendants d (childrenMap nodes) (sn_id s) \<noteq> None)" using assms(1) by (metis site_node.select_convs(1))
  then show ?thesis using buildSiteHierarchy_returns_iff [of d nodes] by blast
qed

text \<open>
  Nothing keeps a site from becoming its own parent: the update is accepted for every site the session
  shows, and afterwards the tree of the client's sites cannot be built with any call depth, so the
  reminders and reports of the client fail.
\<close>

theorem own_parent_breaks_hierarchy:
  assumes "find_by st_id i (filter (site_visible sess) (db_sites db)) = Some s" and "i \<noteq> []"
    and "distinct (map st_id (db_sites db))" and "distinct (map st_externalId (db_sites db))"
  shows "\<exists>row c' db'. site_update ops sess i (no_site_change\<lparr>su_parentSite := Some (Some i)\<rparr>) c db = (Inr row, c', db')
     \<and> st_clientId row = st_clientId s \<and> (\<forall>depth. getSiteHierarchy depth db' (st_clientId s) = Inl (ServerError ''RangeError''))"
proof -
  let ?dto = "no_site_change\<lparr>su_parentSite := Some (Some i)\<rparr>"
  let ?row = "s\<lparr>st_parentSiteId := Some i\<rparr>"
  let ?sites = "map (\<lambda>x. if st_id x = i then ?row else x) (db_sites db)"
  have s: "s \<in> set (db_sites db)" "site_visible sess s" "st_id s = i" using find_by_SomeD [OF assms(1)] by auto
  have row: "patch_site ?dto s = ?row" by (simp add: patch_site_def no_site_change_def)
  have vis: "site_visible sess ?row" using s(2) by (simp add: site_visible_def split: rls_session.splits)
  have conn: "connect_site sess db i" using s by (auto simp: connect_site_def list_ex_iff)
  have uniq: "\<not> list_ex (\<lambda>x. st_id x \<noteq> i \<and> st_externalId x = st_externalId ?row) (db_sites db)"
    using s assms(4) by (auto simp: list_ex_iff distinct_map dest: inj_onD)
  have tx: "site_update_tx sess i ?dto db = Inr (?row, db\<lparr>db_sites := ?sites\<rparr>)"
    unfolding site_update_tx_def assms(1) option.case Let_def row using vis conn uniq by (simp add: no_site_change_def)
  let ?nodes = "map (\<lambda>s. \<lparr>sn_id = st_id s, sn_parentSiteId = st_parentSiteId s\<rparr>) (filter (\<lambda>x. st_clientId x = st_clientId s) ?sites)"
  have "?row \<in> set ?sites" using s by (force intro!: image_eqI [of _ _ s])
  then have "?row \<in> set (filter (\<lambda>x. st_clientId x = st_clientId s) ?sites)" by simp
  from imageI [OF this, of "\<lambda>s. \<lparr>sn_id = st_id s, sn_parentSiteId = st_parentSiteId s\<rparr>"]
  have node: "\<lparr>sn_id = i, sn_parentSiteId = Some i\<rparr> \<in> set ?nodes" using s(3) by simp
  have "buildSiteHierarchy depth ?nodes = None" for depth by (rule self_parent_no_hierarchy [OF node assms(2)])
  then have "getSiteHierarchy depth (db\<lparr>db_sites := ?sites\<rparr>) (st_clientId s) = Inl (ServerError ''RangeError'')" for depth
    by (simp add: getSiteHierarchy_def)
  moreover have "site_update ops sess i ?dto c db = (Inr ?row, invalidateSiteStatusCache ops (st_externalId ?row) c, db\<lparr>db_sites := ?sites\<rparr>)"
    unfolding site_update_def tx by (simp add: as404OrThrow_def)
  ultimately show ?thesis by (intro exI conjI allI) (assumption, simp, blast)
qed

theorem own_parent_breaks_hierarchy_witness:
  "\<exists>row c' db'. site_update mem_ops (Tenant ex_ctx_client) ''s2'' (no_site_change\<lparr>su_parentSite := Some (Some ''s2'')\<rparr>) Map.empty ex_sites = (Inr row, c', db')
     \<and> getSiteHierarchy 1000 db' ''c1'' = Inl (ServerError ''RangeError'')"
proof -
  have h: "find_by st_id ''s2'' (filter (site_visible (Tenant ex_ctx_client)) (db_sites ex_sites)) = Some (ex_site ''s2'' None)" "''s2'' \<noteq> []"
    "distinct (map st_id (db_sites ex_sites))" "distinct (map st_externalId (db_sites ex_sites))"
    by (simp_all add: ex_sites_simps)
  have c: "st_clientId (ex_site ''s2'' None) = ''c1''" by (simp add: ex_site_def)
  show ?thesis using own_parent_breaks_hierarchy [OF h, of mem_ops Map.empty] unfolding c by blast
qed

text \<open>
  In a tenant session every operation on sites stays in the client of the session: the rows of other
  clients are the same before and after, and no site leaves or enters the client but the one that is created
  or deleted.
\<close>

definition foreign :: "rls_context \<Rightarrow> site_row list \<Rightarrow> site_row list" where
  "foreign ctx sites = filter (\<lambda>s. st_clientId s \<noteq> rls_clientId ctx) sites"

lemma visible_client: "site_visible (Tenant ctx) s \<Longrightarrow> st_clientId s = rls_clientId ctx"
  by (simp add: site_visible_def validate_client_def)

lemma foreign_map_same:
  assumes "distinct (map st_id sites)" and "s \<in> set sites" and "st_clientId s = rls_clientId ctx" and "st_clientId row = rls_clientId ctx"
  shows "foreign ctx (map (\<lambda>x. if st_id x = st_id s then row else x) sites) = foreign ctx sites"
proof -
  have "foreign ctx (map (\<lambda>x. if st_id x = st_id s then row else x) xs) = foreign ctx xs" if "set xs \<subseteq> set sites" for xs
    using that assms by (induction xs) (auto simp: foreign_def distinct_map dest: inj_onD)
  then show ?thesis by blast
qed

theorem site_operations_isolated:
  assumes d: "distinct (map st_id (db_sites db))"
    and run: "(\<exists>row. site_create (Tenant ctx) now newId newExternalId cdto db = Inr (row, db'))
       \<or> (\<exists>r c'. site_update ops (Tenant ctx) i udto c db = (r, c', db')) \<or> (\<exists>r c'. site_remove ops (Tenant ctx) inUse i c db = (r, c', db'))"
  shows "foreign ctx (db_sites db') = foreign ctx (db_sites db)"
  using run
proof (elim disjE exE)
  fix row assume "site_create (Tenant ctx) now newId newExternalId cdto db = Inr (row, db')"
  then have "db' = db\<lparr>db_sites := db_sites db @ [row]\<rparr>" "site_visible (Tenant ctx) row"
    by (auto simp: site_create_def Let_def split: if_splits option.splits)
  then show ?thesis using visible_client [of ctx row] by (simp add: foreign_def)
next
  fix r c' assume u: "site_update ops (Tenant ctx) i udto c db = (r, c', db')"
  show ?thesis
  proof (cases "site_update_tx (Tenant ctx) i udto db")
    case (Inl e)
    then show ?thesis using u by (simp add: site_update_def as404OrThrow_def)
  next
    case (Inr p)
    then obtain row db1 where tx: "site_update_tx (Tenant ctx) i udto db = Inr (row, db1)" by (cases p) auto
    then have "db' = db1" using u by (simp add: site_update_def as404OrThrow_def)
    moreover obtain s where s: "s \<in> set (db_sites db)" "st_id s = i" "site_visible (Tenant ctx) s" "row = patch_site udto s" "site_visible (Tenant ctx) row"
      "db1 = db\<lparr>db_sites := map (\<lambda>x. if st_id x = i then row else x) (db_sites db)\<rparr>" by (rule site_update_txE [OF tx])
    ultimately show ?thesis using foreign_map_same [OF d s(1) visible_client visible_client, OF s(3,5)] s(2) by simp
  qed
next
  fix r c' assume u: "site_remove ops (Tenant ctx) inUse i c db = (r, c', db')"
  show ?thesis
  proof (cases "db_sites db' = db_sites db")
    case False
    then obtain s where f: "find_by st_id i (filter (site_visible (Tenant ctx)) (db_sites db)) = Some s" and db': "db_sites db' = filter (\<lambda>x. st_id x \<noteq> i) (db_sites db)"
      using u by (auto simp: site_remove_def split: option.splits if_splits)
    have s: "s \<in> set (db_sites db)" "st_id s = i" "st_clientId s = rls_clientId ctx" using find_by_SomeD [OF f] visible_client by auto
    have "st_id x \<noteq> i" if "x \<in> set (db_sites db)" "st_clientId x \<noteq> rls_clientId ctx" for x using s that d by (auto simp: distinct_map dest: inj_onD)
    then show ?thesis unfolding foreign_def db' filter_filter by (intro filter_cong) auto
  qed simp
qed

theorem site_operations_isolated_witness:
  "\<exists>r c' db'. site_update mem_ops (Tenant (ex_ctx_client\<lparr>rls_clientId := ''c2''\<rparr>)) ''s1'' (no_site_change\<lparr>su_name := Some ''new''\<rparr>) Map.empty ex_sites = (r, c', db')
     \<and> foreign (ex_ctx_client\<lparr>rls_clientId := ''c2''\<rparr>) (db_sites db') = db_sites ex_sites"
proof -
  let ?ctx = "ex_ctx_client\<lparr>rls_clientId := ''c2''\<rparr>" and ?dto = "no_site_change\<lparr>su_name := Some ''new''\<rparr>"
  obtain r c' db' where u: "site_update mem_ops (Tenant ?ctx) ''s1'' ?dto Map.empty ex_sites = (r, c', db')" by (rule prod_cases3)
  have d: "distinct (map st_id (db_sites ex_sites))" by (simp add: ex_sites_simps)
  have "foreign ?ctx (db_sites db') = foreign ?ctx (db_sites ex_sites)"
    by (rule site_operations_isolated [OF d, where ops = mem_ops and i = "''s1''" and udto = ?dto and c = Map.empty]) (use u in blast)
  also have "\<dots> = db_sites ex_sites" by (simp add: foreign_def ex_sites_simps)
  finally show ?thesis using u by blast
qed

end
