(* ===== verification/Events.thy ===== *)
theory Events
  imports Auth_Tokens Sample_Data
begin

section \<open>Events of the database\<close>

text \<open>
  A write of a tenant is announced on a channel of the message broker
  (\<^verbatim>\<open>src/src/prisma/prisma.service.ts\<close>, \<open>emitModelEvent\<close>); a page that holds a token listens to a pattern
  of channels and filters the messages (\<^verbatim>\<open>src/src/events/events.service.ts\<close>); the listeners of one
  pattern share one subscription (\<^verbatim>\<open>src/src/redis/redis.service.ts\<close>).

  The match of a pattern is the broker's: the parameter \<open>psub\<close>, of which only the documented meaning of the
  star is assumed (\<open>psub_laws\<close>). A message is the event itself: it is written as JSON and read back. The
  client library is a parameter too: the calls made on it are kept with their answers, and which patterns
  it then receives is a function of that history with the documented law \<open>pubsub_laws\<close>.
\<close>

subsection \<open>Publishing\<close>

record db_event =
  ev_model :: string
  ev_operation :: string
  ev_id :: "id option"

definition EMITTED_OPERATIONS :: "string list" where
  "EMITTED_OPERATIONS = [''create'', ''createMany'', ''createManyAndReturn'', ''update'', ''updateMany'', ''updateManyAndReturn'', ''delete'', ''deleteMany'']"

definition cleanedOperation :: "string \<Rightarrow> string" where
  "cleanedOperation operation =
     (if operation = ''createMany'' \<or> operation = ''createManyAndReturn'' then ''create''
      else if operation = ''updateMany'' \<or> operation = ''updateManyAndReturn'' then ''update''
      else if operation = ''deleteMany'' then ''delete'' else operation)"

definition event_channel :: "id \<Rightarrow> string \<Rightarrow> string \<Rightarrow> string" where
  "event_channel clientId model operation = ''db-events:'' @ clientId @ '':'' @ model @ '':'' @ operation"

definition emitModelEvent :: "string \<Rightarrow> string \<Rightarrow> id option \<Rightarrow> access_grant \<Rightarrow> (string \<times> db_event) option" where
  \<comment> \<open>the channel and the message, when there is one; the identifier of the result, when it has one\<close>
  "emitModelEvent model operation resultId accessGrant =
     (if operation \<notin> set EMITTED_OPERATIONS then None
      else (let op = cleanedOperation operation
            in Some (event_channel (ag_clientId accessGrant) model op, \<lparr>ev_model = model, ev_operation = op, ev_id = resultId\<rparr>)))"

subsection \<open>Listening\<close>

record listen_options =
  lo_models :: "string list"
  lo_operations :: "string list option"
  lo_ids :: "id list option"

definition events_generateToken ::
    "('c, signing_key) cache_ops \<Rightarrow> (string \<Rightarrow> string \<Rightarrow> string) \<Rightarrow> (access_grant token_part \<Rightarrow> string) \<Rightarrow> string \<Rightarrow> string \<Rightarrow> time \<Rightarrow> cls_store
     \<Rightarrow> 'c \<Rightarrow> signing_key list \<Rightarrow> string result \<times> 'c \<times> signing_key list" where
  "events_generateToken ops hmac encode newSecret defaultKeyId now cls c keys =
     (case requireAccessGrant cls of
        Inl e \<Rightarrow> (Inl e, c, keys)
      | Inr g \<Rightarrow> generateCustomToken ops hmac encode newSecret defaultKeyId now (Body g) (60 * 60 * 24) c keys)"

definition events_validateToken :: "'p token_validation result \<Rightarrow> 'p token_part result" where
  "events_validateToken r =
     bindr r (\<lambda>v. case v of Token_valid p \<Rightarrow> Inr p | Token_invalid e \<Rightarrow> Inl (ForbiddenException e))"

definition payload_client :: "access_grant token_part \<Rightarrow> id" where
  \<comment> \<open>an object without the field is printed as undefined\<close>
  "payload_client p = (case p of Body g \<Rightarrow> ag_clientId g | Head _ _ \<Rightarrow> ''undefined'')"

definition channelPattern :: "id \<Rightarrow> listen_options \<Rightarrow> string" where
  "channelPattern clientId options =
     (let model = (if 1 < length (lo_models options) then ''*'' else nullish_or (at0 (lo_models options)) ''undefined'');
          operation = (case lo_operations options of Some [op] \<Rightarrow> op | _ \<Rightarrow> ''*'')
      in event_channel clientId model operation)"

definition messageListener :: "listen_options \<Rightarrow> db_event \<Rightarrow> db_event option" where
  "messageListener options payload =
     (if ev_model payload \<notin> set (lo_models options) then None
      else if (case lo_operations options of None \<Rightarrow> False | Some os \<Rightarrow> ev_operation payload \<notin> set os) then None
      else if (case lo_ids options of None \<Rightarrow> False | Some is \<Rightarrow> ev_id payload \<notin> Some ` set is) then None
      else Some payload)"

definition delivered :: "(string \<Rightarrow> string \<Rightarrow> bool) \<Rightarrow> id \<Rightarrow> listen_options \<Rightarrow> string \<times> db_event \<Rightarrow> db_event option" where
  "delivered psub clientId options m = (if psub (channelPattern clientId options) (fst m) then messageListener options (snd m) else None)"

subsection \<open>Shared subscriptions\<close>

datatype broker_command = Subscribe string nat | Unsubscribe string

datatype call_answer = Pending | Done | Failed

type_synonym call_history = "(broker_command \<times> call_answer) list"

record redis_state =
  rs_subscribedPatterns :: "string set"
  rs_listeners :: "string \<Rightarrow> nat list" \<comment> \<open>the event manager: listeners by pattern\<close>
  rs_calls :: call_history \<comment> \<open>the calls made on the client library, in their order, and how each was answered\<close>

definition redis_init :: redis_state where
  "redis_init = \<lparr>rs_subscribedPatterns = {}, rs_listeners = (\<lambda>p. []), rs_calls = []\<rparr>"

definition off_listener :: "string \<Rightarrow> nat \<Rightarrow> redis_state \<Rightarrow> redis_state" where
  \<comment> \<open>\<open>EventEmitter.off\<close> removes the latest registration of the listener\<close>
  "off_listener p l s = s\<lparr>rs_listeners := (rs_listeners s)(p := rev (remove1 l (rev (rs_listeners s p))))\<rparr>"

definition addPatternListener :: "string \<Rightarrow> nat \<Rightarrow> redis_state \<Rightarrow> redis_state" where
  "addPatternListener p l s =
     (let s1 = s\<lparr>rs_listeners := (rs_listeners s)(p := rs_listeners s p @ [l])\<rparr>
      in if p \<in> rs_subscribedPatterns s then s1
         else s1\<lparr>rs_subscribedPatterns := insert p (rs_subscribedPatterns s), rs_calls := rs_calls s @ [(Subscribe p l, Pending)]\<rparr>)"

definition removePatternListener :: "string \<Rightarrow> nat \<Rightarrow> redis_state \<Rightarrow> redis_state" where
  "removePatternListener p l s =
     (let s1 = off_listener p l s
      in if rs_listeners s1 p = []
         then s1\<lparr>rs_subscribedPatterns := rs_subscribedPatterns s1 - {p}, rs_calls := rs_calls s1 @ [(Unsubscribe p, Pending)]\<rparr>
         else s1)"

definition subscribe_failed :: "string \<Rightarrow> nat \<Rightarrow> redis_state \<Rightarrow> redis_state" where
  \<comment> \<open>the \<open>catch\<close> of \<open>pSubscribe\<close>\<close>
  "subscribe_failed p l s = (off_listener p l s)\<lparr>rs_subscribedPatterns := rs_subscribedPatterns s - {p}\<rparr>"

definition answer_call :: "nat \<Rightarrow> call_answer \<Rightarrow> redis_state \<Rightarrow> redis_state" where
  "answer_call i a s = s\<lparr>rs_calls := (rs_calls s)[i := (fst (rs_calls s ! i), a)]\<rparr>"

inductive redis_step :: "redis_state \<Rightarrow> redis_state \<Rightarrow> bool" where
  \<comment> \<open>a caller adds or removes a listener, or a call that is pending is answered: any call, well or with an error\<close>
  add: "redis_step s (addPatternListener p l s)"
| remove: "redis_step s (removePatternListener p l s)"
| succeed: "i < length (rs_calls s) \<Longrightarrow> snd (rs_calls s ! i) = Pending \<Longrightarrow> redis_step s (answer_call i Done s)"
| fail_subscribe: "i < length (rs_calls s) \<Longrightarrow> rs_calls s ! i = (Subscribe p l, Pending) \<Longrightarrow> redis_step s (subscribe_failed p l (answer_call i Failed s))"
| fail_unsubscribe: "i < length (rs_calls s) \<Longrightarrow> rs_calls s ! i = (Unsubscribe p, Pending) \<Longrightarrow> redis_step s (answer_call i Failed s)"

definition command_pattern :: "broker_command \<Rightarrow> string" where
  "command_pattern c = (case c of Subscribe p _ \<Rightarrow> p | Unsubscribe p \<Rightarrow> p)"

definition subscribes_last :: "string \<Rightarrow> broker_command list \<Rightarrow> bool" where
  \<comment> \<open>the last call on a pattern subscribes\<close>
  "subscribes_last p cs \<longleftrightarrow> (\<exists>l cs1 cs2. cs = cs1 @ Subscribe p l # cs2 \<and> (\<forall>c\<in>set cs2. command_pattern c \<noteq> p))"

definition pubsub_laws :: "(call_history \<Rightarrow> string set) \<Rightarrow> bool" where
  \<comment> \<open>documented of the client library: a pattern on which every call has succeeded is received exactly when the last of them subscribed\<close>
  "pubsub_laws subs \<longleftrightarrow>
     (\<forall>h p. (\<forall>x\<in>set h. command_pattern (fst x) = p \<longrightarrow> snd x = Done) \<longrightarrow> (p \<in> subs h \<longleftrightarrow> subscribes_last p (map fst h)))"

definition redis_inv :: "redis_state \<Rightarrow> bool" where
  "redis_inv s \<longleftrightarrow>
     (\<forall>p. (\<forall>x\<in>set (rs_calls s). command_pattern (fst x) = p \<longrightarrow> snd x \<noteq> Failed) \<longrightarrow>
       (rs_listeners s p \<noteq> [] \<longleftrightarrow> p \<in> rs_subscribedPatterns s) \<and> (p \<in> rs_subscribedPatterns s \<longleftrightarrow> subscribes_last p (map fst (rs_calls s))))"

lemma command_pattern_simps [simp]: "command_pattern (Subscribe p l) = p" "command_pattern (Unsubscribe p) = p"
  by (simp_all add: command_pattern_def)

lemma subscribes_last_Nil [simp]: "\<not> subscribes_last p []"
  by (simp add: subscribes_last_def)

lemma subscribes_last_snoc [simp]:
  "subscribes_last p (cs @ [c]) \<longleftrightarrow> (if command_pattern c = p then \<exists>l. c = Subscribe p l else subscribes_last p cs)"
proof (cases "command_pattern c = p")
  case True
  have "cs2 = []" if "cs @ [c] = cs1 @ Subscribe p l # cs2" "\<forall>c\<in>set cs2. command_pattern c \<noteq> p" for l cs1 cs2
    using that True by (cases cs2 rule: rev_cases) auto
  then show ?thesis using True unfolding subscribes_last_def by fastforce
next
  case False
  have "(\<exists>l cs1 cs2. cs @ [c] = cs1 @ Subscribe p l # cs2 \<and> (\<forall>c\<in>set cs2. command_pattern c \<noteq> p)) \<longleftrightarrow>
    (\<exists>l cs1 cs2. cs = cs1 @ Subscribe p l # cs2 \<and> (\<forall>c\<in>set cs2. command_pattern c \<noteq> p))" (is "?L \<longleftrightarrow> ?R")
  proof
    assume ?L
    then obtain l cs1 cs2 where e: "cs @ [c] = cs1 @ Subscribe p l # cs2" "\<forall>c\<in>set cs2. command_pattern c \<noteq> p" by blast
    then show ?R using False by (cases cs2 rule: rev_cases) auto
  next
    assume ?R
    then obtain l cs1 cs2 where e: "cs = cs1 @ Subscribe p l # cs2" "\<forall>c\<in>set cs2. command_pattern c \<noteq> p" by blast
    then have "cs @ [c] = cs1 @ Subscribe p l # (cs2 @ [c]) \<and> (\<forall>c\<in>set (cs2 @ [c]). command_pattern c \<noteq> p)" using False by simp
    then show ?L by blast
  qed
  then show ?thesis using False by (simp add: subscribes_last_def)
qed

lemma off_listener_simps [simp]:
  "rs_calls (off_listener p l s) = rs_calls s" "rs_subscribedPatterns (off_listener p l s) = rs_subscribedPatterns s"
  "q \<noteq> p \<Longrightarrow> rs_listeners (off_listener p l s) q = rs_listeners s q"
  by (simp_all add: off_listener_def)

lemma off_listener_nonempty: "rs_listeners (off_listener p l s) p \<noteq> [] \<Longrightarrow> rs_listeners s p \<noteq> []"
  by (auto simp: off_listener_def)

lemma redis_inv_init: "redis_inv redis_init"
  by (simp add: redis_inv_def redis_init_def)

lemma redis_inv_add: "redis_inv s \<Longrightarrow> redis_inv (addPatternListener p l s)"
  by (auto simp: redis_inv_def addPatternListener_def Let_def)

lemma redis_inv_remove: "redis_inv s \<Longrightarrow> redis_inv (removePatternListener p l s)"
proof -
  assume inv: "redis_inv s"
  show "redis_inv (removePatternListener p l s)"
  proof (cases "rs_listeners (off_listener p l s) p = []")
    case True
    then show ?thesis using inv by (auto simp: redis_inv_def removePatternListener_def Let_def)
  next
    case False
    then have "rs_listeners (off_listener p l s) q \<noteq> [] \<longleftrightarrow> rs_listeners s q \<noteq> []" for q
      using off_listener_nonempty [OF False] by (cases "q = p") simp_all
    then show ?thesis using inv False unfolding redis_inv_def removePatternListener_def by (simp add: Let_def)
  qed
qed

lemma calls_of_answer:
  assumes "i < length h"
  shows "map fst (h[i := (fst (h ! i), a)]) = map fst h"
    and "(fst (h ! i), a) \<in> set (h[i := (fst (h ! i), a)])"
    and "snd (h ! i) = Pending \<Longrightarrow> x \<in> set h \<Longrightarrow> snd x = Failed \<Longrightarrow> x \<in> set (h[i := (fst (h ! i), a)])"
proof -
  show "map fst (h[i := (fst (h ! i), a)]) = map fst h" using assms by (metis fst_conv list_update_id map_update)
  show "(fst (h ! i), a) \<in> set (h[i := (fst (h ! i), a)])" using assms by (rule set_update_memI)
  show "x \<in> set (h[i := (fst (h ! i), a)])" if "snd (h ! i) = Pending" "x \<in> set h" "snd x = Failed"
    using that assms by (metis call_answer.distinct(3) in_set_conv_nth length_list_update nth_list_update_neq)
qed

lemma redis_inv_answer:
  assumes "redis_inv s" and "i < length (rs_calls s)" and "snd (rs_calls s ! i) = Pending"
  shows "redis_inv (answer_call i a s)"
  using assms(1) calls_of_answer [OF assms(2)] assms(3) by (fastforce simp: redis_inv_def answer_call_def)

lemma redis_inv_subscribe_failed:
  assumes "redis_inv s" and "(Subscribe p l, Failed) \<in> set (rs_calls s)"
  shows "redis_inv (subscribe_failed p l s)"
  unfolding redis_inv_def
proof (intro allI impI)
  fix q assume "\<forall>x\<in>set (rs_calls (subscribe_failed p l s)). command_pattern (fst x) = q \<longrightarrow> snd x \<noteq> Failed"
  then have ok: "\<forall>x\<in>set (rs_calls s). command_pattern (fst x) = q \<longrightarrow> snd x \<noteq> Failed" by (simp add: subscribe_failed_def)
  then have "q \<noteq> p" using assms(2) by force
  then show "(rs_listeners (subscribe_failed p l s) q \<noteq> [] \<longleftrightarrow> q \<in> rs_subscribedPatterns (subscribe_failed p l s)) \<and>
    (q \<in> rs_subscribedPatterns (subscribe_failed p l s) \<longleftrightarrow> subscribes_last q (map fst (rs_calls (subscribe_failed p l s))))"
    using assms(1) ok by (simp add: subscribe_failed_def redis_inv_def)
qed

lemma redis_inv_step: "redis_step s t \<Longrightarrow> redis_inv s \<Longrightarrow> redis_inv t"
proof (induction rule: redis_step.induct)
  case (fail_subscribe i s p l)
  then have "redis_inv (answer_call i Failed s)" by (simp add: redis_inv_answer)
  moreover have "(Subscribe p l, Failed) \<in> set (rs_calls (answer_call i Failed s))"
    using calls_of_answer(2) [OF fail_subscribe(1), of Failed] fail_subscribe(2) by (simp add: answer_call_def)
  ultimately show ?case by (rule redis_inv_subscribe_failed)
qed (simp_all add: redis_inv_add redis_inv_remove redis_inv_answer)


lemma redis_steps: "redis_step\<^sup>*\<^sup>* a s \<Longrightarrow> redis_step\<^sup>*\<^sup>* a (addPatternListener p l s)" "redis_step\<^sup>*\<^sup>* a s \<Longrightarrow> redis_step\<^sup>*\<^sup>* a (removePatternListener p l s)"
  by (blast intro: rtranclp.rtrancl_into_rtrancl redis_step.intros)+

definition ex_subs :: "call_history \<Rightarrow> string set" where
  "ex_subs h = fold (\<lambda>(c, a) S. if a \<noteq> Done then S else case c of Subscribe p l \<Rightarrow> insert p S | Unsubscribe p \<Rightarrow> S - {p}) h {}"

lemma ex_subs_laws: "pubsub_laws ex_subs"
proof -
  have "p \<in> ex_subs h \<longleftrightarrow> subscribes_last p (map fst h)"
    if "\<forall>x\<in>set h. command_pattern (fst x) = p \<longrightarrow> snd x = Done" for h p
    using that
  proof (induction h rule: rev_induct)
    case (snoc x h)
    obtain c a where x: "x = (c, a)" by (cases x)
    show ?case using snoc x by (cases c) (auto simp: ex_subs_def)
  qed (simp add: ex_subs_def)
  then show ?thesis by (simp add: pubsub_laws_def)
qed


text \<open>
  A subscription that fails loses the other listeners of its pattern: one that was added while the
  call was pending stays registered, and no call is pending, or was ever answered well, that would
  subscribe its pattern.
\<close>

theorem failed_subscription_orphans:
  "\<exists>s. redis_step\<^sup>*\<^sup>* redis_init s \<and> rs_calls s = [(Subscribe p 1, Failed)] \<and> rs_listeners s p = [2] \<and> p \<notin> rs_subscribedPatterns s"
proof -
  define s where "s = addPatternListener p 2 (addPatternListener p 1 redis_init)"
  have q: "rs_calls s = [(Subscribe p 1, Pending)]" by (simp add: s_def addPatternListener_def redis_init_def)
  have "redis_step\<^sup>*\<^sup>* redis_init s" unfolding s_def by (intro redis_steps) simp
  also have "redis_step s (subscribe_failed p 1 (answer_call 0 Failed s))" by (rule redis_step.fail_subscribe) (simp_all add: q)
  finally have "redis_step\<^sup>*\<^sup>* redis_init (subscribe_failed p 1 (answer_call 0 Failed s))" .
  then show ?thesis
    by (intro exI conjI) (assumption, simp_all add: subscribe_failed_def off_listener_def answer_call_def s_def addPatternListener_def redis_init_def)
qed

subsection \<open>Who receives an event\<close>

fun glob :: "string \<Rightarrow> string \<Rightarrow> bool" where
  \<comment> \<open>a star stands for any text, every other character for itself\<close>
  "glob [] s = (s = [])"
| "glob (p # ps) [] = (p = CHR ''*'' \<and> glob ps [])"
| "glob (p # ps) (c # s) = (if p = CHR ''*'' then glob ps (c # s) \<or> glob (p # ps) s else c = p \<and> glob ps s)"

definition plain :: "string \<Rightarrow> bool" where
  "plain s \<longleftrightarrow> set s \<inter> {CHR ''*'', CHR ''?'', CHR ''['', CHR '']'', CHR 0x5C, CHR ''^'', CHR '':''} = {}"

definition psub_laws :: "(string \<Rightarrow> string \<Rightarrow> bool) \<Rightarrow> bool" where
  \<comment> \<open>the meaning of a pattern whose only special character is the star\<close>
  "psub_laws psub \<longleftrightarrow> (\<forall>p s. set p \<inter> {CHR ''?'', CHR ''['', CHR '']'', CHR 0x5C, CHR ''^''} = {} \<longrightarrow> psub p s = glob p s)"

lemma glob_literal: "CHR ''*'' \<notin> set lit \<Longrightarrow> glob (lit @ ps) s \<longleftrightarrow> (\<exists>t. s = lit @ t \<and> glob ps t)"
proof (induction lit arbitrary: s)
  case (Cons a lit)
  then show ?case by (cases s) auto
qed simp

lemma glob_star: "glob ps t \<Longrightarrow> glob (CHR ''*'' # ps) (u @ t)"
proof (induction u)
  case Nil
  then show ?case by (cases t) auto
qed simp

definition filters :: "string list \<Rightarrow> string list option \<Rightarrow> bool" where
  "filters models operations \<longleftrightarrow> list_all plain models \<and> (case operations of None \<Rightarrow> True | Some os \<Rightarrow> list_all plain os)"

lemma glob_part: "part = ''*'' \<or> part = x \<and> CHR ''*'' \<notin> set x \<Longrightarrow> glob rest t \<Longrightarrow> glob (part @ rest) (x @ t)"
  using glob_star [of rest t x] glob_literal [of x rest "x @ t"] by auto

lemma first_colon:
  assumes "CHR '':'' \<notin> set a" and "CHR '':'' \<notin> set b" and "a @ '':'' @ s = b @ '':'' @ t"
  shows "a = b \<and> s = t"
  using assms
proof (induction a arbitrary: b)
  case Nil
  then show ?case by (cases b) auto
next
  case (Cons x a)
  then show ?case by (cases b) auto
qed

lemma pattern_matches:
  assumes "plain c" and "plain m" and "plain op" and "model = ''*'' \<or> model = m" and "operation = ''*'' \<or> operation = op"
  shows "glob (event_channel c model operation) (event_channel c m op)"
proof -
  have "glob (operation @ []) (op @ [])" by (rule glob_part) (use assms in \<open>auto simp: plain_def\<close>)
  then have "glob ('':'' @ operation) ('':'' @ op)" by simp
  then have "glob (model @ '':'' @ operation) (m @ '':'' @ op)" by (rule glob_part [rotated]) (use assms in \<open>auto simp: plain_def\<close>)
  moreover have "CHR ''*'' \<notin> set (''db-events:'' @ c @ '':'')" using assms(1) by (auto simp: plain_def)
  ultimately show ?thesis using glob_literal [of "''db-events:'' @ c @ '':''" "model @ '':'' @ operation" "event_channel c m op"] by (simp add: event_channel_def)
qed

lemma pattern_client:
  assumes "plain c" and "plain c'" and "glob (event_channel c model operation) (event_channel c' m op)"
  shows "c = c'"
proof -
  have "CHR ''*'' \<notin> set (''db-events:'' @ c @ '':'')" using assms(1) by (auto simp: plain_def)
  from glob_literal [OF this, of "model @ '':'' @ operation" "event_channel c' m op"] assms(3)
  obtain t where "event_channel c' m op = (''db-events:'' @ c @ '':'') @ t" by (auto simp: event_channel_def)
  then have "c' @ '':'' @ (m @ '':'' @ op) = c @ '':'' @ t" by (simp add: event_channel_def)
  with first_colon [of c' c] assms show ?thesis by (auto simp: plain_def)
qed

lemma plain_operation:
  assumes "operation \<in> set EMITTED_OPERATIONS"
  shows "plain (cleanedOperation operation)"
proof -
  have "list_all (\<lambda>x. plain (cleanedOperation x)) EMITTED_OPERATIONS" by (simp add: EMITTED_OPERATIONS_def cleanedOperation_def plain_def)
  then show ?thesis using assms by (simp add: list_all_iff)
qed

text \<open>
  C35: events stay inside a client and reach exactly the listeners that ask for them: a page that listens with
  the token of a client receives the announcement of a write if and only if the write was made under a
  grant for the same client and its model, its kind of operation and its identifier are among those asked
  for. (Neither the site nor the scope of the token is looked at. Identifiers, names of models and operations are
  assumed to have no colon and none of the special characters of patterns, as identifiers of the database have none:
  \<open>plain\<close>, \<open>filters\<close>.)
\<close>

theorem events_stay_in_client:
  assumes laws: "psub_laws psub" and e: "emitModelEvent model operation resultId g = Some m"
    and plain: "plain c" "plain (ag_clientId g)" "plain model" "filters (lo_models opts) (lo_operations opts)"
  shows "delivered psub c opts m \<noteq> None \<longleftrightarrow> c = ag_clientId g \<and> model \<in> set (lo_models opts)
     \<and> (case lo_operations opts of None \<Rightarrow> True | Some os \<Rightarrow> cleanedOperation operation \<in> set os)
     \<and> (case lo_ids opts of None \<Rightarrow> True | Some is \<Rightarrow> (\<exists>i\<in>set is. resultId = Some i))"
proof -
  define pm where "pm = (if 1 < length (lo_models opts) then ''*'' else nullish_or (at0 (lo_models opts)) ''undefined'')"
  define po where "po = (case lo_operations opts of Some [op] \<Rightarrow> op | _ \<Rightarrow> ''*'')"
  have pattern: "channelPattern c opts = event_channel c pm po" by (simp add: channelPattern_def pm_def po_def)
  have m: "m = (event_channel (ag_clientId g) model (cleanedOperation operation), \<lparr>ev_model = model, ev_operation = cleanedOperation operation, ev_id = resultId\<rparr>)"
    using e by (simp_all add: emitModelEvent_def Let_def split: if_split_asm)
  have op: "plain (cleanedOperation operation)" by (rule plain_operation) (use e in \<open>auto simp: emitModelEvent_def split: if_split_asm\<close>)
  have "plain pm \<or> pm = ''*''" using plain(4) by (cases "lo_models opts") (auto simp: pm_def filters_def plain_def)
  moreover have "plain po \<or> po = ''*''" using plain(4) by (auto simp: po_def filters_def split: option.splits list.splits)
  ultimately have special: "set (channelPattern c opts) \<inter> {CHR ''?'', CHR ''['', CHR '']'', CHR 0x5C, CHR ''^''} = {}"
    using plain(1) unfolding pattern event_channel_def plain_def by auto
  have psub: "psub (channelPattern c opts) (fst m) = glob (event_channel c pm po) (event_channel (ag_clientId g) model (cleanedOperation operation))"
    using laws special unfolding psub_laws_def pattern m by simp
  have listener: "messageListener opts (snd m) \<noteq> None \<longleftrightarrow> model \<in> set (lo_models opts)
     \<and> (case lo_operations opts of None \<Rightarrow> True | Some os \<Rightarrow> cleanedOperation operation \<in> set os)
     \<and> (case lo_ids opts of None \<Rightarrow> True | Some is \<Rightarrow> (\<exists>i\<in>set is. resultId = Some i))"
    by (auto simp: messageListener_def m split: option.splits)
  show ?thesis
  proof (cases "messageListener opts (snd m) = None")
    case True
    then show ?thesis using listener by (auto simp: delivered_def)
  next
    case False
    then have M: "model \<in> set (lo_models opts)" and O: "case lo_operations opts of None \<Rightarrow> True | Some os \<Rightarrow> cleanedOperation operation \<in> set os"
      using listener by blast+
    have "pm = ''*'' \<or> pm = model" using M by (cases "lo_models opts") (auto simp: pm_def)
    moreover have "po = ''*'' \<or> po = cleanedOperation operation" using O by (auto simp: po_def split: option.splits list.splits)
    ultimately have "glob (event_channel c pm po) (event_channel c model (cleanedOperation operation))" using plain(1,3) op by (intro pattern_matches)
    then have "psub (channelPattern c opts) (fst m) \<longleftrightarrow> c = ag_clientId g" unfolding psub using pattern_client [OF plain(1,2)] by auto
    then show ?thesis using False listener by (simp add: delivered_def)
  qed
qed

theorem events_stay_in_client_witness:
  "\<exists>m. emitModelEvent ''Asset'' ''updateMany'' (Some ''a1'') (ex_grant SITE) = Some m
     \<and> delivered glob ''c1'' \<lparr>lo_models = [''Asset'', ''Tag''], lo_operations = Some [''update''], lo_ids = None\<rparr> m \<noteq> None
     \<and> delivered glob ''c2'' \<lparr>lo_models = [''Asset'', ''Tag''], lo_operations = Some [''update''], lo_ids = None\<rparr> m = None"
proof -
  let ?o = "\<lparr>lo_models = [''Asset'', ''Tag''], lo_operations = Some [''update''], lo_ids = None\<rparr>"
  obtain m where m: "emitModelEvent ''Asset'' ''updateMany'' (Some ''a1'') (ex_grant SITE) = Some m"
    by (simp add: emitModelEvent_def EMITTED_OPERATIONS_def Let_def)
  have laws: "psub_laws glob" by (simp add: psub_laws_def)
  have p: "plain ''c1''" "plain ''c2''" "plain (ag_clientId (ex_grant SITE))" "plain ''Asset''" "filters (lo_models ?o) (lo_operations ?o)"
    by (simp_all add: plain_def filters_def ex_grant_def)
  have "delivered glob ''c1'' ?o m \<noteq> None" using events_stay_in_client [OF laws m p(1,3,4,5)] by (simp add: ex_grant_def cleanedOperation_def)
  moreover have "delivered glob ''c2'' ?o m = None" using events_stay_in_client [OF laws m p(2,3,4,5)] by (simp add: ex_grant_def)
  ultimately show ?thesis using m by blast
qed

end
