(* ===== verification/Stats.thy ===== *)
theory Stats
  imports Notifications
begin

section \<open>The history of compliance\<close>

text \<open>
  \<^verbatim>\<open>src/src/stats/stats.service.ts\<close>: for each of the last months, which assets were inspected in time. Two
  queries are merged: the latest inspection of each asset up to a cutoff and, when more than one month is
  asked for, all inspections from the cutoff on. The clock is read twice (\<open>now0\<close> for the cutoff, \<open>now1\<close> for
  the first date). The functions of date-fns are parameters; the number of months is an integer. The
  product of an asset is carried along and not modelled.
\<close>

record stats_env =
  se_startOfMonth :: "time \<Rightarrow> time"
  se_endOfMonth :: "time \<Rightarrow> time"
  se_subMonths :: "time \<Rightarrow> nat \<Rightarrow> time"
  se_isAfter :: "time \<Rightarrow> time \<Rightarrow> bool"
  se_isBefore :: "time \<Rightarrow> time \<Rightarrow> bool"
  se_differenceInDays :: "time \<Rightarrow> time \<Rightarrow> int"

type_synonym inspected_asset = "asset_row \<times> inspection_row list"

record compliance_stats =
  ch_endDate :: time
  ch_dueLater :: "inspected_asset list"
  ch_dueSoon :: "inspected_asset list"
  ch_inspected :: "inspected_asset list" \<comment> \<open>not compliant\<close>
  ch_neverInspected :: "inspected_asset list"
  ch_totalAssets :: nat
  ch_totalCompliant :: nat
  ch_totalNonCompliant :: nat

definition cutoff_date :: "stats_env \<Rightarrow> time \<Rightarrow> nat \<Rightarrow> time" where
  "cutoff_date env now0 months = (if months = 1 then now0 else se_startOfMonth env (se_subMonths env now0 months))"

definition inspections_desc :: "rls_session \<Rightarrow> (inspection_row \<Rightarrow> bool) \<Rightarrow> asset_db \<Rightarrow> id \<Rightarrow> inspection_row list" where
  \<comment> \<open>\<open>orderBy: {createdOn: 'desc'}\<close>\<close>
  "inspections_desc sess P a i = sort_key (\<lambda>n. - is_createdOn n) (filter (\<lambda>n. inspection_visible sess n \<and> is_assetId n = i \<and> P n) (ad_inspections a))"

definition stats_assets :: "rls_session \<Rightarrow> id option \<Rightarrow> 'z mail_db_scheme \<Rightarrow> asset_row list" where
  "stats_assets sess siteId db =
     filter (\<lambda>a. asset_visible sess a \<and> as_active a \<and> (case siteId of None \<Rightarrow> True | Some s \<Rightarrow> as_siteId a = s)
        \<and> list_ex (\<lambda>s. site_visible sess s \<and> st_id s = as_siteId a \<and> st_active s) (db_sites (md_tenant db))) (ad_assets (md_assets db))"

definition getAssetInspections :: "rls_session \<Rightarrow> id option \<Rightarrow> time \<Rightarrow> bool \<Rightarrow> 'z mail_db_scheme \<Rightarrow> inspected_asset list" where
  "getAssetInspections sess siteId cutoff latestOnlyBeforeCutoff db =
     map (\<lambda>a. (a, if latestOnlyBeforeCutoff then take 1 (inspections_desc sess (\<lambda>n. is_createdOn n \<le> cutoff) (md_assets db) (as_id a))
               else inspections_desc sess (\<lambda>n. cutoff \<le> is_createdOn n) (md_assets db) (as_id a))) (stats_assets sess siteId db)"

definition merge_asset :: "(id, inspected_asset) jmap \<Rightarrow> inspected_asset \<Rightarrow> inspected_asset" where
  "merge_asset byDate a =
     (let latest = at0 (snd a);
          after = (case map_of byDate (as_id (fst a)) of None \<Rightarrow> []
             | Some b \<Rightarrow> filter (\<lambda>i. case latest of None \<Rightarrow> True | Some l \<Rightarrow> is_id i \<noteq> is_id l) (snd b))
      in (fst a, after @ (case latest of None \<Rightarrow> [] | Some l \<Rightarrow> [l])))"

definition mergedAssetInspections :: "stats_env \<Rightarrow> rls_session \<Rightarrow> time \<Rightarrow> nat \<Rightarrow> id option \<Rightarrow> 'z mail_db_scheme \<Rightarrow> inspected_asset list" where
  "mergedAssetInspections env sess now0 months siteId db =
     (let cutoff = cutoff_date env now0 months;
          byDate = (if 1 < months then getAssetInspections sess siteId cutoff False db else []);
          m = foldl (\<lambda>m a. AList.update (as_id (fst a)) a m) [] byDate
      in map (merge_asset m) (getAssetInspections sess siteId cutoff True db))"

definition clientDefaultInspectionCycle :: "rls_session \<Rightarrow> 'z mail_db_scheme \<Rightarrow> int" where
  "clientDefaultInspectionCycle sess db =
     nullish_or (map_option cf_defaultInspectionCycle (at0 (filter (\<lambda>c. client_visible sess (client_row.truncate c)) (md_clients db)))) 30"

definition dueSoonThreshold :: "int \<Rightarrow> int" where
  "dueSoonThreshold c = max (c - 7) (c div 2)"

definition stats_of_asset :: "stats_env \<Rightarrow> int \<Rightarrow> time \<Rightarrow> compliance_stats \<Rightarrow> inspected_asset \<Rightarrow> compliance_stats" where
  "stats_of_asset env defaultCycle d st asset =
     (if se_isAfter env (as_createdOn (fst asset)) d then st
      else
        (let st1 = st\<lparr>ch_totalAssets := ch_totalAssets st + 1\<rparr>
         in case at0 (filter (\<lambda>i. se_isBefore env (is_createdOn i) d) (snd asset)) of
              None \<Rightarrow> st1\<lparr>ch_neverInspected := ch_neverInspected st1 @ [asset], ch_totalNonCompliant := ch_totalNonCompliant st1 + 1\<rparr>
            | Some latestInspection \<Rightarrow>
                (let days = se_differenceInDays env d (is_createdOn latestInspection);
                     cycle = nullish_or (as_inspectionCycle (fst asset)) defaultCycle
                 in if days < dueSoonThreshold cycle
                    then st1\<lparr>ch_dueLater := ch_dueLater st1 @ [asset], ch_totalCompliant := ch_totalCompliant st1 + 1\<rparr>
                    else if days < cycle
                    then st1\<lparr>ch_dueSoon := ch_dueSoon st1 @ [asset], ch_totalCompliant := ch_totalCompliant st1 + 1\<rparr>
                    else st1\<lparr>ch_inspected := ch_inspected st1 @ [asset], ch_totalNonCompliant := ch_totalNonCompliant st1 + 1\<rparr>)))"

definition complianceStats :: "stats_env \<Rightarrow> int \<Rightarrow> inspected_asset list \<Rightarrow> time \<Rightarrow> compliance_stats" where
  "complianceStats env defaultCycle assets d =
     foldl (stats_of_asset env defaultCycle d)
       \<lparr>ch_endDate = d, ch_dueLater = [], ch_dueSoon = [], ch_inspected = [], ch_neverInspected = [], ch_totalAssets = 0, ch_totalCompliant = 0, ch_totalNonCompliant = 0\<rparr>
       assets"

primrec history_date :: "stats_env \<Rightarrow> time \<Rightarrow> nat \<Rightarrow> time" where
  "history_date env now1 0 = now1"
| "history_date env now1 (Suc n) = se_endOfMonth env (se_subMonths env (history_date env now1 n) 1)"

definition getComplianceHistoryByMonth ::
    "stats_env \<Rightarrow> rls_session \<Rightarrow> time \<Rightarrow> time \<Rightarrow> nat \<Rightarrow> id option \<Rightarrow> 'z mail_db_scheme \<Rightarrow> compliance_stats list" where
  "getComplianceHistoryByMonth env sess now0 now1 months siteId db =
     (let assets = mergedAssetInspections env sess now0 months siteId db
      in map (\<lambda>n. complianceStats env (clientDefaultInspectionCycle sess db) assets (history_date env now1 n)) [0..<months])"

subsection \<open>The reference: what an asset's state was at a date\<close>

datatype compliance = DueLater | DueSoon | Overdue | Never

definition latest_before :: "time \<Rightarrow> time set \<Rightarrow> time option" where
  "latest_before d S = (if {t \<in> S. t < d} = {} then None else Some (Max {t \<in> S. t < d}))"

definition compliance_at :: "stats_env \<Rightarrow> rls_session \<Rightarrow> int \<Rightarrow> asset_db \<Rightarrow> time \<Rightarrow> asset_row \<Rightarrow> compliance" where
  \<comment> \<open>from all inspections of the table\<close>
  "compliance_at env sess defaultCycle db d a =
     (case latest_before d (is_createdOn ` {n \<in> set (ad_inspections db). inspection_visible sess n \<and> is_assetId n = as_id a}) of
        None \<Rightarrow> Never
      | Some t \<Rightarrow>
          (let days = se_differenceInDays env d t; c = nullish_or (as_inspectionCycle a) defaultCycle
           in if days < max (c - 7) (c div 2) then DueLater else if days < c then DueSoon else Overdue))"

definition stats_laws :: "stats_env \<Rightarrow> bool" where
  "stats_laws env \<longleftrightarrow> (\<forall>a b. (se_isAfter env a b \<longleftrightarrow> b < a) \<and> (se_isBefore env a b \<longleftrightarrow> a < b))"

subsection \<open>The merged list has the latest inspection\<close>

lemma first_before:
  assumes "sorted (map (\<lambda>n. - t n) xs)"
  shows "map_option t (at0 (filter (\<lambda>n. t n < (d :: int)) xs)) = latest_before d (t ` set xs)"
proof (cases "filter (\<lambda>n. t n < d) xs")
  case Nil
  then have "{u \<in> t ` set xs. u < d} = {}" by (auto simp: filter_empty_conv)
  then show ?thesis using Nil by (simp add: latest_before_def)
next
  case (Cons x ys)
  have s: "sorted (map (\<lambda>n. - t n) (x # ys))" unfolding Cons [symmetric] using assms by (rule sorted_filter)
  have eq: "{u \<in> t ` set xs. u < d} = t ` set (x # ys)" unfolding Cons [symmetric] by auto
  have "Max (t ` set (x # ys)) = t x" by (rule Max_eqI) (use s in auto)
  then show ?thesis using Cons by (simp add: latest_before_def eq)
qed

lemma latest_before_same:
  assumes "finite S" and "T \<subseteq> S" and "\<And>u. u \<in> S \<Longrightarrow> u < d \<Longrightarrow> \<exists>v\<in>T. u \<le> v \<and> v < (d :: int)"
  shows "latest_before d T = latest_before d S"
proof (cases "{u \<in> S. u < d} = {}")
  case True
  then show ?thesis using assms(2) by (auto simp: latest_before_def)
next
  case False
  let ?S = "{u \<in> S. u < d}" and ?T = "{u \<in> T. u < d}"
  have fin: "finite ?S" "finite ?T" using assms(1,2) by (auto intro: finite_subset)
  have ne: "?T \<noteq> {}" using False assms(3) by blast
  have "Max ?T \<le> Max ?S" by (rule Max_mono) (use assms(2) ne fin in auto)
  moreover have "Max ?S \<in> ?S" using Max_in [OF fin(1) False] .
  then obtain v where "v \<in> ?T" "Max ?S \<le> v" using assms(3) by auto
  then have "Max ?S \<le> Max ?T" using fin(2) by (meson Max_ge order_trans)
  ultimately show ?thesis using False ne by (simp add: latest_before_def)
qed

lemma by_date_map:
  "map_of (foldl (\<lambda>m a. AList.update (as_id (fst a)) a m) [] (map (\<lambda>a. (a, g (as_id a))) as)) i =
     (if i \<in> as_id ` set as then Some (last (filter (\<lambda>a. as_id (fst a) = i) (map (\<lambda>a. (a, g (as_id a))) as))) else None)"
  by (induction as rule: rev_induct) (auto simp: update_conv')

lemma by_date_inspections:
  assumes "a \<in> set as"
  shows "\<exists>b. map_of (foldl (\<lambda>m a. AList.update (as_id (fst a)) a m) [] (map (\<lambda>a. (a, g (as_id a))) as)) (as_id a) = Some b \<and> snd b = g (as_id a)"
proof -
  let ?xs = "filter (\<lambda>b. as_id (fst b) = as_id a) (map (\<lambda>a. (a, g (as_id a))) as)"
  have "?xs \<noteq> []" using assms by (force simp: filter_empty_conv)
  then have "last ?xs \<in> set ?xs" by (rule last_in_set)
  then have "snd (last ?xs) = g (as_id a)" by auto
  then show ?thesis using assms by (simp add: by_date_map)
qed

definition inspection_times :: "rls_session \<Rightarrow> asset_db \<Rightarrow> id \<Rightarrow> time set" where
  "inspection_times sess db i = is_createdOn ` {n \<in> set (ad_inspections db). inspection_visible sess n \<and> is_assetId n = i}"

lemma desc_sorted: "sorted (map (\<lambda>n. - is_createdOn n) (inspections_desc sess P db i))"
  by (simp add: inspections_desc_def)

lemma desc_set: "set (inspections_desc sess P db i) = {n \<in> set (ad_inspections db). inspection_visible sess n \<and> is_assetId n = i \<and> P n}"
  by (auto simp: inspections_desc_def)

lemma desc_first:
  assumes "at0 (inspections_desc sess P db i) = Some l" and "n \<in> set (inspections_desc sess P db i)"
  shows "is_createdOn n \<le> is_createdOn l"
  using assms desc_sorted [of sess P db i] by (cases "inspections_desc sess P db i") auto

definition merged_inspections :: "rls_session \<Rightarrow> time \<Rightarrow> bool \<Rightarrow> asset_db \<Rightarrow> id \<Rightarrow> inspection_row list" where
  "merged_inspections sess cutoff later db i =
     (let latest = at0 (inspections_desc sess (\<lambda>n. is_createdOn n \<le> cutoff) db i)
      in (if later then filter (\<lambda>n. case latest of None \<Rightarrow> True | Some l \<Rightarrow> is_id n \<noteq> is_id l) (inspections_desc sess (\<lambda>n. cutoff \<le> is_createdOn n) db i) else [])
         @ (case latest of None \<Rightarrow> [] | Some l \<Rightarrow> [l]))"

lemma merged_eq:
  "mergedAssetInspections env sess now0 months siteId db =
     map (\<lambda>a. (a, merged_inspections sess (cutoff_date env now0 months) (1 < months) (md_assets db) (as_id a))) (stats_assets sess siteId db)"
proof -
  let ?c = "cutoff_date env now0 months"
  let ?g = "inspections_desc sess (\<lambda>n. ?c \<le> is_createdOn n) (md_assets db)"
  have first: "at0 (take (Suc 0) xs) = at0 xs" for xs :: "inspection_row list" by (cases xs) simp_all
  have "merge_asset (foldl (\<lambda>m a. AList.update (as_id (fst a)) a m) [] (if 1 < months then getAssetInspections sess siteId ?c False db else []))
      (a, take 1 (inspections_desc sess (\<lambda>n. is_createdOn n \<le> ?c) (md_assets db) (as_id a)))
      = (a, merged_inspections sess ?c (1 < months) (md_assets db) (as_id a))" if a: "a \<in> set (stats_assets sess siteId db)" for a
  proof (cases "1 < months")
    case True
    obtain b where "map_of (foldl (\<lambda>m a. AList.update (as_id (fst a)) a m) [] (getAssetInspections sess siteId ?c False db)) (as_id a) = Some b" "snd b = ?g (as_id a)"
      using by_date_inspections [OF a, of ?g] by (auto simp: getAssetInspections_def)
    then show ?thesis using True by (simp add: merge_asset_def merged_inspections_def first Let_def)
  next
    case False
    then show ?thesis by (simp add: merge_asset_def merged_inspections_def first Let_def)
  qed
  then show ?thesis unfolding mergedAssetInspections_def Let_def getAssetInspections_def [of sess siteId ?c True] by simp
qed

lemma merged_latest:
  assumes "distinct (map is_id (ad_inspections db))" and "cutoff < d" and later: "\<not> later \<Longrightarrow> \<forall>n\<in>set (ad_inspections db). is_createdOn n \<le> cutoff"
  shows "map_option is_createdOn (at0 (filter (\<lambda>n. is_createdOn n < d) (merged_inspections sess cutoff later db i))) = latest_before d (inspection_times sess db i)"
proof -
  let ?m = "merged_inspections sess cutoff later db i"
  let ?old = "inspections_desc sess (\<lambda>n. is_createdOn n \<le> cutoff) db i" and ?new = "inspections_desc sess (\<lambda>n. cutoff \<le> is_createdOn n) db i"
  have same: "m = n" if "m \<in> set (ad_inspections db)" "n \<in> set (ad_inspections db)" "is_id m = is_id n" for m n
    using assms(1) that by (auto simp: distinct_map dest: inj_onD)
  have sorted: "sorted (map (\<lambda>n. - is_createdOn n) ?m)"
    using sorted_filter [OF desc_sorted [of sess "\<lambda>n. cutoff \<le> is_createdOn n" db i]]
    by (force simp: merged_inspections_def Let_def sorted_append desc_set dest!: at0_SomeD split: option.splits)
  have "n \<in> set (ad_inspections db) \<and> inspection_visible sess n \<and> is_assetId n = i" if "n \<in> set ?m" for n
    using that at0_SomeD [of ?old] by (cases "at0 ?old") (auto simp: merged_inspections_def Let_def desc_set split: if_splits)
  then have sub: "is_createdOn ` set ?m \<subseteq> inspection_times sess db i" unfolding inspection_times_def by blast
  have "\<exists>v\<in>is_createdOn ` set ?m. is_createdOn n \<le> v \<and> v < d"
    if n: "n \<in> set (ad_inspections db)" "inspection_visible sess n" "is_assetId n = i" "is_createdOn n < d" for n
  proof (cases "is_createdOn n \<le> cutoff")
    case True
    then have "n \<in> set ?old" using n by (simp add: desc_set)
    then obtain l where l: "at0 ?old = Some l" by (cases ?old) auto
    have "is_createdOn l \<le> cutoff" using at0_SomeD [OF l] by (simp add: desc_set)
    moreover have "l \<in> set ?m" using l by (simp add: merged_inspections_def Let_def)
    ultimately show ?thesis using desc_first [OF l \<open>n \<in> set ?old\<close>] assms(2) by (intro bexI [of _ "is_createdOn l"]) auto
  next
    case False
    then have "later" using later n(1) by force
    have "l \<noteq> n" if "at0 ?old = Some l" for l using at0_SomeD [OF that] False by (auto simp: desc_set)
    then have "is_id n \<noteq> is_id l" if "at0 ?old = Some l" for l using at0_SomeD [OF that] same [of n l] n(1) that by (auto simp: desc_set)
    then have "n \<in> set ?m" using False n \<open>later\<close> by (auto simp: merged_inspections_def Let_def desc_set split: option.splits)
    then show ?thesis using n(4) by auto
  qed
  then have "latest_before d (is_createdOn ` set ?m) = latest_before d (inspection_times sess db i)"
    by (intro latest_before_same sub) (auto simp: inspection_times_def)
  then show ?thesis using first_before [OF sorted, of d] by simp
qed

subsection \<open>The record of a month\<close>

definition state_of :: "stats_env \<Rightarrow> int \<Rightarrow> time \<Rightarrow> inspected_asset \<Rightarrow> compliance" where
  "state_of env defaultCycle d asset =
     (case at0 (filter (\<lambda>i. se_isBefore env (is_createdOn i) d) (snd asset)) of
        None \<Rightarrow> Never
      | Some l \<Rightarrow>
          (let days = se_differenceInDays env d (is_createdOn l); c = nullish_or (as_inspectionCycle (fst asset)) defaultCycle
           in if days < max (c - 7) (c div 2) then DueLater else if days < c then DueSoon else Overdue))"

definition in_state :: "stats_env \<Rightarrow> int \<Rightarrow> time \<Rightarrow> compliance \<Rightarrow> inspected_asset list \<Rightarrow> inspected_asset list" where
  "in_state env defaultCycle d k xs = filter (\<lambda>x. \<not> se_isAfter env (as_createdOn (fst x)) d \<and> state_of env defaultCycle d x = k) xs"

lemma complianceStats_eq:
  "complianceStats env defaultCycle xs d =
     \<lparr>ch_endDate = d, ch_dueLater = in_state env defaultCycle d DueLater xs, ch_dueSoon = in_state env defaultCycle d DueSoon xs,
      ch_inspected = in_state env defaultCycle d Overdue xs, ch_neverInspected = in_state env defaultCycle d Never xs,
      ch_totalAssets = length (filter (\<lambda>x. \<not> se_isAfter env (as_createdOn (fst x)) d) xs),
      ch_totalCompliant = length (in_state env defaultCycle d DueLater xs) + length (in_state env defaultCycle d DueSoon xs),
      ch_totalNonCompliant = length (in_state env defaultCycle d Overdue xs) + length (in_state env defaultCycle d Never xs)\<rparr>"
proof (induction xs rule: rev_induct)
  case Nil
  then show ?case by (simp add: complianceStats_def in_state_def)
next
  case (snoc x xs)
  have "complianceStats env defaultCycle (xs @ [x]) d = stats_of_asset env defaultCycle d (complianceStats env defaultCycle xs d) x" by (simp add: complianceStats_def)
  also have "\<dots> = (if se_isAfter env (as_createdOn (fst x)) d then complianceStats env defaultCycle xs d
      else (let st = (complianceStats env defaultCycle xs d)\<lparr>ch_totalAssets := ch_totalAssets (complianceStats env defaultCycle xs d) + 1\<rparr>
            in case state_of env defaultCycle d x of
                 DueLater \<Rightarrow> st\<lparr>ch_dueLater := ch_dueLater st @ [x], ch_totalCompliant := ch_totalCompliant st + 1\<rparr>
               | DueSoon \<Rightarrow> st\<lparr>ch_dueSoon := ch_dueSoon st @ [x], ch_totalCompliant := ch_totalCompliant st + 1\<rparr>
               | Overdue \<Rightarrow> st\<lparr>ch_inspected := ch_inspected st @ [x], ch_totalNonCompliant := ch_totalNonCompliant st + 1\<rparr>
               | Never \<Rightarrow> st\<lparr>ch_neverInspected := ch_neverInspected st @ [x], ch_totalNonCompliant := ch_totalNonCompliant st + 1\<rparr>))"
    by (cases "at0 (filter (\<lambda>i. se_isBefore env (is_createdOn i) d) (snd x))") (simp_all add: stats_of_asset_def state_of_def dueSoonThreshold_def Let_def)
  finally show ?case unfolding snoc by (cases "state_of env defaultCycle d x") (simp_all add: in_state_def)
qed

lemma states_partition:
  "length (filter (\<lambda>x. \<not> se_isAfter env (as_createdOn (fst x)) d) xs) = length (in_state env c d DueLater xs) + length (in_state env c d DueSoon xs)
     + (length (in_state env c d Overdue xs) + length (in_state env c d Never xs))"
proof (induction xs)
  case (Cons x xs)
  then show ?case by (cases "state_of env c d x") (auto simp: in_state_def)
qed (simp add: in_state_def)

lemma state_of_merged:
  assumes laws: "stats_laws env" and "distinct (map is_id (ad_inspections db))" and "cutoff < d" and "\<not> later \<Longrightarrow> \<forall>n\<in>set (ad_inspections db). is_createdOn n \<le> cutoff"
  shows "state_of env c d (a, merged_inspections sess cutoff later db (as_id a)) = compliance_at env sess c db d a"
proof -
  let ?x = "at0 (filter (\<lambda>n. is_createdOn n < d) (merged_inspections sess cutoff later db (as_id a)))"
  have before: "se_isBefore env u v \<longleftrightarrow> u < v" for u v using laws by (simp add: stats_laws_def)
  have "latest_before d (inspection_times sess db (as_id a)) = map_option is_createdOn ?x" by (rule merged_latest [OF assms(2-4), symmetric])
  then show ?thesis unfolding state_of_def compliance_at_def before inspection_times_def snd_conv fst_conv by (cases ?x) simp_all
qed

text \<open>
  C39: the history of compliance is exact although it is computed from two partial queries: for every month
  asked for, the assets that existed then are sorted by the state they were in according to all of their
  inspections up to that date, each into exactly one of the four lists, and the totals are the sizes of the
  lists. Assumed are the order of dates, that every date of the history is after the cutoff, that
  inspections have distinct identifiers, and for a single month that no inspection is dated in the future.
\<close>

theorem compliance_history_correct:
  assumes laws: "stats_laws env" and ids: "distinct (map is_id (ad_inspections (md_assets db)))" and n: "n < months"
    and later: "cutoff_date env now0 months < history_date env now1 n"
    and one: "months = 1 \<longrightarrow> (\<forall>r\<in>set (ad_inspections (md_assets db)). is_createdOn r \<le> now0)"
  shows "let st = getComplianceHistoryByMonth env sess now0 now1 months siteId db ! n; d = history_date env now1 n;
           there = filter (\<lambda>a. as_createdOn a \<le> d) (stats_assets sess siteId db);
           k = (\<lambda>s. filter (\<lambda>a. compliance_at env sess (clientDefaultInspectionCycle sess db) (md_assets db) d a = s) there)
         in ch_endDate st = d \<and> map fst (ch_dueLater st) = k DueLater \<and> map fst (ch_dueSoon st) = k DueSoon
            \<and> map fst (ch_inspected st) = k Overdue \<and> map fst (ch_neverInspected st) = k Never
            \<and> ch_totalAssets st = length there \<and> ch_totalCompliant st = length (k DueLater) + length (k DueSoon)
            \<and> ch_totalAssets st = ch_totalCompliant st + ch_totalNonCompliant st"
proof -
  let ?d = "history_date env now1 n" and ?c = "clientDefaultInspectionCycle sess db" and ?db = "md_assets db"
  let ?cut = "cutoff_date env now0 months"
  let ?f = "\<lambda>a. (a, merged_inspections sess ?cut (1 < months) ?db (as_id a))"
  let ?xs = "map ?f (stats_assets sess siteId db)"
  have past: "\<forall>r\<in>set (ad_inspections ?db). is_createdOn r \<le> ?cut" if "\<not> 1 < months"
    using that n one by (simp add: cutoff_date_def)
  have after: "\<not> se_isAfter env u v \<longleftrightarrow> u \<le> v" for u v using laws by (auto simp: stats_laws_def)
  have state: "state_of env ?c ?d (?f a) = compliance_at env sess ?c ?db ?d a" for a by (rule state_of_merged [OF laws ids later past])
  have lists: "map fst (in_state env ?c ?d s ?xs) = filter (\<lambda>a. compliance_at env sess ?c ?db ?d a = s) (filter (\<lambda>a. as_createdOn a \<le> ?d) (stats_assets sess siteId db))" for s
    unfolding in_state_def filter_map map_map comp_def state after fst_conv by (simp add: conj_commute)
  have there: "length (filter (\<lambda>x. \<not> se_isAfter env (as_createdOn (fst x)) ?d) ?xs) = length (filter (\<lambda>a. as_createdOn a \<le> ?d) (stats_assets sess siteId db))"
    by (simp add: filter_map comp_def after)
  have st: "getComplianceHistoryByMonth env sess now0 now1 months siteId db ! n = complianceStats env ?c ?xs ?d"
    using n by (simp add: getComplianceHistoryByMonth_def Let_def merged_eq)
  show ?thesis unfolding Let_def st complianceStats_eq
    using lists [of DueLater] lists [of DueSoon] lists [of Overdue] lists [of Never] there states_partition [of env ?d ?xs ?c] by (simp add: length_map [of fst, symmetric] del: length_map)
qed

text \<open>
  On example data: the asset was inspected on day 75 and on day 95. Today is day 100, and at the end of the
  previous month, day 89, only the first inspection counts.
\<close>

definition ex_stats_env :: stats_env where
  "ex_stats_env = \<lparr>se_startOfMonth = (\<lambda>t. t - t mod 30), se_endOfMonth = (\<lambda>t. t - t mod 30 + 29), se_subMonths = (\<lambda>t n. t - 30 * int n),
     se_isAfter = (\<lambda>a b. b < a), se_isBefore = (\<lambda>a b. a < b), se_differenceInDays = (-)\<rparr>"

definition ex_stats_db :: mail_db where
  "ex_stats_db = ex_mail_db\<lparr>md_assets := (md_assets ex_mail_db)\<lparr>ad_inspections :=
     [ex_inspection\<lparr>is_createdOn := 75\<rparr>, ex_inspection\<lparr>is_id := ''i2'', is_createdOn := 95\<rparr>]\<rparr>\<rparr>"

theorem compliance_history_correct_witness:
  "let st = getComplianceHistoryByMonth ex_stats_env Bypass 100 100 2 None ex_stats_db ! 1
   in ch_endDate st = 89 \<and> map fst (ch_dueLater st) = ad_assets (md_assets ex_stats_db) \<and> ch_totalAssets st = 1 \<and> ch_totalNonCompliant st = 0"
proof -
  let ?there = "filter (\<lambda>a. as_createdOn a \<le> 89) (stats_assets Bypass None ex_stats_db)"
  have laws: "stats_laws ex_stats_env" by (simp add: stats_laws_def ex_stats_env_def)
  have ids: "distinct (map is_id (ad_inspections (md_assets ex_stats_db)))" by code_simp
  have later: "cutoff_date ex_stats_env 100 2 < history_date ex_stats_env 100 1" by code_simp
  have date: "history_date ex_stats_env 100 1 = 89" by code_simp
  have there: "?there = ad_assets (md_assets ex_stats_db)" by code_simp
  have at: "filter (\<lambda>a. compliance_at ex_stats_env Bypass (clientDefaultInspectionCycle Bypass ex_stats_db) (md_assets ex_stats_db) 89 a = DueLater) ?there = ?there"
    by code_simp
  have one: "length ?there = 1" by code_simp
  show ?thesis
    using compliance_history_correct [OF laws ids _ later, of Bypass None] unfolding date Let_def at unfolding there unfolding there [symmetric] one by simp
qed

end
