(* ===== verification/Legacy_Db.thy ===== *)
theory Legacy_Db
  imports Notifications Inspection_Routes
begin

section \<open>The legacy migration: data, prompts and the monad of its steps\<close>

text \<open>
  \<^verbatim>\<open>src/src/legacy-migration\<close> moves one client of an older system into this one while an operator answers
  questions over a web socket. This theory has the rows of the old database
  (\<^verbatim>\<open>types/legacy-models.ts\<close>), the tables of the new one with the columns the migration writes, the prompts
  and their schemas (\<^verbatim>\<open>utils/prompt-schema.ts\<close>, \<^verbatim>\<open>legacy-migration.gateway.ts\<close>), and a monad of state and
  exceptions in which \<open>Legacy_Migration\<close> writes the steps. The messages of the operator are a list; its end
  is the disconnection. The events that are sent are recorded. External: the identifiers the database
  generates, the clocks, the case-insensitive comparison of the database.
\<close>

subsection \<open>The rows of the legacy database\<close>

record legacy_client =
  c_no :: int
  c_id :: "string option"
  c_name :: string
  c_date_insert :: "time option"
  c_status :: int
  c_phone :: "string option"
  c_www :: "string option"

record legacy_location =
  loc_no :: int
  loc_id :: "string option"
  loc_c_no :: "int option"
  loc_name :: "string option"
  loc_phone :: "string option"
  loc_type :: "int option"
  loc_date_insert :: "time option"
  loc_addr1 :: "string option"
  loc_addr2 :: "string option"
  loc_city :: "string option"
  loc_state :: "string option"
  loc_zip :: "string option"
  loc_status :: "int option"
  loc_group_no :: "int option"

record legacy_group =
  group_no :: int
  group_id :: "string option"
  group_c_no :: "int option"
  group_name :: "string option"
  group_desc :: "string option"
  group_status :: "int option"

record legacy_asset =
  a_no :: int
  a_id :: "string option"
  a_t_no :: "int option"
  a_t_id :: "string option"
  a_loc_no :: "int option"
  a_loc_id :: "string option"
  a_location :: "string option"
  a_placement :: "string option"
  a_serial :: "string option"
  a_p_no :: "int option"
  a_sort :: "int option"
  a_cat_no :: "int option"
  a_mfg_no :: "int option"
  a_date_insert :: "time option"
  a_status :: "int option"

record legacy_product =
  p_no :: int
  p_id :: "string option"
  p_mfg_no :: "int option"
  p_mfg_id :: "string option"
  p_c_no :: "int option"
  p_type :: "int option"
  p_name :: "string option"
  p_desc :: "string option"
  p_sku :: "string option"
  p_cat_no :: "int option"
  p_image_url :: "string option"
  p_sales_url :: "string option"
  p_date_insert :: "time option"
  p_status :: "int option"

record legacy_category =
  cat_no :: int
  cat_id :: "string option"
  cat_name :: "string option"
  cat_nic :: "string option"
  cat_desc :: "string option"
  cat_icon :: "string option"
  cat_color :: "string option"
  cat_image :: "string option"
  cat_c_no :: "int option"
  cat_date_insert :: "time option"
  cat_status :: "int option"

record legacy_manufacturer =
  mfg_no :: int
  mfg_id :: "string option"
  mfg_c_no :: "int option"
  mfg_name :: "string option"
  mfg_www :: "string option"
  mfg_date_insert :: "time option"
  mfg_status :: "int option"

record legacy_tag =
  t_no :: int
  t_id :: "string option"
  t_serial :: "int option"
  t_c_no :: "int option"
  t_loc_no :: "int option"
  t_a_no :: "int option"
  t_date_setup :: "time option"

record legacy_db =
  ldb_clients :: "legacy_client list"
  ldb_locations :: "legacy_location list"
  ldb_groups :: "legacy_group list"
  ldb_assets :: "legacy_asset list"
  ldb_products :: "legacy_product list"
  ldb_categories :: "legacy_category list"
  ldb_manufacturers :: "legacy_manufacturer list"
  ldb_tags :: "legacy_tag list"

subsection \<open>The tables the migration writes\<close>

record address =
  adr_street1 :: string
  adr_street2 :: "string option"
  adr_city :: string
  adr_state :: "string option"
  adr_zip :: "string option"

record mig_client = client_full +
  mc_legacyClientId :: "string option"
  mc_createdOn :: time
  mc_startedOn :: time
  mc_phoneNumber :: string
  mc_homeUrl :: "string option"
  mc_address :: address

record mig_site = site_row +
  mt_legacySiteId :: "string option"
  mt_legacyGroupId :: "string option"
  mt_phoneNumber :: string
  mt_address :: address

record mig_tag = tag_row +
  mg_legacyTagId :: "string option"

record mig_asset = asset_row +
  ma_legacyAssetId :: "string option"
  ma_location :: string
  ma_placement :: string

record mig_product = catalog_product +
  mp_legacyProductId :: "string option"
  mp_createdOn :: time
  mp_active :: bool
  mp_description :: "string option"
  mp_sku :: "string option"
  mp_productUrl :: "string option"
  mp_imageUrl :: "string option"

record mig_category = category_row +
  mk_legacyCategoryId :: "string option"
  mk_createdOn :: time
  mk_active :: bool
  mk_description :: "string option"
  mk_clientId :: "id option"

record mig_manufacturer =
  mf_id :: id
  mf_legacyManufacturerId :: "string option"
  mf_createdOn :: time
  mf_active :: bool
  mf_name :: string
  mf_homeUrl :: "string option"
  mf_clientId :: "id option"

record mig_db =
  gd_clients :: "mig_client list"
  gd_sites :: "mig_site list"
  gd_tags :: "mig_tag list"
  gd_assets :: "mig_asset list"
  gd_products :: "mig_product list"
  gd_categories :: "mig_category list"
  gd_manufacturers :: "mig_manufacturer list"
  gd_routes :: "route_row list"
  gd_points :: "point_row list"

subsection \<open>Prompts, events and errors\<close>

datatype prompt_data =
    Ask_Select string "(string \<times> int) list"
  | Ask_Address string "address option"
  | Ask_Phone string "string option"
  | Ask_Confirm string
  | Ask_Text string

datatype event_level = Info | Warning | Success

datatype ws_event =
    Alert event_level string
  | Prompt prompt_data
  | Prompt_Validation_Error prompt_data
  | Prompt_Response_Ack

datatype mig_error =
    ConnectionNotInitialized
  | WsClose nat string
  | ClientDisconnected
  | DbError string

record mig_env =
  le_newId :: "nat \<Rightarrow> id" \<comment> \<open>the identifiers \<open>cuid(2)\<close>, in the order they are used\<close>
  le_clock :: "nat \<Rightarrow> time" \<comment> \<open>the readings of \<open>new Date()\<close>\<close>
  le_txNow :: time \<comment> \<open>\<open>now()\<close> of the database: the start of the transaction\<close>
  le_ieq :: "string \<Rightarrow> string \<Rightarrow> bool" \<comment> \<open>\<open>mode: 'insensitive'\<close>\<close>
  le_connects :: bool \<comment> \<open>the pool gives a connection\<close>

record mig_state =
  ms_db :: mig_db
  ms_answers :: "json list"
  ms_events :: "ws_event list"
  ms_ids :: nat
  ms_reads :: nat

type_synonym 'a mig = "mig_state \<Rightarrow> (mig_error + 'a) \<times> mig_state"

definition mreturn :: "'a \<Rightarrow> 'a mig" where
  "mreturn x = (\<lambda>s. (Inr x, s))"

definition mfail :: "mig_error \<Rightarrow> 'a mig" where
  "mfail e = (\<lambda>s. (Inl e, s))"

definition mbind :: "'a mig \<Rightarrow> ('a \<Rightarrow> 'b mig) \<Rightarrow> 'b mig" where
  "mbind m f = (\<lambda>s. case m s of (Inl e, s') \<Rightarrow> (Inl e, s') | (Inr x, s') \<Rightarrow> f x s')"

definition mseq :: "unit mig \<Rightarrow> 'b mig \<Rightarrow> 'b mig" where
  "mseq m n = mbind m (\<lambda>_. n)"

primrec mfor :: "('x \<Rightarrow> 'a \<Rightarrow> 'a mig) \<Rightarrow> 'x list \<Rightarrow> 'a \<Rightarrow> 'a mig" where
  \<comment> \<open>\<open>for (const x of xs)\<close>, with the local variables of the loop as \<open>acc\<close>\<close>
  "mfor f [] acc = mreturn acc"
| "mfor f (x # xs) acc = mbind (f x acc) (mfor f xs)"

definition mread :: "(mig_db \<Rightarrow> 'a) \<Rightarrow> 'a mig" where
  "mread f = (\<lambda>s. (Inr (f (ms_db s)), s))"

definition mwrite :: "(mig_db \<Rightarrow> mig_db) \<Rightarrow> unit mig" where
  "mwrite f = (\<lambda>s. (Inr (), s\<lparr>ms_db := f (ms_db s)\<rparr>))"

definition new_id :: "mig_env \<Rightarrow> id mig" where
  "new_id env = (\<lambda>s. (Inr (le_newId env (ms_ids s)), s\<lparr>ms_ids := Suc (ms_ids s)\<rparr>))"

definition new_Date :: "mig_env \<Rightarrow> time mig" where
  "new_Date env = (\<lambda>s. (Inr (le_clock env (ms_reads s)), s\<lparr>ms_reads := Suc (ms_reads s)\<rparr>))"

definition emitEvent :: "ws_event \<Rightarrow> unit mig" where
  "emitEvent e = (\<lambda>s. (Inr (), s\<lparr>ms_events := ms_events s @ [e]\<rparr>))"

text \<open>\<open>initPrompt\<close>: ask until the answer fits the schema; each answer is acknowledged.\<close>

fun await_answer :: "(json \<Rightarrow> 'a option) \<Rightarrow> prompt_data \<Rightarrow> ws_event list \<Rightarrow> json list \<Rightarrow> 'a option \<times> ws_event list \<times> json list" where
  "await_answer parse p evs [] = (None, evs, [])"
| "await_answer parse p evs (m # ms) =
     (case parse m of
        Some x \<Rightarrow> (Some x, evs @ [Prompt_Response_Ack], ms)
      | None \<Rightarrow> await_answer parse p (evs @ [Prompt_Response_Ack, Prompt_Validation_Error p]) ms)"

definition initPrompt :: "(json \<Rightarrow> 'a option) \<Rightarrow> prompt_data \<Rightarrow> 'a mig" where
  "initPrompt parse p =
     (\<lambda>s. case await_answer parse p (ms_events s @ [Prompt p]) (ms_answers s) of
        (None, evs, ms) \<Rightarrow> (Inl ClientDisconnected, s\<lparr>ms_events := evs, ms_answers := ms\<rparr>)
      | (Some x, evs, ms) \<Rightarrow> (Inr x, s\<lparr>ms_events := evs, ms_answers := ms\<rparr>))"

text \<open>The schemas: an object with a \<open>value\<close>; other keys are ignored.\<close>

definition json_field :: "string \<Rightarrow> json \<Rightarrow> json option" where
  "json_field k v = (case v of JObj kvs \<Rightarrow> map_of kvs k | _ \<Rightarrow> None)"

definition json_str :: "json option \<Rightarrow> string option" where
  "json_str v = (case v of Some (JStr s) \<Rightarrow> Some s | _ \<Rightarrow> None)"

definition stringValueSchema :: "json \<Rightarrow> string option" where
  "stringValueSchema v = json_str (json_field ''value'' v)"

definition numberValueSchema :: "json \<Rightarrow> rat option" where
  \<comment> \<open>\<open>z.coerce.number()\<close>: no NaN and no infinity\<close>
  "numberValueSchema v =
     (case json_field ''value'' v of None \<Rightarrow> None
      | Some w \<Rightarrow> (case js_number w of Num q \<Rightarrow> Some q | _ \<Rightarrow> None))"

definition booleanValueSchema :: "json \<Rightarrow> bool option" where
  "booleanValueSchema v = (case json_field ''value'' v of Some (JBool b) \<Rightarrow> Some b | _ \<Rightarrow> None)"

definition createAddressSchema :: "json \<Rightarrow> address option" where
  "createAddressSchema v =
     (case (json_str (json_field ''street1'' v), json_str (json_field ''city'' v), json_str (json_field ''state'' v), json_str (json_field ''zip'' v)) of
        (Some s1, Some c, Some st, Some z) \<Rightarrow>
          (case json_field ''street2'' v of
             None \<Rightarrow> Some \<lparr>adr_street1 = s1, adr_street2 = None, adr_city = c, adr_state = Some st, adr_zip = Some z\<rparr>
           | Some (JStr s2) \<Rightarrow> Some \<lparr>adr_street1 = s1, adr_street2 = Some s2, adr_city = c, adr_state = Some st, adr_zip = Some z\<rparr>
           | _ \<Rightarrow> None)
      | _ \<Rightarrow> None)"

definition addressValueSchema :: "json \<Rightarrow> address option" where
  "addressValueSchema v = Option.bind (json_field ''value'' v) createAddressSchema"

text \<open>\<open>new Map(pairs)\<close>.\<close>

definition jmap_of :: "('k \<times> 'v) list \<Rightarrow> ('k, 'v) jmap" where
  "jmap_of ps = foldl (\<lambda>m (k, v). AList.update k v m) [] ps"

subsection \<open>Proof rules\<close>

text \<open>
  \<open>wp m Q s\<close>: if \<open>m\<close> returns a value from \<open>s\<close>, then \<open>Q\<close> holds of the value and the state after it.
\<close>

named_theorems wp_rules \<open>weakest preconditions of the primitive steps\<close>

definition wp :: "'a mig \<Rightarrow> ('a \<Rightarrow> mig_state \<Rightarrow> bool) \<Rightarrow> mig_state \<Rightarrow> bool" where
  "wp m Q s = (case m s of (Inl _, _) \<Rightarrow> True | (Inr x, s') \<Rightarrow> Q x s')"

lemma wp_return [wp_rules]: "wp (mreturn x) Q s = Q x s"
  by (simp add: wp_def mreturn_def)

lemma wp_fail [wp_rules]: "wp (mfail e) Q s"
  by (simp add: wp_def mfail_def)

lemma wp_bind [wp_rules]: "wp (mbind m f) Q = wp m (\<lambda>x. wp (f x) Q)"
  by (auto simp: fun_eq_iff wp_def mbind_def split: prod.splits sum.splits)

lemma wp_seq [wp_rules]: "wp (mseq m n) Q = wp m (\<lambda>_. wp n Q)"
  by (simp add: mseq_def wp_bind)

lemma wp_read [wp_rules]: "wp (mread f) Q s = Q (f (ms_db s)) s"
  by (simp add: wp_def mread_def)

lemma wp_write [wp_rules]: "wp (mwrite f) Q s = Q () (s\<lparr>ms_db := f (ms_db s)\<rparr>)"
  by (simp add: wp_def mwrite_def)

lemma wp_new_id [wp_rules]: "wp (new_id env) Q s = Q (le_newId env (ms_ids s)) (s\<lparr>ms_ids := Suc (ms_ids s)\<rparr>)"
  by (simp add: wp_def new_id_def)

lemma wp_new_Date [wp_rules]: "wp (new_Date env) Q s = Q (le_clock env (ms_reads s)) (s\<lparr>ms_reads := Suc (ms_reads s)\<rparr>)"
  by (simp add: wp_def new_Date_def)

lemma wp_emit [wp_rules]: "wp (emitEvent e) Q s = Q () (s\<lparr>ms_events := ms_events s @ [e]\<rparr>)"
  by (simp add: wp_def emitEvent_def)

lemma wp_mono: "wp m Q s \<Longrightarrow> (\<And>x s'. Q x s' \<Longrightarrow> R x s') \<Longrightarrow> wp m R s"
  by (auto simp: wp_def split: prod.splits sum.splits)

lemma wp_prompt: "(\<And>x evs ms. Q x (s\<lparr>ms_events := evs, ms_answers := ms\<rparr>)) \<Longrightarrow> wp (initPrompt parse p) Q s"
  by (auto simp: wp_def initPrompt_def split: prod.splits option.splits)

lemma wp_for:
  assumes "I acc s" and "\<And>x acc s. x \<in> set xs \<Longrightarrow> I acc s \<Longrightarrow> wp (f x acc) I s"
  shows "wp (mfor f xs acc) I s"
  using assms
proof (induction xs arbitrary: acc s)
  case Nil
  then show ?case by (simp add: wp_return)
next
  case (Cons x xs)
  have "wp (f x acc) (\<lambda>acc'. wp (mfor f xs acc') I) s"
    by (rule wp_mono [where Q = I]) (use Cons in auto)
  then show ?case by (simp add: wp_bind)
qed

lemma wpD: "wp m Q s \<Longrightarrow> m s = (Inr x, s') \<Longrightarrow> Q x s'"
  by (simp add: wp_def)

lemma map_of_jmap_of: "map_of (jmap_of ps) = map_of (rev ps)"
  by (induction ps rule: rev_induct) (auto simp: jmap_of_def update_conv' fun_eq_iff)

lemma jmap_of_SomeD: "map_of (jmap_of ps) k = Some v \<Longrightarrow> (k, v) \<in> set ps"
  by (metis map_of_jmap_of map_of_SomeD set_rev)

lemma jmap_of_mem: "(k, v) \<in> set (jmap_of ps) \<Longrightarrow> (k, v) \<in> set ps"
proof (induction ps rule: rev_induct)
  case (snoc p ps)
  have up: "x = (a, b) \<or> x \<in> set m" if "x \<in> set (AList.update a b m)" for x a b and m :: "('a \<times> 'b) list"
    using that by (induction m) (auto split: if_splits)
  show ?case using snoc up by (fastforce simp: jmap_of_def split: prod.splits)
qed (simp add: jmap_of_def)

text \<open>A prompt is answered by the first message that fits the schema; the ones before it are refused.\<close>

lemma await_answer_eq:
  "await_answer parse p evs ms =
     (let bad = takeWhile (\<lambda>m. parse m = None) ms; rest = dropWhile (\<lambda>m. parse m = None) ms;
          refused = evs @ concat (map (\<lambda>_. [Prompt_Response_Ack, Prompt_Validation_Error p]) bad)
      in case rest of [] \<Rightarrow> (None, refused, []) | m # ms' \<Rightarrow> (parse m, refused @ [Prompt_Response_Ack], ms'))"
proof (induction ms arbitrary: evs)
  case (Cons m ms)
  then show ?case by (cases "parse m") (simp_all add: Let_def cong: list.case_cong)
qed simp

end
