(* ===== verification/Legacy_Catalog.thy ===== *)
theory Legacy_Catalog
  imports Legacy_Db
begin

section \<open>The legacy migration: products, categories, manufacturers and tags\<close>

text \<open>
  The \<open>getOrMigrate\<close> steps of \<^verbatim>\<open>legacy-migration.service.ts\<close>: each looks for the row of the new system that
  stands for a row of the old one, and otherwise links or creates one. The column \<open>type\<close> of a product,
  always \<open>PRIMARY\<close> here, is left out.
\<close>

definition nonzero :: "int option \<Rightarrow> bool" where
  "nonzero n = (case n of None \<Rightarrow> False | Some i \<Rightarrow> i \<noteq> 0)"

definition pick_candidate :: "('r \<Rightarrow> string option) \<Rightarrow> string option \<Rightarrow> 'r list \<Rightarrow> 'r option" where
  "pick_candidate legacyId i candidates =
     (case find_by legacyId i candidates of Some c \<Rightarrow> Some c | None \<Rightarrow> at0 candidates)"

definition set_row :: "('r \<Rightarrow> id) \<Rightarrow> id \<Rightarrow> ('r \<Rightarrow> 'r) \<Rightarrow> 'r list \<Rightarrow> 'r list" where
  \<comment> \<open>\<open>update({where: {id}, data})\<close>\<close>
  "set_row key i f rows = map (\<lambda>x. if key x = i then f x else x) rows"

lemma set_row_ids: "(\<And>x. key (f x) = key x) \<Longrightarrow> map key (set_row key i f rows) = map key rows"
  by (simp add: set_row_def)

lemma set_row_id_set: "(\<And>x. key (f x) = key x) \<Longrightarrow> key ` set (set_row key i f rows) = key ` set rows"
  unfolding list.set_map [symmetric] by (simp add: set_row_ids)

definition catalog_client :: "int option \<Rightarrow> legacy_client \<Rightarrow> id \<Rightarrow> id option" where
  \<comment> \<open>a row of the client itself; client 1 stands for all\<close>
  "catalog_client n legacyClient newClientId =
     (case n of None \<Rightarrow> None | Some i \<Rightarrow> if 1 < i \<and> i = c_no legacyClient then Some newClientId else None)"

subsection \<open>Icons and colours\<close>

definition starts_with :: "string \<Rightarrow> string \<Rightarrow> bool" where
  "starts_with pre s = (take (length pre) s = pre)"

definition cleanIcon :: "string option \<Rightarrow> string option" where
  "cleanIcon icon =
     (if \<not> truthy icon then None
      else map_option (drop 3) (at0 (filter (\<lambda>p. starts_with ''fa-'' p \<and> p \<noteq> ''fa-solid'') (split_on CHR '' '' (the icon)))))"

definition is_hex :: "char \<Rightarrow> bool" where
  "is_hex c = (hex_val c \<noteq> None)"

definition color_regex :: "string \<Rightarrow> bool" where
  \<comment> \<open>\<open>/^#?[A-Fa-f0-9]{3}|[A-Fa-f0-9]{6}$/\<close>: either alternative, the first anchored at the start, the second at the end\<close>
  "color_regex s =
     ((let t = (if starts_with ''#'' s then drop 1 s else s) in 3 \<le> length (takeWhile is_hex t))
      \<or> 6 \<le> length (takeWhile is_hex (rev s)))"

definition cleanColor :: "string option \<Rightarrow> string option" where
  "cleanColor color =
     (if \<not> truthy color then None
      else if color_regex (trim (the color)) then Some (CHR ''#'' # remove1 CHR ''#'' (trim (the color)))
      else color)"

subsection \<open>Categories and manufacturers\<close>

definition trim_or_empty :: "string option \<Rightarrow> string" where
  \<comment> \<open>\<open>s?.trim() ?? ''\<close>\<close>
  "trim_or_empty s = nullish_or (map_option trim s) []"

definition category_matches :: "mig_env \<Rightarrow> id \<Rightarrow> legacy_category \<Rightarrow> mig_category \<Rightarrow> bool" where
  "category_matches env newClientId k r =
     ((mk_clientId r = None \<or> mk_clientId r = Some newClientId)
      \<and> (mk_legacyCategoryId r = cat_id k
         \<or> (case ct_shortName r of None \<Rightarrow> False | Some s \<Rightarrow> le_ieq env s (trim_or_empty (cat_nic k)))))"

definition new_category :: "mig_env \<Rightarrow> id \<Rightarrow> id option \<Rightarrow> legacy_category \<Rightarrow> mig_category" where
  "new_category env i client k =
     \<lparr>ct_id = i, ct_name = nullish_or (cat_name k) ''Unknown'', ct_shortName = Some (nullish_or (cat_nic k) []),
      ct_icon = cleanIcon (cat_icon k), ct_color = cleanColor (cat_color k), mk_legacyCategoryId = cat_id k,
      mk_createdOn = nullish_or (cat_date_insert k) (le_txNow env), mk_active = (client \<noteq> None),
      mk_description = Some (nullish_or (cat_desc k) []), mk_clientId = client\<rparr>"

definition getOrMigrateProductCategory :: "mig_env \<Rightarrow> legacy_db \<Rightarrow> legacy_client \<Rightarrow> id \<Rightarrow> int \<Rightarrow> mig_category option mig" where
  "getOrMigrateProductCategory env ldb legacyClient newClientId n =
     (case find_by cat_no n (ldb_categories ldb) of
        None \<Rightarrow> mreturn None
      | Some k \<Rightarrow>
          if \<not> truthy (cat_id k) then mreturn None
          else mbind (mread gd_categories) (\<lambda>rows.
            case pick_candidate mk_legacyCategoryId (cat_id k) (filter (category_matches env newClientId k) rows) of
              None \<Rightarrow>
                mbind (new_id env) (\<lambda>i.
                let r = new_category env i (catalog_client (cat_c_no k) legacyClient newClientId) k
                in mseq (mwrite (\<lambda>db. db\<lparr>gd_categories := gd_categories db @ [r]\<rparr>)) (mreturn (Some r)))
            | Some r \<Rightarrow>
                if mk_legacyCategoryId r = None
                then let r' = r\<lparr>mk_legacyCategoryId := cat_id k\<rparr>
                  in mseq (mwrite (\<lambda>db. db\<lparr>gd_categories := set_row ct_id (ct_id r) (\<lambda>x. x\<lparr>mk_legacyCategoryId := cat_id k\<rparr>) (gd_categories db)\<rparr>))
                       (mreturn (Some r'))
                else mreturn (Some r)))"

definition manufacturer_matches :: "mig_env \<Rightarrow> legacy_manufacturer \<Rightarrow> mig_manufacturer \<Rightarrow> bool" where
  "manufacturer_matches env m r =
     (mf_legacyManufacturerId r = mfg_id m \<or> le_ieq env (mf_name r) (nullish_or (mfg_name m) []))"

definition getOrMigrateManufacturer :: "mig_env \<Rightarrow> legacy_db \<Rightarrow> legacy_client \<Rightarrow> id \<Rightarrow> int \<Rightarrow> mig_manufacturer option mig" where
  "getOrMigrateManufacturer env ldb legacyClient newClientId n =
     (case find_by mfg_no n (ldb_manufacturers ldb) of
        None \<Rightarrow> mreturn None
      | Some m \<Rightarrow>
          if \<not> truthy (mfg_id m) then mreturn None
          else mbind (mread gd_manufacturers) (\<lambda>rows.
            case pick_candidate mf_legacyManufacturerId (mfg_id m) (filter (manufacturer_matches env m) rows) of
              None \<Rightarrow>
                mbind (new_id env) (\<lambda>i.
                let r = \<lparr>mf_id = i, mf_legacyManufacturerId = mfg_id m, mf_createdOn = nullish_or (mfg_date_insert m) (le_txNow env),
                          mf_active = False, mf_name = nullish_or (mfg_name m) ''Unknown'', mf_homeUrl = mfg_www m,
                          mf_clientId = catalog_client (mfg_c_no m) legacyClient newClientId\<rparr>
                in mseq (mwrite (\<lambda>db. db\<lparr>gd_manufacturers := gd_manufacturers db @ [r]\<rparr>)) (mreturn (Some r)))
            | Some r \<Rightarrow>
                if mf_legacyManufacturerId r = None
                then mseq (mwrite (\<lambda>db. db\<lparr>gd_manufacturers := set_row mf_id (mf_id r) (\<lambda>x. x\<lparr>mf_legacyManufacturerId := mfg_id m\<rparr>) (gd_manufacturers db)\<rparr>))
                       (mreturn (Some (r\<lparr>mf_legacyManufacturerId := mfg_id m\<rparr>)))
                else mreturn (Some r)))"

subsection \<open>Products\<close>

type_synonym product_basic = "mig_product \<times> mig_category"

definition with_category :: "mig_product \<Rightarrow> product_basic option mig" where
  \<comment> \<open>the selected relation, required in the schema\<close>
  "with_category p =
     mbind (mread gd_categories) (\<lambda>rows.
       case find_by ct_id (pr_categoryId p) rows of
         None \<Rightarrow> mfail (DbError ''Inconsistent query result'')
       | Some k \<Rightarrow> mreturn (Some (p, k)))"

definition generic_product :: "mig_env \<Rightarrow> legacy_db \<Rightarrow> legacy_client \<Rightarrow> id \<Rightarrow> legacy_category \<Rightarrow> product_basic option mig" where
  "generic_product env ldb legacyClient newClientId k =
     mbind (getOrMigrateProductCategory env ldb legacyClient newClientId (cat_no k)) (\<lambda>category.
       case category of
         None \<Rightarrow> mreturn None
       | Some c \<Rightarrow>
           if trim (ct_name c) = [] then mreturn None
           else
             (let prefix = CHR ''#'' # show_int (cat_no k) @ '' '' @ trim (ct_name c); name = prefix @ '' Asset''
              in mbind (mread gd_products) (\<lambda>rows.
                 case List.find (\<lambda>p. cp_name p = name \<and> pr_categoryId p = ct_id c \<and> pr_clientId p = Some newClientId) rows of
                   Some p \<Rightarrow> with_category p
                 | None \<Rightarrow>
                     mbind (new_id env) (\<lambda>m. mbind (new_id env) (\<lambda>i.
                     let mf = \<lparr>mf_id = m, mf_legacyManufacturerId = None, mf_createdOn = le_txNow env, mf_active = True,
                                 mf_name = prefix @ '' Manufacturer'', mf_homeUrl = None, mf_clientId = Some newClientId\<rparr>;
                         p = \<lparr>pr_id = i, pr_categoryId = ct_id c, pr_manufacturerId = m, pr_metadata = None, pr_clientId = Some newClientId,
                                cp_name = name, mp_legacyProductId = None, mp_createdOn = le_txNow env, mp_active = True, mp_description = None,
                                mp_sku = None, mp_productUrl = None, mp_imageUrl = None\<rparr>
                     in mseq (mwrite (\<lambda>db. db\<lparr>gd_manufacturers := gd_manufacturers db @ [mf], gd_products := gd_products db @ [p]\<rparr>)) (with_category p))))))"

definition product_by_name :: "mig_env \<Rightarrow> legacy_product \<Rightarrow> mig_category \<Rightarrow> mig_manufacturer \<Rightarrow> mig_product \<Rightarrow> bool" where
  "product_by_name env lp c m p =
     (le_ieq env (cp_name p) (trim_or_empty (p_name lp)) \<and> pr_manufacturerId p = mf_id m \<and> pr_categoryId p = ct_id c)"

definition link_or_create_product ::
    "mig_env \<Rightarrow> int \<Rightarrow> legacy_product \<Rightarrow> mig_category \<Rightarrow> mig_manufacturer \<Rightarrow> product_basic option mig" where
  "link_or_create_product env legacyProductNo lp c m =
     mbind (mread gd_products) (\<lambda>rows.
       case List.find (product_by_name env lp c m) rows of
         Some p \<Rightarrow>
           (let upd = (\<lambda>x. x\<lparr>mp_legacyProductId := p_id lp, pr_manufacturerId := mf_id m, pr_categoryId := ct_id c\<rparr>)
            in mseq (mwrite (\<lambda>db. db\<lparr>gd_products := set_row pr_id (pr_id p) upd (gd_products db)\<rparr>)) (with_category (upd p)))
       | None \<Rightarrow>
           mbind (new_id env) (\<lambda>i.
           let p = \<lparr>pr_id = i, pr_categoryId = ct_id c, pr_manufacturerId = mf_id m, pr_metadata = None, pr_clientId = None,
                      cp_name = nullish_or (p_name lp) (CHR ''#'' # show_int legacyProductNo), mp_legacyProductId = p_id lp,
                      mp_createdOn = nullish_or (p_date_insert lp) (le_txNow env), mp_active = False,
                      mp_description = Some (nullish_or (p_desc lp) []), mp_sku = Some (nullish_or (p_sku lp) []),
                      mp_productUrl = p_sales_url lp, mp_imageUrl = p_image_url lp\<rparr>
           in mseq (mwrite (\<lambda>db. db\<lparr>gd_products := gd_products db @ [p]\<rparr>)) (with_category p)))"

definition migrate_product :: "mig_env \<Rightarrow> legacy_db \<Rightarrow> legacy_client \<Rightarrow> id \<Rightarrow> int \<Rightarrow> legacy_product \<Rightarrow> product_basic option mig" where
  "migrate_product env ldb legacyClient newClientId legacyProductNo lp =
     (if p_type lp = Some 2 then mreturn None
      else mbind (mread gd_products) (\<lambda>rows.
        case find_by mp_legacyProductId (p_id lp) rows of
          Some p \<Rightarrow> with_category p
        | None \<Rightarrow>
            if \<not> nonzero (p_cat_no lp) \<or> \<not> nonzero (p_mfg_no lp) then mreturn None
            else
              mbind (getOrMigrateProductCategory env ldb legacyClient newClientId (the (p_cat_no lp))) (\<lambda>category.
              mbind (getOrMigrateManufacturer env ldb legacyClient newClientId (the (p_mfg_no lp))) (\<lambda>manufacturer.
                case (category, manufacturer) of
                  (Some c, Some m) \<Rightarrow> link_or_create_product env legacyProductNo lp c m
                | _ \<Rightarrow> mreturn None))))"

definition getOrMigrateProduct :: "mig_env \<Rightarrow> legacy_db \<Rightarrow> legacy_client \<Rightarrow> id \<Rightarrow> int option \<Rightarrow> int option \<Rightarrow> product_basic option mig" where
  "getOrMigrateProduct env ldb legacyClient newClientId legacyProductNo legacyProductCategoryNo =
     (if legacyProductNo = None \<and> legacyProductCategoryNo = None then mreturn None
      else
        (let legacyProduct = (if nonzero legacyProductNo then find_by p_no (the legacyProductNo) (ldb_products ldb) else None);
             legacyProductCategory = (if \<not> nonzero legacyProductNo \<and> nonzero legacyProductCategoryNo
                then find_by cat_no (the legacyProductCategoryNo) (ldb_categories ldb) else None)
         in if (case legacyProduct of None \<Rightarrow> True | Some p \<Rightarrow> \<not> truthy (p_id p)) \<and> (case legacyProductCategory of None \<Rightarrow> True | Some k \<Rightarrow> \<not> truthy (cat_id k))
            then mreturn None
            else (case legacyProduct of
               None \<Rightarrow> (case legacyProductCategory of None \<Rightarrow> mreturn None | Some k \<Rightarrow> generic_product env ldb legacyClient newClientId k)
             | Some p \<Rightarrow> migrate_product env ldb legacyClient newClientId (the legacyProductNo) p)))"

subsection \<open>Tags\<close>

definition tag_serial :: "int \<Rightarrow> string" where
  "tag_serial n = padStart 7 CHR ''0'' (show_int n)"

definition tag_matches :: "legacy_tag \<Rightarrow> mig_tag \<Rightarrow> bool" where
  "tag_matches lt t = (mg_legacyTagId t = t_id lt \<or> (case t_serial lt of None \<Rightarrow> False | Some n \<Rightarrow> tg_serialNumber t = tag_serial n))"

definition tag_claimable :: "mig_site \<Rightarrow> mig_tag \<Rightarrow> bool" where
  "tag_claimable site t =
     ((tg_clientId t = None \<or> tg_clientId t = Some (st_clientId site)) \<and> (tg_siteId t = None \<or> tg_siteId t = Some (st_id site)))"

definition getOrMigrateTag :: "mig_env \<Rightarrow> legacy_db \<Rightarrow> mig_site \<Rightarrow> int \<Rightarrow> mig_tag option mig" where
  "getOrMigrateTag env ldb newSite n =
     (case find_by t_no n (ldb_tags ldb) of
        None \<Rightarrow> mreturn None
      | Some lt \<Rightarrow>
          (case t_serial lt of
             None \<Rightarrow> mreturn None
           | Some serial \<Rightarrow>
               if \<not> truthy (t_id lt) then mreturn None
               else mbind (mread gd_tags) (\<lambda>rows.
                 case pick_candidate mg_legacyTagId (t_id lt) (filter (tag_claimable newSite) (filter (tag_matches lt) rows)) of
                   None \<Rightarrow>
                     mbind (new_id env) (\<lambda>i. mbind (new_id env) (\<lambda>x.
                     let t = \<lparr>tg_id = i, tg_externalId = x, tg_serialNumber = tag_serial serial, tg_siteId = Some (st_id newSite),
                                tg_clientId = Some (st_clientId newSite), mg_legacyTagId = t_id lt\<rparr>
                     in mseq (mwrite (\<lambda>db. db\<lparr>gd_tags := gd_tags db @ [t]\<rparr>)) (mreturn (Some t))))
                 | Some t \<Rightarrow>
                     if tg_clientId t = None \<or> tg_siteId t = None
                     then (let upd = (\<lambda>x. x\<lparr>tg_clientId := Some (st_clientId newSite), tg_siteId := Some (st_id newSite)\<rparr>)
                           in mseq (mwrite (\<lambda>db. db\<lparr>gd_tags := set_row tg_id (tg_id t) upd (gd_tags db)\<rparr>)) (mreturn (Some (upd t))))
                     else mreturn (Some t))))"

end
