(* ===== verification/Legacy_Migration.thy ===== *)
theory Legacy_Migration
  imports Legacy_Catalog
begin

section \<open>The legacy migration: client, sites and assets\<close>

text \<open>
  \<^verbatim>\<open>src/src/legacy-migration/legacy-migration.service.ts\<close>: the operator picks a client, and one transaction
  copies it with its sites and assets and the tour through the assets of each site. The time limit of the
  transaction is left out.
\<close>

subsection \<open>The client to migrate\<close>

definition clientMap :: "legacy_db \<Rightarrow> (rat, legacy_client) jmap" where
  "clientMap ldb = jmap_of (map (\<lambda>c. (of_int (c_no c), c)) (ldb_clients ldb))"

definition clientOptions :: "legacy_db \<Rightarrow> (string \<times> int) list" where
  "clientOptions ldb = map (\<lambda>c. (CHR ''#'' # show_int (c_no c) @ '' '' @ c_name c, c_no c)) (ldb_clients ldb)"

lemma await_answer_shorter: "await_answer parse p evs ms = (Some x, evs', ms') \<Longrightarrow> length ms' < length ms"
  by (induction parse p evs ms rule: await_answer.induct) (auto split: option.splits)

lemma initPrompt_shorter: "initPrompt parse p s = (Inr x, s') \<Longrightarrow> length (ms_answers s') < length (ms_answers s)"
  by (auto simp: initPrompt_def dest: await_answer_shorter split: prod.splits option.splits)

function select_loop :: "legacy_db \<Rightarrow> string \<Rightarrow> legacy_client mig" where
  "select_loop ldb message s =
     (case initPrompt numberValueSchema (Ask_Select message (clientOptions ldb)) s of
        (Inl e, s') \<Rightarrow> (Inl e, s')
      | (Inr q, s') \<Rightarrow>
          (case map_of (clientMap ldb) q of
             Some c \<Rightarrow> (Inr c, s')
           | None \<Rightarrow> select_loop ldb ''Invalid client. Please try again.'' s'))"
  by pat_completeness auto
termination
  by (relation "measure (\<lambda>(_, _, s). length (ms_answers s))") (auto intro: initPrompt_shorter [OF HOL.sym])

declare select_loop.simps [simp del]

definition selectClient :: "legacy_db \<Rightarrow> legacy_client mig" where
  "selectClient ldb = select_loop ldb ''Which client do you want to migrate?''"

subsection \<open>The client\<close>

definition locations_of :: "legacy_db \<Rightarrow> int \<Rightarrow> legacy_location list" where
  \<comment> \<open>\<open>ORDER BY loc_date_insert DESC\<close>: rows without a date are last\<close>
  "locations_of ldb n =
     (let ls = filter (\<lambda>l. loc_c_no l = Some n) (ldb_locations ldb)
      in sort_key (\<lambda>l. - the (loc_date_insert l)) (filter (\<lambda>l. loc_date_insert l \<noteq> None) ls) @ filter (\<lambda>l. loc_date_insert l = None) ls)"

definition primaryLocation :: "legacy_location list \<Rightarrow> legacy_location option" where
  "primaryLocation ls = (case find_by loc_type (Some 1) ls of Some l \<Rightarrow> Some l | None \<Rightarrow> at0 ls)"

definition client_address :: "legacy_location option \<Rightarrow> address option" where
  "client_address l =
     (case l of
        None \<Rightarrow> None
      | Some l \<Rightarrow>
          if truthy (loc_addr1 l) \<and> truthy (loc_city l)
          then Some \<lparr>adr_street1 = trim (the (loc_addr1 l)), adr_street2 = map_option trim (loc_addr2 l), adr_city = trim (the (loc_city l)),
            adr_state = map_option trim (loc_state l), adr_zip = map_option trim (loc_zip l)\<rparr>
          else None)"

definition create_mig_client :: "mig_env \<Rightarrow> legacy_client \<Rightarrow> address \<Rightarrow> string \<Rightarrow> mig_client mig" where
  "create_mig_client env lc address phone =
     mbind (case c_date_insert lc of Some d \<Rightarrow> mreturn d | None \<Rightarrow> new_Date env) (\<lambda>started.
     mbind (new_id env) (\<lambda>i. mbind (new_id env) (\<lambda>x.
     let c = \<lparr>cl_id = i, cl_externalId = x, cl_name = c_name lc, cl_status = LEGACY, cf_demoMode = False, cf_defaultInspectionCycle = 30,
               mc_legacyClientId = c_id lc, mc_createdOn = nullish_or (c_date_insert lc) (le_txNow env), mc_startedOn = started,
               mc_phoneNumber = phone, mc_homeUrl = c_www lc, mc_address = address\<rparr>
     in mseq (mwrite (\<lambda>db. db\<lparr>gd_clients := gd_clients db @ [c]\<rparr>)) (mreturn c))))"

definition migrateClient :: "mig_env \<Rightarrow> legacy_db \<Rightarrow> legacy_client \<Rightarrow> mig_client mig" where
  "migrateClient env ldb lc =
     mseq (emitEvent (Alert Info ''Great! Let me check if this client is already in the new system.''))
     (mbind (mread gd_clients) (\<lambda>clients.
      case find_by mc_legacyClientId (c_id lc) clients of
        None \<Rightarrow>
          mseq (emitEvent (Alert Info ''Looks like it isn't there yet. I'll go ahead and start migrating it over.''))
          (mbind (case client_address (primaryLocation (locations_of ldb (c_no lc))) of
               Some a \<Rightarrow> mreturn a
             | None \<Rightarrow> initPrompt addressValueSchema (Ask_Address (''I couldn't find an address for this client. What's the address for '' @ c_name lc @ ''?'') None)) (\<lambda>address.
           mbind (if truthy (c_phone lc) then mreturn (the (c_phone lc))
             else initPrompt stringValueSchema (Ask_Phone (''I couldn't find a phone number for this client. What's the phone number for '' @ c_name lc @ ''?'') None)) (\<lambda>phone.
           mbind (create_mig_client env lc address phone) (\<lambda>c.
           mseq (emitEvent (Alert Info ''Okay, the client details have been migrated.'')) (mreturn c)))))
      | Some c \<Rightarrow>
          mbind (initPrompt booleanValueSchema (Ask_Confirm ''Okay, it looks like this client has already been migrated. Would you still like to continue?'')) (\<lambda>yes.
          if yes then mreturn c
          else mseq (emitEvent (Alert Info ''Alright, we'll wrap it up there!'')) (mfail (WsClose 1000 ''Migration cancelled.'')))))"

subsection \<open>Sites and site groups\<close>

record site_acc =
  sa_lastAddress :: "address option"
  sa_lastPhoneNumber :: "string option"
  sa_groups :: "(int, id) jmap" \<comment> \<open>\<open>legacyPrimaryKeyToNewSiteGroupIdMap\<close>\<close>
  sa_sites :: "(int, mig_site) jmap" \<comment> \<open>\<open>legacyPrimaryKeyToNewSiteMap\<close>\<close>
  sa_groupCount :: nat
  sa_siteCount :: nat

definition promptForAddress :: "string \<Rightarrow> address option \<Rightarrow> address mig" where
  "promptForAddress message v = initPrompt addressValueSchema (Ask_Address message v)"

definition promptForPhoneNumber :: "string \<Rightarrow> string option \<Rightarrow> string mig" where
  "promptForPhoneNumber message v = initPrompt stringValueSchema (Ask_Phone message v)"

definition create_mig_site :: "mig_env \<Rightarrow> (id \<Rightarrow> id \<Rightarrow> mig_site) \<Rightarrow> mig_site mig" where
  "create_mig_site env row =
     mbind (new_id env) (\<lambda>i. mbind (new_id env) (\<lambda>x.
       let r = row i x
       in mseq (mwrite (\<lambda>db. db\<lparr>gd_sites := gd_sites db @ [r]\<rparr>)) (mreturn r)))"

definition group_site :: "mig_env \<Rightarrow> id \<Rightarrow> legacy_group \<Rightarrow> address \<Rightarrow> string \<Rightarrow> id \<Rightarrow> id \<Rightarrow> mig_site" where
  "group_site env newClientId g address phone i x =
     \<lparr>st_id = i, st_externalId = x, st_name = nullish_or (group_name g) ''Unknown'', st_active = True, st_primary = False,
      st_parentSiteId = None, st_clientId = newClientId, st_createdOn = le_txNow env, mt_legacySiteId = None,
      mt_legacyGroupId = group_id g, mt_phoneNumber = phone, mt_address = address\<rparr>"

definition migrate_group :: "mig_env \<Rightarrow> id \<Rightarrow> (string, id) jmap \<Rightarrow> legacy_group \<Rightarrow> site_acc \<Rightarrow> site_acc mig" where
  "migrate_group env newClientId legacyIds g acc =
     (case group_id g of
        None \<Rightarrow> mreturn acc
      | Some gid \<Rightarrow>
          (case map_of legacyIds gid of
             Some i \<Rightarrow> mreturn (acc\<lparr>sa_groups := AList.update (group_no g) i (sa_groups acc)\<rparr>)
           | None \<Rightarrow>
               (let display = nullish_or (group_name g) ''Unknown'' @ (if truthy (group_desc g) then '' ('' @ the (group_desc g) @ '')'' else [])
                in mbind (promptForAddress (''What's the address for the site group '' @ display @ ''?'') (sa_lastAddress acc)) (\<lambda>address.
                   mbind (promptForPhoneNumber (''What's the phone number for the site group '' @ display @ ''?'') (sa_lastPhoneNumber acc)) (\<lambda>phone.
                   mbind (create_mig_site env (group_site env newClientId g address phone)) (\<lambda>r.
                   mreturn (acc\<lparr>sa_lastAddress := Some address, sa_lastPhoneNumber := Some phone,
                     sa_groups := AList.update (group_no g) (st_id r) (sa_groups acc), sa_groupCount := sa_groupCount acc + 1\<rparr>)))))))"

definition ask_site_name :: "legacy_location \<Rightarrow> string option mig" where
  "ask_site_name l =
     (if \<not> truthy (loc_name l) \<and> (truthy (loc_addr1 l) \<or> truthy (loc_city l))
      then mbind (initPrompt stringValueSchema (Ask_Text (''What's the name for the site located at ''
             @ join_with '', '' (map the (filter truthy [loc_addr1 l, loc_city l, loc_state l, loc_zip l])) @ ''?''))) (\<lambda>n. mreturn (Some n))
      else mreturn (loc_name l))"

definition site_address :: "legacy_location \<Rightarrow> string option \<Rightarrow> address option \<Rightarrow> address mig" where
  "site_address l siteName lastAddress =
     (if truthy (loc_addr1 l) \<and> truthy (loc_city l)
      then mreturn \<lparr>adr_street1 = the (loc_addr1 l), adr_street2 = loc_addr2 l, adr_city = the (loc_city l), adr_state = loc_state l, adr_zip = loc_zip l\<rparr>
      else promptForAddress (''What's the address for the site '' @ nullish_or siteName ''Unknown'' @ ''?'') lastAddress)"

definition site_phone :: "legacy_location \<Rightarrow> string option \<Rightarrow> string option \<Rightarrow> string mig" where
  "site_phone l siteName lastPhone =
     (if truthy (loc_phone l) then mreturn (the (loc_phone l))
      else promptForPhoneNumber (''What's the phone number for the site '' @ nullish_or siteName ''Unknown'' @ ''?'') lastPhone)"

definition location_site :: "mig_env \<Rightarrow> id \<Rightarrow> (int, id) jmap \<Rightarrow> legacy_location \<Rightarrow> string option \<Rightarrow> address \<Rightarrow> string \<Rightarrow> id \<Rightarrow> id \<Rightarrow> mig_site" where
  "location_site env newClientId groups l siteName address phone i x =
     \<lparr>st_id = i, st_externalId = x, st_name = nullish_or siteName (nullish_or (loc_city l) (nullish_or (loc_state l) ''Unknown'')),
      st_active = True, st_primary = False,
      st_parentSiteId = (case loc_group_no l of None \<Rightarrow> None | Some n \<Rightarrow> map_of groups n),
      st_clientId = newClientId, st_createdOn = nullish_or (loc_date_insert l) (le_txNow env), mt_legacySiteId = loc_id l,
      mt_legacyGroupId = None, mt_phoneNumber = phone, mt_address = address\<rparr>"

definition migrate_site :: "mig_env \<Rightarrow> legacy_db \<Rightarrow> id \<Rightarrow> (string, mig_site) jmap \<Rightarrow> legacy_location \<Rightarrow> site_acc \<Rightarrow> site_acc mig" where
  "migrate_site env ldb newClientId legacyIds l acc =
     (if \<not> truthy (loc_id l) then mreturn acc
      else (case map_of legacyIds (the (loc_id l)) of
        Some r \<Rightarrow> mreturn (acc\<lparr>sa_sites := AList.update (loc_no l) r (sa_sites acc)\<rparr>)
      | None \<Rightarrow>
          mbind (ask_site_name l) (\<lambda>siteName.
          if \<not> truthy siteName \<and> filter (\<lambda>a. a_loc_no a = Some (loc_no l)) (ldb_assets ldb) = [] then mreturn acc
          else
            mbind (site_address l siteName (sa_lastAddress acc)) (\<lambda>address.
            mbind (site_phone l siteName (sa_lastPhoneNumber acc)) (\<lambda>phone.
            mbind (create_mig_site env (location_site env newClientId (sa_groups acc) l siteName address phone)) (\<lambda>r.
            mreturn (acc\<lparr>sa_lastAddress := Some address, sa_lastPhoneNumber := Some phone,
              sa_sites := AList.update (loc_no l) r (sa_sites acc), sa_siteCount := sa_siteCount acc + 1\<rparr>)))))))"

definition client_ids_of :: "string option \<Rightarrow> mig_db \<Rightarrow> id list" where
  \<comment> \<open>\<open>where: {client: {legacyClientId}}\<close>\<close>
  "client_ids_of i db = map cl_id (filter (\<lambda>c. mc_legacyClientId c = i) (gd_clients db))"

definition alreadyMigratedSites :: "legacy_client \<Rightarrow> mig_db \<Rightarrow> mig_site list" where
  "alreadyMigratedSites lc db = filter (\<lambda>r. st_clientId r \<in> set (client_ids_of (c_id lc) db)) (gd_sites db)"

definition legacyIdToNewSiteGroupIdMap :: "mig_site list \<Rightarrow> (string, id) jmap" where
  "legacyIdToNewSiteGroupIdMap rows = jmap_of (map (\<lambda>r. (the (mt_legacyGroupId r), st_id r)) (filter (\<lambda>r. truthy (mt_legacyGroupId r)) rows))"

definition legacyIdToNewSiteIdMap :: "mig_site list \<Rightarrow> (string, mig_site) jmap" where
  "legacyIdToNewSiteIdMap rows = jmap_of (map (\<lambda>r. (the (mt_legacySiteId r), r)) (filter (\<lambda>r. truthy (mt_legacySiteId r)) rows))"

definition sites_message :: "nat \<Rightarrow> nat \<Rightarrow> ws_event" where
  "sites_message sites groups =
     (if 0 < sites + groups
      then Alert Info (''Successfully migrated '' @ show_nat sites @ '' sites and '' @ show_nat groups @ '' site groups.'')
      else Alert Warning ''No sites were migrated. This is likely due either to the sites already being migrated or the site data is missing too much information.'')"

definition migrateSites :: "mig_env \<Rightarrow> legacy_db \<Rightarrow> legacy_client \<Rightarrow> mig_client \<Rightarrow> (int, mig_site) jmap mig" where
  "migrateSites env ldb lc newClient =
     mbind (mread (\<lambda>db. map_option mc_address (find_by cl_id (cl_id newClient) (gd_clients db)))) (\<lambda>clientAddress.
     let legacySites = locations_of ldb (c_no lc);
         legacySiteGroups = filter (\<lambda>g. group_c_no g = Some (c_no lc)) (ldb_groups ldb)
     in if legacySites = [] \<and> legacySiteGroups = []
        then mseq (emitEvent (Alert Info ''I can see this client has no sites to migrate. We can go ahead and skip the site migration.'')) (mreturn [])
        else
          mseq (emitEvent (Alert Info ''Now let's work on migrating the client's sites (also known as locations).''))
          (mbind (mread (alreadyMigratedSites lc)) (\<lambda>migrated.
           mbind (mfor (migrate_group env (cl_id newClient) (legacyIdToNewSiteGroupIdMap migrated)) legacySiteGroups
             \<lparr>sa_lastAddress = clientAddress, sa_lastPhoneNumber = Some (mc_phoneNumber newClient), sa_groups = [], sa_sites = [], sa_groupCount = 0, sa_siteCount = 0\<rparr>) (\<lambda>acc.
           mbind (mfor (migrate_site env ldb (cl_id newClient) (legacyIdToNewSiteIdMap migrated)) legacySites acc) (\<lambda>acc.
           mseq (emitEvent (sites_message (sa_siteCount acc) (sa_groupCount acc))) (mreturn (sa_sites acc)))))))"

subsection \<open>Assets and their tour\<close>

record asset_acc =
  xa_routes :: "(id, route_row) jmap" \<comment> \<open>\<open>defaultInspectionRoutesBySiteId\<close>\<close>
  xa_points :: "(id, point_row) jmap" \<comment> \<open>\<open>assetIdToInspectionRoutePointMap\<close>\<close>
  xa_assets :: "(int, mig_asset) jmap"
  xa_count :: nat

definition name_includes :: "string \<Rightarrow> string \<Rightarrow> bool" where
  "name_includes pat s = list_ex (\<lambda>n. starts_with pat (drop n s)) [0..<Suc (length s)]"

definition load_routes :: "id \<Rightarrow> mig_db \<Rightarrow> asset_acc \<Rightarrow> asset_acc" where
  "load_routes newClientId db acc =
     foldl (\<lambda>acc r. acc\<lparr>xa_routes := AList.update (ir_siteId r) r (xa_routes acc),
         xa_points := foldl (\<lambda>m p. AList.update (ip_assetId p) p m) (xa_points acc) (filter (\<lambda>p. ip_routeId p = ir_id r) (gd_points db))\<rparr>)
       acc (filter (\<lambda>r. ir_clientId r = newClientId \<and> name_includes ''Default'' (ir_name r)) (gd_routes db))"

definition getOrCreateDefaultInspectionRoute ::
    "mig_env \<Rightarrow> id \<Rightarrow> (int, mig_site) jmap \<Rightarrow> id \<Rightarrow> asset_acc \<Rightarrow> (route_row \<times> asset_acc) mig" where
  "getOrCreateDefaultInspectionRoute env newClientId sites siteId acc =
     (case map_of (xa_routes acc) siteId of
        Some r \<Rightarrow> mreturn (r, acc)
      | None \<Rightarrow>
          mbind (mread (\<lambda>db. if xa_routes acc = [] then load_routes newClientId db acc else acc)) (\<lambda>acc.
          case map_of (xa_routes acc) siteId of
            Some r \<Rightarrow> mreturn (r, acc)
          | None \<Rightarrow>
              mbind (new_id env) (\<lambda>i.
              let owner = map_of (jmap_of (map (\<lambda>(n, r). (st_id r, r)) sites)) siteId;
                  r = \<lparr>ir_id = i, ir_name = (case owner of None \<Rightarrow> ''Default'' | Some o1 \<Rightarrow> st_name o1 @ '' Default''), ir_description = None,
                        ir_siteId = siteId, ir_clientId = newClientId\<rparr>
              in mseq (mwrite (\<lambda>db. db\<lparr>gd_routes := gd_routes db @ [r]\<rparr>)) (mreturn (r, acc\<lparr>xa_routes := AList.update siteId r (xa_routes acc)\<rparr>)))))"

definition migrateRouteAssignment ::
    "mig_env \<Rightarrow> id \<Rightarrow> (int, mig_site) jmap \<Rightarrow> id \<Rightarrow> id \<Rightarrow> int \<Rightarrow> asset_acc \<Rightarrow> asset_acc mig" where
  "migrateRouteAssignment env newClientId sites assetId siteId order acc =
     (if assetId \<in> fst ` set (xa_points acc) then mreturn acc
      else
        mbind (getOrCreateDefaultInspectionRoute env newClientId sites siteId acc) (\<lambda>(r, acc).
        mbind (new_id env) (\<lambda>i.
        let p = \<lparr>ip_id = i, ip_order = order, ip_routeId = ir_id r, ip_assetId = assetId\<rparr>
        in mseq (mwrite (\<lambda>db. db\<lparr>gd_points := gd_points db @ [p]\<rparr>)) (mreturn (acc\<lparr>xa_points := AList.update assetId p (xa_points acc)\<rparr>)))))"

definition assign_route :: "mig_env \<Rightarrow> id \<Rightarrow> (int, mig_site) jmap \<Rightarrow> legacy_asset \<Rightarrow> mig_asset \<Rightarrow> asset_acc \<Rightarrow> asset_acc mig" where
  "assign_route env newClientId sites a row acc =
     (case a_sort a of None \<Rightarrow> mreturn acc | Some n \<Rightarrow> migrateRouteAssignment env newClientId sites (as_id row) (as_siteId row) n acc)"

definition asset_name :: "legacy_asset \<Rightarrow> mig_category \<Rightarrow> string" where
  "asset_name a k = join_with '' '' (filter (\<lambda>s. s \<noteq> []) [nullish_or (a_location a) [], nullish_or (ct_shortName k) (ct_name k), CHR ''#'' # show_int (a_no a)])"

definition date_or_now :: "mig_env \<Rightarrow> time option \<Rightarrow> time mig" where
  "date_or_now env d = (case d of Some t \<Rightarrow> mreturn t | None \<Rightarrow> new_Date env)"

definition create_mig_asset :: "mig_env \<Rightarrow> mig_site \<Rightarrow> legacy_asset \<Rightarrow> product_basic \<Rightarrow> mig_tag option \<Rightarrow> mig_asset mig" where
  \<comment> \<open>an asset that had the tag before is released from it\<close>
  "create_mig_asset env site a product tag =
     mbind (date_or_now env (a_date_insert a)) (\<lambda>created. mbind (date_or_now env (a_date_insert a)) (\<lambda>setup.
     mbind (new_id env) (\<lambda>i.
     let row = \<lparr>as_id = i, as_createdOn = created, as_setupOn = Some setup, as_configured = False, as_active = (a_status a = Some 1),
                 as_name = asset_name a (snd product), as_productId = pr_id (fst product), as_tagId = map_option tg_id tag,
                 as_serialNumber = nullish_or (a_serial a) [], as_inspectionCycle = None, as_metadata = None, as_siteId = st_id site,
                 as_clientId = st_clientId site, ma_legacyAssetId = a_id a, ma_location = nullish_or (a_location a) [], ma_placement = nullish_or (a_placement a) []\<rparr>
     in mseq (mwrite (\<lambda>db. db\<lparr>gd_assets := map (\<lambda>x. if tag \<noteq> None \<and> as_tagId x = map_option tg_id tag then x\<lparr>as_tagId := None\<rparr> else x) (gd_assets db) @ [row]\<rparr>))
          (mreturn row))))"

definition migrate_asset ::
    "mig_env \<Rightarrow> legacy_db \<Rightarrow> legacy_client \<Rightarrow> id \<Rightarrow> (int, mig_site) jmap \<Rightarrow> (string option, mig_asset) jmap \<Rightarrow> legacy_asset \<Rightarrow> asset_acc \<Rightarrow> asset_acc mig" where
  "migrate_asset env ldb lc newClientId sites migrated a acc =
     (if a_id a = None then mreturn acc
      else (case map_of migrated (a_id a) of
        Some row \<Rightarrow> assign_route env newClientId sites a row (acc\<lparr>xa_assets := AList.update (a_no a) row (xa_assets acc)\<rparr>)
      | None \<Rightarrow>
          (case Option.bind (a_loc_no a) (map_of sites) of
             None \<Rightarrow> mreturn acc
           | Some site \<Rightarrow>
               mbind (getOrMigrateProduct env ldb lc newClientId (a_p_no a) (a_cat_no a)) (\<lambda>product.
               mbind (case a_t_no a of None \<Rightarrow> mreturn None | Some n \<Rightarrow> getOrMigrateTag env ldb site n) (\<lambda>tag.
               case product of
                 None \<Rightarrow> mreturn acc
               | Some p \<Rightarrow>
                   mbind (create_mig_asset env site a p tag) (\<lambda>row.
                   mbind (assign_route env newClientId sites a row acc) (\<lambda>acc.
                   mreturn (acc\<lparr>xa_assets := AList.update (a_no a) row (xa_assets acc), xa_count := xa_count acc + 1\<rparr>))))))))"

definition legacy_assets_of :: "legacy_db \<Rightarrow> int \<Rightarrow> legacy_asset list" where
  "legacy_assets_of ldb n =
     filter (\<lambda>a. case a_loc_no a of None \<Rightarrow> False | Some k \<Rightarrow> k \<in> loc_no ` set (filter (\<lambda>l. loc_c_no l = Some n) (ldb_locations ldb))) (ldb_assets ldb)"

definition alreadyMigratedAssets :: "legacy_client \<Rightarrow> mig_db \<Rightarrow> mig_asset list" where
  "alreadyMigratedAssets lc db = filter (\<lambda>r. as_clientId r \<in> set (client_ids_of (c_id lc) db)) (gd_assets db)"

definition assets_message :: "nat \<Rightarrow> ws_event" where
  "assets_message n =
     (if 0 < n then Alert Info (''Successfully migrated '' @ show_nat n @ '' assets.'')
      else Alert Warning ''No assets were migrated. This is likely due either to the assets already being migrated or the asset data is missing too much information.'')"

definition migrateAssets :: "mig_env \<Rightarrow> legacy_db \<Rightarrow> legacy_client \<Rightarrow> mig_client \<Rightarrow> (int, mig_site) jmap \<Rightarrow> (int, mig_asset) jmap mig" where
  "migrateAssets env ldb lc newClient sites =
     (if legacy_assets_of ldb (c_no lc) = []
      then mseq (emitEvent (Alert Info ''I can see this client has no assets to migrate. We can go ahead and skip the asset migration.'')) (mreturn [])
      else
        mseq (emitEvent (Alert Info ''Now let's work on migrating the client's assets.''))
        (mbind (mread (alreadyMigratedAssets lc)) (\<lambda>migrated.
         mbind (mfor (migrate_asset env ldb lc (cl_id newClient) sites (jmap_of (map (\<lambda>r. (ma_legacyAssetId r, r)) migrated)))
             (legacy_assets_of ldb (c_no lc)) \<lparr>xa_routes = [], xa_points = [], xa_assets = [], xa_count = 0\<rparr>) (\<lambda>acc.
         mseq (emitEvent (assets_message (xa_count acc))) (mreturn (xa_assets acc))))))"

subsection \<open>The whole migration\<close>

definition initDb :: "mig_env \<Rightarrow> unit mig" where
  "initDb env = (if le_connects env then mreturn () else mfail ConnectionNotInitialized)"

definition transaction :: "'a mig \<Rightarrow> 'a mig" where
  "transaction m = (\<lambda>s. case m s of (Inl e, s') \<Rightarrow> (Inl e, s'\<lparr>ms_db := ms_db s\<rparr>) | (Inr x, s') \<Rightarrow> (Inr x, s'))"

definition migrate_tx :: "mig_env \<Rightarrow> legacy_db \<Rightarrow> legacy_client \<Rightarrow> unit mig" where
  "migrate_tx env ldb lc =
     mbind (migrateClient env ldb lc) (\<lambda>newClient.
     mbind (migrateSites env ldb lc newClient) (\<lambda>sites.
     mbind (migrateAssets env ldb lc newClient sites) (\<lambda>_.
     emitEvent (Alert Info ''Great! That's it for now. Migrating users and inspection history is not yet supported and will need to be done manually.''))))"

definition catch_connection :: "'a mig \<Rightarrow> 'a mig" where
  "catch_connection m =
     (\<lambda>s. case m s of
        (Inl ConnectionNotInitialized, s') \<Rightarrow> (Inl (WsClose 1011 ''The connection to the legacy database could not be established. Please try again later.''), s')
      | r \<Rightarrow> r)"

definition processMigration :: "mig_env \<Rightarrow> legacy_db \<Rightarrow> unit mig" where
  "processMigration env ldb =
     mseq (emitEvent (Alert Info ''Hello! I am here to help you migrate clients over from the legacy system to this one.''))
     (mseq (catch_connection (mseq (initDb env) (mbind (selectClient ldb) (\<lambda>lc. transaction (migrate_tx env ldb lc)))))
       (emitEvent (Alert Success ''Migration completed.'')))"

text \<open>\<open>migrate\<close> of the gateway: how an unfinished migration closes the socket.\<close>

definition migrate_close :: "mig_error \<Rightarrow> nat \<times> string" where
  "migrate_close e =
     (case e of WsClose code message \<Rightarrow> (code, message)
      | _ \<Rightarrow> (1011, ''An unexpected error occurred. Please try again later.''))"

subsection \<open>Example data\<close>

definition ex_legacy_client :: legacy_client where
  "ex_legacy_client = \<lparr>c_no = 5, c_id = Some ''c5'', c_name = ''Acme'', c_date_insert = Some 3, c_status = 1, c_phone = Some ''555'', c_www = None\<rparr>"

definition ex_location :: legacy_location where
  "ex_location = \<lparr>loc_no = 7, loc_id = Some ''l7'', loc_c_no = Some 5, loc_name = Some ''Plant'', loc_phone = Some ''556'', loc_type = Some 1,
     loc_date_insert = Some 4, loc_addr1 = Some ''1 Main St '', loc_addr2 = None, loc_city = Some ''Rome'', loc_state = None, loc_zip = None,
     loc_status = Some 1, loc_group_no = Some 9\<rparr>"

definition ex_legacy_group :: legacy_group where
  "ex_legacy_group = \<lparr>group_no = 9, group_id = Some ''g9'', group_c_no = Some 5, group_name = Some ''North'', group_desc = None, group_status = Some 1\<rparr>"

definition ex_legacy_asset :: legacy_asset where
  "ex_legacy_asset = \<lparr>a_no = 11, a_id = Some ''x11'', a_t_no = Some 21, a_t_id = None, a_loc_no = Some 7, a_loc_id = None, a_location = Some ''Hall'',
     a_placement = None, a_serial = None, a_p_no = Some 31, a_sort = Some 1, a_cat_no = None, a_mfg_no = None, a_date_insert = Some 6, a_status = Some 1\<rparr>"

definition ex_legacy_db :: legacy_db where
  "ex_legacy_db = \<lparr>ldb_clients = [ex_legacy_client], ldb_locations = [ex_location], ldb_groups = [ex_legacy_group], ldb_assets = [ex_legacy_asset],
     ldb_products = [\<lparr>p_no = 31, p_id = Some ''p31'', p_mfg_no = Some 41, p_mfg_id = None, p_c_no = None, p_type = Some 1, p_name = Some ''Kit'',
       p_desc = None, p_sku = None, p_cat_no = Some 51, p_image_url = None, p_sales_url = None, p_date_insert = None, p_status = Some 1\<rparr>],
     ldb_categories = [\<lparr>cat_no = 51, cat_id = Some ''k51'', cat_name = Some ''First aid'', cat_nic = Some ''FA'', cat_desc = None,
       cat_icon = Some ''fa-solid fa-kit-medical'', cat_color = Some ''fade'', cat_image = None, cat_c_no = Some 1, cat_date_insert = None, cat_status = Some 1\<rparr>],
     ldb_manufacturers = [\<lparr>mfg_no = 41, mfg_id = Some ''m41'', mfg_c_no = Some 1, mfg_name = Some ''Medco'', mfg_www = None, mfg_date_insert = None, mfg_status = Some 1\<rparr>],
     ldb_tags = [\<lparr>t_no = 21, t_id = Some ''t21'', t_serial = Some 42, t_c_no = Some 5, t_loc_no = Some 7, t_a_no = Some 11, t_date_setup = None\<rparr>]\<rparr>"

definition ex_mig_env :: mig_env where
  "ex_mig_env = \<lparr>le_newId = (\<lambda>n. CHR ''n'' # show_nat n), le_clock = (\<lambda>n. 100 + int n), le_txNow = 99, le_ieq = (\<lambda>a b. toLowerCase a = toLowerCase b), le_connects = True\<rparr>"

definition ex_address_answer :: json where
  "ex_address_answer = JObj [(''value'', JObj [(''street1'', JStr ''2 Main St''), (''city'', JStr ''Rome''), (''state'', JStr ''IT''), (''zip'', JStr ''1'')])]"

definition ex_other_db :: mig_db where
  "ex_other_db = \<lparr>gd_clients = [\<lparr>cl_id = ''o'', cl_externalId = ''oe'', cl_name = ''Other'', cl_status = ACTIVE, cf_demoMode = False, cf_defaultInspectionCycle = 30,
       mc_legacyClientId = None, mc_createdOn = 1, mc_startedOn = 1, mc_phoneNumber = ''1'', mc_homeUrl = None,
       mc_address = \<lparr>adr_street1 = ''S'', adr_street2 = None, adr_city = ''C'', adr_state = None, adr_zip = None\<rparr>\<rparr>],
     gd_sites = [], gd_tags = [\<lparr>tg_id = ''ot'', tg_externalId = ''ox'', tg_serialNumber = ''0000042'', tg_siteId = Some ''os'', tg_clientId = Some ''o'', mg_legacyTagId = None\<rparr>],
     gd_assets = [], gd_products = [], gd_categories = [],
     gd_manufacturers = [\<lparr>mf_id = ''om'', mf_legacyManufacturerId = None, mf_createdOn = 1, mf_active = True, mf_name = ''MEDCO'', mf_homeUrl = None, mf_clientId = Some ''o''\<rparr>],
     gd_routes = [], gd_points = []\<rparr>"

definition ex_mig_state :: mig_state where
  "ex_mig_state = \<lparr>ms_db = ex_other_db,
     ms_answers = [JObj [(''value'', JStr ''4'')], JNull, JObj [(''value'', JStr ''5'')], ex_address_answer, JObj [(''value'', JStr ''557'')]],
     ms_events = [], ms_ids = 0, ms_reads = 0\<rparr>"

end
