(* ===== verification/Legacy_Isolation.thy ===== *)
theory Legacy_Isolation
  imports Legacy_Migration
begin

section \<open>The legacy migration leaves other clients alone\<close>

text \<open>
  What a migration may do to the tables: \<open>client_frame c db0 db\<close> says that all rows of \<open>db0\<close> are still there, that
  only a few columns of shared or own rows have changed, and that every new row belongs to the client \<open>c\<close>
  or to nobody. It is kept by every step, together with facts about identifiers (\<open>mig_aux\<close>); the proofs go
  through the weakest preconditions of \<open>Legacy_Db\<close>.
\<close>

definition keeps :: "('r \<Rightarrow> 'r \<Rightarrow> bool) \<Rightarrow> ('r \<Rightarrow> bool) \<Rightarrow> 'r list \<Rightarrow> 'r list \<Rightarrow> bool" where
  \<comment> \<open>the old rows, each related to what it was, and new ones\<close>
  "keeps R P xs ys = (\<exists>old new. ys = old @ new \<and> list_all2 R xs old \<and> list_all P new)"

definition asset_kept :: "id \<Rightarrow> mig_asset \<Rightarrow> mig_asset \<Rightarrow> bool" where
  "asset_kept c x y = (y = x \<or> (as_clientId x = c \<and> y = x\<lparr>as_tagId := None\<rparr>))"

definition tag_kept :: "id \<Rightarrow> mig_tag \<Rightarrow> mig_tag \<Rightarrow> bool" where
  "tag_kept c x y = (y = x \<or> ((tg_clientId x = None \<or> tg_clientId x = Some c) \<and> y = x\<lparr>tg_clientId := Some c, tg_siteId := tg_siteId y\<rparr>))"

definition category_kept :: "id \<Rightarrow> mig_category \<Rightarrow> mig_category \<Rightarrow> bool" where
  "category_kept c x y =
     (y = x \<or> (mk_legacyCategoryId x = None \<and> (mk_clientId x = None \<or> mk_clientId x = Some c) \<and> y = x\<lparr>mk_legacyCategoryId := mk_legacyCategoryId y\<rparr>))"

definition manufacturer_kept :: "mig_manufacturer \<Rightarrow> mig_manufacturer \<Rightarrow> bool" where
  "manufacturer_kept x y = (y = x \<or> (mf_legacyManufacturerId x = None \<and> y = x\<lparr>mf_legacyManufacturerId := mf_legacyManufacturerId y\<rparr>))"

definition product_kept :: "mig_product \<Rightarrow> mig_product \<Rightarrow> bool" where
  "product_kept x y = (y = x\<lparr>mp_legacyProductId := mp_legacyProductId y\<rparr>)"

definition asset_of :: "id \<Rightarrow> id \<Rightarrow> mig_db \<Rightarrow> bool" where
  "asset_of c i db = (\<exists>a\<in>set (gd_assets db). as_id a = i \<and> as_clientId a = c)"

definition site_of :: "id \<Rightarrow> id \<Rightarrow> mig_db \<Rightarrow> bool" where
  "site_of c i db = (\<exists>r\<in>set (gd_sites db). st_id r = i \<and> st_clientId r = c)"

definition route_of :: "id \<Rightarrow> id \<Rightarrow> mig_db \<Rightarrow> bool" where
  "route_of c i db = (\<exists>r\<in>set (gd_routes db). ir_id r = i \<and> ir_clientId r = c)"

definition client_frame :: "id \<Rightarrow> mig_db \<Rightarrow> mig_db \<Rightarrow> bool" where
  "client_frame c db0 db \<longleftrightarrow>
     keeps (=) (\<lambda>r. st_clientId r = c) (gd_sites db0) (gd_sites db)
     \<and> keeps (asset_kept c) (\<lambda>a. as_clientId a = c \<and> site_of c (as_siteId a) db) (gd_assets db0) (gd_assets db)
     \<and> keeps (=) (\<lambda>r. ir_clientId r = c) (gd_routes db0) (gd_routes db)
     \<and> keeps (=) (\<lambda>p. asset_of c (ip_assetId p) db \<and> route_of c (ip_routeId p) db) (gd_points db0) (gd_points db)
     \<and> keeps (tag_kept c) (\<lambda>t. tg_clientId t = Some c) (gd_tags db0) (gd_tags db)
     \<and> keeps (category_kept c) (\<lambda>r. mk_clientId r = None \<or> mk_clientId r = Some c) (gd_categories db0) (gd_categories db)
     \<and> keeps manufacturer_kept (\<lambda>r. mf_clientId r = None \<or> mf_clientId r = Some c) (gd_manufacturers db0) (gd_manufacturers db)
     \<and> keeps product_kept (\<lambda>r. pr_clientId r = None \<or> pr_clientId r = Some c) (gd_products db0) (gd_products db)"

definition tags_match :: "mig_db \<Rightarrow> bool" where
  \<comment> \<open>the tag of an asset exists and carries the client of the asset\<close>
  "tags_match db \<longleftrightarrow>
     (\<forall>a\<in>set (gd_assets db). \<forall>i. as_tagId a = Some i \<longrightarrow> i \<in> tg_id ` set (gd_tags db))
     \<and> (\<forall>a\<in>set (gd_assets db). \<forall>t\<in>set (gd_tags db). as_tagId a = Some (tg_id t) \<longrightarrow> tg_clientId t = Some (as_clientId a))"

definition ids_distinct :: "mig_db \<Rightarrow> bool" where
  "ids_distinct db \<longleftrightarrow> distinct (map tg_id (gd_tags db)) \<and> distinct (map ct_id (gd_categories db))
     \<and> distinct (map mf_id (gd_manufacturers db)) \<and> distinct (map pr_id (gd_products db))"

definition used_ids :: "mig_db \<Rightarrow> id set" where
  "used_ids db = tg_id ` set (gd_tags db) \<union> ct_id ` set (gd_categories db) \<union> mf_id ` set (gd_manufacturers db) \<union> pr_id ` set (gd_products db)"

definition mig_aux :: "mig_env \<Rightarrow> nat \<Rightarrow> mig_db \<Rightarrow> bool" where
  "mig_aux env n db \<longleftrightarrow> tags_match db \<and> ids_distinct db \<and> (\<forall>k\<ge>n. le_newId env k \<notin> used_ids db)"

definition grows :: "id \<Rightarrow> mig_db \<Rightarrow> mig_db \<Rightarrow> bool" where
  "grows c db db' \<longleftrightarrow> (\<forall>i. asset_of c i db \<longrightarrow> asset_of c i db') \<and> set (gd_routes db) \<subseteq> set (gd_routes db') \<and> set (gd_sites db) \<subseteq> set (gd_sites db')
     \<and> gd_clients db' = gd_clients db"

definition mig_inv :: "mig_env \<Rightarrow> id \<Rightarrow> mig_db \<Rightarrow> mig_db \<Rightarrow> nat \<Rightarrow> mig_db \<Rightarrow> bool" where
  "mig_inv env c db0 base n db \<longleftrightarrow> inj (le_newId env) \<and> client_frame c db0 db \<and> mig_aux env n db \<and> grows c base db"

subsection \<open>Lists of rows\<close>

lemma keeps_refl: "(\<And>x. R x x) \<Longrightarrow> keeps R P xs xs"
  unfolding keeps_def by (intro exI [of _ xs] exI [of _ "[]"]) (simp add: list_all2_refl)

lemma keeps_add: "keeps R P xs ys \<Longrightarrow> P r \<Longrightarrow> keeps R P xs (ys @ [r])"
  unfolding keeps_def by (elim exE conjE, rename_tac old new, rule_tac x = old in exI, rule_tac x = "new @ [r]" in exI) simp

lemma keeps_mono: "keeps R P xs ys \<Longrightarrow> (\<And>r. P r \<Longrightarrow> Q r) \<Longrightarrow> keeps R Q xs ys"
  unfolding keeps_def by (metis list_all_iff)

lemma keeps_map:
  assumes "keeps R P xs ys" and "\<And>x y. y \<in> set ys \<Longrightarrow> R x y \<Longrightarrow> R x (f y)" and "\<And>y. y \<in> set ys \<Longrightarrow> P y \<Longrightarrow> P (f y)"
  shows "keeps R P xs (map f ys)"
proof -
  obtain old new where ys: "ys = old @ new" and old: "list_all2 R xs old" and new: "list_all P new" using assms(1) by (auto simp: keeps_def)
  have "list_all2 R xs (map f old)" using old assms(2) unfolding ys by (auto simp: list_all2_conv_all_nth)
  moreover have "list_all P (map f new)" using new assms(3) unfolding ys by (auto simp: list_all_iff)
  ultimately show ?thesis unfolding keeps_def ys by auto
qed

lemma same_row: "distinct (map key xs) \<Longrightarrow> x \<in> set xs \<Longrightarrow> y \<in> set xs \<Longrightarrow> key x = key y \<Longrightarrow> x = y"
  by (auto simp: distinct_map dest: inj_onD)

lemma grows_refl: "grows c db db"
  by (simp add: grows_def)

lemma grows_trans: "grows c a b \<Longrightarrow> grows c b d \<Longrightarrow> grows c a d"
  by (auto simp: grows_def)

lemma mig_inv_rebase: "mig_inv env c db0 base n db \<Longrightarrow> mig_inv env c db0 db n db"
  by (simp add: mig_inv_def grows_refl)

lemma mig_inv_trans: "mig_inv env c db0 base n db \<Longrightarrow> mig_inv env c db0 db n' db' \<Longrightarrow> mig_inv env c db0 base n' db'"
  by (auto simp: mig_inv_def intro: grows_trans)

lemma mig_inv_grows: "mig_inv env c db0 base n db \<Longrightarrow> grows c base db"
  by (simp add: mig_inv_def)

lemma mig_inv_id: "mig_inv env c db0 base n db \<Longrightarrow> n \<le> m \<Longrightarrow> mig_inv env c db0 base m db"
  by (auto simp: mig_inv_def mig_aux_def)

lemma fresh_id: "mig_inv env c db0 base n db \<Longrightarrow> le_newId env n \<notin> used_ids db"
  by (simp add: mig_inv_def mig_aux_def)

lemma newId_neq: "mig_inv env c db0 base n db \<Longrightarrow> Suc n \<le> k \<Longrightarrow> le_newId env k \<noteq> le_newId env n"
  by (auto simp: mig_inv_def dest: injD)

subsection \<open>The writes\<close>

lemma inv_add_site:
  assumes "mig_inv env c db0 base n db" and "st_clientId r = c"
  shows "mig_inv env c db0 base n (db\<lparr>gd_sites := gd_sites db @ [r]\<rparr>)"
proof -
  let ?db = "db\<lparr>gd_sites := gd_sites db @ [r]\<rparr>"
  have "site_of c i db \<Longrightarrow> site_of c i ?db" "asset_of c i ?db = asset_of c i db" "route_of c i ?db = route_of c i db" for i
    by (auto simp: site_of_def asset_of_def route_of_def)
  then have "client_frame c db0 ?db" using assms by (auto simp: mig_inv_def client_frame_def intro: keeps_add keeps_mono)
  moreover have "mig_aux env n ?db" using assms(1) by (simp add: mig_inv_def mig_aux_def tags_match_def ids_distinct_def used_ids_def)
  moreover have "grows c base ?db" using assms(1) by (auto simp: mig_inv_def grows_def asset_of_def)
  ultimately show ?thesis using assms(1) by (simp add: mig_inv_def)
qed

lemma inv_add_route:
  assumes "mig_inv env c db0 base n db" and "ir_clientId r = c"
  shows "mig_inv env c db0 base n (db\<lparr>gd_routes := gd_routes db @ [r]\<rparr>)"
proof -
  let ?db = "db\<lparr>gd_routes := gd_routes db @ [r]\<rparr>"
  have "site_of c i ?db = site_of c i db" "asset_of c i ?db = asset_of c i db" "route_of c i db \<Longrightarrow> route_of c i ?db" for i
    by (auto simp: site_of_def asset_of_def route_of_def)
  then have "client_frame c db0 ?db" using assms by (auto simp: mig_inv_def client_frame_def intro: keeps_add keeps_mono)
  moreover have "mig_aux env n ?db" using assms(1) by (simp add: mig_inv_def mig_aux_def tags_match_def ids_distinct_def used_ids_def)
  moreover have "grows c base ?db" using assms(1) by (auto simp: mig_inv_def grows_def asset_of_def)
  ultimately show ?thesis using assms(1) by (simp add: mig_inv_def)
qed

lemma inv_add_point:
  assumes "mig_inv env c db0 base n db" and "asset_of c (ip_assetId p) db" and "route_of c (ip_routeId p) db"
  shows "mig_inv env c db0 base n (db\<lparr>gd_points := gd_points db @ [p]\<rparr>)"
proof -
  let ?db = "db\<lparr>gd_points := gd_points db @ [p]\<rparr>"
  have eq: "site_of c i ?db = site_of c i db" "asset_of c i ?db = asset_of c i db" "route_of c i ?db = route_of c i db" for i
    by (auto simp: site_of_def asset_of_def route_of_def)
  have "client_frame c db0 ?db" using assms by (auto simp: mig_inv_def client_frame_def eq intro: keeps_add)
  moreover have "mig_aux env n ?db" using assms(1) by (simp add: mig_inv_def mig_aux_def tags_match_def ids_distinct_def used_ids_def)
  moreover have "grows c base ?db" using assms(1) by (auto simp: mig_inv_def grows_def asset_of_def)
  ultimately show ?thesis using assms(1) by (simp add: mig_inv_def)
qed

text \<open>The writes to the catalog and the tags leave sites, assets, routes and points alone.\<close>

lemma inv_catalog:
  assumes "mig_inv env c db0 base n db"
    and "gd_sites db' = gd_sites db" "gd_assets db' = gd_assets db" "gd_routes db' = gd_routes db" "gd_points db' = gd_points db" "gd_clients db' = gd_clients db"
    and "keeps (tag_kept c) (\<lambda>t. tg_clientId t = Some c) (gd_tags db0) (gd_tags db')"
    and "keeps (category_kept c) (\<lambda>r. mk_clientId r = None \<or> mk_clientId r = Some c) (gd_categories db0) (gd_categories db')"
    and "keeps manufacturer_kept (\<lambda>r. mf_clientId r = None \<or> mf_clientId r = Some c) (gd_manufacturers db0) (gd_manufacturers db')"
    and "keeps product_kept (\<lambda>r. pr_clientId r = None \<or> pr_clientId r = Some c) (gd_products db0) (gd_products db')"
    and "mig_aux env n' db'"
  shows "mig_inv env c db0 base n' db'"
proof -
  have eq: "site_of c i db' = site_of c i db" "asset_of c i db' = asset_of c i db" "route_of c i db' = route_of c i db" for i
    using assms(2-4) by (auto simp: site_of_def asset_of_def route_of_def)
  have "client_frame c db0 db'" using assms by (simp add: mig_inv_def client_frame_def eq)
  moreover have "grows c base db'" using assms(1-6) by (simp add: mig_inv_def grows_def eq)
  ultimately show ?thesis using assms(1,11) by (simp add: mig_inv_def)
qed

lemmas frame_simps = mig_inv_def client_frame_def

lemma inv_add_category:
  assumes inv: "mig_inv env c db0 base n db" and "ct_id r = le_newId env n" and "mk_clientId r = None \<or> mk_clientId r = Some c"
  shows "mig_inv env c db0 base (Suc n) (db\<lparr>gd_categories := gd_categories db @ [r]\<rparr>)"
proof (rule inv_catalog [OF inv])
  show "mig_aux env (Suc n) (db\<lparr>gd_categories := gd_categories db @ [r]\<rparr>)"
    using inv assms(2) fresh_id [OF inv] newId_neq [OF inv] by (auto simp: mig_inv_def mig_aux_def tags_match_def ids_distinct_def used_ids_def)
qed (use inv assms(3) in \<open>auto simp: frame_simps intro: keeps_add\<close>)

lemma inv_add_manufacturer:
  assumes inv: "mig_inv env c db0 base n db" and "mf_id r = le_newId env n" and "mf_clientId r = None \<or> mf_clientId r = Some c"
  shows "mig_inv env c db0 base (Suc n) (db\<lparr>gd_manufacturers := gd_manufacturers db @ [r]\<rparr>)"
proof (rule inv_catalog [OF inv])
  show "mig_aux env (Suc n) (db\<lparr>gd_manufacturers := gd_manufacturers db @ [r]\<rparr>)"
    using inv assms(2) fresh_id [OF inv] newId_neq [OF inv] by (auto simp: mig_inv_def mig_aux_def tags_match_def ids_distinct_def used_ids_def)
qed (use inv assms(3) in \<open>auto simp: frame_simps intro: keeps_add\<close>)

lemma inv_add_product:
  assumes inv: "mig_inv env c db0 base n db" and "pr_id r = le_newId env n" and "pr_clientId r = None \<or> pr_clientId r = Some c"
  shows "mig_inv env c db0 base (Suc n) (db\<lparr>gd_products := gd_products db @ [r]\<rparr>)"
proof (rule inv_catalog [OF inv])
  show "mig_aux env (Suc n) (db\<lparr>gd_products := gd_products db @ [r]\<rparr>)"
    using inv assms(2) fresh_id [OF inv] newId_neq [OF inv] by (auto simp: mig_inv_def mig_aux_def tags_match_def ids_distinct_def used_ids_def)
qed (use inv assms(3) in \<open>auto simp: frame_simps intro: keeps_add\<close>)

lemma inv_add_tag:
  assumes inv: "mig_inv env c db0 base n db" and "tg_id r = le_newId env n" and "tg_clientId r = Some c"
  shows "mig_inv env c db0 base (Suc n) (db\<lparr>gd_tags := gd_tags db @ [r]\<rparr>)"
proof (rule inv_catalog [OF inv])
  have "as_tagId a \<noteq> Some (tg_id r)" if "a \<in> set (gd_assets db)" for a
    using that inv assms(2) fresh_id [OF inv] by (auto simp: mig_inv_def mig_aux_def tags_match_def used_ids_def)
  then show "mig_aux env (Suc n) (db\<lparr>gd_tags := gd_tags db @ [r]\<rparr>)"
    using inv assms(2) fresh_id [OF inv] newId_neq [OF inv] by (auto simp: mig_inv_def mig_aux_def tags_match_def ids_distinct_def used_ids_def)
qed (use inv assms(3) in \<open>auto simp: frame_simps intro: keeps_add\<close>)

lemma keeps_set_row:
  assumes "keeps R P xs ys" and "distinct (map key ys)" and "r \<in> set ys" and "\<And>x. R x r \<Longrightarrow> R x (f r)" and "P r \<Longrightarrow> P (f r)"
  shows "keeps R P xs (set_row key (key r) f ys)"
  unfolding set_row_def by (rule keeps_map [OF assms(1)]) (use assms(4,5) same_row [OF assms(2) _ assms(3)] in auto)

lemma inv_link_category:
  assumes inv: "mig_inv env c db0 base n db" and r: "r \<in> set (gd_categories db)" "mk_legacyCategoryId r = None" "mk_clientId r = None \<or> mk_clientId r = Some c"
  shows "mig_inv env c db0 base n (db\<lparr>gd_categories := set_row ct_id (ct_id r) (\<lambda>x. x\<lparr>mk_legacyCategoryId := l\<rparr>) (gd_categories db)\<rparr>)"
proof (rule inv_catalog [OF inv])
  have d: "distinct (map ct_id (gd_categories db))" using inv by (simp add: mig_inv_def mig_aux_def ids_distinct_def)
  have "category_kept c x (r\<lparr>mk_legacyCategoryId := l\<rparr>)" if "category_kept c x r" for x
    using that r(2,3) unfolding category_kept_def by (cases x; cases r) auto
  then have "keeps (category_kept c) (\<lambda>r. mk_clientId r = None \<or> mk_clientId r = Some c) (gd_categories db0) (set_row ct_id (ct_id r) (\<lambda>x. x\<lparr>mk_legacyCategoryId := l\<rparr>) (gd_categories db))"
    using inv by (intro keeps_set_row [OF _ d r(1)]) (auto simp: frame_simps)
  then show "keeps (category_kept c) (\<lambda>r. mk_clientId r = None \<or> mk_clientId r = Some c) (gd_categories db0)
      (gd_categories (db\<lparr>gd_categories := set_row ct_id (ct_id r) (\<lambda>x. x\<lparr>mk_legacyCategoryId := l\<rparr>) (gd_categories db)\<rparr>))" by simp
  show "mig_aux env n (db\<lparr>gd_categories := set_row ct_id (ct_id r) (\<lambda>x. x\<lparr>mk_legacyCategoryId := l\<rparr>) (gd_categories db)\<rparr>)"
    using inv d by (simp add: mig_inv_def mig_aux_def tags_match_def ids_distinct_def used_ids_def set_row_ids set_row_id_set)
qed (use inv in \<open>simp_all add: frame_simps\<close>)

lemma inv_link_manufacturer:
  assumes inv: "mig_inv env c db0 base n db" and r: "r \<in> set (gd_manufacturers db)" "mf_legacyManufacturerId r = None"
  shows "mig_inv env c db0 base n (db\<lparr>gd_manufacturers := set_row mf_id (mf_id r) (\<lambda>x. x\<lparr>mf_legacyManufacturerId := l\<rparr>) (gd_manufacturers db)\<rparr>)"
proof (rule inv_catalog [OF inv])
  have d: "distinct (map mf_id (gd_manufacturers db))" using inv by (simp add: mig_inv_def mig_aux_def ids_distinct_def)
  have "manufacturer_kept x (r\<lparr>mf_legacyManufacturerId := l\<rparr>)" if "manufacturer_kept x r" for x
    using that r(2) unfolding manufacturer_kept_def by (cases x; cases r) auto
  then have "keeps manufacturer_kept (\<lambda>r. mf_clientId r = None \<or> mf_clientId r = Some c) (gd_manufacturers db0) (set_row mf_id (mf_id r) (\<lambda>x. x\<lparr>mf_legacyManufacturerId := l\<rparr>) (gd_manufacturers db))"
    using inv by (intro keeps_set_row [OF _ d r(1)]) (auto simp: frame_simps)
  then show "keeps manufacturer_kept (\<lambda>r. mf_clientId r = None \<or> mf_clientId r = Some c) (gd_manufacturers db0)
      (gd_manufacturers (db\<lparr>gd_manufacturers := set_row mf_id (mf_id r) (\<lambda>x. x\<lparr>mf_legacyManufacturerId := l\<rparr>) (gd_manufacturers db)\<rparr>))" by simp
  show "mig_aux env n (db\<lparr>gd_manufacturers := set_row mf_id (mf_id r) (\<lambda>x. x\<lparr>mf_legacyManufacturerId := l\<rparr>) (gd_manufacturers db)\<rparr>)"
    using inv d by (simp add: mig_inv_def mig_aux_def tags_match_def ids_distinct_def used_ids_def set_row_ids set_row_id_set)
qed (use inv in \<open>simp_all add: frame_simps\<close>)

lemma inv_link_product:
  assumes inv: "mig_inv env c db0 base n db" and r: "r \<in> set (gd_products db)"
    and f: "f = (\<lambda>x. x\<lparr>mp_legacyProductId := l, pr_manufacturerId := m, pr_categoryId := k\<rparr>)" "pr_manufacturerId r = m" "pr_categoryId r = k"
  shows "mig_inv env c db0 base n (db\<lparr>gd_products := set_row pr_id (pr_id r) f (gd_products db)\<rparr>)"
proof (rule inv_catalog [OF inv])
  have d: "distinct (map pr_id (gd_products db))" using inv by (simp add: mig_inv_def mig_aux_def ids_distinct_def)
  have "product_kept x (f r)" if "product_kept x r" for x using that f(2,3) unfolding product_kept_def f(1) by (cases x; cases r) auto
  then have "keeps product_kept (\<lambda>r. pr_clientId r = None \<or> pr_clientId r = Some c) (gd_products db0) (set_row pr_id (pr_id r) f (gd_products db))"
    using inv by (intro keeps_set_row [OF _ d r(1)]) (auto simp: frame_simps f(1))
  then show "keeps product_kept (\<lambda>r. pr_clientId r = None \<or> pr_clientId r = Some c) (gd_products db0)
      (gd_products (db\<lparr>gd_products := set_row pr_id (pr_id r) f (gd_products db)\<rparr>))" by simp
  show "mig_aux env n (db\<lparr>gd_products := set_row pr_id (pr_id r) f (gd_products db)\<rparr>)"
    using inv d by (simp add: mig_inv_def mig_aux_def tags_match_def ids_distinct_def used_ids_def set_row_ids set_row_id_set f(1))
qed (use inv in \<open>simp_all add: frame_simps\<close>)

lemma inv_claim_tag:
  assumes inv: "mig_inv env c db0 base n db" and t: "t \<in> set (gd_tags db)" "tg_clientId t = None \<or> tg_clientId t = Some c"
    and f: "f = (\<lambda>x. x\<lparr>tg_clientId := Some c, tg_siteId := i\<rparr>)"
  shows "mig_inv env c db0 base n (db\<lparr>gd_tags := set_row tg_id (tg_id t) f (gd_tags db)\<rparr>)"
proof (rule inv_catalog [OF inv])
  have d: "distinct (map tg_id (gd_tags db))" using inv by (simp add: mig_inv_def mig_aux_def ids_distinct_def)
  have "tag_kept c x (f t)" if "tag_kept c x t" for x using that t(2) unfolding tag_kept_def f by (cases x; cases t) auto
  then have "keeps (tag_kept c) (\<lambda>t. tg_clientId t = Some c) (gd_tags db0) (set_row tg_id (tg_id t) f (gd_tags db))"
    using inv by (intro keeps_set_row [OF _ d t(1)]) (auto simp: frame_simps f)
  then show "keeps (tag_kept c) (\<lambda>t. tg_clientId t = Some c) (gd_tags db0) (gd_tags (db\<lparr>gd_tags := set_row tg_id (tg_id t) f (gd_tags db)\<rparr>))" by simp
  have owner: "tg_clientId x = Some (as_clientId a)" if "a \<in> set (gd_assets db)" "x \<in> set (gd_tags db)" "as_tagId a = Some (tg_id x)" for a x
    using inv that by (auto simp: mig_inv_def mig_aux_def tags_match_def)
  have "as_clientId a = c" if "a \<in> set (gd_assets db)" "as_tagId a = Some (tg_id t)" for a using owner [OF that(1) t(1) that(2)] t(2) by auto
  then have "tags_match (db\<lparr>gd_tags := set_row tg_id (tg_id t) f (gd_tags db)\<rparr>)"
    using inv owner by (auto simp: mig_inv_def mig_aux_def tags_match_def set_row_id_set f) (auto simp: set_row_def split: if_splits)
  then show "mig_aux env n (db\<lparr>gd_tags := set_row tg_id (tg_id t) f (gd_tags db)\<rparr>)"
    using inv d by (simp add: mig_inv_def mig_aux_def ids_distinct_def used_ids_def set_row_ids set_row_id_set f)
qed (use inv in \<open>simp_all add: frame_simps\<close>)

lemma inv_create_asset:
  assumes inv: "mig_inv env c db0 base n db" and row: "as_clientId r = c" "site_of c (as_siteId r) db"
    and tag: "as_tagId r = map_option tg_id tag" "\<And>t. tag = Some t \<Longrightarrow> t \<in> set (gd_tags db) \<and> tg_clientId t = Some c"
    and f: "f = (\<lambda>x. if tag \<noteq> None \<and> as_tagId x = map_option tg_id tag then x\<lparr>as_tagId := None\<rparr> else x)"
  shows "mig_inv env c db0 base n (db\<lparr>gd_assets := map f (gd_assets db) @ [r]\<rparr>)"
proof -
  let ?db = "db\<lparr>gd_assets := map f (gd_assets db) @ [r]\<rparr>"
  have owner: "t \<in> set (gd_tags db) \<Longrightarrow> as_tagId a = Some (tg_id t) \<Longrightarrow> tg_clientId t = Some (as_clientId a)" and ex: "as_tagId a = Some i \<Longrightarrow> i \<in> tg_id ` set (gd_tags db)"
    if "a \<in> set (gd_assets db)" for a t i
    using inv that by (auto simp: mig_inv_def mig_aux_def tags_match_def)
  have d: "distinct (map tg_id (gd_tags db))" using inv by (simp add: mig_inv_def mig_aux_def ids_distinct_def)
  have same: "as_id (f a) = as_id a" "as_clientId (f a) = as_clientId a" "as_siteId (f a) = as_siteId a" for a by (simp_all add: f)
  have eq: "site_of c i ?db = site_of c i db" "route_of c i ?db = route_of c i db" for i by (auto simp: site_of_def route_of_def)
  have grow: "asset_of c i ?db" if "asset_of c i db" for i using that by (auto simp: asset_of_def same)
  have mine: "f a = a \<or> (as_clientId a = c \<and> f a = a\<lparr>as_tagId := None\<rparr>)" if a: "a \<in> set (gd_assets db)" for a
    using tag(2) owner [OF a] by (auto simp: f)
  have step: "asset_kept c x (f y)" if "y \<in> set (gd_assets db)" "asset_kept c x y" for x y
    using that(2) unfolding asset_kept_def
  proof (elim disjE conjE)
    assume "y = x"
    then show "f y = x \<or> as_clientId x = c \<and> f y = x\<lparr>as_tagId := None\<rparr>" using mine [OF that(1)] by blast
  next
    assume x: "as_clientId x = c" "y = x\<lparr>as_tagId := None\<rparr>"
    then have "y\<lparr>as_tagId := None\<rparr> = y" by simp
    then have "f y = y" using mine [OF that(1)] by presburger
    from HOL.trans [OF this x(2)] show "f y = x \<or> as_clientId x = c \<and> f y = x\<lparr>as_tagId := None\<rparr>" using x(1) by blast
  qed
  have "keeps (asset_kept c) (\<lambda>a. as_clientId a = c \<and> site_of c (as_siteId a) db) (gd_assets db0) (map f (gd_assets db))"
    using inv step by (intro keeps_map) (auto simp: frame_simps same)
  then have "client_frame c db0 ?db" using inv row grow by (auto simp: frame_simps eq intro: keeps_add keeps_mono)
  moreover have "tags_match ?db"
  proof -
    have old: "as_tagId (f x) = Some i \<Longrightarrow> as_tagId x = Some i" for x i by (simp add: f split: if_splits)
    have new: "tg_clientId t = Some c \<and> t \<in> set (gd_tags db)" if t: "as_tagId r = Some (tg_id t)" "t \<in> set (gd_tags db)" for t
    proof -
      obtain u where u: "tag = Some u" "tg_id u = tg_id t" using t(1) tag(1) by (cases tag) auto
      then have "u = t" using same_row [OF d _ t(2)] tag(2) by blast
      then show ?thesis using tag(2) u(1) by blast
    qed
    have new_exists: "i \<in> tg_id ` set (gd_tags db)" if "as_tagId r = Some i" for i
      using that tag by (cases tag) auto
    have cases: "a = r \<or> (\<exists>x\<in>set (gd_assets db). a = f x)" if "a \<in> set (gd_assets ?db)" for a using that by auto
    have "i \<in> tg_id ` set (gd_tags db)" if "a \<in> set (gd_assets ?db)" "as_tagId a = Some i" for a i
      using cases [OF that(1)] new_exists that(2) old ex by blast
    moreover have "tg_clientId t = Some (as_clientId a)" if a: "a \<in> set (gd_assets ?db)" "t \<in> set (gd_tags db)" "as_tagId a = Some (tg_id t)" for a t
      using cases [OF a(1)]
    proof (elim disjE bexE)
      assume "a = r" then show ?thesis using new a(2,3) row(1) by simp
    next
      fix x assume x: "x \<in> set (gd_assets db)" "a = f x"
      then have "as_tagId x = Some (tg_id t)" using old a(3) by blast
      then show ?thesis using owner [OF x(1) a(2)] same(2) [of x] x(2) by simp
    qed
    ultimately show ?thesis by (simp add: tags_match_def)
  qed
  moreover have "grows c base ?db" using inv grow by (simp add: mig_inv_def grows_def)
  ultimately show ?thesis using inv by (simp add: mig_inv_def mig_aux_def ids_distinct_def used_ids_def)
qed

subsection \<open>The steps\<close>

abbreviation inv_at :: "mig_env \<Rightarrow> id \<Rightarrow> mig_db \<Rightarrow> mig_db \<Rightarrow> mig_state \<Rightarrow> bool" where
  "inv_at env c db0 base s \<equiv> mig_inv env c db0 base (ms_ids s) (ms_db s)"

lemma pick_candidate_in: "pick_candidate f i rows = Some r \<Longrightarrow> r \<in> set rows"
  by (auto simp: pick_candidate_def dest: find_by_SomeD at0_SomeD split: option.splits)

lemma catalog_client_own: "catalog_client n lc c \<noteq> Some c \<Longrightarrow> catalog_client n lc c = None"
  by (cases n) (auto simp: catalog_client_def split: if_splits)

lemma wp_category:
  assumes "inv_at env c db0 base s"
  shows "wp (getOrMigrateProductCategory env ldb lc c n) (\<lambda>r s'. inv_at env c db0 base s') s"
  unfolding getOrMigrateProductCategory_def
  using assms
  by (auto simp: wp_rules Let_def catalog_client_own new_category_def category_matches_def intro!: inv_add_category inv_link_category dest: pick_candidate_in split: option.splits)

lemma wp_manufacturer:
  assumes "inv_at env c db0 base s"
  shows "wp (getOrMigrateManufacturer env ldb lc c n) (\<lambda>r s'. inv_at env c db0 base s') s"
  unfolding getOrMigrateManufacturer_def
  using assms
  by (auto simp: wp_rules Let_def catalog_client_own intro!: inv_add_manufacturer inv_link_manufacturer dest: pick_candidate_in split: option.splits)

lemma wp_with_category: "inv_at env c db0 base s \<Longrightarrow> wp (with_category p) (\<lambda>r s'. inv_at env c db0 base s') s"
  unfolding with_category_def by (auto simp: wp_rules split: option.splits)

lemma wp_generic_product:
  assumes "inv_at env c db0 base s"
  shows "wp (generic_product env ldb lc c k) (\<lambda>r s'. inv_at env c db0 base s') s"
  unfolding generic_product_def wp_bind
proof (rule wp_mono [OF wp_category [OF assms]])
  fix category s1 assume inv: "inv_at env c db0 base s1"
  have two: "mig_inv env c db0 base (Suc (Suc n)) (db\<lparr>gd_manufacturers := gd_manufacturers db @ [m], gd_products := gd_products db @ [p]\<rparr>)"
    if "mig_inv env c db0 base n db" "mf_id m = le_newId env n" "pr_id p = le_newId env (Suc n)" "mf_clientId m = Some c" "pr_clientId p = Some c" for n db m p
    using inv_add_product [OF inv_add_manufacturer [OF that(1,2)] that(3)] that(4,5) by simp
  show "wp (case category of None \<Rightarrow> mreturn None | Some d \<Rightarrow> if trim (ct_name d) = [] then mreturn None
       else let prefix = CHR ''#'' # show_int (cat_no k) @ '' '' @ trim (ct_name d); name = prefix @ '' Asset''
         in mbind (mread gd_products) (\<lambda>rows.
            case List.find (\<lambda>p. cp_name p = name \<and> pr_categoryId p = ct_id d \<and> pr_clientId p = Some c) rows of
              None \<Rightarrow> mbind (new_id env) (\<lambda>m. mbind (new_id env) (\<lambda>i.
                let mf = \<lparr>mf_id = m, mf_legacyManufacturerId = None, mf_createdOn = le_txNow env, mf_active = True,
                            mf_name = prefix @ '' Manufacturer'', mf_homeUrl = None, mf_clientId = Some c\<rparr>;
                    p = \<lparr>pr_id = i, pr_categoryId = ct_id d, pr_manufacturerId = m, pr_metadata = None, pr_clientId = Some c,
                           cp_name = name, mp_legacyProductId = None, mp_createdOn = le_txNow env, mp_active = True, mp_description = None,
                           mp_sku = None, mp_productUrl = None, mp_imageUrl = None\<rparr>
                in mseq (mwrite (\<lambda>db. db\<lparr>gd_manufacturers := gd_manufacturers db @ [mf], gd_products := gd_products db @ [p]\<rparr>)) (with_category p)))
            | Some p \<Rightarrow> with_category p)) (\<lambda>r s'. inv_at env c db0 base s') s1"
    using inv by (auto simp: wp_rules Let_def intro!: wp_with_category two split: option.split)
qed

lemma wp_link_product:
  assumes "inv_at env c db0 base s"
  shows "wp (link_or_create_product env n lp k m) (\<lambda>r s'. inv_at env c db0 base s') s"
proof -
  have found: "p \<in> set rows \<and> product_by_name env lp k m p" if "List.find (product_by_name env lp k m) rows = Some p" for p rows
    using that by (auto simp: find_Some_iff)
  show ?thesis unfolding link_or_create_product_def
    using assms by (auto simp: wp_rules Let_def product_by_name_def intro!: wp_with_category inv_add_product inv_link_product dest!: found split: option.split)
qed

lemma wp_migrate_product:
  assumes "inv_at env c db0 base s"
  shows "wp (migrate_product env ldb lc c n lp) (\<lambda>r s'. inv_at env c db0 base s') s"
proof -
  have "wp (mbind (getOrMigrateProductCategory env ldb lc c i) (\<lambda>category. mbind (getOrMigrateManufacturer env ldb lc c j) (\<lambda>manufacturer.
      case (category, manufacturer) of (Some k, Some m) \<Rightarrow> link_or_create_product env n lp k m | _ \<Rightarrow> mreturn None)))
      (\<lambda>r s'. inv_at env c db0 base s') s" for i j
    unfolding wp_bind
    by (rule wp_mono [OF wp_category [OF assms]], rule wp_mono [OF wp_manufacturer]) (auto simp: wp_return intro: wp_link_product split: option.split)
  then show ?thesis unfolding migrate_product_def using assms by (auto simp: wp_return wp_bind [of "mread gd_products"] wp_read intro: wp_with_category split: option.split)
qed

lemma wp_product:
  assumes "inv_at env c db0 base s"
  shows "wp (getOrMigrateProduct env ldb lc c i j) (\<lambda>r s'. inv_at env c db0 base s') s"
  unfolding getOrMigrateProduct_def Let_def
  using assms by (auto simp: wp_return intro: wp_generic_product wp_migrate_product split: option.split)

lemma wp_tag:
  assumes inv: "inv_at env c db0 base s" and site: "st_clientId site = c"
  shows "wp (getOrMigrateTag env ldb site n)
    (\<lambda>r s'. inv_at env c db0 base s' \<and> (\<forall>t. r = Some t \<longrightarrow> t \<in> set (gd_tags (ms_db s')) \<and> tg_clientId t = Some c)) s"
proof -
  have found: "t \<in> set rows \<and> (tg_clientId t = None \<or> tg_clientId t = Some c) \<and> (tg_siteId t \<noteq> None \<longrightarrow> tg_clientId t = None \<or> tg_clientId t = Some c)"
    if "pick_candidate mg_legacyTagId i (filter (tag_claimable site) (filter P rows)) = Some t" for t i P rows
    using pick_candidate_in [OF that] site by (auto simp: tag_claimable_def)
  have updated: "t \<in> set rows \<Longrightarrow> f t \<in> set (set_row tg_id (tg_id t) f rows)" for t f and rows :: "mig_tag list" by (auto simp: set_row_def)
  have more: "mig_inv env c db0 base (Suc (Suc m)) (db\<lparr>gd_tags := gd_tags db @ [t]\<rparr>)"
    if "mig_inv env c db0 base m db" "tg_id t = le_newId env m" "tg_clientId t = Some c" for m db t
    using mig_inv_id [OF inv_add_tag [OF that]] by simp
  show ?thesis unfolding getOrMigrateTag_def
    using inv by (auto simp: wp_rules Let_def site simp del: filter_filter intro!: more inv_claim_tag updated dest!: found split: option.split)
qed

subsection \<open>Routes and assets\<close>

lemma update_values: "x \<in> snd ` set (AList.update k v m) \<Longrightarrow> x = v \<or> x \<in> snd ` set m"
  by (induction m) (auto split: if_splits)

definition routes_ok :: "id \<Rightarrow> mig_db \<Rightarrow> asset_acc \<Rightarrow> bool" where
  "routes_ok c db acc = (\<forall>r\<in>snd ` set (xa_routes acc). r \<in> set (gd_routes db) \<and> ir_clientId r = c)"

lemma routes_ok_grows: "routes_ok c db acc \<Longrightarrow> grows c db db' \<Longrightarrow> routes_ok c db' acc"
  by (auto simp: routes_ok_def grows_def)

lemma routes_ok_update: "routes_ok c db acc \<Longrightarrow> r \<in> set (gd_routes db) \<Longrightarrow> ir_clientId r = c \<Longrightarrow> routes_ok c db (acc\<lparr>xa_routes := AList.update k r (xa_routes acc)\<rparr>)"
  unfolding routes_ok_def
proof
  fix x assume "\<forall>r\<in>snd ` set (xa_routes acc). r \<in> set (gd_routes db) \<and> ir_clientId r = c" "r \<in> set (gd_routes db)" "ir_clientId r = c"
    "x \<in> snd ` set (xa_routes (acc\<lparr>xa_routes := AList.update k r (xa_routes acc)\<rparr>))"
  then show "x \<in> set (gd_routes db) \<and> ir_clientId x = c" using update_values [of x k r "xa_routes acc"] by auto
qed

lemma routes_ok_other [simp]:
  "routes_ok c db (acc\<lparr>xa_points := ps\<rparr>) = routes_ok c db acc" "routes_ok c db (acc\<lparr>xa_assets := as\<rparr>) = routes_ok c db acc"
  "routes_ok c db (acc\<lparr>xa_count := n\<rparr>) = routes_ok c db acc"
  by (simp_all add: routes_ok_def)

lemma routes_ok_load:
  assumes "routes_ok c db acc"
  shows "routes_ok c db (load_routes c db acc)"
proof -
  have gen: "routes_ok c db (foldl (\<lambda>acc r. acc\<lparr>xa_routes := AList.update (ir_siteId r) r (xa_routes acc), xa_points := g acc r\<rparr>) acc rs)"
    if "set rs \<subseteq> {r \<in> set (gd_routes db). ir_clientId r = c}" for rs g
    using that
  proof (induction rs rule: rev_induct)
    case (snoc r rs)
    then show ?case using routes_ok_update by simp
  qed (simp add: assms)
  show ?thesis unfolding load_routes_def by (rule gen) auto
qed

lemma routes_ok_lookup: "routes_ok c db acc \<Longrightarrow> map_of (xa_routes acc) i = Some r \<Longrightarrow> route_of c (ir_id r) db"
  by (force simp: routes_ok_def route_of_def dest!: map_of_SomeD)

lemma wp_route:
  assumes inv: "inv_at env c db0 base s" and ok: "routes_ok c (ms_db s) acc"
  shows "wp (getOrCreateDefaultInspectionRoute env c sites i acc)
    (\<lambda>(r, acc') s'. inv_at env c db0 base s' \<and> routes_ok c (ms_db s') acc' \<and> route_of c (ir_id r) (ms_db s')) s"
proof -
  have new: "mig_inv env c db0 base (Suc (ms_ids s)) (ms_db s\<lparr>gd_routes := gd_routes (ms_db s) @ [r]\<rparr>)
      \<and> routes_ok c (ms_db s\<lparr>gd_routes := gd_routes (ms_db s) @ [r]\<rparr>) (acc\<lparr>xa_routes := AList.update i r (xa_routes acc)\<rparr>)
      \<and> route_of c (ir_id r) (ms_db s\<lparr>gd_routes := gd_routes (ms_db s) @ [r]\<rparr>)" if "ir_clientId r = c" "routes_ok c (ms_db s) acc" for r acc
  proof (intro conjI)
    show "mig_inv env c db0 base (Suc (ms_ids s)) (ms_db s\<lparr>gd_routes := gd_routes (ms_db s) @ [r]\<rparr>)" using inv_add_route [OF mig_inv_id [OF inv] that(1)] by simp
    have "routes_ok c (ms_db s\<lparr>gd_routes := gd_routes (ms_db s) @ [r]\<rparr>) acc" using that(2) by (auto simp: routes_ok_def)
    then show "routes_ok c (ms_db s\<lparr>gd_routes := gd_routes (ms_db s) @ [r]\<rparr>) (acc\<lparr>xa_routes := AList.update i r (xa_routes acc)\<rparr>)"
      using that(1) by (intro routes_ok_update) simp_all
  qed (use that in \<open>simp add: route_of_def\<close>)
  have here: "route_of c j (db\<lparr>gd_routes := rs @ [\<lparr>ir_id = j, ir_name = m, ir_description = None, ir_siteId = i, ir_clientId = c\<rparr>]\<rparr>)" for j m db rs by (simp add: route_of_def)
  have rec: "routes_ok c (ms_db s) (if xa_routes acc = [] then load_routes c (ms_db s) acc else acc)" using ok routes_ok_load by simp
  show ?thesis unfolding getOrCreateDefaultInspectionRoute_def
    using inv ok rec new by (auto simp: wp_rules Let_def here dest: routes_ok_lookup split: option.split)
qed

lemma wp_assignment:
  assumes inv: "inv_at env c db0 base s" and ok: "routes_ok c (ms_db s) acc" and a: "asset_of c assetId (ms_db s)"
  shows "wp (migrateRouteAssignment env c sites assetId i n acc) (\<lambda>acc' s'. inv_at env c db0 base s' \<and> routes_ok c (ms_db s') acc') s"
proof (cases "assetId \<in> fst ` set (xa_points acc)")
  case True
  then show ?thesis using inv ok by (simp add: migrateRouteAssignment_def wp_return)
next
  case False
  have "wp (getOrCreateDefaultInspectionRoute env c sites i acc)
      (\<lambda>(r, acc') s'. inv_at env c db0 (ms_db s) s' \<and> routes_ok c (ms_db s') acc' \<and> route_of c (ir_id r) (ms_db s')) s"
    by (rule wp_route [OF mig_inv_rebase [OF inv] ok])
  then have "wp (getOrCreateDefaultInspectionRoute env c sites i acc)
      (\<lambda>x s'. wp ((\<lambda>(r, acc). mbind (new_id env) (\<lambda>i. let p = \<lparr>ip_id = i, ip_order = n, ip_routeId = ir_id r, ip_assetId = assetId\<rparr>
        in mseq (mwrite (\<lambda>db. db\<lparr>gd_points := gd_points db @ [p]\<rparr>)) (mreturn (acc\<lparr>xa_points := AList.update assetId p (xa_points acc)\<rparr>)))) x)
        (\<lambda>acc' s'. inv_at env c db0 base s' \<and> routes_ok c (ms_db s') acc') s') s"
  proof (rule wp_mono, clarify)
    fix r acc' s' assume s': "inv_at env c db0 (ms_db s) s'" "routes_ok c (ms_db s') acc'" "route_of c (ir_id r) (ms_db s')"
    have "asset_of c assetId (ms_db s')" using mig_inv_grows [OF s'(1)] a by (simp add: grows_def)
    then have "mig_inv env c db0 base (Suc (ms_ids s')) (ms_db s'\<lparr>gd_points := gd_points (ms_db s') @ [\<lparr>ip_id = j, ip_order = n, ip_routeId = ir_id r, ip_assetId = assetId\<rparr>]\<rparr>)" for j
      using s'(3) by (intro inv_add_point mig_inv_id [OF mig_inv_trans [OF inv s'(1)]]) simp_all
    moreover have "routes_ok c (ms_db s'\<lparr>gd_points := ps\<rparr>) acc'" for ps using s'(2) by (simp add: routes_ok_def)
    ultimately show "wp (mbind (new_id env) (\<lambda>i. let p = \<lparr>ip_id = i, ip_order = n, ip_routeId = ir_id r, ip_assetId = assetId\<rparr>
        in mseq (mwrite (\<lambda>db. db\<lparr>gd_points := gd_points db @ [p]\<rparr>)) (mreturn (acc'\<lparr>xa_points := AList.update assetId p (xa_points acc')\<rparr>))))
        (\<lambda>acc' s'. inv_at env c db0 base s' \<and> routes_ok c (ms_db s') acc') s'" by (simp add: wp_rules Let_def)
  qed
  then show ?thesis using False by (simp add: migrateRouteAssignment_def wp_bind)
qed

lemma wp_create_asset:
  assumes inv: "inv_at env c db0 base s" and site: "site \<in> set (gd_sites (ms_db s))" "st_clientId site = c"
    and tag: "\<And>t. tag = Some t \<Longrightarrow> t \<in> set (gd_tags (ms_db s)) \<and> tg_clientId t = Some c"
  shows "wp (create_mig_asset env site a p tag) (\<lambda>row s'. inv_at env c db0 base s' \<and> asset_of c (as_id row) (ms_db s')) s"
proof -
  have own: "site_of c (st_id site) (ms_db s)" using site by (auto simp: site_of_def)
  have new: "mig_inv env c db0 base (Suc (ms_ids s)) (ms_db s\<lparr>gd_assets := map (\<lambda>x. if tag \<noteq> None \<and> as_tagId x = map_option tg_id tag then x\<lparr>as_tagId := None\<rparr> else x) (gd_assets (ms_db s)) @ [row]\<rparr>)"
    if "as_clientId row = c" "as_siteId row = st_id site" "as_tagId row = map_option tg_id tag" for row
    using own that(2) by (intro inv_create_asset [OF mig_inv_id [OF inv] that(1) _ that(3) tag HOL.refl]) simp_all
  have here: "asset_of c (as_id row) (db\<lparr>gd_assets := xs @ [row]\<rparr>)" if "as_clientId row = c" for row db xs using that by (auto simp: asset_of_def)
  have eq: "asset_of c (as_id row) db \<longleftrightarrow> asset_of c (as_id row) db" for row db by simp
  let ?row = "\<lambda>created setup. \<lparr>as_id = le_newId env (ms_ids s), as_createdOn = created, as_setupOn = Some setup, as_configured = False, as_active = (a_status a = Some 1),
                 as_name = asset_name a (snd p), as_productId = pr_id (fst p), as_tagId = map_option tg_id tag,
                 as_serialNumber = nullish_or (a_serial a) [], as_inspectionCycle = None, as_metadata = None, as_siteId = st_id site,
                 as_clientId = st_clientId site, ma_legacyAssetId = a_id a, ma_location = nullish_or (a_location a) [], ma_placement = nullish_or (a_placement a) []\<rparr>"
  note facts = new [of "?row x y" for x y] here [of "?row x y" for x y]
  show ?thesis unfolding create_mig_asset_def date_or_now_def
    using facts site(2) by (cases "a_date_insert a") (simp_all add: wp_rules Let_def)
qed

lemma wp_assign:
  assumes "inv_at env c db0 base s" and "routes_ok c (ms_db s) acc" and "asset_of c (as_id row) (ms_db s)"
  shows "wp (assign_route env c sites a row acc) (\<lambda>acc' s'. inv_at env c db0 base s' \<and> routes_ok c (ms_db s') acc') s"
  unfolding assign_route_def using assms by (auto simp: wp_return intro: wp_assignment split: option.split)

definition sites_ok :: "id \<Rightarrow> mig_db \<Rightarrow> ('k, mig_site) jmap \<Rightarrow> bool" where
  "sites_ok c db sites = (\<forall>r\<in>snd ` set sites. r \<in> set (gd_sites db) \<and> st_clientId r = c)"

lemma sites_ok_lookup: "sites_ok c db sites \<Longrightarrow> map_of sites i = Some r \<Longrightarrow> r \<in> set (gd_sites db) \<and> st_clientId r = c"
  by (force simp: sites_ok_def dest!: map_of_SomeD)

lemma wp_new_asset:
  assumes inv: "inv_at env c db0 base s" and ok: "routes_ok c (ms_db s) acc" and site: "site \<in> set (gd_sites (ms_db s))" "st_clientId site = c"
  shows "wp (mbind (getOrMigrateProduct env ldb lc c (a_p_no a) (a_cat_no a)) (\<lambda>product.
               mbind (case a_t_no a of None \<Rightarrow> mreturn None | Some n \<Rightarrow> getOrMigrateTag env ldb site n) (\<lambda>tag.
               case product of
                 None \<Rightarrow> mreturn acc
               | Some p \<Rightarrow>
                   mbind (create_mig_asset env site a p tag) (\<lambda>row.
                   mbind (assign_route env c sites a row acc) (\<lambda>acc.
                   mreturn (acc\<lparr>xa_assets := AList.update (a_no a) row (xa_assets acc), xa_count := xa_count acc + 1\<rparr>))))))
    (\<lambda>acc' s'. inv_at env c db0 base s' \<and> routes_ok c (ms_db s') acc') s"
  unfolding wp_bind
proof (rule wp_mono [OF wp_product [OF mig_inv_rebase [OF inv]]])
  fix product s1 assume s1: "inv_at env c db0 (ms_db s) s1"
  have inv1: "inv_at env c db0 base s1" by (rule mig_inv_trans [OF inv s1])
  have ok1: "routes_ok c (ms_db s1) acc" by (rule routes_ok_grows [OF ok mig_inv_grows [OF s1]])
  have site1: "site \<in> set (gd_sites (ms_db s1))" using mig_inv_grows [OF s1] site(1) by (auto simp: grows_def)
  let ?Q = "\<lambda>tag s2. inv_at env c db0 (ms_db s1) s2 \<and> (\<forall>t. tag = Some t \<longrightarrow> t \<in> set (gd_tags (ms_db s2)) \<and> tg_clientId t = Some c)"
  have tag: "wp (case a_t_no a of None \<Rightarrow> mreturn None | Some n \<Rightarrow> getOrMigrateTag env ldb site n) ?Q s1"
    using wp_tag [OF mig_inv_rebase [OF inv1] site(2)] mig_inv_rebase [OF inv1] by (auto simp: wp_return split: option.split)
  show "wp (case a_t_no a of None \<Rightarrow> mreturn None | Some n \<Rightarrow> getOrMigrateTag env ldb site n)
      (\<lambda>tag. wp (case product of None \<Rightarrow> mreturn acc | Some p \<Rightarrow> mbind (create_mig_asset env site a p tag) (\<lambda>row.
          mbind (assign_route env c sites a row acc) (\<lambda>acc.
          mreturn (acc\<lparr>xa_assets := AList.update (a_no a) row (xa_assets acc), xa_count := xa_count acc + 1\<rparr>))))
        (\<lambda>acc' s'. inv_at env c db0 base s' \<and> routes_ok c (ms_db s') acc')) s1"
  proof (rule wp_mono [OF tag], elim conjE)
    fix tag s2 assume s2: "inv_at env c db0 (ms_db s1) s2" and t: "\<forall>t. tag = Some t \<longrightarrow> t \<in> set (gd_tags (ms_db s2)) \<and> tg_clientId t = Some c"
    have inv2: "inv_at env c db0 base s2" by (rule mig_inv_trans [OF inv1 s2])
    have ok2: "routes_ok c (ms_db s2) acc" by (rule routes_ok_grows [OF ok1 mig_inv_grows [OF s2]])
    have site2: "site \<in> set (gd_sites (ms_db s2))" using mig_inv_grows [OF s2] site1 by (auto simp: grows_def)
    have "wp (mbind (create_mig_asset env site a p tag) (\<lambda>row. mbind (assign_route env c sites a row acc) (\<lambda>acc.
          mreturn (acc\<lparr>xa_assets := AList.update (a_no a) row (xa_assets acc), xa_count := xa_count acc + 1\<rparr>))))
        (\<lambda>acc' s'. inv_at env c db0 base s' \<and> routes_ok c (ms_db s') acc') s2" for p
      unfolding wp_bind
    proof (rule wp_mono [OF wp_create_asset [OF mig_inv_rebase [OF inv2] site2 site(2)]], use t in blast, elim conjE)
      fix row :: mig_asset and s3 assume s3: "inv_at env c db0 (ms_db s2) s3" "asset_of c (as_id row) (ms_db s3)"
      show "wp (assign_route env c sites a row acc) (\<lambda>x. wp (mreturn (x\<lparr>xa_assets := AList.update (a_no a) row (xa_assets x), xa_count := xa_count x + 1\<rparr>))
          (\<lambda>acc' s'. inv_at env c db0 base s' \<and> routes_ok c (ms_db s') acc')) s3"
        by (rule wp_mono [OF wp_assign [OF mig_inv_trans [OF inv2 s3(1)] routes_ok_grows [OF ok2 mig_inv_grows [OF s3(1)]] s3(2)]]) (simp add: wp_return)
    qed
    then show "wp (case product of None \<Rightarrow> mreturn acc | Some p \<Rightarrow> mbind (create_mig_asset env site a p tag) (\<lambda>row. mbind (assign_route env c sites a row acc) (\<lambda>acc.
          mreturn (acc\<lparr>xa_assets := AList.update (a_no a) row (xa_assets acc), xa_count := xa_count acc + 1\<rparr>))))
        (\<lambda>acc' s'. inv_at env c db0 base s' \<and> routes_ok c (ms_db s') acc') s2"
      using inv2 ok2 by (cases product) (simp_all add: wp_return)
  qed
qed

lemma wp_asset:
  assumes inv: "inv_at env c db0 base s" and ok: "routes_ok c (ms_db s) acc" and sites: "sites_ok c base sites"
    and old: "\<And>k row. map_of migrated k = Some row \<Longrightarrow> asset_of c (as_id row) base"
  shows "wp (migrate_asset env ldb lc c sites migrated a acc) (\<lambda>acc' s'. inv_at env c db0 base s' \<and> routes_ok c (ms_db s') acc') s"
proof -
  have g: "grows c base (ms_db s)" by (rule mig_inv_grows [OF inv])
  have site: "site \<in> set (gd_sites (ms_db s)) \<and> st_clientId site = c" if "Option.bind (a_loc_no a) (map_of sites) = Some site" for site
    using that sites_ok_lookup [OF sites] g by (cases "a_loc_no a") (auto simp: grows_def)
  have row: "asset_of c (as_id row) (ms_db s)" if "map_of migrated (a_id a) = Some row" for row using old [OF that] g by (simp add: grows_def)
  show ?thesis
  proof (cases "a_id a = None \<or> map_of migrated (a_id a) \<noteq> None")
    case True
    then show ?thesis unfolding migrate_asset_def using inv ok row by (auto simp: wp_return intro!: wp_assign)
  next
    case False
    show ?thesis
    proof (cases "Option.bind (a_loc_no a) (map_of sites)")
      case None
      then show ?thesis unfolding migrate_asset_def using False inv ok by (simp add: wp_return)
    next
      case (Some r)
      then show ?thesis unfolding migrate_asset_def using False wp_new_asset [OF inv ok, of r] site [OF Some] by auto
    qed
  qed
qed

lemma wp_assets:
  assumes inv: "inv_at env c db0 base s" and c: "cl_id newClient = c" and sites: "sites_ok c (ms_db s) sites"
    and client: "set (client_ids_of (c_id lc) (ms_db s)) \<subseteq> {c}"
  shows "wp (migrateAssets env ldb lc newClient sites) (\<lambda>_ s'. inv_at env c db0 base s') s"
proof (cases "legacy_assets_of ldb (c_no lc) = []")
  case True
  then show ?thesis using inv by (simp add: migrateAssets_def wp_rules)
next
  case False
  let ?e = "Alert Info ''Now let's work on migrating the client's assets.''"
  let ?s = "s\<lparr>ms_events := ms_events s @ [?e]\<rparr>" and ?migrated = "jmap_of (map (\<lambda>r. (ma_legacyAssetId r, r)) (alreadyMigratedAssets lc (ms_db s)))"
  let ?J = "\<lambda>acc s'. inv_at env c db0 (ms_db s) s' \<and> routes_ok c (ms_db s') acc"
  have old: "asset_of c (as_id row) (ms_db s)" if "map_of ?migrated k = Some row" for k row
    using jmap_of_SomeD [OF that] client by (auto simp: alreadyMigratedAssets_def asset_of_def)
  have "wp (mfor (migrate_asset env ldb lc c sites ?migrated) (legacy_assets_of ldb (c_no lc)) \<lparr>xa_routes = [], xa_points = [], xa_assets = [], xa_count = 0\<rparr>) ?J ?s"
  proof (rule wp_for)
    fix a acc s' assume "?J acc s'"
    then show "wp (migrate_asset env ldb lc c sites ?migrated a acc) ?J s'" using sites old by (intro wp_asset) auto
  qed (use mig_inv_rebase [OF inv] in \<open>simp add: routes_ok_def\<close>)
  then have "wp (mfor (migrate_asset env ldb lc c sites ?migrated) (legacy_assets_of ldb (c_no lc)) \<lparr>xa_routes = [], xa_points = [], xa_assets = [], xa_count = 0\<rparr>)
      (\<lambda>acc. wp (mseq (emitEvent (assets_message (xa_count acc))) (mreturn (xa_assets acc))) (\<lambda>_ s'. inv_at env c db0 base s')) ?s"
    by (rule wp_mono) (auto simp: wp_rules intro: mig_inv_trans [OF inv])
  then show ?thesis using False unfolding migrateAssets_def by (simp add: wp_rules c)
qed

subsection \<open>Sites\<close>

lemma sites_ok_Nil [simp]: "sites_ok c db []"
  by (simp add: sites_ok_def)

lemma sites_ok_grows: "sites_ok c db m \<Longrightarrow> grows c db db' \<Longrightarrow> sites_ok c db' m"
  by (auto simp: sites_ok_def grows_def)

lemma sites_ok_update: "sites_ok c db m \<Longrightarrow> r \<in> set (gd_sites db) \<Longrightarrow> st_clientId r = c \<Longrightarrow> sites_ok c db (AList.update k r m)"
  unfolding sites_ok_def
proof
  fix x assume "\<forall>r\<in>snd ` set m. r \<in> set (gd_sites db) \<and> st_clientId r = c" "r \<in> set (gd_sites db)" "st_clientId r = c" "x \<in> snd ` set (AList.update k r m)"
  then show "x \<in> set (gd_sites db) \<and> st_clientId x = c" using update_values [of x k r m] by auto
qed

lemma wp_create_site:
  assumes inv: "inv_at env c db0 base s" and row: "\<And>i x. st_clientId (row i x) = c"
  shows "wp (create_mig_site env row) (\<lambda>r s'. inv_at env c db0 base s' \<and> r \<in> set (gd_sites (ms_db s')) \<and> st_clientId r = c) s"
  unfolding create_mig_site_def
  using inv_add_site [OF mig_inv_id [OF inv] row, of "Suc (Suc (ms_ids s))"] by (simp add: wp_rules Let_def row)

lemma wp_group:
  assumes inv: "inv_at env c db0 base s" and ok: "sites_ok c (ms_db s) (sa_sites acc)"
  shows "wp (migrate_group env c ids g acc) (\<lambda>acc' s'. inv_at env c db0 base s' \<and> sites_ok c (ms_db s') (sa_sites acc')) s"
proof -
  have "wp (create_mig_site env (group_site env c g address phone))
      (\<lambda>r s'. inv_at env c db0 (ms_db s) s' \<and> r \<in> set (gd_sites (ms_db s')) \<and> st_clientId r = c) (s\<lparr>ms_events := evs, ms_answers := ms\<rparr>)" for address phone evs ms
    by (rule wp_create_site) (use mig_inv_rebase [OF inv] in \<open>simp_all add: group_site_def\<close>)
  then have make: "wp (create_mig_site env (group_site env c g address phone))
      (\<lambda>r. wp (mreturn (acc\<lparr>sa_lastAddress := Some address, sa_lastPhoneNumber := Some phone,
                     sa_groups := AList.update (group_no g) (st_id r) (sa_groups acc), sa_groupCount := sa_groupCount acc + 1\<rparr>))
        (\<lambda>acc' s'. inv_at env c db0 base s' \<and> sites_ok c (ms_db s') (sa_sites acc'))) (s\<lparr>ms_events := evs, ms_answers := ms\<rparr>)" for address phone evs ms
    by (rule wp_mono, elim conjE) (simp add: wp_return mig_inv_trans [OF inv] sites_ok_grows [OF ok mig_inv_grows])
  show ?thesis unfolding migrate_group_def promptForAddress_def promptForPhoneNumber_def Let_def
    using inv ok make by (auto simp: wp_return wp_bind intro!: wp_prompt split: option.split)
qed

lemma wp_site_name:
  "(\<And>n evs ms. Q n (s\<lparr>ms_events := evs, ms_answers := ms\<rparr>)) \<Longrightarrow> Q (loc_name l) s \<Longrightarrow> wp (ask_site_name l) Q s"
  by (auto simp: ask_site_name_def wp_return wp_bind intro!: wp_prompt)

lemma wp_site_address:
  "(\<And>n evs ms. Q n (s\<lparr>ms_events := evs, ms_answers := ms\<rparr>)) \<Longrightarrow> (\<And>n. Q n s) \<Longrightarrow> wp (site_address l name v) Q s"
  by (auto simp: site_address_def promptForAddress_def wp_return intro!: wp_prompt)

lemma wp_site_phone:
  "(\<And>n evs ms. Q n (s\<lparr>ms_events := evs, ms_answers := ms\<rparr>)) \<Longrightarrow> (\<And>n. Q n s) \<Longrightarrow> wp (site_phone l name v) Q s"
  by (auto simp: site_phone_def promptForPhoneNumber_def wp_return intro!: wp_prompt)

lemma wp_new_site:
  assumes inv: "inv_at env c db0 base s" and ok: "sites_ok c (ms_db s) (sa_sites acc)"
  shows "wp (mbind (site_address l name (sa_lastAddress acc)) (\<lambda>address.
            mbind (site_phone l name (sa_lastPhoneNumber acc)) (\<lambda>phone.
            mbind (create_mig_site env (location_site env c (sa_groups acc) l name address phone)) (\<lambda>r.
            mreturn (acc\<lparr>sa_lastAddress := Some address, sa_lastPhoneNumber := Some phone,
              sa_sites := AList.update (loc_no l) r (sa_sites acc), sa_siteCount := sa_siteCount acc + 1\<rparr>)))))
    (\<lambda>acc' s'. inv_at env c db0 base s' \<and> sites_ok c (ms_db s') (sa_sites acc')) s"
proof -
  have make: "wp (create_mig_site env (location_site env c (sa_groups acc) l name address phone))
      (\<lambda>r. wp (mreturn (acc\<lparr>sa_lastAddress := Some address, sa_lastPhoneNumber := Some phone,
              sa_sites := AList.update (loc_no l) r (sa_sites acc), sa_siteCount := sa_siteCount acc + 1\<rparr>))
        (\<lambda>acc' s'. inv_at env c db0 base s' \<and> sites_ok c (ms_db s') (sa_sites acc'))) s1"
    if "ms_ids s1 = ms_ids s" "ms_db s1 = ms_db s" for address phone s1
  proof -
    have "wp (create_mig_site env (location_site env c (sa_groups acc) l name address phone))
        (\<lambda>r s'. inv_at env c db0 (ms_db s) s' \<and> r \<in> set (gd_sites (ms_db s')) \<and> st_clientId r = c) s1"
      by (rule wp_create_site) (use mig_inv_rebase [OF inv] that in \<open>simp_all add: location_site_def\<close>)
    then show ?thesis
      by (rule wp_mono, elim conjE) (simp add: wp_return mig_inv_trans [OF inv] sites_ok_update sites_ok_grows [OF ok mig_inv_grows])
  qed
  show ?thesis unfolding wp_bind by (intro wp_site_address wp_site_phone make) simp_all
qed

lemma wp_site:
  assumes inv: "inv_at env c db0 base s" and ok: "sites_ok c (ms_db s) (sa_sites acc)" and old: "sites_ok c base ids"
  shows "wp (migrate_site env ldb c ids l acc) (\<lambda>acc' s'. inv_at env c db0 base s' \<and> sites_ok c (ms_db s') (sa_sites acc')) s"
proof (cases "\<not> truthy (loc_id l) \<or> map_of ids (the (loc_id l)) \<noteq> None")
  case True
  have "sites_ok c (ms_db s) ids" by (rule sites_ok_grows [OF old mig_inv_grows [OF inv]])
  then show ?thesis using True inv ok sites_ok_lookup [of c "ms_db s" ids]
    by (auto simp: migrate_site_def wp_return intro!: sites_ok_update)
next
  case False
  have new: "wp (if \<not> truthy name \<and> filter (\<lambda>a. a_loc_no a = Some (loc_no l)) (ldb_assets ldb) = [] then mreturn acc
          else mbind (site_address l name (sa_lastAddress acc)) (\<lambda>address.
            mbind (site_phone l name (sa_lastPhoneNumber acc)) (\<lambda>phone.
            mbind (create_mig_site env (location_site env c (sa_groups acc) l name address phone)) (\<lambda>r.
            mreturn (acc\<lparr>sa_lastAddress := Some address, sa_lastPhoneNumber := Some phone,
              sa_sites := AList.update (loc_no l) r (sa_sites acc), sa_siteCount := sa_siteCount acc + 1\<rparr>)))))
      (\<lambda>acc' s'. inv_at env c db0 base s' \<and> sites_ok c (ms_db s') (sa_sites acc')) s1"
    if "ms_ids s1 = ms_ids s" "ms_db s1 = ms_db s" for s1 name
    using wp_new_site [of env c db0 base s1 acc l name] inv ok that by (simp add: wp_return)
  show ?thesis using False unfolding migrate_site_def
    by (auto simp: wp_bind [of "ask_site_name l"] intro!: wp_site_name new)
qed

lemma wp_sites:
  assumes inv: "inv_at env c db0 base s" and c: "cl_id newClient = c"
    and client: "set (client_ids_of (c_id lc) (ms_db s)) \<subseteq> {c}"
  shows "wp (migrateSites env ldb lc newClient) (\<lambda>sites s'. inv_at env c db0 base s' \<and> sites_ok c (ms_db s') sites) s"
proof -
  let ?old = "alreadyMigratedSites lc (ms_db s)"
  let ?J = "\<lambda>acc s'. inv_at env c db0 (ms_db s) s' \<and> sites_ok c (ms_db s') (sa_sites acc)"
  have old: "sites_ok c (ms_db s) (legacyIdToNewSiteIdMap ?old)"
    unfolding sites_ok_def legacyIdToNewSiteIdMap_def
  proof
    fix r assume "r \<in> snd ` set (jmap_of (map (\<lambda>r. (the (mt_legacySiteId r), r)) (filter (\<lambda>r. truthy (mt_legacySiteId r)) ?old)))"
    then have "r \<in> set ?old" by (auto dest!: jmap_of_mem)
    then show "r \<in> set (gd_sites (ms_db s)) \<and> st_clientId r = c" using client by (auto simp: alreadyMigratedSites_def)
  qed
  have start: "inv_at env c db0 (ms_db s) s" by (rule mig_inv_rebase [OF inv])
  have loop: "wp (mfor (migrate_group env c ids) gs acc) (\<lambda>acc. wp (mfor (migrate_site env ldb c (legacyIdToNewSiteIdMap ?old)) ls acc) ?J) s1"
    if "ms_ids s1 = ms_ids s" "ms_db s1 = ms_db s" "sa_sites acc = []" for ids gs ls acc s1
  proof (rule wp_mono [of _ ?J])
    show "wp (mfor (migrate_group env c ids) gs acc) ?J s1"
      by (rule wp_for) (use start that in \<open>auto intro!: wp_group\<close>)
    show "wp (mfor (migrate_site env ldb c (legacyIdToNewSiteIdMap ?old)) ls acc) ?J s2" if "?J acc s2" for acc s2
      by (rule wp_for) (use that old in \<open>auto intro!: wp_site\<close>)
  qed
  have last: "wp (mseq (emitEvent (sites_message (sa_siteCount acc) (sa_groupCount acc))) (mreturn (sa_sites acc)))
        (\<lambda>sites s'. inv_at env c db0 base s' \<and> sites_ok c (ms_db s') sites) s'" if "?J acc s'" for acc s'
    using that mig_inv_trans [OF inv] by (auto simp: wp_rules)
  have rest: "wp (mfor (migrate_group env c ids) gs acc) (\<lambda>acc. wp (mfor (migrate_site env ldb c (legacyIdToNewSiteIdMap ?old)) ls acc)
      (\<lambda>acc. wp (mseq (emitEvent (sites_message (sa_siteCount acc) (sa_groupCount acc))) (mreturn (sa_sites acc)))
        (\<lambda>sites s'. inv_at env c db0 base s' \<and> sites_ok c (ms_db s') sites))) s1"
    if "ms_ids s1 = ms_ids s" "ms_db s1 = ms_db s" "sa_sites acc = []" for ids gs ls acc s1
    by (rule wp_mono [OF loop [OF that]], erule wp_mono) (rule last)
  have bind: "wp (mbind m f) Q = wp m (\<lambda>x. wp (f x) Q)" for m :: "'a mig" and f :: "'a \<Rightarrow> 'b mig" and Q by (simp add: fun_eq_iff wp_bind)
  show ?thesis unfolding migrateSites_def Let_def
    using inv rest by (auto simp: wp_rules bind c)
qed

subsection \<open>The whole migration\<close>

lemma select_loop_same:
  "select_loop ldb m s = (r, s') \<Longrightarrow> ms_db s' = ms_db s \<and> ms_ids s' = ms_ids s \<and> (\<forall>c. r = Inr c \<longrightarrow> c \<in> set (ldb_clients ldb))"
proof (induction ldb m s arbitrary: r s' rule: select_loop.induct)
  case (1 ldb m s)
  obtain p s1 where p: "initPrompt numberValueSchema (Ask_Select m (clientOptions ldb)) s = (p, s1)" by force
  have s1: "ms_db s1 = ms_db s" "ms_ids s1 = ms_ids s" using p by (auto simp: initPrompt_def split: prod.splits option.splits)
  show ?case
  proof (cases p)
    case (Inl e)
    then show ?thesis using 1(2) p s1 by (auto simp: select_loop.simps [of ldb m s])
  next
    case (Inr q)
    have next1: "ms_db s' = ms_db s1 \<and> ms_ids s' = ms_ids s1 \<and> (\<forall>c. r = Inr c \<longrightarrow> c \<in> set (ldb_clients ldb))"
      if "map_of (clientMap ldb) q = None" "select_loop ldb ''Invalid client. Please try again.'' s1 = (r, s')"
      using 1(1) [OF HOL.sym [OF p [unfolded Inr]] HOL.refl that] by blast
    show ?thesis
    proof (cases "map_of (clientMap ldb) q")
      case None
      then show ?thesis using 1(2) p s1 next1 Inr by (simp add: select_loop.simps [of ldb m s])
    next
      case (Some c)
      then have "c \<in> set (ldb_clients ldb)" using jmap_of_SomeD by (fastforce simp: clientMap_def)
      then show ?thesis using 1(2) p s1 Inr Some by (auto simp: select_loop.simps [of ldb m s])
    qed
  qed
qed

definition migrated_client :: "legacy_client \<Rightarrow> mig_state \<Rightarrow> mig_client \<Rightarrow> mig_state \<Rightarrow> bool" where
  "migrated_client lc s c s' \<longleftrightarrow> mc_legacyClientId c = c_id lc \<and> ms_ids s \<le> ms_ids s'
     \<and> (ms_db s' = ms_db s \<and> c \<in> set (gd_clients (ms_db s))
        \<or> ms_db s' = (ms_db s)\<lparr>gd_clients := gd_clients (ms_db s) @ [c]\<rparr> \<and> c_id lc \<notin> mc_legacyClientId ` set (gd_clients (ms_db s)))"

lemma wp_client: "wp (migrateClient env ldb lc) (migrated_client lc s) s"
proof -
  have create: "wp (create_mig_client env lc a phone) (migrated_client lc s) s1"
    if "ms_db s1 = ms_db s" "ms_ids s1 = ms_ids s" "c_id lc \<notin> mc_legacyClientId ` set (gd_clients (ms_db s))" for a phone s1
    using that by (cases "c_date_insert lc") (simp_all add: create_mig_client_def wp_rules Let_def migrated_client_def)
  have make: "wp (create_mig_client env lc a phone) (\<lambda>c. wp (emitEvent e) (\<lambda>_. wp (mreturn c) (migrated_client lc s))) s1"
    if "ms_db s1 = ms_db s" "ms_ids s1 = ms_ids s" "c_id lc \<notin> mc_legacyClientId ` set (gd_clients (ms_db s))" for a phone s1 e
    by (rule wp_mono [OF create [OF that]]) (simp add: wp_rules migrated_client_def)
  show ?thesis
  proof (cases "find_by mc_legacyClientId (c_id lc) (gd_clients (ms_db s))")
    case None
    have fresh: "c_id lc \<notin> mc_legacyClientId ` set (gd_clients (ms_db s))" using None by (simp add: find_by_None_iff)
    show ?thesis unfolding migrateClient_def using None fresh
      by (cases "client_address (primaryLocation (locations_of ldb (c_no lc)))") (auto simp: wp_rules intro!: wp_prompt make)
  next
    case (Some c)
    then have "mc_legacyClientId c = c_id lc" "c \<in> set (gd_clients (ms_db s))" by (auto dest: find_by_SomeD)
    then show ?thesis unfolding migrateClient_def using Some by (auto simp: wp_rules migrated_client_def intro!: wp_prompt)
  qed
qed

definition migratable :: "mig_env \<Rightarrow> legacy_db \<Rightarrow> mig_state \<Rightarrow> bool" where
  \<comment> \<open>identifiers are fresh, tags and assets agree, and legacy identifiers of clients are there and name one client\<close>
  "migratable env ldb s \<longleftrightarrow> inj (le_newId env) \<and> mig_aux env (ms_ids s) (ms_db s)
     \<and> (\<forall>x\<in>set (gd_clients (ms_db s)). \<forall>y\<in>set (gd_clients (ms_db s)). mc_legacyClientId x \<noteq> None \<longrightarrow> mc_legacyClientId x = mc_legacyClientId y \<longrightarrow> cl_id x = cl_id y)
     \<and> (\<forall>k\<in>set (ldb_clients ldb). c_id k \<noteq> None)"

definition migrated :: "legacy_client \<Rightarrow> mig_db \<Rightarrow> mig_db \<Rightarrow> bool" where
  "migrated lc db db' \<longleftrightarrow> (\<exists>c\<in>set (gd_clients db'). mc_legacyClientId c = c_id lc \<and> gd_clients db' \<in> {gd_clients db, gd_clients db @ [c]} \<and> client_frame (cl_id c) db db')"

lemma frame_refl: "gd_sites db' = gd_sites db \<Longrightarrow> gd_assets db' = gd_assets db \<Longrightarrow> gd_routes db' = gd_routes db \<Longrightarrow> gd_points db' = gd_points db
    \<Longrightarrow> gd_tags db' = gd_tags db \<Longrightarrow> gd_categories db' = gd_categories db \<Longrightarrow> gd_manufacturers db' = gd_manufacturers db \<Longrightarrow> gd_products db' = gd_products db
    \<Longrightarrow> client_frame c db db'"
  by (auto simp: client_frame_def asset_kept_def tag_kept_def category_kept_def manufacturer_kept_def product_kept_def intro!: keeps_refl)

lemma own_ids:
  assumes start: "migratable env ldb s" and lc: "lc \<in> set (ldb_clients ldb)" and m: "migrated_client lc s newClient s1"
  shows "set (client_ids_of (c_id lc) (ms_db s1)) \<subseteq> {cl_id newClient}"
proof -
  have some: "c_id lc \<noteq> None" using start lc by (simp add: migratable_def)
  have clients: "gd_clients (ms_db s1) \<in> {gd_clients (ms_db s), gd_clients (ms_db s) @ [newClient]}" "newClient \<in> set (gd_clients (ms_db s1))"
    "mc_legacyClientId newClient = c_id lc" using m by (auto simp: migrated_client_def)
  show ?thesis
  proof
    fix i assume "i \<in> set (client_ids_of (c_id lc) (ms_db s1))"
    then obtain d where d: "d \<in> set (gd_clients (ms_db s1))" "mc_legacyClientId d = c_id lc" "i = cl_id d" by (auto simp: client_ids_of_def)
    have "cl_id d = cl_id newClient"
    proof (cases "d = newClient")
      case False
      have old: "d \<in> set (gd_clients (ms_db s))" using d(1) False clients(1) by auto
      then have "ms_db s1 = ms_db s" "newClient \<in> set (gd_clients (ms_db s))" using m d(2) by (auto simp: migrated_client_def image_iff)
      moreover have "mc_legacyClientId d \<noteq> None" "mc_legacyClientId d = mc_legacyClientId newClient" using d(2) some clients(3) by simp_all
      ultimately show ?thesis using start old unfolding migratable_def by blast
    qed simp
    then show "i \<in> {cl_id newClient}" using d(3) by simp
  qed
qed

lemma wp_migrate_tx:
  assumes start: "migratable env ldb s" and lc: "lc \<in> set (ldb_clients ldb)"
  shows "wp (migrate_tx env ldb lc) (\<lambda>_ s'. migrated lc (ms_db s) (ms_db s')) s"
  unfolding migrate_tx_def wp_bind
proof (rule wp_mono [OF wp_client])
  fix newClient s1 assume m: "migrated_client lc s newClient s1"
  let ?c = "cl_id newClient"
  have some: "c_id lc \<noteq> None" using start lc by (simp add: migratable_def)
  have same: "gd_sites (ms_db s1) = gd_sites (ms_db s)" "gd_assets (ms_db s1) = gd_assets (ms_db s)" "gd_routes (ms_db s1) = gd_routes (ms_db s)"
    "gd_points (ms_db s1) = gd_points (ms_db s)" "gd_tags (ms_db s1) = gd_tags (ms_db s)" "gd_categories (ms_db s1) = gd_categories (ms_db s)"
    "gd_manufacturers (ms_db s1) = gd_manufacturers (ms_db s)" "gd_products (ms_db s1) = gd_products (ms_db s)"
    using m by (auto simp: migrated_client_def)
  have "mig_aux env (ms_ids s1) (ms_db s1)"
    using start m same by (auto simp: migratable_def mig_aux_def tags_match_def ids_distinct_def used_ids_def migrated_client_def)
  then have inv: "inv_at env ?c (ms_db s) (ms_db s1) s1"
    using start frame_refl [OF same] by (simp add: mig_inv_def migratable_def grows_refl)
  have clients: "gd_clients (ms_db s1) \<in> {gd_clients (ms_db s), gd_clients (ms_db s) @ [newClient]}" "newClient \<in> set (gd_clients (ms_db s1))"
    "mc_legacyClientId newClient = c_id lc" using m by (auto simp: migrated_client_def)
  have one: "set (client_ids_of (c_id lc) (ms_db s1)) \<subseteq> {?c}" by (rule own_ids [OF start lc m])
  have final: "migrated lc (ms_db s) (ms_db s')" if "inv_at env ?c (ms_db s) (ms_db s1) s'" for s'
  proof -
    have "gd_clients (ms_db s') = gd_clients (ms_db s1)" "client_frame ?c (ms_db s) (ms_db s')" using that by (auto simp: mig_inv_def grows_def)
    then show ?thesis unfolding migrated_def using clients by (intro bexI [of _ newClient]) auto
  qed
  show "wp (migrateSites env ldb lc newClient) (\<lambda>sites. wp (migrateAssets env ldb lc newClient sites) (\<lambda>_. wp (emitEvent (Alert Info
      ''Great! That's it for now. Migrating users and inspection history is not yet supported and will need to be done manually.''))
      (\<lambda>_ s'. migrated lc (ms_db s) (ms_db s')))) s1"
  proof (rule wp_mono [OF wp_sites [OF inv HOL.refl one]], elim conjE)
    fix sites :: "(int, mig_site) jmap" and s2 assume s2: "inv_at env ?c (ms_db s) (ms_db s1) s2" "sites_ok ?c (ms_db s2) sites"
    have "gd_clients (ms_db s2) = gd_clients (ms_db s1)" using mig_inv_grows [OF s2(1)] by (simp add: grows_def)
    then have "set (client_ids_of (c_id lc) (ms_db s2)) \<subseteq> {?c}" using one by (simp add: client_ids_of_def)
    then have "wp (migrateAssets env ldb lc newClient sites) (\<lambda>_ s'. inv_at env ?c (ms_db s) (ms_db s1) s') s2" by (rule wp_assets [OF s2(1) HOL.refl s2(2)])
    then show "wp (migrateAssets env ldb lc newClient sites) (\<lambda>_. wp (emitEvent (Alert Info
      ''Great! That's it for now. Migrating users and inspection history is not yet supported and will need to be done manually.''))
      (\<lambda>_ s'. migrated lc (ms_db s) (ms_db s'))) s2" by (rule wp_mono) (simp add: wp_emit final)
  qed
qed

definition client_rows :: "id \<Rightarrow> mig_db \<Rightarrow> mig_site list \<times> mig_asset list \<times> route_row list \<times> mig_tag list \<times> mig_category list" where
  "client_rows d db =
     (filter (\<lambda>r. st_clientId r = d) (gd_sites db), filter (\<lambda>a. as_clientId a = d) (gd_assets db), filter (\<lambda>r. ir_clientId r = d) (gd_routes db),
      filter (\<lambda>t. tg_clientId t = Some d) (gd_tags db), filter (\<lambda>k. mk_clientId k = Some d) (gd_categories db))"

lemma keeps_filter:
  assumes "keeps R P xs ys" and "\<And>x y. R x y \<Longrightarrow> D y = D x \<and> (D x \<longrightarrow> y = x)" and "\<And>r. P r \<Longrightarrow> \<not> D r"
  shows "filter D ys = filter D xs"
proof -
  obtain old new where ys: "ys = old @ new" "list_all2 R xs old" "list_all P new" using assms(1) by (auto simp: keeps_def)
  have "filter D old = filter D xs" using ys(2)
  proof (induction rule: list_all2_induct)
    case (Cons x xs y ys)
    then show ?case using assms(2) [of x y] by (auto simp del: filter.simps simp: filter.simps)
  qed simp
  moreover have "filter D new = []" using ys(3) assms(3) by (simp add: filter_empty_conv list_all_iff)
  ultimately show ?thesis by (simp add: ys(1))
qed

lemma frame_others:
  assumes "client_frame c db db'" and "d \<noteq> c"
  shows "client_rows d db' = client_rows d db"
proof -
  have "filter (\<lambda>r. st_clientId r = d) (gd_sites db') = filter (\<lambda>r. st_clientId r = d) (gd_sites db)"
    using assms by (intro keeps_filter [of "(=)" "\<lambda>r. st_clientId r = c"]) (auto simp: client_frame_def)
  moreover have "filter (\<lambda>a. as_clientId a = d) (gd_assets db') = filter (\<lambda>a. as_clientId a = d) (gd_assets db)"
    using assms by (intro keeps_filter [of "asset_kept c" "\<lambda>a. as_clientId a = c \<and> site_of c (as_siteId a) db'"]) (auto simp: client_frame_def asset_kept_def)
  moreover have "filter (\<lambda>r. ir_clientId r = d) (gd_routes db') = filter (\<lambda>r. ir_clientId r = d) (gd_routes db)"
    using assms by (intro keeps_filter [of "(=)" "\<lambda>r. ir_clientId r = c"]) (auto simp: client_frame_def)
  moreover have "filter (\<lambda>t. tg_clientId t = Some d) (gd_tags db') = filter (\<lambda>t. tg_clientId t = Some d) (gd_tags db)"
  proof (rule keeps_filter [of "tag_kept c" "\<lambda>t. tg_clientId t = Some c"])
    fix x y assume "tag_kept c x y"
    then show "(tg_clientId y = Some d) = (tg_clientId x = Some d) \<and> (tg_clientId x = Some d \<longrightarrow> y = x)"
      using assms(2) unfolding tag_kept_def by (cases x; cases y) auto
  qed (use assms in \<open>auto simp: client_frame_def\<close>)
  moreover have "filter (\<lambda>k. mk_clientId k = Some d) (gd_categories db') = filter (\<lambda>k. mk_clientId k = Some d) (gd_categories db)"
  proof (rule keeps_filter [of "category_kept c" "\<lambda>r. mk_clientId r = None \<or> mk_clientId r = Some c"])
    fix x y assume "category_kept c x y"
    then show "(mk_clientId y = Some d) = (mk_clientId x = Some d) \<and> (mk_clientId x = Some d \<longrightarrow> y = x)"
      using assms(2) unfolding category_kept_def by (cases x; cases y) auto
  qed (use assms in \<open>auto simp: client_frame_def\<close>)
  ultimately show ?thesis by (simp add: client_rows_def)
qed

lemma tx_result:
  "transaction m s = (r, s') \<Longrightarrow> (case r of Inl _ \<Rightarrow> ms_db s' = ms_db s | Inr x \<Rightarrow> m s = (Inr x, s'))"
  by (auto simp: transaction_def split: prod.splits sum.splits)

lemma process_result:
  assumes run: "processMigration env ldb s = (r, s')"
    and tx: "\<And>lc s2. lc \<in> set (ldb_clients ldb) \<Longrightarrow> ms_db s2 = ms_db s \<Longrightarrow> ms_ids s2 = ms_ids s \<Longrightarrow> wp (migrate_tx env ldb lc) (\<lambda>_ s'. Q lc (ms_db s')) s2"
  shows "case r of Inl _ \<Rightarrow> ms_db s' = ms_db s | Inr _ \<Rightarrow> \<exists>lc\<in>set (ldb_clients ldb). Q lc (ms_db s')"
proof -
  define s0 where "s0 = s\<lparr>ms_events := ms_events s @ [Alert Info ''Hello! I am here to help you migrate clients over from the legacy system to this one.'']\<rparr>"
  define go where "go = mseq (initDb env) (mbind (selectClient ldb) (\<lambda>lc. transaction (migrate_tx env ldb lc)))"
  have inner: "case q of Inl _ \<Rightarrow> ms_db s1 = ms_db s | Inr _ \<Rightarrow> \<exists>lc\<in>set (ldb_clients ldb). Q lc (ms_db s1)" if go: "go s0 = (q, s1)" for q s1
  proof (cases "le_connects env")
    case False
    then show ?thesis using go by (auto simp: go_def mseq_def mbind_def initDb_def mfail_def s0_def)
  next
    case True
    obtain q2 s2 where sel: "selectClient ldb s0 = (q2, s2)" by force
    have s2: "ms_db s2 = ms_db s" "ms_ids s2 = ms_ids s" using select_loop_same [OF sel [unfolded selectClient_def]] by (simp_all add: s0_def)
    show ?thesis
    proof (cases q2)
      case (Inl e)
      then show ?thesis using go sel s2 True by (auto simp: go_def mseq_def mbind_def initDb_def mreturn_def)
    next
      case (Inr lc)
      have lc: "lc \<in> set (ldb_clients ldb)" using select_loop_same [OF sel [unfolded selectClient_def]] Inr by blast
      have t: "transaction (migrate_tx env ldb lc) s2 = (q, s1)" using go sel Inr True by (simp add: go_def mseq_def mbind_def initDb_def mreturn_def)
      show ?thesis using tx_result [OF t] wpD [OF tx [OF lc s2]] s2 lc by (cases q) auto
    qed
  qed
  obtain q s1 where go: "go s0 = (q, s1)" by force
  show ?thesis
    using run inner [OF go] go unfolding processMigration_def go_def [symmetric]
    by (auto simp: mseq_def mbind_def emitEvent_def catch_connection_def s0_def [symmetric] split: sum.splits prod.splits mig_error.splits)
qed

text \<open>
  C23: what a migration may touch. When it fails in any way (the operator disconnects or declines,
  the old database cannot be reached) the tables are as before. When it succeeds, the operator has chosen a
  client of the old database; there is one client of that legacy identifier, new or not, and every new site,
  asset, route and tag is its own, every new point joins an asset and a route of its own, and new catalog rows
  are its own or shared. The sites, assets, routes, tags and categories of every other client are exactly the rows
  that were there, and so are all points. Manufacturers and products are not isolated, because the code
  matches them by name among those of all clients: no row of theirs disappears, but of a manufacturer, and of a product, of anybody
  the column of the legacy identifier may change, of a manufacturer only if it was empty, and no other column
  (\<open>manufacturer_kept\<close>, \<open>product_kept\<close>; \<open>foreign_manufacturer_linked\<close> is a run in which it happens to the private manufacturer of
  another client). Assumed are fresh identifiers, agreement of tags with their assets, and legacy
  identifiers of clients that are not null and name one client (\<open>migratable\<close>).
\<close>

theorem migration_isolated:
  assumes start: "migratable env ldb s" and run: "processMigration env ldb s = (r, s')"
  shows "case r of
      Inl _ \<Rightarrow> ms_db s' = ms_db s
    | Inr _ \<Rightarrow> \<exists>lc\<in>set (ldb_clients ldb). \<exists>c\<in>set (gd_clients (ms_db s')).
        mc_legacyClientId c = c_id lc \<and> gd_clients (ms_db s') \<in> {gd_clients (ms_db s), gd_clients (ms_db s) @ [c]}
        \<and> client_frame (cl_id c) (ms_db s) (ms_db s') \<and> (\<forall>d. d \<noteq> cl_id c \<longrightarrow> client_rows d (ms_db s') = client_rows d (ms_db s))"
proof -
  have start0: "migratable env ldb s1" if "ms_db s1 = ms_db s" "ms_ids s1 = ms_ids s" for s1 using start unfolding migratable_def that .
  have res: "case r of Inl _ \<Rightarrow> ms_db s' = ms_db s | Inr _ \<Rightarrow> \<exists>lc\<in>set (ldb_clients ldb). migrated lc (ms_db s) (ms_db s')"
    by (rule process_result [OF run]) (use wp_migrate_tx start0 in metis)
  then show ?thesis
  proof (cases r)
    case (Inr u)
    then obtain lc c where c: "lc \<in> set (ldb_clients ldb)" "c \<in> set (gd_clients (ms_db s'))" "mc_legacyClientId c = c_id lc"
      "gd_clients (ms_db s') \<in> {gd_clients (ms_db s), gd_clients (ms_db s) @ [c]}" "client_frame (cl_id c) (ms_db s) (ms_db s')"
      using res by (auto simp: migrated_def)
    then show ?thesis unfolding Inr sum.case using frame_others [OF c(5)] by (intro bexI [OF _ c(1)] bexI [OF _ c(2)]) simp
  qed (use res in simp)
qed

lemma ex_migration_run:
  "case processMigration ex_mig_env ex_legacy_db ex_mig_state of
     (Inl _, _) \<Rightarrow> False
   | (Inr _, s') \<Rightarrow> map cl_id (gd_clients (ms_db s')) = [''o'', ''n0''] \<and> map st_id (gd_sites (ms_db s')) = [''n2'', ''n4'']
       \<and> map as_id (gd_assets (ms_db s')) = [''n10''] \<and> map mf_legacyManufacturerId (gd_manufacturers (ms_db s')) = [Some ''m41'']"
  by code_simp

text \<open>The private manufacturer of another client is linked to the row of the old database that has its name.\<close>

theorem foreign_manufacturer_linked:
  "map (\<lambda>m. (mf_clientId m, mf_legacyManufacturerId m)) (gd_manufacturers (ms_db ex_mig_state)) = [(Some ''o'', None)]
   \<and> (case processMigration ex_mig_env ex_legacy_db ex_mig_state of
       (Inl _, _) \<Rightarrow> False
     | (Inr _, s') \<Rightarrow> map (\<lambda>m. (mf_clientId m, mf_legacyManufacturerId m)) (gd_manufacturers (ms_db s')) = [(Some ''o'', Some ''m41'')])"
  by code_simp

lemma ex_migratable: "migratable ex_mig_env ex_legacy_db ex_mig_state"
proof -
  have "inj show_nat" by (rule inj_on_inverseI [of _ dec_value]) (rule dec_value_show_nat)
  then have "inj (le_newId ex_mig_env)" by (simp add: inj_def ex_mig_env_def)
  moreover have "le_newId ex_mig_env k \<notin> used_ids ex_other_db" for k by (simp add: used_ids_def ex_other_db_def ex_mig_env_def)
  moreover have "tags_match ex_other_db" "ids_distinct ex_other_db" by (simp_all add: tags_match_def ids_distinct_def ex_other_db_def)
  ultimately show ?thesis by (simp add: migratable_def mig_aux_def ex_mig_state_def) (simp add: ex_other_db_def ex_legacy_db_def ex_legacy_client_def)
qed

theorem migration_isolated_witness:
  "\<exists>s'. processMigration ex_mig_env ex_legacy_db ex_mig_state = (Inr (), s') \<and> gd_sites (ms_db s') \<noteq> []
     \<and> client_rows ''o'' (ms_db s') = client_rows ''o'' ex_other_db"
proof -
  obtain r s' where run: "processMigration ex_mig_env ex_legacy_db ex_mig_state = (r, s')" by force
  then have r: "r = Inr ()" and ids: "map cl_id (gd_clients (ms_db s')) = [''o'', ''n0'']" and sites: "gd_sites (ms_db s') \<noteq> []"
    using ex_migration_run by (auto split: sum.splits)
  obtain lc c where lc: "lc \<in> set (ldb_clients ex_legacy_db)" and c: "c \<in> set (gd_clients (ms_db s'))" "mc_legacyClientId c = c_id lc"
    "gd_clients (ms_db s') \<in> {gd_clients (ms_db ex_mig_state), gd_clients (ms_db ex_mig_state) @ [c]}"
    and rows: "\<forall>d. d \<noteq> cl_id c \<longrightarrow> client_rows d (ms_db s') = client_rows d (ms_db ex_mig_state)"
    using migration_isolated [OF ex_migratable run] unfolding r by auto
  have "gd_clients (ms_db s') \<noteq> gd_clients (ms_db ex_mig_state)" using ids by (auto simp: ex_mig_state_def ex_other_db_def)
  then have "cl_id c = ''n0''" using ids c(3) by auto
  then show ?thesis using run r sites rows by (simp add: ex_mig_state_def)
qed

end
