(* ===== verification/Legacy_Facts.thy ===== *)
theory Legacy_Facts
  imports Legacy_Isolation
begin

section \<open>The legacy migration: choosing a client, running again\<close>

text \<open>
  The choice of the client always ends, each row of the old database is copied at most once, and what happens
  when the migration is run again.
\<close>

subsection \<open>The choice of the client\<close>

definition names_client :: "legacy_db \<Rightarrow> json \<Rightarrow> bool" where
  "names_client ldb m = (case numberValueSchema m of None \<Rightarrow> False | Some q \<Rightarrow> map_of (clientMap ldb) q \<noteq> None)"

definition named_client :: "legacy_db \<Rightarrow> json \<Rightarrow> legacy_client" where
  "named_client ldb m = the (map_of (clientMap ldb) (the (numberValueSchema m)))"

lemma initPrompt_cases:
  "(\<forall>m\<in>set (ms_answers s). parse m = None) \<and> fst (initPrompt parse p s) = Inl ClientDisconnected
   \<or> (\<exists>bad m rest x. ms_answers s = bad @ m # rest \<and> (\<forall>b\<in>set bad. parse b = None) \<and> parse m = Some x
        \<and> fst (initPrompt parse p s) = Inr x \<and> ms_answers (snd (initPrompt parse p s)) = rest)"
proof (cases "dropWhile (\<lambda>m. parse m = None) (ms_answers s)")
  case Nil
  then have "\<forall>m\<in>set (ms_answers s). parse m = None" by (simp add: dropWhile_eq_Nil_conv)
  moreover have "fst (initPrompt parse p s) = Inl ClientDisconnected"
    unfolding initPrompt_def await_answer_eq Let_def Nil list.case prod.case option.case by simp
  ultimately show ?thesis by blast
next
  case (Cons m rest)
  let ?bad = "takeWhile (\<lambda>m. parse m = None) (ms_answers s)"
  have "parse m \<noteq> None" using hd_dropWhile [of "\<lambda>m. parse m = None" "ms_answers s"] Cons by simp
  then obtain x where x: "parse m = Some x" by blast
  have split: "ms_answers s = ?bad @ m # rest" using takeWhile_dropWhile_id [of "\<lambda>m. parse m = None" "ms_answers s"] Cons by simp
  have "fst (initPrompt parse p s) = Inr x" "ms_answers (snd (initPrompt parse p s)) = rest"
    using Cons x by (simp_all add: initPrompt_def await_answer_eq Let_def cong: list.case_cong)
  moreover have "\<forall>b\<in>set ?bad. parse b = None" by (auto dest: set_takeWhileD)
  ultimately show ?thesis using split x by blast
qed

lemma select_loop_eq:
  "fst (select_loop ldb m s) =
     (case List.find (names_client ldb) (ms_answers s) of None \<Rightarrow> Inl ClientDisconnected | Some a \<Rightarrow> Inr (named_client ldb a))"
proof (induction ldb m s rule: select_loop.induct)
  case (1 ldb msg s)
  let ?p = "initPrompt numberValueSchema (Ask_Select msg (clientOptions ldb)) s"
  have skip: "List.find (names_client ldb) (bad @ ys) = List.find (names_client ldb) ys" if "\<forall>b\<in>set bad. numberValueSchema b = None" for bad ys
    using that by (induction bad) (auto simp: names_client_def)
  from initPrompt_cases [of s numberValueSchema "Ask_Select msg (clientOptions ldb)"] show ?case
  proof (elim disjE conjE exE)
    assume "\<forall>m\<in>set (ms_answers s). numberValueSchema m = None" "fst ?p = Inl ClientDisconnected"
    moreover from this(1) have "List.find (names_client ldb) (ms_answers s) = None" using skip [of "ms_answers s" "[]"] by simp
    ultimately show ?thesis by (cases ?p) (simp add: select_loop.simps [of ldb msg s])
  next
    fix bad m rest q
    assume a: "ms_answers s = bad @ m # rest" "\<forall>b\<in>set bad. numberValueSchema b = None" "numberValueSchema m = Some q"
      "fst ?p = Inr q" "ms_answers (snd ?p) = rest"
    obtain s1 where p: "?p = (Inr q, s1)" "ms_answers s1 = rest" using a(4,5) by (cases ?p) auto
    have find: "List.find (names_client ldb) (ms_answers s) = List.find (names_client ldb) (m # rest)" unfolding a(1) by (rule skip [OF a(2)])
    have nm: "names_client ldb m \<longleftrightarrow> map_of (clientMap ldb) q \<noteq> None" by (simp add: names_client_def a(3))
    show ?thesis
    proof (cases "map_of (clientMap ldb) q")
      case None
      have "fst (select_loop ldb ''Invalid client. Please try again.'' s1) =
          (case List.find (names_client ldb) rest of None \<Rightarrow> Inl ClientDisconnected | Some a \<Rightarrow> Inr (named_client ldb a))"
        using 1 [OF HOL.sym [OF p(1)] HOL.refl None] p(2) by simp
      then show ?thesis using p None find nm by (simp add: select_loop.simps [of ldb msg s])
    next
      case (Some c)
      then show ?thesis using p find nm a(3) by (simp add: select_loop.simps [of ldb msg s] named_client_def)
    qed
  qed
qed

text \<open>
  C25: the choice of the client always ends: with the client that the first acceptable answer names, whatever was
  answered before (no number, a number of no client), and otherwise when the operator disconnects.
\<close>

theorem selectClient_returns:
  "fst (selectClient ldb s) =
     (case List.find (names_client ldb) (ms_answers s) of None \<Rightarrow> Inl ClientDisconnected | Some a \<Rightarrow> Inr (named_client ldb a))"
  by (simp add: selectClient_def select_loop_eq)

subsection \<open>Running the migration again\<close>

text \<open>
  The tour is not copied once: the points that are there are looked up in a map that is filled only with the
  default routes, after the look-up. So when the migration is run again, the first asset that has an order
  gets one point more, whatever points it has on default routes already.
\<close>

theorem rerun_duplicates_point:
  "\<exists>acc' s' q. migrateRouteAssignment env newClientId sites assetId siteId n \<lparr>xa_routes = [], xa_points = [], xa_assets = as, xa_count = k\<rparr> s = (Inr acc', s')
     \<and> gd_points (ms_db s') = gd_points (ms_db s) @ [q] \<and> ip_assetId q = assetId
     \<and> length (filter (\<lambda>p. ip_assetId p = assetId) (gd_points (ms_db s'))) = Suc (length (filter (\<lambda>p. ip_assetId p = assetId) (gd_points (ms_db s))))"
proof -
  let ?acc = "\<lparr>xa_routes = [], xa_points = [], xa_assets = as, xa_count = k\<rparr>"
  have "\<exists>r acc1 s1. getOrCreateDefaultInspectionRoute env newClientId sites siteId ?acc s = (Inr (r, acc1), s1) \<and> gd_points (ms_db s1) = gd_points (ms_db s)"
    by (cases "map_of (xa_routes (load_routes newClientId (ms_db s) ?acc)) siteId")
      (simp_all add: getOrCreateDefaultInspectionRoute_def mbind_def mread_def mreturn_def new_id_def mseq_def mwrite_def Let_def)
  then obtain r acc1 s1 where r: "getOrCreateDefaultInspectionRoute env newClientId sites siteId ?acc s = (Inr (r, acc1), s1)" "gd_points (ms_db s1) = gd_points (ms_db s)"
    by blast
  then show ?thesis by (simp add: migrateRouteAssignment_def mbind_def new_id_def mseq_def mwrite_def mreturn_def Let_def)
qed

text \<open>A colour that begins with three hexadecimal digits is taken for one: the alternatives of the expression are anchored on one side only.\<close>

lemma cleanColor_cadetblue: "cleanColor (Some ''cadetblue'') = Some ''#cadetblue''"
  by code_simp

subsection \<open>Each row is copied at most once\<close>

definition legacy_sites :: "id \<Rightarrow> mig_db \<Rightarrow> string option list" where
  "legacy_sites c db = map mt_legacySiteId (filter (\<lambda>r. st_clientId r = c \<and> truthy (mt_legacySiteId r)) (gd_sites db))"

definition legacy_groups :: "id \<Rightarrow> mig_db \<Rightarrow> string option list" where
  "legacy_groups c db = map mt_legacyGroupId (filter (\<lambda>r. st_clientId r = c \<and> truthy (mt_legacyGroupId r)) (gd_sites db))"

definition legacy_asset_ids :: "id \<Rightarrow> mig_db \<Rightarrow> string option list" where
  "legacy_asset_ids c db = map ma_legacyAssetId (filter (\<lambda>a. as_clientId a = c \<and> ma_legacyAssetId a \<noteq> None) (gd_assets db))"

definition copied_once :: "id \<Rightarrow> mig_db \<Rightarrow> bool" where
  "copied_once c db \<longleftrightarrow> distinct (legacy_sites c db) \<and> distinct (legacy_groups c db) \<and> distinct (legacy_asset_ids c db)"

definition distinct_ids :: "('r \<Rightarrow> string option) \<Rightarrow> 'r list \<Rightarrow> bool" where
  "distinct_ids key rows = distinct (map key (filter (\<lambda>r. key r \<noteq> None) rows))"

lemma distinct_ids_prefix: "distinct_ids key (pre @ x # post) \<Longrightarrow> key x \<noteq> None \<Longrightarrow> key x \<notin> key ` set pre"
  by (force simp: distinct_ids_def)

lemma distinct_ids_filter: "distinct_ids key rows \<Longrightarrow> distinct_ids key (filter P rows)"
  using distinct_map_filter [of key "filter (\<lambda>r. key r \<noteq> None) rows" P] by (simp add: distinct_ids_def conj_commute)

lemma wp_for_prefix:
  assumes "I [] acc s" and "\<And>pre x post acc s. xs = pre @ x # post \<Longrightarrow> I pre acc s \<Longrightarrow> wp (f x acc) (I (pre @ [x])) s"
  shows "wp (mfor f xs acc) (I xs) s"
proof -
  have "wp (mfor f ys acc) (I (pre @ ys)) s" if "xs = pre @ ys" "I pre acc s" for pre ys acc s
    using that
  proof (induction ys arbitrary: pre acc s)
    case Nil
    then show ?case by (simp add: wp_return)
  next
    case (Cons x ys)
    have "wp (f x acc) (\<lambda>acc'. wp (mfor f ys acc') (I ((pre @ [x]) @ ys))) s"
      by (rule wp_mono [OF assms(2) [OF Cons.prems]]) (use Cons.IH [of "pre @ [x]"] Cons.prems(1) in simp)
    then show ?case by (simp add: wp_bind)
  qed
  from this [of "[]" xs] show ?thesis using assms(1) by simp
qed

text \<open>What the catalog steps and the tour leave alone.\<close>

definition rows_at :: "mig_site list \<Rightarrow> mig_asset list \<Rightarrow> mig_client list \<Rightarrow> mig_state \<Rightarrow> bool" where
  "rows_at S A C s \<longleftrightarrow> gd_sites (ms_db s) = S \<and> gd_assets (ms_db s) = A \<and> gd_clients (ms_db s) = C"

lemma rows_category: "rows_at S A C s \<Longrightarrow> wp (getOrMigrateProductCategory env ldb lc c n) (\<lambda>_. rows_at S A C) s"
  unfolding getOrMigrateProductCategory_def by (auto simp: wp_rules Let_def rows_at_def split: option.split)

lemma rows_manufacturer: "rows_at S A C s \<Longrightarrow> wp (getOrMigrateManufacturer env ldb lc c n) (\<lambda>_. rows_at S A C) s"
  unfolding getOrMigrateManufacturer_def by (auto simp: wp_rules Let_def rows_at_def split: option.split)

lemma rows_with_category: "rows_at S A C s \<Longrightarrow> wp (with_category p) (\<lambda>_. rows_at S A C) s"
  unfolding with_category_def by (auto simp: wp_rules split: option.split)

lemma rows_product:
  assumes "rows_at S A C s"
  shows "wp (getOrMigrateProduct env ldb lc c i j) (\<lambda>_. rows_at S A C) s"
proof -
  have generic: "wp (generic_product env ldb lc c k) (\<lambda>_. rows_at S A C) s" for k
    unfolding generic_product_def wp_bind [of "getOrMigrateProductCategory env ldb lc c n" for n]
    by (rule wp_mono [OF rows_category [OF assms]])
      (auto simp: wp_rules Let_def intro!: rows_with_category split: option.split, simp_all add: rows_at_def)
  have link: "wp (link_or_create_product env n lp k m) (\<lambda>_. rows_at S A C) s" if "rows_at S A C s" for n lp k m s
    using that unfolding link_or_create_product_def
    by (auto simp: wp_rules Let_def intro!: rows_with_category split: option.split) (simp_all add: rows_at_def)
  have both: "wp (mbind (getOrMigrateProductCategory env ldb lc c i) (\<lambda>category. mbind (getOrMigrateManufacturer env ldb lc c j) (\<lambda>manufacturer.
      case (category, manufacturer) of (Some k, Some m) \<Rightarrow> link_or_create_product env n lp k m | _ \<Rightarrow> mreturn None))) (\<lambda>_. rows_at S A C) s" for i j n lp
    unfolding wp_bind
    by (rule wp_mono [OF rows_category [OF assms]], rule wp_mono [OF rows_manufacturer]) (auto simp: wp_return intro: link split: option.split)
  have "wp (migrate_product env ldb lc c n lp) (\<lambda>_. rows_at S A C) s" for n lp
    unfolding migrate_product_def using assms both by (auto simp: wp_return wp_bind [of "mread gd_products"] wp_read intro: rows_with_category split: option.split)
  then show ?thesis unfolding getOrMigrateProduct_def Let_def
    using assms generic by (auto simp: wp_return split: option.split)
qed

lemma rows_tag: "rows_at S A C s \<Longrightarrow> wp (getOrMigrateTag env ldb site n) (\<lambda>_. rows_at S A C) s"
  unfolding getOrMigrateTag_def by (auto simp: wp_rules Let_def rows_at_def split: option.split)

lemma rows_assign: "rows_at S A C s \<Longrightarrow> wp (assign_route env c sites a row acc) (\<lambda>_. rows_at S A C) s"
  unfolding assign_route_def migrateRouteAssignment_def getOrCreateDefaultInspectionRoute_def
  by (auto simp: wp_rules Let_def rows_at_def split: option.split)

text \<open>The loops.\<close>

lemma jmap_of_None: "map_of (jmap_of ps) k = None \<longleftrightarrow> k \<notin> fst ` set ps"
  by (simp add: map_of_jmap_of map_of_eq_None_iff)

lemma legacy_add_site:
  "legacy_sites c (db\<lparr>gd_sites := gd_sites db @ [r]\<rparr>) = legacy_sites c db @ (if st_clientId r = c \<and> truthy (mt_legacySiteId r) then [mt_legacySiteId r] else [])"
  "legacy_groups c (db\<lparr>gd_sites := gd_sites db @ [r]\<rparr>) = legacy_groups c db @ (if st_clientId r = c \<and> truthy (mt_legacyGroupId r) then [mt_legacyGroupId r] else [])"
  by (simp_all add: legacy_sites_def legacy_groups_def)

lemma jmap_of_key:
  assumes "map_of (jmap_of (map (\<lambda>r. (the (key r), v r)) (filter (\<lambda>r. truthy (key r)) rows))) i = None" and "r \<in> set rows" and "truthy (key r)"
  shows "key r \<noteq> Some i"
proof
  assume "key r = Some i"
  then have "(i, v r) \<in> set (map (\<lambda>r. (the (key r), v r)) (filter (\<lambda>r. truthy (key r)) rows))" using assms(2,3) by force
  then show False using assms(1) unfolding jmap_of_None by (metis fst_conv image_eqI)
qed

lemma not_migrated_group:
  assumes "map_of (legacyIdToNewSiteGroupIdMap (alreadyMigratedSites lc db)) gid = None" and "c \<in> set (client_ids_of (c_id lc) db)"
  shows "Some gid \<notin> set (legacy_groups c db)"
  using jmap_of_key [OF assms(1) [unfolded legacyIdToNewSiteGroupIdMap_def]] assms(2) by (fastforce simp: legacy_groups_def alreadyMigratedSites_def)

lemma not_migrated_site:
  assumes "map_of (legacyIdToNewSiteIdMap (alreadyMigratedSites lc db)) i = None" and "c \<in> set (client_ids_of (c_id lc) db)"
  shows "Some i \<notin> set (legacy_sites c db)"
  using jmap_of_key [OF assms(1) [unfolded legacyIdToNewSiteIdMap_def]] assms(2) by (fastforce simp: legacy_sites_def alreadyMigratedSites_def)

definition groups_inv :: "id \<Rightarrow> mig_db \<Rightarrow> legacy_group list \<Rightarrow> mig_state \<Rightarrow> bool" where
  "groups_inv c db1 pre s \<longleftrightarrow> gd_clients (ms_db s) = gd_clients db1 \<and> gd_assets (ms_db s) = gd_assets db1 \<and> legacy_sites c (ms_db s) = legacy_sites c db1
     \<and> distinct (legacy_groups c (ms_db s)) \<and> set (legacy_groups c (ms_db s)) \<subseteq> set (legacy_groups c db1) \<union> group_id ` set pre"

definition sites_inv :: "id \<Rightarrow> mig_db \<Rightarrow> legacy_location list \<Rightarrow> mig_state \<Rightarrow> bool" where
  "sites_inv c db1 pre s \<longleftrightarrow> gd_clients (ms_db s) = gd_clients db1 \<and> gd_assets (ms_db s) = gd_assets db1 \<and> distinct (legacy_groups c (ms_db s))
     \<and> distinct (legacy_sites c (ms_db s)) \<and> set (legacy_sites c (ms_db s)) \<subseteq> set (legacy_sites c db1) \<union> loc_id ` set pre"

lemma groups_step:
  assumes inv: "groups_inv c db1 pre s" and d: "distinct_ids group_id (pre @ g # post)" and c: "c \<in> set (client_ids_of (c_id lc) db1)"
  shows "wp (migrate_group env c (legacyIdToNewSiteGroupIdMap (alreadyMigratedSites lc db1)) g acc) (\<lambda>_. groups_inv c db1 (pre @ [g])) s"
proof -
  have more: "groups_inv c db1 (pre @ [g]) s" using inv by (auto simp: groups_inv_def)
  have new: "groups_inv c db1 (pre @ [g]) (s\<lparr>ms_events := evs, ms_answers := ms, ms_ids := n, ms_db := ms_db s\<lparr>gd_sites := gd_sites (ms_db s) @ [group_site env c g a ph i x]\<rparr>\<rparr>)"
    if "group_id g = Some gid" "map_of (legacyIdToNewSiteGroupIdMap (alreadyMigratedSites lc db1)) gid = None" for gid evs ms n a ph i x
    using inv distinct_ids_prefix [OF d] that(1) not_migrated_group [OF that(2) c] by (auto simp: groups_inv_def legacy_add_site group_site_def)
  show ?thesis unfolding migrate_group_def promptForAddress_def promptForPhoneNumber_def create_mig_site_def
    using more new by (auto simp: wp_rules Let_def intro!: wp_prompt split: option.split)
qed

lemma sites_step:
  assumes inv: "sites_inv c db1 pre s" and d: "distinct_ids loc_id (pre @ l # post)" and c: "c \<in> set (client_ids_of (c_id lc) db1)"
  shows "wp (migrate_site env ldb c (legacyIdToNewSiteIdMap (alreadyMigratedSites lc db1)) l acc) (\<lambda>_. sites_inv c db1 (pre @ [l])) s"
proof (cases "\<not> truthy (loc_id l) \<or> map_of (legacyIdToNewSiteIdMap (alreadyMigratedSites lc db1)) (the (loc_id l)) \<noteq> None")
  case True
  then show ?thesis using inv by (auto simp: migrate_site_def wp_return sites_inv_def)
next
  case False
  then obtain i where i: "loc_id l = Some i" "i \<noteq> []" "map_of (legacyIdToNewSiteIdMap (alreadyMigratedSites lc db1)) i = None" by (auto elim: truthyE)
  have more: "sites_inv c db1 (pre @ [l]) s1" if "ms_db s1 = ms_db s" for s1 using inv that by (auto simp: sites_inv_def)
  have new: "wp (create_mig_site env (location_site env c gs l name a ph)) (\<lambda>r. wp (mreturn (f r)) (\<lambda>_. sites_inv c db1 (pre @ [l]))) s1"
    if "ms_db s1 = ms_db s" for gs name a ph s1 and f :: "mig_site \<Rightarrow> site_acc"
    using inv distinct_ids_prefix [OF d] i not_migrated_site [OF i(3) c] that
    by (auto simp: create_mig_site_def wp_rules Let_def sites_inv_def legacy_add_site location_site_def)
  have step: "wp (if \<not> truthy name \<and> filter (\<lambda>a. a_loc_no a = Some (loc_no l)) (ldb_assets ldb) = [] then mreturn acc
          else mbind (site_address l name (sa_lastAddress acc)) (\<lambda>address.
            mbind (site_phone l name (sa_lastPhoneNumber acc)) (\<lambda>phone.
            mbind (create_mig_site env (location_site env c (sa_groups acc) l name address phone)) (\<lambda>r.
            mreturn (acc\<lparr>sa_lastAddress := Some address, sa_lastPhoneNumber := Some phone,
              sa_sites := AList.update (loc_no l) r (sa_sites acc), sa_siteCount := sa_siteCount acc + 1\<rparr>)))))
      (\<lambda>_. sites_inv c db1 (pre @ [l])) s1" if "ms_db s1 = ms_db s" for s1 name
    using that more unfolding wp_bind by (auto simp: wp_return wp_bind intro!: wp_site_address wp_site_phone new)
  show ?thesis using i unfolding migrate_site_def
    by (auto simp: wp_bind [of "ask_site_name l"] intro!: wp_site_name step)
qed

lemma sites_once:
  assumes c: "cl_id newClient = c" "c \<in> set (client_ids_of (c_id lc) (ms_db s))"
    and once: "distinct (legacy_sites c (ms_db s))" "distinct (legacy_groups c (ms_db s))"
    and ldb: "distinct_ids loc_id (locations_of ldb (c_no lc))" "distinct_ids group_id (ldb_groups ldb)"
  shows "wp (migrateSites env ldb lc newClient) (\<lambda>_ s'. gd_clients (ms_db s') = gd_clients (ms_db s) \<and> gd_assets (ms_db s') = gd_assets (ms_db s)
     \<and> distinct (legacy_sites c (ms_db s')) \<and> distinct (legacy_groups c (ms_db s'))) s"
proof -
  let ?db = "ms_db s" and ?gs = "filter (\<lambda>g. group_c_no g = Some (c_no lc)) (ldb_groups ldb)" and ?ls = "locations_of ldb (c_no lc)"
  have groups: "wp (mfor (migrate_group env c (legacyIdToNewSiteGroupIdMap (alreadyMigratedSites lc ?db))) ?gs acc) (\<lambda>_. groups_inv c ?db ?gs) s1"
    if "ms_db s1 = ?db" for acc s1
  proof (rule wp_for_prefix)
    show "groups_inv c ?db [] s1" using once that by (simp add: groups_inv_def)
    show "wp (migrate_group env c (legacyIdToNewSiteGroupIdMap (alreadyMigratedSites lc ?db)) g acc) (\<lambda>_. groups_inv c ?db (pre @ [g])) s2"
      if "?gs = pre @ g # post" "groups_inv c ?db pre s2" for pre g post acc s2
      using groups_step [OF that(2) _ c(2)] distinct_ids_filter [OF ldb(2)] that(1) by metis
  qed
  have sites: "wp (mfor (migrate_site env ldb c (legacyIdToNewSiteIdMap (alreadyMigratedSites lc ?db))) ?ls acc) (\<lambda>_. sites_inv c ?db ?ls) s1"
    if "groups_inv c ?db ?gs s1" for acc s1
  proof (rule wp_for_prefix)
    show "sites_inv c ?db [] s1" using once that by (simp add: groups_inv_def sites_inv_def)
    show "wp (migrate_site env ldb c (legacyIdToNewSiteIdMap (alreadyMigratedSites lc ?db)) l acc) (\<lambda>_. sites_inv c ?db (pre @ [l])) s2"
      if "?ls = pre @ l # post" "sites_inv c ?db pre s2" for pre l post acc s2
      using sites_step [OF that(2) _ c(2)] ldb(1) that(1) by metis
  qed
  let ?Q = "\<lambda>s'. gd_clients (ms_db s') = gd_clients ?db \<and> gd_assets (ms_db s') = gd_assets ?db \<and> distinct (legacy_sites c (ms_db s')) \<and> distinct (legacy_groups c (ms_db s'))"
  have "wp (mfor (migrate_group env c (legacyIdToNewSiteGroupIdMap (alreadyMigratedSites lc ?db))) ?gs acc)
     (\<lambda>acc. wp (mfor (migrate_site env ldb c (legacyIdToNewSiteIdMap (alreadyMigratedSites lc ?db))) ?ls acc)
       (\<lambda>acc. wp (emitEvent (sites_message (sa_siteCount acc) (sa_groupCount acc))) (\<lambda>_. wp (mreturn (sa_sites acc)) (\<lambda>_. ?Q)))) s1" if "ms_db s1 = ?db" for acc s1
    by (rule wp_mono [OF groups [OF that]], rule wp_mono [OF sites]) (auto simp: wp_rules sites_inv_def)
  then show ?thesis unfolding migrateSites_def Let_def using once by (auto simp: wp_rules c(1))
qed

definition assets_inv :: "id \<Rightarrow> mig_db \<Rightarrow> legacy_asset list \<Rightarrow> mig_state \<Rightarrow> bool" where
  "assets_inv c db1 pre s \<longleftrightarrow> gd_clients (ms_db s) = gd_clients db1 \<and> gd_sites (ms_db s) = gd_sites db1
     \<and> distinct (legacy_asset_ids c (ms_db s)) \<and> set (legacy_asset_ids c (ms_db s)) \<subseteq> set (legacy_asset_ids c db1) \<union> a_id ` set pre"

lemma not_migrated_asset:
  assumes "map_of (jmap_of (map (\<lambda>r. (ma_legacyAssetId r, r)) (alreadyMigratedAssets lc db))) i = None" and "c \<in> set (client_ids_of (c_id lc) db)"
  shows "i \<notin> set (legacy_asset_ids c db)"
  using assms by (force simp: jmap_of_None legacy_asset_ids_def alreadyMigratedAssets_def)

lemma assets_inv_rows: "assets_inv c db1 pre s \<Longrightarrow> rows_at (gd_sites (ms_db s)) (gd_assets (ms_db s)) (gd_clients (ms_db s)) s'
    \<Longrightarrow> assets_inv c db1 pre s'"
  by (simp add: assets_inv_def rows_at_def legacy_asset_ids_def)

lemma create_asset_once:
  assumes "assets_inv c db1 pre s" and "a_id a \<notin> a_id ` set pre" and "a_id a \<notin> set (legacy_asset_ids c db1)"
  shows "wp (create_mig_asset env site a p tag) (\<lambda>_. assets_inv c db1 (pre @ [a])) s"
proof -
  have ids: "legacy_asset_ids c (db\<lparr>gd_assets := map (\<lambda>x. if Q x then x\<lparr>as_tagId := None\<rparr> else x) (gd_assets db) @ [row]\<rparr>)
      = legacy_asset_ids c db @ (if as_clientId row = c \<and> ma_legacyAssetId row \<noteq> None then [ma_legacyAssetId row] else [])" for db Q row
  proof -
    have "map ma_legacyAssetId (filter (\<lambda>a. as_clientId a = c \<and> ma_legacyAssetId a \<noteq> None) (map (\<lambda>x. if Q x then x\<lparr>as_tagId := None\<rparr> else x) xs))
        = map ma_legacyAssetId (filter (\<lambda>a. as_clientId a = c \<and> ma_legacyAssetId a \<noteq> None) xs)" for xs by (induction xs) auto
    then show ?thesis by (simp add: legacy_asset_ids_def)
  qed
  have notin: "a_id a \<notin> set (legacy_asset_ids c (ms_db s))" using assms by (auto simp: assets_inv_def)
  show ?thesis unfolding create_mig_asset_def date_or_now_def
    using assms(1) notin by (cases "a_date_insert a") (auto simp: wp_rules Let_def assets_inv_def ids)
qed

lemma assets_step:
  assumes inv: "assets_inv c db1 pre s" and d: "distinct_ids a_id (pre @ a # post)" and c: "c \<in> set (client_ids_of (c_id lc) db1)"
  shows "wp (migrate_asset env ldb lc c sites (jmap_of (map (\<lambda>r. (ma_legacyAssetId r, r)) (alreadyMigratedAssets lc db1))) a acc) (\<lambda>_. assets_inv c db1 (pre @ [a])) s"
proof -
  let ?m = "jmap_of (map (\<lambda>r. (ma_legacyAssetId r, r)) (alreadyMigratedAssets lc db1))"
  have more: "assets_inv c db1 (pre @ [a]) s" using inv by (auto simp: assets_inv_def)
  have here: "rows_at (gd_sites (ms_db s1)) (gd_assets (ms_db s1)) (gd_clients (ms_db s1)) s1" for s1 by (simp add: rows_at_def)
  have assign: "wp (assign_route env c sites a row acc) (\<lambda>_. assets_inv c db1 (pre @ [a])) s1" if "assets_inv c db1 (pre @ [a]) s1" for row acc s1
    by (rule wp_mono [OF rows_assign [OF here]]) (rule assets_inv_rows [OF that])
  have new: "wp (mbind (create_mig_asset env site a p tag) (\<lambda>row. mbind (assign_route env c sites a row acc) (\<lambda>acc.
      mreturn (acc\<lparr>xa_assets := AList.update (a_no a) row (xa_assets acc), xa_count := xa_count acc + 1\<rparr>)))) (\<lambda>_. assets_inv c db1 (pre @ [a])) s1"
    if "assets_inv c db1 pre s1" "a_id a \<noteq> None" "map_of ?m (a_id a) = None" for site p tag s1
    unfolding wp_bind
    by (rule wp_mono [OF create_asset_once [OF that(1) distinct_ids_prefix [OF d that(2)] not_migrated_asset [OF that(3) c]]], rule wp_mono [OF assign]) (simp_all add: wp_return)
  have "wp (mbind (getOrMigrateProduct env ldb lc c (a_p_no a) (a_cat_no a)) (\<lambda>product.
               mbind (case a_t_no a of None \<Rightarrow> mreturn None | Some n \<Rightarrow> getOrMigrateTag env ldb site n) (\<lambda>tag.
               case product of None \<Rightarrow> mreturn acc
               | Some p \<Rightarrow> mbind (create_mig_asset env site a p tag) (\<lambda>row. mbind (assign_route env c sites a row acc) (\<lambda>acc.
                   mreturn (acc\<lparr>xa_assets := AList.update (a_no a) row (xa_assets acc), xa_count := xa_count acc + 1\<rparr>))))))
      (\<lambda>_. assets_inv c db1 (pre @ [a])) s" if "a_id a \<noteq> None" "map_of ?m (a_id a) = None" for site
    unfolding wp_bind [of "getOrMigrateProduct env ldb lc c i j" for i j]
  proof (rule wp_mono [OF rows_product [OF here]])
    fix product s1 assume "rows_at (gd_sites (ms_db s)) (gd_assets (ms_db s)) (gd_clients (ms_db s)) s1"
    then have s1: "assets_inv c db1 pre s1" by (rule assets_inv_rows [OF inv])
    have tag: "wp (case a_t_no a of None \<Rightarrow> mreturn None | Some n \<Rightarrow> getOrMigrateTag env ldb site n) (\<lambda>_. assets_inv c db1 pre) s1"
      using s1 by (auto simp: wp_return intro!: wp_mono [OF rows_tag [OF here]] assets_inv_rows [OF s1] split: option.split)
    have "assets_inv c db1 (pre @ [a]) s2" if "assets_inv c db1 pre s2" for s2 using that by (auto simp: assets_inv_def)
    then show "wp (mbind (case a_t_no a of None \<Rightarrow> mreturn None | Some n \<Rightarrow> getOrMigrateTag env ldb site n) (\<lambda>tag.
               case product of None \<Rightarrow> mreturn acc
               | Some p \<Rightarrow> mbind (create_mig_asset env site a p tag) (\<lambda>row. mbind (assign_route env c sites a row acc) (\<lambda>acc.
                   mreturn (acc\<lparr>xa_assets := AList.update (a_no a) row (xa_assets acc), xa_count := xa_count acc + 1\<rparr>)))))
      (\<lambda>_. assets_inv c db1 (pre @ [a])) s1"
      unfolding wp_bind [of "case a_t_no a of None \<Rightarrow> mreturn None | Some n \<Rightarrow> getOrMigrateTag env ldb site n"]
      using new that by (intro wp_mono [OF tag]) (cases product; simp add: wp_return)
  qed
  note fresh = this
  show ?thesis
  proof (cases "a_id a = None \<or> map_of ?m (a_id a) \<noteq> None")
    case True
    then show ?thesis unfolding migrate_asset_def using more by (auto simp: wp_return intro!: assign)
  next
    case False
    then have n: "a_id a \<noteq> None" "map_of ?m (a_id a) = None" by simp_all
    show ?thesis
    proof (cases "Option.bind (a_loc_no a) (map_of sites)")
      case None
      then show ?thesis unfolding migrate_asset_def n(2) using n(1) more by (simp add: wp_return)
    next
      case (Some site)
      have "migrate_asset env ldb lc c sites ?m a acc =
          mbind (getOrMigrateProduct env ldb lc c (a_p_no a) (a_cat_no a)) (\<lambda>product.
               mbind (case a_t_no a of None \<Rightarrow> mreturn None | Some n \<Rightarrow> getOrMigrateTag env ldb site n) (\<lambda>tag.
               case product of None \<Rightarrow> mreturn acc
               | Some p \<Rightarrow> mbind (create_mig_asset env site a p tag) (\<lambda>row. mbind (assign_route env c sites a row acc) (\<lambda>acc.
                   mreturn (acc\<lparr>xa_assets := AList.update (a_no a) row (xa_assets acc), xa_count := xa_count acc + 1\<rparr>)))))"
        using n(1) unfolding migrate_asset_def n(2) Some by auto
      then show ?thesis by (simp only: fresh [OF n, of site])
    qed
  qed
qed

lemma assets_once:
  assumes c: "cl_id newClient = c" "c \<in> set (client_ids_of (c_id lc) (ms_db s))" and once: "distinct (legacy_asset_ids c (ms_db s))"
    and ldb: "distinct_ids a_id (ldb_assets ldb)"
  shows "wp (migrateAssets env ldb lc newClient sites) (\<lambda>_ s'. gd_clients (ms_db s') = gd_clients (ms_db s) \<and> gd_sites (ms_db s') = gd_sites (ms_db s)
     \<and> distinct (legacy_asset_ids c (ms_db s'))) s"
proof -
  let ?db = "ms_db s" and ?as = "legacy_assets_of ldb (c_no lc)"
  have d: "distinct_ids a_id ?as" unfolding legacy_assets_of_def by (rule distinct_ids_filter [OF ldb])
  have loop: "wp (mfor (migrate_asset env ldb lc c sites (jmap_of (map (\<lambda>r. (ma_legacyAssetId r, r)) (alreadyMigratedAssets lc ?db)))) ?as acc) (\<lambda>_. assets_inv c ?db ?as) s1"
    if "ms_db s1 = ?db" for acc s1
  proof (rule wp_for_prefix)
    show "assets_inv c ?db [] s1" using once that by (simp add: assets_inv_def)
    show "wp (migrate_asset env ldb lc c sites (jmap_of (map (\<lambda>r. (ma_legacyAssetId r, r)) (alreadyMigratedAssets lc ?db))) a acc) (\<lambda>_. assets_inv c ?db (pre @ [a])) s2"
      if "?as = pre @ a # post" "assets_inv c ?db pre s2" for pre a post acc s2
      by (rule assets_step [OF that(2) d [unfolded that(1)] c(2)])
  qed
  have "wp (mfor (migrate_asset env ldb lc c sites (jmap_of (map (\<lambda>r. (ma_legacyAssetId r, r)) (alreadyMigratedAssets lc ?db)))) ?as acc)
    (\<lambda>acc. wp (emitEvent (assets_message (xa_count acc))) (\<lambda>_. wp (mreturn (xa_assets acc)) (\<lambda>_ s'. gd_clients (ms_db s') = gd_clients ?db \<and> gd_sites (ms_db s') = gd_sites ?db
     \<and> distinct (legacy_asset_ids c (ms_db s'))))) s1" if "ms_db s1 = ?db" for acc s1
    by (rule wp_mono [OF loop [OF that]]) (simp add: wp_rules assets_inv_def)
  then show ?thesis unfolding migrateAssets_def using once by (auto simp: wp_rules c(1))
qed

lemma distinct_ids_locations:
  assumes "distinct_ids loc_id (ldb_locations ldb)"
  shows "distinct_ids loc_id (locations_of ldb n)"
proof -
  let ?ls = "filter (\<lambda>l. loc_c_no l = Some n) (ldb_locations ldb)"
  have "mset (locations_of ldb n) = mset (filter (\<lambda>l. loc_date_insert l \<noteq> None) ?ls) + mset (filter (\<lambda>l. \<not> loc_date_insert l \<noteq> None) ?ls)"
    by (simp add: locations_of_def Let_def)
  also have "\<dots> = mset ?ls" by (simp only: mset_filter multiset_partition [symmetric])
  finally have "mset (locations_of ldb n) = mset ?ls" .
  then have "mset (map loc_id (filter (\<lambda>r. loc_id r \<noteq> None) (locations_of ldb n))) = mset (map loc_id (filter (\<lambda>r. loc_id r \<noteq> None) ?ls))"
    unfolding mset_map mset_filter [of "\<lambda>r. loc_id r \<noteq> None"] by (rule arg_cong)
  then show ?thesis using distinct_ids_filter [OF assms] unfolding distinct_ids_def by (metis mset_eq_imp_distinct_iff)
qed

lemma copied_once_rows:
  assumes "client_rows d db' = client_rows d db"
  shows "copied_once d db' = copied_once d db"
proof -
  have "legacy_sites d x = map mt_legacySiteId (filter (\<lambda>r. truthy (mt_legacySiteId r)) (fst (client_rows d x)))"
    "legacy_groups d x = map mt_legacyGroupId (filter (\<lambda>r. truthy (mt_legacyGroupId r)) (fst (client_rows d x)))"
    "legacy_asset_ids d x = map ma_legacyAssetId (filter (\<lambda>a. ma_legacyAssetId a \<noteq> None) (fst (snd (client_rows d x))))" for x
    by (simp_all add: legacy_sites_def legacy_groups_def legacy_asset_ids_def client_rows_def conj_commute)
  then show ?thesis by (simp add: copied_once_def assms)
qed

lemma wp_conj: "wp m Q s \<Longrightarrow> wp m R s \<Longrightarrow> wp m (\<lambda>x s. Q x s \<and> R x s) s"
  by (auto simp: wp_def split: prod.splits sum.splits)

definition each_row_once :: "legacy_db \<Rightarrow> bool" where
  "each_row_once ldb \<longleftrightarrow> distinct_ids loc_id (ldb_locations ldb) \<and> distinct_ids group_id (ldb_groups ldb) \<and> distinct_ids a_id (ldb_assets ldb)"

lemma once_tx:
  assumes start: "migratable env ldb s" and lc: "lc \<in> set (ldb_clients ldb)" and ldb: "each_row_once ldb" and once: "\<forall>d. copied_once d (ms_db s)"
  shows "wp (migrate_tx env ldb lc) (\<lambda>_ s'. \<forall>i\<in>set (client_ids_of (c_id lc) (ms_db s')). copied_once i (ms_db s')) s"
  unfolding migrate_tx_def wp_bind
proof (rule wp_mono [OF wp_client])
  fix newClient s1 assume m: "migrated_client lc s newClient s1"
  let ?c = "cl_id newClient"
  have ids: "set (client_ids_of (c_id lc) (ms_db s1)) = {?c}"
  proof -
    have "newClient \<in> set (gd_clients (ms_db s1))" "mc_legacyClientId newClient = c_id lc" using m by (auto simp: migrated_client_def)
    then have "?c \<in> set (client_ids_of (c_id lc) (ms_db s1))" by (auto simp: client_ids_of_def)
    then show ?thesis using own_ids [OF start lc m] by auto
  qed
  have same: "gd_sites (ms_db s1) = gd_sites (ms_db s)" "gd_assets (ms_db s1) = gd_assets (ms_db s)" using m by (auto simp: migrated_client_def)
  then have once1: "distinct (legacy_sites ?c (ms_db s1))" "distinct (legacy_groups ?c (ms_db s1))" "distinct (legacy_asset_ids ?c (ms_db s1))"
    using once [rule_format, of ?c] by (simp_all add: copied_once_def legacy_sites_def legacy_groups_def legacy_asset_ids_def)
  have d: "distinct_ids loc_id (locations_of ldb (c_no lc))" "distinct_ids group_id (ldb_groups ldb)" "distinct_ids a_id (ldb_assets ldb)"
    using ldb distinct_ids_locations by (auto simp: each_row_once_def)
  have c1: "?c \<in> set (client_ids_of (c_id lc) (ms_db s1))" using ids by simp
  show "wp (migrateSites env ldb lc newClient) (\<lambda>sites. wp (migrateAssets env ldb lc newClient sites) (\<lambda>_. wp (emitEvent (Alert Info
      ''Great! That's it for now. Migrating users and inspection history is not yet supported and will need to be done manually.''))
      (\<lambda>_ s'. \<forall>i\<in>set (client_ids_of (c_id lc) (ms_db s')). copied_once i (ms_db s')))) s1"
  proof (rule wp_mono [OF sites_once [OF HOL.refl c1 once1(1,2) d(1,2)]], elim conjE)
    fix sites :: "(int, mig_site) jmap" and s2 :: mig_state
    assume s2: "gd_clients (ms_db s2) = gd_clients (ms_db s1)" "gd_assets (ms_db s2) = gd_assets (ms_db s1)" "distinct (legacy_sites ?c (ms_db s2))" "distinct (legacy_groups ?c (ms_db s2))"
    have c2: "?c \<in> set (client_ids_of (c_id lc) (ms_db s2))" using c1 s2(1) by (simp add: client_ids_of_def)
    have "distinct (legacy_asset_ids ?c (ms_db s2))" using once1(3) s2(2) by (simp add: legacy_asset_ids_def)
    note assets = assets_once [OF HOL.refl c2 this d(3), of env sites]
    show "wp (migrateAssets env ldb lc newClient sites) (\<lambda>_. wp (emitEvent (Alert Info
      ''Great! That's it for now. Migrating users and inspection history is not yet supported and will need to be done manually.''))
      (\<lambda>_ s'. \<forall>i\<in>set (client_ids_of (c_id lc) (ms_db s')). copied_once i (ms_db s'))) s2"
    proof (rule wp_mono [OF assets], elim conjE)
      fix x :: "(int, mig_asset) jmap" and s3 :: mig_state
      assume s3: "gd_clients (ms_db s3) = gd_clients (ms_db s2)" "gd_sites (ms_db s3) = gd_sites (ms_db s2)" "distinct (legacy_asset_ids ?c (ms_db s3))"
      have "set (client_ids_of (c_id lc) (ms_db s3)) = {?c}" using ids s3(1) s2(1) by (simp add: client_ids_of_def)
      moreover have "copied_once ?c (ms_db s3)" using s2(3,4) s3(2,3) by (simp add: copied_once_def legacy_sites_def legacy_groups_def)
      ultimately show "wp (emitEvent (Alert Info
        ''Great! That's it for now. Migrating users and inspection history is not yet supported and will need to be done manually.''))
        (\<lambda>_ s'. \<forall>i\<in>set (client_ids_of (c_id lc) (ms_db s')). copied_once i (ms_db s')) s3" by (simp add: wp_emit)
    qed
  qed
qed

text \<open>
  C24: running the migration, for the first time or again, never gives a client two sites or site groups of the same
  legacy identifier or two assets of the same one, provided the tables had none and the old database has
  each of its identifiers once. As for isolation (\<open>migratable\<close>), the identifiers that are drawn are fresh, the tag of an asset
  exists and is of its client, every client of the old database has an identifier (not null), and no two clients have the
  same legacy identifier.
\<close>

theorem migrated_once:
  assumes start: "migratable env ldb s" and ldb: "each_row_once ldb" and once: "\<forall>d. copied_once d (ms_db s)"
    and run: "processMigration env ldb s = (r, s')"
  shows "copied_once d (ms_db s')"
proof -
  let ?Q = "\<lambda>lc db'. migrated lc (ms_db s) db' \<and> (\<forall>i\<in>set (client_ids_of (c_id lc) db'). copied_once i db')"
  have res: "case r of Inl _ \<Rightarrow> ms_db s' = ms_db s | Inr _ \<Rightarrow> \<exists>lc\<in>set (ldb_clients ldb). ?Q lc (ms_db s')"
  proof (rule process_result [OF run])
    fix lc and s2 :: mig_state assume lc: "lc \<in> set (ldb_clients ldb)" and s2: "ms_db s2 = ms_db s" "ms_ids s2 = ms_ids s"
    have start2: "migratable env ldb s2" using start unfolding migratable_def s2 .
    show "wp (migrate_tx env ldb lc) (\<lambda>_ s'. ?Q lc (ms_db s')) s2"
      using wp_conj [OF wp_migrate_tx [OF start2 lc] once_tx [OF start2 lc ldb]] once s2(1) by simp
  qed
  show ?thesis
  proof (cases r)
    case (Inr u)
    then have "\<exists>lc. ?Q lc (ms_db s')" using res by auto
    then obtain lc where m: "migrated lc (ms_db s) (ms_db s')" and own: "\<forall>i\<in>set (client_ids_of (c_id lc) (ms_db s')). copied_once i (ms_db s')" by blast
    obtain c where c: "c \<in> set (gd_clients (ms_db s'))" "mc_legacyClientId c = c_id lc" "client_frame (cl_id c) (ms_db s) (ms_db s')"
      using m unfolding migrated_def by blast
    show ?thesis
    proof (cases "d = cl_id c")
      case True
      then show ?thesis using own c(1,2) by (auto simp: client_ids_of_def)
    next
      case False
      then show ?thesis using copied_once_rows [OF frame_others [OF c(3) False]] once by simp
    qed
  qed (use once res in simp)
qed

theorem migrated_once_witness:
  "\<exists>s'. processMigration ex_mig_env ex_legacy_db ex_mig_state = (Inr (), s') \<and> copied_once ''n0'' (ms_db s')"
proof -
  obtain r s' where run: "processMigration ex_mig_env ex_legacy_db ex_mig_state = (r, s')" by force
  then have r: "r = Inr ()" using ex_migration_run by (auto split: sum.splits)
  have "each_row_once ex_legacy_db" by (simp add: each_row_once_def distinct_ids_def ex_legacy_db_def)
  moreover have "\<forall>d. copied_once d (ms_db ex_mig_state)"
    by (simp add: copied_once_def legacy_sites_def legacy_groups_def legacy_asset_ids_def ex_mig_state_def ex_other_db_def)
  ultimately show ?thesis using migrated_once [OF ex_migratable _ _ run, of "''n0''"] run r by simp
qed

end
