(* ===== verification/Catalog.thy ===== *)
theory Catalog
  imports Asset_Questions
begin

section \<open>The product catalogue\<close>

text \<open>
  \<^verbatim>\<open>products\<close>, \<^verbatim>\<open>product-categories\<close>, \<^verbatim>\<open>manufacturers\<close> and \<^verbatim>\<open>ansi-categories\<close> under
  \<^verbatim>\<open>src/src/products\<close>, and the creation, change and removal of questions, variants and conditions in
  \<^verbatim>\<open>asset-questions.service.ts\<close>, under the policies of
  \<^verbatim>\<open>20260213120000_scope_asset_question_rls_policies\<close>: a row without a client is shared. Everybody reads
  shared rows, only GLOBAL and SYSTEM sessions write them. ANSI categories have no policy. A relation is
  connected to a row the session shows, and the trigger gives a condition the client of its question; an update or a deletion that the policies let match no row fails with
  \<open>P2025\<close>. Foreign keys are checked, and their actions run, without policies: removing a row removes the
  products and questions that cascade from it, and fails with \<open>P2003\<close> when one of them is referenced by a table that
  restricts the removal (assets, consumables, requested items and consumable configurations for products, answers
  for questions). The nested rows of a question other than its conditions and the columns without a role here
  are not modelled.
\<close>

record manufacturer_row =
  mf_id :: id
  mf_name :: string
  mf_homeUrl :: "string option"
  mf_active :: bool
  mf_clientId :: "id option"

record product_category_row =
  ct_id :: id
  ct_name :: string
  ct_shortName :: "string option"
  ct_active :: bool
  ct_clientId :: "id option"

record ansi_row =
  an_id :: id
  an_name :: string
  an_description :: "string option"

datatype product_type = CONSUMABLE_PRODUCT | PRIMARY_PRODUCT

record catalog_item = product_row +
  cp_name :: string
  cp_type :: product_type
  cp_active :: bool
  cp_parentProductId :: "id option"
  cp_ansiCategoryId :: "id option"

record catalog_db =
  kd_manufacturers :: "manufacturer_row list"
  kd_categories :: "product_category_row list"
  kd_ansi :: "ansi_row list"
  kd_products :: "catalog_item list"
  kd_questions :: "question_row list"
  kd_conditions :: "condition_row list"
  kd_pinned :: "id list" \<comment> \<open>products that other tables reference\<close>
  kd_answered :: "id list" \<comment> \<open>questions that have answers\<close>

subsection \<open>The policies and the table operations\<close>

definition shared_select :: "rls_session \<Rightarrow> id option \<Rightarrow> bool" where
  "shared_select s owner = (case s of Bypass \<Rightarrow> True | Tenant ctx \<Rightarrow> owner = None \<or> validate_client_opt ctx owner)"

definition shared_write :: "rls_session \<Rightarrow> id option \<Rightarrow> bool" where
  "shared_write s owner =
     (case s of Bypass \<Rightarrow> True
      | Tenant ctx \<Rightarrow> validate_client_opt ctx owner \<or> rls_scope ctx \<in> {SYSTEM, GLOBAL} \<and> owner = None)"

definition can_connect :: "rls_session \<Rightarrow> ('t \<Rightarrow> id) \<Rightarrow> ('t \<Rightarrow> id option) \<Rightarrow> 't list \<Rightarrow> id option \<Rightarrow> bool" where
  "can_connect sess key owner targets i =
     (case i of None \<Rightarrow> True | Some k \<Rightarrow> list_ex (\<lambda>t. key t = k \<and> shared_select sess (owner t)) targets)"

definition can_connect_client :: "rls_session \<Rightarrow> tenant_db \<Rightarrow> id option \<Rightarrow> bool" where
  "can_connect_client sess tdb i =
     (case i of None \<Rightarrow> True | Some k \<Rightarrow> list_ex (\<lambda>c. cl_id c = k \<and> client_visible sess c) (db_clients tdb))"

definition insert_shared :: "rls_session \<Rightarrow> ('r \<Rightarrow> id) \<Rightarrow> ('r \<Rightarrow> id option) \<Rightarrow> 'r \<Rightarrow> 'r list \<Rightarrow> 'r list result" where
  "insert_shared sess key owner row rows =
     (if key row \<in> key ` set rows then Inl (ServerError ''P2002'')
      else if \<not> shared_write sess (owner row) then Inl rls_violation
      else Inr (rows @ [row]))"

definition update_shared ::
    "rls_session \<Rightarrow> ('r \<Rightarrow> id) \<Rightarrow> ('r \<Rightarrow> id option) \<Rightarrow> id \<Rightarrow> ('r \<Rightarrow> 'r) \<Rightarrow> 'r list \<Rightarrow> ('r \<times> 'r list) result" where
  "update_shared sess key owner i f rows =
     (case find_by key i (filter (\<lambda>r. shared_select sess (owner r) \<and> shared_write sess (owner r)) rows) of
        None \<Rightarrow> Inl (ServerError ''P2025'')
      | Some r \<Rightarrow>
          if \<not> shared_write sess (owner (f r)) then Inl rls_violation
          else Inr (f r, map (\<lambda>x. if key x = i then f r else x) rows))"

definition delete_shared ::
    "rls_session \<Rightarrow> ('r \<Rightarrow> id) \<Rightarrow> ('r \<Rightarrow> id option) \<Rightarrow> id \<Rightarrow> 'r list \<Rightarrow> ('r \<times> 'r list) result" where
  "delete_shared sess key owner i rows =
     (case find_by key i (filter (\<lambda>r. shared_select sess (owner r) \<and> shared_write sess (owner r)) rows) of
        None \<Rightarrow> Inl (ServerError ''P2025'')
      | Some r \<Rightarrow> Inr (r, filter (\<lambda>x. key x \<noteq> i) rows))"

definition find_shared :: "rls_session \<Rightarrow> ('r \<Rightarrow> id) \<Rightarrow> ('r \<Rightarrow> id option) \<Rightarrow> id \<Rightarrow> 'r list \<Rightarrow> 'r result" where
  "find_shared sess key owner i rows =
     (case find_by key i (filter (\<lambda>r. shared_select sess (owner r)) rows) of None \<Rightarrow> Inl (ServerError ''P2025'') | Some r \<Rightarrow> Inr r)"

text \<open>\<open>ON DELETE CASCADE\<close> of a table to itself: rows whose parent is gone go until every parent is there.\<close>

function prune :: "('r \<Rightarrow> id) \<Rightarrow> ('r \<Rightarrow> id option) \<Rightarrow> 'r list \<Rightarrow> 'r list" where
  "prune key parent rows =
     (let kept = filter (\<lambda>r. case parent r of None \<Rightarrow> True | Some p \<Rightarrow> p \<in> key ` set rows) rows
      in if length kept = length rows then rows else prune key parent kept)"
  by pat_completeness auto
termination
  by (relation "measure (\<lambda>(key, parent, rows). length rows)") (auto simp: Let_def le_neq_implies_less)

declare prune.simps [simp del]

definition keep_ref :: "('t \<Rightarrow> id) \<Rightarrow> 't list \<Rightarrow> id option \<Rightarrow> id option" where
  \<comment> \<open>\<open>ON DELETE SET NULL\<close>\<close>
  "keep_ref key targets i = (case i of None \<Rightarrow> None | Some k \<Rightarrow> if k \<in> key ` set targets then Some k else None)"

definition run_actions :: "catalog_db \<Rightarrow> catalog_db result" where
  "run_actions db =
     (let products = map (\<lambda>p. p\<lparr>cp_ansiCategoryId := keep_ref an_id (kd_ansi db) (cp_ansiCategoryId p)\<rparr>)
            (prune pr_id cp_parentProductId
              (filter (\<lambda>p. pr_manufacturerId p \<in> mf_id ` set (kd_manufacturers db) \<and> pr_categoryId p \<in> ct_id ` set (kd_categories db)) (kd_products db)));
          questions = map (\<lambda>q. q\<lparr>qu_productId := keep_ref pr_id products (qu_productId q),
              qu_productCategoryId := keep_ref ct_id (kd_categories db) (qu_productCategoryId q)\<rparr>)
            (prune qu_id qu_parentQuestionId (kd_questions db));
          conditions = filter (\<lambda>c. cd_questionId c \<in> qu_id ` set questions) (kd_conditions db)
      in if \<not> list_all (\<lambda>i. i \<in> pr_id ` set products) (kd_pinned db)
            \<or> \<not> list_all (\<lambda>i. i \<in> qu_id ` set questions) (kd_answered db) then Inl (ServerError ''P2003'')
         else Inr (db\<lparr>kd_products := products, kd_questions := questions, kd_conditions := conditions\<rparr>))"

subsection \<open>Manufacturers\<close>

record manufacturer_dto =
  md_name :: string
  md_homeUrl :: "string option"
  md_active :: "bool option"
  md_clientId :: "id option"

record manufacturer_patch =
  mp_name :: "string option"
  mp_homeUrl :: "string option"
  mp_active :: "bool option"
  mp_client :: "id option option" \<comment> \<open>disconnect or connect\<close>

definition connected :: "id option option \<Rightarrow> id option" where
  "connected c = Option.bind c (\<lambda>x. x)"

definition manufacturer_create ::
    "rls_session \<Rightarrow> tenant_db \<Rightarrow> id \<Rightarrow> manufacturer_dto \<Rightarrow> catalog_db \<Rightarrow> (manufacturer_row \<times> catalog_db) result" where
  "manufacturer_create sess tdb newId dto db =
     (let row = \<lparr>mf_id = newId, mf_name = md_name dto, mf_homeUrl = md_homeUrl dto, mf_active = nullish_or (md_active dto) True, mf_clientId = md_clientId dto\<rparr>
      in if \<not> can_connect_client sess tdb (md_clientId dto) then Inl (ServerError ''P2025'')
         else bindr (insert_shared sess mf_id mf_clientId row (kd_manufacturers db)) (\<lambda>rows. Inr (row, db\<lparr>kd_manufacturers := rows\<rparr>)))"

definition GENERIC_MANUFACTURER_NAME :: string where
  "GENERIC_MANUFACTURER_NAME = ''Generic''"

definition getOrCreateGeneric :: "id \<Rightarrow> catalog_db \<Rightarrow> (manufacturer_row \<times> catalog_db) result" where
  "getOrCreateGeneric newId db =
     (case find_by mf_name GENERIC_MANUFACTURER_NAME (kd_manufacturers db) of
        Some m \<Rightarrow> Inr (m, db)
      | None \<Rightarrow>
          (let row = \<lparr>mf_id = newId, mf_name = GENERIC_MANUFACTURER_NAME, mf_homeUrl = None, mf_active = True, mf_clientId = None\<rparr>
           in bindr (insert_shared Bypass mf_id mf_clientId row (kd_manufacturers db)) (\<lambda>rows. Inr (row, db\<lparr>kd_manufacturers := rows\<rparr>))))"

definition manufacturer_findOne :: "rls_session \<Rightarrow> id \<Rightarrow> catalog_db \<Rightarrow> (manufacturer_row \<times> catalog_item list) result" where
  "manufacturer_findOne sess i db =
     as404OrThrow (bindr (find_shared sess mf_id mf_clientId i (kd_manufacturers db))
       (\<lambda>m. Inr (m, filter (\<lambda>p. shared_select sess (pr_clientId p) \<and> pr_manufacturerId p = i) (kd_products db))))"

definition patch_manufacturer :: "manufacturer_patch \<Rightarrow> manufacturer_row \<Rightarrow> manufacturer_row" where
  "patch_manufacturer dto m = m\<lparr>mf_name := nullish_or (mp_name dto) (mf_name m),
     mf_homeUrl := (case mp_homeUrl dto of None \<Rightarrow> mf_homeUrl m | Some u \<Rightarrow> Some u),
     mf_active := nullish_or (mp_active dto) (mf_active m), mf_clientId := nullish_or (mp_client dto) (mf_clientId m)\<rparr>"

definition manufacturer_update ::
    "rls_session \<Rightarrow> tenant_db \<Rightarrow> id \<Rightarrow> manufacturer_patch \<Rightarrow> catalog_db \<Rightarrow> (manufacturer_row \<times> catalog_db) result" where
  "manufacturer_update sess tdb i dto db =
     as404OrThrow
       (if \<not> can_connect_client sess tdb (connected (mp_client dto)) then Inl (ServerError ''P2025'')
        else bindr (update_shared sess mf_id mf_clientId i (patch_manufacturer dto) (kd_manufacturers db))
          (\<lambda>(row, rows). Inr (row, db\<lparr>kd_manufacturers := rows\<rparr>)))"

definition manufacturer_remove :: "rls_session \<Rightarrow> id \<Rightarrow> catalog_db \<Rightarrow> (manufacturer_row \<times> catalog_db) result" where
  "manufacturer_remove sess i db =
     bindr (delete_shared sess mf_id mf_clientId i (kd_manufacturers db)) (\<lambda>(row, rows).
       bindr (run_actions (db\<lparr>kd_manufacturers := rows\<rparr>)) (\<lambda>db'. Inr (row, db')))"

subsection \<open>Categories\<close>

record category_dto =
  td_name :: string
  td_shortName :: "string option"
  td_active :: bool
  td_clientId :: "id option"

record category_patch =
  tp_name :: "string option"
  tp_shortName :: "string option"
  tp_active :: "bool option"
  tp_client :: "id option option"

definition category_create :: "rls_session \<Rightarrow> tenant_db \<Rightarrow> id \<Rightarrow> category_dto \<Rightarrow> catalog_db \<Rightarrow> (product_category_row \<times> catalog_db) result" where
  "category_create sess tdb newId dto db =
     (let row = \<lparr>ct_id = newId, ct_name = td_name dto, ct_shortName = td_shortName dto, ct_active = td_active dto, ct_clientId = td_clientId dto\<rparr>
      in if \<not> can_connect_client sess tdb (td_clientId dto) then Inl (ServerError ''P2025'')
         else bindr (insert_shared sess ct_id ct_clientId row (kd_categories db)) (\<lambda>rows. Inr (row, db\<lparr>kd_categories := rows\<rparr>)))"

definition category_findOne :: "rls_session \<Rightarrow> id \<Rightarrow> catalog_db \<Rightarrow> (product_category_row \<times> catalog_item list \<times> question_row list) result" where
  "category_findOne sess i db =
     as404OrThrow (bindr (find_shared sess ct_id ct_clientId i (kd_categories db))
       (\<lambda>c. Inr (c, filter (\<lambda>p. shared_select sess (pr_clientId p) \<and> pr_categoryId p = i) (kd_products db),
          filter (\<lambda>q. shared_select sess (qu_clientId q) \<and> qu_productCategoryId q = Some i) (kd_questions db))))"

definition patch_category :: "category_patch \<Rightarrow> product_category_row \<Rightarrow> product_category_row" where
  "patch_category dto c = c\<lparr>ct_name := nullish_or (tp_name dto) (ct_name c),
     ct_shortName := (case tp_shortName dto of None \<Rightarrow> ct_shortName c | Some u \<Rightarrow> Some u),
     ct_active := nullish_or (tp_active dto) (ct_active c), ct_clientId := nullish_or (tp_client dto) (ct_clientId c)\<rparr>"

definition category_update :: "rls_session \<Rightarrow> tenant_db \<Rightarrow> id \<Rightarrow> category_patch \<Rightarrow> catalog_db \<Rightarrow> (product_category_row \<times> catalog_db) result" where
  "category_update sess tdb i dto db =
     as404OrThrow
       (if \<not> can_connect_client sess tdb (connected (tp_client dto)) then Inl (ServerError ''P2025'')
        else bindr (update_shared sess ct_id ct_clientId i (patch_category dto) (kd_categories db))
          (\<lambda>(row, rows). Inr (row, db\<lparr>kd_categories := rows\<rparr>)))"

definition category_remove :: "rls_session \<Rightarrow> id \<Rightarrow> catalog_db \<Rightarrow> (product_category_row \<times> catalog_db) result" where
  "category_remove sess i db =
     bindr (delete_shared sess ct_id ct_clientId i (kd_categories db)) (\<lambda>(row, rows).
       bindr (run_actions (db\<lparr>kd_categories := rows\<rparr>)) (\<lambda>db'. Inr (row, db')))"

subsection \<open>ANSI categories\<close>

text \<open>The table has no policies: every session reads and writes every row.\<close>

record ansi_dto =
  nd_name :: string
  nd_description :: "string option"

record ansi_patch =
  np_name :: "string option"
  np_description :: "string option"

definition ansi_create :: "id \<Rightarrow> ansi_dto \<Rightarrow> catalog_db \<Rightarrow> (ansi_row \<times> catalog_db) result" where
  "ansi_create newId dto db =
     (let row = \<lparr>an_id = newId, an_name = nd_name dto, an_description = nd_description dto\<rparr>
      in bindr (insert_shared Bypass an_id (\<lambda>_. None) row (kd_ansi db)) (\<lambda>rows. Inr (row, db\<lparr>kd_ansi := rows\<rparr>)))"

definition ansi_findOne :: "id \<Rightarrow> catalog_db \<Rightarrow> ansi_row result" where
  "ansi_findOne i db = find_shared Bypass an_id (\<lambda>_. None) i (kd_ansi db)"

definition patch_ansi :: "ansi_patch \<Rightarrow> ansi_row \<Rightarrow> ansi_row" where
  "patch_ansi dto a = a\<lparr>an_name := nullish_or (np_name dto) (an_name a),
     an_description := (case np_description dto of None \<Rightarrow> an_description a | Some u \<Rightarrow> Some u)\<rparr>"

definition ansi_update :: "id \<Rightarrow> ansi_patch \<Rightarrow> catalog_db \<Rightarrow> (ansi_row \<times> catalog_db) result" where
  "ansi_update i dto db =
     bindr (update_shared Bypass an_id (\<lambda>_. None) i (patch_ansi dto) (kd_ansi db)) (\<lambda>(row, rows). Inr (row, db\<lparr>kd_ansi := rows\<rparr>))"

definition ansi_remove :: "id \<Rightarrow> catalog_db \<Rightarrow> (ansi_row \<times> catalog_db) result" where
  "ansi_remove i db =
     bindr (delete_shared Bypass an_id (\<lambda>_. None) i (kd_ansi db)) (\<lambda>(row, rows).
       bindr (run_actions (db\<lparr>kd_ansi := rows\<rparr>)) (\<lambda>db'. Inr (row, db')))"

subsection \<open>Products\<close>

record product_dto =
  pd_manufacturerId :: id
  pd_categoryId :: id
  pd_parentProductId :: "id option"
  pd_ansiCategoryId :: "id option"
  pd_clientId :: "id option"
  pd_name :: string
  pd_type :: product_type
  pd_active :: "bool option"
  pd_metadata :: "json option"

record product_patch =
  pp_manufacturerId :: "id option"
  pp_categoryId :: "id option"
  pp_parentProductId :: "id option"
  pp_ansiCategory :: "id option option"
  pp_client :: "id option option"
  pp_name :: "string option"
  pp_type :: "product_type option"
  pp_active :: "bool option"
  pp_metadata :: "json option"

definition product_connects ::
    "rls_session \<Rightarrow> tenant_db \<Rightarrow> catalog_db \<Rightarrow> id option \<Rightarrow> id option \<Rightarrow> id option \<Rightarrow> id option \<Rightarrow> id option \<Rightarrow> bool" where
  "product_connects sess tdb db manufacturer category parent ansi client \<longleftrightarrow>
     can_connect sess mf_id mf_clientId (kd_manufacturers db) manufacturer
     \<and> can_connect sess ct_id ct_clientId (kd_categories db) category
     \<and> can_connect sess pr_id pr_clientId (kd_products db) parent
     \<and> can_connect Bypass an_id (\<lambda>_. None) (kd_ansi db) ansi
     \<and> can_connect_client sess tdb client"

definition product_create ::
    "rls_session \<Rightarrow> tenant_db \<Rightarrow> id \<Rightarrow> product_dto \<Rightarrow> catalog_db \<Rightarrow> (catalog_item \<times> catalog_db) result" where
  "product_create sess tdb newId dto db =
     (let row = \<lparr>pr_id = newId, pr_categoryId = pd_categoryId dto, pr_manufacturerId = pd_manufacturerId dto, pr_metadata = pd_metadata dto,
            pr_clientId = pd_clientId dto, cp_name = pd_name dto, cp_type = pd_type dto, cp_active = nullish_or (pd_active dto) True,
            cp_parentProductId = pd_parentProductId dto, cp_ansiCategoryId = pd_ansiCategoryId dto\<rparr>
      in if \<not> product_connects sess tdb db (Some (pd_manufacturerId dto)) (Some (pd_categoryId dto)) (pd_parentProductId dto)
              (pd_ansiCategoryId dto) (pd_clientId dto) then Inl (ServerError ''P2025'')
         else bindr (insert_shared sess pr_id pr_clientId row (kd_products db)) (\<lambda>rows. Inr (row, db\<lparr>kd_products := rows\<rparr>)))"

record product_detail =
  xp_product :: catalog_item
  xp_questions :: "question_row list"
  xp_categoryQuestions :: "question_row list"
  xp_categoryConsumables :: "catalog_item list"
  xp_consumables :: "catalog_item list"

definition product_findOne :: "rls_session \<Rightarrow> id \<Rightarrow> catalog_db \<Rightarrow> product_detail result" where
  \<comment> \<open>the lists that are included, with the rows the session shows\<close>
  "product_findOne sess i db =
     as404OrThrow (bindr (find_shared sess pr_id pr_clientId i (kd_products db))
       (\<lambda>p. let products = filter (\<lambda>x. shared_select sess (pr_clientId x)) (kd_products db);
                questions = filter (\<lambda>q. shared_select sess (qu_clientId q)) (kd_questions db)
            in Inr \<lparr>xp_product = p, xp_questions = filter (\<lambda>q. qu_productId q = Some i) questions,
              xp_categoryQuestions = filter (\<lambda>q. qu_productCategoryId q = Some (pr_categoryId p)) questions,
              xp_categoryConsumables = filter (\<lambda>x. pr_categoryId x = pr_categoryId p \<and> cp_type x = CONSUMABLE_PRODUCT \<and> cp_parentProductId x = None) products,
              xp_consumables = filter (\<lambda>x. cp_parentProductId x = Some i) products\<rparr>))"

definition patch_product :: "product_patch \<Rightarrow> catalog_item \<Rightarrow> catalog_item" where
  "patch_product dto p = p\<lparr>pr_manufacturerId := nullish_or (pp_manufacturerId dto) (pr_manufacturerId p),
     pr_categoryId := nullish_or (pp_categoryId dto) (pr_categoryId p),
     cp_parentProductId := (case pp_parentProductId dto of None \<Rightarrow> cp_parentProductId p | Some x \<Rightarrow> Some x),
     cp_ansiCategoryId := nullish_or (pp_ansiCategory dto) (cp_ansiCategoryId p),
     pr_clientId := nullish_or (pp_client dto) (pr_clientId p), cp_name := nullish_or (pp_name dto) (cp_name p),
     cp_type := nullish_or (pp_type dto) (cp_type p), cp_active := nullish_or (pp_active dto) (cp_active p),
     pr_metadata := (case pp_metadata dto of None \<Rightarrow> pr_metadata p | Some x \<Rightarrow> Some x)\<rparr>"

definition product_update ::
    "rls_session \<Rightarrow> tenant_db \<Rightarrow> id \<Rightarrow> product_patch \<Rightarrow> catalog_db \<Rightarrow> (catalog_item \<times> catalog_db) result" where
  "product_update sess tdb i dto db =
     as404OrThrow
       (if \<not> product_connects sess tdb db (pp_manufacturerId dto) (pp_categoryId dto) (pp_parentProductId dto)
              (connected (pp_ansiCategory dto)) (connected (pp_client dto)) then Inl (ServerError ''P2025'')
        else bindr (update_shared sess pr_id pr_clientId i (patch_product dto) (kd_products db))
          (\<lambda>(row, rows). Inr (row, db\<lparr>kd_products := rows\<rparr>)))"

definition product_remove :: "rls_session \<Rightarrow> id \<Rightarrow> catalog_db \<Rightarrow> (catalog_item \<times> catalog_db) result" where
  "product_remove sess i db =
     bindr (delete_shared sess pr_id pr_clientId i (kd_products db)) (\<lambda>(row, rows).
       bindr (run_actions (db\<lparr>kd_products := rows\<rparr>)) (\<lambda>db'. Inr (row, db')))"

subsection \<open>Questions\<close>

record question_dto =
  zd_active :: bool
  zd_type :: question_type
  zd_valueType :: value_type
  zd_order :: "int option"
  zd_selectOptions :: "json option"
  zd_clientId :: "id option"
  zd_parentQuestionId :: "id option"

record question_patch =
  zp_active :: "bool option"
  zp_type :: "question_type option"
  zp_valueType :: "value_type option"
  zp_order :: "int option"
  zp_selectOptions :: "json option"
  zp_client :: "id option option"
  zp_parentQuestionId :: "id option"

definition question_connects ::
    "rls_session \<Rightarrow> tenant_db \<Rightarrow> catalog_db \<Rightarrow> id option \<Rightarrow> id option \<Rightarrow> id option \<Rightarrow> id option \<Rightarrow> bool" where
  "question_connects sess tdb db product category parent client \<longleftrightarrow>
     can_connect sess pr_id pr_clientId (kd_products db) product
     \<and> can_connect sess ct_id ct_clientId (kd_categories db) category
     \<and> can_connect sess qu_id qu_clientId (kd_questions db) parent
     \<and> can_connect_client sess tdb client"

definition create_question ::
    "rls_session \<Rightarrow> tenant_db \<Rightarrow> time \<Rightarrow> id \<Rightarrow> id option \<Rightarrow> id option \<Rightarrow> id option \<Rightarrow> question_dto \<Rightarrow> catalog_db \<Rightarrow> (question_row \<times> catalog_db) result" where
  "create_question sess tdb now newId product category parent dto db =
     (let row = \<lparr>qu_id = newId, qu_type = zd_type dto, qu_valueType = zd_valueType dto, qu_consumableConfig = None, qu_metadataConfig = None,
            qu_clientId = zd_clientId dto, qu_active = zd_active dto, qu_parentQuestionId = parent, qu_order = zd_order dto, qu_createdOn = now,
            qu_selectOptions = zd_selectOptions dto, qu_productCategoryId = category, qu_productId = product\<rparr>
      in if \<not> question_connects sess tdb db product category parent (zd_clientId dto) then Inl (ServerError ''P2025'')
         else bindr (insert_shared sess qu_id qu_clientId row (kd_questions db)) (\<lambda>rows. Inr (row, db\<lparr>kd_questions := rows\<rparr>)))"

definition patch_question :: "id option \<Rightarrow> id option \<Rightarrow> question_patch \<Rightarrow> question_row \<Rightarrow> question_row" where
  "patch_question product category dto q = q\<lparr>qu_active := nullish_or (zp_active dto) (qu_active q), qu_type := nullish_or (zp_type dto) (qu_type q),
     qu_valueType := nullish_or (zp_valueType dto) (qu_valueType q),
     qu_order := (case zp_order dto of None \<Rightarrow> qu_order q | Some x \<Rightarrow> Some x),
     qu_selectOptions := (case zp_selectOptions dto of None \<Rightarrow> qu_selectOptions q | Some x \<Rightarrow> Some x),
     qu_clientId := nullish_or (zp_client dto) (qu_clientId q),
     qu_parentQuestionId := (case zp_parentQuestionId dto of None \<Rightarrow> qu_parentQuestionId q | Some x \<Rightarrow> Some x),
     qu_productId := (case product of None \<Rightarrow> qu_productId q | Some x \<Rightarrow> Some x),
     qu_productCategoryId := (case category of None \<Rightarrow> qu_productCategoryId q | Some x \<Rightarrow> Some x)\<rparr>"

definition update_question ::
    "rls_session \<Rightarrow> tenant_db \<Rightarrow> id \<Rightarrow> id option \<Rightarrow> id option \<Rightarrow> question_patch \<Rightarrow> catalog_db \<Rightarrow> (question_row \<times> catalog_db) result" where
  "update_question sess tdb i product category dto db =
     as404OrThrow
       (if \<not> question_connects sess tdb db product category (zp_parentQuestionId dto) (connected (zp_client dto)) then Inl (ServerError ''P2025'')
        else bindr (update_shared sess qu_id qu_clientId i (patch_question product category dto) (kd_questions db))
          (\<lambda>(row, rows). Inr (row, db\<lparr>kd_questions := rows\<rparr>)))"

definition deleteQuestion :: "rls_session \<Rightarrow> id \<Rightarrow> catalog_db \<Rightarrow> (question_row \<times> catalog_db) result" where
  "deleteQuestion sess questionId db =
     as404OrThrow (bindr (delete_shared sess qu_id qu_clientId questionId (kd_questions db)) (\<lambda>(row, rows).
       bindr (run_actions (db\<lparr>kd_questions := rows\<rparr>)) (\<lambda>db'. Inr (row, db'))))"

text \<open>The three services that write questions; variants are questions with a parent.\<close>

definition question_create where
  "question_create sess tdb now newId dto db = create_question sess tdb now newId None None (zd_parentQuestionId dto) dto db"

definition addVariant where
  "addVariant sess tdb now newId parentId dto db = create_question sess tdb now newId None None (Some parentId) dto db"

definition product_addQuestion where
  "product_addQuestion sess tdb now newId productId dto db =
     as404OrThrow (create_question sess tdb now newId (Some productId) None (zd_parentQuestionId dto) dto db)"

definition category_addQuestion where
  "category_addQuestion sess tdb now newId categoryId dto db =
     as404OrThrow (create_question sess tdb now newId None (Some categoryId) (zd_parentQuestionId dto) dto db)"

definition question_update where
  "question_update sess tdb i dto db = update_question sess tdb i None None dto db"

definition product_updateQuestion where
  "product_updateQuestion sess tdb productId questionId dto db = update_question sess tdb questionId (Some productId) None dto db"

definition category_updateQuestion where
  "category_updateQuestion sess tdb categoryId questionId dto db = update_question sess tdb questionId None (Some categoryId) dto db"

definition question_findOne :: "rls_session \<Rightarrow> id \<Rightarrow> catalog_db \<Rightarrow> (question_row \<times> question_row list \<times> condition_row list) result" where
  "question_findOne sess i db =
     as404OrThrow (bindr (find_shared sess qu_id qu_clientId i (filter (\<lambda>q. qu_parentQuestionId q = None) (kd_questions db)))
       (\<lambda>q. Inr (q, filter (\<lambda>v. shared_select sess (qu_clientId v) \<and> qu_parentQuestionId v = Some i) (kd_questions db),
          filter (\<lambda>c. shared_select sess (cd_clientId c) \<and> cd_questionId c = i) (kd_conditions db))))"

subsection \<open>Conditions\<close>

record condition_dto =
  xd_type :: condition_type
  xd_value :: "string list"

record condition_patch =
  xp_type :: "condition_type option"
  xp_value :: "string list option"

definition addCondition :: "rls_session \<Rightarrow> id \<Rightarrow> id \<Rightarrow> condition_dto \<Rightarrow> catalog_db \<Rightarrow> (condition_row \<times> catalog_db) result" where
  "addCondition sess newId questionId dto db =
     as404OrThrow
       (let row = set_question_condition_client_id (kd_questions db)
              \<lparr>cd_id = newId, cd_questionId = questionId, cd_type = xd_type dto, cd_value = xd_value dto, cd_clientId = None\<rparr>
        in if \<not> can_connect sess qu_id qu_clientId (kd_questions db) (Some questionId) then Inl (ServerError ''P2025'')
           else bindr (insert_shared sess cd_id cd_clientId row (kd_conditions db)) (\<lambda>rows. Inr (row, db\<lparr>kd_conditions := rows\<rparr>)))"

definition patch_condition :: "condition_patch \<Rightarrow> condition_row \<Rightarrow> condition_row" where
  "patch_condition dto c = c\<lparr>cd_type := nullish_or (xp_type dto) (cd_type c), cd_value := nullish_or (xp_value dto) (cd_value c)\<rparr>"

definition updateCondition :: "rls_session \<Rightarrow> id \<Rightarrow> condition_patch \<Rightarrow> catalog_db \<Rightarrow> (condition_row \<times> catalog_db) result" where
  "updateCondition sess i dto db =
     as404OrThrow (bindr (update_shared sess cd_id cd_clientId i (patch_condition dto) (kd_conditions db))
       (\<lambda>(row, rows). Inr (row, db\<lparr>kd_conditions := rows\<rparr>)))"

definition removeCondition :: "rls_session \<Rightarrow> id \<Rightarrow> catalog_db \<Rightarrow> (condition_row \<times> catalog_db) result" where
  "removeCondition sess i db =
     as404OrThrow (bindr (delete_shared sess cd_id cd_clientId i (kd_conditions db)) (\<lambda>(row, rows). Inr (row, db\<lparr>kd_conditions := rows\<rparr>)))"

subsection \<open>Requests\<close>

datatype catalog_op =
    CreateManufacturer id manufacturer_dto | UpdateManufacturer id manufacturer_patch | RemoveManufacturer id | GenericManufacturer id
  | CreateCategory id category_dto | UpdateCategory id category_patch | RemoveCategory id
  | CreateAnsi id ansi_dto | UpdateAnsi id ansi_patch | RemoveAnsi id
  | CreateProduct id product_dto | UpdateProduct id product_patch | RemoveProduct id
  | CreateQuestion time id question_dto | AddVariant time id id question_dto
  | AddProductQuestion time id id question_dto | AddCategoryQuestion time id id question_dto
  | UpdateQuestion id question_patch | UpdateProductQuestion id id question_patch | UpdateCategoryQuestion id id question_patch
  | DeleteQuestion id
  | AddCondition id id condition_dto | UpdateCondition id condition_patch | RemoveCondition id

definition committed :: "catalog_db \<Rightarrow> ('a \<times> catalog_db) result \<Rightarrow> catalog_db" where
  \<comment> \<open>a request that fails leaves the tables as they were\<close>
  "committed db r = (case r of Inl _ \<Rightarrow> db | Inr (_, db') \<Rightarrow> db')"

fun catalog_step :: "rls_session \<Rightarrow> tenant_db \<Rightarrow> catalog_op \<Rightarrow> catalog_db \<Rightarrow> catalog_db" where
  "catalog_step sess tdb (CreateManufacturer n dto) db = committed db (manufacturer_create sess tdb n dto db)"
| "catalog_step sess tdb (UpdateManufacturer i dto) db = committed db (manufacturer_update sess tdb i dto db)"
| "catalog_step sess tdb (RemoveManufacturer i) db = committed db (manufacturer_remove sess i db)"
| "catalog_step sess tdb (GenericManufacturer n) db = committed db (getOrCreateGeneric n db)"
| "catalog_step sess tdb (CreateCategory n dto) db = committed db (category_create sess tdb n dto db)"
| "catalog_step sess tdb (UpdateCategory i dto) db = committed db (category_update sess tdb i dto db)"
| "catalog_step sess tdb (RemoveCategory i) db = committed db (category_remove sess i db)"
| "catalog_step sess tdb (CreateAnsi n dto) db = committed db (ansi_create n dto db)"
| "catalog_step sess tdb (UpdateAnsi i dto) db = committed db (ansi_update i dto db)"
| "catalog_step sess tdb (RemoveAnsi i) db = committed db (ansi_remove i db)"
| "catalog_step sess tdb (CreateProduct n dto) db = committed db (product_create sess tdb n dto db)"
| "catalog_step sess tdb (UpdateProduct i dto) db = committed db (product_update sess tdb i dto db)"
| "catalog_step sess tdb (RemoveProduct i) db = committed db (product_remove sess i db)"
| "catalog_step sess tdb (CreateQuestion t n dto) db = committed db (question_create sess tdb t n dto db)"
| "catalog_step sess tdb (AddVariant t n p dto) db = committed db (addVariant sess tdb t n p dto db)"
| "catalog_step sess tdb (AddProductQuestion t n p dto) db = committed db (product_addQuestion sess tdb t n p dto db)"
| "catalog_step sess tdb (AddCategoryQuestion t n c dto) db = committed db (category_addQuestion sess tdb t n c dto db)"
| "catalog_step sess tdb (UpdateQuestion i dto) db = committed db (question_update sess tdb i dto db)"
| "catalog_step sess tdb (UpdateProductQuestion p i dto) db = committed db (product_updateQuestion sess tdb p i dto db)"
| "catalog_step sess tdb (UpdateCategoryQuestion c i dto) db = committed db (category_updateQuestion sess tdb c i dto db)"
| "catalog_step sess tdb (DeleteQuestion i) db = committed db (deleteQuestion sess i db)"
| "catalog_step sess tdb (AddCondition n q dto) db = committed db (addCondition sess n q dto db)"
| "catalog_step sess tdb (UpdateCondition i dto) db = committed db (updateCondition sess i dto db)"
| "catalog_step sess tdb (RemoveCondition i) db = committed db (removeCondition sess i db)"

fun catalog_run :: "(rls_session \<times> tenant_db \<times> catalog_op) list \<Rightarrow> catalog_db \<Rightarrow> catalog_db" where
  "catalog_run [] db = db"
| "catalog_run ((sess, tdb, op) # steps) db = catalog_run steps (catalog_step sess tdb op db)"

subsection \<open>References\<close>

text \<open>
  Every reference has a target, and the owners of a row and of what it refers to are related by \<open>R\<close>.
\<close>

definition refers ::
    "(id option \<Rightarrow> id option \<Rightarrow> bool) \<Rightarrow> ('r \<Rightarrow> id option) \<Rightarrow> ('r \<Rightarrow> id option) \<Rightarrow> ('t \<Rightarrow> id) \<Rightarrow> ('t \<Rightarrow> id option) \<Rightarrow> 'r list \<Rightarrow> 't list \<Rightarrow> bool" where
  "refers R ref own key town rows targets =
     list_all (\<lambda>r. case ref r of None \<Rightarrow> True | Some i \<Rightarrow> list_ex (\<lambda>t. key t = i \<and> R (own r) (town t)) targets) rows"

definition catalog_ok :: "(id option \<Rightarrow> id option \<Rightarrow> bool) \<Rightarrow> catalog_db \<Rightarrow> bool" where
  "catalog_ok R db \<longleftrightarrow>
     distinct (map mf_id (kd_manufacturers db)) \<and> distinct (map ct_id (kd_categories db)) \<and> distinct (map an_id (kd_ansi db))
     \<and> distinct (map pr_id (kd_products db)) \<and> distinct (map qu_id (kd_questions db)) \<and> distinct (map cd_id (kd_conditions db))
     \<and> refers R (\<lambda>p. Some (pr_manufacturerId p)) pr_clientId mf_id mf_clientId (kd_products db) (kd_manufacturers db)
     \<and> refers R (\<lambda>p. Some (pr_categoryId p)) pr_clientId ct_id ct_clientId (kd_products db) (kd_categories db)
     \<and> refers R cp_ansiCategoryId pr_clientId an_id (\<lambda>_. None) (kd_products db) (kd_ansi db)
     \<and> refers R cp_parentProductId pr_clientId pr_id pr_clientId (kd_products db) (kd_products db)
     \<and> refers R qu_productId qu_clientId pr_id pr_clientId (kd_questions db) (kd_products db)
     \<and> refers R qu_productCategoryId qu_clientId ct_id ct_clientId (kd_questions db) (kd_categories db)
     \<and> refers R qu_parentQuestionId qu_clientId qu_id qu_clientId (kd_questions db) (kd_questions db)
     \<and> refers R (\<lambda>c. Some (cd_questionId c)) cd_clientId qu_id qu_clientId (kd_conditions db) (kd_questions db)"

lemma refersI:
  "(\<And>r i. r \<in> set rows \<Longrightarrow> ref r = Some i \<Longrightarrow> \<exists>t\<in>set targets. key t = i \<and> R (own r) (town t)) \<Longrightarrow> refers R ref own key town rows targets"
  by (auto simp: refers_def list_all_iff list_ex_iff split: option.split)

lemma refersD:
  "refers R ref own key town rows targets \<Longrightarrow> r \<in> set rows \<Longrightarrow> ref r = Some i \<Longrightarrow> \<exists>t\<in>set targets. key t = i \<and> R (own r) (town t)"
  by (fastforce simp: refers_def list_all_iff list_ex_iff)

lemma refers_more_targets: "refers R ref own key town rows targets \<Longrightarrow> refers R ref own key town rows (targets @ extra)"
  by (rule refersI) (use refersD in fastforce)

lemma refers_new_row:
  assumes "refers R ref own key town rows targets" and "case ref row of None \<Rightarrow> True | Some i \<Rightarrow> \<exists>t\<in>set targets. key t = i \<and> R (own row) (town t)"
  shows "refers R ref own key town (rows @ [row]) targets"
proof (rule refersI)
  fix r i assume "r \<in> set (rows @ [row])" "ref r = Some i"
  then show "\<exists>t\<in>set targets. key t = i \<and> R (own r) (town t)" using refersD [OF assms(1)] assms(2) by auto
qed

lemma refers_targets_map:
  assumes "refers R ref own key town rows targets" and "\<And>t. t \<in> set targets \<Longrightarrow> key (g t) = key t"
    and "\<And>t ow. t \<in> set targets \<Longrightarrow> R ow (town t) \<Longrightarrow> R ow (town (g t))"
  shows "refers R ref own key town rows (map g targets)"
proof (rule refersI)
  fix r i assume "r \<in> set rows" "ref r = Some i"
  then obtain t where "t \<in> set targets" "key t = i" "R (own r) (town t)" using refersD [OF assms(1)] by blast
  then show "\<exists>t\<in>set (map g targets). key t = i \<and> R (own r) (town t)" using assms(2,3) by (intro bexI [of _ "g t"]) auto
qed

lemma refers_rows_map:
  assumes "refers R ref own key town rows targets"
    and "\<And>r. r \<in> set rows \<Longrightarrow> ref (g r) = ref r \<and> (\<forall>t. R (own r) t \<longrightarrow> R (own (g r)) t) \<or> ref (g r) = None
           \<or> (\<exists>t\<in>set targets. ref (g r) = Some (key t) \<and> R (own (g r)) (town t))"
  shows "refers R ref own key town (map g rows) targets"
proof (rule refersI)
  fix x i assume "x \<in> set (map g rows)" and ref: "ref x = Some i"
  then obtain r where r: "r \<in> set rows" "x = g r" by auto
  consider "ref (g r) = ref r \<and> (\<forall>t. R (own r) t \<longrightarrow> R (own (g r)) t)" | "ref (g r) = None"
    | "\<exists>t\<in>set targets. ref (g r) = Some (key t) \<and> R (own (g r)) (town t)" using assms(2) [OF r(1)] by argo
  then show "\<exists>t\<in>set targets. key t = i \<and> R (own x) (town t)"
    by cases (use refersD [OF assms(1) r(1)] ref r(2) in fastforce)+
qed

lemma refers_sub:
  assumes "refers R ref own key town rows targets" and "distinct (map key targets)" and "set rows' \<subseteq> set rows" and "set targets' \<subseteq> set targets"
    and "\<And>r. own (g r) = own r" and "\<And>r i. r \<in> set rows' \<Longrightarrow> ref (g r) = Some i \<Longrightarrow> ref r = Some i \<and> i \<in> key ` set targets'"
  shows "refers R ref own key town (map g rows') targets'"
proof (rule refersI)
  fix x i assume x: "x \<in> set (map g rows')" "ref x = Some i"
  then obtain r where r: "r \<in> set rows'" "x = g r" by auto
  have ref: "ref r = Some i" "i \<in> key ` set targets'" using assms(6) [OF r(1)] x(2) r(2) by auto
  obtain t where t: "t \<in> set targets" "key t = i" "R (own r) (town t)" using refersD [OF assms(1) _ ref(1)] r(1) assms(3) by blast
  obtain t' where t': "t' \<in> set targets'" "key t' = i" using ref(2) by auto
  have "t' = t" using t t' assms(2,4) by (metis distinct_map inj_onD subsetD)
  then show "\<exists>t\<in>set targets'. key t = i \<and> R (own x) (town t)" using t t' assms(5) r(2) by auto
qed

subsection \<open>Cascades\<close>

lemma prune_filter: "\<exists>P. prune key parent rows = filter P rows"
proof (induction key parent rows rule: prune.induct)
  case (1 key parent rows)
  let ?kept = "filter (\<lambda>r. case parent r of None \<Rightarrow> True | Some p \<Rightarrow> p \<in> key ` set rows) rows"
  show ?case
  proof (cases "length ?kept = length rows")
    case True
    then show ?thesis by (subst prune.simps) (auto simp: Let_def intro: exI [of _ "\<lambda>_. True"])
  next
    case False
    then obtain P where "prune key parent ?kept = filter P ?kept" using 1 by auto
    then show ?thesis using False by (subst prune.simps) (simp add: Let_def filter_filter, blast)
  qed
qed

lemma prune_parents: "r \<in> set (prune key parent rows) \<Longrightarrow> parent r = Some p \<Longrightarrow> p \<in> key ` set (prune key parent rows)"
proof (induction key parent rows rule: prune.induct)
  case (1 key parent rows)
  let ?kept = "filter (\<lambda>r. case parent r of None \<Rightarrow> True | Some p \<Rightarrow> p \<in> key ` set rows) rows"
  show ?case
  proof (cases "length ?kept = length rows")
    case True
    then have p: "prune key parent rows = rows" by (subst prune.simps) (simp add: Let_def)
    have "\<forall>r\<in>set rows. case parent r of None \<Rightarrow> True | Some p \<Rightarrow> p \<in> key ` set rows" using True by (metis (lifting) filter_True length_filter_less less_irrefl)
    then show ?thesis using 1(2,3) unfolding p by auto
  next
    case False
    then have p: "prune key parent rows = prune key parent ?kept" by (subst prune.simps) (simp add: Let_def)
    show ?thesis using 1(1) [OF HOL.refl False] 1(2,3) unfolding p by blast
  qed
qed

lemma prune_keeps:
  assumes "\<And>r p. r \<in> set rows \<Longrightarrow> Q r \<Longrightarrow> parent r = Some p \<Longrightarrow> \<exists>x\<in>set rows. key x = p \<and> Q x"
  shows "filter Q (prune key parent rows) = filter Q rows"
  using assms
proof (induction key parent rows rule: prune.induct)
  case (1 key parent rows)
  let ?kept = "filter (\<lambda>r. case parent r of None \<Rightarrow> True | Some p \<Rightarrow> p \<in> key ` set rows) rows"
  have mem: "r \<in> set ?kept" if "r \<in> set rows" "Q r" for r using 1(2) [OF that] that(1) by (auto split: option.split)
  have kept: "filter Q ?kept = filter Q rows" using mem by (auto simp: filter_filter intro!: filter_cong)
  show ?case
  proof (cases "length ?kept = length rows")
    case True
    then show ?thesis by (subst prune.simps) (simp add: Let_def)
  next
    case False
    have "filter Q (prune key parent ?kept) = filter Q ?kept"
    proof (rule 1(1) [OF HOL.refl False])
      fix r p assume r: "r \<in> set ?kept" "Q r" "parent r = Some p"
      then obtain x where "x \<in> set rows" "key x = p" "Q x" using 1(2) [of r p] by auto
      then show "\<exists>x\<in>set ?kept. key x = p \<and> Q x" using mem by blast
    qed
    then show ?thesis using False kept by (subst prune.simps) (simp add: Let_def)
  qed
qed


lemma keep_ref_Some: "keep_ref key targets i = Some k \<longleftrightarrow> i = Some k \<and> k \<in> key ` set targets"
  by (auto simp: keep_ref_def split: option.splits)

text \<open>A database is a part of another when each table is.\<close>

definition part_of :: "catalog_db \<Rightarrow> catalog_db \<Rightarrow> bool" where
  "part_of db db0 \<longleftrightarrow>
     (\<exists>P. kd_manufacturers db = filter P (kd_manufacturers db0)) \<and> (\<exists>P. kd_categories db = filter P (kd_categories db0))
     \<and> (\<exists>P. kd_ansi db = filter P (kd_ansi db0)) \<and> (\<exists>P. kd_products db = filter P (kd_products db0))
     \<and> (\<exists>P. kd_questions db = filter P (kd_questions db0)) \<and> kd_conditions db = kd_conditions db0"

lemma run_actions_tables:
  assumes "run_actions db = Inr db'"
  obtains ps qs where
    "ps = prune pr_id cp_parentProductId (filter (\<lambda>p. pr_manufacturerId p \<in> mf_id ` set (kd_manufacturers db) \<and> pr_categoryId p \<in> ct_id ` set (kd_categories db)) (kd_products db))"
    "qs = prune qu_id qu_parentQuestionId (kd_questions db)"
    "kd_products db' = map (\<lambda>p. p\<lparr>cp_ansiCategoryId := keep_ref an_id (kd_ansi db) (cp_ansiCategoryId p)\<rparr>) ps"
    "kd_questions db' = map (\<lambda>q. q\<lparr>qu_productId := keep_ref pr_id ps (qu_productId q), qu_productCategoryId := keep_ref ct_id (kd_categories db) (qu_productCategoryId q)\<rparr>) qs"
    "kd_conditions db' = filter (\<lambda>c. cd_questionId c \<in> qu_id ` set qs) (kd_conditions db)"
    "kd_manufacturers db' = kd_manufacturers db" "kd_categories db' = kd_categories db" "kd_ansi db' = kd_ansi db"
proof -
  have k: "keep_ref pr_id (map (\<lambda>p. p\<lparr>cp_ansiCategoryId := f p\<rparr>) xs) = keep_ref pr_id xs" for f xs
    by (rule ext) (auto simp: keep_ref_def image_iff split: option.split)
  have i: "qu_id ` set (map (\<lambda>q. q\<lparr>qu_productId := f q, qu_productCategoryId := h q\<rparr>) xs) = qu_id ` set xs" for f h xs
    by (auto simp: image_iff)
  show thesis by (rule that [OF HOL.refl HOL.refl]) (use assms in \<open>auto simp: run_actions_def Let_def k i simp del: set_map split: if_splits\<close>)
qed

lemma run_actions_ok:
  assumes ok: "catalog_ok R db0" and part: "part_of db db0" and run: "run_actions db = Inr db'"
  shows "catalog_ok R db'"
proof -
  obtain ps qs where
    ps: "ps = prune pr_id cp_parentProductId (filter (\<lambda>p. pr_manufacturerId p \<in> mf_id ` set (kd_manufacturers db) \<and> pr_categoryId p \<in> ct_id ` set (kd_categories db)) (kd_products db))"
    and qs: "qs = prune qu_id qu_parentQuestionId (kd_questions db)"
    and P: "kd_products db' = map (\<lambda>p. p\<lparr>cp_ansiCategoryId := keep_ref an_id (kd_ansi db) (cp_ansiCategoryId p)\<rparr>) ps" (is "_ = map ?h ps")
    and Q: "kd_questions db' = map (\<lambda>q. q\<lparr>qu_productId := keep_ref pr_id ps (qu_productId q), qu_productCategoryId := keep_ref ct_id (kd_categories db) (qu_productCategoryId q)\<rparr>) qs" (is "_ = map ?g qs")
    and C: "kd_conditions db' = filter (\<lambda>c. cd_questionId c \<in> qu_id ` set qs) (kd_conditions db)"
    and same: "kd_manufacturers db' = kd_manufacturers db" "kd_categories db' = kd_categories db" "kd_ansi db' = kd_ansi db" by (rule run_actions_tables [OF run])
  from part obtain M K A PP QQ where sub: "kd_manufacturers db = filter M (kd_manufacturers db0)" "kd_categories db = filter K (kd_categories db0)"
    "kd_ansi db = filter A (kd_ansi db0)" "kd_products db = filter PP (kd_products db0)" "kd_questions db = filter QQ (kd_questions db0)"
    "kd_conditions db = kd_conditions db0" by (auto simp: part_of_def)
  obtain F where F: "ps = filter F (filter (\<lambda>p. pr_manufacturerId p \<in> mf_id ` set (kd_manufacturers db) \<and> pr_categoryId p \<in> ct_id ` set (kd_categories db)) (kd_products db))"
    using prune_filter unfolding ps by blast
  obtain G where G: "qs = filter G (kd_questions db)" using prune_filter unfolding qs by blast
  obtain PF where psf: "ps = filter PF (kd_products db0)" using F unfolding sub(4) filter_filter by blast
  obtain QF where qsf: "qs = filter QF (kd_questions db0)" using G unfolding sub(5) filter_filter by blast
  have ok1: "distinct (map mf_id (kd_manufacturers db0))" "distinct (map ct_id (kd_categories db0))" "distinct (map an_id (kd_ansi db0))"
    "distinct (map pr_id (kd_products db0))" "distinct (map qu_id (kd_questions db0))" "distinct (map cd_id (kd_conditions db0))"
    using ok by (simp_all add: catalog_ok_def)
  have ok2: "refers R (\<lambda>p. Some (pr_manufacturerId p)) pr_clientId mf_id mf_clientId (kd_products db0) (kd_manufacturers db0)"
    "refers R (\<lambda>p. Some (pr_categoryId p)) pr_clientId ct_id ct_clientId (kd_products db0) (kd_categories db0)"
    "refers R cp_ansiCategoryId pr_clientId an_id (\<lambda>_. None) (kd_products db0) (kd_ansi db0)"
    "refers R cp_parentProductId pr_clientId pr_id pr_clientId (kd_products db0) (kd_products db0)"
    "refers R qu_productId qu_clientId pr_id pr_clientId (kd_questions db0) (kd_products db0)"
    "refers R qu_productCategoryId qu_clientId ct_id ct_clientId (kd_questions db0) (kd_categories db0)"
    "refers R qu_parentQuestionId qu_clientId qu_id qu_clientId (kd_questions db0) (kd_questions db0)"
    "refers R (\<lambda>c. Some (cd_questionId c)) cd_clientId qu_id qu_clientId (kd_conditions db0) (kd_questions db0)"
    using ok by (simp_all add: catalog_ok_def)
  have base: "pr_manufacturerId p \<in> mf_id ` set (kd_manufacturers db) \<and> pr_categoryId p \<in> ct_id ` set (kd_categories db)" if "p \<in> set ps" for p
    using that unfolding F by simp
  have parents: "i \<in> pr_id ` set ps" if "p \<in> set ps" "cp_parentProductId p = Some i" for p i
    using that unfolding ps by (rule prune_parents)
  have qparents: "i \<in> qu_id ` set qs" if "q \<in> set qs" "qu_parentQuestionId q = Some i" for q i
    using that unfolding qs by (rule prune_parents)
  have subP: "set ps \<subseteq> set (kd_products db0)" and subQ: "set qs \<subseteq> set (kd_questions db0)" by (auto simp: psf qsf)
  have subs: "set (kd_manufacturers db) \<subseteq> set (kd_manufacturers db0)" "set (kd_categories db) \<subseteq> set (kd_categories db0)" "set (kd_ansi db) \<subseteq> set (kd_ansi db0)"
    by (auto simp: sub)
  have keysP: "map pr_id (map ?h ps) = map pr_id ps" by simp
  have "refers R (\<lambda>p. Some (pr_manufacturerId p)) pr_clientId mf_id mf_clientId (map ?h ps) (kd_manufacturers db)"
    by (rule refers_sub [OF ok2(1) ok1(1) subP subs(1)]) (use base in auto)
  moreover have "refers R (\<lambda>p. Some (pr_categoryId p)) pr_clientId ct_id ct_clientId (map ?h ps) (kd_categories db)"
    by (rule refers_sub [OF ok2(2) ok1(2) subP subs(2)]) (use base in auto)
  moreover have "refers R cp_ansiCategoryId pr_clientId an_id (\<lambda>_. None) (map ?h ps) (kd_ansi db)"
    by (rule refers_sub [OF ok2(3) ok1(3) subP subs(3)]) (simp_all add: keep_ref_Some)
  moreover have "refers R cp_parentProductId pr_clientId pr_id pr_clientId (map ?h ps) (map ?h ps)"
    by (rule refers_targets_map, rule refers_sub [OF ok2(4) ok1(4) subP subP]) (use parents in auto)
  moreover have "refers R qu_productId qu_clientId pr_id pr_clientId (map ?g qs) (map ?h ps)"
    by (rule refers_targets_map, rule refers_sub [OF ok2(5) ok1(4) subQ subP]) (simp_all add: keep_ref_Some)
  moreover have "refers R qu_productCategoryId qu_clientId ct_id ct_clientId (map ?g qs) (kd_categories db)"
    by (rule refers_sub [OF ok2(6) ok1(2) subQ subs(2)]) (simp_all add: keep_ref_Some)
  moreover have "refers R qu_parentQuestionId qu_clientId qu_id qu_clientId (map ?g qs) (map ?g qs)"
    by (rule refers_targets_map, rule refers_sub [OF ok2(7) ok1(5) subQ subQ]) (use qparents in auto)
  moreover have "refers R (\<lambda>c. Some (cd_questionId c)) cd_clientId qu_id qu_clientId (map (\<lambda>c. c) (kd_conditions db')) (map ?g qs)"
    by (rule refers_targets_map, rule refers_sub [OF ok2(8) ok1(5) _ subQ]) (auto simp: C sub(6))
  moreover have "distinct (map pr_id (map ?h ps))" "distinct (map qu_id (map ?g qs))"
    using ok1(4,5) by (simp_all add: psf qsf distinct_map_filter comp_def)
  ultimately show ?thesis unfolding catalog_ok_def P Q same using ok1 by (simp add: sub C distinct_map_filter)
qed


subsection \<open>What the operations write\<close>

lemma insert_shared_Inr:
  "insert_shared sess key owner row rows = Inr rows' \<longleftrightarrow> rows' = rows @ [row] \<and> key row \<notin> key ` set rows \<and> shared_write sess (owner row)"
  by (auto simp: insert_shared_def)

lemma delete_shared_Inr:
  "delete_shared sess key owner i rows = Inr (r, rows') \<Longrightarrow>
     r \<in> set rows \<and> key r = i \<and> shared_write sess (owner r) \<and> rows' = filter (\<lambda>x. key x \<noteq> i) rows"
  by (auto simp: delete_shared_def dest!: find_by_SomeD split: option.splits)

definition rewritten :: "rls_session \<Rightarrow> ('r \<Rightarrow> id) \<Rightarrow> ('r \<Rightarrow> id option) \<Rightarrow> ('r \<Rightarrow> 'r) \<Rightarrow> ('r \<Rightarrow> 'r) \<Rightarrow> 'r list \<Rightarrow> bool" where
  \<comment> \<open>\<open>g\<close> changes rows only as \<open>f\<close> does, and only rows the session may write, before and after\<close>
  "rewritten sess key owner f g rows \<longleftrightarrow>
     (\<forall>x\<in>set rows. key (g x) = key x \<and> (g x = x \<or> g x = f x \<and> shared_write sess (owner x) \<and> shared_write sess (owner (f x))))"

lemma rewritten_keys: "rewritten sess key owner f g rows \<Longrightarrow> map key (map g rows) = map key rows"
  by (simp add: rewritten_def)

lemma update_shared_Inr:
  assumes "update_shared sess key owner i f rows = Inr (r', rows')" and "distinct (map key rows)" and "\<And>x. key (f x) = key x"
  shows "\<exists>g. rows' = map g rows \<and> rewritten sess key owner f g rows"
proof -
  from assms(1) obtain r where r: "r \<in> set rows" "key r = i" "shared_write sess (owner r)" "shared_write sess (owner (f r))"
    and rows': "rows' = map (\<lambda>x. if key x = i then f r else x) rows"
    by (auto simp: update_shared_def dest!: find_by_SomeD split: option.splits if_splits)
  have only: "x = r" if "x \<in> set rows" "key x = i" for x using that r(1,2) assms(2) by (metis distinct_map inj_onD)
  have "rows' = map (\<lambda>x. if key x = i then f x else x) rows" unfolding rows' by (rule map_cong [OF HOL.refl]) (use only in auto)
  moreover have "rewritten sess key owner f (\<lambda>x. if key x = i then f x else x) rows" unfolding rewritten_def using only assms(3) r(3,4) by auto
  ultimately show ?thesis by blast
qed

lemma connect_targetD: "can_connect sess key owner targets (Some i) \<Longrightarrow> \<exists>t\<in>set targets. key t = i \<and> shared_select sess (owner t)"
  by (auto simp: can_connect_def list_ex_iff)

lemma new_reference:
  assumes "can_connect ss key owner targets i" and "ss = sess \<or> owner = (\<lambda>_. None)"
  shows "i = None \<or> (\<exists>t\<in>set targets. i = Some (key t) \<and> (shared_select sess (owner t) \<or> owner t = None))"
  using assms by (cases i) (auto simp: can_connect_def list_ex_iff)

lemma part_of_removal:
  "part_of (db\<lparr>kd_manufacturers := filter P (kd_manufacturers db)\<rparr>) db" "part_of (db\<lparr>kd_categories := filter P2 (kd_categories db)\<rparr>) db"
  "part_of (db\<lparr>kd_ansi := filter P3 (kd_ansi db)\<rparr>) db" "part_of (db\<lparr>kd_products := filter P4 (kd_products db)\<rparr>) db"
  "part_of (db\<lparr>kd_questions := filter P5 (kd_questions db)\<rparr>) db"
proof -
  have t: "\<exists>P. xs = filter P xs" for xs :: "'x list" by (rule exI [of _ "\<lambda>_. True"]) simp
  show "part_of (db\<lparr>kd_manufacturers := filter P (kd_manufacturers db)\<rparr>) db" "part_of (db\<lparr>kd_categories := filter P2 (kd_categories db)\<rparr>) db"
    "part_of (db\<lparr>kd_ansi := filter P3 (kd_ansi db)\<rparr>) db" "part_of (db\<lparr>kd_products := filter P4 (kd_products db)\<rparr>) db"
    "part_of (db\<lparr>kd_questions := filter P5 (kd_questions db)\<rparr>) db"
    unfolding part_of_def by (auto intro: t)
qed

lemma committed_preserves: "P db \<Longrightarrow> (\<And>r db'. res = Inr (r, db') \<Longrightarrow> P db') \<Longrightarrow> P (committed db res)"
  by (auto simp: committed_def split: sum.splits prod.splits)

lemma patch_keys [simp]:
  "mf_id (patch_manufacturer md m) = mf_id m" "ct_id (patch_category td c) = ct_id c" "an_id (patch_ansi nd a) = an_id a"
  "pr_id (patch_product pd p) = pr_id p" "qu_id (patch_question product category zd q) = qu_id q" "cd_id (patch_condition xd x) = cd_id x"
  "cd_questionId (patch_condition xd x) = cd_questionId x" "cd_clientId (patch_condition xd x) = cd_clientId x"
  by (simp_all add: patch_manufacturer_def patch_category_def patch_ansi_def patch_product_def patch_question_def patch_condition_def)

text \<open>
  The contract between a session's policies and the references of the catalogue: what the session may write can refer
  to what it is shown, and the owners it may write for are alike.
\<close>

locale reference_policy =
  fixes R :: "id option \<Rightarrow> id option \<Rightarrow> bool" and sess :: rls_session
  assumes writes_shown: "shared_write sess ow \<Longrightarrow> shared_select sess t \<Longrightarrow> R ow t"
    and owners_alike: "shared_write sess ow \<Longrightarrow> shared_write sess ow' \<Longrightarrow> R x ow = R x ow' \<and> R ow x = R ow' x"
    and shared_target: "R ow None"
begin

lemma updated_target:
  assumes "refers R ref own key town rows targets" and g: "rewritten sess key town f g targets"
  shows "refers R ref own key town rows (map g targets)"
proof (rule refers_targets_map [OF assms(1)])
  fix t ow assume t: "t \<in> set targets"
  show "key (g t) = key t" using g t by (simp add: rewritten_def)
  assume R: "R ow (town t)"
  have "g t = t \<or> g t = f t \<and> shared_write sess (town t) \<and> shared_write sess (town (f t))" using g t by (simp add: rewritten_def)
  then show "R ow (town (g t))" using owners_alike [of "town t" "town (f t)" ow] R by auto
qed

lemma updated_row:
  assumes old: "refers R ref own key town rows targets" and g: "rewritten sess rkey own f g rows"
    and f: "\<And>x. ref (f x) = ref x \<or> ref (f x) = None \<or> (\<exists>t\<in>set targets. ref (f x) = Some (key t) \<and> (shared_select sess (town t) \<or> town t = None))"
  shows "refers R ref own key town (map g rows) targets"
proof (rule refers_rows_map [OF old])
  fix r assume r: "r \<in> set rows"
  consider "g r = r" | "g r = f r" "shared_write sess (own r)" "shared_write sess (own (f r))" using g r by (auto simp: rewritten_def)
  then show "ref (g r) = ref r \<and> (\<forall>t. R (own r) t \<longrightarrow> R (own (g r)) t) \<or> ref (g r) = None \<or> (\<exists>t\<in>set targets. ref (g r) = Some (key t) \<and> R (own (g r)) (town t))"
  proof cases
    case 2
    then show ?thesis using f [of r] owners_alike writes_shown shared_target by (metis (lifting))
  qed simp
qed

lemma connected_target:
  assumes "can_connect sess key town targets i" and "shared_write sess ow"
  shows "case i of None \<Rightarrow> True | Some k \<Rightarrow> \<exists>t\<in>set targets. key t = k \<and> R ow (town t)"
  using assms writes_shown by (auto simp: can_connect_def list_ex_iff split: option.splits)

lemma connected_ansi:
  assumes "can_connect Bypass key (\<lambda>_. None) targets i"
  shows "case i of None \<Rightarrow> True | Some k \<Rightarrow> \<exists>t\<in>set targets. key t = k \<and> R ow None"
  using assms shared_target by (auto simp: can_connect_def list_ex_iff split: option.splits)

lemma manufacturers_ok:
  assumes ok: "catalog_ok R db"
  shows "insert_shared ss mf_id mf_clientId row (kd_manufacturers db) = Inr rows \<Longrightarrow> catalog_ok R (db\<lparr>kd_manufacturers := rows\<rparr>)"
    and "update_shared sess mf_id mf_clientId i (patch_manufacturer dto) (kd_manufacturers db) = Inr (r, rows) \<Longrightarrow> catalog_ok R (db\<lparr>kd_manufacturers := rows\<rparr>)"
proof -
  show "catalog_ok R (db\<lparr>kd_manufacturers := rows\<rparr>)" if "insert_shared ss mf_id mf_clientId row (kd_manufacturers db) = Inr rows"
    using ok that by (simp add: catalog_ok_def insert_shared_Inr refers_more_targets)
  show "catalog_ok R (db\<lparr>kd_manufacturers := rows\<rparr>)"
    if u: "update_shared sess mf_id mf_clientId i (patch_manufacturer dto) (kd_manufacturers db) = Inr (r, rows)"
  proof -
    have d: "distinct (map mf_id (kd_manufacturers db))" using ok by (simp add: catalog_ok_def)
    obtain g where g: "rows = map g (kd_manufacturers db)" and w: "rewritten sess mf_id mf_clientId (patch_manufacturer dto) g (kd_manufacturers db)"
      using update_shared_Inr [OF u d, simplified] by blast
    have "map mf_id rows = map mf_id (kd_manufacturers db)" unfolding g by (rule rewritten_keys [OF w])
    moreover have "refers R (\<lambda>p. Some (pr_manufacturerId p)) pr_clientId mf_id mf_clientId (kd_products db) rows"
      unfolding g by (rule updated_target [OF _ w]) (use ok in \<open>simp add: catalog_ok_def\<close>)
    ultimately show ?thesis using ok by (simp add: catalog_ok_def)
  qed
qed

lemma categories_ok:
  assumes ok: "catalog_ok R db"
  shows "insert_shared ss ct_id ct_clientId row (kd_categories db) = Inr rows \<Longrightarrow> catalog_ok R (db\<lparr>kd_categories := rows\<rparr>)"
    and "update_shared sess ct_id ct_clientId i (patch_category dto) (kd_categories db) = Inr (r, rows) \<Longrightarrow> catalog_ok R (db\<lparr>kd_categories := rows\<rparr>)"
proof -
  show "catalog_ok R (db\<lparr>kd_categories := rows\<rparr>)" if "insert_shared ss ct_id ct_clientId row (kd_categories db) = Inr rows"
    using ok that by (simp add: catalog_ok_def insert_shared_Inr refers_more_targets)
  show "catalog_ok R (db\<lparr>kd_categories := rows\<rparr>)"
    if u: "update_shared sess ct_id ct_clientId i (patch_category dto) (kd_categories db) = Inr (r, rows)"
  proof -
    have d: "distinct (map ct_id (kd_categories db))" using ok by (simp add: catalog_ok_def)
    obtain g where g: "rows = map g (kd_categories db)" and w: "rewritten sess ct_id ct_clientId (patch_category dto) g (kd_categories db)"
      using update_shared_Inr [OF u d, simplified] by blast
    have "map ct_id rows = map ct_id (kd_categories db)" unfolding g by (rule rewritten_keys [OF w])
    moreover have "refers R (\<lambda>p. Some (pr_categoryId p)) pr_clientId ct_id ct_clientId (kd_products db) rows"
      unfolding g by (rule updated_target [OF _ w]) (use ok in \<open>simp add: catalog_ok_def\<close>)
    moreover have "refers R qu_productCategoryId qu_clientId ct_id ct_clientId (kd_questions db) rows"
      unfolding g by (rule updated_target [OF _ w]) (use ok in \<open>simp add: catalog_ok_def\<close>)
    ultimately show ?thesis using ok by (simp add: catalog_ok_def)
  qed
qed

lemma ansi_ok:
  assumes ok: "catalog_ok R db"
  shows "insert_shared ss an_id (\<lambda>_. None) row (kd_ansi db) = Inr rows \<Longrightarrow> catalog_ok R (db\<lparr>kd_ansi := rows\<rparr>)"
    and "update_shared Bypass an_id (\<lambda>_. None) i (patch_ansi dto) (kd_ansi db) = Inr (r, rows) \<Longrightarrow> catalog_ok R (db\<lparr>kd_ansi := rows\<rparr>)"
proof -
  show "catalog_ok R (db\<lparr>kd_ansi := rows\<rparr>)" if "insert_shared ss an_id (\<lambda>_. None) row (kd_ansi db) = Inr rows"
    using ok that by (simp add: catalog_ok_def insert_shared_Inr refers_more_targets)
  show "catalog_ok R (db\<lparr>kd_ansi := rows\<rparr>)" if u: "update_shared Bypass an_id (\<lambda>_. None) i (patch_ansi dto) (kd_ansi db) = Inr (r, rows)"
  proof -
    have d: "distinct (map an_id (kd_ansi db))" using ok by (simp add: catalog_ok_def)
    obtain g where g: "rows = map g (kd_ansi db)" and w: "rewritten Bypass an_id (\<lambda>_. None) (patch_ansi dto) g (kd_ansi db)"
      using update_shared_Inr [OF u d, simplified] by blast
    have "map an_id rows = map an_id (kd_ansi db)" unfolding g by (rule rewritten_keys [OF w])
    moreover have "refers R cp_ansiCategoryId pr_clientId an_id (\<lambda>_. None) (kd_products db) rows"
      unfolding g by (rule refers_targets_map) (use ok w in \<open>simp_all add: catalog_ok_def rewritten_def\<close>)
    ultimately show ?thesis using ok by (simp add: catalog_ok_def)
  qed
qed

lemma conditions_ok:
  assumes ok: "catalog_ok R db"
  shows "insert_shared sess cd_id cd_clientId row (kd_conditions db) = Inr rows \<Longrightarrow>
      can_connect sess qu_id qu_clientId (kd_questions db) (Some (cd_questionId row)) \<Longrightarrow> catalog_ok R (db\<lparr>kd_conditions := rows\<rparr>)"
    and "update_shared sess cd_id cd_clientId i (patch_condition dto) (kd_conditions db) = Inr (r, rows) \<Longrightarrow> catalog_ok R (db\<lparr>kd_conditions := rows\<rparr>)"
    and "catalog_ok R (db\<lparr>kd_conditions := filter P (kd_conditions db)\<rparr>)"
proof -
  show "catalog_ok R (db\<lparr>kd_conditions := rows\<rparr>)" if "insert_shared sess cd_id cd_clientId row (kd_conditions db) = Inr rows"
    "can_connect sess qu_id qu_clientId (kd_questions db) (Some (cd_questionId row))"
    using ok that connected_target [OF that(2)] by (auto simp: catalog_ok_def insert_shared_Inr intro!: refers_new_row)
  show "catalog_ok R (db\<lparr>kd_conditions := rows\<rparr>)" if u: "update_shared sess cd_id cd_clientId i (patch_condition dto) (kd_conditions db) = Inr (r, rows)"
  proof -
    have d: "distinct (map cd_id (kd_conditions db))" using ok by (simp add: catalog_ok_def)
    obtain g where g: "rows = map g (kd_conditions db)" and w: "rewritten sess cd_id cd_clientId (patch_condition dto) g (kd_conditions db)"
      using update_shared_Inr [OF u d, simplified] by blast
    have "map cd_id rows = map cd_id (kd_conditions db)" unfolding g by (rule rewritten_keys [OF w])
    moreover have "refers R (\<lambda>c. Some (cd_questionId c)) cd_clientId qu_id qu_clientId rows (kd_questions db)"
      unfolding g by (rule updated_row [OF _ w]) (use ok in \<open>simp_all add: catalog_ok_def\<close>)
    ultimately show ?thesis using ok by (simp add: catalog_ok_def)
  qed
  show "catalog_ok R (db\<lparr>kd_conditions := filter P (kd_conditions db)\<rparr>)"
    using ok by (simp add: catalog_ok_def distinct_map_filter) (auto simp: refers_def list_all_iff)
qed

lemma products_ok:
  assumes ok: "catalog_ok R db"
  shows "insert_shared sess pr_id pr_clientId row (kd_products db) = Inr rows \<Longrightarrow>
      product_connects sess tdb db (Some (pr_manufacturerId row)) (Some (pr_categoryId row)) (cp_parentProductId row) (cp_ansiCategoryId row) c \<Longrightarrow>
      catalog_ok R (db\<lparr>kd_products := rows\<rparr>)"
    and "update_shared sess pr_id pr_clientId i (patch_product dto) (kd_products db) = Inr (r, rows) \<Longrightarrow>
      product_connects sess tdb db (pp_manufacturerId dto) (pp_categoryId dto) (pp_parentProductId dto) (connected (pp_ansiCategory dto)) c \<Longrightarrow>
      catalog_ok R (db\<lparr>kd_products := rows\<rparr>)"
proof -
  show "catalog_ok R (db\<lparr>kd_products := rows\<rparr>)" if ins: "insert_shared sess pr_id pr_clientId row (kd_products db) = Inr rows"
    and con: "product_connects sess tdb db (Some (pr_manufacturerId row)) (Some (pr_categoryId row)) (cp_parentProductId row) (cp_ansiCategoryId row) c"
  proof -
    have rows: "rows = kd_products db @ [row]" and new: "pr_id row \<notin> pr_id ` set (kd_products db)" and w: "shared_write sess (pr_clientId row)"
      using ins by (simp_all add: insert_shared_Inr)
    have con': "can_connect sess mf_id mf_clientId (kd_manufacturers db) (Some (pr_manufacturerId row))"
      "can_connect sess ct_id ct_clientId (kd_categories db) (Some (pr_categoryId row))"
      "can_connect sess pr_id pr_clientId (kd_products db) (cp_parentProductId row)"
      "can_connect Bypass an_id (\<lambda>_. None) (kd_ansi db) (cp_ansiCategoryId row)"
      using con by (simp_all add: product_connects_def)
    note t = connected_target [OF con'(1) w] connected_target [OF con'(2) w] connected_target [OF con'(3) w] connected_ansi [OF con'(4), of "pr_clientId row"]
    show ?thesis using ok new t by (auto simp: catalog_ok_def rows intro!: refers_more_targets refers_new_row)
  qed
  show "catalog_ok R (db\<lparr>kd_products := rows\<rparr>)" if u: "update_shared sess pr_id pr_clientId i (patch_product dto) (kd_products db) = Inr (r, rows)"
    and con: "product_connects sess tdb db (pp_manufacturerId dto) (pp_categoryId dto) (pp_parentProductId dto) (connected (pp_ansiCategory dto)) c"
  proof -
    have d: "distinct (map pr_id (kd_products db))" using ok by (simp add: catalog_ok_def)
    obtain g where g: "rows = map g (kd_products db)" and w: "rewritten sess pr_id pr_clientId (patch_product dto) g (kd_products db)"
      using update_shared_Inr [OF u d, simplified] by blast
    have con': "can_connect sess mf_id mf_clientId (kd_manufacturers db) (pp_manufacturerId dto)"
      "can_connect sess ct_id ct_clientId (kd_categories db) (pp_categoryId dto)"
      "can_connect sess pr_id pr_clientId (kd_products db) (pp_parentProductId dto)"
      "can_connect Bypass an_id (\<lambda>_. None) (kd_ansi db) (connected (pp_ansiCategory dto))"
      using con by (simp_all add: product_connects_def)
    note n = new_reference [OF con'(1), of sess, simplified] new_reference [OF con'(2), of sess, simplified] new_reference [OF con'(3), of sess, simplified]
      new_reference [OF con'(4), of sess, simplified]
    have "map pr_id rows = map pr_id (kd_products db)" unfolding g by (rule rewritten_keys [OF w])
    moreover have "refers R (\<lambda>p. Some (pr_manufacturerId p)) pr_clientId mf_id mf_clientId rows (kd_manufacturers db)"
      unfolding g by (rule updated_row [OF _ w]) (use ok n(1) in \<open>auto simp: catalog_ok_def patch_product_def nullish_or_def split: option.splits\<close>)
    moreover have "refers R (\<lambda>p. Some (pr_categoryId p)) pr_clientId ct_id ct_clientId rows (kd_categories db)"
      unfolding g by (rule updated_row [OF _ w]) (use ok n(2) in \<open>auto simp: catalog_ok_def patch_product_def nullish_or_def split: option.splits\<close>)
    moreover have "refers R cp_ansiCategoryId pr_clientId an_id (\<lambda>_. None) rows (kd_ansi db)"
      unfolding g by (rule updated_row [OF _ w]) (use ok n(4) in \<open>auto simp: catalog_ok_def patch_product_def nullish_or_def connected_def split: option.splits\<close>)
    moreover have "refers R cp_parentProductId pr_clientId pr_id pr_clientId rows rows"
      unfolding g by (rule updated_target [OF updated_row [OF _ w] w]) (use ok n(3) in \<open>auto simp: catalog_ok_def patch_product_def split: option.splits\<close>)
    moreover have "refers R qu_productId qu_clientId pr_id pr_clientId (kd_questions db) rows"
      unfolding g by (rule updated_target [OF _ w]) (use ok in \<open>simp add: catalog_ok_def\<close>)
    ultimately show ?thesis using ok by (simp add: catalog_ok_def)
  qed
qed

lemma questions_ok:
  assumes ok: "catalog_ok R db"
  shows "insert_shared sess qu_id qu_clientId row (kd_questions db) = Inr rows \<Longrightarrow>
      question_connects sess tdb db (qu_productId row) (qu_productCategoryId row) (qu_parentQuestionId row) c \<Longrightarrow> catalog_ok R (db\<lparr>kd_questions := rows\<rparr>)"
    and "update_shared sess qu_id qu_clientId i (patch_question product category dto) (kd_questions db) = Inr (r, rows) \<Longrightarrow>
      question_connects sess tdb db product category (zp_parentQuestionId dto) c \<Longrightarrow> catalog_ok R (db\<lparr>kd_questions := rows\<rparr>)"
proof -
  show "catalog_ok R (db\<lparr>kd_questions := rows\<rparr>)" if ins: "insert_shared sess qu_id qu_clientId row (kd_questions db) = Inr rows"
    and con: "question_connects sess tdb db (qu_productId row) (qu_productCategoryId row) (qu_parentQuestionId row) c"
  proof -
    have rows: "rows = kd_questions db @ [row]" and new: "qu_id row \<notin> qu_id ` set (kd_questions db)" and w: "shared_write sess (qu_clientId row)"
      using ins by (simp_all add: insert_shared_Inr)
    have con': "can_connect sess pr_id pr_clientId (kd_products db) (qu_productId row)"
      "can_connect sess ct_id ct_clientId (kd_categories db) (qu_productCategoryId row)"
      "can_connect sess qu_id qu_clientId (kd_questions db) (qu_parentQuestionId row)"
      using con by (simp_all add: question_connects_def)
    note t = connected_target [OF con'(1) w] connected_target [OF con'(2) w] connected_target [OF con'(3) w]
    show ?thesis using ok new t by (auto simp: catalog_ok_def rows intro!: refers_more_targets refers_new_row)
  qed
  show "catalog_ok R (db\<lparr>kd_questions := rows\<rparr>)"
    if u: "update_shared sess qu_id qu_clientId i (patch_question product category dto) (kd_questions db) = Inr (r, rows)"
    and con: "question_connects sess tdb db product category (zp_parentQuestionId dto) c"
  proof -
    have d: "distinct (map qu_id (kd_questions db))" using ok by (simp add: catalog_ok_def)
    obtain g where g: "rows = map g (kd_questions db)" and w: "rewritten sess qu_id qu_clientId (patch_question product category dto) g (kd_questions db)"
      using update_shared_Inr [OF u d, simplified] by blast
    have con': "can_connect sess pr_id pr_clientId (kd_products db) product" "can_connect sess ct_id ct_clientId (kd_categories db) category"
      "can_connect sess qu_id qu_clientId (kd_questions db) (zp_parentQuestionId dto)"
      using con by (simp_all add: question_connects_def)
    note n = new_reference [OF con'(1), of sess, simplified] new_reference [OF con'(2), of sess, simplified] new_reference [OF con'(3), of sess, simplified]
    have "map qu_id rows = map qu_id (kd_questions db)" unfolding g by (rule rewritten_keys [OF w])
    moreover have "refers R qu_productId qu_clientId pr_id pr_clientId rows (kd_products db)"
      unfolding g by (rule updated_row [OF _ w]) (use ok n(1) in \<open>auto simp: catalog_ok_def patch_question_def split: option.splits\<close>)
    moreover have "refers R qu_productCategoryId qu_clientId ct_id ct_clientId rows (kd_categories db)"
      unfolding g by (rule updated_row [OF _ w]) (use ok n(2) in \<open>auto simp: catalog_ok_def patch_question_def split: option.splits\<close>)
    moreover have "refers R qu_parentQuestionId qu_clientId qu_id qu_clientId rows rows"
      unfolding g by (rule updated_target [OF updated_row [OF _ w] w]) (use ok n(3) in \<open>auto simp: catalog_ok_def patch_question_def split: option.splits\<close>)
    moreover have "refers R (\<lambda>c. Some (cd_questionId c)) cd_clientId qu_id qu_clientId (kd_conditions db) rows"
      unfolding g by (rule updated_target [OF _ w]) (use ok in \<open>simp add: catalog_ok_def\<close>)
    ultimately show ?thesis using ok by (simp add: catalog_ok_def)
  qed
qed

lemma create_question_ok: "catalog_ok R db \<Longrightarrow> create_question sess tdb now n product category parent dto db = Inr (r, db') \<Longrightarrow> catalog_ok R db'"
  by (auto simp: create_question_def Let_def bindr_Inr_iff split: if_splits intro!: questions_ok(1))

lemma update_question_ok: "catalog_ok R db \<Longrightarrow> update_question sess tdb i product category dto db = Inr (r, db') \<Longrightarrow> catalog_ok R db'"
  by (auto simp: update_question_def bindr_Inr_iff split: if_splits prod.splits intro!: questions_ok(2))

lemma manufacturer_create_ok: "catalog_ok R db \<Longrightarrow> manufacturer_create sess tdb n dto db = Inr (r, db') \<Longrightarrow> catalog_ok R db'"
  by (auto simp: manufacturer_create_def bindr_Inr_iff Let_def split: if_splits prod.splits option.splits intro!: manufacturers_ok(1))

lemma manufacturer_update_ok: "catalog_ok R db \<Longrightarrow> manufacturer_update sess tdb i dto db = Inr (r, db') \<Longrightarrow> catalog_ok R db'"
  by (auto simp: manufacturer_update_def bindr_Inr_iff Let_def split: if_splits prod.splits option.splits intro!: manufacturers_ok(2))

lemma getOrCreateGeneric_ok: "catalog_ok R db \<Longrightarrow> getOrCreateGeneric n db = Inr (r, db') \<Longrightarrow> catalog_ok R db'"
  by (auto simp: getOrCreateGeneric_def bindr_Inr_iff Let_def split: if_splits prod.splits option.splits intro!: manufacturers_ok(1))

lemma category_create_ok: "catalog_ok R db \<Longrightarrow> category_create sess tdb n dto db = Inr (r, db') \<Longrightarrow> catalog_ok R db'"
  by (auto simp: category_create_def bindr_Inr_iff Let_def split: if_splits prod.splits option.splits intro!: categories_ok(1))

lemma category_update_ok: "catalog_ok R db \<Longrightarrow> category_update sess tdb i dto db = Inr (r, db') \<Longrightarrow> catalog_ok R db'"
  by (auto simp: category_update_def bindr_Inr_iff Let_def split: if_splits prod.splits option.splits intro!: categories_ok(2))

lemma ansi_create_ok: "catalog_ok R db \<Longrightarrow> ansi_create n dto db = Inr (r, db') \<Longrightarrow> catalog_ok R db'"
  by (auto simp: ansi_create_def bindr_Inr_iff Let_def split: if_splits prod.splits option.splits intro!: ansi_ok(1))

lemma ansi_update_ok: "catalog_ok R db \<Longrightarrow> ansi_update i dto db = Inr (r, db') \<Longrightarrow> catalog_ok R db'"
  by (auto simp: ansi_update_def bindr_Inr_iff Let_def split: if_splits prod.splits option.splits intro!: ansi_ok(2))

lemma product_create_ok: "catalog_ok R db \<Longrightarrow> product_create sess tdb n dto db = Inr (r, db') \<Longrightarrow> catalog_ok R db'"
  by (auto simp: product_create_def bindr_Inr_iff Let_def split: if_splits prod.splits option.splits intro!: products_ok(1))

lemma product_update_ok: "catalog_ok R db \<Longrightarrow> product_update sess tdb i dto db = Inr (r, db') \<Longrightarrow> catalog_ok R db'"
  by (auto simp: product_update_def bindr_Inr_iff Let_def split: if_splits prod.splits option.splits intro!: products_ok(2))

lemma addCondition_ok: "catalog_ok R db \<Longrightarrow> addCondition sess n q dto db = Inr (r, db') \<Longrightarrow> catalog_ok R db'"
  by (auto simp: addCondition_def bindr_Inr_iff Let_def split: if_splits prod.splits option.splits intro!: conditions_ok(1))

lemma updateCondition_ok: "catalog_ok R db \<Longrightarrow> updateCondition sess i dto db = Inr (r, db') \<Longrightarrow> catalog_ok R db'"
  by (auto simp: updateCondition_def bindr_Inr_iff Let_def split: if_splits prod.splits option.splits intro!: conditions_ok(2))

lemma removeCondition_ok: "catalog_ok R db \<Longrightarrow> removeCondition sess i db = Inr (r, db') \<Longrightarrow> catalog_ok R db'"
  by (auto simp: removeCondition_def bindr_Inr_iff Let_def dest!: delete_shared_Inr split: if_splits prod.splits option.splits intro!: conditions_ok(3))

lemma removal_ok:
  assumes ok: "catalog_ok R db"
  shows "manufacturer_remove sess i db = Inr (m, db') \<Longrightarrow> catalog_ok R db'" and "category_remove sess i db = Inr (c, db') \<Longrightarrow> catalog_ok R db'"
    and "ansi_remove i db = Inr (a, db') \<Longrightarrow> catalog_ok R db'" and "product_remove sess i db = Inr (p, db') \<Longrightarrow> catalog_ok R db'"
    and "deleteQuestion sess i db = Inr (q, db') \<Longrightarrow> catalog_ok R db'"
proof -
  have run: "run_actions db1 = Inr db' \<Longrightarrow> part_of db1 db \<Longrightarrow> catalog_ok R db'" for db1 by (rule run_actions_ok [OF ok])
  show "manufacturer_remove sess i db = Inr (m, db') \<Longrightarrow> catalog_ok R db'"
    by (auto simp: manufacturer_remove_def bindr_Inr_iff dest!: delete_shared_Inr elim!: run intro: part_of_removal)
  show "category_remove sess i db = Inr (c, db') \<Longrightarrow> catalog_ok R db'"
    by (auto simp: category_remove_def bindr_Inr_iff dest!: delete_shared_Inr elim!: run intro: part_of_removal)
  show "ansi_remove i db = Inr (a, db') \<Longrightarrow> catalog_ok R db'"
    by (auto simp: ansi_remove_def bindr_Inr_iff dest!: delete_shared_Inr elim!: run intro: part_of_removal)
  show "product_remove sess i db = Inr (p, db') \<Longrightarrow> catalog_ok R db'"
    by (auto simp: product_remove_def bindr_Inr_iff dest!: delete_shared_Inr elim!: run intro: part_of_removal)
  show "deleteQuestion sess i db = Inr (q, db') \<Longrightarrow> catalog_ok R db'"
    by (auto simp: deleteQuestion_def bindr_Inr_iff dest!: delete_shared_Inr elim!: run intro: part_of_removal)
qed

lemma question_ops_ok:
  assumes ok: "catalog_ok R db"
    and "question_create sess tdb t n zd db = Inr (r, db') \<or> addVariant sess tdb t n i zd db = Inr (r, db')
      \<or> product_addQuestion sess tdb t n i zd db = Inr (r, db') \<or> category_addQuestion sess tdb t n i zd db = Inr (r, db')
      \<or> question_update sess tdb i zp db = Inr (r, db') \<or> product_updateQuestion sess tdb p i zp db = Inr (r, db') \<or> category_updateQuestion sess tdb p i zp db = Inr (r, db')"
  shows "catalog_ok R db'"
  using assms(2) create_question_ok [OF ok] update_question_ok [OF ok]
  by (auto simp: question_create_def addVariant_def product_addQuestion_def category_addQuestion_def question_update_def product_updateQuestion_def category_updateQuestion_def)

lemma step_ok:
  assumes ok: "catalog_ok R db"
  shows "catalog_ok R (catalog_step sess tdb op db)"
proof -
  note writes = manufacturer_create_ok manufacturer_update_ok getOrCreateGeneric_ok category_create_ok category_update_ok ansi_create_ok ansi_update_ok
    product_create_ok product_update_ok addCondition_ok updateCondition_ok removeCondition_ok
  show ?thesis
    by (cases op) (simp_all, (rule committed_preserves [of "catalog_ok R", OF ok],
      (erule writes [OF ok] | erule removal_ok [OF ok] | (rule question_ops_ok [OF ok], blast)))+)
qed

end

interpretation any_session: reference_policy "\<lambda>_ _. True" sess for sess
  by unfold_locales simp_all

definition own_or_shared :: "id option \<Rightarrow> id option \<Rightarrow> bool" where
  "own_or_shared ow t = (t = None \<or> t = ow)"

lemma tenant_writes: "shared_write (Tenant ctx) ow \<longleftrightarrow> ow = Some (rls_clientId ctx) \<or> rls_scope ctx \<in> {SYSTEM, GLOBAL} \<and> ow = None"
  by (auto simp: shared_write_def validate_client_opt_def validate_client_def split: option.splits)

lemma tenant_reads: "shared_select (Tenant ctx) ow \<longleftrightarrow> ow = None \<or> ow = Some (rls_clientId ctx)"
  by (auto simp: shared_select_def validate_client_opt_def validate_client_def split: option.splits)

interpretation tenant_session: reference_policy "\<lambda>ow t. rls_scope ctx \<in> {SYSTEM, GLOBAL} \<or> own_or_shared ow t" "Tenant ctx" for ctx
  by unfold_locales (auto simp: tenant_writes tenant_reads own_or_shared_def)

subsection \<open>Rows of other clients\<close>

definition foreign_of :: "id \<Rightarrow> ('r \<Rightarrow> id option) \<Rightarrow> 'r list \<Rightarrow> 'r list" where
  "foreign_of C own rows = filter (\<lambda>r. own r \<noteq> Some C) rows"

definition foreign_rows :: "id \<Rightarrow> catalog_db \<Rightarrow> manufacturer_row list \<times> product_category_row list \<times> catalog_item list \<times> question_row list \<times> condition_row list" where
  \<comment> \<open>the rows of the catalogue that are shared or belong to a client other than \<open>C\<close>\<close>
  "foreign_rows C db = (foreign_of C mf_clientId (kd_manufacturers db), foreign_of C ct_clientId (kd_categories db), foreign_of C pr_clientId (kd_products db),
     foreign_of C qu_clientId (kd_questions db), foreign_of C cd_clientId (kd_conditions db))"

lemma mem_foreign: "r \<in> set (foreign_of C own rows) \<longleftrightarrow> r \<in> set rows \<and> own r \<noteq> Some C"
  by (simp add: foreign_of_def)

lemma foreign_snoc [simp]: "own r = Some C \<Longrightarrow> foreign_of C own (rows @ [r]) = foreign_of C own rows"
  by (simp add: foreign_of_def)

lemma foreign_filter: "(\<And>r. r \<in> set rows \<Longrightarrow> own r \<noteq> Some C \<Longrightarrow> P r) \<Longrightarrow> foreign_of C own (filter P rows) = foreign_of C own rows"
  unfolding foreign_of_def filter_filter by (rule filter_cong) auto

lemma foreign_map:
  "(\<And>r. r \<in> set rows \<Longrightarrow> own (g r) = own r) \<Longrightarrow> (\<And>r. r \<in> set rows \<Longrightarrow> own r \<noteq> Some C \<Longrightarrow> g r = r) \<Longrightarrow> foreign_of C own (map g rows) = foreign_of C own rows"
  unfolding foreign_of_def by (induction rows) auto

lemma foreign_rewritten:
  assumes "\<And>ow. shared_write sess ow \<Longrightarrow> ow = Some C" and "rewritten sess key own f g rows"
  shows "foreign_of C own (map g rows) = foreign_of C own rows"
proof -
  have "g r = r \<or> own r = Some C \<and> own (g r) = Some C" if "r \<in> set rows" for r
    using assms that by (auto simp: rewritten_def) metis
  then show ?thesis unfolding foreign_of_def
  proof (induction rows)
    case (Cons r rows)
    have "g r = r \<or> own r = Some C \<and> own (g r) = Some C" by (rule Cons.prems) simp
    moreover have "filter (\<lambda>r. own r \<noteq> Some C) (map g rows) = filter (\<lambda>r. own r \<noteq> Some C) rows" by (rule Cons.IH) (rule Cons.prems, simp)
    ultimately show ?case by (elim disjE) simp_all
  qed simp
qed

text \<open>Rows that are not of client \<open>C\<close> do not depend on rows of \<open>C\<close>.\<close>

definition independent :: "id \<Rightarrow> catalog_db \<Rightarrow> bool" where
  "independent C db \<longleftrightarrow>
     (let R = (\<lambda>_ t. t \<noteq> Some C); ps = foreign_of C pr_clientId (kd_products db); qs = foreign_of C qu_clientId (kd_questions db);
          cs = foreign_of C cd_clientId (kd_conditions db)
      in refers R (\<lambda>p. Some (pr_manufacturerId p)) pr_clientId mf_id mf_clientId ps (kd_manufacturers db)
     \<and> refers R (\<lambda>p. Some (pr_categoryId p)) pr_clientId ct_id ct_clientId ps (kd_categories db)
     \<and> refers R cp_ansiCategoryId pr_clientId an_id (\<lambda>_. None) ps (kd_ansi db)
     \<and> refers R cp_parentProductId pr_clientId pr_id pr_clientId ps (kd_products db)
     \<and> refers R qu_productId qu_clientId pr_id pr_clientId qs (kd_products db)
     \<and> refers R qu_productCategoryId qu_clientId ct_id ct_clientId qs (kd_categories db)
     \<and> refers R qu_parentQuestionId qu_clientId qu_id qu_clientId qs (kd_questions db)
     \<and> refers R (\<lambda>c. Some (cd_questionId c)) cd_clientId qu_id qu_clientId cs (kd_questions db))"

lemma refers_independent:
  assumes "refers own_or_shared ref own key town rows targets" and "set rows' \<subseteq> set rows" and "set (foreign_of C town targets) \<subseteq> set targets'"
  shows "refers (\<lambda>_ t. t \<noteq> Some C) ref own key town (foreign_of C own rows') targets'"
proof (rule refersI)
  fix r i assume r: "r \<in> set (foreign_of C own rows')" "ref r = Some i"
  then obtain t where t: "t \<in> set targets" "key t = i" "own_or_shared (own r) (town t)"
    using refersD [OF assms(1) _ r(2)] assms(2) by (auto simp: mem_foreign)
  then have "town t \<noteq> Some C" using r(1) by (auto simp: mem_foreign own_or_shared_def)
  then show "\<exists>t\<in>set targets'. key t = i \<and> town t \<noteq> Some C" using t assms(3) by (auto simp: mem_foreign)
qed

lemma run_actions_foreign:
  assumes ind: "independent C db" and run: "run_actions db = Inr db'"
  shows "foreign_rows C db' = foreign_rows C db"
proof -
  obtain ps qs where
    ps: "ps = prune pr_id cp_parentProductId (filter (\<lambda>p. pr_manufacturerId p \<in> mf_id ` set (kd_manufacturers db) \<and> pr_categoryId p \<in> ct_id ` set (kd_categories db)) (kd_products db))"
      (is "_ = prune _ _ (filter ?B _)")
    and qs: "qs = prune qu_id qu_parentQuestionId (kd_questions db)"
    and P: "kd_products db' = map (\<lambda>p. p\<lparr>cp_ansiCategoryId := keep_ref an_id (kd_ansi db) (cp_ansiCategoryId p)\<rparr>) ps"
    and Q: "kd_questions db' = map (\<lambda>q. q\<lparr>qu_productId := keep_ref pr_id ps (qu_productId q), qu_productCategoryId := keep_ref ct_id (kd_categories db) (qu_productCategoryId q)\<rparr>) qs"
    and C: "kd_conditions db' = filter (\<lambda>c. cd_questionId c \<in> qu_id ` set qs) (kd_conditions db)"
    and same: "kd_manufacturers db' = kd_manufacturers db" "kd_categories db' = kd_categories db" "kd_ansi db' = kd_ansi db" by (rule run_actions_tables [OF run])
  have r: "refers (\<lambda>_ t. t \<noteq> Some C) (\<lambda>p. Some (pr_manufacturerId p)) pr_clientId mf_id mf_clientId (foreign_of C pr_clientId (kd_products db)) (kd_manufacturers db)"
    "refers (\<lambda>_ t. t \<noteq> Some C) (\<lambda>p. Some (pr_categoryId p)) pr_clientId ct_id ct_clientId (foreign_of C pr_clientId (kd_products db)) (kd_categories db)"
    "refers (\<lambda>_ t. t \<noteq> Some C) cp_ansiCategoryId pr_clientId an_id (\<lambda>_. None) (foreign_of C pr_clientId (kd_products db)) (kd_ansi db)"
    "refers (\<lambda>_ t. t \<noteq> Some C) cp_parentProductId pr_clientId pr_id pr_clientId (foreign_of C pr_clientId (kd_products db)) (kd_products db)"
    "refers (\<lambda>_ t. t \<noteq> Some C) qu_productId qu_clientId pr_id pr_clientId (foreign_of C qu_clientId (kd_questions db)) (kd_products db)"
    "refers (\<lambda>_ t. t \<noteq> Some C) qu_productCategoryId qu_clientId ct_id ct_clientId (foreign_of C qu_clientId (kd_questions db)) (kd_categories db)"
    "refers (\<lambda>_ t. t \<noteq> Some C) qu_parentQuestionId qu_clientId qu_id qu_clientId (foreign_of C qu_clientId (kd_questions db)) (kd_questions db)"
    "refers (\<lambda>_ t. t \<noteq> Some C) (\<lambda>c. Some (cd_questionId c)) cd_clientId qu_id qu_clientId (foreign_of C cd_clientId (kd_conditions db)) (kd_questions db)"
    using ind by (simp_all add: independent_def Let_def)
  have B: "?B p" if "p \<in> set (kd_products db)" "pr_clientId p \<noteq> Some C" for p
    using refersD [OF r(1), of p "pr_manufacturerId p"] refersD [OF r(2), of p "pr_categoryId p"] that by (auto simp: mem_foreign intro: image_eqI [OF HOL.sym])
  have "foreign_of C pr_clientId ps = foreign_of C pr_clientId (filter ?B (kd_products db))" unfolding foreign_of_def ps
  proof (rule prune_keeps)
    fix x i assume x: "x \<in> set (filter ?B (kd_products db))" "pr_clientId x \<noteq> Some C" "cp_parentProductId x = Some i"
    then obtain t where "t \<in> set (kd_products db)" "pr_id t = i" "pr_clientId t \<noteq> Some C" using refersD [OF r(4), of x i] by (auto simp: mem_foreign)
    then show "\<exists>y\<in>set (filter ?B (kd_products db)). pr_id y = i \<and> pr_clientId y \<noteq> Some C" using B by auto
  qed
  also have "\<dots> = foreign_of C pr_clientId (kd_products db)" by (rule foreign_filter) (rule B)
  finally have fps: "foreign_of C pr_clientId ps = foreign_of C pr_clientId (kd_products db)" .
  have fqs: "foreign_of C qu_clientId qs = foreign_of C qu_clientId (kd_questions db)" unfolding foreign_of_def qs
  proof (rule prune_keeps)
    fix x i assume x: "x \<in> set (kd_questions db)" "qu_clientId x \<noteq> Some C" "qu_parentQuestionId x = Some i"
    then show "\<exists>y\<in>set (kd_questions db). qu_id y = i \<and> qu_clientId y \<noteq> Some C" using refersD [OF r(7), of x i] by (auto simp: mem_foreign)
  qed
  have memP: "p \<in> set ps \<longleftrightarrow> p \<in> set (kd_products db)" if "pr_clientId p \<noteq> Some C" for p using fps that by (metis mem_foreign)
  have memQ: "q \<in> set qs \<longleftrightarrow> q \<in> set (kd_questions db)" if "qu_clientId q \<noteq> Some C" for q using fqs that by (metis mem_foreign)
  have "foreign_of C pr_clientId (kd_products db') = foreign_of C pr_clientId ps" unfolding P
  proof (rule foreign_map)
    fix p assume p: "p \<in> set ps" "pr_clientId p \<noteq> Some C"
    have "keep_ref an_id (kd_ansi db) (cp_ansiCategoryId p) = cp_ansiCategoryId p"
      using refersD [OF r(3), of p] p memP by (auto simp: keep_ref_def mem_foreign split: option.split)
    then show "p\<lparr>cp_ansiCategoryId := keep_ref an_id (kd_ansi db) (cp_ansiCategoryId p)\<rparr> = p" by simp
  qed simp
  moreover have "foreign_of C qu_clientId (kd_questions db') = foreign_of C qu_clientId qs" unfolding Q
  proof (rule foreign_map)
    fix q assume q: "q \<in> set qs" "qu_clientId q \<noteq> Some C"
    then have f: "q \<in> set (foreign_of C qu_clientId (kd_questions db))" using memQ by (simp add: mem_foreign)
    have "keep_ref pr_id ps (qu_productId q) = qu_productId q" using refersD [OF r(5) f] memP by (force simp: keep_ref_def split: option.split)
    moreover have "keep_ref ct_id (kd_categories db) (qu_productCategoryId q) = qu_productCategoryId q"
      using refersD [OF r(6) f] by (auto simp: keep_ref_def split: option.split)
    ultimately show "q\<lparr>qu_productId := keep_ref pr_id ps (qu_productId q), qu_productCategoryId := keep_ref ct_id (kd_categories db) (qu_productCategoryId q)\<rparr> = q" by simp
  qed simp
  moreover have "foreign_of C cd_clientId (kd_conditions db') = foreign_of C cd_clientId (kd_conditions db)" unfolding C
  proof (rule foreign_filter)
    fix c assume c: "c \<in> set (kd_conditions db)" "cd_clientId c \<noteq> Some C"
    then obtain q where "q \<in> set (kd_questions db)" "qu_id q = cd_questionId c" "qu_clientId q \<noteq> Some C" using refersD [OF r(8), of c "cd_questionId c"] by (auto simp: mem_foreign)
    then show "cd_questionId c \<in> qu_id ` set qs" using memQ by force
  qed
  ultimately show ?thesis by (simp add: foreign_rows_def same fps fqs)
qed

lemma removal_independent:
  assumes ok: "catalog_ok own_or_shared db"
    and rows: "set (kd_products db1) \<subseteq> set (kd_products db)" "set (kd_questions db1) \<subseteq> set (kd_questions db)" "set (kd_conditions db1) \<subseteq> set (kd_conditions db)"
    and targets: "foreign_of C mf_clientId (kd_manufacturers db1) = foreign_of C mf_clientId (kd_manufacturers db)"
      "foreign_of C ct_clientId (kd_categories db1) = foreign_of C ct_clientId (kd_categories db)" "kd_ansi db1 = kd_ansi db"
      "foreign_of C pr_clientId (kd_products db1) = foreign_of C pr_clientId (kd_products db)" "foreign_of C qu_clientId (kd_questions db1) = foreign_of C qu_clientId (kd_questions db)"
  shows "independent C db1"
proof -
  have sub: "set (foreign_of C town xs) \<subseteq> set ys" if "foreign_of C town ys = foreign_of C town xs" for town :: "'x \<Rightarrow> id option" and xs ys
    using that by (metis mem_foreign subsetI)
  have a: "set (foreign_of C (\<lambda>_. None) (kd_ansi db)) \<subseteq> set (kd_ansi db1)" using targets(3) by (auto simp: mem_foreign)
  have r: "refers own_or_shared (\<lambda>p. Some (pr_manufacturerId p)) pr_clientId mf_id mf_clientId (kd_products db) (kd_manufacturers db)"
    "refers own_or_shared (\<lambda>p. Some (pr_categoryId p)) pr_clientId ct_id ct_clientId (kd_products db) (kd_categories db)"
    "refers own_or_shared cp_ansiCategoryId pr_clientId an_id (\<lambda>_. None) (kd_products db) (kd_ansi db)"
    "refers own_or_shared cp_parentProductId pr_clientId pr_id pr_clientId (kd_products db) (kd_products db)"
    "refers own_or_shared qu_productId qu_clientId pr_id pr_clientId (kd_questions db) (kd_products db)"
    "refers own_or_shared qu_productCategoryId qu_clientId ct_id ct_clientId (kd_questions db) (kd_categories db)"
    "refers own_or_shared qu_parentQuestionId qu_clientId qu_id qu_clientId (kd_questions db) (kd_questions db)"
    "refers own_or_shared (\<lambda>c. Some (cd_questionId c)) cd_clientId qu_id qu_clientId (kd_conditions db) (kd_questions db)"
    using ok by (simp_all add: catalog_ok_def)
  show ?thesis unfolding independent_def Let_def
    by (intro conjI refers_independent [OF r(1) rows(1) sub [OF targets(1)]] refers_independent [OF r(2) rows(1) sub [OF targets(2)]]
      refers_independent [OF r(3) rows(1) a] refers_independent [OF r(4) rows(1) sub [OF targets(4)]] refers_independent [OF r(5) rows(2) sub [OF targets(4)]]
      refers_independent [OF r(6) rows(2) sub [OF targets(2)]] refers_independent [OF r(7) rows(2) sub [OF targets(5)]]
      refers_independent [OF r(8) rows(3) sub [OF targets(5)]])
qed

lemma tenant_only: "rls_scope ctx \<notin> {SYSTEM, GLOBAL} \<Longrightarrow> shared_write (Tenant ctx) ow \<Longrightarrow> ow = Some (rls_clientId ctx)"
  by (simp add: tenant_writes)

lemma insert_foreign:
  "rls_scope ctx \<notin> {SYSTEM, GLOBAL} \<Longrightarrow> insert_shared (Tenant ctx) key own row rows = Inr rows' \<Longrightarrow>
   foreign_of (rls_clientId ctx) own rows' = foreign_of (rls_clientId ctx) own rows"
  by (auto simp: insert_shared_Inr tenant_writes)

lemma update_foreign:
  assumes "rls_scope ctx \<notin> {SYSTEM, GLOBAL}" and "update_shared (Tenant ctx) key own i f rows = Inr (r, rows')" and "distinct (map key rows)" and "\<And>x. key (f x) = key x"
  shows "foreign_of (rls_clientId ctx) own rows' = foreign_of (rls_clientId ctx) own rows"
proof -
  obtain g where "rows' = map g rows" "rewritten (Tenant ctx) key own f g rows" using update_shared_Inr [OF assms(2,3)] assms(4) by blast
  then show ?thesis using foreign_rewritten tenant_only [OF assms(1)] by metis
qed

lemma delete_foreign:
  assumes "rls_scope ctx \<notin> {SYSTEM, GLOBAL}" and "delete_shared (Tenant ctx) key own i rows = Inr (r, rows')" and "distinct (map key rows)"
  shows "foreign_of (rls_clientId ctx) own rows' = foreign_of (rls_clientId ctx) own rows \<and> set rows' \<subseteq> set rows"
proof -
  have r: "r \<in> set rows" "key r = i" "own r = Some (rls_clientId ctx)" "rows' = filter (\<lambda>x. key x \<noteq> i) rows"
    using delete_shared_Inr [OF assms(2)] tenant_only [OF assms(1)] by auto
  have "x = r" if "x \<in> set rows" "key x = i" for x using that r(1,2) assms(3) by (metis distinct_map inj_onD)
  then show ?thesis unfolding r(4) using r(3) by (auto intro!: foreign_filter)
qed

lemma removals_foreign:
  assumes scope: "rls_scope ctx \<notin> {SYSTEM, GLOBAL}" and ok: "catalog_ok own_or_shared db"
  shows "manufacturer_remove (Tenant ctx) i db = Inr (m, db') \<Longrightarrow> foreign_rows (rls_clientId ctx) db' = foreign_rows (rls_clientId ctx) db"
    and "category_remove (Tenant ctx) i db = Inr (c, db') \<Longrightarrow> foreign_rows (rls_clientId ctx) db' = foreign_rows (rls_clientId ctx) db"
    and "product_remove (Tenant ctx) i db = Inr (p, db') \<Longrightarrow> foreign_rows (rls_clientId ctx) db' = foreign_rows (rls_clientId ctx) db"
    and "deleteQuestion (Tenant ctx) i db = Inr (q, db') \<Longrightarrow> foreign_rows (rls_clientId ctx) db' = foreign_rows (rls_clientId ctx) db"
proof -
  have d: "distinct (map mf_id (kd_manufacturers db))" "distinct (map ct_id (kd_categories db))" "distinct (map pr_id (kd_products db))" "distinct (map qu_id (kd_questions db))"
    using ok by (simp_all add: catalog_ok_def)
  note del = delete_foreign [OF scope _ d(1)] delete_foreign [OF scope _ d(2)] delete_foreign [OF scope _ d(3)] delete_foreign [OF scope _ d(4)]
  have run: "foreign_rows (rls_clientId ctx) db' = foreign_rows (rls_clientId ctx) db"
    if "run_actions db1 = Inr db'" "independent (rls_clientId ctx) db1" "foreign_rows (rls_clientId ctx) db1 = foreign_rows (rls_clientId ctx) db" for db1
    using run_actions_foreign [OF that(2,1)] that(3) by simp
  show "foreign_rows (rls_clientId ctx) db' = foreign_rows (rls_clientId ctx) db" if "manufacturer_remove (Tenant ctx) i db = Inr (m, db')"
  proof -
    from that obtain b where b: "run_actions (db\<lparr>kd_manufacturers := b\<rparr>) = Inr db'" and "foreign_of (rls_clientId ctx) mf_clientId b = foreign_of (rls_clientId ctx) mf_clientId (kd_manufacturers db) \<and> set b \<subseteq> set (kd_manufacturers db)"
      by (auto simp: manufacturer_remove_def bindr_Inr_iff dest!: del(1))
    then show ?thesis by (intro run [OF b] removal_independent [OF ok]) (simp_all add: foreign_rows_def)
  qed
  show "foreign_rows (rls_clientId ctx) db' = foreign_rows (rls_clientId ctx) db" if "category_remove (Tenant ctx) i db = Inr (c, db')"
  proof -
    from that obtain b where b: "run_actions (db\<lparr>kd_categories := b\<rparr>) = Inr db'" and "foreign_of (rls_clientId ctx) ct_clientId b = foreign_of (rls_clientId ctx) ct_clientId (kd_categories db) \<and> set b \<subseteq> set (kd_categories db)"
      by (auto simp: category_remove_def bindr_Inr_iff dest!: del(2))
    then show ?thesis by (intro run [OF b] removal_independent [OF ok]) (simp_all add: foreign_rows_def)
  qed
  show "foreign_rows (rls_clientId ctx) db' = foreign_rows (rls_clientId ctx) db" if "product_remove (Tenant ctx) i db = Inr (p, db')"
  proof -
    from that obtain b where b: "run_actions (db\<lparr>kd_products := b\<rparr>) = Inr db'" and "foreign_of (rls_clientId ctx) pr_clientId b = foreign_of (rls_clientId ctx) pr_clientId (kd_products db) \<and> set b \<subseteq> set (kd_products db)"
      by (auto simp: product_remove_def bindr_Inr_iff dest!: del(3))
    then show ?thesis by (intro run [OF b] removal_independent [OF ok]) (simp_all add: foreign_rows_def)
  qed
  show "foreign_rows (rls_clientId ctx) db' = foreign_rows (rls_clientId ctx) db" if "deleteQuestion (Tenant ctx) i db = Inr (q, db')"
  proof -
    from that obtain b where b: "run_actions (db\<lparr>kd_questions := b\<rparr>) = Inr db'" and "foreign_of (rls_clientId ctx) qu_clientId b = foreign_of (rls_clientId ctx) qu_clientId (kd_questions db) \<and> set b \<subseteq> set (kd_questions db)"
      by (auto simp: deleteQuestion_def bindr_Inr_iff dest!: del(4))
    then show ?thesis by (intro run [OF b] removal_independent [OF ok]) (simp_all add: foreign_rows_def)
  qed
qed

lemma create_question_foreign:
  assumes scope: "rls_scope ctx \<notin> {SYSTEM, GLOBAL}" and "create_question (Tenant ctx) tdb now n product category parent dto db = Inr (r, db')"
  shows "foreign_rows (rls_clientId ctx) db' = foreign_rows (rls_clientId ctx) db"
  using assms(2) by (auto simp: create_question_def Let_def bindr_Inr_iff foreign_rows_def dest: insert_foreign [OF scope] split: if_splits)

lemma update_question_foreign:
  assumes "rls_scope ctx \<notin> {SYSTEM, GLOBAL}" and ok: "catalog_ok own_or_shared db" and "update_question (Tenant ctx) tdb i product category dto db = Inr (r, db')"
  shows "foreign_rows (rls_clientId ctx) db' = foreign_rows (rls_clientId ctx) db"
proof -
  have "distinct (map qu_id (kd_questions db))" using ok by (simp add: catalog_ok_def)
  then show ?thesis using assms(3) by (auto simp: update_question_def bindr_Inr_iff foreign_rows_def dest!: update_foreign [OF assms(1)] split: if_splits)
qed

lemma creations_foreign:
  assumes scope: "rls_scope ctx \<notin> {SYSTEM, GLOBAL}"
  shows "manufacturer_create (Tenant ctx) tdb n md db = Inr (m, db') \<Longrightarrow> foreign_rows (rls_clientId ctx) db' = foreign_rows (rls_clientId ctx) db"
    and "category_create (Tenant ctx) tdb n td db = Inr (c, db') \<Longrightarrow> foreign_rows (rls_clientId ctx) db' = foreign_rows (rls_clientId ctx) db"
    and "product_create (Tenant ctx) tdb n pd db = Inr (p, db') \<Longrightarrow> foreign_rows (rls_clientId ctx) db' = foreign_rows (rls_clientId ctx) db"
    and "addCondition (Tenant ctx) n q xd db = Inr (x, db') \<Longrightarrow> foreign_rows (rls_clientId ctx) db' = foreign_rows (rls_clientId ctx) db"
    and "ansi_create n nd db = Inr (a, db') \<Longrightarrow> foreign_rows (rls_clientId ctx) db' = foreign_rows (rls_clientId ctx) db"
    and "ansi_update i na db = Inr (a, db') \<Longrightarrow> foreign_rows (rls_clientId ctx) db' = foreign_rows (rls_clientId ctx) db"
  by (auto simp: manufacturer_create_def category_create_def product_create_def addCondition_def ansi_create_def ansi_update_def Let_def bindr_Inr_iff foreign_rows_def
      dest: insert_foreign [OF scope] split: if_splits)

lemma updates_foreign:
  assumes scope: "rls_scope ctx \<notin> {SYSTEM, GLOBAL}" and ok: "catalog_ok own_or_shared db"
  shows "manufacturer_update (Tenant ctx) tdb i md db = Inr (m, db') \<Longrightarrow> foreign_rows (rls_clientId ctx) db' = foreign_rows (rls_clientId ctx) db"
    and "category_update (Tenant ctx) tdb i td db = Inr (c, db') \<Longrightarrow> foreign_rows (rls_clientId ctx) db' = foreign_rows (rls_clientId ctx) db"
    and "product_update (Tenant ctx) tdb i pd db = Inr (p, db') \<Longrightarrow> foreign_rows (rls_clientId ctx) db' = foreign_rows (rls_clientId ctx) db"
    and "updateCondition (Tenant ctx) i xd db = Inr (x, db') \<Longrightarrow> foreign_rows (rls_clientId ctx) db' = foreign_rows (rls_clientId ctx) db"
    and "removeCondition (Tenant ctx) i db = Inr (x, db') \<Longrightarrow> foreign_rows (rls_clientId ctx) db' = foreign_rows (rls_clientId ctx) db"
proof -
  have d: "distinct (map mf_id (kd_manufacturers db))" "distinct (map ct_id (kd_categories db))" "distinct (map pr_id (kd_products db))"
    "distinct (map cd_id (kd_conditions db))" using ok by (simp_all add: catalog_ok_def)
  show "manufacturer_update (Tenant ctx) tdb i md db = Inr (m, db') \<Longrightarrow> foreign_rows (rls_clientId ctx) db' = foreign_rows (rls_clientId ctx) db"
    using d(1) by (auto simp: manufacturer_update_def bindr_Inr_iff foreign_rows_def dest!: update_foreign [OF scope] split: if_splits)
  show "category_update (Tenant ctx) tdb i td db = Inr (c, db') \<Longrightarrow> foreign_rows (rls_clientId ctx) db' = foreign_rows (rls_clientId ctx) db"
    using d(2) by (auto simp: category_update_def bindr_Inr_iff foreign_rows_def dest!: update_foreign [OF scope] split: if_splits)
  show "product_update (Tenant ctx) tdb i pd db = Inr (p, db') \<Longrightarrow> foreign_rows (rls_clientId ctx) db' = foreign_rows (rls_clientId ctx) db"
    using d(3) by (auto simp: product_update_def bindr_Inr_iff foreign_rows_def dest!: update_foreign [OF scope] split: if_splits)
  show "updateCondition (Tenant ctx) i xd db = Inr (x, db') \<Longrightarrow> foreign_rows (rls_clientId ctx) db' = foreign_rows (rls_clientId ctx) db"
    using d(4) by (auto simp: updateCondition_def bindr_Inr_iff foreign_rows_def dest!: update_foreign [OF scope] split: if_splits)
  show "removeCondition (Tenant ctx) i db = Inr (x, db') \<Longrightarrow> foreign_rows (rls_clientId ctx) db' = foreign_rows (rls_clientId ctx) db"
    using d(4) by (auto simp: removeCondition_def bindr_Inr_iff foreign_rows_def dest!: delete_foreign [OF scope])
qed

definition keeps_shared :: "catalog_op \<Rightarrow> bool" where
  \<comment> \<open>not the two operations that need no policy\<close>
  "keeps_shared op = (case op of RemoveAnsi _ \<Rightarrow> False | GenericManufacturer _ \<Rightarrow> False | _ \<Rightarrow> True)"

lemma tenant_step_foreign:
  assumes scope: "rls_scope ctx \<notin> {SYSTEM, GLOBAL}" and ok: "catalog_ok own_or_shared db" and op: "keeps_shared op"
  shows "foreign_rows (rls_clientId ctx) (catalog_step (Tenant ctx) tdb op db) = foreign_rows (rls_clientId ctx) db"
proof -
  note q = create_question_foreign [OF scope] update_question_foreign [OF scope ok]
  note step = committed_preserves [of "\<lambda>x. foreign_rows (rls_clientId ctx) x = foreign_rows (rls_clientId ctx) db", OF HOL.refl]
  show ?thesis
    using op by (cases op) (simp_all add: keeps_shared_def question_create_def addVariant_def product_addQuestion_def category_addQuestion_def
      question_update_def product_updateQuestion_def category_updateQuestion_def,
      (rule step, (erule creations_foreign [OF scope] | erule updates_foreign [OF scope ok] | erule removals_foreign [OF scope ok] | erule q
         | (simp only: as404_Inr, erule q)))+)
qed

subsection \<open>Properties\<close>

definition owned_rows :: "id option \<Rightarrow> catalog_db \<Rightarrow> manufacturer_row list \<times> product_category_row list \<times> catalog_item list \<times> question_row list \<times> condition_row list" where
  "owned_rows ow db = (filter (\<lambda>m. mf_clientId m = ow) (kd_manufacturers db), filter (\<lambda>c. ct_clientId c = ow) (kd_categories db),
     filter (\<lambda>p. pr_clientId p = ow) (kd_products db), filter (\<lambda>q. qu_clientId q = ow) (kd_questions db), filter (\<lambda>c. cd_clientId c = ow) (kd_conditions db))"

lemma owned_of_foreign:
  assumes "foreign_rows C db' = foreign_rows C db" and "ow \<noteq> Some C"
  shows "owned_rows ow db' = owned_rows ow db"
proof -
  have "filter (\<lambda>r. own r = ow) rows = filter (\<lambda>r. own r = ow) (foreign_of C own rows)" for own :: "'x \<Rightarrow> id option" and rows
    using assms(2) unfolding foreign_of_def filter_filter by (intro filter_cong) auto
  then show ?thesis using assms(1) unfolding owned_rows_def foreign_rows_def by (metis prod.inject)
qed

text \<open>
  The two operations that need no policy: what the removal of an ANSI category and the look-up of the generic manufacturer do to
  rows of others.
\<close>

definition outside_kept :: "id option \<Rightarrow> catalog_db \<Rightarrow> catalog_db \<Rightarrow> bool" where
  \<comment> \<open>rows of the owner: nothing is lost, products lose at most the link to an ANSI category, generic manufacturers may be new\<close>
  "outside_kept ow db db' \<longleftrightarrow>
     (\<exists>gs. filter (\<lambda>m. mf_clientId m = ow) (kd_manufacturers db') = filter (\<lambda>m. mf_clientId m = ow) (kd_manufacturers db) @ gs
        \<and> (\<forall>m\<in>set gs. ow = None \<and> mf_name m = ''Generic''))
     \<and> filter (\<lambda>c. ct_clientId c = ow) (kd_categories db') = filter (\<lambda>c. ct_clientId c = ow) (kd_categories db)
     \<and> list_all2 (\<lambda>p p'. p' = p \<or> p' = p\<lparr>cp_ansiCategoryId := None\<rparr>) (filter (\<lambda>p. pr_clientId p = ow) (kd_products db)) (filter (\<lambda>p. pr_clientId p = ow) (kd_products db'))
     \<and> filter (\<lambda>q. qu_clientId q = ow) (kd_questions db') = filter (\<lambda>q. qu_clientId q = ow) (kd_questions db)
     \<and> filter (\<lambda>c. cd_clientId c = ow) (kd_conditions db') = filter (\<lambda>c. cd_clientId c = ow) (kd_conditions db)"

lemma outside_kept_same: "owned_rows ow db' = owned_rows ow db \<Longrightarrow> outside_kept ow db db'"
  by (simp add: owned_rows_def outside_kept_def list.rel_refl)

lemma outside_kept_trans:
  assumes "outside_kept ow db db1" and "outside_kept ow db1 db2"
  shows "outside_kept ow db db2"
proof -
  have t: "list_all2 (\<lambda>p p'. p' = p \<or> p' = p\<lparr>cp_ansiCategoryId := None\<rparr>) xs zs"
    if "list_all2 (\<lambda>p p'. p' = p \<or> p' = p\<lparr>cp_ansiCategoryId := None\<rparr>) xs ys" "list_all2 (\<lambda>p p'. p' = p \<or> p' = p\<lparr>cp_ansiCategoryId := None\<rparr>) ys zs"
    for xs ys zs :: "catalog_item list"
    by (rule list_all2_trans [OF _ that]) auto
  from assms obtain g1 g2 where "filter (\<lambda>m. mf_clientId m = ow) (kd_manufacturers db1) = filter (\<lambda>m. mf_clientId m = ow) (kd_manufacturers db) @ g1"
    "filter (\<lambda>m. mf_clientId m = ow) (kd_manufacturers db2) = filter (\<lambda>m. mf_clientId m = ow) (kd_manufacturers db1) @ g2"
    "\<forall>m\<in>set g1. ow = None \<and> mf_name m = ''Generic''" "\<forall>m\<in>set g2. ow = None \<and> mf_name m = ''Generic''"
    unfolding outside_kept_def by blast
  then have "filter (\<lambda>m. mf_clientId m = ow) (kd_manufacturers db2) = filter (\<lambda>m. mf_clientId m = ow) (kd_manufacturers db) @ (g1 @ g2)
      \<and> (\<forall>m\<in>set (g1 @ g2). ow = None \<and> mf_name m = ''Generic'')" by auto
  then show ?thesis using assms t unfolding outside_kept_def by (intro conjI) (blast, simp, blast, simp, simp)
qed

lemma prune_closed:
  assumes "\<And>r p. r \<in> set rows \<Longrightarrow> parent r = Some p \<Longrightarrow> p \<in> key ` set rows"
  shows "prune key parent rows = rows"
proof -
  have "filter (\<lambda>r. case parent r of None \<Rightarrow> True | Some p \<Rightarrow> p \<in> key ` set rows) rows = rows"
    using assms by (auto simp: filter_id_conv split: option.split)
  then show ?thesis by (subst prune.simps) (simp add: Let_def)
qed

lemma refers_key: "refers R ref own key town rows targets \<Longrightarrow> r \<in> set rows \<Longrightarrow> ref r = Some i \<Longrightarrow> i \<in> key ` set targets"
  by (auto dest: refersD)

lemma keep_ref_closed: "refers R ref own key town rows targets \<Longrightarrow> r \<in> set rows \<Longrightarrow> keep_ref key targets (ref r) = ref r"
  by (auto simp: keep_ref_def dest: refers_key split: option.split)

lemma ansi_remove_tables:
  assumes ok: "catalog_ok R db" and rm: "ansi_remove i db = Inr (a, db')"
  shows "kd_manufacturers db' = kd_manufacturers db" "kd_categories db' = kd_categories db" "kd_questions db' = kd_questions db" "kd_conditions db' = kd_conditions db"
    and "kd_products db' = map (\<lambda>p. p\<lparr>cp_ansiCategoryId := keep_ref an_id (kd_ansi db') (cp_ansiCategoryId p)\<rparr>) (kd_products db)"
proof -
  from rm obtain rows where run: "run_actions (db\<lparr>kd_ansi := rows\<rparr>) = Inr db'" by (auto simp: ansi_remove_def bindr_Inr_iff)
  obtain ps qs where
    ps: "ps = prune pr_id cp_parentProductId (filter (\<lambda>p. pr_manufacturerId p \<in> mf_id ` set (kd_manufacturers db) \<and> pr_categoryId p \<in> ct_id ` set (kd_categories db)) (kd_products db))"
    and qs: "qs = prune qu_id qu_parentQuestionId (kd_questions db)"
    and P: "kd_products db' = map (\<lambda>p. p\<lparr>cp_ansiCategoryId := keep_ref an_id rows (cp_ansiCategoryId p)\<rparr>) ps"
    and Q: "kd_questions db' = map (\<lambda>q. q\<lparr>qu_productId := keep_ref pr_id ps (qu_productId q), qu_productCategoryId := keep_ref ct_id (kd_categories db) (qu_productCategoryId q)\<rparr>) qs"
    and C: "kd_conditions db' = filter (\<lambda>c. cd_questionId c \<in> qu_id ` set qs) (kd_conditions db)"
    and same: "kd_manufacturers db' = kd_manufacturers db" "kd_categories db' = kd_categories db" "kd_ansi db' = rows" by (rule run_actions_tables [OF run]) simp_all
  note r = ok [unfolded catalog_ok_def]
  have "filter (\<lambda>p. pr_manufacturerId p \<in> mf_id ` set (kd_manufacturers db) \<and> pr_categoryId p \<in> ct_id ` set (kd_categories db)) (kd_products db) = kd_products db"
    using refers_key [of R "\<lambda>p. Some (pr_manufacturerId p)" pr_clientId mf_id mf_clientId "kd_products db"] refers_key [of R "\<lambda>p. Some (pr_categoryId p)" pr_clientId ct_id ct_clientId "kd_products db"] r
    unfolding filter_id_conv by blast
  moreover have "prune pr_id cp_parentProductId (kd_products db) = kd_products db"
    by (rule prune_closed) (use r in \<open>blast intro: refers_key\<close>)
  ultimately have ps: "ps = kd_products db" using ps by simp
  have qs: "qs = kd_questions db" unfolding qs by (rule prune_closed) (use r in \<open>blast intro: refers_key\<close>)
  show "kd_manufacturers db' = kd_manufacturers db" "kd_categories db' = kd_categories db" by (rule same)+
  have "q\<lparr>qu_productId := keep_ref pr_id ps (qu_productId q), qu_productCategoryId := keep_ref ct_id (kd_categories db) (qu_productCategoryId q)\<rparr> = q"
    if "q \<in> set (kd_questions db)" for q
  proof -
    have "keep_ref pr_id (kd_products db) (qu_productId q) = qu_productId q" by (rule keep_ref_closed [OF _ that]) (use r in blast)
    moreover have "keep_ref ct_id (kd_categories db) (qu_productCategoryId q) = qu_productCategoryId q" by (rule keep_ref_closed [OF _ that]) (use r in blast)
    ultimately show ?thesis unfolding ps by simp
  qed
  then show "kd_questions db' = kd_questions db" unfolding Q qs by (simp add: map_idI)
  show "kd_conditions db' = kd_conditions db"
    unfolding C qs filter_id_conv using refers_key [of R "\<lambda>c. Some (cd_questionId c)" cd_clientId qu_id qu_clientId "kd_conditions db"] r by blast
  show "kd_products db' = map (\<lambda>p. p\<lparr>cp_ansiCategoryId := keep_ref an_id (kd_ansi db') (cp_ansiCategoryId p)\<rparr>) (kd_products db)"
    unfolding P ps same ..
qed

lemma ansi_remove_outside:
  assumes "catalog_ok R db" and "ansi_remove i db = Inr (a, db')"
  shows "outside_kept ow db db'"
proof -
  have "list_all2 (\<lambda>p p'. p' = p \<or> p' = p\<lparr>cp_ansiCategoryId := None\<rparr>) (filter (\<lambda>p. pr_clientId p = ow) ps)
      (filter (\<lambda>p. pr_clientId p = ow) (map (\<lambda>p. p\<lparr>cp_ansiCategoryId := keep_ref an_id rows (cp_ansiCategoryId p)\<rparr>) ps))" for ps rows
  proof (induction ps)
    case (Cons p ps)
    have "p\<lparr>cp_ansiCategoryId := keep_ref an_id rows (cp_ansiCategoryId p)\<rparr> \<in> {p, p\<lparr>cp_ansiCategoryId := None\<rparr>}"
      by (cases "keep_ref an_id rows (cp_ansiCategoryId p)") (auto simp: keep_ref_Some)
    then show ?case using Cons by auto
  qed simp
  then show ?thesis using ansi_remove_tables [OF assms] by (simp add: outside_kept_def)
qed

lemma generic_outside: "getOrCreateGeneric n db = Inr (m, db') \<Longrightarrow> outside_kept ow db db'"
  by (auto simp: getOrCreateGeneric_def outside_kept_def GENERIC_MANUFACTURER_NAME_def Let_def bindr_Inr_iff insert_shared_Inr list.rel_refl split: option.splits)

lemma tenant_step_outside:
  assumes scope: "rls_scope ctx \<notin> {SYSTEM, GLOBAL}" and ok: "catalog_ok own_or_shared db" and "ow \<noteq> Some (rls_clientId ctx)"
  shows "outside_kept ow db (catalog_step (Tenant ctx) tdb op db)"
proof (cases "keeps_shared op")
  case True
  show ?thesis by (rule outside_kept_same) (rule owned_of_foreign [OF tenant_step_foreign [OF scope ok True] assms(3)])
next
  case False
  then show ?thesis using ansi_remove_outside [OF ok] generic_outside outside_kept_same [OF HOL.refl]
    by (cases op) (auto simp: keeps_shared_def committed_def split: sum.split)
qed

definition acts_for :: "id list \<Rightarrow> rls_session \<times> tenant_db \<times> catalog_op \<Rightarrow> bool" where
  \<comment> \<open>a request below GLOBAL scope of one of the clients\<close>
  "acts_for clients st =
     (case st of (sess, _, _) \<Rightarrow> (case sess of Bypass \<Rightarrow> False | Tenant ctx \<Rightarrow> rls_scope ctx \<notin> {SYSTEM, GLOBAL} \<and> List.member clients (rls_clientId ctx)))"

text \<open>
  C38: the catalogue is isolated. When every row refers only to shared rows and to rows of its own client, then whatever
  the requests of a set of clients below GLOBAL scope do, in any order and failing or not, that stays so, although the
  foreign keys cascade without looking at policies, and of the rows that are shared or of another client none is removed,
  none is changed but for products that lose their link to an ANSI category, and none is new but for shared
  manufacturers named \<open>Generic\<close>, in the tables of manufacturers, categories, products, questions and conditions. If the requests do not remove ANSI categories (a sixth table,
  which has no policy: \<open>ansi_not_protected\<close>) and do not ask for the generic manufacturer (which is looked up and created past
  the policies), these rows are exactly the same.
\<close>

theorem catalog_isolation:
  assumes "catalog_ok own_or_shared db" and "list_all (acts_for clients) steps"
  shows "catalog_ok own_or_shared (catalog_run steps db)
     \<and> (\<forall>ow. ow \<notin> Some ` set clients \<longrightarrow> outside_kept ow db (catalog_run steps db)
          \<and> (list_all (\<lambda>(_, _, op). keeps_shared op) steps \<longrightarrow> owned_rows ow (catalog_run steps db) = owned_rows ow db))"
  using assms
proof (induction steps arbitrary: db)
  case Nil
  then show ?case by (simp add: outside_kept_same)
next
  case (Cons st steps)
  obtain sess tdb op where st: "st = (sess, tdb, op)" by (cases st)
  from Cons.prems(2) obtain ctx where ctx: "sess = Tenant ctx" "rls_scope ctx \<notin> {SYSTEM, GLOBAL}" "rls_clientId ctx \<in> set clients"
    by (auto simp: acts_for_def st split: rls_session.splits)
  let ?db = "catalog_step sess tdb op db"
  have R: "(\<lambda>ow t. rls_scope ctx \<in> {SYSTEM, GLOBAL} \<or> own_or_shared ow t) = own_or_shared" using ctx(2) by simp
  have ok: "catalog_ok own_or_shared ?db"
    unfolding ctx(1) using tenant_session.step_ok [of ctx db tdb op, unfolded R, OF Cons.prems(1)] .
  have rest: "list_all (acts_for clients) steps" using Cons.prems(2) by simp
  note IH = Cons.IH [OF ok rest]
  show ?case
  proof (intro conjI allI impI)
    show "catalog_ok own_or_shared (catalog_run (st # steps) db)" using IH by (simp add: st)
    fix ow assume ow: "ow \<notin> Some ` set clients"
    then have other: "ow \<noteq> Some (rls_clientId ctx)" using ctx(3) by auto
    have "outside_kept ow db ?db" unfolding ctx(1) by (rule tenant_step_outside [OF ctx(2) Cons.prems(1) other])
    moreover have "outside_kept ow ?db (catalog_run steps ?db)" using IH ow by blast
    ultimately show "outside_kept ow db (catalog_run (st # steps) db)" unfolding st catalog_run.simps by (rule outside_kept_trans)
    assume quiet: "list_all (\<lambda>(_, _, op). keeps_shared op) (st # steps)"
    then have "owned_rows ow ?db = owned_rows ow db"
      unfolding ctx(1) by (intro owned_of_foreign [OF tenant_step_foreign [OF ctx(2) Cons.prems(1)] other]) (simp add: st)
    then show "owned_rows ow (catalog_run (st # steps) db) = owned_rows ow db" using IH ow quiet by (simp add: st)
  qed
qed

definition ex_catalog :: catalog_db where
  "ex_catalog = \<lparr>
     kd_manufacturers = [\<lparr>mf_id = ''m0'', mf_name = ''Acme'', mf_homeUrl = None, mf_active = True, mf_clientId = None\<rparr>,
       \<lparr>mf_id = ''m1'', mf_name = ''Own'', mf_homeUrl = None, mf_active = True, mf_clientId = Some ''c1''\<rparr>],
     kd_categories = [\<lparr>ct_id = ''g0'', ct_name = ''AED'', ct_shortName = None, ct_active = True, ct_clientId = None\<rparr>],
     kd_ansi = [\<lparr>an_id = ''n0'', an_name = ''A'', an_description = None\<rparr>],
     kd_products = [
       \<lparr>pr_id = ''p1'', pr_categoryId = ''g0'', pr_manufacturerId = ''m1'', pr_metadata = None, pr_clientId = Some ''c1'', cp_name = ''Mine'',
         cp_type = PRIMARY_PRODUCT, cp_active = True, cp_parentProductId = None, cp_ansiCategoryId = None\<rparr>,
       \<lparr>pr_id = ''p2'', pr_categoryId = ''g0'', pr_manufacturerId = ''m0'', pr_metadata = None, pr_clientId = Some ''c2'', cp_name = ''Theirs'',
         cp_type = PRIMARY_PRODUCT, cp_active = True, cp_parentProductId = None, cp_ansiCategoryId = Some ''n0''\<rparr>],
     kd_questions = [ex_question\<lparr>qu_clientId := Some ''c1'', qu_productId := Some ''p1''\<rparr>],
     kd_conditions = [\<lparr>cd_id = ''d1'', cd_questionId = ''q1'', cd_type = PRODUCT, cd_value = [''p1''], cd_clientId = Some ''c1''\<rparr>],
     kd_pinned = [], kd_answered = []\<rparr>"

lemma ex_catalog_ok: "catalog_ok own_or_shared ex_catalog"
  by (simp add: catalog_ok_def refers_def ex_catalog_def own_or_shared_def ex_question_def)

theorem catalog_isolation_witness:
  "(let db' = catalog_run [(Tenant ex_ctx_client, ex_db [], RemoveManufacturer ''m1''), (Tenant ex_ctx_client, ex_db [], RemoveAnsi ''n0'')] ex_catalog
    in length (kd_products db') = 1 \<and> kd_ansi db' = [] \<and> outside_kept (Some ''c2'') ex_catalog db')
   \<and> owned_rows (Some ''c2'') (catalog_run [(Tenant ex_ctx_client, ex_db [], RemoveManufacturer ''m1'')] ex_catalog) = owned_rows (Some ''c2'') ex_catalog"
proof -
  let ?rm = "(Tenant ex_ctx_client, ex_db [], RemoveManufacturer ''m1'')"
  let ?ra = "(Tenant ex_ctx_client, ex_db [], RemoveAnsi ''n0'')"
  have n: "length (kd_products (catalog_run [?rm, ?ra] ex_catalog)) = 1" "kd_ansi (catalog_run [?rm, ?ra] ex_catalog) = []" by code_simp+
  have acts: "list_all (acts_for [''c1'']) [?rm, ?ra]" "list_all (acts_for [''c1'']) [?rm]"
    by (simp_all add: acts_for_def ex_ctx_client_def)
  have "outside_kept (Some ''c2'') ex_catalog (catalog_run [?rm, ?ra] ex_catalog)" using catalog_isolation [OF ex_catalog_ok acts(1)] by auto
  moreover have "owned_rows (Some ''c2'') (catalog_run [?rm] ex_catalog) = owned_rows (Some ''c2'') ex_catalog"
    using catalog_isolation [OF ex_catalog_ok acts(2)] by (auto simp: keeps_shared_def)
  ultimately show ?thesis using n by (simp only: Let_def)
qed

text \<open>
  C26: referential integrity. Whatever requests any sessions make, in any order, identifiers stay unique in each
  table, every product has its manufacturer and its category, and every other reference (parent product, ANSI
  category, a question's product, category and parent question, a condition's question) is either empty or to a row that
  exists; in particular the cascades of a removal always end and leave nothing dangling.
\<close>

theorem catalog_references_kept:
  assumes "catalog_ok (\<lambda>_ _. True) db"
  shows "catalog_ok (\<lambda>_ _. True) (catalog_run steps db)"
  using assms
proof (induction steps arbitrary: db)
  case (Cons st steps)
  obtain sess tdb op where st: "st = (sess, tdb, op)" by (cases st)
  show ?case using Cons.IH [OF any_session.step_ok [OF Cons.prems, of sess tdb op]] by (simp add: st)
qed simp

theorem catalog_references_kept_witness:
  "catalog_ok (\<lambda>_ _. True) (catalog_run [(Bypass, ex_db [], RemoveManufacturer ''m0''), (Bypass, ex_db [], RemoveCategory ''g0'')] ex_catalog)"
proof -
  have "catalog_ok (\<lambda>_ _. True) ex_catalog" by (simp add: catalog_ok_def refers_def ex_catalog_def ex_question_def)
  from catalog_references_kept [OF this] show ?thesis .
qed

text \<open>The generic manufacturer is created once.\<close>

lemma find_by_snoc: "find_by key k xs = None \<Longrightarrow> key r = k \<Longrightarrow> find_by key k (xs @ [r]) = Some r"
  by (induction xs) (auto simp: find_by_def split: if_splits)

lemma getOrCreateGeneric_once:
  "getOrCreateGeneric n db = Inr (m, db') \<Longrightarrow> getOrCreateGeneric n' db' = Inr (m, db') \<and> mf_name m = GENERIC_MANUFACTURER_NAME"
  by (auto simp: getOrCreateGeneric_def Let_def bindr_Inr_iff insert_shared_Inr find_by_snoc dest: find_by_SomeD split: option.splits)

text \<open>It is looked up by its name in every client's rows: a client can put its own row there.\<close>

lemma generic_of_a_client:
  "map_sum (\<lambda>_. ()) (\<lambda>(m, _). mf_clientId m)
     (getOrCreateGeneric ''m9'' (committed ex_catalog (manufacturer_update (Tenant ex_ctx_client) (ex_db []) ''m1''
        \<lparr>mp_name = Some ''Generic'', mp_homeUrl = None, mp_active = None, mp_client = None\<rparr> ex_catalog))) = Inr (Some ''c1'')"
  by code_simp

text \<open>
  A session of GLOBAL scope may remove a shared manufacturer, and the cascade removes the products of every
  client that refer to it.
\<close>

lemma global_removal_crosses_clients:
  "owned_rows (Some ''c2'') (catalog_step (Tenant (ex_ctx_client\<lparr>rls_scope := GLOBAL\<rparr>)) (ex_db []) (RemoveManufacturer ''m0'') ex_catalog)
     \<noteq> owned_rows (Some ''c2'') ex_catalog"
  by code_simp

text \<open>ANSI categories are shared and have no policy: a client's session can remove one from the products of another client.\<close>

lemma ansi_not_protected:
  "map cp_ansiCategoryId (kd_products ex_catalog) = [None, Some ''n0'']"
  "map cp_ansiCategoryId (kd_products (catalog_step (Tenant ex_ctx_client) (ex_db []) (RemoveAnsi ''n0'') ex_catalog)) = [None, None]"
  by code_simp+

text \<open>
  A change of a question under a product moves the question there, whatever product it had, and keeps its category.
\<close>

lemma product_updateQuestion_moves:
  "product_updateQuestion sess tdb productId questionId dto db = Inr (q, db') \<Longrightarrow> qu_productId q = Some productId"
  by (auto simp: product_updateQuestion_def update_question_def update_shared_def bindr_Inr_iff patch_question_def split: if_splits option.splits)

text \<open>Removing a row that is not there is an internal error for products, categories and manufacturers, and not found for questions.\<close>

lemma delete_nothing:
  assumes "i \<notin> key ` set rows"
  shows "delete_shared sess key owner i rows = Inl (ServerError ''P2025'')"
proof -
  have "find_by key i (filter P rows) = None" for P using assms unfolding find_by_None_iff by auto
  then show ?thesis by (simp add: delete_shared_def)
qed

lemma removing_nothing:
  "i \<notin> mf_id ` set (kd_manufacturers db) \<Longrightarrow> manufacturer_remove sess i db = Inl (ServerError ''P2025'')"
  "i \<notin> ct_id ` set (kd_categories db) \<Longrightarrow> category_remove sess i db = Inl (ServerError ''P2025'')"
  "i \<notin> pr_id ` set (kd_products db) \<Longrightarrow> product_remove sess i db = Inl (ServerError ''P2025'')"
  "i \<notin> qu_id ` set (kd_questions db) \<Longrightarrow> deleteQuestion sess i db = Inl (NotFoundException ''Not Found'')"
  by (simp_all add: manufacturer_remove_def category_remove_def product_remove_def deleteQuestion_def delete_nothing as404OrThrow_def)

text \<open>
  The client of a condition is set when it is created: a system administrator who moves a question to another client leaves its
  conditions with the old client, whose rows the new client does not see.
\<close>

lemma moved_question_keeps_conditions:
  "map cd_clientId (kd_conditions (catalog_step Bypass ((ex_db [])\<lparr>db_clients := [\<lparr>cl_id = ''c2'', cl_externalId = ''x'', cl_name = ''B'', cl_status = ACTIVE\<rparr>]\<rparr>)
     (UpdateQuestion ''q1'' \<lparr>zp_active = None, zp_type = None, zp_valueType = None, zp_order = None, zp_selectOptions = None, zp_client = Some (Some ''c2''), zp_parentQuestionId = None\<rparr>)
     ex_catalog)) = [Some ''c1'']"
  by code_simp

end
