(* ===== verification/Page_Queries.thy ===== *)
theory Page_Queries
  imports Asset_Db "HOL-Library.Multiset"
begin

section \<open>Queries by page and errors of the database\<close>

text \<open>
  \<open>buildPrismaFindArgs\<close> of \<^verbatim>\<open>src/src/common/validation.ts\<close>, \<open>findManyForPageExtensionFn\<close> of
  \<^verbatim>\<open>src/src/prisma/prisma.service.ts\<close>, which every list of the API goes through, and
  \<^verbatim>\<open>src/src/common/prisma-errors.filter.ts\<close>. An object is a list of properties. \<open>deepmerge\<close> and the
  meaning of a \<open>where\<close> and an \<open>orderBy\<close> clause are parameters; a negative \<open>take\<close> counts from the end, a negative
  \<open>skip\<close> is refused.
\<close>

type_synonym object = "(string \<times> json) list"

record find_args =
  fa_other :: object \<comment> \<open>the properties the service passes besides the ones below\<close>
  fa_where :: object
  fa_orderBy :: "json option"
  fa_take :: "int option"
  fa_skip :: "int option"
  fa_include :: object

record page_query =
  pq_order :: "json option"
  pq_limit :: "int option"
  pq_offset :: "int option"
  pq_include :: "object option"
  pq_where :: object \<comment> \<open>the rest of the query\<close>

record service_args =
  sv_other :: object
  sv_where :: "object option"
  sv_include :: "object option"

definition spread_into :: "object \<Rightarrow> object \<Rightarrow> object" where
  \<comment> \<open>\<open>{...a, ...b}\<close>\<close>
  "spread_into a b = foldl (\<lambda>m (k, v). AList.update k v m) a b"

definition buildPrismaFindArgs :: "(object \<Rightarrow> object \<Rightarrow> object) \<Rightarrow> page_query option \<Rightarrow> service_args option \<Rightarrow> find_args option" where
  "buildPrismaFindArgs deepmerge querySchema args =
     (case querySchema of
        None \<Rightarrow> None
      | Some q \<Rightarrow>
          Some \<lparr>fa_other = (case args of None \<Rightarrow> [] | Some a \<Rightarrow> sv_other a),
            fa_where = spread_into (pq_where q) (nullish_or (Option.bind args sv_where) []),
            fa_orderBy = pq_order q, fa_take = pq_limit q, fa_skip = pq_offset q,
            fa_include = deepmerge (nullish_or (pq_include q) []) (nullish_or (Option.bind args sv_include) [])\<rparr>)"

record 'r page =
  pg_results :: "'r list"
  pg_count :: nat
  pg_limit :: nat
  pg_offset :: "int option"

definition page_rows :: "int option \<Rightarrow> int option \<Rightarrow> 'r list \<Rightarrow> 'r list" where
  \<comment> \<open>\<open>skip\<close> and \<open>take\<close>\<close>
  "page_rows tk skip rows =
     (let n = nat (nullish_or skip 0)
      in case tk of
           None \<Rightarrow> drop n rows
         | Some t \<Rightarrow> if 0 \<le> t then take (nat t) (drop n rows)
                     else rev (take (nat (- t)) (drop n (rev rows))))"

definition findMany :: "(object \<Rightarrow> 'r \<Rightarrow> bool) \<Rightarrow> (json option \<Rightarrow> 'r list \<Rightarrow> 'r list) \<Rightarrow> find_args option \<Rightarrow> 'r list \<Rightarrow> 'r list result" where
  "findMany matches ordered args rows =
     (case args of
        None \<Rightarrow> Inr (ordered None rows)
      | Some a \<Rightarrow>
          if nullish_or (fa_skip a) 0 < 0 then Inl (ServerError ''skip'')
          else Inr (page_rows (fa_take a) (fa_skip a) (ordered (fa_orderBy a) (filter (matches (fa_where a)) rows))))"

definition findManyForPage ::
    "(object \<Rightarrow> 'r \<Rightarrow> bool) \<Rightarrow> (json option \<Rightarrow> 'r list \<Rightarrow> 'r list) \<Rightarrow> find_args option \<Rightarrow> 'r list \<Rightarrow> 'r page result" where
  "findManyForPage matches ordered args rows =
     bindr (findMany matches ordered args rows) (\<lambda>results.
       Inr \<lparr>pg_results = results,
         pg_count = length (case args of None \<Rightarrow> rows | Some a \<Rightarrow> filter (matches (fa_where a)) rows),
         pg_limit = length results, pg_offset = Option.bind args fa_skip\<rparr>)"

subsection \<open>Errors of the database\<close>

definition is_upper :: "char \<Rightarrow> bool" where
  "is_upper c = (let n = of_char c :: nat in 65 \<le> n \<and> n \<le> 90)"

definition is_lower :: "char \<Rightarrow> bool" where
  "is_lower c = (let n = of_char c :: nat in 97 \<le> n \<and> n \<le> 122)"

fun split_words :: "string \<Rightarrow> string" where
  \<comment> \<open>\<open>replace(/([a-z])([A-Z])/g, '$1 $2')\<close>\<close>
  "split_words (a # b # cs) = (if is_lower a \<and> is_upper b then a # CHR '' '' # split_words (b # cs) else a # split_words (b # cs))"
| "split_words cs = cs"

definition constraint_model :: "string \<Rightarrow> string option" where
  \<comment> \<open>\<open>/^([A-Z][a-zA-Z]*)_/\<close>\<close>
  "constraint_model name =
     (case name of
        [] \<Rightarrow> None
      | c # cs \<Rightarrow>
          (let rest = dropWhile (\<lambda>x. is_upper x \<or> is_lower x) cs
           in if is_upper c \<and> rest \<noteq> [] \<and> hd rest = CHR ''_'' then Some (c # takeWhile (\<lambda>x. is_upper x \<or> is_lower x) cs) else None))"

definition parseRelationFromConstraint :: "string option \<Rightarrow> string option" where
  "parseRelationFromConstraint constraintName =
     (if \<not> truthy constraintName then None
      else case constraint_model (the constraintName) of
             None \<Rightarrow> None
           | Some modelName \<Rightarrow>
               (let wds = toLowerCase (split_words modelName)
                in Some (if wds \<noteq> [] \<and> last wds = CHR ''s'' then wds else wds @ ''s'')))"

record known_error =
  ke_code :: string
  ke_fieldName :: "string option"

definition prisma_errors_catch :: "known_error \<Rightarrow> nat \<times> string" where
  \<comment> \<open>the status and the message of the response\<close>
  "prisma_errors_catch e =
     (if ke_code e = ''P2003''
      then (409, case parseRelationFromConstraint (ke_fieldName e) of
          Some relation \<Rightarrow> (if relation \<noteq> [] then ''This record cannot be deleted because it has related '' @ relation
                           else ''This record cannot be deleted because other records depend on it'')
        | None \<Rightarrow> ''This record cannot be deleted because other records depend on it'')
      else (500, ''Internal server error''))"

subsection \<open>The service's conditions\<close>

lemma spread_into_map_of: "distinct (map fst b) \<Longrightarrow> map_of (spread_into a b) k = (case map_of b k of None \<Rightarrow> map_of a k | Some v \<Rightarrow> Some v)"
  unfolding spread_into_def
proof (induction b arbitrary: a)
  case (Cons p b)
  obtain k' v where p: "p = (k', v)" by force
  show ?case using Cons by (auto simp: p update_conv' map_of_eq_None_iff [THEN iffD2] split: option.split)
qed simp

text \<open>
  A condition that the service fixes holds in the query whatever the caller asks for the same column, and the conditions
  of the caller on other columns are kept: a caller cannot lift a restriction that a service puts on a list.
\<close>

theorem service_conditions_win:
  assumes "buildPrismaFindArgs deepmerge (Some q) (Some a) = Some fa" and "sv_where a = Some w" and "distinct (map fst w)"
  shows "map_of (fa_where fa) k = (case map_of w k of Some v \<Rightarrow> Some v | None \<Rightarrow> map_of (pq_where q) k)"
  using assms(1,2) spread_into_map_of [OF assms(3)] by (auto simp: buildPrismaFindArgs_def nullish_or_def split: option.splits)

theorem service_conditions_win_witness:
  "map_of (fa_where (the (buildPrismaFindArgs (\<lambda>a b. b)
      (Some \<lparr>pq_order = None, pq_limit = Some 10, pq_offset = Some 0, pq_include = None, pq_where = [(''parentQuestionId'', JStr ''q1''), (''active'', JBool True)]\<rparr>)
      (Some \<lparr>sv_other = [], sv_where = Some [(''parentQuestionId'', JNull)], sv_include = None\<rparr>)))) ''parentQuestionId'' = Some JNull"
proof -
  let ?q = "\<lparr>pq_order = None, pq_limit = Some 10, pq_offset = Some 0, pq_include = None, pq_where = [(''parentQuestionId'', JStr ''q1''), (''active'', JBool True)]\<rparr>"
  let ?a = "\<lparr>sv_other = [], sv_where = Some [(''parentQuestionId'', JNull)], sv_include = None\<rparr>"
  obtain fa where fa: "buildPrismaFindArgs (\<lambda>a b. b) (Some ?q) (Some ?a) = Some fa" by (simp add: buildPrismaFindArgs_def)
  then show ?thesis using service_conditions_win [OF fa, of "[(''parentQuestionId'', JNull)]" "''parentQuestionId''"] by simp
qed

subsection \<open>Pages\<close>

lemma pages_concat: "concat (map (\<lambda>i. take n (drop (i * n) xs)) [0..<m]) = take (m * n) xs"
proof (induction m)
  case (Suc m)
  then show ?case by (simp add: take_add [symmetric] add.commute)
qed simp

lemma sorted_rows_unique:
  assumes "mset xs = mset rows" and "sorted (map key xs)" and "distinct (map key rows)"
  shows "xs = sort_key key rows"
proof -
  have "map key xs = sort (map key rows)" using assms(1,2) by (metis mset_map properties_for_sort)
  also have "\<dots> = map key (sort_key key rows)" by (metis mset_map mset_sort properties_for_sort sorted_sort_key)
  finally have "map key xs = map key (sort_key key rows)" .
  moreover have "inj_on key (set xs \<union> set (sort_key key rows))"
    using assms(3) mset_eq_setD [OF assms(1)] by (simp add: distinct_map)
  ultimately show ?thesis by (rule map_inj_on)
qed

definition page_of :: "page_query \<Rightarrow> nat \<Rightarrow> nat \<Rightarrow> page_query" where
  \<comment> \<open>the query of a caller for page \<open>i\<close> with \<open>n\<close> rows to a page\<close>
  "page_of q n i = q\<lparr>pq_limit := Some (int n), pq_offset := Some (int (i * n))\<rparr>"

text \<open>
  C30: reading a list page by page, through the arguments the service builds for the caller's queries, gives every row
  that satisfies the service's conditions and the caller's conditions on other columns exactly once, in ascending order of
  the key, when the caller asks for an order by a key on which those rows differ. The database may answer each query
  in another order: of the rows it returns for a query only is known that they are the matching ones and that they
  are sorted by that key. Every page reports the number of all matching rows, and none is longer than
  asked for. Assumed of the database: the conditions of a \<open>where\<close> object are all required, each a condition on its column.
  Without an order on a distinguishing key, and the order is optional, rows can be repeated and left out:
  \<open>unordered_pages_repeat\<close>.
\<close>

theorem pages_cover:
  fixes key :: "'r \<Rightarrow> 'k::linorder"
  assumes "\<And>w r. matches w r \<longleftrightarrow> (\<forall>k v. map_of w k = Some v \<longrightarrow> column k v r)"
    and "\<And>i rs. mset (ordered i (pq_order q) rs) = mset rs \<and> sorted (map key (ordered i (pq_order q) rs))"
    and "sv_where svc = Some fixed" and "distinct (map fst fixed)"
    and shown: "shown = filter (\<lambda>r. \<forall>k v. map_of fixed k = Some v \<or> (map_of fixed k = None \<and> map_of (pq_where q) k = Some v) \<longrightarrow> column k v r) rows"
    and "distinct (map key shown)" and "length shown \<le> m * n"
  shows "\<exists>ps. map (\<lambda>i. findManyForPage matches (ordered i) (buildPrismaFindArgs deepmerge (Some (page_of q n i)) (Some svc)) rows) [0..<m] = map Inr ps
     \<and> concat (map pg_results ps) = sort_key key shown
     \<and> list_all (\<lambda>p. pg_count p = length shown \<and> length (pg_results p) \<le> n) ps"
proof -
  let ?w = "spread_into (pq_where q) fixed"
  let ?page = "\<lambda>i. \<lparr>pg_results = take n (drop (i * n) (sort_key key shown)), pg_count = length shown, pg_limit = length (take n (drop (i * n) (sort_key key shown))),
      pg_offset = Some (int (i * n))\<rparr>"
  have w: "filter (matches ?w) rows = shown"
    unfolding shown assms(1) spread_into_map_of [OF assms(4)] by (intro filter_cong HOL.refl) (auto split: option.splits)
  have order: "ordered i (pq_order q) shown = sort_key key shown" for i
    using sorted_rows_unique [OF _ _ assms(6)] assms(2) by blast
  have p: "findManyForPage matches (ordered i) (buildPrismaFindArgs deepmerge (Some (page_of q n i)) (Some svc)) rows = Inr (?page i)" for i
    by (simp add: findManyForPage_def findMany_def buildPrismaFindArgs_def page_of_def page_rows_def nullish_or_def nat_mult_distrib assms(3) w order flip: of_nat_mult)
  have "concat (map pg_results (map ?page [0..<m])) = take (m * n) (sort_key key shown)" by (simp add: comp_def pages_concat)
  then show ?thesis using assms(7) by (intro exI [of _ "map ?page [0..<m]"]) (auto simp: p list_all_iff)
qed

definition ex_page_query :: page_query where
  "ex_page_query = \<lparr>pq_order = Some (JStr ''asc''), pq_limit = None, pq_offset = None, pq_include = None, pq_where = [(''above'', JNum 9), (''below'', JNum 5)]\<rparr>"

definition ex_service_args :: service_args where
  "ex_service_args = \<lparr>sv_other = [], sv_where = Some [(''above'', JNum 1)], sv_include = None\<rparr>"

definition ex_column :: "string \<Rightarrow> json \<Rightarrow> int \<Rightarrow> bool" where
  "ex_column k v r = (case v of JNum x \<Rightarrow> if k = ''above'' then x < of_int r else of_int r < x | _ \<Rightarrow> False)"

theorem pages_cover_witness:
  "\<exists>ps. map (\<lambda>i. findManyForPage (\<lambda>w r. \<forall>k v. map_of w k = Some v \<longrightarrow> ex_column k v r) (\<lambda>_. sort)
        (buildPrismaFindArgs (\<lambda>a b. b) (Some (page_of ex_page_query 2 i)) (Some ex_service_args)) [4, 1, 3, 2, 7]) [0..<2] = map Inr ps
     \<and> concat (map pg_results ps) = [2, 3, 4]"
proof -
  let ?fixed = "[(''above'', JNum 1)]"
  let ?cond = "\<lambda>r. \<forall>k v. map_of ?fixed k = Some v \<or> (map_of ?fixed k = None \<and> map_of (pq_where ex_page_query) k = Some v) \<longrightarrow> ex_column k v r"
  have c: "?cond r \<longleftrightarrow> 1 < r \<and> r < 5" for r :: int
    by (auto simp: ex_page_query_def ex_column_def split: if_splits)
  have s: "[4, 3, 2 :: int] = filter ?cond [4, 1, 3, 2, 7]" unfolding c by simp
  have "sort_key (\<lambda>x :: int. x) [4, 3, 2] = [2, 3, 4]" by simp
  then show ?thesis
    using pages_cover [of "\<lambda>w r. \<forall>k v. map_of w k = Some v \<longrightarrow> ex_column k v r" ex_column "\<lambda>_ _. sort" "ex_page_query" "\<lambda>x. x" ex_service_args ?fixed "[4, 3, 2]" "[4, 1, 3, 2, 7]" 2 2 "\<lambda>a b. b", OF HOL.refl _ _ _ s]
    by (auto simp: ex_service_args_def)
qed

text \<open>
  Without an order the database may answer two queries in different orders, and then the pages of a list give a row twice and
  another one never. The lists of the API have no order unless the caller asks for one.
\<close>

theorem unordered_pages_repeat:
  "\<exists>(ordered :: nat \<Rightarrow> json option \<Rightarrow> int list \<Rightarrow> int list) ps. (\<forall>i ord rs. mset (ordered i ord rs) = mset rs)
     \<and> map (\<lambda>i. findManyForPage (\<lambda>_ _. True) (ordered i) (buildPrismaFindArgs (\<lambda>a b. b) (Some (page_of (ex_page_query\<lparr>pq_order := None\<rparr>) 1 i)) None) [1, 2]) [0..<2] = map Inr ps
     \<and> concat (map pg_results ps) = [1, 1]"
proof (intro exI conjI allI)
  let ?o = "\<lambda>(i :: nat) (_ :: json option). if i = 0 then id else rev"
  show "mset (?o i ord rs) = mset rs" for i ord and rs :: "int list" by simp
  let ?ps = "[\<lparr>pg_results = [1 :: int], pg_count = 2, pg_limit = 1, pg_offset = Some 0\<rparr>, \<lparr>pg_results = [1], pg_count = 2, pg_limit = 1, pg_offset = Some 1\<rparr>]"
  show "map (\<lambda>i. findManyForPage (\<lambda>_ _. True) (?o i) (buildPrismaFindArgs (\<lambda>a b. b) (Some (page_of (ex_page_query\<lparr>pq_order := None\<rparr>) 1 i)) None) [1, 2]) [0..<2] = map Inr ?ps"
    by (simp add: findManyForPage_def findMany_def buildPrismaFindArgs_def page_of_def page_rows_def nullish_or_def upt_conv_Cons)
  show "concat (map pg_results ?ps) = [1, 1]" by simp
qed

text \<open>The limit a page reports is the number of its results, not the limit it was asked for.\<close>

lemma reported_limit: "findManyForPage matches ordered args rows = Inr p \<Longrightarrow> pg_limit p = length (pg_results p)"
  by (auto simp: findManyForPage_def bindr_Inr_iff)

text \<open>A negative limit is not refused and gives the end of the list.\<close>

lemma negative_limit: "page_rows (Some (- 2)) (Some 0) [1::nat, 2, 3] = [2, 3]"
  by code_simp

subsection \<open>Messages\<close>

text \<open>
  The message names the related table in the plural of an \<open>s\<close>, so not every name is readable. The filter answers every
  violation of a foreign key with a refusal to delete, also when a new or changed row names a row that does not exist.
\<close>

lemma parse_examples:
  "parseRelationFromConstraint (Some ''Site_parentSiteId_fkey'') = Some ''sites''"
  "parseRelationFromConstraint (Some ''InspectionRoute_siteId_fkey'') = Some ''inspection routes''"
  "parseRelationFromConstraint (Some ''ProductCategory_clientId_fkey'') = Some ''product categorys''"
  "parseRelationFromConstraint (Some ''PersonClientAccess_roleId_fkey'') = Some ''person client access''"
  by code_simp+

lemma parsed_relation_plural: "parseRelationFromConstraint c = Some r \<Longrightarrow> r \<noteq> [] \<and> last r = CHR ''s''"
  by (auto simp: parseRelationFromConstraint_def Let_def split: if_splits option.splits)

lemma foreign_key_status: "fst (prisma_errors_catch e) = (if ke_code e = ''P2003'' then 409 else 500)"
  by (simp add: prisma_errors_catch_def)

end
