(* ===== verification/Text_Tables.thy ===== *)
theory Text_Tables
  imports "HOL-Library.Multiset" Js_Values
begin

section \<open>Tables in plain-text e-mails\<close>

text \<open>
  \<^verbatim>\<open>src/src/notifications/templates/utils/text.ts\<close>. An object is a list of pairs in insertion order, so
  property names are not integers.
\<close>

datatype text_error = TypeError | RangeError

type_synonym text_row = "(string, string) jmap"

definition maxContents :: "(string, string list) jmap \<Rightarrow> (string \<times> int) list" where
  "maxContents columns = map (\<lambda>(k, vs). (k, int (Max (set (map length vs))))) columns"

definition paddingWidth :: "nat \<Rightarrow> int" where
  "paddingWidth n = (int n - 1) * 3"

fun share_widths :: "int \<Rightarrow> (string \<times> int) list \<Rightarrow> (string \<times> int) list" where
  \<comment> \<open>the remaining width is shared by the remaining columns\<close>
  "share_widths remaining [] = []"
| "share_widths remaining ((k, m) # cs) =
     (let w = min (remaining div int (length ((k, m) # cs))) m in (k, w) # share_widths (remaining - w) cs)"

definition calculateColumnWidths :: "(string, string list) jmap \<Rightarrow> int \<Rightarrow> (string, int) jmap" where
  "calculateColumnWidths columns width =
     (let maxs = maxContents columns
      in if sum_list (map snd maxs) + paddingWidth (length columns) \<le> width then maxs
         else foldl (\<lambda>m (k, w). AList.update k w m) maxs
           (share_widths (width - paddingWidth (length columns)) (sort_key (\<lambda>(k, m). - m) maxs)))"

definition formatRow :: "text_row \<Rightarrow> string" where
  "formatRow row = join_with '' | '' (map snd row)"

definition column_values :: "(string \<times> string) list \<Rightarrow> text_row list \<Rightarrow> string \<times> string \<Rightarrow> text_error + string list" where
  \<comment> \<open>a property that is missing is \<open>undefined\<close>, and its length is a \<open>TypeError\<close>\<close>
  "column_values headers data h =
     (if list_all (\<lambda>row. map_of row (fst h) \<noteq> None) data then Inr (snd h # map (\<lambda>row. the (map_of row (fst h))) data) else Inl TypeError)"

fun all_columns :: "(string \<times> string) list \<Rightarrow> text_row list \<Rightarrow> (string \<times> string) list \<Rightarrow> text_error + (string \<times> string list) list" where
  "all_columns headers data [] = Inr []"
| "all_columns headers data (h # hs) =
     bindr (column_values headers data h) (\<lambda>vs. bindr (all_columns headers data hs) (\<lambda>r. Inr ((fst h, vs) # r)))"

definition from_entries :: "('k \<times> 'v) list \<Rightarrow> ('k, 'v) jmap" where
  "from_entries ps = foldl (\<lambda>m (k, v). AList.update k v m) [] ps"

definition buildTextTable :: "(string \<times> string) list \<Rightarrow> text_row list \<Rightarrow> int \<Rightarrow> text_error + string" where
  "buildTextTable headers data width =
     bindr (all_columns headers data headers) (\<lambda>cs.
     let widths = calculateColumnWidths (from_entries cs) width
     in if list_ex (\<lambda>h. the (map_of widths (fst h)) < 0) headers then Inl RangeError
        else Inr (join_with [CHR 0x0A]
          ([formatRow (from_entries headers), join_with '' | '' (map (\<lambda>h. replicate (nat (the (map_of widths (fst h)))) CHR ''-'') headers)] @ map formatRow data)))"

subsection \<open>The widths fit\<close>

lemma share_length [simp]: "length (share_widths r cs) = length cs" "map fst (share_widths r cs) = map fst cs"
  by (induction r cs rule: share_widths.induct) (simp_all add: Let_def)

lemma share_sum: "cs \<noteq> [] \<Longrightarrow> sum_list (map snd (share_widths r cs)) \<le> r"
proof (induction r cs rule: share_widths.induct)
  case (2 r k m cs)
  let ?w = "min (r div int (length ((k, m) # cs))) m"
  show ?case
  proof (cases "cs = []")
    case False
    then show ?thesis using 2 by (simp add: Let_def)
  qed (simp add: Let_def)
qed simp

lemma share_fair:
  "(k, w) \<in> set (share_widths r cs) \<Longrightarrow> \<exists>m. (k, m) \<in> set cs \<and> w \<le> m \<and> min m (r div int (length cs)) \<le> w"
proof (induction r cs rule: share_widths.induct)
  case (2 r k0 m0 cs)
  let ?n = "int (length cs)"
  define q where "q = r div (?n + 1)"
  define w0 where "w0 = min q m0"
  have w0: "min (r div int (length ((k0, m0) # cs))) m0 = w0" by (simp add: w0_def q_def add.commute)
  from 2(2) consider "(k, w) = (k0, w0)" | "(k, w) \<in> set (share_widths (r - w0) cs)" unfolding share_widths.simps Let_def w0 by auto
  then show ?case
  proof cases
    case 1
    then show ?thesis unfolding w0_def q_def by (intro exI [of _ m0]) (auto simp: add.commute)
  next
    case 2
    then obtain m where m: "(k, m) \<in> set cs" "w \<le> m" "min m ((r - w0) div ?n) \<le> w" using "2.IH" [OF HOL.refl] unfolding w0 by blast
    have n: "0 < ?n" using m(1) by (cases cs) auto
    have "q * (?n + 1) = r - r mod (?n + 1)" unfolding q_def by (simp add: minus_mod_eq_div_mult)
    then have "q * (?n + 1) \<le> r" using n by simp
    then have "q * ?n \<le> r - w0" unfolding w0_def by (simp add: algebra_simps min_le_iff_disj)
    then have "q \<le> (r - w0) div ?n" using zdiv_mono1 [of "q * ?n" "r - w0" ?n] n by simp
    then have "min m (r div int (length ((k0, m0) # cs))) \<le> w" using m(3) by (simp add: q_def add.commute)
    then show ?thesis using m(1,2) by auto
  qed
qed simp

lemma update_keys: "k \<in> fst ` set m \<Longrightarrow> map fst (AList.update k v m) = map fst m"
  by (induction m) auto

lemma updates_all_keys:
  "fst ` set ps \<subseteq> fst ` set m \<Longrightarrow> map fst (foldl (\<lambda>m (k, v). AList.update k v m) m ps) = map fst m"
proof (induction ps arbitrary: m)
  case (Cons p ps)
  obtain k v where p: "p = (k, v)" by force
  have keys: "map fst (AList.update k v m) = map fst m" using Cons.prems p by (intro update_keys) auto
  then have "fst ` set (AList.update k v m) = fst ` set m" by (metis list.set_map)
  then show ?case using Cons.IH [of "AList.update k v m"] Cons.prems p keys by simp
qed simp

lemma updates_values:
  "distinct (map fst ps) \<Longrightarrow> map_of (foldl (\<lambda>m (k, v). AList.update k v m) m ps) k = (case map_of ps k of None \<Rightarrow> map_of m k | Some v \<Rightarrow> Some v)"
proof (induction ps arbitrary: m)
  case (Cons p ps)
  obtain k' v where p: "p = (k', v)" by force
  show ?case using Cons p by (auto simp: update_conv' map_of_eq_None_iff [THEN iffD2] split: option.split)
qed simp

lemma same_map_mset:
  assumes "distinct (map fst xs)" and "distinct (map fst ys)" and "map_of xs = map_of ys"
  shows "mset xs = mset ys"
proof -
  have "set xs = set ys" using assms by (metis map_of_eqI map_of_inject_set)
  moreover have "distinct xs" "distinct ys" using assms(1,2) by (auto simp: distinct_map)
  ultimately show ?thesis by (metis mset_set_set)
qed

lemma shared_perm:
  assumes d: "distinct (map fst maxs)" and p: "mset srt = mset maxs"
  shows "mset (foldl (\<lambda>m (k, w). AList.update k w m) maxs (share_widths r srt)) = mset (share_widths r srt)"
    and "map fst (foldl (\<lambda>m (k, w). AList.update k w m) maxs (share_widths r srt)) = map fst maxs"
proof -
  let ?s = "share_widths r srt"
  have set: "set srt = set maxs" using p by (rule mset_eq_setD)
  have keys: "map fst ?s = map fst srt" by simp
  have ds: "distinct (map fst ?s)" unfolding keys using d p by (metis mset_eq_imp_distinct_iff mset_map)
  have ks: "fst ` set ?s = fst ` set maxs" using keys set by (metis list.set_map)
  show eq: "map fst (foldl (\<lambda>m (k, w). AList.update k w m) maxs ?s) = map fst maxs" by (rule updates_all_keys) (simp add: ks)
  show "mset (foldl (\<lambda>m (k, w). AList.update k w m) maxs ?s) = mset ?s"
  proof (rule same_map_mset)
    show "distinct (map fst (foldl (\<lambda>m (k, w). AList.update k w m) maxs ?s))" using d eq by simp
    show "map_of (foldl (\<lambda>m (k, w). AList.update k w m) maxs ?s) = map_of ?s"
    proof
      fix k
      have "map_of ?s k = None \<Longrightarrow> map_of maxs k = None" using ks by (simp add: map_of_eq_None_iff)
      then show "map_of (foldl (\<lambda>m (k, w). AList.update k w m) maxs ?s) k = map_of ?s k" unfolding updates_values [OF ds] by (auto split: option.split)
    qed
  qed (rule ds)
qed

text \<open>
  The columns of a table fit its width: with the separators the widths add up to at most the width, no
  column is wider than its longest value, and each gets at least its longest value or an equal share of the
  width that the separators leave, whichever is less.
\<close>

theorem columns_fit:
  assumes "columns \<noteq> []" and "distinct (map fst columns)" and "list_all (\<lambda>(k, vs). vs \<noteq> []) columns"
  shows "let widths = calculateColumnWidths columns width; share = (width - paddingWidth (length columns)) div int (length columns)
    in map fst widths = map fst columns
       \<and> sum_list (map snd widths) + paddingWidth (length columns) \<le> width
       \<and> list_all (\<lambda>(k, w). list_ex (\<lambda>(k', vs). k' = k \<and> w \<le> int (Max (set (map length vs))) \<and> min (int (Max (set (map length vs)))) share \<le> w) columns) widths"
proof -
  let ?maxs = "maxContents columns" and ?pad = "paddingWidth (length columns)"
  have keys: "map fst ?maxs = map fst columns" by (simp add: maxContents_def case_prod_unfold)
  have vals: "\<exists>vs. (k, vs) \<in> set columns \<and> m = int (Max (set (map length vs)))" if "(k, m) \<in> set ?maxs" for k m
    using that unfolding maxContents_def by auto
  show ?thesis
  proof (cases "sum_list (map snd ?maxs) + ?pad \<le> width")
    case True
    then show ?thesis using keys vals by (force simp: calculateColumnWidths_def Let_def list_all_iff list_ex_iff)
  next
    case False
    let ?srt = "sort_key (\<lambda>(k, m). - m) ?maxs"
    let ?s = "share_widths (width - ?pad) ?srt"
    have w: "calculateColumnWidths columns width = foldl (\<lambda>m (k, w). AList.update k w m) ?maxs ?s"
      using False by (simp add: calculateColumnWidths_def Let_def)
    have len: "length ?srt = length columns" using keys by (simp add: maxContents_def)
    have ne: "?srt \<noteq> []" using len assms(1) by (metis length_0_conv)
    have d: "distinct (map fst ?maxs)" using assms(2) keys by simp
    note perm = shared_perm [OF d mset_sort, of "width - ?pad" "\<lambda>(k, m). - m", folded w]
    have sum: "sum_list (map snd (calculateColumnWidths columns width)) = sum_list (map snd ?s)"
      using perm(1) by (metis mset_map sum_mset_sum_list)
    have set: "set (calculateColumnWidths columns width) = set ?s" using perm(1) by (rule mset_eq_setD)
    have "list_ex (\<lambda>(k', vs). k' = k \<and> w \<le> int (Max (set (map length vs))) \<and> min (int (Max (set (map length vs)))) ((width - ?pad) div int (length columns)) \<le> w) columns"
      if sh: "(k, w) \<in> set ?s" for k w
    proof -
      obtain m where m: "(k, m) \<in> set ?srt" "w \<le> m" "min m ((width - ?pad) div int (length ?srt)) \<le> w" using share_fair [OF sh] by blast
      then obtain vs where "(k, vs) \<in> set columns" "m = int (Max (set (map length vs)))" using vals [of k m] by auto
      then show ?thesis using m(2,3) unfolding len by (auto simp: list_ex_iff intro!: bexI [of _ "(k, vs)"])
    qed
    then show ?thesis using share_sum [OF ne, of "width - ?pad"] perm(2) keys by (auto simp: Let_def sum set list_all_iff)
  qed
qed

theorem columns_fit_witness:
  "sum_list (map snd (calculateColumnWidths [(''Name'', [''Name'', ''Fire extinguisher'']), (''Qty'', [''Qty'', ''12''])] 20)) + paddingWidth 2 \<le> 20"
  using columns_fit [of "[(''Name'', [''Name'', ''Fire extinguisher'']), (''Qty'', [''Qty'', ''12''])]" 20] by (simp add: Let_def numeral_2_eq_2)

text \<open>
  Widths are given out to the widest columns first, not in ascending order as the comment says; what narrow columns
  leave over is lost: here 5 of the 20 characters, although the first column is cut.
\<close>

lemma width_wasted: "calculateColumnWidths [(''Name'', [''Fire extinguisher'']), (''Qty'', [''Qty''])] 20 = [(''Name'', 8), (''Qty'', 3)]"
  by code_simp

end
