(* ===== verification/Asset_Access.thy ===== *)
theory Asset_Access
  imports Request_Guards Tags Asset_Questions
begin

section \<open>Alerts, public look-ups and metadata of assets\<close>

text \<open>
  \<^verbatim>\<open>src/src/assets/alerts/alerts.service.ts\<close>, \<^verbatim>\<open>src/src/assets/inspections/inspections-public.service.ts\<close>
  with its controller, \<^verbatim>\<open>src/src/m2m/m2m.service.ts\<close>, and the offered metadata, the reminders and the telephone
  numbers of \<^verbatim>\<open>src/src/assets/assets/assets.service.ts\<close>. A property of a \<open>where\<close> clause that is
  \<open>undefined\<close> is no condition. Relations that are included without a condition are left out.
\<close>

subsection \<open>Alerts\<close>

record full_alert = alert_row +
  fa_resolvedById :: "id option"
  fa_inspectionImageUrl :: "string option"

definition shown_alert :: "rls_session \<Rightarrow> full_alert \<Rightarrow> bool" where
  "shown_alert sess a = alert_visible sess (alert_row.truncate a)"

definition undefined_identifier :: api_error where
  \<comment> \<open>\<open>connect: {id: undefined}\<close> is refused\<close>
  "undefined_identifier = ServerError ''validation''"

definition alert_findOne :: "rls_session \<Rightarrow> id \<Rightarrow> full_alert list \<Rightarrow> full_alert result" where
  "alert_findOne sess i alerts =
     (case find_by al_id i (filter (shown_alert sess) alerts) of None \<Rightarrow> as404OrThrow (Inl (ServerError ''P2025'')) | Some a \<Rightarrow> Inr a)"

definition findOneAlert :: "rls_session \<Rightarrow> id \<Rightarrow> id \<Rightarrow> full_alert list \<Rightarrow> full_alert result" where
  "findOneAlert sess assetId alertId alerts =
     (case find_by al_id alertId (filter (\<lambda>a. shown_alert sess a \<and> al_assetId a = assetId) alerts) of
        None \<Rightarrow> as404OrThrow (Inl (ServerError ''P2025'')) | Some a \<Rightarrow> Inr a)"

definition resolveAlert ::
    "rls_session \<Rightarrow> id option \<Rightarrow> (id \<Rightarrow> bool) \<Rightarrow> time \<Rightarrow> id \<Rightarrow> string \<Rightarrow> full_alert list \<Rightarrow> (full_alert \<times> full_alert list) result" where
  \<comment> \<open>\<open>personId\<close> is \<open>$rlsContext()?.personId\<close>; \<open>shown\<close> are the people the session shows\<close>
  "resolveAlert sess personId shown now alertId resolutionNote alerts =
     as404OrThrow
       (case personId of
          None \<Rightarrow> Inl undefined_identifier
        | Some p \<Rightarrow>
            (case find_by al_id alertId (filter (\<lambda>a. shown_alert sess a \<and> \<not> al_resolved a) alerts) of
               None \<Rightarrow> Inl (ServerError ''P2025'')
             | Some a \<Rightarrow>
                 if \<not> shown p then Inl (ServerError ''P2025'')
                 else (let a' = a\<lparr>al_modifiedOn := now, al_resolved := True, al_resolvedOn := Some now, al_resolutionNote := Some resolutionNote, fa_resolvedById := Some p\<rparr>
                       in Inr (a', map (\<lambda>x. if al_id x = alertId then a' else x) alerts))))"

definition attachInspectionImage :: "rls_session \<Rightarrow> time \<Rightarrow> id \<Rightarrow> string \<Rightarrow> full_alert list \<Rightarrow> (full_alert \<times> full_alert list) result" where
  "attachInspectionImage sess now alertId url alerts =
     (case find_by al_id alertId (filter (shown_alert sess) alerts) of
        None \<Rightarrow> Inl (ServerError ''P2025'')
      | Some a \<Rightarrow>
          (let a' = a\<lparr>al_modifiedOn := now, fa_inspectionImageUrl := Some url\<rparr>
           in Inr (a', map (\<lambda>x. if al_id x = alertId then a' else x) alerts)))"

datatype alert_call =
    Resolve rls_session "id option" "id \<Rightarrow> bool" time id string
  | Attach rls_session time id string

definition after_call :: "'s \<Rightarrow> ('a \<times> 's) result \<Rightarrow> 's" where
  "after_call s r = (case r of Inl _ \<Rightarrow> s | Inr (_, s') \<Rightarrow> s')"

fun alert_calls :: "alert_call list \<Rightarrow> full_alert list \<Rightarrow> full_alert list" where
  "alert_calls [] alerts = alerts"
| "alert_calls (Resolve sess p shown now i note # cs) alerts = alert_calls cs (after_call alerts (resolveAlert sess p shown now i note alerts))"
| "alert_calls (Attach sess now i url # cs) alerts = alert_calls cs (after_call alerts (attachInspectionImage sess now i url alerts))"

definition alert_progress :: "full_alert \<Rightarrow> full_alert \<Rightarrow> bool" where
  \<comment> \<open>what may happen to an alert\<close>
  "alert_progress a b \<longleftrightarrow>
     al_id b = al_id a \<and> al_createdOn b = al_createdOn a \<and> al_alertLevel b = al_alertLevel a \<and> al_message b = al_message a
     \<and> al_assetId b = al_assetId a \<and> al_inspectionId b = al_inspectionId a \<and> al_responseId b = al_responseId a \<and> al_criterionId b = al_criterionId a
     \<and> al_siteId b = al_siteId a \<and> al_clientId b = al_clientId a
     \<and> (al_resolved a \<longrightarrow> al_resolved b \<and> al_resolvedOn b = al_resolvedOn a \<and> al_resolutionNote b = al_resolutionNote a \<and> fa_resolvedById b = fa_resolvedById a)
     \<and> (\<not> al_resolved a \<and> al_resolved b \<longrightarrow> al_resolvedOn b \<noteq> None \<and> al_resolutionNote b \<noteq> None \<and> fa_resolvedById b \<noteq> None)"

lemma alert_progress_refl: "alert_progress a a"
  by (simp add: alert_progress_def)

lemma alert_progress_trans: "alert_progress a b \<Longrightarrow> alert_progress b c \<Longrightarrow> alert_progress a c"
  unfolding alert_progress_def by (cases "al_resolved a"; cases "al_resolved b") simp_all

lemma replaced_progress:
  assumes "distinct (map al_id alerts)" and "a \<in> set alerts" and "alert_progress a a'"
  shows "list_all2 alert_progress alerts (map (\<lambda>x. if al_id x = al_id a then a' else x) alerts)"
proof -
  have "alert_progress x (if al_id x = al_id a then a' else x)" if "x \<in> set alerts" for x
    using that assms alert_progress_refl by (metis distinct_map inj_onD)
  then show ?thesis unfolding list_all2_map2 by (simp add: list_all2_same)
qed

lemma resolveAlert_progress:
  assumes "distinct (map al_id alerts)" and "resolveAlert sess p shown now i nt alerts = Inr (a', alerts')"
  shows "list_all2 alert_progress alerts alerts'"
proof -
  from assms(2) obtain a q where f: "find_by al_id i (filter (\<lambda>a. shown_alert sess a \<and> \<not> al_resolved a) alerts) = Some a"
    and alerts': "alerts' = map (\<lambda>x. if al_id x = i then a\<lparr>al_modifiedOn := now, al_resolved := True, al_resolvedOn := Some now,
        al_resolutionNote := Some nt, fa_resolvedById := Some q\<rparr> else x) alerts"
    by (auto simp: resolveAlert_def Let_def split: option.splits if_splits)
  have a: "a \<in> set alerts" "al_id a = i" "\<not> al_resolved a" using find_by_SomeD [OF f] by auto
  show ?thesis unfolding alerts' a(2) [symmetric] by (rule replaced_progress [OF assms(1) a(1)]) (use a(3) in \<open>simp add: alert_progress_def\<close>)
qed

lemma attach_progress:
  assumes "distinct (map al_id alerts)" and "attachInspectionImage sess now i url alerts = Inr (a', alerts')"
  shows "list_all2 alert_progress alerts alerts'"
proof -
  from assms(2) obtain a where f: "find_by al_id i (filter (shown_alert sess) alerts) = Some a"
    and alerts': "alerts' = map (\<lambda>x. if al_id x = i then a\<lparr>al_modifiedOn := now, fa_inspectionImageUrl := Some url\<rparr> else x) alerts"
    by (auto simp: attachInspectionImage_def Let_def split: option.splits)
  have a: "a \<in> set alerts" "al_id a = i" using find_by_SomeD [OF f] by auto
  show ?thesis unfolding alerts' a(2) [symmetric] by (rule replaced_progress [OF assms(1) a(1)]) (simp add: alert_progress_def)
qed

lemma progress_ids: "list_all2 alert_progress xs ys \<Longrightarrow> map al_id ys = map al_id xs"
  by (induction rule: list_all2_induct) (auto simp: alert_progress_def)


definition ex_full_alert :: full_alert where
  "ex_full_alert = \<lparr>al_id = ''l1'', al_createdOn = 0, al_modifiedOn = 0, al_alertLevel = URGENT, al_message = ''low'', al_resolved = False,
     al_resolvedOn = None, al_resolutionNote = None, al_assetId = ''a1'', al_inspectionId = ''i1'', al_responseId = ''r1'', al_criterionId = ''k1'',
     al_siteId = ''s1'', al_clientId = ''c1'', fa_resolvedById = None, fa_inspectionImageUrl = None\<rparr>"


subsection \<open>Public look-ups\<close>

record public_db =
  pb_tags :: "tag_row list"
  pb_assets :: "asset_row list"
  pb_alerts :: "full_alert list"
  pb_inspections :: "inspection_row list"

record tag_id_check =
  ic_isValid :: bool
  ic_tag :: "tag_row option"
  ic_inspectionToken :: "string option"

definition matches_undefined :: "'v option \<Rightarrow> 'v \<Rightarrow> bool" where
  \<comment> \<open>a condition \<open>{column: value}\<close> whose value may be \<open>undefined\<close>\<close>
  "matches_undefined w v = (case w of None \<Rightarrow> True | Some x \<Rightarrow> v = x)"

definition isValidTagId ::
    "('c, signing_key) cache_ops \<Rightarrow> sign_env \<Rightarrow> time \<Rightarrow> id option \<Rightarrow> id option \<Rightarrow> public_db \<Rightarrow> 'c \<Rightarrow> signing_key list
     \<Rightarrow> tag_id_check result \<times> 'c \<times> signing_key list" where
  "isValidTagId ops env now i extId db c keys =
     (if \<not> truthy i \<and> \<not> truthy extId then (Inl (BadRequestException ''Either id or extId must be provided''), c, keys)
      else case List.find (\<lambda>t. matches_undefined i (tg_id t) \<and> matches_undefined extId (tg_externalId t)) (pb_tags db) of
          None \<Rightarrow> (Inr \<lparr>ic_isValid = False, ic_tag = None, ic_inspectionToken = None\<rparr>, c, keys)
        | Some t \<Rightarrow>
            (let (r, c', keys') = generateInspectionToken ops env now (tg_serialNumber t) (tg_externalId t) c keys
             in (bindr r (\<lambda>token. Inr \<lparr>ic_isValid = True, ic_tag = Some t, ic_inspectionToken = Some token\<rparr>), c', keys')))"

definition on_tag :: "id option \<Rightarrow> public_db \<Rightarrow> asset_row \<Rightarrow> bool" where
  \<comment> \<open>\<open>tag: {externalId}\<close>\<close>
  "on_tag tagExternalId db a = list_ex (\<lambda>t. as_tagId a = Some (tg_id t) \<and> matches_undefined tagExternalId (tg_externalId t)) (pb_tags db)"

definition tagged_asset :: "id option \<Rightarrow> public_db \<Rightarrow> id \<Rightarrow> bool" where
  "tagged_asset tagExternalId db i = list_ex (\<lambda>a. as_id a = i \<and> on_tag tagExternalId db a) (pb_assets db)"

record inspection_history =
  ih_asset :: "asset_row option"
  ih_unresolvedAlerts :: "full_alert list"
  ih_inspections :: "inspection_row list"

definition getInspectionHistory :: "sign_env \<Rightarrow> string \<Rightarrow> public_db \<Rightarrow> inspection_history" where
  "getInspectionHistory env token db =
     (let tagExternalId = it_tagExternalId (parseInspectionToken env token)
      in \<lparr>ih_asset = List.find (on_tag tagExternalId db) (pb_assets db),
          ih_unresolvedAlerts = filter (\<lambda>a. tagged_asset tagExternalId db (al_assetId a) \<and> \<not> al_resolved a) (pb_alerts db),
          ih_inspections = filter (\<lambda>r. tagged_asset tagExternalId db (is_assetId r)) (pb_inspections db)\<rparr>)"

definition inspections_public_policy :: "(string \<Rightarrow> bool result) \<Rightarrow> (request \<Rightarrow> header_value) \<Rightarrow> public_policy" where
  \<comment> \<open>\<open>isValid\<close> is the answer of \<open>validateInspectionToken\<close>\<close>
  "inspections_public_policy isValid tokenOf ctx =
     (let inspectionToken = firstOf (tokenOf (ppc_request ctx))
      in if \<not> truthy inspectionToken then Inr False else isValid (the inspectionToken))"

definition history_endpoint :: "(string \<Rightarrow> bool result) \<Rightarrow> (request \<Rightarrow> header_value) \<Rightarrow> endpoint" where
  "history_endpoint isValid tokenOf =
     \<lparr>ep_isPublic = None, ep_skipAccessGrantValidation = None, ep_policies = None, ep_publicPolicies = Some [inspections_public_policy isValid tokenOf]\<rparr>"

lemma public_endpoint_admits:
  assumes "validateJwtToken (env_verify env) (extractTokenFromRequest req) = Not_valid reason" and "nullish_or (ep_publicPolicies ep) [] \<noteq> []"
  shows "is_ok (fst (admit env ep req st))"
proof -
  from assms(2) have "allowPublic ep" by (simp add: allowPublic_def getPolicyHandlers_def)
  from auth_canActivate_public_of_NotValid [OF assms(1) this, where cls = cls_empty and st = st]
  show ?thesis by (auto simp: admit_def policies_canActivate_def case_prod_unfold Let_def)
qed

lemma named_tag:
  assumes "CHR ''.'' \<notin> set pre" "CHR ''.'' \<notin> set ext" "rest = [] \<or> hd rest = CHR ''.''" "se_decode env token = pre @ CHR ''.'' # ext @ rest"
  shows "it_tagExternalId (parseInspectionToken env token) = Some ext"
proof (cases rest)
  case Nil
  then show ?thesis using assms by (simp add: parseInspectionToken_def split_on_append_sep split_on_no_sep nth_part_def)
next
  case (Cons c cs)
  then have "split_on (CHR ''.'') (se_decode env token) = pre # ext # split_on (CHR ''.'') cs" using assms by (simp add: split_on_append_sep)
  then show ?thesis by (simp add: parseInspectionToken_def nth_part_def Let_def)
qed

text \<open>
  C31: the public history of inspections is open. A request without a valid bearer token reaches it whatever the check of
  its inspection token answers. A token that decodes to a text whose second part, between dots, is the external identifier of a
  tag is answered with exactly the inspections, and exactly the open alerts, of the assets on that tag, whatever the other parts
  are: anybody can make such a token up, as the signature and the expiry date are not read. A token without a second part
  names no tag, and the answer is every inspection and every open alert of every asset of every client that has a tag.
  The controller declares a policy that checks the token, and \<^verbatim>\<open>docs/assets.md\<close> says that the history needs one, signed and
  valid for an hour; the guard never evaluates such a policy.
\<close>

theorem history_is_public:
  assumes "validateJwtToken (env_verify env) (extractTokenFromRequest req) = Not_valid reason"
  shows "is_ok (fst (admit env (history_endpoint isValid tokenOf) req st))
    \<and> (\<forall>pre ext rest. CHR ''.'' \<notin> set pre \<and> CHR ''.'' \<notin> set ext \<and> (rest = [] \<or> hd rest = CHR ''.'') \<and> se_decode senv token = pre @ CHR ''.'' # ext @ rest \<longrightarrow>
         ih_inspections (getInspectionHistory senv token db)
           = filter (\<lambda>r. \<exists>a\<in>set (pb_assets db). \<exists>t\<in>set (pb_tags db). as_id a = is_assetId r \<and> as_tagId a = Some (tg_id t) \<and> tg_externalId t = ext) (pb_inspections db)
         \<and> ih_unresolvedAlerts (getInspectionHistory senv token db)
           = filter (\<lambda>l. \<not> al_resolved l \<and> (\<exists>a\<in>set (pb_assets db). \<exists>t\<in>set (pb_tags db). as_id a = al_assetId l \<and> as_tagId a = Some (tg_id t) \<and> tg_externalId t = ext)) (pb_alerts db))
    \<and> (CHR ''.'' \<notin> set (se_decode senv token) \<longrightarrow>
         ih_inspections (getInspectionHistory senv token db)
           = filter (\<lambda>r. list_ex (\<lambda>a. as_id a = is_assetId r \<and> list_ex (\<lambda>t. as_tagId a = Some (tg_id t)) (pb_tags db)) (pb_assets db)) (pb_inspections db)
         \<and> ih_unresolvedAlerts (getInspectionHistory senv token db)
           = filter (\<lambda>l. \<not> al_resolved l \<and> list_ex (\<lambda>a. as_id a = al_assetId l \<and> list_ex (\<lambda>t. as_tagId a = Some (tg_id t)) (pb_tags db)) (pb_assets db)) (pb_alerts db))"
proof (intro conjI allI impI)
  show "is_ok (fst (admit env (history_endpoint isValid tokenOf) req st))"
    by (rule public_endpoint_admits [OF assms]) (simp add: history_endpoint_def nullish_or_def)
next
  fix pre ext rest
  assume named: "CHR ''.'' \<notin> set pre \<and> CHR ''.'' \<notin> set ext \<and> (rest = [] \<or> hd rest = CHR ''.'') \<and> se_decode senv token = pre @ CHR ''.'' # ext @ rest"
  then have tag: "it_tagExternalId (parseInspectionToken senv token) = Some ext" by (intro named_tag) auto
  have on: "tagged_asset (Some ext) db i \<longleftrightarrow> (\<exists>a\<in>set (pb_assets db). \<exists>t\<in>set (pb_tags db). as_id a = i \<and> as_tagId a = Some (tg_id t) \<and> tg_externalId t = ext)" for i
    by (auto simp: tagged_asset_def on_tag_def matches_undefined_def list_ex_iff)
  show "ih_inspections (getInspectionHistory senv token db)
      = filter (\<lambda>r. \<exists>a\<in>set (pb_assets db). \<exists>t\<in>set (pb_tags db). as_id a = is_assetId r \<and> as_tagId a = Some (tg_id t) \<and> tg_externalId t = ext) (pb_inspections db)"
    "ih_unresolvedAlerts (getInspectionHistory senv token db)
      = filter (\<lambda>l. \<not> al_resolved l \<and> (\<exists>a\<in>set (pb_assets db). \<exists>t\<in>set (pb_tags db). as_id a = al_assetId l \<and> as_tagId a = Some (tg_id t) \<and> tg_externalId t = ext)) (pb_alerts db)"
    by (simp_all add: getInspectionHistory_def Let_def tag on conj_commute)
next
  assume "CHR ''.'' \<notin> set (se_decode senv token)"
  then have none: "it_tagExternalId (parseInspectionToken senv token) = None" by (simp add: split_on_no_sep parseInspectionToken_def nth_part_def)
  show "ih_inspections (getInspectionHistory senv token db)
      = filter (\<lambda>r. list_ex (\<lambda>a. as_id a = is_assetId r \<and> list_ex (\<lambda>t. as_tagId a = Some (tg_id t)) (pb_tags db)) (pb_assets db)) (pb_inspections db)"
    "ih_unresolvedAlerts (getInspectionHistory senv token db)
      = filter (\<lambda>l. \<not> al_resolved l \<and> list_ex (\<lambda>a. as_id a = al_assetId l \<and> list_ex (\<lambda>t. as_tagId a = Some (tg_id t)) (pb_tags db)) (pb_assets db)) (pb_alerts db)"
    by (simp_all add: getInspectionHistory_def Let_def none tagged_asset_def on_tag_def matches_undefined_def conj_commute)
qed

definition ex_public_db :: public_db where
  "ex_public_db = \<lparr>pb_tags = [\<lparr>tg_id = ''t1'', tg_externalId = ''e1'', tg_serialNumber = ''S'', tg_siteId = None, tg_clientId = Some ''c1''\<rparr>],
     pb_assets = [ex_answer_asset\<lparr>as_tagId := Some ''t1''\<rparr>], pb_alerts = [ex_full_alert],
     pb_inspections = [\<lparr>is_id = ''i1'', is_createdOn = 0, is_modifiedOn = 0, is_assetId = ''a1'', is_inspectorId = ''u1'', is_status = INSPECTION_COMPLETE, is_comments = None,
       is_siteId = ''s1'', is_clientId = ''c1''\<rparr>]\<rparr>"

theorem history_is_public_witness:
  "is_ok (fst (admit ex_auth_env (history_endpoint (\<lambda>_. Inr False) (\<lambda>_. Absent)) (ex_request\<lparr>hdr_authorization := None\<rparr>) ex_auth_state))
   \<and> map is_id (ih_inspections (getInspectionHistory ex_sign_env ''x.e1.made-up'' ex_public_db)) = [''i1'']
   \<and> ih_inspections (getInspectionHistory ex_sign_env ''x.e2'' ex_public_db) = []"
proof -
  have "validateJwtToken (env_verify ex_auth_env) (extractTokenFromRequest (ex_request\<lparr>hdr_authorization := None\<rparr>))
      = Not_valid ''Authentication token is required.''"
    by (simp add: validateJwtToken_def extractTokenFromRequest_def ex_request_def)
  note public = history_is_public [OF this, of "\<lambda>_. Inr False" "\<lambda>_. Absent" ex_auth_state ex_sign_env _ ex_public_db]
  have "is_ok (fst (admit ex_auth_env (history_endpoint (\<lambda>_. Inr False) (\<lambda>_. Absent)) (ex_request\<lparr>hdr_authorization := None\<rparr>) ex_auth_state))"
    using public by blast
  moreover have "map is_id (ih_inspections (getInspectionHistory ex_sign_env ''x.e1.made-up'' ex_public_db)) = [''i1'']"
    using public [of "''x.e1.made-up''", THEN conjunct2, THEN conjunct1, rule_format, of "''x''" "''e1''" "''.made-up''"]
    by (simp add: ex_sign_env_def ex_public_db_def ex_answer_asset_def)
  moreover have "ih_inspections (getInspectionHistory ex_sign_env ''x.e2'' ex_public_db) = []"
    using public [of "''x.e2''", THEN conjunct2, THEN conjunct1, rule_format, of "''x''" "''e2''" "[]"]
    by (simp add: ex_sign_env_def ex_public_db_def ex_answer_asset_def)
  ultimately show ?thesis by simp
qed

text \<open>An inspection token is handed to everybody who knows the identifier of a tag.\<close>

lemma find_the_only: "x \<in> set xs \<Longrightarrow> P x \<Longrightarrow> (\<And>y. y \<in> set xs \<Longrightarrow> P y \<Longrightarrow> y = x) \<Longrightarrow> List.find P xs = Some x"
proof (induction xs)
  case (Cons y ys)
  show ?case
  proof (cases "P y")
    case True
    then have "y = x" using Cons.prems(3) [of y] by simp
    then show ?thesis using True by simp
  next
    case False
    have "x \<in> set ys" using Cons.prems(1,2) False by auto
    then have "List.find P ys = Some x" by (rule Cons.IH) (use Cons.prems(2,3) in auto)
    then show ?thesis using False by simp
  qed
qed simp

lemma token_for_identifier:
  assumes "t \<in> set (pb_tags db)" and "distinct (map tg_id (pb_tags db))" and "tg_id t \<noteq> []" and "generateInspectionToken ops env now (tg_serialNumber t) (tg_externalId t) c keys = (Inr token, c', keys')"
  shows "fst (isValidTagId ops env now (Some (tg_id t)) None db c keys) = Inr \<lparr>ic_isValid = True, ic_tag = Some t, ic_inspectionToken = Some token\<rparr>"
proof -
  have "x = t" if "x \<in> set (pb_tags db)" "tg_id x = tg_id t" for x using that assms(1,2) by (metis distinct_map inj_onD)
  then have "List.find (\<lambda>x. matches_undefined (Some (tg_id t)) (tg_id x) \<and> matches_undefined None (tg_externalId x)) (pb_tags db) = Some t"
    by (intro find_the_only [OF assms(1)]) (auto simp: matches_undefined_def)
  then show ?thesis using assms(3,4) by (simp add: isValidTagId_def truthy_def)
qed

subsection \<open>The machine-to-machine look-ups\<close>

record m2m_db =
  nb_tenant :: tenant_db
  nb_legacyUsernames :: "(id \<times> string) list" \<comment> \<open>the column \<open>legacyUsername\<close> of the people, in the order of the table\<close>
  nb_tags :: "tag_row list"
  nb_legacyTagIds :: "(id \<times> string) list" \<comment> \<open>the column \<open>legacyTagId\<close> of the tags\<close>

definition primary_first :: "access_row list \<Rightarrow> access_row list" where
  \<comment> \<open>\<open>orderBy: {isPrimary: 'desc'}\<close>\<close>
  "primary_first rows = filter pca_isPrimary rows @ filter (\<lambda>a. \<not> pca_isPrimary a) rows"

definition getClientStatus :: "string option \<Rightarrow> string option \<Rightarrow> m2m_db \<Rightarrow> (id \<times> client_status) result" where
  "getClientStatus clientId legacyUsername db =
     (let client =
        (if truthy clientId then find_by cl_id (the clientId) (db_clients (nb_tenant db))
         else if truthy legacyUsername
           then (case List.find (\<lambda>p. snd p = the legacyUsername) (nb_legacyUsernames db) of
                   None \<Rightarrow> None
                 | Some (personId, _) \<Rightarrow>
                     (case primary_first (filter (\<lambda>a. pca_personId a = personId) (db_accesses (nb_tenant db))) of
                        [] \<Rightarrow> None
                      | a # _ \<Rightarrow> find_by cl_id (pca_clientId a) (db_clients (nb_tenant db))))
         else None)
      in case client of
           None \<Rightarrow> Inl (NotFoundException ''Client not found.'')
         | Some c \<Rightarrow> Inr (cl_id c, cl_status c))"

definition getTagUrl ::
    "('c, signing_key) cache_ops \<Rightarrow> sign_env \<Rightarrow> time \<Rightarrow> id \<Rightarrow> string \<Rightarrow> m2m_db \<Rightarrow> 'c \<Rightarrow> signing_key list
     \<Rightarrow> (signed_url \<times> client_status option) result \<times> 'c \<times> signing_key list" where
  "getTagUrl ops env now newId legacyTagId db c keys =
     (case Option.bind (List.find (\<lambda>p. snd p = legacyTagId) (nb_legacyTagIds db)) (\<lambda>p. find_by tg_id (fst p) (nb_tags db)) of
        None \<Rightarrow> (Inl (NotFoundException ''Tag not found.''), c, keys)
      | Some tag \<Rightarrow>
          (let (r, c', keys') = generateSignedUrlSingle ops env now newId None (tg_serialNumber tag) (Some (tg_externalId tag)) c keys
           in (bindr r (\<lambda>url. Inr (url, Option.bind (tg_clientId tag)
                 (\<lambda>i. map_option cl_status (find_by cl_id i (db_clients (nb_tenant db)))))), c', keys')))"

text \<open>A status is found exactly for a client that exists, or for a user name whose person has an access record; it is the primary one's when there is one.\<close>

lemma client_status_by_id:
  "clientId \<noteq> [] \<Longrightarrow> getClientStatus (Some clientId) u db
     = (case find_by cl_id clientId (db_clients (nb_tenant db)) of None \<Rightarrow> Inl (NotFoundException ''Client not found.'') | Some c \<Rightarrow> Inr (cl_id c, cl_status c))"
  by (simp add: getClientStatus_def truthy_def)

lemma primary_first_hd:
  assumes "a \<in> set rows" and "pca_isPrimary a"
  shows "primary_first rows \<noteq> [] \<and> pca_isPrimary (hd (primary_first rows))"
proof -
  have ne: "filter pca_isPrimary rows \<noteq> []" using assms by (auto simp: filter_empty_conv)
  then have "hd (filter pca_isPrimary rows) \<in> set (filter pca_isPrimary rows)" by (rule hd_in_set)
  then show ?thesis using ne by (simp add: primary_first_def)
qed

subsection \<open>Offered metadata\<close>

record metadata_db =
  zb_conditions :: "condition_row list"
  zb_configs :: "(question_row \<times> json) list" \<comment> \<open>the configurations with their questions; the table has no policy\<close>
  zb_assets :: "asset_row list"
  zb_products :: "product_row list"

definition product_visible :: "rls_session \<Rightarrow> product_row \<Rightarrow> bool" where
  "product_visible s p = (case s of Bypass \<Rightarrow> True | Tenant ctx \<Rightarrow> pr_clientId p = None \<or> validate_client_opt ctx (pr_clientId p))"

definition split_part :: "string \<Rightarrow> nat \<Rightarrow> string" where
  \<comment> \<open>\<open>split_part(s, ':', n)\<close>, empty when there is no such part\<close>
  "split_part s n = (let parts = split_on (CHR '':'') s in if n \<le> length parts then parts ! (n - 1) else [])"

definition object_keys :: "json option \<Rightarrow> string list" where
  "object_keys m = (case m of Some (JObj ob) \<Rightarrow> map fst ob | _ \<Rightarrow> [])"

definition config_elements :: "json \<Rightarrow> (string \<times> json) list list" where
  "config_elements m = (case m of JArr es \<Rightarrow> map (\<lambda>e. case e of JObj ob \<Rightarrow> ob | _ \<Rightarrow> []) es | _ \<Rightarrow> [])"

definition text_at :: "string \<Rightarrow> (string \<times> json) list \<Rightarrow> string option" where
  \<comment> \<open>\<open>elem->>'key'\<close> of a string\<close>
  "text_at k ob = (case map_of ob k of Some (JStr v) \<Rightarrow> Some v | _ \<Rightarrow> None)"

definition metadata_conditions :: "rls_session \<Rightarrow> metadata_db \<Rightarrow> string list" where
  "metadata_conditions sess db = concat (map cd_value (filter (\<lambda>c. condition_visible sess c \<and> cd_type c = METADATA) (zb_conditions db)))"

definition getMetadataKeys :: "rls_session \<Rightarrow> metadata_db \<Rightarrow> string list" where
  \<comment> \<open>up to the order of each query\<close>
  "getMetadataKeys sess db =
     unique (map (\<lambda>v. split_part v 1) (metadata_conditions sess db)
       @ filter (\<lambda>k. k \<noteq> []) (List.map_filter (text_at ''key'') (concat (map (config_elements \<circ> snd) (zb_configs db))))
       @ concat (map (object_keys \<circ> as_metadata) (filter (asset_visible sess) (zb_assets db)))
       @ concat (map (object_keys \<circ> pr_metadata) (filter (product_visible sess) (zb_products db))))"

definition option_texts :: "question_row \<Rightarrow> string list" where
  "option_texts q = (case qu_selectOptions q of Some (JArr os) \<Rightarrow> List.map_filter (\<lambda>e. case e of JObj ob \<Rightarrow> text_at ''value'' ob | _ \<Rightarrow> None) os | _ \<Rightarrow> [])"

definition metadata_value :: "string \<Rightarrow> json option \<Rightarrow> string list" where
  "metadata_value key m = (case m of Some (JObj ob) \<Rightarrow> (case text_at key ob of None \<Rightarrow> [] | Some v \<Rightarrow> [v]) | _ \<Rightarrow> [])"

definition getMetadataValues :: "rls_session \<Rightarrow> string \<Rightarrow> metadata_db \<Rightarrow> string list" where
  \<comment> \<open>values of metadata are strings; the question of a configuration is joined under its policy\<close>
  "getMetadataValues sess key db =
     unique (filter (\<lambda>v. v \<noteq> [])
       (map (\<lambda>v. split_part v 2) (filter (\<lambda>v. split_part v 1 = key) (metadata_conditions sess db))
        @ concat (map (\<lambda>(q, m). if question_visible sess q \<and> list_ex (\<lambda>ob. text_at ''key'' ob = Some key) (config_elements m) then option_texts q else [])
            (zb_configs db))
        @ List.map_filter (\<lambda>ob. if text_at ''key'' ob = Some key then text_at ''value'' ob else None) (concat (map (config_elements \<circ> snd) (zb_configs db)))
        @ concat (map (metadata_value key \<circ> as_metadata) (filter (asset_visible sess) (zb_assets db)))
        @ concat (map (metadata_value key \<circ> pr_metadata) (filter (product_visible sess) (zb_products db)))))"

lemma split_first_part: "CHR '':'' \<notin> set k \<Longrightarrow> split_part (k @ CHR '':'' # v) 1 = k"
proof -
  assume "CHR '':'' \<notin> set k"
  then have "split_on (CHR '':'') (k @ CHR '':'' # v) = k # split_on (CHR '':'') v" by (induction k) auto
  then show ?thesis by (simp add: split_part_def)
qed

text \<open>
  Every key that an asset or a product shown to the session has is offered, once, and so is every key of a condition
  shown to it; the offered values of a key contain every text value that a shown asset has for it.
\<close>

theorem metadata_offered:
  "distinct (getMetadataKeys sess db)
   \<and> list_all (\<lambda>a. asset_visible sess a \<longrightarrow> list_all (List.member (getMetadataKeys sess db)) (object_keys (as_metadata a))) (zb_assets db)
   \<and> list_all (\<lambda>p. product_visible sess p \<longrightarrow> list_all (List.member (getMetadataKeys sess db)) (object_keys (pr_metadata p))) (zb_products db)
   \<and> list_all (\<lambda>v. List.member (getMetadataKeys sess db) (split_part v 1)) (metadata_conditions sess db)
   \<and> distinct (getMetadataValues sess key db)
   \<and> list_all (\<lambda>a. asset_visible sess a \<longrightarrow> list_all (\<lambda>v. v \<noteq> [] \<longrightarrow> List.member (getMetadataValues sess key db) v) (metadata_value key (as_metadata a))) (zb_assets db)"
  by (auto simp: getMetadataKeys_def getMetadataValues_def list_all_iff)

text \<open>A condition on a value that contains a colon is offered with the value cut at it.\<close>

lemma value_cut_at_colon:
  "getMetadataValues Bypass ''model'' \<lparr>zb_conditions = [\<lparr>cd_id = ''d'', cd_questionId = ''q'', cd_type = METADATA, cd_value = [''model:FR:2''], cd_clientId = None\<rparr>],
     zb_configs = [], zb_assets = [], zb_products = []\<rparr> = [''FR'']"
  by code_simp

subsection \<open>Reminders of the team\<close>

definition formatPhoneNumber :: "string \<Rightarrow> string" where
  "formatPhoneNumber phoneNumber =
     (let cleaned = filter (\<lambda>c. is_digit c \<or> c = CHR ''+'') phoneNumber
      in if (cleaned \<noteq> [] \<and> hd cleaned = CHR ''+'') \<or> length cleaned \<noteq> 10 then phoneNumber else ''+1'' @ cleaned)"

record team_message =
  tm_to :: string
  tm_firstName :: string
  tm_requestorName :: string
  tm_assetId :: id

definition template_text :: "string option \<Rightarrow> string" where
  "template_text s = (case s of None \<Rightarrow> ''undefined'' | Some x \<Rightarrow> x)"

definition sendReminderNotifications ::
    "cls_store \<Rightarrow> (person_row \<Rightarrow> bool) \<Rightarrow> rls_session \<Rightarrow> id \<Rightarrow> id list \<Rightarrow> person_row list \<Rightarrow> asset_row list
     \<Rightarrow> (team_message list \<times> team_message list) result" where
  \<comment> \<open>the e-mails and the text messages; \<open>shown\<close> are the people the session shows\<close>
  "sendReminderNotifications cls shown sess assetId userIds persons assets =
     bindr (requireUser cls) (\<lambda>u.
     case find_by as_id assetId (filter (asset_visible sess) assets) of
       None \<Rightarrow> as404OrThrow (Inl (ServerError ''P2025''))
     | Some asset \<Rightarrow>
         (let members = filter (\<lambda>p. shown p \<and> List.member userIds (pe_id p)) persons;
              message = (\<lambda>to p. \<lparr>tm_to = to, tm_firstName = pe_firstName p,
                tm_requestorName = template_text (u_givenName u) @ '' '' @ template_text (u_familyName u), tm_assetId = as_id asset\<rparr>)
          in Inr (map (\<lambda>p. message (pe_email p) p) members,
              map (\<lambda>p. message (formatPhoneNumber (the (pe_phoneNumber p))) p) (filter (\<lambda>p. truthy (pe_phoneNumber p)) members))))"

lemma formatted_number: "formatPhoneNumber n = n \<or> (\<exists>d. formatPhoneNumber n = ''+1'' @ d \<and> length d = 10)"
  by (auto simp: formatPhoneNumber_def Let_def)

text \<open>Reminders go only to people and about assets that the session shows; a name that the token lacks appears as the word undefined.\<close>

lemma reminders_reach_shown_people:
  "sendReminderNotifications cls shown sess assetId userIds persons assets = Inr (mails, texts) \<Longrightarrow>
     (\<forall>m\<in>set mails. \<exists>p\<in>set persons. shown p \<and> pe_id p \<in> set userIds \<and> tm_to m = pe_email p)
     \<and> (\<forall>m\<in>set texts. \<exists>p\<in>set persons. shown p \<and> pe_id p \<in> set userIds \<and> truthy (pe_phoneNumber p) \<and> tm_to m = formatPhoneNumber (the (pe_phoneNumber p)))"
  by (auto simp: sendReminderNotifications_def bindr_Inr_iff Let_def split: option.splits) (fastforce | blast)+

end
