(* ===== verification/Canned_Reports.thy ===== *)
theory Canned_Reports
  imports Catalog Notifications
begin

section \<open>Canned reports\<close>

text \<open>
  \<^verbatim>\<open>src/src/assets/reports/canned-reports.ts\<close> and \<^verbatim>\<open>reports.service.ts\<close> with the queries of
  \<^verbatim>\<open>src/prisma/sql\<close>, which run in the session of the caller: every table of a join is seen through its policy.
  A row of an answer is a list of named cells; the columns no report shows, other than the identifier, are left
  out, and the rows come in the order of the tables. The \<open>format\<close> of date-fns and the writer of CSV are parameters,
  \<open>now\<close> is the clock of the database, a day of an interval has 24 hours.
\<close>

subsection \<open>The tables and their joins\<close>

datatype cell = Null | Text string | Instant time | Number int | Flag bool

type_synonym report_line = "(string \<times> cell) list"

type_synonym date_range = "time option \<times> time option"

record placed_asset = asset_row +
  pa_location :: string
  pa_placement :: string

record stocked_consumable = consumable_row +
  sc_createdOn :: time
  sc_quantity :: int

record report_db =
  rd_tenant :: tenant_db
  rd_clients :: "client_full list"
  rd_assets :: "placed_asset list"
  rd_consumables :: "stocked_consumable list"
  rd_inspections :: "inspection_row list"
  rd_alerts :: "alert_row list"
  rd_tags :: "tag_row list"
  rd_products :: "catalog_item list"
  rd_categories :: "product_category_row list"
  rd_manufacturers :: "manufacturer_row list"

definition opt_text :: "string option \<Rightarrow> cell" where
  "opt_text s = (case s of None \<Rightarrow> Null | Some x \<Rightarrow> Text x)"

definition opt_instant :: "time option \<Rightarrow> cell" where
  "opt_instant t = (case t of None \<Rightarrow> Null | Some x \<Rightarrow> Instant x)"

definition level_text :: "alert_level \<Rightarrow> string" where
  "level_text l = (case l of CRITICAL \<Rightarrow> ''CRITICAL'' | URGENT \<Rightarrow> ''URGENT'' | WARNING \<Rightarrow> ''WARNING'' | INFO \<Rightarrow> ''INFO'' | AUDIT \<Rightarrow> ''AUDIT'')"

definition in_range :: "date_range \<Rightarrow> time \<Rightarrow> bool" where
  \<comment> \<open>a date of a query that is null is no bound\<close>
  "in_range q t = ((case fst q of None \<Rightarrow> True | Some s \<Rightarrow> s \<le> t) \<and> (case snd q of None \<Rightarrow> True | Some e \<Rightarrow> t \<le> e))"

definition shown_assets :: "rls_session \<Rightarrow> report_db \<Rightarrow> placed_asset list" where
  "shown_assets sess db = filter (\<lambda>a. asset_visible sess (asset_row.truncate a)) (rd_assets db)"

definition shown_tags :: "rls_session \<Rightarrow> report_db \<Rightarrow> id option \<Rightarrow> tag_row list" where
  "shown_tags sess db i = filter (\<lambda>t. tag_visible sess t \<and> i = Some (tg_id t)) (rd_tags db)"

definition shown_people :: "rls_session \<Rightarrow> report_db \<Rightarrow> id \<Rightarrow> person_row list" where
  "shown_people sess db i = filter (\<lambda>p. person_visible (rd_tenant db) sess p \<and> pe_id p = i) (db_persons (rd_tenant db))"

definition joined_names :: "rls_session \<Rightarrow> report_db \<Rightarrow> id \<Rightarrow> id \<Rightarrow> report_line list" where
  \<comment> \<open>the product with its category and its manufacturer, and the site\<close>
  "joined_names sess db productId siteId =
     [[(''productName'', Text (catalog_item.cp_name p)), (''productCategoryName'', Text (product_category_row.ct_name pc)),
       (''productCategoryShortName'', opt_text (product_category_row.ct_shortName pc)), (''manufacturerName'', Text (mf_name m)), (''siteName'', Text (st_name s))].
        p \<leftarrow> rd_products db, shared_select sess (pr_clientId p) \<and> pr_id p = productId,
        pc \<leftarrow> rd_categories db, shared_select sess (product_category_row.ct_clientId pc) \<and> product_category_row.ct_id pc = pr_categoryId p,
        m \<leftarrow> rd_manufacturers db, shared_select sess (mf_clientId m) \<and> mf_id m = pr_manufacturerId p,
        s \<leftarrow> db_sites (rd_tenant db), site_visible sess s \<and> st_id s = siteId]"

definition asset_cells :: "string list \<Rightarrow> placed_asset \<Rightarrow> report_line" where
  "asset_cells names a = zip names [Text (as_name a), Text (as_serialNumber a), Text (pa_location a), Text (pa_placement a)]"

definition plain_names :: "string list" where
  "plain_names = [''name'', ''serialNumber'', ''location'', ''placement'']"

definition asset_names :: "string list" where
  "asset_names = [''assetName'', ''assetSerialNumber'', ''assetLocation'', ''assetPlacement'']"

definition person_name :: "person_row \<Rightarrow> string" where
  "person_name p = pe_firstName p @ '' '' @ pe_lastName p"

subsection \<open>The queries\<close>

definition getActiveAssets :: "rls_session \<Rightarrow> report_db \<Rightarrow> report_line list" where
  "getActiveAssets sess db =
     [[(''id'', Text (as_id a)), (''createdOn'', Instant (as_createdOn a))] @ asset_cells plain_names a
        @ [(''setupOn'', opt_instant (as_setupOn a))] @ names @ [(''tagSerialNumber'', Text (tg_serialNumber t))].
        a \<leftarrow> shown_assets sess db, as_active a,
        names \<leftarrow> joined_names sess db (as_productId a) (as_siteId a),
        t \<leftarrow> shown_tags sess db (as_tagId a)]"

definition last_inspected :: "rls_session \<Rightarrow> report_db \<Rightarrow> id \<Rightarrow> time option" where
  \<comment> \<open>\<open>DISTINCT ON (assetId) ... ORDER BY assetId, createdOn DESC\<close>\<close>
  "last_inspected sess db i =
     at0 (rev (sort (map is_createdOn (filter (\<lambda>n. inspection_visible sess n \<and> is_assetId n = i) (rd_inspections db)))))"

definition getOverdueAssets :: "rls_session \<Rightarrow> time \<Rightarrow> id option \<Rightarrow> report_db \<Rightarrow> report_line list" where
  "getOverdueAssets sess now clientId db =
     [[(''id'', Text (as_id a))] @ asset_cells plain_names a @ [(''setupOn'', opt_instant (as_setupOn a))] @ names
        @ [(''tagSerialNumber'', Text (tg_serialNumber t)), (''lastInspectionDate'', opt_instant (last_inspected sess db (as_id a)))].
        a \<leftarrow> shown_assets sess db,
        c \<leftarrow> rd_clients db, client_visible sess (client_row.truncate c) \<and> cl_id c = as_clientId a,
        names \<leftarrow> joined_names sess db (as_productId a) (as_siteId a),
        t \<leftarrow> shown_tags sess db (as_tagId a),
        (case last_inspected sess db (as_id a) of
           None \<Rightarrow> False
         | Some l \<Rightarrow> l < now - 86400000 * nullish_or (as_inspectionCycle a) (cf_defaultInspectionCycle c))
        \<and> as_active a \<and> (case clientId of None \<Rightarrow> True | Some i \<Rightarrow> as_clientId a = i)]"

definition getRecentInspections :: "rls_session \<Rightarrow> date_range \<Rightarrow> report_db \<Rightarrow> report_line list" where
  "getRecentInspections sess dates db =
     [[(''id'', Text (is_id i)), (''createdOn'', Instant (is_createdOn i)), (''inspectorName'', Text (person_name p))]
        @ asset_cells asset_names a @ names @ [(''tagSerialNumber'', Text (tg_serialNumber t))].
        i \<leftarrow> rd_inspections db, inspection_visible sess i \<and> in_range dates (is_createdOn i),
        a \<leftarrow> shown_assets sess db, as_id a = is_assetId i,
        names \<leftarrow> joined_names sess db (as_productId a) (as_siteId a),
        t \<leftarrow> shown_tags sess db (as_tagId a),
        p \<leftarrow> shown_people sess db (is_inspectorId i)]"

definition consumable_lines :: "rls_session \<Rightarrow> (time \<Rightarrow> bool) \<Rightarrow> report_db \<Rightarrow> report_line list" where
  \<comment> \<open>what the two queries share; a null date satisfies no comparison\<close>
  "consumable_lines sess expires db =
     [[(''id'', Text (co_id c)), (''createdOn'', Instant (sc_createdOn c)), (''quantity'', Number (sc_quantity c)),
       (''expiresOn'', opt_instant (co_expiresOn c))] @ asset_cells asset_names a @ names.
        c \<leftarrow> rd_consumables db,
        consumable_visible sess (consumable_row.truncate c) \<and> (case co_expiresOn c of None \<Rightarrow> False | Some t \<Rightarrow> expires t),
        names \<leftarrow> joined_names sess db (co_productId c) (co_siteId c),
        a \<leftarrow> shown_assets sess db, co_assetId c = Some (as_id a) \<and> as_active a]"

definition getExpiringConsumables :: "rls_session \<Rightarrow> time \<Rightarrow> date_range \<Rightarrow> report_db \<Rightarrow> report_line list" where
  "getExpiringConsumables sess now dates db = consumable_lines sess (\<lambda>t. now < t \<and> in_range dates t) db"

definition getExpiredConsumables :: "rls_session \<Rightarrow> time \<Rightarrow> report_db \<Rightarrow> report_line list" where
  "getExpiredConsumables sess now db = consumable_lines sess (\<lambda>t. t < now) db"

definition alert_lines :: "rls_session \<Rightarrow> (placed_asset \<Rightarrow> alert_row \<Rightarrow> bool) \<Rightarrow> report_db \<Rightarrow> report_line list" where
  \<comment> \<open>what the two queries share\<close>
  "alert_lines sess wanted db =
     [[(''id'', Text (al_id x)), (''createdOn'', Instant (al_createdOn x)), (''alertLevel'', Text (level_text (al_alertLevel x))),
       (''message'', Text (al_message x)), (''resolved'', Flag (al_resolved x)), (''resolvedOn'', opt_instant (al_resolvedOn x)),
       (''resolutionNote'', opt_text (al_resolutionNote x))] @ asset_cells asset_names a
        @ [(''inspectionDate'', Instant (is_createdOn i)), (''inspectorName'', Text (person_name p))] @ names.
        x \<leftarrow> rd_alerts db, alert_visible sess x,
        a \<leftarrow> shown_assets sess db, as_id a = al_assetId x \<and> wanted a x,
        names \<leftarrow> joined_names sess db (as_productId a) (al_siteId x),
        i \<leftarrow> rd_inspections db, inspection_visible sess i \<and> is_id i = al_inspectionId x,
        p \<leftarrow> shown_people sess db (is_inspectorId i)]"

definition getRecentAlerts :: "rls_session \<Rightarrow> date_range \<Rightarrow> report_db \<Rightarrow> report_line list" where
  "getRecentAlerts sess dates db = alert_lines sess (\<lambda>a x. in_range dates (al_createdOn x)) db"

definition getUnresolvedAlerts :: "rls_session \<Rightarrow> date_range \<Rightarrow> report_db \<Rightarrow> report_line list" where
  "getUnresolvedAlerts sess dates db = alert_lines sess (\<lambda>a x. as_active a \<and> \<not> al_resolved x \<and> in_range dates (al_createdOn x)) db"

subsection \<open>The reports\<close>

datatype report_column =
    Column string
  | Computed string "string option" "(report_line \<Rightarrow> cell) option" \<comment> \<open>\<open>{alias, label, valueFn}\<close>\<close>

record canned_report =
  rp_id :: string
  rp_name :: string
  rp_description :: string
  rp_type :: string
  rp_columns :: "report_column list"
  rp_build :: "rls_session \<Rightarrow> time \<Rightarrow> date_range \<Rightarrow> report_db \<Rightarrow> report_line list"
  rp_dateRangeSupport :: string

definition cell_at :: "report_line \<Rightarrow> string \<Rightarrow> cell" where
  "cell_at row k = (case map_of row k of None \<Rightarrow> Null | Some c \<Rightarrow> c)"

definition shown_date :: "(time \<Rightarrow> string) \<Rightarrow> string \<Rightarrow> report_line \<Rightarrow> cell" where
  \<comment> \<open>\<open>row.d ? format(row.d, DEFAULT_DATE_FORMAT) : ''\<close>; \<open>createdOn\<close> and \<open>inspectionDate\<close> are never null\<close>
  "shown_date fmt k row = (case cell_at row k of Instant t \<Rightarrow> Text (fmt t) | _ \<Rightarrow> Text [])"

definition date_column :: "(time \<Rightarrow> string) \<Rightarrow> string \<Rightarrow> string option \<Rightarrow> report_column" where
  "date_column fmt k label = Computed k label (Some (shown_date fmt k))"

definition product_columns :: "report_column list" where
  "product_columns = [Column ''productName'', Column ''productCategoryName'', Column ''productCategoryShortName'', Column ''manufacturerName'']"

definition ActiveAssetsCannedReport :: "(time \<Rightarrow> string) \<Rightarrow> canned_report" where
  "ActiveAssetsCannedReport fmt =
     \<lparr>rp_id = ''active-assets'', rp_name = ''Active Assets'', rp_description = ''Assets that are currently active.'', rp_type = ''CANNED'',
      rp_columns = [date_column fmt ''createdOn'' None, Column ''siteName'', Column ''tagSerialNumber'', Column ''name'', Column ''serialNumber'',
        Column ''location'', Column ''placement'', date_column fmt ''setupOn'' None] @ product_columns,
      rp_build = (\<lambda>sess now dates db. getActiveAssets sess db), rp_dateRangeSupport = ''NONE''\<rparr>"

definition OverdueAssetsCannedReport :: "(time \<Rightarrow> string) \<Rightarrow> canned_report" where
  "OverdueAssetsCannedReport fmt =
     \<lparr>rp_id = ''overdue-assets'', rp_name = ''Overdue Assets'', rp_description = ''Assets that are overdue for inspection.'', rp_type = ''CANNED'',
      rp_columns = [date_column fmt ''lastInspectionDate'' (Some ''Last Inspected''), Column ''siteName'', Column ''tagSerialNumber'', Column ''name'',
        Column ''serialNumber'', Column ''location'', Column ''placement'', date_column fmt ''setupOn'' None] @ product_columns,
      rp_build = (\<lambda>sess now dates db. getOverdueAssets sess now None db), rp_dateRangeSupport = ''NONE''\<rparr>"

definition AllInspectionsCannedReport :: "(time \<Rightarrow> string) \<Rightarrow> canned_report" where
  "AllInspectionsCannedReport fmt =
     \<lparr>rp_id = ''recent-inspections'', rp_name = ''Inspections Audit'', rp_description = ''Audit of most recent asset inspections.'', rp_type = ''CANNED'',
      rp_columns = [date_column fmt ''createdOn'' (Some ''Inspection Date''), Column ''siteName'', Column ''inspectorName'', Column ''tagSerialNumber'',
        Column ''assetName'', Column ''assetSerialNumber'', Column ''assetLocation'', Column ''assetPlacement''] @ product_columns,
      rp_build = (\<lambda>sess now dates db. getRecentInspections sess dates db), rp_dateRangeSupport = ''PAST''\<rparr>"

definition ExpiringConsumablesCannedReport :: "(time \<Rightarrow> string) \<Rightarrow> canned_report" where
  "ExpiringConsumablesCannedReport fmt =
     \<lparr>rp_id = ''expiring-consumables'', rp_name = ''Expiring Consumables'', rp_description = ''Consumables that are expiring soon.'', rp_type = ''CANNED'',
      rp_columns = [date_column fmt ''createdOn'' None, date_column fmt ''expiresOn'' None, Column ''quantity'', Column ''assetName'',
        Column ''assetSerialNumber'', Column ''assetLocation'', Column ''assetPlacement''] @ product_columns @ [Column ''siteName''],
      rp_build = (\<lambda>sess now dates db. getExpiringConsumables sess now dates db), rp_dateRangeSupport = ''FUTURE''\<rparr>"

definition ExpiredConsumablesCannedReport :: "(time \<Rightarrow> string) \<Rightarrow> canned_report" where
  "ExpiredConsumablesCannedReport fmt =
     \<lparr>rp_id = ''expired-consumables'', rp_name = ''Expired Consumables'', rp_description = ''Consumables that have expired.'', rp_type = ''CANNED'',
      rp_columns = [date_column fmt ''createdOn'' None, date_column fmt ''expiresOn'' None, Column ''quantity'', Column ''assetName'',
        Column ''assetSerialNumber'', Column ''assetLocation'', Column ''assetPlacement''] @ product_columns @ [Column ''siteName''],
      rp_build = (\<lambda>sess now dates db. getExpiredConsumables sess now db), rp_dateRangeSupport = ''NONE''\<rparr>"

definition alert_columns :: "(time \<Rightarrow> string) \<Rightarrow> report_column list" where
  \<comment> \<open>the columns both reports on alerts have\<close>
  "alert_columns fmt =
     [date_column fmt ''createdOn'' None, Column ''alertLevel'', Column ''message'', Column ''resolved'', date_column fmt ''resolvedOn'' None,
      Column ''resolutionNote'', date_column fmt ''inspectionDate'' None, Column ''inspectorName'', Column ''assetName'', Column ''assetSerialNumber'',
      Column ''assetLocation'', Column ''assetPlacement''] @ product_columns @ [Column ''siteName'']"

definition RecentAlertsCannedReport :: "(time \<Rightarrow> string) \<Rightarrow> canned_report" where
  "RecentAlertsCannedReport fmt =
     \<lparr>rp_id = ''recent-alerts'', rp_name = ''Recent Alerts'', rp_description = ''Inspection alerts that have occurred recently.'', rp_type = ''CANNED'',
      rp_columns = alert_columns fmt,
      rp_build = (\<lambda>sess now dates db. getRecentAlerts sess dates db), rp_dateRangeSupport = ''PAST''\<rparr>"

definition UnresolvedAlertsCannedReport :: "(time \<Rightarrow> string) \<Rightarrow> canned_report" where
  "UnresolvedAlertsCannedReport fmt =
     \<lparr>rp_id = ''unresolved-alerts'', rp_name = ''Unresolved Alerts'', rp_description = ''Inspection alerts that have not been resolved.'', rp_type = ''CANNED'',
      rp_columns = alert_columns fmt,
      rp_build = (\<lambda>sess now dates db. getUnresolvedAlerts sess dates db), rp_dateRangeSupport = ''PAST''\<rparr>"

definition CANNED_REPORTS :: "(time \<Rightarrow> string) \<Rightarrow> canned_report list" where
  "CANNED_REPORTS fmt =
     [ActiveAssetsCannedReport fmt, OverdueAssetsCannedReport fmt, AllInspectionsCannedReport fmt, ExpiringConsumablesCannedReport fmt,
      ExpiredConsumablesCannedReport fmt, RecentAlertsCannedReport fmt, UnresolvedAlertsCannedReport fmt]"

subsection \<open>The service\<close>

definition toTitleCase :: "string \<Rightarrow> string" where
  \<comment> \<open>a blank before every capital, the first character in upper case, the ends trimmed\<close>
  "toTitleCase str =
     (let spaced = concat (map (\<lambda>c. if 65 \<le> (of_char c :: nat) \<and> (of_char c :: nat) \<le> 90 then [CHR '' '', c] else [c]) str)
      in trim (case spaced of [] \<Rightarrow> [] | c # cs \<Rightarrow> upper_char c # cs))"

definition column_label :: "report_column \<Rightarrow> string" where
  "column_label c = (case c of Column k \<Rightarrow> toTitleCase k | Computed a label _ \<Rightarrow> nullish_or label (toTitleCase a))"

definition column_value :: "report_line \<Rightarrow> report_column \<Rightarrow> cell" where
  "column_value row c =
     (case c of Column k \<Rightarrow> cell_at row k | Computed a _ valueFn \<Rightarrow> (case valueFn of None \<Rightarrow> cell_at row a | Some f \<Rightarrow> f row))"

definition mapColumns :: "report_column list \<Rightarrow> string list" where
  "mapColumns columns = map column_label columns"

definition mapColumnData :: "report_column list \<Rightarrow> report_line \<Rightarrow> report_line" where
  \<comment> \<open>\<open>Object.fromEntries\<close>: a key keeps its first place and takes its last value\<close>
  "mapColumnData columns row = foldl (\<lambda>m c. AList.update (column_label c) (column_value row c) m) [] columns"

definition getCannedReport :: "(time \<Rightarrow> string) \<Rightarrow> string \<Rightarrow> canned_report result" where
  "getCannedReport fmt i =
     (case List.find (\<lambda>r. rp_id r = i) (CANNED_REPORTS fmt) of None \<Rightarrow> Inl (NotFoundException ''Report not found'') | Some r \<Rightarrow> Inr r)"

record built_report =
  br_id :: string
  br_name :: string
  br_description :: string
  br_dateRangeSupport :: string
  br_data :: "report_line list"
  br_columns :: "string list"

definition buildReport ::
    "(time \<Rightarrow> string) \<Rightarrow> rls_session result \<Rightarrow> time \<Rightarrow> string \<Rightarrow> date_range \<Rightarrow> report_db \<Rightarrow> built_report result" where
  \<comment> \<open>\<open>rls\<close> is the session \<open>build()\<close> gives, or its error\<close>
  "buildReport fmt rls now i query db =
     bindr (getCannedReport fmt i) (\<lambda>r. bindr rls (\<lambda>sess.
       Inr \<lparr>br_id = rp_id r, br_name = rp_name r, br_description = rp_description r, br_dateRangeSupport = rp_dateRangeSupport r,
            br_data = map (mapColumnData (rp_columns r)) (rp_build r sess now query db), br_columns = mapColumns (rp_columns r)\<rparr>))"

definition buildReportCsv ::
    "(report_line list \<Rightarrow> 'csv) \<Rightarrow> (time \<Rightarrow> string) \<Rightarrow> rls_session result \<Rightarrow> time \<Rightarrow> string \<Rightarrow> date_range \<Rightarrow> report_db \<Rightarrow> 'csv result" where
  "buildReportCsv csvWrite fmt rls now i query db = bindr (buildReport fmt rls now i query db) (\<lambda>r. Inr (csvWrite (br_data r)))"

definition findAllReports :: "(time \<Rightarrow> string) \<Rightarrow> (string \<times> string \<times> string \<times> string \<times> string) list" where
  "findAllReports fmt = map (\<lambda>r. (rp_id r, rp_name r, rp_description r, rp_type r, rp_dateRangeSupport r)) (CANNED_REPORTS fmt)"

definition csv_filename :: "string \<Rightarrow> string" where
  \<comment> \<open>\<open>replace(/(\.csv)?$/, '.csv')\<close>\<close>
  "csv_filename f = (if 4 \<le> length f \<and> drop (length f - 4) f = ''.csv'' then f else f @ ''.csv'')"

subsection \<open>Rows and columns\<close>

definition column_key :: "report_column \<Rightarrow> string" where
  "column_key c = (case c of Column k \<Rightarrow> k | Computed a _ _ \<Rightarrow> a)"

lemmas report_defs = ActiveAssetsCannedReport_def OverdueAssetsCannedReport_def AllInspectionsCannedReport_def ExpiringConsumablesCannedReport_def
  ExpiredConsumablesCannedReport_def RecentAlertsCannedReport_def UnresolvedAlertsCannedReport_def alert_columns_def product_columns_def date_column_def

lemmas query_defs = getActiveAssets_def getOverdueAssets_def getRecentInspections_def getExpiringConsumables_def getExpiredConsumables_def
  getRecentAlerts_def getUnresolvedAlerts_def consumable_lines_def alert_lines_def asset_cells_def plain_names_def asset_names_def

lemma report_cases:
  assumes "r \<in> set (CANNED_REPORTS fmt)"
  obtains "r = ActiveAssetsCannedReport fmt" | "r = OverdueAssetsCannedReport fmt" | "r = AllInspectionsCannedReport fmt"
    | "r = ExpiringConsumablesCannedReport fmt" | "r = ExpiredConsumablesCannedReport fmt" | "r = RecentAlertsCannedReport fmt"
    | "r = UnresolvedAlertsCannedReport fmt"
  using assms by (auto simp: CANNED_REPORTS_def)

lemma product_labels:
  "map column_label product_columns = [''Product Name'', ''Product Category Name'', ''Product Category Short Name'', ''Manufacturer Name'']"
  by code_simp

lemma active_labels:
  "mapColumns (rp_columns (ActiveAssetsCannedReport fmt)) = [''Created On'', ''Site Name'', ''Tag Serial Number'', ''Name'', ''Serial Number'',
     ''Location'', ''Placement'', ''Setup On'', ''Product Name'', ''Product Category Name'', ''Product Category Short Name'', ''Manufacturer Name'']"
  by code_simp

lemma overdue_labels:
  "mapColumns (rp_columns (OverdueAssetsCannedReport fmt)) = [''Last Inspected'', ''Site Name'', ''Tag Serial Number'', ''Name'', ''Serial Number'',
     ''Location'', ''Placement'', ''Setup On'', ''Product Name'', ''Product Category Name'', ''Product Category Short Name'', ''Manufacturer Name'']"
  by code_simp

lemma inspection_labels:
  "mapColumns (rp_columns (AllInspectionsCannedReport fmt)) = [''Inspection Date'', ''Site Name'', ''Inspector Name'', ''Tag Serial Number'',
     ''Asset Name'', ''Asset Serial Number'', ''Asset Location'', ''Asset Placement'', ''Product Name'', ''Product Category Name'',
     ''Product Category Short Name'', ''Manufacturer Name'']"
  by code_simp

lemma consumable_labels:
  "mapColumns (rp_columns (ExpiringConsumablesCannedReport fmt)) = [''Created On'', ''Expires On'', ''Quantity'', ''Asset Name'', ''Asset Serial Number'',
     ''Asset Location'', ''Asset Placement'', ''Product Name'', ''Product Category Name'', ''Product Category Short Name'', ''Manufacturer Name'', ''Site Name'']"
  by code_simp

lemma alert_labels:
  "map column_label (alert_columns fmt) = [''Created On'', ''Alert Level'', ''Message'', ''Resolved'', ''Resolved On'', ''Resolution Note'',
     ''Inspection Date'', ''Inspector Name'', ''Asset Name'', ''Asset Serial Number'', ''Asset Location'', ''Asset Placement'', ''Product Name'',
     ''Product Category Name'', ''Product Category Short Name'', ''Manufacturer Name'', ''Site Name'']"
  by code_simp

lemma labels_distinct:
  assumes "r \<in> set (CANNED_REPORTS fmt)"
  shows "distinct (mapColumns (rp_columns r))"
  using assms
proof (cases rule: report_cases)
  case 5
  then have "rp_columns r = rp_columns (ExpiringConsumablesCannedReport fmt)" by (simp add: report_defs)
  then show ?thesis by (simp add: consumable_labels)
qed (simp_all add: active_labels overdue_labels inspection_labels consumable_labels,
     simp_all add: RecentAlertsCannedReport_def UnresolvedAlertsCannedReport_def mapColumns_def alert_labels)

lemma update_new_key: "k \<notin> fst ` set m \<Longrightarrow> AList.update k v m = m @ [(k, v)]"
  by (induction m) auto

lemma fromEntries_distinct:
  assumes "distinct (map fst m @ map f cs)"
  shows "foldl (\<lambda>m c. AList.update (f c) (g c) m) m cs = m @ map (\<lambda>c. (f c, g c)) cs"
  using assms
proof (induction cs arbitrary: m)
  case (Cons c cs)
  have "f c \<notin> fst ` set m" using Cons.prems by auto
  then have "AList.update (f c) (g c) m = m @ [(f c, g c)]" by (rule update_new_key)
  then show ?case using Cons by simp
qed simp

lemma mapColumnData_zip:
  assumes "distinct (mapColumns cs)"
  shows "mapColumnData cs row = zip (mapColumns cs) (map (column_value row) cs)"
  unfolding mapColumnData_def by (subst fromEntries_distinct) (use assms in \<open>simp_all add: mapColumns_def zip_map_map zip_same_conv_map\<close>)

lemma joined_names_keys:
  "ns \<in> set (joined_names sess db p s) \<Longrightarrow>
     map fst ns = [''productName'', ''productCategoryName'', ''productCategoryShortName'', ''manufacturerName'', ''siteName'']"
  by (auto simp: joined_names_def split: if_splits)

definition name_keys :: "string list" where
  "name_keys = [''productName'', ''productCategoryName'', ''productCategoryShortName'', ''manufacturerName'', ''siteName'']"

lemma names_keys: "ns \<in> set (joined_names sess db p s) \<Longrightarrow> map fst ns = name_keys"
  unfolding name_keys_def by (rule joined_names_keys)

lemma asset_cells_keys: "length names = 4 \<Longrightarrow> map fst (asset_cells names a) = names"
  by (simp add: asset_cells_def)

lemma name_lengths [simp]: "length plain_names = 4" "length asset_names = 4"
  by (simp_all add: plain_names_def asset_names_def)

lemma getActiveAssets_keys:
  "row \<in> set (getActiveAssets sess db) \<Longrightarrow>
     map fst row = [''id'', ''createdOn''] @ plain_names @ [''setupOn''] @ name_keys @ [''tagSerialNumber'']"
  unfolding getActiveAssets_def by (auto simp: asset_cells_keys names_keys split: if_splits)

lemma getOverdueAssets_keys:
  "row \<in> set (getOverdueAssets sess now c db) \<Longrightarrow>
     map fst row = [''id''] @ plain_names @ [''setupOn''] @ name_keys @ [''tagSerialNumber'', ''lastInspectionDate'']"
  unfolding getOverdueAssets_def by (auto simp: asset_cells_keys names_keys split: if_splits option.splits)

lemma getRecentInspections_keys:
  "row \<in> set (getRecentInspections sess dates db) \<Longrightarrow>
     map fst row = [''id'', ''createdOn'', ''inspectorName''] @ asset_names @ name_keys @ [''tagSerialNumber'']"
  unfolding getRecentInspections_def by (auto simp: asset_cells_keys names_keys split: if_splits)

lemma consumable_lines_keys:
  "row \<in> set (consumable_lines sess P db) \<Longrightarrow>
     map fst row = [''id'', ''createdOn'', ''quantity'', ''expiresOn''] @ asset_names @ name_keys"
  unfolding consumable_lines_def by (auto simp: asset_cells_keys names_keys split: if_splits option.splits)

lemma alert_lines_keys:
  "row \<in> set (alert_lines sess P db) \<Longrightarrow>
     map fst row = [''id'', ''createdOn'', ''alertLevel'', ''message'', ''resolved'', ''resolvedOn'', ''resolutionNote'']
       @ asset_names @ [''inspectionDate'', ''inspectorName''] @ name_keys"
  unfolding alert_lines_def by (auto simp: asset_cells_keys names_keys split: if_splits)

lemma row_key_cases:
  assumes "r \<in> set (CANNED_REPORTS fmt)" and "row \<in> set (rp_build r sess now dates db)"
  obtains keys where "map fst row = keys" and "set (map column_key (rp_columns r)) \<subseteq> set keys" and "''id'' \<in> set keys"
proof -
  note keys = plain_names_def asset_names_def name_keys_def report_defs column_key_def
  show ?thesis
    using assms(1)
  proof (cases rule: report_cases)
    case 1 show ?thesis by (rule that [OF getActiveAssets_keys]) (use assms(2) 1 in \<open>simp_all add: keys\<close>)
  next
    case 2 show ?thesis by (rule that [OF getOverdueAssets_keys]) (use assms(2) 2 in \<open>simp_all add: keys\<close>)
  next
    case 3 show ?thesis by (rule that [OF getRecentInspections_keys]) (use assms(2) 3 in \<open>simp_all add: keys\<close>)
  next
    case 4 show ?thesis by (rule that [OF consumable_lines_keys]) (use assms(2) 4 in \<open>simp_all add: keys getExpiringConsumables_def\<close>)
  next
    case 5 show ?thesis by (rule that [OF consumable_lines_keys]) (use assms(2) 5 in \<open>simp_all add: keys getExpiredConsumables_def\<close>)
  next
    case 6 show ?thesis by (rule that [OF alert_lines_keys]) (use assms(2) 6 in \<open>simp_all add: keys getRecentAlerts_def\<close>)
  next
    case 7 show ?thesis by (rule that [OF alert_lines_keys]) (use assms(2) 7 in \<open>simp_all add: keys getUnresolvedAlerts_def\<close>)
  qed
qed

lemma columns_selected:
  assumes "r \<in> set (CANNED_REPORTS fmt)" and "row \<in> set (rp_build r sess now dates db)"
  shows "column_key ` set (rp_columns r) \<subseteq> fst ` set row"
  by (rule row_key_cases [OF assms]) (metis set_map)

lemma getCannedReport_cases:
  "getCannedReport fmt i = Inr r \<longleftrightarrow> List.find (\<lambda>r. rp_id r = i) (CANNED_REPORTS fmt) = Some r"
  "i \<notin> rp_id ` set (CANNED_REPORTS fmt) \<Longrightarrow> getCannedReport fmt i = Inl (NotFoundException ''Report not found'')"
  by (auto simp: getCannedReport_def find_None_iff split: option.splits dest: find_SomeD)

text \<open>
  C34: the table of a built report is well formed, whatever the tables hold: the report is the one with the requested identifier, its
  headings are pairwise different, every row has exactly the headings as its keys, in their order, so that the CSV file of the same
  rows has one column for each heading; each cell is the value of its column in the row of the query, and each
  column that is read is one the query selects.
\<close>

theorem report_rows_match_columns:
  assumes "buildReport fmt (Inr sess) now i query db = Inr b"
  shows "distinct (br_columns b) \<and> list_all (\<lambda>row. map fst row = br_columns b) (br_data b)
    \<and> (\<exists>r\<in>set (CANNED_REPORTS fmt). rp_id r = i \<and> br_columns b = mapColumns (rp_columns r)
        \<and> br_data b = map (\<lambda>row. zip (br_columns b) (map (column_value row) (rp_columns r))) (rp_build r sess now query db)
        \<and> list_all (\<lambda>row. column_key ` set (rp_columns r) \<subseteq> fst ` set row) (rp_build r sess now query db))"
proof -
  from assms obtain r where f: "getCannedReport fmt i = Inr r"
    and b: "br_data b = map (mapColumnData (rp_columns r)) (rp_build r sess now query db)" "br_columns b = mapColumns (rp_columns r)"
    by (auto simp: buildReport_def bindr_Inr_iff)
  have r: "r \<in> set (CANNED_REPORTS fmt)" "rp_id r = i" using f find_SomeD by (fastforce simp: getCannedReport_cases)+
  note d = labels_distinct [OF r(1)]
  have "br_data b = map (\<lambda>row. zip (br_columns b) (map (column_value row) (rp_columns r))) (rp_build r sess now query db)"
    unfolding b by (simp add: mapColumnData_zip [OF d])
  moreover have "map fst (zip (br_columns b) (map (column_value row) (rp_columns r))) = br_columns b" for row
    by (rule map_fst_zip) (simp add: b mapColumns_def)
  ultimately have data: "br_data b = map (\<lambda>row. zip (br_columns b) (map (column_value row) (rp_columns r))) (rp_build r sess now query db)"
      "list_all (\<lambda>row. map fst row = br_columns b) (br_data b)"
    by (simp_all add: list_all_iff)
  moreover have "list_all (\<lambda>row. column_key ` set (rp_columns r) \<subseteq> fst ` set row) (rp_build r sess now query db)"
    unfolding list_all_iff using columns_selected [OF r(1)] by blast
  ultimately show ?thesis using d r b(2) by metis
qed

subsection \<open>What the reports hold\<close>

lemma shown_people_tenant:
  "shown_people (Tenant ctx) db i \<noteq> [] \<longleftrightarrow>
     (\<exists>p\<in>set (db_persons (rd_tenant db)). pe_id p = i)
     \<and> (\<exists>a\<in>set (db_accesses (rd_tenant db)). pca_personId a = i \<and> validate_client ctx (pca_clientId a))"
  by (auto simp: shown_people_def filter_empty_conv person_visible_def access_visible_def list_ex_iff)

text \<open>
  C28: the audit of inspections loses the work of people who have left. In the session of a tenant, an inspection that the session
  shows, in the range of the query, of an asset, a tag, a product and a site the session shows, is in the audit just
  when its inspector still has an access record of the client: the join with the person is an inner one, and a person
  is shown only to the clients she has access to.
\<close>

theorem audit_lists_iff_inspector_member:
  assumes "i \<in> set (rd_inspections db)" and "distinct (map is_id (rd_inspections db))"
    and "inspection_visible (Tenant ctx) i" and "in_range dates (is_createdOn i)"
    and "a \<in> set (shown_assets (Tenant ctx) db)" and "distinct (map as_id (rd_assets db))" and "as_id a = is_assetId i"
    and "joined_names (Tenant ctx) db (as_productId a) (as_siteId a) \<noteq> []" and "shown_tags (Tenant ctx) db (as_tagId a) \<noteq> []"
    and "\<exists>p\<in>set (db_persons (rd_tenant db)). pe_id p = is_inspectorId i"
  shows "(\<exists>row\<in>set (getRecentInspections (Tenant ctx) dates db). cell_at row ''id'' = Text (is_id i))
    \<longleftrightarrow> (\<exists>x\<in>set (db_accesses (rd_tenant db)). pca_personId x = is_inspectorId i \<and> validate_client ctx (pca_clientId x))"
    (is "?listed \<longleftrightarrow> ?member")
proof
  assume ?listed
  then obtain j p where j: "j \<in> set (rd_inspections db)" "is_id j = is_id i" "p \<in> set (shown_people (Tenant ctx) db (is_inspectorId j))"
    by (auto simp: getRecentInspections_def cell_at_def split: if_splits)
  have "j = i" using j(1,2) assms(1,2) by (auto simp: distinct_map inj_on_def)
  with j(3) have "shown_people (Tenant ctx) db (is_inspectorId i) \<noteq> []" by auto
  then show ?member unfolding shown_people_tenant by blast
next
  assume ?member
  then have "shown_people (Tenant ctx) db (is_inspectorId i) \<noteq> []" unfolding shown_people_tenant using assms(10) by blast
  then obtain p ns t where "p \<in> set (shown_people (Tenant ctx) db (is_inspectorId i))"
    "ns \<in> set (joined_names (Tenant ctx) db (as_productId a) (as_siteId a))" "t \<in> set (shown_tags (Tenant ctx) db (as_tagId a))"
    using assms(8,9) by (meson last_in_set)
  then have "[(''id'', Text (is_id i)), (''createdOn'', Instant (is_createdOn i)), (''inspectorName'', Text (person_name p))]
      @ asset_cells asset_names a @ ns @ [(''tagSerialNumber'', Text (tg_serialNumber t))] \<in> set (getRecentInspections (Tenant ctx) dates db)"
    using assms(1,3,4,5,7) unfolding getRecentInspections_def by (auto simp: image_iff)
  then show ?listed by (rule bexI [rotated]) (simp add: cell_at_def)
qed

lemma consumable_line_iff:
  assumes "c \<in> set (rd_consumables db)" and "distinct (map co_id (rd_consumables db))"
    and "consumable_visible sess (consumable_row.truncate c)" and "joined_names sess db (co_productId c) (co_siteId c) \<noteq> []"
    and "\<exists>a\<in>set (shown_assets sess db). co_assetId c = Some (as_id a) \<and> as_active a"
  shows "(\<exists>row\<in>set (consumable_lines sess P db). cell_at row ''id'' = Text (co_id c)) \<longleftrightarrow> (\<exists>t. co_expiresOn c = Some t \<and> P t)"
    (is "?listed \<longleftrightarrow> ?due")
proof
  assume ?listed
  then obtain d t where d: "d \<in> set (rd_consumables db)" "co_id d = co_id c" "co_expiresOn d = Some t" "P t"
    by (auto simp: consumable_lines_def cell_at_def split: if_splits option.splits)
  have "d = c" using d(1,2) assms(1,2) by (auto simp: distinct_map inj_on_def)
  with d(3,4) show ?due by blast
next
  assume ?due
  then obtain t a ns where "co_expiresOn c = Some t" "P t" "a \<in> set (shown_assets sess db)" "co_assetId c = Some (as_id a)" "as_active a"
    "ns \<in> set (joined_names sess db (co_productId c) (co_siteId c))"
    using assms(4,5) by (meson last_in_set)
  then have "[(''id'', Text (co_id c)), (''createdOn'', Instant (sc_createdOn c)), (''quantity'', Number (sc_quantity c)),
      (''expiresOn'', opt_instant (co_expiresOn c))] @ asset_cells asset_names a @ ns \<in> set (consumable_lines sess P db)"
    using assms(1,3) unfolding consumable_lines_def by (auto simp: image_iff intro!: bexI [of _ c] bexI [of _ ns] bexI [of _ a])
  then show ?listed by (rule bexI [rotated]) (simp add: cell_at_def)
qed

text \<open>
  At every instant but the one of its expiry, a consumable with a date is in exactly one of the two reports on consumables, when
  the expiring ones are asked for without dates, and one without a date is in neither.
\<close>

lemma consumable_reports_partition:
  assumes "c \<in> set (rd_consumables db)" and "distinct (map co_id (rd_consumables db))"
    and "consumable_visible sess (consumable_row.truncate c)" and "joined_names sess db (co_productId c) (co_siteId c) \<noteq> []"
    and "\<exists>a\<in>set (shown_assets sess db). co_assetId c = Some (as_id a) \<and> as_active a"
  shows "(\<exists>row\<in>set (getExpiringConsumables sess now (None, None) db). cell_at row ''id'' = Text (co_id c)) \<longleftrightarrow> (\<exists>t. co_expiresOn c = Some t \<and> now < t)"
    and "(\<exists>row\<in>set (getExpiredConsumables sess now db). cell_at row ''id'' = Text (co_id c)) \<longleftrightarrow> (\<exists>t. co_expiresOn c = Some t \<and> t < now)"
  unfolding getExpiringConsumables_def getExpiredConsumables_def consumable_line_iff [OF assms] by (simp_all add: in_range_def)

lemma alert_lines_mono:
  assumes "\<And>a x. P a x \<Longrightarrow> Q a x"
  shows "set (alert_lines sess P db) \<subseteq> set (alert_lines sess Q db)"
proof -
  have eq: "set (alert_lines sess R db) = (\<Union>x\<in>{x \<in> set (rd_alerts db). alert_visible sess x}.
      \<Union>a\<in>{a \<in> set (shown_assets sess db). as_id a = al_assetId x \<and> R a x}. \<Union>names\<in>set (joined_names sess db (as_productId a) (al_siteId x)).
      \<Union>i\<in>{i \<in> set (rd_inspections db). inspection_visible sess i \<and> is_id i = al_inspectionId x}. F a x names i ` set (shown_people sess db (is_inspectorId i)))"
    if "F = (\<lambda>a x names i p. [(''id'', Text (al_id x)), (''createdOn'', Instant (al_createdOn x)), (''alertLevel'', Text (level_text (al_alertLevel x))),
       (''message'', Text (al_message x)), (''resolved'', Flag (al_resolved x)), (''resolvedOn'', opt_instant (al_resolvedOn x)),
       (''resolutionNote'', opt_text (al_resolutionNote x))] @ asset_cells asset_names a
        @ [(''inspectionDate'', Instant (is_createdOn i)), (''inspectorName'', Text (person_name p))] @ names)" for F R
    unfolding alert_lines_def that by (simp add: Collect_conj_eq split: if_splits)
  show ?thesis unfolding eq [OF HOL.refl] using assms by blast
qed

lemma unresolved_are_recent: "set (getUnresolvedAlerts sess dates db) \<subseteq> set (getRecentAlerts sess dates db)"
  unfolding getUnresolvedAlerts_def getRecentAlerts_def by (rule alert_lines_mono) simp

lemma never_inspected_not_overdue:
  assumes "row \<in> set (getOverdueAssets sess now clientId db)"
  shows "\<exists>a\<in>set (shown_assets sess db). cell_at row ''id'' = Text (as_id a) \<and> as_tagId a \<noteq> None
    \<and> (\<exists>i\<in>set (rd_inspections db). is_assetId i = as_id a)"
proof -
  from assms obtain a l t where a: "a \<in> set (shown_assets sess db)" "cell_at row ''id'' = Text (as_id a)"
    "last_inspected sess db (as_id a) = Some l" "t \<in> set (shown_tags sess db (as_tagId a))"
    unfolding getOverdueAssets_def by (auto simp: cell_at_def split: if_splits option.splits)
  from at0_SomeD [OF a(3) [unfolded last_inspected_def]] have "\<exists>i\<in>set (rd_inspections db). is_assetId i = as_id a" by auto
  moreover have "as_tagId a \<noteq> None" using a(4) by (auto simp: shown_tags_def)
  ultimately show ?thesis using a(1,2) by blast
qed

text \<open>The rows of a report are rows of the session's client.\<close>

definition owned_ids :: "id \<Rightarrow> report_db \<Rightarrow> id set" where
  "owned_ids c db =
     as_id ` {a \<in> set (rd_assets db). as_clientId a = c} \<union> is_id ` {i \<in> set (rd_inspections db). is_clientId i = c}
     \<union> co_id ` {x \<in> set (rd_consumables db). co_clientId x = c} \<union> al_id ` {x \<in> set (rd_alerts db). al_clientId x = c}"

lemma visible_owner:
  "asset_visible (Tenant ctx) (asset_row.truncate a) \<Longrightarrow> as_clientId a = rls_clientId ctx"
  "inspection_visible (Tenant ctx) i \<Longrightarrow> is_clientId i = rls_clientId ctx"
  "consumable_visible (Tenant ctx) (consumable_row.truncate c) \<Longrightarrow> co_clientId c = rls_clientId ctx"
  "alert_visible (Tenant ctx) x \<Longrightarrow> al_clientId x = rls_clientId ctx"
  by (simp_all add: asset_visible_def inspection_visible_def consumable_visible_def alert_visible_def validate_client_def
      asset_row.truncate_def consumable_row.truncate_def)

lemma query_owners:
  "row \<in> set (getActiveAssets (Tenant ctx) db) \<Longrightarrow> \<exists>i\<in>owned_ids (rls_clientId ctx) db. cell_at row ''id'' = Text i"
  "row \<in> set (getOverdueAssets (Tenant ctx) now c db) \<Longrightarrow> \<exists>i\<in>owned_ids (rls_clientId ctx) db. cell_at row ''id'' = Text i"
  "row \<in> set (getRecentInspections (Tenant ctx) dates db) \<Longrightarrow> \<exists>i\<in>owned_ids (rls_clientId ctx) db. cell_at row ''id'' = Text i"
  "row \<in> set (consumable_lines (Tenant ctx) P db) \<Longrightarrow> \<exists>i\<in>owned_ids (rls_clientId ctx) db. cell_at row ''id'' = Text i"
  "row \<in> set (alert_lines (Tenant ctx) Q db) \<Longrightarrow> \<exists>i\<in>owned_ids (rls_clientId ctx) db. cell_at row ''id'' = Text i"
  unfolding getActiveAssets_def getOverdueAssets_def getRecentInspections_def consumable_lines_def alert_lines_def owned_ids_def
  by (auto simp: cell_at_def shown_assets_def visible_owner split: if_splits option.splits)

lemma reports_stay_in_tenant:
  assumes "r \<in> set (CANNED_REPORTS fmt)" and "row \<in> set (rp_build r (Tenant ctx) now dates db)"
  shows "\<exists>i\<in>owned_ids (rls_clientId ctx) db. cell_at row ''id'' = Text i"
proof -
  note owners = query_owners [where row = row and ctx = ctx and db = db]
  show ?thesis
    using assms(1)
  proof (cases rule: report_cases)
    case 1 then show ?thesis using assms(2) owners(1) by (simp add: ActiveAssetsCannedReport_def)
  next
    case 2 then show ?thesis using assms(2) owners(2) by (simp add: OverdueAssetsCannedReport_def)
  next
    case 3 then show ?thesis using assms(2) owners(3) by (simp add: AllInspectionsCannedReport_def)
  next
    case 4 then show ?thesis using assms(2) owners(4) by (simp add: ExpiringConsumablesCannedReport_def getExpiringConsumables_def)
  next
    case 5 then show ?thesis using assms(2) owners(4) by (simp add: ExpiredConsumablesCannedReport_def getExpiredConsumables_def)
  next
    case 6 then show ?thesis using assms(2) owners(5) by (simp add: RecentAlertsCannedReport_def getRecentAlerts_def)
  next
    case 7 then show ?thesis using assms(2) owners(5) by (simp add: UnresolvedAlertsCannedReport_def getUnresolvedAlerts_def)
  qed
qed

subsection \<open>Example\<close>

definition ex_report_session :: rls_context where
  "ex_report_session = \<lparr>rls_personId = ''p1'', rls_clientId = ''c1'', rls_siteId = ''s1'', rls_allowedSiteIds = [], rls_scope = CLIENT\<rparr>"

definition ex_placed :: placed_asset where
  "ex_placed = \<lparr>as_id = ''a1'', as_createdOn = 1, as_setupOn = None, as_configured = True, as_active = True, as_name = ''Extinguisher'',
     as_productId = ''q1'', as_tagId = Some ''t1'', as_serialNumber = ''7'', as_inspectionCycle = None, as_metadata = None,
     as_siteId = ''s1'', as_clientId = ''c1'', pa_location = ''Hall'', pa_placement = ''Wall''\<rparr>"

definition ex_inspected :: "id \<Rightarrow> id \<Rightarrow> inspection_row" where
  "ex_inspected i who = \<lparr>is_id = i, is_createdOn = 5, is_modifiedOn = 5, is_assetId = ''a1'', is_inspectorId = who, is_status = INSPECTION_COMPLETE,
     is_comments = None, is_siteId = ''s1'', is_clientId = ''c1''\<rparr>"

definition ex_somebody :: "id \<Rightarrow> person_row" where
  "ex_somebody i = \<lparr>pe_id = i, pe_firstName = ''A'', pe_lastName = ''B'', pe_email = i @ ''@x'', pe_username = None, pe_idpId = None,
     pe_phoneNumber = None, pe_position = None, pe_active = True\<rparr>"

definition ex_report_db :: report_db where
  \<comment> \<open>\<open>p1\<close> is a member of the client, \<open>p2\<close> was one\<close>
  "ex_report_db = \<lparr>
     rd_tenant = \<lparr>db_clients = [],
       db_sites = [\<lparr>st_id = ''s1'', st_externalId = ''x'', st_name = ''Depot'', st_active = True, st_primary = True, st_parentSiteId = None,
         st_clientId = ''c1'', st_createdOn = 0\<rparr>],
       db_roles = [], db_persons = [ex_somebody ''p1'', ex_somebody ''p2''],
       db_accesses = [\<lparr>pca_id = ''x1'', pca_createdOn = 0, pca_isPrimary = True, pca_personId = ''p1'', pca_clientId = ''c1'', pca_siteId = ''s1'', pca_roleId = ''r''\<rparr>],
       db_invitations = []\<rparr>,
     rd_clients = [], rd_assets = [ex_placed], rd_consumables = [],
     rd_inspections = [ex_inspected ''i1'' ''p1'', ex_inspected ''i2'' ''p2''], rd_alerts = [],
     rd_tags = [\<lparr>tg_id = ''t1'', tg_externalId = ''e'', tg_serialNumber = ''001'', tg_siteId = Some ''s1'', tg_clientId = Some ''c1''\<rparr>],
     rd_products = [\<lparr>pr_id = ''q1'', pr_categoryId = ''k1'', pr_manufacturerId = ''m1'', pr_metadata = None, pr_clientId = None,
       catalog_item.cp_name = ''ABC'', cp_type = PRIMARY_PRODUCT, cp_active = True, cp_parentProductId = None, cp_ansiCategoryId = None\<rparr>],
     rd_categories = [\<lparr>product_category_row.ct_id = ''k1'', ct_name = ''Fire'', ct_shortName = None, ct_active = True, ct_clientId = None\<rparr>],
     rd_manufacturers = [\<lparr>mf_id = ''m1'', mf_name = ''Maker'', mf_homeUrl = None, mf_active = True, mf_clientId = None\<rparr>]\<rparr>"

lemma ex_names: "joined_names (Tenant ex_report_session) ex_report_db ''q1'' ''s1'' =
    [[(''productName'', Text ''ABC''), (''productCategoryName'', Text ''Fire''), (''productCategoryShortName'', Null), (''manufacturerName'', Text ''Maker''),
      (''siteName'', Text ''Depot'')]]"
  by code_simp

lemma ex_shown:
  "shown_assets (Tenant ex_report_session) ex_report_db = [ex_placed]"
  "shown_tags (Tenant ex_report_session) ex_report_db (Some ''t1'') \<noteq> []"
  "inspection_visible (Tenant ex_report_session) (ex_inspected i who)"
  by code_simp+

theorem report_rows_match_columns_witness:
  "\<exists>b. buildReport show_int (Inr (Tenant ex_report_session)) 9 ''recent-inspections'' (None, None) ex_report_db = Inr b
     \<and> length (br_data b) = 1 \<and> list_all (\<lambda>row. map fst row = br_columns b) (br_data b)"
proof -
  have r: "getCannedReport show_int ''recent-inspections'' = Inr (AllInspectionsCannedReport show_int)"
    by (simp add: getCannedReport_def CANNED_REPORTS_def report_defs)
  then obtain b where b: "buildReport show_int (Inr (Tenant ex_report_session)) 9 ''recent-inspections'' (None, None) ex_report_db = Inr b"
    by (simp add: buildReport_def)
  have "length (br_data b) = length (getRecentInspections (Tenant ex_report_session) (None, None) ex_report_db)"
    using b by (auto simp: buildReport_def r AllInspectionsCannedReport_def)
  also have "\<dots> = 1" by code_simp
  finally show ?thesis using b report_rows_match_columns [OF b] by blast
qed

theorem audit_lists_iff_inspector_member_witness:
  "\<not> (\<exists>row\<in>set (getRecentInspections (Tenant ex_report_session) (None, None) ex_report_db). cell_at row ''id'' = Text ''i2'')"
proof -
  have i: "ex_inspected ''i2'' ''p2'' \<in> set (rd_inspections ex_report_db)" "distinct (map is_id (rd_inspections ex_report_db))"
    "distinct (map as_id (rd_assets ex_report_db))" "\<exists>p\<in>set (db_persons (rd_tenant ex_report_db)). pe_id p = ''p2''"
    by (simp_all add: ex_report_db_def ex_inspected_def ex_somebody_def)
  have "\<not> (\<exists>x\<in>set (db_accesses (rd_tenant ex_report_db)). pca_personId x = ''p2'' \<and> validate_client ex_report_session (pca_clientId x))"
    by (simp add: ex_report_db_def)
  moreover have "(\<exists>row\<in>set (getRecentInspections (Tenant ex_report_session) (None, None) ex_report_db). cell_at row ''id'' = Text (is_id (ex_inspected ''i2'' ''p2'')))
      \<longleftrightarrow> (\<exists>x\<in>set (db_accesses (rd_tenant ex_report_db)). pca_personId x = is_inspectorId (ex_inspected ''i2'' ''p2'') \<and> validate_client ex_report_session (pca_clientId x))"
    by (rule audit_lists_iff_inspector_member [where a = ex_placed, OF i(1,2) ex_shown(3) _ _ i(3)])
      (use i(4) ex_shown(1,2) ex_names in \<open>simp_all add: in_range_def ex_inspected_def ex_placed_def\<close>)
  ultimately show ?thesis by (simp add: ex_inspected_def)
qed

end
