(* ===== verification/Spec2Isabelle.thy ===== *)
theory Spec2Isabelle
  imports Request_Guards Members Role_Admin Identity_Sync Keycloak_Groups Tags Inspections Client_Access Asset_Questions Demo_Data Users Product_Requests Settings Sites Events Stats Legacy_Facts Catalog Page_Queries Text_Tables Asset_Access Canned_Reports
begin

text \<open>
  A verification development for shield-api, the multi-tenant service under \<^verbatim>\<open>src/src\<close> (NestJS and
  Prisma over PostgreSQL with row-level security) that manages the safety assets of client organizations:
  who may do what, where assets and tags are, what inspections ask and find, and who is told about it.

  \<^bold>\<open>Parts of the program and how they interact.\<close> A request carries a bearer token and context headers.
  The guards (\<^verbatim>\<open>auth\<close>) validate the token, resolve the access grant of the user for the requested
  client and site through a cache, and check intent, scope and capabilities. The grant becomes the session of
  the database connection (\<^verbatim>\<open>prisma\<close>), whose policies filter every row. Behind the guards are the
  services: invitations, members, roles and own access (\<^verbatim>\<open>clients\<close>, \<^verbatim>\<open>admin\<close>), the
  synchronisation with the identity provider (\<^verbatim>\<open>auth/keycloak\<close>), tags, routes, inspections and
  alerts (\<^verbatim>\<open>assets\<close>), the questions an asset is asked (\<^verbatim>\<open>products/asset-questions\<close>), and
  the reminders and reports (\<^verbatim>\<open>notifications\<close>).

  \<^bold>\<open>Theories and sources.\<close>
  \<^item> \<open>Shield_Prelude\<close>: exceptions as values of \<open>api_error\<close>, results as a sum, the operations of JavaScript
    strings, arrays, sets and maps the sources use. \<open>Js_Text\<close>, \<open>Js_Values\<close>: text encodings, JSON values and
    their conversions.
  \<^item> \<open>Scopes\<close>, \<open>Access_Grants\<close>, \<open>Site_Visibility\<close>: \<^verbatim>\<open>auth/utils/scope.ts\<close>,
    \<^verbatim>\<open>access-grants.ts\<close>, \<^verbatim>\<open>site-visibility.ts\<close>: the order of scopes, the reduction of several
    grants to one, the tree of sites and what a member sees.
  \<^item> \<open>Tenant_Db\<close>, \<open>Asset_Db\<close>, \<open>Rls\<close>: the rows of \<^verbatim>\<open>prisma/schema.prisma\<close>, the policies of the
    migrations and the session of \<^verbatim>\<open>prisma/prisma.service.ts\<close>. A locale states what a policy promises
    of a table (a row that is visible in a tenant session belongs to the session's client) and is interpreted
    for each table.
  \<^item> \<open>Request_Context\<close>, \<open>Auth_Service\<close>, \<open>Auth_Tokens\<close>, \<open>Request_Guards\<close>: \<^verbatim>\<open>auth/auth.service.ts\<close>,
    \<^verbatim>\<open>auth.guard.ts\<close>, \<^verbatim>\<open>policies.guard.ts\<close>: from the request to the grant and the verdict.
  \<^item> \<open>Memory_Cache\<close>: \<^verbatim>\<open>cache/memory-cache.service.ts\<close>; the laws of the cache library are a locale, and
    \<open>getOrSet\<close> is also a step relation over interleaved callers.
  \<^item> \<open>Invitations\<close>, \<open>Members\<close>, \<open>Role_Admin\<close>, \<open>Client_Access\<close>, \<open>Identity_Sync\<close>, \<open>Keycloak_Groups\<close>: the
    services of the same names; each operation is one definition on the state it changes.
  \<^item> \<open>Tag_Tokens\<close>, \<open>Tags\<close>, \<open>Inspection_Routes\<close>, \<open>Alert_Rules\<close>, \<open>Asset_Answers\<close>, \<open>Inspections\<close>:
    \<^verbatim>\<open>assets/**\<close> and \<^verbatim>\<open>common/alert-utils.ts\<close>: signed addresses and inspection tokens, the
    registration of tags, routes with their ordered points, alert rules, what answers trigger, and the
    inspection with its session.
  \<^item> \<open>Asset_Questions\<close>: \<^verbatim>\<open>products/asset-questions\<close>: which questions an asset is asked, the
    configuration check, the migration to conditions.
  \<^item> \<open>Notifications\<close>: \<^verbatim>\<open>notifications/processors\<close>: reminders, monthly reports, alert e-mails.
  \<^item> \<open>Monthly_Reports\<close>: who gets which monthly report and what it must say, as a reference over the rows of the
    tables, that the run mails exactly these reports and that they add up; and the batches of
    \<^verbatim>\<open>notifications/notifications.service.ts\<close>.
  \<^item> \<open>Clients\<close>, \<open>Demo_Data\<close>: \<^verbatim>\<open>clients/clients/clients.service.ts\<close>: creating a client, the copy of a
    demo client, clearing its inspections, the cache of questions as a refinement of a map, and the
    generation and renewal of demo inspections over a stream of random numbers.
  \<^item> \<open>Users\<close>, \<open>Sites\<close>, \<open>Settings\<close>, \<open>Product_Requests\<close>: \<^verbatim>\<open>clients/users\<close>, \<^verbatim>\<open>clients/sites\<close>,
    \<^verbatim>\<open>settings\<close>, \<^verbatim>\<open>assets/product-requests\<close>: profiles, roles and passwords of users, the sites of a
    client and their cached state, settings with defaults, and the life of a product request under its
    policies. \<open>Events\<close>: \<^verbatim>\<open>events\<close>, \<^verbatim>\<open>redis\<close> and the announcements of \<^verbatim>\<open>prisma/prisma.service.ts\<close>:
    who receives an event, and the sharing of subscriptions as a step relation over the calls made on the client
    library, which is a parameter, and their answers, errors included.
  \<^item> \<open>Stats\<close>: \<^verbatim>\<open>stats/stats.service.ts\<close>: the history of compliance, computed from two partial queries,
    against a reference over all inspections.
  \<^item> \<open>Legacy_Db\<close>, \<open>Legacy_Catalog\<close>, \<open>Legacy_Migration\<close>, \<open>Legacy_Isolation\<close>, \<open>Legacy_Facts\<close>:
    \<^verbatim>\<open>legacy-migration\<close>: the import of a client from the old system, written in a monad of state and
    exceptions with weakest preconditions: the sites, assets, routes, tags and categories of other clients are left alone (their manufacturers and products
    may be linked to old rows), each old row is copied at most once, and the choice of the client ends.
  \<^item> \<open>Catalog\<close>: \<^verbatim>\<open>products\<close>: products, categories, manufacturers, ANSI categories, questions and
    conditions under the policies of shared rows, with the cascades of the foreign keys: references stay whole and the
    rows of other clients are left alone, but for links to ANSI categories and the generic manufacturer. \<open>Page_Queries\<close>: the
    pages of every list, when the rows are ordered by a distinguishing key, and the answers to database errors. \<open>Text_Tables\<close>: the tables of plain-text e-mails.
  \<^item> \<open>Asset_Access\<close>: \<^verbatim>\<open>assets/alerts\<close>, the public look-ups of \<^verbatim>\<open>assets/inspections\<close>, \<^verbatim>\<open>m2m\<close>, and
    the offered metadata and team reminders of \<^verbatim>\<open>assets/assets\<close>: an alert is resolved once, and what the public
    history shows to whom.
  \<^item> \<open>Canned_Reports\<close>: \<^verbatim>\<open>assets/reports\<close> with the queries of \<^verbatim>\<open>prisma/sql\<close>: the rows of every
    report fit its headings, stay inside the tenant, and the audit loses the inspections of former members.

  \<^bold>\<open>Correspondence.\<close> A table is a list of rows with the columns the modelled code reads or writes; a query
  is a filter, an \<open>orderBy\<close> a stable sort, a relation a look-up by identifier. A method that throws returns
  \<open>Inl\<close> of the exception; a transaction returns the old state on an exception. Concurrency is modelled where
  the code shares state between callers in memory (\<open>getOrSet\<close>), otherwise one call runs at a time.

  \<^bold>\<open>What the lemmas show.\<close> Authorization: no admitted request lacks the scope, the capabilities or the
  intent its route asks for, grants never exceed an access record, and a tenant session never sees or writes
  another client's row. Life cycles: invitations, inspection sessions, roles and tags move only along their
  transitions. Functional behaviour: visibility, alert evaluation, triggered effects, question matching,
  reminders, each against an independent description. Round trips: tokens, signed addresses, configuration
  answers. Termination and bounds: the site tree, the sharing of one computation, thresholds and batches.
  Where the code does not do what it means to, the theorem states what it does.

  \<^bold>\<open>Bounds and fuel.\<close> The recursion over sites has no guard in the code. The model carries the depth of the
  call stack; one more than the number of sites is enough for every tree without a cycle
  (\<open>buildSiteHierarchy_correct\<close>), and with a cycle no depth is enough. All other recursions are structural.
  Times are integers (milliseconds), numbers of JSON are rationals, and no modelled computation reaches the
  limits of double precision.

  \<^bold>\<open>Parameters.\<close> Code outside the repository is an argument: HMAC and JWT verification, the cache store, the
  identity provider, date-fns and the clock, generated identifiers, the message queue, the object codec. What
  is assumed of them is stated as hypotheses of the theorems or as laws of a locale.

  \<^bold>\<open>Not modelled.\<close> Controllers, modules and DTO classes (wiring), configuration and health, the rendering and
  delivery of e-mails, paginated listings, media and geography helpers.
  Of the services: the
  administration calls of the identity provider, and the plain create, update and delete forwarded to the
  database client.
\<close>

section \<open>Properties across components\<close>

lemma get_after_clears:
  assumes "cache_store ops"
    and "a \<in> set records \<and> k \<in> set (clearAccessGrantResponseCache u (pca_clientId a) (Some (pca_siteId a)) None (\<lambda>ks. ks))
       \<or> co_get ops c k = None"
  shows "co_get ops (foldl (\<lambda>c' a. clearAccessGrantResponseCache u (pca_clientId a) (Some (pca_siteId a)) None
      (cache_mdel ops c')) c records) k = None"
  using assms(2)
proof (induction records arbitrary: c)
  case Nil
  then show ?case by simp
next
  case (Cons b records)
  have "clearAccessGrantResponseCache u (pca_clientId b) (Some (pca_siteId b)) None (cache_mdel ops c) =
      co_mdel ops c (clearAccessGrantResponseCache u (pca_clientId b) (Some (pca_siteId b)) None (\<lambda>ks. ks))"
    by (simp add: clearAccessGrantResponseCache_def cache_mdel_def)
  with Cons.prems show ?case
    unfolding foldl_Cons by (intro Cons.IH) (auto simp: cache_store.get_mdel [OF assms(1)])
qed

text \<open>
  C5: an acceptance takes effect at once: after it, the accepting user's next grant lookup in the
  default context, for the client of one of the new access rows, or for its client and site, is
  answered from the updated tables and not from a stale cache entry, whatever the declared intent.
\<close>

theorem accept_takes_effect_at_once:
  assumes "cache_store ops"
    and "invitations_accept ops env cls code c st = (Inr records, c', st')" and "cls_user cls = Some user"
    and "a \<in> set records" and "pca_siteId a \<noteq> []"
    and "(requestedClientId ctx, requestedSiteId ctx) \<in>
       {(None, None), (Some (pca_clientId a), None), (Some (pca_clientId a), Some (pca_siteId a))}"
  shows "fst (getAccessGrantForUser ops emails (is_db st') user ctx c') =
     getAccessGrantForUserFromDatabase emails (is_db st') user ctx"
proof -
  let ?k = "buildAccessGrantResponseCacheKey (u_idpId user) ctx"
  from assms(2,3) have c': "c' = foldl (\<lambda>c' a. clearAccessGrantResponseCache (u_idpId user) (pca_clientId a)
               (Some (pca_siteId a)) None (cache_mdel ops c')) c records"
    by (auto elim: invitations_acceptE)
  have "ctx\<lparr>accessIntent := None\<rparr> \<in> set (clear_contexts (pca_clientId a) (Some (pca_siteId a)) None)"
    using assms(5,6) by (auto simp: mem_clear_contexts)
  from clear_keys_memI [OF this] assms(4) have "co_get ops c' ?k = None"
    unfolding c' by (intro get_after_clears [OF assms(1), where a = a]) blast
  then show ?thesis
    using getAccessGrant_total [of emails "is_db st'" user ctx]
    by (auto simp: getAccessGrantForUser_def getOrSet_def)
qed

theorem accept_takes_effect_at_once_witness:
  "let (r, c', st') = invitations_accept mem_ops ex_env (ex_cls SITE) ''code-i1''
         (\<lambda>k. Some (Denied no_access_grant (denied_details no_context))) ex_group
   in fst (getAccessGrantForUser mem_ops [] (is_db st') (ex_user ''idp-p1'') no_context c') =
      getAccessGrantForUserFromDatabase [] (is_db st') (ex_user ''idp-p1'') no_context"
proof -
  let ?c = "\<lambda>k. Some (Denied no_access_grant (denied_details no_context))"
  obtain records c' st' where acc: "invitations_accept mem_ops ex_env (ex_cls SITE) ''code-i1'' ?c ex_group
     = (Inr records, c', st')" and sites: "map pca_siteId records = [''s1'', ''s2'']"
    using ex_accept [of mem_ops ?c] by (elim exE conjE)
  from sites have a: "hd records \<in> set records" "pca_siteId (hd records) \<noteq> []" by auto
  have "cls_user (ex_cls SITE) = Some (ex_user ''idp-p1'')" by (simp add: ex_cls_def)
  moreover have "requestedClientId no_context = None" "requestedSiteId no_context = None"
    by (simp_all add: no_context_def)
  ultimately show ?thesis
    using accept_takes_effect_at_once [OF cache_store_mem_ops acc _ a, of _ no_context "[]"] by (simp add: acc)
qed

end
